(* ===== verification/Prelude.thy ===== *)
theory Prelude
  imports Complex_Main "HOL-Library.Word"
begin

text \<open>
  Vocabulary shared by every component of the development: Python results with
  exceptions, Python text, byte strings, fixed-width integers in both byte orders,
  signed PCM16 samples, and list lemmas the component proofs use.

  Python \<open>str\<close> is modelled as \<^typ>\<open>string\<close>: a character is one code point, restricted to
  the range 0 to 255. Python \<open>bytes\<close> are lists of \<^typ>\<open>8 word\<close>. Python integers are
  \<^typ>\<open>int\<close>, or \<^typ>\<open>nat\<close> where the program keeps them non-negative.
\<close>

section \<open>Results and exceptions\<close>

text \<open>
  The exceptions of \<^verbatim>\<open>bridge/errors.py\<close>, of Home Assistant and aiohttp, of \<^verbatim>\<open>realtime_client/websocket.py\<close> and
  \<^verbatim>\<open>config.py\<close>, and the built-in ones the modelled code raises, with their message.
\<close>

datatype py_error =
    ProtocolError string
  | BridgeBusyError string
  | AppServerExited string
  | RpcError string
  | AuthenticationRequired string
  | ToolBrokerUnavailable string
  | WebSocketError string
  | WebSocketClosed string
  | ConfigError string
  | ValueError string
  | TypeError string
  | AttributeError string
  | TimeoutError string
  | RuntimeError string
  | StructError string
  | OSError string
  | OverflowError string
  | RealtimeToolBrokerError string
  | RealtimeToolBrokerProtocolError string
  | HomeAssistantError string
  | ClientError string
  | WSServerHandshakeError int
  | BridgeAuthenticationError string
  | BridgeConnectionError string
  | BridgeProtocolError string
  | BridgeQuotaError string
  | BridgeStreamingUnsupported string
  | IndexError
  | QueueEmpty
  | CancelledError

type_synonym 'a result = "py_error + 'a"

definition bind_result :: "'a result \<Rightarrow> ('a \<Rightarrow> 'b result) \<Rightarrow> 'b result" where
  "bind_result r f = (case r of Inl e \<Rightarrow> Inl e | Inr x \<Rightarrow> f x)"

definition raise_if :: "bool \<Rightarrow> py_error \<Rightarrow> unit result" where
  "raise_if b e = (if b then Inl e else Inr ())"

named_theorems result_simps "equations of the result combinators"

lemma bind_result_Inl [simp]: "bind_result (Inl e) f = Inl e"
  by (simp add: bind_result_def)

lemma bind_result_Inr [simp]: "bind_result (Inr x) f = f x"
  by (simp add: bind_result_def)

lemma raise_if_False [simp]: "raise_if False e = Inr ()"
  by (simp add: raise_if_def)

lemma raise_if_True [simp]: "raise_if True e = Inl e"
  by (simp add: raise_if_def)

lemma bind_result_eq_Inr [result_simps]:
  "bind_result r f = Inr y \<longleftrightarrow> (\<exists>x. r = Inr x \<and> f x = Inr y)"
  by (cases r) auto

lemma raise_if_eq_Inr [result_simps]: "raise_if b e = Inr u \<longleftrightarrow> \<not> b"
  by (simp add: raise_if_def)

lemma raise_if_eq_Inl [result_simps]: "raise_if b e = Inl e' \<longleftrightarrow> b \<and> e' = e"
  by (auto simp: raise_if_def)

definition is_ok :: "'a result \<Rightarrow> bool" where
  "is_ok r = (case r of Inl _ \<Rightarrow> False | Inr _ \<Rightarrow> True)"

lemma is_ok_simps [simp]: "is_ok (Inr x)" "\<not> is_ok (Inl e)"
  by (simp_all add: is_ok_def)

lemma is_ok_iff: "is_ok r \<longleftrightarrow> (\<exists>x. r = Inr x)"
  by (cases r) auto

section \<open>Python text\<close>

definition quoted :: "string \<Rightarrow> string" where
  "quoted s = [CHR 0x27] @ s @ [CHR 0x27]"

definition ord_of :: "char \<Rightarrow> nat" where
  "ord_of c = of_char c"

definition in_span :: "nat \<Rightarrow> nat \<Rightarrow> char \<Rightarrow> bool" where
  "in_span lo hi c \<longleftrightarrow> lo \<le> ord_of c \<and> ord_of c \<le> hi"

definition is_upper_ascii :: "char \<Rightarrow> bool" where
  "is_upper_ascii = in_span 65 90"

definition is_lower_ascii :: "char \<Rightarrow> bool" where
  "is_lower_ascii = in_span 97 122"

definition is_digit_ascii :: "char \<Rightarrow> bool" where
  "is_digit_ascii = in_span 48 57"

definition is_alpha_ascii :: "char \<Rightarrow> bool" where
  "is_alpha_ascii c \<longleftrightarrow> is_upper_ascii c \<or> is_lower_ascii c"

definition is_alnum_ascii :: "char \<Rightarrow> bool" where
  "is_alnum_ascii c \<longleftrightarrow> is_alpha_ascii c \<or> is_digit_ascii c"

definition is_ascii :: "string \<Rightarrow> bool" where
  "is_ascii s \<longleftrightarrow> list_all (\<lambda>c. ord_of c < 128) s"

text \<open>
  \<open>str.lower\<close> on the code points 0 to 255: the ASCII capitals and the Latin-1 capitals
  (all but the multiplication sign 215) move up by 32, everything else is unchanged.
  \<open>str.upper\<close> is used by the code on ASCII letters only.
\<close>

definition lower_char :: "char \<Rightarrow> char" where
  "lower_char c =
     (if is_upper_ascii c \<or> (in_span 192 222 c \<and> ord_of c \<noteq> 215)
      then char_of (ord_of c + 32) else c)"

definition lower :: "string \<Rightarrow> string" where
  "lower s = map lower_char s"

definition upper_char :: "char \<Rightarrow> char" where
  "upper_char c = (if is_lower_ascii c then char_of (ord_of c - 32) else c)"

definition upper :: "string \<Rightarrow> string" where
  "upper s = map upper_char s"

definition title_word :: "string \<Rightarrow> string" where
  "title_word s = (case s of [] \<Rightarrow> [] | c # cs \<Rightarrow> upper_char c # lower cs)"

text \<open>\<open>str.isspace\<close> and \<open>str.isprintable\<close> for the code points 0 to 255.\<close>

definition is_space :: "char \<Rightarrow> bool" where
  "is_space c \<longleftrightarrow> in_span 9 13 c \<or> in_span 28 32 c \<or> ord_of c = 133 \<or> ord_of c = 160"

definition is_printable :: "char \<Rightarrow> bool" where
  "is_printable c \<longleftrightarrow> in_span 32 126 c \<or> (in_span 161 255 c \<and> ord_of c \<noteq> 173)"

definition strip :: "string \<Rightarrow> string" where
  "strip s = rev (dropWhile is_space (rev (dropWhile is_space s)))"

fun split_on :: "char \<Rightarrow> string \<Rightarrow> string list" where
  "split_on sep [] = [[]]"
| "split_on sep (c # cs) =
     (if c = sep then [] # split_on sep cs
      else (case split_on sep cs of
              [] \<Rightarrow> [[c]]
            | w # ws \<Rightarrow> (c # w) # ws))"

fun join_with :: "string \<Rightarrow> string list \<Rightarrow> string" where
  "join_with sep [] = []"
| "join_with sep [w] = w"
| "join_with sep (w # ws) = w @ sep @ join_with sep ws"

text \<open>\<open>str.split()\<close> without argument: the maximal runs of non-space characters.\<close>

fun split_space_from :: "string \<Rightarrow> string \<Rightarrow> string list" where
  "split_space_from word [] = (if word = [] then [] else [rev word])"
| "split_space_from word (c # cs) =
     (if is_space c
      then (if word = [] then split_space_from [] cs else rev word # split_space_from [] cs)
      else split_space_from (c # word) cs)"

definition split_space :: "string \<Rightarrow> string list" where
  "split_space s = split_space_from [] s"

text \<open>The decimal text of an integer, as \<open>str(n)\<close> and \<open>json.dumps\<close> print it.\<close>

fun nat_digits :: "nat \<Rightarrow> string" where
  "nat_digits n =
     (if n < 10 then [char_of (48 + n)] else nat_digits (n div 10) @ [char_of (48 + n mod 10)])"

declare nat_digits.simps [simp del]

definition int_text :: "int \<Rightarrow> string" where
  "int_text i = (if i < 0 then CHR ''-'' # nat_digits (nat (- i)) else nat_digits (nat i))"

text \<open>The results of a comprehension: the first error, or all values.\<close>

fun collect_results :: "'a result list \<Rightarrow> 'a list result" where
  "collect_results [] = Inr []"
| "collect_results (Inl e # rs) = Inl e"
| "collect_results (Inr x # rs) = bind_result (collect_results rs) (\<lambda>xs. Inr (x # xs))"

lemma collect_results_iff: "collect_results rs = Inr xs \<longleftrightarrow> rs = map Inr xs"
  by (induction rs arbitrary: xs rule: collect_results.induct) (auto simp: bind_result_eq_Inr)

lemma split_on_nonempty [simp]: "split_on sep s \<noteq> []"
  by (induction s) (auto split: list.splits)

lemma join_with_Cons: "ws \<noteq> [] \<Longrightarrow> join_with sep (w # ws) = w @ sep @ join_with sep ws"
  by (cases ws) simp_all

lemma join_with_Cons_char: "join_with sep ((c # w) # ws) = c # join_with sep (w # ws)"
  by (cases ws) simp_all

lemma join_split_on [simp]: "join_with [sep] (split_on sep s) = s"
proof (induction s)
  case (Cons c cs)
  obtain w ws where w: "split_on sep cs = w # ws"
    using split_on_nonempty [of sep cs] by (cases "split_on sep cs") simp_all
  with Cons have j: "join_with [sep] (w # ws) = cs" by simp
  show ?case
  proof (cases "c = sep")
    case True
    with w j show ?thesis by simp
  next
    case False
    with w j show ?thesis by (simp add: join_with_Cons_char)
  qed
qed simp

lemma dropWhile_space_fixed: "xs \<noteq> [] \<Longrightarrow> \<not> P (hd xs) \<Longrightarrow> dropWhile P xs = xs"
  by (cases xs) auto

lemma strip_ends: "strip s \<noteq> [] \<Longrightarrow> \<not> is_space (hd (strip s)) \<and> \<not> is_space (last (strip s))"
proof -
  let ?d = "dropWhile is_space s"
  assume n: "strip s \<noteq> []"
  then have l: "dropWhile is_space (rev ?d) \<noteq> []" by (simp add: strip_def)
  then have 1: "\<not> is_space (hd (dropWhile is_space (rev ?d)))" by (rule hd_dropWhile)
  then have last: "\<not> is_space (last (strip s))" using l by (simp add: strip_def last_rev)
  have d: "?d \<noteq> []"
  proof
    assume "?d = []"
    then show False using n by (simp only: strip_def) simp
  qed
  obtain zs where "rev ?d = zs @ dropWhile is_space (rev ?d)" by (metis takeWhile_dropWhile_id)
  then have "?d = strip s @ rev zs" by (metis rev_append rev_rev_ident strip_def)
  then have "hd (strip s) = hd ?d" using n by (metis hd_append2)
  then show ?thesis using hd_dropWhile [OF d] last by simp
qed

lemma strip_trimmed: "s \<noteq> [] \<Longrightarrow> \<not> is_space (hd s) \<Longrightarrow> \<not> is_space (last s) \<Longrightarrow> strip s = s"
  by (simp add: strip_def dropWhile_space_fixed hd_rev)

lemma strip_strip: "strip (strip s) = strip s"
proof (cases "strip s = []")
  case True
  then show ?thesis by (simp only: True) (simp add: strip_def)
next
  case False
  then show ?thesis using strip_ends [OF False] by (intro strip_trimmed) simp_all
qed

lemma length_lower [simp]: "length (lower s) = length s"
  by (simp add: lower_def)

section \<open>Bytes\<close>

type_synonym byte = "8 word"
type_synonym bytes = "byte list"

text \<open>
  \<open>be_nat\<close> reads a big-endian unsigned field (\<open>struct.unpack\<close> with \<open>!H\<close> and \<open>!Q\<close>),
  \<open>be_bytes\<close> writes one of a given width; \<open>le_bytes\<close> is the little-endian writer.
\<close>

definition be_nat :: "bytes \<Rightarrow> nat" where
  "be_nat bs = foldl (\<lambda>acc b. acc * 256 + unat b) 0 bs"

fun le_bytes :: "nat \<Rightarrow> nat \<Rightarrow> bytes" where
  "le_bytes 0 n = []"
| "le_bytes (Suc k) n = of_nat (n mod 256) # le_bytes k (n div 256)"

definition be_bytes :: "nat \<Rightarrow> nat \<Rightarrow> bytes" where
  "be_bytes k n = rev (le_bytes k n)"

fun le_nat :: "bytes \<Rightarrow> nat" where
  "le_nat [] = 0"
| "le_nat (b # bs) = unat b + 256 * le_nat bs"

lemma length_le_bytes [simp]: "length (le_bytes k n) = k"
  by (induction k arbitrary: n) auto

lemma length_be_bytes [simp]: "length (be_bytes k n) = k"
  by (simp add: be_bytes_def)

lemma unat_of_nat_byte [simp]: "unat (of_nat (n mod 256) :: byte) = n mod 256"
  by (simp add: unat_of_nat)

lemma unat_byte_less [simp]: "unat (b :: byte) < 256"
  using unsigned_less [of b, where ?'a = nat] by simp

lemma le_nat_le_bytes: "n < 256 ^ k \<Longrightarrow> le_nat (le_bytes k n) = n"
proof (induction k arbitrary: n)
  case (Suc k)
  then have "n div 256 < 256 ^ k" by (simp add: less_mult_imp_div_less mult.commute)
  with Suc show ?case by simp
qed simp

lemma nth_le_bytes: "i < k \<Longrightarrow> le_bytes k n ! i = of_nat (n div 256 ^ i mod 256)"
  by (induction k arbitrary: n i) (auto simp: nth_Cons div_mult2_eq split: nat.splits)

lemma be_nat_rev: "be_nat (rev bs) = le_nat bs"
  by (induction bs) (auto simp: be_nat_def)

lemma be_nat_be_bytes: "n < 256 ^ k \<Longrightarrow> be_nat (be_bytes k n) = n"
  by (simp add: be_bytes_def be_nat_rev le_nat_le_bytes)

lemma le_bytes_le_nat: "le_bytes (length bs) (le_nat bs) = bs"
proof (induction bs)
  case (Cons b bs)
  have "(unat b + 256 * le_nat bs) mod 256 = unat b" "(unat b + 256 * le_nat bs) div 256 = le_nat bs"
    by simp_all
  with Cons show ?case by simp
qed simp

lemma be_bytes_be_nat: "length bs = k \<Longrightarrow> be_bytes k (be_nat bs) = bs"
  using le_bytes_le_nat [of "rev bs"] be_nat_rev [of "rev bs"] by (simp add: be_bytes_def)

lemma le_nat_less: "le_nat bs < 256 ^ length bs"
proof (induction bs)
  case (Cons b bs)
  have "unat b + 256 * le_nat bs < 256 + 256 * le_nat bs" by simp
  also have "\<dots> = 256 * Suc (le_nat bs)" by simp
  also have "\<dots> \<le> 256 * 256 ^ length bs" using Cons by (intro mult_le_mono2) simp
  finally show ?case by simp
qed simp

lemma be_nat_less: "be_nat bs < 256 ^ length bs"
  using le_nat_less [of "rev bs"] be_nat_rev [of "rev bs"] by simp

lemma le_nat_append: "le_nat (xs @ ys) = le_nat xs + 256 ^ length xs * le_nat ys"
  by (induction xs) (auto simp: algebra_simps)

lemma be_nat_Cons: "be_nat (b # bs) = unat b * 256 ^ length bs + be_nat bs"
  using be_nat_rev [of "rev bs @ [b]"] be_nat_rev [of "rev bs"] by (simp add: le_nat_append)

text \<open>Bit tests on one byte, as arithmetic on its value.\<close>

lemma byte_bit_iff: "bit (b :: byte) n \<longleftrightarrow> odd (unat b div 2 ^ n)"
  using bit_unsigned_iff [of b n, where ?'a = nat] by (simp add: bit_iff_odd)

unbundle bit_operations_syntax

lemma unat_and_low_bits:
  "unat ((b :: byte) AND 127) = unat b mod 128" "unat (b AND 15) = unat b mod 16"
proof -
  have "b AND 127 = take_bit 7 b" "b AND 15 = take_bit 4 b"
    by (simp_all add: take_bit_eq_mask mask_numeral)
  then show "unat (b AND 127) = unat b mod 128" "unat (b AND 15) = unat b mod 16"
    by (simp_all add: take_bit_eq_mod unat_mod)
qed

lemma and_top_bit_eq_0: "(b :: byte) AND 128 = 0 \<longleftrightarrow> unat b < 128"
proof -
  have "b AND 128 = 0 \<longleftrightarrow> even (unat b div 128)"
    using and_exp_eq_0_iff_not_bit [of b 7] byte_bit_iff [of b 7] by simp
  moreover have "unat b div 128 < 2" using unat_byte_less [of b] by linarith
  then have "even (unat b div 128) \<longleftrightarrow> unat b div 128 = 0" by (auto simp: less_2_cases_iff)
  ultimately show ?thesis by (simp add: div_eq_0_iff)
qed

lemma and_middle_bits_eq_0: "(b :: byte) AND 112 = 0 \<longleftrightarrow> unat b div 16 mod 8 = 0"
proof -
  have "b AND 112 = b AND push_bit 4 (mask 3)" by (simp add: mask_numeral)
  also have "\<dots> = push_bit 4 (take_bit 3 (drop_bit 4 b))"
    by (rule bit_eqI) (auto simp: bit_and_iff bit_push_bit_iff bit_take_bit_iff bit_drop_bit_eq bit_mask_iff)
  finally have "unat (b AND 112) = unat b div 16 mod 8 * 16"
    by (simp only: unsigned_push_bit_eq unsigned_take_bit_eq unsigned_drop_bit_eq)
      (simp add: take_bit_eq_mod push_bit_eq_mult drop_bit_eq_div)
  then show ?thesis using unat_0_iff [of "b AND 112"] by simp
qed

section \<open>Signed little-endian PCM16\<close>

definition sample_of :: "byte \<Rightarrow> byte \<Rightarrow> int" where
  "sample_of lo hi =
     (let v = uint lo + 256 * uint hi in if v < 32768 then v else v - 65536)"

fun samples_of_bytes :: "bytes \<Rightarrow> int list" where
  "samples_of_bytes (lo # hi # rest) = sample_of lo hi # samples_of_bytes rest"
| "samples_of_bytes _ = []"

definition bytes_of_sample :: "int \<Rightarrow> bytes" where
  "bytes_of_sample v = [word_of_int (v mod 256), word_of_int (v div 256 mod 256)]"

definition bytes_of_samples :: "int list \<Rightarrow> bytes" where
  "bytes_of_samples vs = concat (map bytes_of_sample vs)"

definition is_pcm16 :: "int \<Rightarrow> bool" where
  "is_pcm16 v \<longleftrightarrow> -32768 \<le> v \<and> v \<le> 32767"

lemma uint_byte_bounds: "0 \<le> uint (b :: byte)" "uint (b :: byte) < 256"
  using unsigned_less [of b, where ?'a = int] by simp_all

lemma sample_of_cases:
  "sample_of lo hi =
     (if uint lo + 256 * uint hi < 32768 then uint lo + 256 * uint hi
      else uint lo + 256 * uint hi - 65536)"
  by (simp add: sample_of_def Let_def)

lemma sample_of_range: "is_pcm16 (sample_of lo hi)"
proof -
  define v where v: "v = uint lo + 256 * uint hi"
  have "0 \<le> v" "v < 65536"
    using uint_byte_bounds [of lo] uint_byte_bounds [of hi] unfolding v by linarith+
  then show ?thesis by (simp add: sample_of_cases is_pcm16_def flip: v)
qed

lemma samples_of_bytes_range: "v \<in> set (samples_of_bytes bs) \<Longrightarrow> is_pcm16 v"
  by (induction bs rule: samples_of_bytes.induct) (auto simp: sample_of_range)

lemma length_samples_of_bytes: "length (samples_of_bytes bs) = length bs div 2"
  by (induction bs rule: samples_of_bytes.induct) auto

lemma split_uint16:
  fixes v :: int
  assumes "-32768 \<le> v" "v \<le> 32767"
  shows "v mod 256 + 256 * (v div 256 mod 256) = (if 0 \<le> v then v else v + 65536)"
proof -
  have v: "v = 256 * (v div 256) + v mod 256" by simp
  have "v div 256 mod 256 = (if 0 \<le> v then v div 256 else v div 256 + 256)"
  proof (cases "0 \<le> v")
    case True
    with assms have "0 \<le> v div 256" "v div 256 < 256" by simp_all
    with True show ?thesis by simp
  next
    case False
    with assms have q: "-128 \<le> v div 256" "v div 256 < 0" by simp_all
    have "v div 256 mod 256 = (v div 256 + 256) mod 256" by simp
    also have "\<dots> = v div 256 + 256" using q by (intro mod_pos_pos_trivial) simp_all
    finally show ?thesis using False by simp
  qed
  with v show ?thesis by (cases "0 \<le> v") simp_all
qed

lemma sample_of_bytes_of_sample:
  assumes "is_pcm16 v"
  shows "sample_of (word_of_int (v mod 256)) (word_of_int (v div 256 mod 256)) = v"
proof -
  have u: "uint (word_of_int (k mod 256) :: byte) = k mod 256" for k :: int
    by (simp add: uint_word_of_int)
  show ?thesis
    using assms split_uint16 [of v] unfolding sample_of_def Let_def u is_pcm16_def by auto
qed

lemma samples_of_bytes_of_samples:
  "\<forall>v \<in> set vs. is_pcm16 v \<Longrightarrow> samples_of_bytes (bytes_of_samples vs) = vs"
  by (induction vs)
    (auto simp: bytes_of_samples_def bytes_of_sample_def sample_of_bytes_of_sample)

lemma bytes_of_sample_of: "bytes_of_sample (sample_of lo hi) = [lo, hi]"
proof -
  define l h where lh: "l = uint lo" "h = uint hi"
  have b: "0 \<le> l" "l < 256" "0 \<le> h" "h < 256"
    using uint_byte_bounds [of lo] uint_byte_bounds [of hi] by (simp_all add: lh)
  have m: "(l + 256 * h) mod 256 = l" "(l + 256 * h) div 256 = h"
    "(l + 256 * h - 65536) mod 256 = l"
    using b by (simp_all add: mod_diff_eq [symmetric])
  have d: "(l + 256 * h - 65536) div 256 = h - 256"
    using b div_add1_eq [of "l + 256 * h" "- 65536" 256] by simp
  have "sample_of lo hi mod 256 = l" "sample_of lo hi div 256 mod 256 = h"
    using b unfolding sample_of_def Let_def lh [symmetric] by (auto simp: m d mod_diff_eq [symmetric])
  then show ?thesis by (simp add: bytes_of_sample_def lh)
qed

lemma bytes_of_samples_of_bytes:
  "even (length bs) \<Longrightarrow> bytes_of_samples (samples_of_bytes bs) = bs"
  by (induction bs rule: samples_of_bytes.induct)
    (auto simp: bytes_of_samples_def bytes_of_sample_of)

lemma length_bytes_of_samples [simp]: "length (bytes_of_samples vs) = 2 * length vs"
  by (induction vs) (auto simp: bytes_of_samples_def bytes_of_sample_def)

lemma bytes_of_samples_append [simp]:
  "bytes_of_samples (xs @ ys) = bytes_of_samples xs @ bytes_of_samples ys"
  by (simp add: bytes_of_samples_def)

lemma bytes_of_samples_Nil [simp]: "bytes_of_samples [] = []"
  by (simp add: bytes_of_samples_def)

lemma samples_of_bytes_append:
  "even (length xs) \<Longrightarrow> samples_of_bytes (xs @ ys) = samples_of_bytes xs @ samples_of_bytes ys"
  by (induction xs rule: samples_of_bytes.induct) auto

section \<open>Lists\<close>

text \<open>Python indexing: a negative index counts from the end, out of range raises.\<close>

definition py_get :: "'a list \<Rightarrow> int \<Rightarrow> 'a result" where
  "py_get xs i =
     (if i < - int (length xs) \<or> int (length xs) \<le> i then Inl IndexError
      else if 0 \<le> i then Inr (xs ! nat i)
      else Inr (xs ! (length xs - nat (- i))))"

lemma py_get_nat: "i < length xs \<Longrightarrow> py_get xs (int i) = Inr (xs ! i)"
  by (simp add: py_get_def)

lemma py_get_diff:
  "b \<le> a \<Longrightarrow> a - b < length xs \<Longrightarrow> py_get xs (int a - int b) = Inr (xs ! (a - b))"
  by (simp add: py_get_nat flip: of_nat_diff)

lemma drop_nth_append: "length xs \<le> i \<Longrightarrow> (xs @ ys) ! i = ys ! (i - length xs)"
  by (simp add: nth_append)

lemma filter_fst_neq_absent: "k \<notin> fst ` set m \<Longrightarrow> filter (\<lambda>p. fst p \<noteq> k) m = m"
  by (induction m) auto

lemma distinct_map_filter_fst:
  "distinct (map fst m) \<Longrightarrow> distinct (map fst (filter P m))"
  by (induction m) auto

end
