(* ===== verification/Json.thy ===== *)
theory Json
  imports Prelude
begin

text \<open>
  The JSON values every wire component reads and writes, as \<^verbatim>\<open>json.loads\<close> delivers them, with
  Python's view of them (\<open>isinstance\<close>, \<open>==\<close> with an integer, truth value, \<open>dict.get\<close>), and the
  compact ASCII serializer \<^verbatim>\<open>json.dumps(v, separators=(",", ":"), ensure_ascii=True)\<close> whose length
  the program bounds. A Python dict is an association list in insertion order. The parser is a
  parameter of the components that use it. \<open>float.__repr__\<close> (the shortest decimal that reads
  back) is the parameter \<open>frepr\<close> of the serializer.
\<close>

section \<open>Values\<close>

datatype pyfloat = Finite rat | NaN | PosInf | NegInf

datatype json =
    JNull
  | JBool bool
  | JInt int
  | JFloat pyfloat
  | JStr string
  | JArr "json list"
  | JObj "(string \<times> json) list"

type_synonym obj = "(string \<times> json) list"

named_theorems json_simps "reading and writing dictionaries"

definition jget :: "obj \<Rightarrow> string \<Rightarrow> json" where
  "jget m k = (case map_of m k of None \<Rightarrow> JNull | Some v \<Rightarrow> v)"

definition jget_default :: "obj \<Rightarrow> string \<Rightarrow> json \<Rightarrow> json" where
  "jget_default m k d = (case map_of m k of None \<Rightarrow> d | Some v \<Rightarrow> v)"

definition has_key :: "obj \<Rightarrow> string \<Rightarrow> bool" where
  "has_key m k \<longleftrightarrow> map_of m k \<noteq> None"

definition keys_of :: "obj \<Rightarrow> string list" where
  "keys_of m = map fst m"

fun is_text :: "json \<Rightarrow> bool" where
  "is_text (JStr _) = True"
| "is_text _ = False"

fun text_of :: "json \<Rightarrow> string option" where
  "text_of (JStr s) = Some s"
| "text_of _ = None"

text \<open>A non-empty string.\<close>

definition non_empty_text :: "json \<Rightarrow> string option" where
  "non_empty_text v = (case v of JStr t \<Rightarrow> if t = [] then None else Some t | _ \<Rightarrow> None)"

fun obj_of :: "json \<Rightarrow> obj option" where
  "obj_of (JObj m) = Some m"
| "obj_of _ = None"

fun arr_of :: "json \<Rightarrow> json list option" where
  "arr_of (JArr vs) = Some vs"
| "arr_of _ = None"

fun bool_of :: "json \<Rightarrow> bool option" where
  "bool_of (JBool b) = Some b"
| "bool_of _ = None"

text \<open>\<open>isinstance(x, int) and not isinstance(x, bool)\<close>, with the integer.\<close>

fun strict_int_of :: "json \<Rightarrow> int option" where
  "strict_int_of (JInt i) = Some i"
| "strict_int_of _ = None"

text \<open>
  \<open>x == n\<close> for a Python integer \<open>n\<close>: \<open>True\<close> equals 1, \<open>False\<close> equals 0, and a float equals
  the integer of the same value.
\<close>

fun equals_int :: "json \<Rightarrow> int \<Rightarrow> bool" where
  "equals_int (JInt i) n = (i = n)"
| "equals_int (JBool b) n = ((if b then 1 else 0) = n)"
| "equals_int (JFloat (Finite q)) n = (q = of_int n)"
| "equals_int _ n = False"

definition equals_text :: "json \<Rightarrow> string \<Rightarrow> bool" where
  "equals_text j s \<longleftrightarrow> j = JStr s"

text \<open>\<open>x is None\<close> for a value taken with \<open>dict.get\<close>.\<close>

definition is_none :: "json \<Rightarrow> bool" where
  "is_none j \<longleftrightarrow> j = JNull"

fun truthy :: "json \<Rightarrow> bool" where
  "truthy JNull = False"
| "truthy (JBool b) = b"
| "truthy (JInt i) = (i \<noteq> 0)"
| "truthy (JFloat f) = (f \<noteq> Finite 0)"
| "truthy (JStr s) = (s \<noteq> [])"
| "truthy (JArr vs) = (vs \<noteq> [])"
| "truthy (JObj m) = (m \<noteq> [])"

lemma text_of_eq_Some [simp]: "text_of j = Some s \<longleftrightarrow> j = JStr s"
  by (cases j) auto

lemma text_of_eq_None: "text_of j = None \<longleftrightarrow> (\<forall>s. j \<noteq> JStr s)"
  by (cases j) auto

lemma obj_of_eq_Some [simp]: "obj_of j = Some m \<longleftrightarrow> j = JObj m"
  by (cases j) auto

lemma arr_of_eq_Some [simp]: "arr_of j = Some vs \<longleftrightarrow> j = JArr vs"
  by (cases j) auto

lemma bool_of_eq_Some [simp]: "bool_of j = Some b \<longleftrightarrow> j = JBool b"
  by (cases j) auto

lemma strict_int_of_eq_Some [simp]: "strict_int_of j = Some i \<longleftrightarrow> j = JInt i"
  by (cases j) auto

section \<open>Dictionary updates\<close>

text \<open>\<open>d[k] = v\<close> keeps the position of an existing key and appends a new one.\<close>

fun dict_set :: "('k \<times> 'v) list \<Rightarrow> 'k \<Rightarrow> 'v \<Rightarrow> ('k \<times> 'v) list" where
  "dict_set [] k v = [(k, v)]"
| "dict_set ((k', v') # m) k v = (if k' = k then (k, v) # m else (k', v') # dict_set m k v)"

definition dict_pop :: "('k \<times> 'v) list \<Rightarrow> 'k \<Rightarrow> ('k \<times> 'v) list" where
  "dict_pop m k = filter (\<lambda>p. fst p \<noteq> k) m"

lemma map_of_dict_set [simp]: "map_of (dict_set m k v) = (map_of m)(k \<mapsto> v)"
  by (induction m k v rule: dict_set.induct) (auto simp: fun_eq_iff)

lemma map_of_dict_pop [simp]: "map_of (dict_pop m k) = (map_of m)(k := None)"
  by (induction m) (auto simp: dict_pop_def fun_eq_iff)

lemma fst_set_dict_set: "fst ` set (dict_set m k v) = insert k (fst ` set m)"
  by (induction m k v rule: dict_set.induct) auto

lemma set_dict_pop: "set (dict_pop m k) = {p \<in> set m. fst p \<noteq> k}"
  by (auto simp: dict_pop_def)

lemma distinct_dict_set: "distinct (map fst m) \<Longrightarrow> distinct (map fst (dict_set m k v))"
proof (induction m k v rule: dict_set.induct)
  case (2 k' v' m k v)
  then show ?case using fst_set_dict_set [of m k v] by auto
qed simp

lemma distinct_dict_pop: "distinct (map fst m) \<Longrightarrow> distinct (map fst (dict_pop m k))"
  by (simp add: dict_pop_def distinct_map_filter_fst)

lemma length_dict_pop_le: "length (dict_pop m k) \<le> length m"
  by (simp add: dict_pop_def)

lemma length_dict_set_le: "length (dict_set m k v) \<le> Suc (length m)"
  by (induction m k v rule: dict_set.induct) auto

lemma dict_set_absent: "k \<notin> fst ` set m \<Longrightarrow> dict_set m k v = m @ [(k, v)]"
  by (induction m k v rule: dict_set.induct) auto

lemma dict_pop_absent: "k \<notin> fst ` set m \<Longrightarrow> dict_pop m k = m"
  by (simp add: dict_pop_def filter_fst_neq_absent)

lemma map_of_None_iff: "map_of m k = None \<longleftrightarrow> k \<notin> fst ` set m"
  by (simp add: map_of_eq_None_iff)

lemma length_dict_pop_present:
  "distinct (map fst m) \<Longrightarrow> k \<in> fst ` set m \<Longrightarrow> Suc (length (dict_pop m k)) = length m"
proof (induction m)
  case (Cons p m)
  show ?case
  proof (cases "fst p = k")
    case True
    with Cons.prems(1) have "dict_pop m k = m" by (auto intro: dict_pop_absent)
    with True show ?thesis by (simp add: dict_pop_def)
  next
    case False
    with Cons show ?thesis by (simp add: dict_pop_def)
  qed
qed simp

lemma has_key_iff [json_simps]: "has_key m k \<longleftrightarrow> k \<in> set (keys_of m)"
  by (auto simp: has_key_def keys_of_def map_of_None_iff)

lemma jget_Nil [simp]: "jget [] k = JNull"
  by (simp add: jget_def)

lemma jget_Cons [simp]: "jget ((k', v) # m) k = (if k = k' then v else jget m k)"
  by (simp add: jget_def)

lemma jget_append:
  "jget (m @ m') k = (if has_key m k then jget m k else jget m' k)"
  by (auto simp: jget_def has_key_def map_add_def split: option.splits)

lemma size_dict_value: "(key, v) \<in> set m \<Longrightarrow> size v < Suc (size_list (size_prod (\<lambda>_. 0) size) m)"
proof (induction m)
  case (Cons p m)
  then show ?case by (cases p) auto
qed simp

text \<open>\<^verbatim>\<open>OrderedDict.move_to_end\<close>.\<close>

definition move_to_end :: "('k \<times> 'v) list \<Rightarrow> 'k \<Rightarrow> ('k \<times> 'v) list" where
  "move_to_end m k = filter (\<lambda>p. fst p \<noteq> k) m @ filter (\<lambda>p. fst p = k) m"

lemma set_move_to_end [simp]: "set (move_to_end m k) = set m"
  by (auto simp: move_to_end_def)

lemma move_to_end_dict_set:
  "distinct (map fst m) \<Longrightarrow> move_to_end (dict_set m k v) k = dict_pop m k @ [(k, v)]"
proof (induction m)
  case (Cons p m)
  obtain a b where p: "p = (a, b)" by (cases p)
  show ?case
  proof (cases "a = k")
    case True
    then have "\<forall>q \<in> set m. fst q \<noteq> k" using Cons.prems p by (auto simp: image_iff)
    then have "filter (\<lambda>q. fst q \<noteq> k) m = m" "filter (\<lambda>q. fst q = k) m = []"
      by (auto simp: filter_id_conv filter_empty_conv)
    then show ?thesis using p True by (simp add: move_to_end_def dict_pop_def)
  next
    case False
    with Cons p show ?thesis by (simp add: move_to_end_def dict_pop_def)
  qed
qed (simp add: move_to_end_def dict_pop_def)

section \<open>Compact serialization\<close>

definition hex_digit :: "nat \<Rightarrow> char" where
  "hex_digit n = (if n < 10 then char_of (48 + n) else char_of (87 + n))"

definition escape_char :: "char \<Rightarrow> string" where
  "escape_char c =
     (if ord_of c = 34 then [char_of (92::nat), char_of (34::nat)]
      else if ord_of c = 92 then [char_of (92::nat), char_of (92::nat)]
      else if ord_of c = 10 then [char_of (92::nat), CHR ''n'']
      else if ord_of c = 13 then [char_of (92::nat), CHR ''r'']
      else if ord_of c = 9 then [char_of (92::nat), CHR ''t'']
      else if ord_of c = 12 then [char_of (92::nat), CHR ''f'']
      else if ord_of c = 8 then [char_of (92::nat), CHR ''b'']
      else if in_span 32 126 c then [c]
      else [char_of (92::nat), CHR ''u'', CHR ''0'', CHR ''0'',
            hex_digit (ord_of c div 16), hex_digit (ord_of c mod 16)])"

definition quote_text :: "string \<Rightarrow> string" where
  "quote_text s = [char_of (34::nat)] @ concat (map escape_char s) @ [char_of (34::nat)]"

function dumps :: "(pyfloat \<Rightarrow> string) \<Rightarrow> json \<Rightarrow> string" where
  "dumps frepr JNull = ''null''"
| "dumps frepr (JBool b) = (if b then ''true'' else ''false'')"
| "dumps frepr (JInt i) = int_text i"
| "dumps frepr (JFloat f) = frepr f"
| "dumps frepr (JStr s) = quote_text s"
| "dumps frepr (JArr vs) = ''['' @ join_with '','' (map (dumps frepr) vs) @ '']''"
| "dumps frepr (JObj m) =
     ''{'' @ join_with '','' (map (\<lambda>p. quote_text (fst p) @ '':'' @ dumps frepr (snd p)) m) @ ''}''"
  by pat_completeness auto
termination
proof (relation "measure (\<lambda>(_, j). size j)", goal_cases)
  case (2 frepr vs v)
  then show ?case by (simp add: size_list_estimation' less_Suc_eq_le)
next
  case (3 frepr m p)
  have "size (snd p) \<le> size_prod (\<lambda>_. 0) size p" by (cases p) simp
  also have "\<dots> \<le> size_list (size_prod (\<lambda>_. 0) size) m"
    using 3 by (simp add: size_list_estimation')
  finally show ?case by simp
qed simp

text \<open>\<open>allow_nan=False\<close>: the values the strict serializer accepts.\<close>

function finite_json :: "json \<Rightarrow> bool" where
  "finite_json (JFloat f) = (case f of Finite _ \<Rightarrow> True | _ \<Rightarrow> False)"
| "finite_json (JArr vs) = list_all finite_json vs"
| "finite_json (JObj m) = list_all (\<lambda>p. finite_json (snd p)) m"
| "finite_json JNull = True"
| "finite_json (JBool b) = True"
| "finite_json (JInt i) = True"
| "finite_json (JStr s) = True"
  by pat_completeness auto
termination
proof (relation "measure size", goal_cases)
  case (2 vs v)
  then show ?case by (simp add: size_list_estimation' less_Suc_eq_le)
next
  case (3 m p)
  have "size (snd p) \<le> size_prod (\<lambda>_. 0) size p" by (cases p) simp
  also have "\<dots> \<le> size_list (size_prod (\<lambda>_. 0) size) m"
    using 3 by (simp add: size_list_estimation')
  finally show ?case by simp
qed simp

definition dumps_strict :: "(pyfloat \<Rightarrow> string) \<Rightarrow> json \<Rightarrow> string result" where
  "dumps_strict frepr j =
     (if finite_json j then Inr (dumps frepr j)
      else Inl (ValueError ''Out of range float values are not JSON compliant''))"

lemma length_escape_char: "length (escape_char c) \<le> 6"
  by (simp add: escape_char_def)

lemma escape_char_plain:
  "in_span 32 126 c \<Longrightarrow> ord_of c \<noteq> 34 \<Longrightarrow> ord_of c \<noteq> 92 \<Longrightarrow> escape_char c = [c]"
  by (auto simp: escape_char_def in_span_def)

lemma length_quote_text: "length (quote_text s) \<le> 6 * length s + 2"
proof -
  have "length (concat (map escape_char s)) \<le> 6 * length s"
  proof (induction s)
    case (Cons c s)
    then show ?case using length_escape_char [of c] by simp
  qed simp
  then show ?thesis by (simp add: quote_text_def)
qed

end
