(* ===== verification/Wire.thy ===== *)
theory Wire
  imports Json "HOL-Library.Char_ord" "HOL-Library.List_Lexorder"
begin

text \<open>
  The device-facing realtime wire contract of \<^verbatim>\<open>bridge/realtime_wire.py\<close>: negotiation of the
  protocol version from the \<^verbatim>\<open>start\<close> object, the fields of the \<^verbatim>\<open>started\<close> acknowledgement, and the
  content-free view of provider data events. \<^verbatim>\<open>json.loads\<close> is the parameter \<open>loads\<close>; \<open>None\<close> stands
  for the decode errors the code catches.
\<close>

section \<open>Constants\<close>

definition LEGACY_PROTOCOL_VERSION :: int where
  "LEGACY_PROTOCOL_VERSION = 1"

definition BINARY_PROTOCOL_VERSION :: int where
  "BINARY_PROTOCOL_VERSION = 2"

definition REALTIME_SAMPLE_RATE :: int where
  "REALTIME_SAMPLE_RATE = 24000"

definition MIN_PCM_SAMPLE_RATE :: int where
  "MIN_PCM_SAMPLE_RATE = 8000"

definition MAX_PCM_SAMPLE_RATE :: int where
  "MAX_PCM_SAMPLE_RATE = 192000"

definition V2_START_FIELDS :: "string list" where
  "V2_START_FIELDS =
     [''audio_transport'', ''conversation_mode'', ''conversation_id'', ''input_channels'',
      ''input_sample_rate'', ''prompt'', ''protocol_version'', ''type'', ''voice'']"

definition DATA_CONTROL_EVENT_TYPES :: "string list" where
  "DATA_CONTROL_EVENT_TYPES =
     [''input_audio_buffer.committed'', ''input_audio_buffer.speech_started'',
      ''input_audio_buffer.speech_stopped'', ''output_audio_buffer.started'',
      ''output_audio_buffer.stopped'', ''response.cancelled'', ''response.created'',
      ''response.done'', ''session.context.appended'', ''session.started'',
      ''session.updated'', ''turn.created'', ''turn.done'']"

lemmas wire_constants =
  LEGACY_PROTOCOL_VERSION_def BINARY_PROTOCOL_VERSION_def REALTIME_SAMPLE_RATE_def
  MIN_PCM_SAMPLE_RATE_def MAX_PCM_SAMPLE_RATE_def

section \<open>Negotiation\<close>

record wire_protocol =
  wp_version :: int
  wp_audio_transport :: string
  wp_input_sample_rate :: int
  wp_input_channels :: int
  wp_conversation_mode :: "string option"

definition uses_binary_audio :: "wire_protocol \<Rightarrow> bool" where
  "uses_binary_audio p \<longleftrightarrow> wp_version p = BINARY_PROTOCOL_VERSION"

definition requires_native_conversation :: "wire_protocol \<Rightarrow> bool" where
  "requires_native_conversation p \<longleftrightarrow> wp_conversation_mode p = Some ''native''"

definition required_integer :: "obj \<Rightarrow> string \<Rightarrow> int result" where
  "required_integer value key =
     (case strict_int_of (jget value key) of
        None \<Rightarrow> Inl (ProtocolError (key @ '' must be an integer''))
      | Some i \<Rightarrow> Inr i)"

definition optional_bounded_text :: "obj \<Rightarrow> string \<Rightarrow> nat \<Rightarrow> unit result" where
  "optional_bounded_text value key maximum =
     (if \<not> has_key value key then Inr ()
      else (case text_of (jget value key) of
              None \<Rightarrow> Inl (ProtocolError
                (key @ '' must be non-empty text up to '' @ int_text (int maximum) @ '' characters''))
            | Some s \<Rightarrow> raise_if (s = [] \<or> maximum < length s) (ProtocolError
                (key @ '' must be non-empty text up to '' @ int_text (int maximum) @ '' characters''))))"

definition validate_v2_start :: "obj \<Rightarrow> unit result" where
  "validate_v2_start start =
     bind_result (raise_if (has_key start ''tools'')
       (ProtocolError ''protocol_version 2 does not accept device tools'')) (\<lambda>_.
     let unsupported = sort (remdups (filter (\<lambda>k. k \<notin> set V2_START_FIELDS) (keys_of start))) in
     bind_result (raise_if (unsupported \<noteq> [])
       (ProtocolError (''protocol_version 2 start contains unsupported fields: ''
          @ join_with '', '' unsupported))) (\<lambda>_.
     bind_result (raise_if (has_key start ''conversation_mode''
         \<and> jget start ''conversation_mode'' \<noteq> JStr ''native'')
       (ProtocolError (''conversation_mode must be '' @ quoted ''native''))) (\<lambda>_.
     bind_result (optional_bounded_text start ''conversation_id'' 128) (\<lambda>_.
     bind_result (optional_bounded_text start ''voice'' 64) (\<lambda>_.
     optional_bounded_text start ''prompt'' 4096)))))"

text \<open>
  \<^verbatim>\<open>transport not in {None, "json_base64"}\<close> hashes the value, so a list or an object there
  raises \<open>TypeError\<close> before the membership test can reject it.
\<close>

fun unhashable :: "json \<Rightarrow> bool" where
  "unhashable (JArr _) = True"
| "unhashable (JObj _) = True"
| "unhashable _ = False"

definition negotiate :: "obj \<Rightarrow> wire_protocol result" where
  "negotiate start =
     (case strict_int_of
         (jget_default start ''protocol_version'' (JInt LEGACY_PROTOCOL_VERSION)) of
        None \<Rightarrow> Inl (ProtocolError ''protocol_version must be 1 or 2'')
      | Some raw_version \<Rightarrow>
          if raw_version = LEGACY_PROTOCOL_VERSION then
            if has_key start ''conversation_mode''
            then Inl (ProtocolError ''conversation_mode requires protocol_version 2'')
            else
              let transport = jget start ''audio_transport'' in
              if unhashable transport then Inl (TypeError ''unhashable type'')
              else if transport \<noteq> JNull \<and> transport \<noteq> JStr ''json_base64''
              then Inl (ProtocolError ''protocol_version 1 supports only JSON/base64 audio'')
              else Inr \<lparr>wp_version = LEGACY_PROTOCOL_VERSION,
                        wp_audio_transport = ''json_base64'',
                        wp_input_sample_rate = REALTIME_SAMPLE_RATE,
                        wp_input_channels = 1,
                        wp_conversation_mode = None\<rparr>
          else if raw_version \<noteq> BINARY_PROTOCOL_VERSION
          then Inl (ProtocolError ''protocol_version must be 1 or 2'')
          else if jget start ''audio_transport'' \<noteq> JStr ''binary''
          then Inl (ProtocolError (''protocol_version 2 requires audio_transport '' @ quoted ''binary''))
          else
            bind_result (required_integer start ''input_sample_rate'') (\<lambda>sample_rate.
            if \<not> (MIN_PCM_SAMPLE_RATE \<le> sample_rate \<and> sample_rate \<le> MAX_PCM_SAMPLE_RATE)
            then Inl (ProtocolError
              ''input_sample_rate must be between 8000 and 192000 Hz'')
            else
              bind_result (required_integer start ''input_channels'') (\<lambda>channels.
              if channels \<noteq> 1
              then Inl (ProtocolError ''protocol_version 2 requires input_channels 1'')
              else
                bind_result (validate_v2_start start) (\<lambda>_.
                Inr \<lparr>wp_version = BINARY_PROTOCOL_VERSION,
                     wp_audio_transport = ''binary'',
                     wp_input_sample_rate = sample_rate,
                     wp_input_channels = channels,
                     wp_conversation_mode =
                       (if jget start ''conversation_mode'' = JStr ''native''
                        then Some ''native'' else None)\<rparr>))))"

definition started_fields :: "wire_protocol \<Rightarrow> obj" where
  "started_fields p =
     (if \<not> uses_binary_audio p then []
      else
        [(''protocol_version'', JInt (wp_version p)),
         (''audio_transport'', JStr (wp_audio_transport p)),
         (''input_sample_rate'', JInt (wp_input_sample_rate p)),
         (''input_channels'', JInt (wp_input_channels p)),
         (''output_sample_rate'', JInt REALTIME_SAMPLE_RATE),
         (''output_channels'', JInt 1),
         (''capabilities'', JObj
            [(''binary_pcm16'', JBool True),
             (''local_flush'', JBool True),
             (''remote_cancel'', JBool False),
             (''same_session_interrupt_ack'', JBool True)])]
        @ (case wp_conversation_mode p of
             None \<Rightarrow> []
           | Some mode \<Rightarrow> [(''conversation_mode'', JStr mode)]))"

section \<open>Provider data events\<close>

record realtime_data_control =
  rdc_event_type :: string
  rdc_role :: "string option"
  rdc_response_cancelled :: bool
  rdc_response_id :: "string option"
  rdc_turn_id :: "string option"
  rdc_transcript :: "string option"

definition wire_value :: "realtime_data_control \<Rightarrow> obj" where
  "wire_value c = [(''type'', JStr ''control''), (''event_type'', JStr (rdc_event_type c))]"

definition normalize_role :: "json \<Rightarrow> string option" where
  "normalize_role candidate =
     (case text_of candidate of
        None \<Rightarrow> None
      | Some s \<Rightarrow>
          let normalized = lower s in
          if normalized = ''input'' \<or> normalized = ''user'' then Some ''user''
          else if normalized = ''output'' \<or> normalized = ''assistant'' then Some ''assistant''
          else None)"

text \<open>The roles of the loop, as a list without repetition; \<open>None\<close> is the early return.\<close>

fun collect_roles :: "json list \<Rightarrow> string list \<Rightarrow> string list option" where
  "collect_roles [] roles = Some roles"
| "collect_roles (c # cs) roles =
     (case normalize_role c of
        None \<Rightarrow> None
      | Some r \<Rightarrow> collect_roles cs (List.insert r roles))"

definition nested_roles :: "obj \<Rightarrow> string \<Rightarrow> json list" where
  "nested_roles value key =
     (case obj_of (jget value key) of
        None \<Rightarrow> []
      | Some nested \<Rightarrow> if has_key nested ''role'' then [jget nested ''role''] else [])"

definition role_candidates :: "obj \<Rightarrow> json list" where
  "role_candidates value =
     (if has_key value ''role'' then [jget value ''role''] else [])
     @ concat (map (nested_roles value) [''turn'', ''response'', ''item''])"

definition event_role :: "obj \<Rightarrow> string option" where
  "event_role value =
     (case collect_roles (role_candidates value) [] of
        Some [r] \<Rightarrow> Some r
      | _ \<Rightarrow> None)"

definition event_confirms_response_cancelled :: "obj \<Rightarrow> string \<Rightarrow> bool" where
  "event_confirms_response_cancelled value event_type =
     (if event_type = ''response.cancelled'' then True
      else if event_type \<noteq> ''response.done'' then False
      else
        let nested = (case obj_of (jget value ''response'') of
                        None \<Rightarrow> JNull | Some response \<Rightarrow> jget response ''status'');
            status = (if is_none nested then jget value ''status'' else nested)
        in (case text_of status of
              None \<Rightarrow> False
            | Some s \<Rightarrow> lower s = ''cancelled'' \<or> lower s = ''canceled''))"

definition non_empty :: "string \<Rightarrow> string option" where
  "non_empty s = (if s = [] then None else Some s)"

fun first_text :: "obj \<Rightarrow> string list \<Rightarrow> string option" where
  "first_text value [] = None"
| "first_text value (k # ks) =
     (case text_of (jget value k) of
        None \<Rightarrow> first_text value ks
      | Some s \<Rightarrow> if s \<noteq> [] then Some s else first_text value ks)"

definition nested_id :: "obj \<Rightarrow> string \<Rightarrow> string option" where
  "nested_id value key =
     (case obj_of (jget value key) of
        None \<Rightarrow> None
      | Some nested \<Rightarrow> text_of (jget nested ''id''))"

definition event_response_id :: "obj \<Rightarrow> string option" where
  "event_response_id value =
     (case nested_id value ''response'' of
        Some s \<Rightarrow> non_empty s
      | None \<Rightarrow> first_text value [''response_id'', ''responseId''])"

definition event_turn_id :: "obj \<Rightarrow> string option" where
  "event_turn_id value =
     (case nested_id value ''turn'' of
        Some s \<Rightarrow> non_empty s
      | None \<Rightarrow> first_text value [''turn_id'', ''turnId''])"

definition event_transcript :: "obj \<Rightarrow> string option" where
  "event_transcript value =
     (case obj_of (jget value ''turn'') of
        Some turn \<Rightarrow> (case text_of (jget turn ''transcript'') of
            Some s \<Rightarrow> Some s
          | None \<Rightarrow> text_of (jget value ''transcript''))
      | None \<Rightarrow> text_of (jget value ''transcript''))"

definition parse_data_control_event ::
    "('raw \<Rightarrow> json option) \<Rightarrow> 'raw \<Rightarrow> realtime_data_control option" where
  "parse_data_control_event loads value =
     (case loads value of
        None \<Rightarrow> None
      | Some j \<Rightarrow>
          (case obj_of j of
             None \<Rightarrow> None
           | Some decoded \<Rightarrow>
               (case text_of (jget decoded ''type'') of
                  None \<Rightarrow> None
                | Some event_type \<Rightarrow>
                    if event_type \<notin> set DATA_CONTROL_EVENT_TYPES then None
                    else Some
                      \<lparr>rdc_event_type = event_type,
                       rdc_role = event_role decoded,
                       rdc_response_cancelled =
                         event_confirms_response_cancelled decoded event_type,
                       rdc_response_id = event_response_id decoded,
                       rdc_turn_id = event_turn_id decoded,
                       rdc_transcript = event_transcript decoded\<rparr>)))"

definition sanitized_data_control_event ::
    "('raw \<Rightarrow> json option) \<Rightarrow> 'raw \<Rightarrow> obj option" where
  "sanitized_data_control_event loads value =
     map_option wire_value (parse_data_control_event loads value)"

section \<open>What a start object must look like\<close>

text \<open>The declarative reading of the two accepted start shapes.\<close>

definition bounded_text_field :: "obj \<Rightarrow> string \<Rightarrow> nat \<Rightarrow> bool" where
  "bounded_text_field start key maximum \<longleftrightarrow>
     has_key start key \<longrightarrow>
       (\<exists>s. jget start key = JStr s \<and> s \<noteq> [] \<and> length s \<le> maximum)"

definition legacy_start :: "obj \<Rightarrow> bool" where
  "legacy_start start \<longleftrightarrow>
     jget_default start ''protocol_version'' (JInt 1) = JInt 1
     \<and> \<not> has_key start ''conversation_mode''
     \<and> jget start ''audio_transport'' \<in> {JNull, JStr ''json_base64''}"

definition binary_start :: "obj \<Rightarrow> int \<Rightarrow> bool" where
  "binary_start start rate \<longleftrightarrow>
     jget start ''protocol_version'' = JInt 2
     \<and> jget start ''audio_transport'' = JStr ''binary''
     \<and> jget start ''input_sample_rate'' = JInt rate \<and> 8000 \<le> rate \<and> rate \<le> 192000
     \<and> jget start ''input_channels'' = JInt 1
     \<and> set (keys_of start) \<subseteq> set V2_START_FIELDS
     \<and> (has_key start ''conversation_mode'' \<longrightarrow> jget start ''conversation_mode'' = JStr ''native'')
     \<and> bounded_text_field start ''conversation_id'' 128
     \<and> bounded_text_field start ''voice'' 64
     \<and> bounded_text_field start ''prompt'' 4096"

definition legacy_protocol :: wire_protocol where
  "legacy_protocol =
     \<lparr>wp_version = 1, wp_audio_transport = ''json_base64'', wp_input_sample_rate = 24000,
      wp_input_channels = 1, wp_conversation_mode = None\<rparr>"

definition binary_protocol :: "obj \<Rightarrow> int \<Rightarrow> wire_protocol" where
  "binary_protocol start rate =
     \<lparr>wp_version = 2, wp_audio_transport = ''binary'', wp_input_sample_rate = rate,
      wp_input_channels = 1,
      wp_conversation_mode = (if has_key start ''conversation_mode'' then Some ''native'' else None)\<rparr>"

lemma required_integer_ok [result_simps]:
  "required_integer m k = Inr i \<longleftrightarrow> jget m k = JInt i"
  by (auto simp: required_integer_def split: option.splits)

lemma optional_bounded_text_ok [result_simps]:
  "optional_bounded_text m k n = Inr u \<longleftrightarrow> bounded_text_field m k n"
  by (auto simp: optional_bounded_text_def bounded_text_field_def raise_if_def text_of_eq_None
      split: option.splits)

lemma jget_non_null_has_key: "jget m k = v \<Longrightarrow> v \<noteq> JNull \<Longrightarrow> has_key m k"
  by (auto simp: jget_def has_key_def split: option.splits)

lemma sort_remdups_Nil: "sort (remdups xs) = [] \<longleftrightarrow> xs = []"
  by (metis remdups_eq_nil_iff set_empty set_sort)

lemma validate_v2_start_ok:
  "validate_v2_start start = Inr u \<longleftrightarrow>
     set (keys_of start) \<subseteq> set V2_START_FIELDS
     \<and> (has_key start ''conversation_mode'' \<longrightarrow> jget start ''conversation_mode'' = JStr ''native'')
     \<and> bounded_text_field start ''conversation_id'' 128
     \<and> bounded_text_field start ''voice'' 64
     \<and> bounded_text_field start ''prompt'' 4096"
proof -
  have tools: "set (keys_of start) \<subseteq> set V2_START_FIELDS \<Longrightarrow> \<not> has_key start ''tools''"
    by (auto simp: has_key_iff V2_START_FIELDS_def)
  have unsupported: "sort (remdups (filter (\<lambda>k. k \<notin> set V2_START_FIELDS) (keys_of start))) = []
      \<longleftrightarrow> set (keys_of start) \<subseteq> set V2_START_FIELDS"
    unfolding sort_remdups_Nil by (auto simp: filter_empty_conv)
  show ?thesis
    unfolding validate_v2_start_def Let_def bind_result_eq_Inr raise_if_eq_Inr
      optional_bounded_text_ok not_not unsupported using tools by auto
qed

section \<open>Negotiation is the declarative contract\<close>

lemma negotiate_legacy: "legacy_start start \<Longrightarrow> negotiate start = Inr legacy_protocol"
  by (auto simp: negotiate_def legacy_start_def legacy_protocol_def wire_constants)

lemma negotiate_binary:
  assumes "binary_start start rate"
  shows "negotiate start = Inr (binary_protocol start rate)"
proof -
  have "has_key start ''protocol_version''"
    using assms by (auto simp: binary_start_def intro: jget_non_null_has_key)
  then have v: "jget_default start ''protocol_version'' (JInt 1) = JInt 2"
    using assms
    by (auto simp: jget_default_def binary_start_def jget_def has_key_def split: option.splits)
  have c: "jget start ''conversation_mode'' = JStr ''native'' \<longleftrightarrow> has_key start ''conversation_mode''"
    using assms jget_non_null_has_key by (auto simp: binary_start_def)
  have val: "validate_v2_start start = Inr ()"
    using assms by (simp add: validate_v2_start_ok binary_start_def)
  have i: "required_integer start ''input_sample_rate'' = Inr rate"
    "required_integer start ''input_channels'' = Inr 1"
    using assms by (simp_all add: required_integer_ok binary_start_def)
  show ?thesis
    using assms by (simp add: negotiate_def wire_constants v c val i binary_protocol_def binary_start_def)
qed

lemma negotiate_cases:
  assumes "negotiate start = Inr p"
  shows "(legacy_start start \<and> p = legacy_protocol)
    \<or> (\<exists>rate. binary_start start rate \<and> p = binary_protocol start rate)"
proof -
  obtain v where v: "jget_default start ''protocol_version'' (JInt 1) = JInt v"
    using assms by (auto simp: negotiate_def wire_constants split: option.splits)
  consider "v = 1" | "v = 2"
    using assms v by (auto simp: negotiate_def wire_constants split: if_splits)
  then show ?thesis
  proof cases
    case 1
    with assms v have "legacy_start start"
      by (auto simp: negotiate_def legacy_start_def wire_constants Let_def split: if_splits)
    then show ?thesis using assms negotiate_legacy by auto
  next
    case 2
    then have pv: "jget start ''protocol_version'' = JInt 2"
      using v by (auto simp: jget_default_def jget_def split: option.splits)
    from assms v 2 have "\<exists>rate. binary_start start rate"
      by (auto simp: negotiate_def wire_constants bind_result_eq_Inr required_integer_ok
          validate_v2_start_ok binary_start_def pv split: if_splits)
    then show ?thesis using assms negotiate_binary by auto
  qed
qed

lemma collect_roles_iff:
  "collect_roles cs roles = Some rs \<longleftrightarrow>
     list_all (\<lambda>c. normalize_role c \<noteq> None) cs
     \<and> rs = fold (\<lambda>c. List.insert (the (normalize_role c))) cs roles"
  by (induction cs arbitrary: roles) (auto split: option.splits)

lemma fold_insert_singleton:
  "fold (\<lambda>c. List.insert (f c)) cs [r] = [r'] \<longleftrightarrow> r' = r \<and> (\<forall>c \<in> set cs. f c = r)"
proof (induction cs arbitrary: r)
  case (Cons c cs)
  show ?case
  proof (cases "f c = r")
    case True
    with Cons show ?thesis by simp
  next
    case False
    have grow: "length rs \<le> length (fold (\<lambda>c. List.insert (f c)) cs rs)" for rs
    proof (induction cs arbitrary: rs)
      case (Cons c cs)
      have "length rs \<le> length (List.insert (f c) rs)" by (simp add: List.insert_def)
      also note Cons [of "List.insert (f c) rs"]
      finally show ?case by simp
    qed simp
    from False have "2 \<le> length (fold (\<lambda>c. List.insert (f c)) (c # cs) [r])"
      using grow [of "[f c, r]"] by simp
    then show ?thesis using False by (auto)
  qed
qed auto

lemma option_eq_Some_the: "x = Some r \<longleftrightarrow> x \<noteq> None \<and> the x = r"
  by (cases x) auto

section \<open>Properties\<close>

text \<open>\<^verbatim>\<open>RealtimeWireProtocol.negotiate\<close> accepts exactly the two declared start shapes, and the
  protocol it returns is determined by the shape: a version 1 start (the default) without
  \<^verbatim>\<open>conversation_mode\<close> and with JSON audio, or a version 2 start that names binary audio, a rate from 8 to
  192 kHz, one channel, only the nine allowed fields, at most the native mode, and bounded texts.\<close>

theorem negotiate_iff:
  "negotiate start = Inr p \<longleftrightarrow>
     (legacy_start start \<and> p = legacy_protocol)
     \<or> (\<exists>rate. binary_start start rate \<and> p = binary_protocol start rate)"
  using negotiate_cases negotiate_legacy negotiate_binary by blast

text \<open>The device sees nothing of a provider data event but its allowlisted type: the sanitized event
  exists exactly when the payload decodes to an object whose \<^verbatim>\<open>type\<close> is an allowlisted text, and then it
  is the control object with that type and no other field, whatever else the payload holds.\<close>

theorem sanitized_event_is_content_free:
  "sanitized_data_control_event loads raw = Some w \<longleftrightarrow>
     (\<exists>m t. loads raw = Some (JObj m) \<and> jget m ''type'' = JStr t
        \<and> t \<in> set DATA_CONTROL_EVENT_TYPES
        \<and> w = [(''type'', JStr ''control''), (''event_type'', JStr t)])"
  unfolding sanitized_data_control_event_def parse_data_control_event_def wire_value_def
  by (auto split: option.splits if_splits)

text \<open>A role is attributed to a data event only by agreement: \<^verbatim>\<open>_event_role\<close> returns a role exactly
  when the event names at least one role (at the top level or in its turn, response or item) and
  every named role normalizes to the returned one; a missing, unknown, non-text or conflicting role
  gives none.\<close>

theorem event_role_agreement:
  "event_role value = Some r \<longleftrightarrow>
     role_candidates value \<noteq> [] \<and> list_all (\<lambda>c. normalize_role c = Some r) (role_candidates value)"
proof (cases "role_candidates value")
  case Nil
  then show ?thesis by (simp add: event_role_def)
next
  case (Cons c cs)
  have "event_role value = Some r \<longleftrightarrow> collect_roles (c # cs) [] = Some [r]"
    unfolding event_role_def Cons by (auto split: option.splits list.splits)
  also have "\<dots> \<longleftrightarrow> list_all (\<lambda>c. normalize_role c = Some r) (c # cs)"
    unfolding collect_roles_iff option_eq_Some_the [of _ r]
    by (auto simp: list_all_iff eq_commute [of "[r]"] fold_insert_singleton List.insert_def)
  finally show ?thesis using Cons by simp
qed

end
