(* ===== verification/Tool_Registration.thy ===== *)
theory Tool_Registration
  imports Wire
begin

text \<open>
  Validation of a Home Assistant tool registration and of tool payloads, from
  \<^verbatim>\<open>bridge/tool_broker.py\<close>: bounded text, bounded JSON, tool names, BCP-47 language tags and the
  immutable snapshot the broker binds to one generation.
\<close>

section \<open>Bounds\<close>

definition TOOL_BROKER_PROTOCOL_VERSION :: int where "TOOL_BROKER_PROTOCOL_VERSION = 1"
definition MAX_AUTHORITY_ID_CHARS :: nat where "MAX_AUTHORITY_ID_CHARS = 256"
definition MAX_LANGUAGE_CHARS :: nat where "MAX_LANGUAGE_CHARS = 35"
definition MAX_INSTRUCTIONS_CHARS :: nat where "MAX_INSTRUCTIONS_CHARS = 64 * 1024"
definition MAX_TOOL_COUNT :: nat where "MAX_TOOL_COUNT = 128"
definition MAX_TOOL_NAME_CHARS :: nat where "MAX_TOOL_NAME_CHARS = 256"
definition MAX_TOOL_SCHEMA_BYTES :: nat where "MAX_TOOL_SCHEMA_BYTES = 64 * 1024"
definition MAX_TOOL_ARGUMENT_BYTES :: nat where "MAX_TOOL_ARGUMENT_BYTES = 64 * 1024"
definition MAX_TOOL_RESULT_BYTES :: nat where "MAX_TOOL_RESULT_BYTES = 64 * 1024"
definition MAX_PENDING_TOOL_CALLS :: nat where "MAX_PENDING_TOOL_CALLS = 16"
definition MAX_RETIRED_TOOL_CALLS :: nat where "MAX_RETIRED_TOOL_CALLS = 128"
definition MAX_TOOL_DESCRIPTION_CHARS :: nat where "MAX_TOOL_DESCRIPTION_CHARS = 8 * 1024"

lemmas tool_bounds =
  MAX_AUTHORITY_ID_CHARS_def MAX_LANGUAGE_CHARS_def MAX_INSTRUCTIONS_CHARS_def MAX_TOOL_COUNT_def
  MAX_TOOL_NAME_CHARS_def MAX_TOOL_SCHEMA_BYTES_def MAX_TOOL_ARGUMENT_BYTES_def
  MAX_TOOL_RESULT_BYTES_def MAX_TOOL_DESCRIPTION_CHARS_def

section \<open>Field validators\<close>

definition has_control_character :: "string \<Rightarrow> bool" where
  "has_control_character s \<longleftrightarrow>
     list_ex (\<lambda>c. ord_of c < 32 \<and> ord_of c \<noteq> 10 \<and> ord_of c \<noteq> 9) s"

definition bounded_text :: "json \<Rightarrow> nat \<Rightarrow> string \<Rightarrow> bool \<Rightarrow> string result" where
  "bounded_text value maximum label allow_empty =
     (case text_of value of
        None \<Rightarrow> Inl (ProtocolError (''Home Assistant broker '' @ label @ '' is invalid''))
      | Some s \<Rightarrow>
          if (\<not> allow_empty \<and> s = []) \<or> maximum < length s \<or> has_control_character s
          then Inl (ProtocolError (''Home Assistant broker '' @ label @ '' is invalid''))
          else Inr s)"

definition bounded_json :: "(pyfloat \<Rightarrow> string) \<Rightarrow> json \<Rightarrow> nat \<Rightarrow> string \<Rightarrow> unit result" where
  "bounded_json frepr value maximum label =
     (case dumps_strict frepr value of
        Inl _ \<Rightarrow> Inl (ProtocolError (''Home Assistant broker '' @ label @ '' is not JSON''))
      | Inr encoded \<Rightarrow> raise_if (maximum < length encoded)
          (ProtocolError (''Home Assistant broker '' @ label @ '' exceeds its size limit'')))"

text \<open>The regular expression \<^verbatim>\<open>[A-Za-z_][A-Za-z0-9_.-]{0,255}\Z\<close>, matched in full.\<close>

definition tool_name_char :: "char \<Rightarrow> bool" where
  "tool_name_char c \<longleftrightarrow> is_alnum_ascii c \<or> c \<in> {CHR ''_'', CHR ''.'', CHR ''-''}"

definition valid_tool_name :: "string \<Rightarrow> bool" where
  "valid_tool_name s =
     (case s of
        [] \<Rightarrow> False
      | c # cs \<Rightarrow> (is_alpha_ascii c \<or> c = CHR ''_'') \<and> length cs \<le> 255 \<and> list_all tool_name_char cs)"

definition canonical_part :: "string \<Rightarrow> string" where
  "canonical_part part =
     (if length part = 4 \<and> list_all is_alpha_ascii part then title_word part
      else if length part = 2 \<and> list_all is_alpha_ascii part then upper part
      else lower part)"

definition canonical_language :: "string \<Rightarrow> string result" where
  "canonical_language value =
     (case split_on (CHR ''-'') value of
        [] \<Rightarrow> Inl IndexError
      | primary # parts \<Rightarrow>
          if \<not> (2 \<le> length primary \<and> length primary \<le> 8) \<or> \<not> list_all is_alpha_ascii primary
             \<or> list_ex (\<lambda>part. \<not> (1 \<le> length part \<and> length part \<le> 8) \<or> \<not> list_all is_alnum_ascii part) parts
          then Inl (ProtocolError ''Home Assistant broker language must be a valid BCP-47 tag'')
          else Inr (join_with ''-'' (lower primary # map canonical_part parts)))"

section \<open>The registration message\<close>

record tool =
  tool_name :: string
  tool_description :: string
  tool_parameters :: obj

record snapshot =
  sn_generation :: string
  sn_authority_id :: string
  sn_language :: string
  sn_instructions :: string
  sn_tools :: "tool list"
  sn_tool_names :: "string set"

text \<open>The body of the loop over the declared tools, with the names seen so far.\<close>

definition validated_tool :: "(pyfloat \<Rightarrow> string) \<Rightarrow> string set \<Rightarrow> json \<Rightarrow> tool result" where
  "validated_tool frepr names raw =
     (case obj_of raw of
        None \<Rightarrow> Inl (ProtocolError ''Home Assistant broker tool must be an object'')
      | Some raw_tool \<Rightarrow>
          let parameters = jget_default raw_tool ''parameters'' (jget raw_tool ''inputSchema'') in
          (case text_of (jget raw_tool ''name'') of
             None \<Rightarrow> Inl (ProtocolError ''Home Assistant broker tool name is invalid or duplicate'')
           | Some name \<Rightarrow>
               if MAX_TOOL_NAME_CHARS < length name \<or> \<not> valid_tool_name name \<or> name \<in> names
               then Inl (ProtocolError ''Home Assistant broker tool name is invalid or duplicate'')
               else
                 (case text_of (jget_default raw_tool ''description'' (JStr [])) of
                    None \<Rightarrow> Inl (ProtocolError ''Home Assistant broker tool description is invalid'')
                  | Some description \<Rightarrow>
                      if MAX_TOOL_DESCRIPTION_CHARS < length description
                      then Inl (ProtocolError ''Home Assistant broker tool description is invalid'')
                      else
                        (case obj_of parameters of
                           None \<Rightarrow> Inl (ProtocolError ''Home Assistant broker tool schema must be an object'')
                         | Some schema \<Rightarrow>
                             bind_result (bounded_json frepr (JObj schema) MAX_TOOL_SCHEMA_BYTES ''tool schema'') (\<lambda>_.
                             Inr \<lparr>tool_name = name, tool_description = description,
                                  tool_parameters = schema\<rparr>)))))"

fun validated_tools ::
    "(pyfloat \<Rightarrow> string) \<Rightarrow> json list \<Rightarrow> tool list \<Rightarrow> string set \<Rightarrow> (tool list \<times> string set) result" where
  "validated_tools frepr [] tools names = Inr (tools, names)"
| "validated_tools frepr (raw # raws) tools names =
     bind_result (validated_tool frepr names raw) (\<lambda>t.
     validated_tools frepr raws (tools @ [t]) (insert (tool_name t) names))"

definition validated_registration :: "(pyfloat \<Rightarrow> string) \<Rightarrow> obj \<Rightarrow> snapshot result" where
  "validated_registration frepr value =
     bind_result (raise_if (jget value ''type'' \<noteq> JStr ''register'')
       (ProtocolError ''first Home Assistant tool broker message must register'')) (\<lambda>_.
     bind_result (raise_if (\<not> equals_int (jget value ''protocol_version'') TOOL_BROKER_PROTOCOL_VERSION)
       (ProtocolError ''unsupported Home Assistant tool broker protocol'')) (\<lambda>_.
     bind_result (bounded_text (jget value ''authority_id'') MAX_AUTHORITY_ID_CHARS
       ''authority_id'' False) (\<lambda>authority_id.
     bind_result (bounded_text (jget value ''language'') MAX_LANGUAGE_CHARS
       ''language'' False) (\<lambda>raw_language.
     bind_result (canonical_language raw_language) (\<lambda>language.
     bind_result (bounded_text (jget_default value ''instructions'' (JStr []))
       MAX_INSTRUCTIONS_CHARS ''instructions'' True) (\<lambda>instructions.
     (case arr_of (jget value ''tools'') of
        None \<Rightarrow> Inl (ProtocolError ''Home Assistant broker tools must be a bounded list'')
      | Some raw_tools \<Rightarrow>
          if MAX_TOOL_COUNT < length raw_tools
          then Inl (ProtocolError ''Home Assistant broker tools must be a bounded list'')
          else
            bind_result (validated_tools frepr raw_tools [] {}) (\<lambda>(tools, names).
            Inr \<lparr>sn_generation = [], sn_authority_id = authority_id, sn_language = language,
                 sn_instructions = instructions, sn_tools = tools, sn_tool_names = names\<rparr>))))))))"

section \<open>Well-formed snapshots\<close>

definition wf_text :: "string \<Rightarrow> nat \<Rightarrow> bool" where
  "wf_text s maximum \<longleftrightarrow> length s \<le> maximum \<and> \<not> has_control_character s"

definition wf_tool :: "(pyfloat \<Rightarrow> string) \<Rightarrow> tool \<Rightarrow> bool" where
  "wf_tool frepr t \<longleftrightarrow>
     valid_tool_name (tool_name t)
     \<and> length (tool_description t) \<le> 8192
     \<and> finite_json (JObj (tool_parameters t))
     \<and> length (dumps frepr (JObj (tool_parameters t))) \<le> 65536"

definition wf_tools :: "(pyfloat \<Rightarrow> string) \<Rightarrow> tool list \<Rightarrow> string set \<Rightarrow> bool" where
  "wf_tools frepr tools names \<longleftrightarrow>
     list_all (wf_tool frepr) tools \<and> distinct (map tool_name tools)
     \<and> names = set (map tool_name tools)"

definition wf_snapshot :: "(pyfloat \<Rightarrow> string) \<Rightarrow> snapshot \<Rightarrow> bool" where
  "wf_snapshot frepr s \<longleftrightarrow>
     sn_authority_id s \<noteq> [] \<and> wf_text (sn_authority_id s) 256
     \<and> canonical_language (sn_language s) = Inr (sn_language s) \<and> length (sn_language s) \<le> 35
     \<and> wf_text (sn_instructions s) 65536
     \<and> length (sn_tools s) \<le> 128
     \<and> wf_tools frepr (sn_tools s) (sn_tool_names s)"

lemma bounded_text_ok [result_simps]:
  "bounded_text v n l e = Inr s \<longleftrightarrow> v = JStr s \<and> wf_text s n \<and> (s = [] \<longrightarrow> e)"
  by (auto simp: bounded_text_def wf_text_def split: option.splits if_splits)

lemma bounded_json_ok [result_simps]:
  "bounded_json frepr v n l = Inr u \<longleftrightarrow> finite_json v \<and> length (dumps frepr v) \<le> n"
  by (auto simp: bounded_json_def dumps_strict_def raise_if_def)

lemma validated_tool_ok:
  "validated_tool frepr names raw = Inr t \<Longrightarrow> wf_tool frepr t \<and> tool_name t \<notin> names"
  by (auto simp: validated_tool_def wf_tool_def Let_def result_simps MAX_TOOL_SCHEMA_BYTES_def
      MAX_TOOL_DESCRIPTION_CHARS_def split: option.splits if_splits)

lemma validated_tools_ok:
  "validated_tools frepr raws tools names = Inr (tools', names') \<Longrightarrow> wf_tools frepr tools names \<Longrightarrow>
   wf_tools frepr tools' names' \<and> length tools' = length tools + length raws"
proof (induction raws arbitrary: tools names)
  case (Cons raw raws)
  then obtain t where t: "validated_tool frepr names raw = Inr t"
    and rest: "validated_tools frepr raws (tools @ [t]) (insert (tool_name t) names) = Inr (tools', names')"
    by (auto simp: result_simps)
  have "wf_tools frepr (tools @ [t]) (insert (tool_name t) names)"
    using validated_tool_ok [OF t] Cons.prems(2) by (auto simp: wf_tools_def)
  from Cons.IH [OF rest this] show ?case by simp
qed simp

section \<open>Canonical language tags\<close>

lemma alpha_upper_lower:
  "is_alpha_ascii c \<longleftrightarrow> is_upper_ascii c \<or> is_lower_ascii c"
  by (rule is_alpha_ascii_def)

lemma ord_of_char_of: "n < 256 \<Longrightarrow> ord_of (char_of n) = n"
  by (simp add: ord_of_def)

lemma ord_of_less: "ord_of c < 256"
  using of_char_of [of "of_char c"] unfolding ord_of_def by (simp add: less_eq_char_def)

lemmas char_classes =
  is_alpha_ascii_def is_upper_ascii_def is_lower_ascii_def is_alnum_ascii_def is_digit_ascii_def
  in_span_def

lemma lower_char_alpha [simp]: "is_alpha_ascii (lower_char c) \<longleftrightarrow> is_alpha_ascii c"
  by (auto simp: lower_char_def char_classes ord_of_char_of)

lemma upper_char_alpha [simp]: "is_alpha_ascii (upper_char c) \<longleftrightarrow> is_alpha_ascii c"
  by (auto simp: upper_char_def char_classes ord_of_char_of)

lemma lower_char_alnum [simp]: "is_alnum_ascii (lower_char c) \<longleftrightarrow> is_alnum_ascii c"
  by (auto simp: lower_char_def char_classes ord_of_char_of)

lemma upper_char_alnum [simp]: "is_alnum_ascii (upper_char c) \<longleftrightarrow> is_alnum_ascii c"
  by (auto simp: upper_char_def char_classes ord_of_char_of)

lemma lower_char_idem [simp]: "lower_char (lower_char c) = lower_char c"
  by (auto simp: lower_char_def char_classes ord_of_char_of)

lemma upper_char_idem [simp]: "upper_char (upper_char c) = upper_char c"
  by (auto simp: upper_char_def char_classes ord_of_char_of)

lemma lower_upper_char [simp]: "is_alpha_ascii c \<Longrightarrow> lower_char (upper_char c) = lower_char c"
proof -
  have "ord_of c < 123 \<Longrightarrow> 97 \<le> ord_of c \<Longrightarrow> char_of (ord_of c - 32 + 32) = c"
    by (simp add: ord_of_def)
  moreover assume "is_alpha_ascii c"
  ultimately show ?thesis
    by (auto simp: upper_char_def lower_char_def char_classes ord_of_char_of)
qed

lemma split_join:
  "ws \<noteq> [] \<Longrightarrow> list_all (\<lambda>w. sep \<notin> set w) ws \<Longrightarrow> split_on sep (join_with [sep] ws) = ws"
proof (induction ws)
  case (Cons w ws)
  have plain: "sep \<notin> set w \<Longrightarrow> split_on sep w = [w]" for w
    by (induction w) auto
  have app: "sep \<notin> set w \<Longrightarrow> split_on sep (w @ sep # v) = w # split_on sep v" for w v
    by (induction w) auto
  show ?case
  proof (cases ws)
    case Nil
    then show ?thesis using Cons.prems plain by simp
  next
    case (Cons w' ws')
    then show ?thesis using Cons.prems Cons.IH app by simp
  qed
qed simp

lemma lower_dash: "lower_char (CHR ''-'') = CHR ''-''"
  by (simp add: lower_char_def char_classes ord_of_def)

lemma lower_join: "lower (join_with ''-'' ws) = join_with ''-'' (map lower ws)"
  by (induction "''-''" ws rule: join_with.induct) (auto simp: lower_def lower_dash)

lemma length_canonical_part: "length (canonical_part p) = length p"
  by (auto simp: canonical_part_def title_word_def upper_def split: list.splits)

lemma alnum_no_dash: "list_all is_alnum_ascii w \<Longrightarrow> CHR ''-'' \<notin> set w"
  by (auto simp: list_all_iff char_classes ord_of_def)

lemma alpha_alnum: "is_alpha_ascii c \<Longrightarrow> is_alnum_ascii c"
  by (simp add: is_alnum_ascii_def)

lemma list_all_lower:
  "list_all is_alpha_ascii (lower p) = list_all is_alpha_ascii p"
  "list_all is_alnum_ascii (lower p) = list_all is_alnum_ascii p"
  by (simp_all add: lower_def list_all_iff)

lemma list_all_upper:
  "list_all is_alpha_ascii (upper p) = list_all is_alpha_ascii p"
  "list_all is_alnum_ascii (upper p) = list_all is_alnum_ascii p"
  by (simp_all add: upper_def list_all_iff)

lemma list_all_title:
  "list_all is_alpha_ascii (title_word p) = list_all is_alpha_ascii p"
  "list_all is_alnum_ascii (title_word p) = list_all is_alnum_ascii p"
  by (auto simp: title_word_def list_all_lower split: list.splits)

lemmas list_all_cased = list_all_lower list_all_upper list_all_title

lemma cased_idem:
  "lower (lower p) = lower p" "upper (upper p) = upper p" "title_word (title_word p) = title_word p"
  by (auto simp: lower_def upper_def title_word_def split: list.splits)

lemma canonical_part_alnum:
  "list_all is_alnum_ascii (canonical_part p) = list_all is_alnum_ascii p"
  by (auto simp: canonical_part_def list_all_cased)

lemma canonical_part_alpha:
  "list_all is_alpha_ascii (canonical_part p) = list_all is_alpha_ascii p"
  by (auto simp: canonical_part_def list_all_cased)

lemma canonical_part_idem [simp]: "canonical_part (canonical_part p) = canonical_part p"
  unfolding canonical_part_def [of "canonical_part p"] length_canonical_part canonical_part_alpha
  by (auto simp: canonical_part_def cased_idem)

lemma lower_canonical_part:
  "list_all is_alnum_ascii p \<Longrightarrow> lower (canonical_part p) = lower p"
  by (auto simp: canonical_part_def cased_idem)
    (auto simp: lower_def upper_def title_word_def list_all_iff split: list.splits)

lemma canonical_language_ok:
  assumes "canonical_language value = Inr tag"
  obtains primary parts where
    "split_on (CHR ''-'') value = primary # parts"
    and "2 \<le> length primary" "length primary \<le> 8" "list_all is_alpha_ascii primary"
    and "list_all (\<lambda>p. 1 \<le> length p \<and> length p \<le> 8 \<and> list_all is_alnum_ascii p) parts"
    and "tag = join_with ''-'' (lower primary # map canonical_part parts)"
  using assms
  by (auto simp: canonical_language_def list_all_iff list_ex_iff split: list.splits if_splits)

lemma canonical_language_props:
  assumes "canonical_language value = Inr tag"
  shows "canonical_language tag = Inr tag" "lower tag = lower value" "length tag = length value"
proof -
  obtain primary parts where sp: "split_on (CHR ''-'') value = primary # parts"
    and pr: "2 \<le> length primary" "length primary \<le> 8" "list_all is_alpha_ascii primary"
    and pa: "list_all (\<lambda>p. 1 \<le> length p \<and> length p \<le> 8 \<and> list_all is_alnum_ascii p) parts"
    and tag: "tag = join_with ''-'' (lower primary # map canonical_part parts)"
    by (rule canonical_language_ok [OF assms])
  have alnum: "list_all is_alnum_ascii (lower primary)"
    using pr(3) list_all_lower(1) [of primary] by (auto simp: list_all_iff alpha_alnum)
  have "CHR ''-'' \<notin> set (canonical_part p)" if "p \<in> set parts" for p
  proof (rule alnum_no_dash)
    have "list_all is_alnum_ascii p" using pa that by (simp add: list_all_iff)
    then show "list_all is_alnum_ascii (canonical_part p)" by (simp add: canonical_part_alnum)
  qed
  then have dash: "list_all (\<lambda>w. CHR ''-'' \<notin> set w) (lower primary # map canonical_part parts)"
    using alnum_no_dash [OF alnum] by (auto simp: list_all_iff)
  have "split_on (CHR ''-'') tag = lower primary # map canonical_part parts"
    unfolding tag using split_join [OF _ dash] by simp
  moreover have "list_all (\<lambda>p. 1 \<le> length p \<and> length p \<le> 8 \<and> list_all is_alnum_ascii p)
      (map canonical_part parts)"
    using pa by (simp add: list.pred_map comp_def length_canonical_part canonical_part_alnum)
  ultimately show "canonical_language tag = Inr tag"
    using pr list_all_lower(1) [of primary]
    by (auto simp: canonical_language_def list_all_iff list_ex_iff tag cased_idem comp_def)
  have src: "value = join_with ''-'' (primary # parts)"
    using join_split_on [of "CHR ''-''" "value"] sp by simp
  have "map lower (map canonical_part parts) = map lower parts"
    using pa by (auto simp: list_all_iff lower_canonical_part)
  then show low: "lower tag = lower value"
    unfolding tag src lower_join by (simp add: cased_idem comp_def cong: map_cong)
  show "length tag = length value" using arg_cong [OF low, of length] by simp
qed

lemma validated_registration_ok:
  assumes "validated_registration frepr value = Inr s"
  shows "wf_snapshot frepr s"
proof -
  obtain language raws tools names where
    lang: "canonical_language language = Inr (sn_language s)" "wf_text language 35"
    and raws: "\<not> MAX_TOOL_COUNT < length raws"
    and tools: "validated_tools frepr raws [] {} = Inr (tools, names)"
    and s: "sn_tools s = tools" "sn_tool_names s = names"
    and a: "sn_authority_id s \<noteq> []" "wf_text (sn_authority_id s) 256"
    and i: "wf_text (sn_instructions s) 65536"
    using assms
    by (auto simp: validated_registration_def result_simps MAX_AUTHORITY_ID_CHARS_def
        MAX_LANGUAGE_CHARS_def MAX_INSTRUCTIONS_CHARS_def split: option.splits if_splits)
  have "wf_tools frepr tools names" "length tools = length raws"
    using validated_tools_ok [OF tools] by (auto simp: wf_tools_def)
  moreover have "length (sn_language s) \<le> 35"
    using canonical_language_props(3) [OF lang(1)] lang(2) by (simp add: wf_text_def)
  ultimately show ?thesis
    using canonical_language_props(1) [OF lang(1)] raws s a i
    by (simp add: wf_snapshot_def MAX_TOOL_COUNT_def)
qed

section \<open>A concrete registration\<close>

definition sample_registration :: obj where
  "sample_registration =
     [(''type'', JStr ''register''), (''protocol_version'', JInt 1),
      (''authority_id'', JStr ''a1''), (''language'', JStr ''es-mx''),
      (''tools'', JArr [JObj [(''name'', JStr ''HassTurnOn''), (''inputSchema'', JObj [])]])]"

definition sample_snapshot :: snapshot where
  "sample_snapshot =
     \<lparr>sn_generation = [], sn_authority_id = ''a1'', sn_language = ''es-MX'',
      sn_instructions = [],
      sn_tools = [\<lparr>tool_name = ''HassTurnOn'', tool_description = [], tool_parameters = []\<rparr>],
      sn_tool_names = {''HassTurnOn''}\<rparr>"

lemma sample_registration_ok:
  "validated_registration (\<lambda>_. []) sample_registration = Inr sample_snapshot"
  by (simp add: sample_registration_def sample_snapshot_def validated_registration_def bounded_text_def
      has_control_character_def ord_of_def validated_tool_def bounded_json_def dumps_strict_def
      canonical_language_def canonical_part_def valid_tool_name_def tool_name_char_def
      TOOL_BROKER_PROTOCOL_VERSION_def jget_default_def tool_bounds char_classes upper_def lower_def
      upper_char_def lower_char_def)
    code_simp

section \<open>Properties\<close>

text \<open>Language canonicalization is a projection that keeps the tag's identity: a canonical tag
  canonicalizes to itself, equals the input up to letter case and has the same length.\<close>

theorem canonical_language_projection:
  assumes "canonical_language value = Inr tag"
  shows "canonical_language tag = Inr tag \<and> lower tag = lower value \<and> length tag = length value"
  using canonical_language_props [OF assms] by blast

theorem canonical_language_projection_witness:
  "canonical_language ''ZH-hant-tw'' = Inr ''zh-Hant-TW''
   \<and> canonical_language ''zh-Hant-TW'' = Inr ''zh-Hant-TW''"
proof -
  have e: "canonical_language ''ZH-hant-tw'' = Inr ''zh-Hant-TW''" by code_simp
  then show ?thesis using canonical_language_projection [OF e] by simp
qed

text \<open>A registration the broker accepts yields a well-formed snapshot: a non-empty bounded authority
  id and bounded instructions free of control characters, a canonical language tag, at most 128
  tools with pairwise distinct names of the tool-name grammar, bounded descriptions, and schemas whose
  strict compact JSON encoding is at most 64 KiB; the allowlist is exactly the set of their names.\<close>

theorem registration_yields_wf_snapshot:
  assumes "validated_registration frepr value = Inr s"
  shows "wf_snapshot frepr s"
  by (rule validated_registration_ok [OF assms])

theorem registration_yields_wf_snapshot_witness:
  "validated_registration (\<lambda>_. []) sample_registration = Inr sample_snapshot
     \<and> wf_snapshot (\<lambda>_. []) sample_snapshot \<and> sn_language sample_snapshot = ''es-MX''"
  using sample_registration_ok registration_yields_wf_snapshot [OF sample_registration_ok]
  by (simp add: sample_snapshot_def)

end
