(* ===== verification/Bounded_Log.thy ===== *)
theory Bounded_Log
  imports Json
begin

text \<open>
  The contract of a bounded, insertion-ordered log of retired identifiers. The tool broker keeps one
  for call ids that ended without a result (\<^verbatim>\<open>_retired\<close>, 128 entries), the app-server client one for
  server requests it has answered (\<^verbatim>\<open>_retired_server_response_ids\<close>, 1024 entries). Both move a
  repeated identifier to the end and evict the oldest entries beyond the bound.
\<close>

section \<open>The newest entries of a list\<close>

definition newest :: "nat \<Rightarrow> 'a list \<Rightarrow> 'a list" where
  "newest n xs = drop (length xs - n) xs"

lemma length_newest: "length (newest n xs) = min n (length xs)"
  by (simp add: newest_def)

lemma newest_short [simp]: "length xs \<le> n \<Longrightarrow> newest n xs = xs"
  by (simp add: newest_def)

lemma set_newest: "set (newest n xs) \<subseteq> set xs"
  by (auto simp: newest_def dest: in_set_dropD)

lemma distinct_newest: "distinct xs \<Longrightarrow> distinct (newest n xs)"
  by (simp add: newest_def)

lemma newest_snoc: "0 < n \<Longrightarrow> newest n (xs @ [x]) = newest (n - 1) xs @ [x]"
  by (cases n) (auto simp: newest_def)

lemma map_newest: "map f (newest n xs) = newest n (map f xs)"
  by (simp add: newest_def drop_map)

lemma distinct_retired: "distinct xs \<Longrightarrow> distinct (removeAll k xs @ [k])"
  by (simp add: distinct_removeAll)

section \<open>The contract\<close>

locale bounded_log =
  fixes retire :: "'k \<Rightarrow> 's \<Rightarrow> 's"
    and entries :: "'s \<Rightarrow> 'k list"
    and bound :: nat
  assumes bound_pos: "0 < bound"
    and entries_retire:
      "distinct (entries s) \<Longrightarrow> length (entries s) \<le> bound \<Longrightarrow>
       entries (retire k s) = newest bound (removeAll k (entries s) @ [k])"
begin

lemma distinct_step:
  "distinct (entries s) \<Longrightarrow> length (entries s) \<le> bound \<Longrightarrow> distinct (entries (retire k s))"
  using entries_retire distinct_retired [of "entries s" k] distinct_newest by metis

lemma bounded_step:
  "distinct (entries s) \<Longrightarrow> length (entries s) \<le> bound \<Longrightarrow> length (entries (retire k s)) \<le> bound"
  by (simp add: entries_retire length_newest)

lemma newest_entry:
  "distinct (entries s) \<Longrightarrow> length (entries s) \<le> bound \<Longrightarrow>
   entries (retire k s) = newest (bound - 1) (removeAll k (entries s)) @ [k]"
  by (simp add: entries_retire newest_snoc bound_pos)

lemma retired_member:
  "distinct (entries s) \<Longrightarrow> length (entries s) \<le> bound \<Longrightarrow> k \<in> set (entries (retire k s))"
  by (simp add: newest_entry)

lemma retired_only:
  "distinct (entries s) \<Longrightarrow> length (entries s) \<le> bound \<Longrightarrow>
   set (entries (retire k s)) \<subseteq> insert k (set (entries s))"
  using set_newest [of "bound - 1" "removeAll k (entries s)"] by (auto simp: newest_entry)

lemma fold_retire_inv:
  "distinct (entries s) \<Longrightarrow> length (entries s) \<le> bound \<Longrightarrow>
   distinct (entries (fold retire ks s)) \<and> length (entries (fold retire ks s)) \<le> bound"
  by (induction ks arbitrary: s) (auto simp: distinct_step bounded_step)

text \<open>An identifier that has \<open>m\<close> newer entries stays through \<open>bound - 1 - m\<close> further retirements.\<close>

lemma suffix_step:
  assumes "distinct (entries s)" "length (entries s) \<le> bound"
    and "entries s = xs @ k # ys" "k' \<noteq> k" "length ys + 1 < bound"
  shows "\<exists>xs' ys'. entries (retire k' s) = xs' @ k # ys' \<and> length ys' \<le> length ys + 1"
proof -
  let ?rest = "removeAll k' (xs @ k # ys)"
  have rest: "?rest = removeAll k' xs @ k # removeAll k' ys" using assms(4) by simp
  have le: "length (removeAll k' ys) \<le> length ys" by simp
  have d: "length ?rest - (bound - 1) \<le> length (removeAll k' xs)"
    unfolding rest length_append list.size using le assms(5) by linarith
  have "newest (bound - 1) ?rest
      = drop (length ?rest - (bound - 1)) (removeAll k' xs) @ k # removeAll k' ys"
    using d unfolding newest_def rest by simp
  then have "entries (retire k' s)
      = drop (length ?rest - (bound - 1)) (removeAll k' xs) @ k # (removeAll k' ys @ [k'])"
    using newest_entry [OF assms(1,2), of k'] assms(3) by simp
  then show ?thesis using le by fastforce
qed

lemma remembered_suffix:
  assumes "distinct (entries s)" "length (entries s) \<le> bound"
    and "entries s = xs @ k # ys" "k \<notin> set ks" "length ys + length ks < bound"
  shows "k \<in> set (entries (fold retire ks s))"
  using assms
proof (induction ks arbitrary: s xs ys)
  case (Cons k' ks)
  obtain xs' ys' where s': "entries (retire k' s) = xs' @ k # ys'" "length ys' \<le> length ys + 1"
    using suffix_step [OF Cons.prems(1-3), of k'] Cons.prems(4,5) by auto
  have inv: "distinct (entries (retire k' s))" "length (entries (retire k' s)) \<le> bound"
    using Cons.prems(1,2) distinct_step bounded_step by blast+
  have "k \<notin> set ks" "length ys' + length ks < bound" using Cons.prems(4,5) s'(2) by simp_all
  then have "k \<in> set (entries (fold retire ks (retire k' s)))"
    by (rule Cons.IH [OF inv s'(1)])
  then show ?case by simp
qed simp

lemma remembered:
  assumes "distinct (entries s)" "length (entries s) \<le> bound"
    and "k \<notin> set ks" "length ks < bound"
  shows "k \<in> set (entries (fold retire ks (retire k s)))"
proof (rule remembered_suffix)
  show "entries (retire k s) = newest (bound - 1) (removeAll k (entries s)) @ k # []"
    using assms(1,2) by (simp add: newest_entry)
qed (use assms distinct_step bounded_step in simp_all)

end

end
