(* ===== verification/Tool_Broker.thy ===== *)
theory Tool_Broker
  imports Tool_Registration Bounded_Log
begin

text \<open>
  The state machine of \<^verbatim>\<open>HomeAssistantToolBroker\<close> in \<^verbatim>\<open>bridge/tool_broker.py\<close>. The state holds the
  object's fields, the store of asyncio futures, the frames of suspended \<^verbatim>\<open>call\<close> coroutines with their
  local variables, which sockets the peer has closed, and the messages written so far. Each
  operation runs from one suspension point of the code to the next; the interleaving of operations is
  the step relation at the end. \<open>ok\<close> says whether the transport accepts a write, and fresh
  identifiers from \<^verbatim>\<open>secrets.token_urlsafe\<close> are arguments.
\<close>

section \<open>State\<close>

datatype call_future = Pending | Resolved bool json | Failed py_error | Cancelled

record pending_call =
  pc_generation :: string
  pc_future :: nat

record call_frame =
  cf_generation :: string
  cf_future :: nat
  cf_websocket :: nat
  cf_message :: obj

record broker =
  websocket :: "nat option"
  current :: "snapshot option"
  pending :: "(string \<times> pending_call) list"
  retired :: "(string \<times> string) list"
  calls_started :: nat
  calls_succeeded :: nat
  calls_failed :: nat
  calls_timed_out :: nat
  calls_transport_failed :: nat
  calls_cancelled :: nat
  last_call_duration_ms :: "int option"
  closed :: "nat \<Rightarrow> bool"
  futures :: "nat \<Rightarrow> call_future"
  next_future :: nat
  frames :: "(string \<times> call_frame) list"
  outbox :: "(nat \<times> obj) list"

definition initial_broker :: broker where
  "initial_broker =
     \<lparr>websocket = None, current = None, pending = [], retired = [], calls_started = 0,
      calls_succeeded = 0, calls_failed = 0, calls_timed_out = 0, calls_transport_failed = 0,
      calls_cancelled = 0, last_call_duration_ms = None, closed = (\<lambda>_. False),
      futures = (\<lambda>_. Pending), next_future = 0, frames = [], outbox = []\<rparr>"

definition new_broker :: "rat \<Rightarrow> broker result" where
  "new_broker timeout =
     (if timeout \<le> 0 then Inl (ValueError ''tool broker timeout must be positive'')
      else Inr initial_broker)"

definition health :: "broker \<Rightarrow> obj" where
  "health st =
     [(''connected'', JBool (current st \<noteq> None
         \<and> (case websocket st of None \<Rightarrow> False | Some ws \<Rightarrow> \<not> closed st ws))),
      (''language'', (case current st of None \<Rightarrow> JNull | Some sn \<Rightarrow> JStr (sn_language sn))),
      (''tool_count'', JInt (case current st of None \<Rightarrow> 0 | Some sn \<Rightarrow> int (length (sn_tools sn)))),
      (''pending_calls'', JInt (int (length (pending st)))),
      (''calls_started'', JInt (int (calls_started st))),
      (''calls_succeeded'', JInt (int (calls_succeeded st))),
      (''calls_failed'', JInt (int (calls_failed st))),
      (''calls_timed_out'', JInt (int (calls_timed_out st))),
      (''calls_transport_failed'', JInt (int (calls_transport_failed st))),
      (''calls_cancelled'', JInt (int (calls_cancelled st))),
      (''last_call_duration_ms'',
        (case last_call_duration_ms st of None \<Rightarrow> JNull | Some d \<Rightarrow> JInt d))]"

section \<open>Operations\<close>

definition send_json :: "bool \<Rightarrow> nat \<Rightarrow> obj \<Rightarrow> broker \<Rightarrow> unit result \<times> broker" where
  "send_json ok ws message st =
     (if ok then (Inr (), st\<lparr>outbox := outbox st @ [(ws, message)]\<rparr>)
      else (Inl (ToolBrokerUnavailable ''Home Assistant tool authority connection failed''), st))"

text \<open>\<^verbatim>\<open>set_exception\<close> on every future of a list that is not done.\<close>

definition fail_future :: "py_error \<Rightarrow> nat \<Rightarrow> (nat \<Rightarrow> call_future) \<Rightarrow> (nat \<Rightarrow> call_future)" where
  "fail_future e f heap = (if heap f = Pending then heap(f := Failed e) else heap)"

definition fail_futures :: "py_error \<Rightarrow> nat list \<Rightarrow> (nat \<Rightarrow> call_future) \<Rightarrow> (nat \<Rightarrow> call_future)" where
  "fail_futures e fs heap = fold (fail_future e) fs heap"

definition pending_futures :: "broker \<Rightarrow> nat list" where
  "pending_futures st = map (\<lambda>p. pc_future (snd p)) (pending st)"

definition connected_socket :: "broker \<Rightarrow> bool" where
  "connected_socket st =
     (case websocket st of None \<Rightarrow> False | Some ws \<Rightarrow> \<not> closed st ws)"

definition register ::
    "(pyfloat \<Rightarrow> string) \<Rightarrow> string \<Rightarrow> bool \<Rightarrow> nat \<Rightarrow> obj \<Rightarrow> broker \<Rightarrow> snapshot result \<times> broker" where
  "register frepr token ok ws value st =
     (case validated_registration frepr value of
        Inl e \<Rightarrow> (Inl e, st)
      | Inr sn \<Rightarrow>
          if connected_socket st
          then (Inl (BridgeBusyError ''a Home Assistant tool authority is already connected''), st)
          else
            let stale = (if websocket st = None then [] else pending_futures st);
                st1 = (if websocket st = None then st else st\<lparr>pending := [], retired := []\<rparr>);
                sn1 = sn\<lparr>sn_generation := token\<rparr>;
                st2 = st1\<lparr>websocket := Some ws, current := Some sn1,
                  futures := fail_futures (ToolBrokerUnavailable
                    ''Home Assistant tool authority changed; outcome unknown'') stale (futures st)\<rparr>
            in (case send_json ok ws
                  [(''type'', JStr ''registered''),
                   (''protocol_version'', JInt TOOL_BROKER_PROTOCOL_VERSION),
                   (''generation'', JStr token)] st2 of
                  (Inl e, st3) \<Rightarrow> (Inl e, st3)
                | (Inr _, st3) \<Rightarrow> (Inr sn1, st3)))"

definition unregister :: "nat \<Rightarrow> broker \<Rightarrow> broker" where
  "unregister ws st =
     (if websocket st \<noteq> Some ws then st
      else st\<lparr>websocket := None, current := None, pending := [], retired := [],
              futures := fail_futures (ToolBrokerUnavailable
                ''Home Assistant tool authority disconnected; outcome unknown'')
                (pending_futures st) (futures st)\<rparr>)"

text \<open>
  The correlation of a \<^verbatim>\<open>tool_result\<close>: the call id and the success flag, if the generation is the
  current one.
\<close>

definition result_correlation :: "broker \<Rightarrow> obj \<Rightarrow> (string \<times> string \<times> bool) option" where
  "result_correlation st value =
     (case current st of
        None \<Rightarrow> None
      | Some sn \<Rightarrow>
          if jget value ''generation'' \<noteq> JStr (sn_generation sn) then None
          else (case text_of (jget value ''call_id'') of
                  None \<Rightarrow> None
                | Some call_id \<Rightarrow>
                    if call_id = [] then None
                    else (case bool_of (jget value ''success'') of
                            None \<Rightarrow> None
                          | Some success \<Rightarrow> Some (sn_generation sn, call_id, success))))"

definition handle_tool_result ::
    "(pyfloat \<Rightarrow> string) \<Rightarrow> obj \<Rightarrow> broker \<Rightarrow> unit result \<times> broker" where
  "handle_tool_result frepr value st =
     (case result_correlation st value of
        None \<Rightarrow> (Inl (ProtocolError ''invalid Home Assistant tool result correlation''), st)
      | Some (generation, call_id, success) \<Rightarrow>
          (case bounded_json frepr (jget value ''result'') MAX_TOOL_RESULT_BYTES ''tool result'' of
             Inl e \<Rightarrow> (Inl e, st)
           | Inr _ \<Rightarrow>
               let st1 = st\<lparr>pending := dict_pop (pending st) call_id\<rparr> in
               (case map_of (pending st) call_id of
                  None \<Rightarrow>
                    let st2 = st1\<lparr>retired := dict_pop (retired st) call_id\<rparr> in
                    if map_of (retired st) call_id = Some generation then (Inr (), st2)
                    else (Inl (ProtocolError ''unknown or stale Home Assistant tool result''), st2)
                | Some call \<Rightarrow>
                    if pc_generation call \<noteq> generation
                    then (Inl (ProtocolError ''unknown or stale Home Assistant tool result''), st1)
                    else if futures st (pc_future call) \<noteq> Pending
                    then (Inl (ProtocolError ''duplicate Home Assistant tool result''), st1)
                    else (Inr (), st1\<lparr>futures :=
                      (futures st)(pc_future call := Resolved success (jget value ''result''))\<rparr>))))"

definition handle_message ::
    "(pyfloat \<Rightarrow> string) \<Rightarrow> bool \<Rightarrow> nat \<Rightarrow> obj \<Rightarrow> broker \<Rightarrow> unit result \<times> broker" where
  "handle_message frepr ok ws value st =
     (if websocket st \<noteq> Some ws
      then (Inl (ToolBrokerUnavailable ''stale Home Assistant tool authority''), st)
      else if jget value ''type'' = JStr ''ping''
      then send_json ok ws [(''type'', JStr ''pong'')] st
      else if jget value ''type'' \<noteq> JStr ''tool_result''
      then (Inl (ProtocolError ''unsupported Home Assistant tool broker message''), st)
      else handle_tool_result frepr value st)"

text \<open>
  \<^verbatim>\<open>call\<close> up to its first suspension: the guards, the pending entry and the future. The frame keeps
  the locals of the coroutine and the message it is about to send.
\<close>

definition call_message :: "string \<Rightarrow> string \<Rightarrow> string \<Rightarrow> obj \<Rightarrow> obj" where
  "call_message generation call_id name arguments =
     [(''type'', JStr ''tool_call''), (''generation'', JStr generation),
      (''call_id'', JStr call_id), (''name'', JStr name), (''arguments'', JObj arguments)]"

definition authority_current :: "snapshot \<Rightarrow> broker \<Rightarrow> bool" where
  "authority_current sn st \<longleftrightarrow>
     (case current st of None \<Rightarrow> False | Some c \<Rightarrow> sn_generation c = sn_generation sn)
     \<and> connected_socket st"

definition call_start ::
    "(pyfloat \<Rightarrow> string) \<Rightarrow> string \<Rightarrow> snapshot \<Rightarrow> string \<Rightarrow> obj \<Rightarrow> broker \<Rightarrow> unit result \<times> broker" where
  "call_start frepr call_id sn name arguments st =
     (if \<not> authority_current sn st
      then (Inl (ToolBrokerUnavailable ''Home Assistant tool authority changed''), st)
      else if name \<notin> sn_tool_names sn
      then (Inl (ProtocolError ''realtime model requested an undeclared Home Assistant tool''), st)
      else
        (case bounded_json frepr (JObj arguments) MAX_TOOL_ARGUMENT_BYTES ''tool arguments'' of
           Inl e \<Rightarrow> (Inl e, st)
         | Inr _ \<Rightarrow>
             if MAX_PENDING_TOOL_CALLS \<le> length (pending st)
             then (Inl (ToolBrokerUnavailable ''too many Home Assistant tool calls are pending''), st)
             else
               let f = next_future st in
               (Inr (),
                st\<lparr>pending := dict_set (pending st) call_id
                     \<lparr>pc_generation = sn_generation sn, pc_future = f\<rparr>,
                   calls_started := calls_started st + 1,
                   futures := (futures st)(f := Pending),
                   next_future := f + 1,
                   frames := dict_set (frames st) call_id
                     \<lparr>cf_generation = sn_generation sn, cf_future = f,
                      cf_websocket = the (websocket st),
                      cf_message = call_message (sn_generation sn) call_id name arguments\<rparr>\<rparr>)))"

text \<open>The write of the tool call by a suspended \<^verbatim>\<open>call\<close>, under the broker's send lock.\<close>

definition call_write :: "bool \<Rightarrow> string \<Rightarrow> broker \<Rightarrow> unit result \<times> broker" where
  "call_write ok call_id st =
     (case map_of (frames st) call_id of
        None \<Rightarrow> (Inr (), st)
      | Some fr \<Rightarrow> send_json ok (cf_websocket fr) (cf_message fr) st)"

section \<open>The end of a call\<close>

text \<open>
  How the body of the \<^verbatim>\<open>try\<close> in \<^verbatim>\<open>call\<close> ends: the shielded future is done (\<open>Awaited\<close>), the deadline
  passed, the task was cancelled, or the write raised.
\<close>

datatype call_outcome = Awaited | DeadlinePassed | TaskCancelled | WriteRaised py_error

definition outcome_enabled :: "call_outcome \<Rightarrow> call_future \<Rightarrow> bool" where
  "outcome_enabled outcome f \<longleftrightarrow>
     (outcome = Awaited \<longrightarrow> (\<exists>b r. f = Resolved b r) \<or> (\<exists>e. f = Failed e))"

fun evict_oldest :: "nat \<Rightarrow> 'a list \<Rightarrow> 'a list" where
  "evict_oldest bound [] = []"
| "evict_oldest bound (x # xs) =
     (if bound < length (x # xs) then evict_oldest bound xs else x # xs)"

definition retire_call :: "string \<Rightarrow> string \<Rightarrow> (string \<times> string) list \<Rightarrow> (string \<times> string) list" where
  "retire_call generation call_id entries =
     evict_oldest MAX_RETIRED_TOOL_CALLS (move_to_end (dict_set entries call_id generation) call_id)"

text \<open>The \<^verbatim>\<open>except\<close> clauses: the result and the counter they bump.\<close>

definition call_settle ::
    "call_outcome \<Rightarrow> call_future \<Rightarrow> broker \<Rightarrow> (bool \<times> json) result \<times> broker" where
  "call_settle outcome f st =
     (case outcome of
        Awaited \<Rightarrow>
          (case f of
             Resolved success r \<Rightarrow>
               (Inr (success, r),
                if success then st\<lparr>calls_succeeded := calls_succeeded st + 1\<rparr>
                else st\<lparr>calls_failed := calls_failed st + 1\<rparr>)
           | Failed e \<Rightarrow>
               (Inl e, st\<lparr>calls_transport_failed := calls_transport_failed st + 1\<rparr>)
           | _ \<Rightarrow> (Inl CancelledError, st\<lparr>calls_cancelled := calls_cancelled st + 1\<rparr>))
      | DeadlinePassed \<Rightarrow>
          (Inl (ToolBrokerUnavailable
             ''Home Assistant tool call timed out; outcome unknown, do not retry''),
           st\<lparr>calls_timed_out := calls_timed_out st + 1\<rparr>)
      | TaskCancelled \<Rightarrow> (Inl CancelledError, st\<lparr>calls_cancelled := calls_cancelled st + 1\<rparr>)
      | WriteRaised e \<Rightarrow>
          (Inl e, st\<lparr>calls_transport_failed := calls_transport_failed st + 1\<rparr>))"

definition call_completed :: "call_outcome \<Rightarrow> call_future \<Rightarrow> bool" where
  "call_completed outcome f \<longleftrightarrow>
     outcome = Awaited \<and> (case f of Resolved _ _ \<Rightarrow> True | _ \<Rightarrow> False)"

text \<open>The \<^verbatim>\<open>finally\<close> block, and the return of the coroutine.\<close>

definition call_cleanup :: "string \<Rightarrow> call_frame \<Rightarrow> bool \<Rightarrow> int \<Rightarrow> broker \<Rightarrow> broker" where
  "call_cleanup call_id fr completed duration st =
     (let st1 = st\<lparr>last_call_duration_ms := Some duration,
                   pending := dict_pop (pending st) call_id,
                   frames := dict_pop (frames st) call_id\<rparr>;
          live = (case current st of
                    None \<Rightarrow> False | Some sn \<Rightarrow> sn_generation sn = cf_generation fr);
          st2 = (if \<not> completed \<and> live
                 then st1\<lparr>retired := retire_call (cf_generation fr) call_id (retired st1)\<rparr>
                 else st1)
      in if futures st2 (cf_future fr) = Pending
         then st2\<lparr>futures := (futures st2)(cf_future fr := Cancelled)\<rparr>
         else st2)"

definition call_finish ::
    "string \<Rightarrow> call_outcome \<Rightarrow> int \<Rightarrow> broker \<Rightarrow> (bool \<times> json) result \<times> broker" where
  "call_finish call_id outcome duration st =
     (case map_of (frames st) call_id of
        None \<Rightarrow> (Inl (RuntimeError ''no such call''), st)
      | Some fr \<Rightarrow>
          let f = futures st (cf_future fr);
              (r, st1) = call_settle outcome f st
          in (r, call_cleanup call_id fr (call_completed outcome f) duration st1))"

section \<open>Interleavings\<close>

definition fresh_call_id :: "string \<Rightarrow> broker \<Rightarrow> bool" where
  "fresh_call_id call_id st \<longleftrightarrow>
     call_id \<noteq> [] \<and> call_id \<notin> fst ` set (pending st) \<and> call_id \<notin> fst ` set (frames st)
     \<and> call_id \<notin> fst ` set (retired st)"

inductive broker_step :: "(pyfloat \<Rightarrow> string) \<Rightarrow> broker \<Rightarrow> broker \<Rightarrow> bool" for frepr where
  registers: "broker_step frepr st (snd (register frepr token ok ws value st))"
| unregisters: "broker_step frepr st (unregister ws st)"
| receives: "broker_step frepr st (snd (handle_message frepr ok ws value st))"
| closes: "broker_step frepr st (st\<lparr>closed := (closed st)(ws := True)\<rparr>)"
| starts: "fresh_call_id call_id st \<Longrightarrow>
    broker_step frepr st (snd (call_start frepr call_id sn name arguments st))"
| writes: "broker_step frepr st (snd (call_write ok call_id st))"
| finishes: "map_of (frames st) call_id = Some fr \<Longrightarrow>
    outcome_enabled outcome (futures st (cf_future fr)) \<Longrightarrow>
    broker_step frepr st (snd (call_finish call_id outcome duration st))"

inductive broker_reachable :: "(pyfloat \<Rightarrow> string) \<Rightarrow> broker \<Rightarrow> bool" for frepr where
  initial: "new_broker timeout = Inr st \<Longrightarrow> broker_reachable frepr st"
| step: "broker_reachable frepr st \<Longrightarrow> broker_step frepr st st' \<Longrightarrow> broker_reachable frepr st'"

inductive_cases broker_stepE: "broker_step frepr st st'"

section \<open>The retired log\<close>

lemma evict_oldest_newest: "evict_oldest n xs = newest n xs"
proof (induction n xs rule: evict_oldest.induct)
  case (2 n x xs)
  then show ?case by (auto simp: newest_def Suc_diff_le)
qed (simp add: newest_def)

lemma keys_dict_set:
  "map fst (dict_set m k v) = (if k \<in> fst ` set m then map fst m else map fst m @ [k])"
  by (induction m k v rule: dict_set.induct) auto

lemma filter_key_single:
  "distinct (map fst m) \<Longrightarrow> k \<in> fst ` set m \<Longrightarrow> map fst (filter (\<lambda>p. fst p = k) m) = [k]"
proof (induction m)
  case (Cons p m)
  show ?case
  proof (cases "fst p = k")
    case True
    with Cons.prems(1) have "\<forall>q \<in> set m. fst q \<noteq> k" by (auto simp: image_iff)
    then have "filter (\<lambda>p. fst p = k) m = []" by (simp add: filter_empty_conv)
    with True show ?thesis by simp
  next
    case False
    with Cons show ?thesis by auto
  qed
qed simp

lemma map_fst_filter_neq: "map fst (filter (\<lambda>p. fst p \<noteq> k) m) = removeAll k (map fst m)"
  by (induction m) auto

lemma keys_move_to_end:
  assumes "distinct (map fst m)" "k \<in> fst ` set m"
  shows "map fst (move_to_end m k) = removeAll k (map fst m) @ [k]"
  unfolding move_to_end_def map_append map_fst_filter_neq filter_key_single [OF assms] ..

lemma keys_retire_call:
  assumes "distinct (map fst m)"
  shows "map fst (retire_call g k m) = newest 128 (removeAll k (map fst m) @ [k])"
proof -
  have "map fst (move_to_end (dict_set m k g) k) = removeAll k (map fst (dict_set m k g)) @ [k]"
    by (rule keys_move_to_end) (use assms in \<open>auto simp: distinct_dict_set fst_set_dict_set\<close>)
  also have "removeAll k (map fst (dict_set m k g)) = removeAll k (map fst m)"
    by (simp add: keys_dict_set)
  finally show ?thesis
    by (simp add: retire_call_def evict_oldest_newest map_newest MAX_RETIRED_TOOL_CALLS_def)
qed

interpretation call_log: bounded_log "retire_call g" "map fst" MAX_RETIRED_TOOL_CALLS for g
  by unfold_locales (simp_all add: keys_retire_call MAX_RETIRED_TOOL_CALLS_def)

section \<open>Invariant\<close>

text \<open>
  \<open>inv_tables\<close> bounds the two tables and keeps their keys unique; \<open>inv_link\<close> ties every pending entry
  to the suspended call that made it, to the current generation and to an undecided future, and every
  undecided future of a suspended call back to its entry; \<open>inv_count\<close> balances the counters.
\<close>

definition inv_tables :: "broker \<Rightarrow> bool" where
  "inv_tables st \<longleftrightarrow>
     (current st = None \<longleftrightarrow> websocket st = None)
     \<and> length (pending st) \<le> MAX_PENDING_TOOL_CALLS \<and> distinct (map fst (pending st))
     \<and> length (retired st) \<le> MAX_RETIRED_TOOL_CALLS \<and> distinct (map fst (retired st))
     \<and> distinct (map fst (frames st))
     \<and> fst ` set (retired st) \<inter> fst ` set (frames st) = {}"

definition entry_linked :: "broker \<Rightarrow> string \<Rightarrow> pending_call \<Rightarrow> bool" where
  "entry_linked st k call \<longleftrightarrow>
     futures st (pc_future call) = Pending
     \<and> (\<exists>fr. map_of (frames st) k = Some fr \<and> cf_future fr = pc_future call
           \<and> cf_generation fr = pc_generation call)
     \<and> (\<exists>sn. current st = Some sn \<and> sn_generation sn = pc_generation call)"

definition inv_link :: "broker \<Rightarrow> bool" where
  "inv_link st \<longleftrightarrow>
     (\<forall>k call. map_of (pending st) k = Some call \<longrightarrow> entry_linked st k call)
     \<and> (\<forall>k fr. map_of (frames st) k = Some fr \<longrightarrow>
          cf_future fr < next_future st
          \<and> (futures st (cf_future fr) = Pending \<longrightarrow> map_of (pending st) k \<noteq> None))
     \<and> (\<forall>k k' fr fr'. map_of (frames st) k = Some fr \<longrightarrow> map_of (frames st) k' = Some fr' \<longrightarrow>
          cf_future fr = cf_future fr' \<longrightarrow> k = k')"

definition inv_count :: "broker \<Rightarrow> bool" where
  "inv_count st \<longleftrightarrow>
     calls_started st = calls_succeeded st + calls_failed st + calls_timed_out st
       + calls_transport_failed st + calls_cancelled st + length (frames st)"

definition broker_inv :: "broker \<Rightarrow> bool" where
  "broker_inv st \<longleftrightarrow> inv_tables st \<and> inv_link st \<and> inv_count st"

lemmas inv_defs = inv_tables_def inv_link_def inv_count_def entry_linked_def

lemma inv_linkI:
  assumes "\<And>k call. map_of (pending st) k = Some call \<Longrightarrow> entry_linked st k call"
    and "\<And>k fr. map_of (frames st) k = Some fr \<Longrightarrow> cf_future fr < next_future st"
    and "\<And>k fr. map_of (frames st) k = Some fr \<Longrightarrow> futures st (cf_future fr) = Pending \<Longrightarrow>
      map_of (pending st) k \<noteq> None"
    and "\<And>k k' fr fr'. map_of (frames st) k = Some fr \<Longrightarrow> map_of (frames st) k' = Some fr' \<Longrightarrow>
      cf_future fr = cf_future fr' \<Longrightarrow> k = k'"
  shows "inv_link st"
  unfolding inv_link_def using assms by metis

lemma inv_link_entry:
  "inv_link st \<Longrightarrow> map_of (pending st) k = Some call \<Longrightarrow> entry_linked st k call"
  unfolding inv_link_def by metis

lemma inv_link_bound:
  "inv_link st \<Longrightarrow> map_of (frames st) k = Some fr \<Longrightarrow> cf_future fr < next_future st"
  unfolding inv_link_def by metis

lemma inv_link_undecided:
  "inv_link st \<Longrightarrow> map_of (frames st) k = Some fr \<Longrightarrow> futures st (cf_future fr) = Pending \<Longrightarrow>
   \<exists>call. map_of (pending st) k = Some call \<and> pc_future call = cf_future fr"
  unfolding inv_link_def entry_linked_def by (metis not_None_eq option.inject)

lemma inv_link_inj:
  "inv_link st \<Longrightarrow> map_of (frames st) k = Some fr \<Longrightarrow> map_of (frames st) k' = Some fr' \<Longrightarrow>
   cf_future fr = cf_future fr' \<Longrightarrow> k = k'"
  unfolding inv_link_def by metis

lemma inv_link_cong:
  "pending st' = pending st \<Longrightarrow> frames st' = frames st \<Longrightarrow> futures st' = futures st \<Longrightarrow>
   next_future st' = next_future st \<Longrightarrow> current st' = current st \<Longrightarrow> inv_link st' = inv_link st"
  unfolding inv_link_def entry_linked_def by simp

lemma fail_futures_apply:
  "fail_futures e fs heap f = (if f \<in> set fs \<and> heap f = Pending then Failed e else heap f)"
  by (induction fs arbitrary: heap) (auto simp: fail_futures_def fail_future_def)

lemma inv_new: "new_broker t = Inr st \<Longrightarrow> broker_inv st"
  by (auto simp: new_broker_def initial_broker_def broker_inv_def inv_defs split: if_splits)

lemma pending_future_mem:
  "map_of (pending st) k = Some call \<Longrightarrow> pc_future call \<in> set (pending_futures st)"
  by (force simp: pending_futures_def dest: map_of_SomeD)

text \<open>Failing every pending future and forgetting the entries keeps the links.\<close>

lemma inv_link_forget:
  assumes "inv_link st" and "frames st' = frames st" "next_future st' = next_future st" "pending st' = []"
    and "futures st' = fail_futures e (pending_futures st) (futures st)"
  shows "inv_link st'"
proof (rule inv_linkI)
  fix k fr
  assume fr: "map_of (frames st') k = Some fr" and "futures st' (cf_future fr) = Pending"
  then have f: "futures st (cf_future fr) = Pending"
    and not_mem: "cf_future fr \<notin> set (pending_futures st)"
    using assms(5) by (auto simp: fail_futures_apply split: if_splits)
  from assms(1,2) fr f obtain call where
    "map_of (pending st) k = Some call" "pc_future call = cf_future fr"
    using inv_link_undecided by metis
  with not_mem pending_future_mem [of st k call] show "map_of (pending st') k \<noteq> None" by simp
next
  show "\<And>k fr. map_of (frames st') k = Some fr \<Longrightarrow> cf_future fr < next_future st'"
    using assms inv_link_bound by metis
  show "\<And>k k' fr fr'. map_of (frames st') k = Some fr \<Longrightarrow> map_of (frames st') k' = Some fr' \<Longrightarrow>
      cf_future fr = cf_future fr' \<Longrightarrow> k = k'"
    using assms inv_link_inj by metis
qed (simp add: assms(4))

lemma no_authority_no_entry:
  "inv_tables st \<Longrightarrow> inv_link st \<Longrightarrow> websocket st = None \<Longrightarrow> pending st = []"
proof (cases "pending st")
  case (Cons p ps)
  assume inv: "inv_tables st" "inv_link st" "websocket st = None"
  from Cons have "map_of (pending st) (fst p) = Some (snd p)" by (cases p) simp
  from inv_link_entry [OF inv(2) this] have "current st \<noteq> None"
    by (auto simp: entry_linked_def)
  with inv(1,3) show ?thesis by (simp add: inv_tables_def)
qed simp

lemma inv_link_authority:
  assumes "inv_link st" "pending st = []" "pending st' = []"
    and "frames st' = frames st" "futures st' = futures st" "next_future st' = next_future st"
  shows "inv_link st'"
  unfolding inv_link_def using assms unfolding inv_link_def by simp

lemma send_json_inv: "broker_inv st \<Longrightarrow> broker_inv (snd (send_json ok ws v st))"
  using inv_link_cong [of "snd (send_json ok ws v st)" st]
  by (simp add: send_json_def broker_inv_def inv_tables_def inv_count_def)

lemma inv_register:
  assumes "broker_inv st"
  shows "broker_inv (snd (register frepr token ok ws v st))"
proof (cases "is_ok (validated_registration frepr v) \<and> \<not> connected_socket st")
  case False
  then show ?thesis using assms
    by (auto simp: register_def is_ok_def split: sum.splits)
next
  case True
  then obtain sn where sn: "validated_registration frepr v = Inr sn" by (auto simp: is_ok_iff)
  define st1 where "st1 = (if websocket st = None then st else st\<lparr>pending := [], retired := []\<rparr>)"
  define st2 where "st2 = st1\<lparr>websocket := Some ws, current := Some (sn\<lparr>sn_generation := token\<rparr>),
    futures := fail_futures (ToolBrokerUnavailable ''Home Assistant tool authority changed; outcome unknown'')
      (if websocket st = None then [] else pending_futures st) (futures st)\<rparr>"
  have tabs: "inv_tables st" "inv_link st" "inv_count st" using assms by (simp_all add: broker_inv_def)
  have "inv_link st2"
  proof (cases "websocket st")
    case None
    note p = no_authority_no_entry [OF tabs(1,2) None]
    show ?thesis using None p
      by (intro inv_link_authority [OF tabs(2)]) (simp_all add: st2_def st1_def fail_futures_def)
  next
    case (Some old)
    then show ?thesis
      by (intro inv_link_forget [OF tabs(2)]) (simp_all add: st2_def st1_def)
  qed
  moreover have "inv_tables st2" "inv_count st2"
    using tabs by (auto simp: st2_def st1_def inv_tables_def inv_count_def)
  ultimately have "broker_inv st2" by (simp add: broker_inv_def)
  moreover have "snd (register frepr token ok ws v st) = snd (send_json ok ws
      [(''type'', JStr ''registered''), (''protocol_version'', JInt TOOL_BROKER_PROTOCOL_VERSION),
       (''generation'', JStr token)] st2)"
    using True sn by (simp add: register_def st2_def st1_def Let_def send_json_def)
  ultimately show ?thesis using send_json_inv by metis
qed

lemma inv_unregister:
  assumes "broker_inv st"
  shows "broker_inv (unregister ws st)"
proof (cases "websocket st = Some ws")
  case True
  have "inv_link (unregister ws st)"
    by (rule inv_link_forget) (use assms True in \<open>simp_all add: broker_inv_def unregister_def\<close>)
  then show ?thesis using assms True
    by (simp add: broker_inv_def inv_tables_def inv_count_def unregister_def)
qed (use assms in \<open>simp add: unregister_def\<close>)

text \<open>Forgetting one entry together with deciding its future, and removing one suspended call.\<close>

lemma inv_link_decide:
  assumes inv: "inv_link st" and call: "map_of (pending st) k = Some call"
    and st': "pending st' = dict_pop (pending st) k" "frames st' = frames st"
      "next_future st' = next_future st" "current st' = current st"
      "futures st' = (futures st)(pc_future call := v)" and v: "v \<noteq> Pending"
  shows "inv_link st'"
proof (rule inv_linkI)
  obtain fr where fr: "map_of (frames st) k = Some fr" "cf_future fr = pc_future call"
    using inv_link_entry [OF inv call] by (auto simp: entry_linked_def)
  show "entry_linked st' k' call'" if "map_of (pending st') k' = Some call'" for k' call'
  proof -
    from that st'(1) have k': "k' \<noteq> k" and c': "map_of (pending st) k' = Some call'"
      by (auto split: if_splits)
    note e = inv_link_entry [OF inv c']
    then have "pc_future call' \<noteq> pc_future call"
      using k' fr inv_link_inj [OF inv] unfolding entry_linked_def by metis
    with e show ?thesis using st' by (simp add: entry_linked_def)
  qed
  show "map_of (pending st') k' \<noteq> None"
    if fr': "map_of (frames st') k' = Some fr'" and p: "futures st' (cf_future fr') = Pending" for k' fr'
  proof -
    have "cf_future fr' \<noteq> pc_future call" "futures st (cf_future fr') = Pending"
      using p st'(5) v by (auto split: if_splits)
    moreover have f: "map_of (frames st) k' = Some fr'" using fr' st'(2) by simp
    ultimately have "k' \<noteq> k" using fr by auto
    with \<open>futures st (cf_future fr') = Pending\<close> show ?thesis
      using inv_link_undecided [OF inv f] st'(1) by auto
  qed
next
  show "\<And>k fr. map_of (frames st') k = Some fr \<Longrightarrow> cf_future fr < next_future st'"
    using st' inv_link_bound [OF inv] by simp
  show "\<And>k k' fr fr'. map_of (frames st') k = Some fr \<Longrightarrow> map_of (frames st') k' = Some fr' \<Longrightarrow>
      cf_future fr = cf_future fr' \<Longrightarrow> k = k'"
    using st' inv_link_inj [OF inv] by simp
qed

lemma inv_link_finish:
  assumes inv: "inv_link st" and fr: "map_of (frames st) k = Some fr"
    and st': "pending st' = dict_pop (pending st) k" "frames st' = dict_pop (frames st) k"
      "next_future st' = next_future st" "current st' = current st"
      "\<And>f. f \<noteq> cf_future fr \<Longrightarrow> futures st' f = futures st f"
  shows "inv_link st'"
proof (rule inv_linkI)
  show "entry_linked st' k' call'" if "map_of (pending st') k' = Some call'" for k' call'
  proof -
    from that st'(1) have k': "k' \<noteq> k" and c': "map_of (pending st) k' = Some call'"
      by (auto split: if_splits)
    note e = inv_link_entry [OF inv c']
    then have "pc_future call' \<noteq> cf_future fr"
      using k' fr inv_link_inj [OF inv] unfolding entry_linked_def by metis
    with e k' show ?thesis using st' by (simp add: entry_linked_def)
  qed
  show "map_of (pending st') k' \<noteq> None"
    if fr': "map_of (frames st') k' = Some fr'" and p: "futures st' (cf_future fr') = Pending" for k' fr'
  proof -
    have k': "k' \<noteq> k" "map_of (frames st) k' = Some fr'" using fr' st'(2) by (auto split: if_splits)
    then have "cf_future fr' \<noteq> cf_future fr" using fr inv_link_inj [OF inv] by metis
    then have "futures st (cf_future fr') = Pending" using p st'(5) by simp
    then show ?thesis using inv_link_undecided [OF inv k'(2)] k'(1) st'(1) by auto
  qed
next
  show "cf_future fr' < next_future st'" if "map_of (frames st') k' = Some fr'" for k' fr'
    using that st' inv_link_bound [OF inv, of k' fr'] by (simp split: if_splits)
  show "k1 = k2" if "map_of (frames st') k1 = Some f1" "map_of (frames st') k2 = Some f2"
      "cf_future f1 = cf_future f2" for k1 k2 f1 f2
    using that st'(2) inv_link_inj [OF inv, of k1 f1 k2 f2] by (simp split: if_splits)
qed

lemma inv_link_start:
  assumes inv: "inv_link st" and fresh: "fresh_call_id k st"
    and sn: "current st = Some sn" and g: "sn_generation sn = g"
    and st': "pending st' = dict_set (pending st) k \<lparr>pc_generation = g, pc_future = next_future st\<rparr>"
      "frames st' = dict_set (frames st) k fr" "cf_generation fr = g" "cf_future fr = next_future st"
      "next_future st' = next_future st + 1" "current st' = current st"
      "futures st' = (futures st)(next_future st := Pending)"
  shows "inv_link st'"
proof (rule inv_linkI)
  have other: "map_of (frames st) k' = Some f' \<Longrightarrow> cf_future f' \<noteq> next_future st" for k' f'
    using inv_link_bound [OF inv] by fastforce
  have absent: "map_of (frames st) k = None"
    using fresh by (simp add: fresh_call_id_def map_of_None_iff)
  show "entry_linked st' k' call'" if c': "map_of (pending st') k' = Some call'" for k' call'
  proof (cases "k' = k")
    case True
    with c' st' sn g show ?thesis by (auto simp: entry_linked_def)
  next
    case False
    with c' st'(1) have c: "map_of (pending st) k' = Some call'" by simp
    note e = inv_link_entry [OF inv c]
    then have "pc_future call' \<noteq> next_future st" using other unfolding entry_linked_def by metis
    with e False show ?thesis using st' by (simp add: entry_linked_def)
  qed
  show "map_of (pending st') k' \<noteq> None"
    if fr': "map_of (frames st') k' = Some fr'" and p: "futures st' (cf_future fr') = Pending" for k' fr'
  proof (cases "k' = k")
    case False
    with fr' st'(2) have f: "map_of (frames st) k' = Some fr'" by simp
    with p st'(7) other have "futures st (cf_future fr') = Pending" by auto
    then show ?thesis using inv_link_undecided [OF inv f] st'(1) by auto
  qed (use st'(1) in simp)
  show "cf_future fr' < next_future st'" if "map_of (frames st') k' = Some fr'" for k' fr'
    using that st' inv_link_bound [OF inv, of k' fr'] by (auto split: if_splits)
  show "k1 = k2" if "map_of (frames st') k1 = Some f1" "map_of (frames st') k2 = Some f2"
      "cf_future f1 = cf_future f2" for k1 k2 f1 f2
    using that st'(2,4) inv_link_inj [OF inv, of k1 f1 k2 f2] other
    by (auto split: if_splits dest: sym)
qed

lemma inv_tables_pop:
  assumes "inv_tables st" "websocket st' = websocket st" "current st' = current st"
    and "pending st' = pending st \<or> pending st' = dict_pop (pending st) k"
    and "retired st' = retired st \<or> retired st' = dict_pop (retired st) k'"
    and "frames st' = frames st"
  shows "inv_tables st'"
proof -
  have len: "length (dict_pop (pending st) k) \<le> length (pending st)"
    "length (dict_pop (retired st) k') \<le> length (retired st)"
    by (rule length_dict_pop_le)+
  have "fst ` set (retired st') \<subseteq> fst ` set (retired st)"
    using assms(5) by (auto simp: set_dict_pop)
  moreover have "fst ` set (retired st) \<inter> fst ` set (frames st) = {}"
    using assms(1) by (simp add: inv_tables_def)
  ultimately have "fst ` set (retired st') \<inter> fst ` set (frames st') = {}"
    unfolding assms(6) by blast
  moreover have "length (pending st') \<le> MAX_PENDING_TOOL_CALLS \<and> distinct (map fst (pending st'))"
    using assms(1,4) len(1) by (auto simp: inv_tables_def distinct_dict_pop)
  moreover have "length (retired st') \<le> MAX_RETIRED_TOOL_CALLS \<and> distinct (map fst (retired st'))"
    using assms(1,5) len(2) by (auto simp: inv_tables_def distinct_dict_pop)
  ultimately show ?thesis using assms(1-3,6) by (simp add: inv_tables_def)
qed

text \<open>
  Under the invariant the mismatch and duplicate branches of \<^verbatim>\<open>handle_message\<close> are unreachable: a
  correlated result either finds no entry, or finds one of the current generation whose future is
  undecided.
\<close>

lemma correlation_current:
  "result_correlation st v = Some (g, k, b) \<Longrightarrow> \<exists>sn. current st = Some sn \<and> sn_generation sn = g"
  by (auto simp: result_correlation_def split: option.splits if_splits)

lemma linked_result:
  assumes "inv_link st" "result_correlation st v = Some (g, k, b)" "map_of (pending st) k = Some call"
  shows "pc_generation call = g" "futures st (pc_future call) = Pending"
  using inv_link_entry [OF assms(1,3)] correlation_current [OF assms(2)]
  by (auto simp: entry_linked_def)

lemma inv_tool_result:
  assumes "broker_inv st"
  shows "broker_inv (snd (handle_tool_result frepr v st))"
proof (cases "result_correlation st v")
  case None
  with assms show ?thesis by (simp add: handle_tool_result_def)
next
  case (Some a)
  obtain g k b where c: "result_correlation st v = Some (g, k, b)" using Some by (cases a) auto
  let ?st' = "snd (handle_tool_result frepr v st)"
  have inv: "inv_tables st" "inv_link st" "inv_count st" using assms by (simp_all add: broker_inv_def)
  show ?thesis
  proof (cases "bounded_json frepr (jget v ''result'') MAX_TOOL_RESULT_BYTES ''tool result''")
    case (Inl e)
    with assms c show ?thesis by (simp add: handle_tool_result_def)
  next
    case bounded: (Inr u)
    show ?thesis
    proof (cases "map_of (pending st) k")
      case None
      with c bounded have st': "?st' = st\<lparr>pending := dict_pop (pending st) k, retired := dict_pop (retired st) k\<rparr>"
        by (simp add: handle_tool_result_def Let_def)
      have "dict_pop (pending st) k = pending st"
        using None by (simp add: map_of_None_iff dict_pop_absent)
      with st' inv(2) have "inv_link ?st'" using inv_link_cong [of ?st' st] by simp
      moreover have "inv_tables ?st'"
        by (rule inv_tables_pop [OF inv(1), of _ k k]) (simp_all add: st')
      ultimately show ?thesis using inv(3) st' by (simp add: broker_inv_def inv_count_def)
    next
      case (Some call)
      with c bounded linked_result [OF inv(2) c Some]
      have st': "?st' = st\<lparr>pending := dict_pop (pending st) k,
          futures := (futures st)(pc_future call := Resolved b (jget v ''result''))\<rparr>"
        by (simp add: handle_tool_result_def Let_def)
      have "inv_link ?st'"
        by (rule inv_link_decide [where v = "Resolved b (jget v ''result'')", OF inv(2) Some])
          (simp_all add: st')
      moreover have "inv_tables ?st'"
        by (rule inv_tables_pop [OF inv(1), of _ k k]) (simp_all add: st')
      ultimately show ?thesis using inv(3) st' by (simp add: broker_inv_def inv_count_def)
    qed
  qed
qed

lemma inv_message: "broker_inv st \<Longrightarrow> broker_inv (snd (handle_message frepr ok ws v st))"
  by (simp add: handle_message_def inv_tool_result send_json_inv)

lemma inv_start:
  assumes inv: "broker_inv st" and fresh: "fresh_call_id k st"
  shows "broker_inv (snd (call_start frepr k sn name args st))"
proof (cases "is_ok (fst (call_start frepr k sn name args st))")
  case False
  then have "snd (call_start frepr k sn name args st) = st"
    by (auto simp: call_start_def Let_def split: sum.splits if_splits)
  with inv show ?thesis by simp
next
  case True
  let ?st' = "snd (call_start frepr k sn name args st)"
  let ?g = "sn_generation sn"
  let ?fr = "\<lparr>cf_generation = ?g, cf_future = next_future st, cf_websocket = the (websocket st),
    cf_message = call_message ?g k name args\<rparr>"
  from True have st': "?st' = st\<lparr>
      pending := dict_set (pending st) k \<lparr>pc_generation = ?g, pc_future = next_future st\<rparr>,
      calls_started := calls_started st + 1, futures := (futures st)(next_future st := Pending),
      next_future := next_future st + 1, frames := dict_set (frames st) k ?fr\<rparr>"
    and auth: "authority_current sn st" and room: "length (pending st) < MAX_PENDING_TOOL_CALLS"
    by (auto simp: call_start_def Let_def split: sum.splits if_splits)
  obtain c where c: "current st = Some c" "sn_generation c = ?g"
    using auth by (auto simp: authority_current_def split: option.splits)
  have new: "k \<notin> fst ` set (pending st)" "k \<notin> fst ` set (frames st)" "k \<notin> fst ` set (retired st)"
    using fresh by (simp_all add: fresh_call_id_def)
  have "inv_link ?st'"
    by (rule inv_link_start [where fr = ?fr, OF _ fresh c]) (use inv st' in \<open>simp_all add: broker_inv_def\<close>)
  moreover have "inv_tables ?st'"
    unfolding st' using inv room new
    by (auto simp: broker_inv_def inv_tables_def dict_set_absent)
  moreover have "inv_count ?st'"
    unfolding st' using inv new by (simp add: broker_inv_def inv_count_def dict_set_absent)
  ultimately show ?thesis by (simp add: broker_inv_def)
qed

lemma inv_write: "broker_inv st \<Longrightarrow> broker_inv (snd (call_write ok k st))"
  by (simp add: call_write_def send_json_inv split: option.split)

definition settled_by :: "broker \<Rightarrow> broker \<Rightarrow> bool" where
  "settled_by st st1 \<longleftrightarrow>
     websocket st1 = websocket st \<and> current st1 = current st \<and> pending st1 = pending st
     \<and> retired st1 = retired st \<and> frames st1 = frames st \<and> futures st1 = futures st
     \<and> next_future st1 = next_future st \<and> calls_started st1 = calls_started st
     \<and> calls_succeeded st1 + calls_failed st1 + calls_timed_out st1 + calls_transport_failed st1
         + calls_cancelled st1
       = Suc (calls_succeeded st + calls_failed st + calls_timed_out st + calls_transport_failed st
         + calls_cancelled st)"

lemma call_settle_settled: "settled_by st (snd (call_settle outcome f st))"
  by (simp add: settled_by_def call_settle_def split: call_outcome.split call_future.split)

lemma inv_finish:
  assumes inv: "broker_inv st" and fr: "map_of (frames st) k = Some fr"
  shows "broker_inv (snd (call_finish k outcome d st))"
proof -
  let ?f = "futures st (cf_future fr)"
  define st1 where "st1 = snd (call_settle outcome ?f st)"
  let ?st' = "call_cleanup k fr (call_completed outcome ?f) d st1"
  have s: "settled_by st st1" by (simp add: st1_def call_settle_settled)
  have e: "snd (call_finish k outcome d st) = ?st'"
    by (simp add: call_finish_def fr st1_def Let_def case_prod_unfold)
  have mem: "k \<in> fst ` set (frames st)" using fr by (force dest: map_of_SomeD)
  have "inv_link ?st'"
    by (rule inv_link_finish [OF _ fr])
      (use inv s in \<open>auto simp: call_cleanup_def settled_by_def broker_inv_def Let_def\<close>)
  moreover have "inv_count ?st'"
    using inv s length_dict_pop_present [OF _ mem]
    by (auto simp: call_cleanup_def settled_by_def broker_inv_def inv_count_def inv_tables_def Let_def)
  moreover have "inv_tables ?st'"
  proof -
    have log: "distinct (map fst (retired st))" "length (map fst (retired st)) \<le> MAX_RETIRED_TOOL_CALLS"
      using inv by (simp_all add: broker_inv_def inv_tables_def)
    note log' = call_log.distinct_step [OF log] call_log.bounded_step [OF log, unfolded length_map]
      call_log.retired_only [OF log, unfolded set_map]
    have r: "retired ?st' = retired st \<or> retired ?st' = retire_call (cf_generation fr) k (retired st)"
      using s by (auto simp: call_cleanup_def settled_by_def Let_def)
    have d: "fst ` set (retired st) \<inter> fst ` set (frames st) = {}"
      using inv by (simp add: broker_inv_def inv_tables_def)
    have fs: "fst ` set (frames ?st') \<subseteq> fst ` set (frames st) - {k}"
      using s by (auto simp: call_cleanup_def settled_by_def Let_def set_dict_pop)
    have disj: "fst ` set (retired ?st') \<inter> fst ` set (frames ?st') = {}"
    proof -
      have "fst ` set (retired ?st') \<subseteq> insert k (fst ` set (retired st))"
        using r by (elim disjE ssubst) (rule subset_insertI, rule log'(3))
      with fs d show ?thesis by blast
    qed
    have bnd: "length (retired ?st') \<le> MAX_RETIRED_TOOL_CALLS" "distinct (map fst (retired ?st'))"
      using r log log'(1,2) by auto
    have p: "pending ?st' = dict_pop (pending st) k" "frames ?st' = dict_pop (frames st) k"
      "websocket ?st' = websocket st" "current ?st' = current st"
      using s by (auto simp: call_cleanup_def settled_by_def Let_def)
    show ?thesis unfolding inv_tables_def using disj bnd p inv length_dict_pop_le [of "pending st" k]
      by (simp add: broker_inv_def inv_tables_def distinct_dict_pop)
  qed
  ultimately show ?thesis unfolding e by (simp add: broker_inv_def)
qed

lemma inv_closed: "broker_inv st \<Longrightarrow> broker_inv (st\<lparr>closed := c\<rparr>)"
  using inv_link_cong [of "st\<lparr>closed := c\<rparr>" st]
  by (simp add: broker_inv_def inv_tables_def inv_count_def)

lemma broker_step_inv: "broker_step frepr st st' \<Longrightarrow> broker_inv st \<Longrightarrow> broker_inv st'"
  by (induction rule: broker_step.induct)
    (simp_all add: inv_register inv_unregister inv_message inv_closed inv_start inv_write inv_finish)

lemma reachable_broker_inv: "broker_reachable frepr st \<Longrightarrow> broker_inv st"
  by (induction rule: broker_reachable.induct) (auto intro: inv_new broker_step_inv)

section \<open>A concrete run\<close>

definition run_registered :: broker where
  "run_registered = snd (register (\<lambda>_. []) ''g1'' True 7 sample_registration initial_broker)"

definition run_calling :: broker where
  "run_calling = snd (call_start (\<lambda>_. []) ''c1'' (sample_snapshot\<lparr>sn_generation := ''g1''\<rparr>)
     ''HassTurnOn'' [] run_registered)"

definition sample_result :: obj where
  "sample_result =
     [(''type'', JStr ''tool_result''), (''generation'', JStr ''g1''), (''call_id'', JStr ''c1''),
      (''success'', JBool True), (''result'', JStr ''ok'')]"

lemma run_registered_eq:
  "websocket run_registered = Some 7" "closed run_registered 7 = False"
  "current run_registered = Some (sample_snapshot\<lparr>sn_generation := ''g1''\<rparr>)"
  "pending run_registered = []" "retired run_registered = []" "frames run_registered = []"
  "next_future run_registered = 0" "calls_started run_registered = 0"
  by (simp_all add: run_registered_def initial_broker_def register_def sample_registration_ok
      connected_socket_def send_json_def fail_futures_def Let_def)

lemma run_calling_eq:
  "websocket run_calling = Some 7"
  "current run_calling = Some (sample_snapshot\<lparr>sn_generation := ''g1''\<rparr>)"
  "pending run_calling = [(''c1'', \<lparr>pc_generation = ''g1'', pc_future = 0\<rparr>)]"
  "retired run_calling = []" "next_future run_calling = 1"
  "frames run_calling = [(''c1'', \<lparr>cf_generation = ''g1'', cf_future = 0, cf_websocket = 7,
     cf_message = call_message ''g1'' ''c1'' ''HassTurnOn'' []\<rparr>)]"
  "futures run_calling 0 = Pending"
  by (simp_all add: run_calling_def call_start_def authority_current_def connected_socket_def
      run_registered_eq sample_snapshot_def bounded_json_def dumps_strict_def tool_bounds
      MAX_PENDING_TOOL_CALLS_def Let_def)

lemma run_registered_reachable: "broker_reachable (\<lambda>_. []) run_registered"
  unfolding run_registered_def
  by (rule broker_reachable.step [OF broker_reachable.initial [where timeout = 35] broker_step.registers])
    (simp add: new_broker_def)

lemma run_calling_reachable: "broker_reachable (\<lambda>_. []) run_calling"
  unfolding run_calling_def
  by (rule broker_reachable.step [OF run_registered_reachable broker_step.starts])
    (simp add: fresh_call_id_def run_registered_eq)

section \<open>Properties\<close>

text \<open>C7: In every reachable state of the broker, under any interleaving of registrations,
  disconnections, messages, calls, deadlines and cancellations: at most 16 calls are pending and at
  most 128 are retired, the authority and its snapshot exist together, each pending entry belongs to a
  suspended call of the current generation whose future is undecided and no suspended call with an
  undecided future lacks its entry, and the five outcome counters plus the suspended calls add up to
  the calls started.\<close>

theorem broker_invariant:
  assumes "broker_reachable frepr st"
  shows "broker_inv st"
  by (rule reachable_broker_inv [OF assms])

theorem broker_invariant_witness: "broker_inv run_calling \<and> pending run_calling \<noteq> []"
  using broker_invariant [OF run_calling_reachable] by (simp add: run_calling_eq)

lemma fail_future_decided: "heap f \<noteq> Pending \<Longrightarrow> fail_futures e fs heap f = heap f"
  by (simp add: fail_futures_apply)

lemma handle_tool_result_decided:
  assumes "inv_link st" "futures st f \<noteq> Pending"
  shows "futures (snd (handle_tool_result frepr v st)) f = futures st f"
  using assms(2) linked_result [OF assms(1)]
  by (auto simp: handle_tool_result_def Let_def split: option.split sum.split)

lemma send_json_futures [simp]: "futures (snd (send_json ok ws v st)) = futures st"
  by (simp add: send_json_def)

text \<open>C12: Every tool call is decided at most once: in a reachable state no step changes a future that is
  already decided, so a result, a failure or a cancellation is never overwritten, and a second result
  for the same call cannot take effect.\<close>

theorem call_decided_once:
  assumes "broker_reachable frepr st" and "broker_step frepr st st'"
    and "f < next_future st" and "futures st f \<noteq> Pending"
  shows "futures st' f = futures st f"
proof -
  have inv: "inv_link st" using reachable_broker_inv [OF assms(1)] by (simp add: broker_inv_def)
  from assms(2) show ?thesis
  proof cases
    case (registers token ok ws v)
    then show ?thesis using assms(4)
      by (auto simp: register_def Let_def fail_future_decided send_json_def split: sum.split)
  next
    case (unregisters ws)
    then show ?thesis using assms(4) by (simp add: unregister_def fail_future_decided)
  next
    case (receives ok ws v)
    then show ?thesis
      using handle_tool_result_decided [OF inv assms(4)] by (simp add: handle_message_def)
  next
    case (starts k sn name args)
    then show ?thesis using assms(3) by (simp add: call_start_def Let_def split: sum.split)
  next
    case (writes ok k)
    then show ?thesis by (simp add: call_write_def split: option.split)
  next
    case (finishes k fr outcome d)
    have "futures (snd (call_settle outcome g st)) = futures st" for g
      using call_settle_settled [of st outcome g] by (simp add: settled_by_def)
    then show ?thesis using finishes(1,2) assms(4)
      by (auto simp: call_finish_def call_cleanup_def Let_def case_prod_unfold)
  qed simp
qed

theorem call_decided_once_witness:
  "\<exists>st st'. broker_step (\<lambda>_. []) st st' \<and> futures st 0 = Resolved True (JStr ''ok'')
     \<and> futures st' 0 = Resolved True (JStr ''ok'')"
proof -
  define st where "st = snd (handle_message (\<lambda>_. []) True 7 sample_result run_calling)"
  have r: "broker_reachable (\<lambda>_. []) st"
    unfolding st_def by (rule broker_reachable.step [OF run_calling_reachable broker_step.receives])
  have f: "futures st 0 = Resolved True (JStr ''ok'')" "next_future st = 1"
    by (simp_all add: st_def handle_message_def handle_tool_result_def result_correlation_def
        run_calling_eq sample_result_def sample_snapshot_def bounded_json_def dumps_strict_def
        tool_bounds quote_text_def escape_char_def in_span_def ord_of_def Let_def)
  have s: "broker_step (\<lambda>_. []) st (unregister 7 st)" by (rule broker_step.unregisters)
  have "futures (unregister 7 st) 0 = futures st 0"
    by (rule call_decided_once [OF r s]) (simp_all add: f)
  with f s show ?thesis by metis
qed

text \<open>A correlated, bounded result of the current authority reaches exactly its call: the call's
  future becomes that result, its pending entry disappears, and no other future, entry or retired
  id changes; the duplicate and the generation-mismatch rejections after the lookup never fire.\<close>

theorem tool_result_delivery:
  assumes "broker_reachable frepr st" and "websocket st = Some ws"
    and "jget v ''type'' = JStr ''tool_result''"
    and "result_correlation st v = Some (g, k, success)"
    and "bounded_json frepr (jget v ''result'') MAX_TOOL_RESULT_BYTES ''tool result'' = Inr ()"
    and "map_of (pending st) k = Some call"
  shows "handle_message frepr ok ws v st =
    (Inr (), st\<lparr>pending := dict_pop (pending st) k,
       futures := (futures st)(pc_future call := Resolved success (jget v ''result''))\<rparr>)"
proof -
  have "inv_link st" using reachable_broker_inv [OF assms(1)] by (simp add: broker_inv_def)
  from linked_result [OF this assms(4,6)] show ?thesis
    using assms by (simp add: handle_message_def handle_tool_result_def Let_def)
qed

theorem tool_result_delivery_witness:
  "fst (handle_message (\<lambda>_. []) True 7 sample_result run_calling) = Inr ()"
proof -
  have c: "result_correlation run_calling sample_result = Some (''g1'', ''c1'', True)"
    by (simp add: result_correlation_def run_calling_eq sample_result_def sample_snapshot_def)
  have b: "bounded_json (\<lambda>_. []) (jget sample_result ''result'') MAX_TOOL_RESULT_BYTES ''tool result'' = Inr ()"
    by (simp add: sample_result_def bounded_json_def dumps_strict_def tool_bounds quote_text_def
        escape_char_def in_span_def ord_of_def)
  have t: "jget sample_result ''type'' = JStr ''tool_result''" by (simp add: sample_result_def)
  have m: "map_of (pending run_calling) ''c1'' = Some \<lparr>pc_generation = ''g1'', pc_future = 0\<rparr>"
    by (simp add: run_calling_eq)
  show ?thesis
    using tool_result_delivery [OF run_calling_reachable run_calling_eq(1) t c b m, of True] by simp
qed

text \<open>C24: Losing the authority fails every pending call, once and as an unknown outcome: after
  \<^verbatim>\<open>unregister\<close> of the connected socket nothing is pending or retired, the future of every call that was
  pending holds the disconnect error, every other future is untouched, and a call that then resumes
  raises exactly that error.\<close>

theorem disconnect_fails_pending_calls:
  assumes "broker_reachable frepr st" and "websocket st = Some ws"
    and "map_of (pending st) k = Some call" and "st' = unregister ws st"
    and "e = ToolBrokerUnavailable ''Home Assistant tool authority disconnected; outcome unknown''"
  shows "pending st' = [] \<and> retired st' = [] \<and> current st' = None
    \<and> futures st' (pc_future call) = Failed e
    \<and> fst (call_finish k Awaited d st') = Inl e
    \<and> (\<forall>f. f \<notin> set (pending_futures st) \<longrightarrow> futures st' f = futures st f)"
proof -
  have "inv_link st" using reachable_broker_inv [OF assms(1)] by (simp add: broker_inv_def)
  from inv_link_entry [OF this assms(3)] obtain fr where
    fr: "map_of (frames st) k = Some fr" "cf_future fr = pc_future call"
    and p: "futures st (pc_future call) = Pending"
    by (auto simp: entry_linked_def)
  have "futures st' (pc_future call) = Failed e"
    using assms(2,4,5) p pending_future_mem [OF assms(3)]
    by (simp add: unregister_def fail_futures_apply)
  moreover have "map_of (frames st') k = Some fr" using fr assms(4) by (simp add: unregister_def)
  ultimately have "fst (call_finish k Awaited d st') = Inl e"
    using fr(2) by (simp add: call_finish_def call_settle_def Let_def)
  with \<open>futures st' (pc_future call) = Failed e\<close> show ?thesis
    using assms(2,4) by (simp add: unregister_def fail_futures_apply)
qed

theorem disconnect_fails_pending_calls_witness:
  "fst (call_finish ''c1'' Awaited 3 (unregister 7 run_calling))
     = Inl (ToolBrokerUnavailable ''Home Assistant tool authority disconnected; outcome unknown'')"
proof -
  have m: "map_of (pending run_calling) ''c1'' = Some \<lparr>pc_generation = ''g1'', pc_future = 0\<rparr>"
    by (simp add: run_calling_eq)
  show ?thesis
    using disconnect_fails_pending_calls
      [OF run_calling_reachable run_calling_eq(1) m refl refl, where d = 3] by blast
qed

text \<open>A call is admitted exactly when the snapshot's authority is the connected one, the tool is
  declared in that snapshot, the arguments have a strict JSON encoding of at most 64 KiB and fewer than
  16 calls are pending; an admitted call gets a pending entry bound to the snapshot's generation and
  a fresh undecided future, and a rejected one changes nothing.\<close>

theorem call_admission:
  "(if authority_current sn st \<and> name \<in> sn_tool_names sn \<and> finite_json (JObj args)
       \<and> length (dumps frepr (JObj args)) \<le> 65536 \<and> length (pending st) < 16
    then fst (call_start frepr k sn name args st) = Inr ()
       \<and> map_of (pending (snd (call_start frepr k sn name args st))) k
           = Some \<lparr>pc_generation = sn_generation sn, pc_future = next_future st\<rparr>
       \<and> futures (snd (call_start frepr k sn name args st)) (next_future st) = Pending
    else \<exists>e. call_start frepr k sn name args st = (Inl e, st))"
proof (cases "bounded_json frepr (JObj args) MAX_TOOL_ARGUMENT_BYTES ''tool arguments''")
  case (Inl e)
  then have "\<not> (finite_json (JObj args) \<and> length (dumps frepr (JObj args)) \<le> 65536)"
    using bounded_json_ok [of frepr "JObj args" MAX_TOOL_ARGUMENT_BYTES "''tool arguments''" "()"]
    by (auto simp: tool_bounds)
  with Inl show ?thesis by (auto simp: call_start_def simp del: finite_json.simps dumps.simps)
next
  case (Inr u)
  then have "finite_json (JObj args) \<and> length (dumps frepr (JObj args)) \<le> 65536"
    by (simp add: bounded_json_ok tool_bounds)
  with Inr show ?thesis
    by (simp add: call_start_def Let_def MAX_PENDING_TOOL_CALLS_def not_le
        del: finite_json.simps dumps.simps)
qed

lemma map_of_retire_call:
  assumes "distinct (map fst m)"
  shows "map_of (retire_call g k m) k = Some g"
proof -
  have "retire_call g k m = newest 127 (dict_pop m k) @ [(k, g)]"
    by (simp add: retire_call_def evict_oldest_newest move_to_end_dict_set [OF assms]
        MAX_RETIRED_TOOL_CALLS_def newest_snoc)
  moreover have "k \<notin> fst ` set (newest 127 (dict_pop m k))"
    using set_newest [of 127 "dict_pop m k"] by (auto simp: set_dict_pop)
  ultimately show ?thesis by (simp add: map_of_None_iff [symmetric] map_add_def)
qed

text \<open>A result that arrives after its call has ended without one (deadline, cancellation or failed
  write) is accepted silently once and has no effect on any future; a repetition of it is refused as
  stale. This holds while the call's generation is still the current one.\<close>

theorem late_result_absorbed_once:
  assumes "broker_reachable frepr st" and "map_of (frames st) k = Some fr"
    and "\<not> call_completed outcome (futures st (cf_future fr))"
    and "st1 = snd (call_finish k outcome d st)"
    and "websocket st = Some ws" and "jget v ''type'' = JStr ''tool_result''"
    and "result_correlation st v = Some (cf_generation fr, k, success)"
    and "bounded_json frepr (jget v ''result'') MAX_TOOL_RESULT_BYTES ''tool result'' = Inr ()"
    and "st2 = snd (handle_message frepr ok ws v st1)"
  shows "fst (handle_message frepr ok ws v st1) = Inr ()
    \<and> futures st2 = futures st1
    \<and> handle_message frepr ok ws v st2
        = (Inl (ProtocolError ''unknown or stale Home Assistant tool result''), st2)"
proof -
  have inv: "inv_tables st" using reachable_broker_inv [OF assms(1)] by (simp add: broker_inv_def)
  obtain sn where sn: "current st = Some sn" "sn_generation sn = cf_generation fr"
    using correlation_current [OF assms(7)] by auto
  define s where "s = snd (call_settle outcome (futures st (cf_future fr)) st)"
  have s: "settled_by st s" by (simp add: s_def call_settle_settled)
  have st1: "st1 = call_cleanup k fr False d s"
    using assms(2-4) by (simp add: call_finish_def s_def Let_def case_prod_unfold)
  have f1: "current st1 = Some sn" "websocket st1 = Some ws"
    "pending st1 = dict_pop (pending st) k"
    "retired st1 = retire_call (cf_generation fr) k (retired st)"
    using s sn assms(5) by (auto simp: st1 call_cleanup_def settled_by_def Let_def)
  have c: "result_correlation st1 v = Some (cf_generation fr, k, success)"
    using assms(7) f1(1) sn by (simp add: result_correlation_def)
  have p: "map_of (pending st1) k = None" using f1(3) by simp
  have r: "map_of (retired st1) k = Some (cf_generation fr)"
    using inv f1(4) map_of_retire_call by (simp add: inv_tables_def)
  have h1: "handle_message frepr ok ws v st1
      = (Inr (), st1\<lparr>pending := dict_pop (pending st1) k, retired := dict_pop (retired st1) k\<rparr>)"
    using f1(2) assms(6,8) c p r by (simp add: handle_message_def handle_tool_result_def Let_def)
  then have st2: "st2 = st1\<lparr>pending := dict_pop (pending st1) k, retired := dict_pop (retired st1) k\<rparr>"
    using assms(9) by simp
  have c2: "result_correlation st2 v = Some (cf_generation fr, k, success)"
    using c by (simp add: st2 result_correlation_def)
  have pop2: "dict_pop (dict_pop m k) k = dict_pop m k" for m :: "(string \<times> 'x) list"
    by (simp add: dict_pop_def)
  have "handle_message frepr ok ws v st2
      = (Inl (ProtocolError ''unknown or stale Home Assistant tool result''), st2)"
    using f1(2) assms(6,8) c2 by (simp add: handle_message_def handle_tool_result_def Let_def st2 pop2)
  with h1 st2 show ?thesis by simp
qed

theorem late_result_absorbed_once_witness:
  "fst (handle_message (\<lambda>_. []) True 7 sample_result
     (snd (call_finish ''c1'' DeadlinePassed 35000 run_calling))) = Inr ()"
proof -
  have c: "result_correlation run_calling sample_result = Some (''g1'', ''c1'', True)"
    by (simp add: result_correlation_def run_calling_eq sample_result_def sample_snapshot_def)
  have b: "bounded_json (\<lambda>_. []) (jget sample_result ''result'') MAX_TOOL_RESULT_BYTES ''tool result'' = Inr ()"
    by (simp add: sample_result_def bounded_json_def dumps_strict_def tool_bounds quote_text_def
        escape_char_def in_span_def ord_of_def)
  have t: "jget sample_result ''type'' = JStr ''tool_result''" by (simp add: sample_result_def)
  let ?fr = "\<lparr>cf_generation = ''g1'', cf_future = 0, cf_websocket = 7,
     cf_message = call_message ''g1'' ''c1'' ''HassTurnOn'' []\<rparr>"
  have m: "map_of (frames run_calling) ''c1'' = Some ?fr" by (simp add: run_calling_eq)
  have n: "\<not> call_completed DeadlinePassed (futures run_calling (cf_future ?fr))"
    by (simp add: call_completed_def)
  have c': "result_correlation run_calling sample_result = Some (cf_generation ?fr, ''c1'', True)"
    using c by simp
  show ?thesis
    using late_result_absorbed_once
      [OF run_calling_reachable m n refl run_calling_eq(1) t c' b refl] by blast
qed

end
