(* ===== verification/Float64.thy ===== *)
theory Float64
  imports Prelude
begin

text \<open>
  Python's float arithmetic as the audio code uses it: IEEE-754 binary64 values are rationals, every
  operation is the exact result rounded to 53 significant bits, ties to even (\<open>fl\<close>), and the built-in
  \<^verbatim>\<open>round\<close> rounds to the nearest integer, ties to even. The quantities the program computes lie
  between \<open>2 ^ -64\<close> and \<open>2 ^ 40\<close> or are zero, far from the ends of the exponent range, so neither overflow nor
  subnormal numbers are modelled.
\<close>

section \<open>Rounding\<close>

definition round_half_even :: "rat \<Rightarrow> int" where
  "round_half_even x =
     (let f = \<lfloor>x\<rfloor>; d = x - of_int f
      in if d < 1 / 2 then f else if 1 / 2 < d then f + 1 else if even f then f else f + 1)"

fun nat_log2 :: "nat \<Rightarrow> nat" where
  "nat_log2 n = (if n < 2 then 0 else Suc (nat_log2 (n div 2)))"

declare nat_log2.simps [simp del]

definition pow2 :: "int \<Rightarrow> rat" where
  "pow2 e = (if 0 \<le> e then 2 ^ nat e else 1 / 2 ^ nat (- e))"

definition exponent :: "rat \<Rightarrow> int" where
  "exponent x =
     (case quotient_of x of (n, d) \<Rightarrow>
        let k = int (nat_log2 (nat n)) - int (nat_log2 (nat d))
        in if pow2 k \<le> x then k else k - 1)"

definition fl :: "rat \<Rightarrow> rat" where
  "fl x =
     (if x = 0 then 0
      else let q = pow2 (exponent \<bar>x\<bar> - 52) in of_int (round_half_even (x / q)) * q)"

section \<open>Exactness on integers\<close>

lemma round_half_even_of_int [simp]: "round_half_even (of_int i) = i"
  by (simp add: round_half_even_def)

lemma round_half_even_bounds:
  assumes "of_int a \<le> x" "x \<le> of_int b"
  shows "a \<le> round_half_even x" "round_half_even x \<le> b"
proof -
  have f: "a \<le> \<lfloor>x\<rfloor>" "\<lfloor>x\<rfloor> \<le> b" using assms by (simp_all add: le_floor_iff floor_le_iff)
  have "x = of_int b" if "\<lfloor>x\<rfloor> = b"
    using that assms(2) of_int_floor_le [of x] by simp
  then have "round_half_even x = b" if "\<lfloor>x\<rfloor> = b" using that by simp
  moreover have "\<lfloor>x\<rfloor> \<le> round_half_even x" "round_half_even x \<le> \<lfloor>x\<rfloor> + 1"
    by (auto simp: round_half_even_def Let_def)
  ultimately show "a \<le> round_half_even x" "round_half_even x \<le> b" using f by force+
qed

lemma nat_log2_le: "0 < n \<Longrightarrow> 2 ^ nat_log2 n \<le> n"
proof (induction n rule: nat_log2.induct)
  case (1 n)
  show ?case
  proof (cases "n < 2")
    case True
    then show ?thesis using 1 by (subst nat_log2.simps) simp
  next
    case False
    with 1 have "2 ^ nat_log2 (n div 2) \<le> n div 2" by simp
    with False show ?thesis by (subst nat_log2.simps) simp
  qed
qed

lemma less_nat_log2: "n < 2 ^ Suc (nat_log2 n)"
proof (induction n rule: nat_log2.induct)
  case (1 n)
  show ?case
  proof (cases "n < 2")
    case True
    then show ?thesis by (subst nat_log2.simps) simp
  next
    case False
    with 1 have "n div 2 < 2 ^ Suc (nat_log2 (n div 2))" by simp
    then have "n < 2 * 2 ^ Suc (nat_log2 (n div 2))" by simp
    with False show ?thesis by (subst nat_log2.simps) simp
  qed
qed

lemma pow2_pos [simp]: "0 < pow2 e"
  by (simp add: pow2_def)

lemma pow2_add_nat: "pow2 (e + int n) = pow2 e * 2 ^ n"
proof -
  consider "0 \<le> e" | "e < 0" "0 \<le> e + int n" | "e + int n < 0" by linarith
  then show ?thesis
  proof cases
    case 1
    then show ?thesis by (simp add: pow2_def nat_add_distrib power_add)
  next
    case 2
    then have "n = nat (e + int n) + nat (- e)" by linarith
    then have "(2::rat) ^ n = 2 ^ nat (e + int n) * 2 ^ nat (- e)" by (metis power_add)
    with 2 show ?thesis by (simp add: pow2_def)
  next
    case 3
    then have "nat (- e) = nat (- (e + int n)) + n" by linarith
    then have "(2::rat) ^ nat (- e) = 2 ^ nat (- (e + int n)) * 2 ^ n" by (metis power_add)
    with 3 show ?thesis by (simp add: pow2_def)
  qed
qed

lemma pow2_diff: "pow2 (int a - int b) = 2 ^ a / 2 ^ b"
  using pow2_add_nat [of "int a - int b" b] by (simp add: pow2_def field_simps)

lemma pow2_exponent_le:
  assumes "0 < x"
  shows "pow2 (exponent x) \<le> x"
proof -
  obtain n d where q: "quotient_of x = (n, d)" by (cases "quotient_of x")
  have d: "0 < d" using quotient_of_denom_pos [OF q] .
  have x: "x = of_int n / of_int d" using quotient_of_div [OF q] .
  with assms d have n: "0 < n" by (simp add: zero_less_divide_iff)
  let ?a = "nat_log2 (nat n)" and ?b = "nat_log2 (nat d)"
  have "2 ^ ?a \<le> nat n" by (rule nat_log2_le) (use n in simp)
  then have "2 ^ ?a \<le> n" using n by (simp add: le_nat_iff)
  then have "(of_int (2 ^ ?a) :: rat) \<le> of_int n" by (simp only: of_int_le_iff)
  then have a: "(2::rat) ^ ?a \<le> of_int n" by simp
  have "nat d < 2 ^ Suc ?b" by (rule less_nat_log2)
  then have "d < 2 ^ Suc ?b" using d by (simp add: nat_less_iff)
  then have "(of_int d :: rat) < of_int (2 ^ Suc ?b)" by (simp only: of_int_less_iff)
  then have b: "of_int d < (2::rat) ^ Suc ?b" by simp
  have "(2::rat) ^ ?a / 2 ^ Suc ?b \<le> of_int n / of_int d"
    using a b d n by (intro frac_le) simp_all
  then have "pow2 (int ?a - int (Suc ?b)) \<le> x" by (simp only: pow2_diff x)
  then have "pow2 (int ?a - int ?b - 1) \<le> x" by (simp add: algebra_simps)
  then show ?thesis by (simp add: exponent_def q Let_def)
qed

lemma exponent_less:
  assumes "0 < x" "x < 2 ^ k"
  shows "exponent x < int k"
proof (rule ccontr)
  assume "\<not> exponent x < int k"
  then obtain m where "exponent x = int k + int m"
    by (metis linorder_not_less zle_iff_zadd)
  then have "pow2 (exponent x) = 2 ^ k * 2 ^ m" by (simp add: pow2_add_nat) (simp add: pow2_def)
  moreover have "(1::rat) \<le> 2 ^ m" by simp
  ultimately have "2 ^ k \<le> pow2 (exponent x)" by simp
  with pow2_exponent_le [OF assms(1)] assms(2) show False by linarith
qed

lemma fl_of_int:
  assumes "\<bar>i\<bar> < 2 ^ 53"
  shows "fl (of_int i) = of_int i"
proof (cases "i = 0")
  case False
  have "(0::rat) < \<bar>of_int i\<bar>" using False by simp
  moreover have "\<bar>of_int i\<bar> < (2::rat) ^ 53"
    using assms by (metis of_int_abs of_int_less_iff of_int_numeral of_int_power)
  ultimately have "exponent \<bar>of_int i\<bar> < int 53" by (rule exponent_less)
  then have "0 \<le> 52 - exponent \<bar>of_int i :: rat\<bar>" by simp
  then obtain m where m: "52 - exponent \<bar>of_int i :: rat\<bar> = int m" by (rule nonneg_int_cases)
  then have q: "pow2 (exponent \<bar>of_int i :: rat\<bar> - 52) = 1 / 2 ^ m"
    using pow2_diff [of 0 m] minus_diff_eq [of 52 "exponent \<bar>of_int i :: rat\<bar>"] by (simp add: m)
  have "of_int i / (1 / 2 ^ m) = (of_int (i * 2 ^ m) :: rat)" by simp
  then have "round_half_even (of_int i / (1 / 2 ^ m)) = i * 2 ^ m"
    by (simp only: round_half_even_of_int)
  then show ?thesis using False unfolding fl_def Let_def q by simp
qed (simp add: fl_def)

lemma fl_0 [simp]: "fl 0 = 0"
  by (simp add: fl_def)

lemma fl_1 [simp]: "fl 1 = 1"
  using fl_of_int [of 1] by simp

section \<open>Python's numeric built-ins\<close>

text \<open>\<^verbatim>\<open>a / b\<close> on integers is the correctly rounded quotient; \<^verbatim>\<open>round(a / b)\<close>.\<close>

definition true_div :: "int \<Rightarrow> int \<Rightarrow> rat" where
  "true_div a b = fl (of_int a / of_int b)"

definition round_div :: "int \<Rightarrow> int \<Rightarrow> int" where
  "round_div a b = round_half_even (true_div a b)"

lemma round_div_same: "0 < b \<Longrightarrow> \<bar>a\<bar> < 2 ^ 53 \<Longrightarrow> round_div (a * b) b = a"
  by (simp add: round_div_def true_div_def fl_of_int)

end
