(* ===== verification/Audio.thy ===== *)
theory Audio
  imports Float64 Wire
begin

text \<open>
  The PCM16 helpers of \<^verbatim>\<open>bridge/audio.py\<close>: the incremental resampler, payload validation, the
  one-shot downmix and resampling to 24 kHz, silence, and the streaming WAV header. Float arithmetic is
  that of \<^verbatim>\<open>Float64\<close>. The host is little-endian, so \<^verbatim>\<open>byteswap\<close> is never called. \<^verbatim>\<open>wave.open\<close>
  is a parameter that returns the parsed header and frames, or \<open>None\<close> for the errors the code catches.
\<close>

section \<open>The incremental resampler\<close>

definition MAX_PCM_DURATION_SECONDS :: nat where "MAX_PCM_DURATION_SECONDS = 300"
definition PCM_SAMPLE_WIDTH :: nat where "PCM_SAMPLE_WIDTH = 2"

record resampler =
  rs_source_rate :: nat
  rs_output_rate :: nat
  rs_buffer :: "int list"
  rs_buffer_start :: nat
  rs_input_frames :: nat
  rs_output_frames :: nat
  rs_closed :: bool

definition valid_rate :: "int \<Rightarrow> bool" where
  "valid_rate r \<longleftrightarrow> MIN_PCM_SAMPLE_RATE \<le> r \<and> r \<le> MAX_PCM_SAMPLE_RATE"

definition new_resampler :: "int \<Rightarrow> int \<Rightarrow> resampler result" where
  "new_resampler source_rate output_rate =
     (if \<not> valid_rate source_rate \<or> \<not> valid_rate output_rate
      then Inl (ProtocolError ''sample rates must be between 8000 and 192000 Hz'')
      else Inr \<lparr>rs_source_rate = nat source_rate, rs_output_rate = nat output_rate, rs_buffer = [],
                rs_buffer_start = 0, rs_input_frames = 0, rs_output_frames = 0, rs_closed = False\<rparr>)"

definition clamp16 :: "int \<Rightarrow> int" where
  "clamp16 v = max (-32768) (min 32767 v)"

text \<open>\<^verbatim>\<open>round(left * (1.0 - fraction) + right * fraction)\<close> with \<^verbatim>\<open>fraction = numerator / rate\<close>.\<close>

definition interpolate :: "int \<Rightarrow> int \<Rightarrow> nat \<Rightarrow> nat \<Rightarrow> int" where
  "interpolate left right numerator rate =
     (let fraction = true_div (int numerator) (int rate)
      in round_half_even (fl (fl (of_int left * fl (1 - fraction)) + fl (of_int right * fraction))))"

text \<open>The \<^verbatim>\<open>while\<close> loop of \<^verbatim>\<open>_drain\<close>; \<open>None\<close> would be a loop that does not end.\<close>

partial_function (option) drain_loop ::
    "bool \<Rightarrow> nat option \<Rightarrow> resampler \<Rightarrow> int list \<Rightarrow> (int list result \<times> resampler) option" where
  "drain_loop final target r out =
     (if target = None \<or> rs_output_frames r < the target
      then
        let position = rs_output_frames r * rs_source_rate r;
            left_index = position div rs_output_rate r;
            numerator = position mod rs_output_rate r
        in if rs_input_frames r \<le> left_index then Some (Inr out, r)
           else if numerator \<noteq> 0 \<and> rs_input_frames r \<le> left_index + 1 \<and> \<not> final
           then Some (Inr out, r)
           else
             let right_index = min (left_index + 1) (rs_input_frames r - 1)
             in (case py_get (rs_buffer r) (int left_index - int (rs_buffer_start r)) of
                   Inl e \<Rightarrow> Some (Inl e, r)
                 | Inr left \<Rightarrow>
                     (case py_get (rs_buffer r) (int right_index - int (rs_buffer_start r)) of
                        Inl e \<Rightarrow> Some (Inl e, r)
                      | Inr right \<Rightarrow>
                          drain_loop final target
                            (r\<lparr>rs_output_frames := rs_output_frames r + 1\<rparr>)
                            (out @ [clamp16 (interpolate left right numerator (rs_output_rate r))])))
      else Some (Inr out, r))"

definition drain_target :: "bool \<Rightarrow> resampler \<Rightarrow> nat option" where
  "drain_target final r =
     (if final \<and> rs_input_frames r \<noteq> 0
      then Some (nat (max 1 (round_div (int (rs_input_frames r * rs_output_rate r))
                                       (int (rs_source_rate r)))))
      else None)"

definition release_input :: "bool \<Rightarrow> resampler \<Rightarrow> resampler" where
  "release_input final r =
     (if final then r\<lparr>rs_buffer_start := rs_input_frames r\<rparr>
      else
        let next_left = rs_output_frames r * rs_source_rate r div rs_output_rate r;
            discard = min (length (rs_buffer r)) (next_left - rs_buffer_start r)
        in r\<lparr>rs_buffer := drop discard (rs_buffer r),
             rs_buffer_start := rs_buffer_start r + discard\<rparr>)"

definition drain :: "bool \<Rightarrow> resampler \<Rightarrow> (bytes result \<times> resampler) option" where
  "drain final r =
     map_option (\<lambda>(res, r1).
         case res of
           Inl e \<Rightarrow> (Inl e, r1)
         | Inr samples \<Rightarrow> (Inr (bytes_of_samples samples), release_input final r1))
       (drain_loop final (drain_target final r) r [])"

definition resampler_feed :: "bytes \<Rightarrow> resampler \<Rightarrow> (bytes result \<times> resampler) option" where
  "resampler_feed data r =
     (if rs_closed r
      then Some (Inl (ProtocolError ''PCM resampler input is already finished''), r)
      else if length data mod PCM_SAMPLE_WIDTH \<noteq> 0
      then Some (Inl (ProtocolError ''PCM byte length is not sample-aligned''), r)
      else if data = [] then Some (Inr [], r)
      else
        let samples = samples_of_bytes data;
            next_input_frames = rs_input_frames r + length samples
        in if rs_source_rate r * MAX_PCM_DURATION_SECONDS < next_input_frames
           then Some (Inl (ProtocolError ''PCM input must not exceed 300 seconds''), r)
           else drain False (r\<lparr>rs_buffer := rs_buffer r @ samples,
                              rs_input_frames := next_input_frames\<rparr>))"

definition resampler_finish :: "resampler \<Rightarrow> (bytes result \<times> resampler) option" where
  "resampler_finish r =
     (if rs_closed r then Some (Inr [], r)
      else map_option (\<lambda>(res, r1).
             case res of Inl e \<Rightarrow> (Inl e, r1) | Inr output \<Rightarrow> (Inr output, r1\<lparr>rs_buffer := []\<rparr>))
             (drain True (r\<lparr>rs_closed := True\<rparr>)))"

text \<open>A client's use of the resampler: feed the chunks in order, finish, and join the output.\<close>

fun feed_all :: "bytes list \<Rightarrow> resampler \<Rightarrow> bytes \<Rightarrow> (bytes result \<times> resampler) option" where
  "feed_all [] r out = Some (Inr out, r)"
| "feed_all (c # cs) r out =
     (case resampler_feed c r of
        None \<Rightarrow> None
      | Some (Inl e, r1) \<Rightarrow> Some (Inl e, r1)
      | Some (Inr o1, r1) \<Rightarrow> feed_all cs r1 (out @ o1))"

definition resample_stream :: "int \<Rightarrow> int \<Rightarrow> bytes list \<Rightarrow> bytes result option" where
  "resample_stream source_rate output_rate chunks =
     (case new_resampler source_rate output_rate of
        Inl e \<Rightarrow> Some (Inl e)
      | Inr r \<Rightarrow>
          (case feed_all chunks r [] of
             None \<Rightarrow> None
           | Some (Inl e, r1) \<Rightarrow> Some (Inl e)
           | Some (Inr out, r1) \<Rightarrow>
               map_option (\<lambda>(res, r2). bind_result res (\<lambda>tail_out. Inr (out @ tail_out)))
                 (resampler_finish r1)))"

section \<open>What the output should be\<close>

text \<open>
  Output frame \<open>k\<close> interpolates at position \<open>k * source / output\<close> of the whole input; \<open>ready\<close> frames
  can be produced while input may still follow, and \<open>final_count\<close> frames at the end of the input.
\<close>

definition frame_at :: "nat \<Rightarrow> nat \<Rightarrow> int list \<Rightarrow> nat \<Rightarrow> int" where
  "frame_at s d xs k =
     clamp16 (interpolate (xs ! (k * s div d)) (xs ! min (k * s div d + 1) (length xs - 1))
       (k * s mod d) d)"

definition ready :: "nat \<Rightarrow> nat \<Rightarrow> nat \<Rightarrow> nat" where
  "ready s d n = (if n = 0 then 0 else (n - 1) * d div s + 1)"

definition reachable_frames :: "nat \<Rightarrow> nat \<Rightarrow> nat \<Rightarrow> nat" where
  "reachable_frames s d n = (n * d + s - 1) div s"

definition final_count :: "nat \<Rightarrow> nat \<Rightarrow> nat \<Rightarrow> nat" where
  "final_count s d n =
     (if n = 0 then 0
      else max (ready s d n)
             (min (nat (max 1 (round_div (int (n * d)) (int s)))) (reachable_frames s d n)))"

definition frames_of :: "nat \<Rightarrow> nat \<Rightarrow> int list \<Rightarrow> nat \<Rightarrow> nat \<Rightarrow> int list" where
  "frames_of s d xs a b = map (frame_at s d xs) [a..<b]"

definition resample_spec :: "nat \<Rightarrow> nat \<Rightarrow> int list \<Rightarrow> int list" where
  "resample_spec s d xs = frames_of s d xs 0 (final_count s d (length xs))"

lemma interpolate_0: "interpolate l r 0 d = interpolate l r' 0 d"
  by (simp add: interpolate_def true_div_def)

lemma less_ready_iff:
  assumes "0 < s"
  shows "k < ready s d n \<longleftrightarrow> 0 < n \<and> k * s \<le> (n - 1) * d"
  using assms by (auto simp: ready_def less_Suc_eq_le less_eq_div_iff_mult_less_eq)

lemma ready_condition:
  fixes k :: nat
  assumes "0 < d"
  shows "0 < n \<and> k * s \<le> (n - 1) * d \<longleftrightarrow>
    k * s div d < n \<and> (k * s mod d = 0 \<or> k * s div d + 1 < n)"
proof -
  let ?q = "k * s div d" and ?m = "k * s mod d"
  have p: "k * s = ?q * d + ?m" by (rule div_mult_mod_eq [symmetric])
  have m: "?m < d" using assms by simp
  show ?thesis
  proof
    assume l: "0 < n \<and> k * s \<le> (n - 1) * d"
    then have "?q \<le> n - 1" using div_le_mono [of "k * s" "(n - 1) * d" d] assms by simp
    moreover have "?m = 0" if "?q = n - 1" using l p that by simp
    ultimately show "?q < n \<and> (?m = 0 \<or> ?q + 1 < n)" using l by linarith
  next
    assume r: "?q < n \<and> (?m = 0 \<or> ?q + 1 < n)"
    show "0 < n \<and> k * s \<le> (n - 1) * d"
    proof (cases "?m = 0")
      case True
      have "?q * d \<le> (n - 1) * d" using r by (intro mult_le_mono1) linarith
      with True p r show ?thesis by simp
    next
      case False
      have "(?q + 1) * d \<le> (n - 1) * d" using r False by (intro mult_le_mono1) linarith
      moreover have "k * s < (?q + 1) * d"
        using dividend_less_div_times [OF assms, of "k * s"] by simp
      ultimately show ?thesis using r by simp
    qed
  qed
qed

lemma less_reachable_iff:
  assumes "0 < s" "0 < d"
  shows "k < reachable_frames s d n \<longleftrightarrow> k * s div d < n"
proof -
  have "k < reachable_frames s d n \<longleftrightarrow> Suc k * s \<le> n * d + s - 1"
    unfolding reachable_frames_def Suc_le_eq [symmetric]
    by (rule less_eq_div_iff_mult_less_eq) (rule assms(1))
  also have "\<dots> \<longleftrightarrow> k * s < n * d" using assms by (cases s) auto
  also have "\<dots> \<longleftrightarrow> k * s div d < n" by (simp add: div_less_iff_less_mult assms)
  finally show ?thesis .
qed

lemma ready_le_reachable:
  assumes "0 < s" "0 < d"
  shows "ready s d n \<le> reachable_frames s d n"
proof (rule ccontr)
  assume "\<not> ready s d n \<le> reachable_frames s d n"
  then have "reachable_frames s d n < ready s d n" by simp
  then have "reachable_frames s d n * s div d < n"
    using less_ready_iff [OF assms(1)] ready_condition [OF assms(2)] by blast
  then show False using less_reachable_iff [OF assms] by blast
qed

lemma ready_mono: "m \<le> n \<Longrightarrow> ready s d m \<le> ready s d n"
  by (auto simp: ready_def intro!: div_le_mono mult_le_mono1)

section \<open>The loop produces exactly the frames it should\<close>

definition may_emit :: "bool \<Rightarrow> nat option \<Rightarrow> nat \<Rightarrow> nat \<Rightarrow> nat \<Rightarrow> nat \<Rightarrow> bool" where
  "may_emit final target s d n k \<longleftrightarrow>
     (target = None \<or> k < the target) \<and> k * s div d < n \<and>
     (k * s mod d = 0 \<or> k * s div d + 1 < n \<or> final)"

lemma frames_of_same [simp]: "frames_of s d xs k k = []"
  by (simp add: frames_of_def)

lemma frames_of_step: "k < m \<Longrightarrow> frames_of s d xs k m = frame_at s d xs k # frames_of s d xs (Suc k) m"
  by (simp add: frames_of_def upt_conv_Cons)

lemma frames_of_join:
  "a \<le> b \<Longrightarrow> b \<le> c \<Longrightarrow> frames_of s d xs a b @ frames_of s d xs b c = frames_of s d xs a c"
  using upt_add_eq_append [of a b "c - b"] by (simp add: frames_of_def flip: map_append)

lemma drain_loop_stop:
  assumes "\<not> may_emit final target (rs_source_rate r) (rs_output_rate r) (rs_input_frames r)
             (rs_output_frames r)"
  shows "drain_loop final target r out = Some (Inr out, r)"
  using assms by (subst drain_loop.simps) (auto simp: may_emit_def Let_def)

lemma drain_loop_step:
  assumes rates: "rs_source_rate r = s" "rs_output_rate r = d"
    and buf: "rs_buffer r = drop b xs" "rs_buffer_start r = b" "rs_input_frames r = length xs"
    and b: "b \<le> rs_output_frames r * s div d"
    and emit: "may_emit final target s d (length xs) (rs_output_frames r)"
  shows "drain_loop final target r out =
    drain_loop final target (r\<lparr>rs_output_frames := rs_output_frames r + 1\<rparr>)
      (out @ [frame_at s d xs (rs_output_frames r)])"
proof -
  let ?q = "rs_output_frames r * s div d"
  have q: "?q < length xs" using emit by (simp add: may_emit_def)
  have get: "py_get (rs_buffer r) (int i - int (rs_buffer_start r)) = Inr (xs ! i)"
    if "?q \<le> i" "i < length xs" for i
    using that b by (simp add: buf py_get_diff)
  have left: "py_get (rs_buffer r) (int ?q - int (rs_buffer_start r)) = Inr (xs ! ?q)"
    by (rule get) (use q in simp_all)
  have right: "py_get (rs_buffer r) (int (min (?q + 1) (length xs - 1)) - int (rs_buffer_start r)) =
      Inr (xs ! min (?q + 1) (length xs - 1))"
    by (rule get) (use q in linarith)+
  show ?thesis
    using emit left right
    by (subst drain_loop.simps) (auto simp: may_emit_def Let_def rates buf(3) frame_at_def)
qed

lemma drain_loop_run:
  assumes rates: "rs_source_rate r = s" "rs_output_rate r = d"
    and buf: "rs_buffer r = drop b xs" "rs_buffer_start r = b" "rs_input_frames r = length xs"
    and b: "b \<le> rs_output_frames r * s div d"
    and le: "rs_output_frames r \<le> m"
    and emit: "\<forall>k. rs_output_frames r \<le> k \<and> k < m \<longrightarrow> may_emit final target s d (length xs) k"
    and stop: "\<not> may_emit final target s d (length xs) m"
  shows "drain_loop final target r out =
    Some (Inr (out @ frames_of s d xs (rs_output_frames r) m), r\<lparr>rs_output_frames := m\<rparr>)"
  using assms
proof (induction "m - rs_output_frames r" arbitrary: r out)
  case 0
  then have m: "m = rs_output_frames r" by simp
  then have "drain_loop final target r out = Some (Inr out, r)"
    using 0 by (intro drain_loop_stop) simp
  with m show ?case by simp
next
  case (Suc x)
  let ?r1 = "r\<lparr>rs_output_frames := rs_output_frames r + 1\<rparr>"
  have "rs_output_frames r * s div d \<le> rs_output_frames ?r1 * s div d"
    by (simp add: div_le_mono)
  then have "b \<le> rs_output_frames ?r1 * s div d" using Suc.prems(6) by linarith
  moreover have lt: "rs_output_frames r < m" using Suc.hyps(2) by simp
  ultimately have "drain_loop final target ?r1 (out @ [frame_at s d xs (rs_output_frames r)]) =
      Some (Inr ((out @ [frame_at s d xs (rs_output_frames r)]) @
        frames_of s d xs (rs_output_frames ?r1) m), ?r1\<lparr>rs_output_frames := m\<rparr>)"
    using Suc.hyps(2) Suc.prems by (intro Suc.hyps(1)) auto
  moreover have "drain_loop final target r out =
      drain_loop final target ?r1 (out @ [frame_at s d xs (rs_output_frames r)])"
    using Suc.prems lt by (intro drain_loop_step) auto
  ultimately show ?case by (simp add: frames_of_step [OF lt])
qed

text \<open>Between calls the buffer is the part of the input that later output frames still need.\<close>

definition resampler_inv :: "nat \<Rightarrow> nat \<Rightarrow> int list \<Rightarrow> resampler \<Rightarrow> bool" where
  "resampler_inv s d xs r \<longleftrightarrow>
     rs_source_rate r = s \<and> rs_output_rate r = d \<and> \<not> rs_closed r \<and>
     rs_input_frames r = length xs \<and> rs_buffer r = drop (rs_buffer_start r) xs \<and>
     rs_buffer_start r \<le> length xs \<and>
     rs_buffer_start r \<le> rs_output_frames r * s div d \<and>
     rs_output_frames r = ready s d (length xs)"

lemma may_emit_open:
  assumes "0 < s" "0 < d"
  shows "may_emit False None s d n k \<longleftrightarrow> k < ready s d n"
  by (simp only: may_emit_def less_ready_iff [OF assms(1)] ready_condition [OF assms(2)]) simp

lemma drain_open:
  assumes pos: "0 < s" "0 < d"
    and inv: "resampler_inv s d xs r"
    and r1: "r1 = r\<lparr>rs_buffer := rs_buffer r @ ys, rs_input_frames := length (xs @ ys)\<rparr>"
  shows "\<exists>r2. drain False r1 =
      Some (Inr (bytes_of_samples (frames_of s d (xs @ ys) (ready s d (length xs))
              (ready s d (length (xs @ ys))))), r2) \<and> resampler_inv s d (xs @ ys) r2"
proof -
  let ?zs = "xs @ ys" and ?m = "ready s d (length (xs @ ys))" and ?b = "rs_buffer_start r"
  have out: "rs_output_frames r1 = ready s d (length xs)" using inv by (simp add: r1 resampler_inv_def)
  have le: "rs_output_frames r1 \<le> ?m" unfolding out by (rule ready_mono) simp
  have buf: "rs_buffer r1 = drop ?b ?zs" using inv by (simp add: r1 resampler_inv_def)
  have b: "?b \<le> rs_output_frames r1 * s div d"
    using inv unfolding r1 resampler_inv_def by (elim conjE) simp
  have loop: "drain_loop False None r1 [] =
      Some (Inr ([] @ frames_of s d ?zs (rs_output_frames r1) ?m), r1\<lparr>rs_output_frames := ?m\<rparr>)"
    by (rule drain_loop_run [where b = ?b])
      (use inv le buf b in \<open>simp_all add: may_emit_open pos r1 resampler_inv_def\<close>)
  let ?r2 = "release_input False (r1\<lparr>rs_output_frames := ?m\<rparr>)"
  have "?b \<le> ?m * s div d"
    using b le div_le_mono [of "rs_output_frames r1 * s" "?m * s" d] by simp
  then have "resampler_inv s d ?zs ?r2"
    using inv buf
    by (auto simp: release_input_def Let_def resampler_inv_def r1 add.commute min_def)
  then show ?thesis using loop by (simp add: drain_def drain_target_def out)
qed

lemma feed_open:
  assumes pos: "0 < s" "0 < d"
    and inv: "resampler_inv s d xs r"
    and even: "even (length data)"
    and bound: "length xs + length data div 2 \<le> s * MAX_PCM_DURATION_SECONDS"
  shows "\<exists>r2. resampler_feed data r =
      Some (Inr (bytes_of_samples (frames_of s d (xs @ samples_of_bytes data) (ready s d (length xs))
              (ready s d (length (xs @ samples_of_bytes data))))), r2) \<and>
      resampler_inv s d (xs @ samples_of_bytes data) r2"
proof (cases "data = []")
  case True
  then have "resampler_feed data r = Some (Inr [], r)"
    using inv by (simp add: resampler_feed_def PCM_SAMPLE_WIDTH_def resampler_inv_def)
  then show ?thesis using True inv by simp
next
  case False
  let ?ys = "samples_of_bytes data"
  have "resampler_feed data r =
      drain False (r\<lparr>rs_buffer := rs_buffer r @ ?ys, rs_input_frames := length (xs @ ?ys)\<rparr>)"
    using False even bound inv
    by (simp add: resampler_feed_def PCM_SAMPLE_WIDTH_def resampler_inv_def Let_def
        length_samples_of_bytes even_iff_mod_2_eq_zero)
  then show ?thesis using drain_open [OF pos inv refl, of ?ys] by simp
qed

lemma frame_at_append:
  assumes "0 < s" "0 < d" "k < ready s d (length xs)"
  shows "frame_at s d (xs @ ys) k = frame_at s d xs k"
proof -
  have r: "k * s div d < length xs" "k * s mod d = 0 \<or> k * s div d + 1 < length xs"
    using assms(3) unfolding less_ready_iff [OF assms(1)] ready_condition [OF assms(2)] by simp_all
  show ?thesis
  proof (cases "k * s mod d = 0")
    case True
    then show ?thesis using r(1) by (simp add: frame_at_def nth_append) (metis interpolate_0)
  next
    case False
    then have "k * s div d + 1 < length xs" using r(2) by simp
    then show ?thesis by (cases "xs = []") (simp_all add: frame_at_def nth_append min_def)
  qed
qed

lemma frames_of_append:
  "0 < s \<Longrightarrow> 0 < d \<Longrightarrow>
   frames_of s d (xs @ ys) a (ready s d (length xs)) = frames_of s d xs a (ready s d (length xs))"
  by (simp add: frames_of_def frame_at_append)

lemma feed_all_open:
  assumes pos: "0 < s" "0 < d"
    and inv: "resampler_inv s d xs r"
    and even: "\<forall>c \<in> set chunks. even (length c)"
    and bound: "length xs + length (concat chunks) div 2 \<le> s * MAX_PCM_DURATION_SECONDS"
    and out: "out = bytes_of_samples (frames_of s d xs 0 (ready s d (length xs)))"
  shows "\<exists>r2. feed_all chunks r out =
      Some (Inr (bytes_of_samples (frames_of s d (xs @ samples_of_bytes (concat chunks)) 0
              (ready s d (length (xs @ samples_of_bytes (concat chunks)))))), r2) \<and>
      resampler_inv s d (xs @ samples_of_bytes (concat chunks)) r2"
  using inv even bound out
proof (induction chunks arbitrary: xs r out)
  case Nil
  then show ?case by simp
next
  case (Cons c cs)
  let ?ys = "samples_of_bytes c"
  have ev: "even (length c)" using Cons.prems by simp
  have len: "length (concat (c # cs)) div 2 = length c div 2 + length (concat cs) div 2"
    using ev by (simp add: div_plus_div_distrib_dvd_left)
  obtain r1 where r1: "resampler_feed c r =
        Some (Inr (bytes_of_samples (frames_of s d (xs @ ?ys) (ready s d (length xs))
              (ready s d (length (xs @ ?ys))))), r1)"
      and inv1: "resampler_inv s d (xs @ ?ys) r1"
    using feed_open [OF pos Cons.prems(1) ev] Cons.prems(3) len by auto
  have "out @ bytes_of_samples (frames_of s d (xs @ ?ys) (ready s d (length xs))
          (ready s d (length (xs @ ?ys)))) =
      bytes_of_samples (frames_of s d (xs @ ?ys) 0 (ready s d (length (xs @ ?ys))))"
    unfolding Cons.prems(4) frames_of_append [OF pos, where xs = xs and ys = ?ys, symmetric]
      bytes_of_samples_append [symmetric]
    by (rule arg_cong [where f = bytes_of_samples], rule frames_of_join) (simp_all add: ready_mono)
  moreover have "length (xs @ ?ys) + length (concat cs) div 2 \<le> s * MAX_PCM_DURATION_SECONDS"
    using Cons.prems(3) len by (simp add: length_samples_of_bytes)
  ultimately show ?case
    using Cons.IH [OF inv1, of "out @ bytes_of_samples (frames_of s d (xs @ ?ys)
      (ready s d (length xs)) (ready s d (length (xs @ ?ys))))"] Cons.prems(2) r1 ev
    by (simp add: samples_of_bytes_append)
qed

lemma drain_closed:
  assumes pos: "0 < s" "0 < d" and inv: "resampler_inv s d xs r"
  shows "\<exists>r2. drain True (r\<lparr>rs_closed := True\<rparr>) =
      Some (Inr (bytes_of_samples (frames_of s d xs (ready s d (length xs))
              (final_count s d (length xs)))), r2)"
proof -
  let ?r = "r\<lparr>rs_closed := True\<rparr>" and ?n = "length xs"
  have target: "drain_target True ?r =
      (if ?n = 0 then None else Some (nat (max 1 (round_div (int (?n * d)) (int s)))))"
    using inv by (simp add: drain_target_def resampler_inv_def)
  have emit: "may_emit True (drain_target True ?r) s d ?n k \<longleftrightarrow>
      ?n \<noteq> 0 \<and> k < min (nat (max 1 (round_div (int (?n * d)) (int s)))) (reachable_frames s d ?n)" for k
    unfolding may_emit_def target by (auto simp: less_reachable_iff [OF pos])
  have "drain_loop True (drain_target True ?r) ?r [] =
      Some (Inr ([] @ frames_of s d xs (rs_output_frames ?r) (final_count s d ?n)),
        ?r\<lparr>rs_output_frames := final_count s d ?n\<rparr>)"
    by (rule drain_loop_run [where b = "rs_buffer_start r"])
      (use inv in \<open>auto simp: emit resampler_inv_def final_count_def ready_def\<close>)
  then show ?thesis using inv by (simp add: drain_def resampler_inv_def)
qed

lemma new_resampler_inv:
  "new_resampler a b = Inr r \<Longrightarrow>
   resampler_inv (nat a) (nat b) [] r \<and> 0 < nat a \<and> 0 < nat b"
  by (auto simp: new_resampler_def resampler_inv_def ready_def valid_rate_def wire_constants
      split: if_splits)

lemma ready_le_final_count: "ready s d n \<le> final_count s d n"
  by (simp add: final_count_def ready_def)

lemma resample_stream_eq:
  assumes "valid_rate a" "valid_rate b"
    and even: "\<forall>c \<in> set chunks. even (length c)"
    and bound: "length (concat chunks) div 2 \<le> nat a * MAX_PCM_DURATION_SECONDS"
  shows "resample_stream a b chunks =
    Some (Inr (bytes_of_samples (resample_spec (nat a) (nat b) (samples_of_bytes (concat chunks)))))"
proof -
  let ?xs = "samples_of_bytes (concat chunks)"
  obtain r where r: "new_resampler a b = Inr r" using assms(1,2) by (simp add: new_resampler_def)
  note inv = new_resampler_inv [OF r]
  then have pos: "0 < nat a" "0 < nat b" by simp_all
  obtain r1 where r1: "feed_all chunks r [] =
        Some (Inr (bytes_of_samples (frames_of (nat a) (nat b) ?xs 0 (ready (nat a) (nat b) (length ?xs)))), r1)"
      and inv1: "resampler_inv (nat a) (nat b) ?xs r1"
    using feed_all_open [OF pos, of "[]" r chunks "[]"] inv even bound by (auto simp: ready_def)
  obtain r2 where r2: "drain True (r1\<lparr>rs_closed := True\<rparr>) =
      Some (Inr (bytes_of_samples (frames_of (nat a) (nat b) ?xs (ready (nat a) (nat b) (length ?xs))
              (final_count (nat a) (nat b) (length ?xs)))), r2)"
    using drain_closed [OF pos inv1] by blast
  have "\<not> rs_closed r1" using inv1 by (simp add: resampler_inv_def)
  then show ?thesis
    by (simp add: resample_stream_def r r1 resampler_finish_def r2 resample_spec_def frames_of_join
        ready_le_final_count flip: bytes_of_samples_append)
qed

text \<open>C30: For every pair of supported rates and every way of cutting the input into sample-aligned
  chunks of at most 300 seconds in total, the incremental resampler returns (its loops end and no buffer
  index is out of range), and the joined output is the interpolation of the whole input: it does not
  depend on the chunk boundaries.\<close>
theorem resample_stream_chunk_free:
  assumes "valid_rate a" "valid_rate b"
    and even: "\<forall>c \<in> set chunks. even (length c)"
    and bound: "length (concat chunks) div 2 \<le> nat a * MAX_PCM_DURATION_SECONDS"
  shows "resample_stream a b chunks =
    Some (Inr (bytes_of_samples (resample_spec (nat a) (nat b) (samples_of_bytes (concat chunks)))))"
  using assms by (rule resample_stream_eq)

theorem resample_stream_chunk_free_witness:
  "resample_stream 8000 16000 [[1, 0, 3, 0], [], [5, 0]] =
     Some (Inr (bytes_of_samples (resample_spec (nat 8000) (nat 16000)
       (samples_of_bytes (concat [[1, 0, 3, 0], [], [5, 0]])))))"
  by (rule resample_stream_chunk_free)
    (simp_all add: valid_rate_def wire_constants MAX_PCM_DURATION_SECONDS_def)

lemma length_resample_spec: "length (resample_spec s d xs) = final_count s d (length xs)"
  by (simp add: resample_spec_def frames_of_def)

lemma ready_bounds: "0 < s \<Longrightarrow> 0 < n \<Longrightarrow> (n - 1) * d < ready s d n * s"
  using dividend_less_div_times [of s "(n - 1) * d"] by (simp add: ready_def)

lemma reachable_bounds: "0 < s \<Longrightarrow> reachable_frames s d n * s < n * d + s"
  using div_times_less_eq_dividend [of "n * d + s - 1" s] unfolding reachable_frames_def by linarith

text \<open>The resampler's output never drifts from the input: from \<open>n > 0\<close> input frames it makes a
  count \<open>L\<close> of output frames with \<open>(n - 1) * output_rate < L * source_rate < n * output_rate +
  source_rate\<close>, whatever the chunks and however the float target count rounds.\<close>
theorem resample_stream_duration:
  assumes "valid_rate a" "valid_rate b"
    and even: "\<forall>c \<in> set chunks. even (length c)"
    and bound: "length (concat chunks) div 2 \<le> nat a * MAX_PCM_DURATION_SECONDS"
    and some: "n = length (concat chunks) div 2" "0 < n"
  shows "\<exists>out L. resample_stream a b chunks = Some (Inr out) \<and> length out = 2 * L \<and>
    (n - 1) * nat b < L * nat a \<and> L * nat a < n * nat b + nat a"
proof -
  let ?L = "final_count (nat a) (nat b) n"
  have "0 < nat a" "0 < nat b" using assms(1,2) by (simp_all add: valid_rate_def wire_constants)
  then have "(n - 1) * nat b < ?L * nat a" "?L \<le> reachable_frames (nat a) (nat b) n"
    using ready_bounds [of "nat a" n "nat b"] ready_le_final_count [of "nat a" "nat b" n] some(2)
      ready_le_reachable [of "nat a" "nat b" n]
    by (auto simp: final_count_def intro: less_le_trans mult_le_mono1)
  moreover have "?L * nat a < n * nat b + nat a"
    using \<open>0 < nat a\<close> calculation(2) reachable_bounds [of "nat a" "nat b" n]
    by (metis le_less_trans mult_le_mono1)
  ultimately show ?thesis
    using resample_stream_eq [OF assms(1-4)] length_resample_spec
    by (metis length_bytes_of_samples some(1) length_samples_of_bytes)
qed

theorem resample_stream_duration_witness:
  "\<exists>out L. resample_stream 16000 8000 [[1, 0], [3, 0, 5, 0]] = Some (Inr out) \<and>
     length out = 2 * L \<and> (3 - 1) * nat 8000 < L * nat 16000 \<and> L * nat 16000 < 3 * nat 8000 + nat 16000"
  by (rule resample_stream_duration)
    (simp_all add: valid_rate_def wire_constants MAX_PCM_DURATION_SECONDS_def)

lemma frame_at_same_rate:
  assumes "0 < s" "k < length xs" "is_pcm16 (xs ! k)"
  shows "frame_at s s xs k = xs ! k"
proof -
  have "\<bar>xs ! k\<bar> < 2 ^ 53" using assms(3) by (simp add: is_pcm16_def abs_if)
  then show ?thesis using assms
    by (simp add: frame_at_def interpolate_def true_div_def clamp16_def is_pcm16_def fl_of_int)
qed

lemma final_count_same_rate:
  assumes "0 < s"
  shows "final_count s s n = n"
proof -
  have "k < reachable_frames s s n \<longleftrightarrow> k < n" for k
    using less_reachable_iff [OF assms assms, of k n] assms by simp
  then have "reachable_frames s s n = n" by (metis linorder_neqE_nat less_irrefl)
  then show ?thesis using assms by (cases n) (simp_all add: final_count_def ready_def)
qed

lemma resample_spec_same_rate:
  assumes "0 < s" "\<forall>v \<in> set xs. is_pcm16 v"
  shows "resample_spec s s xs = xs"
  using assms
  by (intro nth_equalityI)
    (simp_all add: resample_spec_def frames_of_def final_count_same_rate frame_at_same_rate)

text \<open>Resampling to the rate the input already has returns the input bytes unchanged.\<close>
theorem resample_stream_same_rate:
  assumes "valid_rate a"
    and even: "\<forall>c \<in> set chunks. even (length c)"
    and bound: "length (concat chunks) div 2 \<le> nat a * MAX_PCM_DURATION_SECONDS"
  shows "resample_stream a a chunks = Some (Inr (concat chunks))"
proof -
  have "0 < nat a" using assms(1) by (simp add: valid_rate_def wire_constants)
  moreover have "even (length (concat chunks))" using even by (induction chunks) auto
  ultimately show ?thesis
    using resample_stream_eq [OF assms(1) assms] samples_of_bytes_range
    by (simp add: resample_spec_same_rate bytes_of_samples_of_bytes)
qed

theorem resample_stream_same_rate_witness:
  "resample_stream 24000 24000 [[1, 0], [3, 0, 255, 127]] = Some (Inr (concat [[1, 0], [3, 0, 255, 127]]))"
  by (rule resample_stream_same_rate)
    (simp_all add: valid_rate_def wire_constants MAX_PCM_DURATION_SECONDS_def)

section \<open>Payload validation\<close>

record wav_source =
  wav_sampwidth :: int
  wav_comptype :: string
  wav_frames :: bytes
  wav_framerate :: int
  wav_nchannels :: int

definition pcm_formats :: "string list" where
  "pcm_formats = [''pcm'', ''raw'', ''audio/pcm'', ''pcm_s16le'', ''pcm16'']"

definition pcm_codecs :: "string list" where
  "pcm_codecs = [''pcm'', ''pcm_s16le'', ''pcm16'', ''s16le'', ''audio/pcm'', ''linear16'']"

definition check_wav :: "wav_source option \<Rightarrow> (bytes \<times> int \<times> int) result" where
  "check_wav opened =
     (case opened of
        None \<Rightarrow> Inl (ProtocolError ''invalid WAV input'')
      | Some w \<Rightarrow>
          if wav_sampwidth w \<noteq> int PCM_SAMPLE_WIDTH
          then Inl (ProtocolError ''WAV input must contain 16-bit PCM'')
          else if wav_comptype w \<noteq> ''NONE''
          then Inl (ProtocolError ''compressed WAV input is not supported'')
          else Inr (wav_frames w, wav_framerate w, wav_nchannels w))"

definition read_pcm16_payload ::
    "(bytes \<Rightarrow> wav_source option) \<Rightarrow> bytes \<Rightarrow> string \<Rightarrow> string option \<Rightarrow> int \<Rightarrow> int \<Rightarrow>
     (bytes \<times> int \<times> int) result" where
  "read_pcm16_payload wave_open data audio_format codec sample_rate channels =
     (let normalized_format = strip (lower audio_format);
          given = (case codec of None \<Rightarrow> ''pcm_s16le'' | Some c \<Rightarrow> if c = [] then ''pcm_s16le'' else c);
          normalized_codec = strip (lower given)
      in if normalized_format \<in> {''wav'', ''wave'', ''audio/wav''} then check_wav (wave_open data)
         else if normalized_format \<notin> set pcm_formats
         then Inl (ProtocolError (''unsupported audio format: '' @ audio_format))
         else if normalized_codec \<notin> set pcm_codecs
         then Inl (ProtocolError (''unsupported codec: '' @ given))
         else if sample_rate \<le> 0 then Inl (ProtocolError ''sample_rate must be positive'')
         else if channels \<notin> {1, 2}
         then Inl (ProtocolError ''only mono and stereo PCM are supported'')
         else if int (length data) mod (int PCM_SAMPLE_WIDTH * channels) \<noteq> 0
         then Inl (ProtocolError ''PCM byte length is not aligned to complete frames'')
         else Inr (data, sample_rate, channels))"

section \<open>One-shot conversion to 24 kHz mono\<close>

fun downmix :: "int list \<Rightarrow> int list" where
  "downmix (l # r # rest) = (l + r) div 2 # downmix rest"
| "downmix _ = []"

text \<open>The position is a float, or the integer \<^verbatim>\<open>last\<close> when that is smaller; the difference
  \<^verbatim>\<open>position - left_index\<close> is again rounded.\<close>

definition one_shot_frame :: "int list \<Rightarrow> int \<Rightarrow> nat \<Rightarrow> int result" where
  "one_shot_frame mixed sample_rate output_index =
     (let scale = true_div sample_rate REALTIME_SAMPLE_RATE;
          last = int (length mixed) - 1;
          position = min (fl (of_nat output_index * scale)) (of_int last);
          left_index = \<lfloor>position\<rfloor>;
          right_index = min (left_index + 1) last;
          fraction = fl (position - of_int left_index)
      in case py_get mixed left_index of
           Inl e \<Rightarrow> Inl e
         | Inr left \<Rightarrow>
             (case py_get mixed right_index of
                Inl e \<Rightarrow> Inl e
              | Inr right \<Rightarrow>
                  Inr (clamp16 (round_half_even
                    (fl (fl (of_int left * fl (1 - fraction)) + fl (of_int right * fraction)))))))"

definition one_shot_length :: "nat \<Rightarrow> int \<Rightarrow> nat" where
  "one_shot_length n sample_rate = nat (max 1 (round_div (int n * REALTIME_SAMPLE_RATE) sample_rate))"

definition one_shot :: "int list \<Rightarrow> int \<Rightarrow> int list result" where
  "one_shot mixed sample_rate =
     (let output_length = one_shot_length (length mixed) sample_rate
      in if length mixed = 1 then Inr (replicate output_length (mixed ! 0))
         else collect_results (map (one_shot_frame mixed sample_rate) [0..<output_length]))"

definition pcm16_mono_24khz :: "bytes \<Rightarrow> int \<Rightarrow> int \<Rightarrow> bytes result" where
  "pcm16_mono_24khz data sample_rate channels =
     (if \<not> valid_rate sample_rate
      then Inl (ProtocolError ''sample_rate must be between 8000 and 192000 Hz'')
      else if channels \<notin> {1, 2}
      then Inl (ProtocolError ''only mono and stereo PCM are supported'')
      else if int (length data) mod (int PCM_SAMPLE_WIDTH * channels) \<noteq> 0
      then Inl (ProtocolError ''PCM byte length is not aligned to complete frames'')
      else if data = [] then Inr []
      else if sample_rate * int MAX_PCM_DURATION_SECONDS
              < int (length data) div (int PCM_SAMPLE_WIDTH * channels)
      then Inl (ProtocolError ''PCM input must not exceed 300 seconds'')
      else
        let samples = samples_of_bytes data;
            mixed = (if channels = 2 then downmix samples else samples)
        in if sample_rate = REALTIME_SAMPLE_RATE then Inr (bytes_of_samples mixed)
           else bind_result (one_shot mixed sample_rate) (\<lambda>out. Inr (bytes_of_samples out)))"

section \<open>Silence and WAV headers\<close>

definition silence_pcm16 :: "int \<Rightarrow> int \<Rightarrow> bytes result" where
  "silence_pcm16 duration_ms sample_rate =
     (if duration_ms < 0 then Inl (ProtocolError ''silence duration must not be negative'')
      else
        let n = round_div (duration_ms * sample_rate) 1000 * int PCM_SAMPLE_WIDTH
        in if n < 0 then Inl (ValueError ''negative count'') else Inr (replicate (nat n) 0))"

definition ascii_bytes :: "string \<Rightarrow> bytes" where
  "ascii_bytes t = map (\<lambda>c. of_nat (of_char c)) t"

definition streaming_wav_header :: "int \<Rightarrow> int \<Rightarrow> bytes result" where
  "streaming_wav_header sample_rate channels =
     (if sample_rate \<le> 0 then Inl (ProtocolError ''sample_rate must be positive'')
      else if \<not> (0 < channels \<and> channels \<le> 65535)
      then Inl (ProtocolError ''channels must fit in an unsigned 16-bit integer'')
      else
        let block_align = channels * int PCM_SAMPLE_WIDTH;
            byte_rate = sample_rate * block_align
        in if 4294967295 < byte_rate
           then Inl (ProtocolError ''WAV byte rate exceeds the unsigned 32-bit limit'')
           else if 65535 < block_align then Inl (StructError ''ushort format requires 0 <= number <= 65535'')
           else Inr (ascii_bytes ''RIFF'' @ le_bytes 4 4294967295 @ ascii_bytes ''WAVE'' @
             ascii_bytes ''fmt '' @ le_bytes 4 16 @ le_bytes 2 1 @ le_bytes 2 (nat channels) @
             le_bytes 4 (nat sample_rate) @ le_bytes 4 (nat byte_rate) @
             le_bytes 2 (nat block_align) @ le_bytes 2 (PCM_SAMPLE_WIDTH * 8) @
             ascii_bytes ''data'' @ le_bytes 4 4294967295))"

section \<open>Correctness of the one-shot conversion\<close>

lemma fl_nonneg: "0 \<le> x \<Longrightarrow> 0 \<le> fl x"
proof (cases "x = 0")
  case False
  let ?q = "pow2 (exponent \<bar>x\<bar> - 52)"
  assume "0 \<le> x"
  then have "0 \<le> x / ?q" by (simp add: less_imp_le)
  moreover have "x / ?q \<le> of_int \<lceil>x / ?q\<rceil>" by (rule le_of_int_ceiling)
  ultimately have "0 \<le> round_half_even (x / ?q)"
    by (intro round_half_even_bounds(1) [where b = "\<lceil>x / ?q\<rceil>"]) simp_all
  then show ?thesis using False by (simp add: fl_def Let_def less_imp_le)
qed simp

lemma true_div_nonneg: "0 \<le> a \<Longrightarrow> 0 < b \<Longrightarrow> 0 \<le> true_div a b"
  by (simp add: true_div_def fl_nonneg)

lemma py_get_int:
  "0 \<le> i \<Longrightarrow> i < int (length xs) \<Longrightarrow> py_get xs i = Inr (xs ! nat i)"
  by (simp add: py_get_def)

lemma one_shot_frame_ok:
  assumes "2 \<le> length xs" "0 \<le> rate"
  shows "\<exists>v. one_shot_frame xs rate k = Inr v \<and> is_pcm16 v"
proof -
  define last where "last = int (length xs) - 1"
  define position where
    "position = min (fl (of_nat k * true_div rate REALTIME_SAMPLE_RATE)) (of_int last)"
  have last: "0 \<le> last" "last < int (length xs)" using assms(1) unfolding last_def by linarith+
  have "0 \<le> fl (of_nat k * true_div rate REALTIME_SAMPLE_RATE)"
    using assms(2) by (intro fl_nonneg mult_nonneg_nonneg true_div_nonneg) (simp_all add: wire_constants)
  then have pos: "0 \<le> position" "position \<le> of_int last" using last by (simp_all add: position_def)
  have left: "0 \<le> \<lfloor>position\<rfloor>" "\<lfloor>position\<rfloor> \<le> last"
    using pos by (simp_all add: floor_le_iff)
  have right: "0 \<le> min (\<lfloor>position\<rfloor> + 1) last" "min (\<lfloor>position\<rfloor> + 1) last \<le> last"
    using left last by simp_all
  have l: "py_get xs \<lfloor>position\<rfloor> = Inr (xs ! nat \<lfloor>position\<rfloor>)"
    using left last by (intro py_get_int) simp_all
  have r: "py_get xs (min (\<lfloor>position\<rfloor> + 1) last) = Inr (xs ! nat (min (\<lfloor>position\<rfloor> + 1) last))"
    using right last by (intro py_get_int) simp_all
  have "is_pcm16 (clamp16 v)" for v by (simp add: is_pcm16_def clamp16_def)
  then show ?thesis
    unfolding one_shot_frame_def Let_def last_def [symmetric] position_def [symmetric] l r by simp
qed

lemma collect_results_ok:
  "(\<And>x. x \<in> set xs \<Longrightarrow> \<exists>v. f x = Inr v) \<Longrightarrow>
   \<exists>vs. collect_results (map f xs) = Inr vs \<and> length vs = length xs"
proof (induction xs)
  case (Cons x xs)
  then obtain v vs where "f x = Inr v" "collect_results (map f xs) = Inr vs" "length vs = length xs"
    by fastforce
  then show ?case by (simp add: bind_result_def)
qed simp

lemma one_shot_ok:
  assumes "xs \<noteq> []" "0 \<le> rate"
  shows "\<exists>vs. one_shot xs rate = Inr vs \<and> length vs = one_shot_length (length xs) rate"
proof (cases "length xs = 1")
  case True
  then show ?thesis by (simp add: one_shot_def)
next
  case False
  with assms(1) have "2 \<le> length xs" by (cases xs) (auto simp: Suc_le_eq)
  then have "\<exists>v. one_shot_frame xs rate k = Inr v" for k using one_shot_frame_ok assms(2) by blast
  then show ?thesis
    using False collect_results_ok [of "[0..<one_shot_length (length xs) rate]" "one_shot_frame xs rate"]
    by (simp add: one_shot_def)
qed

lemma length_downmix: "length (downmix xs) = length xs div 2"
  by (induction xs rule: downmix.induct) auto

lemma downmix_range:
  "\<forall>v \<in> set xs. is_pcm16 v \<Longrightarrow> v \<in> set (downmix xs) \<Longrightarrow> is_pcm16 v"
  by (induction xs rule: downmix.induct) (auto simp: is_pcm16_def)

definition one_shot_accepts :: "bytes \<Rightarrow> int \<Rightarrow> int \<Rightarrow> bool" where
  "one_shot_accepts data rate channels \<longleftrightarrow>
     valid_rate rate \<and> channels \<in> {1, 2} \<and> int (length data) mod (2 * channels) = 0 \<and>
     int (length data) \<le> 2 * channels * rate * int MAX_PCM_DURATION_SECONDS"

text \<open>The conversion to 24 kHz mono accepts exactly the aligned mono or stereo PCM16 payloads of a
  supported rate and at most 300 seconds, never fails on one (no sample index is ever out of range), and
  returns the announced number of output frames; every other payload is a \<open>ProtocolError\<close>.\<close>
theorem pcm16_mono_24khz_total:
  "case pcm16_mono_24khz data rate channels of
     Inl e \<Rightarrow> \<not> one_shot_accepts data rate channels \<and> (\<exists>m. e = ProtocolError m)
   | Inr out \<Rightarrow> one_shot_accepts data rate channels \<and>
       length out = 2 * (let n = length data div (2 * nat channels)
         in if n = 0 then 0 else if rate = REALTIME_SAMPLE_RATE then n else one_shot_length n rate)"
proof -
  let ?mixed = "if channels = 2 then downmix (samples_of_bytes data) else samples_of_bytes data"
  have bound: "int (length data) div (2 * channels) \<le> rate * int MAX_PCM_DURATION_SECONDS \<longleftrightarrow>
      int (length data) \<le> 2 * channels * rate * int MAX_PCM_DURATION_SECONDS"
    if "channels = 1 \<or> channels = 2" "int (length data) mod (2 * channels) = 0"
    using that by (auto simp: MAX_PCM_DURATION_SECONDS_def mod_eq_0_iff_dvd elim!: dvdE)
  consider (rate) "\<not> valid_rate rate" | (channels) "\<not> (channels = 1 \<or> channels = 2)"
    | (aligned) "valid_rate rate" "channels = 1 \<or> channels = 2" "int (length data) mod (2 * channels) \<noteq> 0"
    | (empty) "valid_rate rate" "channels = 1 \<or> channels = 2" "data = []"
    | (long) "valid_rate rate" "channels = 1 \<or> channels = 2" "int (length data) mod (2 * channels) = 0"
        "data \<noteq> []" "\<not> int (length data) div (2 * channels) \<le> rate * int MAX_PCM_DURATION_SECONDS"
    | (ok) "valid_rate rate" "channels = 1 \<or> channels = 2" "int (length data) mod (2 * channels) = 0"
        "data \<noteq> []" "int (length data) div (2 * channels) \<le> rate * int MAX_PCM_DURATION_SECONDS"
    by metis
  then show ?thesis
  proof cases
    case empty
    then have "0 \<le> rate" by (simp add: valid_rate_def wire_constants)
    with empty show ?thesis
      by (auto simp: pcm16_mono_24khz_def one_shot_accepts_def PCM_SAMPLE_WIDTH_def)
  next
    case long
    then show ?thesis
      using bound by (simp add: pcm16_mono_24khz_def one_shot_accepts_def PCM_SAMPLE_WIDTH_def)
  next
    case ok
    then have v: "0 < rate" by (auto simp: valid_rate_def wire_constants)
    have len: "length ?mixed = length data div (2 * nat channels)"
      using ok(2) by (auto simp: length_downmix length_samples_of_bytes div_mult2_eq)
    have "2 * channels \<le> int (length data)"
      using ok(2-4) by (intro zdvd_imp_le) (auto simp: mod_eq_0_iff_dvd)
    then have n: "length data div (2 * nat channels) \<noteq> 0" using ok(2) by (auto simp: div_eq_0_iff)
    then have "length ?mixed \<noteq> 0" using len by presburger
    then have "?mixed \<noteq> []" unfolding length_0_conv .
    from one_shot_ok [OF this less_imp_le [OF v]] obtain vs where vs: "one_shot ?mixed rate = Inr vs"
        "length vs = one_shot_length (length ?mixed) rate"
      by (elim exE conjE)
    have acc: "one_shot_accepts data rate channels"
      using ok bound by (auto simp: one_shot_accepts_def)
    have "pcm16_mono_24khz data rate channels =
        Inr (bytes_of_samples (if rate = REALTIME_SAMPLE_RATE then ?mixed else vs))"
      using ok vs by (auto simp: pcm16_mono_24khz_def PCM_SAMPLE_WIDTH_def bind_result_def)
    then show ?thesis using acc n len vs(2) by (simp add: Let_def)
  qed (auto simp: pcm16_mono_24khz_def one_shot_accepts_def PCM_SAMPLE_WIDTH_def)
qed

section \<open>The streaming WAV header\<close>

definition header_field :: "nat \<Rightarrow> nat \<Rightarrow> bytes \<Rightarrow> nat" where
  "header_field start n bs = le_nat (take n (drop start bs))"

lemma length_ascii_bytes [simp]: "length (ascii_bytes t) = length t"
  by (simp add: ascii_bytes_def)

text \<open>A streaming WAV header is 44 bytes whose fields read back as the arguments: PCM format, the
  channel count, the sample rate, the byte rate, the block alignment and 16 bits per sample; and with at
  most 32767 channels the only errors are \<open>ProtocolError\<close>.\<close>
theorem streaming_wav_header_fields:
  "case streaming_wav_header rate channels of
     Inr h \<Rightarrow> length h = 44 \<and> take 4 h = ascii_bytes ''RIFF'' \<and>
       take 8 (drop 8 h) = ascii_bytes ''WAVEfmt '' \<and>
       header_field 20 2 h = 1 \<and> int (header_field 22 2 h) = channels \<and>
       int (header_field 24 4 h) = rate \<and> int (header_field 28 4 h) = rate * channels * 2 \<and>
       int (header_field 32 2 h) = channels * 2 \<and> header_field 34 2 h = 16 \<and>
       take 4 (drop 36 h) = ascii_bytes ''data''
   | Inl e \<Rightarrow> (\<exists>m. e = ProtocolError m) \<or> (32767 < channels \<and> (\<exists>m. e = StructError m))"
proof (cases "streaming_wav_header rate channels")
  case (Inl e)
  then show ?thesis
    by (auto simp: streaming_wav_header_def Let_def PCM_SAMPLE_WIDTH_def split: if_splits)
next
  case (Inr h)
  then have b: "0 < rate" "0 < channels" "channels * 2 \<le> 65535" "rate * (channels * 2) \<le> 4294967295"
    by (auto simp: streaming_wav_header_def Let_def PCM_SAMPLE_WIDTH_def split: if_splits)
  have "rate * 1 \<le> rate * (channels * 2)" using b by (intro mult_left_mono) simp_all
  then have r: "rate \<le> 4294967295" using b(4) by simp
  have h: "h = ascii_bytes ''RIFF'' @ le_bytes 4 4294967295 @ ascii_bytes ''WAVE'' @
      ascii_bytes ''fmt '' @ le_bytes 4 16 @ le_bytes 2 1 @ le_bytes 2 (nat channels) @
      le_bytes 4 (nat rate) @ le_bytes 4 (nat (rate * (channels * 2))) @
      le_bytes 2 (nat (channels * 2)) @ le_bytes 2 16 @
      ascii_bytes ''data'' @ le_bytes 4 4294967295"
    using Inr by (auto simp: streaming_wav_header_def Let_def PCM_SAMPLE_WIDTH_def split: if_splits)
  have four: "le_nat (le_bytes 4 (nat v)) = nat v" if "v \<le> 4294967295" for v
    using that by (intro le_nat_le_bytes) simp
  have f: "le_nat (le_bytes 2 (nat channels)) = nat channels" "le_nat (le_bytes 4 (nat rate)) = nat rate"
    "le_nat (le_bytes 4 (nat (rate * (channels * 2)))) = nat (rate * (channels * 2))"
    "le_nat (le_bytes 2 (nat (channels * 2))) = nat (channels * 2)"
    "le_nat (le_bytes 2 (Suc 0)) = Suc 0" "le_nat (le_bytes 2 16) = 16"
    using b r four by (auto intro!: le_nat_le_bytes)
  have "ascii_bytes ''WAVE'' @ ascii_bytes ''fmt '' = ascii_bytes ''WAVEfmt ''"
    by (simp add: ascii_bytes_def)
  moreover have "0 \<le> rate * (channels * 2)" using b by simp
  ultimately show ?thesis using b by (simp add: Inr h header_field_def f)
qed

text \<open>Silence of \<open>k\<close> milliseconds at a rate that is a multiple of 1000 Hz is exactly
  \<open>k * rate / 1000\<close> zero samples.\<close>
theorem silence_pcm16_exact:
  assumes "0 \<le> k" "0 \<le> khz" "k * khz < 2 ^ 53"
  shows "silence_pcm16 k (khz * 1000) = Inr (replicate (2 * nat (k * khz)) 0)"
proof -
  have "round_div (k * (khz * 1000)) 1000 = k * khz"
    using assms round_div_same [of 1000 "k * khz"] by (simp add: mult.assoc)
  moreover have "nat (k * khz * 2) = 2 * nat (k * khz)" using assms by (simp add: nat_mult_distrib)
  ultimately show ?thesis using assms by (simp add: silence_pcm16_def PCM_SAMPLE_WIDTH_def Let_def not_less)
qed

theorem silence_pcm16_exact_witness:
  "silence_pcm16 20 (24 * 1000) = Inr (replicate (2 * nat (20 * 24)) 0)"
  by (rule silence_pcm16_exact) simp_all

end
