(* ===== verification/Utf8.thy ===== *)
theory Utf8
  imports Prelude
begin

text \<open>
  Python's strict UTF-8 codec (\<^verbatim>\<open>bytes.decode("utf-8")\<close> and \<^verbatim>\<open>str.encode()\<close>), on code points: shortest
  forms only, no surrogates, nothing above U+10FFFF. A text that may hold any character is its list
  of code points.
\<close>

definition scalar :: "nat \<Rightarrow> bool" where
  "scalar c \<longleftrightarrow> c < 55296 \<or> (57344 \<le> c \<and> c < 1114112)"

definition utf8_units :: "nat \<Rightarrow> nat list" where
  "utf8_units c =
     (if c < 128 then [c]
      else if c < 2048 then [192 + c div 64, 128 + c mod 64]
      else if c < 65536 then [224 + c div 4096, 128 + c div 64 mod 64, 128 + c mod 64]
      else [240 + c div 262144, 128 + c div 4096 mod 64, 128 + c div 64 mod 64, 128 + c mod 64])"

definition utf8_encode :: "nat list \<Rightarrow> bytes" where
  "utf8_encode cs = map of_nat (concat (map utf8_units cs))"

definition continuation :: "nat \<Rightarrow> bool" where
  "continuation b \<longleftrightarrow> 128 \<le> b \<and> b < 192"

fun utf8_read :: "nat list \<Rightarrow> nat list option" where
  "utf8_read [] = Some []"
| "utf8_read (b # bs) =
     (if b < 128 then map_option ((#) b) (utf8_read bs)
      else if b < 224 then
        (case bs of
           b1 # rest \<Rightarrow>
             let c = (b - 192) * 64 + (b1 - 128) in
             if 192 \<le> b \<and> continuation b1 \<and> 128 \<le> c
             then map_option ((#) c) (utf8_read rest) else None
         | _ \<Rightarrow> None)
      else if b < 240 then
        (case bs of
           b1 # b2 # rest \<Rightarrow>
             let c = (b - 224) * 4096 + (b1 - 128) * 64 + (b2 - 128) in
             if continuation b1 \<and> continuation b2 \<and> 2048 \<le> c \<and> scalar c
             then map_option ((#) c) (utf8_read rest) else None
         | _ \<Rightarrow> None)
      else
        (case bs of
           b1 # b2 # b3 # rest \<Rightarrow>
             let c = (b - 240) * 262144 + (b1 - 128) * 4096 + (b2 - 128) * 64 + (b3 - 128) in
             if continuation b1 \<and> continuation b2 \<and> continuation b3 \<and> 65536 \<le> c \<and> scalar c
             then map_option ((#) c) (utf8_read rest) else None
         | _ \<Rightarrow> None))"

declare utf8_read.simps [simp del]

definition utf8_decode :: "bytes \<Rightarrow> nat list option" where
  "utf8_decode bs = utf8_read (map unat bs)"

lemma digits64:
  fixes c :: nat
  shows "c div 64 * 64 + c mod 64 = c"
    and "c div 4096 * 4096 + c div 64 mod 64 * 64 + c mod 64 = c"
    and "c div 262144 * 262144 + c div 4096 mod 64 * 4096 + c div 64 mod 64 * 64 + c mod 64 = c"
proof -
  show 1: "c div 64 * 64 + c mod 64 = c" by simp
  have "c div 64 = c div 4096 * 64 + c div 64 mod 64"
    using div_mult_mod_eq [of "c div 64" 64] by (simp flip: div_mult2_eq)
  with 1 show 2: "c div 4096 * 4096 + c div 64 mod 64 * 64 + c mod 64 = c" by linarith
  have "c div 4096 = c div 262144 * 64 + c div 4096 mod 64"
    using div_mult_mod_eq [of "c div 4096" 64] by (simp flip: div_mult2_eq)
  with 2 show "c div 262144 * 262144 + c div 4096 mod 64 * 4096 + c div 64 mod 64 * 64 + c mod 64 = c"
    by linarith
qed

lemma continuation_mod [simp]: "continuation (128 + c mod 64)"
  by (simp add: continuation_def)

lemma utf8_read_units:
  assumes "scalar c"
  shows "utf8_read (utf8_units c @ bs) = map_option ((#) c) (utf8_read bs)"
proof -
  have s: "c < 1114112" using assms by (auto simp: scalar_def)
  consider "c < 128" | "128 \<le> c" "c < 2048" | "2048 \<le> c" "c < 65536" | "65536 \<le> c" by linarith
  then show ?thesis
  proof cases
    case 2
    then have "c div 64 < 32" by (simp add: div_less_iff_less_mult)
    with 2 show ?thesis by (simp add: utf8_units_def utf8_read.simps Let_def)
  next
    case 3
    then have "c div 4096 < 16" by (simp add: div_less_iff_less_mult)
    with 3 show ?thesis using digits64(2) [of c] assms
      by (simp add: utf8_units_def utf8_read.simps Let_def)
  next
    case 4
    with s have "c div 262144 < 5" by (simp add: div_less_iff_less_mult)
    with 4 show ?thesis using digits64(3) [of c] assms
      by (simp add: utf8_units_def utf8_read.simps Let_def)
  qed (simp add: utf8_units_def utf8_read.simps)
qed

lemma utf8_units_byte: "scalar c \<Longrightarrow> b \<in> set (utf8_units c) \<Longrightarrow> b < 256"
  by (auto simp: utf8_units_def scalar_def div_less_iff_less_mult split: if_splits)

lemma map_unat_of_nat: "\<forall>b \<in> set bs. b < 256 \<Longrightarrow> map (unat :: byte \<Rightarrow> nat) (map of_nat bs) = bs"
  by (induction bs) (auto simp: unat_of_nat)

lemma utf8_decode_encode:
  assumes "list_all scalar cs"
  shows "utf8_decode (utf8_encode cs) = Some cs"
proof -
  have "\<forall>b \<in> set (concat (map utf8_units cs)). b < 256"
    using assms utf8_units_byte by (auto simp: list_all_iff)
  then have "utf8_decode (utf8_encode cs) = utf8_read (concat (map utf8_units cs))"
    by (simp only: utf8_decode_def utf8_encode_def map_unat_of_nat)
  also have "\<dots> = Some cs"
    using assms by (induction cs) (simp_all add: utf8_read.simps(1) utf8_read_units)
  finally show ?thesis .
qed

text \<open>The codec accepts nothing else: what it decodes is the encoding of the result.\<close>

lemma divmod64:
  fixes q r :: nat
  assumes "r < 64"
  shows "(q * 64 + r) div 64 = q" "(q * 64 + r) mod 64 = r"
  using assms by simp_all

lemma divmod4096:
  fixes q r s :: nat
  assumes "r < 64" "s < 64"
  shows "(q * 4096 + r * 64 + s) div 4096 = q" "(q * 4096 + r * 64 + s) div 64 mod 64 = r"
    "(q * 4096 + r * 64 + s) mod 64 = s"
proof -
  have e: "q * 4096 + r * 64 + s = (q * 64 + r) * 64 + s" by simp
  have d: "(q * 4096 + r * 64 + s) div 64 = q * 64 + r" unfolding e by (rule divmod64 [OF assms(2)])
  show "(q * 4096 + r * 64 + s) mod 64 = s" unfolding e by (rule divmod64 [OF assms(2)])
  show "(q * 4096 + r * 64 + s) div 64 mod 64 = r" unfolding d by (rule divmod64 [OF assms(1)])
  have "(q * 4096 + r * 64 + s) div (64 * 64) = q"
    unfolding div_mult2_eq d by (rule divmod64 [OF assms(1)])
  then show "(q * 4096 + r * 64 + s) div 4096 = q" by simp
qed

lemma divmod262144:
  fixes q r s t :: nat
  assumes "r < 64" "s < 64" "t < 64"
  shows "(q * 262144 + r * 4096 + s * 64 + t) div 262144 = q"
    "(q * 262144 + r * 4096 + s * 64 + t) div 4096 mod 64 = r"
    "(q * 262144 + r * 4096 + s * 64 + t) div 64 mod 64 = s"
    "(q * 262144 + r * 4096 + s * 64 + t) mod 64 = t"
proof -
  have e: "q * 262144 + r * 4096 + s * 64 + t = (q * 64 + r) * 4096 + s * 64 + t" by simp
  have d: "(q * 262144 + r * 4096 + s * 64 + t) div 4096 = q * 64 + r"
    unfolding e by (rule divmod4096 [OF assms(2,3)])
  show "(q * 262144 + r * 4096 + s * 64 + t) div 64 mod 64 = s"
    unfolding e by (rule divmod4096 [OF assms(2,3)])
  show "(q * 262144 + r * 4096 + s * 64 + t) mod 64 = t"
    unfolding e by (rule divmod4096 [OF assms(2,3)])
  show "(q * 262144 + r * 4096 + s * 64 + t) div 4096 mod 64 = r"
    unfolding d by (rule divmod64 [OF assms(1)])
  have "(q * 262144 + r * 4096 + s * 64 + t) div (4096 * 64) = q"
    unfolding div_mult2_eq d by (rule divmod64 [OF assms(1)])
  then show "(q * 262144 + r * 4096 + s * 64 + t) div 262144 = q" by simp
qed

lemma continuation_digit:
  assumes "continuation b"
  obtains d where "b = 128 + d" "d < 64"
  using assms by (intro that [of "b - 128"]) (auto simp: continuation_def)

lemma utf8_two:
  assumes "192 \<le> b" "b < 224" "continuation b1" "128 \<le> (b - 192) * 64 + (b1 - 128)"
  shows "utf8_units ((b - 192) * 64 + (b1 - 128)) = [b, b1] \<and>
    scalar ((b - 192) * 64 + (b1 - 128))"
proof -
  obtain d where d: "b1 = 128 + d" "d < 64" by (rule continuation_digit [OF assms(3)])
  define q where q: "q = b - 192"
  have b: "b = 192 + q" "q < 32" using assms(1,2) by (simp_all add: q)
  have "q * 64 + d < 2048" using b(2) d(2) by linarith
  then show ?thesis using assms(4) d b by (auto simp: utf8_units_def scalar_def divmod64)
qed

lemma utf8_three:
  assumes "224 \<le> b" "b < 240" "continuation b1" "continuation b2"
    "2048 \<le> (b - 224) * 4096 + (b1 - 128) * 64 + (b2 - 128)"
  shows "utf8_units ((b - 224) * 4096 + (b1 - 128) * 64 + (b2 - 128)) = [b, b1, b2]"
proof -
  obtain d where d: "b1 = 128 + d" "d < 64" by (rule continuation_digit [OF assms(3)])
  obtain e where e: "b2 = 128 + e" "e < 64" by (rule continuation_digit [OF assms(4)])
  define q where q: "q = b - 224"
  have b: "b = 224 + q" "q < 16" using assms(1,2) by (simp_all add: q)
  have "q * 4096 + d * 64 + e < 65536" using b(2) d(2) e(2) by linarith
  then show ?thesis using assms(5) d e b by (auto simp: utf8_units_def divmod4096)
qed

lemma utf8_four:
  assumes "240 \<le> b" "continuation b1" "continuation b2" "continuation b3"
    "65536 \<le> (b - 240) * 262144 + (b1 - 128) * 4096 + (b2 - 128) * 64 + (b3 - 128)"
  shows "utf8_units ((b - 240) * 262144 + (b1 - 128) * 4096 + (b2 - 128) * 64 + (b3 - 128)) =
    [b, b1, b2, b3]"
proof -
  obtain d where d: "b1 = 128 + d" "d < 64" by (rule continuation_digit [OF assms(2)])
  obtain e where e: "b2 = 128 + e" "e < 64" by (rule continuation_digit [OF assms(3)])
  obtain f where f: "b3 = 128 + f" "f < 64" by (rule continuation_digit [OF assms(4)])
  define q where q: "q = b - 240"
  have b: "b = 240 + q" using assms(1) by (simp add: q)
  show ?thesis using assms(5) d e f b by (auto simp: utf8_units_def divmod262144)
qed

lemma utf8_read_Some:
  "utf8_read bs = Some cs \<Longrightarrow> concat (map utf8_units cs) = bs \<and> list_all scalar cs"
proof (induction bs arbitrary: cs rule: utf8_read.induct)
  case 1
  then show ?case by (simp add: utf8_read.simps)
next
  case (2 b bs)
  consider "b < 128" | "128 \<le> b" "b < 224" | "224 \<le> b" "b < 240" | "240 \<le> b" by linarith
  then show ?case
  proof cases
    case 1
    then show ?thesis
      using 1 2(1) 2(5) by (auto simp: utf8_read.simps(2) utf8_units_def scalar_def)
  next
    case b: 2
    then obtain b1 rest cs' where
      "bs = b1 # rest" "192 \<le> b" "continuation b1" "128 \<le> (b - 192) * 64 + (b1 - 128)"
      "utf8_read rest = Some cs'" "cs = ((b - 192) * 64 + (b1 - 128)) # cs'"
      using 2(5) by (auto simp: utf8_read.simps(2) Let_def split: list.splits if_splits)
    then show ?thesis using b 2(2) [of b1 rest] utf8_two [of b b1] by (simp add: Let_def)
  next
    case b: 3
    then obtain b1 b2 rest cs' where
      "bs = b1 # b2 # rest" "continuation b1" "continuation b2"
      "2048 \<le> (b - 224) * 4096 + (b1 - 128) * 64 + (b2 - 128)"
      "scalar ((b - 224) * 4096 + (b1 - 128) * 64 + (b2 - 128))"
      "utf8_read rest = Some cs'" "cs = ((b - 224) * 4096 + (b1 - 128) * 64 + (b2 - 128)) # cs'"
      using 2(5) by (auto simp: utf8_read.simps(2) Let_def split: list.splits if_splits)
    then show ?thesis using b 2(3) [of b1 _ b2 rest] utf8_three [of b b1 b2] by (simp add: Let_def)
  next
    case b: 4
    then obtain b1 b2 b3 rest cs' where
      "bs = b1 # b2 # b3 # rest" "continuation b1" "continuation b2" "continuation b3"
      "65536 \<le> (b - 240) * 262144 + (b1 - 128) * 4096 + (b2 - 128) * 64 + (b3 - 128)"
      "scalar ((b - 240) * 262144 + (b1 - 128) * 4096 + (b2 - 128) * 64 + (b3 - 128))"
      "utf8_read rest = Some cs'"
      "cs = ((b - 240) * 262144 + (b1 - 128) * 4096 + (b2 - 128) * 64 + (b3 - 128)) # cs'"
      using 2(5) by (auto simp: utf8_read.simps(2) Let_def split: list.splits if_splits)
    then show ?thesis
      using b 2(4) [of b1 _ b2 _ b3 rest] utf8_four [of b b1 b2 b3] by (simp add: Let_def)
  qed
qed

lemma utf8_decode_iff: "utf8_decode bs = Some cs \<longleftrightarrow> list_all scalar cs \<and> bs = utf8_encode cs"
proof
  assume "utf8_decode bs = Some cs"
  then have r: "concat (map utf8_units cs) = map unat bs" "list_all scalar cs"
    using utf8_read_Some [of "map unat bs" cs] by (simp_all add: utf8_decode_def)
  have "map (of_nat :: nat \<Rightarrow> byte) (map unat bs) = bs" by (simp add: comp_def)
  then show "list_all scalar cs \<and> bs = utf8_encode cs" using r by (simp add: utf8_encode_def)
qed (simp add: utf8_decode_encode)

end
