(* ===== verification/WebSocket.thy ===== *)
theory WebSocket
  imports Utf8 Json
begin

unbundle bit_operations_syntax

text \<open>
  The RFC 6455 client of the device, \<^verbatim>\<open>device/thirdreality/realtime_client/websocket.py\<close>: frames, the
  connection object and the HTTP upgrade. Random masks, the socket's \<^verbatim>\<open>recv\<close>, the success of each
  \<^verbatim>\<open>sendall\<close> and the SHA-1 accept key are parameters. Each definition runs one method to its return or
  exception; the connection it leaves is part of the result either way.
\<close>

section \<open>Frames\<close>

definition MAX_HTTP_HEADER_BYTES :: nat where "MAX_HTTP_HEADER_BYTES = 16 * 1024"
definition MAX_TEXT_BYTES :: nat where "MAX_TEXT_BYTES = 16 * 1024"
definition OP_CONTINUATION :: nat where "OP_CONTINUATION = 0"
definition OP_TEXT :: nat where "OP_TEXT = 1"
definition OP_BINARY :: nat where "OP_BINARY = 2"
definition OP_CLOSE :: nat where "OP_CLOSE = 8"
definition OP_PING :: nat where "OP_PING = 9"
definition OP_PONG :: nat where "OP_PONG = 10"

lemmas opcodes =
  OP_CONTINUATION_def OP_TEXT_def OP_BINARY_def OP_CLOSE_def OP_PING_def OP_PONG_def

text \<open>The payload XORed with the mask, repeated; \<open>i\<close> is the index of the first byte.\<close>

fun mask_from :: "nat \<Rightarrow> bytes \<Rightarrow> bytes \<Rightarrow> bytes" where
  "mask_from i key [] = []"
| "mask_from i key (b # bs) = (b XOR (key ! (i mod 4))) # mask_from (Suc i) key bs"

definition encode_client_frame :: "nat \<Rightarrow> bytes \<Rightarrow> bytes \<Rightarrow> bytes result" where
  "encode_client_frame opcode payload key =
     (if opcode \<notin> {OP_TEXT, OP_BINARY, OP_CLOSE, OP_PING, OP_PONG}
      then Inl (WebSocketError ''unsupported outgoing WebSocket opcode'')
      else if OP_CLOSE \<le> opcode \<and> 125 < length payload
      then Inl (WebSocketError ''control payload is too large'')
      else if length key \<noteq> 4
      then Inl (WebSocketError ''masking key must contain four bytes'')
      else
        let n = length payload;
            header =
              (if n < 126 then [128 OR of_nat opcode, 128 OR of_nat n]
               else if n \<le> 65535 then [128 OR of_nat opcode, 128 OR 126] @ be_bytes 2 n
               else [128 OR of_nat opcode, 128 OR 127] @ be_bytes 8 n)
        in Inr (header @ key @ mask_from 0 key payload))"

text \<open>The metadata of the frame at the start of a buffer: final bit, opcode, header size, length.\<close>

definition payload_length :: "bytes \<Rightarrow> nat \<Rightarrow> (nat \<times> nat) option result" where
  "payload_length buffer length_code =
     (if length_code = 126 then
        if length buffer < 4 then Inr None
        else
          let n = be_nat (take 2 (drop 2 buffer))
          in if n < 126 then Inl (WebSocketError ''non-canonical WebSocket frame length'')
             else Inr (Some (4, n))
      else if length_code = 127 then
        if length buffer < 10 then Inr None
        else
          let encoded_length = take 8 (drop 2 buffer)
          in if (encoded_length ! 0) AND 0x80 \<noteq> 0
             then Inl (WebSocketError ''invalid WebSocket frame length'')
             else
               let n = be_nat encoded_length
               in if n \<le> 65535 then Inl (WebSocketError ''non-canonical WebSocket frame length'')
                  else Inr (Some (10, n))
      else Inr (Some (2, length_code)))"

definition frame_metadata ::
    "nat \<Rightarrow> bytes \<Rightarrow> (bool \<times> nat \<times> nat \<times> nat) option result" where
  "frame_metadata max_message_bytes buffer =
     (case buffer of
        first # second # rest \<Rightarrow>
          let final = (first AND 0x80 \<noteq> 0); opcode = unat (first AND 0x0F)
          in if first AND 0x70 \<noteq> 0
             then Inl (WebSocketError ''WebSocket extensions are not supported'')
             else if second AND 0x80 \<noteq> 0
             then Inl (WebSocketError ''server WebSocket frames must not be masked'')
             else
               (case payload_length buffer (unat (second AND 0x7F)) of
                  Inl e \<Rightarrow> Inl e
                | Inr None \<Rightarrow> Inr None
                | Inr (Some (header_size, n)) \<Rightarrow>
                    if OP_CLOSE \<le> opcode
                    then (if \<not> final \<or> 125 < n
                          then Inl (WebSocketError ''invalid fragmented control frame'')
                          else Inr (Some (final, opcode, header_size, n)))
                    else if max_message_bytes < n
                    then Inl (WebSocketError ''WebSocket frame exceeds its bound'')
                    else Inr (Some (final, opcode, header_size, n)))
      | _ \<Rightarrow> Inr None)"

section \<open>The connection\<close>

datatype ws_message = Text "nat list" | Binary bytes | Pong bytes

record ws_conn =
  ws_buffer :: bytes
  ws_max :: nat
  ws_fragment_opcode :: "nat option"
  ws_fragment :: bytes
  ws_close_sent :: bool
  ws_closed :: bool
  ws_sent :: "(nat \<times> bytes) list"

text \<open>
  \<open>ws_sent\<close> is the sequence of frames handed to the socket, as opcode and payload. The transport gives
  the mask of the next frame and whether \<^verbatim>\<open>sendall\<close> takes it, as functions of the frames sent so far, and
  answers a \<^verbatim>\<open>recv\<close> of at most \<open>n\<close> bytes.
\<close>

datatype recv_outcome = Blocked | Received bytes | RecvFailed py_error

record transport =
  tr_mask :: "nat \<Rightarrow> bytes"
  tr_send :: "nat \<Rightarrow> py_error option"
  tr_recv :: "nat \<Rightarrow> recv_outcome"

definition new_conn :: "bytes \<Rightarrow> nat \<Rightarrow> ws_conn" where
  "new_conn initial_data max_message_bytes =
     \<lparr>ws_buffer = initial_data, ws_max = max_message_bytes, ws_fragment_opcode = None,
      ws_fragment = [], ws_close_sent = False, ws_closed = False, ws_sent = []\<rparr>"

definition ws_pending :: "ws_conn \<Rightarrow> nat result" where
  "ws_pending c =
     bind_result (frame_metadata (ws_max c) (ws_buffer c)) (\<lambda>m.
     Inr (case m of
            None \<Rightarrow> 0
          | Some (final, opcode, header_size, n) \<Rightarrow>
              if header_size + n \<le> length (ws_buffer c) then 1 else 0))"

definition send_frame :: "transport \<Rightarrow> nat \<Rightarrow> bytes \<Rightarrow> ws_conn \<Rightarrow> unit result \<times> ws_conn" where
  "send_frame t opcode payload c =
     (if ws_closed c then (Inl (WebSocketClosed ''WebSocket is closed''), c)
      else
        (case encode_client_frame opcode payload (tr_mask t (length (ws_sent c))) of
           Inl e \<Rightarrow> (Inl e, c)
         | Inr frame \<Rightarrow>
             (case tr_send t (length (ws_sent c)) of
                Some e \<Rightarrow> (Inl e, c)
              | None \<Rightarrow> (Inr (), c\<lparr>ws_sent := ws_sent c @ [(opcode, payload)]\<rparr>))))"

definition text_bytes :: "string \<Rightarrow> bytes" where
  "text_bytes s = utf8_encode (map of_char s)"

definition ws_send_json ::
    "(pyfloat \<Rightarrow> string) \<Rightarrow> transport \<Rightarrow> obj \<Rightarrow> ws_conn \<Rightarrow> unit result \<times> ws_conn" where
  "ws_send_json frepr t v c =
     (let encoded = text_bytes (dumps frepr (JObj v))
      in if min MAX_TEXT_BYTES (ws_max c) < length encoded
         then (Inl (WebSocketError ''outgoing JSON message exceeds its bound''), c)
         else send_frame t OP_TEXT encoded c)"

definition send_binary :: "transport \<Rightarrow> bytes \<Rightarrow> ws_conn \<Rightarrow> unit result \<times> ws_conn" where
  "send_binary t v c =
     (if v = [] \<or> length v mod 2 \<noteq> 0
      then (Inl (WebSocketError ''outgoing binary audio must be PCM16 aligned''), c)
      else if ws_max c < length v
      then (Inl (WebSocketError ''outgoing binary message exceeds its bound''), c)
      else send_frame t OP_BINARY v c)"

definition send_ping :: "transport \<Rightarrow> bytes \<Rightarrow> ws_conn \<Rightarrow> unit result \<times> ws_conn" where
  "send_ping t payload c =
     (if 125 < length payload then (Inl (WebSocketError ''ping payload is too large''), c)
      else send_frame t OP_PING payload c)"

definition send_close :: "transport \<Rightarrow> nat \<Rightarrow> ws_conn \<Rightarrow> unit result \<times> ws_conn" where
  "send_close t code c =
     (if ws_close_sent c \<or> ws_closed c then (Inr (), c)
      else if 65535 < code then (Inl (StructError ''argument out of range''), c)
      else
        (case send_frame t OP_CLOSE (be_bytes 2 code) c of
           (Inl e, c1) \<Rightarrow> (Inl e, c1)
         | (Inr _, c1) \<Rightarrow> (Inr (), c1\<lparr>ws_close_sent := True\<rparr>)))"

definition ws_close :: "ws_conn \<Rightarrow> ws_conn" where
  "ws_close c = c\<lparr>ws_closed := True\<rparr>"

section \<open>Receiving\<close>

definition read_frame :: "ws_conn \<Rightarrow> (bool \<times> nat \<times> bytes) option result \<times> ws_conn" where
  "read_frame c =
     (case frame_metadata (ws_max c) (ws_buffer c) of
        Inl e \<Rightarrow> (Inl e, c)
      | Inr None \<Rightarrow> (Inr None, c)
      | Inr (Some (final, opcode, header_size, n)) \<Rightarrow>
          let total_size = header_size + n
          in if length (ws_buffer c) < total_size then (Inr None, c)
             else (Inr (Some (final, opcode, take n (drop header_size (ws_buffer c)))),
                   c\<lparr>ws_buffer := drop total_size (ws_buffer c)\<rparr>))"

definition close_codes :: "nat set" where
  "close_codes = {1000, 1001, 1002, 1003, 1007, 1008, 1009, 1010, 1011, 1012, 1013, 1014}"

definition valid_close_code :: "nat \<Rightarrow> bool" where
  "valid_close_code code \<longleftrightarrow> code \<in> close_codes \<or> (3000 \<le> code \<and> code \<le> 4999)"

definition check_close_payload :: "bytes \<Rightarrow> unit result" where
  "check_close_payload payload =
     (if length payload = 1 then Inl (WebSocketError ''invalid close payload'')
      else if 2 \<le> length payload then
        if \<not> valid_close_code (be_nat (take 2 payload))
        then Inl (WebSocketError ''invalid close status code'')
        else if utf8_decode (drop 2 payload) = None
        then Inl (WebSocketError ''close reason must be UTF-8'')
        else Inr ()
      else Inr ())"

definition handle_control ::
    "transport \<Rightarrow> bool \<Rightarrow> nat \<Rightarrow> bytes \<Rightarrow> ws_conn \<Rightarrow> ws_message option result \<times> ws_conn" where
  "handle_control t final opcode payload c =
     (if \<not> final then (Inl (WebSocketError ''control frames must not be fragmented''), c)
      else if opcode = OP_PING then
        (case send_frame t OP_PONG payload c of
           (Inl e, c1) \<Rightarrow> (Inl e, c1) | (Inr _, c1) \<Rightarrow> (Inr None, c1))
      else if opcode = OP_PONG then (Inr (Some (Pong payload)), c)
      else if opcode \<noteq> OP_CLOSE
      then (Inl (WebSocketError ''unsupported WebSocket control opcode''), c)
      else
        (case check_close_payload payload of
           Inl e \<Rightarrow> (Inl e, c)
         | Inr _ \<Rightarrow>
             if ws_close_sent c then (Inl (WebSocketClosed ''peer closed WebSocket''), c)
             else
               (case send_frame t OP_CLOSE payload c of
                  (Inl e, c1) \<Rightarrow> (Inl e, c1)
                | (Inr _, c1) \<Rightarrow>
                    (Inl (WebSocketClosed ''peer closed WebSocket''),
                     c1\<lparr>ws_close_sent := True\<rparr>))))"

definition append_fragment :: "bytes \<Rightarrow> ws_conn \<Rightarrow> unit result \<times> ws_conn" where
  "append_fragment payload c =
     (if ws_max c < length (ws_fragment c) + length payload
      then (Inl (WebSocketError ''fragmented WebSocket message exceeds its bound''), c)
      else (Inr (), c\<lparr>ws_fragment := ws_fragment c @ payload\<rparr>))"

definition decode_message :: "nat \<Rightarrow> nat \<Rightarrow> bytes \<Rightarrow> ws_message result" where
  "decode_message max_message_bytes opcode payload =
     (if opcode = OP_BINARY then
        if payload = [] \<or> length payload mod 2 \<noteq> 0
        then Inl (WebSocketError ''binary audio must be non-empty PCM16'')
        else Inr (Binary payload)
      else if min MAX_TEXT_BYTES max_message_bytes < length payload
      then Inl (WebSocketError ''text WebSocket message exceeds its bound'')
      else
        (case utf8_decode payload of
           None \<Rightarrow> Inl (WebSocketError ''text WebSocket message must be UTF-8'')
         | Some s \<Rightarrow> Inr (Text s)))"

definition receive_some :: "transport \<Rightarrow> ws_conn \<Rightarrow> unit result \<times> ws_conn" where
  "receive_some t c =
     (let remaining = int (ws_max c + 16 * 1024) - int (length (ws_buffer c))
      in if remaining \<le> 0
         then (Inl (WebSocketError ''WebSocket receive buffer exceeded its bound''), c)
         else
           (case tr_recv t (min 4096 (nat remaining)) of
              Blocked \<Rightarrow> (Inr (), c)
            | RecvFailed e \<Rightarrow> (Inl e, c)
            | Received chunk \<Rightarrow>
                if chunk = [] then (Inl (WebSocketClosed ''WebSocket transport reached EOF''), c)
                else (Inr (), c\<lparr>ws_buffer := ws_buffer c @ chunk\<rparr>)))"

text \<open>
  One frame of the loop of \<^verbatim>\<open>receive_message\<close>: \<open>Inr None\<close> is \<^verbatim>\<open>continue\<close>, \<open>Inr (Some m)\<close> a return.
\<close>

definition handle_frame ::
    "transport \<Rightarrow> bool \<Rightarrow> nat \<Rightarrow> bytes \<Rightarrow> ws_conn \<Rightarrow> ws_message option result \<times> ws_conn" where
  "handle_frame t final opcode payload c =
     (if OP_CLOSE \<le> opcode then handle_control t final opcode payload c
      else if opcode = OP_CONTINUATION then
        (case ws_fragment_opcode c of
           None \<Rightarrow> (Inl (WebSocketError ''unexpected continuation frame''), c)
         | Some message_opcode \<Rightarrow>
             (case append_fragment payload c of
                (Inl e, c1) \<Rightarrow> (Inl e, c1)
              | (Inr _, c1) \<Rightarrow>
                  if \<not> final then (Inr None, c1)
                  else (map_sum id Some (decode_message (ws_max c1) message_opcode (ws_fragment c1)),
                        c1\<lparr>ws_fragment_opcode := None, ws_fragment := []\<rparr>)))
      else if opcode \<notin> {OP_TEXT, OP_BINARY}
      then (Inl (WebSocketError ''unsupported WebSocket opcode''), c)
      else if ws_fragment_opcode c \<noteq> None
      then (Inl (WebSocketError ''new data frame arrived during fragmentation''), c)
      else if final then (map_sum id Some (decode_message (ws_max c) opcode payload), c)
      else
        (case append_fragment payload (c\<lparr>ws_fragment_opcode := Some opcode, ws_fragment := []\<rparr>) of
           (Inl e, c1) \<Rightarrow> (Inl e, c1) | (Inr _, c1) \<Rightarrow> (Inr None, c1)))"

lemma frame_metadata_size:
  "frame_metadata m b = Inr (Some (f, p, h, n)) \<Longrightarrow> 2 \<le> h \<and> 2 \<le> length b"
  by (auto simp: frame_metadata_def payload_length_def Let_def
      split: list.splits if_splits sum.splits option.splits prod.splits)

lemma read_frame_shrinks:
  assumes "read_frame c = (Inr (Some x), c1)"
  shows "length (ws_buffer c1) < length (ws_buffer c)"
  using assms frame_metadata_size
  by (fastforce simp: read_frame_def Let_def split: sum.splits option.splits prod.splits if_splits)

lemma send_frame_cases:
  obtains (fails) e where "send_frame t opcode payload c = (Inl e, c)"
  | (sends) "send_frame t opcode payload c = (Inr (), c\<lparr>ws_sent := ws_sent c @ [(opcode, payload)]\<rparr>)"
      "\<not> ws_closed c"
  by (cases "ws_closed c"; cases "encode_client_frame opcode payload (tr_mask t (length (ws_sent c)))";
      cases "tr_send t (length (ws_sent c))")
    (simp_all add: send_frame_def)

lemma handle_control_buffer:
  "ws_buffer (snd (handle_control t f opcode payload c)) = ws_buffer c"
  by (cases rule: send_frame_cases [of t OP_PONG payload c];
      cases rule: send_frame_cases [of t OP_CLOSE payload c])
    (simp_all add: handle_control_def split: sum.splits)

lemma append_fragment_buffer [simp]:
  "ws_buffer (snd (append_fragment payload c)) = ws_buffer c"
  by (simp add: append_fragment_def)

lemma handle_frame_buffer:
  assumes "handle_frame t f opcode payload c = (r, c1)"
  shows "ws_buffer c1 = ws_buffer c"
proof (cases "OP_CLOSE \<le> opcode")
  case True
  then show ?thesis using assms handle_control_buffer [of t f opcode payload c] by (simp add: handle_frame_def)
next
  case False
  then show ?thesis
    using assms
    by (simp add: handle_frame_def append_fragment_def split: sum.splits option.splits prod.splits if_splits)
      auto
qed

text \<open>The loop of \<^verbatim>\<open>receive_message\<close>: at most one read, and none once a frame was consumed.\<close>

function receive_loop ::
    "transport \<Rightarrow> bool \<Rightarrow> bool \<Rightarrow> ws_conn \<Rightarrow> ws_message option result \<times> ws_conn" where
  "receive_loop t read_attempted consumed_frame c =
     (case read_frame c of
        (Inl e, c1) \<Rightarrow> (Inl e, c1)
      | (Inr None, c1) \<Rightarrow>
          if read_attempted \<or> consumed_frame then (Inr None, c1)
          else
            (case receive_some t c1 of
               (Inl e, c2) \<Rightarrow> (Inl e, c2)
             | (Inr _, c2) \<Rightarrow> receive_loop t True consumed_frame c2)
      | (Inr (Some (final, opcode, payload)), c1) \<Rightarrow>
          (case handle_frame t final opcode payload c1 of
             (Inl e, c2) \<Rightarrow> (Inl e, c2)
           | (Inr (Some m), c2) \<Rightarrow> (Inr (Some m), c2)
           | (Inr None, c2) \<Rightarrow> receive_loop t read_attempted True c2))"
  by pat_completeness auto
termination
  by (relation "measures [\<lambda>(_, r, k, _). if r \<or> k then 0 else 1, \<lambda>(_, _, _, c). length (ws_buffer c)]")
    (auto dest!: read_frame_shrinks [OF sym] handle_frame_buffer [OF sym])

declare receive_loop.simps [simp del]

definition receive_message :: "transport \<Rightarrow> ws_conn \<Rightarrow> ws_message option result \<times> ws_conn" where
  "receive_message t c = receive_loop t False False c"

section \<open>Frames on the wire\<close>

text \<open>
  The RFC 6455 layout, independently of the code: \<open>mask_bit\<close> is 128 for a client and 0 for a server,
  the length is in the shortest form.
\<close>

definition header_size_of :: "nat \<Rightarrow> nat" where
  "header_size_of n = (if n < 126 then 2 else if n \<le> 65535 then 4 else 10)"

definition frame_header :: "bool \<Rightarrow> nat \<Rightarrow> nat \<Rightarrow> nat \<Rightarrow> bytes" where
  "frame_header final opcode mask_bit n =
     of_nat ((if final then 128 else 0) + opcode) #
     (if n < 126 then [of_nat (mask_bit + n)]
      else if n \<le> 65535 then of_nat (mask_bit + 126) # be_bytes 2 n
      else of_nat (mask_bit + 127) # be_bytes 8 n)"

definition server_frame :: "bool \<Rightarrow> nat \<Rightarrow> bytes \<Rightarrow> bytes" where
  "server_frame final opcode payload = frame_header final opcode 0 (length payload) @ payload"

definition admissible :: "nat \<Rightarrow> bool \<Rightarrow> nat \<Rightarrow> nat \<Rightarrow> bool" where
  "admissible maximum final opcode n \<longleftrightarrow>
     opcode < 16 \<and> n < 2 ^ 63 \<and> (if OP_CLOSE \<le> opcode then final \<and> n \<le> 125 else n \<le> maximum)"

lemma unat_of_nat_small: "n < 256 \<Longrightarrow> unat (of_nat n :: byte) = n"
  by (simp add: unat_of_nat)

lemma or_128:
  assumes "n < 128"
  shows "(128 :: byte) OR of_nat n = of_nat (128 + n)"
proof -
  have "(of_nat n :: byte) AND 128 = 0" using assms by (simp add: and_top_bit_eq_0 unat_of_nat_small)
  then have "(128 :: byte) AND of_nat n = 0" by (simp add: and.commute)
  then have "(128 :: byte) + of_nat n = 128 OR of_nat n" by (rule disjunctive_add_eq_or)
  then show ?thesis by simp
qed

lemma first_byte:
  assumes "opcode < 16"
  shows "(of_nat ((if f then 128 else 0) + opcode) :: byte) AND 128 \<noteq> 0 \<longleftrightarrow> f" (is "?b AND _ \<noteq> 0 \<longleftrightarrow> _")
    and "(of_nat ((if f then 128 else 0) + opcode) :: byte) AND 112 = 0"
    and "unat ((of_nat ((if f then 128 else 0) + opcode) :: byte) AND 15) = opcode"
proof -
  have u: "unat ?b = (if f then 128 else 0) + opcode" using assms by (intro unat_of_nat_small) simp
  have "(128 + opcode) div 16 = 8" using assms by (simp add: div_plus_div_distrib_dvd_left)
  moreover have "(128 + opcode) mod 16 = opcode" using mod_add_left_eq [of 128 16 opcode] assms by simp
  ultimately show "?b AND 128 \<noteq> 0 \<longleftrightarrow> f" "?b AND 112 = 0" "unat (?b AND 15) = opcode"
    using assms unfolding and_top_bit_eq_0 and_middle_bits_eq_0 unat_and_low_bits u by simp_all
qed

lemma second_byte:
  assumes "n < 128"
  shows "(of_nat n :: byte) AND 128 = 0" "unat ((of_nat n :: byte) AND 127) = n"
  using assms by (simp_all add: and_top_bit_eq_0 unat_and_low_bits unat_of_nat_small)

lemma length_frame_header [simp]: "length (frame_header f p m n) = header_size_of n"
  by (simp add: frame_header_def header_size_of_def)

lemma be_bytes_top_bit:
  assumes "n < 2 ^ 63"
  shows "be_bytes 8 n ! 0 AND 128 = 0"
proof -
  have "be_bytes 8 n ! 0 = le_bytes 8 n ! 7"
    using rev_nth [of 0 "le_bytes 8 n"] by (simp only: be_bytes_def length_le_bytes) simp
  then have e: "be_bytes 8 n ! 0 = of_nat (n div 72057594037927936 mod 256)"
    by (simp only: nth_le_bytes) simp
  have "n div 72057594037927936 < 128" using assms by (simp add: div_less_iff_less_mult)
  then show ?thesis by (simp add: e and_top_bit_eq_0 unat_of_nat_small)
qed

lemma payload_length_header:
  assumes "n < 2 ^ 63"
  shows "payload_length (frame_header f p 0 n @ rest) (if n < 126 then n else if n \<le> 65535 then 126 else 127) =
    Inr (Some (header_size_of n, n))"
proof -
  consider "n < 126" | "126 \<le> n" "n \<le> 65535" | "65536 \<le> n" by linarith
  then show ?thesis
  proof cases
    case 2
    then have "be_nat (be_bytes 2 n) = n" by (intro be_nat_be_bytes) simp
    with 2 show ?thesis by (simp add: payload_length_def frame_header_def header_size_of_def Let_def)
  next
    case 3
    then have "be_nat (be_bytes 8 n) = n" using assms by (intro be_nat_be_bytes) simp
    moreover have "take 8 (be_bytes 8 n @ rest) = be_bytes 8 n" by simp
    ultimately show ?thesis
      using 3 be_bytes_top_bit [OF assms]
      by (simp add: payload_length_def frame_header_def header_size_of_def Let_def)
  qed (simp add: payload_length_def frame_header_def header_size_of_def)
qed

definition length_code_of :: "nat \<Rightarrow> nat" where
  "length_code_of n = (if n < 126 then n else if n \<le> 65535 then 126 else 127)"

lemma frame_header_split:
  "\<exists>field. frame_header f p 0 n =
     of_nat ((if f then 128 else 0) + p) # of_nat (length_code_of n) # field"
  by (auto simp: frame_header_def length_code_of_def)

lemma length_code_less: "length_code_of n < 128"
  by (simp add: length_code_of_def)

lemma frame_header_bytes:
  assumes "p < 16"
  obtains x y field where "frame_header f p 0 n = x # y # field"
    "x AND 128 \<noteq> 0 \<longleftrightarrow> f" "x AND 112 = 0" "unat (x AND 15) = p"
    "y AND 128 = 0" "unat (y AND 127) = length_code_of n"
  using frame_header_split [of f p n] first_byte [OF assms, of f] second_byte [OF length_code_less, of n]
  by blast

lemma frame_metadata_header:
  assumes "admissible m f p n"
  shows "frame_metadata m (frame_header f p 0 n @ rest) = Inr (Some (f, p, header_size_of n, n))"
proof -
  have a: "p < 16" "n < 2 ^ 63" "OP_CLOSE \<le> p \<longrightarrow> f \<and> n \<le> 125" "\<not> OP_CLOSE \<le> p \<longrightarrow> n \<le> m"
    using assms by (auto simp: admissible_def split: if_splits)
  have len: "payload_length (frame_header f p 0 n @ rest) (length_code_of n) = Inr (Some (header_size_of n, n))"
    using payload_length_header [OF a(2)] by (simp add: length_code_of_def)
  obtain x y field where x: "frame_header f p 0 n = x # y # field"
    "x AND 128 \<noteq> 0 \<longleftrightarrow> f" "x AND 112 = 0" "unat (x AND 15) = p"
    "y AND 128 = 0" "unat (y AND 127) = length_code_of n"
    by (rule frame_header_bytes [OF a(1)])
  show ?thesis
    using a(3,4) len unfolding x(1)
    by (cases "OP_CLOSE \<le> p") (simp_all add: frame_metadata_def Let_def x)
qed

lemma frame_metadata_short:
  assumes "admissible m f p n" "b @ suffix = frame_header f p 0 n" "suffix \<noteq> []"
  shows "frame_metadata m b = Inr None"
proof -
  have short: "length b < header_size_of n"
    using assms(2,3) by (metis length_append length_frame_header length_greater_0_conv less_add_same_cancel1)
  consider "b = []" | x where "b = [x]" | x y tail where "b = x # y # tail" by (metis neq_Nil_conv)
  then show ?thesis
  proof cases
    case (3 x y tail)
    have p: "p < 16" using assms(1) by (simp add: admissible_def)
    obtain x' y' field where x: "frame_header f p 0 n = x' # y' # field"
      "x' AND 128 \<noteq> 0 \<longleftrightarrow> f" "x' AND 112 = 0" "unat (x' AND 15) = p"
      "y' AND 128 = 0" "unat (y' AND 127) = length_code_of n"
      by (rule frame_header_bytes [OF p])
    then have "x = x'" "y = y'" using assms(2) 3 by simp_all
    moreover have "payload_length b (length_code_of n) = Inr None"
      using short 3 by (auto simp: payload_length_def length_code_of_def header_size_of_def split: if_splits)
    ultimately show ?thesis
      using 3 x by (simp add: frame_metadata_def Let_def)
  qed (simp_all add: frame_metadata_def)
qed

lemma byte_of_unat: "unat b = n \<Longrightarrow> (b :: byte) = of_nat n"
  by auto

lemma payload_length_ok:
  assumes "payload_length (x # y # field) code = Inr (Some (h, n))" "code < 128"
  shows "h = header_size_of n \<and> code = length_code_of n \<and> n < 2 ^ 63 \<and>
    take h (x # y # field) = x # y # drop 2 (frame_header f p 0 n)"
proof -
  consider "code < 126" | "code = 126" | "code = 127" using assms(2) by linarith
  then show ?thesis
  proof cases
    case 1
    then show ?thesis
      using assms by (auto simp: payload_length_def header_size_of_def length_code_of_def frame_header_def)
  next
    case 2
    then have l: "2 \<le> length field" and n: "n = be_nat (take 2 field)" "126 \<le> n" and h: "h = 4"
      using assms by (auto simp: payload_length_def Let_def split: if_splits)
    have "n < 65536" using be_nat_less [of "take 2 field"] l n by simp
    moreover have "be_bytes 2 n = take 2 field" unfolding n by (rule be_bytes_be_nat) (use l in simp)
    ultimately show ?thesis
      using 2 n(2) h by (simp add: header_size_of_def length_code_of_def frame_header_def)
  next
    case 3
    then have l: "8 \<le> length field" and n: "n = be_nat (take 8 field)" "65536 \<le> n" and h: "h = 10"
      and top: "(take 8 field ! 0) AND 128 = 0"
      using assms by (auto simp: payload_length_def Let_def split: if_splits)
    obtain c cs where c1: "take 8 field = c # cs" using l by (cases "take 8 field") auto
    have "length (take 8 field) = 8" using l by simp
    then have "length cs = 7" unfolding c1 by simp
    note c = c1 this
    have "unat c < 128" using top c by (simp add: and_top_bit_eq_0)
    then have "unat c * 256 ^ 7 + be_nat cs < 128 * 256 ^ 7"
      using be_nat_less [of cs] c(2) by simp
    then have "n < 2 ^ 63" by (simp add: n c be_nat_Cons)
    moreover have "be_bytes 8 n = take 8 field" unfolding n by (rule be_bytes_be_nat) (use l in simp)
    ultimately show ?thesis
      using 3 n(2) h by (simp add: header_size_of_def length_code_of_def frame_header_def)
  qed
qed

lemma multiple_of_8: "q < 16 \<Longrightarrow> q mod 8 = 0 \<Longrightarrow> q = 0 \<or> q = (8 :: nat)"
  by presburger

lemma split_at_128:
  "u = 16 * q + r \<Longrightarrow> q = 0 \<or> q = 8 \<Longrightarrow> r < 16 \<Longrightarrow> u = (if \<not> u < 128 then 128 else 0) + (r :: nat)"
  by auto

lemma flags_of_byte:
  assumes "(x :: byte) AND 112 = 0"
  shows "x = of_nat ((if x AND 128 \<noteq> 0 then 128 else 0) + unat (x AND 15))"
proof (rule byte_of_unat)
  define q where "q = unat x div 16"
  have x: "unat x = 16 * q + unat x mod 16" by (simp add: q_def)
  have "q < 16" using unat_byte_less [of x] by (simp add: q_def div_less_iff_less_mult)
  moreover have "q mod 8 = 0" using assms by (simp add: and_middle_bits_eq_0 q_def)
  ultimately have "q = 0 \<or> q = 8" by (rule multiple_of_8)
  then show "unat x = (if x AND 128 \<noteq> 0 then 128 else 0) + unat (x AND 15)"
    unfolding and_top_bit_eq_0 unat_and_low_bits by (rule split_at_128 [OF x]) simp
qed

lemma frame_metadata_ok:
  assumes "frame_metadata m b = Inr (Some (f, p, h, n))"
  shows "admissible m f p n \<and> h = header_size_of n \<and> take h b = frame_header f p 0 n"
proof -
  obtain x y field where b: "b = x # y # field"
    using assms by (auto simp: frame_metadata_def split: list.splits)
  define code where "code = unat (y AND 127)"
  have x: "x AND 112 = 0" "f = (x AND 128 \<noteq> 0)" "p = unat (x AND 15)" and y: "y AND 128 = 0"
    and len: "payload_length b code = Inr (Some (h, n))"
    and bound: "if OP_CLOSE \<le> p then f \<and> n \<le> 125 else n \<le> m"
    using assms by (auto simp: frame_metadata_def Let_def b code_def
        split: if_splits sum.splits option.splits prod.splits)
  have "code < 128" by (simp add: code_def unat_and_low_bits)
  with len have n: "h = header_size_of n" "code = length_code_of n" "n < 2 ^ 63"
    "take h b = x # y # drop 2 (frame_header f p 0 n)"
    unfolding b by (auto dest!: payload_length_ok)
  have "unat y = code" using y by (simp add: code_def unat_and_low_bits and_top_bit_eq_0)
  then have "y = of_nat code" by (rule byte_of_unat)
  then have "y = of_nat (length_code_of n)" unfolding n(2) .
  moreover have "x = of_nat ((if f then 128 else 0) + p)" using flags_of_byte [OF x(1)] x by simp
  ultimately have "take h b = frame_header f p 0 n"
    using n(4) frame_header_split [of f p n] by (auto simp del: of_nat_add)
  moreover have "p < 16" by (simp add: x unat_and_low_bits)
  ultimately show ?thesis using n bound by (simp add: admissible_def)
qed

lemma read_frame_server_frame:
  assumes "admissible (ws_max c) f p (length payload)" "ws_buffer c = server_frame f p payload @ rest"
  shows "read_frame c = (Inr (Some (f, p, payload)), c\<lparr>ws_buffer := rest\<rparr>)"
  using frame_metadata_header [OF assms(1), of "payload @ rest"] assms(2)
  by (simp add: read_frame_def server_frame_def Let_def)

lemma read_frame_iff:
  "read_frame c = (Inr (Some (f, p, payload)), c1) \<longleftrightarrow>
     admissible (ws_max c) f p (length payload) \<and>
     (\<exists>rest. ws_buffer c = server_frame f p payload @ rest \<and> c1 = c\<lparr>ws_buffer := rest\<rparr>)"
proof
  assume r: "read_frame c = (Inr (Some (f, p, payload)), c1)"
  then obtain h n where m: "frame_metadata (ws_max c) (ws_buffer c) = Inr (Some (f, p, h, n))"
    and l: "h + n \<le> length (ws_buffer c)" and payload: "payload = take n (drop h (ws_buffer c))"
    and c1: "c1 = c\<lparr>ws_buffer := drop (h + n) (ws_buffer c)\<rparr>"
    by (auto simp: read_frame_def Let_def split: sum.splits option.splits prod.splits if_splits)
  have len: "length payload = n" using l by (simp add: payload)
  have "ws_buffer c = take h (ws_buffer c) @ payload @ drop (h + n) (ws_buffer c)"
    unfolding payload by (metis append_take_drop_id drop_drop add.commute)
  then show "admissible (ws_max c) f p (length payload) \<and>
     (\<exists>rest. ws_buffer c = server_frame f p payload @ rest \<and> c1 = c\<lparr>ws_buffer := rest\<rparr>)"
    using frame_metadata_ok [OF m] c1 by (auto simp: server_frame_def len)
qed (auto intro: read_frame_server_frame)

lemma read_frame_prefix:
  assumes "admissible (ws_max c) f p (length payload)"
    and "ws_buffer c @ suffix = server_frame f p payload" "suffix \<noteq> []"
  shows "read_frame c = (Inr None, c)"
proof (cases "length (ws_buffer c) < header_size_of (length payload)")
  case True
  let ?h = "frame_header f p 0 (length payload)" and ?b = "ws_buffer c"
  have "?b @ take (header_size_of (length payload) - length ?b) suffix = ?h"
    using True arg_cong [OF assms(2), of "take (header_size_of (length payload))"]
    by (simp add: server_frame_def)
  moreover have "take (header_size_of (length payload) - length ?b) suffix \<noteq> []"
    using True assms(3) by simp
  ultimately have "frame_metadata (ws_max c) ?b = Inr None"
    by (rule frame_metadata_short [OF assms(1)])
  then show ?thesis by (simp add: read_frame_def)
next
  case False
  let ?h = "frame_header f p 0 (length payload)" and ?b = "ws_buffer c"
  have "?b = ?h @ drop (header_size_of (length payload)) ?b"
    using False arg_cong [OF assms(2), of "take (header_size_of (length payload))"]
    by (simp add: server_frame_def) (metis append_take_drop_id)
  then have "frame_metadata (ws_max c) ?b = Inr (Some (f, p, header_size_of (length payload), length payload))"
    using frame_metadata_header [OF assms(1)] by metis
  moreover have "length ?b < header_size_of (length payload) + length payload"
    using arg_cong [OF assms(2), of length] assms(3) by (cases suffix) (simp_all add: server_frame_def)
  ultimately show ?thesis by (simp add: read_frame_def Let_def)
qed

section \<open>Client frames\<close>

lemma length_mask_from [simp]: "length (mask_from i key bs) = length bs"
  by (induction bs arbitrary: i) auto

lemma mask_from_involution [simp]: "mask_from i key (mask_from i key bs) = bs"
  by (induction bs arbitrary: i) (auto simp: xor.assoc)

text \<open>
  What an RFC 6455 server makes of the bytes of one client frame: octet \<open>i\<close> of the payload is octet \<open>i\<close> of
  the masked data, XORed with octet \<open>i mod 4\<close> of the masking key (section 5.3).
\<close>

definition rfc_unmask :: "bytes \<Rightarrow> bytes \<Rightarrow> bytes" where
  "rfc_unmask key masked = map (\<lambda>i. (masked ! i) XOR (key ! (i mod 4))) [0..<length masked]"

lemma mask_from_nth: "mask_from i key bs = map (\<lambda>j. (bs ! j) XOR (key ! ((i + j) mod 4))) [0..<length bs]"
  by (induction bs arbitrary: i) (simp_all add: upt_conv_Cons map_Suc_upt [symmetric] comp_def del: upt_Suc)

lemma mask_is_rfc: "mask_from 0 key bs = rfc_unmask key bs"
  by (simp add: mask_from_nth rfc_unmask_def)

definition server_reads :: "nat \<Rightarrow> bytes \<Rightarrow> bytes \<Rightarrow> bool" where
  "server_reads opcode payload frame \<longleftrightarrow>
     (\<exists>key masked. length key = 4 \<and> length masked < 2 ^ 63 \<and> payload = rfc_unmask key masked \<and>
        frame = frame_header True opcode 128 (length masked) @ key @ masked)"

lemma encode_client_frame_ok:
  assumes "encode_client_frame opcode payload key = Inr frame"
  shows "length key = 4 \<and> opcode < 16 \<and> (OP_CLOSE \<le> opcode \<longrightarrow> length payload \<le> 125) \<and>
    frame = frame_header True opcode 128 (length payload) @ key @ mask_from 0 key payload"
proof -
  have o: "opcode < 16" using assms by (auto simp: encode_client_frame_def opcodes split: if_splits)
  then have first: "(128 :: byte) OR of_nat opcode = of_nat (128 + opcode)" by (intro or_128) simp
  have size: "(128 :: byte) OR of_nat n = of_nat (128 + n)" if "n < 126" for n
    using that by (intro or_128) simp
  have "(128 :: byte) OR 126 = 254" "(128 :: byte) OR 127 = 255" by simp_all
  then show ?thesis
    using assms o
    by (auto simp: encode_client_frame_def frame_header_def first size Let_def split: if_splits)
qed

text \<open>Reading is exact: \<^verbatim>\<open>_read_frame\<close> returns a frame precisely when the buffer starts with the
  unmasked canonical server encoding of that frame within the bounds (control frames final and at most 125
  bytes, data frames at most the message bound), and then it removes exactly that frame.\<close>
theorem read_frame_exact:
  "read_frame c = (Inr (Some (f, p, payload)), c1) \<longleftrightarrow>
     admissible (ws_max c) f p (length payload) \<and>
     (\<exists>rest. ws_buffer c = server_frame f p payload @ rest \<and> c1 = c\<lparr>ws_buffer := rest\<rparr>)"
  by (rule read_frame_iff)

text \<open>Reading is incremental: a buffer that holds a proper prefix of a valid server frame, cut at any
  byte, is neither an error nor consumed, so the frame is read once its last byte arrives.\<close>
theorem read_frame_incremental:
  assumes "admissible (ws_max c) f p (length payload)"
    and "ws_buffer c @ suffix = server_frame f p payload" "suffix \<noteq> []"
  shows "read_frame c = (Inr None, c) \<and>
    read_frame (c\<lparr>ws_buffer := ws_buffer c @ suffix\<rparr>) = (Inr (Some (f, p, payload)), c\<lparr>ws_buffer := []\<rparr>)"
  using read_frame_prefix [OF assms] assms(1,2)
    read_frame_server_frame [where c = "c\<lparr>ws_buffer := ws_buffer c @ suffix\<rparr>" and rest = "[]"]
  by simp

theorem read_frame_incremental_witness:
  "read_frame (new_conn [0x82] 100) = (Inr None, new_conn [0x82] 100) \<and>
   read_frame ((new_conn [0x82] 100)\<lparr>ws_buffer := ws_buffer (new_conn [0x82] 100) @ [2, 7, 9]\<rparr>) =
     (Inr (Some (True, OP_BINARY, [7, 9])), (new_conn [0x82] 100)\<lparr>ws_buffer := []\<rparr>)"
  by (rule read_frame_incremental)
    (simp_all add: admissible_def opcodes new_conn_def server_frame_def frame_header_def)

text \<open>A frame the client sends reads back at an RFC 6455 server as the same opcode and payload, for
  every payload below 2 ^ 63 bytes and every mask: the length is canonical and the masking is the one of the RFC.\<close>
theorem client_frame_roundtrip:
  assumes "encode_client_frame opcode payload key = Inr frame" "length payload < 2 ^ 63"
  shows "server_reads opcode payload frame"
  using encode_client_frame_ok [OF assms(1)] assms(2) unfolding server_reads_def
  by (intro exI [of _ key] exI [of _ "mask_from 0 key payload"]) (simp add: mask_is_rfc [symmetric])

theorem client_frame_roundtrip_witness:
  "server_reads OP_BINARY [1, 2, 3] [130, 131, 7, 0, 9, 255, 6, 2, 10]"
  by (rule client_frame_roundtrip [where key = "[7, 0, 9, 255]"])
    (simp_all add: encode_client_frame_def opcodes)

section \<open>The connection invariant\<close>

definition sendable :: "nat \<Rightarrow> nat \<times> bytes \<Rightarrow> bool" where
  "sendable maximum m \<longleftrightarrow>
     (case m of (opcode, payload) \<Rightarrow>
        opcode \<in> {OP_TEXT, OP_BINARY, OP_CLOSE, OP_PING, OP_PONG} \<and>
        (OP_CLOSE \<le> opcode \<longrightarrow> length payload \<le> 125) \<and>
        (opcode = OP_TEXT \<longrightarrow> length payload \<le> min MAX_TEXT_BYTES maximum) \<and>
        (opcode = OP_BINARY \<longrightarrow> payload \<noteq> [] \<and> even (length payload) \<and> length payload \<le> maximum))"

definition is_close :: "nat \<times> bytes \<Rightarrow> bool" where
  "is_close m \<longleftrightarrow> fst m = OP_CLOSE"

definition ws_inv :: "ws_conn \<Rightarrow> bool" where
  "ws_inv c \<longleftrightarrow>
     length (ws_buffer c) \<le> ws_max c + 16 * 1024 \<and>
     length (ws_fragment c) \<le> ws_max c \<and>
     (ws_fragment_opcode c = None \<longrightarrow> ws_fragment c = []) \<and>
     ws_fragment_opcode c \<in> {None, Some OP_TEXT, Some OP_BINARY} \<and>
     list_all (sendable (ws_max c)) (ws_sent c) \<and>
     length (filter is_close (ws_sent c)) = (if ws_close_sent c then 1 else 0)"

definition honest :: "transport \<Rightarrow> bool" where
  "honest t \<longleftrightarrow> (\<forall>n chunk. tr_recv t n = Received chunk \<longrightarrow> length chunk \<le> n)"

lemma send_frame_result:
  assumes "send_frame t opcode payload c = (r, c1)"
  shows "(\<exists>e. r = Inl e) \<and> c1 = c \<or>
    r = Inr () \<and> c1 = c\<lparr>ws_sent := ws_sent c @ [(opcode, payload)]\<rparr> \<and>
    opcode \<in> {OP_TEXT, OP_BINARY, OP_CLOSE, OP_PING, OP_PONG} \<and>
    (OP_CLOSE \<le> opcode \<longrightarrow> length payload \<le> 125)"
proof (cases "encode_client_frame opcode payload (tr_mask t (length (ws_sent c)))")
  case (Inl e)
  then show ?thesis using assms by (auto simp: send_frame_def split: if_splits)
next
  case (Inr frame)
  then have "opcode \<in> {OP_TEXT, OP_BINARY, OP_CLOSE, OP_PING, OP_PONG}"
    by (simp add: encode_client_frame_def split: if_splits)
  then show ?thesis
    using assms encode_client_frame_ok [OF Inr] Inr
    by (cases "tr_send t (length (ws_sent c))") (auto simp: send_frame_def split: if_splits)
qed

lemma send_frame_inv:
  assumes "ws_inv c" "opcode \<noteq> OP_CLOSE"
    "opcode = OP_TEXT \<longrightarrow> length payload \<le> min MAX_TEXT_BYTES (ws_max c)"
    "opcode = OP_BINARY \<longrightarrow> payload \<noteq> [] \<and> even (length payload) \<and> length payload \<le> ws_max c"
  shows "ws_inv (snd (send_frame t opcode payload c))"
proof -
  obtain r c1 where sf: "send_frame t opcode payload c = (r, c1)" by fastforce
  from send_frame_result [OF sf] show ?thesis
  proof (elim disjE conjE)
    assume "c1 = c"
    then show ?thesis using assms(1) by (simp add: sf)
  next
    assume c1: "c1 = c\<lparr>ws_sent := ws_sent c @ [(opcode, payload)]\<rparr>"
      and o: "opcode \<in> {OP_TEXT, OP_BINARY, OP_CLOSE, OP_PING, OP_PONG}"
      and l: "OP_CLOSE \<le> opcode \<longrightarrow> length payload \<le> 125"
    have "sendable (ws_max c) (opcode, payload)" using o l assms(3,4) by (simp add: sendable_def)
    moreover have "\<not> is_close (opcode, payload)" using assms(2) by (simp add: is_close_def)
    ultimately show ?thesis using assms(1) by (simp add: sf c1 ws_inv_def)
  qed
qed

lemma send_close_frame_inv:
  assumes "ws_inv c" "\<not> ws_close_sent c" "send_frame t OP_CLOSE payload c = (r, c1)"
  shows "(\<exists>e. r = Inl e) \<and> c1 = c \<or> r = Inr () \<and> ws_inv (c1\<lparr>ws_close_sent := True\<rparr>)"
  using send_frame_result [OF assms(3)]
proof (elim disjE conjE)
  assume c1: "r = Inr ()" "c1 = c\<lparr>ws_sent := ws_sent c @ [(OP_CLOSE, payload)]\<rparr>"
    and l: "OP_CLOSE \<le> OP_CLOSE \<longrightarrow> length payload \<le> 125"
  have "sendable (ws_max c) (OP_CLOSE, payload)" using l by (simp add: sendable_def opcodes)
  then show ?thesis using assms(1,2) by (simp add: c1 ws_inv_def is_close_def)
qed simp

lemma handle_control_inv:
  assumes "ws_inv c"
  shows "ws_inv (snd (handle_control t f opcode payload c))"
proof -
  have "ws_inv (snd (send_frame t OP_PONG payload c))"
    by (rule send_frame_inv [OF assms]) (simp_all add: opcodes)
  moreover obtain r c1 where close: "send_frame t OP_CLOSE payload c = (r, c1)" by fastforce
  ultimately show ?thesis
    using assms send_close_frame_inv [OF assms _ close]
    by (auto simp: handle_control_def close split: sum.splits prod.splits)
qed

lemma append_fragment_inv:
  assumes "ws_inv c" "ws_fragment_opcode c \<noteq> None" "append_fragment payload c = (r, c1)"
  shows "ws_inv c1 \<and> ws_fragment_opcode c1 = ws_fragment_opcode c \<and> ws_max c1 = ws_max c"
  using assms by (auto simp: append_fragment_def ws_inv_def split: if_splits)

lemma drop_fragment_inv: "ws_inv c \<Longrightarrow> ws_inv (c\<lparr>ws_fragment_opcode := None, ws_fragment := []\<rparr>)"
  by (simp add: ws_inv_def)

lemma start_fragment_inv:
  assumes "ws_inv c" "opcode \<in> {OP_TEXT, OP_BINARY}"
  shows "ws_inv (snd (case append_fragment payload
      (c\<lparr>ws_fragment_opcode := Some opcode, ws_fragment := []\<rparr>) of
        (Inl e, c1) \<Rightarrow> (Inl e, c1) | (Inr _, c1) \<Rightarrow> (Inr None, c1)))"
proof -
  let ?new = "c\<lparr>ws_fragment_opcode := Some opcode, ws_fragment := []\<rparr>"
  obtain r c1 where a: "append_fragment payload ?new = (r, c1)" by fastforce
  have "ws_inv ?new" using assms by (auto simp: ws_inv_def)
  then have "ws_inv c1" using append_fragment_inv [OF _ _ a] by simp
  then show ?thesis by (simp add: a split: sum.splits)
qed

lemma handle_frame_inv:
  assumes "ws_inv c"
  shows "ws_inv (snd (handle_frame t f opcode payload c))"
proof (cases "OP_CLOSE \<le> opcode \<or> opcode = OP_CONTINUATION")
  case True
  obtain r1 c1 where a1: "append_fragment payload c = (r1, c1)" by fastforce
  show ?thesis
    using True assms handle_control_inv [OF assms, of t f opcode payload]
      append_fragment_inv [OF assms _ a1]
    by (auto simp: handle_frame_def a1 split: option.splits sum.splits intro!: drop_fragment_inv)
next
  case False
  then show ?thesis
    using assms start_fragment_inv [OF assms, of OP_TEXT payload]
      start_fragment_inv [OF assms, of OP_BINARY payload]
    by (auto simp: handle_frame_def)
qed

lemma buffer_inv: "ws_inv c \<Longrightarrow> length b \<le> ws_max c + 16 * 1024 \<Longrightarrow> ws_inv (c\<lparr>ws_buffer := b\<rparr>)"
  by (simp add: ws_inv_def)

lemma buffer_bound: "ws_inv c \<Longrightarrow> length (ws_buffer c) \<le> ws_max c + 16 * 1024"
  unfolding ws_inv_def by (elim conjE)

lemma read_frame_cases:
  obtains (fails) e where "read_frame c = (Inl e, c)"
  | (waits) "read_frame c = (Inr None, c)"
  | (reads) f p d k where "read_frame c = (Inr (Some (f, p, d)), c\<lparr>ws_buffer := drop k (ws_buffer c)\<rparr>)"
proof (cases "frame_metadata (ws_max c) (ws_buffer c)")
  case (Inr m)
  show ?thesis
  proof (cases m)
    case (Some x)
    obtain f p h n where "x = (f, p, h, n)" by (cases x)
    then show ?thesis using Inr Some that(2,3)
      by (cases "length (ws_buffer c) < h + n") (simp_all add: read_frame_def)
  qed (use Inr that in \<open>simp add: read_frame_def\<close>)
qed (use that in \<open>simp add: read_frame_def\<close>)

lemma read_frame_inv:
  assumes "ws_inv c" "read_frame c = (r, c1)"
  shows "ws_inv c1"
proof (cases rule: read_frame_cases [of c])
  case (reads f p d k)
  then have "c1 = c\<lparr>ws_buffer := drop k (ws_buffer c)\<rparr>" using assms(2) by simp
  moreover have "length (drop k (ws_buffer c)) \<le> ws_max c + 16 * 1024"
    using buffer_bound [OF assms(1)] by simp
  ultimately show ?thesis using buffer_inv [OF assms(1)] by metis
qed (use assms in simp_all)

lemma receive_some_inv:
  assumes "ws_inv c" "honest t" "receive_some t c = (r, c1)"
  shows "ws_inv c1"
proof -
  let ?remaining = "int (ws_max c + 16 * 1024) - int (length (ws_buffer c))"
  consider "c1 = c" | chunk where "tr_recv t (min 4096 (nat ?remaining)) = Received chunk"
      "c1 = c\<lparr>ws_buffer := ws_buffer c @ chunk\<rparr>" "0 < ?remaining"
    using assms(3) by (cases "tr_recv t (min 4096 (nat ?remaining))")
      (auto simp: receive_some_def Let_def split: if_splits)
  then show ?thesis
  proof cases
    case (2 chunk)
    then have "length chunk \<le> min 4096 (nat ?remaining)" using assms(2) unfolding honest_def by blast
    then have "int (length chunk) \<le> ?remaining" using 2(3) by (simp add: le_nat_iff)
    then have "length (ws_buffer c @ chunk) \<le> ws_max c + 16 * 1024" by simp
    then show ?thesis unfolding 2(2) by (rule buffer_inv [OF assms(1)])
  qed (use assms(1) in simp)
qed

lemma receive_loop_inv:
  "ws_inv c \<Longrightarrow> honest t \<Longrightarrow> ws_inv (snd (receive_loop t r k c))"
proof (induction t r k c rule: receive_loop.induct)
  case (1 t r k c)
  obtain res c1 where rf: "read_frame c = (res, c1)" by fastforce
  have inv1: "ws_inv c1" by (rule read_frame_inv [OF 1(3) rf])
  show ?case
  proof (cases res)
    case (Inl e)
    then show ?thesis using rf inv1 by (simp add: receive_loop.simps)
  next
    case (Inr x)
    show ?thesis
    proof (cases x)
      case None
      obtain res2 c2 where rs: "receive_some t c1 = (res2, c2)" by fastforce
      have "ws_inv c2" by (rule receive_some_inv [OF inv1 1(4) rs])
      then show ?thesis
        using 1(1) [OF rf [symmetric] Inr None] 1(4) inv1 rs
        by (subst receive_loop.simps) (auto simp: rf Inr None split: sum.splits)
    next
      case (Some y)
      obtain f p d where y: "y = (f, p, d)" by (cases y)
      obtain res2 c2 where hf: "handle_frame t f p d c1 = (res2, c2)" by fastforce
      have inv2: "ws_inv c2" using handle_frame_inv [OF inv1, of t f p d] by (simp add: hf)
      then show ?thesis
        using 1(2) [OF rf [symmetric] Inr Some y [symmetric] refl hf [symmetric]] 1(4) hf
        by (subst receive_loop.simps) (auto simp: rf Inr Some y split: sum.splits option.splits)
    qed
  qed
qed

text \<open>The operations a client performs, in any order, on a connection made by the upgrade.\<close>

inductive ws_reachable :: "ws_conn \<Rightarrow> bool" where
  connected: "length initial_data \<le> MAX_HTTP_HEADER_BYTES \<Longrightarrow> ws_reachable (new_conn initial_data maximum)"
| sends_json: "ws_reachable c \<Longrightarrow> ws_reachable (snd (ws_send_json frepr t v c))"
| sends_binary: "ws_reachable c \<Longrightarrow> ws_reachable (snd (send_binary t data c))"
| sends_ping: "ws_reachable c \<Longrightarrow> ws_reachable (snd (send_ping t data c))"
| sends_close: "ws_reachable c \<Longrightarrow> ws_reachable (snd (send_close t code c))"
| receives: "ws_reachable c \<Longrightarrow> honest t \<Longrightarrow> ws_reachable (snd (receive_message t c))"
| closes: "ws_reachable c \<Longrightarrow> ws_reachable (ws_close c)"

lemma send_ops_inv:
  assumes "ws_inv c"
  shows "ws_inv (snd (ws_send_json frepr t v c))" "ws_inv (snd (send_binary t data c))"
    "ws_inv (snd (send_ping t data c))" "ws_inv (snd (send_close t code c))"
proof -
  show "ws_inv (snd (ws_send_json frepr t v c))"
    using assms by (auto simp: ws_send_json_def Let_def opcodes intro!: send_frame_inv)
  show "ws_inv (snd (send_binary t data c))"
    using assms send_frame_inv [OF assms, of OP_BINARY data t]
    by (simp add: send_binary_def even_iff_mod_2_eq_zero not_less) (simp add: opcodes)
  show "ws_inv (snd (send_ping t data c))"
    using assms by (auto simp: send_ping_def opcodes intro!: send_frame_inv)
  obtain r c1 where close: "send_frame t OP_CLOSE (be_bytes 2 code) c = (r, c1)" by fastforce
  show "ws_inv (snd (send_close t code c))"
    using assms send_close_frame_inv [OF assms _ close] by (auto simp: send_close_def close)
qed

lemma ws_reachable_inv: "ws_reachable c \<Longrightarrow> ws_inv c"
proof (induction rule: ws_reachable.induct)
  case connected
  then show ?case by (simp add: ws_inv_def new_conn_def MAX_HTTP_HEADER_BYTES_def)
next
  case closes
  then show ?case by (simp add: ws_inv_def ws_close_def)
qed (auto intro: send_ops_inv receive_loop_inv simp: receive_message_def)

text \<open>C34: Whatever the peer sends and however operations interleave, a connection stays within its
  bounds: the receive buffer holds at most the message bound plus 16 KiB, the fragment buffer at most the
  message bound and only during fragmentation, every frame sent is well formed and bounded, and
  at most one close frame is ever sent, exactly when the connection says so.\<close>
theorem websocket_invariant:
  assumes "ws_reachable c"
  shows "ws_inv c"
  by (rule ws_reachable_inv [OF assms])

theorem websocket_invariant_witness:
  "ws_inv (snd (send_close \<lparr>tr_mask = \<lambda>_. [1, 2, 3, 4], tr_send = \<lambda>_. None, tr_recv = \<lambda>_. Blocked\<rparr>
     1000 (new_conn [] 4096)))"
  by (rule websocket_invariant) (intro ws_reachable.intros, simp)

lemma frame_metadata_room:
  assumes "frame_metadata m b = Inr x" "x = None \<or> (\<exists>f p h n. x = Some (f, p, h, n) \<and> length b < h + n)"
  shows "length b < m + 10 + 126"
  using assms(2)
proof
  assume "x = None"
  then show ?thesis
    using assms(1) by (auto simp: frame_metadata_def payload_length_def Let_def
        split: list.splits if_splits sum.splits option.splits prod.splits)
next
  assume "\<exists>f p h n. x = Some (f, p, h, n) \<and> length b < h + n"
  then show ?thesis
    using assms(1) frame_metadata_ok [of m b]
    by (fastforce simp: admissible_def header_size_of_def split: if_splits)
qed

lemma receive_some_bound:
  assumes "read_frame c = (Inr None, c1)"
  shows "c1 = c \<and> 0 < int (ws_max c + 16 * 1024) - int (length (ws_buffer c))"
proof -
  have c1: "c1 = c"
    using assms by (auto simp: read_frame_def Let_def split: sum.splits option.splits prod.splits if_splits)
  obtain x where "frame_metadata (ws_max c) (ws_buffer c) = Inr x"
      "x = None \<or> (\<exists>f p h n. x = Some (f, p, h, n) \<and> length (ws_buffer c) < h + n)"
    using assms by (fastforce simp: read_frame_def Let_def split: sum.splits option.splits prod.splits if_splits)
  then show ?thesis using frame_metadata_room c1 by fastforce
qed

section \<open>Messages\<close>

lemma receive_loop_continue:
  assumes "read_frame c = (Inr (Some (f, p, d)), c1)" "handle_frame t f p d c1 = (Inr None, c2)"
  shows "receive_loop t r k c = receive_loop t r True c2"
  by (subst receive_loop.simps) (simp add: assms)

lemma receive_loop_return:
  assumes "read_frame c = (Inr (Some (f, p, d)), c1)" "handle_frame t f p d c1 = (map_sum id Some x, c2)"
  shows "receive_loop t r k c = (map_sum id Some x, c2)"
  using assms by (subst receive_loop.simps) (cases x; simp)

text \<open>A transport that takes every frame, and the stream of a fragmented message with pings between.\<close>

definition accepting :: "transport \<Rightarrow> bool" where
  "accepting t \<longleftrightarrow> (\<forall>n. tr_send t n = None \<and> length (tr_mask t n) = 4)"

definition ping_stream :: "bytes list \<Rightarrow> bytes" where
  "ping_stream pings = concat (map (server_frame True OP_PING) pings)"

fun continuation_stream :: "(bytes list \<times> bytes) list \<Rightarrow> bytes" where
  "continuation_stream [] = []"
| "continuation_stream ((pings, part) # conts) =
     ping_stream pings @ server_frame (conts = []) OP_CONTINUATION part @ continuation_stream conts"

definition pongs :: "bytes list \<Rightarrow> (nat \<times> bytes) list" where
  "pongs pings = map (\<lambda>p. (OP_PONG, p)) pings"

lemma handle_ping:
  assumes "accepting t" "\<not> ws_closed c" "length d \<le> 125"
  shows "handle_frame t True OP_PING d c = (Inr None, c\<lparr>ws_sent := ws_sent c @ [(OP_PONG, d)]\<rparr>)"
  using assms
  by (auto simp: handle_frame_def handle_control_def send_frame_def accepting_def encode_client_frame_def
      Let_def opcodes)

lemma receive_pings:
  assumes "accepting t" "\<not> ws_closed c" "\<forall>d \<in> set pings. length d \<le> 125"
    and "ws_buffer c = ping_stream pings @ rest"
  shows "receive_loop t r True c =
    receive_loop t r True (c\<lparr>ws_buffer := rest, ws_sent := ws_sent c @ pongs pings\<rparr>)"
  using assms
proof (induction pings arbitrary: c)
  case Nil
  then have "c\<lparr>ws_buffer := rest, ws_sent := ws_sent c @ pongs []\<rparr> = c"
    by (cases c) (simp add: ping_stream_def pongs_def)
  then show ?case by simp
next
  case (Cons d pings)
  have "admissible (ws_max c) True OP_PING (length d)"
    using Cons.prems(3) by (auto simp: admissible_def opcodes)
  then have rf: "read_frame c = (Inr (Some (True, OP_PING, d)), c\<lparr>ws_buffer := ping_stream pings @ rest\<rparr>)"
    by (rule read_frame_server_frame) (use Cons.prems(4) in \<open>simp add: ping_stream_def\<close>)
  have "receive_loop t r True c = receive_loop t r True
      (c\<lparr>ws_buffer := ping_stream pings @ rest, ws_sent := ws_sent c @ [(OP_PONG, d)]\<rparr>)"
    using receive_loop_continue [OF rf handle_ping [OF Cons.prems(1)], of r True] Cons.prems(2,3) by simp
  also have "\<dots> = receive_loop t r True
      (c\<lparr>ws_buffer := rest, ws_sent := ws_sent c @ pongs (d # pings)\<rparr>)"
    using Cons.prems by (subst Cons.IH) (simp_all add: pongs_def)
  finally show ?case .
qed

lemma handle_continuation:
  assumes "ws_fragment_opcode c = Some p" "length (ws_fragment c) + length d \<le> ws_max c"
  shows "handle_frame t f OP_CONTINUATION d c =
    (if f then (map_sum id Some (decode_message (ws_max c) p (ws_fragment c @ d)),
        c\<lparr>ws_fragment_opcode := None, ws_fragment := []\<rparr>)
     else (Inr None, c\<lparr>ws_fragment := ws_fragment c @ d\<rparr>))"
  using assms by (simp add: handle_frame_def append_fragment_def opcodes)

lemma receive_continuations:
  assumes "accepting t" "\<not> ws_closed c" "ws_fragment_opcode c = Some p" "ws_max c < 2 ^ 63"
    and "conts \<noteq> []" "\<forall>x \<in> set conts. \<forall>d \<in> set (fst x). length d \<le> 125"
    and "length (ws_fragment c @ concat (map snd conts)) \<le> ws_max c"
    and "ws_buffer c = continuation_stream conts @ rest"
  shows "receive_loop t r True c =
    (map_sum id Some (decode_message (ws_max c) p (ws_fragment c @ concat (map snd conts))),
     c\<lparr>ws_buffer := rest, ws_fragment_opcode := None, ws_fragment := [],
       ws_sent := ws_sent c @ pongs (concat (map fst conts))\<rparr>)"
  using assms
proof (induction conts arbitrary: c)
  case Nil
  then show ?case by simp
next
  case (Cons x conts)
  obtain pings part where x: "x = (pings, part)" by (cases x)
  let ?tail = "continuation_stream conts @ rest"
  let ?c1 = "c\<lparr>ws_buffer := server_frame (conts = []) OP_CONTINUATION part @ ?tail,
    ws_sent := ws_sent c @ pongs pings\<rparr>"
  have "receive_loop t r True c = receive_loop t r True ?c1"
    by (rule receive_pings) (use Cons.prems x in auto)
  moreover have rf: "read_frame ?c1 = (Inr (Some (conts = [], OP_CONTINUATION, part)), ?c1\<lparr>ws_buffer := ?tail\<rparr>)"
    by (rule read_frame_server_frame) (use Cons.prems x in \<open>auto simp: admissible_def opcodes\<close>)
  have hf: "handle_frame t (conts = []) OP_CONTINUATION part (?c1\<lparr>ws_buffer := ?tail\<rparr>) =
    (if conts = [] then (map_sum id Some (decode_message (ws_max c) p (ws_fragment c @ part)),
        ?c1\<lparr>ws_buffer := ?tail, ws_fragment_opcode := None, ws_fragment := []\<rparr>)
     else (Inr None, ?c1\<lparr>ws_buffer := ?tail, ws_fragment := ws_fragment c @ part\<rparr>))"
    using Cons.prems x by (subst handle_continuation) auto
  ultimately show ?case
  proof (cases "conts = []")
    case True
    then show ?thesis
      using \<open>receive_loop t r True c = receive_loop t r True ?c1\<close> receive_loop_return [OF rf] hf x
      by (simp add: id_def)
  next
    case False
    let ?c2 = "?c1\<lparr>ws_buffer := ?tail, ws_fragment := ws_fragment c @ part\<rparr>"
    have "receive_loop t r True c = receive_loop t r True ?c2"
      using \<open>receive_loop t r True c = receive_loop t r True ?c1\<close> receive_loop_continue [OF rf] hf False
      by simp
    also have "\<dots> = (map_sum id Some (decode_message (ws_max ?c2) p (ws_fragment ?c2 @ concat (map snd conts))),
     ?c2\<lparr>ws_buffer := rest, ws_fragment_opcode := None, ws_fragment := [],
       ws_sent := ws_sent ?c2 @ pongs (concat (map fst conts))\<rparr>)"
      by (rule Cons.IH) (use Cons.prems x False in auto)
    finally show ?thesis using x by (simp add: pongs_def id_def)
  qed
qed

lemma receive_loop_fragmented:
  assumes "accepting t" "\<not> ws_closed c" "ws_fragment_opcode c = None" "ws_fragment c = []"
    and "ws_max c < 2 ^ 63" "p \<in> {OP_TEXT, OP_BINARY}"
    and "\<forall>x \<in> set conts. \<forall>d \<in> set (fst x). length d \<le> 125"
    and "length (part @ concat (map snd conts)) \<le> ws_max c"
    and "ws_buffer c = server_frame (conts = []) p part @ continuation_stream conts @ rest"
  shows "receive_loop t r k c =
    (map_sum id Some (decode_message (ws_max c) p (part @ concat (map snd conts))),
     c\<lparr>ws_buffer := rest, ws_sent := ws_sent c @ pongs (concat (map fst conts))\<rparr>)"
proof -
  let ?tail = "continuation_stream conts @ rest"
  have rf: "read_frame c = (Inr (Some (conts = [], p, part)), c\<lparr>ws_buffer := ?tail\<rparr>)"
    by (rule read_frame_server_frame) (use assms in \<open>auto simp: admissible_def opcodes\<close>)
  show ?thesis
  proof (cases "conts = []")
    case True
    then have "handle_frame t (conts = []) p part (c\<lparr>ws_buffer := ?tail\<rparr>) =
        (map_sum id Some (decode_message (ws_max c) p part), c\<lparr>ws_buffer := rest\<rparr>)"
      using assms(3,6) by (auto simp: handle_frame_def opcodes)
    with True show ?thesis using receive_loop_return [OF rf] by (simp add: pongs_def id_def)
  next
    case False
    let ?c1 = "c\<lparr>ws_buffer := ?tail, ws_fragment_opcode := Some p, ws_fragment := part\<rparr>"
    have "handle_frame t (conts = []) p part (c\<lparr>ws_buffer := ?tail\<rparr>) = (Inr None, ?c1)"
      using assms(3,6,8) False by (auto simp: handle_frame_def append_fragment_def opcodes)
    then have "receive_loop t r k c = receive_loop t r True ?c1" by (rule receive_loop_continue [OF rf])
    also have "\<dots> = (map_sum id Some (decode_message (ws_max ?c1) p (ws_fragment ?c1 @ concat (map snd conts))),
     ?c1\<lparr>ws_buffer := rest, ws_fragment_opcode := None, ws_fragment := [],
       ws_sent := ws_sent ?c1 @ pongs (concat (map fst conts))\<rparr>)"
      by (rule receive_continuations) (use assms False in auto)
    finally show ?thesis using assms(3,4) by (cases c) simp
  qed
qed

text \<open>A buffered message is delivered whole: however the server cuts it into fragments within the
  message bound and wherever it puts pings between them, \<^verbatim>\<open>receive_message\<close> returns the decoding of the joined
  fragments without reading the socket, answers every ping in order with its own payload, and leaves
  exactly the bytes after the last fragment.\<close>
theorem fragmented_message_delivery:
  assumes "accepting t" "\<not> ws_closed c" "ws_fragment_opcode c = None" "ws_fragment c = []"
    and "ws_max c < 2 ^ 63" "p \<in> {OP_TEXT, OP_BINARY}"
    and "\<forall>x \<in> set conts. \<forall>d \<in> set (fst x). length d \<le> 125"
    and "length (part @ concat (map snd conts)) \<le> ws_max c"
    and "ws_buffer c = server_frame (conts = []) p part @ continuation_stream conts @ rest"
  shows "receive_message t c =
    (map_sum id Some (decode_message (ws_max c) p (part @ concat (map snd conts))),
     c\<lparr>ws_buffer := rest, ws_sent := ws_sent c @ pongs (concat (map fst conts))\<rparr>)"
  unfolding receive_message_def by (rule receive_loop_fragmented [OF assms])

definition sample_transport :: transport where
  "sample_transport = \<lparr>tr_mask = \<lambda>_. [1, 2, 3, 4], tr_send = \<lambda>_. None, tr_recv = \<lambda>_. Blocked\<rparr>"

theorem fragmented_message_delivery_witness:
  "receive_message sample_transport (new_conn ([2, 1, 5] @ [137, 1, 7] @ [128, 1, 6] @ [9]) 100) =
     (map_sum id Some (decode_message 100 OP_BINARY [5, 6]),
      (new_conn [9] 100)\<lparr>ws_sent := [(OP_PONG, [7])]\<rparr>)"
  using fragmented_message_delivery [of sample_transport "new_conn ([2, 1, 5] @ [137, 1, 7] @ [128, 1, 6] @ [9]) 100"
      OP_BINARY "[([[7]], [6])]" "[5]" "[9]"]
  by (simp add: accepting_def sample_transport_def new_conn_def opcodes server_frame_def frame_header_def
      ping_stream_def pongs_def)

text \<open>A text message is accepted exactly when it is the UTF-8 encoding of scalar values and within
  both bounds, and the text delivered is those scalar values; binary audio is accepted exactly when it
  is a whole positive number of PCM16 samples, and delivered unchanged.\<close>
theorem decode_message_iff:
  "decode_message maximum opcode payload = Inr m \<longleftrightarrow>
     (if opcode = OP_BINARY then m = Binary payload \<and> payload \<noteq> [] \<and> even (length payload)
      else \<exists>cs. m = Text cs \<and> list_all scalar cs \<and> payload = utf8_encode cs \<and>
             length payload \<le> 16384 \<and> length payload \<le> maximum)"
proof (cases "opcode = OP_BINARY")
  case False
  have "(\<exists>cs. m = Text cs \<and> list_all scalar cs \<and> payload = utf8_encode cs \<and>
        length payload \<le> 16384 \<and> length payload \<le> maximum) \<longleftrightarrow>
      (\<exists>cs. m = Text cs \<and> utf8_decode payload = Some cs) \<and>
      length payload \<le> 16384 \<and> length payload \<le> maximum"
    unfolding utf8_decode_iff by blast
  moreover have "decode_message maximum opcode payload = Inr m \<longleftrightarrow>
      (\<exists>cs. m = Text cs \<and> utf8_decode payload = Some cs) \<and>
      length payload \<le> 16384 \<and> length payload \<le> maximum"
    using False by (cases "utf8_decode payload") (auto simp: decode_message_def MAX_TEXT_BYTES_def)
  ultimately show ?thesis using False by (simp only: if_False)
qed (auto simp: decode_message_def even_iff_mod_2_eq_zero)

text \<open>The closing handshake: a close frame of the peer with a legal payload always ends the connection
  with \<open>WebSocketClosed\<close>, after echoing the payload in one close frame unless a close was already sent;
  an illegal payload (one byte, a reserved status code, or a reason that is not UTF-8) is an
  error and sends nothing.\<close>
theorem close_handshake:
  assumes "accepting t" "\<not> ws_closed c" "length payload \<le> 125"
  shows "handle_control t True OP_CLOSE payload c =
    (case check_close_payload payload of
       Inl e \<Rightarrow> (Inl e, c)
     | Inr _ \<Rightarrow>
         (Inl (WebSocketClosed ''peer closed WebSocket''),
          if ws_close_sent c then c
          else c\<lparr>ws_sent := ws_sent c @ [(OP_CLOSE, payload)], ws_close_sent := True\<rparr>))"
  using assms
  by (auto simp: handle_control_def send_frame_def accepting_def encode_client_frame_def Let_def opcodes
      split: sum.splits)

theorem close_handshake_witness:
  "handle_control sample_transport True OP_CLOSE [3, 232] (new_conn [] 100) =
     (Inl (WebSocketClosed ''peer closed WebSocket''),
      (new_conn [] 100)\<lparr>ws_sent := [(OP_CLOSE, [3, 232])], ws_close_sent := True\<rparr>)"
  using close_handshake [of sample_transport "new_conn [] 100" "[3, 232]"]
  by (simp add: accepting_def sample_transport_def new_conn_def check_close_payload_def be_nat_def
      valid_close_code_def close_codes_def utf8_decode_def utf8_read.simps)

end
