(* ===== verification/WebSocket_Upgrade.thy ===== *)
theory WebSocket_Upgrade
  imports WebSocket
begin

text \<open>
  The HTTP upgrade of \<^verbatim>\<open>device/thirdreality/realtime_client/websocket.py\<close>: the request, the bounded
  read of the response headers, their validation, and \<^verbatim>\<open>connect\<close>, which composes them. The parsed URL
  (\<^verbatim>\<open>urlsplit\<close>), the clock, what the socket answers and the accept key (SHA-1 and base64 of the nonce)
  are parameters. Header text is Latin-1, one character per byte.
\<close>

section \<open>The request\<close>

definition CR :: char where "CR = CHR 0x0D"
definition LF :: char where "LF = CHR 0x0A"

record split_url =
  su_scheme :: string
  su_hostname :: "string option"
  su_port :: "nat option"
  su_path :: string
  su_query :: string

definition default_port :: "split_url \<Rightarrow> nat" where
  "default_port u = (if su_scheme u = ''wss'' then 443 else 80)"

definition request_target :: "split_url \<Rightarrow> string" where
  "request_target u =
     (let target = (if su_path u = [] then ''/'' else su_path u)
      in if su_query u = [] then target else target @ ''?'' @ su_query u)"

definition host_header :: "split_url \<Rightarrow> string \<Rightarrow> nat \<Rightarrow> string" where
  "host_header u host port =
     (let h = (if CHR '':'' \<in> set host then ''['' @ host @ '']'' else host)
      in if port \<noteq> default_port u then h @ '':'' @ nat_digits port else h)"

definition request_lines :: "split_url \<Rightarrow> string \<Rightarrow> nat \<Rightarrow> string \<Rightarrow> string \<Rightarrow> string list" where
  "request_lines u host port key token =
     [''GET '' @ request_target u @ '' HTTP/1.1'',
      ''Host: '' @ host_header u host port,
      ''Upgrade: websocket'',
      ''Connection: Upgrade'',
      ''Sec-WebSocket-Key: '' @ key,
      ''Sec-WebSocket-Version: 13'',
      ''Authorization: Bearer '' @ token,
      ''User-Agent: ha-codex-voice-thirdreality/2'',
      '''',
      '''']"

definition upgrade_request :: "split_url \<Rightarrow> string \<Rightarrow> nat \<Rightarrow> string \<Rightarrow> string \<Rightarrow> string result" where
  "upgrade_request u host port key token =
     (let target = request_target u
      in if CR \<in> set target \<or> LF \<in> set target
         then Inl (WebSocketError ''invalid WebSocket request target'')
         else if \<not> is_ascii target
         then Inl (WebSocketError ''WebSocket request target must be ASCII encoded'')
         else
           let request = join_with [CR, LF] (request_lines u host port key token)
           in if is_ascii request then Inr request
              else Inl (ValueError ''ordinal not in range(128)''))"

section \<open>Reading the response headers\<close>

definition set_remaining_timeout :: "rat \<Rightarrow> rat \<Rightarrow> unit result" where
  "set_remaining_timeout deadline now =
     raise_if (deadline - now \<le> 0) (TimeoutError ''WebSocket connection deadline expired'')"

text \<open>The index just after the first empty line.\<close>

fun header_end :: "bytes \<Rightarrow> nat option" where
  "header_end [] = None"
| "header_end (b # bs) =
     (if take 4 (b # bs) = [13, 10, 13, 10] then Some 4 else map_option Suc (header_end bs))"

text \<open>
  Each event is the clock before a \<^verbatim>\<open>recv\<close> and the answer of the socket for a given size. \<open>None\<close> means
  that the events end while the response is incomplete.
\<close>

type_synonym http_event = "rat \<times> (nat \<Rightarrow> recv_outcome)"

fun read_http_response :: "rat \<Rightarrow> http_event list \<Rightarrow> bytes \<Rightarrow> (bytes \<times> bytes) result option" where
  "read_http_response deadline events response =
     (case header_end response of
        Some marker \<Rightarrow> Some (Inr (take marker response, drop marker response))
      | None \<Rightarrow>
          if MAX_HTTP_HEADER_BYTES \<le> length response
          then Some (Inl (WebSocketError ''WebSocket upgrade headers are too large''))
          else
            (case events of
               [] \<Rightarrow> None
             | (now, recv) # events' \<Rightarrow>
                 (case set_remaining_timeout deadline now of
                    Inl e \<Rightarrow> Some (Inl e)
                  | Inr _ \<Rightarrow>
                      (case recv (min 4096 (MAX_HTTP_HEADER_BYTES - length response)) of
                         Blocked \<Rightarrow> Some (Inl (TimeoutError ''timed out''))
                       | RecvFailed e \<Rightarrow> Some (Inl e)
                       | Received chunk \<Rightarrow>
                           if chunk = [] then Some (Inl (WebSocketError ''WebSocket upgrade reached EOF''))
                           else read_http_response deadline events' (response @ chunk)))))"

declare read_http_response.simps [simp del]

section \<open>Validating the response\<close>

fun split_crlf :: "string \<Rightarrow> string list" where
  "split_crlf [] = [[]]"
| "split_crlf [c] = [[c]]"
| "split_crlf (c # d # cs) =
     (if c = CR \<and> d = LF then [] # split_crlf cs
      else (case split_crlf (d # cs) of [] \<Rightarrow> [[c]] | w # ws \<Rightarrow> (c # w) # ws))"

text \<open>\<^verbatim>\<open>str.casefold\<close> on Latin-1: as \<^verbatim>\<open>lower\<close>, except that sharp s becomes two letters.\<close>

definition casefold :: "string \<Rightarrow> string" where
  "casefold s = concat (map (\<lambda>c. if ord_of c = 223 then ''ss'' else [lower_char c]) s)"

text \<open>\<^verbatim>\<open>name, value = line.split(":", 1)\<close>.\<close>

definition split_header :: "string \<Rightarrow> string \<times> string" where
  "split_header line =
     (takeWhile (\<lambda>c. c \<noteq> CHR '':'') line, tl (dropWhile (\<lambda>c. c \<noteq> CHR '':'') line))"

fun parse_headers :: "string list \<Rightarrow> (string \<times> string) list result" where
  "parse_headers [] = Inr []"
| "parse_headers (line # rest) =
     (if line = [] then parse_headers rest
      else if is_space (hd line) \<or> CHR '':'' \<notin> set line
      then Inl (WebSocketError ''malformed WebSocket upgrade header'')
      else
        (case split_header line of (name, v) \<Rightarrow>
           bind_result (parse_headers rest) (\<lambda>hs. Inr ((casefold (strip name), strip v) # hs))))"

definition header_values :: "(string \<times> string) list \<Rightarrow> string \<Rightarrow> string list" where
  "header_values headers name = map snd (filter (\<lambda>h. fst h = name) headers)"

definition header_tokens :: "(string \<times> string) list \<Rightarrow> string \<Rightarrow> string list" where
  "header_tokens headers name =
     concat (map (\<lambda>v. map (\<lambda>token. casefold (strip token))
       (filter (\<lambda>token. strip token \<noteq> []) (split_on (CHR '','') v))) (header_values headers name))"

definition status_accepted :: "string \<Rightarrow> bool" where
  "status_accepted line =
     (case split_on (CHR '' '') line of
        version # code # _ \<Rightarrow> version = ''HTTP/1.1'' \<and> code = ''101''
      | _ \<Rightarrow> False)"

definition validate_upgrade_response ::
    "(string \<Rightarrow> string) \<Rightarrow> string \<Rightarrow> string \<Rightarrow> unit result" where
  "validate_upgrade_response accept_of header key =
     (let lines = split_crlf header
      in if \<not> status_accepted (hd lines) then Inl (WebSocketError ''WebSocket upgrade was rejected'')
         else bind_result (parse_headers (tl lines)) (\<lambda>headers.
           if ''websocket'' \<notin> set (header_tokens headers ''upgrade'')
           then Inl (WebSocketError ''WebSocket upgrade response is missing Upgrade'')
           else if ''upgrade'' \<notin> set (header_tokens headers ''connection'')
           then Inl (WebSocketError ''WebSocket upgrade response is missing Connection'')
           else if header_values headers ''sec-websocket-accept'' \<noteq> [accept_of key]
           then Inl (WebSocketError ''WebSocket upgrade response has an invalid accept key'')
           else if header_values headers ''sec-websocket-extensions'' \<noteq> []
           then Inl (WebSocketError ''WebSocket extensions were not requested'')
           else if header_values headers ''sec-websocket-protocol'' \<noteq> []
           then Inl (WebSocketError ''WebSocket subprotocol was not requested'')
           else Inr ()))"

section \<open>Connecting\<close>

text \<open>
  The answers of the environment to \<^verbatim>\<open>connect\<close>: the clock at each deadline check, the outcome of the TCP
  connection, of the TLS handshake and of the write, the nonce, and the reads of the response.
\<close>

record connect_env =
  ce_start :: rat
  ce_clock :: "nat \<Rightarrow> rat"
  ce_connect :: "unit result"
  ce_wrap :: "unit result"
  ce_sendall :: "unit result"
  ce_key :: string
  ce_events :: "http_event list"

definition latin1 :: "bytes \<Rightarrow> string" where
  "latin1 bs = map (\<lambda>b. char_of (unat b)) bs"

text \<open>The body of the \<^verbatim>\<open>try\<close>; every error of it closes the sockets and is raised again.\<close>

definition upgrade_socket ::
    "(string \<Rightarrow> string) \<Rightarrow> connect_env \<Rightarrow> split_url \<Rightarrow> string \<Rightarrow> nat \<Rightarrow> string \<Rightarrow> rat \<Rightarrow> nat \<Rightarrow> ws_conn result option" where
  "upgrade_socket accept_of env u host port token deadline max_message_bytes =
     (case bind_result (set_remaining_timeout deadline (ce_clock env 0)) (\<lambda>_.
           bind_result (ce_connect env) (\<lambda>_.
           bind_result (if su_scheme u = ''wss''
             then bind_result (set_remaining_timeout deadline (ce_clock env 1)) (\<lambda>_. ce_wrap env)
             else Inr ()) (\<lambda>_.
           bind_result (set_remaining_timeout deadline (ce_clock env 2)) (\<lambda>_.
           bind_result (upgrade_request u host port (ce_key env) token) (\<lambda>_. ce_sendall env))))) of
        Inl e \<Rightarrow> Some (Inl e)
      | Inr _ \<Rightarrow>
          map_option (\<lambda>r. bind_result r (\<lambda>(header, initial_data).
            bind_result (validate_upgrade_response accept_of (latin1 header) (ce_key env)) (\<lambda>_.
            Inr (new_conn initial_data max_message_bytes))))
          (read_http_response deadline (ce_events env) []))"

definition connect ::
    "(string \<Rightarrow> string) \<Rightarrow> connect_env \<Rightarrow> split_url \<Rightarrow> string \<Rightarrow> rat \<Rightarrow> nat \<Rightarrow> ws_conn result option" where
  "connect accept_of env u token connect_timeout_seconds max_message_bytes =
     (case su_hostname u of
        None \<Rightarrow> Some (Inl (WebSocketError ''invalid WebSocket URL''))
      | Some host \<Rightarrow>
          if su_scheme u \<notin> {''ws'', ''wss''} then Some (Inl (WebSocketError ''invalid WebSocket URL''))
          else
            let port = (case su_port u of None \<Rightarrow> default_port u
                                        | Some p \<Rightarrow> if p = 0 then default_port u else p)
            in upgrade_socket accept_of env u host port token
                 (ce_start env + connect_timeout_seconds) max_message_bytes)"

section \<open>Properties\<close>

lemma split_crlf_plain: "CR \<notin> set w \<Longrightarrow> split_crlf w = [w]"
  by (induction w rule: split_crlf.induct) auto

lemma split_crlf_append: "CR \<notin> set w \<Longrightarrow> split_crlf (w @ CR # LF # v) = w # split_crlf v"
proof (induction w rule: split_crlf.induct)
  case (2 c)
  then show ?case by simp
next
  case (3 c d cs)
  then have "split_crlf (d # cs @ CR # LF # v) = (d # cs) # split_crlf v" by auto
  with 3(3) show ?case by auto
qed simp

lemma split_crlf_join:
  "ws \<noteq> [] \<Longrightarrow> list_all (\<lambda>w. CR \<notin> set w) ws \<Longrightarrow> split_crlf (join_with [CR, LF] ws) = ws"
proof (induction ws)
  case (Cons w ws)
  then show ?case
    by (cases "ws = []") (simp_all add: join_with_Cons split_crlf_plain split_crlf_append)
qed simp

lemma nat_digits_plain: "c \<in> set (nat_digits n) \<Longrightarrow> ord_of c \<in> {48..57}"
  by (induction n rule: nat_digits.induct) (subst (asm) (2) nat_digits.simps, auto simp: ord_of_def split: if_splits)

text \<open>No header can be injected into the upgrade request: whenever a request is built, splitting it at
  CRLF gives exactly the eight intended header lines and the empty line that ends them, if the host,
  the nonce and the token hold no carriage return (the request target is checked by the code itself).\<close>
theorem upgrade_request_lines:
  assumes "upgrade_request u host port key token = Inr request"
    and "CR \<notin> set host" "CR \<notin> set key" "CR \<notin> set token"
  shows "split_crlf request = request_lines u host port key token"
proof -
  have target: "CR \<notin> set (request_target u)"
    and request: "request = join_with [CR, LF] (request_lines u host port key token)"
    using assms(1) by (auto simp: upgrade_request_def Let_def split: if_splits)
  have "CR \<notin> set (nat_digits port)"
    using nat_digits_plain [of CR port] by (auto simp: CR_def ord_of_def)
  then have "CR \<notin> set (host_header u host port)"
    using assms(2) by (auto simp: host_header_def Let_def CR_def)
  then have "list_all (\<lambda>w. CR \<notin> set w) (request_lines u host port key token)"
    using target assms(3,4) by (auto simp: request_lines_def CR_def)
  then show ?thesis
    unfolding request by (intro split_crlf_join) (simp_all add: request_lines_def)
qed

definition sample_url :: split_url where
  "sample_url = \<lparr>su_scheme = ''ws'', su_hostname = Some ''hub'', su_port = Some 8787,
     su_path = ''/realtime'', su_query = []\<rparr>"

theorem upgrade_request_lines_witness:
  "\<exists>request. upgrade_request sample_url ''hub'' 8787 ''a2V5'' ''secret'' = Inr request \<and>
     split_crlf request = request_lines sample_url ''hub'' 8787 ''a2V5'' ''secret''"
proof -
  obtain request where r: "upgrade_request sample_url ''hub'' 8787 ''a2V5'' ''secret'' = Inr request"
    by (simp add: upgrade_request_def request_target_def request_lines_def host_header_def sample_url_def
        default_port_def nat_digits.simps is_ascii_def CR_def LF_def Let_def ord_of_def)
  then have "split_crlf request = request_lines sample_url ''hub'' 8787 ''a2V5'' ''secret''"
    by (rule upgrade_request_lines) (simp_all add: CR_def)
  with r show ?thesis by blast
qed

lemma header_end_ok:
  "header_end bs = Some k \<Longrightarrow>
   k \<le> length bs \<and> 4 \<le> k \<and> header_end (take k bs) = Some k \<and> take 4 (drop (k - 4) bs) = [13, 10, 13, 10]"
proof (induction bs arbitrary: k)
  case (Cons b bs)
  show ?case
  proof (cases "take 4 (b # bs) = [13, 10, 13, 10]")
    case True
    moreover have "4 \<le> length (b # bs)" using arg_cong [OF True, of length] by simp
    moreover have "k = 4" using True Cons.prems by simp
    ultimately show ?thesis by (cases bs) (simp_all add: min_def)
  next
    case False
    then obtain j where j: "header_end bs = Some j" "k = Suc j" using Cons.prems by auto
    have ih: "j \<le> length bs" "4 \<le> j" "header_end (take j bs) = Some j"
      "take 4 (drop (j - 4) bs) = [13, 10, 13, 10]"
      using Cons.IH [OF j(1)] by auto
    have t: "take 4 (b # take j bs) = take 4 (b # bs)" using ih(2) by (simp add: min_absorb1)
    have "header_end (b # take j bs) = Some k"
      using ih(3) j(2) unfolding header_end.simps t if_not_P [OF False] by simp
    moreover have "k - 4 = Suc (j - 4)" using ih(2) j(2) by linarith
    ultimately show ?thesis using ih j by (simp del: header_end.simps)
  qed
qed simp

definition honest_events :: "http_event list \<Rightarrow> bool" where
  "honest_events es \<longleftrightarrow> (\<forall>(now, recv) \<in> set es. \<forall>n chunk. recv n = Received chunk \<longrightarrow> length chunk \<le> n)"

lemma read_http_ok:
  assumes "read_http_response deadline es response = Some (Inr (header, rest))"
    and "honest_events es" "length response \<le> MAX_HTTP_HEADER_BYTES"
  shows "length (header @ rest) \<le> MAX_HTTP_HEADER_BYTES \<and> header_end header = Some (length header)"
  using assms
proof (induction es arbitrary: response)
  case Nil
  then show ?case
    using header_end_ok [of response]
    by (subst (asm) read_http_response.simps) (auto split: option.splits if_splits)
next
  case (Cons ev es)
  obtain now recv where ev: "ev = (now, recv)" by (cases ev)
  show ?case
  proof (cases "header_end response")
    case (Some marker)
    then show ?thesis
      using Cons.prems header_end_ok [of response]
      by (subst (asm) read_http_response.simps) auto
  next
    case None
    then obtain chunk where
      chunk: "recv (min 4096 (MAX_HTTP_HEADER_BYTES - length response)) = Received chunk"
      and cont: "read_http_response deadline es (response @ chunk) = Some (Inr (header, rest))"
      using Cons.prems(1) unfolding ev
      by (subst (asm) (2) read_http_response.simps)
        (auto split: option.splits if_splits sum.splits recv_outcome.splits)
    have "length chunk \<le> min 4096 (MAX_HTTP_HEADER_BYTES - length response)"
      using Cons.prems(2) chunk unfolding honest_events_def ev by fastforce
    then show ?thesis
      using Cons.prems(2,3) by (intro Cons.IH [OF cont]) (auto simp: honest_events_def)
  qed
qed

lemma upgrade_socket_ok:
  assumes "upgrade_socket accept_of env u host port token deadline maximum = Some (Inr c)"
  shows "\<exists>header rest. read_http_response deadline (ce_events env) [] = Some (Inr (header, rest)) \<and>
    validate_upgrade_response accept_of (latin1 header) (ce_key env) = Inr () \<and> c = new_conn rest maximum \<and>
    (\<exists>request. upgrade_request u host port (ce_key env) token = Inr request)"
  using assms
  by (auto simp: upgrade_socket_def bind_result_def split: sum.splits if_splits)

text \<open>\<^verbatim>\<open>connect\<close> hands over only a connection that satisfies the transport's invariant: its URL was
  \<^verbatim>\<open>ws\<close> or \<^verbatim>\<open>wss\<close> with a host, the response headers ended within 16 KiB at the first empty line and passed
  validation with the accept key of the nonce that was sent, and the bytes read past the headers are the
  initial data, so every later state of the connection is a reachable one.\<close>
theorem connect_establishes_invariant:
  assumes "connect accept_of env u token timeout maximum = Some (Inr c)" "honest_events (ce_events env)"
  shows "ws_reachable c \<and> ws_inv c \<and> su_scheme u \<in> {''ws'', ''wss''} \<and> su_hostname u \<noteq> None \<and>
    (\<exists>header. header_end header = Some (length header) \<and> length header \<le> 16384 \<and>
       validate_upgrade_response accept_of (latin1 header) (ce_key env) = Inr () \<and>
       read_http_response (ce_start env + timeout) (ce_events env) [] = Some (Inr (header, ws_buffer c)))"
proof -
  obtain host port where s: "su_hostname u = Some host" "su_scheme u \<in> {''ws'', ''wss''}"
    and up: "upgrade_socket accept_of env u host port token (ce_start env + timeout) maximum = Some (Inr c)"
    using assms(1) by (auto simp: connect_def Let_def split: option.splits if_splits)
  obtain header rest where r: "read_http_response (ce_start env + timeout) (ce_events env) [] = Some (Inr (header, rest))"
    and v: "validate_upgrade_response accept_of (latin1 header) (ce_key env) = Inr ()"
    and c: "c = new_conn rest maximum"
    using upgrade_socket_ok [OF up] by blast
  have ok: "length (header @ rest) \<le> MAX_HTTP_HEADER_BYTES" "header_end header = Some (length header)"
    using read_http_ok [OF r assms(2)] by simp_all
  have "ws_reachable c" unfolding c by (rule ws_reachable.connected) (use ok(1) in simp)
  moreover have "ws_inv c" by (rule ws_reachable_inv) fact
  moreover have "ws_buffer c = rest" by (simp add: c new_conn_def)
  ultimately show ?thesis using s r v ok by (auto simp: MAX_HTTP_HEADER_BYTES_def)
qed

definition sample_response :: bytes where
  "sample_response = map (\<lambda>c. of_nat (of_char c))
    (''HTTP/1.1 101 OK'' @ [CR, LF] @ ''Upgrade: websocket'' @ [CR, LF] @ ''Connection: Upgrade'' @ [CR, LF]
     @ ''Sec-WebSocket-Accept: k'' @ [CR, LF, CR, LF])"

definition sample_env :: connect_env where
  "sample_env = \<lparr>ce_start = 0, ce_clock = (\<lambda>_. 1), ce_connect = Inr (), ce_wrap = Inr (), ce_sendall = Inr (),
     ce_key = ''n'', ce_events = [(1, \<lambda>n. Received (take n sample_response))]\<rparr>"

lemma sample_validates: "validate_upgrade_response (\<lambda>_. ''k'') (latin1 sample_response) ''n'' = Inr ()"
  by code_simp

lemma sample_reads:
  "read_http_response 10 [(1, \<lambda>n. Received (take n sample_response))] [] = Some (Inr (sample_response, []))"
  by code_simp

lemma sample_requests: "\<exists>request. upgrade_request sample_url ''hub'' 8787 ''n'' ''secret'' = Inr request"
  by (simp add: upgrade_request_def request_target_def request_lines_def host_header_def sample_url_def
      default_port_def nat_digits.simps is_ascii_def CR_def LF_def Let_def ord_of_def)

lemma sample_connects:
  "connect (\<lambda>_. ''k'') sample_env sample_url ''secret'' 10 4096 = Some (Inr (new_conn [] 4096))"
proof -
  obtain request where "upgrade_request sample_url ''hub'' 8787 ''n'' ''secret'' = Inr request"
    using sample_requests by blast
  then show ?thesis
    using sample_validates sample_reads
    by (simp add: connect_def upgrade_socket_def sample_env_def sample_url_def set_remaining_timeout_def
        raise_if_def bind_result_def)
qed

theorem connect_establishes_invariant_witness:
  "ws_reachable (new_conn [] 4096) \<and>
   connect (\<lambda>_. ''k'') sample_env sample_url ''secret'' 10 4096 = Some (Inr (new_conn [] 4096))"
  using connect_establishes_invariant [OF sample_connects] sample_connects
  by (auto simp: honest_events_def sample_env_def)

end
