(* ===== verification/Device_Config.thy ===== *)
theory Device_Config
  imports WebSocket_Upgrade Wire Float64
begin

text \<open>
  The settings of the device client, \<^verbatim>\<open>device/thirdreality/realtime_client/config.py\<close>: the checks
  of the \<^verbatim>\<open>RealtimeConfig\<close> constructor, the field validators, the loader of the root-only JSON file and
  the start message. \<^verbatim>\<open>json.loads\<close>, \<^verbatim>\<open>urlsplit\<close>, \<^verbatim>\<open>ipaddress\<close> and the file system are
  parameters. Floats are the rationals of \<^verbatim>\<open>Float64\<close>.
\<close>

section \<open>Constants\<close>

definition MAX_CONFIG_BYTES :: nat where "MAX_CONFIG_BYTES = 16 * 1024"
definition MAX_PROMPT_CHARACTERS :: nat where "MAX_PROMPT_CHARACTERS = 1024"
definition RECORDER_FRAME_BYTES :: int where "RECORDER_FRAME_BYTES = 2048"
definition NORMAL_WAKE_PHRASE :: string where "NORMAL_WAKE_PHRASE = ''okay nabu''"
definition DEFAULT_PULSE_AEC_METHOD :: string where "DEFAULT_PULSE_AEC_METHOD = ''webrtc''"
definition DEFAULT_AEC_SINK_VOLUME_CEILING_PERCENT :: int where
  "DEFAULT_AEC_SINK_VOLUME_CEILING_PERCENT = 25"
definition DEFAULT_PLAYBACK_VOLUME_PERCENT :: int where "DEFAULT_PLAYBACK_VOLUME_PERCENT = 25"
definition MAX_REALTIME_VOLUME_PERCENT :: int where "MAX_REALTIME_VOLUME_PERCENT = 60"
definition DEFAULT_AEC_TEST_VOLUME_PERCENT :: int where
  "DEFAULT_AEC_TEST_VOLUME_PERCENT = DEFAULT_AEC_SINK_VOLUME_CEILING_PERCENT"

definition SUPPORTED_PULSE_AEC_METHODS :: "string list" where
  "SUPPORTED_PULSE_AEC_METHODS = [''adrian'', ''speex'', ''webrtc'']"

definition ALLOWED_KEYS :: "string list" where
  "ALLOWED_KEYS =
     [''enabled'', ''url'', ''connect_address'', ''token'', ''wake_phrase'', ''voice'', ''prompt'',
      ''connect_timeout_seconds'', ''handshake_timeout_seconds'', ''io_timeout_seconds'',
      ''idle_timeout_seconds'', ''max_session_seconds'', ''ping_interval_seconds'',
      ''pong_timeout_seconds'', ''input_queue_bytes'', ''fallback_buffer_bytes'', ''output_queue_bytes'',
      ''max_message_bytes'', ''full_duplex'', ''pulse_aec_source'', ''pulse_aec_sink'', ''pulse_aec_method'',
      ''aec_test_volume_percent'', ''aec_sink_volume_ceiling_percent'', ''playback_volume_percent'']"

lemmas config_constants =
  MAX_CONFIG_BYTES_def MAX_PROMPT_CHARACTERS_def RECORDER_FRAME_BYTES_def NORMAL_WAKE_PHRASE_def
  DEFAULT_PULSE_AEC_METHOD_def DEFAULT_AEC_SINK_VOLUME_CEILING_PERCENT_def
  DEFAULT_PLAYBACK_VOLUME_PERCENT_def MAX_REALTIME_VOLUME_PERCENT_def
  DEFAULT_AEC_TEST_VOLUME_PERCENT_def SUPPORTED_PULSE_AEC_METHODS_def

text \<open>The regular expressions \<^verbatim>\<open>[A-Za-z][A-Za-z0-9_-]{0,63}\<close> and \<^verbatim>\<open>[A-Za-z][A-Za-z0-9._]{0,127}\<close>.\<close>

definition voice_name :: "string \<Rightarrow> bool" where
  "voice_name s =
     (case s of [] \<Rightarrow> False
      | c # cs \<Rightarrow> is_alpha_ascii c \<and> length cs \<le> 63 \<and>
          list_all (\<lambda>x. is_alnum_ascii x \<or> x = CHR ''_'' \<or> x = CHR ''-'') cs)"

definition pulse_object_name :: "string \<Rightarrow> bool" where
  "pulse_object_name s =
     (case s of [] \<Rightarrow> False
      | c # cs \<Rightarrow> is_alpha_ascii c \<and> length cs \<le> 127 \<and>
          list_all (\<lambda>x. is_alnum_ascii x \<or> x = CHR ''.'' \<or> x = CHR ''_'') cs)"

section \<open>The settings\<close>

record config_base =
  cf_url :: string
  cf_connect_address :: string
  cf_token :: string
  cf_wake_phrase :: string
  cf_connect_timeout_seconds :: rat
  cf_handshake_timeout_seconds :: rat
  cf_io_timeout_seconds :: rat
  cf_idle_timeout_seconds :: rat
  cf_max_session_seconds :: rat
  cf_ping_interval_seconds :: rat
  cf_pong_timeout_seconds :: rat
  cf_input_queue_bytes :: int
  cf_fallback_buffer_bytes :: int
  cf_output_queue_bytes :: int
  cf_max_message_bytes :: int
  cf_voice :: "string option"
  cf_prompt :: "string option"

record realtime_config = config_base +
  cf_full_duplex :: bool
  cf_pulse_aec_source :: "string option"
  cf_pulse_aec_sink :: "string option"
  cf_pulse_aec_method :: "string option"
  cf_aec_test_volume_percent :: int
  cf_aec_sink_volume_ceiling_percent :: int
  cf_playback_volume_percent :: int

text \<open>The arguments the constructor checks, as it receives them; \<open>None\<close> is the private sentinel.\<close>

record config_args =
  ca_full_duplex :: json
  ca_pulse_aec_source :: json
  ca_pulse_aec_sink :: json
  ca_pulse_aec_method :: json
  ca_aec_test_volume_percent :: json
  ca_aec_sink_volume_ceiling_percent :: "json option"
  ca_playback_volume_percent :: "json option"

definition volume_percent :: "string \<Rightarrow> json \<Rightarrow> int result" where
  "volume_percent key v =
     (case strict_int_of v of
        Some n \<Rightarrow>
          if 1 \<le> n \<and> n \<le> MAX_REALTIME_VOLUME_PERCENT then Inr n
          else Inl (ConfigError (key @ '' must be an integer from 1 through 60''))
      | None \<Rightarrow> Inl (ConfigError (key @ '' must be an integer from 1 through 60'')))"

definition effective_volumes :: "config_args \<Rightarrow> int \<Rightarrow> json \<times> json" where
  "effective_volumes a legacy =
     (case (ca_aec_sink_volume_ceiling_percent a, ca_playback_volume_percent a) of
        (None, None) \<Rightarrow> (JInt legacy, JInt legacy)
      | (sink, playback) \<Rightarrow>
          if legacy \<noteq> DEFAULT_AEC_TEST_VOLUME_PERCENT then (JInt legacy, JInt legacy)
          else
            ((case sink of None \<Rightarrow> JInt DEFAULT_AEC_SINK_VOLUME_CEILING_PERCENT | Some v \<Rightarrow> v),
             (case playback of None \<Rightarrow> JInt DEFAULT_PLAYBACK_VOLUME_PERCENT | Some v \<Rightarrow> v)))"

definition checked_volumes :: "config_args \<Rightarrow> (int \<times> int) result" where
  "checked_volumes a =
     bind_result (volume_percent ''aec_test_volume_percent'' (ca_aec_test_volume_percent a)) (\<lambda>legacy.
     case effective_volumes a legacy of (sink_value, playback_value) \<Rightarrow>
     bind_result (volume_percent ''aec_sink_volume_ceiling_percent'' sink_value) (\<lambda>sink.
     bind_result (volume_percent ''playback_volume_percent'' playback_value) (\<lambda>playback.
     if sink < playback
     then Inl (ConfigError ''playback_volume_percent must not exceed aec_sink_volume_ceiling_percent'')
     else Inr (sink, playback))))"

definition pulse_name :: "string \<Rightarrow> json \<Rightarrow> string option result" where
  "pulse_name key candidate =
     (if is_none candidate then Inr None
      else (case text_of candidate of
              Some s \<Rightarrow>
                if pulse_object_name s then Inr (Some s)
                else Inl (ConfigError (key @ '' must be a safe PulseAudio object name''))
            | None \<Rightarrow> Inl (ConfigError (key @ '' must be a safe PulseAudio object name''))))"

definition pulse_method_error :: py_error where
  "pulse_method_error =
     ConfigError (''pulse_aec_method must be '' @ quoted ''adrian'' @ '', '' @ quoted ''speex'' @ '', or ''
       @ quoted ''webrtc'')"

definition pulse_method :: "json \<Rightarrow> string option result" where
  "pulse_method candidate =
     (if is_none candidate then Inr None
      else (case text_of candidate of
              Some s \<Rightarrow>
                if s \<in> set SUPPORTED_PULSE_AEC_METHODS then Inr (Some s) else Inl pulse_method_error
            | None \<Rightarrow> Inl pulse_method_error))"

text \<open>The consistency of the routing with \<^verbatim>\<open>full_duplex\<close>; it yields the effective method.\<close>

definition aec_routing ::
    "bool \<Rightarrow> string option \<Rightarrow> string option \<Rightarrow> string option \<Rightarrow> string option result" where
  "aec_routing full_duplex source sink method =
     (if full_duplex then
        if source = None \<or> sink = None
        then Inl (ConfigError ''full_duplex requires explicit pulse_aec_source and pulse_aec_sink'')
        else Inr (Some (case method of None \<Rightarrow> DEFAULT_PULSE_AEC_METHOD | Some m \<Rightarrow> m))
      else if source \<noteq> None \<or> sink \<noteq> None \<or> method \<noteq> None
      then Inl (ConfigError ''PulseAudio AEC routing requires full_duplex'')
      else Inr None)"

definition post_init :: "config_base \<Rightarrow> config_args \<Rightarrow> realtime_config result" where
  "post_init base a =
     (case bool_of (ca_full_duplex a) of
        None \<Rightarrow> Inl (ConfigError ''full_duplex must be a boolean'')
      | Some full_duplex \<Rightarrow>
          bind_result (checked_volumes a) (\<lambda>(ceiling, playback).
          bind_result (pulse_name ''pulse_aec_source'' (ca_pulse_aec_source a)) (\<lambda>source.
          bind_result (pulse_name ''pulse_aec_sink'' (ca_pulse_aec_sink a)) (\<lambda>sink.
          bind_result (pulse_method (ca_pulse_aec_method a)) (\<lambda>method.
          bind_result (aec_routing full_duplex source sink method) (\<lambda>effective.
          Inr (config_base.extend base
                 (realtime_config.fields full_duplex source sink effective playback ceiling playback))))))))"

definition normalize_wake_phrase :: "string \<Rightarrow> string" where
  "normalize_wake_phrase v = join_with '' '' (split_space (casefold v))"

definition realtime_start_message :: "realtime_config \<Rightarrow> obj" where
  "realtime_start_message c =
     [(''type'', JStr ''start''), (''protocol_version'', JInt 2), (''conversation_mode'', JStr ''native''),
      (''audio_transport'', JStr ''binary''), (''input_sample_rate'', JInt 16000),
      (''input_channels'', JInt 1)]
     @ (case cf_voice c of None \<Rightarrow> [] | Some v \<Rightarrow> [(''voice'', JStr v)])
     @ (case cf_prompt c of None \<Rightarrow> [] | Some p \<Rightarrow> [(''prompt'', JStr p)])"

section \<open>Field validators\<close>

definition required_text :: "obj \<Rightarrow> string \<Rightarrow> nat \<Rightarrow> string result" where
  "required_text v key maximum =
     (case text_of (jget v key) of
        None \<Rightarrow> Inl (ConfigError (key @ '' must be a non-empty bounded string''))
      | Some s \<Rightarrow>
          if s = [] \<or> maximum < length s
          then Inl (ConfigError (key @ '' must be a non-empty bounded string''))
          else Inr s)"

definition optional_voice :: "obj \<Rightarrow> string option result" where
  "optional_voice v =
     (if \<not> has_key v ''voice'' then Inr None
      else (case text_of (jget v ''voice'') of
              Some s \<Rightarrow>
                if voice_name s then Inr (Some (lower s))
                else Inl (ConfigError ''voice must be an ASCII name of 1 through 64 safe characters'')
            | None \<Rightarrow> Inl (ConfigError ''voice must be an ASCII name of 1 through 64 safe characters'')))"

definition optional_prompt :: "obj \<Rightarrow> string option result" where
  "optional_prompt v =
     (if \<not> has_key v ''prompt'' then Inr None
      else (case text_of (jget v ''prompt'') of
              None \<Rightarrow> Inl (ConfigError ''prompt must be non-empty text up to 1024 characters'')
            | Some s \<Rightarrow>
                if strip s = [] \<or> MAX_PROMPT_CHARACTERS < length s
                then Inl (ConfigError ''prompt must be non-empty text up to 1024 characters'')
                else if list_ex (\<lambda>c. \<not> is_printable c) s
                then Inl (ConfigError ''prompt must not contain control characters'')
                else Inr (Some s)))"

definition optional_pulse_name :: "obj \<Rightarrow> string \<Rightarrow> string option result" where
  "optional_pulse_name v key =
     (if \<not> has_key v key then Inr None
      else (case text_of (jget v key) of
              Some s \<Rightarrow>
                if pulse_object_name s then Inr (Some s)
                else Inl (ConfigError (key @ '' must be a safe PulseAudio object name''))
            | None \<Rightarrow> Inl (ConfigError (key @ '' must be a safe PulseAudio object name''))))"

definition optional_pulse_aec_method :: "obj \<Rightarrow> string option result" where
  "optional_pulse_aec_method v =
     (if \<not> has_key v ''pulse_aec_method'' then Inr None
      else (case text_of (jget v ''pulse_aec_method'') of
              Some s \<Rightarrow>
                if s \<in> set SUPPORTED_PULSE_AEC_METHODS then Inr (Some s) else Inl pulse_method_error
            | None \<Rightarrow> Inl pulse_method_error))"

text \<open>\<^verbatim>\<open>float(n)\<close> of an integer: rounded, or an \<^verbatim>\<open>OverflowError\<close> beyond the binary64 range.\<close>

definition float_of_int :: "int \<Rightarrow> rat result" where
  "float_of_int n =
     (if \<bar>n\<bar> < 2 ^ 1024 - 2 ^ 970 then Inr (fl (of_int n))
      else Inl (OverflowError ''int too large to convert to float''))"

definition in_range :: "string \<Rightarrow> rat \<Rightarrow> rat \<Rightarrow> rat \<Rightarrow> rat result" where
  "in_range key minimum maximum x =
     (if minimum \<le> x \<and> x \<le> maximum then Inr x
      else Inl (ConfigError (key @ '' is outside its supported range'')))"

definition bounded_float :: "obj \<Rightarrow> string \<Rightarrow> rat \<Rightarrow> rat \<Rightarrow> rat \<Rightarrow> rat result" where
  "bounded_float v key dflt minimum maximum =
     (case jget_default v key (JFloat (Finite dflt)) of
        JInt n \<Rightarrow> bind_result (float_of_int n) (in_range key minimum maximum)
      | JFloat (Finite x) \<Rightarrow> in_range key minimum maximum x
      | JFloat _ \<Rightarrow> Inl (ConfigError (key @ '' is outside its supported range''))
      | _ \<Rightarrow> Inl (ConfigError (key @ '' must be a number'')))"

definition bounded_int :: "obj \<Rightarrow> string \<Rightarrow> int \<Rightarrow> int \<Rightarrow> int \<Rightarrow> int result" where
  "bounded_int v key dflt minimum maximum =
     (case strict_int_of (jget_default v key (JInt dflt)) of
        None \<Rightarrow> Inl (ConfigError (key @ '' must be an integer''))
      | Some n \<Rightarrow>
          if minimum \<le> n \<and> n \<le> maximum then Inr n
          else Inl (ConfigError (key @ '' is outside its supported range'')))"

record parsed_url = split_url +
  pu_username :: "string option"
  pu_password :: "string option"
  pu_fragment :: string
  pu_port_valid :: bool
  pu_geturl :: string

definition validated_url :: "(string \<Rightarrow> parsed_url result) \<Rightarrow> string \<Rightarrow> parsed_url result" where
  "validated_url urlsplit v =
     bind_result (urlsplit v) (\<lambda>u.
     if su_scheme u \<notin> {''ws'', ''wss''} then Inl (ConfigError ''url must use ws or wss'')
     else if pu_username u \<noteq> None \<or> pu_password u \<noteq> None
     then Inl (ConfigError ''url must not contain user information'')
     else if su_hostname u = None then Inl (ConfigError ''url must contain a host'')
     else if pu_fragment u \<noteq> [] then Inl (ConfigError ''url must not contain a fragment'')
     else
       let target = request_target (split_url.truncate u)
       in if CR \<in> set target \<or> LF \<in> set target
          then Inl (ConfigError ''url contains an invalid request target'')
          else if \<not> is_ascii target
          then Inl (ConfigError ''url request target must be ASCII encoded'')
          else if \<not> pu_port_valid u then Inl (ConfigError ''url contains an invalid port'')
          else Inr u)"

section \<open>The file\<close>

text \<open>What the file system answers; \<open>read_at n k\<close> is the \<open>n\<close>-th \<^verbatim>\<open>os.read\<close> of at most \<open>k\<close> bytes.\<close>

datatype open_outcome = FileMissing | OpenFailed | Opened

record config_file =
  fi_absolute :: bool
  fi_open :: open_outcome
  fi_mode :: nat
  fi_uid :: nat
  fi_size :: nat
  fi_read :: "nat \<Rightarrow> nat \<Rightarrow> bytes"

function read_chunks :: "(nat \<Rightarrow> nat \<Rightarrow> bytes) \<Rightarrow> nat \<Rightarrow> nat \<Rightarrow> bytes \<Rightarrow> bytes" where
  "read_chunks read_at i remaining raw =
     (if remaining = 0 then raw
      else
        let chunk = read_at i (min remaining 4096)
        in if chunk = [] then raw
           else read_chunks read_at (Suc i) (remaining - length chunk) (raw @ chunk))"
  by pat_completeness auto
termination
  by (relation "measure (\<lambda>(_, _, remaining, _). remaining)") (auto simp: Let_def)

declare read_chunks.simps [simp del]

definition is_regular :: "nat \<Rightarrow> bool" where
  "is_regular mode \<longleftrightarrow> mode AND 0xF000 = 0x8000"

definition shared_bits :: "nat \<Rightarrow> nat" where
  "shared_bits mode = (mode AND 0xFFF) AND 0x3F"

definition read_secure_file :: "config_file \<Rightarrow> nat \<Rightarrow> bytes result" where
  "read_secure_file f expected_uid =
     (if \<not> fi_absolute f then Inl (ConfigError ''realtime config path must be absolute'')
      else
        (case fi_open f of
           FileMissing \<Rightarrow> Inl (OSError ''FileNotFoundError'')
         | OpenFailed \<Rightarrow> Inl (ConfigError ''realtime config could not be opened safely'')
         | Opened \<Rightarrow>
             if \<not> is_regular (fi_mode f) then Inl (ConfigError ''realtime config must be a regular file'')
             else if fi_uid f \<noteq> expected_uid
             then Inl (ConfigError ''realtime config must be owned by root'')
             else if shared_bits (fi_mode f) \<noteq> 0
             then Inl (ConfigError ''realtime config must not be accessible by group or other'')
             else if MAX_CONFIG_BYTES < fi_size f then Inl (ConfigError ''realtime config is too large'')
             else
               let raw = read_chunks (fi_read f) 0 (MAX_CONFIG_BYTES + 1) []
               in if MAX_CONFIG_BYTES < length raw
                  then Inl (ConfigError ''realtime config is too large'') else Inr raw))"

section \<open>The loader\<close>

text \<open>The pieces of \<^verbatim>\<open>load_config\<close>, in the order of the code.\<close>

definition config_object :: "(bytes \<Rightarrow> json option) \<Rightarrow> bytes \<Rightarrow> obj result" where
  "config_object loads raw =
     (case loads raw of
        None \<Rightarrow> Inl (ConfigError ''realtime config must be valid UTF-8 JSON'')
      | Some decoded \<Rightarrow>
          (case obj_of decoded of
             None \<Rightarrow> Inl (ConfigError ''realtime config must be a JSON object'')
           | Some v \<Rightarrow>
               if list_ex (\<lambda>k. k \<notin> set ALLOWED_KEYS) (keys_of v)
               then Inl (ConfigError ''realtime config contains unsupported settings'')
               else Inr v))"

definition config_address :: "(string \<Rightarrow> string option) \<Rightarrow> obj \<Rightarrow> parsed_url \<Rightarrow> string result" where
  "config_address ip_address v u =
     (let dflt = (case su_hostname u of None \<Rightarrow> JNull | Some h \<Rightarrow> JStr h)
      in case text_of (jget_default v ''connect_address'' dflt) of
           None \<Rightarrow> Inl (ConfigError ''connect_address must be a numeric IP address'')
         | Some address \<Rightarrow>
             if address = [] then Inl (ConfigError ''connect_address must be a numeric IP address'')
             else (case ip_address address of
                     None \<Rightarrow> Inl (ConfigError ''connect_address must be a numeric IP address'')
                   | Some normalized \<Rightarrow> Inr normalized))"

definition config_token :: "obj \<Rightarrow> string result" where
  "config_token v =
     bind_result (required_text v ''token'' 4096) (\<lambda>token.
     if list_ex (\<lambda>c. ord_of c < 32 \<or> ord_of c = 127) token
     then Inl (ConfigError ''token must not contain control characters'')
     else if \<not> is_ascii token then Inl (ConfigError ''token must contain only ASCII characters'')
     else Inr token)"

definition config_wake_phrase :: "obj \<Rightarrow> string result" where
  "config_wake_phrase v =
     bind_result (required_text v ''wake_phrase'' 64) (\<lambda>given.
     let wake_phrase = normalize_wake_phrase given
     in if wake_phrase = [] \<or> wake_phrase = NORMAL_WAKE_PHRASE
        then Inl (ConfigError ''wake_phrase must be distinct from the normal wake phrase'')
        else if list_ex (\<lambda>c. \<not> is_printable c) wake_phrase
        then Inl (ConfigError ''wake_phrase must contain only printable characters'')
        else Inr wake_phrase)"

definition config_queues :: "obj \<Rightarrow> (int \<times> int \<times> int) result" where
  "config_queues v =
     bind_result (bounded_int v ''input_queue_bytes'' (64 * 1024) (32 * 1024) (64 * 1024)) (\<lambda>input_queue.
     bind_result (bounded_int v ''fallback_buffer_bytes'' (64 * 1024) (16 * 1024) (64 * 1024)) (\<lambda>fallback.
     if input_queue < fallback
     then Inl (ConfigError ''fallback_buffer_bytes must not exceed input_queue_bytes'')
     else
       bind_result (bounded_int v ''max_message_bytes'' (64 * 1024) RECORDER_FRAME_BYTES (64 * 1024)) (\<lambda>message.
       if message mod 2 \<noteq> 0 then Inl (ConfigError ''max_message_bytes must be PCM16 aligned'')
       else Inr (input_queue, fallback, message))))"

definition config_volumes :: "obj \<Rightarrow> (int \<times> int) result" where
  "config_volumes v =
     (let legacy = has_key v ''aec_test_volume_percent'';
          explicit = has_key v ''aec_sink_volume_ceiling_percent'' \<or> has_key v ''playback_volume_percent''
      in if legacy \<and> explicit
         then Inl (ConfigError
           ''aec_test_volume_percent cannot be combined with the explicit volume settings'')
         else if legacy then
           bind_result (bounded_int v ''aec_test_volume_percent'' DEFAULT_AEC_TEST_VOLUME_PERCENT 1
             MAX_REALTIME_VOLUME_PERCENT) (\<lambda>n. Inr (n, n))
         else
           bind_result (bounded_int v ''aec_sink_volume_ceiling_percent''
             DEFAULT_AEC_SINK_VOLUME_CEILING_PERCENT 1 MAX_REALTIME_VOLUME_PERCENT) (\<lambda>ceiling.
           bind_result (bounded_int v ''playback_volume_percent''
             DEFAULT_PLAYBACK_VOLUME_PERCENT 1 MAX_REALTIME_VOLUME_PERCENT) (\<lambda>playback.
           Inr (ceiling, playback))))"

record config_timeouts =
  ct_connect :: rat
  ct_handshake :: rat
  ct_io :: rat
  ct_idle :: rat
  ct_session :: rat
  ct_ping :: rat
  ct_pong :: rat

definition config_timeouts :: "obj \<Rightarrow> config_timeouts result" where
  "config_timeouts v =
     bind_result (bounded_float v ''connect_timeout_seconds'' 5 (1 / 2) 15) (\<lambda>connect.
     bind_result (bounded_float v ''handshake_timeout_seconds'' 20 1 30) (\<lambda>handshake.
     bind_result (bounded_float v ''io_timeout_seconds'' 1 (1 / 2) 3) (\<lambda>io.
     bind_result (bounded_float v ''idle_timeout_seconds'' 45 5 120) (\<lambda>idle.
     bind_result (bounded_float v ''max_session_seconds'' 300 15 900) (\<lambda>session.
     bind_result (bounded_float v ''ping_interval_seconds'' 15 5 60) (\<lambda>ping.
     bind_result (bounded_float v ''pong_timeout_seconds'' 5 1 15) (\<lambda>pong.
     Inr \<lparr>ct_connect = connect, ct_handshake = handshake, ct_io = io, ct_idle = idle,
          ct_session = session, ct_ping = ping, ct_pong = pong\<rparr>)))))))"

definition validate_start_message_size ::
    "(pyfloat \<Rightarrow> string) \<Rightarrow> realtime_config \<Rightarrow> unit result" where
  "validate_start_message_size frepr c =
     raise_if (cf_max_message_bytes c < int (length (text_bytes (dumps frepr (JObj (realtime_start_message c))))))
       (ConfigError ''voice and prompt do not fit within max_message_bytes'')"

definition opt_json :: "string option \<Rightarrow> json" where
  "opt_json s = (case s of None \<Rightarrow> JNull | Some x \<Rightarrow> JStr x)"

definition enabled_config ::
    "(pyfloat \<Rightarrow> string) \<Rightarrow> (string \<Rightarrow> parsed_url result) \<Rightarrow> (string \<Rightarrow> string option) \<Rightarrow> obj \<Rightarrow>
     realtime_config result" where
  "enabled_config frepr urlsplit ip_address v =
     bind_result (required_text v ''url'' 2048) (\<lambda>url.
     bind_result (validated_url urlsplit url) (\<lambda>parsed.
     bind_result (config_address ip_address v parsed) (\<lambda>address.
     bind_result (config_token v) (\<lambda>token.
     bind_result (config_wake_phrase v) (\<lambda>wake_phrase.
     bind_result (config_queues v) (\<lambda>(input_queue, fallback, message).
     bind_result (optional_voice v) (\<lambda>voice.
     bind_result (optional_prompt v) (\<lambda>prompt.
     case bool_of (jget_default v ''full_duplex'' (JBool False)) of
       None \<Rightarrow> Inl (ConfigError ''full_duplex must be a boolean'')
     | Some full_duplex \<Rightarrow>
     bind_result (optional_pulse_name v ''pulse_aec_source'') (\<lambda>source.
     bind_result (optional_pulse_name v ''pulse_aec_sink'') (\<lambda>sink.
     bind_result (optional_pulse_aec_method v) (\<lambda>given_method.
     bind_result (config_volumes v) (\<lambda>(ceiling, playback).
     bind_result (aec_routing full_duplex source sink given_method) (\<lambda>method.
     bind_result (config_timeouts v) (\<lambda>times.
     bind_result (bounded_int v ''output_queue_bytes'' (48 * 1024) (48 * 1024) (192 * 1024)) (\<lambda>output_queue.
     bind_result (post_init
       \<lparr>cf_url = pu_geturl parsed, cf_connect_address = address, cf_token = token,
        cf_wake_phrase = wake_phrase, cf_connect_timeout_seconds = ct_connect times,
        cf_handshake_timeout_seconds = ct_handshake times, cf_io_timeout_seconds = ct_io times,
        cf_idle_timeout_seconds = ct_idle times, cf_max_session_seconds = ct_session times,
        cf_ping_interval_seconds = ct_ping times, cf_pong_timeout_seconds = ct_pong times,
        cf_input_queue_bytes = input_queue, cf_fallback_buffer_bytes = fallback,
        cf_output_queue_bytes = output_queue, cf_max_message_bytes = message,
        cf_voice = voice, cf_prompt = prompt\<rparr>
       \<lparr>ca_full_duplex = JBool full_duplex, ca_pulse_aec_source = opt_json source,
        ca_pulse_aec_sink = opt_json sink, ca_pulse_aec_method = opt_json method,
        ca_aec_test_volume_percent = JInt DEFAULT_AEC_TEST_VOLUME_PERCENT,
        ca_aec_sink_volume_ceiling_percent = Some (JInt ceiling),
        ca_playback_volume_percent = Some (JInt playback)\<rparr>) (\<lambda>config.
     bind_result (validate_start_message_size frepr config) (\<lambda>_.
     Inr config)))))))))))))))))"

definition load_config ::
    "(pyfloat \<Rightarrow> string) \<Rightarrow> (string \<Rightarrow> parsed_url result) \<Rightarrow> (string \<Rightarrow> string option) \<Rightarrow>
     (bytes \<Rightarrow> json option) \<Rightarrow> config_file \<Rightarrow> nat \<Rightarrow> realtime_config option result" where
  "load_config frepr urlsplit ip_address loads f expected_uid =
     bind_result (read_secure_file f expected_uid) (\<lambda>raw.
     bind_result (config_object loads raw) (\<lambda>v.
     case bool_of (jget_default v ''enabled'' (JBool False)) of
       None \<Rightarrow> Inl (ConfigError ''enabled must be a boolean'')
     | Some enabled \<Rightarrow>
         if \<not> enabled then Inr None
         else bind_result (enabled_config frepr urlsplit ip_address v) (\<lambda>c. Inr (Some c))))"

section \<open>Well-formed settings\<close>

definition wf_routing :: "realtime_config \<Rightarrow> bool" where
  "wf_routing c \<longleftrightarrow>
     (case (cf_pulse_aec_source c, cf_pulse_aec_sink c, cf_pulse_aec_method c) of
        (Some source, Some sink, Some method) \<Rightarrow>
          cf_full_duplex c \<and> pulse_object_name source \<and> pulse_object_name sink \<and>
          method \<in> set SUPPORTED_PULSE_AEC_METHODS
      | (None, None, None) \<Rightarrow> \<not> cf_full_duplex c
      | _ \<Rightarrow> False)"

definition wf_volumes :: "realtime_config \<Rightarrow> bool" where
  "wf_volumes c \<longleftrightarrow>
     1 \<le> cf_playback_volume_percent c \<and>
     cf_playback_volume_percent c \<le> cf_aec_sink_volume_ceiling_percent c \<and>
     cf_aec_sink_volume_ceiling_percent c \<le> 60 \<and>
     cf_aec_test_volume_percent c = cf_playback_volume_percent c"

lemma volume_percent_ok [result_simps]:
  "volume_percent key v = Inr n \<longleftrightarrow> v = JInt n \<and> 1 \<le> n \<and> n \<le> 60"
  by (auto simp: volume_percent_def MAX_REALTIME_VOLUME_PERCENT_def split: option.splits)

lemma pulse_name_ok [result_simps]:
  "pulse_name key v = Inr x \<longleftrightarrow>
     (v = JNull \<and> x = None) \<or> (\<exists>s. v = JStr s \<and> pulse_object_name s \<and> x = Some s)"
  by (auto simp: pulse_name_def is_none_def split: option.splits)

lemma pulse_method_ok [result_simps]:
  "pulse_method v = Inr x \<longleftrightarrow>
     (v = JNull \<and> x = None) \<or> (\<exists>s. v = JStr s \<and> s \<in> set SUPPORTED_PULSE_AEC_METHODS \<and> x = Some s)"
  by (auto simp: pulse_method_def is_none_def split: option.splits)

lemma aec_routing_ok [result_simps]:
  "aec_routing full source sink method = Inr m \<longleftrightarrow>
     (full \<and> source \<noteq> None \<and> sink \<noteq> None \<and>
        m = Some (case method of None \<Rightarrow> DEFAULT_PULSE_AEC_METHOD | Some x \<Rightarrow> x)) \<or>
     (\<not> full \<and> source = None \<and> sink = None \<and> method = None \<and> m = None)"
  by (auto simp: aec_routing_def)

lemma checked_volumes_ok:
  "checked_volumes a = Inr (sink, playback) \<Longrightarrow> 1 \<le> playback \<and> playback \<le> sink \<and> sink \<le> 60"
  by (auto simp: checked_volumes_def result_simps case_prod_beta split: if_splits)

lemma post_init_ok:
  assumes "post_init base a = Inr c"
  shows "wf_routing c \<and> wf_volumes c \<and> config_base.truncate c = base \<and> ca_full_duplex a = JBool (cf_full_duplex c)"
proof -
  obtain full where f: "ca_full_duplex a = JBool full"
    using assms by (cases "ca_full_duplex a") (auto simp: post_init_def)
  obtain ceiling playback source sink aec effective where
    v: "checked_volumes a = Inr (ceiling, playback)"
    and names: "pulse_name ''pulse_aec_source'' (ca_pulse_aec_source a) = Inr source"
      "pulse_name ''pulse_aec_sink'' (ca_pulse_aec_sink a) = Inr sink"
      "pulse_method (ca_pulse_aec_method a) = Inr aec"
      "aec_routing full source sink aec = Inr effective"
    and c: "c = config_base.extend base
      (realtime_config.fields full source sink effective playback ceiling playback)"
    using assms by (auto simp: post_init_def f result_simps)
  have "wf_routing c"
    using names by (auto simp: c wf_routing_def config_base.defs realtime_config.defs result_simps
        config_constants split: option.splits)
  moreover have "wf_volumes c"
    using checked_volumes_ok [OF v] by (simp add: c wf_volumes_def config_base.defs realtime_config.defs)
  ultimately show ?thesis by (simp add: c f config_base.defs realtime_config.defs)
qed

definition wf_limits :: "realtime_config \<Rightarrow> bool" where
  "wf_limits c \<longleftrightarrow>
     (1 / 2 \<le> cf_connect_timeout_seconds c \<and> cf_connect_timeout_seconds c \<le> 15) \<and>
     (1 \<le> cf_handshake_timeout_seconds c \<and> cf_handshake_timeout_seconds c \<le> 30) \<and>
     (1 / 2 \<le> cf_io_timeout_seconds c \<and> cf_io_timeout_seconds c \<le> 3) \<and>
     (5 \<le> cf_idle_timeout_seconds c \<and> cf_idle_timeout_seconds c \<le> 120) \<and>
     (15 \<le> cf_max_session_seconds c \<and> cf_max_session_seconds c \<le> 900) \<and>
     (5 \<le> cf_ping_interval_seconds c \<and> cf_ping_interval_seconds c \<le> 60) \<and>
     (1 \<le> cf_pong_timeout_seconds c \<and> cf_pong_timeout_seconds c \<le> 15) \<and>
     (32768 \<le> cf_input_queue_bytes c \<and> cf_input_queue_bytes c \<le> 65536) \<and>
     (16384 \<le> cf_fallback_buffer_bytes c \<and> cf_fallback_buffer_bytes c \<le> cf_input_queue_bytes c) \<and>
     (49152 \<le> cf_output_queue_bytes c \<and> cf_output_queue_bytes c \<le> 196608) \<and>
     (2048 \<le> cf_max_message_bytes c \<and> cf_max_message_bytes c \<le> 65536 \<and> even (cf_max_message_bytes c))"

definition wf_identity :: "realtime_config \<Rightarrow> bool" where
  "wf_identity c \<longleftrightarrow>
     cf_token c \<noteq> [] \<and> length (cf_token c) \<le> 4096 \<and> list_all (in_span 32 126) (cf_token c) \<and>
     (\<exists>given. cf_wake_phrase c = normalize_wake_phrase given) \<and> cf_wake_phrase c \<noteq> [] \<and>
     cf_wake_phrase c \<noteq> ''okay nabu'' \<and> list_all is_printable (cf_wake_phrase c)"

definition wf_preferences :: "realtime_config \<Rightarrow> bool" where
  "wf_preferences c \<longleftrightarrow>
     (case cf_voice c of None \<Rightarrow> True | Some v \<Rightarrow> \<exists>given. voice_name given \<and> v = lower given) \<and>
     (case cf_prompt c of None \<Rightarrow> True
      | Some p \<Rightarrow> strip p \<noteq> [] \<and> length p \<le> 1024 \<and> list_all is_printable p)"

definition wf_config :: "(pyfloat \<Rightarrow> string) \<Rightarrow> realtime_config \<Rightarrow> bool" where
  "wf_config frepr c \<longleftrightarrow>
     wf_routing c \<and> wf_volumes c \<and> wf_limits c \<and> wf_identity c \<and> wf_preferences c \<and>
     int (length (text_bytes (dumps frepr (JObj (realtime_start_message c))))) \<le> cf_max_message_bytes c"

lemma in_range_ok [result_simps]: "in_range k a b x = Inr y \<longleftrightarrow> y = x \<and> a \<le> x \<and> x \<le> b"
  by (auto simp: in_range_def)

lemma bounded_float_ok: "bounded_float v key d a b = Inr x \<Longrightarrow> a \<le> x \<and> x \<le> b"
  by (auto simp: bounded_float_def result_simps split: json.splits pyfloat.splits)

lemma bounded_int_ok: "bounded_int v key d a b = Inr n \<Longrightarrow> a \<le> n \<and> n \<le> b"
  by (auto simp: bounded_int_def split: option.splits if_splits)

lemma config_timeouts_ok:
  "config_timeouts v = Inr t \<Longrightarrow>
     1 / 2 \<le> ct_connect t \<and> ct_connect t \<le> 15 \<and> 1 \<le> ct_handshake t \<and> ct_handshake t \<le> 30 \<and>
     1 / 2 \<le> ct_io t \<and> ct_io t \<le> 3 \<and> 5 \<le> ct_idle t \<and> ct_idle t \<le> 120 \<and>
     15 \<le> ct_session t \<and> ct_session t \<le> 900 \<and> 5 \<le> ct_ping t \<and> ct_ping t \<le> 60 \<and>
     1 \<le> ct_pong t \<and> ct_pong t \<le> 15"
  by (auto simp: config_timeouts_def result_simps dest!: bounded_float_ok)

lemma config_queues_ok:
  "config_queues v = Inr (i, f, m) \<Longrightarrow>
     32768 \<le> i \<and> i \<le> 65536 \<and> 16384 \<le> f \<and> f \<le> i \<and> 2048 \<le> m \<and> m \<le> 65536 \<and> even m"
  by (auto simp: config_queues_def result_simps RECORDER_FRAME_BYTES_def even_iff_mod_2_eq_zero
      dest!: bounded_int_ok split: if_splits)

lemma config_token_ok:
  "config_token v = Inr t \<Longrightarrow> t \<noteq> [] \<and> length t \<le> 4096 \<and> list_all (in_span 32 126) t"
  by (force simp: config_token_def required_text_def result_simps is_ascii_def in_span_def list_all_iff
      list_ex_iff split: option.splits if_splits)

lemma config_wake_phrase_ok:
  "config_wake_phrase v = Inr w \<Longrightarrow>
     (\<exists>given. w = normalize_wake_phrase given) \<and> w \<noteq> [] \<and> w \<noteq> ''okay nabu'' \<and> list_all is_printable w"
  by (auto simp: config_wake_phrase_def result_simps Let_def NORMAL_WAKE_PHRASE_def list_all_iff list_ex_iff
      split: if_splits)

lemma optional_voice_ok:
  "optional_voice v = Inr x \<Longrightarrow> (case x of None \<Rightarrow> True | Some s \<Rightarrow> \<exists>g. voice_name g \<and> s = lower g)"
  by (auto simp: optional_voice_def split: option.splits if_splits)

lemma optional_prompt_ok:
  "optional_prompt v = Inr x \<Longrightarrow>
     (case x of None \<Rightarrow> True | Some p \<Rightarrow> strip p \<noteq> [] \<and> length p \<le> 1024 \<and> list_all is_printable p)"
  by (auto simp: optional_prompt_def MAX_PROMPT_CHARACTERS_def list_all_iff list_ex_iff
      split: option.splits if_splits)

lemma enabled_config_ok:
  assumes "enabled_config frepr urlsplit ip_address v = Inr c"
  shows "wf_config frepr c"
proof -
  obtain parsed :: parsed_url and address token wake i f m voice prompt a times out base where
    token: "config_token v = Inr token" and wake: "config_wake_phrase v = Inr wake"
    and queues: "config_queues v = Inr (i, f, m)" and voice: "optional_voice v = Inr voice"
    and prompt: "optional_prompt v = Inr prompt" and times: "config_timeouts v = Inr times"
    and out: "bounded_int v ''output_queue_bytes'' 49152 49152 196608 = Inr out"
    and init: "post_init base a = Inr c" and size: "validate_start_message_size frepr c = Inr ()"
    and base: "base = \<lparr>cf_url = pu_geturl parsed, cf_connect_address = address, cf_token = token,
        cf_wake_phrase = wake, cf_connect_timeout_seconds = ct_connect times,
        cf_handshake_timeout_seconds = ct_handshake times, cf_io_timeout_seconds = ct_io times,
        cf_idle_timeout_seconds = ct_idle times, cf_max_session_seconds = ct_session times,
        cf_ping_interval_seconds = ct_ping times, cf_pong_timeout_seconds = ct_pong times,
        cf_input_queue_bytes = i, cf_fallback_buffer_bytes = f,
        cf_output_queue_bytes = out, cf_max_message_bytes = m,
        cf_voice = voice, cf_prompt = prompt\<rparr>"
    using assms
    by (clarsimp simp: enabled_config_def bind_result_eq_Inr case_prod_beta split: option.splits)
  have same: "config_base.truncate c = base" and "wf_routing c" "wf_volumes c"
    using post_init_ok [OF init] by simp_all
  moreover have "wf_limits c" "wf_identity c" "wf_preferences c"
    using config_timeouts_ok [OF times] config_queues_ok [OF queues] bounded_int_ok [OF out]
      config_token_ok [OF token] config_wake_phrase_ok [OF wake] optional_voice_ok [OF voice]
      optional_prompt_ok [OF prompt] same
    by (simp_all add: wf_limits_def wf_identity_def wf_preferences_def base config_base.defs)
  moreover have "int (length (text_bytes (dumps frepr (JObj (realtime_start_message c))))) \<le> cf_max_message_bytes c"
    using size by (simp add: validate_start_message_size_def result_simps not_less)
  ultimately show ?thesis by (simp add: wf_config_def)
qed

section \<open>The start message fits both ends\<close>

lemma length_utf8_units: "c < 2048 \<Longrightarrow> length (utf8_units c) \<le> 2"
  by (simp add: utf8_units_def)

lemma length_text_bytes: "length (text_bytes s) \<le> 2 * length s"
proof (induction s)
  case (Cons c s)
  have "(of_char c :: nat) \<in> {0..<256}" using range_nat_of_char by blast
  then have "(of_char c :: nat) < 2048" unfolding atLeastLessThan_iff by linarith
  then have "length (utf8_units (of_char c)) \<le> 2" by (rule length_utf8_units)
  with Cons show ?case by (simp add: text_bytes_def utf8_encode_def)
qed (simp add: text_bytes_def utf8_encode_def)

lemma nat_digits_5: "length (int_text 16000) = 5" "length (int_text 2) = 1" "length (int_text 1) = 1"
  by (simp_all add: int_text_def nat_digits.simps)

lemma voice_name_length: "voice_name s \<Longrightarrow> s \<noteq> [] \<and> length s \<le> 64"
  by (cases s) (simp_all add: voice_name_def)

lemma start_message_length:
  assumes "wf_preferences c"
  shows "length (dumps frepr (JObj (realtime_start_message c))) \<le> 8000"
proof -
  have voice: "length (quote_text v) \<le> 386" if "cf_voice c = Some v" for v
    using assms that length_quote_text [of v]
    by (auto simp: wf_preferences_def dest!: voice_name_length)
  have prompt: "length (quote_text p) \<le> 6146" if "cf_prompt c = Some p" for p
    using assms that length_quote_text [of p] by (simp add: wf_preferences_def)
  have keys: "length (quote_text ''type'') \<le> 26" "length (quote_text ''start'') \<le> 32"
    "length (quote_text ''protocol_version'') \<le> 98" "length (quote_text ''conversation_mode'') \<le> 104"
    "length (quote_text ''native'') \<le> 38" "length (quote_text ''audio_transport'') \<le> 92"
    "length (quote_text ''binary'') \<le> 38" "length (quote_text ''input_sample_rate'') \<le> 104"
    "length (quote_text ''input_channels'') \<le> 86" "length (quote_text ''voice'') \<le> 32"
    "length (quote_text ''prompt'') \<le> 38"
    by (rule order_trans [OF length_quote_text], simp)+
  show ?thesis
    using keys voice prompt nat_digits_5
    by (auto simp: realtime_start_message_def split: option.splits)
qed

text \<open>A configuration the loader accepts is well formed: consistent AEC routing and volumes
  (\<open>1 \<le> playback \<le> ceiling \<le> 60\<close>), every timeout and queue bound in its documented range, an ASCII token and a
  normalized wake phrase different from the normal one, bounded preferences, and a start message
  that fits the configured message bound; and it came from a regular, absolute-path file of the expected
  owner without any group or other permission.\<close>
theorem load_config_wf:
  assumes "load_config frepr urlsplit ip_address loads f uid = Inr (Some c)"
  shows "wf_config frepr c \<and> fi_absolute f \<and> is_regular (fi_mode f) \<and> fi_uid f = uid \<and>
    shared_bits (fi_mode f) = 0"
proof -
  obtain raw v where raw: "read_secure_file f uid = Inr raw"
    and c: "enabled_config frepr urlsplit ip_address v = Inr c"
    using assms by (auto simp: load_config_def result_simps split: option.splits if_splits)
  have "fi_absolute f \<and> is_regular (fi_mode f) \<and> fi_uid f = uid \<and> shared_bits (fi_mode f) = 0"
    using raw by (auto simp: read_secure_file_def Let_def split: if_splits open_outcome.splits)
  then show ?thesis using enabled_config_ok [OF c] by simp
qed

text \<open>The secure read is bounded and private: whatever the file system answers, the bytes it returns are
  at most 16 KiB, and a file that is not regular, has another owner or any group or other
  permission bit is refused.\<close>
theorem read_secure_file_private:
  assumes "read_secure_file f uid = Inr raw"
  shows "length raw \<le> 16384 \<and> fi_absolute f \<and> fi_uid f = uid \<and>
    \<not> (\<exists>i < 6. bit (fi_mode f) i) \<and> is_regular (fi_mode f)"
proof -
  have mode: "shared_bits (fi_mode f) = 0" and rest: "length raw \<le> 16384" "fi_absolute f" "fi_uid f = uid"
    "is_regular (fi_mode f)"
    using assms by (auto simp: read_secure_file_def MAX_CONFIG_BYTES_def Let_def
        split: if_splits open_outcome.splits)
  have "\<not> bit (fi_mode f) i" if "i < 6" for i
  proof -
    have "\<not> bit (shared_bits (fi_mode f)) i" unfolding mode by simp
    moreover have "(0xFFF :: nat) = mask 12" "(0x3F :: nat) = mask 6" by (simp_all add: mask_numeral)
    ultimately show ?thesis using that by (simp add: shared_bits_def bit_and_iff bit_mask_iff)
  qed
  then show ?thesis using rest by blast
qed

lemma start_message_sends:
  assumes "wf_config frepr c" "accepting t" "\<not> ws_closed conn" "ws_max conn = nat (cf_max_message_bytes c)"
  shows "ws_send_json frepr t (realtime_start_message c) conn =
    (Inr (), conn\<lparr>ws_sent := ws_sent conn @
       [(OP_TEXT, text_bytes (dumps frepr (JObj (realtime_start_message c))))]\<rparr>)"
proof -
  have wf: "wf_preferences c"
    "int (length (text_bytes (dumps frepr (JObj (realtime_start_message c))))) \<le> cf_max_message_bytes c"
    using assms(1) by (simp_all add: wf_config_def)
  have "length (text_bytes (dumps frepr (JObj (realtime_start_message c)))) \<le> 16 * 1024"
    using length_text_bytes [of "dumps frepr (JObj (realtime_start_message c))"]
      start_message_length [OF wf(1), of frepr] by linarith
  moreover have "length (text_bytes (dumps frepr (JObj (realtime_start_message c)))) \<le> ws_max conn"
    using wf(2) assms(4) by linarith
  ultimately show ?thesis
    using assms(2,3)
    by (auto simp: ws_send_json_def send_frame_def encode_client_frame_def accepting_def opcodes Let_def
        MAX_TEXT_BYTES_def)
qed

text \<open>Every start message of a well-formed configuration leaves the device: on an open
  connection with the configured message bound, the transport sends it as one text frame of at most 16 KiB.\<close>
theorem start_message_sendable:
  assumes "wf_config frepr c" "accepting t" "\<not> ws_closed conn" "ws_max conn = nat (cf_max_message_bytes c)"
  shows "ws_send_json frepr t (realtime_start_message c) conn =
    (Inr (), conn\<lparr>ws_sent := ws_sent conn @
       [(OP_TEXT, text_bytes (dumps frepr (JObj (realtime_start_message c))))]\<rparr>)"
  by (rule start_message_sends [OF assms])

lemma start_is_binary:
  assumes "wf_config frepr c"
  shows "binary_start (realtime_start_message c) 16000"
proof -
  let ?m = "realtime_start_message c"
  have pref: "wf_preferences c" using assms by (simp add: wf_config_def)
  have voice: "v \<noteq> [] \<and> length v \<le> 64" if "cf_voice c = Some v" for v
    using pref that by (auto simp: wf_preferences_def lower_def dest!: voice_name_length)
  have prompt: "p \<noteq> [] \<and> length p \<le> 4096" if "cf_prompt c = Some p" for p
    using pref that by (auto simp: wf_preferences_def strip_def)
  show ?thesis
    using voice prompt
    by (auto simp: binary_start_def realtime_start_message_def jget_append bounded_text_field_def
        has_key_def keys_of_def V2_START_FIELDS_def split: option.splits)
qed

lemma negotiated_protocol:
  assumes "binary_start (realtime_start_message c) 16000"
  shows "negotiate (realtime_start_message c) =
    Inr \<lparr>wp_version = 2, wp_audio_transport = ''binary'', wp_input_sample_rate = 16000,
         wp_input_channels = 1, wp_conversation_mode = Some ''native''\<rparr>"
  unfolding negotiate_binary [OF assms]
  by (simp add: binary_protocol_def realtime_start_message_def has_key_def)

text \<open>C39: The two ends agree on the protocol: the bridge accepts the start message of every well-formed
  device configuration, and negotiates the native binary version 2 protocol at 16 kHz mono.\<close>
theorem start_message_negotiates:
  assumes "wf_config frepr c"
  shows "negotiate (realtime_start_message c) =
    Inr \<lparr>wp_version = 2, wp_audio_transport = ''binary'', wp_input_sample_rate = 16000,
         wp_input_channels = 1, wp_conversation_mode = Some ''native''\<rparr>"
  by (rule negotiated_protocol [OF start_is_binary [OF assms]])

section \<open>A sample configuration\<close>

definition sample_settings :: obj where
  "sample_settings =
     [(''enabled'', JBool True), (''url'', JStr ''ws://hub''), (''connect_address'', JStr ''10.0.0.2''),
      (''token'', JStr ''t0ken''), (''wake_phrase'', JStr ''Hey Codex''), (''voice'', JStr ''Marin''),
      (''full_duplex'', JBool True), (''pulse_aec_source'', JStr ''mic''), (''pulse_aec_sink'', JStr ''out''),
      (''aec_test_volume_percent'', JInt 40), (''idle_timeout_seconds'', JInt 30)]"

definition sample_parsed_url :: parsed_url where
  "sample_parsed_url =
     \<lparr>su_scheme = ''ws'', su_hostname = Some ''hub'', su_port = None, su_path = [], su_query = [],
      pu_username = None, pu_password = None, pu_fragment = [], pu_port_valid = True,
      pu_geturl = ''ws://hub''\<rparr>"

definition sample_config :: realtime_config where
  "sample_config =
     \<lparr>cf_url = ''ws://hub'', cf_connect_address = ''10.0.0.2'', cf_token = ''t0ken'',
      cf_wake_phrase = ''hey codex'', cf_connect_timeout_seconds = 5, cf_handshake_timeout_seconds = 20,
      cf_io_timeout_seconds = 1, cf_idle_timeout_seconds = 30, cf_max_session_seconds = 300,
      cf_ping_interval_seconds = 15, cf_pong_timeout_seconds = 5, cf_input_queue_bytes = 65536,
      cf_fallback_buffer_bytes = 65536, cf_output_queue_bytes = 49152, cf_max_message_bytes = 65536,
      cf_voice = Some ''marin'', cf_prompt = None, cf_full_duplex = True,
      cf_pulse_aec_source = Some ''mic'', cf_pulse_aec_sink = Some ''out'',
      cf_pulse_aec_method = Some ''webrtc'', cf_aec_test_volume_percent = 40,
      cf_aec_sink_volume_ceiling_percent = 40, cf_playback_volume_percent = 40\<rparr>"

definition sample_file :: config_file where
  "sample_file =
     \<lparr>fi_absolute = True, fi_open = Opened, fi_mode = 0x8180, fi_uid = 0, fi_size = 2,
      fi_read = (\<lambda>i k. if i = 0 then [123, 125] else [])\<rparr>"

lemma sample_phrase: "normalize_wake_phrase ''Hey Codex'' = ''hey codex''"
  by code_simp

lemma sample_checks: "voice_name ''Marin''" "lower ''Marin'' = ''marin''" "pulse_object_name ''mic''"
  "pulse_object_name ''out''" "is_ascii ''t0ken''" "is_ascii ''/''"
  "\<not> list_ex (\<lambda>c. ord_of c < 32 \<or> ord_of c = 127) ''t0ken''"
  "\<not> list_ex (\<lambda>c. \<not> is_printable c) ''hey codex''" "CR \<notin> set ''/''" "LF \<notin> set ''/''"
  by code_simp+

lemma sample_start_length:
  "length (text_bytes (dumps (\<lambda>_. []) (JObj (realtime_start_message sample_config)))) \<le> 16000"
proof -
  have "wf_preferences sample_config"
    using sample_checks(1,2) by (auto simp: wf_preferences_def sample_config_def)
  from start_message_length [OF this, of "\<lambda>_. []"] show ?thesis
    using length_text_bytes [of "dumps (\<lambda>_. []) (JObj (realtime_start_message sample_config))"] by linarith
qed

lemma sample_reads_config: "read_secure_file sample_file 0 = Inr [123, 125]"
  by (simp add: read_secure_file_def sample_file_def is_regular_def shared_bits_def config_constants
      read_chunks.simps Let_def)

lemma sample_timeouts:
  "config_timeouts sample_settings =
     Inr \<lparr>ct_connect = 5, ct_handshake = 20, ct_io = 1, ct_idle = 30, ct_session = 300, ct_ping = 15, ct_pong = 5\<rparr>"
  using fl_of_int [of 30]
  by (simp add: config_timeouts_def bounded_float_def sample_settings_def jget_default_def float_of_int_def
      in_range_def)

lemma sample_keys: "\<not> list_ex (\<lambda>k. k \<notin> set ALLOWED_KEYS) (keys_of sample_settings)"
  by (simp add: ALLOWED_KEYS_def keys_of_def sample_settings_def)

lemma sample_url_ok: "validated_url (\<lambda>_. Inr sample_parsed_url) ''ws://hub'' = Inr sample_parsed_url"
  using sample_checks
  by (simp add: validated_url_def sample_parsed_url_def request_target_def split_url.defs)

lemma sample_fields:
  "required_text sample_settings ''url'' 2048 = Inr ''ws://hub''"
  "config_address Some sample_settings sample_parsed_url = Inr ''10.0.0.2''"
  "config_token sample_settings = Inr ''t0ken''"
  "config_wake_phrase sample_settings = Inr ''hey codex''"
  "config_queues sample_settings = Inr (65536, 65536, 65536)"
  "optional_voice sample_settings = Inr (Some ''marin'')"
  "optional_prompt sample_settings = Inr None"
  "optional_pulse_name sample_settings ''pulse_aec_source'' = Inr (Some ''mic'')"
  "optional_pulse_name sample_settings ''pulse_aec_sink'' = Inr (Some ''out'')"
  "optional_pulse_aec_method sample_settings = Inr None"
  "config_volumes sample_settings = Inr (40, 40)"
  "bounded_int sample_settings ''output_queue_bytes'' 49152 49152 196608 = Inr 49152"
  "bool_of (jget_default sample_settings ''full_duplex'' (JBool False)) = Some True"
  using sample_checks sample_phrase
  by (simp_all add: required_text_def config_address_def config_token_def config_wake_phrase_def
      config_queues_def optional_voice_def optional_prompt_def optional_pulse_name_def
      optional_pulse_aec_method_def config_volumes_def bounded_int_def jget_def jget_default_def has_key_def
      sample_settings_def config_constants Let_def)

lemma sample_enabled:
  "enabled_config (\<lambda>_. []) (\<lambda>_. Inr sample_parsed_url) Some sample_settings = Inr sample_config"
proof -
  have size: "validate_start_message_size (\<lambda>_. []) sample_config = Inr ()"
    using sample_start_length by (simp add: validate_start_message_size_def raise_if_def sample_config_def)
  have "post_init
       \<lparr>cf_url = ''ws://hub'', cf_connect_address = ''10.0.0.2'', cf_token = ''t0ken'',
        cf_wake_phrase = ''hey codex'', cf_connect_timeout_seconds = 5, cf_handshake_timeout_seconds = 20,
        cf_io_timeout_seconds = 1, cf_idle_timeout_seconds = 30, cf_max_session_seconds = 300,
        cf_ping_interval_seconds = 15, cf_pong_timeout_seconds = 5, cf_input_queue_bytes = 65536,
        cf_fallback_buffer_bytes = 65536, cf_output_queue_bytes = 49152, cf_max_message_bytes = 65536,
        cf_voice = Some ''marin'', cf_prompt = None\<rparr>
       \<lparr>ca_full_duplex = JBool True, ca_pulse_aec_source = JStr ''mic'', ca_pulse_aec_sink = JStr ''out'',
        ca_pulse_aec_method = JStr ''webrtc'', ca_aec_test_volume_percent = JInt 25,
        ca_aec_sink_volume_ceiling_percent = Some (JInt 40),
        ca_playback_volume_percent = Some (JInt 40)\<rparr> = Inr sample_config"
    using sample_checks
    by (simp add: post_init_def checked_volumes_def volume_percent_def effective_volumes_def pulse_name_def
        pulse_method_def aec_routing_def is_none_def config_constants sample_config_def config_base.defs
        realtime_config.defs)
  then show ?thesis
    using size sample_fields sample_url_ok sample_timeouts
    by (simp add: enabled_config_def aec_routing_def opt_json_def config_constants sample_parsed_url_def)
qed

lemma sample_loads:
  "load_config (\<lambda>_. []) (\<lambda>_. Inr sample_parsed_url) Some (\<lambda>_. Some (JObj sample_settings)) sample_file 0 =
     Inr (Some sample_config)"
proof -
  have "bool_of (jget_default sample_settings ''enabled'' (JBool False)) = Some True"
    by (simp add: jget_default_def sample_settings_def)
  then show ?thesis
    using sample_keys by (simp add: load_config_def sample_reads_config config_object_def sample_enabled)
qed

theorem load_config_wf_witness:
  "load_config (\<lambda>_. []) (\<lambda>_. Inr sample_parsed_url) Some (\<lambda>_. Some (JObj sample_settings)) sample_file 0 =
     Inr (Some sample_config) \<and> wf_config (\<lambda>_. []) sample_config"
  using sample_loads load_config_wf [OF sample_loads] by simp

theorem read_secure_file_private_witness:
  "read_secure_file sample_file 0 = Inr [123, 125] \<and> \<not> (\<exists>i < 6. bit (fi_mode sample_file) i)"
  using sample_reads_config read_secure_file_private [OF sample_reads_config] by blast

lemma sample_wf: "wf_config (\<lambda>_. []) sample_config"
  by (rule enabled_config_ok [OF sample_enabled])

theorem start_message_sendable_witness:
  "fst (ws_send_json (\<lambda>_. []) sample_transport (realtime_start_message sample_config) (new_conn [] 65536)) = Inr ()"
proof -
  have "accepting sample_transport" by (simp add: accepting_def sample_transport_def)
  moreover have "\<not> ws_closed (new_conn [] 65536)" "ws_max (new_conn [] 65536) = nat (cf_max_message_bytes sample_config)"
    by (simp_all add: new_conn_def sample_config_def)
  ultimately show ?thesis using start_message_sendable [OF sample_wf] by simp
qed

theorem start_message_negotiates_witness:
  "negotiate (realtime_start_message sample_config) =
     Inr \<lparr>wp_version = 2, wp_audio_transport = ''binary'', wp_input_sample_rate = 16000,
          wp_input_channels = 1, wp_conversation_mode = Some ''native''\<rparr>"
  by (rule start_message_negotiates [OF sample_wf])

end
