(* ===== verification/Bounded_Fifo.thy ===== *)
theory Bounded_Fifo
  imports Prelude
begin

text \<open>
  The contract of the bounded queues of the program: a put is refused when it would exceed the bound and
  otherwise appends, a take removes the oldest item, a clear empties. The client's guarantees, first in
  first out and never above the bound, are proved once for any sequence of operations.
\<close>

datatype 'a queue_op = Put 'a | Take | Clear

text \<open>A run yields the accepted items, the items taken (both in order) and the final queue.\<close>

fun queue_run ::
    "('a \<Rightarrow> 'q \<Rightarrow> bool \<times> 'q) \<Rightarrow> ('q \<Rightarrow> 'a option \<times> 'q) \<Rightarrow> ('q \<Rightarrow> 'q) \<Rightarrow> 'a queue_op list \<Rightarrow> 'q \<Rightarrow>
     'a list \<times> 'a list \<times> 'q" where
  "queue_run put_q take_q clear_q [] q = ([], [], q)"
| "queue_run put_q take_q clear_q (Put x # ops) q =
     (case put_q x q of (ok, q1) \<Rightarrow>
        (case queue_run put_q take_q clear_q ops q1 of
           (accepted, taken, q2) \<Rightarrow> (if ok then x # accepted else accepted, taken, q2)))"
| "queue_run put_q take_q clear_q (Take # ops) q =
     (case take_q q of (got, q1) \<Rightarrow>
        (case queue_run put_q take_q clear_q ops q1 of
           (accepted, taken, q2) \<Rightarrow>
             (accepted, case got of None \<Rightarrow> taken | Some x \<Rightarrow> x # taken, q2)))"
| "queue_run put_q take_q clear_q (Clear # ops) q = queue_run put_q take_q clear_q ops (clear_q q)"

definition total_weight :: "('a \<Rightarrow> nat) \<Rightarrow> 'a list \<Rightarrow> nat" where
  "total_weight weight xs = sum_list (map weight xs)"

lemma total_weight_simps [simp]:
  "total_weight weight [] = 0"
  "total_weight weight (x # xs) = weight x + total_weight weight xs"
  "total_weight weight (xs @ ys) = total_weight weight xs + total_weight weight ys"
  by (simp_all add: total_weight_def)

locale bounded_fifo =
  fixes valid :: "'q \<Rightarrow> bool"
    and items :: "'q \<Rightarrow> 'a list"
    and weight :: "'a \<Rightarrow> nat"
    and bound :: nat
    and put_q :: "'a \<Rightarrow> 'q \<Rightarrow> bool \<times> 'q"
    and take_q :: "'q \<Rightarrow> 'a option \<times> 'q"
    and clear_q :: "'q \<Rightarrow> 'q"
  assumes valid_bound: "valid q \<Longrightarrow> total_weight weight (items q) \<le> bound"
    and put_ok: "valid q \<Longrightarrow> put_q x q = (True, q1) \<Longrightarrow> valid q1 \<and> items q1 = items q @ [x]"
    and put_full: "valid q \<Longrightarrow> put_q x q = (False, q1) \<Longrightarrow>
      q1 = q \<and> bound < total_weight weight (items q) + weight x"
    and take_ok: "valid q \<Longrightarrow> take_q q = (Some x, q1) \<Longrightarrow> valid q1 \<and> items q = x # items q1"
    and take_none: "valid q \<Longrightarrow> take_q q = (None, q1) \<Longrightarrow> q1 = q \<and> items q = []"
    and clear_ok: "valid q \<Longrightarrow> valid (clear_q q) \<and> items (clear_q q) = []"
begin

lemma put_accepts:
  "valid q \<Longrightarrow> total_weight weight (items q) + weight x \<le> bound \<Longrightarrow> fst (put_q x q)"
  using put_full [of q x] by (cases "put_q x q") (cases "fst (put_q x q)", auto)

lemma run_valid: "valid q \<Longrightarrow> queue_run put_q take_q clear_q ops q = (a, t, q2) \<Longrightarrow> valid q2"
proof (induction ops arbitrary: q a t)
  case (Cons op ops)
  show ?case
  proof (cases op)
    case (Put x)
    obtain ok q1 where p: "put_q x q = (ok, q1)" by fastforce
    have "valid q1" using Cons.prems(1) put_ok [of q x q1] put_full [of q x q1] p by (cases ok) auto
    with Put p Cons.prems(2) show ?thesis by (auto split: prod.splits intro: Cons.IH)
  next
    case Take
    obtain got q1 where p: "take_q q = (got, q1)" by fastforce
    have "valid q1" using Cons.prems(1) take_ok [of q _ q1] take_none [of q q1] p by (cases got) auto
    with Take p Cons.prems(2) show ?thesis by (auto split: prod.splits intro: Cons.IH)
  next
    case Clear
    with Cons.prems clear_ok show ?thesis by (auto intro: Cons.IH)
  qed
qed simp

lemma run_bound:
  "valid q \<Longrightarrow> queue_run put_q take_q clear_q ops q = (a, t, q2) \<Longrightarrow>
   total_weight weight (items q2) \<le> bound"
  using run_valid valid_bound by blast

lemma run_fifo:
  "valid q \<Longrightarrow> Clear \<notin> set ops \<Longrightarrow> queue_run put_q take_q clear_q ops q = (a, t, q2) \<Longrightarrow>
   items q @ a = t @ items q2"
proof (induction ops arbitrary: q a t)
  case (Cons op ops)
  show ?case
  proof (cases op)
    case (Put x)
    obtain ok q1 where p: "put_q x q = (ok, q1)" by fastforce
    obtain a1 t1 where r: "queue_run put_q take_q clear_q ops q1 = (a1, t1, q2)"
      and at: "a = (if ok then x # a1 else a1)" "t = t1"
      using Put p Cons.prems(3) by (auto split: prod.splits)
    show ?thesis
    proof (cases ok)
      case True
      then have "valid q1" "items q1 = items q @ [x]" using put_ok Cons.prems(1) p by auto
      then show ?thesis using Cons.IH [OF _ _ r] Cons.prems(2) at True by simp
    next
      case False
      then have "q1 = q" using put_full Cons.prems(1) p by auto
      then show ?thesis using Cons.IH [OF _ _ r] Cons.prems(1,2) at False by simp
    qed
  next
    case Take
    obtain got q1 where p: "take_q q = (got, q1)" by fastforce
    obtain t1 where r: "queue_run put_q take_q clear_q ops q1 = (a, t1, q2)"
      and t: "t = (case got of None \<Rightarrow> t1 | Some x \<Rightarrow> x # t1)"
      using Take p Cons.prems(3) by (auto split: prod.splits)
    show ?thesis
    proof (cases got)
      case None
      then have "q1 = q" using take_none Cons.prems(1) p by auto
      then show ?thesis using Cons.IH [OF _ _ r] Cons.prems(1,2) t None by simp
    next
      case (Some x)
      then have "valid q1" "items q = x # items q1" using take_ok Cons.prems(1) p by auto
      then show ?thesis using Cons.IH [OF _ _ r] Cons.prems(2) t Some by simp
    qed
  next
    case Clear
    with Cons.prems(2) show ?thesis by simp
  qed
qed simp

end

end
