(* ===== verification/Session_Parts.thy ===== *)
theory Session_Parts
  imports Device_Config Bounded_Fifo
begin

text \<open>
  The parts of \<^verbatim>\<open>device/thirdreality/realtime_client/session.py\<close> below the session itself: the bounded
  microphone queue, the pacer, the \<^verbatim>\<open>paplay\<close> player with its child process as an environment, the
  speech detectors, and the validation of bridge messages. Times are exact rationals.
\<close>

section \<open>The microphone queue\<close>

record packet =
  pk_data :: bytes
  pk_captured_at :: rat

record audio_queue =
  aq_maximum :: nat
  aq_bytes :: nat
  aq_items :: "packet list"

definition new_queue :: "nat \<Rightarrow> audio_queue" where
  "new_queue maximum_bytes = \<lparr>aq_maximum = maximum_bytes, aq_bytes = 0, aq_items = []\<rparr>"

definition queue_put :: "packet \<Rightarrow> audio_queue \<Rightarrow> bool \<times> audio_queue" where
  "queue_put p q =
     (if aq_maximum q < aq_bytes q + length (pk_data p) then (False, q)
      else (True, q\<lparr>aq_items := aq_items q @ [p], aq_bytes := aq_bytes q + length (pk_data p)\<rparr>))"

text \<open>The popped packet, and how many remain.\<close>

definition queue_pop :: "audio_queue \<Rightarrow> (packet option \<times> nat) \<times> audio_queue" where
  "queue_pop q =
     (case aq_items q of
        [] \<Rightarrow> ((None, 0), q)
      | p # rest \<Rightarrow>
          ((Some p, length rest),
           q\<lparr>aq_items := rest, aq_bytes := aq_bytes q - length (pk_data p)\<rparr>))"

definition queue_clear :: "audio_queue \<Rightarrow> audio_queue" where
  "queue_clear q = q\<lparr>aq_items := [], aq_bytes := 0\<rparr>"

definition packet_weight :: "packet \<Rightarrow> nat" where
  "packet_weight p = length (pk_data p)"

definition queue_valid :: "nat \<Rightarrow> audio_queue \<Rightarrow> bool" where
  "queue_valid m q \<longleftrightarrow>
     aq_maximum q = m \<and> aq_bytes q = total_weight packet_weight (aq_items q) \<and> aq_bytes q \<le> m"

definition queue_take :: "audio_queue \<Rightarrow> packet option \<times> audio_queue" where
  "queue_take q = (case queue_pop q of ((p, n), q1) \<Rightarrow> (p, q1))"

interpretation mic: bounded_fifo "queue_valid m" aq_items packet_weight m queue_put queue_take queue_clear for m
  by unfold_locales
    (auto simp: queue_valid_def queue_put_def queue_take_def queue_pop_def queue_clear_def packet_weight_def
      split: if_splits list.splits)

lemma new_queue_valid: "queue_valid m (new_queue m)"
  by (simp add: queue_valid_def new_queue_def)

text \<open>The microphone queue is bounded and first in, first out: from a new queue, after any sequence of
  puts, pops and clears the queued bytes are within the maximum, and without a clear the popped packets
  followed by the queued ones are exactly the accepted packets in order.\<close>
theorem microphone_queue_fifo:
  assumes "queue_run queue_put queue_take queue_clear ops (new_queue m) = (accepted, taken, q)"
  shows "aq_bytes q = total_weight packet_weight (aq_items q) \<and> aq_bytes q \<le> m \<and>
    (Clear \<notin> set ops \<longrightarrow> accepted = taken @ aq_items q)"
  using mic.run_valid [OF new_queue_valid assms] mic.run_fifo [OF new_queue_valid _ assms]
  by (auto simp: queue_valid_def new_queue_def)

theorem microphone_queue_fifo_witness:
  "queue_run queue_put queue_take queue_clear
     [Put \<lparr>pk_data = [1, 2], pk_captured_at = 0\<rparr>, Put \<lparr>pk_data = [3, 4], pk_captured_at = 1\<rparr>, Take] (new_queue 3) =
     ([\<lparr>pk_data = [1, 2], pk_captured_at = 0\<rparr>], [\<lparr>pk_data = [1, 2], pk_captured_at = 0\<rparr>], new_queue 3)
   \<and> aq_bytes (new_queue 3) \<le> 3"
proof -
  have r: "queue_run queue_put queue_take queue_clear
     [Put \<lparr>pk_data = [1, 2], pk_captured_at = 0\<rparr>, Put \<lparr>pk_data = [3, 4], pk_captured_at = 1\<rparr>, Take] (new_queue 3) =
     ([\<lparr>pk_data = [1, 2], pk_captured_at = 0\<rparr>], [\<lparr>pk_data = [1, 2], pk_captured_at = 0\<rparr>], new_queue 3)"
    by (simp add: queue_put_def queue_take_def queue_pop_def new_queue_def)
  with microphone_queue_fifo [OF r] show ?thesis by blast
qed

section \<open>Pacing\<close>

definition INPUT_BYTES_PER_SECOND :: nat where "INPUT_BYTES_PER_SECOND = 32000"
definition MAX_INPUT_CATCH_UP_RATE :: nat where "MAX_INPUT_CATCH_UP_RATE = 2"

type_synonym pacer = "rat option"

definition pacer_due :: "rat \<Rightarrow> pacer \<Rightarrow> bool" where
  "pacer_due now p = (case p of None \<Rightarrow> True | Some at_time \<Rightarrow> at_time \<le> now)"

definition pacer_sent :: "rat \<Rightarrow> nat \<Rightarrow> bool \<Rightarrow> pacer" where
  "pacer_sent now byte_count catching_up =
     Some (now + of_nat byte_count /
       of_nat (INPUT_BYTES_PER_SECOND * (if catching_up then MAX_INPUT_CATCH_UP_RATE else 1)))"

definition pacer_delay :: "rat \<Rightarrow> pacer \<Rightarrow> rat" where
  "pacer_delay now p = (case p of None \<Rightarrow> 0 | Some at_time \<Rightarrow> max 0 (at_time - now))"

text \<open>A schedule of sends at due times: times, sizes and whether a backlog remained.\<close>

fun paced :: "pacer \<Rightarrow> (rat \<times> nat \<times> bool) list \<Rightarrow> bool" where
  "paced p [] = True"
| "paced p ((now, n, catching_up) # sends) =
     (pacer_due now p \<and> paced (pacer_sent now n catching_up) sends)"

definition bytes_sent :: "(rat \<times> nat \<times> bool) list \<Rightarrow> nat" where
  "bytes_sent sends = sum_list (map (\<lambda>s. fst (snd s)) sends)"

lemma pacer_sent_bound:
  "\<exists>at_time. pacer_sent now n c = Some at_time \<and> of_nat n / 64000 \<le> at_time - now"
  by (auto simp: pacer_sent_def INPUT_BYTES_PER_SECOND_def MAX_INPUT_CATCH_UP_RATE_def intro!: frac_le)

lemma paced_bound:
  "paced (Some at_time) sends \<Longrightarrow> sends \<noteq> [] \<Longrightarrow>
   of_nat (bytes_sent (butlast sends)) / 64000 \<le> fst (last sends) - at_time"
proof (induction sends arbitrary: at_time)
  case (Cons s sends)
  obtain now n c where s: "s = (now, n, c)" by (cases s)
  obtain next_at where p: "pacer_sent now n c = Some next_at" "of_nat n / 64000 \<le> next_at - now"
    using pacer_sent_bound by blast
  have due: "at_time \<le> now" using Cons.prems(1) by (simp add: s pacer_due_def)
  show ?case
  proof (cases "sends = []")
    case True
    then show ?thesis using due by (simp add: s bytes_sent_def)
  next
    case False
    then have "of_nat (bytes_sent (butlast sends)) / 64000 \<le> fst (last sends) - next_at"
      using Cons.prems(1) p(1) by (intro Cons.IH) (simp_all add: s)
    then show ?thesis
      using False p(2) due by (simp add: s bytes_sent_def add_divide_distrib)
  qed
qed simp

text \<open>The microphone stream never bursts: over any run of paced sends, the bytes sent before the
  last one take at least their playing time at twice the capture rate (64000 bytes per second), so catch-up
  is bounded by a factor of two however the loop is delayed.\<close>
theorem pacing_never_bursts:
  assumes "paced None ((now, n, c) # sends)" "sends \<noteq> []"
  shows "of_nat (n + bytes_sent (butlast sends)) / 64000 \<le> fst (last sends) - now"
proof -
  obtain next_at where p: "pacer_sent now n c = Some next_at" "of_nat n / 64000 \<le> next_at - now"
    using pacer_sent_bound by blast
  have "of_nat (bytes_sent (butlast sends)) / 64000 \<le> fst (last sends) - next_at"
    using assms p(1) by (intro paced_bound) simp_all
  then show ?thesis using p(2) by (simp add: add_divide_distrib)
qed

theorem pacing_never_bursts_witness:
  "of_nat (2048 + bytes_sent (butlast [(1 :: rat, 2048 :: nat, False)])) / 64000 \<le>
     fst (last [(1 :: rat, 2048 :: nat, False)]) - (0 :: rat)"
  by (rule pacing_never_bursts [where c = True])
    (simp_all add: pacer_due_def pacer_sent_def INPUT_BYTES_PER_SECOND_def MAX_INPUT_CATCH_UP_RATE_def)

section \<open>The player\<close>

text \<open>
  \<open>pl_process\<close> is the epoch the child process was started for, \<open>None\<close> without a child;
  \<open>pl_written\<close> records what the children accepted, with that epoch. What the operating system
  answers is an environment.
\<close>

definition PLAYER_WRITE_BYTES :: nat where "PLAYER_WRITE_BYTES = 16 * 1024"

record player =
  pl_maximum :: nat
  pl_process :: "int option"
  pl_stdin :: bool
  pl_pending :: bytes
  pl_finish_when_drained :: bool
  pl_epoch :: "int option"
  pl_written :: "(int \<times> bytes) list"

datatype spawn_outcome = Spawned | SpawnFailed | NoStdin | NotConfigurable
datatype write_outcome = Wrote nat | WouldBlock | WriteRejected

record player_env =
  pe_spawn :: spawn_outcome
  pe_exited :: bool
  pe_write :: write_outcome
  pe_exited_after :: bool
  pe_reaped :: bool

definition new_player :: "nat \<Rightarrow> player" where
  "new_player maximum_bytes =
     \<lparr>pl_maximum = maximum_bytes, pl_process = None, pl_stdin = False, pl_pending = [],
      pl_finish_when_drained = False, pl_epoch = None, pl_written = []\<rparr>"

definition player_active :: "player \<Rightarrow> bool" where
  "player_active p \<longleftrightarrow> pl_process p \<noteq> None \<or> pl_pending p \<noteq> []"

definition player_abort :: "player \<Rightarrow> player" where
  "player_abort p =
     p\<lparr>pl_process := None, pl_stdin := False, pl_pending := [], pl_finish_when_drained := False,
       pl_epoch := None\<rparr>"

definition player_begin :: "player_env \<Rightarrow> int \<Rightarrow> player \<Rightarrow> unit result \<times> player" where
  "player_begin env epoch p =
     (let p1 = player_abort p in
      case pe_spawn env of
        SpawnFailed \<Rightarrow> (Inl (WebSocketError ''paplay could not be started''), p1)
      | NoStdin \<Rightarrow> (Inl (WebSocketError ''paplay did not expose stdin''), p1)
      | NotConfigurable \<Rightarrow> (Inl (WebSocketError ''paplay stdin could not be configured''), p1)
      | Spawned \<Rightarrow>
          (Inr (), p1\<lparr>pl_process := Some epoch, pl_stdin := True, pl_finish_when_drained := False,
                     pl_epoch := Some epoch\<rparr>))"

definition player_enqueue :: "bytes \<Rightarrow> player \<Rightarrow> unit result \<times> player" where
  "player_enqueue v p =
     (if pl_process p = None \<or> \<not> pl_stdin p \<or> pl_epoch p = None
      then (Inl (WebSocketError ''audio arrived outside a speaking epoch''), p)
      else if pl_maximum p < length (pl_pending p) + length v
      then (Inl (WebSocketError ''playback queue exceeded its bound''), p)
      else (Inr (), p\<lparr>pl_pending := pl_pending p @ v\<rparr>))"

definition reap_finished :: "player_env \<Rightarrow> player \<Rightarrow> unit result \<times> player" where
  "reap_finished env p =
     (let p1 = p\<lparr>pl_process := None, pl_stdin := False, pl_epoch := None, pl_finish_when_drained := False\<rparr>
      in if pe_reaped env then (Inr (), p1) else (Inl (WebSocketError ''paplay could not be reaped''), p1))"

text \<open>\<^verbatim>\<open>os.write\<close> of a non-empty slice takes at most the slice.\<close>

definition player_write :: "player_env \<Rightarrow> int \<Rightarrow> player \<Rightarrow> unit result \<times> player" where
  "player_write env epoch p =
     (if pl_pending p = [] \<or> \<not> pl_stdin p then (Inr (), p)
      else
        (case pe_write env of
           WriteRejected \<Rightarrow> (Inl (WebSocketError ''paplay rejected output''), p)
         | WouldBlock \<Rightarrow> (Inr (), p)
         | Wrote k \<Rightarrow>
             let written = min k (min PLAYER_WRITE_BYTES (length (pl_pending p)))
             in (Inr (), p\<lparr>pl_pending := drop written (pl_pending p),
                           pl_written := pl_written p @ [(epoch, take written (pl_pending p))]\<rparr>)))"

definition player_service :: "player_env \<Rightarrow> player \<Rightarrow> unit result \<times> player" where
  "player_service env p =
     (case pl_process p of
        None \<Rightarrow> (Inr (), p)
      | Some epoch \<Rightarrow>
          if pe_exited env
          then (if pl_pending p \<noteq> []
                then (Inl (WebSocketError ''paplay exited before consuming output''), p)
                else reap_finished env p)
          else
            (case player_write env epoch p of
               (Inl e, p1) \<Rightarrow> (Inl e, p1)
             | (Inr _, p1) \<Rightarrow>
                 let p2 = (if pl_finish_when_drained p1 \<and> pl_pending p1 = [] \<and> pl_stdin p1
                           then p1\<lparr>pl_stdin := False\<rparr> else p1)
                 in if pe_exited_after env then reap_finished env p2 else (Inr (), p2)))"

definition player_finish :: "player_env \<Rightarrow> int \<Rightarrow> player \<Rightarrow> unit result \<times> player" where
  "player_finish env epoch p =
     (if pl_epoch p \<noteq> Some epoch then (Inr (), p)
      else player_service env (p\<lparr>pl_finish_when_drained := True\<rparr>))"

section \<open>Speech detection\<close>

definition INPUT_ACTIVITY_SIGNAL_PEAK :: int where "INPUT_ACTIVITY_SIGNAL_PEAK = 256"
definition LOCAL_BARGE_IN_SIGNAL_PEAK :: int where "LOCAL_BARGE_IN_SIGNAL_PEAK = 1024"
definition LOCAL_BARGE_IN_SIGNAL_RMS :: int where "LOCAL_BARGE_IN_SIGNAL_RMS = 384"
definition LOCAL_BARGE_IN_FRAMES :: nat where "LOCAL_BARGE_IN_FRAMES = 2"

definition pcm_has_signal :: "bytes \<Rightarrow> bool" where
  "pcm_has_signal v = list_ex (\<lambda>s. INPUT_ACTIVITY_SIGNAL_PEAK \<le> \<bar>s\<bar>) (samples_of_bytes v)"

fun peak_energy :: "int list \<Rightarrow> int \<Rightarrow> int \<Rightarrow> int \<times> int" where
  "peak_energy [] peak energy = (peak, energy)"
| "peak_energy (s # ss) peak energy = peak_energy ss (max peak \<bar>s\<bar>) (energy + s * s)"

definition pcm_has_local_barge_in_signal :: "bytes \<Rightarrow> bool" where
  "pcm_has_local_barge_in_signal v =
     (let sample_count = length v div 2
      in if sample_count = 0 then False
         else
           (case peak_energy (samples_of_bytes v) 0 0 of
              (peak, energy) \<Rightarrow>
                LOCAL_BARGE_IN_SIGNAL_PEAK \<le> peak \<and>
                LOCAL_BARGE_IN_SIGNAL_RMS ^ 2 * int sample_count \<le> energy))"

section \<open>Messages of the bridge\<close>

definition session_control_events :: "string list" where
  "session_control_events =
     [''input_audio_buffer.committed'', ''input_audio_buffer.speech_started'',
      ''input_audio_buffer.speech_stopped'', ''output_audio_buffer.started'',
      ''output_audio_buffer.stopped'', ''response.created'', ''response.cancelled'', ''response.done'',
      ''session.started'', ''session.updated'', ''speaking.started'', ''speaking.stopped'',
      ''turn.created'', ''turn.done'']"

definition json_object :: "(nat list \<Rightarrow> json option) \<Rightarrow> nat list \<Rightarrow> obj result" where
  "json_object loads v =
     (case loads v of
        None \<Rightarrow> Inl (WebSocketError ''realtime control must be valid JSON'')
      | Some decoded \<Rightarrow>
          (case obj_of decoded of
             None \<Rightarrow> Inl (WebSocketError ''realtime control must be a JSON object'')
           | Some m \<Rightarrow> Inr m))"

definition output_epoch_of :: "obj \<Rightarrow> int result" where
  "output_epoch_of v =
     (case strict_int_of (jget v ''output_epoch'') of
        None \<Rightarrow> Inl (WebSocketError ''output_epoch must be a positive integer'')
      | Some epoch \<Rightarrow>
          if epoch < 1 then Inl (WebSocketError ''output_epoch must be a positive integer'')
          else Inr epoch)"

definition validate_started :: "obj \<Rightarrow> unit result" where
  "validate_started v =
     (if jget v ''type'' \<noteq> JStr ''started'' \<or> \<not> equals_int (jget v ''protocol_version'') 2
         \<or> jget v ''conversation_mode'' \<noteq> JStr ''native'' \<or> jget v ''audio_transport'' \<noteq> JStr ''binary''
         \<or> \<not> equals_int (jget v ''input_sample_rate'') 16000 \<or> \<not> equals_int (jget v ''input_channels'') 1
         \<or> \<not> equals_int (jget v ''output_sample_rate'') 24000 \<or> \<not> equals_int (jget v ''output_channels'') 1
      then Inl (WebSocketError ''bridge returned an incompatible realtime protocol'')
      else
        (case obj_of (jget v ''capabilities'') of
           None \<Rightarrow> Inl (WebSocketError ''bridge omitted realtime capabilities'')
         | Some capabilities \<Rightarrow>
             if jget capabilities ''binary_pcm16'' \<noteq> JBool True
             then Inl (WebSocketError ''bridge does not support binary PCM16'')
             else if jget capabilities ''local_flush'' \<noteq> JBool True
             then Inl (WebSocketError ''bridge does not support local flush'')
             else if jget capabilities ''remote_cancel'' \<noteq> JBool False
             then Inl (WebSocketError ''bridge returned incompatible cancel semantics'')
             else if jget capabilities ''same_session_interrupt_ack'' \<noteq> JBool True
             then Inl (WebSocketError ''bridge omitted same-session interrupt acknowledgement'')
             else Inr ()))"

definition check_deadlines ::
    "rat \<Rightarrow> rat \<Rightarrow> rat \<Rightarrow> rat \<Rightarrow> rat \<Rightarrow> bytes option \<Rightarrow> rat option \<Rightarrow> unit result" where
  "check_deadlines now started_at last_activity max_session_seconds idle_timeout_seconds
     pending_ping pong_deadline =
     (if max_session_seconds \<le> now - started_at
      then Inl (WebSocketError ''realtime session exceeded its hard limit'')
      else if idle_timeout_seconds \<le> now - last_activity
      then Inl (WebSocketError ''realtime session exceeded its idle limit'')
      else if pending_ping \<noteq> None \<and> (case pong_deadline of None \<Rightarrow> False | Some d \<Rightarrow> d \<le> now)
      then Inl (WebSocketError ''realtime pong timed out'')
      else Inr ())"

text \<open>The energy detector means what it says: a frame qualifies exactly when it has a sample, some
  sample reaches the peak 1024 in magnitude, and the mean square is at least 384 squared.\<close>
theorem barge_in_signal_iff:
  "pcm_has_local_barge_in_signal v \<longleftrightarrow>
     2 \<le> length v \<and> (\<exists>s \<in> set (samples_of_bytes v). 1024 \<le> \<bar>s\<bar>) \<and>
     384 ^ 2 * int (length (samples_of_bytes v)) \<le> sum_list (map (\<lambda>s. s * s) (samples_of_bytes v))"
proof -
  have pe: "peak_energy ss p e = (fold (\<lambda>s m. max m \<bar>s\<bar>) ss p, e + sum_list (map (\<lambda>s. s * s) ss))"
    for ss and p e :: int
    by (induction ss p e rule: peak_energy.induct) auto
  have peak: "1024 \<le> fold (\<lambda>s m. max m \<bar>s\<bar>) ss p \<longleftrightarrow> 1024 \<le> p \<or> (\<exists>s \<in> set ss. 1024 \<le> \<bar>s\<bar>)"
    for ss and p :: int
    by (induction ss arbitrary: p) (auto simp: le_max_iff_disj)
  have "length v div 2 = 0 \<longleftrightarrow> \<not> 2 \<le> length v" by (simp add: div_eq_0_iff not_le)
  then show ?thesis
    by (auto simp: pcm_has_local_barge_in_signal_def pe peak length_samples_of_bytes Let_def
        LOCAL_BARGE_IN_SIGNAL_PEAK_def LOCAL_BARGE_IN_SIGNAL_RMS_def)
qed

text \<open>The device accepts the acknowledgement the bridge builds for it: the started fields of the
  protocol negotiated from any well-formed configuration, under whatever other fields the bridge puts before
  them, pass the device's validation.\<close>
theorem started_handshake:
  assumes "wf_config frepr c" "negotiate (realtime_start_message c) = Inr p"
    and "\<forall>k \<in> set (keys_of extra). k \<notin> set (keys_of (started_fields p)) \<and> k \<noteq> ''type''"
  shows "validate_started ((''type'', JStr ''started'') # extra @ started_fields p) = Inr ()"
proof -
  have "binary_start (realtime_start_message c) 16000" by (rule start_is_binary [OF assms(1)])
  then have p: "p = \<lparr>wp_version = 2, wp_audio_transport = ''binary'', wp_input_sample_rate = 16000,
         wp_input_channels = 1, wp_conversation_mode = Some ''native''\<rparr>"
    using assms(2) by (simp add: negotiated_protocol)
  have get: "jget (extra @ started_fields p) k = jget (started_fields p) k"
    if "k \<in> set (keys_of (started_fields p))" for k
    using assms(3) that by (auto simp: jget_append has_key_iff)
  let ?m = "extra @ started_fields p"
  have fields: "jget ?m ''protocol_version'' = JInt 2" "jget ?m ''conversation_mode'' = JStr ''native''"
    "jget ?m ''audio_transport'' = JStr ''binary''" "jget ?m ''input_sample_rate'' = JInt 16000"
    "jget ?m ''input_channels'' = JInt 1" "jget ?m ''output_sample_rate'' = JInt 24000"
    "jget ?m ''output_channels'' = JInt 1"
    "jget ?m ''capabilities'' = JObj [(''binary_pcm16'', JBool True), (''local_flush'', JBool True),
      (''remote_cancel'', JBool False), (''same_session_interrupt_ack'', JBool True)]"
    by (subst get; simp add: p started_fields_def uses_binary_audio_def keys_of_def wire_constants)+
  show ?thesis
    unfolding validate_started_def jget_Cons by (simp add: fields)
qed

theorem started_handshake_witness:
  "validate_started ((''type'', JStr ''started'') # [(''thread_id'', JStr ''t1''), (''version'', JInt 1)] @
     started_fields \<lparr>wp_version = 2, wp_audio_transport = ''binary'', wp_input_sample_rate = 16000,
         wp_input_channels = 1, wp_conversation_mode = Some ''native''\<rparr>) = Inr ()"
  by (rule started_handshake [OF sample_wf negotiated_protocol [OF start_is_binary [OF sample_wf]]])
    (simp add: keys_of_def started_fields_def uses_binary_audio_def wire_constants)

end
