(* ===== verification/Session.thy ===== *)
theory Session
  imports Session_Parts
begin

text \<open>
  \<^verbatim>\<open>RealtimeSession\<close> of \<^verbatim>\<open>device/thirdreality/realtime_client/session.py\<close>. The state holds the fields
  the threads share, the locals of the network thread, its player, its connection (the model of
  \<^verbatim>\<open>websocket.py\<close>) and the phase of its loop. The capture thread (\<^verbatim>\<open>submit_audio\<close>) and controllers
  (\<^verbatim>\<open>interrupt\<close>, \<^verbatim>\<open>stop\<close>) run between any two phases.
\<close>

section \<open>Shared state\<close>

datatype session_state = New | Connecting | Ready | Stopping | Stopped | SessionFailed
datatype submit_result = Accepted | Gated | Full | Closed | Invalid

record session =
  ss_state :: session_state
  ss_queue :: audio_queue
  ss_ready :: bool
  ss_terminal :: bool
  ss_stop_requested :: bool
  ss_interrupt_requested :: bool
  ss_preserve_session :: bool
  ss_output_active :: bool
  ss_local_epoch :: "int option"
  ss_requested_epoch :: "int option"
  ss_barge_frames :: nat
  ss_suppressed_epoch :: "int option"
  ss_ever_ready :: bool

definition new_session :: "realtime_config \<Rightarrow> session" where
  "new_session cfg =
     \<lparr>ss_state = New, ss_queue = new_queue (nat (cf_input_queue_bytes cfg)), ss_ready = False,
      ss_terminal = False, ss_stop_requested = False, ss_interrupt_requested = False,
      ss_preserve_session = True, ss_output_active = False, ss_local_epoch = None,
      ss_requested_epoch = None, ss_barge_frames = 0, ss_suppressed_epoch = None, ss_ever_ready = False\<rparr>"

definition failed_before_ready :: "session \<Rightarrow> bool" where
  "failed_before_ready s \<longleftrightarrow> ss_terminal s \<and> \<not> ss_ever_ready s"

section \<open>The capture thread\<close>

definition detect_local_barge_in :: "realtime_config \<Rightarrow> bytes \<Rightarrow> session \<Rightarrow> session" where
  "detect_local_barge_in cfg v s =
     (if \<not> cf_full_duplex cfg then s
      else
        (case ss_local_epoch s of
           None \<Rightarrow> s\<lparr>ss_barge_frames := 0\<rparr>
         | Some output_epoch \<Rightarrow>
             if ss_requested_epoch s \<noteq> None then s
             else
               let frames = (if pcm_has_local_barge_in_signal v then ss_barge_frames s + 1 else 0)
               in if frames < LOCAL_BARGE_IN_FRAMES then s\<lparr>ss_barge_frames := frames\<rparr>
                  else s\<lparr>ss_barge_frames := 0, ss_requested_epoch := Some output_epoch\<rparr>))"

definition submit_audio ::
    "realtime_config \<Rightarrow> rat \<Rightarrow> bytes \<Rightarrow> session \<Rightarrow> submit_result \<times> session" where
  "submit_audio cfg now v s =
     (if v = [] \<or> length v mod 2 \<noteq> 0 then (Invalid, s)
      else if cf_max_message_bytes cfg < int (length v) then (Invalid, s)
      else if ss_state s \<notin> {Connecting, Ready} then (Closed, s)
      else if ss_output_active s \<and> \<not> cf_full_duplex cfg then (Gated, s)
      else
        (case queue_put \<lparr>pk_data = v, pk_captured_at = now\<rparr> (ss_queue s) of
           (False, q) \<Rightarrow> (Full, s\<lparr>ss_queue := q\<rparr>)
         | (True, q) \<Rightarrow> (Accepted, detect_local_barge_in cfg v (s\<lparr>ss_queue := q\<rparr>))))"

section \<open>Control of the session\<close>

definition set_local_output_epoch :: "int option \<Rightarrow> session \<Rightarrow> session" where
  "set_local_output_epoch output_epoch s =
     s\<lparr>ss_local_epoch := output_epoch, ss_requested_epoch := None, ss_barge_frames := 0,
       ss_output_active := (output_epoch \<noteq> None)\<rparr>"

definition reset_local_barge_in_detection :: "session \<Rightarrow> session" where
  "reset_local_barge_in_detection s = s\<lparr>ss_requested_epoch := None, ss_barge_frames := 0\<rparr>"

definition to_stopping :: "session \<Rightarrow> session" where
  "to_stopping s = (if ss_state s \<in> {Connecting, Ready} then s\<lparr>ss_state := Stopping\<rparr> else s)"

definition clear_audio :: "session \<Rightarrow> session" where
  "clear_audio s = s\<lparr>ss_queue := queue_clear (ss_queue s)\<rparr>"

definition interrupt :: "bool \<Rightarrow> session \<Rightarrow> session" where
  "interrupt preserve_session s =
     (if ss_terminal s then s
      else
        let s1 = s\<lparr>ss_preserve_session :=
                     (if ss_interrupt_requested s then ss_preserve_session s \<and> preserve_session
                      else preserve_session),
                   ss_interrupt_requested := True\<rparr>
        in reset_local_barge_in_detection (clear_audio (to_stopping s1)))"

definition stop :: "session \<Rightarrow> session" where
  "stop s =
     (if ss_terminal s then s
      else reset_local_barge_in_detection (clear_audio (to_stopping (s\<lparr>ss_stop_requested := True\<rparr>))))"

definition start :: "session \<Rightarrow> unit result \<times> session" where
  "start s =
     (if ss_state s \<noteq> New
      then (Inl (RuntimeError ''realtime session has already been started''), s)
      else (Inr (), s\<lparr>ss_state := Connecting\<rparr>))"

section \<open>The network thread\<close>

record network =
  nw_started_at :: rat
  nw_now :: rat
  nw_last_activity :: rat
  nw_pacer :: pacer
  nw_next_ping_at :: rat
  nw_pending_ping :: "bytes option"
  nw_pong_deadline :: "rat option"
  nw_output_epoch :: "int option"
  nw_last_output_epoch :: int
  nw_interrupt_sent :: bool
  nw_interrupt_deadline :: "rat option"

text \<open>Between the pop of a packet and its send the other threads run: the packet is then in \<open>SendPacket\<close>.\<close>

datatype phase = Idle | Waiting rat | Control | Service | SendAudio | SendPacket packet nat | PingPhase | Receive
  | Closing bool | Publishing bool | Finished

record world =
  w_session :: session
  w_net :: network
  w_player :: player
  w_conn :: ws_conn
  w_opened :: bool
  w_phase :: phase

text \<open>What one phase sees of its environment; \<open>en_later\<close> is a second reading of the clock.\<close>

record step_env =
  en_now :: rat
  en_later :: rat
  en_transport :: transport
  en_player :: player_env
  en_guard :: "unit result"
  en_ping :: bytes
  en_readable :: bool

definition flush_local_barge_in ::
    "player \<Rightarrow> int option \<Rightarrow> int \<Rightarrow> session \<Rightarrow> int option \<times> player \<times> session" where
  "flush_local_barge_in p output_epoch last_output_epoch s =
     (case ss_requested_epoch s of
        None \<Rightarrow> (output_epoch, p, s)
      | Some requested \<Rightarrow>
          let s1 = s\<lparr>ss_requested_epoch := None, ss_barge_frames := 0\<rparr>;
              matches = (output_epoch = Some requested \<or>
                (output_epoch = None \<and> requested = last_output_epoch \<and> player_active p))
          in if \<not> matches \<or> ss_local_epoch s1 \<noteq> Some requested then (output_epoch, p, s1)
             else (None, player_abort p,
                   s1\<lparr>ss_local_epoch := None, ss_output_active := False,
                      ss_suppressed_epoch := Some requested\<rparr>))"

datatype action = StopAction | Interrupted | InterruptResumed

type_synonym handled = "action option \<times> int option \<times> int \<times> bool"

definition speaking_started ::
    "realtime_config \<Rightarrow> player_env \<Rightarrow> unit result \<Rightarrow> int \<Rightarrow> int option \<Rightarrow> int \<Rightarrow> session \<Rightarrow> player \<Rightarrow>
     handled result \<times> session \<times> player" where
  "speaking_started cfg penv guard epoch output_epoch last_output_epoch s p =
     (if epoch \<le> last_output_epoch then (Inr (None, output_epoch, last_output_epoch, False), s, p)
      else if output_epoch \<noteq> None
      then (Inl (WebSocketError ''overlapping speaking epochs are not supported''), s, p)
      else
        let s1 = s\<lparr>ss_suppressed_epoch := None\<rparr>
        in (case (if cf_full_duplex cfg then guard else Inr ()) of
              Inl e \<Rightarrow> (Inl e, s1, p)
            | Inr _ \<Rightarrow>
                let s2 = set_local_output_epoch None s1
                in (case player_begin penv epoch p of
                      (Inl e, p1) \<Rightarrow> (Inl e, s2, p1)
                    | (Inr _, p1) \<Rightarrow>
                        (Inr (None, Some epoch, epoch, True),
                         set_local_output_epoch (Some epoch) s2, p1))))"

definition speaking_stopped ::
    "player_env \<Rightarrow> int \<Rightarrow> int option \<Rightarrow> int \<Rightarrow> session \<Rightarrow> player \<Rightarrow>
     handled result \<times> session \<times> player" where
  "speaking_stopped penv epoch output_epoch last_output_epoch s p =
     (case output_epoch of
        None \<Rightarrow>
          if ss_suppressed_epoch s = Some epoch
          then (Inr (None, None, last_output_epoch, True), s\<lparr>ss_suppressed_epoch := None\<rparr>, p)
          else if epoch \<le> last_output_epoch then (Inr (None, None, last_output_epoch, False), s, p)
          else (Inl (WebSocketError ''future speaking stop has no active epoch''), s, p)
      | Some current \<Rightarrow>
          if epoch \<noteq> current then
            if epoch < current then (Inr (None, output_epoch, last_output_epoch, False), s, p)
            else (Inl (WebSocketError ''speaking stop does not match active epoch''), s, p)
          else
            (case player_finish penv epoch p of
               (Inl e, p1) \<Rightarrow> (Inl e, s, p1)
             | (Inr _, p1) \<Rightarrow> (Inr (None, None, last_output_epoch, True), s, p1)))"

definition speech_started ::
    "realtime_config \<Rightarrow> int option \<Rightarrow> int \<Rightarrow> session \<Rightarrow> player \<Rightarrow> handled result \<times> session \<times> player" where
  "speech_started cfg output_epoch last_output_epoch s p =
     (if cf_full_duplex cfg \<and> (output_epoch \<noteq> None \<or> player_active p)
      then
        let s1 = set_local_output_epoch None s;
            suppressed = (case output_epoch of None \<Rightarrow> last_output_epoch
                          | Some e \<Rightarrow> if e = 0 then last_output_epoch else e)
        in (Inr (None, None, last_output_epoch, True),
            (if 0 < suppressed then s1\<lparr>ss_suppressed_epoch := Some suppressed\<rparr> else s1),
            player_abort p)
      else (Inr (None, output_epoch, last_output_epoch, True), s, p))"

definition handle_control_event ::
    "realtime_config \<Rightarrow> player_env \<Rightarrow> unit result \<Rightarrow> obj \<Rightarrow> int option \<Rightarrow> int \<Rightarrow> session \<Rightarrow> player \<Rightarrow>
     handled result \<times> session \<times> player" where
  "handle_control_event cfg penv guard v output_epoch last_output_epoch s p =
     (case text_of (jget v ''event_type'') of
        None \<Rightarrow> (Inl (WebSocketError ''unsupported realtime control event''), s, p)
      | Some event_type \<Rightarrow>
          if event_type \<notin> set session_control_events
          then (Inl (WebSocketError ''unsupported realtime control event''), s, p)
          else if event_type = ''speaking.started'' then
            (case output_epoch_of v of
               Inl e \<Rightarrow> (Inl e, s, p)
             | Inr epoch \<Rightarrow> speaking_started cfg penv guard epoch output_epoch last_output_epoch s p)
          else if event_type = ''speaking.stopped'' then
            (case output_epoch_of v of
               Inl e \<Rightarrow> (Inl e, s, p)
             | Inr epoch \<Rightarrow> speaking_stopped penv epoch output_epoch last_output_epoch s p)
          else if event_type = ''input_audio_buffer.speech_started''
          then speech_started cfg output_epoch last_output_epoch s p
          else (Inr (None, output_epoch, last_output_epoch, True), s, p))"

definition handle_stopped ::
    "obj \<Rightarrow> int \<Rightarrow> session \<Rightarrow> player \<Rightarrow> handled result \<times> session \<times> player" where
  "handle_stopped v last_output_epoch s p =
     (let s1 = set_local_output_epoch None s;
          s2 = s1\<lparr>ss_suppressed_epoch := None\<rparr>;
          p1 = player_abort p;
          fresh = jget v ''fresh_session_required'';
          cancelled = jget v ''remote_cancelled''
      in if jget v ''reason'' \<noteq> JStr ''interrupt''
         then (Inr (Some StopAction, None, last_output_epoch, True), s1, p1)
         else if fresh = JBool True \<and> cancelled = JBool False
         then (Inr (Some Interrupted, None, last_output_epoch, True), s2, p1)
         else if fresh = JBool False \<and> cancelled = JBool True
         then (Inr (Some InterruptResumed, None, last_output_epoch, True), s2, p1)
         else if fresh = JBool False \<and> cancelled = JBool False
              \<and> jget v ''continuation_safe'' = JBool True
         then (Inr (Some InterruptResumed, None, last_output_epoch, True), s2, p1)
         else (Inl (WebSocketError ''bridge returned incompatible interrupt semantics''), s1, p1))"

definition handle_message ::
    "realtime_config \<Rightarrow> (nat list \<Rightarrow> json option) \<Rightarrow> player_env \<Rightarrow> unit result \<Rightarrow> ws_message \<Rightarrow> int option \<Rightarrow> int \<Rightarrow>
     session \<Rightarrow> player \<Rightarrow> handled result \<times> session \<times> player" where
  "handle_message cfg loads penv guard message output_epoch last_output_epoch s p =
     (case message of
        Binary data \<Rightarrow>
          (case output_epoch of
             None \<Rightarrow>
               if ss_suppressed_epoch s \<noteq> None then (Inr (None, None, last_output_epoch, False), s, p)
               else (Inl (WebSocketError ''binary output arrived outside a speaking epoch''), s, p)
           | Some _ \<Rightarrow>
               (case player_enqueue data p of
                  (Inl e, p1) \<Rightarrow> (Inl e, s, p1)
                | (Inr _, p1) \<Rightarrow> (Inr (None, output_epoch, last_output_epoch, True), s, p1)))
      | Pong _ \<Rightarrow> (Inl (WebSocketError ''unexpected WebSocket message kind''), s, p)
      | Text data \<Rightarrow>
          (case json_object loads data of
             Inl e \<Rightarrow> (Inl e, s, p)
           | Inr v \<Rightarrow>
               let message_type = jget v ''type''
               in if message_type = JStr ''control''
                  then handle_control_event cfg penv guard v output_epoch last_output_epoch s p
                  else if message_type = JStr ''pong''
                  then (Inr (None, output_epoch, last_output_epoch, False), s, p)
                  else if message_type = JStr ''stopped'' then handle_stopped v last_output_epoch s p
                  else if message_type = JStr ''error''
                  then (Inl (WebSocketError ''bridge reported a realtime session error''), s, p)
                  else (Inl (WebSocketError ''unsupported realtime JSON message''), s, p)))"

section \<open>One iteration of the loop, in phases\<close>

text \<open>A phase goes on, returns from \<^verbatim>\<open>_run\<close>, or raises.\<close>

datatype outcome = Go phase | Return | Raise py_error

definition control_phase ::
    "(pyfloat \<Rightarrow> string) \<Rightarrow> realtime_config \<Rightarrow> step_env \<Rightarrow> world \<Rightarrow> outcome \<times> world" where
  "control_phase frepr cfg env w =
     (let now = en_now env; net = (w_net w)\<lparr>nw_now := now\<rparr>; s = w_session w;
          silent = clear_audio (set_local_output_epoch None s)
      in case check_deadlines now (nw_started_at net) (nw_last_activity net)
                (cf_max_session_seconds cfg) (cf_idle_timeout_seconds cfg)
                (nw_pending_ping net) (nw_pong_deadline net) of
           Inl e \<Rightarrow> (Raise e, w\<lparr>w_net := net\<rparr>)
         | Inr _ \<Rightarrow>
             if ss_interrupt_requested s then
               let s1 = (case nw_output_epoch net of
                           None \<Rightarrow> silent | Some e \<Rightarrow> silent\<lparr>ss_suppressed_epoch := Some e\<rparr>);
                   net1 = net\<lparr>nw_output_epoch := None\<rparr>;
                   w1 = w\<lparr>w_session := s1, w_player := player_abort (w_player w), w_net := net1\<rparr>
               in if \<not> nw_interrupt_sent net1 then
                    (case ws_send_json frepr (en_transport env) [(''type'', JStr ''interrupt'')] (w_conn w1) of
                       (Inl e, c) \<Rightarrow> (Raise e, w1\<lparr>w_conn := c\<rparr>)
                     | (Inr _, c) \<Rightarrow>
                         (Go Service, w1\<lparr>w_conn := c, w_net := net1\<lparr>nw_interrupt_sent := True,
                            nw_interrupt_deadline := Some (now + cf_io_timeout_seconds cfg)\<rparr>\<rparr>))
                  else if (case nw_interrupt_deadline net1 of None \<Rightarrow> False | Some d \<Rightarrow> d \<le> now)
                  then (Return, w1) else (Go Service, w1)
             else if ss_stop_requested s then
               let w1 = w\<lparr>w_session := silent, w_player := player_abort (w_player w), w_net := net\<rparr>
               in (case ws_send_json frepr (en_transport env) [(''type'', JStr ''stop'')] (w_conn w1) of
                     (Inl e, c) \<Rightarrow> (Raise e, w1\<lparr>w_conn := c\<rparr>)
                   | (Inr _, c) \<Rightarrow> (Return, w1\<lparr>w_conn := c\<rparr>))
             else
               (case flush_local_barge_in (w_player w) (nw_output_epoch net) (nw_last_output_epoch net) s of
                  (output_epoch, p, s1) \<Rightarrow>
                    (Go Service, w\<lparr>w_session := s1, w_player := p,
                                   w_net := net\<lparr>nw_output_epoch := output_epoch\<rparr>\<rparr>)))"

definition service_phase :: "step_env \<Rightarrow> world \<Rightarrow> outcome \<times> world" where
  "service_phase env w =
     (case player_service (en_player env) (w_player w) of
        (Inl e, p) \<Rightarrow> (Raise e, w\<lparr>w_player := p\<rparr>)
      | (Inr _, p) \<Rightarrow>
          (Go SendAudio,
           w\<lparr>w_player := p,
             w_session := (if nw_output_epoch (w_net w) = None \<and> \<not> player_active p
                           then set_local_output_epoch None (w_session w) else w_session w)\<rparr>))"

definition audio_phase :: "step_env \<Rightarrow> world \<Rightarrow> outcome \<times> world" where
  "audio_phase env w =
     (let net = w_net w; s = w_session w
      in if nw_interrupt_sent net \<or> \<not> pacer_due (nw_now net) (nw_pacer net) then (Go PingPhase, w)
         else
           (case queue_pop (ss_queue s) of
              ((None, _), q) \<Rightarrow> (Go PingPhase, w\<lparr>w_session := s\<lparr>ss_queue := q\<rparr>\<rparr>)
            | ((Some p, remaining), q) \<Rightarrow> (Go (SendPacket p remaining), w\<lparr>w_session := s\<lparr>ss_queue := q\<rparr>\<rparr>)))"

definition send_packet_phase :: "packet \<Rightarrow> nat \<Rightarrow> step_env \<Rightarrow> world \<Rightarrow> outcome \<times> world" where
  "send_packet_phase p remaining env w =
     (let net = w_net w
      in case send_binary (en_transport env) (pk_data p) (w_conn w) of
           (Inl e, c) \<Rightarrow> (Raise e, w\<lparr>w_conn := c\<rparr>)
         | (Inr _, c) \<Rightarrow>
             (Go PingPhase,
              w\<lparr>w_conn := c, w_net := net\<lparr>
                 nw_last_activity := (if pcm_has_signal (pk_data p) then en_later env
                                      else nw_last_activity net),
                 nw_pacer := pacer_sent (nw_now net) (length (pk_data p)) (0 < remaining)\<rparr>\<rparr>))"

definition ping_phase :: "realtime_config \<Rightarrow> step_env \<Rightarrow> world \<Rightarrow> outcome \<times> world" where
  "ping_phase cfg env w =
     (let net = w_net w
      in if nw_pending_ping net \<noteq> None \<or> nw_now net < nw_next_ping_at net then (Go Receive, w)
         else
           let net1 = net\<lparr>nw_pending_ping := Some (en_ping env)\<rparr>
           in (case send_ping (en_transport env) (en_ping env) (w_conn w) of
                 (Inl e, c) \<Rightarrow> (Raise e, w\<lparr>w_net := net1, w_conn := c\<rparr>)
               | (Inr _, c) \<Rightarrow>
                   (Go Receive, w\<lparr>w_conn := c, w_net := net1\<lparr>
                      nw_pong_deadline := Some (nw_now net + cf_pong_timeout_seconds cfg),
                      nw_next_ping_at := nw_now net + cf_ping_interval_seconds cfg\<rparr>\<rparr>)))"

text \<open>The time the loop may wait in \<^verbatim>\<open>select\<close>.\<close>

definition NETWORK_TICK_SECONDS :: rat where "NETWORK_TICK_SECONDS = 2 / 100"

definition ping_wait :: "network \<Rightarrow> rat" where
  "ping_wait net =
     (if nw_pending_ping net = None then max 0 (nw_next_ping_at net - nw_now net)
      else
        let deadline = (case nw_pong_deadline net of None \<Rightarrow> nw_now net
                        | Some d \<Rightarrow> if d = 0 then nw_now net else d)
        in max 0 (deadline - nw_now net))"

definition poll_timeout :: "realtime_config \<Rightarrow> network \<Rightarrow> rat" where
  "poll_timeout cfg net =
     (let now = nw_now net; delay = pacer_delay now (nw_pacer net)
      in min NETWORK_TICK_SECONDS
           (min (if delay = 0 then NETWORK_TICK_SECONDS else delay)
             (min (ping_wait net)
               (min (max 0 (nw_started_at net + cf_max_session_seconds cfg - now))
                    (max 0 (nw_last_activity net + cf_idle_timeout_seconds cfg - now))))))"

definition after_message ::
    "(pyfloat \<Rightarrow> string) \<Rightarrow> step_env \<Rightarrow> handled \<Rightarrow> world \<Rightarrow> outcome \<times> world" where
  "after_message frepr env r w =
     (case r of (act, output_epoch, last_output_epoch, semantic) \<Rightarrow>
        let net = (w_net w)\<lparr>nw_output_epoch := output_epoch, nw_last_output_epoch := last_output_epoch,
                            nw_last_activity := (if semantic then en_later env
                                                 else nw_last_activity (w_net w))\<rparr>;
            w1 = w\<lparr>w_net := net\<rparr>
        in if act = Some StopAction then (Return, w1)
           else if nw_interrupt_sent net \<and> act = Some Interrupted then (Return, w1)
           else if nw_interrupt_sent net \<and> act = Some InterruptResumed then
             let s1 = set_local_output_epoch None (w_session w1)
             in if \<not> ss_preserve_session s1 then
                  (case ws_send_json frepr (en_transport env) [(''type'', JStr ''stop'')] (w_conn w1) of
                     (Inl e, c) \<Rightarrow> (Raise e, w1\<lparr>w_session := s1, w_conn := c\<rparr>)
                   | (Inr _, c) \<Rightarrow> (Return, w1\<lparr>w_session := s1, w_conn := c\<rparr>))
                else
                  (Go Control,
                   w1\<lparr>w_session := s1\<lparr>ss_interrupt_requested := False,
                        ss_state := (if ss_state s1 = Stopping then Ready else ss_state s1),
                        ss_suppressed_epoch := None\<rparr>,
                      w_net := net\<lparr>nw_interrupt_sent := False, nw_interrupt_deadline := None,
                        nw_last_activity := en_later env\<rparr>\<rparr>)
           else (Go Control, w1))"

definition receive_phase ::
    "(pyfloat \<Rightarrow> string) \<Rightarrow> (nat list \<Rightarrow> json option) \<Rightarrow> realtime_config \<Rightarrow> step_env \<Rightarrow> world \<Rightarrow> outcome \<times> world" where
  "receive_phase frepr loads cfg env w =
     (case ws_pending (w_conn w) of
        Inl e \<Rightarrow> (Raise e, w)
      | Inr buffered \<Rightarrow>
          if buffered = 0 \<and> \<not> en_readable env then (Go Control, w)
          else
            (case receive_message (en_transport env) (w_conn w) of
               (Inl e, c) \<Rightarrow> (Raise e, w\<lparr>w_conn := c\<rparr>)
             | (Inr None, c) \<Rightarrow> (Go Control, w\<lparr>w_conn := c\<rparr>)
             | (Inr (Some (Pong data)), c) \<Rightarrow>
                 (Go Control,
                  w\<lparr>w_conn := c,
                    w_net := (if nw_pending_ping (w_net w) = Some data
                              then (w_net w)\<lparr>nw_pending_ping := None, nw_pong_deadline := None\<rparr>
                              else w_net w)\<rparr>)
             | (Inr (Some m), c) \<Rightarrow>
                 (case handle_message cfg loads (en_player env) (en_guard env) m
                         (nw_output_epoch (w_net w)) (nw_last_output_epoch (w_net w))
                         (w_session w) (w_player w) of
                    (Inl e, s, p) \<Rightarrow> (Raise e, w\<lparr>w_conn := c, w_session := s, w_player := p\<rparr>)
                  | (Inr r, s, p) \<Rightarrow>
                      after_message frepr env r (w\<lparr>w_conn := c, w_session := s, w_player := p\<rparr>))))"

section \<open>Startup and shutdown\<close>

definition new_network :: "rat \<Rightarrow> network" where
  "new_network now =
     \<lparr>nw_started_at = now, nw_now = now, nw_last_activity = now, nw_pacer = None, nw_next_ping_at = now,
      nw_pending_ping = None, nw_pong_deadline = None, nw_output_epoch = None, nw_last_output_epoch = 0,
      nw_interrupt_sent = False, nw_interrupt_deadline = None\<rparr>"

text \<open>\<open>dialled\<close> is the outcome of the AEC check and of the connection factory.\<close>

definition connect_phase ::
    "(pyfloat \<Rightarrow> string) \<Rightarrow> realtime_config \<Rightarrow> ws_conn result \<Rightarrow> step_env \<Rightarrow> world \<Rightarrow> outcome \<times> world" where
  "connect_phase frepr cfg dialled env w =
     (case dialled of
        Inl e \<Rightarrow> (Raise e, w)
      | Inr conn \<Rightarrow>
          let w1 = w\<lparr>w_net := new_network (en_now env), w_opened := True\<rparr>
          in (case ws_send_json frepr (en_transport env) (realtime_start_message cfg) conn of
                (Inl e, c) \<Rightarrow> (Raise e, w1\<lparr>w_conn := c\<rparr>)
              | (Inr _, c) \<Rightarrow>
                  (Go (Waiting (min (en_now env + cf_max_session_seconds cfg)
                                    (en_later env + cf_handshake_timeout_seconds cfg))),
                   w1\<lparr>w_conn := c, w_net := (new_network (en_now env))\<lparr>nw_last_activity := en_later env\<rparr>\<rparr>)))"

definition session_started :: "realtime_config \<Rightarrow> step_env \<Rightarrow> world \<Rightarrow> outcome \<times> world" where
  "session_started cfg env w =
     (let s = w_session w
      in (Go Control,
          w\<lparr>w_session := s\<lparr>ss_ever_ready := True, ss_ready := True,
               ss_state := (if ss_state s = Connecting then Ready else ss_state s)\<rparr>,
            w_net := (w_net w)\<lparr>nw_last_activity := en_later env,
               nw_next_ping_at := en_later env + cf_ping_interval_seconds cfg\<rparr>\<rparr>))"

definition waiting_phase ::
    "(nat list \<Rightarrow> json option) \<Rightarrow> realtime_config \<Rightarrow> rat \<Rightarrow> step_env \<Rightarrow> world \<Rightarrow> outcome \<times> world" where
  "waiting_phase loads cfg deadline env w =
     (if ss_stop_requested (w_session w) \<or> ss_interrupt_requested (w_session w)
      then (Raise (WebSocketClosed ''realtime startup was cancelled''), w)
      else if deadline - en_now env \<le> 0
      then (Raise (TimeoutError ''realtime start acknowledgement timed out''), w)
      else
        (case ws_pending (w_conn w) of
           Inl e \<Rightarrow> (Raise e, w)
         | Inr buffered \<Rightarrow>
             if buffered = 0 \<and> \<not> en_readable env then (Go (Waiting deadline), w)
             else
               (case receive_message (en_transport env) (w_conn w) of
                  (Inl e, c) \<Rightarrow> (Raise e, w\<lparr>w_conn := c\<rparr>)
                | (Inr None, c) \<Rightarrow> (Go (Waiting deadline), w\<lparr>w_conn := c\<rparr>)
                | (Inr (Some (Pong _)), c) \<Rightarrow> (Go (Waiting deadline), w\<lparr>w_conn := c\<rparr>)
                | (Inr (Some (Binary _)), c) \<Rightarrow>
                    (Raise (WebSocketError ''realtime start must be acknowledged with JSON''), w\<lparr>w_conn := c\<rparr>)
                | (Inr (Some (Text data)), c) \<Rightarrow>
                    (case bind_result (json_object loads data) (\<lambda>v.
                            if jget v ''type'' = JStr ''error''
                            then Inl (WebSocketError ''bridge rejected realtime startup'')
                            else validate_started v) of
                       Inl e \<Rightarrow> (Raise e, w\<lparr>w_conn := c\<rparr>)
                     | Inr _ \<Rightarrow> session_started cfg env (w\<lparr>w_conn := c\<rparr>)))))"

fun expected_error :: "py_error \<Rightarrow> bool" where
  "expected_error (OSError _) = True"
| "expected_error (TimeoutError _) = True"
| "expected_error (ValueError _) = True"
| "expected_error (ConfigError _) = True"
| "expected_error (WebSocketError _) = True"
| "expected_error (WebSocketClosed _) = True"
| "expected_error _ = False"

text \<open>The \<^verbatim>\<open>except\<close> clauses: whether the session counts as failed.\<close>

definition resolve_outcome :: "outcome \<times> world \<Rightarrow> world" where
  "resolve_outcome r =
     (case r of
        (Go ph, w) \<Rightarrow> w\<lparr>w_phase := ph\<rparr>
      | (Return, w) \<Rightarrow> w\<lparr>w_phase := Closing False\<rparr>
      | (Raise e, w) \<Rightarrow>
          w\<lparr>w_phase := Closing (\<not> (expected_error e \<and>
             (ss_stop_requested (w_session w) \<or> ss_interrupt_requested (w_session w))))\<rparr>)"

definition closing_phase :: "bool \<Rightarrow> step_env \<Rightarrow> world \<Rightarrow> world" where
  "closing_phase failed env w =
     w\<lparr>w_session := clear_audio (set_local_output_epoch None (w_session w)),
       w_player := player_abort (w_player w),
       w_conn := (if w_opened w then ws_close (snd (send_close (en_transport env) 1000 (w_conn w)))
                  else w_conn w),
       w_phase := Publishing failed\<rparr>"

definition publish_terminal :: "bool \<Rightarrow> world \<Rightarrow> world" where
  "publish_terminal failed w =
     w\<lparr>w_session := (w_session w)\<lparr>ss_state := (if failed then SessionFailed else Stopped),
          ss_terminal := True\<rparr>,
       w_phase := Finished\<rparr>"

section \<open>The session thread, and the calls of other threads\<close>

definition new_world :: "realtime_config \<Rightarrow> world" where
  "new_world cfg =
     \<lparr>w_session = new_session cfg, w_net = new_network 0,
      w_player = new_player (nat (cf_output_queue_bytes cfg)),
      w_conn = new_conn [] (nat (cf_max_message_bytes cfg)), w_opened = False, w_phase = Idle\<rparr>"

text \<open>One phase of \<^verbatim>\<open>_run\<close>; before \<^verbatim>\<open>start\<close> and after \<^verbatim>\<open>_run\<close> there is no thread.\<close>

definition network_step ::
    "(pyfloat \<Rightarrow> string) \<Rightarrow> (nat list \<Rightarrow> json option) \<Rightarrow> realtime_config \<Rightarrow> ws_conn result \<Rightarrow> step_env \<Rightarrow>
     world \<Rightarrow> world" where
  "network_step frepr loads cfg dialled env w =
     (case w_phase w of
        Idle \<Rightarrow> if ss_state (w_session w) = New then w
                else resolve_outcome (connect_phase frepr cfg dialled env w)
      | Waiting deadline \<Rightarrow> resolve_outcome (waiting_phase loads cfg deadline env w)
      | Control \<Rightarrow> resolve_outcome (control_phase frepr cfg env w)
      | Service \<Rightarrow> resolve_outcome (service_phase env w)
      | SendAudio \<Rightarrow> resolve_outcome (audio_phase env w)
      | SendPacket p remaining \<Rightarrow> resolve_outcome (send_packet_phase p remaining env w)
      | PingPhase \<Rightarrow> resolve_outcome (ping_phase cfg env w)
      | Receive \<Rightarrow> resolve_outcome (receive_phase frepr loads cfg env w)
      | Closing failed \<Rightarrow> closing_phase failed env w
      | Publishing failed \<Rightarrow> publish_terminal failed w
      | Finished \<Rightarrow> w)"

datatype event = Network step_env | Submit rat bytes | InterruptCall bool | StopCall | StartCall

definition session_step ::
    "(pyfloat \<Rightarrow> string) \<Rightarrow> (nat list \<Rightarrow> json option) \<Rightarrow> realtime_config \<Rightarrow> ws_conn result \<Rightarrow> event \<Rightarrow>
     world \<Rightarrow> world" where
  "session_step frepr loads cfg dialled ev w =
     (case ev of
        Network env \<Rightarrow> network_step frepr loads cfg dialled env w
      | Submit now v \<Rightarrow> w\<lparr>w_session := snd (submit_audio cfg now v (w_session w))\<rparr>
      | InterruptCall preserve_session \<Rightarrow> w\<lparr>w_session := interrupt preserve_session (w_session w)\<rparr>
      | StopCall \<Rightarrow> w\<lparr>w_session := stop (w_session w)\<rparr>
      | StartCall \<Rightarrow> w\<lparr>w_session := snd (start (w_session w))\<rparr>)"

end
