(* ===== verification/Session_Invariant.thy ===== *)
theory Session_Invariant
  imports Session
begin

text \<open>
  Runs of the device session: the network thread's phases interleaved with the calls of the capture
  thread and of the controllers, the invariant of every reachable state, and the properties of
  \<^verbatim>\<open>RealtimeSession\<close>. One call of another thread happens between two phases.
\<close>

section \<open>The invariant\<close>

definition packet_ok :: "realtime_config \<Rightarrow> packet \<Rightarrow> bool" where
  "packet_ok cfg p \<longleftrightarrow>
     pk_data p \<noteq> [] \<and> even (length (pk_data p)) \<and> int (length (pk_data p)) \<le> cf_max_message_bytes cfg"

text \<open>The capture thread's view: the gate, the detector and the microphone queue.\<close>

definition capture_ok :: "realtime_config \<Rightarrow> session \<Rightarrow> bool" where
  "capture_ok cfg s \<longleftrightarrow>
     (ss_output_active s \<longleftrightarrow> ss_local_epoch s \<noteq> None) \<and>
     (\<forall>e. ss_requested_epoch s = Some e \<longrightarrow> ss_local_epoch s = Some e \<and> cf_full_duplex cfg) \<and>
     ss_barge_frames s < LOCAL_BARGE_IN_FRAMES \<and>
     queue_valid (nat (cf_input_queue_bytes cfg)) (ss_queue s) \<and>
     (\<forall>p \<in> set (aq_items (ss_queue s)). packet_ok cfg p) \<and>
     (ss_state s \<in> {New, Stopping} \<longrightarrow> aq_items (ss_queue s) = [])"

definition player_ok :: "player \<Rightarrow> bool" where
  "player_ok p \<longleftrightarrow>
     pl_epoch p = pl_process p \<and> (pl_stdin p \<longrightarrow> pl_process p \<noteq> None) \<and> length (pl_pending p) \<le> pl_maximum p"

text \<open>Output generations: everything that is or was audible belongs to the last epoch or an earlier one.\<close>

definition epochs_ok :: "int option \<Rightarrow> int \<Rightarrow> session \<Rightarrow> player \<Rightarrow> bool" where
  "epochs_ok output_epoch last_output_epoch s p \<longleftrightarrow>
     0 \<le> last_output_epoch \<and>
     (\<forall>e. output_epoch = Some e \<longrightarrow> e = last_output_epoch \<and> 1 \<le> e) \<and>
     (\<forall>e. ss_local_epoch s = Some e \<longrightarrow> e = last_output_epoch \<and> 1 \<le> e) \<and>
     (\<forall>e. ss_suppressed_epoch s = Some e \<longrightarrow> 1 \<le> e \<and> e \<le> last_output_epoch) \<and>
     (\<forall>e. pl_process p = Some e \<longrightarrow> e = last_output_epoch \<and> 1 \<le> e) \<and>
     (\<forall>e \<in> set (map fst (pl_written p)). 1 \<le> e \<and> e \<le> last_output_epoch) \<and>
     sorted (map fst (pl_written p))"

definition live :: "phase \<Rightarrow> bool" where
  "live ph \<longleftrightarrow> ph \<in> {Control, Service, SendAudio, PingPhase, Receive} \<or> (\<exists>p remaining. ph = SendPacket p remaining)"

text \<open>The lifecycle: the published state, the requests and the network thread's own timers.\<close>

definition lifecycle_ok :: "phase \<Rightarrow> session \<Rightarrow> network \<Rightarrow> bool" where
  "lifecycle_ok ph s n \<longleftrightarrow>
     (ph = Idle \<longrightarrow> ss_state s \<in> {New, Connecting, Stopping} \<and> nw_last_output_epoch n = 0) \<and>
     (ph \<noteq> Idle \<longrightarrow> ss_state s \<noteq> New) \<and>
     (\<forall>d. ph = Waiting d \<longrightarrow> ss_state s \<in> {Connecting, Stopping} \<and> \<not> nw_interrupt_sent n \<and>
        nw_interrupt_deadline n = None \<and> nw_pending_ping n = None \<and> nw_pong_deadline n = None) \<and>
     (live ph \<longrightarrow> ss_state s \<in> {Ready, Stopping}) \<and>
     (ph = Finished \<longleftrightarrow> ss_terminal s) \<and>
     (ph = Finished \<longrightarrow> ss_state s \<in> {Stopped, SessionFailed}) \<and>
     (live ph \<and> ph \<noteq> Control \<and> (ss_stop_requested s \<or> ss_interrupt_requested s) \<longrightarrow>
        nw_interrupt_sent n \<or> ss_state s = Stopping) \<and>
     (live ph \<longrightarrow> (nw_interrupt_sent n \<longrightarrow> ss_interrupt_requested s) \<and>
        (nw_interrupt_sent n \<longleftrightarrow> nw_interrupt_deadline n \<noteq> None) \<and>
        (nw_pending_ping n = None \<longleftrightarrow> nw_pong_deadline n = None))"

definition session_inv :: "realtime_config \<Rightarrow> world \<Rightarrow> bool" where
  "session_inv cfg w \<longleftrightarrow>
     capture_ok cfg (w_session w) \<and> player_ok (w_player w) \<and>
     epochs_ok (nw_output_epoch (w_net w)) (nw_last_output_epoch (w_net w)) (w_session w) (w_player w) \<and>
     lifecycle_ok (w_phase w) (w_session w) (w_net w) \<and> ws_inv (w_conn w)"

inductive session_reachable ::
    "(pyfloat \<Rightarrow> string) \<Rightarrow> (nat list \<Rightarrow> json option) \<Rightarrow> realtime_config \<Rightarrow> ws_conn result \<Rightarrow> world \<Rightarrow> bool"
  for frepr loads cfg dialled where
  fresh: "session_reachable frepr loads cfg dialled (new_world cfg)"
| steps: "session_reachable frepr loads cfg dialled w \<Longrightarrow>
    (\<And>env. ev = Network env \<Longrightarrow> honest (en_transport env)) \<Longrightarrow>
    session_reachable frepr loads cfg dialled (session_step frepr loads cfg dialled ev w)"

section \<open>The capture thread and the controllers keep it\<close>

lemma set_local_capture [simp]:
  "capture_ok cfg s \<Longrightarrow> capture_ok cfg (set_local_output_epoch e s)"
  by (auto simp: capture_ok_def set_local_output_epoch_def LOCAL_BARGE_IN_FRAMES_def)

lemma clear_capture [simp]: "capture_ok cfg s \<Longrightarrow> capture_ok cfg (clear_audio s)"
  by (auto simp: capture_ok_def clear_audio_def queue_clear_def queue_valid_def)

lemma reset_capture [simp]: "capture_ok cfg s \<Longrightarrow> capture_ok cfg (reset_local_barge_in_detection s)"
  by (auto simp: capture_ok_def reset_local_barge_in_detection_def LOCAL_BARGE_IN_FRAMES_def)

lemma detect_capture: "capture_ok cfg s \<Longrightarrow> capture_ok cfg (detect_local_barge_in cfg v s)"
  by (auto simp: capture_ok_def detect_local_barge_in_def LOCAL_BARGE_IN_FRAMES_def Let_def
      split: option.splits)

lemma queue_put_capture:
  assumes "capture_ok cfg s" "packet_ok cfg p" "queue_put p (ss_queue s) = (ok, q)"
    "ss_state s \<in> {Connecting, Ready}"
  shows "capture_ok cfg (s\<lparr>ss_queue := q\<rparr>)"
  using assms
  by (auto simp: capture_ok_def queue_put_def queue_valid_def packet_weight_def split: if_splits)

lemma submit_capture:
  assumes "capture_ok cfg s"
  shows "capture_ok cfg (snd (submit_audio cfg now v s))"
proof -
  have "packet_ok cfg \<lparr>pk_data = v, pk_captured_at = now\<rparr>"
    if "\<not> (v = [] \<or> length v mod 2 \<noteq> 0)" "\<not> cf_max_message_bytes cfg < int (length v)"
    using that by (auto simp: packet_ok_def even_iff_mod_2_eq_zero)
  then show ?thesis
    using assms by (auto simp: submit_audio_def split: prod.splits bool.splits
        intro!: detect_capture queue_put_capture)
qed

text \<open>A controller's call: what it leaves alone.\<close>

lemma stopping_capture:
  "capture_ok cfg s \<Longrightarrow> capture_ok cfg (reset_local_barge_in_detection (clear_audio (to_stopping s)))"
  by (auto simp: capture_ok_def reset_local_barge_in_detection_def LOCAL_BARGE_IN_FRAMES_def clear_audio_def
      queue_clear_def queue_valid_def to_stopping_def)

lemma flags_capture:
  "capture_ok cfg s \<Longrightarrow> capture_ok cfg (s\<lparr>ss_preserve_session := a, ss_interrupt_requested := b\<rparr>)"
  "capture_ok cfg s \<Longrightarrow> capture_ok cfg (s\<lparr>ss_stop_requested := b\<rparr>)"
  by (simp_all add: capture_ok_def)

lemma calls_capture:
  assumes "capture_ok cfg s"
  shows "capture_ok cfg (interrupt pr s)" "capture_ok cfg (stop s)" "capture_ok cfg (snd (start s))"
  using assms
  by (auto simp: interrupt_def stop_def start_def Let_def intro!: stopping_capture flags_capture)
    (auto simp: capture_ok_def)

lemmas call_defs = submit_audio_def detect_local_barge_in_def interrupt_def stop_def start_def to_stopping_def
  clear_audio_def reset_local_barge_in_detection_def

lemma calls_epochs [simp]:
  "ss_local_epoch (snd (submit_audio cfg now v s)) = ss_local_epoch s"
  "ss_suppressed_epoch (snd (submit_audio cfg now v s)) = ss_suppressed_epoch s"
  "ss_local_epoch (interrupt pr s) = ss_local_epoch s"
  "ss_suppressed_epoch (interrupt pr s) = ss_suppressed_epoch s"
  "ss_local_epoch (stop s) = ss_local_epoch s" "ss_suppressed_epoch (stop s) = ss_suppressed_epoch s"
  "ss_local_epoch (snd (start s)) = ss_local_epoch s"
  "ss_suppressed_epoch (snd (start s)) = ss_suppressed_epoch s"
  by (auto simp: call_defs Let_def split: prod.splits bool.splits option.splits)

lemma submit_lifecycle [simp]:
  "ss_state (snd (submit_audio cfg now v s)) = ss_state s"
  "ss_terminal (snd (submit_audio cfg now v s)) = ss_terminal s"
  "ss_stop_requested (snd (submit_audio cfg now v s)) = ss_stop_requested s"
  "ss_interrupt_requested (snd (submit_audio cfg now v s)) = ss_interrupt_requested s"
  "ss_preserve_session (snd (submit_audio cfg now v s)) = ss_preserve_session s"
  by (auto simp: call_defs Let_def split: prod.splits bool.splits option.splits)

lemma interrupt_lifecycle:
  "ss_terminal (interrupt pr s) = ss_terminal s"
  "ss_stop_requested (interrupt pr s) = ss_stop_requested s"
  "ss_interrupt_requested (interrupt pr s) \<longleftrightarrow> \<not> ss_terminal s \<or> ss_interrupt_requested s"
  "ss_state (interrupt pr s) =
     (if \<not> ss_terminal s \<and> ss_state s \<in> {Connecting, Ready} then Stopping else ss_state s)"
  by (simp_all add: call_defs Let_def)

lemma stop_lifecycle:
  "ss_terminal (stop s) = ss_terminal s"
  "ss_stop_requested (stop s) \<longleftrightarrow> \<not> ss_terminal s \<or> ss_stop_requested s"
  "ss_interrupt_requested (stop s) = ss_interrupt_requested s"
  "ss_state (stop s) =
     (if \<not> ss_terminal s \<and> ss_state s \<in> {Connecting, Ready} then Stopping else ss_state s)"
  by (simp_all add: call_defs)

lemma calls_lifecycle:
  assumes "lifecycle_ok ph s n"
  shows "lifecycle_ok ph (snd (submit_audio cfg now v s)) n" "lifecycle_ok ph (interrupt pr s) n"
    "lifecycle_ok ph (stop s) n" "lifecycle_ok ph (snd (start s)) n"
proof -
  show "lifecycle_ok ph (snd (submit_audio cfg now v s)) n" 
    using assms unfolding lifecycle_ok_def submit_lifecycle .
  show "lifecycle_ok ph (interrupt pr s) n" "lifecycle_ok ph (stop s) n" "lifecycle_ok ph (snd (start s)) n"
    using assms
    by (cases ph; cases "ss_state s"; simp add: lifecycle_ok_def interrupt_lifecycle stop_lifecycle
        start_def live_def)+
qed

section \<open>The player and the messages keep it\<close>

text \<open>Output of one operation: a child only accepts bytes of its own epoch, and a new child is newer.\<close>

definition output_step :: "int \<Rightarrow> player \<Rightarrow> player \<Rightarrow> bool" where
  "output_step last_output_epoch p q \<longleftrightarrow>
     (\<exists>new. pl_written q = pl_written p @ new \<and> (\<forall>e \<in> set (map fst new). pl_process p = Some e)) \<and>
     (\<forall>e. pl_process q = Some e \<longrightarrow> pl_process p = Some e \<or> last_output_epoch < e)"

lemma output_step_refl [simp]: "output_step n p p"
  by (simp add: output_step_def)

lemma abort_player [simp]:
  "player_ok (player_abort p)" "output_step n p (player_abort p)" "pl_process (player_abort p) = None"
  by (simp_all add: player_abort_def player_ok_def output_step_def)

lemma enqueue_player:
  assumes "player_enqueue v p = (r, q)"
  shows "output_step n p q" "player_ok p \<Longrightarrow> player_ok q" "pl_process q = pl_process p"
  using assms by (auto simp: player_enqueue_def player_ok_def output_step_def split: if_splits)

lemma write_player:
  assumes "player_write env e p = (r, q)" "pl_process p = Some e"
  shows "output_step n p q" "player_ok p \<Longrightarrow> player_ok q" "pl_process q = pl_process p"
  using assms
  by (auto simp: player_write_def player_ok_def output_step_def Let_def split: if_splits write_outcome.splits)

lemma service_player:
  assumes "player_service env p = (r, q)"
  shows "output_step n p q \<and> (player_ok p \<longrightarrow> player_ok q) \<and> pl_process q \<in> {None, pl_process p}"
proof (cases "pl_process p")
  case None
  then show ?thesis using assms by (simp add: player_service_def)
next
  case (Some e)
  obtain r1 p1 where w: "player_write env e p = (r1, p1)" by fastforce
  note w1 = write_player [OF w Some]
  show ?thesis
    using assms w1 w1(1) [of n] Some w
    by (auto simp: player_service_def reap_finished_def Let_def player_ok_def output_step_def
        split: if_splits sum.splits)
qed

lemma finish_player:
  assumes "player_finish env e p = (r, q)"
  shows "output_step n p q \<and> (player_ok p \<longrightarrow> player_ok q) \<and> pl_process q \<in> {None, pl_process p}"
  using assms service_player [of env "p\<lparr>pl_finish_when_drained := True\<rparr>" r q n]
  by (auto simp: player_finish_def output_step_def player_ok_def split: if_splits)

lemma begin_player:
  assumes "player_begin env e p = (r, q)"
  shows "player_ok q" "pl_written q = pl_written p"
    "pl_process q = (case r of Inl _ \<Rightarrow> None | Inr _ \<Rightarrow> Some e)"
  using assms
  by (auto simp: player_begin_def player_ok_def player_abort_def Let_def split: spawn_outcome.splits)

lemma epochs_weaken:
  assumes "epochs_ok out last_epoch s p" "output_step last_epoch p q" "pl_process q \<in> {None, pl_process p}"
    "ss_local_epoch s1 \<in> {None, ss_local_epoch s}" "out1 \<in> {None, out}"
    "\<And>e. ss_suppressed_epoch s1 = Some e \<Longrightarrow> 1 \<le> e \<and> e \<le> last_epoch"
  shows "epochs_ok out1 last_epoch s1 q"
proof -
  obtain new where new: "pl_written q = pl_written p @ new" "\<forall>e \<in> set (map fst new). pl_process p = Some e"
    using assms(2) unfolding output_step_def by blast
  have proc: "e = last_epoch \<and> 1 \<le> e" if "pl_process p = Some e" for e
    using assms(1) that by (auto simp: epochs_ok_def)
  have fresh: "\<forall>e \<in> set (map fst new). e = last_epoch \<and> 1 \<le> e" using new(2) proc by blast
  have old: "\<forall>e \<in> set (map fst (pl_written p)). 1 \<le> e \<and> e \<le> last_epoch" "sorted (map fst (pl_written p))"
    using assms(1) by (auto simp: epochs_ok_def)
  have "sorted (map fst new)" using fresh by (intro sorted_wrt_mono_rel [OF _ sorted_wrt_true]) auto
  moreover have "x \<le> y" if "x \<in> set (map fst (pl_written p))" "y \<in> set (map fst new)" for x y
    using old(1) fresh that by metis
  ultimately have "sorted (map fst (pl_written q))"
    unfolding new(1) map_append sorted_append using old(2) by blast
  moreover have "\<forall>e \<in> set (map fst (pl_written q)). 1 \<le> e \<and> e \<le> last_epoch"
    unfolding new(1) map_append set_append using old(1) fresh by (metis Un_iff order_refl)
  ultimately show ?thesis
    using assms(1,3-6) proc by (auto simp: epochs_ok_def)
qed

lemma epochs_begin:
  assumes "epochs_ok out last_epoch s p" "last_epoch < e" "player_ok q" "pl_written q = pl_written p"
    "pl_process q = Some e" "ss_suppressed_epoch s1 = None" "ss_local_epoch s1 = Some e"
  shows "epochs_ok (Some e) e s1 q"
  using assms by (auto simp: epochs_ok_def)

text \<open>What handling a message may change: the epochs, never the lifecycle or the microphone queue.\<close>

definition same_lifecycle :: "session \<Rightarrow> session \<Rightarrow> bool" where
  "same_lifecycle s s1 \<longleftrightarrow>
     ss_state s1 = ss_state s \<and> ss_terminal s1 = ss_terminal s \<and> ss_queue s1 = ss_queue s \<and>
     ss_stop_requested s1 = ss_stop_requested s \<and> ss_interrupt_requested s1 = ss_interrupt_requested s \<and>
     ss_preserve_session s1 = ss_preserve_session s"

definition handled_ok ::
    "realtime_config \<Rightarrow> int option \<Rightarrow> int \<Rightarrow> session \<Rightarrow> player \<Rightarrow> handled result \<times> session \<times> player \<Rightarrow> bool" where
  "handled_ok cfg out last_epoch s p r =
     (case r of (res, s1, p1) \<Rightarrow>
        player_ok p1 \<and> output_step last_epoch p p1 \<and> same_lifecycle s s1 \<and> capture_ok cfg s1 \<and>
        (case res of
           Inl _ \<Rightarrow> epochs_ok out last_epoch s1 p1
         | Inr (_, out1, last1, _) \<Rightarrow> last_epoch \<le> last1 \<and> epochs_ok out1 last1 s1 p1))"

lemma same_lifecycle_refl [simp]: "same_lifecycle s s"
  by (simp add: same_lifecycle_def)

lemma set_local_simps [simp]:
  "same_lifecycle s1 (set_local_output_epoch e s) = same_lifecycle s1 s"
  "ss_local_epoch (set_local_output_epoch e s) = e"
  "ss_suppressed_epoch (set_local_output_epoch e s) = ss_suppressed_epoch s"
  by (simp_all add: set_local_output_epoch_def same_lifecycle_def)

lemma suppress_simps [simp]:
  "same_lifecycle s (s1\<lparr>ss_suppressed_epoch := e\<rparr>) = same_lifecycle s s1"
  "same_lifecycle (s1\<lparr>ss_suppressed_epoch := e\<rparr>) s = same_lifecycle s1 s"
  "capture_ok cfg (s\<lparr>ss_suppressed_epoch := e\<rparr>) = capture_ok cfg s"
  by (simp_all add: same_lifecycle_def capture_ok_def)

lemma suppressed_bound:
  "epochs_ok out last_epoch s p \<Longrightarrow> ss_suppressed_epoch s = Some e \<Longrightarrow> 1 \<le> e \<and> e \<le> last_epoch"
  by (simp add: epochs_ok_def)

lemma output_bound:
  "epochs_ok (Some e) last_epoch s p \<Longrightarrow> e = last_epoch \<and> 1 \<le> e"
  by (simp add: epochs_ok_def)

lemma stopped_handled:
  assumes "epochs_ok out n s p" "capture_ok cfg s" "player_ok p"
  shows "handled_ok cfg out n s p (handle_stopped v n s p)"
proof -
  have e: "epochs_ok out1 n s1 (player_abort p)"
    if "ss_local_epoch s1 = None" "out1 \<in> {None, out}"
      "ss_suppressed_epoch s1 \<in> {None, ss_suppressed_epoch s}" for out1 s1
    using suppressed_bound [OF assms(1)] that by (intro epochs_weaken [OF assms(1)]) auto
  show ?thesis
    using assms by (auto simp: handle_stopped_def handled_ok_def Let_def intro!: e)
qed

lemma speech_handled:
  assumes "epochs_ok out n s p" "capture_ok cfg s" "player_ok p"
  shows "handled_ok cfg out n s p (speech_started cfg out n s p)"
proof -
  have e: "epochs_ok None n s1 (player_abort p)"
    if "ss_local_epoch s1 = None"
      "ss_suppressed_epoch s1 = ss_suppressed_epoch s \<or> ss_suppressed_epoch s1 = Some n \<and> 0 < n" for s1
    using suppressed_bound [OF assms(1)] that by (intro epochs_weaken [OF assms(1)]) auto
  show ?thesis
    using assms output_bound [of _ n s p]
    by (cases out) (auto simp: speech_started_def handled_ok_def Let_def intro!: e)
qed

lemma stopping_handled:
  assumes "epochs_ok out n s p" "capture_ok cfg s" "player_ok p"
  shows "handled_ok cfg out n s p (speaking_stopped penv epoch out n s p)"
proof -
  obtain r q where f: "player_finish penv epoch p = (r, q)" by fastforce
  note fp = finish_player [OF f]
  have e: "epochs_ok out1 n s1 q1"
    if "output_step n p q1" "pl_process q1 \<in> {None, pl_process p}" "ss_local_epoch s1 = ss_local_epoch s"
      "out1 \<in> {None, out}" "ss_suppressed_epoch s1 \<in> {None, ss_suppressed_epoch s}" for out1 s1 q1
    using suppressed_bound [OF assms(1)] that by (intro epochs_weaken [OF assms(1)]) auto
  show ?thesis
    using assms f fp fp [of n]
    by (cases out) (auto simp: speaking_stopped_def handled_ok_def intro!: e split: sum.splits)
qed

lemma starting_handled:
  assumes "epochs_ok out n s p" "capture_ok cfg s" "player_ok p"
  shows "handled_ok cfg out n s p (speaking_started cfg penv guard epoch out n s p)"
proof -
  obtain r q where b: "player_begin penv epoch p = (r, q)" by fastforce
  note bp = begin_player [OF b]
  have e: "epochs_ok out1 n s1 q1"
    if "output_step n p q1" "pl_process q1 \<in> {None, pl_process p}" "ss_suppressed_epoch s1 = None"
      "ss_local_epoch s1 \<in> {None, ss_local_epoch s}" "out1 \<in> {None, out}" for s1 q1 out1
    using that by (intro epochs_weaken [OF assms(1)]) auto
  have "output_step n p q" if "n < epoch"
    using bp that by (auto simp: output_step_def split: sum.splits)
  then show ?thesis
    using assms b bp
    by (auto simp: speaking_started_def handled_ok_def Let_def split: sum.splits option.splits if_splits
        intro!: e epochs_begin [OF assms(1)])
qed

lemma message_handled:
  assumes "epochs_ok out n s p" "capture_ok cfg s" "player_ok p"
  shows "handled_ok cfg out n s p (handle_message cfg loads penv guard m out n s p)"
proof -
  have same: "handled_ok cfg out n s p (Inr (a, out, n, sem), s, p)" "handled_ok cfg out n s p (Inl e, s, p)"
    for a sem e
    using assms by (simp_all add: handled_ok_def)
  have control: "handled_ok cfg out n s p (handle_control_event cfg penv guard v out n s p)" for v
    using same by (auto simp: handle_control_event_def starting_handled [OF assms] stopping_handled [OF assms]
        speech_handled [OF assms] split: option.split sum.split)
  show ?thesis
  proof (cases m)
    case (Text data)
    then show ?thesis using same control
      by (auto simp: handle_message_def Let_def stopped_handled [OF assms] split: sum.split)
  next
    case (Binary data)
    obtain r q where q: "player_enqueue data p = (r, q)" by fastforce
    have "epochs_ok out n s q"
      using enqueue_player [OF q] suppressed_bound [OF assms(1)] by (intro epochs_weaken [OF assms(1)]) auto
    then show ?thesis using same enqueue_player [OF q] assms q Binary
      by (auto simp: handle_message_def handled_ok_def split: option.split sum.splits)
  next
    case (Pong data)
    then show ?thesis using same by (simp add: handle_message_def)
  qed
qed

section \<open>The network thread keeps it\<close>

lemma lifecycle_live:
  "live ph \<Longrightarrow> lifecycle_ok ph s n \<longleftrightarrow>
     ss_state s \<in> {Ready, Stopping} \<and> \<not> ss_terminal s \<and>
     (ph \<noteq> Control \<longrightarrow> ss_stop_requested s \<or> ss_interrupt_requested s \<longrightarrow>
        nw_interrupt_sent n \<or> ss_state s = Stopping) \<and>
     (nw_interrupt_sent n \<longrightarrow> ss_interrupt_requested s) \<and>
     (nw_interrupt_sent n \<longleftrightarrow> nw_interrupt_deadline n \<noteq> None) \<and>
     (nw_pending_ping n = None \<longleftrightarrow> nw_pong_deadline n = None)"
  by (cases ph) (auto simp: lifecycle_ok_def live_def)

lemma lifecycle_ends [simp]:
  "lifecycle_ok (Waiting d) s n \<longleftrightarrow> ss_state s \<in> {Connecting, Stopping} \<and> \<not> ss_terminal s \<and>
     \<not> nw_interrupt_sent n \<and> nw_interrupt_deadline n = None \<and> nw_pending_ping n = None \<and>
     nw_pong_deadline n = None"
  "lifecycle_ok (Closing b) s n \<longleftrightarrow> ss_state s \<noteq> New \<and> \<not> ss_terminal s"
  "lifecycle_ok (Publishing b) s n \<longleftrightarrow> ss_state s \<noteq> New \<and> \<not> ss_terminal s"
  "lifecycle_ok Finished s n \<longleftrightarrow> ss_state s \<in> {Stopped, SessionFailed} \<and> ss_terminal s"
  by (auto simp: lifecycle_ok_def live_def)

lemma live_simps [simp]:
  "live Control" "live Service" "live SendAudio" "live PingPhase" "live Receive" "live (SendPacket p remaining)"
  by (simp_all add: live_def)

text \<open>The parts of the invariant that do not depend on the phase.\<close>

definition parts_ok :: "realtime_config \<Rightarrow> world \<Rightarrow> bool" where
  "parts_ok cfg w \<longleftrightarrow>
     capture_ok cfg (w_session w) \<and> player_ok (w_player w) \<and>
     epochs_ok (nw_output_epoch (w_net w)) (nw_last_output_epoch (w_net w)) (w_session w) (w_player w) \<and>
     ws_inv (w_conn w)"

lemma session_inv_parts:
  "session_inv cfg w \<longleftrightarrow> parts_ok cfg w \<and> lifecycle_ok (w_phase w) (w_session w) (w_net w)"
  by (auto simp: session_inv_def parts_ok_def)

definition resolved_ok :: "realtime_config \<Rightarrow> outcome \<times> world \<Rightarrow> bool" where
  "resolved_ok cfg r =
     (case r of (out, w) \<Rightarrow>
        parts_ok cfg w \<and> ss_state (w_session w) \<noteq> New \<and> \<not> ss_terminal (w_session w) \<and>
        (case out of Go ph \<Rightarrow> lifecycle_ok ph (w_session w) (w_net w) | _ \<Rightarrow> True))"

lemma resolve_inv: "resolved_ok cfg r \<Longrightarrow> session_inv cfg (resolve_outcome r)"
  by (cases r; cases "fst r")
    (auto simp: resolved_ok_def resolve_outcome_def session_inv_parts parts_ok_def)

lemma flush_cases:
  assumes "flush_local_barge_in p out n s = (out1, q, s1)"
  shows "(out1 = out \<and> q = p \<and> ss_local_epoch s1 = ss_local_epoch s \<and>
        ss_suppressed_epoch s1 = ss_suppressed_epoch s) \<or>
     (out1 = None \<and> q = player_abort p \<and> ss_local_epoch s1 = None \<and>
        ss_suppressed_epoch s1 = ss_local_epoch s)"
  using assms by (auto simp: flush_local_barge_in_def Let_def split: option.splits if_splits)

lemma flush_parts:
  assumes "flush_local_barge_in p out n s = (out1, q, s1)" "epochs_ok out n s p" "capture_ok cfg s" "player_ok p"
  shows "epochs_ok out1 n s1 q" "player_ok q" "output_step n p q" "capture_ok cfg s1" "same_lifecycle s s1"
proof -
  have l: "e = n \<and> 1 \<le> e" if "ss_local_epoch s = Some e" for e
    using assms(2) that by (simp add: epochs_ok_def)
  from flush_cases [OF assms(1)] show "epochs_ok out1 n s1 q" "player_ok q" "output_step n p q"
    using l suppressed_bound [OF assms(2)] assms(4) epochs_weaken [OF assms(2), of q s1 out1]
    by (elim disjE conjE; simp)+
  show "capture_ok cfg s1" "same_lifecycle s s1"
    using assms(1,3)
    by (auto simp: flush_local_barge_in_def Let_def same_lifecycle_def capture_ok_def LOCAL_BARGE_IN_FRAMES_def
        split: option.splits if_splits)
qed

lemma silent_parts [simp]:
  "ss_state (clear_audio s) = ss_state s" "ss_terminal (clear_audio s) = ss_terminal s"
  "ss_stop_requested (clear_audio s) = ss_stop_requested s"
  "ss_interrupt_requested (clear_audio s) = ss_interrupt_requested s"
  "ss_local_epoch (clear_audio s) = ss_local_epoch s"
  "ss_suppressed_epoch (clear_audio s) = ss_suppressed_epoch s"
  "ss_state (set_local_output_epoch e s) = ss_state s" "ss_terminal (set_local_output_epoch e s) = ss_terminal s"
  "ss_stop_requested (set_local_output_epoch e s) = ss_stop_requested s"
  "ss_interrupt_requested (set_local_output_epoch e s) = ss_interrupt_requested s"
  by (simp_all add: clear_audio_def set_local_output_epoch_def)

lemma silent_epochs:
  assumes "epochs_ok out n s p"
  shows "epochs_ok None n (clear_audio (set_local_output_epoch None s)) (player_abort p)"
  by (rule epochs_weaken [OF assms]) (use suppressed_bound [OF assms] in auto)

lemma send_inv:
  assumes "ws_inv c"
  shows "ws_send_json frepr t v c = (r, c1) \<Longrightarrow> ws_inv c1" "send_binary t data c = (r, c1) \<Longrightarrow> ws_inv c1"
    "send_ping t data c = (r, c1) \<Longrightarrow> ws_inv c1" "honest t \<Longrightarrow> receive_message t c = (m, c1) \<Longrightarrow> ws_inv c1"
  using send_ops_inv [OF assms] receive_loop_inv [OF assms] by (metis snd_conv receive_message_def)+

end
