(* ===== verification/Session_Phases.thy ===== *)
theory Session_Phases
  imports Session_Invariant
begin

text \<open>
  The network thread of the device session keeps the invariant, phase by phase, and with the calls of
  the other threads so does every run; then the safety and liveness properties of \<^verbatim>\<open>RealtimeSession\<close>.
\<close>

section \<open>Phases of the loop\<close>

definition advances :: "world \<Rightarrow> world \<Rightarrow> bool" where
  "advances w w1 \<longleftrightarrow>
     nw_last_output_epoch (w_net w) \<le> nw_last_output_epoch (w_net w1) \<and>
     output_step (nw_last_output_epoch (w_net w)) (w_player w) (w_player w1)"

definition phase_keeps :: "realtime_config \<Rightarrow> world \<Rightarrow> outcome \<times> world \<Rightarrow> bool" where
  "phase_keeps cfg w r \<longleftrightarrow> resolved_ok cfg r \<and> advances w (snd r)"

lemma advances_refl [simp]: "advances w w"
  by (simp add: advances_def)

lemma live_inv:
  assumes "session_inv cfg w" "w_phase w = ph" "live ph"
  shows "parts_ok cfg w" "ss_state (w_session w) \<in> {Ready, Stopping}" "\<not> ss_terminal (w_session w)"
    "ss_state (w_session w) \<noteq> New"
  using assms by (auto simp: session_inv_parts lifecycle_live)

lemma lifecycle_next:
  assumes "lifecycle_ok ph s n" "live ph" "ph \<noteq> Control" "live ph1"
    "ss_state s1 = ss_state s" "ss_terminal s1 = ss_terminal s" "ss_stop_requested s1 = ss_stop_requested s"
    "ss_interrupt_requested s1 = ss_interrupt_requested s" "nw_interrupt_sent n1 = nw_interrupt_sent n"
    "nw_interrupt_deadline n1 = nw_interrupt_deadline n" "nw_pending_ping n1 = None \<longleftrightarrow> nw_pong_deadline n1 = None"
  shows "lifecycle_ok ph1 s1 n1"
  using assms(1) unfolding lifecycle_live [OF assms(2)] lifecycle_live [OF assms(4)] assms(5-10)
  using assms(3,11) by (elim conjE) (intro conjI; blast)

lemma live_timers:
  "session_inv cfg w \<Longrightarrow> w_phase w = ph \<Longrightarrow> live ph \<Longrightarrow>
   lifecycle_ok ph (w_session w) (w_net w) \<and>
   (nw_pending_ping (w_net w) = None \<longleftrightarrow> nw_pong_deadline (w_net w) = None)"
  by (auto simp: session_inv_parts lifecycle_live)

lemma service_keeps:
  assumes "session_inv cfg w" "w_phase w = Service"
  shows "phase_keeps cfg w (service_phase env w)"
proof -
  obtain r q where s: "player_service (en_player env) (w_player w) = (r, q)" by fastforce
  note sp = service_player [OF s, of "nw_last_output_epoch (w_net w)"]
  note live = live_inv [OF assms]
  have p: "player_ok q" "advances w (w\<lparr>w_player := q\<rparr>)"
    using sp live(1) by (simp_all add: advances_def parts_ok_def)
  have ep: "epochs_ok (nw_output_epoch (w_net w)) (nw_last_output_epoch (w_net w)) (w_session w) (w_player w)"
    using live(1) by (simp add: parts_ok_def)
  have e: "epochs_ok (nw_output_epoch (w_net w)) (nw_last_output_epoch (w_net w)) s1 q"
    if "ss_local_epoch s1 \<in> {None, ss_local_epoch (w_session w)}"
      "ss_suppressed_epoch s1 = ss_suppressed_epoch (w_session w)" for s1
    using sp suppressed_bound [OF ep] that by (intro epochs_weaken [OF ep]) auto
  have parts: "parts_ok cfg (w\<lparr>w_player := q\<rparr>)"
    "parts_ok cfg (w\<lparr>w_player := q, w_session := set_local_output_epoch None (w_session w)\<rparr>)"
    using live(1) p(1) e [of "w_session w"] e [of "set_local_output_epoch None (w_session w)"]
    by (simp_all add: parts_ok_def)
  have l: "lifecycle_ok SendAudio (w_session w) (w_net w)"
    "lifecycle_ok SendAudio (set_local_output_epoch None (w_session w)) (w_net w)"
    using live_timers [OF assms] by (auto intro: lifecycle_next [where ph = Service])
  show ?thesis
    using parts l live(3,4) p(2)
    by (cases r) (auto simp: phase_keeps_def service_phase_def resolved_ok_def s advances_def)
qed

lemma pop_capture:
  assumes "capture_ok cfg s" "queue_pop (ss_queue s) = (r, q)"
  shows "capture_ok cfg (s\<lparr>ss_queue := q\<rparr>)"
  using assms by (auto simp: capture_ok_def queue_pop_def queue_valid_def packet_weight_def split: list.splits)

lemma queue_epochs [simp]:
  "epochs_ok out n (s\<lparr>ss_queue := q\<rparr>) p = epochs_ok out n s p"
  by (simp add: epochs_ok_def)

lemma audio_keeps:
  assumes "session_inv cfg w" "w_phase w = SendAudio"
  shows "phase_keeps cfg w (audio_phase env w)"
proof -
  obtain pk remaining q where q: "queue_pop (ss_queue (w_session w)) = ((pk, remaining), q)"
    by (metis prod.exhaust)
  note live = live_inv [OF assms live_simps(3)]
  have c: "capture_ok cfg (w_session w)" using live(1) by (simp add: parts_ok_def)
  have parts: "parts_ok cfg (w\<lparr>w_session := w_session w\<lparr>ss_queue := q\<rparr>\<rparr>)"
    using live(1) pop_capture [OF c q] by (simp add: parts_ok_def)
  have l: "lifecycle_ok ph1 s1 (w_net w)"
    if "live ph1" "ss_state s1 = ss_state (w_session w)" "ss_terminal s1 = ss_terminal (w_session w)"
      "ss_stop_requested s1 = ss_stop_requested (w_session w)"
      "ss_interrupt_requested s1 = ss_interrupt_requested (w_session w)" for ph1 s1
    by (rule lifecycle_next [OF conjunct1 [OF live_timers [OF assms live_simps(3)]]]) (use that live_timers [OF assms live_simps(3)] in simp_all)
  show ?thesis using live(1,3,4) parts q
    by (cases pk) (simp_all add: l phase_keeps_def audio_phase_def resolved_ok_def advances_def Let_def)
qed

lemma send_keeps:
  assumes "session_inv cfg w" "w_phase w = SendPacket p remaining"
  shows "phase_keeps cfg w (send_packet_phase p remaining env w)"
proof -
  note live = live_inv [OF assms live_simps(6)]
  have i: "ws_inv (w_conn w)" using live(1) by (simp add: parts_ok_def)
  have l: "lifecycle_ok PingPhase (w_session w) n1"
    if "nw_interrupt_sent n1 = nw_interrupt_sent (w_net w)"
      "nw_interrupt_deadline n1 = nw_interrupt_deadline (w_net w)"
      "nw_pending_ping n1 = nw_pending_ping (w_net w)" "nw_pong_deadline n1 = nw_pong_deadline (w_net w)" for n1
    by (rule lifecycle_next [OF conjunct1 [OF live_timers [OF assms live_simps(6)]]])
      (use that live_timers [OF assms live_simps(6)] in simp_all)
  obtain r c1 where send: "send_binary (en_transport env) (pk_data p) (w_conn w) = (r, c1)" by fastforce
  then show ?thesis using live(1,3,4) send_inv(2) [OF i send]
    by (cases r) (simp_all add: l phase_keeps_def send_packet_phase_def resolved_ok_def advances_def Let_def parts_ok_def)
qed

lemma ping_keeps:
  assumes "session_inv cfg w" "w_phase w = PingPhase"
  shows "phase_keeps cfg w (ping_phase cfg env w)"
proof -
  note live = live_inv [OF assms live_simps(4)]
  have i: "ws_inv (w_conn w)" using live(1) by (simp add: parts_ok_def)
  have l: "lifecycle_ok Receive (w_session w) n1"
    if "nw_interrupt_sent n1 = nw_interrupt_sent (w_net w)"
      "nw_interrupt_deadline n1 = nw_interrupt_deadline (w_net w)"
      "nw_pending_ping n1 = None \<longleftrightarrow> nw_pong_deadline n1 = None" for n1
    by (rule lifecycle_next [OF conjunct1 [OF live_timers [OF assms live_simps(4)]]]) (use that live_timers [OF assms] in simp_all)
  obtain r c1 where send: "send_ping (en_transport env) (en_ping env) (w_conn w) = (r, c1)" by fastforce
  show ?thesis using live(1,3,4) send send_inv(3) [OF i send] live_timers [OF assms]
    by (cases r) (simp_all add: l phase_keeps_def ping_phase_def resolved_ok_def advances_def Let_def parts_ok_def)
qed

lemma advances_abort [simp]:
  "advances w (w\<lparr>w_session := s, w_player := player_abort (w_player w), w_net := (w_net w)\<lparr>nw_now := t\<rparr>\<rparr>)"
  by (simp add: advances_def)

lemma control_keeps:
  assumes "session_inv cfg w" "w_phase w = Control"
  shows "phase_keeps cfg w (control_phase frepr cfg env w)"
proof -
  note live = live_inv [OF assms live_simps(1)]
  note timers = live_timers [OF assms live_simps(1)]
  let ?s = "w_session w" and ?n = "w_net w"
  have parts: "capture_ok cfg ?s" "player_ok (w_player w)" "ws_inv (w_conn w)"
    "epochs_ok (nw_output_epoch ?n) (nw_last_output_epoch ?n) ?s (w_player w)"
    using live(1) by (simp_all add: parts_ok_def)
  note sent = send_inv(1) [OF parts(3)]
  note silent = silent_epochs [OF parts(4)]
  have kept: "epochs_ok (nw_output_epoch ?n) (nw_last_output_epoch ?n)
      (clear_audio (set_local_output_epoch None ?s)) (player_abort (w_player w))"
    using silent parts(4) by (auto simp: epochs_ok_def)
  have quiet: "capture_ok cfg (clear_audio (set_local_output_epoch None ?s))" using parts(1) by simp
  have suppress: "epochs_ok None (nw_last_output_epoch ?n)
      ((clear_audio (set_local_output_epoch None ?s))\<lparr>ss_suppressed_epoch := nw_output_epoch ?n\<rparr>)
      (player_abort (w_player w))" if "nw_output_epoch ?n \<noteq> None"
    using silent parts(4) that by (auto simp: epochs_ok_def)
  obtain d where deadline: "check_deadlines (en_now env) (nw_started_at ?n) (nw_last_activity ?n)
      (cf_max_session_seconds cfg) (cf_idle_timeout_seconds cfg) (nw_pending_ping ?n) (nw_pong_deadline ?n) = d"
    by simp
  show ?thesis
  proof (cases d)
    case (Inl e)
    then show ?thesis using live(3,4) parts deadline
      by (simp add: phase_keeps_def control_phase_def resolved_ok_def parts_ok_def advances_def)
  next
    case ok: (Inr u)
    consider (int) "ss_interrupt_requested ?s" | (stop) "\<not> ss_interrupt_requested ?s" "ss_stop_requested ?s"
      | (plain) "\<not> ss_interrupt_requested ?s" "\<not> ss_stop_requested ?s" by blast
    then show ?thesis
    proof cases
      case int
      obtain r c1 where send: "ws_send_json frepr (en_transport env) [(''type'', JStr ''interrupt'')] (w_conn w) = (r, c1)"
        by fastforce
      then show ?thesis using live(3,4) parts deadline ok int quiet silent suppress sent [OF send] timers
        by (cases r; cases "nw_output_epoch ?n")
          (auto simp: phase_keeps_def control_phase_def resolved_ok_def parts_ok_def advances_def lifecycle_live Let_def)
    next
      case stop
      obtain r c1 where send: "ws_send_json frepr (en_transport env) [(''type'', JStr ''stop'')] (w_conn w) = (r, c1)"
        by fastforce
      then show ?thesis using live(3,4) parts deadline ok stop quiet kept sent [OF send]
        by (cases r) (simp_all add: phase_keeps_def control_phase_def resolved_ok_def parts_ok_def advances_def Let_def)
    next
      case plain
      obtain out1 q s1 where f: "flush_local_barge_in (w_player w) (nw_output_epoch ?n) (nw_last_output_epoch ?n) ?s =
          (out1, q, s1)" by (metis prod.exhaust)
      note fp = flush_parts [OF f parts(4,1,2)]
      show ?thesis using live(3,4) parts deadline ok plain f fp timers
        by (auto simp: phase_keeps_def control_phase_def resolved_ok_def parts_ok_def advances_def Let_def
            same_lifecycle_def lifecycle_live)
    qed
  qed
qed

lemma resume_capture:
  assumes "capture_ok cfg s" "ss_state s \<in> {Ready, Stopping}"
  shows "capture_ok cfg (s\<lparr>ss_interrupt_requested := False,
           ss_state := (if ss_state s = Stopping then Ready else ss_state s), ss_suppressed_epoch := None\<rparr>)"
  using assms by (auto simp: capture_ok_def)

lemma epochs_cong:
  assumes "epochs_ok out n s p" "ss_local_epoch s1 = ss_local_epoch s"
    "ss_suppressed_epoch s1 \<in> {None, ss_suppressed_epoch s}"
  shows "epochs_ok out n s1 p"
  using assms by (auto simp: epochs_ok_def)

lemma epochs_local_None: "epochs_ok out n s p \<Longrightarrow> epochs_ok out n (set_local_output_epoch None s) p"
  by (simp add: epochs_ok_def)

text \<open>After a message: the timers and the requests.\<close>

lemma after_message_keeps:
  assumes "capture_ok cfg (w_session w)" "player_ok (w_player w)" "ws_inv (w_conn w)"
    "epochs_ok out1 last1 (w_session w) (w_player w)" "lifecycle_ok Receive (w_session w) (w_net w)"
  shows "resolved_ok cfg (after_message frepr env (act, out1, last1, sem) w)"
    "w_player (snd (after_message frepr env (act, out1, last1, sem) w)) = w_player w"
    "nw_last_output_epoch (w_net (snd (after_message frepr env (act, out1, last1, sem) w))) = last1"
proof -
  obtain r c1 where send: "ws_send_json frepr (en_transport env) [(''type'', JStr ''stop'')] (w_conn w) = (r, c1)"
    by fastforce
  have live: "ss_state (w_session w) \<in> {Ready, Stopping}" "ss_state (w_session w) \<noteq> New"
    "\<not> ss_terminal (w_session w)" and timers: "nw_interrupt_sent (w_net w) \<longrightarrow> ss_interrupt_requested (w_session w)"
    "nw_interrupt_sent (w_net w) \<longleftrightarrow> nw_interrupt_deadline (w_net w) \<noteq> None"
    "nw_pending_ping (w_net w) = None \<longleftrightarrow> nw_pong_deadline (w_net w) = None"
    using assms(5) by (auto simp: lifecycle_live)
  let ?s = "set_local_output_epoch None (w_session w)"
  have quiet: "capture_ok cfg ?s" "epochs_ok out1 last1 ?s (w_player w)"
    using assms(1) epochs_local_None [OF assms(4)] by simp_all
  let ?r = "?s\<lparr>ss_interrupt_requested := False,
           ss_state := (if ss_state ?s = Stopping then Ready else ss_state ?s), ss_suppressed_epoch := None\<rparr>"
  have resumed: "capture_ok cfg ?r" "epochs_ok out1 last1 ?r (w_player w)"
    using resume_capture [OF quiet(1)] live(1) epochs_cong [OF quiet(2), of ?r] by simp_all
  show "resolved_ok cfg (after_message frepr env (act, out1, last1, sem) w)"
    using assms(1-4) live timers quiet resumed send send_inv(1) [OF assms(3) send]
    by (cases r) (auto simp: after_message_def resolved_ok_def parts_ok_def Let_def lifecycle_live)
  show "w_player (snd (after_message frepr env (act, out1, last1, sem) w)) = w_player w"
    "nw_last_output_epoch (w_net (snd (after_message frepr env (act, out1, last1, sem) w))) = last1"
    using send by (cases r; simp add: after_message_def Let_def)+
qed

lemma receive_keeps:
  assumes "session_inv cfg w" "w_phase w = Receive" "honest (en_transport env)"
  shows "phase_keeps cfg w (receive_phase frepr loads cfg env w)"
proof -
  note live = live_inv [OF assms(1,2) live_simps(5)]
  note timers = live_timers [OF assms(1,2) live_simps(5)]
  let ?s = "w_session w" and ?n = "w_net w"
  have parts: "capture_ok cfg ?s" "player_ok (w_player w)" "ws_inv (w_conn w)"
    "epochs_ok (nw_output_epoch ?n) (nw_last_output_epoch ?n) ?s (w_player w)"
    using live(1) by (simp_all add: parts_ok_def)
  obtain rm c where rm: "receive_message (en_transport env) (w_conn w) = (rm, c)" by fastforce
  have c: "ws_inv c" by (rule send_inv(4) [OF parts(3) assms(3) rm])
  have stay: "phase_keeps cfg w (Go Control, w)" "phase_keeps cfg w (Raise e, w)"
    "phase_keeps cfg w (Go Control, w\<lparr>w_conn := c\<rparr>)" "phase_keeps cfg w (Raise e, w\<lparr>w_conn := c\<rparr>)"
    "phase_keeps cfg w (Go Control, w\<lparr>w_conn := c, w_net := ?n\<lparr>nw_pending_ping := None, nw_pong_deadline := None\<rparr>\<rparr>)"
    for e
    using live parts c timers
    by (auto simp: phase_keeps_def resolved_ok_def advances_def parts_ok_def lifecycle_live)
  have msg: "phase_keeps cfg w (case handle_message cfg loads (en_player env) (en_guard env) m
                         (nw_output_epoch ?n) (nw_last_output_epoch ?n) ?s (w_player w) of
                    (Inl e, s, p) \<Rightarrow> (Raise e, w\<lparr>w_conn := c, w_session := s, w_player := p\<rparr>)
                  | (Inr r, s, p) \<Rightarrow>
                      after_message frepr env r (w\<lparr>w_conn := c, w_session := s, w_player := p\<rparr>))" for m
  proof -
    obtain res s1 p1 where h: "handle_message cfg loads (en_player env) (en_guard env) m
        (nw_output_epoch ?n) (nw_last_output_epoch ?n) ?s (w_player w) = (res, s1, p1)" by (metis prod.exhaust)
    note ok = message_handled [OF parts(4,1,2), of loads "en_player env" "en_guard env" m, unfolded h]
    have s1: "capture_ok cfg s1" "player_ok p1" "output_step (nw_last_output_epoch ?n) (w_player w) p1"
      "same_lifecycle ?s s1" using ok by (simp_all add: handled_ok_def)
    show ?thesis
    proof (cases res)
      case (Inl e)
      then show ?thesis using ok s1 h c live(3,4)
        by (simp add: handled_ok_def phase_keeps_def resolved_ok_def parts_ok_def advances_def same_lifecycle_def)
    next
      case (Inr r)
      obtain act out1 last1 sem where r: "r = (act, out1, last1, sem)" by (cases r)
      let ?w = "w\<lparr>w_conn := c, w_session := s1, w_player := p1\<rparr>"
      have e: "epochs_ok out1 last1 s1 p1" "nw_last_output_epoch ?n \<le> last1"
        using ok by (simp_all add: handled_ok_def Inr r)
      have "lifecycle_ok Receive s1 ?n"
        by (rule lifecycle_next [OF conjunct1 [OF timers]]) (use s1(4) timers in \<open>simp_all add: same_lifecycle_def\<close>)
      then have "resolved_ok cfg (after_message frepr env r ?w)" "w_player (snd (after_message frepr env r ?w)) = p1"
        "nw_last_output_epoch (w_net (snd (after_message frepr env r ?w))) = last1"
        unfolding r using after_message_keeps [of cfg ?w out1 last1 frepr env act sem] s1(1,2) e(1) c by simp_all
      then show ?thesis using e(2) s1(3) h by (simp add: Inr phase_keeps_def advances_def)
    qed
  qed
  show ?thesis
    unfolding receive_phase_def rm
    using stay msg by (auto split: sum.split option.split ws_message.split)
qed

end
