(* ===== verification/Session_Run.thy ===== *)
theory Session_Run
  imports Session_Phases
begin

text \<open>
  Every run of the device session keeps the invariant: startup, shutdown and the calls of the other
  threads, then the safety and liveness properties of \<^verbatim>\<open>RealtimeSession\<close>.
\<close>

section \<open>Startup and shutdown\<close>

lemma new_world_inv: "session_inv cfg (new_world cfg)"
  by (simp add: session_inv_def new_world_def new_session_def new_network_def capture_ok_def player_ok_def
      new_player_def epochs_ok_def lifecycle_ok_def live_def new_conn_def ws_inv_def LOCAL_BARGE_IN_FRAMES_def
      queue_valid_def new_queue_def)

lemma connect_keeps:
  assumes "session_inv cfg w" "w_phase w = Idle" "ss_state (w_session w) \<noteq> New"
    "\<And>c. dialled = Inr c \<Longrightarrow> ws_inv c"
  shows "phase_keeps cfg w (connect_phase frepr cfg dialled env w)"
proof -
  let ?s = "w_session w" and ?n = "w_net w"
  have last0: "nw_last_output_epoch ?n = 0" and t: "\<not> ss_terminal ?s"
    and st: "ss_state ?s = Connecting \<or> ss_state ?s = Stopping"
    using assms(1-3) by (auto simp: session_inv_parts lifecycle_ok_def)
  have parts: "capture_ok cfg ?s" "player_ok (w_player w)" "ws_inv (w_conn w)"
    "epochs_ok (nw_output_epoch ?n) 0 ?s (w_player w)"
    using assms(1) last0 by (auto simp: session_inv_parts parts_ok_def)
  have e: "epochs_ok None 0 ?s (w_player w)" using parts(4) by (simp add: epochs_ok_def)
  show ?thesis
  proof (cases dialled)
    case (Inl err)
    then show ?thesis using parts assms(3) t last0
      by (simp add: phase_keeps_def connect_phase_def resolved_ok_def parts_ok_def)
  next
    case (Inr conn)
    obtain r c where send: "ws_send_json frepr (en_transport env) (realtime_start_message cfg) conn = (r, c)" by fastforce
    show ?thesis using parts e assms(3) t st last0 send send_inv(1) [OF assms(4) [OF Inr] send] Inr
      by (cases r) (simp_all add: phase_keeps_def connect_phase_def resolved_ok_def parts_ok_def advances_def
          new_network_def Let_def)
  qed
qed

lemma waiting_keeps:
  assumes "session_inv cfg w" "w_phase w = Waiting d" "honest (en_transport env)"
  shows "phase_keeps cfg w (waiting_phase loads cfg d env w)"
proof -
  let ?s = "w_session w" and ?n = "w_net w"
  have parts: "capture_ok cfg ?s" "player_ok (w_player w)" "ws_inv (w_conn w)"
    "epochs_ok (nw_output_epoch ?n) (nw_last_output_epoch ?n) ?s (w_player w)"
    "ss_state ?s = Connecting \<or> ss_state ?s = Stopping" "\<not> ss_terminal ?s"
    and n: "\<not> nw_interrupt_sent ?n" "nw_interrupt_deadline ?n = None" "nw_pending_ping ?n = None"
      "nw_pong_deadline ?n = None"
    using assms(1,2) by (auto simp: session_inv_parts parts_ok_def)
  obtain rm c where rm: "receive_message (en_transport env) (w_conn w) = (rm, c)" by fastforce
  have c: "ws_inv c" by (rule send_inv(4) [OF parts(3) assms(3) rm])
  have stay: "phase_keeps cfg w (Go (Waiting d), w)" "phase_keeps cfg w (Raise e, w)"
    "phase_keeps cfg w (Go (Waiting d), w\<lparr>w_conn := c\<rparr>)" "phase_keeps cfg w (Raise e, w\<lparr>w_conn := c\<rparr>)" for e
    using parts c n by (auto simp: phase_keeps_def resolved_ok_def parts_ok_def advances_def)
  have started: "phase_keeps cfg w (session_started cfg env (w\<lparr>w_conn := c\<rparr>))"
    using parts c n
    by (auto simp: phase_keeps_def resolved_ok_def parts_ok_def advances_def session_started_def Let_def
        lifecycle_live capture_ok_def epochs_ok_def)
  show ?thesis
    unfolding waiting_phase_def rm
    using stay started by (auto split: sum.split option.split ws_message.split)
qed

lemma closing_keeps:
  assumes "session_inv cfg w" "w_phase w = Closing b"
  shows "session_inv cfg (closing_phase b env w) \<and> advances w (closing_phase b env w)"
proof -
  let ?s = "w_session w" and ?n = "w_net w"
  have parts: "capture_ok cfg ?s" "ws_inv (w_conn w)" "ss_state ?s \<noteq> New" "\<not> ss_terminal ?s"
    "epochs_ok (nw_output_epoch ?n) (nw_last_output_epoch ?n) ?s (w_player w)"
    using assms by (auto simp: session_inv_parts parts_ok_def)
  have e: "epochs_ok (nw_output_epoch ?n) (nw_last_output_epoch ?n)
      (clear_audio (set_local_output_epoch None ?s)) (player_abort (w_player w))"
    using silent_epochs [OF parts(5)] parts(5) by (auto simp: epochs_ok_def)
  have "ws_inv (ws_close (snd (send_close (en_transport env) 1000 (w_conn w))))"
    using send_ops_inv(4) [OF parts(2)] by (simp add: ws_inv_def ws_close_def)
  then show ?thesis
    using parts e by (simp add: closing_phase_def session_inv_parts parts_ok_def advances_def)
qed

lemma publish_keeps:
  assumes "session_inv cfg w" "w_phase w = Publishing b"
  shows "session_inv cfg (publish_terminal b w) \<and> advances w (publish_terminal b w)"
  using assms
  by (auto simp: publish_terminal_def session_inv_parts parts_ok_def advances_def capture_ok_def epochs_ok_def)

section \<open>Every step\<close>

lemma resolve_advances [simp]: "advances w (resolve_outcome r) = advances w (snd r)"
  by (cases r; cases "fst r") (auto simp: resolve_outcome_def advances_def)

lemma keeps_inv:
  "phase_keeps cfg w r \<Longrightarrow> session_inv cfg (resolve_outcome r)" "phase_keeps cfg w r \<Longrightarrow> advances w (snd r)"
  by (simp_all add: phase_keeps_def resolve_inv)

lemma network_step_keeps:
  assumes "session_inv cfg w" "honest (en_transport env)" "\<And>c. dialled = Inr c \<Longrightarrow> ws_inv c"
  shows "session_inv cfg (network_step frepr loads cfg dialled env w) \<and>
    advances w (network_step frepr loads cfg dialled env w)"
proof (cases "w_phase w")
  case Idle
  then show ?thesis using assms(1) keeps_inv [OF connect_keeps [OF assms(1) Idle _ assms(3)]]
    by (simp add: network_step_def)
qed (use assms closing_keeps publish_keeps in \<open>auto simp: network_step_def intro!: keeps_inv waiting_keeps
      control_keeps service_keeps audio_keeps send_keeps ping_keeps receive_keeps\<close>)

lemma call_keeps:
  assumes "session_inv cfg w" "ev = Submit now v \<or> ev = InterruptCall b \<or> ev = StopCall \<or> ev = StartCall"
  shows "session_inv cfg (session_step frepr loads cfg dialled ev w) \<and>
    advances w (session_step frepr loads cfg dialled ev w)"
proof -
  have parts: "capture_ok cfg (w_session w)" "lifecycle_ok (w_phase w) (w_session w) (w_net w)"
    "epochs_ok (nw_output_epoch (w_net w)) (nw_last_output_epoch (w_net w)) (w_session w) (w_player w)"
    using assms(1) by (auto simp: session_inv_def)
  note e = epochs_cong [OF parts(3)]
  have "session_inv cfg (w\<lparr>w_session := s\<rparr>) \<and> advances w (w\<lparr>w_session := s\<rparr>)"
    if "capture_ok cfg s" "lifecycle_ok (w_phase w) s (w_net w)" "ss_local_epoch s = ss_local_epoch (w_session w)"
      "ss_suppressed_epoch s = ss_suppressed_epoch (w_session w)" for s
    using assms(1) that e [OF that(3)] by (simp add: session_inv_def advances_def)
  then show ?thesis
    using assms(2) submit_capture [OF parts(1)] calls_capture [OF parts(1)] calls_lifecycle [OF parts(2)]
    by (auto simp: session_step_def)
qed

lemma session_step_keeps:
  assumes "session_inv cfg w" "\<And>env. ev = Network env \<Longrightarrow> honest (en_transport env)"
    "\<And>c. dialled = Inr c \<Longrightarrow> ws_inv c"
  shows "session_inv cfg (session_step frepr loads cfg dialled ev w) \<and>
    advances w (session_step frepr loads cfg dialled ev w)"
proof (cases ev)
  case (Network env)
  then show ?thesis using network_step_keeps [OF assms(1) assms(2) assms(3)] by (simp add: session_step_def)
qed (use call_keeps [OF assms(1)] in simp_all)

lemma reachable_session_inv:
  assumes "session_reachable frepr loads cfg dialled w" "\<And>c. dialled = Inr c \<Longrightarrow> ws_inv c"
  shows "session_inv cfg w"
  using assms
proof (induction rule: session_reachable.induct)
  case fresh
  show ?case by (rule new_world_inv)
next
  case (steps w ev)
  then show ?case using session_step_keeps [OF _ _ steps.prems] by blast
qed

section \<open>Microphone audio on the wire\<close>

text \<open>The binary frames sent so far: on this connection they carry microphone audio only.\<close>

definition voice_frames :: "ws_conn \<Rightarrow> (nat \<times> bytes) list" where
  "voice_frames c = filter (\<lambda>f. fst f = OP_BINARY) (ws_sent c)"

lemma send_frame_voice:
  "opcode \<noteq> OP_BINARY \<Longrightarrow> send_frame t opcode payload c = (r, c1) \<Longrightarrow> voice_frames c1 = voice_frames c"
  by (cases rule: send_frame_cases [of t opcode payload c]) (auto simp: voice_frames_def)

lemma buffer_voice [simp]:
  "voice_frames (c\<lparr>ws_buffer := b\<rparr>) = voice_frames c" "voice_frames (c\<lparr>ws_close_sent := x\<rparr>) = voice_frames c"
  "voice_frames (c\<lparr>ws_fragment := f\<rparr>) = voice_frames c"
  "voice_frames (c\<lparr>ws_fragment_opcode := oc\<rparr>) = voice_frames c"
  "voice_frames (ws_close c) = voice_frames c"
  by (simp_all add: voice_frames_def ws_close_def)

lemma send_voice:
  "ws_send_json frepr t v c = (r, c1) \<Longrightarrow> voice_frames c1 = voice_frames c"
  "send_ping t data c = (r, c1) \<Longrightarrow> voice_frames c1 = voice_frames c"
  "voice_frames (snd (send_close t code c)) = voice_frames c"
  by (auto simp: ws_send_json_def send_ping_def send_close_def Let_def opcodes split: if_splits sum.splits prod.splits
      dest!: send_frame_voice [rotated])

lemma handle_frame_voice:
  assumes "handle_frame t final opcode payload c = (r, c1)"
  shows "voice_frames c1 = voice_frames c"
  using assms
  by (auto simp: handle_frame_def handle_control_def append_fragment_def opcodes
      split: if_splits sum.splits prod.splits option.splits dest!: send_frame_voice [rotated])

lemma receive_loop_voice: "voice_frames (snd (receive_loop t r k c)) = voice_frames c"
proof (induction t r k c rule: receive_loop.induct)
  case (1 t r k c)
  obtain res c1 where rf: "read_frame c = (res, c1)" by fastforce
  have c1: "voice_frames c1 = voice_frames c" using rf by (cases rule: read_frame_cases [of c]) auto
  show ?case
  proof (cases res)
    case (Inl e)
    then show ?thesis using rf c1 by (simp add: receive_loop.simps)
  next
    case (Inr x)
    show ?thesis
    proof (cases x)
      case None
      obtain res2 c2 where rs: "receive_some t c1 = (res2, c2)" by fastforce
      have "voice_frames c2 = voice_frames c"
        using rs c1 by (auto simp: receive_some_def Let_def split: if_splits recv_outcome.splits)
      then show ?thesis
        using 1(1) [OF rf [symmetric] Inr None] c1 rs
        by (subst receive_loop.simps) (auto simp: rf Inr None split: sum.splits)
    next
      case (Some y)
      obtain f p d where y: "y = (f, p, d)" by (cases y)
      obtain res2 c2 where hf: "handle_frame t f p d c1 = (res2, c2)" by fastforce
      have "voice_frames c2 = voice_frames c" using handle_frame_voice [OF hf] c1 by simp
      then show ?thesis
        using 1(2) [OF rf [symmetric] Inr Some y [symmetric] refl hf [symmetric]] hf
        by (subst receive_loop.simps) (auto simp: rf Inr Some y split: sum.splits option.splits)
    qed
  qed
qed

lemma receive_voice: "receive_message t c = (r, c1) \<Longrightarrow> voice_frames c1 = voice_frames c"
  using receive_loop_voice [of t False False c] by (simp add: receive_message_def)

text \<open>The packet the network thread has taken from the queue and not sent yet.\<close>

definition in_flight :: "world \<Rightarrow> (nat \<times> bytes) list" where
  "in_flight w = (case w_phase w of SendPacket p remaining \<Rightarrow> [(OP_BINARY, pk_data p)] | _ \<Rightarrow> [])"

text \<open>Only its send adds to them.\<close>

lemma network_voice:
  assumes "w_phase w \<noteq> Idle" "in_flight w = []"
  shows "voice_frames (w_conn (network_step frepr loads cfg dialled env w)) = voice_frames (w_conn w)"
proof -
  have out: "w_conn (resolve_outcome r) = w_conn (snd r)" for r
    by (cases r; cases "fst r") (auto simp: resolve_outcome_def)
  have after: "voice_frames (w_conn (snd (after_message frepr env r v))) = voice_frames (w_conn v)" for r v
    by (cases r) (auto simp: after_message_def Let_def split: sum.splits prod.splits dest: send_voice(1))
  have control: "voice_frames (w_conn (snd (control_phase frepr cfg env w))) = voice_frames (w_conn w)"
    by (auto simp: control_phase_def Let_def split: sum.split prod.split option.split dest: send_voice(1))
  have service: "w_conn (snd (service_phase env w)) = w_conn w"
    by (auto simp: service_phase_def split: sum.split prod.split)
  have audio: "w_conn (snd (audio_phase env w)) = w_conn w"
    by (auto simp: audio_phase_def Let_def split: prod.split option.split)
  have ping: "voice_frames (w_conn (snd (ping_phase cfg env w))) = voice_frames (w_conn w)"
    by (auto simp: ping_phase_def Let_def split: sum.split prod.split dest: send_voice(2))
  have receive: "voice_frames (w_conn (snd (receive_phase frepr loads cfg env w))) = voice_frames (w_conn w)"
    by (auto simp: receive_phase_def after split: sum.split prod.split option.split ws_message.split dest: receive_voice)
  have waiting: "voice_frames (w_conn (snd (waiting_phase loads cfg d env w))) = voice_frames (w_conn w)" for d
    by (auto simp: waiting_phase_def session_started_def Let_def dest: receive_voice
        split: sum.split prod.split option.split ws_message.split)
  show ?thesis
    using assms
    by (cases "w_phase w") (simp_all add: in_flight_def network_step_def out control service audio ping receive waiting
        closing_phase_def publish_terminal_def send_voice(3))
qed

definition requested :: "session \<Rightarrow> bool" where
  "requested s \<longleftrightarrow> ss_stop_requested s \<or> ss_interrupt_requested s"

text \<open>No new microphone audio: the packet in flight stays there, is sent, or is lost with the connection.\<close>

definition no_new_voice :: "world \<Rightarrow> world \<Rightarrow> bool" where
  "no_new_voice w v \<longleftrightarrow>
     voice_frames (w_conn v) = voice_frames (w_conn w) \<and> in_flight v \<in> {in_flight w, []}
     \<or> voice_frames (w_conn v) = voice_frames (w_conn w) @ in_flight w \<and> in_flight v = []"

lemma no_new_voice_trans: "no_new_voice w v \<Longrightarrow> no_new_voice v u \<Longrightarrow> no_new_voice w u"
  by (auto simp: no_new_voice_def)

lemma audio_silent:
  assumes "session_inv cfg w" "w_phase w = SendAudio" "requested (w_session w)"
  shows "fst (audio_phase env w) = Go PingPhase"
proof (cases "nw_interrupt_sent (w_net w)")
  case True
  then show ?thesis by (simp add: audio_phase_def)
next
  case False
  then have "ss_state (w_session w) = Stopping"
    using assms by (auto simp: session_inv_parts lifecycle_live requested_def)
  then have "aq_items (ss_queue (w_session w)) = []"
    using assms(1) by (simp add: session_inv_parts parts_ok_def capture_ok_def)
  then show ?thesis by (simp add: audio_phase_def queue_pop_def Let_def)
qed

lemma resolve_conn: "w_conn (resolve_outcome r) = w_conn (snd r)"
  by (cases r; cases "fst r") (auto simp: resolve_outcome_def)

lemma resolve_flight:
  "(\<And>p remaining. fst r \<noteq> Go (SendPacket p remaining)) \<Longrightarrow> in_flight (resolve_outcome r) = []"
  by (cases r; cases "fst r") (auto simp: resolve_outcome_def in_flight_def split: phase.split)

lemma send_binary_voice:
  "voice_frames (snd (send_binary t data c)) \<in> {voice_frames c, voice_frames c @ [(OP_BINARY, data)]}"
  by (cases rule: send_frame_cases [of t OP_BINARY data c]) (auto simp: send_binary_def voice_frames_def)

lemma go_not_sending:
  "fst (waiting_phase loads cfg d env w) \<noteq> Go (SendPacket p remaining)"
  "fst (control_phase frepr cfg env w) \<noteq> Go (SendPacket p remaining)"
  "fst (service_phase env w) \<noteq> Go (SendPacket p remaining)"
  "fst (send_packet_phase p1 remaining1 env w) \<noteq> Go (SendPacket p remaining)"
  "fst (ping_phase cfg env w) \<noteq> Go (SendPacket p remaining)"
  "fst (after_message frepr env r w) \<noteq> Go (SendPacket p remaining)"
  by (auto simp: waiting_phase_def control_phase_def service_phase_def send_packet_phase_def ping_phase_def
      after_message_def session_started_def Let_def split: sum.splits prod.splits option.splits if_splits
      ws_message.splits)

lemma receive_not_sending: "fst (receive_phase frepr loads cfg env w) \<noteq> Go (SendPacket p remaining)"
  by (auto simp: receive_phase_def go_not_sending split: sum.split prod.split option.split ws_message.split)

lemma network_flight:
  assumes "session_inv cfg w" "w_phase w \<noteq> Idle" "requested (w_session w)"
  shows "in_flight (network_step frepr loads cfg dialled env w) = []"
proof (cases "w_phase w = SendAudio")
  case True
  then show ?thesis using audio_silent [OF assms(1) True assms(3)]
    by (auto simp: network_step_def intro!: resolve_flight)
next
  case False
  note sending = go_not_sending [THEN notE] receive_not_sending [THEN notE]
  show ?thesis
  proof (cases "w_phase w \<in> {Finished} \<union> range Closing \<union> range Publishing")
    case True
    then show ?thesis by (auto simp: network_step_def closing_phase_def publish_terminal_def in_flight_def)
  next
    case other: False
    with False assms(2) show ?thesis
      by (cases "w_phase w") (auto simp: network_step_def intro!: resolve_flight dest: sending)
  qed
qed

lemma go_not_idle:
  "fst (waiting_phase loads cfg d env w) = Go ph \<Longrightarrow> ph \<noteq> Idle"
  "fst (control_phase frepr cfg env w) = Go ph \<Longrightarrow> ph \<noteq> Idle"
  "fst (service_phase env w) = Go ph \<Longrightarrow> ph \<noteq> Idle"
  "fst (audio_phase env w) = Go ph \<Longrightarrow> ph \<noteq> Idle"
  "fst (send_packet_phase p remaining env w) = Go ph \<Longrightarrow> ph \<noteq> Idle"
  "fst (ping_phase cfg env w) = Go ph \<Longrightarrow> ph \<noteq> Idle"
  "fst (after_message frepr env r w) = Go ph \<Longrightarrow> ph \<noteq> Idle"
  by (auto simp: waiting_phase_def control_phase_def service_phase_def audio_phase_def send_packet_phase_def ping_phase_def
      after_message_def session_started_def Let_def split: sum.splits prod.splits option.splits if_splits
      ws_message.splits)

lemma receive_not_idle: "fst (receive_phase frepr loads cfg env w) = Go ph \<Longrightarrow> ph \<noteq> Idle"
  by (auto simp: receive_phase_def split: sum.splits prod.splits option.splits ws_message.splits if_splits
      dest: go_not_idle(7))

lemma resolve_not_idle: "(\<And>ph. fst r = Go ph \<Longrightarrow> ph \<noteq> Idle) \<Longrightarrow> w_phase (resolve_outcome r) \<noteq> Idle"
  by (cases r; cases "fst r") (auto simp: resolve_outcome_def)

lemma step_not_idle:
  assumes "w_phase w \<noteq> Idle"
  shows "w_phase (session_step frepr loads cfg dialled ev w) \<noteq> Idle"
proof (cases ev)
  case (Network env)
  have "w_phase (network_step frepr loads cfg dialled env w) \<noteq> Idle"
    using assms
    by (cases "w_phase w") (auto simp: network_step_def closing_phase_def publish_terminal_def
        dest: go_not_idle receive_not_idle intro!: resolve_not_idle)
  with Network show ?thesis by (simp add: session_step_def)
qed (simp_all add: assms session_step_def)

lemma step_voice:
  assumes "session_inv cfg w" "w_phase w \<noteq> Idle" "requested (w_session w)"
  shows "no_new_voice w (session_step frepr loads cfg dialled ev w)"
proof (cases ev)
  case (Network env)
  note flight = network_flight [OF assms, of frepr loads dialled env]
  show ?thesis
  proof (cases "\<exists>p remaining. w_phase w = SendPacket p remaining")
    case True
    then obtain p remaining where ph: "w_phase w = SendPacket p remaining" by blast
    have "w_conn (snd (send_packet_phase p remaining env w)) = snd (send_binary (en_transport env) (pk_data p) (w_conn w))"
      by (simp add: send_packet_phase_def Let_def split: prod.split sum.split)
    then show ?thesis
      using Network ph flight send_binary_voice [of "en_transport env" "pk_data p" "w_conn w"]
      by (auto simp: session_step_def network_step_def resolve_conn no_new_voice_def in_flight_def [of w])
  next
    case False
    then have "in_flight w = []" by (cases "w_phase w") (simp_all add: in_flight_def)
    then show ?thesis using Network flight network_voice [OF assms(2)]
      by (simp add: session_step_def no_new_voice_def)
  qed
qed (simp_all add: session_step_def no_new_voice_def in_flight_def)

section \<open>Runs\<close>

text \<open>A run is a sequence of events; the network thread's environments answer \<^verbatim>\<open>recv\<close> honestly.\<close>

definition session_run ::
    "(pyfloat \<Rightarrow> string) \<Rightarrow> (nat list \<Rightarrow> json option) \<Rightarrow> realtime_config \<Rightarrow> ws_conn result \<Rightarrow> event list \<Rightarrow>
     world \<Rightarrow> world" where
  "session_run frepr loads cfg dialled evs w = fold (session_step frepr loads cfg dialled) evs w"

definition event_ok :: "event \<Rightarrow> bool" where
  "event_ok ev \<longleftrightarrow> (case ev of Network env \<Rightarrow> honest (en_transport env) | _ \<Rightarrow> True)"

lemma session_run_simps [simp]:
  "session_run frepr loads cfg dialled [] w = w"
  "session_run frepr loads cfg dialled (ev # evs) w =
     session_run frepr loads cfg dialled evs (session_step frepr loads cfg dialled ev w)"
  by (simp_all add: session_run_def)

lemma step_keeps:
  assumes "session_inv cfg w" "event_ok ev" "\<And>c. dialled = Inr c \<Longrightarrow> ws_inv c"
  shows "session_inv cfg (session_step frepr loads cfg dialled ev w)"
    "advances w (session_step frepr loads cfg dialled ev w)"
proof -
  have "honest (en_transport env)" if "ev = Network env" for env
    using assms(2) that by (simp add: event_ok_def)
  then show "session_inv cfg (session_step frepr loads cfg dialled ev w)"
    "advances w (session_step frepr loads cfg dialled ev w)"
    using session_step_keeps [OF assms(1) _ assms(3)] by blast+
qed

text \<open>C8: The device session keeps its invariant in every state any interleaving of the capture thread,
  the controllers and the network thread can reach: the microphone gate is closed exactly while an output
  epoch is published, a barge-in request always names that epoch, the queue is bounded and empty while
  stopping, everything audible belongs to the last output epoch, the lifecycle state agrees with the phase,
  and the connection's own invariant holds.\<close>
theorem session_invariant:
  assumes "session_reachable frepr loads cfg dialled w" "\<And>c. dialled = Inr c \<Longrightarrow> ws_inv c"
  shows "session_inv cfg w"
  by (rule reachable_session_inv [OF assms])

theorem session_invariant_witness:
  "session_inv sample_config (session_step (\<lambda>_. []) (\<lambda>_. None) sample_config
     (Inl (OSError ''refused'')) (Submit 0 [1, 2]) (session_step (\<lambda>_. []) (\<lambda>_. None) sample_config
     (Inl (OSError ''refused'')) StartCall (new_world sample_config)))"
  by (rule session_invariant [where frepr = "\<lambda>_. []" and loads = "\<lambda>_. None" and dialled = "Inl (OSError ''refused'')"])
    (auto intro!: session_reachable.intros)

text \<open>What stays silent: output written after a point where no child plays is of newer epochs.\<close>

definition written_after :: "(int \<times> bytes) list \<Rightarrow> int \<Rightarrow> world \<Rightarrow> bool" where
  "written_after before n w \<longleftrightarrow>
     (\<exists>new. pl_written (w_player w) = before @ new \<and> (\<forall>e \<in> set (map fst new). n < e)) \<and>
     n \<le> nw_last_output_epoch (w_net w) \<and> (\<forall>e. pl_process (w_player w) = Some e \<longrightarrow> n < e)"

lemma written_after_step:
  assumes "written_after before n w" "advances w w1"
  shows "written_after before n w1"
proof -
  obtain a where a: "pl_written (w_player w) = before @ a" "\<forall>e \<in> set (map fst a). n < e"
    using assms(1) unfolding written_after_def by blast
  obtain b where b: "pl_written (w_player w1) = pl_written (w_player w) @ b"
    "\<forall>e \<in> set (map fst b). pl_process (w_player w) = Some e"
    using assms(2) unfolding advances_def output_step_def by blast
  have n: "\<forall>e. pl_process (w_player w) = Some e \<longrightarrow> n < e" "n \<le> nw_last_output_epoch (w_net w)"
    using assms(1) unfolding written_after_def by blast+
  have "pl_written (w_player w1) = before @ (a @ b)" using a(1) b(1) by simp
  moreover have "\<forall>e \<in> set (map fst (a @ b)). n < e" using a(2) b(2) n(1) by auto
  moreover have "n \<le> nw_last_output_epoch (w_net w1)" using n(2) assms(2) unfolding advances_def by linarith
  moreover have "n < e" if "pl_process (w_player w1) = Some e" for e
    using that assms(2) n unfolding advances_def output_step_def by force
  ultimately show ?thesis unfolding written_after_def by blast
qed

text \<open>C10: Flushed output never resumes. Once the player has no child - after a barge-in, an interrupt, a
  stop or the end of an epoch - nothing of the epochs seen so far is ever written to a player again: whatever
  any continuation of the run plays belongs to strictly newer output epochs.\<close>
theorem flushed_output_never_resumes:
  assumes "session_reachable frepr loads cfg dialled w" "\<And>c. dialled = Inr c \<Longrightarrow> ws_inv c"
    and "pl_process (w_player w) = None" "list_all event_ok evs"
  shows "\<exists>new. pl_written (w_player (session_run frepr loads cfg dialled evs w)) = pl_written (w_player w) @ new \<and>
    (\<forall>(epoch, data) \<in> set new. nw_last_output_epoch (w_net w) < epoch)"
proof -
  let ?b = "pl_written (w_player w)" and ?n = "nw_last_output_epoch (w_net w)"
  have "session_inv cfg v \<Longrightarrow> written_after ?b ?n v \<Longrightarrow>
      written_after ?b ?n (session_run frepr loads cfg dialled evs v)" for v
    using assms(4)
  proof (induction evs arbitrary: v)
    case (Cons ev evs)
    then have ev: "event_ok ev" "list_all event_ok evs" by simp_all
    note k = step_keeps [OF Cons.prems(1) ev(1) assms(2)]
    show ?case
      using Cons.IH [OF k(1) written_after_step [OF Cons.prems(2) k(2)] ev(2)] by simp
  qed simp
  moreover have "written_after ?b ?n w" using assms(3) by (simp add: written_after_def)
  ultimately have "written_after ?b ?n (session_run frepr loads cfg dialled evs w)"
    using reachable_session_inv [OF assms(1,2)] by blast
  then show ?thesis unfolding written_after_def by fastforce
qed

theorem flushed_output_never_resumes_witness:
  "\<exists>new. pl_written (w_player (session_run (\<lambda>_. []) (\<lambda>_. None) sample_config (Inl (OSError ''refused''))
       [StartCall, StopCall] (new_world sample_config))) = pl_written (w_player (new_world sample_config)) @ new \<and>
    (\<forall>(epoch, data) \<in> set new. nw_last_output_epoch (w_net (new_world sample_config)) < epoch)"
  by (rule flushed_output_never_resumes [OF session_reachable.fresh])
    (simp_all add: new_world_def new_player_def event_ok_def)

lemma run_voice:
  assumes "session_inv cfg w" "w_phase w \<noteq> Idle" "list_all event_ok evs" "\<And>c. dialled = Inr c \<Longrightarrow> ws_inv c"
    and "\<And>us vs. evs = us @ vs \<Longrightarrow> requested (w_session (session_run frepr loads cfg dialled us w))"
  shows "no_new_voice w (session_run frepr loads cfg dialled evs w)"
  using assms(1-3,5)
proof (induction evs arbitrary: w)
  case Nil
  show ?case by (simp add: no_new_voice_def)
next
  case (Cons ev evs)
  have ev: "event_ok ev" "list_all event_ok evs" using Cons.prems(3) by simp_all
  have "requested (w_session w)" using Cons.prems(4) [of "[]" "ev # evs"] by simp
  note voice = step_voice [OF Cons.prems(1,2) this, of frepr loads dialled ev]
  have "no_new_voice (session_step frepr loads cfg dialled ev w) (session_run frepr loads cfg dialled (ev # evs) w)"
    unfolding session_run_simps
    by (rule Cons.IH [OF step_keeps(1) [OF Cons.prems(1) ev(1) assms(4)] step_not_idle [OF Cons.prems(2)] ev(2)])
      (use Cons.prems(4) [of "ev # _"] in simp_all)
  with voice show ?case by (rule no_new_voice_trans)
qed

text \<open>C18: No microphone audio is taken for the bridge while a stop or an interrupt is pending. From the moment of
  the request until the bridge has acknowledged the interrupt and the session has resumed, whatever the threads
  do, the binary frames on the connection stay those sent before, but for one: the packet that the network thread
  had already popped when the request came, and that it sends after it.\<close>
theorem no_microphone_after_request:
  assumes "session_reachable frepr loads cfg dialled w" "\<And>c. dialled = Inr c \<Longrightarrow> ws_inv c"
    and "w_phase w \<noteq> Idle" "list_all event_ok evs"
    and "\<And>us vs. evs = us @ vs \<Longrightarrow> ss_stop_requested (w_session (session_run frepr loads cfg dialled us w))
           \<or> ss_interrupt_requested (w_session (session_run frepr loads cfg dialled us w))"
    and "v = session_run frepr loads cfg dialled evs w"
  shows "voice_frames (w_conn v) = voice_frames (w_conn w)
    \<or> (\<exists>p remaining. w_phase w = SendPacket p remaining
         \<and> voice_frames (w_conn v) = voice_frames (w_conn w) @ [(OP_BINARY, pk_data p)])"
proof -
  have "no_new_voice w v"
    unfolding assms(6) using assms(5)
    by (intro run_voice [OF reachable_session_inv [OF assms(1,2)] assms(3,4,2)]) (auto simp: requested_def)
  then show ?thesis by (cases "w_phase w") (auto simp: no_new_voice_def in_flight_def)
qed

text \<open>A run that reaches the loop: the bridge acknowledges, then the controller interrupts.\<close>

definition quiet_transport :: transport where
  "quiet_transport = \<lparr>tr_mask = \<lambda>_. [1, 2, 3, 4], tr_send = \<lambda>_. None, tr_recv = \<lambda>_. Blocked\<rparr>"

definition quiet_env :: "rat \<Rightarrow> step_env" where
  "quiet_env now =
     \<lparr>en_now = now, en_later = now, en_transport = quiet_transport,
      en_player = \<lparr>pe_spawn = Spawned, pe_exited = False, pe_write = WouldBlock, pe_exited_after = False, pe_reaped = True\<rparr>,
      en_guard = Inr (), en_ping = [], en_readable = False\<rparr>"

lemma quiet_event [simp]: "event_ok (Network (quiet_env t))"
  by (simp add: event_ok_def quiet_env_def quiet_transport_def honest_def)

lemma quiet_honest [simp]: "honest (en_transport (quiet_env t))"
  by (simp add: quiet_env_def quiet_transport_def honest_def)

section \<open>Teardown\<close>

text \<open>A session told not to survive its interrupt.\<close>

definition doomed :: "world \<Rightarrow> bool" where
  "doomed w \<longleftrightarrow>
     w_phase w \<noteq> Idle \<and> ss_interrupt_requested (w_session w) \<and> \<not> ss_preserve_session (w_session w) \<and>
     ss_state (w_session w) \<notin> {New, Connecting, Ready}"

definition stays_doomed :: "session \<Rightarrow> session \<Rightarrow> bool" where
  "stays_doomed s s1 \<longleftrightarrow>
     ss_interrupt_requested s1 = ss_interrupt_requested s \<and> ss_preserve_session s1 = ss_preserve_session s \<and>
     ss_state s1 = ss_state s"

lemma stays_doomed_simps [simp]:
  "stays_doomed s s" "stays_doomed s (set_local_output_epoch e s)" "stays_doomed s (clear_audio s)"
  "stays_doomed s (clear_audio (set_local_output_epoch e s))"
  "stays_doomed s (s1\<lparr>ss_suppressed_epoch := x\<rparr>) = stays_doomed s s1"
  "stays_doomed s (s1\<lparr>ss_queue := q\<rparr>) = stays_doomed s s1"
  "ss_preserve_session (set_local_output_epoch e s) = ss_preserve_session s"
  "ss_preserve_session (clear_audio s) = ss_preserve_session s"
  by (simp_all add: stays_doomed_def set_local_output_epoch_def clear_audio_def)

lemma doomed_after:
  assumes "\<not> ss_preserve_session (w_session w)"
  shows "stays_doomed (w_session w) (w_session (snd (after_message frepr env r w)))"
  using assms by (cases r) (auto simp: after_message_def Let_def split: sum.split prod.split)

lemma doomed_resolve:
  assumes "doomed w" "stays_doomed (w_session w) (w_session (snd r))"
    "\<And>ph. fst r = Go ph \<Longrightarrow> ph \<noteq> Idle"
  shows "doomed (resolve_outcome r)"
  using assms by (cases r; cases "fst r") (auto simp: resolve_outcome_def doomed_def stays_doomed_def)

lemma receive_stays_doomed:
  assumes "session_inv cfg w" "w_phase w = Receive" "\<not> ss_preserve_session (w_session w)"
  shows "stays_doomed (w_session w) (w_session (snd (receive_phase frepr loads cfg env w)))"
proof -
  let ?s = "w_session w" and ?n = "w_net w"
  have parts: "capture_ok cfg ?s" "player_ok (w_player w)"
    "epochs_ok (nw_output_epoch ?n) (nw_last_output_epoch ?n) ?s (w_player w)"
    using assms(1) by (simp_all add: session_inv_parts parts_ok_def)
  have h: "stays_doomed ?s s1"
    if "handle_message cfg loads (en_player env) (en_guard env) m (nw_output_epoch ?n) (nw_last_output_epoch ?n)
          ?s (w_player w) = (res, s1, p1)" for m res s1 p1
    using message_handled [OF parts(3,1,2), of loads "en_player env" "en_guard env" m]
    by (simp add: that handled_ok_def same_lifecycle_def stays_doomed_def)
  have after: "stays_doomed ?s (w_session (snd (after_message frepr env r v)))"
    if "stays_doomed ?s (w_session v)" for r v
    using doomed_after [of v frepr env r] that assms(3) by (simp add: stays_doomed_def)
  show "stays_doomed ?s (w_session (snd (receive_phase frepr loads cfg env w)))"
    by (auto simp: receive_phase_def split: sum.split prod.split option.split ws_message.split intro!: after dest: h)
qed

lemma doomed_phases:
  assumes "doomed w"
  shows "stays_doomed (w_session w) (w_session (snd (waiting_phase loads cfg d env w)))"
    "stays_doomed (w_session w) (w_session (snd (control_phase frepr cfg env w)))"
    "stays_doomed (w_session w) (w_session (snd (service_phase env w)))"
    "stays_doomed (w_session w) (w_session (snd (audio_phase env w)))"
    "stays_doomed (w_session w) (w_session (snd (send_packet_phase p remaining env w)))"
    "stays_doomed (w_session w) (w_session (snd (ping_phase cfg env w)))"
proof -
  have r: "ss_interrupt_requested (w_session w)" using assms by (simp add: doomed_def)
  show "stays_doomed (w_session w) (w_session (snd (waiting_phase loads cfg d env w)))"
    using r by (simp add: waiting_phase_def)
  show "stays_doomed (w_session w) (w_session (snd (control_phase frepr cfg env w)))"
    using r by (auto simp: control_phase_def Let_def split: sum.split prod.split option.split)
  show "stays_doomed (w_session w) (w_session (snd (service_phase env w)))"
    by (auto simp: service_phase_def split: sum.split prod.split)
  show "stays_doomed (w_session w) (w_session (snd (audio_phase env w)))"
    by (auto simp: audio_phase_def Let_def split: sum.split prod.split option.split)
  show "stays_doomed (w_session w) (w_session (snd (send_packet_phase p remaining env w)))"
    by (auto simp: send_packet_phase_def Let_def split: sum.split prod.split)
  show "stays_doomed (w_session w) (w_session (snd (ping_phase cfg env w)))"
    by (auto simp: ping_phase_def Let_def split: sum.split prod.split)
qed

lemma doomed_call:
  assumes "doomed w"
  shows "doomed (w\<lparr>w_session := snd (submit_audio cfg now v (w_session w))\<rparr>)"
    "doomed (w\<lparr>w_session := interrupt b (w_session w)\<rparr>)" "doomed (w\<lparr>w_session := stop (w_session w)\<rparr>)"
    "doomed (w\<lparr>w_session := snd (start (w_session w))\<rparr>)"
  using assms
  by (simp_all add: doomed_def) (auto simp: call_defs Let_def split: if_splits)

lemma doomed_step:
  assumes "session_inv cfg w" "doomed w"
  shows "doomed (session_step frepr loads cfg dialled ev w)"
proof (cases ev)
  case (Network env)
  have p: "\<not> ss_preserve_session (w_session w)" using assms(2) by (simp add: doomed_def)
  note d = doomed_phases [OF assms(2)] receive_stays_doomed [OF assms(1) _ p]
  note go = go_not_idle receive_not_idle
  show ?thesis
  proof (cases "w_phase w")
    case Idle
    then show ?thesis using assms(2) by (simp add: doomed_def)
  next
    case (Closing b)
    then show ?thesis using assms(2) Network
      by (simp add: session_step_def network_step_def closing_phase_def doomed_def)
  next
    case (Publishing b)
    then show ?thesis using assms(2) Network
      by (simp add: session_step_def network_step_def publish_terminal_def doomed_def)
  next
    case Finished
    then show ?thesis using assms(2) Network by (simp add: session_step_def network_step_def)
  qed (use Network in \<open>auto simp: session_step_def network_step_def intro!: doomed_resolve [OF assms(2)] d dest: go\<close>)
qed (simp_all add: session_step_def doomed_call [OF assms(2)])

lemma doomed_run:
  assumes "session_inv cfg w" "doomed w" "list_all event_ok evs" "\<And>c. dialled = Inr c \<Longrightarrow> ws_inv c"
  shows "doomed (session_run frepr loads cfg dialled evs w) \<and>
    no_new_voice w (session_run frepr loads cfg dialled evs w)"
  using assms(1-3)
proof (induction evs arbitrary: w)
  case Nil
  then show ?case by (simp add: no_new_voice_def)
next
  case (Cons ev evs)
  then have ev: "event_ok ev" "list_all event_ok evs" by simp_all
  have v: "no_new_voice w (session_step frepr loads cfg dialled ev w)"
    using step_voice [OF Cons.prems(1)] Cons.prems(2) by (simp add: doomed_def requested_def)
  show ?case
    using Cons.IH [OF step_keeps(1) [OF Cons.prems(1) ev(1) assms(4)] doomed_step [OF Cons.prems(1,2)] ev(2)]
      no_new_voice_trans [OF v] by simp
qed

text \<open>C13: A teardown cannot be undone. After \<^verbatim>\<open>interrupt(preserve_session=False)\<close> on a started session,
  however the bridge acknowledges the interrupt and whatever the other threads call, the session is never
  ready again, and the only microphone audio that can still leave the device is the one packet that the network
  thread had popped from the queue before the call and not sent yet.\<close>
theorem teardown_never_resumes:
  assumes "session_reachable frepr loads cfg dialled w" "\<And>c. dialled = Inr c \<Longrightarrow> ws_inv c"
    and "w_phase w \<noteq> Idle" "\<not> ss_terminal (w_session w)" "list_all event_ok evs"
    and "v = session_run frepr loads cfg dialled (InterruptCall False # evs) w"
  shows "ss_state (w_session v) \<in> {Stopping, Stopped, SessionFailed} \<and>
    (voice_frames (w_conn v) = voice_frames (w_conn w)
     \<or> (\<exists>p remaining. w_phase w = SendPacket p remaining
          \<and> voice_frames (w_conn v) = voice_frames (w_conn w) @ [(OP_BINARY, pk_data p)]))"
proof -
  let ?w = "session_step frepr loads cfg dialled (InterruptCall False) w"
  have inv: "session_inv cfg w" by (rule reachable_session_inv [OF assms(1,2)])
  then have "ss_state (w_session w) \<noteq> New" using assms(3) by (simp add: session_inv_parts lifecycle_ok_def)
  then have d: "doomed ?w"
    using assms(3,4)
    by (simp add: session_step_def doomed_def interrupt_lifecycle) (auto simp: call_defs Let_def)
  have "session_inv cfg ?w" by (rule step_keeps(1) [OF inv _ assms(2)]) (simp add: event_ok_def)
  note run = doomed_run [OF this d assms(5,2), where frepr = frepr and loads = loads]
  have "ss_state (w_session v) \<in> {Stopping, Stopped, SessionFailed}"
    using run assms(6) by (cases "ss_state (w_session v)") (auto simp: doomed_def)
  moreover have "no_new_voice ?w v" using run assms(6) by simp
  then have "no_new_voice w v" by (simp add: no_new_voice_def session_step_def in_flight_def)
  ultimately show ?thesis by (cases "w_phase w") (auto simp: no_new_voice_def in_flight_def)
qed

section \<open>Local barge-in\<close>

lemma submit_queue:
  assumes "submit_audio cfg t v s = (Accepted, s1)"
  obtains q where "s1 = detect_local_barge_in cfg v (s\<lparr>ss_queue := q\<rparr>)"
  using assms by (auto simp: submit_audio_def split: if_splits prod.splits bool.splits)

text \<open>Two accepted frames that qualify leave a request for the published epoch, whatever came before.\<close>

lemma two_frames_request:
  assumes "cf_full_duplex cfg" "ss_local_epoch s = Some e" "ss_requested_epoch s = None"
    "pcm_has_local_barge_in_signal v1" "pcm_has_local_barge_in_signal v2"
    "submit_audio cfg t1 v1 s = (Accepted, s1)" "submit_audio cfg t2 v2 s1 = (Accepted, s2)"
  shows "ss_requested_epoch s2 = Some e \<and> ss_local_epoch s2 = Some e \<and>
    ss_stop_requested s2 = ss_stop_requested s \<and> ss_interrupt_requested s2 = ss_interrupt_requested s"
proof -
  obtain q1 where s1: "s1 = detect_local_barge_in cfg v1 (s\<lparr>ss_queue := q1\<rparr>)" by (rule submit_queue [OF assms(6)])
  obtain q2 where s2: "s2 = detect_local_barge_in cfg v2 (s1\<lparr>ss_queue := q2\<rparr>)" by (rule submit_queue [OF assms(7)])
  show ?thesis
    using assms(1-5) by (auto simp: s2 s1 detect_local_barge_in_def LOCAL_BARGE_IN_FRAMES_def Let_def)
qed

text \<open>Local barge-in works end to end. In full duplex, while an output epoch plays, two consecutive
  accepted microphone frames with the energy of speech make the next turn of the network loop kill the
  player and its queued audio, release the output gate and mark the epoch suppressed, so that the rest of
  the bridge's audio for it is discarded instead of failing the session.\<close>
theorem local_barge_in_flushes:
  assumes "session_inv cfg w" "cf_full_duplex cfg" "w_phase w = Control"
    and "ss_local_epoch (w_session w) = Some e" "ss_requested_epoch (w_session w) = None"
    and "\<not> ss_stop_requested (w_session w)" "\<not> ss_interrupt_requested (w_session w)" "player_active (w_player w)"
    and "pcm_has_local_barge_in_signal v1" "pcm_has_local_barge_in_signal v2"
    and "submit_audio cfg t1 v1 (w_session w) = (Accepted, s1)" "submit_audio cfg t2 v2 s1 = (Accepted, s2)"
    and "check_deadlines (en_now env) (nw_started_at (w_net w)) (nw_last_activity (w_net w))
           (cf_max_session_seconds cfg) (cf_idle_timeout_seconds cfg) (nw_pending_ping (w_net w))
           (nw_pong_deadline (w_net w)) = Inr ()"
    and "w1 = network_step frepr loads cfg dialled env (w\<lparr>w_session := s2\<rparr>)"
  shows "w_phase w1 = Service \<and> \<not> player_active (w_player w1) \<and> nw_output_epoch (w_net w1) = None \<and>
    \<not> ss_output_active (w_session w1) \<and> ss_suppressed_epoch (w_session w1) = Some e \<and>
    handle_message cfg loads penv guard (Binary data) (nw_output_epoch (w_net w1))
        (nw_last_output_epoch (w_net w1)) (w_session w1) (w_player w1) =
      (Inr (None, None, nw_last_output_epoch (w_net w1), False), w_session w1, w_player w1)"
proof -
  have ep: "epochs_ok (nw_output_epoch (w_net w)) (nw_last_output_epoch (w_net w)) (w_session w) (w_player w)"
    using assms(1) by (simp add: session_inv_def)
  have e: "e = nw_last_output_epoch (w_net w)" using ep assms(4) by (simp add: epochs_ok_def)
  have "nw_output_epoch (w_net w) = Some e \<or> nw_output_epoch (w_net w) = None"
    using ep e by (cases "nw_output_epoch (w_net w)") (auto simp: epochs_ok_def)
  moreover have s2: "ss_requested_epoch s2 = Some e" "ss_local_epoch s2 = Some e"
    "\<not> ss_stop_requested s2" "\<not> ss_interrupt_requested s2"
    using two_frames_request [OF assms(2,4,5,9-12)] assms(6,7) by auto
  ultimately have flush: "flush_local_barge_in (w_player w) (nw_output_epoch (w_net w))
      (nw_last_output_epoch (w_net w)) s2 = (None, player_abort (w_player w),
        s2\<lparr>ss_requested_epoch := None, ss_barge_frames := 0, ss_local_epoch := None, ss_output_active := False,
           ss_suppressed_epoch := Some e\<rparr>)"
    using assms(8) e by (auto simp: flush_local_barge_in_def Let_def)
  have "w1 = w\<lparr>w_session := s2\<lparr>ss_requested_epoch := None, ss_barge_frames := 0, ss_local_epoch := None,
        ss_output_active := False, ss_suppressed_epoch := Some e\<rparr>, w_player := player_abort (w_player w),
      w_net := (w_net w)\<lparr>nw_now := en_now env, nw_output_epoch := None\<rparr>, w_phase := Service\<rparr>"
    using assms(3,13) s2 flush
    by (simp add: assms(14) network_step_def control_phase_def resolve_outcome_def Let_def)
  then show ?thesis by (simp add: player_active_def player_abort_def handle_message_def)
qed

section \<open>Bounded lifetime\<close>

text \<open>How many turns the network thread has left once its time is up.\<close>

fun turns_left :: "phase \<Rightarrow> nat" where
  "turns_left Idle = 0"
| "turns_left (Waiting d) = 3"
| "turns_left Control = 3"
| "turns_left Service = 8"
| "turns_left SendAudio = 7"
| "turns_left (SendPacket p remaining) = 6"
| "turns_left PingPhase = 5"
| "turns_left Receive = 4"
| "turns_left (Closing b) = 2"
| "turns_left (Publishing b) = 1"
| "turns_left Finished = 0"

definition time_up :: "realtime_config \<Rightarrow> world \<Rightarrow> event \<Rightarrow> bool" where
  "time_up cfg w ev \<longleftrightarrow>
     (case ev of
        Network env \<Rightarrow> nw_started_at (w_net w) + cf_max_session_seconds cfg \<le> en_now env \<and>
          (case w_phase w of Waiting d \<Rightarrow> d \<le> en_now env | _ \<Rightarrow> True)
      | _ \<Rightarrow> True)"

lemma resolve_turns:
  "(case fst r of Go ph \<Rightarrow> ph \<noteq> Idle \<and> turns_left ph < n \<and> (\<forall>d. ph \<noteq> Waiting d) | _ \<Rightarrow> 2 < n) \<Longrightarrow>
   w_phase (resolve_outcome r) \<noteq> Idle \<and> turns_left (w_phase (resolve_outcome r)) < n \<and>
   (\<forall>d. w_phase (resolve_outcome r) \<noteq> Waiting d)"
  by (cases r; cases "fst r") (auto simp: resolve_outcome_def)

lemma resolve_net [simp]: "w_net (resolve_outcome r) = w_net (snd r)"
  by (cases r; cases "fst r") (auto simp: resolve_outcome_def)

definition turns_down :: "nat \<Rightarrow> world \<Rightarrow> world \<Rightarrow> bool" where
  "turns_down n w w1 \<longleftrightarrow>
     w_phase w1 \<noteq> Idle \<and> turns_left (w_phase w1) < n \<and> (\<forall>d. w_phase w1 \<noteq> Waiting d) \<and>
     nw_started_at (w_net w1) = nw_started_at (w_net w)"

lemma resolve_down:
  assumes "case fst r of Go ph \<Rightarrow> ph \<noteq> Idle \<and> turns_left ph < n \<and> (\<forall>d. ph \<noteq> Waiting d) | _ \<Rightarrow> 2 < n"
    "nw_started_at (w_net (snd r)) = nw_started_at (w_net w)"
  shows "turns_down n w (resolve_outcome r)"
  using resolve_turns [OF assms(1)] assms(2) by (simp add: turns_down_def)

lemma after_message_down:
  "turns_down 4 w (resolve_outcome (after_message frepr env r w))"
  by (rule resolve_down; cases r)
    (auto simp: after_message_def Let_def split: sum.split prod.split outcome.split)

lemma expired_step:
  assumes "w_phase w \<notin> {Idle, Finished}" "time_up cfg w (Network env)"
  shows "turns_down (turns_left (w_phase w)) w (network_step frepr loads cfg dialled env w)"
proof -
  note late = assms(2) [unfolded time_up_def, simplified]
  show ?thesis
  proof (cases "w_phase w")
    case (Waiting d)
    then have "\<exists>e. waiting_phase loads cfg d env w = (Raise e, w)"
      using late by (simp add: waiting_phase_def)
    then show ?thesis using Waiting by (auto simp: network_step_def intro!: resolve_down)
  next
    case Control
    have "check_deadlines (en_now env) (nw_started_at (w_net w)) (nw_last_activity (w_net w))
        (cf_max_session_seconds cfg) (cf_idle_timeout_seconds cfg) (nw_pending_ping (w_net w))
        (nw_pong_deadline (w_net w)) = Inl (WebSocketError ''realtime session exceeded its hard limit'')"
      using late by (simp add: check_deadlines_def algebra_simps)
    then show ?thesis using Control
      by (auto simp: network_step_def control_phase_def Let_def intro!: resolve_down)
  next
    case Service
    then show ?thesis
      by (auto simp: network_step_def service_phase_def split: sum.split prod.split intro!: resolve_down)
  next
    case SendAudio
    then show ?thesis
      by (auto simp: network_step_def audio_phase_def Let_def split: sum.split prod.split option.split
          intro!: resolve_down)
  next
    case (SendPacket p remaining)
    then show ?thesis
      by (auto simp: network_step_def send_packet_phase_def Let_def split: sum.split prod.split intro!: resolve_down)
  next
    case PingPhase
    then show ?thesis
      by (auto simp: network_step_def ping_phase_def Let_def split: sum.split prod.split intro!: resolve_down)
  next
    case Receive
    have "turns_down 4 w (resolve_outcome (after_message frepr env r v))" if "w_net v = w_net w" for r v
      using after_message_down [of v frepr env r] that by (simp add: turns_down_def)
    then show ?thesis using Receive
      by (auto simp: network_step_def receive_phase_def split: sum.split prod.split option.split ws_message.split
          intro!: resolve_down)
  qed (use assms(1) in \<open>simp_all add: network_step_def turns_down_def closing_phase_def publish_terminal_def\<close>)
qed

fun network_turns :: "event list \<Rightarrow> nat" where
  "network_turns [] = 0"
| "network_turns (Network env # evs) = Suc (network_turns evs)"
| "network_turns (ev # evs) = network_turns evs"

lemma finished_stays:
  assumes "w_phase w = Finished"
  shows "w_phase (session_run frepr loads cfg dialled evs w) = Finished"
  using assms
  by (induction evs arbitrary: w)
    (simp_all add: session_step_def network_step_def split: event.split)

lemma expired_run:
  assumes "w_phase w \<noteq> Idle" "turns_left (w_phase w) \<le> network_turns evs" "list_all (time_up cfg w0) evs"
    "nw_started_at (w_net w) = nw_started_at (w_net w0)" "w_phase w = w_phase w0 \<or> (\<forall>d. w_phase w \<noteq> Waiting d)"
  shows "w_phase (session_run frepr loads cfg dialled evs w) = Finished"
  using assms
proof (induction evs arbitrary: w)
  case Nil
  then show ?case by (cases "w_phase w") auto
next
  case (Cons ev evs)
  show ?case
  proof (cases "w_phase w = Finished")
    case True
    then show ?thesis by (rule finished_stays)
  next
    case False
    show ?thesis
    proof (cases ev)
      case (Network env)
      have "time_up cfg w (Network env)"
        using Cons.prems(3-5) Network by (auto simp: time_up_def split: phase.splits)
      from expired_step [OF _ this, of frepr loads dialled]
      have d: "turns_down (turns_left (w_phase w)) w (network_step frepr loads cfg dialled env w)"
        using Cons.prems(1) False by simp
      show ?thesis
        unfolding session_run_simps
        by (rule Cons.IH) (use d Cons.prems Network in \<open>auto simp: session_step_def turns_down_def\<close>)
    qed (use Cons in \<open>simp_all add: session_step_def\<close>)
  qed
qed

text \<open>C20: Every session ends. Once a started session's hard limit has passed (and, during startup, its
  handshake deadline), at most eight turns of the network thread end it, whatever the bridge, the player and
  the other threads do in between: the thread finishes, the terminal event is set, and the published state
  is stopped or failed.\<close>
theorem session_ends_at_hard_limit:
  assumes "session_reachable frepr loads cfg dialled w" "\<And>c. dialled = Inr c \<Longrightarrow> ws_inv c"
    and "w_phase w \<noteq> Idle" "list_all event_ok evs" "list_all (time_up cfg w) evs" "8 \<le> network_turns evs"
    and "v = session_run frepr loads cfg dialled evs w"
  shows "w_phase v = Finished \<and> ss_terminal (w_session v) \<and> ss_state (w_session v) \<in> {Stopped, SessionFailed}"
proof -
  have "turns_left (w_phase w) \<le> 8" by (cases "w_phase w") simp_all
  then have f: "w_phase v = Finished"
    unfolding assms(7) using assms(3,5,6) by (intro expired_run) auto
  have "session_inv cfg u \<Longrightarrow> session_inv cfg (session_run frepr loads cfg dialled evs u)" for u
    using assms(4)
  proof (induction evs arbitrary: u)
    case (Cons ev evs)
    then show ?case using step_keeps(1) [OF Cons.prems(1) _ assms(2)] by simp
  qed simp
  then have "session_inv cfg v" using reachable_session_inv [OF assms(1,2)] assms(7) by blast
  then show ?thesis using f by (simp add: session_inv_parts)
qed

section \<open>A gate that stays closed\<close>

text \<open>
  \<^verbatim>\<open>_PcmPlayer.service\<close> polls its child twice. A child that has exited with audio still queued is an
  error at the first poll, but the second poll reaps it silently and keeps the queued bytes.
\<close>

lemma reaped_with_audio:
  assumes "pl_process q = None" "pl_pending q \<noteq> []"
  shows "player_service env q = (Inr (), q)" "player_active q"
    "pl_epoch q = None \<Longrightarrow> player_finish env e q = (Inr (), q)"
  using assms by (simp_all add: player_service_def player_active_def player_finish_def)

text \<open>
  When the child has exited between the two polls of \<^verbatim>\<open>service\<close> with audio still queued, neither a turn of
  \<^verbatim>\<open>service\<close> nor the end of the epoch releases the output gate of a half-duplex session: both leave the player
  as it is, and the microphone frame after the turn is refused.
\<close>
theorem undrained_exit_gates_microphone:
  assumes "pl_process q = None" "pl_epoch q = None" "pl_pending q \<noteq> []"
    and "w_player w = q" "ss_output_active (w_session w)" "\<not> cf_full_duplex cfg"
    and "ss_state (w_session w) \<in> {Connecting, Ready}"
    and "v \<noteq> []" "length v mod 2 = 0" "int (length v) \<le> cf_max_message_bytes cfg"
  shows "w_player (snd (service_phase env1 w)) = q \<and>
    speaking_stopped penv e (Some e) last_epoch (w_session w) q =
      (Inr (None, None, last_epoch, True), w_session w, q) \<and>
    fst (submit_audio cfg t v (w_session (snd (service_phase env1 w)))) = Gated"
proof -
  have s: "service_phase env1 w = (Go SendAudio, w)"
    using reaped_with_audio(1,2) [OF assms(1,3)] assms(4) by (simp add: service_phase_def)
  have "speaking_stopped penv e (Some e) last_epoch (w_session w) q =
      (Inr (None, None, last_epoch, True), w_session w, q)"
    using reaped_with_audio(3) [OF assms(1,3,2)] by (simp add: speaking_stopped_def)
  then show ?thesis using s assms(4-10) by (auto simp: submit_audio_def)
qed

section \<open>Witnesses\<close>

definition sample_dialled :: "ws_conn result" where
  "sample_dialled = Inr (new_conn [] 65536)"

definition sample_run :: "event list \<Rightarrow> world" where
  "sample_run evs = session_run (\<lambda>_. []) (\<lambda>_. None) sample_config sample_dialled evs (new_world sample_config)"

lemma sample_dialled_inv: "sample_dialled = Inr c \<Longrightarrow> ws_inv c"
  by (auto simp: sample_dialled_def new_conn_def ws_inv_def)

lemma session_run_append:
  "session_run frepr loads cfg dialled (as @ bs) w =
     session_run frepr loads cfg dialled bs (session_run frepr loads cfg dialled as w)"
  by (simp add: session_run_def)

lemma run_reachable:
  "session_reachable frepr loads cfg dialled w \<Longrightarrow> list_all event_ok evs \<Longrightarrow>
   session_reachable frepr loads cfg dialled (session_run frepr loads cfg dialled evs w)"
proof (induction evs arbitrary: w)
  case (Cons ev evs)
  have "session_reachable frepr loads cfg dialled (session_step frepr loads cfg dialled ev w)"
    by (rule session_reachable.steps) (use Cons.prems in \<open>auto simp: event_ok_def\<close>)
  then show ?case using Cons by simp
qed simp

lemma sample_run_reachable:
  "list_all event_ok evs \<Longrightarrow>
   session_reachable (\<lambda>_. []) (\<lambda>_. None) sample_config sample_dialled (sample_run evs)"
  unfolding sample_run_def by (rule run_reachable [OF session_reachable.fresh])

lemma sample_start_sent:
  "ws_send_json (\<lambda>_. []) quiet_transport (realtime_start_message sample_config) (new_conn [] 65536) =
     (Inr (), (new_conn [] 65536)\<lparr>ws_sent := ws_sent (new_conn [] 65536) @
        [(OP_TEXT, text_bytes (dumps (\<lambda>_. []) (JObj (realtime_start_message sample_config))))]\<rparr>)"
  by (rule start_message_sends [OF sample_wf])
    (simp_all add: accepting_def quiet_transport_def new_conn_def sample_config_def)

text \<open>The session after \<^verbatim>\<open>start\<close> and the connection, waiting for the acknowledgement.\<close>

lemma sample_waits:
  "w_phase (sample_run [StartCall, Network (quiet_env 0)]) = Waiting 20"
  "\<not> ss_terminal (w_session (sample_run [StartCall, Network (quiet_env 0)]))"
  "ss_state (w_session (sample_run [StartCall, Network (quiet_env 0)])) = Connecting"
  "nw_started_at (w_net (sample_run [StartCall, Network (quiet_env 0)])) = 0"
proof -
  have c: "cf_max_session_seconds sample_config = 300" "cf_handshake_timeout_seconds sample_config = 20"
    by (simp_all add: sample_config_def)
  show "w_phase (sample_run [StartCall, Network (quiet_env 0)]) = Waiting 20"
    "\<not> ss_terminal (w_session (sample_run [StartCall, Network (quiet_env 0)]))"
    "ss_state (w_session (sample_run [StartCall, Network (quiet_env 0)])) = Connecting"
    "nw_started_at (w_net (sample_run [StartCall, Network (quiet_env 0)])) = 0"
    by (simp_all add: sample_run_def session_step_def network_step_def new_world_def start_def new_session_def
        connect_phase_def sample_dialled_def quiet_env_def sample_start_sent c resolve_outcome_def
        new_network_def Let_def)
qed

theorem teardown_never_resumes_witness:
  "ss_state (w_session (session_run (\<lambda>_. []) (\<lambda>_. None) sample_config sample_dialled
     (InterruptCall False # [Submit 1 [1, 2], Network (quiet_env 1)])
     (sample_run [StartCall, Network (quiet_env 0)]))) \<in> {Stopping, Stopped, SessionFailed}"
proof -
  have "list_all event_ok [StartCall, Network (quiet_env 0)]" "list_all event_ok [Submit 1 [1, 2], Network (quiet_env 1)]"
    by (simp_all add: event_ok_def)
  then show ?thesis
    using teardown_never_resumes [OF sample_run_reachable sample_dialled_inv _ _ _ refl,
        of "[StartCall, Network (quiet_env 0)]" "[Submit 1 [1, 2], Network (quiet_env 1)]"]
    by (simp add: sample_waits)
qed

theorem no_microphone_after_request_witness:
  "voice_frames (w_conn (session_run (\<lambda>_. []) (\<lambda>_. None) sample_config sample_dialled
     [Submit 1 [1, 2], Network (quiet_env 1)] (sample_run [StartCall, Network (quiet_env 0), StopCall]))) =
   voice_frames (w_conn (sample_run [StartCall, Network (quiet_env 0), StopCall]))"
proof -
  let ?w = "sample_run [StartCall, Network (quiet_env 0), StopCall]"
  let ?run = "\<lambda>evs. session_run (\<lambda>_. []) (\<lambda>_. None) sample_config sample_dialled evs ?w"
  have w: "?w = (sample_run [StartCall, Network (quiet_env 0)])\<lparr>w_session :=
         stop (w_session (sample_run [StartCall, Network (quiet_env 0)]))\<rparr>"
    by (simp add: sample_run_def session_step_def [of _ _ _ _ StopCall])
  have ph: "w_phase ?w = Waiting 20" "ss_stop_requested (w_session ?w)"
    by (simp_all add: w sample_waits stop_lifecycle)
  have closed: "snd (submit_audio sample_config 1 [1, 2] (w_session ?w)) = w_session ?w"
    by (simp add: w submit_audio_def stop_lifecycle sample_waits)
  have stopped: "ss_stop_requested (w_session (?run us))" if "[Submit 1 [1, 2], Network (quiet_env 1)] = us @ vs" for us vs
    using that ph closed
    by (auto simp: Cons_eq_append_conv session_step_def network_step_def waiting_phase_def resolve_outcome_def)
  have ok: "list_all event_ok [StartCall, Network (quiet_env 0), StopCall]"
    "list_all event_ok [Submit 1 [1, 2], Network (quiet_env 1)]" by (simp_all add: event_ok_def)
  have "voice_frames (w_conn (?run [Submit 1 [1, 2], Network (quiet_env 1)])) = voice_frames (w_conn ?w)
    \<or> (\<exists>p remaining. w_phase ?w = SendPacket p remaining
         \<and> voice_frames (w_conn (?run [Submit 1 [1, 2], Network (quiet_env 1)])) =
             voice_frames (w_conn ?w) @ [(OP_BINARY, pk_data p)])"
    by (rule no_microphone_after_request [OF sample_run_reachable [OF ok(1)] sample_dialled_inv _ ok(2) _ refl])
      (use ph stopped in simp_all)
  then show ?thesis by (simp add: ph)
qed

theorem session_ends_at_hard_limit_witness:
  "w_phase (session_run (\<lambda>_. []) (\<lambda>_. None) sample_config sample_dialled
     (replicate 8 (Network (quiet_env 300))) (sample_run [StartCall, Network (quiet_env 0)])) = Finished"
proof -
  have ok: "list_all event_ok [StartCall, Network (quiet_env 0)]" by (simp add: event_ok_def)
  have evs: "list_all event_ok (replicate 8 (Network (quiet_env 300)))"
    "list_all (time_up sample_config (sample_run [StartCall, Network (quiet_env 0)])) (replicate 8 (Network (quiet_env 300)))"
    "8 \<le> network_turns (replicate 8 (Network (quiet_env 300)))"
    by (simp_all add: list_all_iff time_up_def sample_waits) (simp_all add: quiet_env_def sample_config_def numeral_eq_Suc)
  show ?thesis
    using session_ends_at_hard_limit [OF sample_run_reachable [OF ok] sample_dialled_inv _ evs refl]
    by (simp add: sample_waits)
qed

text \<open>A session in the middle of output epoch 1.\<close>

definition speaking_world :: world where
  "speaking_world =
     \<lparr>w_session = (new_session sample_config)\<lparr>ss_state := Ready, ss_output_active := True, ss_local_epoch := Some 1\<rparr>,
      w_net = (new_network 0)\<lparr>nw_output_epoch := Some 1, nw_last_output_epoch := 1\<rparr>,
      w_player = (new_player 49152)\<lparr>pl_process := Some 1, pl_stdin := True, pl_epoch := Some 1\<rparr>,
      w_conn = new_conn [] 65536, w_opened = True, w_phase = Control\<rparr>"

lemma speaking_world_inv: "session_inv sample_config speaking_world"
  by (simp add: session_inv_def speaking_world_def new_session_def new_network_def capture_ok_def player_ok_def
      new_player_def epochs_ok_def lifecycle_ok_def live_def new_conn_def ws_inv_def LOCAL_BARGE_IN_FRAMES_def
      queue_valid_def new_queue_def)

lemma loud_frame: "pcm_has_local_barge_in_signal [0, 8, 0, 8]"
  by (simp add: pcm_has_local_barge_in_signal_def LOCAL_BARGE_IN_SIGNAL_PEAK_def LOCAL_BARGE_IN_SIGNAL_RMS_def
      sample_of_def)

theorem local_barge_in_flushes_witness:
  "\<exists>s1 s2. submit_audio sample_config 0 [0, 8, 0, 8] (w_session speaking_world) = (Accepted, s1) \<and>
     submit_audio sample_config 0 [0, 8, 0, 8] s1 = (Accepted, s2) \<and>
     \<not> player_active (w_player (network_step (\<lambda>_. []) (\<lambda>_. None) sample_config sample_dialled (quiet_env 1)
         (speaking_world\<lparr>w_session := s2\<rparr>)))"
proof -
  have c: "cf_max_message_bytes sample_config = 65536" "cf_full_duplex sample_config"
    "cf_input_queue_bytes sample_config = 65536" by (simp_all add: sample_config_def)
  obtain s1 where s1: "submit_audio sample_config 0 [0, 8, 0, 8] (w_session speaking_world) = (Accepted, s1)"
    "ss_state s1 = Ready" "aq_maximum (ss_queue s1) = 65536" "aq_bytes (ss_queue s1) = 4"
    by (simp add: submit_audio_def speaking_world_def new_session_def c queue_put_def new_queue_def
        detect_local_barge_in_def loud_frame LOCAL_BARGE_IN_FRAMES_def Let_def)
  obtain s2 where s2: "submit_audio sample_config 0 [0, 8, 0, 8] s1 = (Accepted, s2)"
    using s1(2-4) by (simp add: submit_audio_def c queue_put_def Let_def)
  have "\<not> player_active (w_player (network_step (\<lambda>_. []) (\<lambda>_. None) sample_config sample_dialled (quiet_env 1)
         (speaking_world\<lparr>w_session := s2\<rparr>)))"
    using local_barge_in_flushes [OF speaking_world_inv _ _ _ _ _ _ _ loud_frame loud_frame s1(1) s2 _ refl,
        of 1 "quiet_env 1"]
    by (simp add: c speaking_world_def new_session_def player_active_def new_network_def check_deadlines_def
        sample_config_def quiet_env_def)
  then show ?thesis using s1(1) s2 by blast
qed

theorem undrained_exit_gates_microphone_witness:
  "\<exists>q. player_service \<lparr>pe_spawn = Spawned, pe_exited = False, pe_write = WouldBlock, pe_exited_after = True, pe_reaped = True\<rparr>
       ((new_player 49152)\<lparr>pl_process := Some 1, pl_stdin := True, pl_epoch := Some 1, pl_pending := [1, 2]\<rparr>) = (Inr (), q) \<and>
     fst (submit_audio (sample_config\<lparr>cf_full_duplex := False\<rparr>) 5 [1, 2]
       (w_session (snd (service_phase (quiet_env 5) (speaking_world\<lparr>w_player := q\<rparr>))))) = Gated"
proof -
  let ?env = "\<lparr>pe_spawn = Spawned, pe_exited = False, pe_write = WouldBlock, pe_exited_after = True, pe_reaped = True\<rparr>"
  obtain q where q: "player_service ?env ((new_player 49152)\<lparr>pl_process := Some 1, pl_stdin := True,
      pl_epoch := Some 1, pl_pending := [1, 2]\<rparr>) = (Inr (), q)"
    "pl_process q = None" "pl_epoch q = None" "pl_pending q = [1, 2]"
    by (simp add: player_service_def player_write_def reap_finished_def new_player_def Let_def)
  have "fst (submit_audio (sample_config\<lparr>cf_full_duplex := False\<rparr>) 5 [1, 2]
       (w_session (snd (service_phase (quiet_env 5) (speaking_world\<lparr>w_player := q\<rparr>))))) = Gated"
    by (rule undrained_exit_gates_microphone [THEN conjunct2, THEN conjunct2])
      (simp_all add: q speaking_world_def new_session_def sample_config_def)
  then show ?thesis using q(1) by blast
qed

end
