(* ===== verification/Aec.thy ===== *)
theory Aec
  imports Device_Config "HOL-Library.Multiset"
begin

text \<open>
  The echo-cancellation checks of \<^verbatim>\<open>session.py\<close>: what \<^verbatim>\<open>pactl\<close> must print before a full-duplex session
  opens its socket and before each response. The output of \<^verbatim>\<open>pactl\<close> and \<^verbatim>\<open>json.loads\<close> are parameters.
  A decoded code point above 255 is read as the character 255, which is like it in every test made here
  (it is no space, digit, quote or character of a PulseAudio name) but for the Unicode spaces.
\<close>

section \<open>Text functions of the standard library\<close>

text \<open>\<^verbatim>\<open>str.splitlines\<close>, with \<^verbatim>\<open>\r\n\<close> one boundary.\<close>

definition is_line_break :: "char \<Rightarrow> bool" where
  "is_line_break c \<longleftrightarrow> in_span 10 13 c \<or> in_span 28 30 c \<or> ord_of c = 133"

fun splitlines_from :: "string \<Rightarrow> string \<Rightarrow> string list" where
  "splitlines_from line [] = (if line = [] then [] else [rev line])"
| "splitlines_from line [c] = (if is_line_break c then [rev line] else [rev (c # line)])"
| "splitlines_from line (c # d # cs) =
     (if ord_of c = 13 \<and> ord_of d = 10 then rev line # splitlines_from [] cs
      else if is_line_break c then rev line # splitlines_from [] (d # cs)
      else splitlines_from (c # line) (d # cs))"

definition splitlines :: "string \<Rightarrow> string list" where
  "splitlines s = splitlines_from [] s"

text \<open>\<^verbatim>\<open>str.split(None, maxsplit)\<close>: the rest after the last split keeps its inner and trailing spaces.\<close>

fun split_max :: "nat \<Rightarrow> string \<Rightarrow> string list" where
  "split_max 0 s = (case dropWhile is_space s of [] \<Rightarrow> [] | t \<Rightarrow> [t])"
| "split_max (Suc n) s =
     (case dropWhile is_space s of
        [] \<Rightarrow> []
      | t \<Rightarrow> takeWhile (\<lambda>c. \<not> is_space c) t # split_max n (dropWhile (\<lambda>c. \<not> is_space c) t))"

text \<open>\<^verbatim>\<open>str.isdigit\<close> for the code points 0 to 255, and \<^verbatim>\<open>int\<close> of such a text.\<close>

definition is_digit_ascii :: "char \<Rightarrow> bool" where
  "is_digit_ascii c \<longleftrightarrow> in_span 48 57 c"

definition isdigit :: "string \<Rightarrow> bool" where
  "isdigit s \<longleftrightarrow> s \<noteq> [] \<and> list_all (\<lambda>c. is_digit_ascii c \<or> ord_of c \<in> {178, 179, 185}) s"

fun digits_value :: "int \<Rightarrow> string \<Rightarrow> int" where
  "digits_value n [] = n"
| "digits_value n (c # cs) = digits_value (10 * n + (int (ord_of c) - 48)) cs"

definition int_of_digits :: "string \<Rightarrow> int result" where
  "int_of_digits s =
     (if list_all is_digit_ascii s \<and> length s \<le> 4300 then Inr (digits_value 0 s)
      else Inl (ValueError ''invalid literal for int()''))"

text \<open>
  \<^verbatim>\<open>shlex.split(s, comments=False, posix=True)\<close>: the character machine of its lexer. \<open>None\<close> is the
  \<^verbatim>\<open>ValueError\<close> of an open quotation or a dangling escape.
\<close>

datatype shlex_state = Space | Word | Quoted char | Escaped "char option"

definition shlex_emit :: "string \<Rightarrow> bool \<Rightarrow> string list" where
  "shlex_emit token was_quoted = (if token \<noteq> [] \<or> was_quoted then [rev token] else [])"

definition shlex_white :: "char \<Rightarrow> bool" where
  "shlex_white c \<longleftrightarrow> ord_of c \<in> {9, 10, 13, 32}"

definition shlex_quote :: "char \<Rightarrow> bool" where
  "shlex_quote c \<longleftrightarrow> ord_of c \<in> {34, 39}"

fun shlex_read :: "shlex_state \<Rightarrow> string \<Rightarrow> bool \<Rightarrow> string \<Rightarrow> string list option" where
  "shlex_read (Quoted q) token was_quoted [] = None"
| "shlex_read (Escaped back) token was_quoted [] = None"
| "shlex_read Space token was_quoted [] = Some (shlex_emit token was_quoted)"
| "shlex_read Word token was_quoted [] = Some (shlex_emit token was_quoted)"
| "shlex_read Space token was_quoted (c # cs) =
     (if shlex_white c then map_option ((@) (shlex_emit token was_quoted)) (shlex_read Space [] False cs)
      else if ord_of c = 92 then shlex_read (Escaped None) token was_quoted cs
      else if shlex_quote c then shlex_read (Quoted c) token was_quoted cs
      else shlex_read Word (c # token) was_quoted cs)"
| "shlex_read Word token was_quoted (c # cs) =
     (if shlex_white c then map_option ((@) (shlex_emit token was_quoted)) (shlex_read Space [] False cs)
      else if shlex_quote c then shlex_read (Quoted c) token was_quoted cs
      else if ord_of c = 92 then shlex_read (Escaped None) token was_quoted cs
      else shlex_read Word (c # token) was_quoted cs)"
| "shlex_read (Quoted q) token was_quoted (c # cs) =
     (if c = q then shlex_read Word token True cs
      else if ord_of c = 92 \<and> ord_of q = 34 then shlex_read (Escaped (Some q)) token True cs
      else shlex_read (Quoted q) (c # token) True cs)"
| "shlex_read (Escaped None) token was_quoted (c # cs) = shlex_read Word (c # token) was_quoted cs"
| "shlex_read (Escaped (Some q)) token was_quoted (c # cs) =
     (if ord_of c = 92 \<or> c = q then shlex_read (Quoted q) (c # token) was_quoted cs
      else shlex_read (Quoted q) (c # char_of (92 :: nat) # token) was_quoted cs)"

definition shlex_split :: "string \<Rightarrow> string list option" where
  "shlex_split s = shlex_read Space [] False s"

section \<open>The checks\<close>

definition PULSE_ECHO_CANCEL_MODULE :: string where "PULSE_ECHO_CANCEL_MODULE = ''module-echo-cancel''"
definition PULSE_SOURCE_MASTER :: string where "PULSE_SOURCE_MASTER = ''alsa_input.hw_0_2''"
definition PULSE_SINK_MASTER :: string where "PULSE_SINK_MASTER = ''alsa_output.hw_0_1''"
definition PULSE_NATIVE_DRIVER :: string where "PULSE_NATIVE_DRIVER = ''protocol-native.c''"
definition PULSE_VOLUME_NORM :: int where "PULSE_VOLUME_NORM = 65536"

definition expected_aec_arguments :: "string \<Rightarrow> string \<Rightarrow> string \<Rightarrow> string list" where
  "expected_aec_arguments source sink aec =
     [''source_master='' @ PULSE_SOURCE_MASTER, ''sink_master='' @ PULSE_SINK_MASTER,
      ''source_name='' @ source, ''sink_name='' @ sink, ''aec_method='' @ aec, ''use_master_format=1'']"

fun any_aec_module :: "string list \<Rightarrow> string list \<Rightarrow> bool" where
  "any_aec_module expected [] = False"
| "any_aec_module expected (line # rest) =
     (case split_max 2 line of
        [index, name, arguments] \<Rightarrow>
          if name \<noteq> PULSE_ECHO_CANCEL_MODULE then any_aec_module expected rest
          else
            (case shlex_split arguments of
               None \<Rightarrow> False
             | Some args \<Rightarrow>
                 (length args = length (remdups expected) \<and> set args = set expected) \<or>
                 any_aec_module expected rest)
      | _ \<Rightarrow> any_aec_module expected rest)"

definition has_expected_aec_module :: "string \<Rightarrow> string \<Rightarrow> string \<Rightarrow> string \<Rightarrow> bool" where
  "has_expected_aec_module modules source sink aec =
     any_aec_module (expected_aec_arguments source sink aec) (splitlines modules)"

definition pulse_object_index :: "string \<Rightarrow> string \<Rightarrow> string option" where
  "pulse_object_index objects name =
     (case map hd (filter (\<lambda>fields. 2 \<le> length fields \<and> fields ! 1 = name \<and> isdigit (hd fields))
                     (map split_space (splitlines objects))) of
        [index] \<Rightarrow> Some index
      | _ \<Rightarrow> None)"

text \<open>\<open>None\<close> is an element of the array that is no object.\<close>

fun process_outputs :: "int \<Rightarrow> json list \<Rightarrow> obj list option" where
  "process_outputs pid [] = Some []"
| "process_outputs pid (candidate # rest) =
     (case obj_of candidate of
        None \<Rightarrow> None
      | Some m \<Rightarrow>
          (case obj_of (jget m ''properties'') of
             None \<Rightarrow> process_outputs pid rest
           | Some properties \<Rightarrow>
               if jget properties ''application.process.id'' = JStr (int_text pid)
               then map_option ((#) m) (process_outputs pid rest)
               else process_outputs pid rest))"

definition capture_from :: "int \<Rightarrow> obj \<Rightarrow> bool" where
  "capture_from expected_source m \<longleftrightarrow>
     jget m ''driver'' = JStr PULSE_NATIVE_DRIVER \<and> equals_int (jget m ''source'') expected_source \<and>
     jget m ''corked'' = JBool False"

definition process_capture_uses_source ::
    "(string \<Rightarrow> json option) \<Rightarrow> string \<Rightarrow> string \<Rightarrow> int \<Rightarrow> bool result" where
  "process_capture_uses_source loads source_outputs source_index pid =
     (case loads source_outputs of
        None \<Rightarrow> Inr False
      | Some decoded \<Rightarrow>
          (case arr_of decoded of
             None \<Rightarrow> Inr False
           | Some candidates \<Rightarrow>
               bind_result (int_of_digits source_index) (\<lambda>expected_source.
               Inr (case process_outputs pid candidates of
                      None \<Rightarrow> False
                    | Some outputs \<Rightarrow> outputs \<noteq> [] \<and> list_all (capture_from expected_source) outputs))))"

text \<open>\<^verbatim>\<open>([0-9]+)\s*/\s*[0-9]+%\s*/\<close> at the head of the text: the digits and what follows the match.\<close>

definition match_volume :: "string \<Rightarrow> (string \<times> string) option" where
  "match_volume s =
     (let digits = takeWhile is_digit_ascii s;
          a = dropWhile is_space (dropWhile is_digit_ascii s)
      in if digits = [] \<or> a = [] \<or> hd a \<noteq> CHR ''/'' then None
         else
           let b = dropWhile is_space (tl a); c = dropWhile is_digit_ascii b
           in if takeWhile is_digit_ascii b = [] \<or> c = [] \<or> hd c \<noteq> CHR ''%'' then None
              else
                let d = dropWhile is_space (tl c)
                in if d = [] \<or> hd d \<noteq> CHR ''/'' then None else Some (digits, tl d))"

lemma length_dropWhile_less: "xs \<noteq> [] \<Longrightarrow> length (dropWhile p xs) < Suc (length xs)"
  by (simp add: length_dropWhile_le less_Suc_eq_le)

lemma match_volume_shrinks: "match_volume s = Some (d, r) \<Longrightarrow> length r < length s"
proof -
  assume m: "match_volume s = Some (d, r)"
  have l: "length (dropWhile p xs) \<le> length xs" for p and xs :: string by (rule length_dropWhile_le)
  have t: "length (tl xs) \<le> length xs" for xs :: string by simp
  let ?a = "dropWhile is_space (dropWhile is_digit_ascii s)"
  let ?c = "dropWhile is_digit_ascii (dropWhile is_space (tl ?a))"
  have r: "r = tl (dropWhile is_space (tl ?c))" and a: "?a \<noteq> []"
    using m by (auto simp: match_volume_def Let_def split: if_splits)
  have "length r \<le> length ?c" unfolding r by (meson l t order_trans)
  also have "\<dots> \<le> length (tl ?a)" by (meson l order_trans)
  also have "\<dots> < length ?a" using a by (cases ?a) auto
  also have "\<dots> \<le> length s" by (meson l order_trans)
  finally show ?thesis .
qed

function volume_matches :: "string \<Rightarrow> string list" where
  "volume_matches s =
     (case match_volume s of
        Some (digits, rest) \<Rightarrow> digits # volume_matches rest
      | None \<Rightarrow> (case s of [] \<Rightarrow> [] | _ # cs \<Rightarrow> volume_matches cs))"
  by pat_completeness auto
termination
  by (relation "measure length") (auto dest: match_volume_shrinks)

declare volume_matches.simps [simp del]

definition sink_volume_within_ceiling :: "string \<Rightarrow> int \<Rightarrow> bool result" where
  "sink_volume_within_ceiling v percent =
     bind_result (collect_results (map int_of_digits (volume_matches v))) (\<lambda>channels.
     Inr (channels \<noteq> [] \<and> list_all (\<lambda>channel. channel \<le> PULSE_VOLUME_NORM * percent div 100) channels))"

section \<open>Probes\<close>

text \<open>What running \<^verbatim>\<open>pactl\<close> yields: no process in time, or a return code and its output.\<close>

datatype probe = ProbeFailed | Exited int bytes

definition narrow :: "nat \<Rightarrow> char" where
  "narrow n = char_of (min n 255)"

definition pactl_output :: "(string list \<Rightarrow> probe) \<Rightarrow> string list \<Rightarrow> string result" where
  "pactl_output pactl arguments =
     (case pactl arguments of
        ProbeFailed \<Rightarrow> Inl (WebSocketError ''PulseAudio echo cancellation could not be verified'')
      | Exited returncode stdout \<Rightarrow>
          if returncode \<noteq> 0 then Inl (WebSocketError ''PulseAudio echo cancellation could not be verified'')
          else
            (case utf8_decode stdout of
               None \<Rightarrow> Inl (WebSocketError ''PulseAudio echo cancellation could not be verified'')
             | Some text \<Rightarrow> Inr (map narrow text)))"

definition not_active :: py_error where
  "not_active = WebSocketError ''PulseAudio echo cancellation is not active''"

definition verify_aec_sink_volume :: "(string list \<Rightarrow> probe) \<Rightarrow> realtime_config \<Rightarrow> unit result" where
  "verify_aec_sink_volume pactl cfg =
     (case cf_pulse_aec_sink cfg of
        None \<Rightarrow> Inl (WebSocketError ''PulseAudio echo cancellation is not configured'')
      | Some sink \<Rightarrow>
          bind_result (pactl_output pactl [''get-sink-volume'', sink]) (\<lambda>sink_volume.
          bind_result (sink_volume_within_ceiling sink_volume (cf_aec_sink_volume_ceiling_percent cfg)) (\<lambda>ok.
          if ok then Inr () else Inl not_active)))"

definition verify_pulseaudio_aec ::
    "(string \<Rightarrow> json option) \<Rightarrow> (string list \<Rightarrow> probe) \<Rightarrow> int \<Rightarrow> realtime_config \<Rightarrow> unit result" where
  "verify_pulseaudio_aec loads pactl pid cfg =
     (if \<not> cf_full_duplex cfg then Inr ()
      else
        (case (cf_pulse_aec_source cfg, cf_pulse_aec_sink cfg, cf_pulse_aec_method cfg) of
           (Some source, Some sink, Some aec) \<Rightarrow>
             bind_result (pactl_output pactl [''get-default-source'']) (\<lambda>default_source.
             bind_result (pactl_output pactl [''get-default-sink'']) (\<lambda>default_sink.
             if strip default_source \<noteq> source \<or> strip default_sink \<noteq> sink then Inl not_active else
             bind_result (pactl_output pactl [''list'', ''short'', ''modules'']) (\<lambda>modules.
             if \<not> has_expected_aec_module modules source sink aec then Inl not_active else
             bind_result (pactl_output pactl [''list'', ''short'', ''sources'']) (\<lambda>sources.
             bind_result (pactl_output pactl [''--format=json'', ''list'', ''source-outputs'']) (\<lambda>source_outputs.
             case pulse_object_index sources source of
               None \<Rightarrow> Inl not_active
             | Some source_index \<Rightarrow>
                 bind_result (process_capture_uses_source loads source_outputs source_index pid) (\<lambda>ok.
                 if ok then verify_aec_sink_volume pactl cfg else Inl not_active))))))
         | _ \<Rightarrow> Inl (WebSocketError ''PulseAudio echo cancellation is not configured'')))"

text \<open>The command line of the player: the sink and the volume are given in full duplex only.\<close>

definition PAPLAY_ARGV :: "string list" where
  "PAPLAY_ARGV =
     [''/usr/bin/paplay'', ''--raw'', ''--rate=24000'', ''--format=s16le'', ''--channels=1'',
      ''--latency-msec=60'', ''--process-time-msec=20'']"

definition player_volume :: "int option \<Rightarrow> int option" where
  "player_volume volume = map_option (\<lambda>v. PULSE_VOLUME_NORM * v div 100) volume"

definition paplay_command :: "string option \<Rightarrow> int option \<Rightarrow> string list" where
  "paplay_command sink volume =
     PAPLAY_ARGV @ (case sink of None \<Rightarrow> [] | Some s \<Rightarrow> [''--device='' @ s]) @
     (case volume of None \<Rightarrow> [] | Some v \<Rightarrow> [''--volume='' @ int_text v])"

definition session_player_command :: "realtime_config \<Rightarrow> string list" where
  "session_player_command cfg =
     (if cf_full_duplex cfg
      then paplay_command (cf_pulse_aec_sink cfg) (player_volume (Some (cf_playback_volume_percent cfg)))
      else paplay_command None None)"

section \<open>Properties\<close>

text \<open>Words that the shell lexer and \<^verbatim>\<open>str.split\<close> leave alone.\<close>

definition plain_word :: "string \<Rightarrow> bool" where
  "plain_word w \<longleftrightarrow>
     w \<noteq> [] \<and> list_all (\<lambda>c. \<not> is_space c \<and> \<not> shlex_quote c \<and> ord_of c \<noteq> 92) w"

lemma shlex_white_space: "shlex_white c \<Longrightarrow> is_space c"
  by (auto simp: shlex_white_def is_space_def in_span_def)

lemma shlex_read_word:
  "list_all (\<lambda>c. \<not> is_space c \<and> \<not> shlex_quote c \<and> ord_of c \<noteq> 92) w \<Longrightarrow>
   shlex_read Word token q (w @ cs) = shlex_read Word (rev w @ token) q cs"
  by (induction w arbitrary: token) (auto dest: shlex_white_space)

lemma shlex_read_first:
  assumes "plain_word w"
  shows "shlex_read Space [] False (w @ cs) = shlex_read Word (rev w) False cs"
  using assms shlex_read_word [of "tl w" "[hd w]" False cs]
  by (cases w) (auto simp: plain_word_def dest: shlex_white_space)

lemma shlex_plain:
  "list_all plain_word ws \<Longrightarrow> ws \<noteq> [] \<Longrightarrow> shlex_split (join_with '' '' ws) = Some ws"
proof (induction ws rule: induct_list012)
  case (2 w)
  then show ?case
    using shlex_read_first [of w "[]"] by (simp add: shlex_split_def shlex_emit_def) (simp add: plain_word_def)
next
  case (3 w v ws)
  have "shlex_white (CHR '' '')" by code_simp
  then show ?case
    using 3 shlex_read_first [of w "CHR '' '' # join_with '' '' (v # ws)"]
    by (simp add: shlex_split_def shlex_emit_def) (simp add: plain_word_def)
qed simp

lemma dropWhile_word: "plain_word w \<Longrightarrow> dropWhile is_space (w @ cs) = w @ cs"
  by (cases w) (auto simp: plain_word_def)

lemma take_word:
  "plain_word w \<Longrightarrow> is_space c \<Longrightarrow> takeWhile (\<lambda>x. \<not> is_space x) (w @ c # cs) = w \<and>
     dropWhile (\<lambda>x. \<not> is_space x) (w @ c # cs) = c # cs"
  by (auto simp: plain_word_def list_all_iff takeWhile_append2 dropWhile_append2)

text \<open>A line of \<^verbatim>\<open>pactl list short modules\<close>.\<close>

definition module_line :: "string \<Rightarrow> string \<Rightarrow> string list \<Rightarrow> string" where
  "module_line index name arguments =
     index @ char_of (9 :: nat) # name @ char_of (9 :: nat) # join_with '' '' arguments"

lemma join_words_nonempty:
  assumes "list_all plain_word ws" "ws \<noteq> []"
  shows "\<exists>c cs. join_with '' '' ws = c # cs \<and> \<not> is_space c"
  using assms by (induction ws rule: induct_list012) (auto simp: plain_word_def neq_Nil_conv)

lemma split_module_line:
  assumes "plain_word index" "plain_word name" "list_all plain_word ws" "ws \<noteq> []"
  shows "split_max 2 (module_line index name ws) = [index, name, join_with '' '' ws]"
proof -
  have tab: "is_space (char_of (9 :: nat))" by code_simp
  obtain c cs where j: "join_with '' '' ws = c # cs" "\<not> is_space c" using join_words_nonempty [OF assms(3,4)] by blast
  obtain i ix n ns where w: "index = i # ix" "name = n # ns" using assms(1,2) by (auto simp: plain_word_def neq_Nil_conv)
  show ?thesis
    using dropWhile_word [OF assms(1)] dropWhile_word [OF assms(2)] take_word [OF assms(1) tab]
      take_word [OF assms(2) tab] j tab w
    by (simp add: module_line_def numeral_2_eq_2)
qed

text \<open>The echo-cancellation module is recognized exactly: on the line PulseAudio prints for it, whatever
  plain arguments it was loaded with and in whatever order, the check accepts if and only if they are the six
  expected ones - no argument missing, changed, repeated or added.\<close>
theorem aec_module_recognized:
  assumes "plain_word index" "list_all plain_word arguments" "arguments \<noteq> []"
  shows "any_aec_module (expected_aec_arguments source sink aec)
       [module_line index PULSE_ECHO_CANCEL_MODULE arguments] \<longleftrightarrow>
     mset arguments = mset (expected_aec_arguments source sink aec)"
proof -
  let ?e = "expected_aec_arguments source sink aec"
  have "plain_word PULSE_ECHO_CANCEL_MODULE"
    by code_simp
  then have s: "split_max 2 (module_line index PULSE_ECHO_CANCEL_MODULE arguments) =
      [index, PULSE_ECHO_CANCEL_MODULE, join_with '' '' arguments]"
    using assms by (intro split_module_line)
  have d: "distinct ?e" by (simp add: expected_aec_arguments_def PULSE_SOURCE_MASTER_def PULSE_SINK_MASTER_def)
  have "length arguments = length ?e \<and> set arguments = set ?e \<longleftrightarrow> mset arguments = mset ?e"
  proof
    assume a: "length arguments = length ?e \<and> set arguments = set ?e"
    then have "distinct arguments" using d by (metis card_distinct distinct_card)
    then show "mset arguments = mset ?e" using a d by (metis set_eq_iff_mset_eq_distinct)
  next
    assume m: "mset arguments = mset ?e"
    then show "length arguments = length ?e \<and> set arguments = set ?e" by (metis mset_eq_length mset_eq_setD)
  qed
  then show ?thesis
    using shlex_plain [OF assms(2,3)] s by (simp add: distinct_remdups_id [OF d])
qed

theorem aec_module_recognized_witness:
  "any_aec_module (expected_aec_arguments ''mic'' ''out'' ''webrtc'')
     [module_line ''12'' PULSE_ECHO_CANCEL_MODULE (rev (expected_aec_arguments ''mic'' ''out'' ''webrtc''))]"
proof -
  have w: "plain_word ''12''" "list_all plain_word (rev (expected_aec_arguments ''mic'' ''out'' ''webrtc''))" by code_simp+
  have "rev (expected_aec_arguments ''mic'' ''out'' ''webrtc'') \<noteq> []" by (simp add: expected_aec_arguments_def)
  then show ?thesis using aec_module_recognized [OF w(1,2)] by simp
qed

lemma sink_volume_ok:
  assumes "sink_volume_within_ceiling v percent = Inr True"
  shows "\<exists>channels. collect_results (map int_of_digits (volume_matches v)) = Inr channels \<and> channels \<noteq> [] \<and>
    (\<forall>channel \<in> set channels. channel \<le> PULSE_VOLUME_NORM * percent div 100)"
  using assms by (auto simp: sink_volume_within_ceiling_def list_all_iff bind_result_eq_Inr)

lemma verify_volume_ok:
  assumes "verify_aec_sink_volume pactl cfg = Inr ()"
  shows "\<exists>sink text. cf_pulse_aec_sink cfg = Some sink \<and> pactl_output pactl [''get-sink-volume'', sink] = Inr text \<and>
    sink_volume_within_ceiling text (cf_aec_sink_volume_ceiling_percent cfg) = Inr True"
  using assms by (auto simp: verify_aec_sink_volume_def bind_result_eq_Inr split: option.splits if_splits)

text \<open>Full duplex is only as loud as configured. When the startup check of a full-duplex session with
  well-formed volumes passes, the capture and playback defaults are the echo-cancelled endpoints, every channel
  of the echo-cancelled sink is at or below the raw ceiling, the volume given to every player is at or below the
  same ceiling, and that ceiling is at most 60 percent of the PulseAudio norm.\<close>
theorem full_duplex_volume_bounded:
  assumes "verify_pulseaudio_aec loads pactl pid cfg = Inr ()" "cf_full_duplex cfg" "wf_volumes cfg"
  shows "\<exists>source sink default_source default_sink text channels volume.
    cf_pulse_aec_source cfg = Some source \<and> cf_pulse_aec_sink cfg = Some sink \<and>
    pactl_output pactl [''get-default-source''] = Inr default_source \<and> strip default_source = source \<and>
    pactl_output pactl [''get-default-sink''] = Inr default_sink \<and> strip default_sink = sink \<and>
    pactl_output pactl [''get-sink-volume'', sink] = Inr text \<and>
    collect_results (map int_of_digits (volume_matches text)) = Inr channels \<and> channels \<noteq> [] \<and>
    (\<forall>channel \<in> set channels. channel \<le> PULSE_VOLUME_NORM * cf_aec_sink_volume_ceiling_percent cfg div 100) \<and>
    session_player_command cfg = paplay_command (Some sink) (Some volume) \<and>
    volume \<le> PULSE_VOLUME_NORM * cf_aec_sink_volume_ceiling_percent cfg div 100 \<and>
    PULSE_VOLUME_NORM * cf_aec_sink_volume_ceiling_percent cfg div 100 \<le> 39321"
proof -
  obtain source sink aec default_source default_sink where
    names: "cf_pulse_aec_source cfg = Some source" "cf_pulse_aec_sink cfg = Some sink" "cf_pulse_aec_method cfg = Some aec"
    and defaults: "pactl_output pactl [''get-default-source''] = Inr default_source" "strip default_source = source"
      "pactl_output pactl [''get-default-sink''] = Inr default_sink" "strip default_sink = sink"
    and v: "verify_aec_sink_volume pactl cfg = Inr ()"
    using assms(1,2)
    by (auto simp: verify_pulseaudio_aec_def bind_result_eq_Inr split: option.splits if_splits)
  obtain reply where reply: "pactl_output pactl [''get-sink-volume'', sink] = Inr reply"
    "sink_volume_within_ceiling reply (cf_aec_sink_volume_ceiling_percent cfg) = Inr True"
    using verify_volume_ok [OF v] names(2) by auto
  have wf: "cf_playback_volume_percent cfg \<le> cf_aec_sink_volume_ceiling_percent cfg"
    "cf_aec_sink_volume_ceiling_percent cfg \<le> 60"
    using assms(3) by (auto simp: wf_volumes_def)
  let ?p = "PULSE_VOLUME_NORM * cf_playback_volume_percent cfg div 100"
  have "?p \<le> PULSE_VOLUME_NORM * cf_aec_sink_volume_ceiling_percent cfg div 100"
    using wf(1) by (intro zdiv_mono1) (simp_all add: PULSE_VOLUME_NORM_def)
  moreover have "PULSE_VOLUME_NORM * cf_aec_sink_volume_ceiling_percent cfg div 100 \<le> 39321"
    using wf(2) by (simp add: PULSE_VOLUME_NORM_def)
  moreover have "session_player_command cfg = paplay_command (Some sink) (Some ?p)"
    using assms(2) names(2) by (simp add: session_player_command_def player_volume_def)
  ultimately show ?thesis
    using names(1,2) defaults reply(1) sink_volume_ok [OF reply(2)] by blast
qed

definition sample_reply :: "string list \<Rightarrow> string" where
  "sample_reply arguments =
       (if arguments = [''get-default-source''] then ''mic ''
        else if arguments = [''get-default-sink''] then ''out ''
        else if arguments = [''list'', ''short'', ''modules'']
        then module_line ''12'' PULSE_ECHO_CANCEL_MODULE (expected_aec_arguments ''mic'' ''out'' ''webrtc'')
        else if arguments = [''list'', ''short'', ''sources''] then ''3 mic module''
        else if arguments = [''get-sink-volume'', ''out''] then ''Volume: mono: 26214 /  40% / -23 dB'' else [])"

definition sample_pactl :: "string list \<Rightarrow> probe" where
  "sample_pactl arguments = Exited 0 (text_bytes (sample_reply arguments))"

lemma sample_output: "pactl_output sample_pactl arguments = Inr (sample_reply arguments)"
proof -
  have n: "narrow (of_char c) = c" for c :: char
  proof -
    have "min (of_char c) 255 = (of_char c :: nat)" using nat_of_char_less_256 [of c] by linarith
    then show ?thesis by (simp add: narrow_def)
  qed
  have "list_all scalar (map of_char s)" for s :: string
  proof -
    have "scalar (of_char c)" for c :: char
      using nat_of_char_less_256 [of c] unfolding scalar_def by linarith
    then show ?thesis by (simp add: list_all_iff)
  qed
  then have "utf8_decode (text_bytes s) = Some (map of_char s)" for s
    unfolding text_bytes_def by (rule utf8_decode_encode)
  then show ?thesis by (simp add: pactl_output_def sample_pactl_def comp_def n)
qed

definition sample_capture :: json where
  "sample_capture =
     JArr [JObj [(''driver'', JStr ''protocol-native.c''), (''source'', JInt 3), (''corked'', JBool False),
       (''properties'', JObj [(''application.process.id'', JStr ''77'')])]]"

lemma sample_verified: "verify_pulseaudio_aec (\<lambda>_. Some sample_capture) sample_pactl 77 sample_config = Inr ()"
proof -
  have replies: "sample_reply [''get-default-source''] = ''mic ''" "sample_reply [''get-default-sink''] = ''out ''"
    "sample_reply [''list'', ''short'', ''modules''] =
       module_line ''12'' PULSE_ECHO_CANCEL_MODULE (expected_aec_arguments ''mic'' ''out'' ''webrtc'')"
    "sample_reply [''list'', ''short'', ''sources''] = ''3 mic module''"
    "sample_reply [''get-sink-volume'', ''out''] = ''Volume: mono: 26214 /  40% / -23 dB''"
    by (simp_all add: sample_reply_def)
  have checks: "strip ''mic '' = ''mic''" "strip ''out '' = ''out''"
    "has_expected_aec_module (module_line ''12'' PULSE_ECHO_CANCEL_MODULE
       (expected_aec_arguments ''mic'' ''out'' ''webrtc'')) ''mic'' ''out'' ''webrtc''"
    "pulse_object_index ''3 mic module'' ''mic'' = Some ''3''"
    "process_capture_uses_source (\<lambda>_. Some sample_capture) reply ''3'' 77 = Inr True"
    "sink_volume_within_ceiling ''Volume: mono: 26214 /  40% / -23 dB'' 40 = Inr True" for reply
    by code_simp+
  have cfg: "cf_pulse_aec_source sample_config = Some ''mic''" "cf_pulse_aec_sink sample_config = Some ''out''"
    "cf_pulse_aec_method sample_config = Some ''webrtc''" "cf_aec_sink_volume_ceiling_percent sample_config = 40"
    by (simp_all add: sample_config_def)
  show ?thesis
    by (simp add: verify_pulseaudio_aec_def verify_aec_sink_volume_def sample_output cfg replies checks)
qed

theorem full_duplex_volume_bounded_witness:
  "\<exists>volume. session_player_command sample_config = paplay_command (Some ''out'') (Some volume) \<and> volume \<le> 39321"
proof -
  have "wf_volumes sample_config" using sample_wf by (simp add: wf_config_def)
  moreover have "cf_full_duplex sample_config" "cf_pulse_aec_sink sample_config = Some ''out''"
    by (simp_all add: sample_config_def)
  ultimately show ?thesis using full_duplex_volume_bounded [OF sample_verified] by fastforce
qed

end
