(* ===== verification/App_Server.thy ===== *)
theory App_Server
  imports Bounded_Log Bounded_Fifo
begin

text \<open>
  The JSON-RPC client of \<^verbatim>\<open>bridge/app_server.py\<close>: requests and their futures, the subscribers'
  queues, and the ownership of responses to server requests. Coroutines are cut at their suspension points:
  a response is first asked for, then waits for its state's lock, is handed to the child's stdin, and is
  committed when \<^verbatim>\<open>drain\<close> returns. The child process, \<^verbatim>\<open>json.loads\<close> and the start of
  the process are outside the model. Identifiers are no NaN.
\<close>

section \<open>Identifiers\<close>

text \<open>Python's equality of dictionary keys: \<^verbatim>\<open>True\<close>, \<^verbatim>\<open>1\<close> and \<^verbatim>\<open>1.0\<close> are one key.\<close>

datatype rpc_id = NumberId rat | TextId string | FloatId pyfloat

fun rpc_id_of :: "json \<Rightarrow> rpc_id result" where
  "rpc_id_of (JInt i) = Inr (NumberId (of_int i))"
| "rpc_id_of (JBool b) = Inr (NumberId (if b then 1 else 0))"
| "rpc_id_of (JFloat f) = Inr (case f of Finite q \<Rightarrow> NumberId q | _ \<Rightarrow> FloatId f)"
| "rpc_id_of (JStr s) = Inr (TextId s)"
| "rpc_id_of (JArr vs) = Inl (TypeError ''unhashable type: list'')"
| "rpc_id_of (JObj m) = Inl (TypeError ''unhashable type: dict'')"
| "rpc_id_of JNull = Inl (TypeError ''no identifier'')"

section \<open>State\<close>

datatype rpc_future = Waits | Answered json | Refused json | Broken py_error

record subscription =
  sb_maxsize :: nat
  sb_queue :: "obj list"

text \<open>A coroutine inside \<^verbatim>\<open>_respond\<close>: before it looked for its state, and waiting for the lock.\<close>

record responder =
  rs_id :: rpc_id
  rs_state :: "nat option"
  rs_message :: obj

record rpc_client =
  rc_running :: bool
  rc_initialized :: bool
  rc_closed :: bool
  rc_next_id :: nat
  rc_pending :: "(rpc_id \<times> nat) list"
  rc_futures :: "nat \<Rightarrow> rpc_future"
  rc_next_future :: nat
  rc_states :: "(rpc_id \<times> nat) list"
  rc_written :: "nat \<Rightarrow> bool"
  rc_timers :: "(rpc_id \<times> nat) list"
  rc_next_state :: nat
  rc_retired :: "rpc_id list"
  rc_subscriptions :: "(nat \<times> subscription) list"
  rc_next_subscription :: nat
  rc_asking :: "responder list"
  rc_waiting :: "(nat \<times> responder) list"
  rc_writers :: "(nat \<times> rpc_id) list"
  rc_sent :: "obj list"
  rc_committed :: "nat list"
  rc_stderr :: "string list"
  rc_auth_mode :: "string option"
  rc_plan_type :: "string option"

definition new_client :: rpc_client where
  "new_client =
     \<lparr>rc_running = False, rc_initialized = False, rc_closed = False, rc_next_id = 1, rc_pending = [],
      rc_futures = (\<lambda>_. Waits), rc_next_future = 0, rc_states = [], rc_written = (\<lambda>_. False),
      rc_timers = [], rc_next_state = 0, rc_retired = [], rc_subscriptions = [], rc_next_subscription = 0,
      rc_asking = [], rc_waiting = [], rc_writers = [], rc_sent = [], rc_committed = [], rc_stderr = [],
      rc_auth_mode = None, rc_plan_type = None\<rparr>"

text \<open>\<^verbatim>\<open>state.lock\<close> is held exactly by the coroutine whose write is under way.\<close>

definition lock_held :: "nat \<Rightarrow> rpc_client \<Rightarrow> bool" where
  "lock_held k s \<longleftrightarrow> k \<in> fst ` set (rc_writers s)"

section \<open>Writing and requests\<close>

definition write_message :: "obj \<Rightarrow> rpc_client \<Rightarrow> unit result \<times> rpc_client" where
  "write_message m s =
     (if \<not> rc_running s then (Inl (AppServerExited ''codex app-server stdin is unavailable''), s)
      else (Inr (), s\<lparr>rc_sent := rc_sent s @ [m]\<rparr>))"

text \<open>\<^verbatim>\<open>call\<close> until it waits for its future, and from there to its end.\<close>

definition call_start :: "string \<Rightarrow> obj \<Rightarrow> rpc_client \<Rightarrow> (rpc_id \<times> nat) result \<times> rpc_client" where
  "call_start name params s =
     (if \<not> rc_running s then (Inl (AppServerExited ''codex app-server is not running''), s)
      else
        let key = NumberId (of_nat (rc_next_id s)); f = rc_next_future s;
            s1 = s\<lparr>rc_next_id := rc_next_id s + 1, rc_next_future := f + 1,
                   rc_futures := (rc_futures s)(f := Waits), rc_pending := dict_set (rc_pending s) key f\<rparr>
        in (case write_message [(''method'', JStr name), (''id'', JInt (int (rc_next_id s))), (''params'', JObj params)] s1 of
              (Inl e, s2) \<Rightarrow> (Inl e, s2\<lparr>rc_pending := dict_pop (rc_pending s2) key\<rparr>)
            | (Inr _, s2) \<Rightarrow> (Inr (key, f), s2)))"

text \<open>The error of an \<^verbatim>\<open>RpcError\<close>, whose message is of no concern here.\<close>

definition call_end :: "string \<Rightarrow> rpc_id \<Rightarrow> nat \<Rightarrow> bool \<Rightarrow> rpc_client \<Rightarrow> json result \<times> rpc_client" where
  "call_end name key f timed_out s =
     (let s1 = s\<lparr>rc_pending := dict_pop (rc_pending s) key\<rparr>
      in case rc_futures s f of
           Answered v \<Rightarrow> (Inr v, s1)
         | Refused e \<Rightarrow> (Inl (RpcError name), s1)
         | Broken e \<Rightarrow> (Inl e, s1)
         | Waits \<Rightarrow> if timed_out then (Inl (TimeoutError []), s1) else (Inl CancelledError, s1))"

definition notify :: "string \<Rightarrow> obj \<Rightarrow> rpc_client \<Rightarrow> unit result \<times> rpc_client" where
  "notify name params s = write_message [(''method'', JStr name), (''params'', JObj params)] s"

section \<open>Subscribers\<close>

definition subscribe :: "nat \<Rightarrow> rpc_client \<Rightarrow> nat \<times> rpc_client" where
  "subscribe maxsize s =
     (rc_next_subscription s,
      s\<lparr>rc_subscriptions := rc_subscriptions s @
          [(rc_next_subscription s, \<lparr>sb_maxsize = maxsize, sb_queue = []\<rparr>)],
        rc_next_subscription := rc_next_subscription s + 1\<rparr>)"

definition unsubscribe :: "nat \<Rightarrow> rpc_client \<Rightarrow> rpc_client" where
  "unsubscribe n s = s\<lparr>rc_subscriptions := filter (\<lambda>p. fst p \<noteq> n) (rc_subscriptions s)\<rparr>"

text \<open>\<^verbatim>\<open>asyncio.Queue.put_nowait\<close>; a maximum of 0 is no bound.\<close>

definition offer :: "obj \<Rightarrow> subscription \<Rightarrow> bool \<times> subscription" where
  "offer m sb =
     (if 0 < sb_maxsize sb \<and> sb_maxsize sb \<le> length (sb_queue sb) then (False, sb)
      else (True, sb\<lparr>sb_queue := sb_queue sb @ [m]\<rparr>))"

definition take_event :: "subscription \<Rightarrow> obj option \<times> subscription" where
  "take_event sb =
     (case sb_queue sb of [] \<Rightarrow> (None, sb) | m # rest \<Rightarrow> (Some m, sb\<lparr>sb_queue := rest\<rparr>))"

definition broadcast :: "obj \<Rightarrow> rpc_client \<Rightarrow> nat \<times> rpc_client" where
  "broadcast m s =
     (length (filter (\<lambda>p. fst (offer m (snd p))) (rc_subscriptions s)),
      s\<lparr>rc_subscriptions := map (\<lambda>(n, sb). (n, snd (offer m sb))) (rc_subscriptions s)\<rparr>)"

section \<open>Responses\<close>

definition MAX_RETIRED_SERVER_RESPONSE_IDS :: nat where "MAX_RETIRED_SERVER_RESPONSE_IDS = 1024"

definition retire_server_response_id :: "rpc_id \<Rightarrow> rpc_client \<Rightarrow> rpc_client" where
  "retire_server_response_id key s =
     (let retired = removeAll key (rc_retired s) @ [key]
      in s\<lparr>rc_retired := (if MAX_RETIRED_SERVER_RESPONSE_IDS < length retired then tl retired else retired)\<rparr>)"

definition cancel_server_request_timeout :: "rpc_id \<Rightarrow> nat \<Rightarrow> rpc_client \<Rightarrow> rpc_client" where
  "cancel_server_request_timeout key k s =
     (if map_of (rc_timers s) key \<noteq> Some k then s else s\<lparr>rc_timers := dict_pop (rc_timers s) key\<rparr>)"

text \<open>\<^verbatim>\<open>_respond\<close> from its call to the lock, or to its end when no state owns the identifier.\<close>

definition respond_enter :: "responder \<Rightarrow> rpc_client \<Rightarrow> unit result \<times> rpc_client" where
  "respond_enter r s =
     (case (case rs_state r of Some k \<Rightarrow> Some k | None \<Rightarrow> map_of (rc_states s) (rs_id r)) of
        None \<Rightarrow> if rs_id r \<in> set (rc_retired s) then (Inr (), s) else write_message (rs_message r) s
      | Some k \<Rightarrow> (Inr (), s\<lparr>rc_waiting := rc_waiting s @ [(k, r)]\<rparr>))"

text \<open>With the lock: the checks, and the message handed to stdin.\<close>

definition respond_locked :: "nat \<Rightarrow> responder \<Rightarrow> rpc_client \<Rightarrow> unit result \<times> rpc_client" where
  "respond_locked k r s =
     (if rc_written s k then (Inr (), s)
      else if map_of (rc_states s) (rs_id r) \<noteq> Some k then (Inr (), s)
      else
        (case write_message (rs_message r) s of
           (Inl e, s1) \<Rightarrow> (Inl e, s1)
         | (Inr _, s1) \<Rightarrow> (Inr (), s1\<lparr>rc_writers := rc_writers s1 @ [(k, rs_id r)]\<rparr>)))"

text \<open>\<^verbatim>\<open>drain\<close> returned: the write is committed.\<close>

definition respond_commit :: "nat \<Rightarrow> rpc_id \<Rightarrow> rpc_client \<Rightarrow> rpc_client" where
  "respond_commit k key s =
     (let s1 = s\<lparr>rc_writers := filter (\<lambda>p. fst p \<noteq> k) (rc_writers s),
                 rc_written := (rc_written s)(k := True), rc_committed := rc_committed s @ [k]\<rparr>;
          s2 = (if map_of (rc_states s1) key = Some k
                then retire_server_response_id key (s1\<lparr>rc_states := dict_pop (rc_states s1) key\<rparr>) else s1)
      in cancel_server_request_timeout key k s2)"

text \<open>\<^verbatim>\<open>drain\<close> raised or was cancelled: the state stays active.\<close>

definition respond_abort :: "nat \<Rightarrow> rpc_client \<Rightarrow> rpc_client" where
  "respond_abort k s = s\<lparr>rc_writers := filter (\<lambda>p. fst p \<noteq> k) (rc_writers s)\<rparr>"

section \<open>Messages of the server\<close>

definition MODERN_APPROVAL_METHODS :: "string list" where
  "MODERN_APPROVAL_METHODS = [''item/commandExecution/requestApproval'', ''item/fileChange/requestApproval'']"

definition LEGACY_APPROVAL_METHODS :: "string list" where
  "LEGACY_APPROVAL_METHODS = [''applyPatchApproval'', ''execCommandApproval'']"

definition OTHER_CLOSED_METHODS :: "string list" where
  "OTHER_CLOSED_METHODS =
     [''item/permissions/requestApproval'', ''item/tool/requestUserInput'', ''mcpServer/elicitation/request'',
      ''account/chatgptAuthTokens/refresh'', ''attestation/generate'']"

definition result_response :: "json \<Rightarrow> obj \<Rightarrow> obj" where
  "result_response request_id v = [(''id'', request_id), (''result'', JObj v)]"

definition error_response :: "json \<Rightarrow> int \<Rightarrow> string \<Rightarrow> json option \<Rightarrow> obj" where
  "error_response request_id code message data =
     [(''id'', request_id),
      (''error'', JObj ([(''code'', JInt code), (''message'', JStr message)] @
         (case data of None \<Rightarrow> [] | Some d \<Rightarrow> [(''data'', d)])))]"

definition failed_content :: "string \<Rightarrow> obj" where
  "failed_content txt =
     [(''contentItems'', JArr [JObj [(''type'', JStr ''inputText''), (''text'', JStr txt)]]),
      (''success'', JBool False)]"

text \<open>A coroutine that answers: \<^verbatim>\<open>respond_result\<close>, \<^verbatim>\<open>respond_error\<close> or an expired timer.\<close>

definition ask :: "rpc_id \<Rightarrow> nat option \<Rightarrow> obj \<Rightarrow> rpc_client \<Rightarrow> rpc_client" where
  "ask key k m s = s\<lparr>rc_asking := rc_asking s @ [\<lparr>rs_id = key, rs_state = k, rs_message = m\<rparr>]\<rparr>"

definition handle_server_request :: "rpc_id \<Rightarrow> json \<Rightarrow> string \<Rightarrow> obj \<Rightarrow> rpc_client \<Rightarrow> rpc_client" where
  "handle_server_request key request_id name m s =
     (let s0 = s\<lparr>rc_retired := removeAll key (rc_retired s)\<rparr>
      in if name \<in> set MODERN_APPROVAL_METHODS
         then ask key None (result_response request_id [(''decision'', JStr ''decline'')]) s0
         else if name \<in> set LEGACY_APPROVAL_METHODS
         then ask key None (result_response request_id [(''decision'', JObj [(''denied'', JObj
                [(''rejection'', JStr ''Voice bridge denies interactive approvals'')])])]) s0
         else if name \<in> set OTHER_CLOSED_METHODS
         then ask key None (error_response request_id (- 32000) ''Interactive request denied by voice bridge'' None) s0
         else if name \<noteq> ''item/tool/call''
         then ask key None (error_response request_id (- 32601) (''Unsupported server request: '' @ name) None) s0
         else
           let k = rc_next_state s0;
               s1 = s0\<lparr>rc_states := dict_set (rc_states s0) key k, rc_next_state := k + 1\<rparr>
           in (case broadcast m s1 of
                 (delivered, s2) \<Rightarrow>
                   if delivered = 0
                   then ask key None (result_response request_id
                          (failed_content ''No voice client is available for this tool call'')) s2
                   else s2\<lparr>rc_timers := dict_set (rc_timers s2) key k\<rparr>))"

definition expire_server_request :: "rpc_id \<Rightarrow> json \<Rightarrow> nat \<Rightarrow> rpc_client \<Rightarrow> rpc_client" where
  "expire_server_request key request_id k s =
     ask key (Some k) (result_response request_id (failed_content
       ([CHR ''{'', CHR 0x22] @ ''error'' @ [CHR 0x22, CHR '':'', CHR 0x22] @ ''home_assistant_tool_outcome_unknown'' @
        [CHR 0x22, CHR '','', CHR 0x22] @ ''do_not_retry'' @ [CHR 0x22] @ '':true}''))) s"

text \<open>The end of a timer task.\<close>

definition timer_done :: "rpc_id \<Rightarrow> nat \<Rightarrow> rpc_client \<Rightarrow> rpc_client" where
  "timer_done key k s =
     (if map_of (rc_timers s) key = Some k then s\<lparr>rc_timers := dict_pop (rc_timers s) key\<rparr> else s)"

definition settle :: "nat \<Rightarrow> rpc_future \<Rightarrow> rpc_client \<Rightarrow> rpc_client" where
  "settle f v s = s\<lparr>rc_futures := (rc_futures s)(f := v)\<rparr>"

definition deliver_response :: "rpc_id \<Rightarrow> obj \<Rightarrow> rpc_client \<Rightarrow> rpc_client" where
  "deliver_response key m s =
     (case map_of (rc_pending s) key of
        None \<Rightarrow> s
      | Some f \<Rightarrow>
          if rc_futures s f \<noteq> Waits then s
          else if has_key m ''error'' then settle f (Refused (jget m ''error'')) s
          else if has_key m ''result'' then settle f (Answered (jget m ''result'')) s
          else settle f (Broken (ProtocolError ''JSON-RPC response has no result or error'')) s)"

definition route_message :: "obj \<Rightarrow> rpc_client \<Rightarrow> unit result \<times> rpc_client" where
  "route_message m s =
     (case (jget m ''id'', text_of (jget m ''method'')) of
        (JNull, None) \<Rightarrow> (Inr (), s)
      | (JNull, Some name) \<Rightarrow> (Inr (), snd (broadcast m s))
      | (request_id, Some name) \<Rightarrow>
          (case rpc_id_of request_id of
             Inl e \<Rightarrow> (Inl e, s)
           | Inr key \<Rightarrow> (Inr (), handle_server_request key request_id name m s))
      | (request_id, None) \<Rightarrow>
          (case rpc_id_of request_id of
             Inl e \<Rightarrow> (Inl e, s)
           | Inr key \<Rightarrow> (Inr (), deliver_response key m s)))"

section \<open>The ends of the process and of the client\<close>

definition fail_pending :: "py_error \<Rightarrow> rpc_client \<Rightarrow> rpc_client" where
  "fail_pending e s =
     fold (\<lambda>f t. if rc_futures t f = Waits then settle f (Broken e) t else t) (map snd (rc_pending s)) s"

text \<open>One line of the child's stdout; \<open>None\<close> is a line that is not JSON.\<close>

definition read_line :: "json option \<Rightarrow> rpc_client \<Rightarrow> unit result \<times> rpc_client" where
  "read_line line s =
     (case line of
        None \<Rightarrow> (Inr (), s)
      | Some v \<Rightarrow> (case obj_of v of None \<Rightarrow> (Inr (), s) | Some m \<Rightarrow> route_message m s))"

definition reader_exit :: "int \<Rightarrow> rpc_client \<Rightarrow> rpc_client" where
  "reader_exit returncode s =
     snd (broadcast [(''method'', JStr ''bridge/appServerExited''),
            (''params'', JObj [(''returncode'', JInt returncode)])]
       (fail_pending (AppServerExited (''codex app-server exited with status '' @ int_text returncode))
         (s\<lparr>rc_running := False, rc_initialized := False\<rparr>)))"

definition close_client :: "rpc_client \<Rightarrow> rpc_client" where
  "close_client s =
     (if rc_closed s then s
      else
        (fail_pending (AppServerExited ''app-server client closed'')
           (s\<lparr>rc_closed := True, rc_initialized := False, rc_running := False\<rparr>))
        \<lparr>rc_timers := [], rc_states := [], rc_retired := [], rc_subscriptions := []\<rparr>)"

text \<open>\<^verbatim>\<open>_last_stderr\<close>, a deque of 20 lines.\<close>

definition note_stderr :: "string \<Rightarrow> rpc_client \<Rightarrow> rpc_client" where
  "note_stderr line s = (if line = [] then s else s\<lparr>rc_stderr := newest 20 (rc_stderr s @ [line])\<rparr>)"

section \<open>Startup checks\<close>

text \<open>The guards of \<^verbatim>\<open>start\<close>: \<open>Inr True\<close> starts a process, \<open>Inr False\<close> finds one running.\<close>

definition start_guard :: "string list \<Rightarrow> rpc_client \<Rightarrow> bool result" where
  "start_guard command s =
     (if rc_running s \<and> rc_initialized s then Inr False
      else if rc_closed s then Inl (AppServerExited ''app-server client is closed'')
      else if command = [] then Inl (ValueError ''app-server command must not be empty'')
      else Inr True)"

definition refresh_account :: "json \<Rightarrow> rpc_client \<Rightarrow> rpc_client" where
  "refresh_account response s =
     (case (case obj_of response of None \<Rightarrow> None | Some m \<Rightarrow> obj_of (jget m ''account'')) of
        Some account \<Rightarrow> s\<lparr>rc_auth_mode := text_of (jget account ''type''),
                           rc_plan_type := text_of (jget account ''planType'')\<rparr>
      | None \<Rightarrow> s\<lparr>rc_auth_mode := None, rc_plan_type := None\<rparr>)"

fun contains_configured_mcp :: "json \<Rightarrow> bool" and any_configured_mcp :: "(string \<times> json) list \<Rightarrow> bool" where
  "contains_configured_mcp (JObj m) = any_configured_mcp m"
| "contains_configured_mcp v = False"
| "any_configured_mcp [] = False"
| "any_configured_mcp ((key, nested) # m) =
     ((key \<in> {''mcp_servers'', ''mcpServers''} \<and> truthy nested) \<or> contains_configured_mcp nested \<or>
      any_configured_mcp m)"

definition layer_config :: "json \<Rightarrow> json" where
  "layer_config layer = (case obj_of layer of None \<Rightarrow> JNull | Some m \<Rightarrow> jget m ''config'')"

definition assert_no_configured_mcp_servers :: "json \<Rightarrow> unit result" where
  "assert_no_configured_mcp_servers response =
     (case (case obj_of response of None \<Rightarrow> None | Some m \<Rightarrow> arr_of (jget m ''layers'')) of
        None \<Rightarrow> Inl (ProtocolError ''config/read returned an invalid layer response'')
      | Some layers \<Rightarrow>
          if list_ex (\<lambda>layer. contains_configured_mcp (layer_config layer)) layers
          then Inl (ProtocolError ''Codex configuration contains an MCP server; voice bridge startup denied'')
          else Inr ())"

section \<open>Every interleaving\<close>

datatype rpc_event =
    StartProcess
  | CallStart string obj
  | CallEnd string rpc_id nat bool
  | Respond rpc_id obj
  | Subscribe nat
  | Unsubscribe nat
  | TakeEvent nat
  | ReadLine "json option"
  | Expire rpc_id json nat
  | Enter nat
  | Acquire nat
  | Commit nat
  | Abort nat
  | TimerDone rpc_id nat
  | ReaderExit int
  | CloseClient

definition rpc_step :: "rpc_event \<Rightarrow> rpc_client \<Rightarrow> rpc_client" where
  "rpc_step ev s =
     (case ev of
        StartProcess \<Rightarrow> if rc_closed s then s else s\<lparr>rc_running := True, rc_initialized := True\<rparr>
      | CallStart name params \<Rightarrow> snd (call_start name params s)
      | CallEnd name key f timed_out \<Rightarrow>
          if map_of (rc_pending s) key = Some f then snd (call_end name key f timed_out s) else s
      | Respond key m \<Rightarrow> ask key None m s
      | Subscribe maxsize \<Rightarrow> snd (subscribe maxsize s)
      | Unsubscribe n \<Rightarrow> unsubscribe n s
      | TakeEvent n \<Rightarrow>
          s\<lparr>rc_subscriptions := map (\<lambda>(i, sb). (i, if i = n then snd (take_event sb) else sb)) (rc_subscriptions s)\<rparr>
      | ReadLine line \<Rightarrow> snd (read_line line s)
      | Expire key request_id k \<Rightarrow>
          if map_of (rc_timers s) key = Some k then expire_server_request key request_id k s else s
      | Enter n \<Rightarrow>
          if n < length (rc_asking s)
          then snd (respond_enter (rc_asking s ! n)
                 (s\<lparr>rc_asking := take n (rc_asking s) @ drop (Suc n) (rc_asking s)\<rparr>)) else s
      | Acquire n \<Rightarrow>
          if n < length (rc_waiting s) \<and> \<not> lock_held (fst (rc_waiting s ! n)) s
          then snd (respond_locked (fst (rc_waiting s ! n)) (snd (rc_waiting s ! n))
                 (s\<lparr>rc_waiting := take n (rc_waiting s) @ drop (Suc n) (rc_waiting s)\<rparr>)) else s
      | Commit n \<Rightarrow>
          if n < length (rc_writers s)
          then respond_commit (fst (rc_writers s ! n)) (snd (rc_writers s ! n)) s else s
      | Abort n \<Rightarrow> if n < length (rc_writers s) then respond_abort (fst (rc_writers s ! n)) s else s
      | TimerDone key k \<Rightarrow> timer_done key k s
      | ReaderExit returncode \<Rightarrow> reader_exit returncode s
      | CloseClient \<Rightarrow> close_client s)"

inductive rpc_reachable :: "rpc_client \<Rightarrow> bool" where
  opened: "rpc_reachable new_client"
| stepped: "rpc_reachable s \<Longrightarrow> rpc_reachable (rpc_step ev s)"

end
