(* ===== verification/Rpc_Safety.thy ===== *)
theory Rpc_Safety
  imports App_Server
begin

text \<open>
  The invariant of the JSON-RPC client over every interleaving, and what it gives: a tool call is
  answered at most once, late answers are dropped, approvals are always refused, and a response reaches the
  request it names.
\<close>

section \<open>The retired identifiers\<close>

interpretation rpc_log: bounded_log retire_server_response_id rc_retired MAX_RETIRED_SERVER_RESPONSE_IDS
proof
  show "0 < MAX_RETIRED_SERVER_RESPONSE_IDS" by (simp add: MAX_RETIRED_SERVER_RESPONSE_IDS_def)
  fix s :: rpc_client and k
  assume "distinct (rc_retired s)" and b: "length (rc_retired s) \<le> MAX_RETIRED_SERVER_RESPONSE_IDS"
  let ?xs = "removeAll k (rc_retired s)"
  have le: "length ?xs \<le> 1024"
    by (rule order_trans [OF length_removeAll_less_eq]) (use b in \<open>simp add: MAX_RETIRED_SERVER_RESPONSE_IDS_def\<close>)
  show "rc_retired (retire_server_response_id k s) = newest MAX_RETIRED_SERVER_RESPONSE_IDS (?xs @ [k])"
  proof (cases "length ?xs = 1024")
    case True
    then obtain x xs where "?xs = x # xs" by (cases ?xs) auto
    then show ?thesis using True
      by (simp add: retire_server_response_id_def newest_def MAX_RETIRED_SERVER_RESPONSE_IDS_def)
  next
    case False
    then show ?thesis using le
      by (simp add: retire_server_response_id_def newest_def MAX_RETIRED_SERVER_RESPONSE_IDS_def)
  qed
qed

section \<open>The invariant\<close>

definition calls_ok :: "rpc_client \<Rightarrow> bool" where
  "calls_ok s \<longleftrightarrow>
     distinct (map fst (rc_pending s)) \<and> distinct (map snd (rc_pending s)) \<and>
     (\<forall>(key, f) \<in> set (rc_pending s). f < rc_next_future s \<and> (\<exists>i < rc_next_id s. key = NumberId (of_nat i)))"

text \<open>Ownership of responses: a state is active, being written or committed; each is committed once.\<close>

definition owners_ok :: "rpc_client \<Rightarrow> bool" where
  "owners_ok s \<longleftrightarrow>
     distinct (map fst (rc_states s)) \<and> distinct (map snd (rc_states s)) \<and>
     (\<forall>k \<in> snd ` set (rc_states s). k < rc_next_state s \<and> \<not> rc_written s k) \<and>
     distinct (map fst (rc_writers s)) \<and>
     (\<forall>k \<in> fst ` set (rc_writers s). k < rc_next_state s \<and> \<not> rc_written s k) \<and>
     (\<forall>(k, key) \<in> set (rc_writers s). \<forall>key1. (key1, k) \<in> set (rc_states s) \<longrightarrow> key1 = key) \<and>
     (\<forall>k \<in> fst ` set (rc_waiting s). k < rc_next_state s) \<and>
     (\<forall>r \<in> set (rc_asking s). \<forall>k. rs_state r = Some k \<longrightarrow> k < rc_next_state s) \<and>
     (\<forall>k \<in> snd ` set (rc_timers s). k < rc_next_state s) \<and>
     distinct (rc_committed s) \<and> (\<forall>k. rc_written s k \<longleftrightarrow> k \<in> set (rc_committed s)) \<and>
     (\<forall>k \<in> set (rc_committed s). k < rc_next_state s)"

definition retired_ok :: "rpc_client \<Rightarrow> bool" where
  "retired_ok s \<longleftrightarrow>
     distinct (rc_retired s) \<and> length (rc_retired s) \<le> MAX_RETIRED_SERVER_RESPONSE_IDS \<and>
     set (rc_retired s) \<inter> fst ` set (rc_states s) = {}"

definition subscription_ok :: "subscription \<Rightarrow> bool" where
  "subscription_ok sb \<longleftrightarrow> 0 < sb_maxsize sb \<longrightarrow> length (sb_queue sb) \<le> sb_maxsize sb"

definition subscriptions_ok :: "rpc_client \<Rightarrow> bool" where
  "subscriptions_ok s \<longleftrightarrow>
     distinct (map fst (rc_subscriptions s)) \<and>
     (\<forall>(n, sb) \<in> set (rc_subscriptions s). n < rc_next_subscription s \<and> subscription_ok sb)"

definition rpc_inv :: "rpc_client \<Rightarrow> bool" where
  "rpc_inv s \<longleftrightarrow>
     calls_ok s \<and> owners_ok s \<and> retired_ok s \<and> subscriptions_ok s \<and>
     length (rc_stderr s) \<le> 20 \<and> (rc_initialized s \<longrightarrow> rc_running s)"

lemma new_client_inv: "rpc_inv new_client"
  by (simp add: rpc_inv_def calls_ok_def owners_ok_def retired_ok_def subscriptions_ok_def new_client_def)

text \<open>The fields each part does not read.\<close>

lemma calls_ok_frame [simp]:
  "calls_ok (s\<lparr>rc_running := x1\<rparr>) = calls_ok s" "calls_ok (s\<lparr>rc_initialized := x2\<rparr>) = calls_ok s"
  "calls_ok (s\<lparr>rc_closed := x3\<rparr>) = calls_ok s" "calls_ok (s\<lparr>rc_futures := x4\<rparr>) = calls_ok s"
  "calls_ok (s\<lparr>rc_states := x5\<rparr>) = calls_ok s" "calls_ok (s\<lparr>rc_written := x6\<rparr>) = calls_ok s"
  "calls_ok (s\<lparr>rc_timers := x7\<rparr>) = calls_ok s" "calls_ok (s\<lparr>rc_next_state := x8\<rparr>) = calls_ok s"
  "calls_ok (s\<lparr>rc_retired := x9\<rparr>) = calls_ok s" "calls_ok (s\<lparr>rc_subscriptions := x10\<rparr>) = calls_ok s"
  "calls_ok (s\<lparr>rc_next_subscription := x11\<rparr>) = calls_ok s" "calls_ok (s\<lparr>rc_asking := x12\<rparr>) = calls_ok s"
  "calls_ok (s\<lparr>rc_waiting := x13\<rparr>) = calls_ok s" "calls_ok (s\<lparr>rc_writers := x14\<rparr>) = calls_ok s"
  "calls_ok (s\<lparr>rc_sent := x15\<rparr>) = calls_ok s" "calls_ok (s\<lparr>rc_committed := x16\<rparr>) = calls_ok s"
  "calls_ok (s\<lparr>rc_stderr := x17\<rparr>) = calls_ok s" "calls_ok (s\<lparr>rc_auth_mode := x18\<rparr>) = calls_ok s"
  "calls_ok (s\<lparr>rc_plan_type := x19\<rparr>) = calls_ok s"
  by (simp_all add: calls_ok_def)

lemma owners_ok_frame [simp]:
  "owners_ok (s\<lparr>rc_running := x20\<rparr>) = owners_ok s" "owners_ok (s\<lparr>rc_initialized := x21\<rparr>) = owners_ok s"
  "owners_ok (s\<lparr>rc_closed := x22\<rparr>) = owners_ok s" "owners_ok (s\<lparr>rc_next_id := x23\<rparr>) = owners_ok s"
  "owners_ok (s\<lparr>rc_pending := x24\<rparr>) = owners_ok s" "owners_ok (s\<lparr>rc_futures := x25\<rparr>) = owners_ok s"
  "owners_ok (s\<lparr>rc_next_future := x26\<rparr>) = owners_ok s" "owners_ok (s\<lparr>rc_retired := x27\<rparr>) = owners_ok s"
  "owners_ok (s\<lparr>rc_subscriptions := x28\<rparr>) = owners_ok s" "owners_ok (s\<lparr>rc_next_subscription := x29\<rparr>) = owners_ok s"
  "owners_ok (s\<lparr>rc_sent := x30\<rparr>) = owners_ok s" "owners_ok (s\<lparr>rc_stderr := x31\<rparr>) = owners_ok s"
  "owners_ok (s\<lparr>rc_auth_mode := x32\<rparr>) = owners_ok s" "owners_ok (s\<lparr>rc_plan_type := x33\<rparr>) = owners_ok s"
  by (simp_all add: owners_ok_def)

lemma retired_ok_frame [simp]:
  "retired_ok (s\<lparr>rc_running := x34\<rparr>) = retired_ok s" "retired_ok (s\<lparr>rc_initialized := x35\<rparr>) = retired_ok s"
  "retired_ok (s\<lparr>rc_closed := x36\<rparr>) = retired_ok s" "retired_ok (s\<lparr>rc_next_id := x37\<rparr>) = retired_ok s"
  "retired_ok (s\<lparr>rc_pending := x38\<rparr>) = retired_ok s" "retired_ok (s\<lparr>rc_futures := x39\<rparr>) = retired_ok s"
  "retired_ok (s\<lparr>rc_next_future := x40\<rparr>) = retired_ok s" "retired_ok (s\<lparr>rc_written := x41\<rparr>) = retired_ok s"
  "retired_ok (s\<lparr>rc_timers := x42\<rparr>) = retired_ok s" "retired_ok (s\<lparr>rc_next_state := x43\<rparr>) = retired_ok s"
  "retired_ok (s\<lparr>rc_subscriptions := x44\<rparr>) = retired_ok s" "retired_ok (s\<lparr>rc_next_subscription := x45\<rparr>) = retired_ok s"
  "retired_ok (s\<lparr>rc_asking := x46\<rparr>) = retired_ok s" "retired_ok (s\<lparr>rc_waiting := x47\<rparr>) = retired_ok s"
  "retired_ok (s\<lparr>rc_writers := x48\<rparr>) = retired_ok s" "retired_ok (s\<lparr>rc_sent := x49\<rparr>) = retired_ok s"
  "retired_ok (s\<lparr>rc_committed := x50\<rparr>) = retired_ok s" "retired_ok (s\<lparr>rc_stderr := x51\<rparr>) = retired_ok s"
  "retired_ok (s\<lparr>rc_auth_mode := x52\<rparr>) = retired_ok s" "retired_ok (s\<lparr>rc_plan_type := x53\<rparr>) = retired_ok s"
  by (simp_all add: retired_ok_def)

lemma subscriptions_ok_frame [simp]:
  "subscriptions_ok (s\<lparr>rc_running := x54\<rparr>) = subscriptions_ok s" "subscriptions_ok (s\<lparr>rc_initialized := x55\<rparr>) = subscriptions_ok s"
  "subscriptions_ok (s\<lparr>rc_closed := x56\<rparr>) = subscriptions_ok s" "subscriptions_ok (s\<lparr>rc_next_id := x57\<rparr>) = subscriptions_ok s"
  "subscriptions_ok (s\<lparr>rc_pending := x58\<rparr>) = subscriptions_ok s" "subscriptions_ok (s\<lparr>rc_futures := x59\<rparr>) = subscriptions_ok s"
  "subscriptions_ok (s\<lparr>rc_next_future := x60\<rparr>) = subscriptions_ok s" "subscriptions_ok (s\<lparr>rc_states := x61\<rparr>) = subscriptions_ok s"
  "subscriptions_ok (s\<lparr>rc_written := x62\<rparr>) = subscriptions_ok s" "subscriptions_ok (s\<lparr>rc_timers := x63\<rparr>) = subscriptions_ok s"
  "subscriptions_ok (s\<lparr>rc_next_state := x64\<rparr>) = subscriptions_ok s" "subscriptions_ok (s\<lparr>rc_retired := x65\<rparr>) = subscriptions_ok s"
  "subscriptions_ok (s\<lparr>rc_asking := x66\<rparr>) = subscriptions_ok s" "subscriptions_ok (s\<lparr>rc_waiting := x67\<rparr>) = subscriptions_ok s"
  "subscriptions_ok (s\<lparr>rc_writers := x68\<rparr>) = subscriptions_ok s" "subscriptions_ok (s\<lparr>rc_sent := x69\<rparr>) = subscriptions_ok s"
  "subscriptions_ok (s\<lparr>rc_committed := x70\<rparr>) = subscriptions_ok s" "subscriptions_ok (s\<lparr>rc_stderr := x71\<rparr>) = subscriptions_ok s"
  "subscriptions_ok (s\<lparr>rc_auth_mode := x72\<rparr>) = subscriptions_ok s" "subscriptions_ok (s\<lparr>rc_plan_type := x73\<rparr>) = subscriptions_ok s"
  by (simp_all add: subscriptions_ok_def)

section \<open>Each operation keeps it\<close>

lemma write_inv: "rpc_inv s \<Longrightarrow> rpc_inv (snd (write_message m s))"
  by (auto simp: rpc_inv_def write_message_def)

lemma offer_ok [simp]: "subscription_ok sb \<Longrightarrow> subscription_ok (snd (offer m sb))"
  by (simp add: subscription_ok_def offer_def)

lemma take_event_ok [simp]: "subscription_ok sb \<Longrightarrow> subscription_ok (snd (take_event sb))"
  by (auto simp: subscription_ok_def take_event_def split: list.splits)

lemma keys_of_mapped: "map (fst \<circ> (\<lambda>(n, sb). (n, g n sb))) xs = map fst xs"
  by (induction xs) auto

lemma map_subscriptions_ok:
  assumes "subscriptions_ok s" "\<And>n sb. subscription_ok sb \<Longrightarrow> subscription_ok (g n sb)"
  shows "subscriptions_ok (s\<lparr>rc_subscriptions := map (\<lambda>(n, sb). (n, g n sb)) (rc_subscriptions s)\<rparr>)"
proof -
  have "distinct (map fst (map (\<lambda>(n, sb). (n, g n sb)) (rc_subscriptions s)))"
    using assms(1) by (simp add: subscriptions_ok_def keys_of_mapped)
  moreover have "\<forall>(n, sb) \<in> set (rc_subscriptions s). n < rc_next_subscription s \<and> subscription_ok sb"
    using assms(1) by (simp add: subscriptions_ok_def)
  then have "\<forall>(n, sb) \<in> set (map (\<lambda>(n, sb). (n, g n sb)) (rc_subscriptions s)).
      n < rc_next_subscription s \<and> subscription_ok sb"
    using assms(2) by auto
  ultimately show ?thesis unfolding subscriptions_ok_def by simp
qed

lemma broadcast_inv:
  assumes "rpc_inv s"
  shows "rpc_inv (snd (broadcast m s))"
proof -
  have "subscriptions_ok s" using assms by (simp add: rpc_inv_def)
  then have "subscriptions_ok (snd (broadcast m s))"
    unfolding broadcast_def snd_conv by (rule map_subscriptions_ok) (rule offer_ok)
  then show ?thesis using assms by (simp add: rpc_inv_def broadcast_def)
qed

lemma ask_inv:
  assumes "rpc_inv s" "\<And>i. k = Some i \<Longrightarrow> i < rc_next_state s"
  shows "rpc_inv (ask key k m s)"
proof -
  have "owners_ok s" using assms(1) by (simp add: rpc_inv_def)
  then have "owners_ok (ask key k m s)" using assms(2) unfolding owners_ok_def ask_def by auto
  then show ?thesis using assms(1) by (simp add: rpc_inv_def ask_def)
qed

lemma ask_none_inv: "rpc_inv s \<Longrightarrow> rpc_inv (ask key None m s)"
  by (rule ask_inv) simp_all

lemma pending_fresh:
  assumes "calls_ok s"
  shows "NumberId (of_nat (rc_next_id s)) \<notin> fst ` set (rc_pending s)"
    "rc_next_future s \<notin> snd ` set (rc_pending s)"
  using assms by (auto simp: calls_ok_def)

lemma pop_pending_inv:
  assumes "rpc_inv s"
  shows "rpc_inv (s\<lparr>rc_pending := dict_pop (rc_pending s) key\<rparr>)"
proof -
  have "calls_ok s" using assms by (simp add: rpc_inv_def)
  then have "calls_ok (s\<lparr>rc_pending := dict_pop (rc_pending s) key\<rparr>)"
    by (auto simp: calls_ok_def dict_pop_def distinct_map_filter)
  then show ?thesis using assms by (simp add: rpc_inv_def)
qed

lemma call_start_inv:
  assumes "rpc_inv s"
  shows "rpc_inv (snd (call_start name params s))"
proof -
  let ?key = "NumberId (of_nat (rc_next_id s))"
  let ?s = "s\<lparr>rc_next_id := rc_next_id s + 1, rc_next_future := rc_next_future s + 1,
      rc_futures := (rc_futures s)(rc_next_future s := Waits),
      rc_pending := dict_set (rc_pending s) ?key (rc_next_future s)\<rparr>"
  have c: "calls_ok s" using assms by (simp add: rpc_inv_def)
  have new: "dict_set (rc_pending s) ?key (rc_next_future s) = rc_pending s @ [(?key, rc_next_future s)]"
    using pending_fresh(1) [OF c] by (rule dict_set_absent)
  have "calls_ok ?s"
    unfolding new using c pending_fresh [OF c] by (fastforce simp: calls_ok_def)
  then have inv: "rpc_inv ?s" using assms by (simp add: rpc_inv_def)
  show ?thesis
  proof (cases "rc_running s")
    case True
    then show ?thesis using write_inv [OF inv] by (simp add: call_start_def Let_def write_message_def)
  qed (simp add: call_start_def assms)
qed

lemma call_end_inv: "rpc_inv s \<Longrightarrow> rpc_inv (snd (call_end name key f timed_out s))"
  using pop_pending_inv [of s key] by (simp add: call_end_def Let_def split: rpc_future.split)

lemma subscribe_inv:
  assumes "rpc_inv s"
  shows "rpc_inv (snd (subscribe maxsize s))"
proof -
  have "subscriptions_ok s" using assms by (simp add: rpc_inv_def)
  then have "subscriptions_ok (snd (subscribe maxsize s))"
    by (fastforce simp: subscriptions_ok_def subscription_ok_def subscribe_def)
  then show ?thesis using assms by (simp add: rpc_inv_def subscribe_def)
qed

lemma unsubscribe_inv:
  assumes "rpc_inv s"
  shows "rpc_inv (unsubscribe n s)"
proof -
  have "subscriptions_ok s" using assms by (simp add: rpc_inv_def)
  then have "subscriptions_ok (unsubscribe n s)"
    by (auto simp: subscriptions_ok_def unsubscribe_def distinct_map_filter)
  then show ?thesis using assms by (simp add: rpc_inv_def unsubscribe_def)
qed

lemma settle_inv [simp]: "rpc_inv (settle f v s) = rpc_inv s"
  by (simp add: rpc_inv_def settle_def)

lemma set_dict_set_subset: "set (dict_set m k v) \<subseteq> insert (k, v) (set m)"
  by (induction m k v rule: dict_set.induct) auto

lemma distinct_dict_set_values:
  "distinct (map snd m) \<Longrightarrow> v \<notin> snd ` set m \<Longrightarrow> distinct (map snd (dict_set m k v))"
proof (induction m k v rule: dict_set.induct)
  case (2 k' v' m k v)
  then show ?case using set_dict_set_subset [of m k v] by fastforce
qed simp

lemma handle_request_inv:
  assumes "rpc_inv s"
  shows "rpc_inv (handle_server_request key request_id name m s)"
proof -
  let ?s0 = "s\<lparr>rc_retired := removeAll key (rc_retired s)\<rparr>"
  have parts: "calls_ok s" "owners_ok s" "retired_ok s" "subscriptions_ok s" "length (rc_stderr s) \<le> 20"
    "rc_initialized s \<longrightarrow> rc_running s" using assms by (simp_all add: rpc_inv_def)
  have "length (removeAll key (rc_retired s)) \<le> MAX_RETIRED_SERVER_RESPONSE_IDS"
    by (rule order_trans [OF length_removeAll_less_eq]) (use parts(3) in \<open>simp add: retired_ok_def\<close>)
  then have "retired_ok ?s0" using parts(3) by (auto simp: retired_ok_def distinct_removeAll)
  then have s0: "rpc_inv ?s0" using parts by (simp add: rpc_inv_def)
  let ?s1 = "?s0\<lparr>rc_states := dict_set (rc_states s) key (rc_next_state s), rc_next_state := rc_next_state s + 1\<rparr>"
  have states: "set (dict_set (rc_states s) key (rc_next_state s)) \<subseteq> insert (key, rc_next_state s) (set (rc_states s))"
    by (rule set_dict_set_subset)
  have fresh: "rc_next_state s \<notin> snd ` set (rc_states s)" "\<not> rc_written s (rc_next_state s)"
    using parts(2) by (auto simp: owners_ok_def)
  have d: "distinct (map snd (dict_set (rc_states s) key (rc_next_state s)))"
    using fresh(1) parts(2) by (intro distinct_dict_set_values) (auto simp: owners_ok_def)
  have "owners_ok ?s1"
    using parts(2) states d fresh(2) unfolding owners_ok_def by (fastforce simp: distinct_dict_set less_Suc_eq)
  moreover have "retired_ok ?s1"
    using \<open>retired_ok ?s0\<close> by (auto simp: retired_ok_def fst_set_dict_set simp del: set_removeAll) auto
  ultimately have s1: "rpc_inv ?s1" using parts by (simp add: rpc_inv_def)
  obtain n s2 where b: "broadcast m ?s1 = (n, s2)" by fastforce
  have s2: "rpc_inv s2" "rc_next_state s2 = rc_next_state s + 1" "rc_timers s2 = rc_timers s"
    using broadcast_inv [OF s1, of m] b by (auto simp: broadcast_def)
  have timers: "set (dict_set (rc_timers s) key (rc_next_state s)) \<subseteq> insert (key, rc_next_state s) (set (rc_timers s))"
    by (rule set_dict_set_subset)
  have "owners_ok (s2\<lparr>rc_timers := dict_set (rc_timers s2) key (rc_next_state s)\<rparr>)"
    using s2 timers unfolding rpc_inv_def owners_ok_def by fastforce
  then have "rpc_inv (s2\<lparr>rc_timers := dict_set (rc_timers s2) key (rc_next_state s)\<rparr>)"
    using s2(1) by (simp add: rpc_inv_def)
  then show ?thesis
    using s0 s2(1) b ask_inv [of ?s0 None] ask_inv [of s2 None]
    by (simp add: handle_server_request_def Let_def)
qed

lemma deliver_inv: "rpc_inv s \<Longrightarrow> rpc_inv (deliver_response key m s)"
  by (simp add: deliver_response_def split: option.split)

lemma route_inv: "rpc_inv s \<Longrightarrow> rpc_inv (snd (route_message m s))"
  by (auto simp: route_message_def broadcast_inv handle_request_inv deliver_inv
      split: json.split option.split sum.split)

lemma read_line_inv: "rpc_inv s \<Longrightarrow> rpc_inv (snd (read_line line s))"
  by (simp add: read_line_def route_inv split: option.split)

text \<open>A responder enters, gets the lock, commits or gives up.\<close>

lemma drop_asking_inv:
  "rpc_inv s \<Longrightarrow> rpc_inv (s\<lparr>rc_asking := take n (rc_asking s) @ drop (Suc n) (rc_asking s)\<rparr>)"
  by (auto simp: rpc_inv_def owners_ok_def dest: in_set_takeD in_set_dropD)

lemma drop_waiting_inv:
  "rpc_inv s \<Longrightarrow> rpc_inv (s\<lparr>rc_waiting := take n (rc_waiting s) @ drop (Suc n) (rc_waiting s)\<rparr>)"
  by (auto simp: rpc_inv_def owners_ok_def dest: in_set_takeD in_set_dropD)

lemma enter_inv:
  assumes "rpc_inv s" "\<And>k. rs_state r = Some k \<Longrightarrow> k < rc_next_state s"
  shows "rpc_inv (snd (respond_enter r s))"
proof -
  have o: "owners_ok s" using assms(1) by (simp add: rpc_inv_def)
  have "k < rc_next_state s" if "map_of (rc_states s) key = Some k" for key k
    using o that by (auto simp: owners_ok_def dest!: map_of_SomeD)
  then have "owners_ok (s\<lparr>rc_waiting := rc_waiting s @ [(k, r)]\<rparr>)"
    if "(case rs_state r of Some k \<Rightarrow> Some k | None \<Rightarrow> map_of (rc_states s) (rs_id r)) = Some k" for k
    using o assms(2) that unfolding owners_ok_def by (auto split: option.splits)
  then show ?thesis
    using assms(1) write_inv [OF assms(1)] by (auto simp: respond_enter_def rpc_inv_def split: option.split)
qed

lemma locked_inv:
  assumes "rpc_inv s" "k < rc_next_state s" "\<not> lock_held k s"
  shows "rpc_inv (snd (respond_locked k r s))"
proof -
  have o: "owners_ok s" using assms(1) by (simp add: rpc_inv_def)
  have "owners_ok (s\<lparr>rc_sent := rc_sent s @ [rs_message r], rc_writers := rc_writers s @ [(k, rs_id r)]\<rparr>)"
    if "\<not> rc_written s k" "map_of (rc_states s) (rs_id r) = Some k"
  proof -
    have "key1 = rs_id r" if "(key1, k) \<in> set (rc_states s)" for key1
      using o that map_of_SomeD [OF \<open>map_of (rc_states s) (rs_id r) = Some k\<close>]
      by (force simp: owners_ok_def distinct_map inj_on_def)
    moreover have "k \<notin> fst ` set (rc_writers s)" using assms(3) by (simp add: lock_held_def)
    ultimately show ?thesis using o assms(2) that(1) unfolding owners_ok_def
      by (simp add: ball_Un) (blast intro: sym)
  qed
  then have w: "rpc_inv (s\<lparr>rc_sent := rc_sent s @ [rs_message r], rc_writers := rc_writers s @ [(k, rs_id r)]\<rparr>)"
    if "\<not> rc_written s k" "map_of (rc_states s) (rs_id r) = Some k"
    using assms(1) that by (simp add: rpc_inv_def)
  show ?thesis
  proof (cases "rc_written s k \<or> map_of (rc_states s) (rs_id r) \<noteq> Some k \<or> \<not> rc_running s")
    case True
    then show ?thesis using assms(1) by (auto simp: respond_locked_def write_message_def)
  next
    case False
    then show ?thesis using w by (simp add: respond_locked_def write_message_def)
  qed
qed

lemma abort_inv: "rpc_inv s \<Longrightarrow> rpc_inv (respond_abort k s)"
  by (auto simp: rpc_inv_def owners_ok_def respond_abort_def distinct_map_filter)

lemma cancel_timer_inv: "rpc_inv s \<Longrightarrow> rpc_inv (cancel_server_request_timeout key k s)"
  by (auto simp: rpc_inv_def owners_ok_def cancel_server_request_timeout_def dict_pop_def)

lemma timer_done_inv: "rpc_inv s \<Longrightarrow> rpc_inv (timer_done key k s)"
  by (auto simp: rpc_inv_def owners_ok_def timer_done_def dict_pop_def)

lemma retire_states: "rc_states (retire_server_response_id key s) = rc_states s"
  by (simp add: retire_server_response_id_def Let_def)

lemma commit_inv:
  assumes "rpc_inv s" "(k, key) \<in> set (rc_writers s)"
  shows "rpc_inv (respond_commit k key s)"
proof -
  let ?s1 = "s\<lparr>rc_writers := filter (\<lambda>p. fst p \<noteq> k) (rc_writers s),
                 rc_written := (rc_written s)(k := True), rc_committed := rc_committed s @ [k]\<rparr>"
  have parts: "owners_ok s" "retired_ok s" using assms(1) by (simp_all add: rpc_inv_def)
  have k: "k < rc_next_state s" "\<not> rc_written s k" "k \<notin> set (rc_committed s)"
    using parts(1) assms(2) by (force simp: owners_ok_def)+
  show ?thesis
  proof (cases "map_of (rc_states s) key = Some k")
    case True
    let ?s2 = "?s1\<lparr>rc_states := dict_pop (rc_states s) key\<rparr>"
    have own: "p = (key, k)" if "p \<in> set (rc_states s)" "snd p = k" for p
      using parts(1) that map_of_SomeD [OF True] by (force simp: owners_ok_def distinct_map inj_on_def)
    have "owners_ok ?s2"
      using parts(1) k own unfolding owners_ok_def
      by (auto simp: dict_pop_def distinct_map_filter)
    moreover have "retired_ok ?s2" using parts(2) by (auto simp: retired_ok_def dict_pop_def)
    ultimately have s2: "rpc_inv ?s2" using assms(1) by (simp add: rpc_inv_def)
    have r: "distinct (rc_retired ?s2)" "length (rc_retired ?s2) \<le> MAX_RETIRED_SERVER_RESPONSE_IDS"
      using parts(2) by (simp_all add: retired_ok_def)
    have "key \<notin> fst ` set (rc_states ?s2)" by (auto simp: dict_pop_def)
    then have "retired_ok (retire_server_response_id key ?s2)"
      using rpc_log.distinct_step [OF r] rpc_log.bounded_step [OF r] rpc_log.retired_only [OF r, of key]
        \<open>retired_ok ?s2\<close> unfolding retired_ok_def retire_states by blast
    then have "rpc_inv (retire_server_response_id key ?s2)"
      using s2 by (simp add: rpc_inv_def retire_server_response_id_def Let_def)
    then show ?thesis using True by (simp add: respond_commit_def cancel_timer_inv Let_def)
  next
    case False
    have "(key1, k) \<notin> set (rc_states s)" for key1
      using parts(1) assms(2) False map_of_is_SomeI [of "rc_states s" key k] unfolding owners_ok_def by fastforce
    then have "owners_ok ?s1" using parts(1) k unfolding owners_ok_def by (auto simp: distinct_map_filter)
    moreover have "retired_ok ?s1" using parts(2) by (simp add: retired_ok_def)
    ultimately have "rpc_inv ?s1" using assms(1) by (simp add: rpc_inv_def)
    then show ?thesis using False by (simp add: respond_commit_def cancel_timer_inv Let_def)
  qed
qed

lemma fail_fold:
  "fold (\<lambda>f t. if rc_futures t f = Waits then settle f (Broken e) t else t) fs s =
   s\<lparr>rc_futures := (\<lambda>f. if f \<in> set fs \<and> rc_futures s f = Waits then Broken e else rc_futures s f)\<rparr>"
proof (induction fs arbitrary: s)
  case (Cons f fs)
  show ?case
    by (rule rpc_client.equality) (auto simp: Cons settle_def)
qed simp

lemma fail_pending_futures:
  "fail_pending e s = s\<lparr>rc_futures := (\<lambda>f. if f \<in> snd ` set (rc_pending s) \<and> rc_futures s f = Waits
      then Broken e else rc_futures s f)\<rparr>"
  by (simp add: fail_pending_def fail_fold)

lemma fail_pending_inv: "rpc_inv s \<Longrightarrow> rpc_inv (fail_pending e s)"
  by (simp add: fail_pending_futures rpc_inv_def)

lemma stopped_inv: "rpc_inv s \<Longrightarrow> rpc_inv (s\<lparr>rc_running := False, rc_initialized := False\<rparr>)"
  by (simp add: rpc_inv_def)

lemma reader_exit_inv: "rpc_inv s \<Longrightarrow> rpc_inv (reader_exit returncode s)"
  by (simp add: reader_exit_def broadcast_inv fail_pending_inv stopped_inv)

lemma close_inv:
  assumes "rpc_inv s"
  shows "rpc_inv (close_client s)"
proof -
  have o: "owners_ok s" using assms by (simp add: rpc_inv_def)
  let ?s = "(fail_pending (AppServerExited ''app-server client closed'')
      (s\<lparr>rc_closed := True, rc_initialized := False, rc_running := False\<rparr>))
      \<lparr>rc_timers := [], rc_states := [], rc_retired := [], rc_subscriptions := []\<rparr>"
  have "owners_ok ?s" using o unfolding owners_ok_def fail_pending_futures by auto
  moreover have "retired_ok ?s" "subscriptions_ok ?s" by (simp_all add: retired_ok_def subscriptions_ok_def)
  ultimately have "rpc_inv ?s" using assms by (simp add: rpc_inv_def fail_pending_futures)
  then show ?thesis using assms by (simp add: close_client_def)
qed

lemma stderr_inv: "rpc_inv s \<Longrightarrow> rpc_inv (note_stderr line s)"
  by (simp add: note_stderr_def rpc_inv_def length_newest)

section \<open>Every interleaving\<close>

lemma rpc_step_inv:
  assumes "rpc_inv s"
  shows "rpc_inv (rpc_step ev s)"
proof -
  have o: "owners_ok s" using assms by (simp add: rpc_inv_def)
  show ?thesis
  proof (cases ev)
    case StartProcess
    then show ?thesis using assms by (simp add: rpc_step_def rpc_inv_def)
  next
    case (TakeEvent n)
    have "subscriptions_ok s" using assms by (simp add: rpc_inv_def)
    then have "subscriptions_ok (s\<lparr>rc_subscriptions :=
        map (\<lambda>(i, sb). (i, if i = n then snd (take_event sb) else sb)) (rc_subscriptions s)\<rparr>)"
      by (rule map_subscriptions_ok) simp
    then show ?thesis using assms TakeEvent by (simp add: rpc_step_def rpc_inv_def)
  next
    case (Expire key request_id k)
    have "k < rc_next_state s" if "map_of (rc_timers s) key = Some k"
      using o map_of_SomeD [OF that] by (force simp: owners_ok_def)
    then show ?thesis using assms Expire by (auto simp: rpc_step_def expire_server_request_def intro: ask_inv)
  next
    case (Enter n)
    let ?s = "s\<lparr>rc_asking := take n (rc_asking s) @ drop (Suc n) (rc_asking s)\<rparr>"
    have "k < rc_next_state s" if "n < length (rc_asking s)" "rs_state (rc_asking s ! n) = Some k" for k
      using o nth_mem [OF that(1)] that(2) unfolding owners_ok_def by blast
    then show ?thesis
      using assms Enter enter_inv [OF drop_asking_inv [OF assms], of "rc_asking s ! n"] by (simp add: rpc_step_def)
  next
    case (Acquire n)
    have "fst (rc_waiting s ! n) < rc_next_state s" if "n < length (rc_waiting s)"
      using o nth_mem [OF that] unfolding owners_ok_def by blast
    then show ?thesis
      using assms Acquire locked_inv [OF drop_waiting_inv [OF assms], of "fst (rc_waiting s ! n)"]
      by (simp add: rpc_step_def lock_held_def)
  next
    case (Commit n)
    then show ?thesis using assms commit_inv [OF assms] by (simp add: rpc_step_def)
  qed (use assms in \<open>simp_all add: rpc_step_def call_start_inv call_end_inv ask_none_inv subscribe_inv unsubscribe_inv
      read_line_inv abort_inv timer_done_inv reader_exit_inv close_inv\<close>)
qed

lemma rpc_reachable_inv: "rpc_reachable s \<Longrightarrow> rpc_inv s"
  by (induction rule: rpc_reachable.induct) (auto simp: new_client_inv rpc_step_inv)

section \<open>Properties\<close>

text \<open>C31: The JSON-RPC client keeps its tables consistent under every interleaving of its coroutines: request
  identifiers and futures are never shared, every active response state is unwritten and has one identifier,
  at most one coroutine writes for a state, no identifier is both active and retired, no state is committed
  twice, and the retired log, the stderr tail and every subscriber's queue stay within their bounds.\<close>
theorem rpc_client_invariant:
  assumes "rpc_reachable s"
  shows "rpc_inv s"
  by (rule rpc_reachable_inv [OF assms])

theorem rpc_client_invariant_witness:
  "rpc_inv (rpc_step (Subscribe 1) (rpc_step StartProcess new_client))"
  by (rule rpc_client_invariant) (intro rpc_reachable.intros)

text \<open>Runs without a new request of a given identifier.\<close>

fun reuses :: "rpc_id \<Rightarrow> rpc_event \<Rightarrow> bool" where
  "reuses key (ReadLine (Some (JObj m))) =
     (text_of (jget m ''method'') \<noteq> None \<and> rpc_id_of (jget m ''id'') = Inr key)"
| "reuses key CloseClient = True"
| "reuses key ev = False"

text \<open>The identifier is retired with at most \<open>n\<close> newer entries.\<close>

definition remembers :: "rpc_id \<Rightarrow> nat \<Rightarrow> rpc_client \<Rightarrow> bool" where
  "remembers key n s \<longleftrightarrow> rpc_inv s \<and> (\<exists>xs ys. rc_retired s = xs @ key # ys \<and> length ys \<le> n)"

lemma remembers_mono: "remembers key n s \<Longrightarrow> n \<le> m \<Longrightarrow> remembers key m s"
  by (auto simp: remembers_def intro: order_trans)

lemma write_retired [simp]: "rc_retired (snd (write_message m s)) = rc_retired s"
  by (simp add: write_message_def)

lemma simple_retired [simp]:
  "rc_retired (snd (broadcast m s)) = rc_retired s" "rc_retired (ask key own m s) = rc_retired s"
  "rc_retired (snd (respond_enter r s)) = rc_retired s" "rc_retired (snd (respond_locked k r s)) = rc_retired s"
  "rc_retired (deliver_response key m s) = rc_retired s" "rc_retired (fail_pending e s) = rc_retired s"
  "rc_retired (cancel_server_request_timeout key k s) = rc_retired s"
  "rc_retired (snd (call_start name params s)) = rc_retired s"
  "rc_retired (snd (call_end name key f t s)) = rc_retired s"
  "rc_retired (timer_done key k s) = rc_retired s" "rc_retired (reader_exit code s) = rc_retired s"
  by (auto simp: broadcast_def ask_def respond_enter_def respond_locked_def deliver_response_def settle_def
      fail_pending_futures cancel_server_request_timeout_def call_start_def call_end_def timer_done_def
      reader_exit_def write_message_def Let_def split: option.split rpc_future.split)

lemma handle_retired: "rc_retired (handle_server_request key request_id name m s) = removeAll key (rc_retired s)"
proof -
  let ?k = "rc_next_state s" and ?s0 = "s\<lparr>rc_retired := removeAll key (rc_retired s)\<rparr>"
  obtain n s2 where b: "broadcast m (?s0\<lparr>rc_states := dict_set (rc_states s) key ?k, rc_next_state := ?k + 1\<rparr>) = (n, s2)"
    by fastforce
  then have "rc_retired s2 = removeAll key (rc_retired s)" by (auto simp: broadcast_def)
  then show ?thesis using b by (simp add: handle_server_request_def Let_def)
qed

lemma forget_other:
  assumes "remembers key n s" "key1 \<noteq> key"
  shows "\<exists>xs ys. removeAll key1 (rc_retired s) = xs @ key # ys \<and> length ys \<le> n"
proof -
  obtain xs ys where r: "rc_retired s = xs @ key # ys" "length ys \<le> n"
    using assms(1) unfolding remembers_def by blast
  have "length (removeAll key1 ys) \<le> n" using length_removeAll_less_eq [of key1 ys] r(2) by linarith
  then show ?thesis using r(1) assms(2) by fastforce
qed

lemma read_line_remembers:
  assumes "remembers key n s" "\<not> reuses key (ReadLine line)"
  shows "remembers key n (snd (read_line line s))"
proof -
  have inv: "rpc_inv (snd (read_line line s))" using assms(1) by (simp add: remembers_def read_line_inv)
  have "rc_retired (snd (read_line line s)) = rc_retired s \<or>
      (\<exists>key1. key1 \<noteq> key \<and> rc_retired (snd (read_line line s)) = removeAll key1 (rc_retired s))"
  proof (cases line)
    case (Some v)
    show ?thesis
    proof (cases v)
      case (JObj m)
      then show ?thesis using assms(2) Some
        by (auto simp: read_line_def route_message_def handle_retired split: json.splits option.splits sum.splits)
    qed (simp_all add: read_line_def Some)
  qed (simp add: read_line_def)
  then show ?thesis
  proof
    assume "rc_retired (snd (read_line line s)) = rc_retired s"
    then show ?thesis using assms(1) inv by (simp add: remembers_def)
  next
    assume "\<exists>key1. key1 \<noteq> key \<and> rc_retired (snd (read_line line s)) = removeAll key1 (rc_retired s)"
    then show ?thesis using forget_other [OF assms(1)] inv unfolding remembers_def by metis
  qed
qed

lemma commit_remembers:
  assumes "remembers key n s" "(k, key1) \<in> set (rc_writers s)" "n + 1 < MAX_RETIRED_SERVER_RESPONSE_IDS"
  shows "remembers key (n + 1) (respond_commit k key1 s)"
proof -
  have inv: "rpc_inv s" "rpc_inv (respond_commit k key1 s)"
    using assms(1,2) commit_inv by (auto simp: remembers_def)
  obtain xs ys where r: "rc_retired s = xs @ key # ys" "length ys \<le> n"
    using assms(1) unfolding remembers_def by blast
  have ret: "retired_ok s" using inv(1) by (simp add: rpc_inv_def)
  have absent: "key \<notin> fst ` set (rc_states s)" using ret r(1) by (auto simp: retired_ok_def)
  let ?s2 = "s\<lparr>rc_writers := filter (\<lambda>p. fst p \<noteq> k) (rc_writers s), rc_written := (rc_written s)(k := True),
      rc_committed := rc_committed s @ [k], rc_states := dict_pop (rc_states s) key1\<rparr>"
  show ?thesis
  proof (cases "map_of (rc_states s) key1 = Some k")
    case True
    then have "key1 \<noteq> key" using absent map_of_SomeD [OF True] by force
    have "\<exists>xs' ys'. rc_retired (retire_server_response_id key1 ?s2) = xs' @ key # ys' \<and> length ys' \<le> length ys + 1"
      by (rule rpc_log.suffix_step)
        (use ret r assms(3) \<open>key1 \<noteq> key\<close> in \<open>simp_all add: retired_ok_def\<close>)
    then have "\<exists>xs' ys'. rc_retired (respond_commit k key1 s) = xs' @ key # ys' \<and> length ys' \<le> n + 1"
      using True r(2) by (fastforce simp: respond_commit_def Let_def)
    then show ?thesis using inv(2) by (simp add: remembers_def)
  next
    case False
    then have "rc_retired (respond_commit k key1 s) = rc_retired s" by (simp add: respond_commit_def Let_def)
    moreover have "length ys \<le> n + 1" using r(2) by simp
    ultimately show ?thesis using r(1) inv(2) unfolding remembers_def by metis
  qed
qed

lemma step_remembers:
  assumes "remembers key n s" "\<not> reuses key ev" "n + 1 < MAX_RETIRED_SERVER_RESPONSE_IDS"
  shows "remembers key (n + 1) (rpc_step ev s)"
proof -
  have inv: "rpc_inv (rpc_step ev s)" using assms(1) by (simp add: remembers_def rpc_step_inv)
  have same: "remembers key (n + 1) (rpc_step ev s)" if "rc_retired (rpc_step ev s) = rc_retired s"
    using remembers_mono [of key n "rpc_step ev s" "n + 1"] assms(1) that inv by (simp add: remembers_def)
  show ?thesis
  proof (cases ev)
    case (ReadLine line)
    then show ?thesis using read_line_remembers [OF assms(1), of line] assms(2) remembers_mono
      by (fastforce simp: rpc_step_def)
  next
    case (Commit i)
    then show ?thesis
      using commit_remembers [OF assms(1) _ assms(3)] remembers_mono [OF assms(1), of "n + 1"]
      by (simp add: rpc_step_def)
  next
    case CloseClient
    then show ?thesis using assms(2) by simp
  qed (rule same; simp add: rpc_step_def subscribe_def unsubscribe_def expire_server_request_def respond_abort_def)+
qed

lemma run_remembers:
  "remembers key n s \<Longrightarrow> list_all (\<lambda>ev. \<not> reuses key ev) evs \<Longrightarrow>
   n + length evs < MAX_RETIRED_SERVER_RESPONSE_IDS \<Longrightarrow> remembers key (n + length evs) (fold rpc_step evs s)"
proof (induction evs arbitrary: n s)
  case (Cons ev evs)
  then show ?case using Cons.IH [OF step_remembers [OF Cons.prems(1)]] by simp
qed simp

text \<open>A tool call is answered at most once. After a response to a server request is committed, and for
  as long as fewer than 1024 further events happen and the server does not use the identifier again, every
  further answer to it - from Home Assistant, from an expired timer, or one that was already waiting for the
  lock - is dropped without a byte written.\<close>
theorem late_answers_dropped:
  assumes "rpc_reachable s" "(k, key) \<in> set (rc_writers s)" "map_of (rc_states s) key = Some k"
    and "list_all (\<lambda>ev. \<not> reuses key ev) evs" "length evs < MAX_RETIRED_SERVER_RESPONSE_IDS"
    and "t = fold rpc_step evs (respond_commit k key s)"
  shows "respond_enter \<lparr>rs_id = key, rs_state = None, rs_message = m\<rparr> t = (Inr (), t) \<and>
    respond_locked k \<lparr>rs_id = key, rs_state = st, rs_message = m\<rparr> t = (Inr (), t)"
proof -
  have inv: "rpc_inv s" by (rule rpc_reachable_inv [OF assms(1)])
  then have ret: "distinct (rc_retired s)" "length (rc_retired s) \<le> MAX_RETIRED_SERVER_RESPONSE_IDS"
    by (simp_all add: rpc_inv_def retired_ok_def)
  let ?s2 = "s\<lparr>rc_writers := filter (\<lambda>p. fst p \<noteq> k) (rc_writers s), rc_written := (rc_written s)(k := True),
      rc_committed := rc_committed s @ [k], rc_states := dict_pop (rc_states s) key\<rparr>"
  have "rc_retired (respond_commit k key s) = rc_retired (retire_server_response_id key ?s2)"
    using assms(3) by (simp add: respond_commit_def Let_def)
  also have "\<dots> = newest (MAX_RETIRED_SERVER_RESPONSE_IDS - 1) (removeAll key (rc_retired ?s2)) @ [key]"
    by (rule rpc_log.newest_entry) (use ret in simp_all)
  finally have "remembers key 0 (respond_commit k key s)"
    using commit_inv [OF inv assms(2)] by (auto simp: remembers_def)
  from run_remembers [OF this assms(4)] have r: "remembers key (length evs) t" using assms(5,6) by simp
  then have "key \<in> set (rc_retired t)" by (auto simp: remembers_def)
  moreover from this r have "map_of (rc_states t) key = None"
    by (auto simp: remembers_def rpc_inv_def retired_ok_def map_of_eq_None_iff)
  ultimately show ?thesis by (simp add: respond_enter_def respond_locked_def)
qed

text \<open>A tool call that reaches its subscriber and is answered.\<close>

definition tool_request :: obj where
  "tool_request = [(''id'', JInt 7), (''method'', JStr ''item/tool/call'')]"

definition answering :: rpc_client where
  "answering =
     fold rpc_step [StartProcess, Subscribe 4, ReadLine (Some (JObj tool_request)),
       Respond (NumberId 7) [(''id'', JInt 7)], Enter 0, Acquire 0] new_client"

lemma answering_reachable: "rpc_reachable answering"
  by (auto simp: answering_def intro!: rpc_reachable.intros)

lemma answering_state:
  "rc_writers answering = [(0, NumberId 7)]" "rc_states answering = [(NumberId 7, 0)]"
  by (simp_all add: answering_def new_client_def rpc_step_def subscribe_def read_line_def route_message_def
      tool_request_def handle_server_request_def MODERN_APPROVAL_METHODS_def LEGACY_APPROVAL_METHODS_def
      OTHER_CLOSED_METHODS_def broadcast_def offer_def ask_def respond_enter_def respond_locked_def
      write_message_def lock_held_def Let_def)

theorem late_answers_dropped_witness:
  "respond_enter \<lparr>rs_id = NumberId 7, rs_state = None, rs_message = [(''id'', JInt 7)]\<rparr>
     (fold rpc_step [Subscribe 1] (respond_commit 0 (NumberId 7) answering)) =
   (Inr (), fold rpc_step [Subscribe 1] (respond_commit 0 (NumberId 7) answering))"
  by (rule late_answers_dropped [OF answering_reachable _ _ _ _ refl, THEN conjunct1])
    (simp_all add: answering_state MAX_RETIRED_SERVER_RESPONSE_IDS_def)

text \<open>A refusal: no shape of it approves anything.\<close>

definition refuses :: "json \<Rightarrow> obj \<Rightarrow> bool" where
  "refuses request_id r \<longleftrightarrow>
     jget r ''id'' = request_id \<and>
     (jget r ''result'' = JObj [(''decision'', JStr ''decline'')] \<or>
      (\<exists>why. jget r ''result'' = JObj [(''decision'', JObj [(''denied'', JObj [(''rejection'', JStr why)])])]) \<or>
      (jget r ''result'' = JNull \<and> (\<exists>code why. code < 0 \<and> jget r ''error'' = JObj [(''code'', JInt code), (''message'', JStr why)])))"

lemma refusal_entered:
  assumes "n < length (rc_asking t)" "rc_asking t ! n = \<lparr>rs_id = key, rs_state = None, rs_message = r\<rparr>"
    and "map_of (rc_states t) key = None" "key \<notin> set (rc_retired t)" "rc_running t"
  shows "rpc_step (Enter n) t = t\<lparr>rc_asking := take n (rc_asking t) @ drop (Suc n) (rc_asking t), rc_sent := rc_sent t @ [r]\<rparr>"
  using assms by (simp add: rpc_step_def respond_enter_def write_message_def)

text \<open>C32: The bridge fails closed on the server's requests. Any request other than a dynamic tool call -
  command execution, file changes, permissions, user input, token refresh, or a method the code has never heard
  of - reaches no subscriber and creates no response state; one coroutine is started for it, with a message that
  refuses it. When that coroutine runs, it writes this message to the process and nothing else, once, and ends -
  if the process runs, and the identifier is neither that of a tool call still unanswered nor retired again by the
  answer of one meanwhile.\<close>
theorem server_requests_fail_closed:
  assumes "jget m ''method'' = JStr name" "name \<noteq> ''item/tool/call''"
    and "jget m ''id'' \<noteq> JNull" "rpc_id_of (jget m ''id'') = Inr key"
  shows "\<exists>r. refuses (jget m ''id'') r
    \<and> route_message m s = (Inr (), s\<lparr>rc_retired := removeAll key (rc_retired s),
        rc_asking := rc_asking s @ [\<lparr>rs_id = key, rs_state = None, rs_message = r\<rparr>]\<rparr>)
    \<and> (\<forall>t n. n < length (rc_asking t) \<and> rc_asking t ! n = \<lparr>rs_id = key, rs_state = None, rs_message = r\<rparr>
         \<and> map_of (rc_states t) key = None \<and> key \<notin> set (rc_retired t) \<and> rc_running t \<longrightarrow>
         rpc_step (Enter n) t =
           t\<lparr>rc_asking := take n (rc_asking t) @ drop (Suc n) (rc_asking t), rc_sent := rc_sent t @ [r]\<rparr>)"
proof -
  have route: "route_message m s = (Inr (), handle_server_request key (jget m ''id'') name m s)"
    using assms(1,3,4) by (cases "jget m ''id''") (simp_all add: route_message_def)
  let ?s0 = "s\<lparr>rc_retired := removeAll key (rc_retired s)\<rparr>"
  let ?id = "jget m ''id''"
  have r: "refuses ?id (result_response ?id [(''decision'', JStr ''decline'')])"
    "refuses ?id (result_response ?id [(''decision'', JObj [(''denied'', JObj [(''rejection'', JStr why)])])])"
    "code < 0 \<Longrightarrow> refuses ?id (error_response ?id code why None)" for why code
    by (auto simp: refuses_def result_response_def error_response_def)
  have "\<exists>r. refuses ?id r \<and> handle_server_request key ?id name m s = ask key None r ?s0"
  proof (cases "name \<in> set MODERN_APPROVAL_METHODS")
    case True
    then show ?thesis using r(1) by (auto simp: handle_server_request_def Let_def)
  next
    case modern: False
    show ?thesis
    proof (cases "name \<in> set LEGACY_APPROVAL_METHODS")
      case True
      then show ?thesis using modern r(2) by (auto simp: handle_server_request_def Let_def)
    next
      case legacy: False
      show ?thesis
      proof (cases "name \<in> set OTHER_CLOSED_METHODS")
        case True
        then show ?thesis using modern legacy r(3) [of "- 32000"] by (auto simp: handle_server_request_def Let_def)
      next
        case False
        then have "handle_server_request key ?id name m s =
            ask key None (error_response ?id (- 32601) (''Unsupported server request: '' @ name) None) ?s0"
          using modern legacy assms(2) by (simp add: handle_server_request_def Let_def)
        then show ?thesis using r(3) [of "- 32601"] by fastforce
      qed
    qed
  qed
  then obtain r' where "refuses ?id r'" "handle_server_request key ?id name m s = ask key None r' ?s0" by blast
  then show ?thesis by (intro exI [of _ r']) (simp add: route ask_def refusal_entered)
qed

text \<open>An approval request that is refused on the wire.\<close>

definition sample_approval :: obj where
  "sample_approval = [(''id'', JInt 3), (''method'', JStr ''execCommandApproval'')]"

theorem server_requests_fail_closed_witness:
  "\<exists>r. refuses (JInt 3) r \<and>
    rc_sent (rpc_step (Enter 0) (snd (route_message sample_approval (rpc_step StartProcess new_client)))) = [r]"
proof -
  have m: "jget sample_approval ''method'' = JStr ''execCommandApproval''" "jget sample_approval ''id'' = JInt 3"
    by (simp_all add: sample_approval_def jget_def)
  define u where "u = rpc_step StartProcess new_client"
  have u: "rc_asking u = []" "rc_states u = []" "rc_retired u = []" "rc_running u" "rc_sent u = []"
    by (simp_all add: u_def rpc_step_def new_client_def)
  obtain r where r: "refuses (JInt 3) r"
    "route_message sample_approval u = (Inr (), u\<lparr>rc_retired := removeAll (NumberId 3) (rc_retired u),
       rc_asking := rc_asking u @ [\<lparr>rs_id = NumberId 3, rs_state = None, rs_message = r\<rparr>]\<rparr>)"
    "\<And>t n. n < length (rc_asking t) \<Longrightarrow> rc_asking t ! n = \<lparr>rs_id = NumberId 3, rs_state = None, rs_message = r\<rparr> \<Longrightarrow>
       map_of (rc_states t) (NumberId 3) = None \<Longrightarrow> NumberId 3 \<notin> set (rc_retired t) \<Longrightarrow> rc_running t \<Longrightarrow>
       rpc_step (Enter n) t = t\<lparr>rc_asking := take n (rc_asking t) @ drop (Suc n) (rc_asking t), rc_sent := rc_sent t @ [r]\<rparr>"
    using server_requests_fail_closed [of sample_approval "''execCommandApproval''" "NumberId 3" u] m by auto
  have "rc_sent (rpc_step (Enter 0) (snd (route_message sample_approval u))) = [r]"
    unfolding r(2) by (subst r(3)) (simp_all add: u)
  with r(1) show ?thesis unfolding u_def by blast
qed

text \<open>A response reaches exactly the request it names. A message with the identifier of a waiting request
  settles that request's future and no other, with the result or the error it carries, so the caller returns
  that result or raises; a second response to it changes nothing.\<close>
theorem response_reaches_its_request:
  assumes "rpc_reachable s" "map_of (rc_pending s) key = Some f" "rc_futures s f = Waits"
    and "text_of (jget m ''method'') = None" "jget m ''id'' \<noteq> JNull" "rpc_id_of (jget m ''id'') = Inr key"
    and "t = snd (route_message m s)"
  shows "fst (call_end name key f late t) =
      (if has_key m ''error'' then Inl (RpcError name)
       else if has_key m ''result'' then Inr (jget m ''result'')
       else Inl (ProtocolError ''JSON-RPC response has no result or error'')) \<and>
    (\<forall>key1 f1. key1 \<noteq> key \<longrightarrow> map_of (rc_pending s) key1 = Some f1 \<longrightarrow>
       map_of (rc_pending t) key1 = Some f1 \<and> rc_futures t f1 = rc_futures s f1) \<and>
    snd (route_message m t) = t"
proof -
  have t: "t = deliver_response key m s"
    using assms(4-7) by (cases "jget m ''id''") (simp_all add: route_message_def)
  have again: "snd (route_message m t) = deliver_response key m t"
    using assms(4-6) by (cases "jget m ''id''") (simp_all add: route_message_def)
  have inj: "f1 \<noteq> f" if "key1 \<noteq> key" "map_of (rc_pending s) key1 = Some f1" for key1 f1
  proof
    assume "f1 = f"
    then have "(key1, f) \<in> set (rc_pending s)" "(key, f) \<in> set (rc_pending s)"
      using that(2) assms(2) by (auto dest: map_of_SomeD)
    moreover have "inj_on snd (set (rc_pending s))"
      using rpc_reachable_inv [OF assms(1)] unfolding rpc_inv_def calls_ok_def distinct_map by blast
    ultimately have "(key1, f) = (key, f)" by (elim inj_onD) simp_all
    then show False using that(1) by simp
  qed
  show ?thesis
    using assms(2,3) inj unfolding again
    by (auto simp: t deliver_response_def settle_def call_end_def Let_def)
qed

theorem response_reaches_its_request_witness:
  "fst (call_end ''account/read'' (NumberId 1) 0 False
     (snd (route_message [(''id'', JInt 1), (''result'', JStr ''ok'')]
       (rpc_step (CallStart ''account/read'' []) (rpc_step StartProcess new_client))))) = Inr (JStr ''ok'')"
proof -
  let ?s = "rpc_step (CallStart ''account/read'' []) (rpc_step StartProcess new_client)"
  have "rpc_reachable ?s" by (intro rpc_reachable.intros)
  moreover have "map_of (rc_pending ?s) (NumberId 1) = Some 0" "rc_futures ?s 0 = Waits"
    by (simp_all add: rpc_step_def call_start_def new_client_def write_message_def Let_def)
  ultimately show ?thesis
    using response_reaches_its_request [OF _ _ _ _ _ _ refl, of ?s "NumberId 1" 0
        "[(''id'', JInt 1), (''result'', JStr ''ok'')]" "''account/read''" False] by (simp add: has_key_def)
qed

text \<open>\<open>w\<close> sits in \<open>v\<close> along dictionary values only.\<close>

inductive nested_in :: "json \<Rightarrow> json \<Rightarrow> bool" where
  here: "nested_in v v"
| there: "(key, u) \<in> set m \<Longrightarrow> nested_in w u \<Longrightarrow> nested_in w (JObj m)"

definition mcp_entry :: "string \<Rightarrow> json \<Rightarrow> bool" where
  "mcp_entry key u \<longleftrightarrow> (key = ''mcp_servers'' \<or> key = ''mcpServers'') \<and> truthy u"

definition mcp_within :: "json \<Rightarrow> bool" where
  "mcp_within v \<longleftrightarrow> (\<exists>m key u. nested_in (JObj m) v \<and> (key, u) \<in> set m \<and> mcp_entry key u)"

lemma any_mcp_iff:
  "any_configured_mcp m \<longleftrightarrow> (\<exists>(key, u) \<in> set m. mcp_entry key u \<or> contains_configured_mcp u)"
  by (induction m) (auto simp: mcp_entry_def)

lemma mcp_within_here: "(key, u) \<in> set m \<Longrightarrow> mcp_entry key u \<Longrightarrow> mcp_within (JObj m)"
  unfolding mcp_within_def using nested_in.here by blast

lemma mcp_within_there: "(key, u) \<in> set m \<Longrightarrow> mcp_within u \<Longrightarrow> mcp_within (JObj m)"
  unfolding mcp_within_def using nested_in.there by blast

lemma mcp_within_more: "mcp_within (JObj m) \<Longrightarrow> mcp_within (JObj (p # m))"
  unfolding mcp_within_def by (force elim: nested_in.cases intro: nested_in.intros)

lemma contains_mcp_sound:
  "contains_configured_mcp v \<Longrightarrow> mcp_within v"
  "any_configured_mcp m \<Longrightarrow> mcp_within (JObj m)"
proof (induction v and m rule: contains_configured_mcp_any_configured_mcp.induct)
  case (4 key nested m)
  then consider "mcp_entry key nested" | "contains_configured_mcp nested" | "any_configured_mcp m"
    by (auto simp: mcp_entry_def)
  then show ?case
  proof cases
    case 1
    then show ?thesis by (rule mcp_within_here [rotated]) simp
  next
    case 2
    then show ?thesis using 4(1) mcp_within_there [of key nested "(key, nested) # m"] by simp
  next
    case 3
    then show ?thesis using 4(2) mcp_within_more by blast
  qed
qed simp_all

lemma contains_mcp_complete: "nested_in w v \<Longrightarrow> contains_configured_mcp w \<Longrightarrow> contains_configured_mcp v"
  by (induction rule: nested_in.induct) (auto simp: any_mcp_iff)

text \<open>Startup is denied exactly when a configuration layer configures an MCP server: the check passes if and
  only if the response lists its layers and no layer's configuration has, at any depth of nested tables, an
  \<^verbatim>\<open>mcp_servers\<close> or \<^verbatim>\<open>mcpServers\<close> entry that is not empty.\<close>
theorem mcp_denied_iff:
  "assert_no_configured_mcp_servers response = Inr () \<longleftrightarrow>
     (\<exists>r layers. response = JObj r \<and> jget r ''layers'' = JArr layers \<and>
        \<not> (\<exists>layer \<in> set layers. \<exists>m key u. nested_in (JObj m) (layer_config layer) \<and> (key, u) \<in> set m \<and>
             (key = ''mcp_servers'' \<or> key = ''mcpServers'') \<and> truthy u))"
proof -
  have "contains_configured_mcp v \<longleftrightarrow> mcp_within v" for v
    using contains_mcp_sound(1) [of v] contains_mcp_complete [of _ v] unfolding mcp_within_def
    by (metis any_mcp_iff case_prodI contains_configured_mcp.simps(1))
  then show ?thesis
    by (cases response) (auto simp: assert_no_configured_mcp_servers_def list_ex_iff mcp_within_def mcp_entry_def split: option.splits)
qed

end
