(* ===== verification/Py_Text.thy ===== *)
theory Py_Text
  imports Json
begin

text \<open>
  Python's \<^verbatim>\<open>str\<close> and \<^verbatim>\<open>repr\<close> of the values \<^verbatim>\<open>json.loads\<close> yields, and the two other
  serializers the bridge uses: \<^verbatim>\<open>json.dumps\<close> with \<^verbatim>\<open>ensure_ascii=False\<close> and with
  \<^verbatim>\<open>sort_keys=True\<close>. \<open>frepr\<close> is the JSON text of a float,
  \<^verbatim>\<open>float.__repr__\<close> when it is finite.
\<close>

section \<open>The text of a value\<close>

definition repr_char :: "char \<Rightarrow> char \<Rightarrow> string" where
  "repr_char q c =
     (if c = q \<or> ord_of c = 92 then [char_of (92::nat), c]
      else if ord_of c = 9 then [char_of (92::nat), CHR ''t'']
      else if ord_of c = 10 then [char_of (92::nat), CHR ''n'']
      else if ord_of c = 13 then [char_of (92::nat), CHR ''r'']
      else if is_printable c then [c]
      else [char_of (92::nat), CHR ''x'', hex_digit (ord_of c div 16), hex_digit (ord_of c mod 16)])"

definition repr_text :: "string \<Rightarrow> string" where
  "repr_text s =
     (let q = (if CHR 0x27 \<in> set s \<and> CHR 0x22 \<notin> set s then CHR 0x22 else CHR 0x27)
      in [q] @ concat (map (repr_char q) s) @ [q])"

function py_repr :: "(pyfloat \<Rightarrow> string) \<Rightarrow> json \<Rightarrow> string" where
  "py_repr frepr JNull = ''None''"
| "py_repr frepr (JBool b) = (if b then ''True'' else ''False'')"
| "py_repr frepr (JInt i) = int_text i"
| "py_repr frepr (JFloat f) =
     (case f of Finite q \<Rightarrow> frepr f | NaN \<Rightarrow> ''nan'' | PosInf \<Rightarrow> ''inf'' | NegInf \<Rightarrow> ''-inf'')"
| "py_repr frepr (JStr s) = repr_text s"
| "py_repr frepr (JArr vs) = ''['' @ join_with '', '' (map (py_repr frepr) vs) @ '']''"
| "py_repr frepr (JObj m) =
     ''{'' @ join_with '', '' (map (\<lambda>p. repr_text (fst p) @ '': '' @ py_repr frepr (snd p)) m) @ ''}''"
  by pat_completeness auto
termination
proof (relation "measure (\<lambda>(_, j). size j)", goal_cases)
  case (2 frepr vs v)
  then show ?case by (simp add: size_list_estimation' less_Suc_eq_le)
next
  case (3 frepr m p)
  then show ?case using size_dict_value [of "fst p" "snd p" m] by simp
qed simp

definition py_str :: "(pyfloat \<Rightarrow> string) \<Rightarrow> json \<Rightarrow> string" where
  "py_str frepr v = (case v of JStr s \<Rightarrow> s | _ \<Rightarrow> py_repr frepr v)"

lemma py_str_text [simp]: "py_str frepr (JStr s) = s"
  by (simp add: py_str_def)

section \<open>Serializers\<close>

text \<open>\<^verbatim>\<open>ensure_ascii=False\<close> leaves every character from 32 on as it is, but the quote and the backslash.\<close>

definition raw_escape :: "char \<Rightarrow> string" where
  "raw_escape c = (if 32 \<le> ord_of c \<and> ord_of c \<noteq> 34 \<and> ord_of c \<noteq> 92 then [c] else escape_char c)"

definition quote_raw :: "string \<Rightarrow> string" where
  "quote_raw s = [char_of (34::nat)] @ concat (map raw_escape s) @ [char_of (34::nat)]"

function dumps_raw :: "(pyfloat \<Rightarrow> string) \<Rightarrow> json \<Rightarrow> string" where
  "dumps_raw frepr JNull = ''null''"
| "dumps_raw frepr (JBool b) = (if b then ''true'' else ''false'')"
| "dumps_raw frepr (JInt i) = int_text i"
| "dumps_raw frepr (JFloat f) = frepr f"
| "dumps_raw frepr (JStr s) = quote_raw s"
| "dumps_raw frepr (JArr vs) = ''['' @ join_with '','' (map (dumps_raw frepr) vs) @ '']''"
| "dumps_raw frepr (JObj m) =
     ''{'' @ join_with '','' (map (\<lambda>p. quote_raw (fst p) @ '':'' @ dumps_raw frepr (snd p)) m) @ ''}''"
  by pat_completeness auto
termination
proof (relation "measure (\<lambda>(_, j). size j)", goal_cases)
  case (2 frepr vs v)
  then show ?case by (simp add: size_list_estimation' less_Suc_eq_le)
next
  case (3 frepr m p)
  then show ?case using size_dict_value [of "fst p" "snd p" m] by simp
qed simp

text \<open>\<^verbatim>\<open>sort_keys=True\<close>: the items of every dictionary by their key, code point by code point.\<close>

fun text_less :: "string \<Rightarrow> string \<Rightarrow> bool" where
  "text_less s [] = False"
| "text_less [] (c # cs) = True"
| "text_less (a # s) (b # t) = (ord_of a < ord_of b \<or> (a = b \<and> text_less s t))"

fun insert_item :: "string \<times> 'a \<Rightarrow> (string \<times> 'a) list \<Rightarrow> (string \<times> 'a) list" where
  "insert_item p [] = [p]"
| "insert_item p (q # m) = (if text_less (fst q) (fst p) then q # insert_item p m else p # q # m)"

definition sort_items :: "(string \<times> 'a) list \<Rightarrow> (string \<times> 'a) list" where
  "sort_items m = foldr insert_item m []"

function sort_keys :: "json \<Rightarrow> json" where
  "sort_keys (JArr vs) = JArr (map sort_keys vs)"
| "sort_keys (JObj m) = JObj (sort_items (map (\<lambda>p. (fst p, sort_keys (snd p))) m))"
| "sort_keys JNull = JNull"
| "sort_keys (JBool b) = JBool b"
| "sort_keys (JInt i) = JInt i"
| "sort_keys (JFloat f) = JFloat f"
| "sort_keys (JStr s) = JStr s"
  by pat_completeness auto
termination
proof (relation "measure size", goal_cases)
  case (2 vs v)
  then show ?case by (simp add: size_list_estimation' less_Suc_eq_le)
next
  case (3 m p)
  then show ?case using size_dict_value [of "fst p" "snd p" m] by simp
qed simp

end
