(* ===== verification/Conversations.thy ===== *)
theory Conversations
  imports Conversation_Payload
begin

text \<open>
  The conversation cache of \<^verbatim>\<open>BridgeState\<close> in \<^verbatim>\<open>bridge/service.py\<close> and the turn states
  that conversation sockets share with it. A turn state is an address, because an entry and every socket of
  its conversation hold the same object. \<^verbatim>\<open>conversation_thread\<close> is cut at its suspension points
  under the conversation lock; the remaining coroutine is \<open>cv_phase\<close>. The sockets' turns and ends interleave
  freely with it. The identifiers \<^verbatim>\<open>thread/start\<close> returns are new ones.
\<close>

section \<open>State\<close>

definition MAX_CONVERSATIONS :: nat where "MAX_CONVERSATIONS = 128"
definition CONVERSATION_TTL :: rat where "CONVERSATION_TTL = 60 * 60"

text \<open>\<open>tn_lock\<close> is the socket whose turn is inside the turn lock.\<close>

record turn_state =
  tn_lock :: "nat option"
  tn_owner :: "nat option"
  tn_pending :: "nat option"
  tn_retired :: bool

definition new_turn_state :: turn_state where
  "new_turn_state = \<lparr>tn_lock = None, tn_owner = None, tn_pending = None, tn_retired = False\<rparr>"

definition turn_busy :: "turn_state \<Rightarrow> bool" where
  "turn_busy ts \<longleftrightarrow> tn_pending ts \<noteq> None \<or> tn_owner ts \<noteq> None \<or> tn_lock ts \<noteq> None"

record conversation_entry =
  ce_thread :: string
  ce_fingerprint :: string
  ce_last_used :: rat
  ce_turn :: nat

record conversation_request =
  rq_key :: string
  rq_fingerprint :: string

text \<open>Where the coroutine that holds the conversation lock is suspended.\<close>

datatype cache_phase =
    Pruning "string list" conversation_request
  | Replacing conversation_request
  | Starting conversation_request
  | Rejecting py_error

text \<open>A socket and its turn task, until the task has given up its turn.\<close>

datatype turn_task = NoTask | TaskWaiting | TaskRunning | TaskFailed

record conversation_socket =
  sk_thread :: string
  sk_turn :: nat
  sk_key :: "string option"
  sk_persistent :: bool
  sk_task :: turn_task
  sk_closing :: bool
  sk_open :: bool

record conversations =
  cv_entries :: "(string \<times> conversation_entry) list"
  cv_turns :: "nat \<Rightarrow> turn_state"
  cv_next_turn :: nat
  cv_phase :: "cache_phase option"
  cv_disposed :: "string list"
  cv_started :: "string list"
  cv_sockets :: "nat \<Rightarrow> conversation_socket option"
  cv_next_socket :: nat

definition new_conversations :: conversations where
  "new_conversations =
     \<lparr>cv_entries = [], cv_turns = (\<lambda>_. new_turn_state), cv_next_turn = 0, cv_phase = None,
      cv_disposed = [], cv_started = [], cv_sockets = (\<lambda>_. None), cv_next_socket = 0\<rparr>"

section \<open>The request\<close>

text \<open>The start of \<^verbatim>\<open>conversation_thread\<close>: \<open>None\<close> is a conversation without identifier.\<close>

definition conversation_request_of :: "(pyfloat \<Rightarrow> string) \<Rightarrow> obj \<Rightarrow> conversation_request option result" where
  "conversation_request_of frepr payload =
     bind_result
       (if has_key payload ''service_tier'' then app_server_service_tier (jget payload ''service_tier'') else Inr None)
       (\<lambda>_. case jget payload ''conversation_id'' of
          JStr key \<Rightarrow>
            if key = [] then Inr None
            else bind_result (normalize_dynamic_tools frepr (jget payload ''tools''))
              (\<lambda>tools. Inr (Some \<lparr>rq_key = key, rq_fingerprint = tools_fingerprint frepr tools\<rparr>))
        | _ \<Rightarrow> Inr None)"

section \<open>Threads and entries\<close>

definition dispose_thread :: "string \<Rightarrow> conversations \<Rightarrow> conversations" where
  "dispose_thread t s = s\<lparr>cv_disposed := cv_disposed s @ [t]\<rparr>"

definition set_turn :: "nat \<Rightarrow> turn_state \<Rightarrow> conversations \<Rightarrow> conversations" where
  "set_turn k ts s = s\<lparr>cv_turns := (cv_turns s)(k := ts)\<rparr>"

definition retire_turn :: "nat \<Rightarrow> conversations \<Rightarrow> conversations" where
  "retire_turn k s = set_turn k ((cv_turns s k)\<lparr>tn_retired := True\<rparr>) s"

definition evict_entry :: "string \<Rightarrow> conversation_entry \<Rightarrow> conversations \<Rightarrow> conversations" where
  "evict_entry key e s =
     dispose_thread (ce_thread e) (retire_turn (ce_turn e) (s\<lparr>cv_entries := dict_pop (cv_entries s) key\<rparr>))"

definition open_socket ::
    "string \<Rightarrow> nat \<Rightarrow> string option \<Rightarrow> bool \<Rightarrow> conversations \<Rightarrow> conversations" where
  "open_socket t k key persistent s =
     s\<lparr>cv_sockets := (cv_sockets s)(cv_next_socket s \<mapsto>
         \<lparr>sk_thread = t, sk_turn = k, sk_key = key, sk_persistent = persistent, sk_task = NoTask,
          sk_closing = False, sk_open = True\<rparr>),
       cv_next_socket := cv_next_socket s + 1\<rparr>"

section \<open>Pruning\<close>

definition expired_keys :: "rat \<Rightarrow> conversations \<Rightarrow> string list" where
  "expired_keys now s =
     map fst (filter (\<lambda>p. CONVERSATION_TTL < now - ce_last_used (snd p) \<and>
       \<not> turn_busy (cv_turns s (ce_turn (snd p)))) (cv_entries s))"

fun evict_idle ::
    "(nat \<Rightarrow> turn_state) \<Rightarrow> string list \<Rightarrow> nat \<Rightarrow> (string \<times> conversation_entry) list \<Rightarrow> string list" where
  "evict_idle turns expired active [] = expired"
| "evict_idle turns expired active ((key, e) # m) =
     (if key \<in> set expired \<or> turn_busy (turns (ce_turn e)) then evict_idle turns expired active m
      else if active - 1 < MAX_CONVERSATIONS then expired @ [key]
      else evict_idle turns (expired @ [key]) (active - 1) m)"

definition prune_plan :: "rat \<Rightarrow> conversations \<Rightarrow> string list" where
  "prune_plan now s =
     (let expired = expired_keys now s;
          active = length (cv_entries s) - length expired
      in if MAX_CONVERSATIONS \<le> active then evict_idle (cv_turns s) expired active (cv_entries s) else expired)"

section \<open>The coroutine under the conversation lock\<close>

text \<open>It suspends in a disposal or in \<^verbatim>\<open>thread/start\<close>, grants a socket its thread, or raises.\<close>

datatype cache_outcome = Suspended | Granted nat bool | Raised py_error

definition reserve :: "conversation_request \<Rightarrow> conversations \<Rightarrow> cache_outcome \<times> conversations" where
  "reserve rq s =
     (if MAX_CONVERSATIONS \<le> length (cv_entries s)
      then (Raised (ProtocolError ''conversation cache is busy; retry after an active turn finishes''),
            s\<lparr>cv_phase := None\<rparr>)
      else (Suspended, s\<lparr>cv_phase := Some (Starting rq)\<rparr>))"

definition find_conversation ::
    "rat \<Rightarrow> conversation_request \<Rightarrow> conversations \<Rightarrow> cache_outcome \<times> conversations" where
  "find_conversation now rq s =
     (case map_of (cv_entries s) (rq_key rq) of
        None \<Rightarrow> reserve rq s
      | Some e \<Rightarrow>
          if \<not> tn_retired (cv_turns s (ce_turn e)) \<and> ce_fingerprint e = rq_fingerprint rq
          then (Granted (cv_next_socket s) False,
                open_socket (ce_thread e) (ce_turn e) (Some (rq_key rq)) True
                  (s\<lparr>cv_entries := move_to_end (dict_set (cv_entries s) (rq_key rq) (e\<lparr>ce_last_used := now\<rparr>)) (rq_key rq),
                     cv_phase := None\<rparr>))
          else if turn_busy (cv_turns s (ce_turn e))
          then (Raised (ProtocolError ''conversation tools cannot change while a turn is in progress''),
                s\<lparr>cv_phase := None\<rparr>)
          else (Suspended, (evict_entry (rq_key rq) e s)\<lparr>cv_phase := Some (Replacing rq)\<rparr>))"

fun prune_from ::
    "string list \<Rightarrow> rat \<Rightarrow> conversation_request \<Rightarrow> conversations \<Rightarrow> cache_outcome \<times> conversations" where
  "prune_from [] now rq s = find_conversation now rq s"
| "prune_from (key # keys) now rq s =
     (case map_of (cv_entries s) key of
        None \<Rightarrow> prune_from keys now rq s
      | Some e \<Rightarrow> (Suspended, (evict_entry key e s)\<lparr>cv_phase := Some (Pruning keys rq)\<rparr>))"

definition ask_thread :: "conversation_request \<Rightarrow> rat \<Rightarrow> conversations \<Rightarrow> cache_outcome \<times> conversations" where
  "ask_thread rq now s = prune_from (prune_plan now s) now rq s"

text \<open>A disposal returned.\<close>

definition resume_ask :: "rat \<Rightarrow> conversations \<Rightarrow> cache_outcome \<times> conversations" where
  "resume_ask now s =
     (case cv_phase s of
        Some (Pruning keys rq) \<Rightarrow> prune_from keys now rq s
      | Some (Replacing rq) \<Rightarrow> reserve rq s
      | Some (Rejecting e) \<Rightarrow> (Raised e, s\<lparr>cv_phase := None\<rparr>)
      | _ \<Rightarrow> (Suspended, s))"

text \<open>The end of \<^verbatim>\<open>start_thread\<close>: the identifier, and whether its settings were refused.\<close>

definition check_started :: "string \<Rightarrow> json \<Rightarrow> (string \<times> py_error option) result" where
  "check_started profile response =
     bind_result (started_thread_id response) (\<lambda>t.
       Inr (t, case response of
          JObj r \<Rightarrow> (case validate_started_thread r profile of Inl e \<Rightarrow> Some e | Inr _ \<Rightarrow> None)
        | _ \<Rightarrow> None))"

definition thread_started ::
    "string \<Rightarrow> json \<Rightarrow> rat \<Rightarrow> conversation_request \<Rightarrow> conversations \<Rightarrow> cache_outcome \<times> conversations" where
  "thread_started profile response now rq s =
     (case check_started profile response of
        Inl e \<Rightarrow> (Raised e, s\<lparr>cv_phase := None\<rparr>)
      | Inr (t, Some e) \<Rightarrow>
          (Suspended, dispose_thread t (s\<lparr>cv_started := t # cv_started s, cv_phase := Some (Rejecting e)\<rparr>))
      | Inr (t, None) \<Rightarrow>
          let k = cv_next_turn s in
          (Granted (cv_next_socket s) True,
           open_socket t k (Some (rq_key rq)) True
             (set_turn k new_turn_state
               (s\<lparr>cv_started := t # cv_started s, cv_phase := None, cv_next_turn := k + 1,
                  cv_entries := dict_set (cv_entries s) (rq_key rq)
                    \<lparr>ce_thread = t, ce_fingerprint = rq_fingerprint rq, ce_last_used = now, ce_turn = k\<rparr>\<rparr>))))"

text \<open>A conversation without identifier owns its thread and its turn state alone.\<close>

definition start_unnamed :: "string \<Rightarrow> json \<Rightarrow> conversations \<Rightarrow> cache_outcome \<times> conversations" where
  "start_unnamed profile response s =
     (case check_started profile response of
        Inl e \<Rightarrow> (Raised e, s)
      | Inr (t, Some e) \<Rightarrow> (Raised e, dispose_thread t (s\<lparr>cv_started := t # cv_started s\<rparr>))
      | Inr (t, None) \<Rightarrow>
          let k = cv_next_turn s in
          (Granted (cv_next_socket s) True,
           open_socket t k None False
             (set_turn k new_turn_state (s\<lparr>cv_started := t # cv_started s, cv_next_turn := k + 1\<rparr>))))"

section \<open>Turns\<close>

definition set_task :: "nat \<Rightarrow> conversation_socket \<Rightarrow> turn_task \<Rightarrow> conversations \<Rightarrow> conversations" where
  "set_task so sk task s = s\<lparr>cv_sockets := (cv_sockets s)(so \<mapsto> sk\<lparr>sk_task := task\<rparr>)\<rparr>"

definition clear_pending :: "nat \<Rightarrow> nat \<Rightarrow> conversations \<Rightarrow> conversations" where
  "clear_pending so k s =
     (if tn_pending (cv_turns s k) = Some so then set_turn k ((cv_turns s k)\<lparr>tn_pending := None\<rparr>) s else s)"

text \<open>Leaving the turn lock: the owner is cleared first.\<close>

definition leave_turn :: "nat \<Rightarrow> nat \<Rightarrow> conversations \<Rightarrow> conversations" where
  "leave_turn so k s =
     (let ts = cv_turns s k;
          ts1 = (if tn_owner ts = Some so then ts\<lparr>tn_owner := None\<rparr> else ts)
      in set_turn k (if tn_lock ts1 = Some so then ts1\<lparr>tn_lock := None\<rparr> else ts1) s)"

definition conversation_error :: "string \<Rightarrow> string \<Rightarrow> obj" where
  "conversation_error code message =
     [(''type'', JStr ''error''), (''code'', JStr code), (''error'', JStr message)]"

definition schedule_turn :: "nat \<Rightarrow> conversation_socket \<Rightarrow> conversations \<Rightarrow> obj option \<times> conversations" where
  "schedule_turn so sk s =
     (let ts = cv_turns s (sk_turn sk) in
      if tn_retired ts
      then (Some (conversation_error ''conversation_retired'' ''conversation thread was retired; reconnect to continue''), s)
      else if tn_pending ts \<noteq> None
      then (Some (conversation_error ''busy'' ''a conversation turn is already in progress''), s)
      else (None, set_task so sk TaskWaiting (set_turn (sk_turn sk) (ts\<lparr>tn_pending := Some so\<rparr>) s)))"

text \<open>The turn lock was acquired. A retired conversation raises, which retires it again.\<close>

definition begin_turn :: "nat \<Rightarrow> conversation_socket \<Rightarrow> conversations \<Rightarrow> conversations" where
  "begin_turn so sk s =
     (let ts = cv_turns s (sk_turn sk) in
      if tn_retired ts then set_task so sk TaskFailed s
      else set_task so sk TaskRunning (set_turn (sk_turn sk) (ts\<lparr>tn_lock := Some so, tn_owner := Some so\<rparr>) s))"

definition finish_turn :: "nat \<Rightarrow> conversation_socket \<Rightarrow> conversations \<Rightarrow> conversations" where
  "finish_turn so sk s = set_task so sk NoTask (clear_pending so (sk_turn sk) (leave_turn so (sk_turn sk) s))"

definition fail_turn :: "nat \<Rightarrow> conversation_socket \<Rightarrow> conversations \<Rightarrow> conversations" where
  "fail_turn so sk s = set_task so sk TaskFailed (retire_turn (sk_turn sk) (leave_turn so (sk_turn sk) s))"

definition settle_turn :: "nat \<Rightarrow> conversation_socket \<Rightarrow> conversations \<Rightarrow> conversations" where
  "settle_turn so sk s = set_task so sk NoTask (clear_pending so (sk_turn sk) s)"

text \<open>\<^verbatim>\<open>retire_conversation\<close> once it has the conversation lock.\<close>

definition retire_evict :: "conversation_socket \<Rightarrow> conversations \<Rightarrow> conversations" where
  "retire_evict sk s =
     (case sk_key sk of
        None \<Rightarrow> s
      | Some key \<Rightarrow>
          (case map_of (cv_entries s) key of
             None \<Rightarrow> s
           | Some e \<Rightarrow>
               if ce_thread e = sk_thread sk \<and> ce_turn e = sk_turn sk
               then dispose_thread (ce_thread e) (s\<lparr>cv_entries := dict_pop (cv_entries s) key\<rparr>)
               else s))"

section \<open>The end of a socket\<close>

definition close_mark :: "nat \<Rightarrow> conversation_socket \<Rightarrow> conversations \<Rightarrow> conversations" where
  "close_mark so sk s =
     (if tn_pending (cv_turns s (sk_turn sk)) = Some so then retire_turn (sk_turn sk) s else s)
       \<lparr>cv_sockets := (cv_sockets s)(so \<mapsto> sk\<lparr>sk_closing := True\<rparr>)\<rparr>"

text \<open>The cancelled turn task runs its \<^verbatim>\<open>finally\<close> clauses.\<close>

definition close_cancel :: "nat \<Rightarrow> conversation_socket \<Rightarrow> conversations \<Rightarrow> conversations" where
  "close_cancel so sk s =
     set_task so sk NoTask (clear_pending so (sk_turn sk)
       (if sk_task sk = TaskRunning then leave_turn so (sk_turn sk) s else s))"

definition close_end :: "nat \<Rightarrow> conversation_socket \<Rightarrow> conversations \<Rightarrow> conversations" where
  "close_end so sk s =
     (let s1 = (clear_pending so (sk_turn sk) s)\<lparr>cv_sockets := (cv_sockets s)(so \<mapsto> sk\<lparr>sk_open := False\<rparr>)\<rparr>
      in if sk_persistent sk then s1 else dispose_thread (sk_thread sk) s1)"

section \<open>Every interleaving\<close>

datatype conversation_event =
    AskThread conversation_request rat
  | ResumeAsk rat
  | ThreadStarted json rat
  | StartFailed
  | CancelAsk
  | AskUnnamed json
  | Schedule nat
  | Begin nat
  | Finish nat
  | Fail nat
  | Settle nat
  | Retire nat
  | Evict nat
  | CloseMark nat
  | CloseCancel nat
  | CloseEnd nat

text \<open>A response of \<^verbatim>\<open>thread/start\<close> never names a thread it named before.\<close>

definition fresh_thread :: "json \<Rightarrow> conversations \<Rightarrow> bool" where
  "fresh_thread response s =
     (case started_thread_id response of Inl _ \<Rightarrow> True | Inr t \<Rightarrow> t \<notin> set (cv_started s))"

definition with_socket ::
    "nat \<Rightarrow> (conversation_socket \<Rightarrow> bool) \<Rightarrow> (conversation_socket \<Rightarrow> conversations \<Rightarrow> conversations) \<Rightarrow>
     conversations \<Rightarrow> conversations" where
  "with_socket so guard f s =
     (case cv_sockets s so of
        None \<Rightarrow> s
      | Some sk \<Rightarrow> if sk_open sk \<and> guard sk then f sk s else s)"

definition conversation_step :: "string \<Rightarrow> conversation_event \<Rightarrow> conversations \<Rightarrow> conversations" where
  "conversation_step profile ev s =
     (case ev of
        AskThread rq now \<Rightarrow> if cv_phase s = None then snd (ask_thread rq now s) else s
      | ResumeAsk now \<Rightarrow> snd (resume_ask now s)
      | ThreadStarted response now \<Rightarrow>
          (case cv_phase s of
             Some (Starting rq) \<Rightarrow>
               if fresh_thread response s then snd (thread_started profile response now rq s) else s
           | _ \<Rightarrow> s)
      | StartFailed \<Rightarrow> (case cv_phase s of Some (Starting rq) \<Rightarrow> s\<lparr>cv_phase := None\<rparr> | _ \<Rightarrow> s)
      | CancelAsk \<Rightarrow> s\<lparr>cv_phase := None\<rparr>
      | AskUnnamed response \<Rightarrow> if fresh_thread response s then snd (start_unnamed profile response s) else s
      | Schedule so \<Rightarrow> with_socket so (\<lambda>sk. \<not> sk_closing sk) (\<lambda>sk s. snd (schedule_turn so sk s)) s
      | Begin so \<Rightarrow>
          with_socket so (\<lambda>sk. sk_task sk = TaskWaiting \<and> tn_lock (cv_turns s (sk_turn sk)) = None) (begin_turn so) s
      | Finish so \<Rightarrow> with_socket so (\<lambda>sk. sk_task sk = TaskRunning) (finish_turn so) s
      | Fail so \<Rightarrow> with_socket so (\<lambda>sk. sk_task sk = TaskRunning) (fail_turn so) s
      | Settle so \<Rightarrow> with_socket so (\<lambda>sk. sk_task sk = TaskFailed) (settle_turn so) s
      | Retire so \<Rightarrow> with_socket so (\<lambda>sk. True) (\<lambda>sk. retire_turn (sk_turn sk)) s
      | Evict so \<Rightarrow>
          with_socket so (\<lambda>sk. cv_phase s = None \<and> tn_retired (cv_turns s (sk_turn sk))) retire_evict s
      | CloseMark so \<Rightarrow> with_socket so (\<lambda>sk. \<not> sk_closing sk) (close_mark so) s
      | CloseCancel so \<Rightarrow> with_socket so sk_closing (close_cancel so) s
      | CloseEnd so \<Rightarrow> with_socket so (\<lambda>sk. sk_closing sk \<and> sk_task sk = NoTask) (close_end so) s)"

inductive conversation_reachable :: "string \<Rightarrow> conversations \<Rightarrow> bool" for profile where
  empty: "conversation_reachable profile new_conversations"
| stepped: "conversation_reachable profile s \<Longrightarrow> conversation_reachable profile (conversation_step profile ev s)"

end
