(* ===== verification/Conversation_Safety.thy ===== *)
theory Conversation_Safety
  imports Conversations
begin

text \<open>
  The invariant of the conversation cache and of the turns of its sockets over every interleaving, what
  pruning chooses, and the race between pruning and a turn that starts meanwhile. \<open>\<theta>\<close> names the
  thread of each turn state.
\<close>

section \<open>The invariant\<close>

definition entries_ok :: "(nat \<Rightarrow> string) \<Rightarrow> conversations \<Rightarrow> bool" where
  "entries_ok \<theta> s \<longleftrightarrow>
     distinct (map fst (cv_entries s)) \<and> inj_on (\<lambda>p. ce_turn (snd p)) (set (cv_entries s)) \<and>
     length (cv_entries s) \<le> MAX_CONVERSATIONS \<and>
     (\<forall>p \<in> set (cv_entries s). ce_turn (snd p) < cv_next_turn s \<and>
        ce_thread (snd p) = \<theta> (ce_turn (snd p)) \<and> ce_thread (snd p) \<notin> set (cv_disposed s))"

definition phase_ok :: "conversations \<Rightarrow> bool" where
  "phase_ok s \<longleftrightarrow>
     (\<forall>rq. cv_phase s = Some (Starting rq) \<longrightarrow>
        length (cv_entries s) < MAX_CONVERSATIONS \<and> rq_key rq \<notin> fst ` set (cv_entries s)) \<and>
     (\<forall>rq. cv_phase s = Some (Replacing rq) \<longrightarrow> rq_key rq \<notin> fst ` set (cv_entries s))"

definition settled :: "cache_phase option \<Rightarrow> bool" where
  "settled ph \<longleftrightarrow> (\<forall>rq. ph \<noteq> Some (Starting rq) \<and> ph \<noteq> Some (Replacing rq))"

lemma settled_simps [simp]:
  "settled None" "settled (Some (Pruning keys rq))" "settled (Some (Rejecting e))"
  by (simp_all add: settled_def)

definition threads_ok :: "(nat \<Rightarrow> string) \<Rightarrow> conversations \<Rightarrow> bool" where
  "threads_ok \<theta> s \<longleftrightarrow>
     inj_on \<theta> {..<cv_next_turn s} \<and> \<theta> ` {..<cv_next_turn s} \<subseteq> set (cv_started s) \<and>
     set (cv_disposed s) \<subseteq> set (cv_started s)"

definition socket_ok :: "(nat \<Rightarrow> string) \<Rightarrow> conversations \<Rightarrow> nat \<Rightarrow> conversation_socket \<Rightarrow> bool" where
  "socket_ok \<theta> s so sk \<longleftrightarrow>
     so < cv_next_socket s \<and> sk_turn sk < cv_next_turn s \<and> sk_thread sk = \<theta> (sk_turn sk) \<and>
     (\<not> sk_persistent sk \<longrightarrow>
        sk_turn sk \<notin> (\<lambda>p. ce_turn (snd p)) ` set (cv_entries s) \<and>
        (\<forall>so' sk'. cv_sockets s so' = Some sk' \<longrightarrow> sk_turn sk' = sk_turn sk \<longrightarrow> so' = so)) \<and>
     (sk_open sk \<and> sk_thread sk \<in> set (cv_disposed s) \<longrightarrow> tn_retired (cv_turns s (sk_turn sk)))"

definition sockets_ok :: "(nat \<Rightarrow> string) \<Rightarrow> conversations \<Rightarrow> bool" where
  "sockets_ok \<theta> s \<longleftrightarrow> (\<forall>so sk. cv_sockets s so = Some sk \<longrightarrow> socket_ok \<theta> s so sk)"

text \<open>The turn states against the tasks of the sockets.\<close>

definition turn_ok :: "turn_state \<Rightarrow> bool" where
  "turn_ok ts \<longleftrightarrow>
     (\<forall>so. tn_owner ts = Some so \<longrightarrow> tn_pending ts = Some so) \<and> tn_lock ts = tn_owner ts"

definition task_ok :: "nat \<Rightarrow> conversation_socket \<Rightarrow> turn_state \<Rightarrow> bool" where
  "task_ok so sk ts \<longleftrightarrow>
     (sk_task sk \<noteq> NoTask \<longleftrightarrow> tn_pending ts = Some so) \<and> (sk_task sk = TaskRunning \<longleftrightarrow> tn_owner ts = Some so) \<and>
     (sk_task sk \<noteq> NoTask \<longrightarrow> sk_open sk)"

definition turns_ok :: "conversations \<Rightarrow> bool" where
  "turns_ok s \<longleftrightarrow>
     (\<forall>k. turn_ok (cv_turns s k)) \<and>
     (\<forall>k so. tn_pending (cv_turns s k) = Some so \<longrightarrow> (\<exists>sk. cv_sockets s so = Some sk \<and> sk_turn sk = k)) \<and>
     (\<forall>so sk. cv_sockets s so = Some sk \<longrightarrow> task_ok so sk (cv_turns s (sk_turn sk)))"

definition conv_inv :: "(nat \<Rightarrow> string) \<Rightarrow> conversations \<Rightarrow> bool" where
  "conv_inv \<theta> s \<longleftrightarrow> entries_ok \<theta> s \<and> phase_ok s \<and> threads_ok \<theta> s \<and> sockets_ok \<theta> s \<and> turns_ok s"

lemmas conv_updates =
  dispose_thread_def set_turn_def retire_turn_def evict_entry_def open_socket_def set_task_def
  clear_pending_def leave_turn_def

lemma turn_ok_simps [simp]:
  "turn_ok new_turn_state" "turn_ok (ts\<lparr>tn_retired := b\<rparr>) = turn_ok ts"
  by (simp_all add: turn_ok_def new_turn_state_def)

lemma task_ok_retired [simp]: "task_ok so sk (ts\<lparr>tn_retired := b\<rparr>) = task_ok so sk ts"
  by (simp add: task_ok_def)

lemma new_conversations_inv: "conv_inv \<theta> new_conversations"
  by (simp add: conv_inv_def entries_ok_def phase_ok_def threads_ok_def sockets_ok_def turns_ok_def
      new_conversations_def)
    (simp add: new_turn_state_def)

section \<open>Steps that change no socket\<close>

lemma phase_frame [simp]:
  "entries_ok \<theta> (s\<lparr>cv_phase := ph\<rparr>) = entries_ok \<theta> s" "threads_ok \<theta> (s\<lparr>cv_phase := ph\<rparr>) = threads_ok \<theta> s"
  "sockets_ok \<theta> (s\<lparr>cv_phase := ph\<rparr>) = sockets_ok \<theta> s" "turns_ok (s\<lparr>cv_phase := ph\<rparr>) = turns_ok s"
  by (simp_all add: entries_ok_def threads_ok_def sockets_ok_def socket_ok_def turns_ok_def)

lemma turn_frame [simp]:
  "entries_ok \<theta> (set_turn k ts s) = entries_ok \<theta> s" "phase_ok (set_turn k ts s) = phase_ok s"
  "threads_ok \<theta> (set_turn k ts s) = threads_ok \<theta> s"
  by (simp_all add: entries_ok_def phase_ok_def threads_ok_def set_turn_def)

lemma socket_frame [simp]:
  "entries_ok \<theta> (s\<lparr>cv_sockets := h\<rparr>) = entries_ok \<theta> s" "phase_ok (s\<lparr>cv_sockets := h\<rparr>) = phase_ok s"
  "threads_ok \<theta> (s\<lparr>cv_sockets := h\<rparr>) = threads_ok \<theta> s"
  by (simp_all add: entries_ok_def phase_ok_def threads_ok_def)

lemma counter_frame [simp]:
  "entries_ok \<theta> (s\<lparr>cv_next_socket := n\<rparr>) = entries_ok \<theta> s" "phase_ok (s\<lparr>cv_next_socket := n\<rparr>) = phase_ok s"
  "threads_ok \<theta> (s\<lparr>cv_next_socket := n\<rparr>) = threads_ok \<theta> s" "turns_ok (s\<lparr>cv_next_socket := n\<rparr>) = turns_ok s"
  by (simp_all add: entries_ok_def phase_ok_def threads_ok_def turns_ok_def)

lemma conv_invI:
  "entries_ok \<theta> s \<Longrightarrow> phase_ok s \<Longrightarrow> threads_ok \<theta> s \<Longrightarrow> sockets_ok \<theta> s \<Longrightarrow> turns_ok s \<Longrightarrow> conv_inv \<theta> s"
  by (simp add: conv_inv_def)

lemma conv_invD:
  "conv_inv \<theta> s \<Longrightarrow> entries_ok \<theta> s" "conv_inv \<theta> s \<Longrightarrow> phase_ok s" "conv_inv \<theta> s \<Longrightarrow> threads_ok \<theta> s"
  "conv_inv \<theta> s \<Longrightarrow> sockets_ok \<theta> s" "conv_inv \<theta> s \<Longrightarrow> turns_ok s"
  by (simp_all add: conv_inv_def)

lemma phase_inv:
  "conv_inv \<theta> s \<Longrightarrow> phase_ok (s\<lparr>cv_phase := ph\<rparr>) \<Longrightarrow> conv_inv \<theta> (s\<lparr>cv_phase := ph\<rparr>)"
  by (simp add: conv_inv_def)

lemma no_starting_ok: "settled ph \<Longrightarrow> phase_ok (s\<lparr>cv_phase := ph\<rparr>)"
  by (simp add: phase_ok_def settled_def)

lemma retire_inv: "conv_inv \<theta> s \<Longrightarrow> conv_inv \<theta> (retire_turn k s)"
proof -
  assume inv: "conv_inv \<theta> s"
  have "socket_ok \<theta> (retire_turn k s) so sk" if "socket_ok \<theta> s so sk" for so sk
    using that by (simp add: socket_ok_def retire_turn_def set_turn_def)
  then have "sockets_ok \<theta> (retire_turn k s)"
    using conv_invD(4) [OF inv] by (simp add: sockets_ok_def) (simp add: retire_turn_def set_turn_def)
  moreover have "turns_ok (retire_turn k s)"
    using conv_invD(5) [OF inv] by (auto simp: turns_ok_def retire_turn_def set_turn_def)
  ultimately show ?thesis using inv by (simp add: conv_inv_def retire_turn_def)
qed

lemma pop_entry_inv:
  assumes "conv_inv \<theta> s" "map_of (cv_entries s) key = Some e" "tn_retired (cv_turns s (ce_turn e))"
  shows "conv_inv \<theta> (dispose_thread (ce_thread e) (s\<lparr>cv_entries := dict_pop (cv_entries s) key\<rparr>))"
proof -
  have e: "(key, e) \<in> set (cv_entries s)" by (rule map_of_SomeD [OF assms(2)])
  have inv: "entries_ok \<theta> s" "phase_ok s" "threads_ok \<theta> s" "sockets_ok \<theta> s" "turns_ok s"
    using assms(1) by (simp_all add: conv_inv_def)
  let ?s = "dispose_thread (ce_thread e) (s\<lparr>cv_entries := dict_pop (cv_entries s) key\<rparr>)"
  have turn: "ce_turn e < cv_next_turn s" "ce_thread e = \<theta> (ce_turn e)"
    using inv(1) e by (auto simp: entries_ok_def)
  have other: "ce_thread (snd p) \<noteq> ce_thread e" if "p \<in> set (cv_entries s)" "fst p \<noteq> key" for p
  proof -
    have "ce_turn (snd p) \<noteq> ce_turn e"
      using inv(1) that e unfolding entries_ok_def inj_on_def by (metis fst_conv snd_conv)
    then show ?thesis
      using inv(1,3) that(1) turn unfolding entries_ok_def threads_ok_def inj_on_def by (metis lessThan_iff)
  qed
  have "entries_ok \<theta> ?s"
    using inv(1) other length_dict_pop_le [of "cv_entries s" key]
    by (auto simp: entries_ok_def conv_updates set_dict_pop distinct_dict_pop inj_on_def)
  moreover have "phase_ok ?s"
    using inv(2) length_dict_pop_le [of "cv_entries s" key]
    by (auto simp: phase_ok_def conv_updates set_dict_pop)
  moreover have "threads_ok \<theta> ?s"
    using inv(3) turn by (auto simp: threads_ok_def conv_updates)
  moreover have "sockets_ok \<theta> ?s"
  proof -
    have "socket_ok \<theta> ?s so sk" if "cv_sockets s so = Some sk" for so sk
    proof -
      have ok: "socket_ok \<theta> s so sk" using inv(4) that by (simp add: sockets_ok_def)
      then have "sk_turn sk = ce_turn e" if "sk_thread sk = ce_thread e"
        using inv(3) turn that unfolding threads_ok_def socket_ok_def inj_on_def by (metis lessThan_iff)
      then show ?thesis using ok assms(3) by (auto simp: socket_ok_def conv_updates set_dict_pop)
    qed
    then show ?thesis by (simp add: sockets_ok_def conv_updates)
  qed
  moreover have "turns_ok ?s" using inv(5) by (simp add: turns_ok_def conv_updates)
  ultimately show ?thesis by (simp add: conv_inv_def)
qed

lemma evict_inv:
  assumes "conv_inv \<theta> s" "map_of (cv_entries s) key = Some e"
  shows "conv_inv \<theta> (evict_entry key e s)"
proof -
  let ?r = "retire_turn (ce_turn e) s"
  have eq: "evict_entry key e s = dispose_thread (ce_thread e) (?r\<lparr>cv_entries := dict_pop (cv_entries ?r) key\<rparr>)"
    by (simp add: conv_updates)
  show ?thesis
    unfolding eq by (rule pop_entry_inv [OF retire_inv [OF assms(1)]]) (use assms(2) in \<open>simp_all add: conv_updates\<close>)
qed

section \<open>The turns of a socket\<close>

lemma turn_at:
  assumes "conv_inv \<theta> s" "cv_sockets s so = Some sk"
  shows "turn_ok (cv_turns s (sk_turn sk))" "task_ok so sk (cv_turns s (sk_turn sk))" "socket_ok \<theta> s so sk"
  using conv_invD(4,5) [OF assms(1)] assms(2) by (simp_all add: turns_ok_def sockets_ok_def)

text \<open>One socket changes its own turn state and its own task.\<close>

lemma own_turn_inv:
  assumes "conv_inv \<theta> s" "cv_sockets s so = Some sk"
    and "sk_turn sk' = sk_turn sk" "sk_thread sk' = sk_thread sk" "sk_persistent sk' = sk_persistent sk"
    and "sk_open sk' = sk_open sk"
    and "tn_retired (cv_turns s (sk_turn sk)) \<longrightarrow> tn_retired ts" "turn_ok ts" "task_ok so sk' ts"
    and "\<And>so1 sk1. so1 \<noteq> so \<Longrightarrow> task_ok so1 sk1 (cv_turns s (sk_turn sk)) \<Longrightarrow> task_ok so1 sk1 ts"
    and "\<And>so1. so1 \<noteq> so \<Longrightarrow> tn_pending ts = Some so1 \<Longrightarrow> tn_pending (cv_turns s (sk_turn sk)) = Some so1"
  shows "conv_inv \<theta> ((set_turn (sk_turn sk) ts s)\<lparr>cv_sockets := (cv_sockets s)(so \<mapsto> sk')\<rparr>)"
    (is "conv_inv \<theta> ?s")
proof (rule conv_invI)
  note inv = conv_invD [OF assms(1)]
  show "entries_ok \<theta> ?s" "phase_ok ?s" "threads_ok \<theta> ?s" using inv by simp_all
  show "sockets_ok \<theta> ?s"
    unfolding sockets_ok_def
  proof (intro allI impI)
    fix so1 sk1
    assume k: "cv_sockets ?s so1 = Some sk1"
    show "socket_ok \<theta> ?s so1 sk1"
    proof (cases "so1 = so")
      case True
      then show ?thesis using turn_at(3) [OF assms(1,2)] assms(3-7) k
        by (auto simp: socket_ok_def set_turn_def)
    next
      case False
      then have s1: "cv_sockets s so1 = Some sk1" using k by simp
      have ok: "socket_ok \<theta> s so1 sk1" by (rule turn_at(3) [OF assms(1) s1])
      then have alone: "sk_turn sk1 \<noteq> sk_turn sk" if "\<not> sk_persistent sk1"
        using that assms(2) False by (auto simp: socket_ok_def)
      have "\<not> sk_persistent sk1 \<longrightarrow> cv_sockets ?s so' = Some sk2 \<longrightarrow> sk_turn sk2 = sk_turn sk1 \<longrightarrow> so' = so1" for so' sk2
        using ok alone assms(3) by (auto simp: socket_ok_def)
      moreover have "tn_retired (cv_turns s (sk_turn sk1)) \<longrightarrow> tn_retired (cv_turns ?s (sk_turn sk1))"
        using assms(7) by (simp add: set_turn_def)
      ultimately show ?thesis
        using ok unfolding socket_ok_def by (simp add: set_turn_def)
    qed
  qed
  show "turns_ok ?s"
    unfolding turns_ok_def
  proof (intro conjI allI impI)
    show "turn_ok (cv_turns ?s k)" for k
      using inv(5) assms(8) by (simp add: set_turn_def turns_ok_def)
    show "\<exists>sk. cv_sockets ?s so1 = Some sk \<and> sk_turn sk = k" if "tn_pending (cv_turns ?s k) = Some so1" for k so1
    proof (cases "k = sk_turn sk \<and> so1 = so")
      case True
      then show ?thesis using assms(3) by simp
    next
      case False
      then have "tn_pending (cv_turns s k) = Some so1"
        using that assms(11) by (auto simp: set_turn_def split: if_splits)
      then obtain sk1 where "cv_sockets s so1 = Some sk1" "sk_turn sk1 = k"
        using inv(5) unfolding turns_ok_def by blast
      then show ?thesis using False assms(2,3) by auto
    qed
    show "task_ok so1 sk1 (cv_turns ?s (sk_turn sk1))" if "cv_sockets ?s so1 = Some sk1" for so1 sk1
    proof (cases "so1 = so")
      case True
      then show ?thesis using that assms(3,9) by (simp add: set_turn_def)
    next
      case False
      then have "task_ok so1 sk1 (cv_turns s (sk_turn sk1))" using that inv(5) by (simp add: turns_ok_def)
      then show ?thesis using assms(10) [OF False] by (cases "sk_turn sk1 = sk_turn sk") (simp_all add: set_turn_def)
    qed
  qed
qed

lemma schedule_inv:
  assumes "conv_inv \<theta> s" "cv_sockets s so = Some sk" "sk_open sk"
  shows "conv_inv \<theta> (snd (schedule_turn so sk s))"
proof (cases "tn_retired (cv_turns s (sk_turn sk)) \<or> tn_pending (cv_turns s (sk_turn sk)) \<noteq> None")
  case False
  then have eq: "snd (schedule_turn so sk s) =
      (set_turn (sk_turn sk) ((cv_turns s (sk_turn sk))\<lparr>tn_pending := Some so\<rparr>) s)
        \<lparr>cv_sockets := (cv_sockets s)(so \<mapsto> sk\<lparr>sk_task := TaskWaiting\<rparr>)\<rparr>"
    by (simp add: schedule_turn_def set_task_def set_turn_def Let_def)
  show ?thesis
    unfolding eq
    by (rule own_turn_inv [OF assms(1,2)])
      (use False assms(3) turn_at [OF assms(1,2)] in \<open>auto simp: turn_ok_def task_ok_def\<close>)
qed (use assms(1) in \<open>auto simp: schedule_turn_def Let_def\<close>)

lemma begin_inv:
  assumes "conv_inv \<theta> s" "cv_sockets s so = Some sk" "sk_task sk = TaskWaiting"
    and "tn_lock (cv_turns s (sk_turn sk)) = None"
  shows "conv_inv \<theta> (begin_turn so sk s)"
proof -
  note own = turn_at [OF assms(1,2)]
  show ?thesis
  proof (cases "tn_retired (cv_turns s (sk_turn sk))")
    case True
    have eq: "begin_turn so sk s = (set_turn (sk_turn sk) (cv_turns s (sk_turn sk)) s)
        \<lparr>cv_sockets := (cv_sockets s)(so \<mapsto> sk\<lparr>sk_task := TaskFailed\<rparr>)\<rparr>"
      using True by (simp add: begin_turn_def set_task_def set_turn_def Let_def)
    show ?thesis
      unfolding eq by (rule own_turn_inv [OF assms(1,2)]) (use assms(3) own in \<open>auto simp: turn_ok_def task_ok_def\<close>)
  next
    case False
    have eq: "begin_turn so sk s =
        (set_turn (sk_turn sk) ((cv_turns s (sk_turn sk))\<lparr>tn_lock := Some so, tn_owner := Some so\<rparr>) s)
        \<lparr>cv_sockets := (cv_sockets s)(so \<mapsto> sk\<lparr>sk_task := TaskRunning\<rparr>)\<rparr>"
      using False by (simp add: begin_turn_def set_task_def set_turn_def Let_def)
    show ?thesis
      unfolding eq
      by (rule own_turn_inv [OF assms(1,2)]) (use assms(3,4) own in \<open>auto simp: turn_ok_def task_ok_def\<close>)
  qed
qed

text \<open>The turn state a socket leaves: the lock, the owner, and perhaps the pending mark and the retirement.\<close>

lemma leave_inv:
  assumes "conv_inv \<theta> s" "cv_sockets s so = Some sk" "sk_task sk \<noteq> NoTask"
    and "task = NoTask \<or> task = TaskFailed" "tn_lock ts = None" "tn_owner ts = None"
    and "tn_pending ts = (if task = NoTask then None else Some so)"
    and "tn_retired (cv_turns s (sk_turn sk)) \<longrightarrow> tn_retired ts"
  shows "conv_inv \<theta> ((set_turn (sk_turn sk) ts s)\<lparr>cv_sockets := (cv_sockets s)(so \<mapsto> sk\<lparr>sk_task := task\<rparr>)\<rparr>)"
proof -
  note own = turn_at [OF assms(1,2)]
  have pend: "tn_pending (cv_turns s (sk_turn sk)) = Some so" "sk_open sk"
    using own(2) assms(3) by (auto simp: task_ok_def)
  show ?thesis
    by (rule own_turn_inv [OF assms(1,2)])
      (use own(1) assms(4-8) pend in \<open>auto simp: turn_ok_def task_ok_def\<close>)
qed

lemma finish_inv:
  assumes "conv_inv \<theta> s" "cv_sockets s so = Some sk" "sk_task sk = TaskRunning"
  shows "conv_inv \<theta> (finish_turn so sk s)" "conv_inv \<theta> (fail_turn so sk s)"
proof -
  note own = turn_at [OF assms(1,2)]
  let ?ts = "cv_turns s (sk_turn sk)"
  have t: "tn_pending ?ts = Some so" "tn_owner ?ts = Some so" "tn_lock ?ts = Some so"
    using own(1,2) assms(3) by (auto simp: turn_ok_def task_ok_def)
  have "finish_turn so sk s = (set_turn (sk_turn sk) (?ts\<lparr>tn_owner := None, tn_lock := None, tn_pending := None\<rparr>) s)
      \<lparr>cv_sockets := (cv_sockets s)(so \<mapsto> sk\<lparr>sk_task := NoTask\<rparr>)\<rparr>"
    using t by (simp add: finish_turn_def conv_updates Let_def)
  then show "conv_inv \<theta> (finish_turn so sk s)"
    using leave_inv [OF assms(1,2), of NoTask] assms(3) by simp
  have "fail_turn so sk s = (set_turn (sk_turn sk)
      (?ts\<lparr>tn_owner := None, tn_lock := None, tn_retired := True\<rparr>) s)
      \<lparr>cv_sockets := (cv_sockets s)(so \<mapsto> sk\<lparr>sk_task := TaskFailed\<rparr>)\<rparr>"
    using t by (simp add: fail_turn_def conv_updates Let_def)
  then show "conv_inv \<theta> (fail_turn so sk s)"
    using leave_inv [OF assms(1,2), of TaskFailed] assms(3) t by simp
qed

lemma settled_turn_inv:
  assumes "conv_inv \<theta> s" "cv_sockets s so = Some sk" "sk_task sk \<noteq> NoTask" "sk_task sk \<noteq> TaskRunning"
  shows "conv_inv \<theta> (settle_turn so sk s)"
proof -
  have "tn_pending (cv_turns s (sk_turn sk)) = Some so"
    using turn_at(2) [OF assms(1,2)] assms(3) by (simp add: task_ok_def)
  then have "settle_turn so sk s = (set_turn (sk_turn sk) ((cv_turns s (sk_turn sk))\<lparr>tn_pending := None\<rparr>) s)
      \<lparr>cv_sockets := (cv_sockets s)(so \<mapsto> sk\<lparr>sk_task := NoTask\<rparr>)\<rparr>"
    by (simp add: settle_turn_def conv_updates)
  moreover have "tn_owner (cv_turns s (sk_turn sk)) = None" "tn_lock (cv_turns s (sk_turn sk)) = None"
    using turn_at(1,2) [OF assms(1,2)] assms(3,4)
    by (cases "tn_owner (cv_turns s (sk_turn sk))"; auto simp: turn_ok_def task_ok_def)+
  ultimately show ?thesis using leave_inv [OF assms(1,2), of NoTask] assms(3) by simp
qed

lemma cancel_inv:
  assumes "conv_inv \<theta> s" "cv_sockets s so = Some sk"
  shows "conv_inv \<theta> (close_cancel so sk s)"
proof (cases "sk_task sk = NoTask")
  case True
  have "tn_pending (cv_turns s (sk_turn sk)) \<noteq> Some so"
    using turn_at(2) [OF assms] True by (simp add: task_ok_def)
  moreover have "sk\<lparr>sk_task := NoTask\<rparr> = sk" using True by simp
  ultimately have "close_cancel so sk s = s" using assms(2) True
    by (simp add: close_cancel_def conv_updates fun_upd_idem)
  then show ?thesis using assms(1) by simp
next
  case False
  then show ?thesis
    using finish_inv(1) [OF assms] settled_turn_inv [OF assms]
    by (cases "sk_task sk") (simp_all add: close_cancel_def finish_turn_def settle_turn_def)
qed

lemma mark_inv:
  assumes "conv_inv \<theta> s" "cv_sockets s so = Some sk"
  shows "conv_inv \<theta> (close_mark so sk s)"
proof -
  let ?ts = "(cv_turns s (sk_turn sk))\<lparr>tn_retired := tn_retired (cv_turns s (sk_turn sk)) \<or>
      tn_pending (cv_turns s (sk_turn sk)) = Some so\<rparr>"
  have eq: "close_mark so sk s = (set_turn (sk_turn sk) ?ts s)\<lparr>cv_sockets := (cv_sockets s)(so \<mapsto> sk\<lparr>sk_closing := True\<rparr>)\<rparr>"
    by (simp add: close_mark_def conv_updates)
  show ?thesis
    unfolding eq
    by (rule own_turn_inv [OF assms]) (use turn_at [OF assms] in \<open>auto simp: turn_ok_def task_ok_def\<close>)
qed

section \<open>Threads, entries and sockets\<close>

lemma dispose_lone_inv:
  assumes "conv_inv \<theta> s" "t \<in> set (cv_started s)"
    and "\<And>p. p \<in> set (cv_entries s) \<Longrightarrow> ce_thread (snd p) \<noteq> t"
    and "\<And>so sk. cv_sockets s so = Some sk \<Longrightarrow> sk_open sk \<Longrightarrow> sk_thread sk \<noteq> t"
  shows "conv_inv \<theta> (dispose_thread t s)"
proof (rule conv_invI)
  note inv = conv_invD [OF assms(1)]
  show "entries_ok \<theta> (dispose_thread t s)"
    using inv(1) assms(3) unfolding entries_ok_def by (auto simp: dispose_thread_def)
  show "phase_ok (dispose_thread t s)" using inv(2) by (simp add: phase_ok_def dispose_thread_def)
  show "threads_ok \<theta> (dispose_thread t s)"
    using inv(3) assms(2) by (simp add: threads_ok_def dispose_thread_def)
  show "sockets_ok \<theta> (dispose_thread t s)"
  proof -
    have "socket_ok \<theta> (dispose_thread t s) so sk" if "cv_sockets s so = Some sk" for so sk
      using turn_at(3) [OF assms(1) that] assms(4) [OF that] by (auto simp: socket_ok_def dispose_thread_def)
    then show ?thesis by (simp add: sockets_ok_def dispose_thread_def)
  qed
  show "turns_ok (dispose_thread t s)" using inv(5) by (simp add: turns_ok_def dispose_thread_def)
qed

lemma close_open_inv:
  assumes "conv_inv \<theta> s" "cv_sockets s so = Some sk" "sk_task sk = NoTask"
  shows "conv_inv \<theta> (s\<lparr>cv_sockets := (cv_sockets s)(so \<mapsto> sk\<lparr>sk_open := False\<rparr>)\<rparr>)" (is "conv_inv \<theta> ?s")
proof (rule conv_invI)
  note inv = conv_invD [OF assms(1)]
  show "entries_ok \<theta> ?s" "phase_ok ?s" "threads_ok \<theta> ?s" using inv by simp_all
  show "sockets_ok \<theta> ?s"
    unfolding sockets_ok_def
  proof (intro allI impI)
    fix so1 sk1
    assume k: "cv_sockets ?s so1 = Some sk1"
    obtain sk2 where s2: "cv_sockets s so1 = Some sk2" "sk1 = (if so1 = so then sk2\<lparr>sk_open := False\<rparr> else sk2)"
      using k assms(2) by (auto split: if_splits)
    have ok: "socket_ok \<theta> s so1 sk2" by (rule turn_at(3) [OF assms(1) s2(1)])
    have same: "sk_turn sk1 = sk_turn sk2" "sk_thread sk1 = sk_thread sk2" "sk_persistent sk1 = sk_persistent sk2"
      "sk_open sk1 \<longrightarrow> sk_open sk2" using s2(2) by simp_all
    have turn: "\<exists>sk4. cv_sockets s so3 = Some sk4 \<and> sk_turn sk4 = sk_turn sk3" if "cv_sockets ?s so3 = Some sk3" for so3 sk3
      using that assms(2) by (auto split: if_splits)
    have "so3 = so1" if "\<not> sk_persistent sk1" "cv_sockets ?s so3 = Some sk3" "sk_turn sk3 = sk_turn sk1" for so3 sk3
      using turn [OF that(2)] ok that(1,3) same unfolding socket_ok_def by metis
    then show "socket_ok \<theta> ?s so1 sk1"
      using ok same unfolding socket_ok_def by auto
  qed
  show "turns_ok ?s"
    unfolding turns_ok_def
  proof (intro conjI allI impI)
    show "turn_ok (cv_turns ?s k)" for k using inv(5) by (simp add: turns_ok_def)
    show "\<exists>sk. cv_sockets ?s so1 = Some sk \<and> sk_turn sk = k" if p: "tn_pending (cv_turns ?s k) = Some so1" for k so1
    proof -
      have "tn_pending (cv_turns s k) = Some so1" using p by simp
      then obtain sk1 where "cv_sockets s so1 = Some sk1" "sk_turn sk1 = k"
        using inv(5) unfolding turns_ok_def by blast
      then show ?thesis using assms(2) by (cases "so1 = so") simp_all
    qed
    show "task_ok so1 sk1 (cv_turns ?s (sk_turn sk1))" if "cv_sockets ?s so1 = Some sk1" for so1 sk1
      using that turn_at(2) [OF assms(1), of so1] assms(2,3) by (cases "so1 = so") (auto simp: task_ok_def)
  qed
qed

lemma end_inv:
  assumes "conv_inv \<theta> s" "cv_sockets s so = Some sk" "sk_task sk = NoTask"
  shows "conv_inv \<theta> (close_end so sk s)"
proof -
  let ?s = "s\<lparr>cv_sockets := (cv_sockets s)(so \<mapsto> sk\<lparr>sk_open := False\<rparr>)\<rparr>"
  have "tn_pending (cv_turns s (sk_turn sk)) \<noteq> Some so"
    using turn_at(2) [OF assms(1,2)] assms(3) by (simp add: task_ok_def)
  then have eq: "close_end so sk s = (if sk_persistent sk then ?s else dispose_thread (sk_thread sk) ?s)"
    by (simp add: close_end_def clear_pending_def)
  have inv: "conv_inv \<theta> ?s" by (rule close_open_inv [OF assms])
  have "conv_inv \<theta> (dispose_thread (sk_thread sk) ?s)" if lone: "\<not> sk_persistent sk"
  proof (rule dispose_lone_inv [OF inv])
    note ok = turn_at(3) [OF assms(1,2)] and th = conv_invD(3) [OF assms(1)]
    show "sk_thread sk \<in> set (cv_started ?s)" using ok th by (auto simp: socket_ok_def threads_ok_def)
    have apart: "\<theta> k \<noteq> sk_thread sk" if "k < cv_next_turn s" "k \<noteq> sk_turn sk" for k
      using ok th that unfolding socket_ok_def threads_ok_def inj_on_def by (metis lessThan_iff)
    show "ce_thread (snd p) \<noteq> sk_thread sk" if "p \<in> set (cv_entries ?s)" for p
    proof -
      have "ce_turn (snd p) < cv_next_turn s" "ce_thread (snd p) = \<theta> (ce_turn (snd p))"
        using that conv_invD(1) [OF assms(1)] by (simp_all add: entries_ok_def)
      moreover have "sk_turn sk \<notin> (\<lambda>p. ce_turn (snd p)) ` set (cv_entries s)"
        using ok lone by (simp add: socket_ok_def)
      then have "ce_turn (snd p) \<noteq> sk_turn sk" using that by force
      ultimately show ?thesis using apart by simp
    qed
    show "sk_thread sk1 \<noteq> sk_thread sk" if "cv_sockets ?s so1 = Some sk1" "sk_open sk1" for so1 sk1
    proof -
      have "so1 \<noteq> so" "cv_sockets s so1 = Some sk1" using that by (auto split: if_splits)
      then have "sk_turn sk1 < cv_next_turn s" "sk_thread sk1 = \<theta> (sk_turn sk1)" "sk_turn sk1 \<noteq> sk_turn sk"
        using turn_at(3) [OF assms(1)] ok lone unfolding socket_ok_def by blast+
      then show ?thesis using apart by simp
    qed
  qed
  then show ?thesis unfolding eq using inv by simp
qed

lemma open_inv:
  assumes "conv_inv \<theta> s" "k < cv_next_turn s" "\<theta> k \<notin> set (cv_disposed s)"
    and "\<And>so sk. cv_sockets s so = Some sk \<Longrightarrow> sk_turn sk = k \<Longrightarrow> sk_persistent sk \<and> persistent"
    and "persistent \<or> k \<notin> (\<lambda>p. ce_turn (snd p)) ` set (cv_entries s)"
  shows "conv_inv \<theta> (open_socket (\<theta> k) k key persistent s)" (is "conv_inv \<theta> ?s")
proof -
  note inv = conv_invD [OF assms(1)]
  let ?so = "cv_next_socket s"
  let ?sk = "\<lparr>sk_thread = \<theta> k, sk_turn = k, sk_key = key, sk_persistent = persistent, sk_task = NoTask,
      sk_closing = False, sk_open = True\<rparr>"
  let ?t = "s\<lparr>cv_sockets := (cv_sockets s)(?so \<mapsto> ?sk)\<rparr>"
  have eq: "?s = ?t\<lparr>cv_next_socket := ?so + 1\<rparr>" by (simp add: open_socket_def)
  have fields: "cv_next_socket ?s = Suc ?so" "cv_next_turn ?s = cv_next_turn s" "cv_entries ?s = cv_entries s"
    "cv_disposed ?s = cv_disposed s" "cv_turns ?s = cv_turns s" by (simp_all add: eq)
  have absent: "cv_sockets s ?so = None"
    using turn_at(3) [OF assms(1), of ?so] by (cases "cv_sockets s ?so") (auto simp: socket_ok_def)
  have below: "so1 = ?so \<or> (so1 \<noteq> ?so \<and> cv_sockets s so1 = Some sk1)" if "cv_sockets ?s so1 = Some sk1" for so1 sk1
    using that by (auto simp: eq split: if_splits)
  have "socket_ok \<theta> ?s so1 sk1" if k: "cv_sockets ?s so1 = Some sk1" for so1 sk1
  proof (cases "so1 = ?so")
    case True
    then have sk1: "sk1 = ?sk" using k by (simp add: eq)
    have "so2 = ?so" if "\<not> persistent" "cv_sockets ?s so2 = Some sk2" "sk_turn sk2 = k" for so2 sk2
      using below [OF that(2)] assms(4) that(1,3) by blast
    then have "\<forall>so2 sk2. cv_sockets ?s so2 = Some sk2 \<longrightarrow> sk_turn sk2 = k \<longrightarrow> so2 = ?so" if "\<not> persistent"
      using that by blast
    moreover have "k \<notin> (\<lambda>p. ce_turn (snd p)) ` set (cv_entries s)" if "\<not> persistent" using assms(5) that by blast
    ultimately show ?thesis using assms(2,3) unfolding socket_ok_def sk1 True fields by simp
  next
    case False
    then have s1: "cv_sockets s so1 = Some sk1" using k by (simp add: eq)
    have ok: "socket_ok \<theta> s so1 sk1" by (rule turn_at(3) [OF assms(1) s1])
    have "so2 = so1" if "\<not> sk_persistent sk1" "cv_sockets ?s so2 = Some sk2" "sk_turn sk2 = sk_turn sk1" for so2 sk2
    proof (cases "so2 = ?so")
      case True
      then have "sk2 = ?sk" using that(2) by (simp add: eq)
      then have "sk_turn sk1 = k" using that(3) by simp
      then show ?thesis using assms(4) [OF s1] that(1) by blast
    next
      case False
      then have "cv_sockets s so2 = Some sk2" using that(2) by (simp add: eq)
      then show ?thesis using ok that(1,3) unfolding socket_ok_def by blast
    qed
    then have "\<forall>so2 sk2. cv_sockets ?s so2 = Some sk2 \<longrightarrow> sk_turn sk2 = sk_turn sk1 \<longrightarrow> so2 = so1"
      if "\<not> sk_persistent sk1"
      using that by blast
    then show ?thesis using ok unfolding socket_ok_def fields by simp
  qed
  then have "sockets_ok \<theta> ?s" by (simp add: sockets_ok_def)
  moreover have "turns_ok ?s"
  proof -
    have "tn_pending (cv_turns s k1) \<noteq> Some ?so" for k1
      using inv(5) absent unfolding turns_ok_def by force
    moreover from this have "tn_owner (cv_turns s k1) \<noteq> Some ?so" for k1
      using inv(5) unfolding turns_ok_def turn_ok_def by metis
    moreover have "\<exists>sk. cv_sockets ?t so1 = Some sk \<and> sk_turn sk = k1"
      if p: "tn_pending (cv_turns s k1) = Some so1" for k1 so1
    proof -
      obtain sk1 where "cv_sockets s so1 = Some sk1" "sk_turn sk1 = k1"
        using inv(5) p unfolding turns_ok_def by blast
      then show ?thesis using absent by (cases "so1 = ?so") simp_all
    qed
    moreover have "turn_ok (cv_turns s k1)" for k1 using inv(5) by (simp add: turns_ok_def)
    moreover have "task_ok so1 sk1 (cv_turns s (sk_turn sk1))"
      if "cv_sockets s so1 = Some sk1" for so1 sk1
      using that inv(5) by (simp add: turns_ok_def)
    ultimately show ?thesis
      unfolding eq counter_frame turns_ok_def by (simp add: task_ok_def)
  qed
  ultimately show ?thesis using inv unfolding conv_inv_def eq by simp
qed

lemma allocate_inv:
  assumes "conv_inv \<theta> s" "t \<notin> set (cv_started s)"
  shows "conv_inv (\<theta>(cv_next_turn s := t))
    (set_turn (cv_next_turn s) new_turn_state (s\<lparr>cv_started := t # cv_started s, cv_next_turn := cv_next_turn s + 1\<rparr>))"
    (is "conv_inv ?\<theta> ?s")
proof (rule conv_invI)
  note inv = conv_invD [OF assms(1)]
  let ?k = "cv_next_turn s"
  show "entries_ok ?\<theta> ?s"
    using inv(1) unfolding entries_ok_def turn_frame by (auto simp: set_turn_def)
  show "phase_ok ?s" using inv(2) by (simp add: phase_ok_def set_turn_def)
  have range: "{..<Suc ?k} = insert ?k {..<?k}" by auto
  show "threads_ok ?\<theta> ?s"
    using inv(3) assms(2) by (auto simp: threads_ok_def set_turn_def range inj_on_def)
  show "sockets_ok ?\<theta> ?s"
  proof -
    have "socket_ok ?\<theta> ?s so sk" if "cv_sockets s so = Some sk" for so sk
      using turn_at(3) [OF assms(1) that] unfolding socket_ok_def by (simp add: set_turn_def)
    then show ?thesis by (simp add: sockets_ok_def) (simp add: set_turn_def)
  qed
  show "turns_ok ?s"
  proof -
    have "sk_turn sk \<noteq> ?k" if "cv_sockets s so = Some sk" for so sk
      using turn_at(3) [OF assms(1) that] by (simp add: socket_ok_def)
    then show ?thesis
      using inv(5) unfolding turns_ok_def by (auto simp: set_turn_def) (simp add: new_turn_state_def)
  qed
qed

lemma insert_inv:
  assumes "conv_inv \<theta> s" "key \<notin> fst ` set (cv_entries s)" "length (cv_entries s) < MAX_CONVERSATIONS"
    and "settled (cv_phase s)" "ce_turn e < cv_next_turn s"
    and "ce_turn e \<notin> (\<lambda>p. ce_turn (snd p)) ` set (cv_entries s)" "ce_thread e = \<theta> (ce_turn e)"
    and "ce_thread e \<notin> set (cv_disposed s)"
    and "\<And>so sk. cv_sockets s so = Some sk \<Longrightarrow> sk_turn sk \<noteq> ce_turn e"
  shows "conv_inv \<theta> (s\<lparr>cv_entries := dict_set (cv_entries s) key e\<rparr>)" (is "conv_inv \<theta> ?s")
proof (rule conv_invI)
  note inv = conv_invD [OF assms(1)]
  have app: "dict_set (cv_entries s) key e = cv_entries s @ [(key, e)]" by (rule dict_set_absent [OF assms(2)])
  show "entries_ok \<theta> ?s"
  proof -
    have "inj_on (\<lambda>p. ce_turn (snd p)) (set (cv_entries s @ [(key, e)]))"
      using inv(1) assms(6) by (auto simp: entries_ok_def inj_on_insert)
    then show ?thesis
      using inv(1) assms(2,3,5,7,8) unfolding entries_ok_def by (auto simp: app)
  qed
  show "phase_ok ?s" using assms(4) by (simp add: phase_ok_def settled_def)
  show "threads_ok \<theta> ?s" using inv(3) by (simp add: threads_ok_def)
  show "sockets_ok \<theta> ?s"
  proof -
    have "socket_ok \<theta> ?s so sk" if "cv_sockets s so = Some sk" for so sk
      using turn_at(3) [OF assms(1) that] assms(9) [OF that] by (auto simp: socket_ok_def app)
    then show ?thesis by (simp add: sockets_ok_def)
  qed
  show "turns_ok ?s" using inv(5) by (simp add: turns_ok_def)
qed

section \<open>The coroutine under the conversation lock\<close>

text \<open>\<open>\<theta>'\<close> agrees with \<open>\<theta>\<close> on the turn states that exist.\<close>

lemma reserve_inv:
  assumes "conv_inv \<theta> s" "map_of (cv_entries s) (rq_key rq) = None"
  shows "conv_inv \<theta> (snd (reserve rq s))"
proof -
  have "rq_key rq \<notin> fst ` set (cv_entries s)" using assms(2) by (simp add: map_of_None_iff)
  then show ?thesis
    using phase_inv [OF assms(1)] by (simp add: reserve_def phase_ok_def)
qed

lemma touch_inv:
  assumes "conv_inv \<theta> s" "map_of (cv_entries s) key = Some e" "settled (cv_phase s)"
  shows "conv_inv \<theta> (s\<lparr>cv_entries := move_to_end (dict_set (cv_entries s) key (e\<lparr>ce_last_used := now\<rparr>)) key\<rparr>)"
    (is "conv_inv \<theta> ?s")
proof (rule conv_invI)
  note inv = conv_invD [OF assms(1)]
  let ?e = "e\<lparr>ce_last_used := now\<rparr>"
  have e: "(key, e) \<in> set (cv_entries s)" by (rule map_of_SomeD [OF assms(2)])
  have app: "move_to_end (dict_set (cv_entries s) key ?e) key = dict_pop (cv_entries s) key @ [(key, ?e)]"
    using inv(1) by (simp add: move_to_end_dict_set entries_ok_def)
  have turn: "ce_turn (snd q) \<noteq> ce_turn e" if "q \<in> set (dict_pop (cv_entries s) key)" for q
    using inv(1) that e unfolding entries_ok_def inj_on_def set_dict_pop by force
  have "inj_on (\<lambda>p. ce_turn (snd p)) (set (dict_pop (cv_entries s) key @ [(key, ?e)]))"
  proof -
    have "inj_on (\<lambda>p. ce_turn (snd p)) (set (dict_pop (cv_entries s) key))"
      using inv(1) by (auto simp: entries_ok_def set_dict_pop intro: inj_on_subset)
    moreover have "ce_turn e \<notin> (\<lambda>p. ce_turn (snd p)) ` (set (dict_pop (cv_entries s) key) - {(key, ?e)})"
      using turn by force
    ultimately show ?thesis by (simp add: inj_on_insert)
  qed
  moreover have "length (dict_pop (cv_entries s) key) < MAX_CONVERSATIONS"
    using length_dict_pop_present [of "cv_entries s" key] e inv(1) by (force simp: entries_ok_def)
  ultimately show "entries_ok \<theta> ?s"
    using inv(1) e unfolding entries_ok_def by (auto simp: app distinct_dict_pop set_dict_pop)
  show "phase_ok ?s" using assms(3) by (simp add: phase_ok_def settled_def)
  show "threads_ok \<theta> ?s" using inv(3) by (simp add: threads_ok_def)
  show "sockets_ok \<theta> ?s"
  proof -
    have "(\<lambda>p. ce_turn (snd p)) ` set (cv_entries ?s) \<subseteq> (\<lambda>p. ce_turn (snd p)) ` set (cv_entries s)"
      using e by (force simp: app set_dict_pop)
    then have "socket_ok \<theta> ?s so sk" if "cv_sockets s so = Some sk" for so sk
      using turn_at(3) [OF assms(1) that] unfolding socket_ok_def by auto
    then show ?thesis by (simp add: sockets_ok_def)
  qed
  show "turns_ok ?s" using inv(5) by (simp add: turns_ok_def)
qed

lemma evict_fields:
  "cv_entries (evict_entry key e s) = dict_pop (cv_entries s) key" "cv_phase (evict_entry key e s) = cv_phase s"
  by (simp_all add: conv_updates)

lemma find_inv:
  assumes "conv_inv \<theta> s" "settled (cv_phase s)"
  shows "conv_inv \<theta> (snd (find_conversation now rq s))"
proof (cases "map_of (cv_entries s) (rq_key rq)")
  case None
  then show ?thesis using reserve_inv [OF assms(1) None] by (simp add: find_conversation_def)
next
  case (Some e)
  note inv = conv_invD [OF assms(1)]
  have e: "(rq_key rq, e) \<in> set (cv_entries s)" by (rule map_of_SomeD [OF Some])
  let ?t = "s\<lparr>cv_entries := move_to_end (dict_set (cv_entries s) (rq_key rq) (e\<lparr>ce_last_used := now\<rparr>)) (rq_key rq)\<rparr>"
  have quiet: "conv_inv \<theta> (u\<lparr>cv_phase := ph\<rparr>)" if "conv_inv \<theta> u" "settled ph" for u ph
    using that phase_inv no_starting_ok by blast
  have reuse: "conv_inv \<theta> (open_socket (ce_thread e) (ce_turn e) (Some (rq_key rq)) True (?t\<lparr>cv_phase := None\<rparr>))"
  proof -
    have th: "ce_turn e < cv_next_turn s" "ce_thread e = \<theta> (ce_turn e)" "ce_thread e \<notin> set (cv_disposed s)"
      using inv(1) e by (auto simp: entries_ok_def)
    have "sk_persistent sk" if "cv_sockets s so = Some sk" "sk_turn sk = ce_turn e" for so sk
      using turn_at(3) [OF assms(1) that(1)] that(2) e by (force simp: socket_ok_def)
    then show ?thesis
      unfolding th(2)
      by (intro open_inv quiet touch_inv [OF assms(1) Some assms(2)]) (use th in simp_all)
  qed
  have "conv_inv \<theta> ((evict_entry (rq_key rq) e s)\<lparr>cv_phase := Some (Replacing rq)\<rparr>)"
    by (rule phase_inv [OF evict_inv [OF assms(1) Some]]) (auto simp: phase_ok_def evict_fields set_dict_pop)
  moreover have "conv_inv \<theta> (s\<lparr>cv_phase := None\<rparr>)" by (rule quiet [OF assms(1)]) simp
  moreover have "?t\<lparr>cv_phase := None\<rparr> = s\<lparr>cv_entries := cv_entries ?t, cv_phase := None\<rparr>" by simp
  ultimately show ?thesis using reuse by (simp add: find_conversation_def Some)
qed

lemma prune_inv:
  "conv_inv \<theta> s \<Longrightarrow> settled (cv_phase s) \<Longrightarrow> conv_inv \<theta> (snd (prune_from keys now rq s))"
proof (induction keys)
  case (Cons key keys)
  then show ?case
    using phase_inv [OF evict_inv [of \<theta> s key]] by (auto simp: no_starting_ok split: option.split)
qed (simp add: find_inv)

lemma resume_inv:
  assumes "conv_inv \<theta> s"
  shows "conv_inv \<theta> (snd (resume_ask now s))"
proof (cases "cv_phase s")
  case (Some ph)
  show ?thesis
  proof (cases ph)
    case (Replacing rq)
    then have free: "map_of (cv_entries s) (rq_key rq) = None"
      using conv_invD(2) [OF assms] Some by (simp add: phase_ok_def map_of_None_iff)
    then show ?thesis using reserve_inv [OF assms free] Replacing Some by (simp add: resume_ask_def)
  qed (use Some assms prune_inv [OF assms] phase_inv [OF assms no_starting_ok] in \<open>simp_all add: resume_ask_def\<close>)
qed (use assms in \<open>simp add: resume_ask_def\<close>)

section \<open>New threads\<close>

lemma started_frame [simp]:
  "entries_ok \<theta> (s\<lparr>cv_started := ts\<rparr>) = entries_ok \<theta> s" "phase_ok (s\<lparr>cv_started := ts\<rparr>) = phase_ok s"
  "sockets_ok \<theta> (s\<lparr>cv_started := ts\<rparr>) = sockets_ok \<theta> s" "turns_ok (s\<lparr>cv_started := ts\<rparr>) = turns_ok s"
  by (simp_all add: entries_ok_def phase_ok_def sockets_ok_def socket_ok_def turns_ok_def)

lemma refused_inv:
  assumes "conv_inv \<theta> s" "t \<notin> set (cv_started s)"
  shows "conv_inv \<theta> (dispose_thread t (s\<lparr>cv_started := t # cv_started s\<rparr>))"
proof -
  note inv = conv_invD [OF assms(1)]
  let ?s = "s\<lparr>cv_started := t # cv_started s\<rparr>"
  have "threads_ok \<theta> ?s" using inv(3) by (auto simp: threads_ok_def)
  then have base: "conv_inv \<theta> ?s" using inv by (simp add: conv_inv_def)
  have unused: "\<theta> k \<noteq> t" if "k < cv_next_turn s" for k
    using inv(3) assms(2) that by (auto simp: threads_ok_def)
  show ?thesis
  proof (rule dispose_lone_inv [OF base])
    show "ce_thread (snd p) \<noteq> t" if "p \<in> set (cv_entries ?s)" for p
      using inv(1) unused that by (simp add: entries_ok_def)
    show "sk_thread sk \<noteq> t" if "cv_sockets ?s so = Some sk" for so sk
      using turn_at(3) [OF assms(1), of so sk] unused that by (simp add: socket_ok_def)
  qed simp
qed

text \<open>A new thread, its turn state and the socket that asked for it.\<close>

definition new_thread :: "string \<Rightarrow> conversations \<Rightarrow> conversations" where
  "new_thread t s =
     set_turn (cv_next_turn s) new_turn_state (s\<lparr>cv_started := t # cv_started s, cv_next_turn := cv_next_turn s + 1\<rparr>)"

lemma new_thread_fields:
  "cv_entries (new_thread t s) = cv_entries s" "cv_phase (new_thread t s) = cv_phase s"
  "cv_sockets (new_thread t s) = cv_sockets s" "cv_next_turn (new_thread t s) = cv_next_turn s + 1"
  "cv_disposed (new_thread t s) = cv_disposed s" "cv_next_socket (new_thread t s) = cv_next_socket s"
  by (simp_all add: new_thread_def set_turn_def)

lemma unused_turn:
  assumes "conv_inv \<theta> s"
  shows "cv_next_turn s \<notin> (\<lambda>p. ce_turn (snd p)) ` set (cv_entries s)"
    and "cv_sockets s so = Some sk \<Longrightarrow> sk_turn sk \<noteq> cv_next_turn s"
  using conv_invD(1) [OF assms] turn_at(3) [OF assms, of so sk] by (auto simp: entries_ok_def socket_ok_def)

lemma started_inv:
  assumes "conv_inv \<theta> s" "cv_phase s = Some (Starting rq)" "fresh_thread response s"
  shows "\<exists>\<theta>. conv_inv \<theta> (snd (thread_started profile response now rq s))"
proof (cases "check_started profile response")
  case (Inl e)
  then show ?thesis using phase_inv [OF assms(1) no_starting_ok, of None] by (auto simp: thread_started_def)
next
  case (Inr r)
  obtain t refused where r: "r = (t, refused)" by (cases r)
  have fresh: "t \<notin> set (cv_started s)"
    using assms(3) Inr r by (auto simp: check_started_def bind_result_eq_Inr fresh_thread_def)
  show ?thesis
  proof (cases refused)
    case (Some e)
    have "conv_inv \<theta> ((dispose_thread t (s\<lparr>cv_started := t # cv_started s\<rparr>))\<lparr>cv_phase := Some (Rejecting e)\<rparr>)"
      by (rule phase_inv [OF refused_inv [OF assms(1) fresh] no_starting_ok]) simp
    moreover have "(dispose_thread t (s\<lparr>cv_started := t # cv_started s\<rparr>))\<lparr>cv_phase := Some (Rejecting e)\<rparr> =
        dispose_thread t (s\<lparr>cv_started := t # cv_started s, cv_phase := Some (Rejecting e)\<rparr>)"
      by (simp add: dispose_thread_def)
    ultimately show ?thesis using Some Inr r by (auto simp: thread_started_def)
  next
    case None
    let ?\<theta> = "\<theta>(cv_next_turn s := t)"
    let ?n = "new_thread t (s\<lparr>cv_phase := None\<rparr>)"
    let ?e = "\<lparr>ce_thread = t, ce_fingerprint = rq_fingerprint rq, ce_last_used = now, ce_turn = cv_next_turn s\<rparr>"
    let ?m = "?n\<lparr>cv_entries := dict_set (cv_entries ?n) (rq_key rq) ?e\<rparr>"
    have quiet: "conv_inv \<theta> (s\<lparr>cv_phase := None\<rparr>)" by (rule phase_inv [OF assms(1) no_starting_ok]) simp
    then have n: "conv_inv ?\<theta> ?n"
      using allocate_inv [OF quiet, of t] fresh by (simp add: new_thread_def)
    have room: "length (cv_entries s) < MAX_CONVERSATIONS" "rq_key rq \<notin> fst ` set (cv_entries s)"
      using conv_invD(2) [OF assms(1)] assms(2) by (simp_all add: phase_ok_def)
    have undisposed: "t \<notin> set (cv_disposed s)"
      using conv_invD(3) [OF assms(1)] fresh by (auto simp: threads_ok_def)
    have m: "conv_inv ?\<theta> ?m"
      by (rule insert_inv [OF n])
        (use room undisposed unused_turn [OF assms(1)] in \<open>simp_all add: new_thread_fields\<close>)
    have "conv_inv ?\<theta> (open_socket (?\<theta> (cv_next_turn s)) (cv_next_turn s) (Some (rq_key rq)) True ?m)"
      by (rule open_inv [OF m]) (use undisposed unused_turn [OF assms(1)] in \<open>auto simp: new_thread_fields\<close>)
    moreover have "snd (thread_started profile response now rq s) =
        open_socket t (cv_next_turn s) (Some (rq_key rq)) True ?m"
      using Inr r None by (simp add: thread_started_def new_thread_def set_turn_def open_socket_def Let_def)
    ultimately show ?thesis by auto
  qed
qed

lemma unnamed_inv:
  assumes "conv_inv \<theta> s" "fresh_thread response s"
  shows "\<exists>\<theta>. conv_inv \<theta> (snd (start_unnamed profile response s))"
proof (cases "check_started profile response")
  case (Inl e)
  then show ?thesis using assms(1) by (auto simp: start_unnamed_def)
next
  case (Inr r)
  obtain t refused where r: "r = (t, refused)" by (cases r)
  have fresh: "t \<notin> set (cv_started s)"
    using assms(2) Inr r by (auto simp: check_started_def bind_result_eq_Inr fresh_thread_def)
  then have undisposed: "t \<notin> set (cv_disposed s)"
    using conv_invD(3) [OF assms(1)] by (auto simp: threads_ok_def)
  show ?thesis
  proof (cases refused)
    case (Some e)
    then show ?thesis using refused_inv [OF assms(1) fresh] Inr r by (auto simp: start_unnamed_def)
  next
    case None
    have n: "conv_inv (\<theta>(cv_next_turn s := t)) (new_thread t s)"
      using allocate_inv [OF assms(1) fresh] by (simp add: new_thread_def)
    have "conv_inv (\<theta>(cv_next_turn s := t))
        (open_socket ((\<theta>(cv_next_turn s := t)) (cv_next_turn s)) (cv_next_turn s) None False (new_thread t s))"
      by (rule open_inv [OF n]) (use undisposed unused_turn [OF assms(1)] in \<open>auto simp: new_thread_fields\<close>)
    then show ?thesis using Inr r None by (auto simp: start_unnamed_def new_thread_def Let_def)
  qed
qed

section \<open>Every step\<close>

lemma evict_socket_inv:
  assumes "conv_inv \<theta> s" "cv_sockets s so = Some sk" "tn_retired (cv_turns s (sk_turn sk))"
  shows "conv_inv \<theta> (retire_evict sk s)"
  using pop_entry_inv [OF assms(1)] assms(1,3) by (simp add: retire_evict_def split: option.split) metis

lemma with_socket_inv:
  assumes "conv_inv \<theta> s" "\<And>sk. cv_sockets s so = Some sk \<Longrightarrow> sk_open sk \<Longrightarrow> guard sk \<Longrightarrow> conv_inv \<theta> (f sk s)"
  shows "conv_inv \<theta> (with_socket so guard f s)"
  using assms by (simp add: with_socket_def split: option.split)

lemma conversation_step_inv:
  assumes "conv_inv \<theta> s"
  shows "\<exists>\<theta>. conv_inv \<theta> (conversation_step profile ev s)"
proof (cases ev)
  case (AskThread rq now)
  have "conv_inv \<theta> (snd (ask_thread rq now s))" if "cv_phase s = None"
    using prune_inv [OF assms] that by (simp add: ask_thread_def)
  then show ?thesis using AskThread assms by (auto simp: conversation_step_def)
next
  case (ResumeAsk now)
  then show ?thesis using resume_inv [OF assms] by (auto simp: conversation_step_def)
next
  case (ThreadStarted response now)
  then show ?thesis
    using assms started_inv [OF assms] by (auto simp: conversation_step_def split: option.split cache_phase.split)
next
  case StartFailed
  then show ?thesis
    using assms phase_inv [OF assms no_starting_ok, of None]
    by (auto simp: conversation_step_def split: option.split cache_phase.split)
next
  case CancelAsk
  then show ?thesis using phase_inv [OF assms no_starting_ok, of None] by (auto simp: conversation_step_def)
next
  case (AskUnnamed response)
  then show ?thesis using assms unnamed_inv [OF assms] by (auto simp: conversation_step_def)
next
  case (Schedule so)
  have "conv_inv \<theta> (conversation_step profile ev s)"
    unfolding Schedule conversation_step_def conversation_event.case
    by (rule with_socket_inv [OF assms]) (rule schedule_inv [OF assms])
  then show ?thesis by blast
next
  case (Begin so)
  have "conv_inv \<theta> (conversation_step profile ev s)"
    unfolding Begin conversation_step_def conversation_event.case
    by (rule with_socket_inv [OF assms]) (auto intro: begin_inv [OF assms])
  then show ?thesis by blast
next
  case (Finish so)
  have "conv_inv \<theta> (conversation_step profile ev s)"
    unfolding Finish conversation_step_def conversation_event.case
    by (rule with_socket_inv [OF assms]) (rule finish_inv(1) [OF assms])
  then show ?thesis by blast
next
  case (Fail so)
  have "conv_inv \<theta> (conversation_step profile ev s)"
    unfolding Fail conversation_step_def conversation_event.case
    by (rule with_socket_inv [OF assms]) (rule finish_inv(2) [OF assms])
  then show ?thesis by blast
next
  case (Settle so)
  have "conv_inv \<theta> (conversation_step profile ev s)"
    unfolding Settle conversation_step_def conversation_event.case
    by (rule with_socket_inv [OF assms]) (auto intro: settled_turn_inv [OF assms])
  then show ?thesis by blast
next
  case (Retire so)
  have "conv_inv \<theta> (conversation_step profile ev s)"
    unfolding Retire conversation_step_def conversation_event.case
    by (rule with_socket_inv [OF assms]) (rule retire_inv [OF assms])
  then show ?thesis by blast
next
  case (Evict so)
  have "conv_inv \<theta> (conversation_step profile ev s)"
    unfolding Evict conversation_step_def conversation_event.case
    by (rule with_socket_inv [OF assms]) (auto intro: evict_socket_inv [OF assms])
  then show ?thesis by blast
next
  case (CloseMark so)
  have "conv_inv \<theta> (conversation_step profile ev s)"
    unfolding CloseMark conversation_step_def conversation_event.case
    by (rule with_socket_inv [OF assms]) (rule mark_inv [OF assms])
  then show ?thesis by blast
next
  case (CloseCancel so)
  have "conv_inv \<theta> (conversation_step profile ev s)"
    unfolding CloseCancel conversation_step_def conversation_event.case
    by (rule with_socket_inv [OF assms]) (rule cancel_inv [OF assms])
  then show ?thesis by blast
next
  case (CloseEnd so)
  have "conv_inv \<theta> (conversation_step profile ev s)"
    unfolding CloseEnd conversation_step_def conversation_event.case
    by (rule with_socket_inv [OF assms]) (auto intro: end_inv [OF assms])
  then show ?thesis by blast
qed

lemma conversation_reachable_inv: "conversation_reachable profile s \<Longrightarrow> \<exists>\<theta>. conv_inv \<theta> s"
  by (induction rule: conversation_reachable.induct) (auto intro: new_conversations_inv conversation_step_inv)

section \<open>What the invariant gives\<close>

text \<open>C27: The conversation cache and its turns stay sound under every interleaving of requests, pruning, turns
  and closing sockets. The cache keeps at most 128 conversations with distinct identifiers, each on a thread
  of its own that has not been disposed; a thread is started only when there is room for it; and the turn lock
  is held, and the turn owned, by the one socket whose turn is pending.\<close>
theorem conversation_cache_sound:
  assumes "conversation_reachable profile s"
  shows "distinct (map fst (cv_entries s)) \<and> length (cv_entries s) \<le> MAX_CONVERSATIONS \<and>
    distinct (map (\<lambda>p. ce_thread (snd p)) (cv_entries s)) \<and>
    (\<forall>p \<in> set (cv_entries s). ce_thread (snd p) \<notin> set (cv_disposed s)) \<and>
    (\<forall>rq. cv_phase s = Some (Starting rq) \<longrightarrow> length (cv_entries s) < MAX_CONVERSATIONS) \<and>
    (\<forall>k. tn_lock (cv_turns s k) = tn_owner (cv_turns s k)) \<and>
    (\<forall>k so. tn_owner (cv_turns s k) = Some so \<longrightarrow> tn_pending (cv_turns s k) = Some so)"
proof -
  obtain \<theta> where inv: "conv_inv \<theta> s" using conversation_reachable_inv [OF assms] by blast
  note parts = conv_invD [OF inv]
  have "inj_on (\<lambda>p. ce_thread (snd p)) (set (cv_entries s))"
  proof (rule inj_onI)
    fix p q assume p: "p \<in> set (cv_entries s)" "q \<in> set (cv_entries s)" "ce_thread (snd p) = ce_thread (snd q)"
    then have "ce_turn (snd p) = ce_turn (snd q)"
      using parts(1,3) unfolding entries_ok_def threads_ok_def inj_on_def by (metis lessThan_iff)
    then show "p = q" using parts(1) p(1,2) unfolding entries_ok_def inj_on_def by blast
  qed
  moreover have "distinct (cv_entries s)" using parts(1) by (simp add: entries_ok_def distinct_map)
  ultimately have "distinct (map (\<lambda>p. ce_thread (snd p)) (cv_entries s))" by (simp add: distinct_map)
  moreover have "\<forall>p \<in> set (cv_entries s). ce_thread (snd p) \<notin> set (cv_disposed s)"
    using parts(1) unfolding entries_ok_def by blast
  moreover have "turn_ok (cv_turns s k)" for k using parts(5) by (simp add: turns_ok_def)
  ultimately show ?thesis using parts(1,2) by (simp add: entries_ok_def phase_ok_def turn_ok_def)
qed

text \<open>No turn starts on a deleted thread. When a socket's turn gets the turn lock, it either runs, and then
  its thread has not been disposed, or it fails because the conversation was retired.\<close>
theorem turn_starts_on_live_thread:
  assumes "conversation_reachable profile s" "cv_sockets s so = Some sk" "sk_open sk"
    and "sk_task sk = TaskWaiting" "tn_lock (cv_turns s (sk_turn sk)) = None"
    and "t = conversation_step profile (Begin so) s"
  shows "(\<exists>sk'. cv_sockets t so = Some sk' \<and> sk_task sk' = TaskRunning \<and>
      tn_owner (cv_turns t (sk_turn sk)) = Some so \<and> sk_thread sk \<notin> set (cv_disposed t)) \<or>
    (tn_retired (cv_turns s (sk_turn sk)) \<and> cv_turns t = cv_turns s \<and>
      cv_sockets t so = Some (sk\<lparr>sk_task := TaskFailed\<rparr>))"
proof -
  obtain \<theta> where inv: "conv_inv \<theta> s" using conversation_reachable_inv [OF assms(1)] by blast
  have t: "t = begin_turn so sk s"
    using assms(2-6) by (simp add: conversation_step_def with_socket_def)
  show ?thesis
    using turn_at(3) [OF inv assms(2)] assms(3)
    by (auto simp: t begin_turn_def set_task_def set_turn_def socket_ok_def Let_def)
qed

section \<open>Pruning\<close>

lemma evict_idle_spec:
  assumes "distinct (map fst m)" "MAX_CONVERSATIONS \<le> active"
  shows "\<exists>ys. evict_idle turns xs active m = xs @ ys \<and> distinct ys \<and> set ys \<inter> set xs = {} \<and>
    (\<forall>key \<in> set ys. \<exists>e. (key, e) \<in> set m \<and> \<not> turn_busy (turns (ce_turn e))) \<and>
    (active - length ys < MAX_CONVERSATIONS \<or>
     (\<forall>p \<in> set m. fst p \<in> set (xs @ ys) \<or> turn_busy (turns (ce_turn (snd p)))))"
  using assms
proof (induction m arbitrary: xs active)
  case (Cons p m)
  obtain key e where p: "p = (key, e)" by (cases p)
  consider "key \<in> set xs \<or> turn_busy (turns (ce_turn e))"
    | "key \<notin> set xs" "\<not> turn_busy (turns (ce_turn e))" "active - 1 < MAX_CONVERSATIONS"
    | "key \<notin> set xs" "\<not> turn_busy (turns (ce_turn e))" "MAX_CONVERSATIONS \<le> active - 1" by linarith
  then show ?case
  proof cases
    case 1
    then have eq: "evict_idle turns xs active (p # m) = evict_idle turns xs active m" by (simp add: p)
    show ?thesis using Cons.IH [of active xs] Cons.prems 1 unfolding eq by (simp add: p) metis
  next
    case 2
    then have "evict_idle turns xs active (p # m) = xs @ [key]" by (simp add: p)
    then show ?thesis using 2 by (intro exI [of _ "[key]"]) (auto simp: p)
  next
    case 3
    then have eq: "evict_idle turns xs active (p # m) = evict_idle turns (xs @ [key]) (active - 1) m" by (simp add: p)
    obtain ys where "evict_idle turns (xs @ [key]) (active - 1) m = (xs @ [key]) @ ys" "distinct ys"
      "set ys \<inter> set (xs @ [key]) = {}" "\<forall>key \<in> set ys. \<exists>e. (key, e) \<in> set m \<and> \<not> turn_busy (turns (ce_turn e))"
      "active - 1 - length ys < MAX_CONVERSATIONS \<or>
       (\<forall>p \<in> set m. fst p \<in> set ((xs @ [key]) @ ys) \<or> turn_busy (turns (ce_turn (snd p))))"
      using Cons.IH [of "active - 1" "xs @ [key]"] Cons.prems 3(3) by auto
    then show ?thesis
      unfolding eq using 3(1,2) by (intro exI [of _ "key # ys"]) (auto simp: p)
  qed
qed simp

text \<open>Pruning chooses idle conversations and makes room. The keys it is about to evict are distinct, cached,
  and idle when they are chosen, and without them either fewer than 128 conversations remain or all that
  remain are busy.\<close>
theorem prune_plan_idle:
  assumes "conversation_reachable profile s"
  shows "distinct (prune_plan now s) \<and>
    (\<forall>key \<in> set (prune_plan now s). \<exists>e. map_of (cv_entries s) key = Some e \<and> \<not> turn_busy (cv_turns s (ce_turn e))) \<and>
    (length (cv_entries s) - length (prune_plan now s) < MAX_CONVERSATIONS \<or>
     (\<forall>p \<in> set (cv_entries s). fst p \<in> set (prune_plan now s) \<or> turn_busy (cv_turns s (ce_turn (snd p)))))"
proof -
  have d: "distinct (map fst (cv_entries s))"
    using conversation_reachable_inv [OF assms] by (auto simp: conv_inv_def entries_ok_def)
  let ?xs = "expired_keys now s" and ?n = "length (cv_entries s) - length (expired_keys now s)"
  have xs: "distinct ?xs" "\<forall>key \<in> set ?xs. \<exists>e. (key, e) \<in> set (cv_entries s) \<and> \<not> turn_busy (cv_turns s (ce_turn e))"
    using d by (auto simp: expired_keys_def distinct_map_filter)
  show ?thesis
  proof (cases "MAX_CONVERSATIONS \<le> ?n")
    case True
    then have eq: "prune_plan now s = evict_idle (cv_turns s) ?xs ?n (cv_entries s)" by (simp add: prune_plan_def Let_def)
    obtain ys where "prune_plan now s = ?xs @ ys" "distinct ys" "set ys \<inter> set ?xs = {}"
      "\<forall>key \<in> set ys. \<exists>e. (key, e) \<in> set (cv_entries s) \<and> \<not> turn_busy (cv_turns s (ce_turn e))"
      "?n - length ys < MAX_CONVERSATIONS \<or>
       (\<forall>p \<in> set (cv_entries s). fst p \<in> set (?xs @ ys) \<or> turn_busy (cv_turns s (ce_turn (snd p))))"
      using evict_idle_spec [OF d True, of "cv_turns s" ?xs] unfolding eq by blast
    then show ?thesis using xs d by auto
  next
    case False
    then have "prune_plan now s = ?xs" by (simp add: prune_plan_def Let_def)
    then show ?thesis using False xs d by auto
  qed
qed

text \<open>C40: Pruning overlooks a turn that starts while it waits. The keys to evict are chosen once, before the first
  disposal is awaited; a conversation further down the list whose turn has started meanwhile is evicted and its
  thread deleted all the same, in the middle of that turn.\<close>
theorem pruning_deletes_busy_thread:
  assumes "cv_phase s = Some (Pruning (key # keys) rq)" "map_of (cv_entries s) key = Some e"
    and "turn_busy (cv_turns s (ce_turn e))" "t = conversation_step profile (ResumeAsk now) s"
  shows "ce_thread e \<in> set (cv_disposed t) \<and> turn_busy (cv_turns t (ce_turn e)) \<and>
    tn_owner (cv_turns t (ce_turn e)) = tn_owner (cv_turns s (ce_turn e)) \<and> map_of (cv_entries t) key = None"
  using assms by (simp add: conversation_step_def resume_ask_def conv_updates turn_busy_def)

section \<open>A run with the race\<close>

definition started_response :: "string \<Rightarrow> json" where
  "started_response t =
     JObj [(''thread'', JObj [(''id'', JStr t)]), (''activePermissionProfile'', JObj [(''id'', JStr ''p'')]),
       (''sandbox'', JObj [(''type'', JStr ''readOnly''), (''networkAccess'', JBool False)]),
       (''runtimeWorkspaceRoots'', JArr [])]"

definition two_conversations :: conversations where
  "two_conversations = fold (conversation_step ''p'')
     [AskThread \<lparr>rq_key = ''a'', rq_fingerprint = []\<rparr> 0, ThreadStarted (started_response ''t1'') 0,
      AskThread \<lparr>rq_key = ''b'', rq_fingerprint = []\<rparr> 0, ThreadStarted (started_response ''t2'') 0] new_conversations"

definition race :: conversations where
  "race = fold (conversation_step ''p'')
     [AskThread \<lparr>rq_key = ''c'', rq_fingerprint = []\<rparr> 4000, Schedule 1, Begin 1] two_conversations"

lemma fold_reachable:
  "conversation_reachable profile s \<Longrightarrow> conversation_reachable profile (fold (conversation_step profile) evs s)"
  by (induction evs arbitrary: s) (auto intro: conversation_reachable.intros)

lemma race_reachable: "conversation_reachable ''p'' two_conversations" "conversation_reachable ''p'' race"
  by (auto simp: two_conversations_def race_def intro!: fold_reachable conversation_reachable.intros)

lemma sample_started [simp]:
  "t \<noteq> [] \<Longrightarrow> started_thread_id (started_response t) = Inr t"
  "t \<noteq> [] \<Longrightarrow> check_started ''p'' (started_response t) = Inr (t, None)"
  by (simp_all add: check_started_def started_thread_id_def validate_started_thread_def started_response_def)

lemma two_conversations_eq:
  "two_conversations =
     \<lparr>cv_entries = [(''a'', \<lparr>ce_thread = ''t1'', ce_fingerprint = [], ce_last_used = 0, ce_turn = 0\<rparr>),
        (''b'', \<lparr>ce_thread = ''t2'', ce_fingerprint = [], ce_last_used = 0, ce_turn = 1\<rparr>)],
      cv_turns = (\<lambda>_. new_turn_state), cv_next_turn = 2, cv_phase = None, cv_disposed = [],
      cv_started = [''t2'', ''t1''],
      cv_sockets = [0 \<mapsto> \<lparr>sk_thread = ''t1'', sk_turn = 0, sk_key = Some ''a'', sk_persistent = True, sk_task = NoTask,
          sk_closing = False, sk_open = True\<rparr>,
        1 \<mapsto> \<lparr>sk_thread = ''t2'', sk_turn = 1, sk_key = Some ''b'', sk_persistent = True, sk_task = NoTask,
          sk_closing = False, sk_open = True\<rparr>],
      cv_next_socket = 2\<rparr>"
  by (simp add: two_conversations_def conversation_step_def ask_thread_def prune_plan_def expired_keys_def
      find_conversation_def reserve_def thread_started_def fresh_thread_def new_conversations_def conv_updates
      CONVERSATION_TTL_def MAX_CONVERSATIONS_def Let_def fun_eq_iff)

lemma race_eq:
  "cv_phase race = Some (Pruning [''b''] \<lparr>rq_key = ''c'', rq_fingerprint = []\<rparr>)"
  "cv_entries race = [(''b'', \<lparr>ce_thread = ''t2'', ce_fingerprint = [], ce_last_used = 0, ce_turn = 1\<rparr>)]"
  "cv_turns race (Suc 0) = \<lparr>tn_lock = Some 1, tn_owner = Some 1, tn_pending = Some 1, tn_retired = False\<rparr>"
  by (simp_all add: race_def two_conversations_eq conversation_step_def ask_thread_def prune_plan_def expired_keys_def
      with_socket_def schedule_turn_def begin_turn_def conv_updates dict_pop_def turn_busy_def new_turn_state_def
      CONVERSATION_TTL_def MAX_CONVERSATIONS_def Let_def)

theorem conversation_cache_sound_witness:
  "map fst (cv_entries race) = [''b''] \<and> tn_pending (cv_turns race 1) = Some 1"
  using conversation_cache_sound [OF race_reachable(2)] by (simp add: race_eq)

theorem turn_starts_on_live_thread_witness:
  "\<exists>sk'. cv_sockets (conversation_step ''p'' (Begin 1) (conversation_step ''p'' (Schedule 1) two_conversations)) 1 = Some sk' \<and>
     sk_task sk' = TaskRunning"
proof -
  let ?s = "conversation_step ''p'' (Schedule 1) two_conversations"
  let ?sk = "\<lparr>sk_thread = ''t2'', sk_turn = 1, sk_key = Some ''b'', sk_persistent = True, sk_task = TaskWaiting,
      sk_closing = False, sk_open = True\<rparr>"
  have "cv_sockets ?s 1 = Some ?sk" "tn_lock (cv_turns ?s 1) = None" "\<not> tn_retired (cv_turns ?s 1)"
    by (simp_all add: two_conversations_eq conversation_step_def with_socket_def schedule_turn_def conv_updates
        new_turn_state_def Let_def)
  then show ?thesis
    using turn_starts_on_live_thread [OF conversation_reachable.stepped [OF race_reachable(1)] _ _ _ _ refl,
        of "Schedule 1" 1 ?sk] by auto
qed

theorem prune_plan_idle_witness: "prune_plan 4000 two_conversations = [''a'', ''b''] \<and> distinct (prune_plan 4000 two_conversations)"
  using prune_plan_idle [OF race_reachable(1), of 4000]
  by (simp add: two_conversations_eq prune_plan_def expired_keys_def turn_busy_def new_turn_state_def
      CONVERSATION_TTL_def MAX_CONVERSATIONS_def Let_def)

theorem pruning_deletes_busy_thread_witness:
  "conversation_reachable ''p'' race \<and> tn_owner (cv_turns race 1) = Some 1 \<and>
   ''t2'' \<in> set (cv_disposed (conversation_step ''p'' (ResumeAsk 4001) race)) \<and>
   tn_owner (cv_turns (conversation_step ''p'' (ResumeAsk 4001) race) 1) = Some 1"
  using pruning_deletes_busy_thread [OF race_eq(1) _ _ refl, of _ "''p''" 4001] race_reachable(2)
  by (simp add: race_eq turn_busy_def)

end
