(* ===== verification/Calibration.thy ===== *)
theory Calibration
  imports Float64 Bounded_Log
begin

text \<open>
  The levels of transcription audio in \<^verbatim>\<open>bridge/service.py\<close>: gain selection, the removal of a silent
  prefix from a finite utterance, and the incremental calibrator and normalizer of streamed audio. Float
  arithmetic is that of \<^verbatim>\<open>Float64\<close>, with the correctly rounded square root below. The host is
  little-endian.
\<close>

section \<open>The square root\<close>

function isqrt :: "nat \<Rightarrow> nat" where
  "isqrt n =
     (if n = 0 then 0
      else let r = 2 * isqrt (n div 4) in if (r + 1) * (r + 1) \<le> n then r + 1 else r)"
  by pat_completeness auto
termination by (relation "measure id") auto

declare isqrt.simps [simp del]

lemma isqrt_bounds: "isqrt n * isqrt n \<le> n \<and> n < (isqrt n + 1) * (isqrt n + 1)"
proof (induction n rule: isqrt.induct)
  case (1 n)
  show ?case
  proof (cases "n = 0")
    case True
    then show ?thesis by (simp add: isqrt.simps)
  next
    case False
    let ?m = "isqrt (n div 4)"
    have ih: "?m * ?m \<le> n div 4" "n div 4 < (?m + 1) * (?m + 1)" using 1 False by simp_all
    have "4 * (?m * ?m) \<le> n" using ih(1) by linarith
    moreover have "n < 4 * ((?m + 1) * (?m + 1))" using ih(2) by linarith
    ultimately have "(2 * ?m) * (2 * ?m) \<le> n" "n < (2 * ?m + 2) * (2 * ?m + 2)"
      by (simp_all add: algebra_simps)
    then show ?thesis using False by (subst (1 2 3 4) isqrt.simps) (auto simp: Let_def)
  qed
qed

text \<open>
  \<^verbatim>\<open>math.sqrt\<close>: the integer square root to at least 54 bits, with a sticky bit, rounded once.
\<close>

definition fsqrt :: "rat \<Rightarrow> rat" where
  "fsqrt x =
     (if x \<le> 0 then 0
      else
        let k = 64 - (exponent x div 2);
            y = x * pow2 (2 * k);
            n = nat \<lfloor>y\<rfloor>;
            r = isqrt n
        in fl (of_nat (2 * r + (if of_nat (r * r) = y then 0 else 1)) * pow2 (- k - 1)))"

section \<open>Constants\<close>

definition STT_SAMPLE_RATE :: nat where "STT_SAMPLE_RATE = 24000"
definition MAX_TRANSCRIPTION_DURATION_SECONDS :: nat where "MAX_TRANSCRIPTION_DURATION_SECONDS = 60"
definition TARGET_RMS :: rat where "TARGET_RMS = fl (5 / 100)"
definition TARGET_PEAK :: rat where "TARGET_PEAK = fl (8 / 10)"
definition MAX_GAIN :: rat where "MAX_GAIN = 64"
definition TRIM_FRAME_MS :: nat where "TRIM_FRAME_MS = 20"
definition TRIM_NOISE_PROBE_MS :: nat where "TRIM_NOISE_PROBE_MS = 600"
definition TRIM_PREROLL_MS :: nat where "TRIM_PREROLL_MS = 320"
definition TRIM_MIN_REMOVABLE_MS :: nat where "TRIM_MIN_REMOVABLE_MS = 2000"
definition TRIM_MIN_RMS :: rat where "TRIM_MIN_RMS = fl (15 / 1000)"
definition TRIM_MIN_ACTIVE_FRAMES :: nat where "TRIM_MIN_ACTIVE_FRAMES = 3"
definition TRIM_ACTIVE_WINDOW_FRAMES :: nat where "TRIM_ACTIVE_WINDOW_FRAMES = 5"
definition STREAM_ACTIVATION_RMS :: rat where "STREAM_ACTIVATION_RMS = fl (1 / 100)"
definition STREAM_GAIN_PROBE_MS :: nat where "STREAM_GAIN_PROBE_MS = 200"
definition STREAM_QUIET_CALIBRATION_MS :: nat where "STREAM_QUIET_CALIBRATION_MS = 600"
definition QUIET_MIN_FRAME_RMS :: rat where "QUIET_MIN_FRAME_RMS = fl (1 / 1000)"
definition QUIET_MIN_PEAK :: rat where "QUIET_MIN_PEAK = fl (8 / 1000)"
definition QUIET_MIN_RMS :: rat where "QUIET_MIN_RMS = fl (5 / 10000)"
definition QUIET_MIN_CREST_FACTOR :: rat where "QUIET_MIN_CREST_FACTOR = 3"
definition QUIET_NOISE_RATIO :: rat where "QUIET_NOISE_RATIO = 2"
definition QUIET_NOISE_MARGIN :: rat where "QUIET_NOISE_MARGIN = fl (5 / 10000)"

definition frame_samples :: nat where "frame_samples = STT_SAMPLE_RATE * TRIM_FRAME_MS div 1000"
definition frame_bytes :: nat where "frame_bytes = frame_samples * 2"
definition quiet_frames :: nat where
  "quiet_frames = max TRIM_ACTIVE_WINDOW_FRAMES (STREAM_QUIET_CALIBRATION_MS div TRIM_FRAME_MS)"
definition probe_frames :: nat where
  "probe_frames = max TRIM_ACTIVE_WINDOW_FRAMES (STREAM_GAIN_PROBE_MS div TRIM_FRAME_MS)"
definition preroll_bytes :: nat where "preroll_bytes = STT_SAMPLE_RATE * TRIM_PREROLL_MS div 1000 * 2"
definition max_pending_bytes :: nat where
  "max_pending_bytes = STT_SAMPLE_RATE * (STREAM_QUIET_CALIBRATION_MS + TRIM_PREROLL_MS) div 1000 * 2"

lemma frame_constants [simp]:
  "frame_samples = 480" "frame_bytes = 960" "quiet_frames = 30" "probe_frames = 10"
  "preroll_bytes = 16 * 960" "max_pending_bytes = 46 * 960"
  by (simp_all add: frame_samples_def frame_bytes_def quiet_frames_def probe_frames_def preroll_bytes_def
      max_pending_bytes_def STT_SAMPLE_RATE_def TRIM_FRAME_MS_def TRIM_ACTIVE_WINDOW_FRAMES_def
      STREAM_QUIET_CALIBRATION_MS_def STREAM_GAIN_PROBE_MS_def TRIM_PREROLL_MS_def)

section \<open>Levels and gain\<close>

text \<open>\<^verbatim>\<open>array.frombytes\<close>.\<close>

definition pcm_samples :: "bytes \<Rightarrow> int list result" where
  "pcm_samples pcm =
     (if odd (length pcm) then Inl (ValueError ''bytes length not a multiple of item size'')
      else Inr (samples_of_bytes pcm))"

definition max_magnitude :: "int list \<Rightarrow> int" where
  "max_magnitude vs = foldl (\<lambda>m v. max m \<bar>v\<bar>) 0 vs"

definition square_sum :: "int list \<Rightarrow> int" where
  "square_sum vs = sum_list (map (\<lambda>v. v * v) vs)"

definition rms_level :: "int \<Rightarrow> nat \<Rightarrow> rat" where
  "rms_level squares count = fl (fsqrt (true_div squares (int count)) / 32768)"

definition normalized_pcm16_levels :: "bytes \<Rightarrow> (rat \<times> rat) result" where
  "normalized_pcm16_levels pcm =
     bind_result (pcm_samples pcm) (\<lambda>vs.
       if vs = [] then Inr (0, 0)
       else Inr (true_div (max_magnitude vs) 32768, rms_level (square_sum vs) (length vs)))"

definition transcription_gain_for_levels :: "rat \<Rightarrow> rat \<Rightarrow> rat" where
  "transcription_gain_for_levels peak rms =
     (if peak \<le> 0 \<or> rms \<le> 0 then 1
      else max 1 (min MAX_GAIN (min (fl (TARGET_PEAK / peak)) (fl (TARGET_RMS / rms)))))"

definition amplify :: "rat \<Rightarrow> int \<Rightarrow> int" where
  "amplify gain v = max (- 32768) (min 32767 (round_half_even (fl (of_int v * gain))))"

definition apply_pcm16_gain :: "bytes \<Rightarrow> rat \<Rightarrow> bytes result" where
  "apply_pcm16_gain pcm gain =
     (if pcm = [] \<or> gain \<le> 1 then Inr pcm
      else bind_result (pcm_samples pcm) (\<lambda>vs. Inr (bytes_of_samples (map (amplify gain) vs))))"

definition apply_transcription_gain :: "bytes \<Rightarrow> rat \<Rightarrow> rat \<Rightarrow> (bytes \<times> rat) result" where
  "apply_transcription_gain pcm peak rms =
     (if pcm = [] \<or> peak \<le> 0 \<or> rms \<le> 0 then Inr (pcm, 1)
      else
        let gain = transcription_gain_for_levels peak rms
        in bind_result (apply_pcm16_gain pcm gain) (\<lambda>amplified. Inr (amplified, gain)))"

section \<open>Sustained frames\<close>

fun index_true :: "bool list \<Rightarrow> nat" where
  "index_true [] = 0"
| "index_true (b # bs) = (if b then 0 else Suc (index_true bs))"

definition count_true :: "bool list \<Rightarrow> nat" where
  "count_true bs = length (filter id bs)"

fun sustained_from :: "nat \<Rightarrow> bool list \<Rightarrow> nat option" where
  "sustained_from start [] = None"
| "sustained_from start (b # bs) =
     (let window = take TRIM_ACTIVE_WINDOW_FRAMES (b # bs)
      in if TRIM_MIN_ACTIVE_FRAMES \<le> count_true window then Some (start + index_true window)
         else sustained_from (Suc start) bs)"

definition first_sustained_frame :: "rat list \<Rightarrow> rat \<Rightarrow> nat option" where
  "first_sustained_frame levels threshold = sustained_from 0 (map (\<lambda>level. threshold \<le> level) levels)"

section \<open>The silent prefix of an utterance\<close>

function frame_levels :: "int list \<Rightarrow> rat list" where
  "frame_levels vs =
     (if vs = [] then []
      else rms_level (square_sum (take frame_samples vs)) (length (take frame_samples vs)) #
        frame_levels (drop frame_samples vs))"
  by pat_completeness auto
termination by (relation "measure length") auto

declare frame_levels.simps [simp del]

definition opening_levels :: "rat list \<Rightarrow> rat list" where
  "opening_levels levels = sort (take (max 1 (TRIM_NOISE_PROBE_MS div TRIM_FRAME_MS)) levels)"

definition noise_floor :: "rat list \<Rightarrow> rat" where
  "noise_floor levels = (let opening = opening_levels levels in opening ! (length opening div 2))"

definition noise_ceiling :: "rat list \<Rightarrow> rat" where
  "noise_ceiling levels =
     (let opening = opening_levels levels in opening ! min (length opening - 1) (length opening * 4 div 5))"

definition active_threshold :: "rat list \<Rightarrow> rat" where
  "active_threshold levels =
     max (max (max TRIM_MIN_RMS (fl (noise_floor levels * 4))) (fl (noise_ceiling levels * 2)))
       (fl (noise_floor levels + fl (1 / 100)))"

definition preservation_threshold :: "rat list \<Rightarrow> rat" where
  "preservation_threshold levels =
     max (max (max (fl (3 / 1000)) (fl (noise_floor levels * fl (135 / 100))))
       (fl (noise_ceiling levels * fl (11 / 10)))) (fl (noise_floor levels + fl (2 / 1000)))"

text \<open>The first frame at or above a threshold, or the length.\<close>

definition first_loud :: "rat \<Rightarrow> rat list \<Rightarrow> nat" where
  "first_loud threshold levels = length (takeWhile (\<lambda>level. level < threshold) levels)"

definition speech_onset :: "rat list \<Rightarrow> nat option" where
  "speech_onset levels =
     (case first_sustained_frame levels (active_threshold levels) of
        None \<Rightarrow> None
      | Some onset \<Rightarrow>
          let preserved = (case first_sustained_frame (take onset levels) (preservation_threshold levels) of
                None \<Rightarrow> onset | Some p \<Rightarrow> p)
          in Some (first_loud (active_threshold levels) (take preserved levels)))"

definition trimmed_frames :: "rat list \<Rightarrow> nat" where
  "trimmed_frames levels =
     (if length levels < TRIM_MIN_ACTIVE_FRAMES then 0
      else if rev (sort levels) ! (TRIM_MIN_ACTIVE_FRAMES - 1) < active_threshold levels then 0
      else case speech_onset levels of
        None \<Rightarrow> 0
      | Some onset \<Rightarrow>
          let trim = onset - TRIM_PREROLL_MS div TRIM_FRAME_MS
          in if trim < TRIM_MIN_REMOVABLE_MS div TRIM_FRAME_MS then 0 else trim)"

definition trim_transcription_silence :: "bytes \<Rightarrow> bytes" where
  "trim_transcription_silence pcm =
     (if pcm = [] \<or> odd (length pcm) then pcm
      else drop (trimmed_frames (frame_levels (samples_of_bytes pcm)) * frame_samples * 2) pcm)"

record prepared_audio =
  pa_pcm :: bytes
  pa_duration :: rat
  pa_input_duration :: rat
  pa_peak :: rat
  pa_rms :: rat
  pa_gain :: rat

definition prepare_transcription_audio :: "bytes \<Rightarrow> prepared_audio result" where
  "prepare_transcription_audio pcm =
     (if pcm = [] then Inl (ProtocolError ''audio payload contains no samples'')
      else
        let input_duration = true_div (int (length pcm)) (int (STT_SAMPLE_RATE * 2))
        in if of_nat MAX_TRANSCRIPTION_DURATION_SECONDS < input_duration
           then Inl (ProtocolError ''audio must not exceed 60 seconds for transcription'')
           else bind_result (normalized_pcm16_levels pcm) (\<lambda>(peak, rms).
             bind_result (apply_transcription_gain pcm peak rms) (\<lambda>(amplified, gain).
               let trimmed = trim_transcription_silence amplified
               in Inr \<lparr>pa_pcm = trimmed, pa_duration = true_div (int (length trimmed)) (int (STT_SAMPLE_RATE * 2)),
                    pa_input_duration = input_duration, pa_peak = peak, pa_rms = rms, pa_gain = gain\<rparr>)))"

section \<open>The streaming calibrator\<close>

record calibration_frame =
  tf_peak :: int
  tf_square_sum :: int
  tf_sample_count :: nat

definition tf_rms :: "calibration_frame \<Rightarrow> rat" where
  "tf_rms f = rms_level (tf_square_sum f) (tf_sample_count f)"

definition frame_of_bytes :: "bytes \<Rightarrow> calibration_frame" where
  "frame_of_bytes bs =
     (let vs = samples_of_bytes bs
      in \<lparr>tf_peak = max_magnitude vs, tf_square_sum = square_sum vs, tf_sample_count = length vs\<rparr>)"

record calibration =
  cal_gain :: rat
  cal_onset :: nat

record calibrator =
  tc_partial :: bytes
  tc_window :: "(nat \<times> calibration_frame) list"
  tc_probe :: "calibration_frame list option"
  tc_onset :: "nat option"
  tc_quiet :: "calibration_frame list"
  tc_frames :: nat
  tc_analyzed :: nat

definition new_calibrator :: calibrator where
  "new_calibrator =
     \<lparr>tc_partial = [], tc_window = [], tc_probe = None, tc_onset = None, tc_quiet = [], tc_frames = 0, tc_analyzed = 0\<rparr>"

definition calibration_levels :: "calibration_frame list \<Rightarrow> rat \<times> rat" where
  "calibration_levels fs =
     (true_div (Max (set (map tf_peak fs))) 32768,
      rms_level (sum_list (map tf_square_sum fs)) (sum_list (map tf_sample_count fs)))"

definition gain_for_frames :: "calibration_frame list \<Rightarrow> rat" where
  "gain_for_frames fs = (case calibration_levels fs of (peak, rms) \<Rightarrow> transcription_gain_for_levels peak rms)"

definition quiet_threshold :: "rat list \<Rightarrow> rat" where
  "quiet_threshold levels =
     (let sorted_levels = sort levels;
          floor_level = sorted_levels ! (length sorted_levels div 5)
      in max (max QUIET_MIN_FRAME_RMS (fl (floor_level * QUIET_NOISE_RATIO))) (fl (floor_level + QUIET_NOISE_MARGIN)))"

text \<open>Quiet speech against steady noise, on the newest frames.\<close>

definition quiet_speech_calibration :: "calibrator \<Rightarrow> calibration option" where
  "quiet_speech_calibration s =
     (if length (tc_quiet s) < quiet_frames then None
      else
        let fs = tc_quiet s; levels = map tf_rms fs
        in case first_sustained_frame levels (quiet_threshold levels) of
             None \<Rightarrow> None
           | Some onset \<Rightarrow>
               if length fs < onset + probe_frames then None
               else (case calibration_levels (take probe_frames (drop onset fs)) of
                       (peak, rms) \<Rightarrow>
                         if peak < QUIET_MIN_PEAK \<or> rms < QUIET_MIN_RMS \<or> fl (peak / rms) < QUIET_MIN_CREST_FACTOR
                         then None
                         else Some \<lparr>cal_gain = transcription_gain_for_levels peak rms,
                                    cal_onset = tc_frames s - length fs + onset\<rparr>))"

text \<open>The search for loud speech, or one more frame of its probe.\<close>

definition search_loud :: "calibration_frame \<Rightarrow> calibrator \<Rightarrow> calibrator" where
  "search_loud f s =
     (case tc_probe s of
        Some probe \<Rightarrow> s\<lparr>tc_probe := Some (probe @ [f])\<rparr>
      | None \<Rightarrow>
          let window = newest TRIM_ACTIVE_WINDOW_FRAMES (tc_window s @ [(tc_frames s, f)]);
              active = map (\<lambda>p. STREAM_ACTIVATION_RMS \<le> tf_rms (snd p)) window;
              onset = fst (window ! index_true active)
          in if TRIM_MIN_ACTIVE_FRAMES \<le> count_true active
             then s\<lparr>tc_window := window, tc_onset := Some onset,
                    tc_probe := Some (map snd (filter (\<lambda>p. onset \<le> fst p) window))\<rparr>
             else s\<lparr>tc_window := window\<rparr>)"

definition feed_frame :: "calibration_frame \<Rightarrow> calibrator \<Rightarrow> calibration option \<times> calibrator" where
  "feed_frame f s =
     (let s1 = (search_loud f s)\<lparr>tc_frames := tc_frames s + 1, tc_quiet := newest quiet_frames (tc_quiet s @ [f])\<rparr>
      in case tc_probe s1 of
           Some probe \<Rightarrow>
             if probe_frames \<le> length probe
             then (Some \<lparr>cal_gain = gain_for_frames (take probe_frames probe), cal_onset = the (tc_onset s1)\<rparr>, s1)
             else (quiet_speech_calibration s1, s1)
         | None \<Rightarrow> (quiet_speech_calibration s1, s1))"

lemma feed_frame_partial: "tc_partial (snd (feed_frame f s)) = tc_partial s"
  by (auto simp: feed_frame_def search_loud_def Let_def split: option.split)

text \<open>The complete frames of the buffer, until a calibration clears it.\<close>

function analyze :: "calibrator \<Rightarrow> calibration option \<times> calibrator" where
  "analyze s =
     (if length (tc_partial s) < frame_bytes then (None, s)
      else
        (case feed_frame (frame_of_bytes (take frame_bytes (tc_partial s)))
                (s\<lparr>tc_analyzed := tc_analyzed s + frame_samples, tc_partial := drop frame_bytes (tc_partial s)\<rparr>) of
           (Some c, s1) \<Rightarrow> (Some c, s1\<lparr>tc_partial := []\<rparr>)
         | (None, s1) \<Rightarrow> analyze s1))"
  by pat_completeness auto
termination
proof (relation "measure (\<lambda>s. length (tc_partial s))", goal_cases)
  case (2 s r s1)
  then have "s1 = snd (feed_frame (frame_of_bytes (take frame_bytes (tc_partial s)))
      (s\<lparr>tc_analyzed := tc_analyzed s + frame_samples, tc_partial := drop frame_bytes (tc_partial s)\<rparr>))"
    by (metis snd_conv)
  then show ?case using 2(1) by (simp add: feed_frame_partial)
qed simp

declare analyze.simps [simp del]

definition feed_calibrator :: "bytes \<Rightarrow> calibrator \<Rightarrow> calibration option \<times> calibrator" where
  "feed_calibrator pcm s =
     (if pcm = [] then (None, s) else analyze (s\<lparr>tc_partial := tc_partial s @ pcm\<rparr>))"

section \<open>The streaming normalizer\<close>

record normalizer =
  nm_pending :: bytes
  nm_start :: nat
  nm_calibrator :: calibrator
  nm_gain :: "rat option"
  nm_assisted :: bool
  nm_output :: nat

definition new_normalizer :: normalizer where
  "new_normalizer =
     \<lparr>nm_pending = [], nm_start = 0, nm_calibrator = new_calibrator, nm_gain = None, nm_assisted = False, nm_output = 0\<rparr>"

definition bound_pending_preroll :: "normalizer \<Rightarrow> normalizer" where
  "bound_pending_preroll s =
     (let excess = length (nm_pending s) - max_pending_bytes; discard = excess - excess mod frame_bytes
      in s\<lparr>nm_pending := drop discard (nm_pending s), nm_start := nm_start s + discard\<rparr>)"

definition emit :: "bytes \<Rightarrow> normalizer \<Rightarrow> bytes result \<times> normalizer" where
  "emit out s = (Inr out, s\<lparr>nm_output := nm_output s + length out\<rparr>)"

text \<open>The first output, once the calibrator has found speech.\<close>

definition open_stream :: "calibration \<Rightarrow> normalizer \<Rightarrow> bytes result \<times> normalizer" where
  "open_stream c s =
     (let output_start = cal_onset c * frame_bytes - preroll_bytes;
          discard = output_start - nm_start s;
          s1 = s\<lparr>nm_gain := Some (cal_gain c), nm_assisted := 1 < cal_gain c,
                 nm_pending := drop discard (nm_pending s), nm_start := nm_start s + discard\<rparr>
      in case apply_pcm16_gain (nm_pending s1) (cal_gain c) of
           Inl e \<Rightarrow> (Inl e, s1)
         | Inr out \<Rightarrow> emit out (s1\<lparr>nm_pending := []\<rparr>))"

definition lower_gain :: "rat \<Rightarrow> rat \<Rightarrow> rat" where
  "lower_gain peak gain = (if 0 < peak then max 1 (min gain (fl (TARGET_PEAK / peak))) else gain)"

definition normalize :: "bytes \<Rightarrow> normalizer \<Rightarrow> bytes result \<times> normalizer" where
  "normalize pcm s =
     (if pcm = [] then (Inr [], s)
      else case nm_gain s of
        None \<Rightarrow>
          let fed = feed_calibrator pcm (nm_calibrator s);
              s1 = s\<lparr>nm_pending := nm_pending s @ pcm, nm_calibrator := snd fed\<rparr>
          in (case fst fed of
                None \<Rightarrow> (Inr [], bound_pending_preroll s1)
              | Some c \<Rightarrow> open_stream c s1)
      | Some gain \<Rightarrow>
          (case normalized_pcm16_levels pcm of
             Inl e \<Rightarrow> (Inl e, s)
           | Inr (peak, rms) \<Rightarrow>
               let gain1 = lower_gain peak gain; s1 = s\<lparr>nm_gain := Some gain1\<rparr>
               in (case apply_pcm16_gain pcm gain1 of
                     Inl e \<Rightarrow> (Inl e, s1)
                   | Inr out \<Rightarrow> emit out s1)))"

end
