(* ===== verification/Calibration_Streams.thy ===== *)
theory Calibration_Streams
  imports Calibration
begin

text \<open>
  What the level code guarantees: trimming removes silence only, the streaming calibrator does not depend
  on how the stream is cut into chunks, and the normalizer with its bounded buffer emits what one that
  keeps the whole stream would.
\<close>

section \<open>Trimming\<close>

lemma frame_levels_nth:
  "i < length (frame_levels vs) \<Longrightarrow>
   frame_levels vs ! i = rms_level (square_sum (take 480 (drop (480 * i) vs))) (length (take 480 (drop (480 * i) vs)))"
proof (induction vs arbitrary: i rule: frame_levels.induct)
  case (1 vs)
  show ?case
  proof (cases "vs = []")
    case False
    then show ?thesis
      using 1 by (cases i) (simp_all add: frame_levels.simps [of vs] add.commute)
  qed (use 1 in \<open>simp add: frame_levels.simps\<close>)
qed

lemma first_loud_below:
  "i < first_loud threshold levels \<Longrightarrow> i < length levels \<and> levels ! i < threshold"
  unfolding first_loud_def by (metis (mono_tags, lifting) length_takeWhile_le nth_mem order.strict_trans2 set_takeWhileD takeWhile_nth)

lemma trimmed_silence:
  assumes "0 < trimmed_frames levels" "i < trimmed_frames levels + 16"
  shows "i < length levels \<and> levels ! i < active_threshold levels"
proof -
  obtain onset where onset: "speech_onset levels = Some onset" "trimmed_frames levels = onset - 16"
    using assms(1) by (auto simp: trimmed_frames_def TRIM_PREROLL_MS_def TRIM_FRAME_MS_def Let_def split: if_splits option.splits)
  then obtain preserved where "onset = first_loud (active_threshold levels) (take preserved levels)"
    by (auto simp: speech_onset_def Let_def split: option.splits)
  moreover have "i < onset" using onset(2) assms by simp
  ultimately show ?thesis
    using first_loud_below [of i "active_threshold levels" "take preserved levels"] by auto
qed

lemma trimmed_enough: "trimmed_frames levels = 0 \<or> 100 \<le> trimmed_frames levels"
  by (auto simp: trimmed_frames_def TRIM_MIN_REMOVABLE_MS_def TRIM_FRAME_MS_def Let_def split: option.split)

text \<open>Trimming never removes speech. It removes a whole number of 20 ms frames from the start, at least two
  seconds or nothing, and every removed frame, as well as the 320 ms kept before the onset, has a level below
  the activity threshold computed from the clip; the rest of the clip is unchanged.\<close>
theorem trimming_removes_silence:
  "let vs = samples_of_bytes pcm; levels = frame_levels vs; n = trimmed_frames levels
   in trim_transcription_silence pcm = (if odd (length pcm) then pcm else drop (n * 960) pcm) \<and>
      (n = 0 \<or> 100 \<le> n) \<and>
      list_all (\<lambda>i. rms_level (square_sum (take 480 (drop (480 * i) vs))) (length (take 480 (drop (480 * i) vs))) <
          active_threshold levels) [0..<if n = 0 then 0 else n + 16]"
proof -
  let ?vs = "samples_of_bytes pcm"
  let ?n = "trimmed_frames (frame_levels ?vs)"
  have "rms_level (square_sum (take 480 (drop (480 * i) ?vs))) (length (take 480 (drop (480 * i) ?vs))) <
      active_threshold (frame_levels ?vs)" if "?n \<noteq> 0" "i < ?n + 16" for i
    using trimmed_silence [of "frame_levels ?vs" i] frame_levels_nth [of i ?vs] that by simp
  moreover have "trim_transcription_silence pcm = (if odd (length pcm) then pcm else drop (?n * 960) pcm)"
    by (simp add: trim_transcription_silence_def mult.assoc)
  ultimately show ?thesis
    using trimmed_enough [of "frame_levels ?vs"] by (simp add: Let_def list_all_iff)
qed

section \<open>Gain\<close>

lemma gain_range: "1 \<le> transcription_gain_for_levels peak rms \<and> transcription_gain_for_levels peak rms \<le> 64"
  by (auto simp: transcription_gain_for_levels_def MAX_GAIN_def)

lemma lower_gain_range: "1 \<le> gain \<Longrightarrow> 1 \<le> lower_gain peak gain \<and> lower_gain peak gain \<le> gain"
  by (auto simp: lower_gain_def)

lemma amplify_range: "is_pcm16 (amplify gain v)"
  by (auto simp: amplify_def is_pcm16_def)

lemma apply_gain_samples:
  assumes "apply_pcm16_gain pcm gain = Inr out"
  shows "length out = length pcm \<and>
    samples_of_bytes out = (if gain \<le> 1 then samples_of_bytes pcm else map (amplify gain) (samples_of_bytes pcm))"
proof (cases "pcm = [] \<or> gain \<le> 1")
  case True
  then show ?thesis using assms by (auto simp: apply_pcm16_gain_def)
next
  case False
  then have e: "even (length pcm)" and out: "out = bytes_of_samples (map (amplify gain) (samples_of_bytes pcm))"
    using assms by (auto simp: apply_pcm16_gain_def pcm_samples_def split: if_splits)
  have "samples_of_bytes out = map (amplify gain) (samples_of_bytes pcm)"
    unfolding out by (rule samples_of_bytes_of_samples) (auto simp: amplify_range)
  moreover have "length out = length pcm"
    using e by (simp add: out length_bytes_of_samples length_samples_of_bytes)
  ultimately show ?thesis using False by simp
qed

section \<open>Chunks of a stream\<close>

lemma search_partial: "search_loud f (s\<lparr>tc_partial := p\<rparr>) = (search_loud f s)\<lparr>tc_partial := p\<rparr>"
  by (simp add: search_loud_def Let_def split: option.split)

lemma quiet_partial: "quiet_speech_calibration (s\<lparr>tc_partial := p\<rparr>) = quiet_speech_calibration s"
  by (simp add: quiet_speech_calibration_def Let_def split: option.split prod.split)

lemma feed_frame_at:
  "feed_frame f (s\<lparr>tc_partial := p\<rparr>) = (fst (feed_frame f s), (snd (feed_frame f s))\<lparr>tc_partial := p\<rparr>)"
proof -
  let ?s = "(search_loud f s)\<lparr>tc_frames := tc_frames s + 1, tc_quiet := newest quiet_frames (tc_quiet s @ [f])\<rparr>"
  have "(search_loud f (s\<lparr>tc_partial := p\<rparr>))\<lparr>tc_frames := tc_frames s + 1, tc_quiet := newest quiet_frames (tc_quiet s @ [f])\<rparr> =
      ?s\<lparr>tc_partial := p\<rparr>" by (simp add: search_partial)
  then show ?thesis
    by (simp add: feed_frame_def Let_def quiet_partial split: option.split)
qed

lemma analyze_short: "length (tc_partial s) < 960 \<Longrightarrow> analyze s = (None, s)"
  by (simp add: analyze.simps)

lemma analyze_ready: "analyze s = (None, s1) \<Longrightarrow> length (tc_partial s1) < 960"
proof (induction s rule: analyze.induct)
  case (1 s)
  show ?case
  proof (cases "length (tc_partial s) < 960")
    case False
    let ?f = "feed_frame (frame_of_bytes (take frame_bytes (tc_partial s)))
        (s\<lparr>tc_analyzed := tc_analyzed s + frame_samples, tc_partial := drop frame_bytes (tc_partial s)\<rparr>)"
    obtain r s2 where f: "?f = (r, s2)" by fastforce
    show ?thesis
      using 1(1) [OF _ f [symmetric]] 1(2) False f by (cases r) (auto simp: analyze.simps [of s])
  qed (use 1(2) in \<open>simp add: analyze_short\<close>)
qed

text \<open>More bytes at the end of the buffer are looked at after everything before them.\<close>

lemma analyze_append:
  "analyze (s\<lparr>tc_partial := tc_partial s @ ys\<rparr>) =
     (case analyze s of
        (Some c, s1) \<Rightarrow> (Some c, s1)
      | (None, s1) \<Rightarrow> analyze (s1\<lparr>tc_partial := tc_partial s1 @ ys\<rparr>))"
proof (induction s rule: analyze.induct)
  case (1 s)
  show ?case
  proof (cases "length (tc_partial s) < 960")
    case False
    let ?s = "s\<lparr>tc_analyzed := tc_analyzed s + 480, tc_partial := drop 960 (tc_partial s)\<rparr>"
    let ?f = "feed_frame (frame_of_bytes (take 960 (tc_partial s))) ?s"
    obtain r s2 where f: "?f = (r, s2)" by fastforce
    have p2: "tc_partial s2 = drop 960 (tc_partial s)"
      using feed_frame_partial [of "frame_of_bytes (take 960 (tc_partial s))" ?s] f by simp
    have "feed_frame (frame_of_bytes (take 960 (tc_partial s))) (?s\<lparr>tc_partial := drop 960 (tc_partial s) @ ys\<rparr>) =
        (r, s2\<lparr>tc_partial := tc_partial s2 @ ys\<rparr>)"
      using feed_frame_at [where f = "frame_of_bytes (take 960 (tc_partial s))" and s = ?s
          and p = "drop 960 (tc_partial s) @ ys"] f p2 by simp
    then have "analyze (s\<lparr>tc_partial := tc_partial s @ ys\<rparr>) =
        (case r of Some c \<Rightarrow> (Some c, s2\<lparr>tc_partial := []\<rparr>) | None \<Rightarrow> analyze (s2\<lparr>tc_partial := tc_partial s2 @ ys\<rparr>))"
      using False by (subst analyze.simps) (simp split: option.split)
    moreover have "analyze s = (case r of Some c \<Rightarrow> (Some c, s2\<lparr>tc_partial := []\<rparr>) | None \<Rightarrow> analyze s2)"
      using False f by (subst analyze.simps) (simp split: option.split)
    moreover have "analyze (s2\<lparr>tc_partial := tc_partial s2 @ ys\<rparr>) =
        (case analyze s2 of (Some c, s1) \<Rightarrow> (Some c, s1) | (None, s1) \<Rightarrow> analyze (s1\<lparr>tc_partial := tc_partial s1 @ ys\<rparr>))"
      if "r = None"
      using 1 [OF _ _ that] False f by simp
    ultimately show ?thesis by (cases r) simp_all
  qed (simp add: analyze_short)
qed

definition ready :: "calibrator \<Rightarrow> bool" where
  "ready s \<longleftrightarrow> length (tc_partial s) < 960"

lemma feed_analyze: "ready s \<Longrightarrow> feed_calibrator pcm s = analyze (s\<lparr>tc_partial := tc_partial s @ pcm\<rparr>)"
  by (simp add: feed_calibrator_def ready_def analyze_short)

lemma feed_ready: "ready s \<Longrightarrow> feed_calibrator pcm s = (None, s1) \<Longrightarrow> ready s1"
  by (auto simp: feed_analyze ready_def dest: analyze_ready)

lemma feed_append:
  assumes "ready s"
  shows "feed_calibrator (xs @ ys) s =
     (case feed_calibrator xs s of (Some c, s1) \<Rightarrow> (Some c, s1) | (None, s1) \<Rightarrow> feed_calibrator ys s1)"
proof -
  have "feed_calibrator ys s1 = analyze (s1\<lparr>tc_partial := tc_partial s1 @ ys\<rparr>)" if "feed_calibrator xs s = (None, s1)" for s1
    by (rule feed_analyze [OF feed_ready [OF assms that]])
  then show ?thesis
    using analyze_append [of "s\<lparr>tc_partial := tc_partial s @ xs\<rparr>" ys] assms
    by (auto simp: feed_analyze [OF assms] split: prod.splits option.splits)
qed

text \<open>The stream, chunk by chunk, until speech is found.\<close>

fun feed_chunks :: "bytes list \<Rightarrow> calibrator \<Rightarrow> calibration option \<times> calibrator" where
  "feed_chunks [] s = (None, s)"
| "feed_chunks (c # cs) s =
     (case feed_calibrator c s of (Some r, s1) \<Rightarrow> (Some r, s1) | (None, s1) \<Rightarrow> feed_chunks cs s1)"

lemma feed_chunks_concat: "ready s \<Longrightarrow> feed_chunks chunks s = feed_calibrator (concat chunks) s"
proof (induction chunks arbitrary: s)
  case (Cons c cs)
  then show ?case
    using feed_ready [OF Cons.prems, of c] by (auto simp: feed_append split: prod.split option.split)
qed (simp add: feed_calibrator_def)

lemma new_ready: "ready new_calibrator"
  by (simp add: ready_def new_calibrator_def)

text \<open>C36: The calibration does not depend on how the network cuts the stream: fed chunk by chunk, the calibrator
  finds speech with the same gain and the same onset frame, and keeps the same state, as when the whole stream
  is fed at once.\<close>
theorem calibration_chunk_free:
  "feed_chunks chunks new_calibrator = feed_calibrator (concat chunks) new_calibrator"
  by (rule feed_chunks_concat [OF new_ready])

section \<open>How far back an onset can lie\<close>

definition tracked :: "calibrator \<Rightarrow> bool" where
  "tracked s \<longleftrightarrow>
     length (tc_quiet s) = min 30 (tc_frames s) \<and>
     (case tc_probe s of
        None \<Rightarrow> length (tc_window s) \<le> 5 \<and> length (tc_window s) \<le> tc_frames s \<and>
          map fst (tc_window s) = [tc_frames s - length (tc_window s)..<tc_frames s]
      | Some probe \<Rightarrow> length probe < 10 \<and> (\<exists>onset. tc_onset s = Some onset \<and> onset + length probe = tc_frames s))"

lemma index_true_less: "0 < count_true bs \<Longrightarrow> index_true bs < length bs"
  by (induction bs) (auto simp: count_true_def)

lemma length_filter_fst: "length (filter (\<lambda>p. a \<le> fst p) ps) = length (filter (\<lambda>k. a \<le> k) (map fst ps))"
  by (induction ps) simp_all

lemma filter_upt: "b \<le> a \<Longrightarrow> length (filter (\<lambda>k. a \<le> k) [b..<c]) = c - (a :: nat)"
proof (induction c)
  case (Suc c)
  then show ?case by (cases "b \<le> c") (auto simp: not_le)
qed simp

lemma window_indices:
  assumes "length w \<le> 5" "length w \<le> n" "map fst w = [n - length w..<n]"
  shows "length (newest 5 (w @ [(n, f)])) = min 5 (Suc (length w)) \<and>
    map fst (newest 5 (w @ [(n, f)])) = [Suc n - min 5 (Suc (length w))..<Suc n]"
proof -
  have "map fst (newest 5 (w @ [(n, f)])) = newest 5 ([n - length w..<n] @ [n])"
    by (simp add: map_newest assms(3))
  also have "[n - length w..<n] @ [n] = [n - length w..<Suc n]" by simp
  also have "newest 5 \<dots> = drop (length w - 4) [n - length w..<Suc n]" using assms(2)
    by (simp add: newest_def del: upt_Suc)
  finally have e: "map fst (newest 5 (w @ [(n, f)])) = drop (length w - 4) [n - length w..<Suc n]" .
  show ?thesis
  proof (cases "length w = 5")
    case True
    then have "n - 5 + 1 = n - 4" using assms(2) by linarith
    then show ?thesis using True e by (simp add: length_newest drop_upt del: upt_Suc)
  next
    case False
    then have "length w - 4 = 0" "min 5 (Suc (length w)) = Suc (length w)" using assms(1) by simp_all
    then show ?thesis using e by (simp add: length_newest del: upt_Suc)
  qed
qed

lemma search_tracked:
  assumes "tracked s"
  shows "case tc_probe (search_loud f s) of
      None \<Rightarrow> length (tc_window (search_loud f s)) \<le> 5 \<and> length (tc_window (search_loud f s)) \<le> Suc (tc_frames s) \<and>
        map fst (tc_window (search_loud f s)) = [Suc (tc_frames s) - length (tc_window (search_loud f s))..<Suc (tc_frames s)]
    | Some probe \<Rightarrow> length probe \<le> 10 \<and>
        (\<exists>onset. tc_onset (search_loud f s) = Some onset \<and> onset + length probe = Suc (tc_frames s))"
proof (cases "tc_probe s")
  case (Some probe)
  then show ?thesis using assms by (auto simp: tracked_def search_loud_def)
next
  case None
  let ?n = "tc_frames s"
  let ?w = "newest 5 (tc_window s @ [(?n, f)])"
  let ?m = "min 5 (Suc (length (tc_window s)))"
  let ?active = "map (\<lambda>p. STREAM_ACTIVATION_RMS \<le> tf_rms (snd p)) ?w"
  let ?i = "index_true ?active"
  have w: "length ?w = ?m" "map fst ?w = [Suc ?n - ?m..<Suc ?n]"
    using window_indices [of "tc_window s" ?n f] None assms by (simp_all add: tracked_def)
  have m: "?m \<le> Suc ?n" using None assms by (auto simp: tracked_def)
  show ?thesis
  proof (cases "3 \<le> count_true ?active")
    case True
    then have i: "?i < ?m" using index_true_less [of ?active] w(1) by simp
    then have "fst (?w ! ?i) = map fst ?w ! ?i" using w(1) by simp
    also have "\<dots> = Suc ?n - ?m + ?i" using i m by (simp add: w(2) del: upt_Suc)
    finally have onset: "fst (?w ! ?i) = Suc ?n - ?m + ?i" .
    have "length (filter (\<lambda>p. Suc ?n - ?m + ?i \<le> fst p) ?w) = Suc ?n - (Suc ?n - ?m + ?i)"
      by (simp add: length_filter_fst w(2) filter_upt del: upt_Suc)
    then have l: "length (filter (\<lambda>p. fst (?w ! ?i) \<le> fst p) ?w) \<le> 10"
        "fst (?w ! ?i) + length (filter (\<lambda>p. fst (?w ! ?i) \<le> fst p) ?w) = Suc ?n"
      using i m unfolding onset by linarith+
    have "search_loud f s = s\<lparr>tc_window := ?w, tc_onset := Some (fst (?w ! ?i)),
        tc_probe := Some (map snd (filter (\<lambda>p. fst (?w ! ?i) \<le> fst p) ?w))\<rparr>"
      using True None by (simp add: search_loud_def Let_def TRIM_ACTIVE_WINDOW_FRAMES_def TRIM_MIN_ACTIVE_FRAMES_def)
    then show ?thesis using l by simp
  next
    case False
    then show ?thesis
      using None w m by (simp add: search_loud_def Let_def TRIM_ACTIVE_WINDOW_FRAMES_def TRIM_MIN_ACTIVE_FRAMES_def del: upt_Suc)
  qed
qed

lemma quiet_onset:
  "quiet_speech_calibration s = Some c \<Longrightarrow> length (tc_quiet s) \<le> 30 \<Longrightarrow> tc_frames s \<le> cal_onset c + 30"
  by (auto simp: quiet_speech_calibration_def Let_def split: if_splits option.splits prod.splits)

lemma feed_frame_tracked:
  assumes "tracked s" "feed_frame f s = (r, s1)"
  shows "tc_frames s1 = Suc (tc_frames s) \<and> (r = None \<longrightarrow> tracked s1) \<and>
    (\<forall>c. r = Some c \<longrightarrow> Suc (tc_frames s) \<le> cal_onset c + 30)"
proof -
  let ?s = "(search_loud f s)\<lparr>tc_frames := tc_frames s + 1, tc_quiet := newest quiet_frames (tc_quiet s @ [f])\<rparr>"
  note search = search_tracked [OF assms(1), of f]
  have q: "length (tc_quiet ?s) = min 30 (Suc (tc_frames s))"
    using assms(1) by (simp add: length_newest tracked_def)
  show ?thesis
  proof (cases "tc_probe (search_loud f s)")
    case None
    then have "r = quiet_speech_calibration ?s \<and> s1 = ?s" using assms(2) by (auto simp: feed_frame_def Let_def)
    then show ?thesis using search q quiet_onset [of ?s] None by (auto simp: tracked_def)
  next
    case (Some probe)
    show ?thesis
    proof (cases "10 \<le> length probe")
      case True
      then show ?thesis using assms(2) search Some by (auto simp: feed_frame_def Let_def)
    next
      case False
      then have "r = quiet_speech_calibration ?s \<and> s1 = ?s" using assms(2) Some by (auto simp: feed_frame_def Let_def)
      then show ?thesis using search q quiet_onset [of ?s] Some False by (auto simp: tracked_def)
    qed
  qed
qed

lemma tracked_frame: "tracked (s\<lparr>tc_analyzed := a, tc_partial := p\<rparr>) = tracked s" "tracked (s\<lparr>tc_partial := p\<rparr>) = tracked s"
  "tracked (s\<lparr>tc_analyzed := a\<rparr>) = tracked s"
  by (simp_all add: tracked_def split: option.split)

lemma analyze_tracked:
  "tracked s \<Longrightarrow> analyze s = (r, s1) \<Longrightarrow>
   (r = None \<longrightarrow> tracked s1 \<and> tc_frames s1 = tc_frames s + length (tc_partial s) div 960) \<and>
   (\<forall>c. r = Some c \<longrightarrow> Suc (tc_frames s) \<le> cal_onset c + 30)"
proof (induction s rule: analyze.induct)
  case (1 s)
  show ?case
  proof (cases "length (tc_partial s) < 960")
    case True
    then show ?thesis using 1(2,3) by (auto simp: analyze_short)
  next
    case False
    let ?s = "s\<lparr>tc_analyzed := tc_analyzed s + frame_samples, tc_partial := drop frame_bytes (tc_partial s)\<rparr>"
    let ?f = "frame_of_bytes (take frame_bytes (tc_partial s))"
    obtain r2 s2 where f: "feed_frame ?f ?s = (r2, s2)" by fastforce
    have t: "tracked ?s" using 1(2) by (simp add: tracked_frame)
    note step = feed_frame_tracked [OF t f]
    have p: "tc_partial s2 = tc_partial ?s" using feed_frame_partial [of ?f ?s] f by simp
    have d: "length (tc_partial s) div 960 = Suc ((length (tc_partial s) - 960) div 960)"
      using False by (simp add: le_div_geq)
    show ?thesis
    proof (cases r2)
      case None
      have "analyze s = analyze s2" using False f None by (simp add: analyze.simps [of s])
      moreover have "tracked s2" using step None by simp
      ultimately show ?thesis
        using 1(1) [OF _ f [symmetric] None] 1(3) False step p d by auto
    next
      case (Some c)
      then show ?thesis using 1(3) False f step by (auto simp: analyze.simps [of s])
    qed
  qed
qed

section \<open>The normalizer with a bounded buffer\<close>

text \<open>What a normalizer that keeps the whole stream emits when the last chunk is the one that reveals speech.\<close>

definition whole_stream_output :: "bytes \<Rightarrow> bytes result" where
  "whole_stream_output stream =
     (case fst (feed_calibrator stream new_calibrator) of
        None \<Rightarrow> Inr []
      | Some c \<Rightarrow> apply_pcm16_gain (drop (cal_onset c * frame_bytes - preroll_bytes) stream) (cal_gain c))"

fun normalize_chunks :: "bytes list \<Rightarrow> normalizer \<Rightarrow> normalizer" where
  "normalize_chunks [] s = s"
| "normalize_chunks (c # cs) s = normalize_chunks cs (snd (normalize c s))"

definition holds_back :: "bytes \<Rightarrow> normalizer \<Rightarrow> bool" where
  "holds_back xs s \<longleftrightarrow>
     feed_calibrator xs new_calibrator = (None, nm_calibrator s) \<and>
     nm_pending s = drop (nm_start s) xs \<and> nm_start s mod 960 = 0 \<and>
     (nm_start s = 0 \<or> nm_start s + 46 * 960 \<le> length xs) \<and>
     length (nm_pending s) < 47 * 960"

lemma fed_tracked:
  assumes "feed_calibrator xs new_calibrator = (None, c)"
  shows "ready c" "tracked c" "tc_frames c = length xs div 960"
proof -
  have a: "analyze (new_calibrator\<lparr>tc_partial := xs\<rparr>) = (None, c)"
    using assms by (simp add: feed_analyze [OF new_ready]) (simp add: new_calibrator_def)
  have t: "tracked (new_calibrator\<lparr>tc_partial := xs\<rparr>)" by (simp add: tracked_def new_calibrator_def)
  show "ready c" by (rule feed_ready [OF new_ready assms])
  show "tracked c" "tc_frames c = length xs div 960"
    using analyze_tracked [OF t a] by (simp_all add: new_calibrator_def)
qed

lemma fed_onset:
  assumes "feed_calibrator xs new_calibrator = (None, c)" "feed_calibrator ys c = (Some r, c1)"
  shows "length xs div 960 < cal_onset r + 30"
proof -
  note f = fed_tracked [OF assms(1)]
  have "analyze (c\<lparr>tc_partial := tc_partial c @ ys\<rparr>) = (Some r, c1)"
    using assms(2) by (simp add: feed_analyze [OF f(1)])
  from analyze_tracked [OF _ this] f show ?thesis by (simp add: tracked_frame)
qed

lemma bound_pending_holds:
  assumes "feed_calibrator xs new_calibrator = (None, nm_calibrator s)" "nm_pending s = drop (nm_start s) xs"
    "nm_start s mod 960 = 0" "nm_start s = 0 \<or> nm_start s + 46 * 960 \<le> length xs"
  shows "holds_back xs (bound_pending_preroll s)"
proof -
  let ?excess = "length (nm_pending s) - 46 * 960"
  define d where "d = ?excess - ?excess mod 960"
  have "d mod 960 = 0" by (simp add: d_def minus_mod_eq_mult_div)
  then have "(nm_start s + d) mod 960 = 0" using assms(3) by (metis add_0 mod_add_eq mod_0)
  moreover have "nm_start s + d = 0 \<or> nm_start s + d + 46 * 960 \<le> length xs"
    using assms(2,4) by (auto simp: d_def)
  moreover have "length (nm_pending s) - d < 47 * 960"
  proof -
    have "?excess mod 960 < 960" by simp
    then show ?thesis unfolding d_def by linarith
  qed
  moreover have "bound_pending_preroll s = s\<lparr>nm_pending := drop d (nm_pending s), nm_start := nm_start s + d\<rparr>"
    by (simp only: bound_pending_preroll_def Let_def d_def frame_constants)
  ultimately show ?thesis using assms(1,2) by (simp add: holds_back_def add.commute)
qed

lemma holds_back_append:
  assumes "holds_back xs s"
  shows "nm_pending s @ pcm = drop (nm_start s) (xs @ pcm)"
    "feed_calibrator pcm (nm_calibrator s) = feed_calibrator (xs @ pcm) new_calibrator"
proof -
  have e: "feed_calibrator xs new_calibrator = (None, nm_calibrator s)" and p: "nm_pending s = drop (nm_start s) xs"
    and l: "nm_start s \<le> length xs" using assms by (auto simp: holds_back_def)
  show "feed_calibrator pcm (nm_calibrator s) = feed_calibrator (xs @ pcm) new_calibrator"
    using feed_append [OF new_ready, of xs pcm] e by simp
  show "nm_pending s @ pcm = drop (nm_start s) (xs @ pcm)" using p l by simp
qed

lemma normalize_quiet:
  assumes "holds_back xs s" "nm_gain s = None" "fst (feed_calibrator (xs @ pcm) new_calibrator) = None" "pcm \<noteq> []"
  shows "fst (normalize pcm s) = Inr []" "holds_back (xs @ pcm) (snd (normalize pcm s))"
    "nm_gain (snd (normalize pcm s)) = None"
proof -
  note h = holds_back_append [OF assms(1), of pcm]
  let ?s = "s\<lparr>nm_pending := nm_pending s @ pcm, nm_calibrator := snd (feed_calibrator pcm (nm_calibrator s))\<rparr>"
  have n: "normalize pcm s = (Inr [], bound_pending_preroll ?s)"
    using assms(2-4) h(2) by (simp add: normalize_def Let_def)
  show "fst (normalize pcm s) = Inr []" by (simp add: n)
  show "nm_gain (snd (normalize pcm s)) = None"
    using assms(2) by (simp add: n bound_pending_preroll_def Let_def)
  have "feed_calibrator (xs @ pcm) new_calibrator = (None, nm_calibrator ?s)"
    using assms(3) h(2) by (simp add: prod_eq_iff)
  then show "holds_back (xs @ pcm) (snd (normalize pcm s))"
    unfolding n snd_conv
    by (rule bound_pending_holds) (use assms(1) h(1) in \<open>auto simp: holds_back_def\<close>)
qed

lemma fst_open_stream:
  "fst (open_stream c s) =
     apply_pcm16_gain (drop (cal_onset c * 960 - 16 * 960 - nm_start s) (nm_pending s)) (cal_gain c)"
  by (simp add: open_stream_def Let_def emit_def split: sum.split)

lemma normalize_opens:
  assumes "holds_back xs s" "nm_gain s = None" "fst (feed_calibrator (xs @ pcm) new_calibrator) = Some c" "pcm \<noteq> []"
  shows "fst (normalize pcm s) = apply_pcm16_gain (drop (cal_onset c * 960 - 16 * 960) (xs @ pcm)) (cal_gain c)"
    "nm_gain (snd (normalize pcm s)) = Some (cal_gain c)"
proof -
  note h = holds_back_append [OF assms(1), of pcm]
  obtain c1 where "feed_calibrator pcm (nm_calibrator s) = (Some c, c1)"
    using assms(3) h(2) by (cases "feed_calibrator (xs @ pcm) new_calibrator") simp
  then have "length xs div 960 < cal_onset c + 30"
    using fed_onset assms(1) by (auto simp: holds_back_def)
  moreover obtain k where "nm_start s = 960 * k" using assms(1) by (auto simp: holds_back_def)
  moreover have "nm_start s = 0 \<or> nm_start s + 46 * 960 \<le> length xs" using assms(1) by (simp add: holds_back_def)
  ultimately have start: "nm_start s \<le> cal_onset c * 960 - 16 * 960" by (cases "k = 0") auto
  let ?s = "s\<lparr>nm_pending := nm_pending s @ pcm, nm_calibrator := snd (feed_calibrator pcm (nm_calibrator s))\<rparr>"
  have n: "normalize pcm s = open_stream c ?s"
    using assms(2-4) h(2) by (simp add: normalize_def Let_def)
  have d: "drop (cal_onset c * 960 - 16 * 960 - nm_start s) (nm_pending s @ pcm) =
      drop (cal_onset c * 960 - 16 * 960) (xs @ pcm)"
    unfolding h(1) drop_drop using start by (simp only: le_add_diff_inverse2)
  show "fst (normalize pcm s) = apply_pcm16_gain (drop (cal_onset c * 960 - 16 * 960) (xs @ pcm)) (cal_gain c)"
    using d by (simp add: n fst_open_stream)
  show "nm_gain (snd (normalize pcm s)) = Some (cal_gain c)"
    unfolding n open_stream_def Let_def by (simp add: emit_def split: sum.split)
qed

lemma lowered_gain:
  assumes "nm_gain s = Some g"
  shows "\<exists>g'. nm_gain (snd (normalize pcm s)) = Some g' \<and> (1 \<le> g \<longrightarrow> 1 \<le> g' \<and> g' \<le> g)"
  using assms lower_gain_range [of g]
  by (auto simp: normalize_def emit_def Let_def split: sum.split prod.split)

lemma normalize_chunks_append:
  "normalize_chunks (cs @ ds) s = normalize_chunks ds (normalize_chunks cs s)"
  by (induction cs arbitrary: s) simp_all

lemma lowered_gains:
  "nm_gain s = Some g \<Longrightarrow>
   \<exists>g'. nm_gain (normalize_chunks cs s) = Some g' \<and> (1 \<le> g \<longrightarrow> 1 \<le> g' \<and> g' \<le> g)"
proof (induction cs arbitrary: s g)
  case (Cons c cs)
  obtain g1 where g1: "nm_gain (snd (normalize c s)) = Some g1" "1 \<le> g \<longrightarrow> 1 \<le> g1 \<and> g1 \<le> g"
    using lowered_gain [OF Cons.prems] by blast
  then show ?case using Cons.IH [OF g1(1)] by fastforce
qed simp

lemma held_back:
  "holds_back xs s \<Longrightarrow> nm_gain s = None \<Longrightarrow> nm_gain (normalize_chunks cs s) = None \<Longrightarrow>
   holds_back (xs @ concat cs) (normalize_chunks cs s)"
proof (induction cs arbitrary: xs s)
  case (Cons c cs)
  have gain: "nm_gain (snd (normalize c s)) = None"
    using lowered_gains [of "snd (normalize c s)" _ cs] Cons.prems(3) by (cases "nm_gain (snd (normalize c s))") auto
  have "holds_back (xs @ c) (snd (normalize c s))"
  proof (cases "c = []")
    case True
    then show ?thesis using Cons.prems(1) by (simp add: normalize_def)
  next
    case False
    then show ?thesis
      using normalize_quiet(2) [OF Cons.prems(1,2)] normalize_opens(2) [OF Cons.prems(1,2)] gain
      by (cases "fst (feed_calibrator (xs @ c) new_calibrator)") auto
  qed
  from Cons.IH [OF this gain] Cons.prems(3) show ?case by simp
qed simp

lemma new_holds_back: "holds_back [] new_normalizer"
  by (simp add: holds_back_def new_normalizer_def feed_calibrator_def)

text \<open>The bounded buffer loses nothing that is emitted. While no speech has been found, the normalizer keeps
  less than 0.94 s of audio; and the chunk that reveals speech yields exactly what a normalizer that had kept
  the whole stream would emit: everything from 320 ms before the onset, amplified by the calibrated gain.\<close>
theorem stream_normalizer_refines:
  assumes "nm_gain (normalize_chunks chunks new_normalizer) = None" "pcm \<noteq> []"
  shows "fst (normalize pcm (normalize_chunks chunks new_normalizer)) = whole_stream_output (concat chunks @ pcm) \<and>
    length (nm_pending (normalize_chunks chunks new_normalizer)) < 47 * 960"
proof -
  let ?s = "normalize_chunks chunks new_normalizer"
  have h: "holds_back (concat chunks) ?s"
    using held_back [OF new_holds_back _ assms(1)] by (simp add: new_normalizer_def)
  then have "length (nm_pending ?s) < 47 * 960" unfolding holds_back_def by blast
  then show ?thesis
    using normalize_quiet(1) [OF h assms(1) _ assms(2)] normalize_opens(1) [OF h assms(1) _ assms(2)]
    by (cases "fst (feed_calibrator (concat chunks @ pcm) new_calibrator)") (simp_all add: whole_stream_output_def)
qed

lemma quiet_gain: "quiet_speech_calibration s = Some c \<Longrightarrow> 1 \<le> cal_gain c \<and> cal_gain c \<le> 64"
  by (auto simp: quiet_speech_calibration_def Let_def gain_range split: if_splits option.splits prod.splits)

lemma frame_gain: "feed_frame f s = (Some c, s1) \<Longrightarrow> 1 \<le> cal_gain c \<and> cal_gain c \<le> 64"
  by (auto simp: feed_frame_def Let_def gain_for_frames_def calibration_levels_def gain_range quiet_gain split: if_splits option.splits)

lemma analyze_gain: "analyze s = (Some c, s1) \<Longrightarrow> 1 \<le> cal_gain c \<and> cal_gain c \<le> 64"
proof (induction s rule: analyze.induct)
  case (1 s)
  let ?f = "feed_frame (frame_of_bytes (take frame_bytes (tc_partial s)))
      (s\<lparr>tc_analyzed := tc_analyzed s + frame_samples, tc_partial := drop frame_bytes (tc_partial s)\<rparr>)"
  obtain r s2 where f: "?f = (r, s2)" by fastforce
  show ?case
    using 1(1) [OF _ f [symmetric]] 1(2) f frame_gain [of _ _ c s2]
    by (cases r) (auto simp: analyze.simps [of s] split: if_splits)
qed

lemma opened_gain: "nm_gain s = None \<Longrightarrow> nm_gain (snd (normalize pcm s)) = Some g \<Longrightarrow> 1 \<le> g \<and> g \<le> 64"
  using analyze_gain [of "nm_calibrator s\<lparr>tc_partial := tc_partial (nm_calibrator s) @ pcm\<rparr>"]
  by (auto simp: normalize_def feed_calibrator_def open_stream_def bound_pending_preroll_def emit_def Let_def prod_eq_iff
      split: if_splits option.splits sum.splits)

lemma stream_gain: "nm_gain s = None \<Longrightarrow> nm_gain (normalize_chunks cs s) = Some g \<Longrightarrow> 1 \<le> g \<and> g \<le> 64"
proof (induction cs arbitrary: s)
  case (Cons c cs)
  show ?case
  proof (cases "nm_gain (snd (normalize c s))")
    case None
    then show ?thesis using Cons by simp
  next
    case (Some g1)
    then show ?thesis
      using opened_gain [OF Cons.prems(1) Some] lowered_gains [OF Some, of cs] Cons.prems(2) by fastforce
  qed
qed simp

text \<open>The gain of a stream, once chosen, lies between 1 and 64, is never withdrawn and never rises,
  whatever audio follows.\<close>
theorem stream_gain_only_falls:
  "case nm_gain (normalize_chunks chunks new_normalizer) of
     None \<Rightarrow> True
   | Some g \<Rightarrow> 1 \<le> g \<and> g \<le> 64 \<and>
       (case nm_gain (normalize_chunks (chunks @ later) new_normalizer) of
          None \<Rightarrow> False
        | Some g' \<Rightarrow> 1 \<le> g' \<and> g' \<le> g)"
proof (cases "nm_gain (normalize_chunks chunks new_normalizer)")
  case (Some g)
  moreover have "nm_gain new_normalizer = None" by (simp add: new_normalizer_def)
  ultimately have "1 \<le> g \<and> g \<le> 64" by (rule stream_gain [rotated])
  then show ?thesis
    using Some lowered_gains [OF Some, of later] by (auto simp: normalize_chunks_append)
qed simp

section \<open>The theorems at a concrete input\<close>

lemma stream_normalizer_refines_witness:
  "fst (normalize [5, 0] (normalize_chunks [[1, 0], [2, 0, 3, 0]] new_normalizer)) =
     whole_stream_output (concat [[1, 0], [2, 0, 3, 0]] @ [5, 0]) \<and>
   length (nm_pending (normalize_chunks [[1, 0], [2, 0, 3, 0]] new_normalizer)) < 47 * 960"
  by (rule stream_normalizer_refines)
    (simp_all add: normalize_def new_normalizer_def new_calibrator_def feed_calibrator_def analyze_short
      bound_pending_preroll_def Let_def)

end
