(* ===== verification/Turn_Events.thy ===== *)
theory Turn_Events
  imports Conversation_Payload
begin

text \<open>
  The app-server events of one conversation socket in \<^verbatim>\<open>_run_conversation_socket\<close> of
  \<^verbatim>\<open>bridge/service.py\<close>: which event reaches the turn in progress, the events that arrive before
  \<^verbatim>\<open>turn/start\<close> has returned, the turn's future, and the answers to its tool calls. Every
  operation here runs under \<^verbatim>\<open>turn_event_lock\<close>.
\<close>

section \<open>State\<close>

definition MAX_EARLY_TURN_EVENTS :: nat where "MAX_EARLY_TURN_EVENTS = 64"

datatype turn_waiter = TurnWaits | TurnCompleted obj | TurnBroken py_error | TurnCancelled

record turn_events =
  te_active :: "string option"
  te_early :: "(string \<times> obj list) list"
  te_waiters :: "(string \<times> turn_waiter) list"
  te_tools :: "(string \<times> json) list"
  te_sent :: "obj list"

definition new_turn_events :: turn_events where
  "new_turn_events = \<lparr>te_active = None, te_early = [], te_waiters = [], te_tools = [], te_sent = []\<rparr>"

section \<open>Routing\<close>

definition turn_id_of :: "obj \<Rightarrow> string option" where
  "turn_id_of params =
     (case jget params ''turnId'' of
        JStr s \<Rightarrow> Some s
      | _ \<Rightarrow> (case jget params ''turn'' of JObj t \<Rightarrow> text_of (jget t ''id'') | _ \<Rightarrow> None))"

definition send_event :: "obj \<Rightarrow> turn_events \<Rightarrow> turn_events" where
  "send_event m s = s\<lparr>te_sent := te_sent s @ [m]\<rparr>"

definition settle_waiter :: "string \<Rightarrow> turn_waiter \<Rightarrow> turn_events \<Rightarrow> turn_events" where
  "settle_waiter t w s =
     (if map_of (te_waiters s) t = Some TurnWaits then s\<lparr>te_waiters := dict_set (te_waiters s) t w\<rparr> else s)"

definition is_error_event :: "json \<Rightarrow> bool" where
  "is_error_event name \<longleftrightarrow> name = JStr ''error'' \<or> name = JStr ''thread/realtime/error''"

definition tool_call_message :: "(pyfloat \<Rightarrow> string) \<Rightarrow> obj \<Rightarrow> obj \<Rightarrow> obj" where
  "tool_call_message frepr event params =
     [(''type'', JStr ''tool_call''), (''request_id'', jget event ''id''),
      (''call_id'', JStr (py_str frepr (jget_default params ''callId'' (jget event ''id'')))),
      (''name'', jget params ''tool''), (''namespace'', jget params ''namespace''),
      (''arguments'', jget_default params ''arguments'' (JObj []))]"

definition handle_active_turn_event ::
    "(pyfloat \<Rightarrow> string) \<Rightarrow> obj \<Rightarrow> obj \<Rightarrow> string \<Rightarrow> turn_events \<Rightarrow> turn_events" where
  "handle_active_turn_event frepr event params t s =
     (let name = jget event ''method'' in
      if name = JStr ''item/agentMessage/delta''
      then send_event [(''type'', JStr ''delta''), (''delta'', JStr (py_str frepr (jget_default params ''delta'' (JStr []))))] s
      else if name = JStr ''item/tool/call'' \<and> has_key event ''id''
      then send_event (tool_call_message frepr event params)
        (s\<lparr>te_tools := dict_set (te_tools s) (py_str frepr (jget_default params ''callId'' (jget event ''id''))) (jget event ''id'')\<rparr>)
      else if name = JStr ''item/started'' \<or> name = JStr ''item/completed'' then s
      else if name = JStr ''turn/completed'' then settle_waiter t (TurnCompleted params) s
      else if is_error_event name
      then settle_waiter t (TurnBroken (ProtocolError (py_str frepr (jget_default params ''message'' name)))) s
      else s)"

definition buffered_count :: "turn_events \<Rightarrow> nat" where
  "buffered_count s = sum_list (map (length \<circ> snd) (te_early s))"

text \<open>An event of the socket's turn, under the lock.\<close>

definition route_event :: "(pyfloat \<Rightarrow> string) \<Rightarrow> obj \<Rightarrow> obj \<Rightarrow> string \<Rightarrow> turn_events \<Rightarrow> turn_events" where
  "route_event frepr event params t s =
     (case te_active s of
        None \<Rightarrow>
          if buffered_count s < MAX_EARLY_TURN_EVENTS
          then s\<lparr>te_early := dict_set (te_early s) t
                 ((case map_of (te_early s) t of None \<Rightarrow> [] | Some es \<Rightarrow> es) @ [event])\<rparr>
          else s
      | Some active \<Rightarrow> if t \<noteq> active then s else handle_active_turn_event frepr event params t s)"

text \<open>
  The dispatcher on one event. \<open>owns\<close> and \<open>owns_locked\<close> say whether this socket owns the turn, before
  and after it waited for the lock. An error is raised after the conversation was retired.
\<close>

definition dispatch_event ::
    "(pyfloat \<Rightarrow> string) \<Rightarrow> string \<Rightarrow> bool \<Rightarrow> bool \<Rightarrow> obj \<Rightarrow> turn_events \<Rightarrow> unit result \<times> turn_events" where
  "dispatch_event frepr thread_id owns owns_locked event s =
     (if jget event ''method'' = JStr ''bridge/appServerExited''
      then (Inl (AppServerExited (''codex app-server exited with status '' @
              py_str frepr (case jget event ''params'' of JObj p \<Rightarrow> jget p ''returncode'' | _ \<Rightarrow> JNull))), s)
      else case jget event ''params'' of
        JObj params \<Rightarrow>
          if jget params ''threadId'' \<noteq> JStr thread_id \<or> \<not> owns then (Inr (), s)
          else (case turn_id_of params of
                  None \<Rightarrow>
                    if is_error_event (jget event ''method'')
                    then (Inl (ProtocolError (py_str frepr (jget_default params ''message'' (jget event ''method'')))), s)
                    else (Inr (), s)
                | Some t \<Rightarrow> (Inr (), if owns_locked then route_event frepr event params t s else s))
      | _ \<Rightarrow> (Inr (), s))"

section \<open>The turn's life\<close>

definition replay :: "(pyfloat \<Rightarrow> string) \<Rightarrow> string \<Rightarrow> obj list \<Rightarrow> turn_events \<Rightarrow> turn_events" where
  "replay frepr t buffered s =
     fold (\<lambda>event s. case jget event ''params'' of
         JObj params \<Rightarrow> handle_active_turn_event frepr event params t s | _ \<Rightarrow> s) buffered s"

text \<open>\<^verbatim>\<open>turn/start\<close> returned the turn's identifier.\<close>

definition turn_started :: "(pyfloat \<Rightarrow> string) \<Rightarrow> string \<Rightarrow> turn_events \<Rightarrow> turn_events" where
  "turn_started frepr t s =
     replay frepr t (case map_of (te_early s) t of None \<Rightarrow> [] | Some es \<Rightarrow> es)
       (s\<lparr>te_waiters := dict_set (te_waiters s) t TurnWaits, te_active := Some t, te_tools := [], te_early := []\<rparr>)"

definition turn_timed_out :: "string \<Rightarrow> turn_events \<Rightarrow> turn_events" where
  "turn_timed_out t s =
     s\<lparr>te_active := (if te_active s = Some t then None else te_active s), te_tools := [], te_early := []\<rparr>"

definition turn_left :: "string \<Rightarrow> turn_events \<Rightarrow> turn_events" where
  "turn_left t s =
     s\<lparr>te_waiters := dict_pop (te_waiters s) t,
       te_active := (if te_active s = Some t then None else te_active s), te_tools := [], te_early := []\<rparr>"

section \<open>Tool results\<close>

text \<open>The future's result after the wait, and the answer to a tool call.\<close>

definition request_matches :: "json \<Rightarrow> json \<Rightarrow> bool" where
  "request_matches supplied expected \<longleftrightarrow>
     supplied = JNull \<or>
     (case expected of JInt i \<Rightarrow> equals_int supplied i
      | JBool b \<Rightarrow> equals_int supplied (if b then 1 else 0)
      | _ \<Rightarrow> supplied = expected)"

definition result_text :: "(pyfloat \<Rightarrow> string) \<Rightarrow> obj \<Rightarrow> string" where
  "result_text frepr message =
     (case jget_default message ''result'' (jget_default message ''error'' (JStr [])) of
        JStr s \<Rightarrow> s | v \<Rightarrow> dumps frepr v)"

definition tool_result_response ::
    "(pyfloat \<Rightarrow> string) \<Rightarrow> obj \<Rightarrow> (string \<times> json) list \<Rightarrow> (string \<times> json \<times> obj) result" where
  "tool_result_response frepr message tools =
     (let call_id = jget_default message ''call_id'' (jget message ''id'');
          expected = (if call_id = JNull then JNull else jget tools (py_str frepr call_id))
      in if \<not> (case expected of JInt _ \<Rightarrow> True | JBool _ \<Rightarrow> True | JStr _ \<Rightarrow> True | _ \<Rightarrow> False)
         then Inl (ProtocolError ''tool_result does not match an active tool call'')
         else if \<not> request_matches (jget message ''request_id'') expected
         then Inl (ProtocolError ''tool_result request_id does not match its tool call'')
         else Inr (py_str frepr call_id, expected,
           [(''contentItems'', case jget message ''content_items'' of
               JArr items \<Rightarrow> JArr items
             | _ \<Rightarrow> JArr [JObj [(''type'', JStr ''inputText''), (''text'', JStr (result_text frepr message))]]),
            (''success'', JBool (truthy (jget_default message ''success'' (JBool True))))]))"

section \<open>Early events\<close>

definition dispatch_all :: "(pyfloat \<Rightarrow> string) \<Rightarrow> string \<Rightarrow> obj list \<Rightarrow> turn_events \<Rightarrow> turn_events" where
  "dispatch_all frepr thread_id events s =
     fold (\<lambda>event s. snd (dispatch_event frepr thread_id True True event s)) events s"

text \<open>The turn an event belongs to, when the dispatcher routes it at all.\<close>

definition routed_turn :: "string \<Rightarrow> obj \<Rightarrow> string option" where
  "routed_turn thread_id event =
     (if jget event ''method'' = JStr ''bridge/appServerExited'' then None
      else case jget event ''params'' of
        JObj params \<Rightarrow> if jget params ''threadId'' = JStr thread_id then turn_id_of params else None
      | _ \<Rightarrow> None)"

definition early_of :: "turn_events \<Rightarrow> string \<Rightarrow> obj list" where
  "early_of s t = (case map_of (te_early s) t of None \<Rightarrow> [] | Some es \<Rightarrow> es)"

lemma dispatch_routed:
  "snd (dispatch_event frepr thread_id True True event s) =
     (case routed_turn thread_id event of
        None \<Rightarrow> s
      | Some t \<Rightarrow> (case jget event ''params'' of JObj params \<Rightarrow> route_event frepr event params t s | _ \<Rightarrow> s))"
  by (auto simp: dispatch_event_def routed_turn_def split: json.split option.split)

lemma routed_params: "routed_turn thread_id event = Some t \<Longrightarrow> \<exists>params. jget event ''params'' = JObj params"
  by (auto simp: routed_turn_def split: json.splits if_splits)

lemma count_buffer:
  "sum_list (map (length \<circ> snd) (dict_set m t ((case map_of m t of None \<Rightarrow> [] | Some es \<Rightarrow> es) @ [event]))) =
   Suc (sum_list (map (length \<circ> snd) m))"
proof (induction m)
  case (Cons p m)
  then show ?case by (cases p) auto
qed simp

lemma buffer_event:
  assumes "te_active s = None" "routed_turn thread_id event = Some t" "buffered_count s < MAX_EARLY_TURN_EVENTS"
  shows "snd (dispatch_event frepr thread_id True True event s) =
      s\<lparr>te_early := dict_set (te_early s) t (early_of s t @ [event])\<rparr>"
  using assms routed_params [OF assms(2)] by (auto simp: dispatch_routed route_event_def early_of_def)

lemma buffered_events:
  assumes "te_active s = None" "buffered_count s + length events \<le> MAX_EARLY_TURN_EVENTS"
  shows "\<exists>E. dispatch_all frepr thread_id events s = s\<lparr>te_early := E\<rparr> \<and>
    early_of (s\<lparr>te_early := E\<rparr>) t = early_of s t @ filter (\<lambda>event. routed_turn thread_id event = Some t) events"
  using assms
proof (induction events arbitrary: s)
  case Nil
  show ?case by (intro exI [of _ "te_early s"]) (simp add: dispatch_all_def)
next
  case (Cons event events)
  let ?s = "snd (dispatch_event frepr thread_id True True event s)"
  have all: "dispatch_all frepr thread_id (event # events) s = dispatch_all frepr thread_id events ?s"
    by (simp add: dispatch_all_def)
  show ?case
  proof (cases "routed_turn thread_id event")
    case None
    then have "?s = s" by (simp add: dispatch_routed)
    then show ?thesis using Cons.IH [of s] Cons.prems None all by simp
  next
    case (Some u)
    let ?E = "dict_set (te_early s) u (early_of s u @ [event])"
    have s: "?s = s\<lparr>te_early := ?E\<rparr>" using buffer_event [OF Cons.prems(1) Some] Cons.prems(2) by simp
    have "buffered_count ?s = Suc (buffered_count s)"
      using count_buffer [of "te_early s" u event] by (simp add: s buffered_count_def early_of_def)
    then obtain E where "dispatch_all frepr thread_id events ?s = ?s\<lparr>te_early := E\<rparr>"
      "early_of (?s\<lparr>te_early := E\<rparr>) t = early_of ?s t @ filter (\<lambda>event. routed_turn thread_id event = Some t) events"
      using Cons.IH [of ?s] Cons.prems by (auto simp: s)
    then show ?thesis using Some all by (intro exI [of _ E]) (auto simp: s early_of_def)
  qed
qed

lemma handle_active: "te_active (handle_active_turn_event frepr event params t s) = te_active s"
  by (simp add: handle_active_turn_event_def send_event_def settle_waiter_def Let_def)

lemma replayed_events:
  "te_active s = Some t \<Longrightarrow>
   dispatch_all frepr thread_id events s =
   replay frepr t (filter (\<lambda>event. routed_turn thread_id event = Some t) events) s"
proof (induction events arbitrary: s)
  case (Cons event events)
  show ?case
  proof (cases "routed_turn thread_id event = Some t")
    case True
    obtain params where p: "jget event ''params'' = JObj params" using routed_params [OF True] by blast
    then have "snd (dispatch_event frepr thread_id True True event s) = handle_active_turn_event frepr event params t s"
      using True Cons.prems by (simp add: dispatch_routed route_event_def)
    then show ?thesis
      using True p Cons by (simp add: dispatch_all_def replay_def handle_active)
  next
    case False
    then have "snd (dispatch_event frepr thread_id True True event s) = s"
      using Cons.prems by (auto simp: dispatch_routed route_event_def split: option.split json.split)
    then show ?thesis using False Cons by (simp add: dispatch_all_def)
  qed
qed (simp add: dispatch_all_def replay_def)

text \<open>C33: Events that overtake \<^verbatim>\<open>turn/start\<close> are neither lost nor reordered. When up to 64 events of
  any turns arrive before the identifier of the turn is known, the socket ends in the same state - the same
  messages sent in the same order, the same future, the same tool calls - as if the identifier had come first.\<close>
theorem early_events_commute:
  assumes "te_active s = None" "te_early s = []" "length events \<le> MAX_EARLY_TURN_EVENTS"
  shows "turn_started frepr t (dispatch_all frepr thread_id events s) =
    dispatch_all frepr thread_id events (turn_started frepr t s)"
proof -
  let ?es = "filter (\<lambda>event. routed_turn thread_id event = Some t) events"
  let ?s0 = "s\<lparr>te_waiters := dict_set (te_waiters s) t TurnWaits, te_active := Some t, te_tools := [], te_early := []\<rparr>"
  obtain E where e: "dispatch_all frepr thread_id events s = s\<lparr>te_early := E\<rparr>" "early_of (s\<lparr>te_early := E\<rparr>) t = ?es"
    using buffered_events [of s events frepr thread_id t] assms by (auto simp: buffered_count_def early_of_def)
  have "turn_started frepr t (s\<lparr>te_early := E\<rparr>) = replay frepr t ?es ?s0"
    using e(2) by (simp add: turn_started_def early_of_def)
  moreover have "turn_started frepr t s = ?s0" using assms(2) by (simp add: turn_started_def replay_def)
  ultimately show ?thesis using replayed_events [of ?s0 t frepr thread_id events] e(1) by simp
qed

text \<open>A short turn: a piece of text and its completion, before the identifier is known.\<close>

definition overtaking_events :: "obj list" where
  "overtaking_events =
     [[(''method'', JStr ''item/agentMessage/delta''),
       (''params'', JObj [(''threadId'', JStr ''t''), (''turnId'', JStr ''1''), (''delta'', JStr ''Hola'')])],
      [(''method'', JStr ''turn/completed''),
       (''params'', JObj [(''threadId'', JStr ''t''), (''turn'', JObj [(''id'', JStr ''1'')])])]]"

theorem early_events_commute_witness:
  "te_sent (turn_started (\<lambda>_. []) ''1'' (dispatch_all (\<lambda>_. []) ''t'' overtaking_events new_turn_events)) =
     [[(''type'', JStr ''delta''), (''delta'', JStr ''Hola'')]]"
proof -
  have "turn_started (\<lambda>_. []) ''1'' (dispatch_all (\<lambda>_. []) ''t'' overtaking_events new_turn_events) =
      dispatch_all (\<lambda>_. []) ''t'' overtaking_events (turn_started (\<lambda>_. []) ''1'' new_turn_events)"
    by (rule early_events_commute)
      (simp_all add: new_turn_events_def overtaking_events_def MAX_EARLY_TURN_EVENTS_def)
  then show ?thesis
    by (simp add: overtaking_events_def new_turn_events_def turn_started_def replay_def dispatch_all_def
        dispatch_event_def route_event_def turn_id_of_def handle_active_turn_event_def send_event_def
        settle_waiter_def jget_default_def Let_def)
qed

section \<open>Answers to tool calls\<close>

definition announced :: "(pyfloat \<Rightarrow> string) \<Rightarrow> string \<Rightarrow> json \<Rightarrow> obj \<Rightarrow> bool" where
  "announced frepr call_id request_id event \<longleftrightarrow>
     jget event ''method'' = JStr ''item/tool/call'' \<and> has_key event ''id'' \<and> jget event ''id'' = request_id \<and>
     (case jget event ''params'' of
        JObj params \<Rightarrow> call_id = py_str frepr (jget_default params ''callId'' request_id) | _ \<Rightarrow> False)"

definition tools_announced ::
    "(pyfloat \<Rightarrow> string) \<Rightarrow> obj list \<Rightarrow> turn_events \<Rightarrow> bool" where
  "tools_announced frepr events s \<longleftrightarrow>
     (\<forall>call_id request_id. map_of (te_tools s) call_id = Some request_id \<longrightarrow>
        (\<exists>event \<in> set events. announced frepr call_id request_id event))"

lemma handle_announced:
  assumes "tools_announced frepr events s" "jget event ''params'' = JObj params"
  shows "tools_announced frepr (events @ [event]) (handle_active_turn_event frepr event params t s)"
  using assms
  by (auto simp: tools_announced_def handle_active_turn_event_def send_event_def settle_waiter_def announced_def Let_def)

lemma replay_announced:
  "tools_announced frepr events0 s \<Longrightarrow> list_all (\<lambda>event. \<exists>params. jget event ''params'' = JObj params) events \<Longrightarrow>
   tools_announced frepr (events0 @ events) (replay frepr t events s)"
proof (induction events arbitrary: events0 s)
  case (Cons event events)
  obtain params where p: "jget event ''params'' = JObj params" using Cons.prems(2) by auto
  show ?case
    using Cons.IH [OF handle_announced [OF Cons.prems(1) p]] Cons.prems(2) p by (simp add: replay_def)
qed (simp add: replay_def)

lemma accepted_result:
  assumes "tool_result_response frepr message tools = Inr (c, r, response)"
  shows "map_of tools c = Some r"
proof -
  let ?call = "jget_default message ''call_id'' (jget message ''id'')"
  let ?e = "if ?call = JNull then JNull else jget tools (py_str frepr ?call)"
  have "case ?e of JInt _ \<Rightarrow> True | JBool _ \<Rightarrow> True | JStr _ \<Rightarrow> True | _ \<Rightarrow> False"
    and r: "c = py_str frepr ?call" "r = ?e"
    using assms unfolding tool_result_response_def Let_def by (auto split: if_split_asm)
  then have "?e \<noteq> JNull" by (cases ?e) simp_all
  then show ?thesis using r by (auto simp: jget_def split: option.splits if_splits)
qed

text \<open>A tool result answers a call of the turn in progress or nothing. A result the socket accepts carries
  the request identifier of a tool call the server made in this turn under that call identifier; once the turn
  was left or timed out every result is refused.\<close>
theorem tool_results_answer_announced_calls:
  assumes "te_active s = Some t" "te_tools s = []"
    and "tool_result_response frepr message (te_tools (dispatch_all frepr thread_id events s)) =
      Inr (call_id, request_id, response)"
  shows "(\<exists>event \<in> set events. routed_turn thread_id event = Some t \<and> announced frepr call_id request_id event) \<and>
    \<not> is_ok (tool_result_response frepr message (te_tools (turn_left t s1))) \<and>
    \<not> is_ok (tool_result_response frepr message (te_tools (turn_timed_out t s1)))"
proof -
  let ?es = "filter (\<lambda>event. routed_turn thread_id event = Some t) events"
  have "list_all (\<lambda>event. \<exists>params. jget event ''params'' = JObj params) ?es"
    using routed_params by (fastforce simp: list_all_iff)
  then have "tools_announced frepr ([] @ ?es) (dispatch_all frepr thread_id events s)"
    unfolding replayed_events [OF assms(1)]
    by (rule replay_announced [rotated]) (simp add: tools_announced_def assms(2))
  moreover have "map_of (te_tools (dispatch_all frepr thread_id events s)) call_id = Some request_id"
    by (rule accepted_result [OF assms(3)])
  ultimately have "\<exists>event \<in> set ?es. announced frepr call_id request_id event"
    unfolding tools_announced_def by auto
  moreover have "\<not> is_ok (tool_result_response frepr message [])" by (simp add: tool_result_response_def Let_def)
  ultimately show ?thesis by (auto simp: turn_left_def turn_timed_out_def)
qed

definition calling_event :: obj where
  "calling_event = [(''method'', JStr ''item/tool/call''), (''id'', JInt 4),
     (''params'', JObj [(''threadId'', JStr ''t''), (''turnId'', JStr ''1''), (''callId'', JStr ''c'')])]"

theorem tool_results_answer_announced_calls_witness:
  "announced (\<lambda>_. []) ''c'' (JInt 4) calling_event \<and>
   \<not> is_ok (tool_result_response (\<lambda>_. []) [(''call_id'', JStr ''c'')] (te_tools (turn_left ''1'' new_turn_events)))"
proof -
  let ?s = "turn_started (\<lambda>_. []) ''1'' new_turn_events"
  have s: "te_active ?s = Some ''1''" "te_tools ?s = []"
    by (simp_all add: turn_started_def replay_def new_turn_events_def)
  have "te_tools (dispatch_all (\<lambda>_. []) ''t'' [calling_event] ?s) = [(''c'', JInt 4)]"
    by (simp add: calling_event_def new_turn_events_def turn_started_def replay_def dispatch_all_def
        dispatch_event_def route_event_def turn_id_of_def handle_active_turn_event_def send_event_def
        jget_default_def has_key_def Let_def)
  then have "\<exists>response. tool_result_response (\<lambda>_. []) [(''call_id'', JStr ''c'')]
      (te_tools (dispatch_all (\<lambda>_. []) ''t'' [calling_event] ?s)) = Inr (''c'', JInt 4, response)"
    by (simp add: tool_result_response_def jget_default_def request_matches_def Let_def)
  then show ?thesis using tool_results_answer_announced_calls [OF s] by fastforce
qed

end
