(* ===== verification/Provider_Tools.thy ===== *)
theory Provider_Tools
  imports App_Server Turn_Events
begin

text \<open>
  The Home Assistant tool calls a realtime provider makes over one device socket, the local functions of
  \<^verbatim>\<open>_run_realtime_socket\<close> in \<^verbatim>\<open>bridge/service.py\<close>: admission, execution through the captured
  authority, the one answer each request gets, the deadline for the provider's continuation, and the
  teardown. Tasks are cut at their suspension points. The broker's call is modelled by its outcomes (see
  \<^verbatim>\<open>Tool_Broker\<close>), the correlation label by a parameter \<open>digest\<close>.
\<close>

section \<open>State\<close>

definition REALTIME_MAX_PENDING_TOOL_CALLS :: nat where "REALTIME_MAX_PENDING_TOOL_CALLS = 16"
definition REALTIME_MAX_TOOL_CALLS_PER_SESSION :: nat where "REALTIME_MAX_TOOL_CALLS_PER_SESSION = 1024"

text \<open>What the task of a tool call does next; an ended task waits for its done callback, then it is over.\<close>

datatype tool_stage = ToStart | InBroker | InWrite bool | ToFinish | ToolOver

record tool_task =
  tt_request :: json
  tt_call :: string
  tt_name :: json
  tt_arguments :: json
  tt_rejection :: "json option"
  tt_generation :: "nat option"
  tt_stage :: tool_stage

text \<open>The watchdog of the continuation: sleeping for a generation, or over.\<close>

datatype watchdog = NoWatchdog | Watching nat | WatchdogDone

record tool_session =
  ts_managed :: bool
  ts_authority :: bool
  ts_stop :: bool
  ts_torn :: bool
  ts_background :: nat
  ts_owner :: "nat option"
  ts_response :: "string option"
  ts_failed_closed :: bool
  ts_seen :: "rpc_id list"
  ts_calls :: "string list"
  ts_claimed :: "rpc_id list"
  ts_delivered :: "rpc_id list"
  ts_active :: "(rpc_id \<times> tool_task) list"
  ts_rejecting :: "rpc_id list"
  ts_failure :: "py_error option"
  ts_raised :: "py_error list"
  ts_watchdog :: watchdog
  ts_watch_generation :: nat
  ts_pending :: "string option"
  ts_pending_response :: "string option"
  ts_announced :: bool
  ts_output_delivered :: bool
  ts_terminal :: bool
  ts_executed :: "(rpc_id \<times> string) list"
  ts_answers :: "(rpc_id \<times> obj) list"

definition new_tool_session :: "bool \<Rightarrow> bool \<Rightarrow> tool_session" where
  "new_tool_session managed authority =
     \<lparr>ts_managed = managed, ts_authority = authority, ts_stop = False, ts_torn = False, ts_background = 0,
      ts_owner = None, ts_response = None, ts_failed_closed = False, ts_seen = [], ts_calls = [], ts_claimed = [],
      ts_delivered = [], ts_active = [], ts_rejecting = [], ts_failure = None, ts_raised = [],
      ts_watchdog = NoWatchdog, ts_watch_generation = 0, ts_pending = None, ts_pending_response = None,
      ts_announced = False, ts_output_delivered = False, ts_terminal = False, ts_executed = [], ts_answers = []\<rparr>"

text \<open>The dictionary key of an identifier that is an \<^verbatim>\<open>int\<close> or a \<^verbatim>\<open>str\<close>.\<close>

fun request_key :: "json \<Rightarrow> rpc_id option" where
  "request_key (JInt i) = Some (NumberId (of_int i))"
| "request_key (JBool b) = Some (NumberId (if b then 1 else 0))"
| "request_key (JStr s) = Some (TextId s)"
| "request_key _ = None"

definition fail_session :: "py_error \<Rightarrow> tool_session \<Rightarrow> tool_session" where
  "fail_session e s = (if ts_failure s = None then s\<lparr>ts_failure := Some e\<rparr> else s)"

section \<open>The continuation of the provider\<close>

definition clear_continuation :: "tool_session \<Rightarrow> tool_session" where
  "clear_continuation s =
     s\<lparr>ts_pending := None, ts_pending_response := None, ts_announced := False, ts_output_delivered := False,
       ts_terminal := False\<rparr>"

definition cancel_watchdog :: "bool \<Rightarrow> tool_session \<Rightarrow> tool_session" where
  "cancel_watchdog clear_pending s =
     (let s1 = (if clear_pending then clear_continuation s else s)
      in s1\<lparr>ts_watch_generation := ts_watch_generation s1 + 1, ts_watchdog := NoWatchdog\<rparr>)"

definition unsettled :: "tool_session \<Rightarrow> bool" where
  "unsettled s \<longleftrightarrow> (\<exists>p \<in> set (ts_active s). fst p \<notin> set (ts_delivered s))"

definition arm_watchdog :: "tool_session \<Rightarrow> tool_session" where
  "arm_watchdog s =
     (if ts_pending s = None \<or> unsettled s \<or> ts_stop s then s
      else case ts_watchdog s of
        Watching g \<Rightarrow> s
      | _ \<Rightarrow>
          if ts_output_delivered s \<or> ts_terminal s then cancel_watchdog True s
          else (let s1 = cancel_watchdog False s in s1\<lparr>ts_watchdog := Watching (ts_watch_generation s1)\<rparr>))"

text \<open>The sleep of the watchdog is over.\<close>

definition watchdog_expires :: "tool_session \<Rightarrow> tool_session" where
  "watchdog_expires s =
     (case ts_watchdog s of
        Watching g \<Rightarrow>
          (if ts_stop s \<or> g \<noteq> ts_watch_generation s then s
           else fail_session (ProtocolError ''realtime provider tool continuation timed out'') s)
          \<lparr>ts_watchdog := WatchdogDone\<rparr>
      | _ \<Rightarrow> s)"

definition watchdog_finished :: "tool_session \<Rightarrow> tool_session" where
  "watchdog_finished s = (if ts_watchdog s = WatchdogDone then s\<lparr>ts_watchdog := NoWatchdog\<rparr> else s)"

definition require_continuation :: "string \<Rightarrow> tool_session \<Rightarrow> tool_session" where
  "require_continuation correlation s =
     arm_watchdog (s\<lparr>ts_pending := Some correlation, ts_pending_response := ts_response s, ts_announced := False,
       ts_output_delivered := False, ts_terminal := False\<rparr>)"

definition announce_output :: "string option \<Rightarrow> tool_session \<Rightarrow> tool_session" where
  "announce_output response_id s =
     (if ts_pending s = None then s
      else s\<lparr>ts_announced := True,
             ts_pending_response := (if response_id = None then ts_pending_response s else response_id)\<rparr>)"

definition complete_after_output :: "tool_session \<Rightarrow> tool_session" where
  "complete_after_output s =
     (if ts_pending s \<noteq> None \<and> ts_announced s then cancel_watchdog True (s\<lparr>ts_output_delivered := True\<rparr>) else s)"

definition complete_after_terminal :: "string \<Rightarrow> string option \<Rightarrow> tool_session \<Rightarrow> tool_session" where
  "complete_after_terminal event_type response_id s =
     (if ts_pending s = None then s
      else if (if event_type = ''response.cancelled'' \<or> event_type = ''response.done''
               then response_id \<noteq> None \<and> response_id = ts_pending_response s else ts_announced s)
      then cancel_watchdog True (s\<lparr>ts_terminal := True\<rparr>)
      else s)"

section \<open>One answer for each request\<close>

definition set_stage :: "rpc_id \<Rightarrow> tool_stage \<Rightarrow> tool_session \<Rightarrow> tool_session" where
  "set_stage k stage s =
     s\<lparr>ts_active := map (\<lambda>p. if fst p = k then (k, (snd p)\<lparr>tt_stage := stage\<rparr>) else p) (ts_active s)\<rparr>"

text \<open>The payload of \<^verbatim>\<open>_respond_to_tool_result\<close>, which finds the request under its call identifier.\<close>

definition answer_payload :: "(pyfloat \<Rightarrow> string) \<Rightarrow> json \<Rightarrow> string \<Rightarrow> bool \<Rightarrow> json \<Rightarrow> obj" where
  "answer_payload frepr request_id call_id success v =
     (case tool_result_response frepr
         [(''call_id'', JStr call_id), (''success'', JBool success), (''result'', v)] [(call_id, request_id)] of
        Inr (_, _, payload) \<Rightarrow> payload
      | Inl _ \<Rightarrow> [])"

definition needs_continuation :: "nat option \<Rightarrow> tool_session \<Rightarrow> bool" where
  "needs_continuation generation s \<longleftrightarrow> \<not> ts_managed s \<or> generation = Some (ts_background s)"

text \<open>\<^verbatim>\<open>respond_to_provider_tool_once\<close> up to the write of the answer.\<close>

definition claim_answer ::
    "(pyfloat \<Rightarrow> string) \<Rightarrow> (string \<Rightarrow> string) \<Rightarrow> rpc_id \<Rightarrow> json \<Rightarrow> string \<Rightarrow> nat option \<Rightarrow> bool \<Rightarrow> json \<Rightarrow>
     tool_session \<Rightarrow> tool_session" where
  "claim_answer frepr digest k request_id call_id generation success v s =
     (let s1 = s\<lparr>ts_claimed := ts_claimed s @ [k]\<rparr>;
          s2 = (if needs_continuation generation s
                then require_continuation (digest (py_str frepr request_id @ [CHR 0x00] @ call_id)) s1 else s1)
      in s2\<lparr>ts_answers := ts_answers s2 @ [(k, answer_payload frepr request_id call_id success v)]\<rparr>)"

text \<open>In the task of the call: the write follows.\<close>

definition respond_once ::
    "(pyfloat \<Rightarrow> string) \<Rightarrow> (string \<Rightarrow> string) \<Rightarrow> rpc_id \<Rightarrow> json \<Rightarrow> string \<Rightarrow> nat option \<Rightarrow> bool \<Rightarrow> json \<Rightarrow>
     tool_session \<Rightarrow> tool_session" where
  "respond_once frepr digest k request_id call_id generation success v s =
     (if k \<in> set (ts_claimed s) then set_stage k ToFinish s
      else set_stage k (InWrite (needs_continuation generation s))
        (claim_answer frepr digest k request_id call_id generation success v s))"

text \<open>The write returned, or raised.\<close>

definition answer_written :: "rpc_id \<Rightarrow> bool \<Rightarrow> py_error option \<Rightarrow> tool_session \<Rightarrow> tool_session" where
  "answer_written k required outcome s =
     (case outcome of
        Some e \<Rightarrow> set_stage k ToFinish (fail_session e s)
      | None \<Rightarrow>
          let s1 = s\<lparr>ts_delivered := ts_delivered s @ [k]\<rparr>
          in set_stage k ToFinish (if required then arm_watchdog s1 else s1))"

section \<open>Execution\<close>

definition do_not_retry :: "string \<Rightarrow> json" where
  "do_not_retry e = JObj [(''error'', JStr e), (''do_not_retry'', JBool True)]"

datatype broker_outcome = BrokerAnswer bool json | BrokerUnavailable | BrokerRefused | BrokerRaised py_error

definition answer_task ::
    "(pyfloat \<Rightarrow> string) \<Rightarrow> (string \<Rightarrow> string) \<Rightarrow> rpc_id \<Rightarrow> tool_task \<Rightarrow> bool \<Rightarrow> json \<Rightarrow> tool_session \<Rightarrow> tool_session" where
  "answer_task frepr digest k t success v s =
     respond_once frepr digest k (tt_request t) (tt_call t) (tt_generation t) success v s"

text \<open>The task of a call starts: the rejection, or the checks before the broker is asked.\<close>

definition start_task ::
    "(pyfloat \<Rightarrow> string) \<Rightarrow> (string \<Rightarrow> string) \<Rightarrow> rpc_id \<Rightarrow> tool_task \<Rightarrow> tool_session \<Rightarrow> tool_session" where
  "start_task frepr digest k t s =
     (case tt_rejection t of
        Some rejection \<Rightarrow> answer_task frepr digest k t False rejection s
      | None \<Rightarrow>
          (case (tt_name t, tt_arguments t) of
             (JStr name, JObj arguments) \<Rightarrow>
               if ts_authority s
               then set_stage k InBroker (s\<lparr>ts_executed := ts_executed s @ [(k, tt_call t)]\<rparr>)
               else answer_task frepr digest k t False (do_not_retry ''home_assistant_tool_unavailable'')
                 (s\<lparr>ts_failed_closed := True\<rparr>)
           | _ \<Rightarrow> answer_task frepr digest k t False (do_not_retry ''home_assistant_tool_unavailable'')
                 (s\<lparr>ts_failed_closed := True\<rparr>)))"

definition refuses_retry :: "bool \<Rightarrow> json \<Rightarrow> bool" where
  "refuses_retry success v \<longleftrightarrow>
     \<not> success \<and> (case v of JObj m \<Rightarrow> jget m ''do_not_retry'' = JBool True | _ \<Rightarrow> False)"

definition broker_returned ::
    "(pyfloat \<Rightarrow> string) \<Rightarrow> (string \<Rightarrow> string) \<Rightarrow> rpc_id \<Rightarrow> tool_task \<Rightarrow> broker_outcome \<Rightarrow> tool_session \<Rightarrow> tool_session" where
  "broker_returned frepr digest k t outcome s =
     (case outcome of
        BrokerAnswer success v \<Rightarrow>
          answer_task frepr digest k t success v
            (if refuses_retry success v then s\<lparr>ts_failed_closed := True\<rparr> else s)
      | BrokerUnavailable \<Rightarrow>
          answer_task frepr digest k t False (do_not_retry ''home_assistant_tool_outcome_unknown'')
            (s\<lparr>ts_failed_closed := True\<rparr>)
      | BrokerRefused \<Rightarrow>
          answer_task frepr digest k t False (do_not_retry ''home_assistant_tool_unavailable'')
            (s\<lparr>ts_failed_closed := True\<rparr>)
      | BrokerRaised e \<Rightarrow> set_stage k ToFinish (fail_session e s))"

text \<open>The done callback of a task.\<close>

definition task_finished :: "rpc_id \<Rightarrow> tool_session \<Rightarrow> tool_session" where
  "task_finished k s =
     (if k \<in> fst ` set (ts_active s) \<and> k \<in> set (ts_claimed s)
      then arm_watchdog (s\<lparr>ts_active := dict_pop (ts_active s) k\<rparr>) else set_stage k ToolOver s)"

section \<open>Admission\<close>

definition admission :: "string \<Rightarrow> tool_session \<Rightarrow> json option" where
  "admission call_id s =
     (if ts_failed_closed s then Some (do_not_retry ''home_assistant_tool_session_unavailable'')
      else if REALTIME_MAX_TOOL_CALLS_PER_SESSION < length (ts_seen s)
      then Some (do_not_retry ''home_assistant_tool_session_limit'')
      else if call_id \<in> set (ts_calls s) then Some (do_not_retry ''duplicate_home_assistant_tool_call'')
      else if REALTIME_MAX_PENDING_TOOL_CALLS \<le> length (ts_active s)
      then Some (do_not_retry ''too_many_home_assistant_tool_calls'')
      else None)"

definition start_tool_call :: "(pyfloat \<Rightarrow> string) \<Rightarrow> obj \<Rightarrow> tool_session \<Rightarrow> tool_session" where
  "start_tool_call frepr event s =
     (case (request_key (jget event ''id''), jget event ''params'') of
        (Some k, JObj params) \<Rightarrow>
          if k \<in> set (ts_seen s) then s
          else
            let call_id = py_str frepr (jget_default params ''callId'' (jget event ''id''));
                s1 = cancel_watchdog True (s\<lparr>ts_seen := ts_seen s @ [k]\<rparr>);
                rejection = admission call_id s1;
                s2 = s1\<lparr>ts_calls := (if rejection = None then ts_calls s1 @ [call_id] else ts_calls s1),
                        ts_active := ts_active s1 @ [(k,
                          \<lparr>tt_request = jget event ''id'', tt_call = call_id, tt_name = jget params ''tool'',
                           tt_arguments = jget_default params ''arguments'' (JObj []), tt_rejection = rejection,
                           tt_generation = (if ts_managed s1 then ts_owner s1 else None), tt_stage = ToStart\<rparr>)]\<rparr>
            in if REALTIME_MAX_TOOL_CALLS_PER_SESSION < length (ts_seen s2)
               then fail_session (ProtocolError ''realtime provider exceeded the tool-call limit'') s2 else s2
      | _ \<Rightarrow> fail_session (ProtocolError ''realtime provider returned an invalid tool call'') s)"

text \<open>The answer to a call that no turn owns, and its write.\<close>

definition reject_unowned :: "(pyfloat \<Rightarrow> string) \<Rightarrow> obj \<Rightarrow> tool_session \<Rightarrow> tool_session" where
  "reject_unowned frepr event s =
     (case request_key (jget event ''id'') of
        None \<Rightarrow> s
      | Some k \<Rightarrow>
          if k \<in> set (ts_claimed s) then s
          else
            let params = (case jget event ''params'' of JObj p \<Rightarrow> p | _ \<Rightarrow> []);
                call_id = py_str frepr (jget_default params ''callId'' (jget event ''id''))
            in s\<lparr>ts_claimed := ts_claimed s @ [k], ts_rejecting := ts_rejecting s @ [k],
                 ts_answers := ts_answers s @
                   [(k, answer_payload frepr (jget event ''id'') call_id False (do_not_retry ''unowned_home_assistant_tool_call''))]\<rparr>)"

definition rejection_written :: "rpc_id \<Rightarrow> bool \<Rightarrow> tool_session \<Rightarrow> tool_session" where
  "rejection_written k ok s =
     s\<lparr>ts_rejecting := remove1 k (ts_rejecting s),
       ts_delivered := (if ok then ts_delivered s @ [k] else ts_delivered s)\<rparr>"

section \<open>Teardown\<close>

text \<open>Calls that nobody answered yet are cancelled; the others keep writing.\<close>

definition cancel_unanswered :: "tool_session \<Rightarrow> tool_session" where
  "cancel_unanswered s =
     s\<lparr>ts_active := map (\<lambda>p. if fst p \<in> set (ts_claimed s) then p else (fst p, (snd p)\<lparr>tt_stage := ToFinish\<rparr>)) (ts_active s)\<rparr>"

definition begin_generation :: "tool_session \<Rightarrow> tool_session" where
  "begin_generation s = cancel_watchdog True (s\<lparr>ts_background := ts_background s + 1\<rparr>)"

definition begin_teardown :: "tool_session \<Rightarrow> tool_session" where
  "begin_teardown s = cancel_unanswered (begin_generation (s\<lparr>ts_stop := True, ts_torn := True\<rparr>))"

definition unresolved :: "tool_session \<Rightarrow> (rpc_id \<times> tool_task) list" where
  "unresolved s = filter (\<lambda>p. fst p \<notin> set (ts_claimed s)) (ts_active s)"

text \<open>The last answers are written by coroutines of the teardown itself, whose errors it ignores.\<close>

definition answer_unresolved :: "(pyfloat \<Rightarrow> string) \<Rightarrow> (string \<Rightarrow> string) \<Rightarrow> tool_session \<Rightarrow> tool_session" where
  "answer_unresolved frepr digest s =
     (fold (\<lambda>(k, t). claim_answer frepr digest k (tt_request t) (tt_call t) None False
         (do_not_retry ''home_assistant_tool_outcome_unknown'')) (unresolved s) s)
     \<lparr>ts_rejecting := ts_rejecting s @ map fst (unresolved s)\<rparr>"

section \<open>Runs\<close>

datatype tool_event =
    ToolRequested obj
  | ToolStarts rpc_id
  | BrokerReturns rpc_id broker_outcome
  | AnswerWritten rpc_id "py_error option"
  | TaskFinished rpc_id
  | UnownedRequested obj
  | RejectionWritten rpc_id bool
  | WatchdogExpires
  | WatchdogFinished
  | OutputAnnounced "string option"
  | OutputDelivered
  | TerminalSeen string "string option"
  | ContinuationDropped
  | ResponseChanged "string option"
  | OwnerChanged "nat option"
  | GenerationBegins
  | FailureRaised
  | StopRequested
  | TeardownBegins
  | UnresolvedAnswered

definition staged :: "rpc_id \<Rightarrow> tool_session \<Rightarrow> tool_stage option" where
  "staged k s = map_option tt_stage (map_of (ts_active s) k)"

text \<open>When an event can happen. In a managed session the caller admits calls of the current turn only.\<close>

fun tool_enabled :: "tool_event \<Rightarrow> tool_session \<Rightarrow> bool" where
  "tool_enabled (ToolRequested event) s = (\<not> ts_torn s \<and> (ts_managed s \<longrightarrow> ts_owner s = Some (ts_background s)))"
| "tool_enabled (ToolStarts k) s = (staged k s = Some ToStart)"
| "tool_enabled (BrokerReturns k outcome) s = (staged k s = Some InBroker)"
| "tool_enabled (AnswerWritten k outcome) s = (\<exists>required. staged k s = Some (InWrite required))"
| "tool_enabled (TaskFinished k) s = (staged k s = Some ToFinish)"
| "tool_enabled (RejectionWritten k ok) s = (k \<in> set (ts_rejecting s))"
| "tool_enabled WatchdogExpires s = (\<exists>g. ts_watchdog s = Watching g)"
| "tool_enabled FailureRaised s = (ts_failure s \<noteq> None)"
| "tool_enabled TeardownBegins s = (\<not> ts_torn s)"
| "tool_enabled UnresolvedAnswered s = (ts_torn s \<and> list_all (\<lambda>p. tt_stage (snd p) = ToolOver) (ts_active s))"
| "tool_enabled _ s = True"

definition task_of :: "rpc_id \<Rightarrow> tool_session \<Rightarrow> tool_task" where
  "task_of k s = the (map_of (ts_active s) k)"

fun tool_step ::
    "(pyfloat \<Rightarrow> string) \<Rightarrow> (string \<Rightarrow> string) \<Rightarrow> tool_event \<Rightarrow> tool_session \<Rightarrow> tool_session" where
  "tool_step frepr digest (ToolRequested event) s = start_tool_call frepr event s"
| "tool_step frepr digest (ToolStarts k) s = start_task frepr digest k (task_of k s) s"
| "tool_step frepr digest (BrokerReturns k outcome) s = broker_returned frepr digest k (task_of k s) outcome s"
| "tool_step frepr digest (AnswerWritten k outcome) s =
     answer_written k (case tt_stage (task_of k s) of InWrite required \<Rightarrow> required | _ \<Rightarrow> False) outcome s"
| "tool_step frepr digest (TaskFinished k) s = task_finished k s"
| "tool_step frepr digest (UnownedRequested event) s = reject_unowned frepr event s"
| "tool_step frepr digest (RejectionWritten k ok) s = rejection_written k ok s"
| "tool_step frepr digest WatchdogExpires s = watchdog_expires s"
| "tool_step frepr digest WatchdogFinished s = watchdog_finished s"
| "tool_step frepr digest (OutputAnnounced r) s = announce_output r s"
| "tool_step frepr digest OutputDelivered s = complete_after_output s"
| "tool_step frepr digest (TerminalSeen e r) s = complete_after_terminal e r s"
| "tool_step frepr digest ContinuationDropped s = cancel_watchdog True s"
| "tool_step frepr digest (ResponseChanged r) s = s\<lparr>ts_response := r\<rparr>"
| "tool_step frepr digest (OwnerChanged g) s = s\<lparr>ts_owner := g\<rparr>"
| "tool_step frepr digest GenerationBegins s = begin_generation s"
| "tool_step frepr digest FailureRaised s =
     s\<lparr>ts_raised := ts_raised s @ [the (ts_failure s)], ts_failure := None\<rparr>"
| "tool_step frepr digest StopRequested s = s\<lparr>ts_stop := True\<rparr>"
| "tool_step frepr digest TeardownBegins s = begin_teardown s"
| "tool_step frepr digest UnresolvedAnswered s = answer_unresolved frepr digest s"

inductive tools_reachable :: "(pyfloat \<Rightarrow> string) \<Rightarrow> (string \<Rightarrow> string) \<Rightarrow> tool_session \<Rightarrow> bool"
  for frepr :: "pyfloat \<Rightarrow> string" and digest :: "string \<Rightarrow> string" where
  initial: "tools_reachable frepr digest (new_tool_session managed authority)"
| step: "tools_reachable frepr digest s \<Longrightarrow> tool_enabled e s \<Longrightarrow> tools_reachable frepr digest (tool_step frepr digest e s)"

end
