(* ===== verification/Provider_Tools_Safety.thy ===== *)
theory Provider_Tools_Safety
  imports Provider_Tools
begin

text \<open>
  The invariant of the provider's tool calls over every interleaving, and what it gives: one answer for each
  request, bounded execution, an exact deadline for the continuation, and a teardown that leaves no call
  unanswered.
\<close>

section \<open>Frames\<close>

text \<open>The watchdog operations touch the continuation only.\<close>

lemma cancel_watchdog_frame [simp]:
  "ts_active (cancel_watchdog b s) = ts_active s" "ts_seen (cancel_watchdog b s) = ts_seen s"
  "ts_calls (cancel_watchdog b s) = ts_calls s" "ts_claimed (cancel_watchdog b s) = ts_claimed s"
  "ts_delivered (cancel_watchdog b s) = ts_delivered s" "ts_answers (cancel_watchdog b s) = ts_answers s"
  "ts_executed (cancel_watchdog b s) = ts_executed s" "ts_stop (cancel_watchdog b s) = ts_stop s"
  "ts_torn (cancel_watchdog b s) = ts_torn s" "ts_rejecting (cancel_watchdog b s) = ts_rejecting s"
  "ts_failed_closed (cancel_watchdog b s) = ts_failed_closed s" "ts_managed (cancel_watchdog b s) = ts_managed s"
  "ts_authority (cancel_watchdog b s) = ts_authority s"
  by (simp_all add: cancel_watchdog_def clear_continuation_def Let_def)

lemma arm_watchdog_frame [simp]:
  "ts_active (arm_watchdog s) = ts_active s" "ts_seen (arm_watchdog s) = ts_seen s"
  "ts_calls (arm_watchdog s) = ts_calls s" "ts_claimed (arm_watchdog s) = ts_claimed s"
  "ts_delivered (arm_watchdog s) = ts_delivered s" "ts_answers (arm_watchdog s) = ts_answers s"
  "ts_executed (arm_watchdog s) = ts_executed s" "ts_stop (arm_watchdog s) = ts_stop s"
  "ts_torn (arm_watchdog s) = ts_torn s" "ts_rejecting (arm_watchdog s) = ts_rejecting s"
  "ts_failed_closed (arm_watchdog s) = ts_failed_closed s" "ts_managed (arm_watchdog s) = ts_managed s"
  "ts_authority (arm_watchdog s) = ts_authority s"
  by (simp_all add: arm_watchdog_def Let_def split: watchdog.split)

lemma fail_session_frame [simp]:
  "ts_active (fail_session e s) = ts_active s" "ts_seen (fail_session e s) = ts_seen s"
  "ts_calls (fail_session e s) = ts_calls s" "ts_claimed (fail_session e s) = ts_claimed s"
  "ts_delivered (fail_session e s) = ts_delivered s" "ts_answers (fail_session e s) = ts_answers s"
  "ts_executed (fail_session e s) = ts_executed s" "ts_stop (fail_session e s) = ts_stop s"
  "ts_torn (fail_session e s) = ts_torn s" "ts_rejecting (fail_session e s) = ts_rejecting s"
  "ts_failed_closed (fail_session e s) = ts_failed_closed s" "ts_managed (fail_session e s) = ts_managed s"
  "ts_authority (fail_session e s) = ts_authority s"
  by (simp_all add: fail_session_def)

lemma require_continuation_frame [simp]:
  "ts_active (require_continuation c s) = ts_active s" "ts_seen (require_continuation c s) = ts_seen s"
  "ts_calls (require_continuation c s) = ts_calls s" "ts_claimed (require_continuation c s) = ts_claimed s"
  "ts_delivered (require_continuation c s) = ts_delivered s" "ts_answers (require_continuation c s) = ts_answers s"
  "ts_executed (require_continuation c s) = ts_executed s" "ts_stop (require_continuation c s) = ts_stop s"
  "ts_torn (require_continuation c s) = ts_torn s" "ts_rejecting (require_continuation c s) = ts_rejecting s"
  "ts_failed_closed (require_continuation c s) = ts_failed_closed s" "ts_managed (require_continuation c s) = ts_managed s"
  "ts_authority (require_continuation c s) = ts_authority s"
  by (simp_all add: require_continuation_def)

section \<open>The invariant\<close>

definition accepted :: "rpc_id \<times> tool_task \<Rightarrow> bool" where
  "accepted p \<longleftrightarrow> tt_rejection (snd p) = None"

text \<open>Requests, calls and answers.\<close>

definition calls_inv :: "tool_session \<Rightarrow> bool" where
  "calls_inv s \<longleftrightarrow>
     distinct (map fst (ts_active s)) \<and> fst ` set (ts_active s) \<subseteq> set (ts_seen s) \<and> distinct (ts_seen s) \<and>
     distinct (ts_calls s) \<and> length (ts_calls s) \<le> 1024 \<and> length (ts_calls s) \<le> length (ts_seen s) \<and>
     length (filter accepted (ts_active s)) \<le> 16"

definition answers_inv :: "tool_session \<Rightarrow> bool" where
  "answers_inv s \<longleftrightarrow>
     distinct (ts_claimed s) \<and> map fst (ts_answers s) = ts_claimed s \<and> set (ts_delivered s) \<subseteq> set (ts_claimed s) \<and>
     set (ts_rejecting s) \<subseteq> set (ts_claimed s) \<and> set (ts_seen s) \<subseteq> set (ts_claimed s) \<union> fst ` set (ts_active s)"

text \<open>The calls that were handed to the broker, and the admitted ones that will be.\<close>

definition to_execute :: "(rpc_id \<times> tool_task) list \<Rightarrow> (rpc_id \<times> string) list" where
  "to_execute ps = map (\<lambda>p. (fst p, tt_call (snd p))) (filter (\<lambda>p. accepted p \<and> tt_stage (snd p) = ToStart) ps)"

definition exec_inv :: "tool_session \<Rightarrow> bool" where
  "exec_inv s \<longleftrightarrow>
     (let ps = ts_executed s @ to_execute (ts_active s)
      in distinct (map fst ps) \<and> distinct (map snd ps) \<and> set (map snd ps) \<subseteq> set (ts_calls s) \<and>
         set (map fst ps) \<subseteq> set (ts_seen s))"

definition troubled :: "tool_session \<Rightarrow> bool" where
  "troubled s \<longleftrightarrow> ts_failure s \<noteq> None \<or> ts_raised s \<noteq> [] \<or> ts_stop s"

definition stage_ok :: "tool_session \<Rightarrow> rpc_id \<times> tool_task \<Rightarrow> bool" where
  "stage_ok s p \<longleftrightarrow>
     (case tt_stage (snd p) of
        InBroker \<Rightarrow> accepted p
      | InWrite r \<Rightarrow> fst p \<in> set (ts_claimed s)
      | ToFinish \<Rightarrow> fst p \<in> set (ts_claimed s) \<or> troubled s
      | ToolOver \<Rightarrow> troubled s
      | _ \<Rightarrow> True)"

definition stages_inv :: "tool_session \<Rightarrow> bool" where
  "stages_inv s \<longleftrightarrow> list_all (stage_ok s) (ts_active s) \<and> (ts_torn s \<longrightarrow> ts_stop s)"

definition watch_inv :: "tool_session \<Rightarrow> bool" where
  "watch_inv s \<longleftrightarrow>
     (\<forall>g. ts_watchdog s = Watching g \<longrightarrow> g = ts_watch_generation s \<and> ts_pending s \<noteq> None \<and> \<not> unsettled s)"

definition deadline_inv :: "tool_session \<Rightarrow> bool" where
  "deadline_inv s \<longleftrightarrow>
     (ts_pending s \<noteq> None \<and> \<not> unsettled s \<and> \<not> troubled s \<longrightarrow>
        (\<exists>g. ts_watchdog s = Watching g) \<or> ts_active s \<noteq> [])"

definition tools_inv :: "tool_session \<Rightarrow> bool" where
  "tools_inv s \<longleftrightarrow> calls_inv s \<and> answers_inv s \<and> exec_inv s \<and> stages_inv s \<and> watch_inv s \<and> deadline_inv s"

lemmas tools_inv_defs = calls_inv_def answers_inv_def exec_inv_def stages_inv_def watch_inv_def deadline_inv_def

lemma new_tools_inv: "tools_inv (new_tool_session managed authority)"
  by (simp add: tools_inv_def tools_inv_defs new_tool_session_def to_execute_def)

section \<open>The continuation\<close>

lemma troubled_frame [simp]:
  "troubled (cancel_watchdog b s) = troubled s" "troubled (arm_watchdog s) = troubled s"
  "troubled (require_continuation c s) = troubled s"
  by (simp_all add: troubled_def cancel_watchdog_def arm_watchdog_def clear_continuation_def require_continuation_def
      Let_def split: watchdog.split)

lemma troubled_fail [simp]: "troubled (fail_session e s)"
  by (simp add: troubled_def fail_session_def)

lemma unsettled_frame [simp]:
  "unsettled (cancel_watchdog b s) = unsettled s" "unsettled (arm_watchdog s) = unsettled s"
  by (simp_all add: unsettled_def)

lemma cancel_pending [simp]:
  "ts_pending (cancel_watchdog True s) = None" "ts_watchdog (cancel_watchdog b s) = NoWatchdog"
  by (simp_all add: cancel_watchdog_def clear_continuation_def Let_def)

lemma cancel_watch: "watch_inv (cancel_watchdog b s)" "deadline_inv (cancel_watchdog True s)"
  by (simp_all add: watch_inv_def deadline_inv_def)

lemma arm_watch: "watch_inv s \<Longrightarrow> watch_inv (arm_watchdog s)"
  by (auto simp: watch_inv_def arm_watchdog_def cancel_watchdog_def clear_continuation_def unsettled_def Let_def
      split: watchdog.splits)

text \<open>After arming, a required continuation without outstanding results has a deadline.\<close>

lemma arm_deadline: "watch_inv s \<Longrightarrow> deadline_inv (arm_watchdog s)"
  by (auto simp: deadline_inv_def arm_watchdog_def cancel_watchdog_def clear_continuation_def unsettled_def
      troubled_def watch_inv_def Let_def split: watchdog.splits)

lemma require_watch: "watch_inv s \<Longrightarrow> watch_inv (require_continuation c s)"
  unfolding require_continuation_def by (rule arm_watch) (simp add: watch_inv_def unsettled_def)

text \<open>Invariants whose fields an operation leaves alone.\<close>

lemma calls_inv_cong:
  "ts_active s' = ts_active s \<Longrightarrow> ts_seen s' = ts_seen s \<Longrightarrow> ts_calls s' = ts_calls s \<Longrightarrow> calls_inv s' = calls_inv s"
  by (simp add: calls_inv_def)

lemma answers_inv_cong:
  "ts_active s' = ts_active s \<Longrightarrow> ts_seen s' = ts_seen s \<Longrightarrow> ts_claimed s' = ts_claimed s \<Longrightarrow>
   ts_answers s' = ts_answers s \<Longrightarrow> ts_delivered s' = ts_delivered s \<Longrightarrow> ts_rejecting s' = ts_rejecting s \<Longrightarrow>
   answers_inv s' = answers_inv s"
  by (simp add: answers_inv_def)

lemma exec_inv_cong:
  "ts_active s' = ts_active s \<Longrightarrow> ts_seen s' = ts_seen s \<Longrightarrow> ts_calls s' = ts_calls s \<Longrightarrow>
   ts_executed s' = ts_executed s \<Longrightarrow> exec_inv s' = exec_inv s"
  by (simp add: exec_inv_def)

lemma stage_ok_cong: "ts_claimed s' = ts_claimed s \<Longrightarrow> troubled s' = troubled s \<Longrightarrow> stage_ok s' = stage_ok s"
  by (auto simp: fun_eq_iff stage_ok_def split: tool_stage.split)

lemma stages_inv_mono:
  assumes "stages_inv s" "set (ts_active s') \<subseteq> set (ts_active s)" "set (ts_claimed s) \<subseteq> set (ts_claimed s')"
    "troubled s \<Longrightarrow> troubled s'" "ts_torn s' \<Longrightarrow> ts_stop s'"
  shows "stages_inv s'"
  using assms unfolding stages_inv_def stage_ok_def list_all_iff by (auto split: tool_stage.splits dest!: subsetD)

text \<open>Operations that touch the continuation and nothing else.\<close>

lemma continuation_inv:
  assumes "tools_inv s" "watch_inv s'" "deadline_inv s'" "troubled s \<Longrightarrow> troubled s'"
    "ts_active s' = ts_active s" "ts_seen s' = ts_seen s" "ts_calls s' = ts_calls s" "ts_claimed s' = ts_claimed s"
    "ts_delivered s' = ts_delivered s" "ts_answers s' = ts_answers s" "ts_executed s' = ts_executed s"
    "ts_rejecting s' = ts_rejecting s" "ts_torn s' = ts_torn s" "ts_stop s' = ts_stop s"
  shows "tools_inv s'"
  using assms calls_inv_cong [of s' s] answers_inv_cong [of s' s] exec_inv_cong [of s' s] stages_inv_mono [of s s']
  by (simp add: tools_inv_def) (simp add: stages_inv_def)

lemma cancel_watchdog_inv: "tools_inv s \<Longrightarrow> tools_inv (cancel_watchdog True s)"
  by (erule continuation_inv) (simp_all add: cancel_watch)

section \<open>Tasks\<close>

lemma set_stage_frame [simp]:
  "ts_seen (set_stage k st s) = ts_seen s" "ts_calls (set_stage k st s) = ts_calls s"
  "ts_claimed (set_stage k st s) = ts_claimed s" "ts_delivered (set_stage k st s) = ts_delivered s"
  "ts_answers (set_stage k st s) = ts_answers s" "ts_executed (set_stage k st s) = ts_executed s"
  "ts_stop (set_stage k st s) = ts_stop s" "ts_torn (set_stage k st s) = ts_torn s"
  "ts_rejecting (set_stage k st s) = ts_rejecting s" "ts_watchdog (set_stage k st s) = ts_watchdog s"
  "ts_watch_generation (set_stage k st s) = ts_watch_generation s" "ts_pending (set_stage k st s) = ts_pending s"
  "ts_failed_closed (set_stage k st s) = ts_failed_closed s" "troubled (set_stage k st s) = troubled s"
  by (simp_all add: set_stage_def troubled_def)

lemma map_fst_stage: "map fst (map (\<lambda>p. if fst p = k then (k, f p) else p) ps) = map fst ps"
  by (induction ps) auto

lemma set_stage_keys [simp]:
  "map fst (ts_active (set_stage k st s)) = map fst (ts_active s)"
  "fst ` set (ts_active (set_stage k st s)) = fst ` set (ts_active s)"
  "ts_active (set_stage k st s) = [] \<longleftrightarrow> ts_active s = []"
proof -
  show keys: "map fst (ts_active (set_stage k st s)) = map fst (ts_active s)"
    by (simp add: set_stage_def map_fst_stage del: map_map)
  from arg_cong [OF keys, of set] show "fst ` set (ts_active (set_stage k st s)) = fst ` set (ts_active s)" by simp
  show "ts_active (set_stage k st s) = [] \<longleftrightarrow> ts_active s = []" by (simp add: set_stage_def)
qed

lemma unsettled_keys: "unsettled s \<longleftrightarrow> \<not> fst ` set (ts_active s) \<subseteq> set (ts_delivered s)"
  by (auto simp: unsettled_def)

lemma set_stage_unsettled [simp]: "unsettled (set_stage k st s) = unsettled s"
  by (simp add: unsettled_keys)

lemma set_stage_accepted [simp]:
  "length (filter accepted (ts_active (set_stage k st s))) = length (filter accepted (ts_active s))"
proof -
  have "length (filter accepted (map (\<lambda>p. if fst p = k then (k, (snd p)\<lparr>tt_stage := st\<rparr>) else p) ps)) =
      length (filter accepted ps)" for ps
    by (induction ps) (auto simp: accepted_def)
  then show ?thesis by (simp add: set_stage_def)
qed

lemma to_execute_stage:
  "st \<noteq> ToStart \<Longrightarrow> to_execute (ts_active (set_stage k st s)) = filter (\<lambda>q. fst q \<noteq> k) (to_execute (ts_active s))"
proof -
  assume st: "st \<noteq> ToStart"
  have "to_execute (map (\<lambda>p. if fst p = k then (k, (snd p)\<lparr>tt_stage := st\<rparr>) else p) ps) =
      filter (\<lambda>q. fst q \<noteq> k) (to_execute ps)" for ps
    using st by (induction ps) (auto simp: to_execute_def accepted_def)
  then show ?thesis by (simp add: set_stage_def)
qed

lemma exec_inv_fewer:
  assumes "exec_inv s" "ts_executed s' = ts_executed s" "to_execute (ts_active s') = filter P (to_execute (ts_active s))"
    "set (ts_calls s) \<subseteq> set (ts_calls s')" "set (ts_seen s) \<subseteq> set (ts_seen s')"
  shows "exec_inv s'"
  using assms unfolding exec_inv_def Let_def
  by (auto simp: distinct_map_filter)

lemma set_stage_inv:
  assumes "tools_inv s" "st \<noteq> ToStart" "\<And>t. stage_ok s (k, t\<lparr>tt_stage := st\<rparr>)"
  shows "tools_inv (set_stage k st s)"
proof -
  have "stages_inv (set_stage k st s)"
    using assms by (auto simp: tools_inv_def stages_inv_def stage_ok_def list_all_iff set_stage_def troubled_def split: tool_stage.splits)
  moreover have "exec_inv (set_stage k st s)"
    by (rule exec_inv_fewer [where s = s]) (use assms(1,2) in \<open>simp_all add: to_execute_stage tools_inv_def\<close>)
  ultimately show ?thesis
    using assms(1) by (simp add: tools_inv_def calls_inv_def answers_inv_def watch_inv_def deadline_inv_def)
qed

lemma fail_session_watch [simp]:
  "ts_watchdog (fail_session e s) = ts_watchdog s" "ts_watch_generation (fail_session e s) = ts_watch_generation s"
  "ts_pending (fail_session e s) = ts_pending s"
  by (simp_all add: fail_session_def)

lemma fail_inv: "tools_inv s \<Longrightarrow> tools_inv (fail_session e s)"
  by (rule continuation_inv [of s]) (simp_all add: tools_inv_def watch_inv_def deadline_inv_def unsettled_def)

lemma closed_inv: "tools_inv (s\<lparr>ts_failed_closed := b\<rparr>) = tools_inv s"
proof -
  have t: "troubled (s\<lparr>ts_failed_closed := b\<rparr>) = troubled s" by (simp add: troubled_def)
  have "stage_ok (s\<lparr>ts_failed_closed := b\<rparr>) = stage_ok s" by (auto simp: fun_eq_iff stage_ok_def t split: tool_stage.splits)
  then show ?thesis by (simp add: tools_inv_def tools_inv_defs unsettled_keys t)
qed

section \<open>Answers\<close>

lemma claim_answer_frame [simp]:
  "ts_active (claim_answer frepr digest k r c g b v s) = ts_active s"
  "ts_seen (claim_answer frepr digest k r c g b v s) = ts_seen s"
  "ts_calls (claim_answer frepr digest k r c g b v s) = ts_calls s"
  "ts_claimed (claim_answer frepr digest k r c g b v s) = ts_claimed s @ [k]"
  "ts_delivered (claim_answer frepr digest k r c g b v s) = ts_delivered s"
  "map fst (ts_answers (claim_answer frepr digest k r c g b v s)) = map fst (ts_answers s) @ [k]"
  "ts_executed (claim_answer frepr digest k r c g b v s) = ts_executed s"
  "ts_stop (claim_answer frepr digest k r c g b v s) = ts_stop s"
  "ts_torn (claim_answer frepr digest k r c g b v s) = ts_torn s"
  "ts_rejecting (claim_answer frepr digest k r c g b v s) = ts_rejecting s"
  "ts_failed_closed (claim_answer frepr digest k r c g b v s) = ts_failed_closed s"
  "troubled (claim_answer frepr digest k r c g b v s) = troubled s"
proof -
  have a: "troubled (u\<lparr>ts_answers := x\<rparr>) = troubled u" "troubled (u\<lparr>ts_claimed := z\<rparr>) = troubled u" for u x z
    by (simp_all add: troubled_def)
  show "troubled (claim_answer frepr digest k r c g b v s) = troubled s"
    by (simp add: claim_answer_def Let_def a)
qed (simp_all add: claim_answer_def Let_def)

lemma claim_answer_watch: "watch_inv s \<Longrightarrow> watch_inv (claim_answer frepr digest k r c g b v s)"
proof -
  assume "watch_inv s"
  then have w: "watch_inv (s\<lparr>ts_claimed := ts_claimed s @ [k]\<rparr>)" by (simp add: watch_inv_def unsettled_def)
  have cong: "watch_inv (u\<lparr>ts_answers := a\<rparr>) = watch_inv u" for u a by (simp add: watch_inv_def unsettled_def)
  show ?thesis using w require_watch [OF w] by (simp add: claim_answer_def Let_def cong)
qed

lemma claim_answer_inv:
  assumes "tools_inv s" "k \<notin> set (ts_claimed s)" "k \<in> fst ` set (ts_active s)"
  shows "tools_inv (claim_answer frepr digest k r c g b v s)" (is "tools_inv ?s")
proof -
  have "stages_inv ?s"
    by (rule stages_inv_mono [where s = s]) (use assms(1) in \<open>auto simp: tools_inv_def stages_inv_def\<close>)
  moreover have "answers_inv ?s" using assms by (auto simp: tools_inv_def answers_inv_def)
  moreover have "deadline_inv ?s" using assms(3) by (auto simp: deadline_inv_def)
  ultimately show ?thesis
    using assms(1) claim_answer_watch [of s] calls_inv_cong [of ?s s] exec_inv_cong [of ?s s]
    by (simp add: tools_inv_def)
qed

lemma respond_once_inv:
  assumes "tools_inv s" "k \<in> fst ` set (ts_active s)"
  shows "tools_inv (respond_once frepr digest k r c g b v s)"
proof (cases "k \<in> set (ts_claimed s)")
  case True
  then show ?thesis using assms(1) by (simp add: respond_once_def set_stage_inv stage_ok_def)
next
  case False
  then show ?thesis
    using claim_answer_inv [OF assms(1) False assms(2)] by (simp add: respond_once_def set_stage_inv stage_ok_def)
qed

lemma answer_task_inv: "tools_inv s \<Longrightarrow> k \<in> fst ` set (ts_active s) \<Longrightarrow> tools_inv (answer_task frepr digest k t b v s)"
  by (simp add: answer_task_def respond_once_inv)

lemma answer_written_inv:
  assumes "tools_inv s" "k \<in> fst ` set (ts_active s)" "k \<in> set (ts_claimed s)"
  shows "tools_inv (answer_written k required outcome s)"
proof (cases outcome)
  case (Some e)
  then show ?thesis using assms(3) fail_inv [OF assms(1)] by (simp add: answer_written_def set_stage_inv stage_ok_def)
next
  case None
  let ?s = "s\<lparr>ts_delivered := ts_delivered s @ [k]\<rparr>"
  have t: "troubled ?s = troubled s" by (simp add: troubled_def)
  have inv: "calls_inv s" "answers_inv s" "exec_inv s" "stages_inv s" "watch_inv s" "deadline_inv s"
    using assms(1) by (simp_all add: tools_inv_def)
  have "calls_inv ?s" "exec_inv ?s" using inv calls_inv_cong [of ?s s] exec_inv_cong [of ?s s] by simp_all
  moreover have "answers_inv ?s" using inv(2) assms(3) by (simp add: answers_inv_def)
  moreover have "stages_inv ?s"
    by (rule stages_inv_mono [OF inv(4)]) (use inv(4) in \<open>simp_all add: t, simp add: stages_inv_def\<close>)
  moreover have "watch_inv ?s" using inv(5) by (auto simp: watch_inv_def unsettled_def)
  moreover have "deadline_inv ?s" using assms(2) by (auto simp: deadline_inv_def)
  ultimately have "tools_inv ?s" by (simp add: tools_inv_def)
  moreover from this have "tools_inv (arm_watchdog ?s)"
    by (rule continuation_inv) (use \<open>tools_inv ?s\<close> in \<open>simp_all add: tools_inv_def arm_watch arm_deadline\<close>)
  ultimately show ?thesis
    using None assms(3) by (simp add: answer_written_def Let_def set_stage_inv stage_ok_def)
qed

text \<open>An element that moves from the second list to the end of the first.\<close>

lemma filter_key: "distinct (map f ys) \<Longrightarrow> p \<in> set ys \<Longrightarrow> filter (\<lambda>q. f q \<noteq> f p) ys = filter (\<lambda>q. q \<noteq> p) ys"
  by (auto intro!: filter_cong simp: distinct_map dest: inj_onD)

lemma move_distinct:
  assumes "distinct (map f (xs @ ys))" "p \<in> set ys"
  shows "distinct (map f ((xs @ [p]) @ filter (\<lambda>q. q \<noteq> p) ys))"
proof -
  have "f p \<notin> f ` set xs" using assms by auto
  moreover have "f p \<notin> f ` set (filter (\<lambda>q. q \<noteq> p) ys)"
    using assms by (auto simp: distinct_map dest: inj_onD)
  ultimately show ?thesis using assms by (auto simp: distinct_map_filter)
qed

lemma move_set: "p \<in> set ys \<Longrightarrow> set ((xs @ [p]) @ filter (\<lambda>q. q \<noteq> p) ys) = set (xs @ ys)"
  by auto

lemma execute_inv:
  assumes "tools_inv s" "map_of (ts_active s) k = Some t" "tt_stage t = ToStart" "tt_rejection t = None"
  shows "tools_inv (set_stage k InBroker (s\<lparr>ts_executed := ts_executed s @ [(k, tt_call t)]\<rparr>))"
proof -
  define s0 where "s0 = s\<lparr>ts_executed := ts_executed s @ [(k, tt_call t)]\<rparr>"
  have s0: "ts_active s0 = ts_active s" "ts_executed s0 = ts_executed s @ [(k, tt_call t)]" "ts_seen s0 = ts_seen s"
    "ts_calls s0 = ts_calls s" "troubled s0 = troubled s" by (simp_all add: s0_def troubled_def)
  have mem: "(k, tt_call t) \<in> set (to_execute (ts_active s))"
    using map_of_SomeD [OF assms(2)] assms(3,4) by (force simp: to_execute_def accepted_def)
  have inv: "calls_inv s" "answers_inv s" "exec_inv s" "stages_inv s" "watch_inv s" "deadline_inv s"
    using assms(1) by (simp_all add: tools_inv_def)
  have "filter (\<lambda>q. fst q \<noteq> k) (to_execute (ts_active s)) = filter (\<lambda>q. q \<noteq> (k, tt_call t)) (to_execute (ts_active s))"
    by (rule filter_key [OF _ mem, of fst, simplified]) (use inv(3) in \<open>simp add: exec_inv_def Let_def\<close>)
  then have "exec_inv (set_stage k InBroker s0)"
    using inv(3) move_distinct [OF _ mem, of fst] move_distinct [OF _ mem, of snd]
      move_set [OF mem, of "ts_executed s"]
    by (simp only: exec_inv_def Let_def set_stage_frame to_execute_stage s0 tool_stage.distinct not_False_eq_True set_map)
  moreover have "accepted (k, b)" if "(k, b) \<in> set (ts_active s)" for b
    using map_of_is_SomeI [OF _ that] assms(2,4) inv(1) by (simp add: calls_inv_def accepted_def)
  then have "stages_inv (set_stage k InBroker s0)"
    using inv(4) by (auto simp: stages_inv_def stage_ok_def list_all_iff set_stage_def s0 s0_def troubled_def accepted_def split: tool_stage.splits)
  moreover have "calls_inv s0" "answers_inv s0" "watch_inv s0" "deadline_inv s0"
    using inv s0(5) by (simp_all add: s0_def calls_inv_def answers_inv_def watch_inv_def deadline_inv_def unsettled_keys)
  ultimately have "tools_inv (set_stage k InBroker s0)"
    by (simp add: tools_inv_def calls_inv_def answers_inv_def watch_inv_def deadline_inv_def)
  then show ?thesis by (simp add: s0_def)
qed

lemma start_task_inv:
  assumes "tools_inv s" "map_of (ts_active s) k = Some t" "tt_stage t = ToStart"
  shows "tools_inv (start_task frepr digest k t s)"
proof -
  have k: "k \<in> fst ` set (ts_active s)" using map_of_SomeD [OF assms(2)] by force
  note closed = answer_task_inv [of "s\<lparr>ts_failed_closed := True\<rparr>"]
  show ?thesis
    using assms(1) k closed answer_task_inv [OF assms(1) k] execute_inv [OF assms]
    by (auto simp: start_task_def closed_inv split: option.split json.split)
qed

lemma broker_returned_inv:
  assumes "tools_inv s" "k \<in> fst ` set (ts_active s)"
  shows "tools_inv (broker_returned frepr digest k t outcome s)"
  using assms answer_task_inv [of "s\<lparr>ts_failed_closed := True\<rparr>"] answer_task_inv [OF assms] fail_inv [OF assms(1)]
  by (auto simp: broker_returned_def closed_inv set_stage_inv stage_ok_def split: broker_outcome.split)

lemma task_finished_inv:
  assumes "tools_inv s" "map_of (ts_active s) k = Some t" "tt_stage t = ToFinish"
  shows "tools_inv (task_finished k s)"
proof (cases "k \<in> set (ts_claimed s)")
  case False
  then have "troubled s"
    using assms map_of_SomeD [OF assms(2)] by (auto simp: tools_inv_def stages_inv_def list_all_iff stage_ok_def)
  then show ?thesis using False assms(1) by (simp add: task_finished_def set_stage_inv stage_ok_def)
next
  case True
  let ?s = "s\<lparr>ts_active := dict_pop (ts_active s) k\<rparr>"
  have t: "troubled ?s = troubled s" by (simp add: troubled_def)
  have sub: "ts_active ?s = filter (\<lambda>p. fst p \<noteq> k) (ts_active s)" by (simp add: dict_pop_def)
  have inv: "calls_inv s" "answers_inv s" "exec_inv s" "stages_inv s" "watch_inv s"
    using assms(1) by (simp_all add: tools_inv_def)
  have "length (filter accepted (ts_active ?s)) \<le> length (filter accepted (ts_active s))"
    unfolding sub using length_filter_le [of "\<lambda>p. fst p \<noteq> k" "filter accepted (ts_active s)"] by (simp add: conj_commute)
  then have "calls_inv ?s" using inv(1) by (auto simp: calls_inv_def dict_pop_def distinct_map_filter)
  moreover have "answers_inv ?s" using inv(2) True by (auto simp: answers_inv_def dict_pop_def)
  moreover have "exec_inv ?s"
    by (rule exec_inv_fewer [OF inv(3), where P = "\<lambda>q. fst q \<noteq> k"])
      (simp_all add: dict_pop_def to_execute_def filter_map o_def conj_commute)
  moreover have "stages_inv ?s"
    by (rule stages_inv_mono [OF inv(4)]) (use inv(4) in \<open>auto simp: t sub, simp add: stages_inv_def\<close>)
  moreover have w: "watch_inv ?s" using inv(5) by (auto simp: watch_inv_def unsettled_def dict_pop_def)
  ultimately have arm: "tools_inv (arm_watchdog ?s)"
    using calls_inv_cong [of "arm_watchdog ?s" ?s] answers_inv_cong [of "arm_watchdog ?s" ?s]
      exec_inv_cong [of "arm_watchdog ?s" ?s] stages_inv_mono [of ?s "arm_watchdog ?s"] arm_watch [OF w] arm_deadline [OF w]
    by (simp add: tools_inv_def) (simp add: stages_inv_def)
  show ?thesis
    using True map_of_SomeD [OF assms(2)] arm by (force simp: task_finished_def)
qed

section \<open>Admission and teardown\<close>

text \<open>Steps that matter neither to the calls nor to the watchdog.\<close>

definition same_watch :: "tool_session \<Rightarrow> tool_session \<Rightarrow> bool" where
  "same_watch s s' \<longleftrightarrow>
     ts_active s' = ts_active s \<and> ts_seen s' = ts_seen s \<and> ts_calls s' = ts_calls s \<and> ts_claimed s' = ts_claimed s \<and>
     ts_delivered s' = ts_delivered s \<and> ts_answers s' = ts_answers s \<and> ts_executed s' = ts_executed s \<and>
     ts_rejecting s' = ts_rejecting s \<and> ts_torn s' = ts_torn s \<and> ts_stop s' = ts_stop s \<and>
     ts_failure s' = ts_failure s \<and> ts_raised s' = ts_raised s \<and> ts_watchdog s' = ts_watchdog s \<and>
     ts_watch_generation s' = ts_watch_generation s \<and> ts_pending s' = ts_pending s"

lemma admission_None:
  "admission c s = None \<Longrightarrow> length (ts_seen s) \<le> 1024 \<and> c \<notin> set (ts_calls s) \<and> length (ts_active s) < 16 \<and>
   \<not> ts_failed_closed s"
  by (auto simp: admission_def REALTIME_MAX_TOOL_CALLS_PER_SESSION_def REALTIME_MAX_PENDING_TOOL_CALLS_def split: if_splits)

lemma admit_inv:
  assumes "tools_inv s" "k \<notin> set (ts_seen s)" "ts_pending s = None" "ts_watchdog s = NoWatchdog" "tt_stage t = ToStart"
    and r: "tt_rejection t = None \<Longrightarrow>
      length (ts_seen s) < 1024 \<and> tt_call t \<notin> set (ts_calls s) \<and> length (ts_active s) < 16"
  shows "tools_inv (s\<lparr>ts_seen := ts_seen s @ [k],
    ts_calls := (if tt_rejection t = None then ts_calls s @ [tt_call t] else ts_calls s),
    ts_active := ts_active s @ [(k, t)]\<rparr>)" (is "tools_inv ?s")
proof -
  have inv: "calls_inv s" "answers_inv s" "exec_inv s" "stages_inv s"
    using assms(1) by (simp_all add: tools_inv_def)
  have t: "troubled ?s = troubled s" by (simp add: troubled_def)
  have new: "k \<notin> fst ` set (ts_active s)" using inv(1) assms(2) by (auto simp: calls_inv_def)
  have a: "length (filter accepted (ts_active s)) < 16" if "tt_rejection t = None"
    using r [OF that] length_filter_le [of accepted "ts_active s"] by linarith
  have "calls_inv ?s"
    using inv(1) assms(2) new a r by (auto simp: calls_inv_def accepted_def)
  moreover have "answers_inv ?s" using inv(2) by (auto simp: answers_inv_def)
  moreover have "exec_inv ?s"
  proof (cases "tt_rejection t = None")
    case True
    have e: "to_execute (ts_active s @ [(k, t)]) = to_execute (ts_active s) @ [(k, tt_call t)]"
      using True assms(5) by (simp add: to_execute_def accepted_def)
    show ?thesis
      using inv(3) assms(2) r [OF True] True by (auto simp: exec_inv_def Let_def e)
  next
    case False
    have "to_execute (ts_active s @ [(k, t)]) = to_execute (ts_active s)"
      using False by (simp add: to_execute_def accepted_def)
    then show ?thesis using inv(3) False by (auto simp: exec_inv_def Let_def)
  qed
  moreover have "list_all (stage_ok ?s) (ts_active s @ [(k, t)])"
    using inv(4) assms(5) stage_ok_cong [of ?s s] by (simp only: stages_inv_def t list_all_append tool_session.simps)
      (simp add: stage_ok_def)
  then have "stages_inv ?s" using inv(4) by (simp add: stages_inv_def)
  moreover have "watch_inv ?s" "deadline_inv ?s" using assms(3,4) by (simp_all add: watch_inv_def deadline_inv_def)
  ultimately show ?thesis by (simp add: tools_inv_def)
qed

lemma start_tool_call_inv:
  assumes "tools_inv s"
  shows "tools_inv (start_tool_call frepr event s)"
proof (cases "request_key (jget event ''id'')")
  case None
  then show ?thesis by (simp add: start_tool_call_def fail_inv [OF assms])
next
  case (Some k)
  show ?thesis
  proof (cases "\<exists>params. jget event ''params'' = JObj params \<and> k \<notin> set (ts_seen s)")
    case False
    then show ?thesis using Some fail_inv [OF assms] assms by (auto simp: start_tool_call_def split: json.split)
  next
    case True
    then obtain params where p: "jget event ''params'' = JObj params" and k: "k \<notin> set (ts_seen s)" by blast
    define c where "c = py_str frepr (jget_default params ''callId'' (jget event ''id''))"
    define s1 where "s1 = cancel_watchdog True (s\<lparr>ts_seen := ts_seen s @ [k]\<rparr>)"
    define t where "t = \<lparr>tt_request = jget event ''id'', tt_call = c, tt_name = jget params ''tool'',
        tt_arguments = jget_default params ''arguments'' (JObj []), tt_rejection = admission c s1,
        tt_generation = (if ts_managed s1 then ts_owner s1 else None), tt_stage = ToStart\<rparr>"
    let ?c = "cancel_watchdog True s"
    have s1: "s1 = ?c\<lparr>ts_seen := ts_seen ?c @ [k]\<rparr>"
      by (simp add: s1_def cancel_watchdog_def clear_continuation_def Let_def)
    have "tools_inv (?c\<lparr>ts_seen := ts_seen ?c @ [k],
        ts_calls := (if tt_rejection t = None then ts_calls ?c @ [tt_call t] else ts_calls ?c),
        ts_active := ts_active ?c @ [(k, t)]\<rparr>)" (is "tools_inv ?s2")
      by (rule admit_inv [OF cancel_watchdog_inv [OF assms]])
        (use k admission_None [of c s1] in \<open>auto simp: t_def s1\<close>)
    moreover define s2 where "s2 = s1\<lparr>ts_calls := (if tt_rejection t = None then ts_calls s1 @ [tt_call t] else ts_calls s1),
        ts_active := ts_active s1 @ [(k, t)]\<rparr>"
    moreover have "?s2 = s2" by (simp add: s2_def s1)
    moreover have "start_tool_call frepr event s =
        (if REALTIME_MAX_TOOL_CALLS_PER_SESSION < length (ts_seen s2)
         then fail_session (ProtocolError ''realtime provider exceeded the tool-call limit'') s2 else s2)"
      unfolding start_tool_call_def Some p prod.case option.case json.case Let_def s2_def t_def s1_def c_def
      using k by (simp only: if_False tool_task.simps)
    ultimately show ?thesis using fail_inv [of s2] by simp
  qed
qed

lemma side_answer_inv:
  assumes "tools_inv s" "k \<notin> set (ts_claimed s)"
  shows "tools_inv (s\<lparr>ts_claimed := ts_claimed s @ [k], ts_rejecting := ts_rejecting s @ [k], ts_answers := ts_answers s @ [(k, v)]\<rparr>)"
    (is "tools_inv ?s")
proof -
  have inv: "calls_inv s" "answers_inv s" "exec_inv s" "stages_inv s" "watch_inv s" "deadline_inv s"
    using assms(1) by (simp_all add: tools_inv_def)
  have t: "troubled ?s = troubled s" by (simp add: troubled_def)
  have "stages_inv ?s"
    by (rule stages_inv_mono [OF inv(4)]) (use inv(4) in \<open>simp_all add: t subset_insertI, simp add: stages_inv_def\<close>)
  moreover have "answers_inv ?s" using inv(2) assms(2) by (auto simp: answers_inv_def)
  ultimately show ?thesis
    using inv by (simp add: tools_inv_def calls_inv_def exec_inv_def watch_inv_def deadline_inv_def unsettled_keys t)
qed

lemma reject_unowned_inv: "tools_inv s \<Longrightarrow> tools_inv (reject_unowned frepr event s)"
  by (simp add: reject_unowned_def Let_def side_answer_inv split: option.split)

lemma delivered_inv:
  assumes "tools_inv s" "set ds \<subseteq> set (ts_claimed s)" "set rs \<subseteq> set (ts_claimed s)" "set (ts_delivered s) \<subseteq> set ds"
  shows "tools_inv (s\<lparr>ts_rejecting := rs, ts_delivered := ds\<rparr>)" (is "tools_inv ?s")
proof -
  have inv: "calls_inv s" "answers_inv s" "exec_inv s" "stages_inv s" "watch_inv s" "deadline_inv s"
    using assms(1) by (simp_all add: tools_inv_def)
  have t: "troubled ?s = troubled s" by (simp add: troubled_def)
  have "stages_inv ?s"
    by (rule stages_inv_mono [OF inv(4)]) (use inv(4) in \<open>simp_all add: t, simp add: stages_inv_def\<close>)
  moreover have "answers_inv ?s" using inv(2) assms(2,3) by (simp add: answers_inv_def)
  moreover have "watch_inv ?s" using inv(5) assms(4) by (fastforce simp: watch_inv_def unsettled_keys)
  moreover have "deadline_inv ?s"
  proof (cases "ts_active s = []")
    case True
    then show ?thesis using inv(6) by (simp add: deadline_inv_def unsettled_keys t)
  qed (simp add: deadline_inv_def)
  ultimately show ?thesis
    using inv by (simp add: tools_inv_def calls_inv_def exec_inv_def)
qed

lemma rejection_written_inv: "tools_inv s \<Longrightarrow> k \<in> set (ts_rejecting s) \<Longrightarrow> tools_inv (rejection_written k ok s)"
  unfolding rejection_written_def
  by (rule delivered_inv) (auto simp: tools_inv_def answers_inv_def dest: notin_set_remove1 set_remove1_subset [THEN subsetD])

lemma begin_generation_inv: "tools_inv s \<Longrightarrow> tools_inv (begin_generation s)"
  unfolding begin_generation_def
  by (rule continuation_inv [of s], auto simp: cancel_watch, simp_all add: troubled_def)

lemma begin_teardown_inv:
  assumes "tools_inv s"
  shows "tools_inv (begin_teardown s)"
proof -
  define s1 where "s1 = begin_generation (s\<lparr>ts_stop := True, ts_torn := True\<rparr>)"
  have f: "ts_active s1 = ts_active s" "ts_claimed s1 = ts_claimed s" "ts_stop s1" "ts_pending s1 = None"
    "ts_watchdog s1 = NoWatchdog" "ts_seen s1 = ts_seen s" "ts_calls s1 = ts_calls s" "ts_executed s1 = ts_executed s"
    "ts_answers s1 = ts_answers s" "ts_delivered s1 = ts_delivered s" "ts_rejecting s1 = ts_rejecting s"
    by (simp_all add: s1_def begin_generation_def)
  let ?f = "\<lambda>p. if fst p \<in> set (ts_claimed s) then p else (fst p, (snd p)\<lparr>tt_stage := ToFinish\<rparr>)"
  let ?t = "begin_teardown s"
  have e: "begin_teardown s = s1\<lparr>ts_active := map ?f (ts_active s)\<rparr>"
    by (simp add: begin_teardown_def cancel_unanswered_def s1_def [symmetric] f)
  have g: "ts_active ?t = map ?f (ts_active s)" "ts_claimed ?t = ts_claimed s" "ts_seen ?t = ts_seen s" "ts_calls ?t = ts_calls s"
    "ts_answers ?t = ts_answers s" "ts_delivered ?t = ts_delivered s" "ts_rejecting ?t = ts_rejecting s"
    by (simp_all add: e f)
  have keys: "map fst (map ?f ps) = map fst ps" for ps by (induction ps) auto
  have acc: "length (filter accepted (map ?f ps)) = length (filter accepted ps)" for ps
    by (induction ps) (auto simp: accepted_def)
  have ex: "to_execute (map ?f ps) = filter (\<lambda>q. fst q \<in> set (ts_claimed s)) (to_execute ps)" for ps
    by (induction ps) (auto simp: to_execute_def accepted_def)
  have inv: "calls_inv s" "answers_inv s" "exec_inv s" "stages_inv s" using assms by (simp_all add: tools_inv_def)
  have k: "fst ` set (map ?f (ts_active s)) = fst ` set (ts_active s)"
    using arg_cong [OF keys [of "ts_active s"], of set] by (simp only: set_map)
  have "calls_inv (begin_teardown s)"
    using inv(1) unfolding calls_inv_def by (simp only: g k keys acc)
  moreover have "answers_inv (begin_teardown s)" using inv(2) unfolding answers_inv_def by (simp only: g k)
  moreover have "exec_inv (begin_teardown s)"
    by (rule exec_inv_fewer [OF inv(3), where P = "\<lambda>q. fst q \<in> set (ts_claimed s)"]) (simp_all add: e f ex)
  moreover have "troubled (begin_teardown s)" using f(3) by (simp add: troubled_def e)
  then have "stages_inv (begin_teardown s)"
    using inv(4) by (auto simp: stages_inv_def stage_ok_def list_all_iff e f split: tool_stage.splits)
  ultimately show ?thesis using f by (simp add: tools_inv_def watch_inv_def deadline_inv_def e)
qed

lemma claim_all:
  "tools_inv s \<Longrightarrow> distinct (map fst ps) \<Longrightarrow> fst ` set ps \<inter> set (ts_claimed s) = {} \<Longrightarrow>
   fst ` set ps \<subseteq> fst ` set (ts_active s) \<Longrightarrow>
   (let s' = fold (\<lambda>(k, t). claim_answer frepr digest k (tt_request t) (tt_call t) None False v) ps s
    in tools_inv s' \<and> ts_claimed s' = ts_claimed s @ map fst ps \<and> ts_active s' = ts_active s \<and> ts_seen s' = ts_seen s \<and>
       ts_delivered s' = ts_delivered s \<and> ts_rejecting s' = ts_rejecting s)"
proof (induction ps arbitrary: s)
  case (Cons p ps)
  obtain k t where p: "p = (k, t)" by fastforce
  have "tools_inv (claim_answer frepr digest k (tt_request t) (tt_call t) None False v s)"
    by (rule claim_answer_inv) (use Cons.prems p in auto)
  from Cons.IH [OF this] Cons.prems show ?case by (auto simp: p Let_def)
qed simp

lemma answer_unresolved_inv:
  assumes "tools_inv s"
  shows "tools_inv (answer_unresolved frepr digest s)"
    "set (ts_seen s) \<subseteq> set (ts_claimed (answer_unresolved frepr digest s))"
proof -
  let ?s = "fold (\<lambda>(k, t). claim_answer frepr digest k (tt_request t) (tt_call t) None False
      (do_not_retry ''home_assistant_tool_outcome_unknown'')) (unresolved s) s"
  have "distinct (map fst (unresolved s))"
    using assms by (simp add: unresolved_def tools_inv_def calls_inv_def distinct_map_filter)
  then have c: "tools_inv ?s" "ts_claimed ?s = ts_claimed s @ map fst (unresolved s)" "ts_rejecting ?s = ts_rejecting s"
    using claim_all [OF assms, of "unresolved s" frepr digest "do_not_retry ''home_assistant_tool_outcome_unknown''"]
    by (auto simp: unresolved_def Let_def)
  have d: "set (ts_delivered ?s) \<subseteq> set (ts_claimed ?s)" "set (ts_rejecting s) \<subseteq> set (ts_claimed ?s)"
    using c(1,3) by (simp_all add: tools_inv_def answers_inv_def)
  have "tools_inv (?s\<lparr>ts_rejecting := ts_rejecting s @ map fst (unresolved s), ts_delivered := ts_delivered ?s\<rparr>)"
    by (rule delivered_inv [OF c(1)]) (use c(2) d in auto)
  then show "tools_inv (answer_unresolved frepr digest s)" by (simp add: answer_unresolved_def)
  show "set (ts_seen s) \<subseteq> set (ts_claimed (answer_unresolved frepr digest s))"
    using assms c(2) by (auto simp: answer_unresolved_def tools_inv_def answers_inv_def unresolved_def)
qed

lemma quiet_inv:
  assumes "tools_inv s" "same_watch s s'"
  shows "tools_inv s'"
proof -
  have "watch_inv s'" "deadline_inv s'"
    using assms by (auto simp: tools_inv_def watch_inv_def deadline_inv_def unsettled_def troubled_def same_watch_def)
  then show ?thesis
    by (rule continuation_inv [OF assms(1)]) (use assms(2) in \<open>auto simp: same_watch_def troubled_def\<close>)
qed

lemma announce_inv: "tools_inv s \<Longrightarrow> tools_inv (announce_output r s)"
  by (erule quiet_inv) (simp add: announce_output_def same_watch_def)

lemma complete_inv:
  assumes "tools_inv s"
  shows "tools_inv (complete_after_output s)" "tools_inv (complete_after_terminal e r s)"
proof -
  have "tools_inv (s\<lparr>ts_output_delivered := True\<rparr>)" "tools_inv (s\<lparr>ts_terminal := True\<rparr>)"
    by (rule quiet_inv [OF assms], simp add: same_watch_def)+
  then show "tools_inv (complete_after_output s)" "tools_inv (complete_after_terminal e r s)"
    using assms cancel_watchdog_inv by (auto simp: complete_after_output_def complete_after_terminal_def)
qed

lemma watchdog_over_inv:
  assumes "tools_inv s" "\<forall>g. w \<noteq> Watching g" "(\<exists>g. ts_watchdog s = Watching g) \<longrightarrow> troubled s"
  shows "tools_inv (s\<lparr>ts_watchdog := w\<rparr>)"
  by (rule continuation_inv [OF assms(1)])
    (use assms in \<open>auto simp: tools_inv_def watch_inv_def deadline_inv_def unsettled_def troubled_def\<close>)

lemma watchdog_inv:
  assumes "tools_inv s"
  shows "tools_inv (watchdog_expires s)" "tools_inv (watchdog_finished s)"
proof -
  show "tools_inv (watchdog_finished s)"
    using watchdog_over_inv [OF assms, of NoWatchdog] assms by (auto simp: watchdog_finished_def)
  show "tools_inv (watchdog_expires s)"
  proof (cases "ts_watchdog s")
    case (Watching g)
    let ?s = "if ts_stop s \<or> g \<noteq> ts_watch_generation s then s
        else fail_session (ProtocolError ''realtime provider tool continuation timed out'') s"
    have "g = ts_watch_generation s" using assms Watching by (simp add: tools_inv_def watch_inv_def)
    then have "troubled ?s" by (simp add: troubled_fail) (simp add: troubled_def)
    moreover have "tools_inv ?s" using assms fail_inv by simp
    ultimately show ?thesis
      using watchdog_over_inv [of ?s WatchdogDone] Watching by (simp add: watchdog_expires_def)
  qed (use assms in \<open>simp_all add: watchdog_expires_def\<close>)
qed

lemma failure_raised_inv:
  assumes "tools_inv s" "ts_failure s \<noteq> None"
  shows "tools_inv (s\<lparr>ts_raised := ts_raised s @ [e], ts_failure := None\<rparr>)"
  by (rule continuation_inv [OF assms(1)])
    (use assms in \<open>auto simp: tools_inv_def watch_inv_def deadline_inv_def unsettled_def troubled_def\<close>)

lemma stop_inv:
  assumes "tools_inv s"
  shows "tools_inv (s\<lparr>ts_stop := True\<rparr>)" (is "tools_inv ?s")
proof -
  have t: "troubled ?s" by (simp add: troubled_def)
  have inv: "calls_inv s" "answers_inv s" "exec_inv s" "stages_inv s" "watch_inv s" "deadline_inv s"
    using assms by (simp_all add: tools_inv_def)
  have "stages_inv ?s" by (rule stages_inv_mono [OF inv(4)]) (simp_all add: t)
  then show ?thesis
    using inv t by (simp add: tools_inv_def calls_inv_def answers_inv_def exec_inv_def watch_inv_def deadline_inv_def unsettled_keys)
qed

lemma staged_SomeD:
  "staged k s = Some st \<Longrightarrow> map_of (ts_active s) k = Some (task_of k s) \<and> tt_stage (task_of k s) = st \<and> k \<in> fst ` set (ts_active s)"
  by (force simp: staged_def task_of_def dest: map_of_SomeD)

lemma tool_step_inv:
  assumes "tools_inv s" "tool_enabled e s"
  shows "tools_inv (tool_step frepr digest e s)"
proof (cases e)
  case (AnswerWritten k outcome)
  then obtain required where st: "staged k s = Some (InWrite required)" using assms(2) by auto
  note t = staged_SomeD [OF st]
  have "k \<in> set (ts_claimed s)"
    using assms(1) t map_of_SomeD [of "ts_active s" k "task_of k s"]
    by (force simp: tools_inv_def stages_inv_def list_all_iff stage_ok_def)
  then show ?thesis using AnswerWritten t answer_written_inv [OF assms(1)] by simp
next
  case (ToolStarts k)
  then show ?thesis using assms staged_SomeD [of k s] start_task_inv by auto
next
  case (BrokerReturns k outcome)
  then show ?thesis using assms staged_SomeD [of k s] broker_returned_inv by auto
next
  case (TaskFinished k)
  then show ?thesis using assms staged_SomeD [of k s] task_finished_inv by auto
next
  case (ResponseChanged r)
  then show ?thesis using quiet_inv [OF assms(1)] by (simp add: same_watch_def)
next
  case (OwnerChanged g)
  then show ?thesis using quiet_inv [OF assms(1)] by (simp add: same_watch_def)
next
  case FailureRaised
  then show ?thesis using assms failure_raised_inv by simp
qed (use assms in \<open>simp_all add: start_tool_call_inv reject_unowned_inv rejection_written_inv watchdog_inv announce_inv
    complete_inv cancel_watchdog_inv begin_generation_inv stop_inv begin_teardown_inv answer_unresolved_inv(1)\<close>)

lemma tools_reachable_inv: "tools_reachable frepr digest s \<Longrightarrow> tools_inv s"
  by (induction rule: tools_reachable.induct) (simp_all add: new_tools_inv tool_step_inv)

section \<open>Properties\<close>

lemma step_closed:
  assumes "ts_failed_closed s" "tool_enabled e s"
  shows "ts_failed_closed (tool_step frepr digest e s) \<and> ts_calls (tool_step frepr digest e s) = ts_calls s"
proof (cases e)
  case (ToolRequested event)
  show ?thesis
    using assms(1) ToolRequested by (auto simp: start_tool_call_def Let_def split: option.split json.split dest!: admission_None)
next
  case UnresolvedAnswered
  have "ts_failed_closed (fold (\<lambda>(k, t). claim_answer frepr digest k (tt_request t) (tt_call t) None False v) ps s) = ts_failed_closed s \<and>
      ts_calls (fold (\<lambda>(k, t). claim_answer frepr digest k (tt_request t) (tt_call t) None False v) ps s) = ts_calls s" for v ps
    by (induction ps arbitrary: s) (simp_all add: case_prod_unfold)
  then show ?thesis using UnresolvedAnswered assms(1) by (simp add: answer_unresolved_def)
qed (use assms(1) in \<open>auto simp: start_task_def answer_task_def respond_once_def broker_returned_def answer_written_def
    task_finished_def reject_unowned_def rejection_written_def watchdog_expires_def watchdog_finished_def announce_output_def
    complete_after_output_def complete_after_terminal_def begin_generation_def begin_teardown_def cancel_unanswered_def Let_def
    split: option.split json.split broker_outcome.split watchdog.split\<close>)

text \<open>C21: Every tool request of the provider is answered once. In every run no request identifier gets two
  answers, however its task, an unowned rejection and the teardown interleave; and when the teardown has answered
  the unresolved calls, every request that was admitted to the session, rejected, executed or cancelled, has its
  answer.\<close>
theorem provider_requests_answered_once:
  assumes "tools_reachable frepr digest s"
  shows "distinct (map fst (ts_answers s)) \<and>
    (tool_enabled UnresolvedAnswered s \<longrightarrow>
       distinct (map fst (ts_answers (tool_step frepr digest UnresolvedAnswered s))) \<and>
       set (ts_seen s) \<subseteq> fst ` set (ts_answers (tool_step frepr digest UnresolvedAnswered s)))"
proof -
  have inv: "tools_inv s" by (rule tools_reachable_inv [OF assms])
  note after = answer_unresolved_inv [OF inv, where frepr = frepr and digest = digest]
  have "fst ` set (ts_answers t) = set (ts_claimed t)" if "answers_inv t" for t
    using that arg_cong [of _ _ set] by (metis answers_inv_def set_map)
  then show ?thesis
    using inv after by (auto simp: tools_inv_def answers_inv_def)
qed

text \<open>What reaches Home Assistant is bounded. In every run each request and each call identifier is handed to
  the broker at most once, at most 1024 calls are handed to it in a session, at most 16 are in the broker at a
  time; and once the authority has failed closed no further call is admitted.\<close>
theorem home_assistant_calls_bounded:
  assumes "tools_reachable frepr digest s"
  shows "distinct (map fst (ts_executed s)) \<and> distinct (map snd (ts_executed s)) \<and> length (ts_executed s) \<le> 1024 \<and>
    length (filter (\<lambda>p. tt_stage (snd p) = InBroker) (ts_active s)) \<le> 16 \<and>
    snd ` set (ts_executed s) \<subseteq> set (ts_calls s) \<and>
    (ts_failed_closed s \<and> tool_enabled e s \<longrightarrow>
       ts_failed_closed (tool_step frepr digest e s) \<and> ts_calls (tool_step frepr digest e s) = ts_calls s)"
proof -
  have inv: "calls_inv s" "exec_inv s" "stages_inv s" using tools_reachable_inv [OF assms] by (simp_all add: tools_inv_def)
  have d: "distinct (map fst (ts_executed s))" "distinct (map snd (ts_executed s))" and sub: "snd ` set (ts_executed s) \<subseteq> set (ts_calls s)"
    using inv(2) by (auto simp: exec_inv_def Let_def)
  have "length (ts_executed s) = card (snd ` set (ts_executed s))" using distinct_card [OF d(2)] by simp
  also have "\<dots> \<le> length (ts_calls s)" using card_mono [OF _ sub] card_length [of "ts_calls s"] by simp
  finally have "length (ts_executed s) \<le> 1024" using inv(1) by (simp add: calls_inv_def)
  moreover have "filter (\<lambda>p. tt_stage (snd p) = InBroker) (ts_active s) =
      filter (\<lambda>p. tt_stage (snd p) = InBroker) (filter accepted (ts_active s))"
    using inv(3) by (auto simp: stages_inv_def list_all_iff stage_ok_def intro!: filter_cong)
  then have "length (filter (\<lambda>p. tt_stage (snd p) = InBroker) (ts_active s)) \<le> 16"
    using inv(1) length_filter_le [of "\<lambda>p. tt_stage (snd p) = InBroker" "filter accepted (ts_active s)"]
    by (simp add: calls_inv_def)
  ultimately show ?thesis using d sub step_closed [of s e frepr digest] by blast
qed

text \<open>C25: The deadline of the provider's continuation is exact. It never runs while a tool result is
  outstanding or when no continuation is awaited; and when one is awaited and every result was delivered, then
  the deadline is running, or the task of a call is about to finish and its callback will start it, or the
  session has already failed or stopped. So a provider that falls silent after a tool result is always noticed.\<close>
theorem continuation_deadline_exact:
  assumes "tools_reachable frepr digest s"
  shows "(\<forall>g. ts_watchdog s = Watching g \<longrightarrow> ts_pending s \<noteq> None \<and> \<not> unsettled s \<and> g = ts_watch_generation s) \<and>
    (ts_pending s \<noteq> None \<and> \<not> unsettled s \<longrightarrow>
       (\<exists>g. ts_watchdog s = Watching g) \<or> (\<exists>p \<in> set (ts_active s). tt_stage (snd p) \<noteq> ToolOver \<and> fst p \<in> set (ts_claimed s)) \<or>
       ts_failure s \<noteq> None \<or> ts_raised s \<noteq> [] \<or> ts_stop s)"
proof -
  have inv: "answers_inv s" "stages_inv s" "watch_inv s" "deadline_inv s"
    using tools_reachable_inv [OF assms] by (simp_all add: tools_inv_def)
  have "\<exists>p \<in> set (ts_active s). tt_stage (snd p) \<noteq> ToolOver \<and> fst p \<in> set (ts_claimed s)"
    if quiet: "\<not> unsettled s" "\<not> troubled s" "ts_active s \<noteq> []"
  proof -
    obtain p where p: "p \<in> set (ts_active s)" using quiet(3) by (meson last_in_set)
    then have "fst p \<in> set (ts_claimed s)" using quiet(1) inv(1) by (auto simp: unsettled_def answers_inv_def)
    moreover have "tt_stage (snd p) \<noteq> ToolOver" using p quiet(2) inv(2) by (auto simp: stages_inv_def list_all_iff stage_ok_def)
    ultimately show ?thesis using p by blast
  qed
  then show ?thesis using inv(3,4) unfolding watch_inv_def deadline_inv_def troubled_def by blast
qed

section \<open>A concrete run\<close>

definition light_call :: obj where
  "light_call = [(''id'', JInt 4), (''params'', JObj [(''callId'', JStr ''c''), (''tool'', JStr ''HassTurnOn''), (''arguments'', JObj [])])]"

abbreviation light_step :: "tool_event \<Rightarrow> tool_session \<Rightarrow> tool_session" where
  "light_step \<equiv> tool_step (\<lambda>_. []) (\<lambda>_. [])"

definition light_task :: "tool_stage \<Rightarrow> tool_task" where
  "light_task stage =
     \<lparr>tt_request = JInt 4, tt_call = ''c'', tt_name = JStr ''HassTurnOn'', tt_arguments = JObj [], tt_rejection = None,
      tt_generation = None, tt_stage = stage\<rparr>"

definition light_requested :: tool_session where
  "light_requested = light_step (ToolRequested light_call) (new_tool_session False True)"

definition light_executed :: tool_session where
  "light_executed = light_step (ToolStarts (NumberId 4)) light_requested"

lemma light_requested_eq:
  "light_requested = (new_tool_session False True)
     \<lparr>ts_seen := [NumberId 4], ts_calls := [''c''], ts_active := [(NumberId 4, light_task ToStart)], ts_watch_generation := 1\<rparr>"
  by (simp add: light_requested_def light_call_def start_tool_call_def new_tool_session_def jget_default_def
      cancel_watchdog_def clear_continuation_def admission_def light_task_def REALTIME_MAX_TOOL_CALLS_PER_SESSION_def
      REALTIME_MAX_PENDING_TOOL_CALLS_def Let_def)

lemma light_executed_eq:
  "light_executed = light_requested\<lparr>ts_active := [(NumberId 4, light_task InBroker)], ts_executed := [(NumberId 4, ''c'')]\<rparr>"
  by (simp add: light_executed_def light_requested_eq task_of_def start_task_def light_task_def set_stage_def new_tool_session_def)

lemma light_reachable: "tools_reachable (\<lambda>_. []) (\<lambda>_. []) light_executed"
proof -
  have "tools_reachable (\<lambda>_. []) (\<lambda>_. []) light_requested"
    unfolding light_requested_def
    by (rule tools_reachable.step [OF tools_reachable.initial]) (simp add: new_tool_session_def)
  then show ?thesis
    unfolding light_executed_def
    by (rule tools_reachable.step) (simp add: light_requested_eq new_tool_session_def staged_def light_task_def)
qed

definition light_answered :: tool_session where
  "light_answered = light_step (AnswerWritten (NumberId 4) None)
     (light_step (BrokerReturns (NumberId 4) (BrokerAnswer True (JStr ''on''))) light_executed)"

lemma light_answered_eq:
  "ts_active light_answered = [(NumberId 4, light_task ToFinish)]" "ts_claimed light_answered = [NumberId 4]"
  "ts_delivered light_answered = [NumberId 4]" "ts_pending light_answered = Some []" "ts_watchdog light_answered = Watching 2"
  "ts_stop light_answered = False" "ts_torn light_answered = False"
  by (simp_all add: light_answered_def light_executed_eq light_requested_eq task_of_def broker_returned_def refuses_retry_def
      answer_task_def respond_once_def claim_answer_def needs_continuation_def require_continuation_def arm_watchdog_def
      unsettled_def answer_written_def set_stage_def light_task_def new_tool_session_def cancel_watchdog_def Let_def)

lemma light_answered_reachable: "tools_reachable (\<lambda>_. []) (\<lambda>_. []) light_answered"
  unfolding light_answered_def
  by (rule tools_reachable.step [OF tools_reachable.step [OF light_reachable]])
    (auto simp: light_executed_eq light_requested_eq staged_def light_task_def task_of_def broker_returned_def refuses_retry_def
      answer_task_def respond_once_def claim_answer_def needs_continuation_def require_continuation_def arm_watchdog_def
      unsettled_def set_stage_def new_tool_session_def Let_def)

definition light_torn :: tool_session where
  "light_torn = light_step (TaskFinished (NumberId 4)) (light_step TeardownBegins light_executed)"

lemma light_torn_eq: "light_torn = light_executed
    \<lparr>ts_stop := True, ts_torn := True, ts_background := 1, ts_watch_generation := 2, ts_active := [(NumberId 4, light_task ToolOver)]\<rparr>"
  by (simp add: light_torn_def light_executed_eq light_requested_eq begin_teardown_def begin_generation_def cancel_unanswered_def
      cancel_watchdog_def clear_continuation_def task_finished_def set_stage_def light_task_def new_tool_session_def Let_def)

lemma light_torn_reachable: "tools_reachable (\<lambda>_. []) (\<lambda>_. []) light_torn"
  unfolding light_torn_def
  by (rule tools_reachable.step [OF tools_reachable.step [OF light_reachable]])
    (simp_all add: light_executed_eq light_requested_eq begin_teardown_def begin_generation_def cancel_unanswered_def
      staged_def light_task_def new_tool_session_def)

lemma provider_requests_answered_once_witness:
  "fst ` set (ts_answers (light_step UnresolvedAnswered light_torn)) = {NumberId 4}"
proof -
  have "tool_enabled UnresolvedAnswered light_torn" "ts_seen light_torn = [NumberId 4]"
    by (simp_all add: light_torn_eq light_executed_eq light_requested_eq light_task_def)
  then have "{NumberId 4} \<subseteq> fst ` set (ts_answers (light_step UnresolvedAnswered light_torn))"
    using provider_requests_answered_once [OF light_torn_reachable] by simp
  moreover have "ts_claimed (light_step UnresolvedAnswered light_torn) = [NumberId 4]"
    by (simp add: answer_unresolved_def unresolved_def light_torn_eq light_executed_eq light_requested_eq new_tool_session_def)
  ultimately show ?thesis
    using tools_reachable_inv [OF tools_reachable.step [OF light_torn_reachable \<open>tool_enabled UnresolvedAnswered light_torn\<close>]]
    by (metis answers_inv_def empty_set list.simps(15) set_map tools_inv_def)
qed

lemma home_assistant_calls_bounded_witness:
  "ts_executed light_executed = [(NumberId 4, ''c'')] \<and> snd ` set (ts_executed light_executed) \<subseteq> set (ts_calls light_executed)"
  using home_assistant_calls_bounded [OF light_reachable] by (simp add: light_executed_eq light_requested_eq)

lemma continuation_deadline_exact_witness:
  "ts_watchdog light_answered = Watching 2 \<and> ts_pending light_answered \<noteq> None \<and> \<not> unsettled light_answered"
  using continuation_deadline_exact [OF light_answered_reachable] by (simp add: light_answered_eq)

end
