(* ===== verification/Managed_Turns.thy ===== *)
theory Managed_Turns
  imports Wire Conversation_Payload
begin

text \<open>
  A bridge-managed realtime session, the local functions of \<^verbatim>\<open>_run_realtime_socket\<close> in
  \<^verbatim>\<open>bridge/service.py\<close>: the generations of the user's speech, the executor turn that answers one, the
  lock that starts and interrupts turns, and the render of the answer by the voice provider. Coroutines are
  cut at their suspension points: a coroutine that waits for \<^verbatim>\<open>background_turn_lock\<close> is a request, the
  one that holds it the holder, and one inside \<^verbatim>\<open>append_background_speech\<close> an append. Waiting for the
  output gate, for a quiet tail or for a send only delays. A coroutine may end by an exception wherever it
  waits. The server never returns one turn identifier twice.
\<close>

section \<open>State\<close>

definition REALTIME_MAX_MANAGED_TURNS_PER_SESSION :: nat where "REALTIME_MAX_MANAGED_TURNS_PER_SESSION = 1024"
definition MAX_REALTIME_USER_TURN_CORRELATIONS :: nat where "MAX_REALTIME_USER_TURN_CORRELATIONS = 64"
definition MAX_SYNTHESIS_TEXT_CHARS :: nat where "MAX_SYNTHESIS_TEXT_CHARS = 8000"
definition REALTIME_MANAGED_SPEECH_MAX_UTF8_BYTES :: nat where "REALTIME_MANAGED_SPEECH_MAX_UTF8_BYTES = 500"

text \<open>The executor turn and its generation, as an interrupter remembers them.\<close>

type_synonym turn_owner = "string option \<times> nat option"

text \<open>
  Coroutines that need the lock: \<^verbatim>\<open>start_background_turn\<close>, \<^verbatim>\<open>interrupt_active_background_turn\<close>
  with the user turn that is remembered afterwards, the watchdog of a turn, and the teardown.
\<close>

datatype turn_request =
    StartTurn string nat
  | InterruptTurn turn_owner "(string \<times> nat) option"
  | ExpireTurn string nat nat
  | ShutdownTurn turn_owner

datatype holder =
    Interrupting turn_request "nat option"
  | Starting string nat
  | Discarding
  | Settling "obj list"

datatype append_phase = AwaitRetired nat | AwaitQuiet | AwaitGate | AwaitSpeech nat

record append =
  ap_generation :: nat
  ap_text :: string
  ap_queued :: "(nat \<times> string) option"
  ap_phase :: append_phase

record managed =
  mg_generation :: nat
  mg_output :: "nat option"
  mg_turn :: "string option"
  mg_turn_generation :: "nat option"
  mg_had_tool :: bool
  mg_interrupting :: bool
  mg_terminal :: "nat option"
  mg_next_future :: nat
  mg_done :: "nat list"
  mg_starting :: bool
  mg_early :: "(string \<times> obj list) list"
  mg_messages :: "(string \<times> string option \<times> string) list"
  mg_queued :: "(nat \<times> string) option"
  mg_handled :: bool
  mg_speech_active :: bool
  mg_pending :: "nat option"
  mg_user_turns :: "(string \<times> nat) list"
  mg_claimed :: "string list"
  mg_render :: "nat option"
  mg_ack :: bool
  mg_started :: bool
  mg_response :: "string option"
  mg_render_turn :: "string option"
  mg_terminal_seen :: bool
  mg_cancel_requested :: bool
  mg_retired :: "nat option"
  mg_renders_done :: "nat list"
  mg_waiting :: "turn_request list"
  mg_holder :: "holder option"
  mg_appends :: "append list"
  mg_watchdogs :: "(string \<times> nat \<times> nat) list"
  mg_failures :: "py_error list"
  mg_turn_ids :: "string list"
  mg_starts :: "nat list"
  mg_interrupts :: "string list"
  mg_tools :: "(string \<times> nat \<times> nat) list"
  mg_rejected :: "obj list"
  mg_speech :: "(nat \<times> string) list"
  mg_cancels :: nat
  mg_errors :: "string list"

definition new_managed :: managed where
  "new_managed =
     \<lparr>mg_generation = 0, mg_output = None, mg_turn = None, mg_turn_generation = None, mg_had_tool = False,
      mg_interrupting = False, mg_terminal = None, mg_next_future = 0, mg_done = [], mg_starting = False,
      mg_early = [], mg_messages = [], mg_queued = None, mg_handled = False, mg_speech_active = False,
      mg_pending = None, mg_user_turns = [], mg_claimed = [], mg_render = None, mg_ack = False, mg_started = False,
      mg_response = None, mg_render_turn = None, mg_terminal_seen = False, mg_cancel_requested = False,
      mg_retired = None, mg_renders_done = [], mg_waiting = [], mg_holder = None, mg_appends = [], mg_watchdogs = [], mg_failures = [],
      mg_turn_ids = [], mg_starts = [], mg_interrupts = [], mg_tools = [], mg_rejected = [], mg_speech = [],
      mg_cancels = 0, mg_errors = []\<rparr>"

definition request_lock :: "turn_request \<Rightarrow> managed \<Rightarrow> managed" where
  "request_lock r s = s\<lparr>mg_waiting := mg_waiting s @ [r]\<rparr>"

definition fail_managed :: "string \<Rightarrow> managed \<Rightarrow> managed" where
  "fail_managed e s = s\<lparr>mg_failures := mg_failures s @ [ProtocolError e]\<rparr>"

definition send_error :: "string \<Rightarrow> managed \<Rightarrow> managed" where
  "send_error e s = s\<lparr>mg_errors := mg_errors s @ [e]\<rparr>"

section \<open>Generations\<close>

definition begin_background_generation :: "managed \<Rightarrow> managed" where
  "begin_background_generation s = s\<lparr>mg_generation := mg_generation s + 1, mg_output := None\<rparr>"

definition turn_owner_of :: "managed \<Rightarrow> turn_owner" where
  "turn_owner_of s = (mg_turn s, mg_turn_generation s)"

section \<open>The render of an answer\<close>

text \<open>\<^verbatim>\<open>request_backend_render_cancel_best_effort\<close>.\<close>

definition cancel_render :: "managed \<Rightarrow> managed" where
  "cancel_render s =
     (if mg_render s = None \<or> \<not> mg_started s \<or> mg_cancel_requested s then s
      else s\<lparr>mg_cancel_requested := True, mg_cancels := mg_cancels s + 1\<rparr>)"

definition release_render :: "managed \<Rightarrow> managed" where
  "release_render s =
     s\<lparr>mg_render := None, mg_ack := False, mg_started := False, mg_response := None, mg_render_turn := None,
       mg_terminal_seen := False, mg_cancel_requested := False, mg_retired := None,
       mg_renders_done := (case mg_retired s of None \<Rightarrow> mg_renders_done s | Some f \<Rightarrow> mg_renders_done s @ [f])\<rparr>"

definition maybe_retire_render :: "managed \<Rightarrow> managed" where
  "maybe_retire_render s =
     (if mg_render s = None \<or> \<not> mg_ack s \<or> \<not> mg_terminal_seen s then s else release_render s)"

definition claim_turn_id :: "string \<Rightarrow> managed \<Rightarrow> bool \<times> managed" where
  "claim_turn_id t s =
     (if t \<in> set (mg_claimed s) then (False, s)
      else if REALTIME_MAX_MANAGED_TURNS_PER_SESSION \<le> length (mg_claimed s)
      then (False, fail_managed ''realtime provider exceeded the managed-turn limit'' s)
      else (True, s\<lparr>mg_claimed := mg_claimed s @ [t]\<rparr>))"

definition mark_render_started :: "string option \<Rightarrow> string option \<Rightarrow> managed \<Rightarrow> bool \<times> managed" where
  "mark_render_started response_id turn_id s =
     (if mg_render s = None \<or> \<not> mg_ack s \<or> response_id = None \<and> turn_id = None then (False, s)
      else if response_id \<noteq> None \<and> mg_response s \<noteq> None \<and> mg_response s \<noteq> response_id then (False, s)
      else if turn_id \<noteq> None \<and> mg_render_turn s \<noteq> None \<and> mg_render_turn s \<noteq> turn_id then (False, s)
      else (True, s\<lparr>mg_response := (if response_id = None then mg_response s else response_id),
                    mg_render_turn := (if turn_id = None then mg_render_turn s else turn_id), mg_started := True\<rparr>))"

definition render_terminal_matches :: "string option \<Rightarrow> string option \<Rightarrow> managed \<Rightarrow> bool" where
  "render_terminal_matches response_id turn_id s \<longleftrightarrow>
     mg_render s \<noteq> None \<and> mg_ack s \<and> mg_started s \<and> (response_id \<noteq> None \<or> turn_id \<noteq> None) \<and>
     (response_id \<noteq> None \<longrightarrow> mg_response s = response_id) \<and> (turn_id \<noteq> None \<longrightarrow> mg_render_turn s = turn_id)"

definition mark_render_terminal :: "string option \<Rightarrow> string option \<Rightarrow> managed \<Rightarrow> managed" where
  "mark_render_terminal response_id turn_id s =
     (if render_terminal_matches response_id turn_id s then maybe_retire_render (s\<lparr>mg_terminal_seen := True\<rparr>) else s)"

text \<open>\<^verbatim>\<open>authorize_backend_output\<close>, apart from the output gate.\<close>

definition authorize_output :: "nat \<Rightarrow> managed \<Rightarrow> managed" where
  "authorize_output g s = (if g \<noteq> mg_generation s then s else s\<lparr>mg_output := Some g\<rparr>)"

definition output_authorized :: "managed \<Rightarrow> bool" where
  "output_authorized s \<longleftrightarrow> mg_output s = Some (mg_generation s)"

section \<open>The answer of the executor\<close>

definition rstrip :: "string \<Rightarrow> string" where
  "rstrip xs = rev (dropWhile is_space (rev xs))"

text \<open>The characters whose UTF-8 code fits: one byte below 128, two up to 255.\<close>

fun fitting_prefix :: "nat \<Rightarrow> string \<Rightarrow> string" where
  "fitting_prefix n [] = []"
| "fitting_prefix n (c # cs) =
     (let w = (if ord_of c < 128 then 1 else 2) in if w \<le> n then c # fitting_prefix (n - w) cs else [])"

definition utf8_length :: "string \<Rightarrow> nat" where
  "utf8_length xs = sum_list (map (\<lambda>c. if ord_of c < 128 then 1 else 2) xs)"

definition truncate_utf8_bytes :: "string \<Rightarrow> nat \<Rightarrow> string" where
  "truncate_utf8_bytes xs maximum =
     (if utf8_length xs \<le> maximum then xs else rstrip (fitting_prefix maximum xs))"

definition executor_event_turn_id :: "obj \<Rightarrow> string option" where
  "executor_event_turn_id params =
     (case non_empty_text (jget params ''turnId'') of
        Some t \<Rightarrow> Some t
      | None \<Rightarrow> (case jget params ''turn'' of JObj turn \<Rightarrow> non_empty_text (jget turn ''id'') | _ \<Rightarrow> None))"

text \<open>\<^verbatim>\<open>params.get("turnId") == active_background_turn_id\<close>.\<close>

definition names_turn :: "obj \<Rightarrow> managed \<Rightarrow> bool" where
  "names_turn params s \<longleftrightarrow> jget params ''turnId'' = (case mg_turn s of None \<Rightarrow> JNull | Some t \<Rightarrow> JStr t)"

definition remember_agent_message :: "obj \<Rightarrow> bool \<Rightarrow> managed \<Rightarrow> managed" where
  "remember_agent_message params authoritative s =
     (let item = (case jget params ''item'' of JObj m \<Rightarrow> m | _ \<Rightarrow> []);
          raw_id = (if authoritative then jget item ''id'' else jget params ''itemId'');
          item_id = (case non_empty_text raw_id of Some i \<Rightarrow> i | None \<Rightarrow> ''turn'')
      in if \<not> names_turn params s \<or> authoritative \<and> jget item ''type'' \<noteq> JStr ''agentMessage'' then s
         else
           let messages = (if map_of (mg_messages s) item_id = None then mg_messages s @ [(item_id, None, [])] else mg_messages s);
               previous = (case map_of messages item_id of Some p \<Rightarrow> p | None \<Rightarrow> (None, []));
               updated =
                 (if authoritative
                  then dict_set messages item_id
                    (text_of (jget item ''phase''),
                     take MAX_SYNTHESIS_TEXT_CHARS (case text_of (jget item ''text'') of Some t \<Rightarrow> t | None \<Rightarrow> snd previous))
                  else case non_empty_text (jget params ''delta'') of
                         Some delta \<Rightarrow> dict_set messages item_id (fst previous, take MAX_SYNTHESIS_TEXT_CHARS (snd previous @ delta))
                       | None \<Rightarrow> messages)
           in s\<lparr>mg_messages := updated\<rparr>)"

definition completed_text :: "managed \<Rightarrow> string option" where
  "completed_text s =
     (let candidates = rev (filter (\<lambda>p. snd p \<noteq> []) (map (\<lambda>(i, phase, t). (phase, strip t)) (mg_messages s)))
      in case List.find (\<lambda>p. fst p = Some ''final_answer'') candidates of
           Some p \<Rightarrow> Some (snd p)
         | None \<Rightarrow> map_option snd (List.find (\<lambda>p. fst p \<noteq> Some ''commentary'') candidates))"

section \<open>Speaking the answer\<close>

text \<open>The end of an append, in \<^verbatim>\<open>complete_background_turn\<close>.\<close>

definition append_finished :: "(nat \<times> string) option \<Rightarrow> managed \<Rightarrow> managed" where
  "append_finished queued s =
     (case queued of
        None \<Rightarrow> s
      | Some (g, t) \<Rightarrow> if g = mg_generation s then request_lock (StartTurn t g) s else s)"

definition start_append :: "nat \<Rightarrow> string \<Rightarrow> (nat \<times> string) option \<Rightarrow> managed \<Rightarrow> managed" where
  "start_append g t queued s =
     (let spoken = truncate_utf8_bytes (strip t) REALTIME_MANAGED_SPEECH_MAX_UTF8_BYTES
      in if g \<noteq> mg_generation s then append_finished queued s
         else if spoken = [] then append_finished queued (send_error ''assistant returned no final response'' s)
         else
           let a = \<lparr>ap_generation = g, ap_text = spoken, ap_queued = queued, ap_phase = AwaitQuiet\<rparr>
           in if mg_render s = None then s\<lparr>mg_appends := mg_appends s @ [a]\<rparr>
              else
                let s1 = cancel_render s
                in case mg_retired s of
                     None \<Rightarrow> fail_managed ''realtime render ownership is inconsistent'' s1
                   | Some f \<Rightarrow> s1\<lparr>mg_appends := mg_appends s1 @ [a\<lparr>ap_phase := AwaitRetired f\<rparr>]\<rparr>)"

text \<open>The slot is taken and the answer is handed to the voice provider.\<close>

definition take_render :: "append \<Rightarrow> managed \<Rightarrow> managed" where
  "take_render a s =
     s\<lparr>mg_render := Some (ap_generation a), mg_ack := False, mg_started := False, mg_response := None,
       mg_render_turn := None, mg_terminal_seen := False, mg_cancel_requested := False,
       mg_retired := Some (mg_next_future s), mg_next_future := mg_next_future s + 1,
       mg_speech := mg_speech s @ [(ap_generation a, ap_text a)]\<rparr>"

definition set_append :: "nat \<Rightarrow> append_phase \<Rightarrow> managed \<Rightarrow> managed" where
  "set_append i ph s = s\<lparr>mg_appends := (mg_appends s)[i := (mg_appends s ! i)\<lparr>ap_phase := ph\<rparr>]\<rparr>"

definition drop_append :: "nat \<Rightarrow> managed \<Rightarrow> managed" where
  "drop_append i s = s\<lparr>mg_appends := take i (mg_appends s) @ drop (Suc i) (mg_appends s)\<rparr>"

text \<open>One append goes on to its next suspension point.\<close>

definition resume_append :: "nat \<Rightarrow> managed \<Rightarrow> managed" where
  "resume_append i s =
     (let a = mg_appends s ! i
      in case ap_phase a of
           AwaitRetired f \<Rightarrow> if f \<in> set (mg_renders_done s) then set_append i AwaitQuiet s else s
         | AwaitQuiet \<Rightarrow>
             if ap_generation a \<noteq> mg_generation s then append_finished (ap_queued a) (drop_append i s)
             else set_append i AwaitGate s
         | AwaitGate \<Rightarrow>
             if ap_generation a \<noteq> mg_generation s then append_finished (ap_queued a) (drop_append i s)
             else (let s1 = take_render a s in set_append i (AwaitSpeech (mg_next_future s)) s1)
         | AwaitSpeech f \<Rightarrow> append_finished (ap_queued a) (drop_append i s))"

text \<open>An append ends by an exception: a time-out, or the provider refused the speech.\<close>

definition fail_append :: "nat \<Rightarrow> string \<Rightarrow> managed \<Rightarrow> managed" where
  "fail_append i e s =
     (let a = mg_appends s ! i;
          s1 = (case ap_phase a of
                  AwaitSpeech f \<Rightarrow>
                    if mg_render s = Some (ap_generation a)
                    then (release_render s)\<lparr>mg_renders_done := mg_renders_done s @ [f]\<rparr> else s
                | _ \<Rightarrow> s)
      in fail_managed e (drop_append i s1))"

section \<open>Events of the executor\<close>

definition reject_tool :: "obj \<Rightarrow> managed \<Rightarrow> managed" where
  "reject_tool event s = s\<lparr>mg_rejected := mg_rejected s @ [event]\<rparr>"

definition is_tool_call :: "obj \<Rightarrow> bool" where
  "is_tool_call event \<longleftrightarrow> jget event ''method'' = JStr ''item/tool/call''"

definition params_of :: "obj \<Rightarrow> obj" where
  "params_of event = (case jget event ''params'' of JObj p \<Rightarrow> p | _ \<Rightarrow> [])"

text \<open>\<^verbatim>\<open>complete_background_turn\<close> up to the append or the queued request.\<close>

definition forget_turn :: "managed \<Rightarrow> managed" where
  "forget_turn s =
     s\<lparr>mg_turn := None, mg_turn_generation := None, mg_had_tool := False, mg_interrupting := False,
       mg_terminal := None, mg_messages := [], mg_queued := None,
       mg_done := (case mg_terminal s of None \<Rightarrow> mg_done s | Some f \<Rightarrow> mg_done s @ [f])\<rparr>"

definition complete_turn :: "obj \<Rightarrow> managed \<Rightarrow> managed" where
  "complete_turn params s =
     (if executor_event_turn_id params \<noteq> mg_turn s then s
      else
        let turn = (case jget params ''turn'' of JObj m \<Rightarrow> m | _ \<Rightarrow> []);
            status = jget_default turn ''status'' (jget params ''status'');
            s1 = forget_turn s
        in if mg_turn_generation s = Some (mg_generation s)
           then if status \<noteq> JStr ''completed'' then fail_managed ''assistant failed to complete the request'' s1
                else case completed_text s of
                  None \<Rightarrow> append_finished (mg_queued s) (send_error ''assistant returned no final response'' s1)
                | Some t \<Rightarrow> start_append (mg_generation s) t (mg_queued s) s1
           else append_finished (mg_queued s) s1)"

definition handle_executor_event :: "obj \<Rightarrow> managed \<Rightarrow> managed" where
  "handle_executor_event event s =
     (let params = params_of event; name = jget event ''method''
      in if is_tool_call event \<and> has_key event ''id''
         then if \<not> names_turn params s \<or> mg_interrupting s \<or> mg_turn_generation s \<noteq> Some (mg_generation s)
              then reject_tool event s
              else s\<lparr>mg_had_tool := True,
                     mg_tools := mg_tools s @ [(the (mg_turn s), the (mg_turn_generation s), mg_generation s)]\<rparr>
         else if name = JStr ''item/agentMessage/delta'' then remember_agent_message params False s
         else if name = JStr ''item/completed'' then remember_agent_message params True s
         else if name = JStr ''turn/completed'' then complete_turn params s
         else s)"

definition MAX_EARLY_EVENTS :: nat where "MAX_EARLY_EVENTS = 64"

text \<open>An event of the executor thread.\<close>

definition executor_event :: "obj \<Rightarrow> managed \<Rightarrow> managed" where
  "executor_event event s =
     (case executor_event_turn_id (params_of event) of
        Some t \<Rightarrow>
          if mg_starting s \<and> mg_turn s = None
          then if sum_list (map (length \<circ> snd) (mg_early s)) < MAX_EARLY_EVENTS
               then s\<lparr>mg_early := dict_set (mg_early s) t
                      ((case map_of (mg_early s) t of None \<Rightarrow> [] | Some es \<Rightarrow> es) @ [event])\<rparr>
               else fail_managed ''realtime executor exceeded the early-event limit''
                      (if is_tool_call event then reject_tool event s else s)
          else handle_executor_event event s
      | None \<Rightarrow> handle_executor_event event s)"

section \<open>Under the lock\<close>

definition remember_user_turn :: "string \<Rightarrow> nat \<Rightarrow> managed \<Rightarrow> managed" where
  "remember_user_turn t g s =
     (let turns = move_to_end (dict_set (mg_user_turns s) t g) t
      in s\<lparr>mg_user_turns := drop (length turns - MAX_REALTIME_USER_TURN_CORRELATIONS) turns\<rparr>)"

text \<open>What the coroutine of a request does after it left the lock.\<close>

definition request_done :: "turn_request \<Rightarrow> managed \<Rightarrow> managed" where
  "request_done r s =
     (case r of
        InterruptTurn owner (Some (t, g)) \<Rightarrow> remember_user_turn t g s
      | ExpireTurn t g f \<Rightarrow> fail_managed ''assistant request timed out'' s
      | _ \<Rightarrow> s)"

definition leave_lock :: "managed \<Rightarrow> managed" where
  "leave_lock s = s\<lparr>mg_holder := None\<rparr>"

definition interrupt_turn :: "turn_request \<Rightarrow> string \<Rightarrow> managed \<Rightarrow> managed" where
  "interrupt_turn r t s =
     s\<lparr>mg_interrupting := True, mg_interrupts := mg_interrupts s @ [t], mg_holder := Some (Interrupting r (mg_terminal s))\<rparr>"

text \<open>\<^verbatim>\<open>turn/start\<close> is called.\<close>

definition launch_turn :: "string \<Rightarrow> nat \<Rightarrow> managed \<Rightarrow> managed" where
  "launch_turn text_in g s =
     s\<lparr>mg_messages := [], mg_queued := None, mg_starting := True, mg_early := [], mg_starts := mg_starts s @ [g],
       mg_holder := Some (Starting text_in g)\<rparr>"

text \<open>The state of a turn's terminal future.\<close>

definition future_done :: "nat option \<Rightarrow> managed \<Rightarrow> bool" where
  "future_done v s = (case v of None \<Rightarrow> False | Some f \<Rightarrow> f \<in> set (mg_done s))"

definition future_pending :: "nat option \<Rightarrow> managed \<Rightarrow> bool" where
  "future_pending v s = (case v of None \<Rightarrow> False | Some f \<Rightarrow> f \<notin> set (mg_done s))"

lemma future_simps [simp]:
  "future_done v s \<longleftrightarrow> (\<exists>f. v = Some f \<and> f \<in> set (mg_done s))" "future_pending v s \<longleftrightarrow> (\<exists>f. v = Some f \<and> f \<notin> set (mg_done s))"
  by (cases v; simp add: future_done_def future_pending_def)+

text \<open>A request gets the lock and runs to its next suspension point.\<close>

definition enter_lock :: "turn_request \<Rightarrow> managed \<Rightarrow> managed" where
  "enter_lock r s =
     (case r of
        StartTurn text_in g \<Rightarrow>
          if g \<noteq> mg_generation s then s
          else (case mg_turn s of
                  None \<Rightarrow> launch_turn text_in g s
                | Some t \<Rightarrow> if mg_had_tool s then s\<lparr>mg_queued := Some (g, text_in)\<rparr> else interrupt_turn r t s)
      | InterruptTurn owner remembered \<Rightarrow>
          if turn_owner_of s \<noteq> owner then request_done r s
          else (case mg_turn s of
                  None \<Rightarrow> request_done r s
                | Some t \<Rightarrow> if mg_had_tool s then request_done r s else interrupt_turn r t s)
      | ExpireTurn t g f \<Rightarrow>
          if turn_owner_of s \<noteq> (Some t, Some g) \<or> f \<in> set (mg_done s) then s
          else (begin_background_generation s)\<lparr>mg_interrupting := True, mg_holder := Some (Interrupting r (Some f))\<rparr>
      | ShutdownTurn owner \<Rightarrow>
          if fst owner = None \<or> turn_owner_of s \<noteq> owner \<or> future_done (mg_terminal s) s then s
          else s\<lparr>mg_holder := Some (Interrupting r (mg_terminal s))\<rparr>)"

definition acquire_lock :: "nat \<Rightarrow> managed \<Rightarrow> managed" where
  "acquire_lock i s =
     (if i < length (mg_waiting s) \<and> mg_holder s = None
      then enter_lock (mg_waiting s ! i) (s\<lparr>mg_waiting := take i (mg_waiting s) @ drop (Suc i) (mg_waiting s)\<rparr>)
      else s)"

text \<open>The interrupt returned and the turn is over, or a request that does not insist stopped waiting.\<close>

definition insists :: "turn_request \<Rightarrow> bool" where
  "insists r = (case r of StartTurn t g \<Rightarrow> True | InterruptTurn owner remembered \<Rightarrow> True | _ \<Rightarrow> False)"

definition interrupt_returned :: "managed \<Rightarrow> managed" where
  "interrupt_returned s =
     (case mg_holder s of
        Some (Interrupting r terminal) \<Rightarrow>
          if insists r \<and> future_pending terminal s then s
          else (case r of
                  StartTurn text_in g \<Rightarrow> if g \<noteq> mg_generation s then leave_lock s else launch_turn text_in g s
                | _ \<Rightarrow> request_done r (leave_lock s))
      | _ \<Rightarrow> s)"

definition reject_early :: "managed \<Rightarrow> managed" where
  "reject_early s = (fold reject_tool (filter is_tool_call (concat (map snd (mg_early s)))) s)\<lparr>mg_early := []\<rparr>"

definition foreign_events :: "string \<Rightarrow> managed \<Rightarrow> obj list" where
  "foreign_events t s = concat (map snd (dict_pop (mg_early s) t))"

definition activate_turn :: "string \<Rightarrow> nat \<Rightarrow> managed \<Rightarrow> managed" where
  "activate_turn t g s =
     (fold reject_tool (filter is_tool_call (foreign_events t s)) s)
     \<lparr>mg_turn := Some t, mg_turn_generation := Some g, mg_had_tool := False, mg_interrupting := False,
      mg_terminal := Some (mg_next_future s), mg_next_future := mg_next_future s + 1,
      mg_watchdogs := mg_watchdogs s @ [(t, g, mg_next_future s)],
      mg_early := [], mg_starting := False,
      mg_holder := Some (Settling (case map_of (mg_early s) t of None \<Rightarrow> [] | Some es \<Rightarrow> es))\<rparr>"

text \<open>\<^verbatim>\<open>turn/start\<close> returned a response.\<close>

definition turn_start_returned :: "obj \<Rightarrow> managed \<Rightarrow> managed" where
  "turn_start_returned response s =
     (case mg_holder s of
        Some (Starting text_in g) \<Rightarrow>
          (case (case jget response ''turn'' of JObj turn \<Rightarrow> non_empty_text (jget turn ''id'') | _ \<Rightarrow> None) of
             None \<Rightarrow>
               fail_managed ''turn/start returned an invalid realtime turn id''
                 (leave_lock (reject_early (s\<lparr>mg_starting := False\<rparr>)))
           | Some t \<Rightarrow>
               let s1 = s\<lparr>mg_turn_ids := mg_turn_ids s @ [t]\<rparr>
               in if g \<noteq> mg_generation s
                  then (reject_early (s1\<lparr>mg_starting := False\<rparr>))
                         \<lparr>mg_interrupts := mg_interrupts s @ [t], mg_holder := Some Discarding\<rparr>
                  else activate_turn t g s1)
      | _ \<Rightarrow> s)"

text \<open>The buffered events of the new turn, one by one; then the lock is left.\<close>

definition settle_turn :: "managed \<Rightarrow> managed" where
  "settle_turn s =
     (case mg_holder s of
        Some (Settling []) \<Rightarrow> leave_lock s
      | Some (Settling (e # es)) \<Rightarrow> handle_executor_event e (s\<lparr>mg_holder := Some (Settling es)\<rparr>)
      | Some Discarding \<Rightarrow> leave_lock s
      | _ \<Rightarrow> s)"

text \<open>The holder ends by an exception.\<close>

definition fail_holder :: "string \<Rightarrow> managed \<Rightarrow> managed" where
  "fail_holder e s =
     (case mg_holder s of
        None \<Rightarrow> s
      | Some (Starting text_in g) \<Rightarrow> fail_managed e (leave_lock (reject_early (s\<lparr>mg_starting := False\<rparr>)))
      | Some h \<Rightarrow> fail_managed e (leave_lock s))"

section \<open>The user's speech and messages\<close>

text \<open>\<^verbatim>\<open>input_audio_buffer.speech_started\<close>.\<close>

definition speech_started :: "managed \<Rightarrow> managed" where
  "speech_started s =
     (if mg_pending s \<noteq> None then s
      else
        let s1 = begin_background_generation s
        in request_lock (InterruptTurn (turn_owner_of s) None)
             (cancel_render (s1\<lparr>mg_pending := Some (mg_generation s1), mg_speech_active := True, mg_handled := False\<rparr>)))"

definition user_turn_interrupts :: "string \<Rightarrow> managed \<Rightarrow> managed" where
  "user_turn_interrupts t s =
     (let s1 = begin_background_generation s
      in request_lock (InterruptTurn (turn_owner_of s) (Some (t, mg_generation s1)))
           (cancel_render (s1\<lparr>mg_speech_active := True, mg_handled := False\<rparr>)))"

definition user_turn_created :: "string \<Rightarrow> managed \<Rightarrow> managed" where
  "user_turn_created t s =
     (case claim_turn_id t s of
        (False, s1) \<Rightarrow> s1
      | (True, s1) \<Rightarrow>
          (case mg_pending s1 of
             Some g \<Rightarrow>
               if g = mg_generation s1 then remember_user_turn t g (s1\<lparr>mg_pending := None\<rparr>)
               else user_turn_interrupts t s1
           | None \<Rightarrow> user_turn_interrupts t s1))"

definition user_turn_done :: "realtime_data_control \<Rightarrow> managed \<Rightarrow> managed" where
  "user_turn_done c s =
     (let generation = (case rdc_turn_id c of None \<Rightarrow> None | Some t \<Rightarrow> map_of (mg_user_turns s) t);
          s1 = (case rdc_turn_id c of None \<Rightarrow> s | Some t \<Rightarrow> s\<lparr>mg_user_turns := dict_pop (mg_user_turns s) t\<rparr>)
      in case generation of
           None \<Rightarrow> s1
         | Some g \<Rightarrow>
             if g \<noteq> mg_generation s1 \<or> mg_handled s1 then s1
             else
               let s2 = s1\<lparr>mg_handled := True, mg_speech_active := False\<rparr>
               in case rdc_transcript c of
                    None \<Rightarrow> s2
                  | Some t \<Rightarrow>
                      if strip t = [] then s2
                      else if MAX_HISTORY_CONTEXT_CHARS < length t
                      then send_error ''realtime transcript exceeds its size limit'' s2
                      else request_lock (StartTurn (strip t) g) (cancel_render s2))"

definition managed_user_control :: "realtime_data_control \<Rightarrow> managed \<Rightarrow> managed" where
  "managed_user_control c s =
     (if rdc_event_type c = ''turn.created''
      then (case rdc_turn_id c of None \<Rightarrow> s | Some t \<Rightarrow> user_turn_created t s)
      else case rdc_turn_id c of
        Some t \<Rightarrow> if map_of (mg_user_turns s) t = None then snd (claim_turn_id t s) else user_turn_done c s
      | None \<Rightarrow> user_turn_done c s)"

text \<open>The messages of the device: a text, and an interrupt.\<close>

definition text_received :: "string \<Rightarrow> managed \<Rightarrow> managed" where
  "text_received t s =
     (let s1 = begin_background_generation s
      in request_lock (StartTurn t (mg_generation s1))
           (cancel_render (s1\<lparr>mg_speech_active := False, mg_pending := None, mg_handled := True\<rparr>)))"

definition interrupt_received :: "managed \<Rightarrow> managed" where
  "interrupt_received s =
     request_lock (InterruptTurn (turn_owner_of s) None)
       (cancel_render ((begin_background_generation s)\<lparr>mg_speech_active := False, mg_pending := None, mg_handled := True\<rparr>))"

section \<open>The voice provider\<close>

definition context_appended :: "managed \<Rightarrow> managed" where
  "context_appended s = (if mg_render s = None then s else maybe_retire_render (s\<lparr>mg_ack := True\<rparr>))"

text \<open>The provider starts an assistant turn.\<close>

definition assistant_turn_created :: "string \<Rightarrow> managed \<Rightarrow> managed" where
  "assistant_turn_created t s =
     (case claim_turn_id t s of
        (False, s1) \<Rightarrow> s1
      | (True, s1) \<Rightarrow>
          (case mark_render_started None (Some t) s1 of
             (False, s2) \<Rightarrow> s2
           | (True, s2) \<Rightarrow>
               (case mg_render s2 of
                  Some g \<Rightarrow> if g = mg_generation s2 then authorize_output g s2 else cancel_render s2
                | None \<Rightarrow> cancel_render s2)))"

text \<open>
  It ends one: before the output gate is closed, which only reads \<open>owned\<close>, and after. The generation may
  advance between the two.
\<close>

definition assistant_turn_done :: "string \<Rightarrow> managed \<Rightarrow> managed" where
  "assistant_turn_done t s = (if render_terminal_matches None (Some t) s then s else snd (claim_turn_id t s))"

definition backend_terminal :: "bool \<Rightarrow> string option \<Rightarrow> string option \<Rightarrow> managed \<Rightarrow> managed" where
  "backend_terminal owned response_id turn_id s =
     mark_render_terminal response_id turn_id (if owned then s\<lparr>mg_output := None\<rparr> else s)"

section \<open>Runs\<close>

text \<open>The teardown's tombstone.\<close>

definition shut_down :: "managed \<Rightarrow> managed" where
  "shut_down s =
     request_lock (ShutdownTurn (turn_owner_of s))
       (begin_background_generation (s\<lparr>mg_queued := None,
          mg_interrupting := (if mg_turn s = None then mg_interrupting s else True)\<rparr>))"

datatype managed_event =
    SpeechStarted
  | UserControl realtime_data_control
  | TextReceived string
  | InterruptReceived
  | LockAcquired nat
  | InterruptReturned
  | TurnStartReturned obj
  | Settles
  | HolderFails string
  | RequestFails nat
  | ExecutorEvent obj
  | AppendResumes nat
  | AppendFails nat string
  | WatchdogWakes nat
  | ContextAppended
  | AssistantTurnCreated string
  | AssistantTurnDone string
  | BackendTerminal bool "string option" "string option"
  | ShutsDown

text \<open>The server's turn identifiers are new.\<close>

fun managed_enabled :: "managed_event \<Rightarrow> managed \<Rightarrow> bool" where
  "managed_enabled (TurnStartReturned response) s =
     (case (case jget response ''turn'' of JObj turn \<Rightarrow> non_empty_text (jget turn ''id'') | _ \<Rightarrow> None) of
        None \<Rightarrow> True | Some t \<Rightarrow> t \<notin> set (mg_turn_ids s))"
| "managed_enabled (AppendResumes i) s = (i < length (mg_appends s))"
| "managed_enabled (AppendFails i e) s = (i < length (mg_appends s))"
| "managed_enabled (WatchdogWakes i) s = (i < length (mg_watchdogs s))"
| "managed_enabled _ s = True"

fun managed_step :: "managed_event \<Rightarrow> managed \<Rightarrow> managed" where
  "managed_step SpeechStarted s = speech_started s"
| "managed_step (UserControl c) s = managed_user_control c s"
| "managed_step (TextReceived t) s = text_received t s"
| "managed_step InterruptReceived s = interrupt_received s"
| "managed_step (LockAcquired i) s = acquire_lock i s"
| "managed_step InterruptReturned s = interrupt_returned s"
| "managed_step (TurnStartReturned response) s = turn_start_returned response s"
| "managed_step Settles s = settle_turn s"
| "managed_step (HolderFails e) s = fail_holder e s"
| "managed_step (RequestFails i) s = s\<lparr>mg_waiting := take i (mg_waiting s) @ drop (Suc i) (mg_waiting s)\<rparr>"
| "managed_step (ExecutorEvent event) s = executor_event event s"
| "managed_step (AppendResumes i) s = resume_append i s"
| "managed_step (AppendFails i e) s = fail_append i e s"
| "managed_step (WatchdogWakes i) s = (case mg_watchdogs s ! i of (t, g, f) \<Rightarrow> request_lock (ExpireTurn t g f) s)"
| "managed_step ContextAppended s = context_appended s"
| "managed_step (AssistantTurnCreated t) s = assistant_turn_created t s"
| "managed_step (AssistantTurnDone t) s = assistant_turn_done t s"
| "managed_step (BackendTerminal owned r t) s = backend_terminal owned r t s"
| "managed_step ShutsDown s = shut_down s"

text \<open>A run of enabled events.\<close>

fun managed_run :: "managed_event list \<Rightarrow> managed \<Rightarrow> managed option" where
  "managed_run [] s = Some s"
| "managed_run (e # es) s = (if managed_enabled e s then managed_run es (managed_step e s) else None)"

inductive managed_reachable :: "managed \<Rightarrow> bool" where
  initial: "managed_reachable new_managed"
| step: "managed_reachable s \<Longrightarrow> managed_enabled e s \<Longrightarrow> managed_reachable (managed_step e s)"

lemma managed_run_reachable: "managed_reachable s \<Longrightarrow> managed_run es s = Some s' \<Longrightarrow> managed_reachable s'"
  by (induction es s rule: managed_run.induct) (auto split: if_splits intro: managed_reachable.step)

end
