(* ===== verification/Managed_Safety.thy ===== *)
theory Managed_Safety
  imports Managed_Turns
begin

text \<open>
  What each operation of a bridge-managed session leaves alone, and the invariants of the audible output and of
  the executor turn: an interrupted turn never has a tool call accepted, and a future is resolved once.
\<close>

section \<open>Frames\<close>

lemma request_lock_frame [simp]:
  "mg_generation (request_lock r s) = mg_generation s" "mg_output (request_lock r s) = mg_output s" "mg_turn (request_lock r s) = mg_turn s"
  "mg_turn_generation (request_lock r s) = mg_turn_generation s" "mg_had_tool (request_lock r s) = mg_had_tool s" "mg_interrupting (request_lock r s) = mg_interrupting s"
  "mg_terminal (request_lock r s) = mg_terminal s" "mg_next_future (request_lock r s) = mg_next_future s" "mg_done (request_lock r s) = mg_done s"
  "mg_starting (request_lock r s) = mg_starting s" "mg_queued (request_lock r s) = mg_queued s" "mg_pending (request_lock r s) = mg_pending s"
  "mg_user_turns (request_lock r s) = mg_user_turns s" "mg_render (request_lock r s) = mg_render s" "mg_retired (request_lock r s) = mg_retired s"
  "mg_renders_done (request_lock r s) = mg_renders_done s" "mg_holder (request_lock r s) = mg_holder s" "mg_appends (request_lock r s) = mg_appends s"
  "mg_turn_ids (request_lock r s) = mg_turn_ids s" "mg_starts (request_lock r s) = mg_starts s" "mg_interrupts (request_lock r s) = mg_interrupts s"
  "mg_tools (request_lock r s) = mg_tools s" "mg_speech (request_lock r s) = mg_speech s"
  by (simp_all add: request_lock_def)

lemma cancel_render_frame [simp]:
  "mg_generation (cancel_render s) = mg_generation s" "mg_output (cancel_render s) = mg_output s" "mg_turn (cancel_render s) = mg_turn s"
  "mg_turn_generation (cancel_render s) = mg_turn_generation s" "mg_had_tool (cancel_render s) = mg_had_tool s" "mg_interrupting (cancel_render s) = mg_interrupting s"
  "mg_terminal (cancel_render s) = mg_terminal s" "mg_next_future (cancel_render s) = mg_next_future s" "mg_done (cancel_render s) = mg_done s"
  "mg_starting (cancel_render s) = mg_starting s" "mg_queued (cancel_render s) = mg_queued s" "mg_pending (cancel_render s) = mg_pending s"
  "mg_user_turns (cancel_render s) = mg_user_turns s" "mg_render (cancel_render s) = mg_render s" "mg_retired (cancel_render s) = mg_retired s"
  "mg_renders_done (cancel_render s) = mg_renders_done s" "mg_waiting (cancel_render s) = mg_waiting s" "mg_holder (cancel_render s) = mg_holder s"
  "mg_appends (cancel_render s) = mg_appends s" "mg_turn_ids (cancel_render s) = mg_turn_ids s" "mg_starts (cancel_render s) = mg_starts s"
  "mg_interrupts (cancel_render s) = mg_interrupts s" "mg_tools (cancel_render s) = mg_tools s" "mg_speech (cancel_render s) = mg_speech s"
  by (simp_all add: cancel_render_def)

lemma fail_managed_frame [simp]:
  "mg_generation (fail_managed e s) = mg_generation s" "mg_output (fail_managed e s) = mg_output s" "mg_turn (fail_managed e s) = mg_turn s"
  "mg_turn_generation (fail_managed e s) = mg_turn_generation s" "mg_had_tool (fail_managed e s) = mg_had_tool s" "mg_interrupting (fail_managed e s) = mg_interrupting s"
  "mg_terminal (fail_managed e s) = mg_terminal s" "mg_next_future (fail_managed e s) = mg_next_future s" "mg_done (fail_managed e s) = mg_done s"
  "mg_starting (fail_managed e s) = mg_starting s" "mg_queued (fail_managed e s) = mg_queued s" "mg_pending (fail_managed e s) = mg_pending s"
  "mg_user_turns (fail_managed e s) = mg_user_turns s" "mg_render (fail_managed e s) = mg_render s" "mg_retired (fail_managed e s) = mg_retired s"
  "mg_renders_done (fail_managed e s) = mg_renders_done s" "mg_waiting (fail_managed e s) = mg_waiting s" "mg_holder (fail_managed e s) = mg_holder s"
  "mg_appends (fail_managed e s) = mg_appends s" "mg_turn_ids (fail_managed e s) = mg_turn_ids s" "mg_starts (fail_managed e s) = mg_starts s"
  "mg_interrupts (fail_managed e s) = mg_interrupts s" "mg_tools (fail_managed e s) = mg_tools s" "mg_speech (fail_managed e s) = mg_speech s"
  by (simp_all add: fail_managed_def)

lemma send_error_frame [simp]:
  "mg_generation (send_error e s) = mg_generation s" "mg_output (send_error e s) = mg_output s" "mg_turn (send_error e s) = mg_turn s"
  "mg_turn_generation (send_error e s) = mg_turn_generation s" "mg_had_tool (send_error e s) = mg_had_tool s" "mg_interrupting (send_error e s) = mg_interrupting s"
  "mg_terminal (send_error e s) = mg_terminal s" "mg_next_future (send_error e s) = mg_next_future s" "mg_done (send_error e s) = mg_done s"
  "mg_starting (send_error e s) = mg_starting s" "mg_queued (send_error e s) = mg_queued s" "mg_pending (send_error e s) = mg_pending s"
  "mg_user_turns (send_error e s) = mg_user_turns s" "mg_render (send_error e s) = mg_render s" "mg_retired (send_error e s) = mg_retired s"
  "mg_renders_done (send_error e s) = mg_renders_done s" "mg_waiting (send_error e s) = mg_waiting s" "mg_holder (send_error e s) = mg_holder s"
  "mg_appends (send_error e s) = mg_appends s" "mg_turn_ids (send_error e s) = mg_turn_ids s" "mg_starts (send_error e s) = mg_starts s"
  "mg_interrupts (send_error e s) = mg_interrupts s" "mg_tools (send_error e s) = mg_tools s" "mg_speech (send_error e s) = mg_speech s"
  by (simp_all add: send_error_def)

lemma remember_agent_message_frame [simp]:
  "mg_generation (remember_agent_message p b s) = mg_generation s" "mg_output (remember_agent_message p b s) = mg_output s" "mg_turn (remember_agent_message p b s) = mg_turn s"
  "mg_turn_generation (remember_agent_message p b s) = mg_turn_generation s" "mg_had_tool (remember_agent_message p b s) = mg_had_tool s" "mg_interrupting (remember_agent_message p b s) = mg_interrupting s"
  "mg_terminal (remember_agent_message p b s) = mg_terminal s" "mg_next_future (remember_agent_message p b s) = mg_next_future s" "mg_done (remember_agent_message p b s) = mg_done s"
  "mg_starting (remember_agent_message p b s) = mg_starting s" "mg_queued (remember_agent_message p b s) = mg_queued s" "mg_pending (remember_agent_message p b s) = mg_pending s"
  "mg_user_turns (remember_agent_message p b s) = mg_user_turns s" "mg_render (remember_agent_message p b s) = mg_render s" "mg_retired (remember_agent_message p b s) = mg_retired s"
  "mg_renders_done (remember_agent_message p b s) = mg_renders_done s" "mg_waiting (remember_agent_message p b s) = mg_waiting s" "mg_holder (remember_agent_message p b s) = mg_holder s"
  "mg_appends (remember_agent_message p b s) = mg_appends s" "mg_turn_ids (remember_agent_message p b s) = mg_turn_ids s" "mg_starts (remember_agent_message p b s) = mg_starts s"
  "mg_interrupts (remember_agent_message p b s) = mg_interrupts s" "mg_tools (remember_agent_message p b s) = mg_tools s" "mg_speech (remember_agent_message p b s) = mg_speech s"
  by (simp_all add: remember_agent_message_def Let_def)

lemma reject_tool_frame [simp]:
  "mg_generation (reject_tool e s) = mg_generation s" "mg_output (reject_tool e s) = mg_output s" "mg_turn (reject_tool e s) = mg_turn s"
  "mg_turn_generation (reject_tool e s) = mg_turn_generation s" "mg_had_tool (reject_tool e s) = mg_had_tool s" "mg_interrupting (reject_tool e s) = mg_interrupting s"
  "mg_terminal (reject_tool e s) = mg_terminal s" "mg_next_future (reject_tool e s) = mg_next_future s" "mg_done (reject_tool e s) = mg_done s"
  "mg_starting (reject_tool e s) = mg_starting s" "mg_queued (reject_tool e s) = mg_queued s" "mg_pending (reject_tool e s) = mg_pending s"
  "mg_user_turns (reject_tool e s) = mg_user_turns s" "mg_render (reject_tool e s) = mg_render s" "mg_retired (reject_tool e s) = mg_retired s"
  "mg_renders_done (reject_tool e s) = mg_renders_done s" "mg_waiting (reject_tool e s) = mg_waiting s" "mg_holder (reject_tool e s) = mg_holder s"
  "mg_appends (reject_tool e s) = mg_appends s" "mg_turn_ids (reject_tool e s) = mg_turn_ids s" "mg_starts (reject_tool e s) = mg_starts s"
  "mg_interrupts (reject_tool e s) = mg_interrupts s" "mg_tools (reject_tool e s) = mg_tools s" "mg_speech (reject_tool e s) = mg_speech s"
  by (simp_all add: reject_tool_def)

lemma claim_turn_id_frame [simp]:
  "mg_generation (snd (claim_turn_id t s)) = mg_generation s" "mg_output (snd (claim_turn_id t s)) = mg_output s" "mg_turn (snd (claim_turn_id t s)) = mg_turn s"
  "mg_turn_generation (snd (claim_turn_id t s)) = mg_turn_generation s" "mg_had_tool (snd (claim_turn_id t s)) = mg_had_tool s" "mg_interrupting (snd (claim_turn_id t s)) = mg_interrupting s"
  "mg_terminal (snd (claim_turn_id t s)) = mg_terminal s" "mg_next_future (snd (claim_turn_id t s)) = mg_next_future s" "mg_done (snd (claim_turn_id t s)) = mg_done s"
  "mg_starting (snd (claim_turn_id t s)) = mg_starting s" "mg_queued (snd (claim_turn_id t s)) = mg_queued s" "mg_pending (snd (claim_turn_id t s)) = mg_pending s"
  "mg_user_turns (snd (claim_turn_id t s)) = mg_user_turns s" "mg_render (snd (claim_turn_id t s)) = mg_render s" "mg_retired (snd (claim_turn_id t s)) = mg_retired s"
  "mg_renders_done (snd (claim_turn_id t s)) = mg_renders_done s" "mg_waiting (snd (claim_turn_id t s)) = mg_waiting s" "mg_holder (snd (claim_turn_id t s)) = mg_holder s"
  "mg_appends (snd (claim_turn_id t s)) = mg_appends s" "mg_turn_ids (snd (claim_turn_id t s)) = mg_turn_ids s" "mg_starts (snd (claim_turn_id t s)) = mg_starts s"
  "mg_interrupts (snd (claim_turn_id t s)) = mg_interrupts s" "mg_tools (snd (claim_turn_id t s)) = mg_tools s" "mg_speech (snd (claim_turn_id t s)) = mg_speech s"
  by (simp_all add: claim_turn_id_def)

lemma append_finished_frame [simp]:
  "mg_generation (append_finished q s) = mg_generation s" "mg_output (append_finished q s) = mg_output s" "mg_turn (append_finished q s) = mg_turn s"
  "mg_turn_generation (append_finished q s) = mg_turn_generation s" "mg_had_tool (append_finished q s) = mg_had_tool s" "mg_interrupting (append_finished q s) = mg_interrupting s"
  "mg_terminal (append_finished q s) = mg_terminal s" "mg_next_future (append_finished q s) = mg_next_future s" "mg_done (append_finished q s) = mg_done s"
  "mg_starting (append_finished q s) = mg_starting s" "mg_queued (append_finished q s) = mg_queued s" "mg_pending (append_finished q s) = mg_pending s"
  "mg_user_turns (append_finished q s) = mg_user_turns s" "mg_render (append_finished q s) = mg_render s" "mg_retired (append_finished q s) = mg_retired s"
  "mg_renders_done (append_finished q s) = mg_renders_done s" "mg_holder (append_finished q s) = mg_holder s" "mg_appends (append_finished q s) = mg_appends s"
  "mg_turn_ids (append_finished q s) = mg_turn_ids s" "mg_starts (append_finished q s) = mg_starts s" "mg_interrupts (append_finished q s) = mg_interrupts s"
  "mg_tools (append_finished q s) = mg_tools s" "mg_speech (append_finished q s) = mg_speech s"
  by (auto simp: append_finished_def split: option.split)

lemma begin_background_generation_frame [simp]:
  "mg_turn (begin_background_generation s) = mg_turn s" "mg_turn_generation (begin_background_generation s) = mg_turn_generation s" "mg_had_tool (begin_background_generation s) = mg_had_tool s"
  "mg_interrupting (begin_background_generation s) = mg_interrupting s" "mg_terminal (begin_background_generation s) = mg_terminal s" "mg_next_future (begin_background_generation s) = mg_next_future s"
  "mg_done (begin_background_generation s) = mg_done s" "mg_starting (begin_background_generation s) = mg_starting s" "mg_queued (begin_background_generation s) = mg_queued s"
  "mg_pending (begin_background_generation s) = mg_pending s" "mg_user_turns (begin_background_generation s) = mg_user_turns s" "mg_render (begin_background_generation s) = mg_render s"
  "mg_retired (begin_background_generation s) = mg_retired s" "mg_renders_done (begin_background_generation s) = mg_renders_done s" "mg_waiting (begin_background_generation s) = mg_waiting s"
  "mg_holder (begin_background_generation s) = mg_holder s" "mg_appends (begin_background_generation s) = mg_appends s" "mg_turn_ids (begin_background_generation s) = mg_turn_ids s"
  "mg_starts (begin_background_generation s) = mg_starts s" "mg_interrupts (begin_background_generation s) = mg_interrupts s" "mg_tools (begin_background_generation s) = mg_tools s"
  "mg_speech (begin_background_generation s) = mg_speech s"
  by (simp_all add: begin_background_generation_def)

lemma leave_lock_frame [simp]:
  "mg_generation (leave_lock s) = mg_generation s" "mg_output (leave_lock s) = mg_output s" "mg_turn (leave_lock s) = mg_turn s"
  "mg_turn_generation (leave_lock s) = mg_turn_generation s" "mg_had_tool (leave_lock s) = mg_had_tool s" "mg_interrupting (leave_lock s) = mg_interrupting s"
  "mg_terminal (leave_lock s) = mg_terminal s" "mg_next_future (leave_lock s) = mg_next_future s" "mg_done (leave_lock s) = mg_done s"
  "mg_starting (leave_lock s) = mg_starting s" "mg_queued (leave_lock s) = mg_queued s" "mg_pending (leave_lock s) = mg_pending s"
  "mg_user_turns (leave_lock s) = mg_user_turns s" "mg_render (leave_lock s) = mg_render s" "mg_retired (leave_lock s) = mg_retired s"
  "mg_renders_done (leave_lock s) = mg_renders_done s" "mg_waiting (leave_lock s) = mg_waiting s" "mg_appends (leave_lock s) = mg_appends s"
  "mg_turn_ids (leave_lock s) = mg_turn_ids s" "mg_starts (leave_lock s) = mg_starts s" "mg_interrupts (leave_lock s) = mg_interrupts s"
  "mg_tools (leave_lock s) = mg_tools s" "mg_speech (leave_lock s) = mg_speech s"
  by (simp_all add: leave_lock_def)

lemma release_render_frame [simp]:
  "mg_generation (release_render s) = mg_generation s" "mg_output (release_render s) = mg_output s" "mg_turn (release_render s) = mg_turn s"
  "mg_turn_generation (release_render s) = mg_turn_generation s" "mg_had_tool (release_render s) = mg_had_tool s" "mg_interrupting (release_render s) = mg_interrupting s"
  "mg_terminal (release_render s) = mg_terminal s" "mg_next_future (release_render s) = mg_next_future s" "mg_done (release_render s) = mg_done s"
  "mg_starting (release_render s) = mg_starting s" "mg_queued (release_render s) = mg_queued s" "mg_pending (release_render s) = mg_pending s"
  "mg_user_turns (release_render s) = mg_user_turns s" "mg_waiting (release_render s) = mg_waiting s" "mg_holder (release_render s) = mg_holder s"
  "mg_appends (release_render s) = mg_appends s" "mg_turn_ids (release_render s) = mg_turn_ids s" "mg_starts (release_render s) = mg_starts s"
  "mg_interrupts (release_render s) = mg_interrupts s" "mg_tools (release_render s) = mg_tools s" "mg_speech (release_render s) = mg_speech s"
  by (simp_all add: release_render_def)

lemma maybe_retire_render_frame [simp]:
  "mg_generation (maybe_retire_render s) = mg_generation s" "mg_output (maybe_retire_render s) = mg_output s" "mg_turn (maybe_retire_render s) = mg_turn s"
  "mg_turn_generation (maybe_retire_render s) = mg_turn_generation s" "mg_had_tool (maybe_retire_render s) = mg_had_tool s" "mg_interrupting (maybe_retire_render s) = mg_interrupting s"
  "mg_terminal (maybe_retire_render s) = mg_terminal s" "mg_next_future (maybe_retire_render s) = mg_next_future s" "mg_done (maybe_retire_render s) = mg_done s"
  "mg_starting (maybe_retire_render s) = mg_starting s" "mg_queued (maybe_retire_render s) = mg_queued s" "mg_pending (maybe_retire_render s) = mg_pending s"
  "mg_user_turns (maybe_retire_render s) = mg_user_turns s" "mg_waiting (maybe_retire_render s) = mg_waiting s" "mg_holder (maybe_retire_render s) = mg_holder s"
  "mg_appends (maybe_retire_render s) = mg_appends s" "mg_turn_ids (maybe_retire_render s) = mg_turn_ids s" "mg_starts (maybe_retire_render s) = mg_starts s"
  "mg_interrupts (maybe_retire_render s) = mg_interrupts s" "mg_tools (maybe_retire_render s) = mg_tools s" "mg_speech (maybe_retire_render s) = mg_speech s"
  by (simp_all add: maybe_retire_render_def)

lemma remember_user_turn_frame [simp]:
  "mg_generation (remember_user_turn t g s) = mg_generation s" "mg_output (remember_user_turn t g s) = mg_output s" "mg_turn (remember_user_turn t g s) = mg_turn s"
  "mg_turn_generation (remember_user_turn t g s) = mg_turn_generation s" "mg_had_tool (remember_user_turn t g s) = mg_had_tool s" "mg_interrupting (remember_user_turn t g s) = mg_interrupting s"
  "mg_terminal (remember_user_turn t g s) = mg_terminal s" "mg_next_future (remember_user_turn t g s) = mg_next_future s" "mg_done (remember_user_turn t g s) = mg_done s"
  "mg_starting (remember_user_turn t g s) = mg_starting s" "mg_queued (remember_user_turn t g s) = mg_queued s" "mg_pending (remember_user_turn t g s) = mg_pending s"
  "mg_render (remember_user_turn t g s) = mg_render s" "mg_retired (remember_user_turn t g s) = mg_retired s" "mg_renders_done (remember_user_turn t g s) = mg_renders_done s"
  "mg_waiting (remember_user_turn t g s) = mg_waiting s" "mg_holder (remember_user_turn t g s) = mg_holder s" "mg_appends (remember_user_turn t g s) = mg_appends s"
  "mg_turn_ids (remember_user_turn t g s) = mg_turn_ids s" "mg_starts (remember_user_turn t g s) = mg_starts s" "mg_interrupts (remember_user_turn t g s) = mg_interrupts s"
  "mg_tools (remember_user_turn t g s) = mg_tools s" "mg_speech (remember_user_turn t g s) = mg_speech s"
  by (simp_all add: remember_user_turn_def Let_def)

lemma fold_reject_frame [simp]:
  "mg_generation (fold reject_tool es s) = mg_generation s" "mg_output (fold reject_tool es s) = mg_output s" "mg_turn (fold reject_tool es s) = mg_turn s"
  "mg_turn_generation (fold reject_tool es s) = mg_turn_generation s" "mg_had_tool (fold reject_tool es s) = mg_had_tool s" "mg_interrupting (fold reject_tool es s) = mg_interrupting s"
  "mg_terminal (fold reject_tool es s) = mg_terminal s" "mg_next_future (fold reject_tool es s) = mg_next_future s" "mg_done (fold reject_tool es s) = mg_done s"
  "mg_starting (fold reject_tool es s) = mg_starting s" "mg_queued (fold reject_tool es s) = mg_queued s" "mg_pending (fold reject_tool es s) = mg_pending s"
  "mg_user_turns (fold reject_tool es s) = mg_user_turns s" "mg_render (fold reject_tool es s) = mg_render s" "mg_retired (fold reject_tool es s) = mg_retired s"
  "mg_renders_done (fold reject_tool es s) = mg_renders_done s" "mg_waiting (fold reject_tool es s) = mg_waiting s" "mg_holder (fold reject_tool es s) = mg_holder s"
  "mg_appends (fold reject_tool es s) = mg_appends s" "mg_turn_ids (fold reject_tool es s) = mg_turn_ids s" "mg_starts (fold reject_tool es s) = mg_starts s"
  "mg_interrupts (fold reject_tool es s) = mg_interrupts s" "mg_tools (fold reject_tool es s) = mg_tools s" "mg_speech (fold reject_tool es s) = mg_speech s"
  by (induction es arbitrary: s) simp_all

lemma reject_early_frame [simp]:
  "mg_generation (reject_early s) = mg_generation s" "mg_output (reject_early s) = mg_output s" "mg_turn (reject_early s) = mg_turn s"
  "mg_turn_generation (reject_early s) = mg_turn_generation s" "mg_had_tool (reject_early s) = mg_had_tool s" "mg_interrupting (reject_early s) = mg_interrupting s"
  "mg_terminal (reject_early s) = mg_terminal s" "mg_next_future (reject_early s) = mg_next_future s" "mg_done (reject_early s) = mg_done s"
  "mg_starting (reject_early s) = mg_starting s" "mg_queued (reject_early s) = mg_queued s" "mg_pending (reject_early s) = mg_pending s"
  "mg_user_turns (reject_early s) = mg_user_turns s" "mg_render (reject_early s) = mg_render s" "mg_retired (reject_early s) = mg_retired s"
  "mg_renders_done (reject_early s) = mg_renders_done s" "mg_waiting (reject_early s) = mg_waiting s" "mg_holder (reject_early s) = mg_holder s"
  "mg_appends (reject_early s) = mg_appends s" "mg_turn_ids (reject_early s) = mg_turn_ids s" "mg_starts (reject_early s) = mg_starts s"
  "mg_interrupts (reject_early s) = mg_interrupts s" "mg_tools (reject_early s) = mg_tools s" "mg_speech (reject_early s) = mg_speech s"
  by (simp_all add: reject_early_def)

lemma start_append_frame [simp]:
  "mg_generation (start_append g t q s) = mg_generation s" "mg_output (start_append g t q s) = mg_output s" "mg_turn (start_append g t q s) = mg_turn s"
  "mg_turn_generation (start_append g t q s) = mg_turn_generation s" "mg_had_tool (start_append g t q s) = mg_had_tool s" "mg_interrupting (start_append g t q s) = mg_interrupting s"
  "mg_terminal (start_append g t q s) = mg_terminal s" "mg_next_future (start_append g t q s) = mg_next_future s" "mg_done (start_append g t q s) = mg_done s"
  "mg_starting (start_append g t q s) = mg_starting s" "mg_queued (start_append g t q s) = mg_queued s" "mg_pending (start_append g t q s) = mg_pending s"
  "mg_user_turns (start_append g t q s) = mg_user_turns s" "mg_render (start_append g t q s) = mg_render s" "mg_retired (start_append g t q s) = mg_retired s"
  "mg_renders_done (start_append g t q s) = mg_renders_done s" "mg_holder (start_append g t q s) = mg_holder s" "mg_turn_ids (start_append g t q s) = mg_turn_ids s"
  "mg_starts (start_append g t q s) = mg_starts s" "mg_interrupts (start_append g t q s) = mg_interrupts s" "mg_tools (start_append g t q s) = mg_tools s"
  "mg_speech (start_append g t q s) = mg_speech s"
  by (simp_all add: start_append_def Let_def split: option.split)

lemma set_append_frame [simp]:
  "mg_generation (set_append i ph s) = mg_generation s" "mg_output (set_append i ph s) = mg_output s" "mg_turn (set_append i ph s) = mg_turn s"
  "mg_turn_generation (set_append i ph s) = mg_turn_generation s" "mg_had_tool (set_append i ph s) = mg_had_tool s" "mg_interrupting (set_append i ph s) = mg_interrupting s"
  "mg_terminal (set_append i ph s) = mg_terminal s" "mg_next_future (set_append i ph s) = mg_next_future s" "mg_done (set_append i ph s) = mg_done s"
  "mg_starting (set_append i ph s) = mg_starting s" "mg_queued (set_append i ph s) = mg_queued s" "mg_pending (set_append i ph s) = mg_pending s"
  "mg_user_turns (set_append i ph s) = mg_user_turns s" "mg_render (set_append i ph s) = mg_render s" "mg_retired (set_append i ph s) = mg_retired s"
  "mg_renders_done (set_append i ph s) = mg_renders_done s" "mg_waiting (set_append i ph s) = mg_waiting s" "mg_holder (set_append i ph s) = mg_holder s"
  "mg_turn_ids (set_append i ph s) = mg_turn_ids s" "mg_starts (set_append i ph s) = mg_starts s" "mg_interrupts (set_append i ph s) = mg_interrupts s"
  "mg_tools (set_append i ph s) = mg_tools s" "mg_speech (set_append i ph s) = mg_speech s"
  by (simp_all add: set_append_def)

lemma drop_append_frame [simp]:
  "mg_generation (drop_append i s) = mg_generation s" "mg_output (drop_append i s) = mg_output s" "mg_turn (drop_append i s) = mg_turn s"
  "mg_turn_generation (drop_append i s) = mg_turn_generation s" "mg_had_tool (drop_append i s) = mg_had_tool s" "mg_interrupting (drop_append i s) = mg_interrupting s"
  "mg_terminal (drop_append i s) = mg_terminal s" "mg_next_future (drop_append i s) = mg_next_future s" "mg_done (drop_append i s) = mg_done s"
  "mg_starting (drop_append i s) = mg_starting s" "mg_queued (drop_append i s) = mg_queued s" "mg_pending (drop_append i s) = mg_pending s"
  "mg_user_turns (drop_append i s) = mg_user_turns s" "mg_render (drop_append i s) = mg_render s" "mg_retired (drop_append i s) = mg_retired s"
  "mg_renders_done (drop_append i s) = mg_renders_done s" "mg_waiting (drop_append i s) = mg_waiting s" "mg_holder (drop_append i s) = mg_holder s"
  "mg_turn_ids (drop_append i s) = mg_turn_ids s" "mg_starts (drop_append i s) = mg_starts s" "mg_interrupts (drop_append i s) = mg_interrupts s"
  "mg_tools (drop_append i s) = mg_tools s" "mg_speech (drop_append i s) = mg_speech s"
  by (simp_all add: drop_append_def)

lemma take_render_frame [simp]:
  "mg_generation (take_render a s) = mg_generation s" "mg_output (take_render a s) = mg_output s" "mg_turn (take_render a s) = mg_turn s"
  "mg_turn_generation (take_render a s) = mg_turn_generation s" "mg_had_tool (take_render a s) = mg_had_tool s" "mg_interrupting (take_render a s) = mg_interrupting s"
  "mg_terminal (take_render a s) = mg_terminal s" "mg_done (take_render a s) = mg_done s" "mg_starting (take_render a s) = mg_starting s"
  "mg_queued (take_render a s) = mg_queued s" "mg_pending (take_render a s) = mg_pending s" "mg_user_turns (take_render a s) = mg_user_turns s"
  "mg_renders_done (take_render a s) = mg_renders_done s" "mg_waiting (take_render a s) = mg_waiting s" "mg_holder (take_render a s) = mg_holder s"
  "mg_appends (take_render a s) = mg_appends s" "mg_turn_ids (take_render a s) = mg_turn_ids s" "mg_starts (take_render a s) = mg_starts s"
  "mg_interrupts (take_render a s) = mg_interrupts s" "mg_tools (take_render a s) = mg_tools s"
  by (simp_all add: take_render_def)

lemma forget_turn_frame [simp]:
  "mg_generation (forget_turn s) = mg_generation s" "mg_output (forget_turn s) = mg_output s" "mg_next_future (forget_turn s) = mg_next_future s"
  "mg_starting (forget_turn s) = mg_starting s" "mg_pending (forget_turn s) = mg_pending s" "mg_user_turns (forget_turn s) = mg_user_turns s"
  "mg_render (forget_turn s) = mg_render s" "mg_retired (forget_turn s) = mg_retired s" "mg_renders_done (forget_turn s) = mg_renders_done s"
  "mg_waiting (forget_turn s) = mg_waiting s" "mg_holder (forget_turn s) = mg_holder s" "mg_appends (forget_turn s) = mg_appends s"
  "mg_turn_ids (forget_turn s) = mg_turn_ids s" "mg_starts (forget_turn s) = mg_starts s" "mg_interrupts (forget_turn s) = mg_interrupts s"
  "mg_tools (forget_turn s) = mg_tools s" "mg_speech (forget_turn s) = mg_speech s"
  by (simp_all add: forget_turn_def)

lemma complete_turn_frame [simp]:
  "mg_generation (complete_turn p s) = mg_generation s" "mg_output (complete_turn p s) = mg_output s" "mg_render (complete_turn p s) = mg_render s"
  "mg_retired (complete_turn p s) = mg_retired s" "mg_renders_done (complete_turn p s) = mg_renders_done s" "mg_speech (complete_turn p s) = mg_speech s"
  "mg_holder (complete_turn p s) = mg_holder s" "mg_turn_ids (complete_turn p s) = mg_turn_ids s" "mg_interrupts (complete_turn p s) = mg_interrupts s"
  "mg_tools (complete_turn p s) = mg_tools s" "mg_starting (complete_turn p s) = mg_starting s" "mg_starts (complete_turn p s) = mg_starts s"
  "mg_next_future (complete_turn p s) = mg_next_future s" "mg_pending (complete_turn p s) = mg_pending s" "mg_user_turns (complete_turn p s) = mg_user_turns s"
  by (simp_all add: complete_turn_def Let_def split: option.split)

lemma handle_executor_event_frame [simp]:
  "mg_generation (handle_executor_event e s) = mg_generation s" "mg_output (handle_executor_event e s) = mg_output s" "mg_render (handle_executor_event e s) = mg_render s"
  "mg_retired (handle_executor_event e s) = mg_retired s" "mg_renders_done (handle_executor_event e s) = mg_renders_done s" "mg_speech (handle_executor_event e s) = mg_speech s"
  "mg_holder (handle_executor_event e s) = mg_holder s" "mg_turn_ids (handle_executor_event e s) = mg_turn_ids s" "mg_interrupts (handle_executor_event e s) = mg_interrupts s"
  "mg_starting (handle_executor_event e s) = mg_starting s" "mg_starts (handle_executor_event e s) = mg_starts s" "mg_next_future (handle_executor_event e s) = mg_next_future s"
  "mg_pending (handle_executor_event e s) = mg_pending s" "mg_user_turns (handle_executor_event e s) = mg_user_turns s"
  by (simp_all add: handle_executor_event_def Let_def)

lemma executor_event_frame [simp]:
  "mg_generation (executor_event e s) = mg_generation s" "mg_output (executor_event e s) = mg_output s" "mg_render (executor_event e s) = mg_render s"
  "mg_retired (executor_event e s) = mg_retired s" "mg_renders_done (executor_event e s) = mg_renders_done s" "mg_speech (executor_event e s) = mg_speech s"
  "mg_holder (executor_event e s) = mg_holder s" "mg_turn_ids (executor_event e s) = mg_turn_ids s" "mg_interrupts (executor_event e s) = mg_interrupts s"
  "mg_starting (executor_event e s) = mg_starting s" "mg_starts (executor_event e s) = mg_starts s" "mg_next_future (executor_event e s) = mg_next_future s"
  "mg_pending (executor_event e s) = mg_pending s" "mg_user_turns (executor_event e s) = mg_user_turns s"
  by (simp_all add: executor_event_def split: option.split)

lemma launch_turn_frame [simp]:
  "mg_generation (launch_turn x g s) = mg_generation s" "mg_output (launch_turn x g s) = mg_output s" "mg_turn (launch_turn x g s) = mg_turn s"
  "mg_turn_generation (launch_turn x g s) = mg_turn_generation s" "mg_had_tool (launch_turn x g s) = mg_had_tool s" "mg_interrupting (launch_turn x g s) = mg_interrupting s"
  "mg_terminal (launch_turn x g s) = mg_terminal s" "mg_next_future (launch_turn x g s) = mg_next_future s" "mg_done (launch_turn x g s) = mg_done s"
  "mg_pending (launch_turn x g s) = mg_pending s" "mg_user_turns (launch_turn x g s) = mg_user_turns s" "mg_render (launch_turn x g s) = mg_render s"
  "mg_retired (launch_turn x g s) = mg_retired s" "mg_renders_done (launch_turn x g s) = mg_renders_done s" "mg_waiting (launch_turn x g s) = mg_waiting s"
  "mg_appends (launch_turn x g s) = mg_appends s" "mg_turn_ids (launch_turn x g s) = mg_turn_ids s" "mg_interrupts (launch_turn x g s) = mg_interrupts s"
  "mg_tools (launch_turn x g s) = mg_tools s" "mg_speech (launch_turn x g s) = mg_speech s"
  by (simp_all add: launch_turn_def)

lemma interrupt_turn_frame [simp]:
  "mg_generation (interrupt_turn r t s) = mg_generation s" "mg_output (interrupt_turn r t s) = mg_output s" "mg_turn (interrupt_turn r t s) = mg_turn s"
  "mg_turn_generation (interrupt_turn r t s) = mg_turn_generation s" "mg_had_tool (interrupt_turn r t s) = mg_had_tool s" "mg_terminal (interrupt_turn r t s) = mg_terminal s"
  "mg_next_future (interrupt_turn r t s) = mg_next_future s" "mg_done (interrupt_turn r t s) = mg_done s" "mg_starting (interrupt_turn r t s) = mg_starting s"
  "mg_queued (interrupt_turn r t s) = mg_queued s" "mg_pending (interrupt_turn r t s) = mg_pending s" "mg_user_turns (interrupt_turn r t s) = mg_user_turns s"
  "mg_render (interrupt_turn r t s) = mg_render s" "mg_retired (interrupt_turn r t s) = mg_retired s" "mg_renders_done (interrupt_turn r t s) = mg_renders_done s"
  "mg_waiting (interrupt_turn r t s) = mg_waiting s" "mg_appends (interrupt_turn r t s) = mg_appends s" "mg_turn_ids (interrupt_turn r t s) = mg_turn_ids s"
  "mg_starts (interrupt_turn r t s) = mg_starts s" "mg_tools (interrupt_turn r t s) = mg_tools s" "mg_speech (interrupt_turn r t s) = mg_speech s"
  by (simp_all add: interrupt_turn_def)

lemma request_done_frame [simp]:
  "mg_generation (request_done r s) = mg_generation s" "mg_output (request_done r s) = mg_output s" "mg_turn (request_done r s) = mg_turn s"
  "mg_turn_generation (request_done r s) = mg_turn_generation s" "mg_had_tool (request_done r s) = mg_had_tool s" "mg_interrupting (request_done r s) = mg_interrupting s"
  "mg_terminal (request_done r s) = mg_terminal s" "mg_next_future (request_done r s) = mg_next_future s" "mg_done (request_done r s) = mg_done s"
  "mg_starting (request_done r s) = mg_starting s" "mg_queued (request_done r s) = mg_queued s" "mg_pending (request_done r s) = mg_pending s"
  "mg_render (request_done r s) = mg_render s" "mg_retired (request_done r s) = mg_retired s" "mg_renders_done (request_done r s) = mg_renders_done s"
  "mg_waiting (request_done r s) = mg_waiting s" "mg_holder (request_done r s) = mg_holder s" "mg_appends (request_done r s) = mg_appends s"
  "mg_turn_ids (request_done r s) = mg_turn_ids s" "mg_starts (request_done r s) = mg_starts s" "mg_interrupts (request_done r s) = mg_interrupts s"
  "mg_tools (request_done r s) = mg_tools s" "mg_speech (request_done r s) = mg_speech s"
  by (simp_all add: request_done_def split: turn_request.split option.split)

lemma activate_turn_frame [simp]:
  "mg_generation (activate_turn t g s) = mg_generation s" "mg_output (activate_turn t g s) = mg_output s" "mg_render (activate_turn t g s) = mg_render s"
  "mg_retired (activate_turn t g s) = mg_retired s" "mg_renders_done (activate_turn t g s) = mg_renders_done s" "mg_speech (activate_turn t g s) = mg_speech s"
  "mg_turn_ids (activate_turn t g s) = mg_turn_ids s" "mg_interrupts (activate_turn t g s) = mg_interrupts s" "mg_tools (activate_turn t g s) = mg_tools s"
  "mg_starts (activate_turn t g s) = mg_starts s" "mg_queued (activate_turn t g s) = mg_queued s" "mg_pending (activate_turn t g s) = mg_pending s"
  "mg_user_turns (activate_turn t g s) = mg_user_turns s" "mg_waiting (activate_turn t g s) = mg_waiting s" "mg_appends (activate_turn t g s) = mg_appends s"
  "mg_done (activate_turn t g s) = mg_done s"
  by (simp_all add: activate_turn_def)

lemma turn_start_returned_frame [simp]:
  "mg_generation (turn_start_returned r s) = mg_generation s" "mg_output (turn_start_returned r s) = mg_output s" "mg_render (turn_start_returned r s) = mg_render s"
  "mg_retired (turn_start_returned r s) = mg_retired s" "mg_renders_done (turn_start_returned r s) = mg_renders_done s" "mg_speech (turn_start_returned r s) = mg_speech s"
  "mg_tools (turn_start_returned r s) = mg_tools s" "mg_starts (turn_start_returned r s) = mg_starts s" "mg_queued (turn_start_returned r s) = mg_queued s"
  "mg_pending (turn_start_returned r s) = mg_pending s" "mg_user_turns (turn_start_returned r s) = mg_user_turns s" "mg_waiting (turn_start_returned r s) = mg_waiting s"
  "mg_appends (turn_start_returned r s) = mg_appends s" "mg_done (turn_start_returned r s) = mg_done s"
  by (simp_all add: turn_start_returned_def Let_def split: option.split holder.split)

lemma settle_turn_frame [simp]:
  "mg_generation (settle_turn s) = mg_generation s" "mg_output (settle_turn s) = mg_output s" "mg_render (settle_turn s) = mg_render s"
  "mg_retired (settle_turn s) = mg_retired s" "mg_renders_done (settle_turn s) = mg_renders_done s" "mg_speech (settle_turn s) = mg_speech s"
  "mg_turn_ids (settle_turn s) = mg_turn_ids s" "mg_interrupts (settle_turn s) = mg_interrupts s" "mg_starting (settle_turn s) = mg_starting s"
  "mg_starts (settle_turn s) = mg_starts s" "mg_pending (settle_turn s) = mg_pending s" "mg_user_turns (settle_turn s) = mg_user_turns s"
  "mg_next_future (settle_turn s) = mg_next_future s"
  by (simp_all add: settle_turn_def split: option.split holder.split list.split)

lemma fail_holder_frame [simp]:
  "mg_generation (fail_holder e s) = mg_generation s" "mg_output (fail_holder e s) = mg_output s" "mg_turn (fail_holder e s) = mg_turn s"
  "mg_turn_generation (fail_holder e s) = mg_turn_generation s" "mg_had_tool (fail_holder e s) = mg_had_tool s" "mg_interrupting (fail_holder e s) = mg_interrupting s"
  "mg_terminal (fail_holder e s) = mg_terminal s" "mg_next_future (fail_holder e s) = mg_next_future s" "mg_done (fail_holder e s) = mg_done s"
  "mg_queued (fail_holder e s) = mg_queued s" "mg_pending (fail_holder e s) = mg_pending s" "mg_user_turns (fail_holder e s) = mg_user_turns s"
  "mg_render (fail_holder e s) = mg_render s" "mg_retired (fail_holder e s) = mg_retired s" "mg_renders_done (fail_holder e s) = mg_renders_done s"
  "mg_waiting (fail_holder e s) = mg_waiting s" "mg_appends (fail_holder e s) = mg_appends s" "mg_turn_ids (fail_holder e s) = mg_turn_ids s"
  "mg_starts (fail_holder e s) = mg_starts s" "mg_interrupts (fail_holder e s) = mg_interrupts s" "mg_tools (fail_holder e s) = mg_tools s"
  "mg_speech (fail_holder e s) = mg_speech s"
  by (simp_all add: fail_holder_def split: option.split holder.split)

lemma interrupt_returned_frame [simp]:
  "mg_generation (interrupt_returned s) = mg_generation s" "mg_output (interrupt_returned s) = mg_output s" "mg_render (interrupt_returned s) = mg_render s"
  "mg_retired (interrupt_returned s) = mg_retired s" "mg_renders_done (interrupt_returned s) = mg_renders_done s" "mg_speech (interrupt_returned s) = mg_speech s"
  "mg_turn (interrupt_returned s) = mg_turn s" "mg_turn_generation (interrupt_returned s) = mg_turn_generation s" "mg_had_tool (interrupt_returned s) = mg_had_tool s"
  "mg_interrupting (interrupt_returned s) = mg_interrupting s" "mg_terminal (interrupt_returned s) = mg_terminal s" "mg_done (interrupt_returned s) = mg_done s"
  "mg_turn_ids (interrupt_returned s) = mg_turn_ids s" "mg_interrupts (interrupt_returned s) = mg_interrupts s" "mg_tools (interrupt_returned s) = mg_tools s"
  "mg_pending (interrupt_returned s) = mg_pending s" "mg_waiting (interrupt_returned s) = mg_waiting s" "mg_appends (interrupt_returned s) = mg_appends s"
  "mg_next_future (interrupt_returned s) = mg_next_future s"
  by (simp_all add: interrupt_returned_def split: option.split holder.split turn_request.split)

lemma resume_append_frame [simp]:
  "mg_turn (resume_append i s) = mg_turn s" "mg_turn_generation (resume_append i s) = mg_turn_generation s" "mg_had_tool (resume_append i s) = mg_had_tool s"
  "mg_interrupting (resume_append i s) = mg_interrupting s" "mg_terminal (resume_append i s) = mg_terminal s" "mg_done (resume_append i s) = mg_done s"
  "mg_turn_ids (resume_append i s) = mg_turn_ids s" "mg_interrupts (resume_append i s) = mg_interrupts s" "mg_tools (resume_append i s) = mg_tools s"
  "mg_holder (resume_append i s) = mg_holder s" "mg_starting (resume_append i s) = mg_starting s" "mg_generation (resume_append i s) = mg_generation s"
  "mg_output (resume_append i s) = mg_output s" "mg_pending (resume_append i s) = mg_pending s" "mg_user_turns (resume_append i s) = mg_user_turns s"
  "mg_queued (resume_append i s) = mg_queued s" "mg_starts (resume_append i s) = mg_starts s" "mg_renders_done (resume_append i s) = mg_renders_done s"
  by (simp_all add: resume_append_def Let_def split: append_phase.split)

lemma fail_append_frame [simp]:
  "mg_turn (fail_append i e s) = mg_turn s" "mg_turn_generation (fail_append i e s) = mg_turn_generation s" "mg_had_tool (fail_append i e s) = mg_had_tool s"
  "mg_interrupting (fail_append i e s) = mg_interrupting s" "mg_terminal (fail_append i e s) = mg_terminal s" "mg_done (fail_append i e s) = mg_done s"
  "mg_turn_ids (fail_append i e s) = mg_turn_ids s" "mg_interrupts (fail_append i e s) = mg_interrupts s" "mg_tools (fail_append i e s) = mg_tools s"
  "mg_holder (fail_append i e s) = mg_holder s" "mg_starting (fail_append i e s) = mg_starting s" "mg_generation (fail_append i e s) = mg_generation s"
  "mg_output (fail_append i e s) = mg_output s" "mg_pending (fail_append i e s) = mg_pending s" "mg_user_turns (fail_append i e s) = mg_user_turns s"
  "mg_queued (fail_append i e s) = mg_queued s" "mg_starts (fail_append i e s) = mg_starts s" "mg_speech (fail_append i e s) = mg_speech s"
  "mg_waiting (fail_append i e s) = mg_waiting s" "mg_next_future (fail_append i e s) = mg_next_future s"
  by (simp_all add: fail_append_def Let_def split: append_phase.split)

lemma mark_render_started_frame [simp]:
  "mg_generation (snd (mark_render_started r t s)) = mg_generation s" "mg_output (snd (mark_render_started r t s)) = mg_output s" "mg_turn (snd (mark_render_started r t s)) = mg_turn s"
  "mg_turn_generation (snd (mark_render_started r t s)) = mg_turn_generation s" "mg_had_tool (snd (mark_render_started r t s)) = mg_had_tool s" "mg_interrupting (snd (mark_render_started r t s)) = mg_interrupting s"
  "mg_terminal (snd (mark_render_started r t s)) = mg_terminal s" "mg_next_future (snd (mark_render_started r t s)) = mg_next_future s" "mg_done (snd (mark_render_started r t s)) = mg_done s"
  "mg_starting (snd (mark_render_started r t s)) = mg_starting s" "mg_queued (snd (mark_render_started r t s)) = mg_queued s" "mg_pending (snd (mark_render_started r t s)) = mg_pending s"
  "mg_user_turns (snd (mark_render_started r t s)) = mg_user_turns s" "mg_render (snd (mark_render_started r t s)) = mg_render s" "mg_retired (snd (mark_render_started r t s)) = mg_retired s"
  "mg_renders_done (snd (mark_render_started r t s)) = mg_renders_done s" "mg_waiting (snd (mark_render_started r t s)) = mg_waiting s" "mg_holder (snd (mark_render_started r t s)) = mg_holder s"
  "mg_appends (snd (mark_render_started r t s)) = mg_appends s" "mg_turn_ids (snd (mark_render_started r t s)) = mg_turn_ids s" "mg_starts (snd (mark_render_started r t s)) = mg_starts s"
  "mg_interrupts (snd (mark_render_started r t s)) = mg_interrupts s" "mg_tools (snd (mark_render_started r t s)) = mg_tools s" "mg_speech (snd (mark_render_started r t s)) = mg_speech s"
  by (simp_all add: mark_render_started_def)

lemma mark_render_terminal_frame [simp]:
  "mg_generation (mark_render_terminal r t s) = mg_generation s" "mg_output (mark_render_terminal r t s) = mg_output s" "mg_turn (mark_render_terminal r t s) = mg_turn s"
  "mg_turn_generation (mark_render_terminal r t s) = mg_turn_generation s" "mg_had_tool (mark_render_terminal r t s) = mg_had_tool s" "mg_interrupting (mark_render_terminal r t s) = mg_interrupting s"
  "mg_terminal (mark_render_terminal r t s) = mg_terminal s" "mg_next_future (mark_render_terminal r t s) = mg_next_future s" "mg_done (mark_render_terminal r t s) = mg_done s"
  "mg_starting (mark_render_terminal r t s) = mg_starting s" "mg_queued (mark_render_terminal r t s) = mg_queued s" "mg_pending (mark_render_terminal r t s) = mg_pending s"
  "mg_user_turns (mark_render_terminal r t s) = mg_user_turns s" "mg_waiting (mark_render_terminal r t s) = mg_waiting s" "mg_holder (mark_render_terminal r t s) = mg_holder s"
  "mg_appends (mark_render_terminal r t s) = mg_appends s" "mg_turn_ids (mark_render_terminal r t s) = mg_turn_ids s" "mg_starts (mark_render_terminal r t s) = mg_starts s"
  "mg_interrupts (mark_render_terminal r t s) = mg_interrupts s" "mg_tools (mark_render_terminal r t s) = mg_tools s" "mg_speech (mark_render_terminal r t s) = mg_speech s"
  by (simp_all add: mark_render_terminal_def maybe_retire_render_def release_render_def)

lemma authorize_output_frame [simp]:
  "mg_generation (authorize_output g s) = mg_generation s" "mg_turn (authorize_output g s) = mg_turn s" "mg_turn_generation (authorize_output g s) = mg_turn_generation s"
  "mg_had_tool (authorize_output g s) = mg_had_tool s" "mg_interrupting (authorize_output g s) = mg_interrupting s" "mg_terminal (authorize_output g s) = mg_terminal s"
  "mg_next_future (authorize_output g s) = mg_next_future s" "mg_done (authorize_output g s) = mg_done s" "mg_starting (authorize_output g s) = mg_starting s"
  "mg_queued (authorize_output g s) = mg_queued s" "mg_pending (authorize_output g s) = mg_pending s" "mg_user_turns (authorize_output g s) = mg_user_turns s"
  "mg_render (authorize_output g s) = mg_render s" "mg_retired (authorize_output g s) = mg_retired s" "mg_renders_done (authorize_output g s) = mg_renders_done s"
  "mg_waiting (authorize_output g s) = mg_waiting s" "mg_holder (authorize_output g s) = mg_holder s" "mg_appends (authorize_output g s) = mg_appends s"
  "mg_turn_ids (authorize_output g s) = mg_turn_ids s" "mg_starts (authorize_output g s) = mg_starts s" "mg_interrupts (authorize_output g s) = mg_interrupts s"
  "mg_tools (authorize_output g s) = mg_tools s" "mg_speech (authorize_output g s) = mg_speech s"
  by (simp_all add: authorize_output_def)

lemma context_appended_frame [simp]:
  "mg_generation (context_appended s) = mg_generation s" "mg_output (context_appended s) = mg_output s" "mg_turn (context_appended s) = mg_turn s"
  "mg_turn_generation (context_appended s) = mg_turn_generation s" "mg_had_tool (context_appended s) = mg_had_tool s" "mg_interrupting (context_appended s) = mg_interrupting s"
  "mg_terminal (context_appended s) = mg_terminal s" "mg_next_future (context_appended s) = mg_next_future s" "mg_done (context_appended s) = mg_done s"
  "mg_starting (context_appended s) = mg_starting s" "mg_queued (context_appended s) = mg_queued s" "mg_pending (context_appended s) = mg_pending s"
  "mg_user_turns (context_appended s) = mg_user_turns s" "mg_waiting (context_appended s) = mg_waiting s" "mg_holder (context_appended s) = mg_holder s"
  "mg_appends (context_appended s) = mg_appends s" "mg_turn_ids (context_appended s) = mg_turn_ids s" "mg_starts (context_appended s) = mg_starts s"
  "mg_interrupts (context_appended s) = mg_interrupts s" "mg_tools (context_appended s) = mg_tools s" "mg_speech (context_appended s) = mg_speech s"
  by (simp_all add: context_appended_def maybe_retire_render_def release_render_def)

section \<open>What is audible\<close>

definition output_inv :: "managed \<Rightarrow> bool" where
  "output_inv s \<longleftrightarrow>
     (mg_output s = None \<or> mg_output s = Some (mg_generation s)) \<and>
     (\<forall>g. mg_output s = Some g \<or> mg_render s = Some g \<longrightarrow> g \<in> fst ` set (mg_speech s))"

lemma output_inv_cong:
  "output_inv s \<Longrightarrow> mg_generation s' = mg_generation s \<Longrightarrow> mg_output s' = mg_output s \<Longrightarrow> mg_render s' = mg_render s \<Longrightarrow>
   mg_speech s' = mg_speech s \<Longrightarrow> output_inv s'"
  by (simp add: output_inv_def)

lemma output_inv_begin: "output_inv s \<Longrightarrow> output_inv (begin_background_generation s)"
  by (simp add: output_inv_def begin_background_generation_def)

lemma output_inv_less:
  "output_inv s \<Longrightarrow> mg_generation s' = mg_generation s \<Longrightarrow> mg_output s' = None \<or> mg_output s' = mg_output s \<Longrightarrow>
   mg_render s' = None \<or> mg_render s' = mg_render s \<Longrightarrow> mg_speech s' = mg_speech s \<Longrightarrow> output_inv s'"
  by (auto simp: output_inv_def)

lemma retire_render: "mg_render (maybe_retire_render s) = None \<or> mg_render (maybe_retire_render s) = mg_render s"
  by (simp add: maybe_retire_render_def release_render_def)

lemma output_inv_enter: "output_inv s \<Longrightarrow> output_inv (enter_lock r s)"
  by (auto simp: enter_lock_def output_inv_def begin_background_generation_def split: turn_request.split option.split)

lemma output_inv_append: "output_inv s \<Longrightarrow> output_inv (resume_append i s)" "output_inv s \<Longrightarrow> output_inv (fail_append i e s)"
  by (auto simp: resume_append_def fail_append_def output_inv_def Let_def take_render_def release_render_def set_append_def
      drop_append_def split: append_phase.split)

lemma output_inv_created: "output_inv s \<Longrightarrow> output_inv (assistant_turn_created t s)"
  by (auto simp: assistant_turn_created_def output_inv_def claim_turn_id_def mark_render_started_def authorize_output_def
      fail_managed_def cancel_render_def split: option.split if_splits)

lemma mark_terminal_render: "mg_render (mark_render_terminal r t s) = None \<or> mg_render (mark_render_terminal r t s) = mg_render s"
  by (simp add: mark_render_terminal_def maybe_retire_render_def release_render_def)

lemma managed_output_inv: "output_inv s \<Longrightarrow> output_inv (managed_step e s)"
proof (cases e)
  case (LockAcquired i)
  let ?s = "s\<lparr>mg_waiting := take i (mg_waiting s) @ drop (Suc i) (mg_waiting s)\<rparr>"
  assume "output_inv s"
  then have "output_inv ?s" by (rule output_inv_cong) simp_all
  then show ?thesis using LockAcquired \<open>output_inv s\<close> by (simp add: acquire_lock_def output_inv_enter)
next
  case (BackendTerminal owned r t)
  assume inv: "output_inv s"
  show ?thesis
    unfolding BackendTerminal managed_step.simps backend_terminal_def
    by (rule output_inv_less [OF inv]) (use mark_terminal_render [of r t s] mark_terminal_render [of r t "s\<lparr>mg_output := None\<rparr>"] in auto)
next
  case ContextAppended
  assume inv: "output_inv s"
  show ?thesis
    unfolding ContextAppended managed_step.simps
    by (rule output_inv_less [OF inv]) (auto simp: context_appended_def maybe_retire_render_def release_render_def)
next
  case (AppendResumes i)
  assume "output_inv s"
  then show ?thesis by (simp add: AppendResumes output_inv_append)
next
  case (AppendFails i e)
  assume "output_inv s"
  then show ?thesis by (simp add: AppendFails output_inv_append)
next
  case (AssistantTurnCreated t)
  assume "output_inv s"
  then show ?thesis by (simp add: AssistantTurnCreated output_inv_created)
qed (auto simp: speech_started_def managed_user_control_def user_turn_created_def user_turn_interrupts_def user_turn_done_def
    text_received_def interrupt_received_def assistant_turn_done_def shut_down_def
    output_inv_def begin_background_generation_def claim_turn_id_def Let_def split: option.split prod.split)

section \<open>The executor turn\<close>

definition turn_inv :: "managed \<Rightarrow> bool" where
  "turn_inv s \<longleftrightarrow>
     (mg_turn_generation s = None \<longleftrightarrow> mg_turn s = None) \<and> (mg_terminal s = None \<longleftrightarrow> mg_turn s = None) \<and>
     (\<forall>f. mg_terminal s = Some f \<longrightarrow> f \<notin> set (mg_done s) \<and> f < mg_next_future s) \<and>
     list_all (\<lambda>f. f < mg_next_future s) (mg_done s)"

definition holder_inv :: "managed \<Rightarrow> bool" where
  "holder_inv s \<longleftrightarrow>
     (\<forall>x g. mg_holder s = Some (Starting x g) \<longrightarrow> mg_turn s = None) \<and>
     (\<forall>r terminal. mg_holder s = Some (Interrupting r terminal) \<longrightarrow> insists r \<longrightarrow>
        mg_turn s = None \<or> terminal = mg_terminal s)"

definition effects_inv :: "managed \<Rightarrow> bool" where
  "effects_inv s \<longleftrightarrow>
     (\<forall>t. mg_turn s = Some t \<longrightarrow>
        t \<in> set (mg_turn_ids s) \<and> (mg_had_tool s \<longleftrightarrow> t \<in> fst ` set (mg_tools s)) \<and>
        (t \<in> set (mg_interrupts s) \<longrightarrow> mg_interrupting s)) \<and>
     (\<forall>t \<in> set (mg_interrupts s). t \<notin> fst ` set (mg_tools s) \<and> t \<in> set (mg_turn_ids s)) \<and>
     fst ` set (mg_tools s) \<subseteq> set (mg_turn_ids s) \<and> list_all (\<lambda>(t, g, h). g = h) (mg_tools s)"

definition executor_inv :: "managed \<Rightarrow> bool" where
  "executor_inv s \<longleftrightarrow> turn_inv s \<and> holder_inv s \<and> effects_inv s"

lemmas executor_inv_defs = executor_inv_def turn_inv_def holder_inv_def effects_inv_def

lemma executor_inv_cong:
  "executor_inv s \<Longrightarrow> mg_turn s' = mg_turn s \<Longrightarrow> mg_turn_generation s' = mg_turn_generation s \<Longrightarrow>
   mg_terminal s' = mg_terminal s \<Longrightarrow> mg_had_tool s' = mg_had_tool s \<Longrightarrow> mg_interrupting s' = mg_interrupting s \<Longrightarrow>
   mg_done s' = mg_done s \<Longrightarrow> mg_turn_ids s' = mg_turn_ids s \<Longrightarrow> mg_interrupts s' = mg_interrupts s \<Longrightarrow>
   mg_tools s' = mg_tools s \<Longrightarrow> mg_holder s' = mg_holder s \<Longrightarrow> mg_next_future s \<le> mg_next_future s' \<Longrightarrow> executor_inv s'"
proof -
  assume a: "executor_inv s" "mg_turn s' = mg_turn s" "mg_turn_generation s' = mg_turn_generation s"
    "mg_terminal s' = mg_terminal s" "mg_had_tool s' = mg_had_tool s" "mg_interrupting s' = mg_interrupting s"
    "mg_done s' = mg_done s" "mg_turn_ids s' = mg_turn_ids s" "mg_interrupts s' = mg_interrupts s"
    "mg_tools s' = mg_tools s" "mg_holder s' = mg_holder s" "mg_next_future s \<le> mg_next_future s'"
  then have "holder_inv s'" "effects_inv s'" unfolding executor_inv_def holder_inv_def effects_inv_def a(2-11) by simp_all
  moreover have "turn_inv s'"
    using a(1,12) unfolding executor_inv_def turn_inv_def a(2-11) list_all_iff by (meson less_le_trans)
  ultimately show ?thesis by (simp add: executor_inv_def)
qed

lemma leave_lock_inv: "executor_inv s \<Longrightarrow> executor_inv (leave_lock s)"
  unfolding executor_inv_def by (simp add: turn_inv_def holder_inv_def effects_inv_def leave_lock_def)

lemma forget_turn_inv: "executor_inv s \<Longrightarrow> executor_inv (forget_turn s)"
  by (auto simp: executor_inv_defs forget_turn_def split: option.splits holder.splits)

lemma complete_turn_inv: "executor_inv s \<Longrightarrow> executor_inv (complete_turn p s)"
proof -
  assume "executor_inv s"
  then have "executor_inv (forget_turn s)" by (rule forget_turn_inv)
  then have "executor_inv (complete_turn p s) \<or> complete_turn p s = s"
    unfolding complete_turn_def Let_def
    by (auto split: option.split intro: executor_inv_cong [OF \<open>executor_inv (forget_turn s)\<close>])
  then show ?thesis using \<open>executor_inv s\<close> by auto
qed

lemma accept_tool_inv:
  assumes "executor_inv s" "names_turn p s" "\<not> mg_interrupting s" "mg_turn_generation s = Some (mg_generation s)"
  shows "executor_inv (s\<lparr>mg_had_tool := True,
    mg_tools := mg_tools s @ [(the (mg_turn s), the (mg_turn_generation s), mg_generation s)]\<rparr>)"
proof -
  obtain t where t: "mg_turn s = Some t" using assms(1,4) by (auto simp: executor_inv_defs)
  then have n: "t \<notin> set (mg_interrupts s)" "t \<in> set (mg_turn_ids s)" using assms(1,3) by (auto simp: executor_inv_def effects_inv_def)
  let ?s = "s\<lparr>mg_had_tool := True, mg_tools := mg_tools s @ [(the (mg_turn s), the (mg_turn_generation s), mg_generation s)]\<rparr>"
  have "turn_inv ?s" "holder_inv ?s" using assms(1) by (simp_all add: executor_inv_def turn_inv_def holder_inv_def)
  moreover have "effects_inv ?s" using assms(1,4) t n by (auto simp: executor_inv_def effects_inv_def)
  ultimately show ?thesis by (simp add: executor_inv_def)
qed

lemma quiet_executor_inv:
  assumes "executor_inv s"
  shows "executor_inv (remember_agent_message p b s)" "executor_inv (reject_tool e s)" "executor_inv (fail_managed m s)"
    "executor_inv (request_lock r s)" "executor_inv (cancel_render s)" "executor_inv (request_done r s)"
    "executor_inv (s\<lparr>mg_early := es\<rparr>)" "executor_inv (s\<lparr>mg_queued := q\<rparr>)" "executor_inv (s\<lparr>mg_waiting := w\<rparr>)"
    "executor_inv (begin_background_generation s)"
  by (rule executor_inv_cong [OF assms], simp_all)+

lemma handle_executor_event_inv: "executor_inv s \<Longrightarrow> executor_inv (handle_executor_event e s)"
  using accept_tool_inv [of s "params_of e"] complete_turn_inv [of s "params_of e"]
  by (simp add: handle_executor_event_def Let_def quiet_executor_inv)

lemma executor_event_inv: "executor_inv s \<Longrightarrow> executor_inv (executor_event e s)"
  using handle_executor_event_inv [of s e]
  by (simp add: executor_event_def quiet_executor_inv split: option.split)

lemma interrupt_turn_inv:
  "executor_inv s \<Longrightarrow> mg_turn s = Some t \<Longrightarrow> \<not> mg_had_tool s \<Longrightarrow> executor_inv (interrupt_turn r t s)"
  by (auto simp: executor_inv_defs interrupt_turn_def)

lemma launch_turn_inv: "executor_inv s \<Longrightarrow> mg_turn s = None \<Longrightarrow> executor_inv (launch_turn x g s)"
  by (auto simp: executor_inv_defs launch_turn_def)

lemma enter_lock_inv: "executor_inv s \<Longrightarrow> executor_inv (enter_lock r s)"
proof (cases r)
  case (ExpireTurn t g f)
  assume "executor_inv s"
  then show ?thesis using ExpireTurn by (auto simp: enter_lock_def executor_inv_defs insists_def)
next
  case (ShutdownTurn owner)
  assume "executor_inv s"
  then show ?thesis using ShutdownTurn by (auto simp: enter_lock_def executor_inv_defs insists_def)
qed (simp_all add: enter_lock_def launch_turn_inv interrupt_turn_inv quiet_executor_inv split: option.split)

lemma interrupt_returned_inv: "executor_inv s \<Longrightarrow> executor_inv (interrupt_returned s)"
proof -
  assume inv: "executor_inv s"
  have "mg_turn s = None"
    if "mg_holder s = Some (Interrupting r terminal)" "insists r" "\<not> (\<exists>f. terminal = Some f \<and> f \<notin> set (mg_done s))" for r terminal
    using inv that by (cases "mg_terminal s") (auto simp: executor_inv_defs)
  then show ?thesis
    using inv leave_lock_inv [OF inv] quiet_executor_inv(6) [OF leave_lock_inv [OF inv]] launch_turn_inv [OF inv]
    by (fastforce simp: interrupt_returned_def insists_def split: option.split holder.split turn_request.split)
qed

lemma fresh_id_inv:
  "executor_inv s \<Longrightarrow> executor_inv (s\<lparr>mg_turn_ids := mg_turn_ids s @ [t]\<rparr>)"
  by (auto simp: executor_inv_defs split: option.splits holder.splits)

lemma activate_turn_inv:
  assumes "executor_inv s" "mg_turn s = None" "t \<in> set (mg_turn_ids s)" "t \<notin> set (mg_interrupts s)" "t \<notin> fst ` set (mg_tools s)"
  shows "executor_inv (activate_turn t g s)"
  using assms by (auto simp: executor_inv_defs activate_turn_def list_all_iff less_Suc_eq)

lemma reject_early_inv: "executor_inv s \<Longrightarrow> executor_inv (reject_early (s\<lparr>mg_starting := False\<rparr>))"
  by (rule executor_inv_cong [of s]) simp_all

lemma turn_start_returned_inv:
  assumes inv: "executor_inv s" and fresh: "managed_enabled (TurnStartReturned response) s"
  shows "executor_inv (turn_start_returned response s)"
proof (cases "\<exists>x g. mg_holder s = Some (Starting x g)")
  case False
  then show ?thesis using inv by (auto simp: turn_start_returned_def split: option.split holder.split)
next
  case True
  then obtain x g where h: "mg_holder s = Some (Starting x g)" by blast
  then have none: "mg_turn s = None" using inv by (simp add: executor_inv_defs)
  show ?thesis
  proof (cases "case jget response ''turn'' of JObj turn \<Rightarrow> non_empty_text (jget turn ''id'') | _ \<Rightarrow> None")
    case None
    then show ?thesis
      using h leave_lock_inv [OF reject_early_inv [OF inv]]
      by (simp add: turn_start_returned_def quiet_executor_inv)
  next
    case (Some t)
    then have t: "t \<notin> set (mg_turn_ids s)" using fresh by simp
    let ?s = "s\<lparr>mg_turn_ids := mg_turn_ids s @ [t]\<rparr>"
    have s: "executor_inv ?s" by (rule fresh_id_inv [OF inv])
    have new: "t \<notin> set (mg_interrupts s)" "t \<notin> fst ` set (mg_tools s)" using inv t by (auto simp: executor_inv_defs)
    have "executor_inv ((reject_early (?s\<lparr>mg_starting := False\<rparr>))
        \<lparr>mg_interrupts := mg_interrupts s @ [t], mg_holder := Some Discarding\<rparr>)"
      using reject_early_inv [OF s] none new by (auto simp: executor_inv_defs)
    then show ?thesis
      using h Some activate_turn_inv [OF s] none new by (simp add: turn_start_returned_def Let_def)
  qed
qed

lemma settle_turn_inv: "executor_inv s \<Longrightarrow> executor_inv (settle_turn s)"
proof -
  assume inv: "executor_inv s"
  have "executor_inv (s\<lparr>mg_holder := Some (Settling es)\<rparr>)" for es using inv by (simp add: executor_inv_defs)
  then show ?thesis
    using inv leave_lock_inv handle_executor_event_inv by (auto simp: settle_turn_def split: option.split holder.split list.split)
qed

lemma fail_holder_inv: "executor_inv s \<Longrightarrow> executor_inv (fail_holder e s)"
  using leave_lock_inv leave_lock_inv [OF reject_early_inv]
  by (auto simp: fail_holder_def quiet_executor_inv split: option.split holder.split)

lemma render_executor_inv:
  assumes "executor_inv s"
  shows "executor_inv (start_append g t q s)" "executor_inv (resume_append i s)" "executor_inv (fail_append i m s)"
    "executor_inv (mark_render_terminal r u' s)" "executor_inv (context_appended s)" "executor_inv (authorize_output g s)"
    "executor_inv (snd (claim_turn_id u s))" "executor_inv (snd (mark_render_started r u' s))"
    "executor_inv (s\<lparr>mg_output := x\<rparr>)" "executor_inv (remember_user_turn u g s)" "executor_inv (send_error m s)"
  by (rule executor_inv_cong [OF assms]; simp add: resume_append_def set_append_def drop_append_def take_render_def Let_def split: append_phase.split)+

lemma user_executor_inv:
  assumes "executor_inv s"
  shows "executor_inv (speech_started s)" "executor_inv (user_turn_interrupts t s)" "executor_inv (user_turn_done c s)"
    "executor_inv (text_received x s)" "executor_inv (interrupt_received s)"
  by (rule executor_inv_cong [OF assms]; simp add: speech_started_def user_turn_interrupts_def user_turn_done_def
      text_received_def interrupt_received_def Let_def split: option.split)+

lemma created_executor_inv:
  assumes "executor_inv s"
  shows "executor_inv (user_turn_created t s)" "executor_inv (assistant_turn_created t s)"
proof -
  note c = render_executor_inv(7) [OF assms, of t]
  have "executor_inv (s1\<lparr>mg_pending := None\<rparr>)" if "executor_inv s1" for s1
    by (rule executor_inv_cong [OF that]) simp_all
  then show "executor_inv (user_turn_created t s)"
    using c user_executor_inv(2) render_executor_inv(10) by (auto simp: user_turn_created_def split: prod.split option.split bool.split)
  show "executor_inv (assistant_turn_created t s)"
    using c render_executor_inv(6,8) quiet_executor_inv(5)
    by (auto simp: assistant_turn_created_def split: prod.split option.split bool.split dest!: arg_cong [of _ _ snd])
qed

lemma shut_down_inv: "executor_inv s \<Longrightarrow> executor_inv (shut_down s)"
proof -
  assume inv: "executor_inv s"
  let ?s = "s\<lparr>mg_interrupting := (if mg_turn s = None then mg_interrupting s else True)\<rparr>"
  have "executor_inv ?s" using inv by (simp add: executor_inv_defs)
  then show ?thesis
    by (rule executor_inv_cong) (simp_all add: shut_down_def)
qed

lemma managed_executor_inv: "executor_inv s \<Longrightarrow> managed_enabled e s \<Longrightarrow> executor_inv (managed_step e s)"
proof (cases e)
  case (UserControl c)
  assume "executor_inv s"
  then show ?thesis
    using created_executor_inv user_executor_inv(3) render_executor_inv(7)
    by (simp add: UserControl managed_user_control_def split: option.split)
next
  case (LockAcquired i)
  assume "executor_inv s"
  then show ?thesis by (simp add: LockAcquired acquire_lock_def enter_lock_inv quiet_executor_inv)
next
  case (BackendTerminal owned r t)
  assume "executor_inv s"
  then show ?thesis by (simp add: BackendTerminal backend_terminal_def render_executor_inv)
qed (simp_all add: user_executor_inv interrupt_returned_inv turn_start_returned_inv settle_turn_inv fail_holder_inv
    quiet_executor_inv executor_event_inv render_executor_inv created_executor_inv assistant_turn_done_def shut_down_inv
    del: managed_enabled.simps split: prod.split)

end
