(* ===== verification/Managed_Answers.thy ===== *)
theory Managed_Answers
  imports Managed_Safety "HOL-Library.Multiset"
begin

text \<open>
  A bridge-managed session over every interleaving: only the answer to the current speech is audible, each
  utterance gets at most one executor turn and one answer, an interrupted turn has no effect on the home, and
  renders never overlap.
\<close>

section \<open>One turn and one answer for each generation\<close>

text \<open>
  A generation waits to be started in at most one place, and once its turn was started it is in at most one
  place on its way to the voice provider.
\<close>

definition option_mset :: "'a option \<Rightarrow> 'a multiset" where
  "option_mset v = (case v of None \<Rightarrow> {#} | Some x \<Rightarrow> {#x#})"

definition request_tokens :: "turn_request \<Rightarrow> nat multiset" where
  "request_tokens r =
     (case r of
        StartTurn t g \<Rightarrow> {#g#}
      | InterruptTurn owner (Some (t, g)) \<Rightarrow> {#g#}
      | _ \<Rightarrow> {#})"

definition holder_early :: "holder option \<Rightarrow> nat multiset" where
  "holder_early h = (case h of Some (Interrupting r terminal) \<Rightarrow> request_tokens r | _ \<Rightarrow> {#})"

definition holder_late :: "holder option \<Rightarrow> nat multiset" where
  "holder_late h = (case h of Some (Starting x g) \<Rightarrow> {#g#} | _ \<Rightarrow> {#})"

definition queued_tokens :: "(nat \<times> string) option \<Rightarrow> nat multiset" where
  "queued_tokens q = option_mset (map_option fst q)"

definition append_late :: "append \<Rightarrow> nat multiset" where
  "append_late a = (case ap_phase a of AwaitSpeech f \<Rightarrow> {#} | _ \<Rightarrow> {#ap_generation a#})"

definition early :: "managed \<Rightarrow> nat multiset" where
  "early s =
     option_mset (mg_pending s) + mset (map snd (mg_user_turns s)) + sum_list (map request_tokens (mg_waiting s)) +
     holder_early (mg_holder s) + queued_tokens (mg_queued s) +
     sum_list (map (\<lambda>a. queued_tokens (ap_queued a)) (mg_appends s)) + mset (mg_starts s)"

definition late :: "managed \<Rightarrow> nat multiset" where
  "late s =
     holder_late (mg_holder s) + option_mset (mg_turn_generation s) + sum_list (map append_late (mg_appends s)) +
     mset (map fst (mg_speech s))"

definition token_inv :: "managed \<Rightarrow> bool" where
  "token_inv s \<longleftrightarrow>
     (\<forall>g. count (early s) g \<le> 1) \<and> (\<forall>g. count (late s) g \<le> 1) \<and>
     (\<forall>g \<in># early s. g \<le> mg_generation s) \<and> set_mset (late s) \<subseteq> set (mg_starts s)"

lemma option_mset_simps [simp]: "option_mset None = {#}" "option_mset (Some x) = {#x#}"
  by (simp_all add: option_mset_def)

lemma request_tokens_simps [simp]:
  "request_tokens (StartTurn t g) = {#g#}" "request_tokens (InterruptTurn owner None) = {#}"
  "request_tokens (InterruptTurn owner (Some (t, g))) = {#g#}" "request_tokens (ExpireTurn t g f) = {#}"
  "request_tokens (ShutdownTurn owner) = {#}"
  by (simp_all add: request_tokens_def)

lemma holder_tokens_simps [simp]:
  "holder_early None = {#}" "holder_early (Some (Interrupting r term)) = request_tokens r"
  "holder_early (Some (Starting x g)) = {#}" "holder_early (Some Discarding) = {#}" "holder_early (Some (Settling es)) = {#}"
  "holder_late None = {#}" "holder_late (Some (Interrupting r term)) = {#}"
  "holder_late (Some (Starting x g)) = {#g#}" "holder_late (Some Discarding) = {#}" "holder_late (Some (Settling es)) = {#}"
  by (simp_all add: holder_early_def holder_late_def)

lemma queued_tokens_simps [simp]: "queued_tokens None = {#}" "queued_tokens (Some (g, t)) = {#g#}"
  by (simp_all add: queued_tokens_def)

lemma append_late_simps [simp]:
  "append_late (a\<lparr>ap_phase := AwaitSpeech f\<rparr>) = {#}" "append_late (a\<lparr>ap_phase := AwaitQuiet\<rparr>) = {#ap_generation a#}"
  "append_late (a\<lparr>ap_phase := AwaitGate\<rparr>) = {#ap_generation a#}" "append_late (a\<lparr>ap_phase := AwaitRetired f\<rparr>) = {#ap_generation a#}"
  by (simp_all add: append_late_def)

text \<open>Sums over lists of which one element is removed or replaced.\<close>

lemma sum_list_remove:
  "i < length xs \<Longrightarrow> sum_list (map f xs) = sum_list (map f (take i xs @ drop (Suc i) xs)) + (f (xs ! i) :: 'a :: comm_monoid_add)"
  by (subst id_take_nth_drop [of i xs]) (simp_all add: ac_simps)

lemma sum_list_replace:
  "i < length xs \<Longrightarrow> sum_list (map f (xs[i := y])) + f (xs ! i) = sum_list (map f xs) + (f y :: 'a :: comm_monoid_add)"
  by (subst (2) id_take_nth_drop [of i xs]) (simp_all add: upd_conv_take_nth_drop ac_simps)

lemma mset_dict_set: "mset (map snd (dict_set m k v)) \<subseteq># mset (map snd m) + {#v#}"
  by (induction m k v rule: dict_set.induct) (auto intro: subset_mset.order_trans)

lemma mset_move_to_end: "mset (map snd (move_to_end m k)) \<subseteq># mset (map snd m)"
  by (induction m) (auto simp: move_to_end_def)

lemma mset_dict_pop_less: "mset (map snd (dict_pop m k)) \<subseteq># mset (map snd m)"
  by (simp add: dict_pop_def image_mset_subseteq_mono)

lemma mset_dict_pop: "map_of m k = Some v \<Longrightarrow> mset (map snd (dict_pop m k)) + {#v#} \<subseteq># mset (map snd m)"
proof (induction m)
  case (Cons p m)
  then show ?case using mset_dict_pop_less [of m k] by (cases p) (auto simp: dict_pop_def split: if_splits)
qed simp

lemma token_inv_count: "token_inv s \<Longrightarrow> count (early s) g \<le> 1" "token_inv s \<Longrightarrow> count (late s) g \<le> 1"
  by (simp_all add: token_inv_def)

lemma token_inv_bound: "token_inv s \<Longrightarrow> g \<in># early s \<Longrightarrow> g \<le> mg_generation s" "token_inv s \<Longrightarrow> g \<in># late s \<Longrightarrow> g \<in> set (mg_starts s)"
  by (auto simp: token_inv_def)

lemma token_less:
  assumes "token_inv s" "early s' \<subseteq># early s" "late s' \<subseteq># late s" "mg_starts s' = mg_starts s" "mg_generation s \<le> mg_generation s'"
  shows "token_inv s'"
  unfolding token_inv_def
proof (intro conjI allI ballI subsetI)
  fix g
  show "count (early s') g \<le> 1" "count (late s') g \<le> 1"
    using mset_subset_eq_count [OF assms(2)] mset_subset_eq_count [OF assms(3)] token_inv_count [OF assms(1)]
    by (meson le_trans)+
  show "g \<le> mg_generation s'" if "g \<in># early s'"
    using mset_subset_eqD [OF assms(2) that] token_inv_bound(1) [OF assms(1)] assms(5) by force
  show "g \<in> set (mg_starts s')" if "g \<in># late s'"
    using mset_subset_eqD [OF assms(3) that] token_inv_bound(2) [OF assms(1)] assms(4) by force
qed

lemma token_fresh:
  assumes "token_inv s" "early s' \<subseteq># early s + {#mg_generation s + 1#}" "late s' \<subseteq># late s" "mg_starts s' = mg_starts s"
    "mg_generation s' = mg_generation s + 1"
  shows "token_inv s'"
  unfolding token_inv_def
proof (intro conjI allI ballI subsetI)
  fix g
  have "mg_generation s + 1 \<notin># early s" using token_inv_bound(1) [OF assms(1), of "mg_generation s + 1"] by auto
  then have "count (early s) (mg_generation s + 1) = 0" by (simp add: count_eq_zero_iff)
  then show "count (early s') g \<le> 1"
    using mset_subset_eq_count [OF assms(2), of g] token_inv_count(1) [OF assms(1), of g] by (cases "g = mg_generation s + 1") simp_all
  show "count (late s') g \<le> 1"
    using mset_subset_eq_count [OF assms(3)] token_inv_count [OF assms(1)] by (meson le_trans)
  show "g \<le> mg_generation s'" if "g \<in># early s'"
    using mset_subset_eqD [OF assms(2) that] token_inv_bound(1) [OF assms(1), of g] assms(5) by auto
  show "g \<in> set (mg_starts s')" if "g \<in># late s'"
    using mset_subset_eqD [OF assms(3) that] token_inv_bound(2) [OF assms(1)] assms(4) by force
qed

lemma token_launch:
  assumes "token_inv s" "early s' \<subseteq># early s" "late s' \<subseteq># late s + {#g#}" "mg_starts s' = mg_starts s @ [g]"
    "mg_generation s' = mg_generation s"
  shows "token_inv s'"
  unfolding token_inv_def
proof (intro conjI allI ballI subsetI)
  have e: "count (early s') h \<le> 1" for h
    using mset_subset_eq_count [OF assms(2)] token_inv_count [OF assms(1)] by (meson le_trans)
  have "mset (mg_starts s @ [g]) \<subseteq># early s'" by (simp add: early_def assms(4))
  then have "count (mset (mg_starts s @ [g])) g \<le> 1" using e [of g] by (meson le_trans mset_subset_eq_count)
  then have "g \<notin># late s" using token_inv_bound(2) [OF assms(1), of g] by (auto simp: count_mset_0_iff)
  then have new: "count (late s) g = 0" by (simp add: count_eq_zero_iff)
  fix h
  show "count (early s') h \<le> 1" by (rule e)
  show "count (late s') h \<le> 1"
    using mset_subset_eq_count [OF assms(3), of h] token_inv_count(2) [OF assms(1), of h] new by (cases "h = g") simp_all
  show "h \<le> mg_generation s'" if "h \<in># early s'"
    using mset_subset_eqD [OF assms(2) that] token_inv_bound(1) [OF assms(1)] assms(5) by force
  show "h \<in> set (mg_starts s')" if "h \<in># late s'"
    using mset_subset_eqD [OF assms(3) that] token_inv_bound(2) [OF assms(1), of h] assms(4) by auto
qed

text \<open>A step that only moves tokens, apart from \<open>k\<close> that come from outside, and one that starts a turn.\<close>

definition moves :: "nat multiset \<Rightarrow> managed \<Rightarrow> managed \<Rightarrow> bool" where
  "moves k s s' \<longleftrightarrow>
     early s' \<subseteq># early s + k \<and> late s' \<subseteq># late s \<and> mg_starts s' = mg_starts s \<and> mg_generation s \<le> mg_generation s'"

definition launches :: "nat multiset \<Rightarrow> nat \<Rightarrow> managed \<Rightarrow> managed \<Rightarrow> bool" where
  "launches k g s s' \<longleftrightarrow>
     early s' \<subseteq># early s + k \<and> late s' \<subseteq># late s + {#g#} \<and> mg_starts s' = mg_starts s @ [g] \<and> mg_generation s' = mg_generation s"

lemmas move_defs = moves_def launches_def early_def late_def subseteq_mset_def

lemma moves_trans: "moves k s s1 \<Longrightarrow> moves l s1 s2 \<Longrightarrow> moves (k + l) s s2"
  by (fastforce simp: moves_def subseteq_mset_def intro: order_trans)

lemma moves_refl [simp]: "moves k s s"
  by (simp add: moves_def)

lemma moves_then: "moves k s s1 \<Longrightarrow> moves {#} s1 s2 \<Longrightarrow> moves k s s2"
  using moves_trans [of k s s1 "{#}" s2] by simp

lemma launch_turn_moves:
  "1 \<le> count k g + count (holder_early (mg_holder s)) g \<Longrightarrow> launches k g s (launch_turn x g s)"
  by (simp add: move_defs launch_turn_def)

lemma append_finished_moves: "moves (queued_tokens q) s (append_finished q s)"
  by (auto simp: append_finished_def move_defs request_lock_def split: option.split)

lemma early_append [simp]:
  "early (s\<lparr>mg_appends := mg_appends s @ [a]\<rparr>) = early s + queued_tokens (ap_queued a)"
  "late (s\<lparr>mg_appends := mg_appends s @ [a]\<rparr>) = late s + append_late a"
  by (simp_all add: early_def late_def ac_simps)

lemma start_append_moves:
  "early (start_append g t q s) \<subseteq># early s + queued_tokens q" "late (start_append g t q s) \<subseteq># late s + {#g#}"
  "mg_starts (start_append g t q s) = mg_starts s" "mg_generation (start_append g t q s) = mg_generation s"
  by (auto simp: start_append_def Let_def append_finished_def request_lock_def move_defs append_late_def split: option.split)

lemma forget_turn_tokens:
  "early s = early (forget_turn s) + queued_tokens (mg_queued s)" "late s = late (forget_turn s) + option_mset (mg_turn_generation s)"
  "mg_starts (forget_turn s) = mg_starts s" "mg_generation (forget_turn s) = mg_generation s"
  by (simp_all add: early_def late_def forget_turn_def ac_simps)

lemma complete_turn_moves: "moves {#} s (complete_turn p s)"
proof -
  note f = forget_turn_tokens [of s]
  have "moves {#} s (append_finished (mg_queued s) (forget_turn s))"
    "moves {#} s (append_finished (mg_queued s) (send_error m (forget_turn s)))" for m
    using append_finished_moves [of "mg_queued s" "forget_turn s"] append_finished_moves [of "mg_queued s" "send_error m (forget_turn s)"] f
    by (simp_all add: moves_def early_def late_def)
  moreover have "moves {#} s (fail_managed m (forget_turn s))" for m using f by (simp add: move_defs)
  moreover have "moves {#} s (start_append (mg_generation s) t (mg_queued s) (forget_turn s))"
    if "mg_turn_generation s = Some (mg_generation s)" for t
    using start_append_moves [of "mg_generation s" t "mg_queued s" "forget_turn s"] f that by (simp add: moves_def)
  ultimately show ?thesis by (simp add: complete_turn_def Let_def split: option.split)
qed

lemma handle_executor_event_moves: "moves {#} s (handle_executor_event e s)"
  using complete_turn_moves by (simp add: handle_executor_event_def Let_def) (simp add: move_defs)

lemma executor_event_moves: "moves {#} s (executor_event e s)"
  using handle_executor_event_moves by (simp add: executor_event_def split: option.split) (simp add: move_defs)


lemma set_append_tokens:
  assumes "i < length (mg_appends s)"
  shows "early (set_append i ph s) = early s"
    "late (set_append i ph s) + append_late (mg_appends s ! i) = late s + append_late ((mg_appends s ! i)\<lparr>ap_phase := ph\<rparr>)"
proof -
  let ?b = "(mg_appends s ! i)\<lparr>ap_phase := ph\<rparr>"
  have "sum_list (map (\<lambda>a. queued_tokens (ap_queued a)) ((mg_appends s)[i := ?b])) = sum_list (map (\<lambda>a. queued_tokens (ap_queued a)) (mg_appends s))"
    using sum_list_replace [OF assms, of "\<lambda>a. queued_tokens (ap_queued a)" ?b] by simp
  then show "early (set_append i ph s) = early s" by (simp add: early_def set_append_def)
  have "late (set_append i ph s) + append_late (mg_appends s ! i) =
     holder_late (mg_holder s) + option_mset (mg_turn_generation s) + mset (map fst (mg_speech s)) +
       (sum_list (map append_late ((mg_appends s)[i := ?b])) + append_late (mg_appends s ! i))"
    by (simp add: late_def set_append_def ac_simps)
  then show "late (set_append i ph s) + append_late (mg_appends s ! i) = late s + append_late ?b"
    unfolding sum_list_replace [OF assms] by (simp add: late_def ac_simps)
qed

lemma drop_append_tokens:
  assumes "i < length (mg_appends s)"
  shows "early s = early (drop_append i s) + queued_tokens (ap_queued (mg_appends s ! i))"
    "late s = late (drop_append i s) + append_late (mg_appends s ! i)"
  using sum_list_remove [OF assms, of "\<lambda>a. queued_tokens (ap_queued a)"] sum_list_remove [OF assms, of append_late]
  by (simp_all add: early_def late_def drop_append_def ac_simps)

lemma drop_append_moves: "i < length (mg_appends s) \<Longrightarrow> moves {#} s (append_finished (ap_queued (mg_appends s ! i)) (drop_append i s))"
  using drop_append_tokens [of i s] append_finished_moves [of "ap_queued (mg_appends s ! i)" "drop_append i s"]
  by (auto simp: moves_def intro: subset_mset.order_trans)

lemma set_append_moves:
  assumes "i < length (mg_appends s)" "ap_phase (mg_appends s ! i) \<noteq> AwaitSpeech f" "ph \<in> {AwaitQuiet, AwaitGate}"
    "\<forall>f. ap_phase (mg_appends s ! i) \<noteq> AwaitSpeech f"
  shows "moves {#} s (set_append i ph s)"
proof -
  have "append_late (mg_appends s ! i) = append_late ((mg_appends s ! i)\<lparr>ap_phase := ph\<rparr>)"
    using assms by (auto simp: append_late_def split: append_phase.split)
  then show ?thesis using set_append_tokens [OF assms(1), of ph] by (simp add: moves_def set_append_def)
qed

lemma speak_moves:
  assumes "i < length (mg_appends s)" "ap_phase (mg_appends s ! i) = AwaitGate"
  shows "moves {#} s (set_append i (AwaitSpeech f) (take_render (mg_appends s ! i) s))"
proof -
  let ?a = "mg_appends s ! i"
  let ?s = "take_render ?a s"
  have t: "early ?s = early s" "late ?s = late s + {#ap_generation ?a#}" "mg_appends ?s = mg_appends s"
    by (simp_all add: early_def late_def take_render_def)
  have "append_late ?a = {#ap_generation ?a#}" by (simp add: append_late_def assms(2))
  then have "late (set_append i (AwaitSpeech f) ?s) = late s" "early (set_append i (AwaitSpeech f) ?s) = early s"
    using set_append_tokens [of i ?s "AwaitSpeech f"] assms(1) t by simp_all
  then show ?thesis by (simp add: moves_def set_append_def take_render_def)
qed

lemma resume_append_moves: "i < length (mg_appends s) \<Longrightarrow> moves {#} s (resume_append i s)"
  using drop_append_moves [of i s] speak_moves [of i s] set_append_moves [of i s]
  by (auto simp: resume_append_def Let_def split: append_phase.split)

lemma fail_append_moves: "i < length (mg_appends s) \<Longrightarrow> moves {#} s (fail_append i m s)"
proof -
  assume i: "i < length (mg_appends s)"
  have "moves {#} s (fail_managed m (drop_append i s))"
    using drop_append_tokens [OF i] by (simp add: moves_def early_def late_def) 
  moreover have "moves {#} (fail_managed m (drop_append i s)) (fail_append i m s)"
    by (simp add: move_defs fail_append_def Let_def drop_append_def fail_managed_def release_render_def split: append_phase.split)
  ultimately show ?thesis by (rule moves_then)
qed

section \<open>Under the lock\<close>

lemma mset_drop_less: "mset (drop n xs) \<subseteq># mset xs"
  by (metis append_take_drop_id mset_append mset_subset_eq_add_right)

lemma remember_user_turn_moves: "moves {#g#} s (remember_user_turn t g s)"
proof -
  have "mset (drop n (map snd (move_to_end (dict_set (mg_user_turns s) t g) t))) \<subseteq># mset (map snd (mg_user_turns s)) + {#g#}" for n
    by (rule subset_mset.order_trans [OF mset_drop_less subset_mset.order_trans [OF mset_move_to_end mset_dict_set]])
  then show ?thesis by (auto simp: moves_def early_def late_def remember_user_turn_def Let_def drop_map ac_simps)
qed

lemma request_done_moves: "moves (request_tokens r) s (request_done r s)"
proof -
  have "moves k s (fail_managed m s)" for k m by (simp add: move_defs)
  then show ?thesis using remember_user_turn_moves by (auto simp: request_done_def split: turn_request.split option.split)
qed

lemma interrupt_turn_moves: "mg_holder s = None \<Longrightarrow> moves (request_tokens r) s (interrupt_turn r t s)"
  by (simp add: move_defs interrupt_turn_def)

lemma enter_lock_moves:
  assumes "mg_holder s = None"
  shows "moves (request_tokens r) s (enter_lock r s) \<or> (\<exists>g. launches (request_tokens r) g s (enter_lock r s))"
proof (cases r)
  case (StartTurn x g)
  have "moves {#g#} s (s\<lparr>mg_queued := Some (g, x)\<rparr>)" by (simp add: move_defs)
  then show ?thesis
    using StartTurn launch_turn_moves [of "{#g#}" g s x] interrupt_turn_moves [OF assms, of r]
    by (auto simp: enter_lock_def split: option.split)
next
  case (InterruptTurn owner remembered)
  then show ?thesis
    using request_done_moves [of r s] interrupt_turn_moves [OF assms, of r] by (simp add: enter_lock_def split: option.split)
qed (use assms in \<open>auto simp: enter_lock_def move_defs begin_background_generation_def\<close>)

lemma acquire_lock_moves: "moves {#} s (acquire_lock i s) \<or> (\<exists>g. launches {#} g s (acquire_lock i s))"
proof (cases "i < length (mg_waiting s) \<and> mg_holder s = None")
  case True
  let ?r = "mg_waiting s ! i"
  let ?s = "s\<lparr>mg_waiting := take i (mg_waiting s) @ drop (Suc i) (mg_waiting s)\<rparr>"
  have t: "early s = early ?s + request_tokens ?r" "late s = late ?s" "mg_starts s = mg_starts ?s" "mg_generation s = mg_generation ?s"
    using sum_list_remove [of i "mg_waiting s" request_tokens] True by (simp_all add: early_def late_def ac_simps)
  have "acquire_lock i s = enter_lock ?r ?s" using True by (simp add: acquire_lock_def)
  then show ?thesis using enter_lock_moves [of ?s ?r] True unfolding moves_def launches_def t by simp
qed (auto simp: acquire_lock_def)

lemma leave_lock_tokens: "early s = early (leave_lock s) + holder_early (mg_holder s)" "late s = late (leave_lock s) + holder_late (mg_holder s)"
  by (simp_all add: early_def late_def leave_lock_def ac_simps)

lemma leave_lock_moves: "moves {#} s (leave_lock s)"
  using leave_lock_tokens [of s] by (simp add: moves_def)

lemma interrupt_returned_moves: "moves {#} s (interrupt_returned s) \<or> (\<exists>g. launches {#} g s (interrupt_returned s))"
proof (cases "\<exists>r terminal. mg_holder s = Some (Interrupting r terminal)")
  case False
  then show ?thesis by (auto simp: interrupt_returned_def split: option.split holder.split)
next
  case True
  then obtain r terminal where h: "mg_holder s = Some (Interrupting r terminal)" by blast
  have "moves {#} s (request_done r (leave_lock s))"
    using request_done_moves [of r "leave_lock s"] leave_lock_tokens [of s] h by (simp add: moves_def)
  moreover have "launches {#} g s (launch_turn x g s)" if "r = StartTurn x g" for x g
    using launch_turn_moves [of "{#}" g s x] h that by simp
  ultimately show ?thesis
    using h leave_lock_moves by (cases r) (auto simp: interrupt_returned_def)
qed

lemma reject_early_moves: "moves {#} s (reject_early (s\<lparr>mg_starting := False\<rparr>))"
  by (simp add: move_defs)

lemma fail_managed_moves: "moves {#} s (fail_managed m s)"
  by (simp add: move_defs)

lemma turn_start_returned_moves: "moves {#} s (turn_start_returned response s)"
proof (cases "\<exists>x g. mg_holder s = Some (Starting x g)")
  case False
  then show ?thesis by (auto simp: turn_start_returned_def split: option.split holder.split)
next
  case True
  then obtain x g where h: "mg_holder s = Some (Starting x g)" by blast
  have a: "moves {#} s (activate_turn t g (s\<lparr>mg_turn_ids := ids\<rparr>))" for t ids
    by (simp add: move_defs activate_turn_def h)
  have d: "moves {#} s ((reject_early (s\<lparr>mg_turn_ids := ids, mg_starting := False\<rparr>))\<lparr>mg_interrupts := ts, mg_holder := Some Discarding\<rparr>)" for ids ts
    by (simp add: move_defs h)
  have f: "moves {#} s (fail_managed m (leave_lock (reject_early (s\<lparr>mg_starting := False\<rparr>))))" for m
    by (rule moves_then [OF moves_then [OF reject_early_moves leave_lock_moves] fail_managed_moves])
  show ?thesis using a d f h by (cases "g = mg_generation s") (auto simp: turn_start_returned_def Let_def split: option.split)
qed

lemma settle_turn_moves: "moves {#} s (settle_turn s)"
proof -
  have "moves {#} s (s\<lparr>mg_holder := Some (Settling es)\<rparr>)" for es by (simp add: move_defs)
  then show ?thesis
    using moves_then [OF _ handle_executor_event_moves] leave_lock_moves
    by (auto simp: settle_turn_def split: option.split holder.split list.split)
qed

lemma fail_holder_moves: "moves {#} s (fail_holder e s)"
  using moves_then [OF moves_then [OF reject_early_moves leave_lock_moves] fail_managed_moves]
    moves_then [OF leave_lock_moves fail_managed_moves]
  by (auto simp: fail_holder_def split: option.split holder.split)

section \<open>Every step\<close>

lemma begin_tokens [simp]:
  "early (begin_background_generation s) = early s" "late (begin_background_generation s) = late s"
  by (simp_all add: early_def late_def)

definition advances :: "managed \<Rightarrow> managed \<Rightarrow> bool" where
  "advances s s' \<longleftrightarrow>
     early s' \<subseteq># early s + {#mg_generation s + 1#} \<and> late s' \<subseteq># late s \<and> mg_starts s' = mg_starts s \<and>
     mg_generation s' = mg_generation s + 1"

lemma user_speech_advances:
  "mg_pending s = None \<Longrightarrow> advances s (speech_started s)" "advances s (user_turn_interrupts t s)" "advances s (text_received x s)"
  by (simp_all add: advances_def speech_started_def user_turn_interrupts_def text_received_def request_lock_def early_def
      late_def Let_def subseteq_mset_def begin_background_generation_def cancel_render_def)

lemma user_turn_created_moves: "moves {#} s (user_turn_created t s) \<or> advances s (user_turn_created t s)"
proof -
  obtain b s1 where c: "claim_turn_id t s = (b, s1)" by fastforce
  then have s1: "s1 = snd (claim_turn_id t s)" by simp
  then have t: "early s1 = early s" "late s1 = late s" "mg_starts s1 = mg_starts s" "mg_generation s1 = mg_generation s" "mg_pending s1 = mg_pending s"
    by (simp_all add: early_def late_def)
  have "moves {#} s (remember_user_turn t g (s1\<lparr>mg_pending := None\<rparr>))" if "mg_pending s = Some g" for g
    using remember_user_turn_moves [of g "s1\<lparr>mg_pending := None\<rparr>" t] that
    by (simp add: moves_def early_def late_def s1 ac_simps)
  moreover have "advances s (user_turn_interrupts t s1)"
    using user_speech_advances(2) [of s1 t] by (simp add: advances_def t)
  moreover have "moves {#} s s1" using t by (simp add: moves_def)
  ultimately show ?thesis using c t(5) by (cases b) (simp_all add: user_turn_created_def split: option.split)
qed

lemma user_turn_done_moves: "moves {#} s (user_turn_done c s)"
proof (cases "rdc_turn_id c")
  case (Some t)
  have "Suc (count (image_mset snd (mset (dict_pop (mg_user_turns s) t))) g) \<le> count (image_mset snd (mset (mg_user_turns s))) g"
    if "map_of (mg_user_turns s) t = Some g" for g
    using mset_subset_eq_count [OF mset_dict_pop [OF that], of g] by simp
  then show ?thesis
    using mset_dict_pop_less [of "mg_user_turns s" t] Some
    by (auto simp: user_turn_done_def Let_def move_defs request_lock_def split: option.split)
qed (simp add: user_turn_done_def)

lemma render_moves:
  "moves {#} s (context_appended s)" "moves {#} s (backend_terminal owned r t s)" "moves {#} s (snd (claim_turn_id u s))"
  by (simp_all add: move_defs backend_terminal_def)

lemma assistant_turn_created_moves: "moves {#} s (assistant_turn_created t s)"
proof -
  have 1: "moves {#} s (snd (mark_render_started r u s))" "moves {#} s (authorize_output g s)" "moves {#} s (cancel_render s)" for r u g s
    by (simp_all add: move_defs)
  obtain b s1 where c: "claim_turn_id t s = (b, s1)" by fastforce
  obtain d s2 where m: "mark_render_started None (Some t) s1 = (d, s2)" by fastforce
  have "moves {#} s s1" using render_moves(3) [of s t] c by simp
  moreover have "moves {#} s s2" using moves_then [OF \<open>moves {#} s s1\<close> 1(1) [of s1 None "Some t"]] m by simp
  ultimately show ?thesis
    using c m 1(2,3) by (cases b; cases d) (auto simp: assistant_turn_created_def moves_then split: option.split)
qed

lemma request_fails_moves: "moves {#} s (s\<lparr>mg_waiting := take i (mg_waiting s) @ drop (Suc i) (mg_waiting s)\<rparr>)"
proof (cases "i < length (mg_waiting s)")
  case True
  then show ?thesis
    using sum_list_remove [OF True, of request_tokens] by (simp add: moves_def early_def late_def ac_simps)
qed (simp add: moves_def early_def late_def)

lemma interrupt_received_tokens:
  "token_inv s \<Longrightarrow> token_inv (interrupt_received s)" "token_inv s \<Longrightarrow> token_inv (shut_down s)"
proof -
  assume t: "token_inv s"
  show "token_inv (interrupt_received s)" "token_inv (shut_down s)"
    by (rule token_fresh [OF t]; simp add: interrupt_received_def shut_down_def request_lock_def early_def late_def
        begin_background_generation_def cancel_render_def subseteq_mset_def)+
qed

lemma token_inv_moves: "token_inv s \<Longrightarrow> moves {#} s s' \<Longrightarrow> token_inv s'"
  by (rule token_less [of s]) (simp_all add: moves_def)

lemma token_inv_launches: "token_inv s \<Longrightarrow> launches {#} g s s' \<Longrightarrow> token_inv s'"
  by (rule token_launch [of s _ g]) (simp_all add: launches_def)

lemma token_inv_advances: "token_inv s \<Longrightarrow> advances s s' \<Longrightarrow> token_inv s'"
  by (rule token_fresh [of s]) (simp_all add: advances_def)

lemma managed_token_inv:
  assumes "token_inv s" "managed_enabled e s"
  shows "token_inv (managed_step e s)"
proof (cases e)
  case SpeechStarted
  then show ?thesis using assms(1) token_inv_advances user_speech_advances(1) by (cases "mg_pending s") (auto simp: speech_started_def)
next
  case (UserControl c)
  have "token_inv (user_turn_created t s)" for t
    using user_turn_created_moves [of s t] token_inv_moves [OF assms(1)] token_inv_advances [OF assms(1)] by blast
  then show ?thesis
    using UserControl assms(1) token_inv_moves [OF assms(1) user_turn_done_moves] token_inv_moves [OF assms(1) render_moves(3)]
    by (simp add: managed_user_control_def split: option.split)
next
  case (TextReceived x)
  then show ?thesis using token_inv_advances [OF assms(1) user_speech_advances(3)] by simp
next
  case (LockAcquired i)
  then show ?thesis using acquire_lock_moves [of s i] token_inv_moves [OF assms(1)] token_inv_launches [OF assms(1)] by auto
next
  case InterruptReturned
  then show ?thesis using interrupt_returned_moves [of s] token_inv_moves [OF assms(1)] token_inv_launches [OF assms(1)] by auto
next
  case (WatchdogWakes i)
  have "moves {#} s (request_lock (ExpireTurn t g f) s)" for t g f by (simp add: move_defs request_lock_def)
  then show ?thesis using WatchdogWakes token_inv_moves [OF assms(1)] by (simp split: prod.split)
qed (use assms interrupt_received_tokens token_inv_moves [OF assms(1)] in
      \<open>simp_all add: turn_start_returned_moves settle_turn_moves fail_holder_moves request_fails_moves executor_event_moves
        resume_append_moves fail_append_moves render_moves assistant_turn_created_moves assistant_turn_done_def
        del: managed_enabled.simps(1)\<close>)

section \<open>The slot of the voice provider\<close>

text \<open>
  An answer to the current speech waits for its turn only while the slot is empty, or for the render that
  holds the slot to be retired.
\<close>

definition waits_for_slot :: "append \<Rightarrow> bool" where
  "waits_for_slot a \<longleftrightarrow> ap_phase a = AwaitQuiet \<or> ap_phase a = AwaitGate"

definition append_ok :: "managed \<Rightarrow> append \<Rightarrow> bool" where
  "append_ok s a \<longleftrightarrow>
     (ap_generation a = mg_generation s \<longrightarrow>
        (waits_for_slot a \<longrightarrow> mg_render s = None) \<and>
        (\<forall>f. ap_phase a = AwaitRetired f \<longrightarrow> mg_render s \<noteq> None \<longrightarrow> mg_retired s = Some f)) \<and>
     (\<forall>f. ap_phase a = AwaitSpeech f \<longrightarrow> f < mg_next_future s)"

definition slot_inv :: "managed \<Rightarrow> bool" where
  "slot_inv s \<longleftrightarrow>
     list_all (append_ok s) (mg_appends s) \<and> (mg_render s \<noteq> None \<longrightarrow> mg_retired s \<noteq> None) \<and>
     (\<forall>f. mg_retired s = Some f \<longrightarrow> f < mg_next_future s \<and> f \<notin> set (mg_renders_done s)) \<and>
     list_all (\<lambda>f. f < mg_next_future s) (mg_renders_done s)"

lemma slot_inv_cong:
  assumes "slot_inv s" "set (mg_appends s') \<subseteq> set (mg_appends s)" "mg_generation s' = mg_generation s" "mg_render s' = mg_render s"
    "mg_retired s' = mg_retired s" "mg_renders_done s' = mg_renders_done s" "mg_next_future s \<le> mg_next_future s'"
  shows "slot_inv s'"
proof -
  have "append_ok s' a" if "append_ok s a" for a using that assms(3-7) by (auto simp: append_ok_def)
  moreover have "f < mg_next_future s'" if "f < mg_next_future s" for f using that assms(7) by simp
  ultimately show ?thesis using assms(1,2,4-6) unfolding slot_inv_def list_all_iff by (simp add: subset_iff)
qed

lemma slot_inv_retire:
  assumes "slot_inv s" "set (mg_appends s') \<subseteq> set (mg_appends s)" "mg_generation s' = mg_generation s" "mg_render s' = None"
    "mg_retired s' = None" "list_all (\<lambda>f. f < mg_next_future s) (mg_renders_done s')" "mg_next_future s' = mg_next_future s"
  shows "slot_inv s'"
proof -
  have "append_ok s' a" if "append_ok s a" for a using that assms(3-7) by (auto simp: append_ok_def)
  then show ?thesis using assms unfolding slot_inv_def list_all_iff by (simp add: subset_iff)
qed

lemma pending_append_is_old:
  assumes "token_inv s" "a \<in> set (mg_appends s)" "\<forall>f. ap_phase a \<noteq> AwaitSpeech f"
  shows "ap_generation a \<le> mg_generation s"
proof -
  have "ap_generation a \<in># append_late a" using assms(3) by (simp add: append_late_def split: append_phase.split)
  then have "ap_generation a \<in># late s" using assms(2) by (auto simp: late_def set_mset_sum_list)
  then have "ap_generation a \<in> set (mg_starts s)" by (rule token_inv_bound(2) [OF assms(1)])
  then show ?thesis by (intro token_inv_bound(1) [OF assms(1)]) (simp add: early_def)
qed

lemma slot_inv_advance:
  assumes "slot_inv s" "token_inv s" "mg_appends s' = mg_appends s" "mg_generation s' = mg_generation s + 1" "mg_render s' = mg_render s"
    "mg_retired s' = mg_retired s" "mg_renders_done s' = mg_renders_done s" "mg_next_future s' = mg_next_future s"
  shows "slot_inv s'"
proof -
  have "append_ok s' a" if "a \<in> set (mg_appends s')" for a
    using that assms(1,3,4,8) pending_append_is_old [OF assms(2), of a]
    by (force simp: append_ok_def slot_inv_def waits_for_slot_def list_all_iff)
  then show ?thesis using assms unfolding slot_inv_def list_all_iff by simp
qed

text \<open>Two answers to one speech never wait together.\<close>

lemma answers_are_unique:
  assumes "token_inv s" "i < length (mg_appends s)" "j < length (mg_appends s)" "i \<noteq> j"
    "ap_generation (mg_appends s ! i) = ap_generation (mg_appends s ! j)" "\<forall>f. ap_phase (mg_appends s ! i) \<noteq> AwaitSpeech f"
  shows "\<exists>f. ap_phase (mg_appends s ! j) = AwaitSpeech f"
proof (rule ccontr)
  let ?g = "ap_generation (mg_appends s ! i)"
  let ?rest = "take i (mg_appends s) @ drop (Suc i) (mg_appends s)"
  assume "\<not> ?thesis"
  then have late: "append_late (mg_appends s ! i) = {#?g#}" "append_late (mg_appends s ! j) = {#?g#}"
    using assms(5,6) by (auto simp: append_late_def split: append_phase.split)
  have "mg_appends s ! j \<in> set ?rest"
    using assms(3,4) nth_mem [of j "take i (mg_appends s)"] nth_mem [of "j - Suc i" "drop (Suc i) (mg_appends s)"]
    by (cases "j < i") auto
  then have "?g \<in># sum_list (map append_late ?rest)" using late(2) by (force simp: set_mset_sum_list)
  then have "1 \<le> count (sum_list (map append_late ?rest)) ?g" by (simp add: Suc_le_eq)
  then have "2 \<le> count (sum_list (map append_late (mg_appends s))) ?g"
    using sum_list_remove [OF assms(2), of append_late] late(1) by simp
  then show False using token_inv_count(2) [OF assms(1), of ?g] by (simp add: late_def)
qed

lemma slot_release: "slot_inv s \<Longrightarrow> slot_inv (release_render s)"
  by (rule slot_inv_retire [of s]) (auto simp: release_render_def slot_inv_def list_all_iff split: option.split)

lemma slot_retire: "slot_inv s \<Longrightarrow> slot_inv (maybe_retire_render s)"
  by (simp add: maybe_retire_render_def slot_release)

lemma slot_quiet:
  assumes "slot_inv s"
  shows "slot_inv (append_finished q s)" "slot_inv (send_error m s)" "slot_inv (fail_managed m s)" "slot_inv (forget_turn s)"
    "slot_inv (cancel_render s)" "slot_inv (drop_append i s)" "slot_inv (request_lock r s)" "slot_inv (request_done r s)"
    "slot_inv (leave_lock s)" "slot_inv (launch_turn x g s)" "slot_inv (interrupt_turn r t s)" "slot_inv (reject_tool e s)"
    "slot_inv (remember_agent_message p b s)" "slot_inv (authorize_output g s)" "slot_inv (snd (claim_turn_id t s))"
    "slot_inv (snd (mark_render_started u v s))" "slot_inv (reject_early (s\<lparr>mg_starting := False\<rparr>))" "slot_inv (activate_turn t g s)"
    "slot_inv (user_turn_done c s)" "slot_inv (remember_user_turn t g s)" "slot_inv (s\<lparr>mg_holder := h\<rparr>)" "slot_inv (s\<lparr>mg_queued := qd\<rparr>)"
    "slot_inv (s\<lparr>mg_early := es\<rparr>)" "slot_inv (s\<lparr>mg_turn_ids := ids\<rparr>)" "slot_inv (s\<lparr>mg_waiting := w\<rparr>)" "slot_inv (s\<lparr>mg_output := out\<rparr>)"
    "slot_inv (s\<lparr>mg_terminal_seen := b\<rparr>)" "slot_inv (s\<lparr>mg_ack := b\<rparr>)" "slot_inv (s\<lparr>mg_pending := n\<rparr>)" "slot_inv (s\<lparr>mg_interrupts := ts\<rparr>)"
    "slot_inv (s\<lparr>mg_had_tool := b, mg_tools := tools\<rparr>)"
  by (rule slot_inv_cong [OF assms]; simp add: drop_append_def set_take_subset set_drop_subset interrupt_turn_def launch_turn_def activate_turn_def user_turn_done_def Let_def split: option.split)+

lemma append_ok_appends [simp]: "append_ok (s\<lparr>mg_appends := as\<rparr>) = append_ok s"
  by (simp add: append_ok_def fun_eq_iff)

lemma slot_add:
  assumes "slot_inv s" "waits_for_slot a \<longrightarrow> mg_render s = None" "\<forall>f. ap_phase a = AwaitRetired f \<longrightarrow> mg_retired s = Some f"
    "\<forall>f. ap_phase a \<noteq> AwaitSpeech f"
  shows "slot_inv (s\<lparr>mg_appends := mg_appends s @ [a]\<rparr>)"
  using assms by (simp add: slot_inv_def) (simp add: append_ok_def)

lemma slot_start_append: "slot_inv s \<Longrightarrow> slot_inv (start_append g t q s)"
proof -
  assume inv: "slot_inv s"
  have "slot_inv ((cancel_render s)\<lparr>mg_appends := mg_appends (cancel_render s) @ [a]\<rparr>)"
    if "ap_phase a = AwaitRetired f" "mg_retired s = Some f" for a f
    by (rule slot_add) (use that inv in \<open>simp_all add: slot_quiet waits_for_slot_def\<close>)
  moreover have "slot_inv (s\<lparr>mg_appends := mg_appends s @ [a]\<rparr>)" if "ap_phase a = AwaitQuiet" "mg_render s = None" for a
    by (rule slot_add) (use that inv in simp_all)
  ultimately show ?thesis using inv by (simp add: start_append_def Let_def slot_quiet split: option.split)
qed

lemma slot_complete_turn: "slot_inv s \<Longrightarrow> slot_inv (complete_turn p s)"
proof -
  assume inv: "slot_inv s"
  note f = slot_quiet(4) [OF inv]
  show ?thesis
    using slot_quiet(1) [OF slot_quiet(2) [OF f]] slot_quiet(1,3) [OF f] slot_start_append [OF f] inv
    by (simp add: complete_turn_def Let_def split: option.split)
qed

lemma slot_handle: "slot_inv s \<Longrightarrow> slot_inv (handle_executor_event e s)"
  by (simp add: handle_executor_event_def Let_def slot_quiet slot_complete_turn)

lemma slot_executor_event: "slot_inv s \<Longrightarrow> slot_inv (executor_event e s)"
  by (simp add: executor_event_def slot_quiet slot_handle split: option.split)

lemma slot_set:
  assumes "slot_inv s" "append_ok s ((mg_appends s ! i)\<lparr>ap_phase := ph\<rparr>)"
  shows "slot_inv (set_append i ph s)"
proof -
  have "append_ok (set_append i ph s) a" if "append_ok s a" for a using that by (simp add: append_ok_def set_append_def)
  then show ?thesis
    using assms set_update_subset_insert [of "mg_appends s" i "(mg_appends s ! i)\<lparr>ap_phase := ph\<rparr>"]
    by (auto simp: slot_inv_def set_append_def list_all_iff)
qed

lemma slot_speak:
  assumes inv: "slot_inv s" and tok: "token_inv s" and i: "i < length (mg_appends s)"
    and ph: "ap_phase (mg_appends s ! i) = AwaitGate" and g: "ap_generation (mg_appends s ! i) = mg_generation s"
  shows "slot_inv (set_append i (AwaitSpeech (mg_next_future s)) (take_render (mg_appends s ! i) s))"
proof -
  let ?s = "set_append i (AwaitSpeech (mg_next_future s)) (take_render (mg_appends s ! i) s)"
  have "append_ok ?s (mg_appends ?s ! j)" if j: "j < length (mg_appends s)" for j
  proof (cases "j = i")
    case True
    then show ?thesis using i by (simp add: append_ok_def set_append_def take_render_def waits_for_slot_def)
  next
    case False
    have "\<exists>f. ap_phase (mg_appends s ! j) = AwaitSpeech f" if "ap_generation (mg_appends s ! j) = mg_generation s"
      by (rule answers_are_unique [OF tok i j]) (use that g ph False in auto)
    moreover have "append_ok s (mg_appends s ! j)" using inv j by (simp add: slot_inv_def list_all_length)
    ultimately show ?thesis
      using False by (auto simp: append_ok_def set_append_def take_render_def waits_for_slot_def less_Suc_eq)
  qed
  then have "list_all (append_ok ?s) (mg_appends ?s)" by (simp add: list_all_length set_append_def take_render_def)
  then show ?thesis using inv by (auto simp: slot_inv_def set_append_def take_render_def list_all_iff less_Suc_eq)
qed

lemma slot_resume:
  assumes inv: "slot_inv s" and tok: "token_inv s" and i: "i < length (mg_appends s)"
  shows "slot_inv (resume_append i s)"
proof -
  let ?a = "mg_appends s ! i"
  have ok: "append_ok s ?a" using inv i by (simp add: slot_inv_def list_all_length)
  have "slot_inv (set_append i AwaitQuiet s)" if "ap_phase ?a = AwaitRetired f" "f \<in> set (mg_renders_done s)" for f
    by (rule slot_set [OF inv]) (use ok inv that in \<open>auto simp: append_ok_def slot_inv_def\<close>)
  moreover have "slot_inv (set_append i AwaitGate s)" if "ap_phase ?a = AwaitQuiet"
    by (rule slot_set [OF inv]) (use ok that in \<open>auto simp: append_ok_def waits_for_slot_def\<close>)
  ultimately show ?thesis
    using slot_speak [OF inv tok i] slot_quiet(1) [OF slot_quiet(6) [OF inv]] inv
    by (simp add: resume_append_def Let_def split: append_phase.split)
qed

lemma slot_fail:
  assumes inv: "slot_inv s" and i: "i < length (mg_appends s)"
  shows "slot_inv (fail_append i m s)"
proof -
  have "f < mg_next_future s" if "ap_phase (mg_appends s ! i) = AwaitSpeech f" for f
    using inv i that by (simp add: slot_inv_def append_ok_def list_all_length)
  then have "slot_inv ((release_render s)\<lparr>mg_renders_done := mg_renders_done s @ [f]\<rparr>)"
    if "ap_phase (mg_appends s ! i) = AwaitSpeech f" for f
    by (rule_tac slot_inv_retire [OF inv]) (use that inv in \<open>auto simp: release_render_def slot_inv_def list_all_iff\<close>)
  then show ?thesis using inv by (auto simp: fail_append_def Let_def slot_quiet split: append_phase.split)
qed

lemma slot_begin: "slot_inv s \<Longrightarrow> token_inv s \<Longrightarrow> slot_inv (begin_background_generation s)"
  by (rule slot_inv_advance [of s]) (simp_all add: begin_background_generation_def)

lemma slot_user:
  assumes "slot_inv s" "token_inv s"
  shows "slot_inv (speech_started s)" "slot_inv (user_turn_interrupts t s)" "slot_inv (text_received x s)"
    "slot_inv (interrupt_received s)" "slot_inv (shut_down s)"
proof -
  have "slot_inv (speech_started s)" if "mg_pending s = None"
    by (rule slot_inv_advance [OF assms]) (simp_all add: that speech_started_def begin_background_generation_def Let_def)
  then show "slot_inv (speech_started s)" using assms(1) by (cases "mg_pending s") (simp_all add: speech_started_def)
  show "slot_inv (user_turn_interrupts t s)" "slot_inv (text_received x s)" "slot_inv (interrupt_received s)" "slot_inv (shut_down s)"
    by (rule slot_inv_advance [OF assms]; simp add: begin_background_generation_def Let_def user_turn_interrupts_def
        text_received_def interrupt_received_def shut_down_def)+
qed

lemma slot_claim:
  assumes "slot_inv s" "token_inv s"
  shows "slot_inv (user_turn_created t s)" "slot_inv (assistant_turn_created t s)"
proof -
  obtain b s1 where c: "claim_turn_id t s = (b, s1)" by fastforce
  then have s1: "slot_inv s1" "token_inv s1"
    using slot_quiet(15) [OF assms(1), of t] token_inv_moves [OF assms(2) render_moves(3), of t] by simp_all
  then show "slot_inv (user_turn_created t s)"
    using c slot_quiet(20) [OF slot_quiet(29)] by (cases b) (simp_all add: user_turn_created_def slot_user split: option.split)
  obtain d s2 where m: "mark_render_started None (Some t) s1 = (d, s2)" by fastforce
  then have "slot_inv s2" using slot_quiet(16) [OF s1(1), of None "Some t"] by simp
  then show "slot_inv (assistant_turn_created t s)"
    using c m s1(1) by (cases b; cases d) (auto simp: assistant_turn_created_def slot_quiet split: option.split)
qed

lemma slot_enter: "slot_inv s \<Longrightarrow> token_inv s \<Longrightarrow> slot_inv (enter_lock r s)"
proof -
  assume inv: "slot_inv s" and "token_inv s"
  then have b: "slot_inv (begin_background_generation s)" by (rule slot_begin)
  have "slot_inv ((begin_background_generation s)\<lparr>mg_interrupting := True, mg_holder := h\<rparr>)" for h
    by (rule slot_inv_cong [OF b]) simp_all
  then show ?thesis using inv by (auto simp: enter_lock_def slot_quiet split: turn_request.split option.split)
qed

lemma managed_slot_inv:
  assumes "slot_inv s" "token_inv s" "managed_enabled e s"
  shows "slot_inv (managed_step e s)"
proof (cases e)
  case (LockAcquired i)
  let ?s = "s\<lparr>mg_waiting := take i (mg_waiting s) @ drop (Suc i) (mg_waiting s)\<rparr>"
  have "slot_inv ?s" "token_inv ?s" using slot_quiet(25) [OF assms(1)] token_inv_moves [OF assms(2) request_fails_moves] by simp_all
  then show ?thesis using assms(1) LockAcquired by (simp add: acquire_lock_def slot_enter)
next
  case InterruptReturned
  then show ?thesis using assms(1)
    by (auto simp: interrupt_returned_def slot_quiet split: option.split holder.split turn_request.split)
next
  case (TurnStartReturned response)
  have "slot_inv ((reject_early (s\<lparr>mg_turn_ids := ids, mg_starting := False\<rparr>))\<lparr>mg_interrupts := ts, mg_holder := Some Discarding\<rparr>)" for ids ts
    by (rule slot_inv_cong [OF assms(1)]) simp_all
  then show ?thesis using assms(1) TurnStartReturned slot_quiet(3) [OF slot_quiet(9) [OF slot_quiet(17) [OF assms(1)]]]
      slot_quiet(18) [OF slot_quiet(24) [OF assms(1)]]
    by (auto simp: turn_start_returned_def Let_def split: option.split holder.split)
next
  case Settles
  then show ?thesis using assms(1) slot_handle [OF slot_quiet(21) [OF assms(1)]]
    by (auto simp: settle_turn_def slot_quiet split: option.split holder.split list.split)
next
  case (HolderFails m)
  then show ?thesis using assms(1) slot_quiet(3) [OF slot_quiet(9) [OF slot_quiet(17) [OF assms(1)]]]
    by (auto simp: fail_holder_def slot_quiet split: option.split holder.split)
next
  case (BackendTerminal owned r t)
  have "slot_inv (mark_render_terminal r t s)" if "slot_inv s" for s
    using that by (simp add: mark_render_terminal_def slot_retire slot_quiet)
  then show ?thesis using assms(1) BackendTerminal by (simp add: backend_terminal_def slot_quiet)
next
  case ContextAppended
  then show ?thesis using assms(1) by (simp add: context_appended_def slot_retire slot_quiet)
next
  case (UserControl c)
  then show ?thesis using assms by (simp add: managed_user_control_def slot_claim slot_quiet split: option.split)
qed (use assms in \<open>simp_all add: slot_user slot_claim slot_executor_event slot_resume slot_fail slot_quiet assistant_turn_done_def
        split: prod.split\<close>)

section \<open>Reachable sessions\<close>

lemma managed_reachable_invs:
  "managed_reachable s \<Longrightarrow> output_inv s \<and> executor_inv s \<and> token_inv s \<and> slot_inv s"
proof (induction rule: managed_reachable.induct)
  case initial
  show ?case
    by (simp add: new_managed_def output_inv_def executor_inv_def turn_inv_def holder_inv_def effects_inv_def token_inv_def
        early_def late_def slot_inv_def)
qed (blast intro: managed_output_inv managed_executor_inv managed_token_inv managed_slot_inv)

lemma enter_lock_speech: "mg_speech (enter_lock r s) = mg_speech s"
  by (simp add: enter_lock_def interrupt_turn_def launch_turn_def split: turn_request.split option.split)

lemma speech_steps:
  assumes "mg_speech (managed_step e s) \<noteq> mg_speech s"
  obtains i where "e = AppendResumes i" "ap_phase (mg_appends s ! i) = AwaitGate" "ap_generation (mg_appends s ! i) = mg_generation s"
    "mg_speech (managed_step e s) = mg_speech s @ [(mg_generation s, ap_text (mg_appends s ! i))]"
proof (cases e)
  case (AppendResumes i)
  then show ?thesis using assms that
    by (auto simp: resume_append_def Let_def take_render_def set_append_def split: append_phase.splits if_splits)
next
  case (UserControl c)
  then show ?thesis using assms
    by (auto simp: managed_user_control_def user_turn_created_def user_turn_interrupts_def user_turn_done_def claim_turn_id_def Let_def
        split: option.splits if_splits)
next
  case (AssistantTurnCreated t)
  then show ?thesis using assms
    by (auto simp: assistant_turn_created_def claim_turn_id_def mark_render_started_def split: option.splits if_splits)
qed (use assms in \<open>simp_all add: speech_started_def text_received_def interrupt_received_def assistant_turn_done_def shut_down_def
      backend_terminal_def acquire_lock_def enter_lock_speech Let_def split: if_splits prod.splits\<close>)

text \<open>A conversation: the user asks, the executor answers, and the voice provider speaks.\<close>

definition user_control :: "string \<Rightarrow> string \<Rightarrow> string option \<Rightarrow> managed_event" where
  "user_control ty t transcript =
     UserControl \<lparr>rdc_event_type = ty, rdc_role = Some ''user'', rdc_response_cancelled = False, rdc_response_id = None,
       rdc_turn_id = Some t, rdc_transcript = transcript\<rparr>"

definition started :: "string \<Rightarrow> managed_event" where
  "started t = TurnStartReturned [(''turn'', JObj [(''id'', JStr t)])]"

definition executor_says :: "string \<Rightarrow> obj \<Rightarrow> managed_event" where
  "executor_says m params = ExecutorEvent [(''method'', JStr m), (''params'', JObj params)]"

definition answer_run :: "managed_event list" where
  "answer_run =
     [user_control ''turn.created'' ''u'' None, LockAcquired 0, user_control ''turn.done'' ''u'' (Some ''hi''), LockAcquired 0,
      started ''t'', Settles,
      executor_says ''item/completed'' [(''turnId'', JStr ''t''),
        (''item'', JObj [(''id'', JStr ''m''), (''type'', JStr ''agentMessage''), (''phase'', JStr ''final_answer''), (''text'', JStr ''ok'')])],
      executor_says ''turn/completed'' [(''turn'', JObj [(''id'', JStr ''t''), (''status'', JStr ''completed'')])],
      AppendResumes 0]"

definition spoken_run :: "managed_event list" where
  "spoken_run = answer_run @ [AppendResumes 0, ContextAppended, AssistantTurnCreated ''a'']"

text \<open>The user speaks again before the first turn answered, and the second turn calls a tool.\<close>

definition tool_call :: "string \<Rightarrow> managed_event" where
  "tool_call t = ExecutorEvent [(''id'', JInt 7), (''method'', JStr ''item/tool/call''), (''params'', JObj [(''turnId'', JStr t)])]"

definition interrupted_run :: "managed_event list" where
  "interrupted_run =
     [TextReceived ''on'', LockAcquired 0, started ''t'', Settles, TextReceived ''off'', LockAcquired 0, tool_call ''t'',
      executor_says ''turn/completed'' [(''turn'', JObj [(''id'', JStr ''t''), (''status'', JStr ''interrupted'')])],
      InterruptReturned, started ''v'', Settles, tool_call ''v'']"

lemma spoken_run_result:
  "map_option (\<lambda>s. (mg_output s, mg_speech s, mg_generation s)) (managed_run spoken_run new_managed) = Some (Some 1, [(1, ''ok'')], 1)"
  by code_simp

lemma answer_run_result:
  "map_option (\<lambda>s. (mg_speech s, map ap_phase (mg_appends s), map ap_text (mg_appends s), map ap_generation (mg_appends s), mg_generation s))
     (managed_run answer_run new_managed) = Some ([], [AwaitGate], [''ok''], [1], 1)"
  by code_simp

lemma interrupted_run_result:
  "map_option (\<lambda>s. (mg_interrupts s, mg_tools s, length (mg_rejected s))) (managed_run interrupted_run new_managed) =
   Some ([''t''], [(''v'', 2, 2)], 1)"
  by code_simp

lemma distinct_count_at_most_one: "(\<And>x. count (mset xs) x \<le> 1) \<Longrightarrow> distinct xs"
proof (induction xs)
  case (Cons y xs)
  have "count (mset xs) x \<le> 1" for x by (rule order_trans [OF _ Cons.prems [of x]]) simp
  moreover have "y \<notin> set xs" using Cons.prems [of y] by (simp add: count_mset_0_iff)
  ultimately show ?case using Cons.IH by simp
qed simp

section \<open>Properties\<close>

text \<open>C9: the only answer a bridge-managed session lets through to the speaker is one it handed to the voice
  provider itself, for the user's current speech: whatever is said, interrupted or late, after every
  interleaving of the coroutines.\<close>

theorem only_current_answer_is_audible:
  assumes "managed_reachable s" "mg_output s = Some g"
  shows "g = mg_generation s \<and> g \<in> fst ` set (mg_speech s)"
  using managed_reachable_invs [OF assms(1)] assms(2) by (auto simp: output_inv_def)

theorem only_current_answer_is_audible_witness:
  "\<exists>s. managed_run spoken_run new_managed = Some s \<and> mg_output s = Some 1 \<and> 1 = mg_generation s \<and> 1 \<in> fst ` set (mg_speech s)"
proof -
  obtain s where s: "managed_run spoken_run new_managed = Some s" "mg_output s = Some 1" using spoken_run_result by auto
  show ?thesis
    using only_current_answer_is_audible [OF managed_run_reachable [OF managed_reachable.initial s(1)] s(2)] s by blast
qed

text \<open>C1: each utterance of the user starts at most one executor turn and is answered at most once, and only an
  utterance whose turn was started is answered.\<close>

theorem one_turn_one_answer:
  assumes "managed_reachable s"
  shows "distinct (mg_starts s) \<and> distinct (map fst (mg_speech s)) \<and> fst ` set (mg_speech s) \<subseteq> set (mg_starts s)"
proof -
  have tok: "token_inv s" using managed_reachable_invs [OF assms] by simp
  have "mset (mg_starts s) \<subseteq># early s" "mset (map fst (mg_speech s)) \<subseteq># late s" by (simp_all add: early_def late_def)
  then have "count (mset (mg_starts s)) g \<le> 1" "count (mset (map fst (mg_speech s))) g \<le> 1" for g
    using token_inv_count [OF tok, of g] by (meson le_trans mset_subset_eq_count)+
  moreover have "fst ` set (mg_speech s) \<subseteq> set (mg_starts s)" using token_inv_bound(2) [OF tok] by (force simp: late_def)
  ultimately show ?thesis by (metis distinct_count_at_most_one)
qed

theorem one_turn_one_answer_witness:
  "\<exists>s. managed_run spoken_run new_managed = Some s \<and> mg_speech s = [(1, ''ok'')] \<and> distinct (mg_starts s) \<and>
     fst ` set (mg_speech s) \<subseteq> set (mg_starts s)"
proof -
  obtain s where s: "managed_run spoken_run new_managed = Some s" "mg_speech s = [(1, ''ok'')]" using spoken_run_result by auto
  show ?thesis using one_turn_one_answer [OF managed_run_reachable [OF managed_reachable.initial s(1)]] s by blast
qed

text \<open>C2: a turn the bridge interrupted because the user spoke again (its watchdog and the teardown apart) never
  had, and never gets, a tool call accepted, and a call is accepted only for the user's current speech.\<close>

theorem interrupted_turns_have_no_effects:
  assumes "managed_reachable s"
  shows "set (mg_interrupts s) \<inter> fst ` set (mg_tools s) = {} \<and> list_all (\<lambda>(t, g, current). g = current) (mg_tools s)"
  using managed_reachable_invs [OF assms] by (auto simp: executor_inv_def effects_inv_def)

theorem interrupted_turns_have_no_effects_witness:
  "\<exists>s. managed_run interrupted_run new_managed = Some s \<and> mg_interrupts s = [''t''] \<and> mg_tools s = [(''v'', 2, 2)] \<and>
     set (mg_interrupts s) \<inter> fst ` set (mg_tools s) = {}"
proof -
  obtain s where s: "managed_run interrupted_run new_managed = Some s" "mg_interrupts s = [''t'']" "mg_tools s = [(''v'', 2, 2)]"
    using interrupted_run_result by auto
  show ?thesis
    using interrupted_turns_have_no_effects [OF managed_run_reachable [OF managed_reachable.initial s(1)]] s by blast
qed

text \<open>an answer is handed to the voice provider only while no render holds its slot, and only for the user's
  current speech.\<close>

theorem renders_never_overlap:
  assumes "managed_reachable s" "managed_enabled e s" "mg_speech (managed_step e s) \<noteq> mg_speech s"
  shows "mg_render s = None \<and> (\<exists>t. mg_speech (managed_step e s) = mg_speech s @ [(mg_generation s, t)])"
proof -
  obtain i where i: "e = AppendResumes i" "ap_phase (mg_appends s ! i) = AwaitGate" "ap_generation (mg_appends s ! i) = mg_generation s"
    "mg_speech (managed_step e s) = mg_speech s @ [(mg_generation s, ap_text (mg_appends s ! i))]"
    using speech_steps [OF assms(3)] by blast
  then have "append_ok s (mg_appends s ! i)"
    using managed_reachable_invs [OF assms(1)] assms(2) by (simp add: slot_inv_def list_all_length)
  then show ?thesis using i by (auto simp: append_ok_def waits_for_slot_def)
qed

theorem renders_never_overlap_witness:
  "\<exists>s. managed_run answer_run new_managed = Some s \<and> mg_speech (managed_step (AppendResumes 0) s) \<noteq> mg_speech s \<and> mg_render s = None"
proof -
  obtain s where s: "managed_run answer_run new_managed = Some s" "map ap_phase (mg_appends s) = [AwaitGate]"
    "map ap_generation (mg_appends s) = [1]" "mg_generation s = 1"
    using answer_run_result by auto
  then obtain a where a: "mg_appends s = [a]" "ap_phase a = AwaitGate" "ap_generation a = 1" by auto
  have "mg_speech (managed_step (AppendResumes 0) s) \<noteq> mg_speech s"
    using a s(4) by (simp add: resume_append_def set_append_def take_render_def Let_def)
  then show ?thesis
    using renders_never_overlap [OF managed_run_reachable [OF managed_reachable.initial s(1)], of "AppendResumes 0"] s(1) a(1)
    by auto
qed

end
