(* ===== verification/Output_Gate.thy ===== *)
theory Output_Gate
  imports Prelude Float64
begin

text \<open>
  The output gate of a realtime device session, the local functions of \<^verbatim>\<open>_run_realtime_socket\<close> in
  \<^verbatim>\<open>bridge/service.py\<close> that decide which provider audio the device hears: epochs, the arm before an
  epoch, the quarantine of audio that arrives early, and the tail after one. The critical sections of
  \<^verbatim>\<open>output_state_lock\<close> that send a frame are cut at the send: the frame is written, or refused by its guard,
  and the section goes on later. Waiting for the lock only delays. Times are readings of
  \<^verbatim>\<open>time.monotonic()\<close>.
\<close>

section \<open>State\<close>

definition REALTIME_OUTPUT_PREROLL_MILLISECONDS :: nat where "REALTIME_OUTPUT_PREROLL_MILLISECONDS = 200"
definition REALTIME_OUTPUT_PREROLL_MAX_BYTES :: nat where
  "REALTIME_OUTPUT_PREROLL_MAX_BYTES = 24000 * 2 * REALTIME_OUTPUT_PREROLL_MILLISECONDS div 1000"
definition REALTIME_OUTPUT_TAIL_SECONDS :: rat where "REALTIME_OUTPUT_TAIL_SECONDS = 12/100"
definition REALTIME_OUTPUT_TAIL_HARD_CAP_SECONDS :: rat where "REALTIME_OUTPUT_TAIL_HARD_CAP_SECONDS = 1"
definition REALTIME_OUTPUT_ARM_TIMEOUT_SECONDS :: rat where "REALTIME_OUTPUT_ARM_TIMEOUT_SECONDS = 5"
definition REALTIME_OUTPUT_PREROLL_TTL_SECONDS :: rat where "REALTIME_OUTPUT_PREROLL_TTL_SECONDS = 1/2"
definition REALTIME_OUTPUT_SIGNAL_PEAK :: int where "REALTIME_OUTPUT_SIGNAL_PEAK = 256"

text \<open>A quarantined chunk: the arm it belongs to, when it arrived, its bytes.\<close>

type_synonym preroll_entry = "nat \<times> rat \<times> bytes"

text \<open>
  The frames the gate writes. Audio is recorded with \<^verbatim>\<open>backend_output_generation\<close> and
  \<^verbatim>\<open>background_generation\<close> at that moment.
\<close>

datatype gate_frame =
    SpeakingStarted nat
  | OutputAudio bytes "nat option" nat
  | SpeakingStopped nat

datatype gate_send =
    SendStarted "nat option"
  | SendPreroll "nat option"
  | SendChunk bytes "nat option"
  | SendStopped

text \<open>
  The section that holds the lock: its send, whether \<^verbatim>\<open>audio\<close> runs it, and whether the send is still
  waiting (\<open>None\<close>), written (\<open>Some True\<close>) or refused (\<open>Some False\<close>).
\<close>

record gate_section =
  gs_send :: gate_send
  gs_audio :: bool
  gs_result :: "bool option"

text \<open>
  A coroutine inside \<^verbatim>\<open>end_output\<close>: it waits for the first audio of an arm, for the tail of an epoch,
  or for the lock of the final section. The first two hold \<^verbatim>\<open>terminal_at\<close> and the time to wake.
\<close>

datatype end_phase =
    EndWindow rat rat
  | EndTail nat rat rat
  | EndFinal "nat option"

record gate =
  og_managed :: bool
  og_generation :: nat
  og_authorized :: "nat option"
  og_stop :: bool
  og_now :: rat
  og_epoch :: nat
  og_speaking :: bool
  og_last_pcm :: "rat option"
  og_armed :: bool
  og_arm_generation :: nat
  og_arm_task :: "nat option"
  og_timers :: "(nat \<times> rat) list"
  og_preroll :: "preroll_entry list"
  og_preroll_bytes :: int
  og_section :: "gate_section option"
  og_audio :: "(bytes \<times> nat option) option"
  og_ends :: "end_phase list"
  og_sent :: "gate_frame list"
  og_delivered :: nat
  og_failed :: bool

definition new_gate :: "bool \<Rightarrow> rat \<Rightarrow> gate" where
  "new_gate managed now =
     \<lparr>og_managed = managed, og_generation = 0, og_authorized = None, og_stop = False, og_now = now, og_epoch = 0,
      og_speaking = False, og_last_pcm = None, og_armed = False, og_arm_generation = 0, og_arm_task = None,
      og_timers = [], og_preroll = [], og_preroll_bytes = 0, og_section = None, og_audio = None, og_ends = [],
      og_sent = [], og_delivered = 0, og_failed = False\<rparr>"

section \<open>Audio\<close>

definition realtime_pcm_has_signal :: "bytes \<Rightarrow> bool" where
  "realtime_pcm_has_signal chunk \<longleftrightarrow>
     chunk \<noteq> [] \<and> even (length chunk) \<and> list_ex (\<lambda>x. REALTIME_OUTPUT_SIGNAL_PEAK \<le> \<bar>x\<bar>) (samples_of_bytes chunk)"

text \<open>The generation a send expects is gone.\<close>

definition generation_lost :: "nat option \<Rightarrow> gate \<Rightarrow> bool" where
  "generation_lost e s \<longleftrightarrow> e \<noteq> None \<and> (og_authorized s \<noteq> e \<or> Some (og_generation s) \<noteq> e)"

definition clear_preroll :: "gate \<Rightarrow> gate" where
  "clear_preroll s = s\<lparr>og_preroll := [], og_preroll_bytes := 0\<rparr>"

fun pop_while :: "(preroll_entry \<Rightarrow> int \<Rightarrow> bool) \<Rightarrow> preroll_entry list \<Rightarrow> int \<Rightarrow> preroll_entry list \<times> int" where
  "pop_while p [] n = ([], n)"
| "pop_while p (e # es) n = (if p e n then pop_while p es (n - int (length (snd (snd e)))) else (e # es, n))"

text \<open>\<^verbatim>\<open>prune_output_preroll_locked\<close>.\<close>

definition prune_preroll :: "rat \<Rightarrow> gate \<Rightarrow> gate" where
  "prune_preroll now s =
     (let kept = pop_while (\<lambda>(g, t, c) n. g \<noteq> og_arm_generation s \<or> t < now - REALTIME_OUTPUT_PREROLL_TTL_SECONDS)
                   (og_preroll s) (og_preroll_bytes s)
      in s\<lparr>og_preroll := fst kept, og_preroll_bytes := snd kept\<rparr>)"

definition quarantine_output :: "rat \<Rightarrow> bytes \<Rightarrow> gate \<Rightarrow> gate" where
  "quarantine_output now chunk s =
     (if \<not> og_armed s \<or> \<not> realtime_pcm_has_signal chunk then s
      else
        let s1 = prune_preroll now s;
            kept = pop_while (\<lambda>e n. int REALTIME_OUTPUT_PREROLL_MAX_BYTES < n)
                     (og_preroll s1 @ [(og_arm_generation s1, now, chunk)]) (og_preroll_bytes s1 + int (length chunk))
        in s1\<lparr>og_preroll := fst kept, og_preroll_bytes := snd kept\<rparr>)"

section \<open>The arm and the start of an epoch\<close>

text \<open>\<^verbatim>\<open>output_arm_task.cancel()\<close>: a timer that has fired is not affected.\<close>

definition cancel_arm_task :: "gate \<Rightarrow> gate" where
  "cancel_arm_task s =
     (case og_arm_task s of None \<Rightarrow> s | Some g \<Rightarrow> s\<lparr>og_timers := filter (\<lambda>(h, t). h \<noteq> g) (og_timers s)\<rparr>)"

definition enter_send :: "gate_send \<Rightarrow> bool \<Rightarrow> gate \<Rightarrow> gate" where
  "enter_send d audio s = s\<lparr>og_section := Some \<lparr>gs_send = d, gs_audio = audio, gs_result = None\<rparr>\<rparr>"

text \<open>\<^verbatim>\<open>begin_output_locked\<close>, up to the send of \<^verbatim>\<open>speaking.started\<close>.\<close>

definition begin_output :: "nat option \<Rightarrow> bool \<Rightarrow> gate \<Rightarrow> gate" where
  "begin_output e audio s =
     (if og_speaking s \<or> og_stop s then s
      else enter_send (SendStarted e) audio
             ((cancel_arm_task s)\<lparr>og_armed := False, og_arm_task := None, og_epoch := og_epoch s + 1, og_speaking := True\<rparr>))"

definition arm_output :: "nat option \<Rightarrow> rat \<Rightarrow> gate \<Rightarrow> gate" where
  "arm_output e now s =
     (if generation_lost e s \<or> og_speaking s \<or> og_stop s \<or> og_armed s then s
      else
        let s1 = (cancel_arm_task s)\<lparr>og_armed := True, og_arm_generation := og_arm_generation s + 1\<rparr>
        in if og_preroll s1 \<noteq> [] then begin_output e False s1
           else s1\<lparr>og_arm_task := Some (og_arm_generation s1),
                   og_timers := og_timers s1 @ [(og_arm_generation s1, now + REALTIME_OUTPUT_ARM_TIMEOUT_SECONDS)]\<rparr>)"

text \<open>\<^verbatim>\<open>expire_arm\<close>, after its sleep.\<close>

definition expire_arm :: "nat \<Rightarrow> gate \<Rightarrow> gate" where
  "expire_arm g s =
     (let s1 = s\<lparr>og_timers := filter (\<lambda>(h, t). h \<noteq> g) (og_timers s)\<rparr>
      in if og_arm_generation s1 \<noteq> g \<or> og_speaking s1 then s1 else clear_preroll (s1\<lparr>og_armed := False\<rparr>))"

section \<open>The end of an epoch\<close>

text \<open>One evaluation of the tail loop: \<^verbatim>\<open>None\<close> breaks out, otherwise the time to sleep until.\<close>

definition tail_wake :: "rat \<Rightarrow> rat \<Rightarrow> gate \<Rightarrow> rat option" where
  "tail_wake terminal_at now s =
     (let last_activity = max terminal_at (case og_last_pcm s of None \<Rightarrow> terminal_at | Some t \<Rightarrow> t);
          idle_remaining = REALTIME_OUTPUT_TAIL_SECONDS - (now - last_activity);
          hard_remaining = terminal_at + REALTIME_OUTPUT_TAIL_HARD_CAP_SECONDS - now
      in if idle_remaining \<le> 0 \<or> hard_remaining \<le> 0 then None else Some (now + min idle_remaining hard_remaining))"

definition add_end :: "end_phase \<Rightarrow> gate \<Rightarrow> gate" where
  "add_end p s = s\<lparr>og_ends := og_ends s @ [p]\<rparr>"

text \<open>The loop's section for the epoch that was captured.\<close>

definition end_tail :: "nat \<Rightarrow> rat \<Rightarrow> rat \<Rightarrow> gate \<Rightarrow> gate" where
  "end_tail epoch terminal_at now s =
     (if \<not> og_speaking s \<or> og_epoch s \<noteq> epoch \<or> og_stop s then s
      else case tail_wake terminal_at now s of
             None \<Rightarrow> add_end (EndFinal (Some epoch)) s
           | Some wake \<Rightarrow> add_end (EndTail epoch terminal_at wake) s)"

text \<open>\<^verbatim>\<open>end_output\<close> is called; \<open>terminal_at\<close> is read before the lock is taken.\<close>

definition start_end :: "bool \<Rightarrow> rat \<Rightarrow> rat \<Rightarrow> gate \<Rightarrow> gate" where
  "start_end after_tail terminal_at now s =
     (if \<not> after_tail then add_end (EndFinal None) s
      else if og_speaking s then end_tail (og_epoch s) terminal_at now s
      else if og_armed s then add_end (EndWindow terminal_at (now + REALTIME_OUTPUT_TAIL_SECONDS)) s
      else add_end (EndFinal None) s)"

text \<open>The final section, up to the send of \<^verbatim>\<open>speaking.stopped\<close>.\<close>

definition finish_end :: "nat option \<Rightarrow> gate \<Rightarrow> gate" where
  "finish_end expected s =
     (let s1 = (cancel_arm_task s)\<lparr>og_armed := False, og_arm_generation := og_arm_generation s + 1, og_arm_task := None\<rparr>
      in if \<not> og_speaking s1 \<or> expected \<noteq> None \<and> expected \<noteq> Some (og_epoch s1) then clear_preroll s1
         else enter_send SendStopped False (clear_preroll (s1\<lparr>og_speaking := False, og_last_pcm := None\<rparr>)))"

definition resume_end :: "nat \<Rightarrow> rat \<Rightarrow> gate \<Rightarrow> gate" where
  "resume_end i now s =
     (let s1 = s\<lparr>og_ends := take i (og_ends s) @ drop (Suc i) (og_ends s)\<rparr>
      in case og_ends s ! i of
           EndWindow terminal_at wake \<Rightarrow>
             if og_speaking s1 then end_tail (og_epoch s1) terminal_at now s1 else add_end (EndFinal None) s1
         | EndTail epoch terminal_at wake \<Rightarrow> end_tail epoch terminal_at now s1
         | EndFinal expected \<Rightarrow> finish_end expected s1)"

section \<open>Provider audio\<close>

text \<open>\<^verbatim>\<open>audio\<close>: a chunk is received, and later the lock is taken.\<close>

definition receive_chunk :: "bytes \<Rightarrow> gate \<Rightarrow> gate" where
  "receive_chunk chunk s =
     (let e = (if og_managed s then og_authorized s else None)
      in if og_managed s \<and> (e = None \<or> e \<noteq> Some (og_generation s)) then s else s\<lparr>og_audio := Some (chunk, e)\<rparr>)"

definition forward_chunk :: "rat \<Rightarrow> gate \<Rightarrow> gate" where
  "forward_chunk now s =
     (case og_audio s of
        None \<Rightarrow> s
      | Some (chunk, e) \<Rightarrow>
          let s1 = s\<lparr>og_audio := None\<rparr>
          in if og_managed s1 \<and> (e = None \<or> og_authorized s1 \<noteq> e \<or> Some (og_generation s1) \<noteq> e) then s1
             else if og_speaking s1 then enter_send (SendChunk chunk e) True (s1\<lparr>og_last_pcm := Some now\<rparr>)
             else
               let s2 = quarantine_output now chunk s1
               in if og_armed s2 \<and> og_preroll s2 \<noteq> []
                  then (let s3 = begin_output e True s2
                        in if og_section s3 = None \<and> og_speaking s3 then s3\<lparr>og_delivered := og_delivered s3 + 1\<rparr> else s3)
                  else s2)"

section \<open>The sends\<close>

definition frame_of :: "gate_send \<Rightarrow> gate \<Rightarrow> gate_frame" where
  "frame_of d s =
     (case d of
        SendStarted e \<Rightarrow> SpeakingStarted (og_epoch s)
      | SendPreroll e \<Rightarrow> OutputAudio (concat (map (\<lambda>(g, t, c). c) (og_preroll s))) (og_authorized s) (og_generation s)
      | SendChunk chunk e \<Rightarrow> OutputAudio chunk (og_authorized s) (og_generation s)
      | SendStopped \<Rightarrow> SpeakingStopped (og_epoch s))"

definition send_guard :: "gate_send \<Rightarrow> nat option" where
  "send_guard d = (case d of SendPreroll e \<Rightarrow> e | SendChunk chunk e \<Rightarrow> e | _ \<Rightarrow> None)"

text \<open>\<^verbatim>\<open>_send_realtime_frame\<close>: under the send lock the guard is asked and the frame written.\<close>

definition write_frame :: "gate \<Rightarrow> gate" where
  "write_frame s =
     (case og_section s of
        None \<Rightarrow> s
      | Some sec \<Rightarrow>
          if gs_result sec \<noteq> None then s
          else if generation_lost (send_guard (gs_send sec)) s
          then s\<lparr>og_section := Some (sec\<lparr>gs_result := Some False\<rparr>)\<rparr>
          else s\<lparr>og_sent := og_sent s @ [frame_of (gs_send sec) s], og_section := Some (sec\<lparr>gs_result := Some True\<rparr>)\<rparr>)"

text \<open>The lock is released; \<open>delivered\<close> counts the calls of \<^verbatim>\<open>complete_tool_continuation_after_output\<close>.\<close>

definition leave_section :: "bool \<Rightarrow> gate \<Rightarrow> gate" where
  "leave_section delivered s =
     s\<lparr>og_section := None, og_delivered := og_delivered s + (if delivered then 1 else 0)\<rparr>"

text \<open>The rest of \<^verbatim>\<open>begin_output_locked\<close> after \<^verbatim>\<open>speaking.started\<close>.\<close>

definition after_started :: "nat option \<Rightarrow> bool \<Rightarrow> rat \<Rightarrow> gate \<Rightarrow> gate" where
  "after_started e audio now s =
     (if generation_lost e s then leave_section (audio \<and> og_speaking s) (clear_preroll s)
      else
        let s1 = prune_preroll now s
        in if og_preroll s1 = [] then leave_section (audio \<and> og_speaking s1) s1
           else enter_send (SendPreroll e) audio (s1\<lparr>og_last_pcm := Some (fst (snd (last (og_preroll s1))))\<rparr>))"

definition send_returned :: "rat \<Rightarrow> gate \<Rightarrow> gate" where
  "send_returned now s =
     (case og_section s of
        None \<Rightarrow> s
      | Some sec \<Rightarrow>
          (case gs_result sec of
             None \<Rightarrow> s
           | Some written \<Rightarrow>
               (case gs_send sec of
                  SendStarted e \<Rightarrow> after_started e (gs_audio sec) now s
                | SendPreroll e \<Rightarrow> leave_section (gs_audio sec \<and> og_speaking s) (clear_preroll s)
                | SendChunk chunk e \<Rightarrow> leave_section (written \<and> realtime_pcm_has_signal chunk) s
                | SendStopped \<Rightarrow> leave_section False s)))"

text \<open>A send fails or times out; its coroutine ends the session.\<close>

definition send_failed :: "gate \<Rightarrow> gate" where
  "send_failed s = (if og_section s = None then s else s\<lparr>og_section := None, og_failed := True\<rparr>)"

section \<open>Runs\<close>

datatype gate_event =
    GenerationBegins
  | OutputAuthorized nat
  | OutputInvalidated
  | GateStops
  | ArmsOutput "nat option" rat
  | ArmExpires nat rat
  | EndsOutput bool rat rat
  | EndResumes nat rat
  | ChunkArrives bytes
  | ChunkForwarded rat
  | FrameWritten
  | SendReturned rat
  | SendFailed

definition end_ready :: "rat \<Rightarrow> end_phase \<Rightarrow> bool" where
  "end_ready now p = (case p of EndWindow terminal_at wake \<Rightarrow> wake \<le> now | EndTail epoch terminal_at wake \<Rightarrow> wake \<le> now | EndFinal e \<Rightarrow> True)"

text \<open>Sections need the lock, sleeps their time, and the clock does not go back.\<close>

fun gate_enabled :: "gate_event \<Rightarrow> gate \<Rightarrow> bool" where
  "gate_enabled (ArmsOutput e now) s = (og_section s = None \<and> og_now s \<le> now \<and> (og_managed s \<longleftrightarrow> e \<noteq> None))"
| "gate_enabled (ArmExpires g now) s =
     (og_section s = None \<and> og_now s \<le> now \<and> list_ex (\<lambda>(h, t). h = g \<and> t \<le> now) (og_timers s))"
| "gate_enabled (EndsOutput after_tail terminal_at now) s =
     ((after_tail \<longrightarrow> og_section s = None) \<and> terminal_at \<le> now \<and> og_now s \<le> now)"
| "gate_enabled (EndResumes i now) s =
     (og_section s = None \<and> og_now s \<le> now \<and> i < length (og_ends s) \<and> end_ready now (og_ends s ! i))"
| "gate_enabled (ChunkArrives chunk) s =
     (og_audio s = None \<and> (case og_section s of None \<Rightarrow> True | Some sec \<Rightarrow> \<not> gs_audio sec))"
| "gate_enabled (ChunkForwarded now) s = (og_section s = None \<and> og_now s \<le> now \<and> og_audio s \<noteq> None)"
| "gate_enabled (SendReturned now) s = (og_now s \<le> now)"
| "gate_enabled _ s = True"

fun gate_step :: "gate_event \<Rightarrow> gate \<Rightarrow> gate" where
  "gate_step GenerationBegins s = s\<lparr>og_generation := og_generation s + 1, og_authorized := None\<rparr>"
| "gate_step (OutputAuthorized g) s = (if g \<noteq> og_generation s then s else s\<lparr>og_authorized := Some g\<rparr>)"
| "gate_step OutputInvalidated s = s\<lparr>og_authorized := None\<rparr>"
| "gate_step GateStops s = s\<lparr>og_stop := True\<rparr>"
| "gate_step (ArmsOutput e now) s = arm_output e now (s\<lparr>og_now := now\<rparr>)"
| "gate_step (ArmExpires g now) s = expire_arm g (s\<lparr>og_now := now\<rparr>)"
| "gate_step (EndsOutput after_tail terminal_at now) s = start_end after_tail terminal_at now (s\<lparr>og_now := now\<rparr>)"
| "gate_step (EndResumes i now) s = resume_end i now (s\<lparr>og_now := now\<rparr>)"
| "gate_step (ChunkArrives chunk) s = receive_chunk chunk s"
| "gate_step (ChunkForwarded now) s = forward_chunk now (s\<lparr>og_now := now\<rparr>)"
| "gate_step FrameWritten s = write_frame s"
| "gate_step (SendReturned now) s = send_returned now (s\<lparr>og_now := now\<rparr>)"
| "gate_step SendFailed s = send_failed s"

fun gate_run :: "gate_event list \<Rightarrow> gate \<Rightarrow> gate option" where
  "gate_run [] s = Some s"
| "gate_run (e # es) s = (if gate_enabled e s then gate_run es (gate_step e s) else None)"

inductive gate_reachable :: "gate \<Rightarrow> bool" where
  initial: "gate_reachable (new_gate managed now)"
| step: "gate_reachable s \<Longrightarrow> gate_enabled e s \<Longrightarrow> gate_reachable (gate_step e s)"

lemma gate_run_reachable: "gate_reachable s \<Longrightarrow> gate_run es s = Some s' \<Longrightarrow> gate_reachable s'"
  by (induction es s rule: gate_run.induct) (auto split: if_splits intro: gate_reachable.step)

end
