(* ===== verification/Output_Gate_Safety.thy ===== *)
theory Output_Gate_Safety
  imports Output_Gate
begin

text \<open>
  What the output gate guarantees over every interleaving: the device hears numbered epochs, each opened and
  closed once; audio only for the generation that is authorized when it is written; a preroll that is fresh
  and bounded; and a tail that ends in time.
\<close>

section \<open>The frames of a gate, abstractly\<close>

text \<open>The last epoch and whether it is open.\<close>

fun frame_step :: "(nat \<times> bool) option \<Rightarrow> gate_frame \<Rightarrow> (nat \<times> bool) option" where
  "frame_step (Some (n, False)) (SpeakingStarted m) = (if m = n + 1 then Some (m, True) else None)"
| "frame_step (Some (n, True)) (OutputAudio c a g) = Some (n, True)"
| "frame_step (Some (n, True)) (SpeakingStopped m) = (if m = n then Some (m, False) else None)"
| "frame_step _ _ = None"

definition epochs_of :: "gate_frame list \<Rightarrow> (nat \<times> bool) option" where
  "epochs_of frames = foldl frame_step (Some (0, False)) frames"

lemma epochs_of_simps [simp]: "epochs_of [] = Some (0, False)" "epochs_of (fs @ [f]) = frame_step (epochs_of fs) f"
  by (simp_all add: epochs_of_def)

text \<open>The state of the gate's frames: a frame that is still to be written has been accounted for already.\<close>

definition gate_epoch :: "gate \<Rightarrow> nat \<times> bool" where
  "gate_epoch s =
     (case og_section s of
        None \<Rightarrow> (og_epoch s, og_speaking s)
      | Some sec \<Rightarrow>
          if gs_result sec \<noteq> None then (og_epoch s, og_speaking s)
          else case gs_send sec of
                 SendStarted e \<Rightarrow> (og_epoch s - 1, False)
               | SendStopped \<Rightarrow> (og_epoch s, True)
               | _ \<Rightarrow> (og_epoch s, og_speaking s))"

definition section_ok :: "gate \<Rightarrow> gate_section \<Rightarrow> bool" where
  "section_ok s sec \<longleftrightarrow>
     (case gs_send sec of SendStopped \<Rightarrow> \<not> og_speaking s | _ \<Rightarrow> og_speaking s) \<and>
     (\<forall>e. gs_send sec = SendStarted e \<longrightarrow> og_epoch s \<noteq> 0) \<and>
     (gs_result sec = Some False \<longrightarrow> send_guard (gs_send sec) \<noteq> None)"

definition frames_inv :: "gate \<Rightarrow> bool" where
  "frames_inv s \<longleftrightarrow>
     (\<forall>sec. og_section s = Some sec \<longrightarrow> section_ok s sec) \<and> (\<not> og_failed s \<longrightarrow> epochs_of (og_sent s) = Some (gate_epoch s))"

lemma frames_inv_cong:
  assumes "frames_inv s" "og_section s' = og_section s" "og_sent s' = og_sent s" "og_epoch s' = og_epoch s"
    "og_speaking s' = og_speaking s" "og_failed s' = og_failed s"
  shows "frames_inv s'"
  using assms(1) unfolding frames_inv_def gate_epoch_def section_ok_def assms(2-) .

lemma gate_frame [simp]:
  "og_section (clear_preroll s) = og_section s" "og_sent (clear_preroll s) = og_sent s" "og_epoch (clear_preroll s) = og_epoch s"
  "og_speaking (clear_preroll s) = og_speaking s" "og_failed (clear_preroll s) = og_failed s"
  "og_section (prune_preroll now s) = og_section s" "og_sent (prune_preroll now s) = og_sent s" "og_epoch (prune_preroll now s) = og_epoch s"
  "og_speaking (prune_preroll now s) = og_speaking s" "og_failed (prune_preroll now s) = og_failed s" "og_armed (prune_preroll now s) = og_armed s"
  "og_section (quarantine_output now c s) = og_section s" "og_sent (quarantine_output now c s) = og_sent s" "og_epoch (quarantine_output now c s) = og_epoch s"
  "og_speaking (quarantine_output now c s) = og_speaking s" "og_failed (quarantine_output now c s) = og_failed s" "og_armed (quarantine_output now c s) = og_armed s"
  "og_section (cancel_arm_task s) = og_section s" "og_sent (cancel_arm_task s) = og_sent s" "og_epoch (cancel_arm_task s) = og_epoch s"
  "og_speaking (cancel_arm_task s) = og_speaking s" "og_failed (cancel_arm_task s) = og_failed s" "og_preroll (cancel_arm_task s) = og_preroll s"
  "og_section (add_end p s) = og_section s" "og_sent (add_end p s) = og_sent s" "og_epoch (add_end p s) = og_epoch s"
  "og_speaking (add_end p s) = og_speaking s" "og_failed (add_end p s) = og_failed s"
  "og_section (end_tail n t now s) = og_section s" "og_sent (end_tail n t now s) = og_sent s" "og_epoch (end_tail n t now s) = og_epoch s"
  "og_speaking (end_tail n t now s) = og_speaking s" "og_failed (end_tail n t now s) = og_failed s"
  by (simp_all add: clear_preroll_def prune_preroll_def quarantine_output_def cancel_arm_task_def add_end_def end_tail_def Let_def split: option.split)

lemma begin_output_frames:
  assumes "frames_inv s" "og_section s = None"
  shows "frames_inv (begin_output e audio s)"
proof -
  have "frames_inv (enter_send (SendStarted e) audio s')"
    if "og_speaking s' = True" "og_epoch s' = og_epoch s + 1" "og_sent s' = og_sent s" "og_failed s' = og_failed s" "\<not> og_speaking s" for s'
    using assms that by (simp add: frames_inv_def gate_epoch_def section_ok_def enter_send_def)
  then show ?thesis using assms by (simp add: begin_output_def)
qed

lemma arm_output_frames: "frames_inv s \<Longrightarrow> og_section s = None \<Longrightarrow> frames_inv (arm_output e now s)"
proof -
  assume a: "frames_inv s" "og_section s = None"
  let ?s = "(cancel_arm_task s)\<lparr>og_armed := True, og_arm_generation := og_arm_generation s + 1\<rparr>"
  have s: "frames_inv ?s" by (rule frames_inv_cong [OF a(1)]) simp_all
  have "frames_inv (?s\<lparr>og_arm_task := t, og_timers := ts\<rparr>)" for t ts by (rule frames_inv_cong [OF s]) simp_all
  then show ?thesis using begin_output_frames [OF s] a by (simp add: arm_output_def Let_def)
qed

lemma finish_end_frames: "frames_inv s \<Longrightarrow> og_section s = None \<Longrightarrow> frames_inv (finish_end e s)"
proof -
  assume a: "frames_inv s" "og_section s = None"
  have "frames_inv (enter_send SendStopped False s')"
    if "og_speaking s' = False" "og_epoch s' = og_epoch s" "og_sent s' = og_sent s" "og_failed s' = og_failed s" "og_speaking s" for s'
    using a that by (simp add: frames_inv_def gate_epoch_def section_ok_def enter_send_def)
  moreover have "frames_inv (clear_preroll (s\<lparr>og_armed := False\<rparr>))" if "frames_inv s" for s
    by (rule frames_inv_cong [OF that]) simp_all
  ultimately show ?thesis using a by (auto simp: finish_end_def Let_def intro!: frames_inv_cong [OF a(1)])
qed

lemma resume_end_frames: "frames_inv s \<Longrightarrow> og_section s = None \<Longrightarrow> frames_inv (resume_end i now s)"
proof -
  assume a: "frames_inv s" "og_section s = None"
  let ?s = "s\<lparr>og_ends := take i (og_ends s) @ drop (Suc i) (og_ends s)\<rparr>"
  have s: "frames_inv ?s" by (rule frames_inv_cong [OF a(1)]) simp_all
  have "frames_inv (end_tail n t now ?s)" "frames_inv (add_end p ?s)" for n t p by (rule frames_inv_cong [OF s]; simp)+
  then show ?thesis using finish_end_frames [OF s] a by (simp add: resume_end_def Let_def split: end_phase.split)
qed

lemma start_end_frames: "frames_inv s \<Longrightarrow> frames_inv (start_end a t now s)"
  by (rule frames_inv_cong [of s]) (simp_all add: start_end_def)

lemma forward_chunk_frames: "frames_inv s \<Longrightarrow> og_section s = None \<Longrightarrow> frames_inv (forward_chunk now s)"
proof -
  assume a: "frames_inv s" "og_section s = None"
  have u: "frames_inv (s\<lparr>og_audio := None\<rparr>)" by (rule frames_inv_cong [OF a(1)]) simp_all
  have "frames_inv (quarantine_output now c (s\<lparr>og_audio := None\<rparr>))" for c by (rule frames_inv_cong [OF u]) simp_all
  then have b: "frames_inv (begin_output e True (quarantine_output now c (s\<lparr>og_audio := None\<rparr>)))" for e c
    by (rule begin_output_frames) (simp add: a(2))
  have "frames_inv (s'\<lparr>og_delivered := n\<rparr>)" if "frames_inv s'" for s' n by (rule frames_inv_cong [OF that]) simp_all
  note d = this [OF b]
  have "frames_inv (enter_send (SendChunk c e) True (s\<lparr>og_audio := None, og_last_pcm := t\<rparr>))" if "og_speaking s" for c e t
    using a that by (simp add: frames_inv_def gate_epoch_def section_ok_def enter_send_def)
  then show ?thesis
    using a(1) u b d \<open>\<And>c. frames_inv (quarantine_output now c (s\<lparr>og_audio := None\<rparr>))\<close>
    by (simp add: forward_chunk_def Let_def split: option.split prod.split)
qed

lemma write_frame_frames: "frames_inv s \<Longrightarrow> frames_inv (write_frame s)"
proof (cases "og_section s")
  case (Some sec)
  assume inv: "frames_inv s"
  show ?thesis
  proof (cases "gs_result sec")
    case None
    then show ?thesis
      using inv Some
      by (cases "gs_send sec") (simp_all add: write_frame_def frames_inv_def gate_epoch_def section_ok_def frame_of_def
          generation_lost_def send_guard_def)
  qed (simp add: write_frame_def Some inv)
qed (simp add: write_frame_def)

lemma leave_section_frames:
  "frames_inv s \<Longrightarrow> (og_section s = None \<or> (\<exists>sec. og_section s = Some sec \<and> gs_result sec \<noteq> None)) \<Longrightarrow> frames_inv (leave_section d s)"
  by (auto simp: leave_section_def frames_inv_def gate_epoch_def)

lemma send_returned_frames: "frames_inv s \<Longrightarrow> frames_inv (send_returned now s)"
proof (cases "\<exists>sec written. og_section s = Some sec \<and> gs_result sec = Some written")
  case False
  assume "frames_inv s"
  then show ?thesis using False by (auto simp: send_returned_def split: option.split)
next
  case True
  assume inv: "frames_inv s"
  obtain sec written where sec: "og_section s = Some sec" "gs_result sec = Some written" using True by blast
  have l: "frames_inv (leave_section d s')"
    if "og_section s' = og_section s" "og_sent s' = og_sent s" "og_epoch s' = og_epoch s" "og_speaking s' = og_speaking s" "og_failed s' = og_failed s" for d s'
    by (rule leave_section_frames) (use sec that frames_inv_cong [OF inv, of s'] in auto)
  have "frames_inv (enter_send (SendPreroll e) audio ((prune_preroll now s)\<lparr>og_last_pcm := t\<rparr>))" if "gs_send sec = SendStarted e" for e audio t
    using inv sec that by (simp add: frames_inv_def gate_epoch_def section_ok_def enter_send_def)
  then have "frames_inv (after_started e (gs_audio sec) now s)" if "gs_send sec = SendStarted e" for e
    using that l by (simp add: after_started_def Let_def)
  then show ?thesis using sec l by (auto simp: send_returned_def split: gate_send.split)
qed

lemma gate_frames_inv: "frames_inv s \<Longrightarrow> gate_enabled e s \<Longrightarrow> frames_inv (gate_step e s)"
proof -
  assume inv: "frames_inv s" and en: "gate_enabled e s"
  have n: "frames_inv (s\<lparr>og_now := now\<rparr>)" for now by (rule frames_inv_cong [OF inv]) simp_all
  show ?thesis
  proof (cases e)
    case SendFailed
    then show ?thesis using inv by (simp add: send_failed_def frames_inv_def)
  next
    case (ArmExpires g now)
    show ?thesis unfolding ArmExpires by (rule frames_inv_cong [OF inv]) (simp_all add: expire_arm_def Let_def)
  next
    case (ChunkArrives c)
    show ?thesis unfolding ChunkArrives by (rule frames_inv_cong [OF inv]) (simp_all add: receive_chunk_def Let_def)
  next
    case (EndResumes i now)
    then show ?thesis using resume_end_frames [OF n] en by simp
  next
    case (ChunkForwarded now)
    then show ?thesis using forward_chunk_frames [OF n] en by simp
  next
    case (ArmsOutput e now)
    then show ?thesis using arm_output_frames [OF n] en by simp
  next
    case (OutputAuthorized g)
    show ?thesis unfolding OutputAuthorized by (rule frames_inv_cong [OF inv]) simp_all
  qed (simp_all add: start_end_frames n write_frame_frames inv send_returned_frames frames_inv_cong [OF inv])
qed

section \<open>Who may be heard\<close>

definition audio_authorized :: "gate_frame \<Rightarrow> bool" where
  "audio_authorized f = (case f of OutputAudio c a g \<Rightarrow> a = Some g | _ \<Rightarrow> True)"

definition expected_generation :: "gate_send \<Rightarrow> nat option" where
  "expected_generation d = (case d of SendStarted e \<Rightarrow> e | SendPreroll e \<Rightarrow> e | SendChunk c e \<Rightarrow> e | SendStopped \<Rightarrow> Some 0)"

definition guard_inv :: "gate \<Rightarrow> bool" where
  "guard_inv s \<longleftrightarrow>
     og_managed s \<longrightarrow>
       (\<forall>sec. og_section s = Some sec \<longrightarrow> expected_generation (gs_send sec) \<noteq> None) \<and>
       (\<forall>c. og_audio s \<noteq> Some (c, None)) \<and> list_all audio_authorized (og_sent s)"

lemma guard_inv_cong:
  assumes "guard_inv s" "og_managed s' = og_managed s" "og_section s' = og_section s" "og_audio s' = og_audio s \<or> og_audio s' = None"
    "og_sent s' = og_sent s"
  shows "guard_inv s'"
  using assms by (auto simp: guard_inv_def)

lemma guard_inv_enter:
  assumes "guard_inv s" "og_managed s' = og_managed s" "og_managed s \<Longrightarrow> expected_generation d \<noteq> None" "og_audio s' = og_audio s \<or> og_audio s' = None"
    "og_sent s' = og_sent s"
  shows "guard_inv (enter_send d audio s')"
  using assms by (auto simp: guard_inv_def enter_send_def)

lemma gate_guard_frame [simp]:
  "og_managed (clear_preroll s) = og_managed s" "og_managed (prune_preroll now s) = og_managed s" "og_managed (quarantine_output now c s) = og_managed s"
  "og_managed (cancel_arm_task s) = og_managed s" "og_managed (add_end p s) = og_managed s" "og_managed (end_tail n t now s) = og_managed s"
  "og_audio (clear_preroll s) = og_audio s" "og_audio (prune_preroll now s) = og_audio s" "og_audio (quarantine_output now c s) = og_audio s"
  "og_audio (cancel_arm_task s) = og_audio s" "og_audio (add_end p s) = og_audio s" "og_audio (end_tail n t now s) = og_audio s"
  by (simp_all add: clear_preroll_def prune_preroll_def quarantine_output_def cancel_arm_task_def add_end_def end_tail_def Let_def split: option.split)

lemma begin_output_guard: "guard_inv s \<Longrightarrow> (og_managed s \<Longrightarrow> e \<noteq> None) \<Longrightarrow> guard_inv (begin_output e audio s)"
  unfolding begin_output_def by (simp, intro impI guard_inv_enter [of s]) (simp_all add: expected_generation_def)

lemma arm_output_guard: "guard_inv s \<Longrightarrow> (og_managed s \<Longrightarrow> e \<noteq> None) \<Longrightarrow> guard_inv (arm_output e now s)"
proof -
  assume a: "guard_inv s" "og_managed s \<Longrightarrow> e \<noteq> None"
  let ?s = "(cancel_arm_task s)\<lparr>og_armed := True, og_arm_generation := og_arm_generation s + 1\<rparr>"
  have s: "guard_inv ?s" by (rule guard_inv_cong [OF a(1)]) simp_all
  have "guard_inv (?s\<lparr>og_arm_task := t, og_timers := ts\<rparr>)" for t ts by (rule guard_inv_cong [OF s]) simp_all
  then show ?thesis using begin_output_guard [OF s] a by (simp add: arm_output_def Let_def)
qed

lemma finish_end_guard: "guard_inv s \<Longrightarrow> guard_inv (finish_end e s)"
proof -
  assume a: "guard_inv s"
  let ?s = "(cancel_arm_task s)\<lparr>og_armed := False, og_arm_generation := og_arm_generation s + 1, og_arm_task := None\<rparr>"
  have "guard_inv (clear_preroll ?s)" by (rule guard_inv_cong [OF a]) simp_all
  moreover have "guard_inv (enter_send SendStopped False (clear_preroll (?s\<lparr>og_speaking := False, og_last_pcm := None\<rparr>)))"
    by (rule guard_inv_enter [OF a]) (simp_all add: expected_generation_def)
  ultimately show ?thesis by (simp add: finish_end_def Let_def)
qed

lemma resume_end_guard: "guard_inv s \<Longrightarrow> guard_inv (resume_end i now s)"
proof -
  assume a: "guard_inv s"
  let ?s = "s\<lparr>og_ends := take i (og_ends s) @ drop (Suc i) (og_ends s)\<rparr>"
  have s: "guard_inv ?s" by (rule guard_inv_cong [OF a]) simp_all
  have "guard_inv (end_tail n t now ?s)" "guard_inv (add_end p ?s)" for n t p by (rule guard_inv_cong [OF s]; simp)+
  then show ?thesis using finish_end_guard [OF s] by (simp add: resume_end_def Let_def split: end_phase.split)
qed

lemma forward_chunk_guard: "guard_inv s \<Longrightarrow> guard_inv (forward_chunk now s)"
proof (cases "og_audio s")
  case (Some p)
  assume a: "guard_inv s"
  obtain c e where p: "p = (c, e)" by (cases p)
  let ?s = "s\<lparr>og_audio := None\<rparr>"
  have q: "guard_inv (quarantine_output now c ?s)" by (rule guard_inv_cong [OF a]) simp_all
  have e: "og_managed s \<Longrightarrow> e \<noteq> None" using a Some p by (auto simp: guard_inv_def)
  have b: "guard_inv (begin_output e True (quarantine_output now c ?s))" by (rule begin_output_guard [OF q]) (simp add: e)
  have "guard_inv (s'\<lparr>og_delivered := n\<rparr>)" if "guard_inv s'" for s' n by (rule guard_inv_cong [OF that]) simp_all
  moreover have "guard_inv (enter_send (SendChunk c e) True (s\<lparr>og_audio := None, og_last_pcm := t\<rparr>))" for t
    by (rule guard_inv_enter [OF a]) (simp_all add: expected_generation_def e)
  moreover have "guard_inv ?s" by (rule guard_inv_cong [OF a]) simp_all
  ultimately show ?thesis using Some p q b by (simp add: forward_chunk_def Let_def)
qed (simp add: forward_chunk_def)

lemma write_frame_guard: "guard_inv s \<Longrightarrow> guard_inv (write_frame s)"
proof (cases "og_section s")
  case (Some sec)
  assume inv: "guard_inv s"
  show ?thesis
  proof (cases "gs_result sec")
    case None
    then show ?thesis
      using inv Some
      by (cases "gs_send sec") (auto simp: write_frame_def guard_inv_def frame_of_def generation_lost_def send_guard_def
          audio_authorized_def expected_generation_def)
  qed (simp add: write_frame_def Some inv)
qed (simp add: write_frame_def)

lemma leave_section_guard: "guard_inv s \<Longrightarrow> guard_inv (leave_section d s)"
  by (simp add: leave_section_def guard_inv_def)

lemma send_returned_guard: "guard_inv s \<Longrightarrow> guard_inv (send_returned now s)"
proof (cases "\<exists>sec written. og_section s = Some sec \<and> gs_result sec = Some written")
  case False
  assume "guard_inv s"
  then show ?thesis using False by (auto simp: send_returned_def split: option.split)
next
  case True
  assume inv: "guard_inv s"
  obtain sec written where sec: "og_section s = Some sec" "gs_result sec = Some written" using True by blast
  have c: "guard_inv (clear_preroll s)" "guard_inv (prune_preroll now s)" by (rule guard_inv_cong [OF inv]; simp)+
  have "guard_inv (enter_send (SendPreroll e) audio ((prune_preroll now s)\<lparr>og_last_pcm := t\<rparr>))" if "gs_send sec = SendStarted e" for e audio t
    by (rule guard_inv_enter [OF inv]) (use inv sec that in \<open>auto simp: guard_inv_def expected_generation_def\<close>)
  then have "guard_inv (after_started e (gs_audio sec) now s)" if "gs_send sec = SendStarted e" for e
    using that c by (simp add: after_started_def Let_def leave_section_guard)
  then show ?thesis using sec c inv by (simp add: send_returned_def leave_section_guard split: gate_send.split)
qed

lemma gate_guard_inv: "guard_inv s \<Longrightarrow> gate_enabled e s \<Longrightarrow> guard_inv (gate_step e s)"
proof -
  assume inv: "guard_inv s" and en: "gate_enabled e s"
  have n: "guard_inv (s\<lparr>og_now := now\<rparr>)" for now by (rule guard_inv_cong [OF inv]) simp_all
  show ?thesis
  proof (cases e)
    case SendFailed
    then show ?thesis using inv by (simp add: send_failed_def guard_inv_def)
  next
    case (ArmExpires g now)
    show ?thesis unfolding ArmExpires by (rule guard_inv_cong [OF inv]) (simp_all add: expire_arm_def Let_def)
  next
    case (ChunkArrives c)
    then show ?thesis using inv by (auto simp: receive_chunk_def guard_inv_def Let_def)
  next
    case (ArmsOutput e now)
    then show ?thesis using arm_output_guard [OF n] en by auto
  next
    case (EndsOutput a t now)
    show ?thesis unfolding EndsOutput by (rule guard_inv_cong [OF inv]) (simp_all add: start_end_def)
  next
    case (OutputAuthorized g)
    show ?thesis unfolding OutputAuthorized by (rule guard_inv_cong [OF inv]) simp_all
  qed (simp_all add: resume_end_guard forward_chunk_guard n write_frame_guard inv send_returned_guard guard_inv_cong [OF inv])
qed

section \<open>The quarantine\<close>

definition preroll_size :: "preroll_entry list \<Rightarrow> int" where
  "preroll_size es = int (sum_list (map (\<lambda>e. length (snd (snd e))) es))"

definition entry_before :: "preroll_entry \<Rightarrow> preroll_entry \<Rightarrow> bool" where
  "entry_before e f \<longleftrightarrow> fst e \<le> fst f \<and> fst (snd e) \<le> fst (snd f)"

definition preroll_inv :: "gate \<Rightarrow> bool" where
  "preroll_inv s \<longleftrightarrow>
     og_preroll_bytes s = preroll_size (og_preroll s) \<and> og_preroll_bytes s \<le> int REALTIME_OUTPUT_PREROLL_MAX_BYTES \<and>
     sorted_wrt entry_before (og_preroll s) \<and>
     list_all (\<lambda>(g, t, c). g \<le> og_arm_generation s \<and> t \<le> og_now s \<and> realtime_pcm_has_signal c) (og_preroll s)"

lemma preroll_size_simps [simp]:
  "preroll_size [] = 0" "preroll_size (e # es) = int (length (snd (snd e))) + preroll_size es" "preroll_size (es @ fs) = preroll_size es + preroll_size fs"
  by (simp_all add: preroll_size_def)

lemma preroll_size_nonneg: "0 \<le> preroll_size es"
  by (simp add: preroll_size_def)

text \<open>Popping from the left leaves a suffix whose first entry, if any, is kept.\<close>

lemma pop_while_suffix:
  assumes "n = preroll_size es"
  shows "\<exists>k. fst (pop_while p es n) = drop k es" "snd (pop_while p es n) = preroll_size (fst (pop_while p es n))"
    "fst (pop_while p es n) = [] \<or> \<not> p (hd (fst (pop_while p es n))) (snd (pop_while p es n))"
proof -
  have "(\<exists>k. fst (pop_while p es n) = drop k es) \<and> snd (pop_while p es n) = preroll_size (fst (pop_while p es n)) \<and>
    (fst (pop_while p es n) = [] \<or> \<not> p (hd (fst (pop_while p es n))) (snd (pop_while p es n)))"
    using assms
  proof (induction p es n rule: pop_while.induct)
    case (2 p e es n)
    show ?case
    proof (cases "p e n")
      case True
      then show ?thesis using 2 by (simp, metis drop_Suc_Cons)
    next
      case False
      then show ?thesis using 2(2) by (simp, metis drop_0)
    qed
  qed simp
  then show "\<exists>k. fst (pop_while p es n) = drop k es" "snd (pop_while p es n) = preroll_size (fst (pop_while p es n))"
    "fst (pop_while p es n) = [] \<or> \<not> p (hd (fst (pop_while p es n))) (snd (pop_while p es n))" by blast+
qed

lemma sorted_wrt_drop: "sorted_wrt P xs \<Longrightarrow> sorted_wrt P (drop k xs)"
  by (metis append_take_drop_id sorted_wrt_append)

lemma list_all_drop: "list_all P xs \<Longrightarrow> list_all P (drop k xs)"
  by (metis append_take_drop_id list_all_append)

lemma preroll_size_drop: "preroll_size (drop k es) \<le> preroll_size es"
proof -
  have "preroll_size es = preroll_size (take k es) + preroll_size (drop k es)" by (metis append_take_drop_id preroll_size_simps(3))
  then show ?thesis using preroll_size_nonneg [of "take k es"] by simp
qed

lemma preroll_inv_cong:
  assumes "preroll_inv s" "og_preroll s' = og_preroll s" "og_preroll_bytes s' = og_preroll_bytes s" "og_arm_generation s \<le> og_arm_generation s'"
    "og_now s \<le> og_now s'"
  shows "preroll_inv s'"
  using assms by (fastforce simp: preroll_inv_def list_all_iff)

lemma preroll_inv_clear: "og_preroll s = [] \<Longrightarrow> og_preroll_bytes s = 0 \<Longrightarrow> preroll_inv s"
  by (simp add: preroll_inv_def)

lemma prune_preroll_inv:
  assumes "preroll_inv s"
  shows "preroll_inv (prune_preroll now s)"
    "list_all (\<lambda>(g, t, c). g = og_arm_generation s \<and> now - REALTIME_OUTPUT_PREROLL_TTL_SECONDS \<le> t \<and> realtime_pcm_has_signal c)
       (og_preroll (prune_preroll now s))"
proof -
  let ?p = "\<lambda>(g, t, c) n. g \<noteq> og_arm_generation s \<or> t < now - REALTIME_OUTPUT_PREROLL_TTL_SECONDS"
  let ?kept = "pop_while ?p (og_preroll s) (og_preroll_bytes s)"
  have size: "og_preroll_bytes s = preroll_size (og_preroll s)" using assms by (simp add: preroll_inv_def)
  obtain k where k: "fst ?kept = drop k (og_preroll s)" using pop_while_suffix(1) [OF size] by blast
  have n: "snd ?kept = preroll_size (fst ?kept)" by (rule pop_while_suffix(2) [OF size])
  have sorted: "sorted_wrt entry_before (fst ?kept)"
    and all: "list_all (\<lambda>(g, t, c). g \<le> og_arm_generation s \<and> t \<le> og_now s \<and> realtime_pcm_has_signal c) (fst ?kept)"
    using assms sorted_wrt_drop list_all_drop unfolding k preroll_inv_def by auto
  have "preroll_size (fst ?kept) \<le> int REALTIME_OUTPUT_PREROLL_MAX_BYTES"
    using preroll_size_drop [of k "og_preroll s"] assms size unfolding k preroll_inv_def by simp
  then show "preroll_inv (prune_preroll now s)"
    using n sorted all by (simp add: preroll_inv_def prune_preroll_def Let_def)
  show "list_all (\<lambda>(g, t, c). g = og_arm_generation s \<and> now - REALTIME_OUTPUT_PREROLL_TTL_SECONDS \<le> t \<and> realtime_pcm_has_signal c)
       (og_preroll (prune_preroll now s))"
  proof (cases "fst ?kept")
    case Nil
    then show ?thesis by (simp add: prune_preroll_def Let_def)
  next
    case (Cons e es)
    then have "\<not> ?p e (snd ?kept)" using pop_while_suffix(3) [OF size, of ?p] by simp
    then show ?thesis
      using sorted all unfolding prune_preroll_def Let_def Cons
      by (fastforce simp: list_all_iff entry_before_def Cons)
  qed
qed

lemma preroll_frame [simp]:
  "og_preroll (clear_preroll s) = []" "og_preroll_bytes (clear_preroll s) = 0"
  "og_preroll_bytes (cancel_arm_task s) = og_preroll_bytes s" "og_preroll (cancel_arm_task s) = og_preroll s"
  "og_arm_generation (cancel_arm_task s) = og_arm_generation s" "og_now (cancel_arm_task s) = og_now s"
  "og_arm_generation (prune_preroll now s) = og_arm_generation s" "og_now (prune_preroll now s) = og_now s"
  "og_preroll (begin_output e a s) = og_preroll s" "og_preroll_bytes (begin_output e a s) = og_preroll_bytes s"
  "og_arm_generation (begin_output e a s) = og_arm_generation s" "og_now (begin_output e a s) = og_now s"
  "og_preroll (add_end p s) = og_preroll s" "og_preroll_bytes (add_end p s) = og_preroll_bytes s"
  "og_arm_generation (add_end p s) = og_arm_generation s" "og_now (add_end p s) = og_now s"
  "og_preroll (end_tail n t now s) = og_preroll s" "og_preroll_bytes (end_tail n t now s) = og_preroll_bytes s"
  "og_arm_generation (end_tail n t now s) = og_arm_generation s" "og_now (end_tail n t now s) = og_now s"
  "og_preroll (enter_send d a s) = og_preroll s" "og_preroll_bytes (enter_send d a s) = og_preroll_bytes s"
  "og_arm_generation (enter_send d a s) = og_arm_generation s" "og_now (enter_send d a s) = og_now s"
  "og_preroll (leave_section b s) = og_preroll s" "og_preroll_bytes (leave_section b s) = og_preroll_bytes s"
  "og_arm_generation (leave_section b s) = og_arm_generation s" "og_now (leave_section b s) = og_now s"
  "og_preroll (write_frame s) = og_preroll s" "og_preroll_bytes (write_frame s) = og_preroll_bytes s"
  "og_arm_generation (write_frame s) = og_arm_generation s" "og_now (write_frame s) = og_now s"
  by (simp_all add: clear_preroll_def prune_preroll_def cancel_arm_task_def add_end_def end_tail_def begin_output_def enter_send_def
      leave_section_def write_frame_def Let_def split: option.split)

lemma quarantine_inv:
  assumes "preroll_inv s" "og_now s = now"
  shows "preroll_inv (quarantine_output now chunk s)"
proof (cases "og_armed s \<and> realtime_pcm_has_signal chunk")
  case True
  let ?s = "prune_preroll now s"
  let ?es = "og_preroll ?s @ [(og_arm_generation ?s, now, chunk)]"
  let ?p = "\<lambda>(e :: preroll_entry) n. int REALTIME_OUTPUT_PREROLL_MAX_BYTES < n"
  let ?kept = "pop_while ?p ?es (og_preroll_bytes ?s + int (length chunk))"
  have s: "preroll_inv ?s" by (rule prune_preroll_inv(1) [OF assms(1)])
  then have size: "og_preroll_bytes ?s + int (length chunk) = preroll_size ?es" by (simp add: preroll_inv_def)
  obtain k where k: "fst ?kept = drop k ?es" using pop_while_suffix(1) [OF size] by blast
  have n: "snd ?kept = preroll_size (fst ?kept)" by (rule pop_while_suffix(2) [OF size])
  have e: "sorted_wrt entry_before ?es"
      "list_all (\<lambda>(g, t, c). g \<le> og_arm_generation ?s \<and> t \<le> og_now ?s \<and> realtime_pcm_has_signal c) ?es"
    using s True assms(2) by (auto simp: preroll_inv_def sorted_wrt_append entry_before_def list_all_iff)
  have "snd ?kept \<le> int REALTIME_OUTPUT_PREROLL_MAX_BYTES"
    using pop_while_suffix(3) [OF size, of ?p] n by auto
  moreover have f: "sorted_wrt entry_before (fst ?kept)"
      "list_all (\<lambda>(g, t, c). g \<le> og_arm_generation ?s \<and> t \<le> og_now ?s \<and> realtime_pcm_has_signal c) (fst ?kept)"
    unfolding k using sorted_wrt_drop [OF e(1)] list_all_drop [OF e(2)] by blast+
  ultimately have "preroll_inv (?s\<lparr>og_preroll := fst ?kept, og_preroll_bytes := snd ?kept\<rparr>)"
    using n f by (simp add: preroll_inv_def)
  then show ?thesis using True by (simp add: quarantine_output_def Let_def)
qed (use assms in \<open>auto simp: quarantine_output_def\<close>)

lemma gate_preroll_inv:
  assumes inv: "preroll_inv s" and en: "gate_enabled e s"
  shows "preroll_inv (gate_step e s)"
proof (cases e)
  case (ChunkForwarded now)
  have n: "preroll_inv (s\<lparr>og_now := now, og_audio := None\<rparr>)" by (rule preroll_inv_cong [OF inv]) (use en ChunkForwarded in simp_all)
  have "preroll_inv (quarantine_output now c (s\<lparr>og_now := now, og_audio := None\<rparr>))" for c by (rule quarantine_inv [OF n]) simp
  note q = preroll_inv_cong [OF this]
  have "preroll_inv (s\<lparr>og_now := now\<rparr>)" by (rule preroll_inv_cong [OF n]) simp_all
  then show ?thesis
    using q n unfolding ChunkForwarded gate_step.simps forward_chunk_def
    by (auto simp: Let_def split: option.split intro: preroll_inv_cong [OF n])
next
  case (EndResumes i now)
  then have "preroll_inv (finish_end x s')" if "og_preroll s' = og_preroll s" for s' x
    using inv that by (auto simp: finish_end_def Let_def preroll_inv_def)
  then show ?thesis
    using en unfolding EndResumes gate_step.simps resume_end_def
    by (auto simp: Let_def split: end_phase.split intro: preroll_inv_cong [OF inv])
next
  case (SendReturned now)
  have n: "preroll_inv (s\<lparr>og_now := now\<rparr>)" by (rule preroll_inv_cong [OF inv]) (use en SendReturned in simp_all)
  note p = prune_preroll_inv(1) [OF n, of now]
  have "preroll_inv (after_started x a now (s\<lparr>og_now := now\<rparr>))" for x a
    using p by (auto simp: after_started_def Let_def preroll_inv_clear intro: preroll_inv_cong [OF p])
  moreover have "preroll_inv (leave_section b (clear_preroll t))" for b t by (simp add: preroll_inv_clear)
  moreover have "preroll_inv (leave_section b (s\<lparr>og_now := now\<rparr>))" for b by (rule preroll_inv_cong [OF n]) simp_all
  ultimately show ?thesis
    using n unfolding SendReturned gate_step.simps send_returned_def by (auto split: option.split gate_send.split)
next
  case (ArmsOutput x now)
  then show ?thesis using en by (auto simp: arm_output_def Let_def intro: preroll_inv_cong [OF inv])
next
  case (ArmExpires g now)
  then show ?thesis using en by (auto simp: expire_arm_def Let_def preroll_inv_clear intro: preroll_inv_cong [OF inv])
next
  case (EndsOutput a t now)
  then show ?thesis using en by (auto simp: start_end_def intro: preroll_inv_cong [OF inv])
qed (auto simp: receive_chunk_def send_failed_def Let_def intro: preroll_inv_cong [OF inv])

section \<open>The tail\<close>

definition tails_inv :: "gate \<Rightarrow> bool" where
  "tails_inv s \<longleftrightarrow> (\<forall>n t w. EndTail n t w \<in> set (og_ends s) \<longrightarrow> w \<le> t + REALTIME_OUTPUT_TAIL_HARD_CAP_SECONDS)"

lemma tail_wake_bound: "tail_wake t now s = Some w \<Longrightarrow> now < w \<and> w \<le> t + REALTIME_OUTPUT_TAIL_HARD_CAP_SECONDS"
  by (auto simp: tail_wake_def Let_def min_def split: if_splits)

lemma tail_wake_late: "t + REALTIME_OUTPUT_TAIL_HARD_CAP_SECONDS \<le> now \<Longrightarrow> tail_wake t now s = None"
  by (simp add: tail_wake_def Let_def)

lemma end_tail_cases:
  "og_ends (end_tail n t now s) = og_ends s \<or> og_ends (end_tail n t now s) = og_ends s @ [EndFinal (Some n)] \<or>
   (\<exists>w. now < w \<and> w \<le> t + REALTIME_OUTPUT_TAIL_HARD_CAP_SECONDS \<and> og_ends (end_tail n t now s) = og_ends s @ [EndTail n t w])"
  using tail_wake_bound [of t now s] by (auto simp: end_tail_def add_end_def split: option.split)

lemma ends_frame [simp]:
  "og_ends (clear_preroll s) = og_ends s" "og_ends (cancel_arm_task s) = og_ends s" "og_ends (begin_output e a s) = og_ends s"
  "og_ends (prune_preroll now s) = og_ends s" "og_ends (quarantine_output now c s) = og_ends s" "og_ends (leave_section b s) = og_ends s"
  "og_ends (enter_send d a s) = og_ends s" "og_ends (write_frame s) = og_ends s" "og_ends (arm_output e now s) = og_ends s"
  "og_ends (expire_arm g s) = og_ends s" "og_ends (finish_end x s) = og_ends s" "og_ends (forward_chunk now s) = og_ends s"
  "og_ends (send_returned now s) = og_ends s" "og_ends (send_failed s) = og_ends s" "og_ends (receive_chunk c s) = og_ends s"
  "og_ends (add_end p s) = og_ends s @ [p]"
  by (simp_all add: clear_preroll_def cancel_arm_task_def begin_output_def prune_preroll_def quarantine_output_def leave_section_def
      enter_send_def write_frame_def arm_output_def expire_arm_def finish_end_def forward_chunk_def send_returned_def after_started_def
      send_failed_def receive_chunk_def add_end_def Let_def split: option.split gate_send.split prod.split)

lemma gate_tails_inv: "tails_inv s \<Longrightarrow> tails_inv (gate_step e s)"
proof (cases e)
  case (EndsOutput a t now)
  assume "tails_inv s"
  then show ?thesis using EndsOutput end_tail_cases [of "og_epoch s" t now "s\<lparr>og_now := now\<rparr>"]
    by (auto simp: start_end_def tails_inv_def)
next
  case (EndResumes i now)
  let ?s = "s\<lparr>og_now := now, og_ends := take i (og_ends s) @ drop (Suc i) (og_ends s)\<rparr>"
  assume inv: "tails_inv s"
  then have s: "tails_inv ?s" by (auto simp: tails_inv_def dest: in_set_takeD in_set_dropD)
  have "tails_inv (end_tail n t now ?s)" for n t using end_tail_cases [of n t now ?s] s by (auto simp: tails_inv_def)
  moreover have "tails_inv (add_end (EndFinal x) ?s)" "tails_inv (finish_end x ?s)" for x using s by (auto simp: tails_inv_def)
  ultimately show ?thesis using EndResumes by (simp add: resume_end_def Let_def split: end_phase.split)
qed (simp_all add: tails_inv_def)

section \<open>Reachable gates\<close>

lemma gate_reachable_invs: "gate_reachable s \<Longrightarrow> frames_inv s \<and> guard_inv s \<and> preroll_inv s \<and> tails_inv s"
proof (induction rule: gate_reachable.induct)
  case (initial managed now)
  show ?case by (simp add: new_gate_def frames_inv_def gate_epoch_def guard_inv_def preroll_inv_def tails_inv_def)
qed (blast intro: gate_frames_inv gate_guard_inv gate_preroll_inv gate_tails_inv)

text \<open>One answer of a bridge-managed session, up to its first audio and to its end.\<close>

definition loud_chunk :: bytes where "loud_chunk = [0, 16]"

definition started_run :: "gate_event list" where
  "started_run =
     [GenerationBegins, OutputAuthorized 1, ArmsOutput (Some 1) 0, ChunkArrives loud_chunk, ChunkForwarded 1, FrameWritten]"

definition tail_run :: "gate_event list" where
  "tail_run = started_run @ [SendReturned 1, FrameWritten, SendReturned 1, EndsOutput True 1 1]"

definition answered_run :: "gate_event list" where
  "answered_run = tail_run @ [EndResumes 0 2, EndResumes 0 2, FrameWritten, SendReturned 2]"

lemma loud_signal [simp]: "realtime_pcm_has_signal loud_chunk"
  by code_simp

lemma loud_length [simp]: "length loud_chunk = 2"
  by (simp add: loud_chunk_def)

lemmas gate_eval =
  started_run_def tail_run_def answered_run_def new_gate_def arm_output_def receive_chunk_def forward_chunk_def quarantine_output_def
  prune_preroll_def begin_output_def cancel_arm_task_def enter_send_def write_frame_def send_guard_def generation_lost_def
  frame_of_def send_returned_def after_started_def leave_section_def clear_preroll_def start_end_def end_tail_def add_end_def
  resume_end_def finish_end_def tail_wake_def end_ready_def gate_epoch_def Let_def min_def max_def
  REALTIME_OUTPUT_TAIL_SECONDS_def REALTIME_OUTPUT_TAIL_HARD_CAP_SECONDS_def REALTIME_OUTPUT_ARM_TIMEOUT_SECONDS_def
  REALTIME_OUTPUT_PREROLL_TTL_SECONDS_def REALTIME_OUTPUT_PREROLL_MAX_BYTES_def REALTIME_OUTPUT_PREROLL_MILLISECONDS_def

lemma answered_run_result:
  "map_option (\<lambda>s. (og_sent s, og_failed s, gate_epoch s, og_managed s)) (gate_run answered_run (new_gate True 0)) =
   Some ([SpeakingStarted 1, OutputAudio loud_chunk (Some 1) 1, SpeakingStopped 1], False, (1, False), True)"
  by (simp add: gate_eval)

lemma started_run_result:
  "map_option (\<lambda>s. (og_section s, og_now s, og_preroll s, og_arm_generation s)) (gate_run started_run (new_gate True 0)) =
   Some (Some \<lparr>gs_send = SendStarted (Some 1), gs_audio = True, gs_result = Some True\<rparr>, 1, [(1, 1, loud_chunk)], 1)"
  by (simp add: gate_eval)

lemma tail_run_result:
  "map_option (\<lambda>s. (og_section s, og_now s, og_ends s)) (gate_run tail_run (new_gate True 0)) =
   Some (None, 1, [EndTail 1 1 (28/25)])"
  by (simp add: gate_eval)

section \<open>Properties\<close>

text \<open>C14: the frames the device gets are numbered epochs: \<^verbatim>\<open>speaking.started\<close> with the next number, audio, and
  one \<^verbatim>\<open>speaking.stopped\<close> with the same number, in every interleaving of the provider's events, audio, timers
  and the user's interruptions, as long as no send has failed.\<close>

theorem device_hears_numbered_epochs:
  assumes "gate_reachable s" "\<not> og_failed s"
  shows "epochs_of (og_sent s) = Some (gate_epoch s)"
  using gate_reachable_invs [OF assms(1)] assms(2) by (simp add: frames_inv_def)

theorem device_hears_numbered_epochs_witness:
  "\<exists>s. gate_run answered_run (new_gate True 0) = Some s \<and> og_sent s = [SpeakingStarted 1, OutputAudio loud_chunk (Some 1) 1, SpeakingStopped 1] \<and>
     epochs_of (og_sent s) = Some (1, False)"
proof -
  obtain s where s: "gate_run answered_run (new_gate True 0) = Some s" "\<not> og_failed s" "gate_epoch s = (1, False)"
    "og_sent s = [SpeakingStarted 1, OutputAudio loud_chunk (Some 1) 1, SpeakingStopped 1]" using answered_run_result by auto
  show ?thesis
    using device_hears_numbered_epochs [OF gate_run_reachable [OF gate_reachable.initial s(1)] s(2)] s by metis
qed

text \<open>C19: in a bridge-managed session every audio frame is written while the current generation of the user's
  speech is the one whose output the bridge authorized, so none follows an utterance that began before it.\<close>

theorem audio_belongs_to_current_speech:
  assumes "gate_reachable s" "og_managed s"
  shows "list_all audio_authorized (og_sent s)"
  using gate_reachable_invs [OF assms(1)] assms(2) by (simp add: guard_inv_def)

theorem audio_belongs_to_current_speech_witness:
  "\<exists>s. gate_run answered_run (new_gate True 0) = Some s \<and> OutputAudio loud_chunk (Some 1) 1 \<in> set (og_sent s) \<and>
     list_all audio_authorized (og_sent s)"
proof -
  obtain s where s: "gate_run answered_run (new_gate True 0) = Some s" "og_managed s"
    "og_sent s = [SpeakingStarted 1, OutputAudio loud_chunk (Some 1) 1, SpeakingStopped 1]" using answered_run_result by auto
  show ?thesis
    using audio_belongs_to_current_speech [OF gate_run_reachable [OF gate_reachable.initial s(1)] s(2)] s by simp
qed

text \<open>the audio an epoch opens with was quarantined under the current arm at most half a second ago, is not
  silence, and holds at most 200 ms.\<close>

theorem preroll_is_fresh:
  assumes "gate_reachable s" "gate_enabled (SendReturned now) s"
    "og_section s = Some \<lparr>gs_send = SendStarted e, gs_audio = audio, gs_result = Some True\<rparr>"
    "og_section (gate_step (SendReturned now) s) = Some sec"
  shows "list_all (\<lambda>(g, t, c). g = og_arm_generation s \<and> now - 1/2 \<le> t \<and> realtime_pcm_has_signal c)
           (og_preroll (gate_step (SendReturned now) s)) \<and>
         preroll_size (og_preroll (gate_step (SendReturned now) s)) \<le> 9600"
proof -
  let ?s = "s\<lparr>og_now := now\<rparr>"
  have "preroll_inv ?s"
    using gate_reachable_invs [OF assms(1)] assms(2) by (intro preroll_inv_cong [of s ?s]) simp_all
  note p = prune_preroll_inv [OF this, of now]
  have "og_preroll (gate_step (SendReturned now) s) = og_preroll (prune_preroll now ?s)"
    using assms(3,4) by (simp add: send_returned_def after_started_def leave_section_def Let_def split: if_splits)
  then show ?thesis
    using p by (simp add: preroll_inv_def REALTIME_OUTPUT_PREROLL_TTL_SECONDS_def REALTIME_OUTPUT_PREROLL_MAX_BYTES_def
        REALTIME_OUTPUT_PREROLL_MILLISECONDS_def)
qed

theorem preroll_is_fresh_witness:
  "\<exists>s. gate_run started_run (new_gate True 0) = Some s \<and> og_section (gate_step (SendReturned 1) s) \<noteq> None \<and>
     list_all (\<lambda>(g, t, c). g = 1 \<and> 1/2 \<le> t) (og_preroll (gate_step (SendReturned 1) s))"
proof -
  obtain s where s: "gate_run started_run (new_gate True 0) = Some s" "og_now s = 1" "og_arm_generation s = 1"
    "og_section s = Some \<lparr>gs_send = SendStarted (Some 1), gs_audio = True, gs_result = Some True\<rparr>"
    using started_run_result by auto
  have "map_option (\<lambda>s. og_section (gate_step (SendReturned 1) s) = None) (gate_run started_run (new_gate True 0)) = Some False"
    by (simp add: gate_eval)
  then obtain sec where sec: "og_section (gate_step (SendReturned 1) s) = Some sec" using s(1) by auto
  have "gate_enabled (SendReturned 1) s" using s(2) by simp
  from preroll_is_fresh [OF gate_run_reachable [OF gate_reachable.initial s(1)] this s(4) sec]
  have "list_all (\<lambda>(g, t, c). g = 1 \<and> 1/2 \<le> t) (og_preroll (gate_step (SendReturned 1) s))"
    unfolding s(3) by (auto simp: list_all_iff)
  then show ?thesis using s(1) sec by blast
qed

text \<open>a terminal that waits for the tail of its epoch sleeps at most to one second after the terminal, and
  from then on goes on to close the epoch or finds it closed.\<close>

theorem tail_ends_in_time:
  assumes "gate_reachable s" "i < length (og_ends s)" "og_ends s ! i = EndTail epoch terminal_at wake"
  shows "wake \<le> terminal_at + 1 \<and>
    (terminal_at + 1 \<le> now \<longrightarrow>
       og_ends (gate_step (EndResumes i now) s) = take i (og_ends s) @ drop (Suc i) (og_ends s) \<and>
         \<not> (og_speaking s \<and> og_epoch s = epoch \<and> \<not> og_stop s) \<or>
       og_ends (gate_step (EndResumes i now) s) = take i (og_ends s) @ drop (Suc i) (og_ends s) @ [EndFinal (Some epoch)])"
proof -
  have "EndTail epoch terminal_at wake \<in> set (og_ends s)" using assms(2,3) by (metis nth_mem)
  then have "wake \<le> terminal_at + 1"
    using gate_reachable_invs [OF assms(1)] by (simp add: tails_inv_def REALTIME_OUTPUT_TAIL_HARD_CAP_SECONDS_def)
  then show ?thesis
    using assms(3) tail_wake_late [of terminal_at now]
    by (auto simp: resume_end_def end_tail_def Let_def REALTIME_OUTPUT_TAIL_HARD_CAP_SECONDS_def)
qed

theorem tail_ends_in_time_witness:
  "\<exists>s. gate_run tail_run (new_gate True 0) = Some s \<and> og_ends s = [EndTail 1 1 (28/25)] \<and> (28/25 :: rat) \<le> 1 + 1 \<and>
     (og_ends (gate_step (EndResumes 0 2) s) = [] \<or> og_ends (gate_step (EndResumes 0 2) s) = [EndFinal (Some 1)])"
proof -
  obtain s where s: "gate_run tail_run (new_gate True 0) = Some s" "og_ends s = [EndTail 1 1 (28/25)]" using tail_run_result by auto
  show ?thesis
    using tail_ends_in_time [OF gate_run_reachable [OF gate_reachable.initial s(1)], of 0 1 1 "28/25" 2] s by auto
qed

text \<open>
  A send of \<^verbatim>\<open>speaking.started\<close> that takes longer than the quarantine keeps its audio: the epoch opens
  empty, and the call still counts as output the device got.
\<close>

lemma empty_epoch_counts_as_output:
  "map_option (\<lambda>s. (og_sent s, og_delivered s))
     (gate_run [ArmsOutput None 0, ChunkArrives loud_chunk, ChunkForwarded 1, FrameWritten, SendReturned 2] (new_gate False 0)) =
   Some ([SpeakingStarted 1], 1)"
  by (simp add: gate_eval)

end
