(* ===== verification/Transcripts.thy ===== *)
theory Transcripts
  imports Py_Text Turn_Events
begin

text \<open>
  The transcript of one utterance in \<^verbatim>\<open>bridge/service.py\<close>: what the events of a realtime session say the
  user said, the checks at the boundary of a session that is kept for synthesis, and the loop of
  \<^verbatim>\<open>_wait_for_user_transcript\<close>, one turn at a time. \<open>frepr\<close> formats floats, \<open>loads\<close> is \<^verbatim>\<open>json.loads\<close> and
  \<open>decode\<close> strict UTF-8, both \<open>None\<close> on an error; \<open>decode_replace\<close> is \<^verbatim>\<open>decode(errors="replace")\<close>.
\<close>

definition TRANSCRIPTION_FRAGMENT_QUIET_SECONDS :: rat where "TRANSCRIPTION_FRAGMENT_QUIET_SECONDS = 2"

section \<open>What the user said\<close>

text \<open>A value that is a string with a character that is not white space.\<close>

definition spoken_text :: "json \<Rightarrow> string option" where
  "spoken_text v = (case v of JStr s \<Rightarrow> if strip s = [] then None else Some s | _ \<Rightarrow> None)"

definition user_side :: "string \<Rightarrow> bool" where
  "user_side role \<longleftrightarrow> role = ''user'' \<or> role = ''input''"

text \<open>\<^verbatim>\<open>str(m.get("role", "")).lower()\<close>.\<close>

definition speaker_role :: "(pyfloat \<Rightarrow> string) \<Rightarrow> obj \<Rightarrow> string" where
  "speaker_role frepr m = lower (py_str frepr (jget_default m ''role'' (JStr [])))"

fun first_spoken :: "obj \<Rightarrow> string list \<Rightarrow> string option" where
  "first_spoken m [] = None"
| "first_spoken m (k # ks) = (case spoken_text (jget m k) of None \<Rightarrow> first_spoken m ks | Some s \<Rightarrow> Some (strip s))"

definition or_empty :: "string option \<Rightarrow> string" where
  "or_empty v = (case v of None \<Rightarrow> [] | Some s \<Rightarrow> s)"

definition delegation_text :: "obj \<Rightarrow> string" where
  "delegation_text item =
     (case jget item ''content'' of
        JArr parts \<Rightarrow>
          strip (concat (map (\<lambda>part.
            case part of
              JObj m \<Rightarrow> if jget m ''type'' = JStr ''input_text'' then or_empty (text_of (jget m ''text'')) else []
            | _ \<Rightarrow> []) parts))
      | _ \<Rightarrow> [])"

definition turn_transcript :: "(pyfloat \<Rightarrow> string) \<Rightarrow> obj \<Rightarrow> string" where
  "turn_transcript frepr event =
     (let turn = jget event ''turn'';
          turn_role = (case turn of JObj m \<Rightarrow> speaker_role frepr m | _ \<Rightarrow> []);
          role = (if turn_role = [] then speaker_role frepr event else turn_role);
          spoken_keys = (if user_side role then [''transcript'', ''text''] else [])
      in if role \<noteq> [] \<and> \<not> user_side role then []
         else case first_spoken event (''input_transcript'' # spoken_keys) of
                Some t \<Rightarrow> t
              | None \<Rightarrow>
                  (case turn of JObj m \<Rightarrow> or_empty (first_spoken m (''input_transcript'' # spoken_keys)) | _ \<Rightarrow> []))"

definition data_channel_transcript :: "(pyfloat \<Rightarrow> string) \<Rightarrow> obj \<Rightarrow> string" where
  "data_channel_transcript frepr event =
     (let event_type = jget event ''type'' in
      if event_type = JStr ''input_transcript.added''
      then or_empty (spoken_text
             (case jget event ''item'' of
                JObj item \<Rightarrow> if jget item ''type'' = JStr ''input_transcript'' then jget item ''text'' else jget event ''text''
              | _ \<Rightarrow> jget event ''text''))
      else if event_type = JStr ''delegation.created''
      then (case spoken_text (jget event ''input_transcript'') of
              Some s \<Rightarrow> strip s
            | None \<Rightarrow>
                (case jget event ''item'' of
                   JObj item \<Rightarrow> if jget item ''type'' = JStr ''delegation'' then delegation_text item else []
                 | _ \<Rightarrow> []))
      else if event_type \<noteq> JStr ''turn.done'' then []
      else turn_transcript frepr event)"

fun starts_with :: "string \<Rightarrow> string \<Rightarrow> bool" where
  "starts_with s [] = True"
| "starts_with [] (c # cs) = False"
| "starts_with (a # s) (c # cs) = (a = c \<and> starts_with s cs)"

fun contains_text :: "string \<Rightarrow> string \<Rightarrow> bool" where
  "contains_text [] needle = (needle = [])"
| "contains_text (a # s) needle = (starts_with (a # s) needle \<or> contains_text s needle)"

definition assembled_transcript :: "string list \<Rightarrow> string list \<Rightarrow> string" where
  "assembled_transcript deltas data =
     (let normalized = strip (concat deltas); raw = strip (concat data)
      in if raw = [] then normalized
         else if normalized = [] \<or> starts_with raw normalized then raw
         else if starts_with normalized raw then normalized
         else raw)"

fun active_transcript :: "(pyfloat \<Rightarrow> string) \<Rightarrow> json list \<Rightarrow> string" where
  "active_transcript frepr [] = []"
| "active_transcript frepr (JObj entry # es) =
     (if \<not> user_side (speaker_role frepr entry) then active_transcript frepr es
      else case spoken_text (jget entry ''text'') of None \<Rightarrow> active_transcript frepr es | Some s \<Rightarrow> strip s)"
| "active_transcript frepr (e # es) = active_transcript frepr es"

definition realtime_item_user_transcript :: "(pyfloat \<Rightarrow> string) \<Rightarrow> json \<Rightarrow> string" where
  "realtime_item_user_transcript frepr v =
     (case v of
        JObj item \<Rightarrow>
          if jget item ''type'' \<noteq> JStr ''handoff_request'' then []
          else (case spoken_text (jget item ''input_transcript'') of
                  Some s \<Rightarrow> strip s
                | None \<Rightarrow> (case jget item ''active_transcript'' of
                             JArr entries \<Rightarrow> active_transcript frepr (rev entries) | _ \<Rightarrow> []))
      | _ \<Rightarrow> [])"

section \<open>The boundary of a retained session\<close>

record boundary =
  sb_input_turn_id :: "string option"
  sb_authoritative_input :: string
  sb_invalidated :: bool

definition new_boundary :: boundary where
  "new_boundary = \<lparr>sb_input_turn_id = None, sb_authoritative_input = [], sb_invalidated = False\<rparr>"

definition invalid_data :: py_error where
  "invalid_data = ProtocolError ''retained speech session received an invalid data event''"

definition invalid_app :: py_error where
  "invalid_app = ProtocolError ''retained speech session received an invalid app event''"

definition assistant_output :: py_error where
  "assistant_output = ProtocolError ''retained speech session produced assistant output''"

definition check_role :: "json \<Rightarrow> unit result" where
  "check_role v =
     (case v of
        JStr role \<Rightarrow>
          if role = [] then Inl invalid_data
          else if lower role = ''assistant'' \<or> lower role = ''output'' then Inl assistant_output
          else if \<not> user_side (lower role) then Inl invalid_data
          else Inr ()
      | _ \<Rightarrow> Inl invalid_data)"

definition declared_roles :: "json \<Rightarrow> json list" where
  "declared_roles v = (case v of JObj m \<Rightarrow> if has_key m ''role'' then [jget m ''role''] else [] | _ \<Rightarrow> [])"

definition validate_input_roles :: "obj \<Rightarrow> json \<Rightarrow> bool \<Rightarrow> unit result" where
  "validate_input_roles event nested required =
     (let roles = declared_roles (JObj event) @ declared_roles nested
      in bind_result (collect_results (map check_role roles)) (\<lambda>_. raise_if (required \<and> roles = []) invalid_data))"

definition is_input_entry :: "json \<Rightarrow> bool" where
  "is_input_entry e =
     (case e of
        JObj m \<Rightarrow> (case jget m ''role'' of JStr r \<Rightarrow> user_side (lower r) | _ \<Rightarrow> False) \<and> is_text (jget m ''text'')
      | _ \<Rightarrow> False)"

definition is_valid_input_handoff_item :: "json \<Rightarrow> bool" where
  "is_valid_input_handoff_item v =
     (case v of
        JObj item \<Rightarrow>
          jget item ''type'' = JStr ''handoff_request'' \<and>
          (let transcript_valid = (spoken_text (jget item ''input_transcript'') \<noteq> None)
           in if has_key item ''active_transcript''
              then (case jget item ''active_transcript'' of
                      JArr entries \<Rightarrow> list_all is_input_entry entries \<and> (transcript_valid \<or> entries \<noteq> [])
                    | _ \<Rightarrow> False)
              else transcript_valid)
      | _ \<Rightarrow> False)"

text \<open>
  \<^verbatim>\<open>_validate_speech_handoff_app_event\<close>; a method that cannot be hashed is refused by the set membership.
\<close>

definition validate_app_event :: "obj \<Rightarrow> unit result" where
  "validate_app_event event =
     (let event_method = jget event ''method'' in
      if event_method = JStr ''bridge/appServerExited''
      then Inl (AppServerExited ''Codex app-server exited during retained speech session'')
      else if unhashable event_method then Inl (TypeError ''unhashable type'')
      else if event_method = JStr ''thread/realtime/error'' \<or> event_method = JStr ''thread/realtime/closed''
      then Inl (ProtocolError ''retained speech session closed'')
      else case jget event ''params'' of
        JObj params \<Rightarrow>
          if non_empty_text (jget params ''threadId'') = None then Inl invalid_app
          else if event_method = JStr ''thread/realtime/started''
          then raise_if (\<not> is_text (jget params ''realtimeSessionId'') \<or> \<not> is_text (jget params ''version'')) invalid_app
          else if event_method = JStr ''thread/realtime/transcript/delta''
          then bind_result (validate_input_roles params JNull True) (\<lambda>_. raise_if (\<not> is_text (jget params ''delta'')) invalid_app)
          else if event_method = JStr ''thread/realtime/transcript/done''
          then bind_result (validate_input_roles params JNull True) (\<lambda>_. raise_if (\<not> is_text (jget params ''text'')) invalid_app)
          else if event_method = JStr ''thread/realtime/itemAdded''
          then (let item = jget params ''item'' in
                if \<not> is_valid_input_handoff_item item then Inl assistant_output
                else validate_input_roles params item False)
          else Inl (ProtocolError ''retained speech session received an unknown app event'')
      | _ \<Rightarrow> Inl invalid_app)"

definition delegation_ok :: "obj \<Rightarrow> obj \<Rightarrow> bool" where
  "delegation_ok decoded item =
     (let target = jget_default item ''target'' (jget decoded ''target'');
          content_valid = (case jget item ''content'' of
             JArr parts \<Rightarrow>
               parts \<noteq> [] \<and>
               list_all (\<lambda>part. case part of JObj m \<Rightarrow> jget m ''type'' = JStr ''input_text'' \<and> is_text (jget m ''text'') | _ \<Rightarrow> False) parts
           | _ \<Rightarrow> False)
      in target = JStr ''client'' \<and> (content_valid \<or> is_text (jget decoded ''input_transcript'')))"

definition turn_delta_ok :: "obj \<Rightarrow> boundary option \<Rightarrow> string \<Rightarrow> bool" where
  "turn_delta_ok decoded b known_input =
     (case b of
        None \<Rightarrow> False
      | Some st \<Rightarrow>
          (let expected = (if known_input = [] then sb_authoritative_input st else known_input)
           in (case (non_empty_text (jget decoded ''turn_id''), non_empty_text (jget decoded ''delta'')) of
                 (Some t, Some d) \<Rightarrow>
                   sb_input_turn_id st = Some t \<and> expected \<noteq> [] \<and> (contains_text expected d \<or> contains_text d expected)
               | _ \<Rightarrow> False)))"

text \<open>The branches for one event type each; the boundary state is returned updated.\<close>

definition require_object :: "json \<Rightarrow> (obj \<Rightarrow> 'a result) \<Rightarrow> 'a result" where
  "require_object v f = (case v of JObj m \<Rightarrow> f m | _ \<Rightarrow> Inl invalid_data)"

definition input_fragment_ok :: "obj \<Rightarrow> bool" where
  "input_fragment_ok decoded \<longleftrightarrow>
     (case jget decoded ''item'' of JObj m \<Rightarrow> jget m ''type'' = JStr ''input_transcript'' \<and> is_text (jget m ''text'') | _ \<Rightarrow> False) \<or>
     is_text (jget decoded ''text'')"

definition turn_created_data :: "obj \<Rightarrow> boundary option \<Rightarrow> obj \<Rightarrow> boundary option result" where
  "turn_created_data decoded b turn =
     bind_result (validate_input_roles decoded (JObj turn) True) (\<lambda>_.
       (case non_empty_text (jget turn ''id'') of
          None \<Rightarrow> Inl invalid_data
        | Some i \<Rightarrow> Inr (map_option (\<lambda>st. st\<lparr>sb_input_turn_id := Some i\<rparr>) b)))"

definition other_input_turn :: "obj \<Rightarrow> boundary option \<Rightarrow> obj \<Rightarrow> bool" where
  "other_input_turn decoded b turn =
     (case (b, non_empty_text (jget_default turn ''id'' (jget decoded ''turn_id''))) of
        (Some st, Some i) \<Rightarrow> sb_input_turn_id st \<noteq> None \<and> sb_input_turn_id st \<noteq> Some i
      | _ \<Rightarrow> False)"

definition output_event_type :: "string \<Rightarrow> bool" where
  "output_event_type t \<longleftrightarrow>
     t = ''error'' \<or> starts_with t ''output_transcript.'' \<or> starts_with t ''output_audio'' \<or> starts_with t ''response.''"

text \<open>The event once it is decoded.\<close>

definition validate_data_object :: "obj \<Rightarrow> boundary option \<Rightarrow> string \<Rightarrow> boundary option result" where
  "validate_data_object decoded b known_input =
     (case non_empty_text (jget decoded ''type'') of
        None \<Rightarrow> Inl invalid_data
      | Some t \<Rightarrow>
          if output_event_type t then Inl assistant_output
          else if t = ''session.started'' \<or> t = ''session.updated''
          then require_object (jget decoded ''session'') (\<lambda>_. Inr b)
          else if t = ''input_transcript.added''
          then (if \<not> input_fragment_ok decoded then Inl invalid_data
                else bind_result (validate_input_roles decoded (jget decoded ''item'') False) (\<lambda>_. Inr b))
          else if t = ''delegation.created''
          then require_object (jget decoded ''item'') (\<lambda>item.
                 if jget item ''type'' \<noteq> JStr ''delegation'' \<or> \<not> delegation_ok decoded item then Inl invalid_data
                 else bind_result (validate_input_roles decoded (JObj item) False) (\<lambda>_. Inr b))
          else if t = ''turn.created'' then require_object (jget decoded ''turn'') (turn_created_data decoded b)
          else if t = ''turn.delta'' then (if turn_delta_ok decoded b known_input then Inr b else Inl invalid_data)
          else if t = ''turn.done''
          then require_object (jget decoded ''turn'') (\<lambda>turn.
                 bind_result (validate_input_roles decoded (JObj turn) True) (\<lambda>_.
                   if other_input_turn decoded b turn then Inl invalid_data else Inr b))
          else Inl (ProtocolError ''retained speech session received an unknown data event''))"

datatype raw_event = RawText string | RawBytes bytes

definition validate_data_event ::
    "(bytes \<Rightarrow> string option) \<Rightarrow> (string \<Rightarrow> json option) \<Rightarrow> raw_event \<Rightarrow> boundary option \<Rightarrow> string \<Rightarrow> boundary option result" where
  "validate_data_event decode loads raw b known_input =
     (case (case raw of RawText s \<Rightarrow> Some s | RawBytes bs \<Rightarrow> decode bs) of
        None \<Rightarrow> Inl invalid_data
      | Some s \<Rightarrow> (case loads s of Some (JObj decoded) \<Rightarrow> validate_data_object decoded b known_input | _ \<Rightarrow> Inl invalid_data))"

definition remember_input :: "boundary option \<Rightarrow> string \<Rightarrow> boundary option result" where
  "remember_input b transcript =
     (case b of
        None \<Rightarrow> Inr None
      | Some st \<Rightarrow>
          if transcript = [] \<or> 64000 < length transcript
          then Inl (ProtocolError ''retained speech input transcript is invalid'')
          else Inr (Some (st\<lparr>sb_authoritative_input := transcript\<rparr>)))"

end
