(* ===== verification/Transcript_Wait.thy ===== *)
theory Transcript_Wait
  imports Transcripts
begin

text \<open>
  \<^verbatim>\<open>_wait_for_user_transcript\<close> of \<^verbatim>\<open>bridge/service.py\<close>. One turn of its loop looks at the clock, waits
  for the receivers of app events, data events and audio and for the end of the input, and handles what is
  ready. What the receivers deliver is the environment; the diagnostics are left out.
\<close>

section \<open>State\<close>

record wait_config =
  wc_deadline :: rat
  wc_finalization_at :: "rat option"
  wc_strict :: bool
  wc_live_quiet :: "rat option"

record wait_state =
  tw_deltas :: "string list"
  tw_data_deltas :: "(string \<times> string) list"
  tw_last_fragment_at :: "rat option"
  tw_closed_at :: "rat option"
  tw_drained_at :: "rat option"
  tw_drain_observed :: bool
  tw_boundary :: "boundary option"

definition new_wait :: "bool \<Rightarrow> boundary option \<Rightarrow> wait_state" where
  "new_wait has_input_drain b =
     \<lparr>tw_deltas = [], tw_data_deltas = [], tw_last_fragment_at = None, tw_closed_at = None, tw_drained_at = None,
      tw_drain_observed = (\<not> has_input_drain), tw_boundary = b\<rparr>"

datatype wait_outcome =
    Waits wait_state
  | Returns string wait_state
  | Raises py_error wait_state

text \<open>The task that drains assistant audio; it has no normal end.\<close>

datatype audio_drain = AudioDrains | AudioDrainEnded "py_error option"

definition audio_drain_error :: "py_error option \<Rightarrow> py_error" where
  "audio_drain_error v = (case v of Some e \<Rightarrow> e | None \<Rightarrow> ProtocolError ''realtime transcription audio drain stopped'')"

section \<open>Waiting\<close>

definition wait_transcript :: "wait_state \<Rightarrow> string" where
  "wait_transcript s = assembled_transcript (tw_deltas s) (map snd (tw_data_deltas s))"

text \<open>When the fragments count as the whole utterance.\<close>

definition fragment_ready_at :: "wait_config \<Rightarrow> wait_state \<Rightarrow> rat \<Rightarrow> rat" where
  "fragment_ready_at c s last_fragment =
     (case (wc_live_quiet c, tw_drained_at s) of
        (Some quiet, Some drained) \<Rightarrow> max (last_fragment + quiet) (drained + quiet)
      | _ \<Rightarrow>
          (let ready = last_fragment + TRANSCRIPTION_FRAGMENT_QUIET_SECONDS
           in case wc_finalization_at c of None \<Rightarrow> ready | Some t \<Rightarrow> max ready t))"

definition finish_wait :: "string \<Rightarrow> wait_state \<Rightarrow> wait_outcome" where
  "finish_wait t s =
     (case remember_input (tw_boundary s) t of Inl e \<Rightarrow> Raises e s | Inr b \<Rightarrow> Returns t (s\<lparr>tw_boundary := b\<rparr>))"

definition accept_fragments :: "audio_drain \<Rightarrow> wait_state \<Rightarrow> wait_outcome" where
  "accept_fragments audio s =
     (case audio of
        AudioDrainEnded e \<Rightarrow> Raises (audio_drain_error e) s
      | AudioDrains \<Rightarrow> finish_wait (strip (wait_transcript s)) s)"

definition closed_early :: py_error where
  "closed_early = TimeoutError ''realtime session closed before transcription completed''"

text \<open>The top of the loop: an outcome, or how long to wait.\<close>

definition loop_top :: "wait_config \<Rightarrow> rat \<Rightarrow> audio_drain \<Rightarrow> wait_state \<Rightarrow> wait_outcome + rat" where
  "loop_top c now audio s =
     (let remaining = wc_deadline c - now
      in if remaining \<le> 0 then Inl (Raises (TimeoutError []) s)
         else case (if wait_transcript s = [] then None else tw_last_fragment_at s) of
                Some t \<Rightarrow>
                  (let quiet_remaining = fragment_ready_at c s t - now
                   in if quiet_remaining \<le> 0 then Inl (accept_fragments audio s) else Inr (min remaining quiet_remaining))
              | None \<Rightarrow>
                  (case tw_closed_at s of
                     None \<Rightarrow> Inr remaining
                   | Some t \<Rightarrow>
                       (let close_remaining = TRANSCRIPTION_FRAGMENT_QUIET_SECONDS - (now - t)
                        in if close_remaining \<le> 0 then Inl (Raises closed_early s) else Inr (min remaining close_remaining))))"

text \<open>Nothing became ready in that time.\<close>

definition wait_expired :: "wait_config \<Rightarrow> rat \<Rightarrow> audio_drain \<Rightarrow> wait_state \<Rightarrow> wait_outcome" where
  "wait_expired c now audio s =
     (case (if wait_transcript s = [] then None else tw_last_fragment_at s) of
        Some t \<Rightarrow>
          if fragment_ready_at c s t \<le> now then accept_fragments audio s
          else Raises (if tw_closed_at s = None then TimeoutError [] else closed_early) s
      | None \<Rightarrow> Raises (if tw_closed_at s = None then TimeoutError [] else closed_early) s)"

section \<open>Events\<close>

text \<open>The exceptions that only spoil the boundary of a session that might be kept.\<close>

fun handoff_error :: "py_error \<Rightarrow> bool" where
  "handoff_error (ProtocolError m) = True"
| "handoff_error (BridgeBusyError m) = True"
| "handoff_error (AppServerExited m) = True"
| "handoff_error (RpcError m) = True"
| "handoff_error (AuthenticationRequired m) = True"
| "handoff_error (ToolBrokerUnavailable m) = True"
| "handoff_error (ValueError m) = True"
| "handoff_error (TimeoutError m) = True"
| "handoff_error _ = False"

definition spoil_boundary :: "py_error \<Rightarrow> wait_state \<Rightarrow> py_error option \<times> wait_state" where
  "spoil_boundary e s =
     (case tw_boundary s of
        Some b \<Rightarrow> if handoff_error e then (None, s\<lparr>tw_boundary := Some (b\<lparr>sb_invalidated := True\<rparr>)\<rparr>) else (Some e, s)
      | None \<Rightarrow> (Some e, s))"

definition check_app_boundary :: "wait_config \<Rightarrow> obj \<Rightarrow> wait_state \<Rightarrow> py_error option \<times> wait_state" where
  "check_app_boundary c event s =
     (if \<not> wc_strict c then (None, s)
      else case validate_app_event event of Inr u \<Rightarrow> (None, s) | Inl e \<Rightarrow> spoil_boundary e s)"

text \<open>An app event: an exception, or the terminal transcript it gives, with the state.\<close>

definition app_event_params ::
    "(pyfloat \<Rightarrow> string) \<Rightarrow> rat \<Rightarrow> json \<Rightarrow> obj \<Rightarrow> wait_state \<Rightarrow> (py_error + string) \<times> wait_state" where
  "app_event_params frepr now event_method params s =
     (let user = user_side (speaker_role frepr params) in
      if event_method = JStr ''thread/realtime/error''
      then (Inl (ProtocolError (py_str frepr (jget_default params ''message'' (JStr ''realtime transcription failed'')))), s)
      else if event_method = JStr ''thread/realtime/transcript/delta'' \<and> user
      then (case non_empty_text (jget params ''delta'') of
              Some d \<Rightarrow> (Inr [], s\<lparr>tw_deltas := tw_deltas s @ [d], tw_last_fragment_at := Some now\<rparr>)
            | None \<Rightarrow> (Inr [], s))
      else if event_method = JStr ''thread/realtime/transcript/done'' \<and> user
      then (Inr (strip (case spoken_text (jget params ''text'') of Some t \<Rightarrow> t | None \<Rightarrow> concat (tw_deltas s))), s)
      else if event_method = JStr ''thread/realtime/itemAdded''
      then (Inr (realtime_item_user_transcript frepr (jget params ''item'')), s)
      else if event_method = JStr ''thread/realtime/closed''
      then (Inr [], s\<lparr>tw_closed_at := Some now\<rparr>)
      else (Inr [], s))"

definition app_event :: "(pyfloat \<Rightarrow> string) \<Rightarrow> rat \<Rightarrow> obj \<Rightarrow> wait_state \<Rightarrow> (py_error + string) \<times> wait_state" where
  "app_event frepr now event s =
     (let params = obj_of (jget_default event ''params'' (JObj []));
          returncode = (case params of Some m \<Rightarrow> jget m ''returncode'' | None \<Rightarrow> JNull)
      in if jget event ''method'' = JStr ''bridge/appServerExited''
         then (Inl (AppServerExited (''codex app-server exited with status '' @ py_str frepr returncode)), s)
         else case params of
                Some m \<Rightarrow> app_event_params frepr now (jget event ''method'') m s
              | None \<Rightarrow> (Inl (AttributeError ''params has no attribute get''), s))"

definition check_data_boundary ::
    "(bytes \<Rightarrow> string option) \<Rightarrow> (string \<Rightarrow> json option) \<Rightarrow> wait_config \<Rightarrow> string \<Rightarrow> wait_state \<Rightarrow> py_error option \<times> wait_state" where
  "check_data_boundary decode loads c text_in s =
     (if \<not> wc_strict c then (None, s)
      else case validate_data_event decode loads (RawText text_in) (tw_boundary s) (wait_transcript s) of
             Inr b \<Rightarrow> (None, s\<lparr>tw_boundary := b\<rparr>)
           | Inl e \<Rightarrow> spoil_boundary e s)"

text \<open>A data event, decoded: the terminal transcript it gives.\<close>

definition data_event :: "(pyfloat \<Rightarrow> string) \<Rightarrow> rat \<Rightarrow> obj \<Rightarrow> wait_state \<Rightarrow> string \<times> wait_state" where
  "data_event frepr now decoded s =
     (let candidate = data_channel_transcript frepr decoded;
          event_type = jget decoded ''type''
      in if event_type = JStr ''input_transcript.added'' \<and> candidate \<noteq> []
         then (let item_id = (case jget decoded ''item'' of JObj item \<Rightarrow> non_empty_text (jget item ''id'') | _ \<Rightarrow> None);
                   fragment_id = (case item_id of Some i \<Rightarrow> i | None \<Rightarrow> ''anonymous-'' @ int_text (int (length (tw_data_deltas s))))
               in ([], s\<lparr>tw_data_deltas := dict_set (tw_data_deltas s) fragment_id candidate, tw_last_fragment_at := Some now\<rparr>))
         else if candidate \<noteq> [] then (candidate, s)
         else if event_type = JStr ''turn.done'' then (wait_transcript s, s)
         else ([], s))"

definition receive_app ::
    "(pyfloat \<Rightarrow> string) \<Rightarrow> wait_config \<Rightarrow> rat \<Rightarrow> py_error + obj \<Rightarrow> wait_state \<Rightarrow> (py_error + string) \<times> wait_state" where
  "receive_app frepr c now delivered s =
     (case delivered of
        Inl e \<Rightarrow> (Inl e, s)
      | Inr event \<Rightarrow>
          (case check_app_boundary c event s of
             (Some e, s1) \<Rightarrow> (Inl e, s1)
           | (None, s1) \<Rightarrow> app_event frepr now event s1))"

definition receive_data ::
    "(pyfloat \<Rightarrow> string) \<Rightarrow> (bytes \<Rightarrow> string option) \<Rightarrow> (bytes \<Rightarrow> string) \<Rightarrow> (string \<Rightarrow> json option) \<Rightarrow> wait_config \<Rightarrow> rat \<Rightarrow>
     py_error + raw_event \<Rightarrow> wait_state \<Rightarrow> (py_error + string) \<times> wait_state" where
  "receive_data frepr decode decode_replace loads c now delivered s =
     (case delivered of
        Inl e \<Rightarrow> (Inl e, s)
      | Inr raw \<Rightarrow>
          (let text_in = (case raw of RawText t \<Rightarrow> t | RawBytes bs \<Rightarrow> decode_replace bs);
               decoded = (case loads text_in of Some (JObj m) \<Rightarrow> m | _ \<Rightarrow> [])
           in case check_data_boundary decode loads c text_in s of
                (Some e, s1) \<Rightarrow> (Inl e, s1)
              | (None, s1) \<Rightarrow> (case data_event frepr now decoded s1 of (t, s2) \<Rightarrow> (Inr t, s2))))"

section \<open>One turn of the loop\<close>

text \<open>
  What one turn meets: the clock and the audio drain at its top; then the clock, and the receivers that are
  ready. \<open>wk_drain\<close> says whether the end of the input became known, and if so, without an error.
\<close>

record wake =
  wk_top :: rat
  wk_top_audio :: audio_drain
  wk_now :: rat
  wk_app :: "(py_error + obj) option"
  wk_data :: "(py_error + raw_event) option"
  wk_drain :: "bool option"
  wk_audio :: audio_drain

definition observe_drain :: "wake \<Rightarrow> wait_state \<Rightarrow> wait_state" where
  "observe_drain w s =
     (case wk_drain w of
        None \<Rightarrow> s
      | Some ok \<Rightarrow>
          if tw_drain_observed s then s
          else s\<lparr>tw_drain_observed := True, tw_drained_at := (if ok then Some (wk_now w) else tw_drained_at s)\<rparr>)"

definition handle_ready ::
    "(pyfloat \<Rightarrow> string) \<Rightarrow> (bytes \<Rightarrow> string option) \<Rightarrow> (bytes \<Rightarrow> string) \<Rightarrow> (string \<Rightarrow> json option) \<Rightarrow> wait_config \<Rightarrow> wake \<Rightarrow>
     wait_state \<Rightarrow> wait_outcome" where
  "handle_ready frepr decode decode_replace loads c w s =
     (let s0 = observe_drain w s in
      case (case wk_app w of None \<Rightarrow> (Inr [], s0) | Some d \<Rightarrow> receive_app frepr c (wk_now w) d s0) of
        (Inl e, s1) \<Rightarrow> Raises e s1
      | (Inr t1, s1) \<Rightarrow>
          (case (case wk_data w of None \<Rightarrow> (Inr [], s1) | Some d \<Rightarrow> receive_data frepr decode decode_replace loads c (wk_now w) d s1) of
             (Inl e, s2) \<Rightarrow> Raises e s2
           | (Inr t2, s2) \<Rightarrow>
               (let terminal = (if t2 = [] then t1 else t2)
                in case wk_audio w of
                     AudioDrainEnded e \<Rightarrow> Raises (audio_drain_error e) s2
                   | AudioDrains \<Rightarrow> if terminal = [] then Waits s2 else finish_wait terminal s2)))"

definition wait_turn ::
    "(pyfloat \<Rightarrow> string) \<Rightarrow> (bytes \<Rightarrow> string option) \<Rightarrow> (bytes \<Rightarrow> string) \<Rightarrow> (string \<Rightarrow> json option) \<Rightarrow> wait_config \<Rightarrow> wake \<Rightarrow>
     wait_state \<Rightarrow> wait_outcome" where
  "wait_turn frepr decode decode_replace loads c w s =
     (case loop_top c (wk_top w) (wk_top_audio w) s of
        Inl outcome \<Rightarrow> outcome
      | Inr timeout \<Rightarrow>
          if wk_app w = None \<and> wk_data w = None \<and> (wk_drain w = None \<or> tw_drain_observed s) \<and> wk_audio w = AudioDrains
          then wait_expired c (wk_now w) (wk_audio w) s
          else handle_ready frepr decode decode_replace loads c w s)"

fun wait_run ::
    "(pyfloat \<Rightarrow> string) \<Rightarrow> (bytes \<Rightarrow> string option) \<Rightarrow> (bytes \<Rightarrow> string) \<Rightarrow> (string \<Rightarrow> json option) \<Rightarrow> wait_config \<Rightarrow> wake list \<Rightarrow>
     wait_state \<Rightarrow> wait_outcome" where
  "wait_run frepr decode decode_replace loads c [] s = Waits s"
| "wait_run frepr decode decode_replace loads c (w # ws) s =
     (case wait_turn frepr decode decode_replace loads c w s of
        Waits s1 \<Rightarrow> wait_run frepr decode decode_replace loads c ws s1
      | outcome \<Rightarrow> outcome)"

end
