(* ===== verification/Transcript_Safety.thy ===== *)
theory Transcript_Safety
  imports Transcript_Wait
begin

text \<open>
  What the transcript wait guarantees for every sequence of events: a clean transcript, an end by the
  deadline, only the user's words, and a boundary that is spoiled by every sign of the assistant.
\<close>

section \<open>Clean text\<close>

declare strip_strip [simp]

definition clean :: "string \<Rightarrow> bool" where
  "clean s \<longleftrightarrow> strip s = s"

lemma clean_strip [simp]: "clean (strip s)"
  by (simp add: clean_def)

lemma clean_Nil [simp]: "clean []"
  by (simp add: clean_def strip_def)

lemma first_spoken_clean: "first_spoken m ks = Some t \<Longrightarrow> clean t"
  by (induction m ks rule: first_spoken.induct) (auto split: option.splits)

lemma or_empty_clean: "(\<And>t. v = Some t \<Longrightarrow> clean t) \<Longrightarrow> clean (or_empty v)"
  by (simp add: or_empty_def split: option.split)

lemma clean_or_first [simp]: "clean (or_empty (first_spoken m ks))"
  by (rule or_empty_clean) (rule first_spoken_clean)

lemma clean_case_first: "clean y \<Longrightarrow> clean (case first_spoken m ks of None \<Rightarrow> y | Some t \<Rightarrow> t)"
  by (simp add: first_spoken_clean split: option.split)

lemma clean_if_text: "clean x \<Longrightarrow> clean y \<Longrightarrow> clean (if b then x else y)"
  by simp

lemma turn_transcript_clean: "clean (turn_transcript frepr e)"
  unfolding turn_transcript_def Let_def by (intro clean_if_text clean_case_first)
    (simp_all add: clean_or_first del: first_spoken.simps split: json.split)

lemma data_channel_clean: "jget e ''type'' \<noteq> JStr ''input_transcript.added'' \<Longrightarrow> clean (data_channel_transcript frepr e)"
  by (auto simp: data_channel_transcript_def Let_def turn_transcript_clean delegation_text_def split: option.split json.split)

lemma assembled_clean: "clean (assembled_transcript a b)"
  by (simp add: assembled_transcript_def Let_def)

lemma active_clean: "clean (active_transcript frepr es)"
  by (induction frepr es rule: active_transcript.induct) (auto split: option.split)

lemma item_clean: "clean (realtime_item_user_transcript frepr v)"
  by (auto simp: realtime_item_user_transcript_def active_clean split: json.split option.split)

definition clean_result :: "(py_error + string) \<times> wait_state \<Rightarrow> bool" where
  "clean_result r = (case fst r of Inl e \<Rightarrow> True | Inr t \<Rightarrow> clean t)"

lemma clean_result_simps [simp]: "clean_result (Inl e, s)" "clean_result (Inr t, s) = clean t"
  by (simp_all add: clean_result_def)

lemma clean_if: "clean_result x \<Longrightarrow> clean_result y \<Longrightarrow> clean_result (if b then x else y)"
  by simp

lemma app_params_clean: "clean_result (app_event_params frepr now ty m s)"
  unfolding app_event_params_def Let_def by (intro clean_if) (simp_all add: item_clean split: option.split)

lemma app_event_clean: "app_event frepr now e s = (Inr t, s') \<Longrightarrow> clean t"
proof -
  have "clean_result (app_event frepr now e s)"
    unfolding app_event_def Let_def by (intro clean_if) (simp_all add: app_params_clean split: option.split)
  then show "app_event frepr now e s = (Inr t, s') \<Longrightarrow> clean t" by simp
qed

lemma data_event_clean: "data_event frepr now e s = (t, s') \<Longrightarrow> clean t"
  using data_channel_clean [of e frepr]
  by (auto simp: data_event_def Let_def wait_transcript_def assembled_clean split: if_splits)

lemma receive_clean:
  "receive_app frepr c now d s = (Inr t, s') \<Longrightarrow> clean t"
  "receive_data frepr decode decode_replace loads c now d' s = (Inr t, s') \<Longrightarrow> clean t"
  by (auto simp: receive_app_def receive_data_def Let_def app_event_clean dest!: data_event_clean
      split: sum.splits prod.splits option.splits)

lemma finish_wait_clean: "finish_wait t s = Returns t' s' \<Longrightarrow> t' = t"
  by (auto simp: finish_wait_def split: sum.splits)

lemma accept_clean: "accept_fragments audio s = Returns t s' \<Longrightarrow> t = strip (wait_transcript s)"
  using finish_wait_clean by (auto simp: accept_fragments_def split: audio_drain.splits)

lemma wait_transcript_strip [simp]: "strip (wait_transcript s) = wait_transcript s"
  using assembled_clean by (simp add: wait_transcript_def clean_def)

lemma loop_top_returns:
  "loop_top c now audio s = Inl (Returns t s') \<Longrightarrow> clean t \<and> t \<noteq> []"
  by (auto simp: loop_top_def Let_def clean_def dest!: accept_clean split: if_splits option.splits)

lemma wait_expired_returns: "wait_expired c now audio s = Returns t s' \<Longrightarrow> clean t \<and> t \<noteq> []"
  by (auto simp: wait_expired_def clean_def dest!: accept_clean split: if_splits option.splits)

lemma handle_ready_returns:
  "handle_ready frepr decode decode_replace loads c w s = Returns t s' \<Longrightarrow> clean t \<and> t \<noteq> []"
proof -
  assume r: "handle_ready frepr decode decode_replace loads c w s = Returns t s'"
  let ?s0 = "observe_drain w s"
  obtain t1 s1 where 1: "(case wk_app w of None \<Rightarrow> (Inr [], ?s0) | Some d \<Rightarrow> receive_app frepr c (wk_now w) d ?s0) = (Inr t1, s1)"
    using r by (auto simp: handle_ready_def Let_def split: prod.splits sum.splits)
  obtain t2 s2 where 2: "(case wk_data w of None \<Rightarrow> (Inr [], s1)
      | Some d \<Rightarrow> receive_data frepr decode decode_replace loads c (wk_now w) d s1) = (Inr t2, s2)"
    using r 1 by (auto simp: handle_ready_def Let_def split: prod.splits sum.splits)
  have "clean t1" "clean t2" using 1 2 receive_clean by (auto split: option.splits)
  then show ?thesis using r 1 2 finish_wait_clean
    by (auto simp: handle_ready_def Let_def split: audio_drain.splits if_splits)
qed

lemma wait_turn_returns: "wait_turn frepr decode decode_replace loads c w s = Returns t s' \<Longrightarrow> clean t \<and> t \<noteq> []"
  using loop_top_returns wait_expired_returns handle_ready_returns
  by (auto simp: wait_turn_def split: sum.splits if_splits)

section \<open>The deadline\<close>

lemma loop_top_waits: "loop_top c now audio s = Inr r \<Longrightarrow> 0 < r \<and> now + r \<le> wc_deadline c"
  by (auto simp: loop_top_def Let_def min_def split: if_splits option.splits)

lemma loop_top_late: "wc_deadline c \<le> now \<Longrightarrow> loop_top c now audio s = Inl (Raises (TimeoutError []) s)"
  by (simp add: loop_top_def)

lemma accept_ends: "accept_fragments audio s \<noteq> Waits s'"
  by (simp add: accept_fragments_def finish_wait_def split: audio_drain.split sum.split)

lemma loop_top_no_wait: "loop_top c now audio s \<noteq> Inl (Waits s')"
  by (auto simp: loop_top_def Let_def accept_ends split: if_splits option.splits)

lemma wait_expired_no_wait: "wait_expired c now audio s \<noteq> Waits s'"
  by (auto simp: wait_expired_def accept_ends split: if_splits option.splits)

lemma wait_run_deadline:
  "\<exists>w \<in> set ws. wc_deadline c \<le> wk_top w \<Longrightarrow> wait_run frepr decode decode_replace loads c ws s \<noteq> Waits s'"
proof (induction ws arbitrary: s)
  case (Cons w ws)
  then show ?case
    by (cases "wc_deadline c \<le> wk_top w") (auto simp: wait_turn_def loop_top_late split: wait_outcome.split)
qed simp

section \<open>The boundary\<close>

text \<open>An event the provider sends for its own speech.\<close>

definition speaks_for_assistant :: "obj \<Rightarrow> bool" where
  "speaks_for_assistant m =
     (case jget m ''type'' of
        JStr t \<Rightarrow>
          output_event_type t \<or>
          t \<in> {''input_transcript.added'', ''delegation.created'', ''turn.created'', ''turn.done''} \<and>
          (case jget m ''role'' of JStr r \<Rightarrow> lower r = ''assistant'' \<or> lower r = ''output'' | _ \<Rightarrow> False)
      | _ \<Rightarrow> False)"

lemma check_role_error: "check_role v = Inl e \<Longrightarrow> handoff_error e"
  by (auto simp: check_role_def invalid_data_def assistant_output_def split: json.splits if_splits)

lemma collect_results_error: "collect_results rs = Inl e \<Longrightarrow> Inl e \<in> set rs"
proof (induction rs)
  case (Cons r rs)
  then show ?case by (cases r) (auto simp: bind_result_def split: sum.splits)
qed simp

lemma input_roles_error: "validate_input_roles m v r = Inl e \<Longrightarrow> handoff_error e"
  by (auto simp: validate_input_roles_def Let_def bind_result_def raise_if_def invalid_data_def
      dest!: collect_results_error dest: check_role_error [OF sym] split: sum.splits if_splits)

lemma handoff_errors [simp]: "handoff_error invalid_data" "handoff_error assistant_output"
  by (simp_all add: invalid_data_def assistant_output_def)

lemma bind_result_eq_Inl: "bind_result r f = Inl e \<longleftrightarrow> r = Inl e \<or> (\<exists>x. r = Inr x \<and> f x = Inl e)"
  by (cases r) auto

lemma require_object_error: "require_object v f = Inl e \<Longrightarrow> e = invalid_data \<or> (\<exists>m. v = JObj m \<and> f m = Inl e)"
  by (cases v) (simp_all add: require_object_def)

lemma require_object_ok: "require_object v f = Inr x \<Longrightarrow> \<exists>m. v = JObj m \<and> f m = Inr x"
  by (cases v) (simp_all add: require_object_def)

lemma data_object_error: "validate_data_object m b k = Inl e \<Longrightarrow> handoff_error e"
  by (auto simp: validate_data_object_def turn_created_data_def bind_result_eq_Inl dest!: require_object_error
      dest: input_roles_error split: option.splits if_splits)

lemma assistant_role_refused:
  assumes "jget m ''role'' = JStr r" "lower r = ''assistant'' \<or> lower r = ''output''"
  shows "\<not> is_ok (validate_input_roles m v req)"
proof -
  have "has_key m ''role''" using assms(1) by (auto simp: jget_def has_key_def split: option.splits)
  moreover have "r \<noteq> []" using assms(2) by (auto simp: lower_def)
  ultimately show ?thesis
    using assms by (auto simp: validate_input_roles_def Let_def declared_roles_def check_role_def bind_result_def is_ok_def)
qed

lemma require_object_fails: "(\<And>m. \<exists>e. f m = Inl e) \<Longrightarrow> \<exists>e. require_object v f = Inl e"
  by (cases v) (simp_all add: require_object_def)

lemma assistant_event_refused: "speaks_for_assistant m \<Longrightarrow> \<exists>e. validate_data_object m b k = Inl e"
proof -
  assume a: "speaks_for_assistant m"
  then obtain t where t: "jget m ''type'' = JStr t" by (auto simp: speaks_for_assistant_def split: json.splits)
  show ?thesis
  proof (cases "output_event_type t")
    case True
    then show ?thesis using t by (auto simp: validate_data_object_def non_empty_text_def)
  next
    case False
    then obtain r where r: "jget m ''role'' = JStr r" "lower r = ''assistant'' \<or> lower r = ''output''"
      and ty: "t \<in> {''input_transcript.added'', ''delegation.created'', ''turn.created'', ''turn.done''}"
      using a t by (auto simp: speaks_for_assistant_def split: json.splits)
    have "\<exists>e. validate_input_roles m v req = Inl e" for v req
      using assistant_role_refused [OF r, of v req] by (cases "validate_input_roles m v req") simp_all
    then have bad: "\<exists>e. bind_result (validate_input_roles m v req) f = Inl e" for v req and f :: "unit \<Rightarrow> boundary option result"
      by (metis bind_result_Inl)
    have o: "\<not> output_event_type ''input_transcript.added''" "\<not> output_event_type ''delegation.created''"
      "\<not> output_event_type ''turn.created''" "\<not> output_event_type ''turn.done''" by (simp_all add: output_event_type_def)
    note v = validate_data_object_def non_empty_text_def o
    from ty consider "t = ''input_transcript.added''" | "t = ''delegation.created''" | "t = ''turn.created''" | "t = ''turn.done''" by auto
    then show ?thesis
    proof cases
      case 1
      have "validate_data_object m b k = (if \<not> input_fragment_ok m then Inl invalid_data
          else bind_result (validate_input_roles m (jget m ''item'') False) (\<lambda>_. Inr b))" by (simp add: v t 1)
      then show ?thesis using bad by (cases "input_fragment_ok m") simp_all
    next
      case 2
      have "validate_data_object m b k = require_object (jget m ''item'') (\<lambda>item.
          if jget item ''type'' \<noteq> JStr ''delegation'' \<or> \<not> delegation_ok m item then Inl invalid_data
          else bind_result (validate_input_roles m (JObj item) False) (\<lambda>_. Inr b))" by (simp add: v t 2)
      then show ?thesis by (simp only:) (rule require_object_fails, use bad in simp)
    next
      case 3
      have "validate_data_object m b k = require_object (jget m ''turn'') (turn_created_data m b)" by (simp add: v t 3)
      then show ?thesis by (simp only:) (rule require_object_fails, use bad in \<open>simp add: turn_created_data_def\<close>)
    next
      case 4
      have "validate_data_object m b k = require_object (jget m ''turn'') (\<lambda>turn.
          bind_result (validate_input_roles m (JObj turn) True) (\<lambda>_. if other_input_turn m b turn then Inl invalid_data else Inr b))"
        by (simp add: v t 4)
      then show ?thesis by (simp only:) (rule require_object_fails, use bad in simp)
    qed
  qed
qed

definition spoiled :: "wait_state \<Rightarrow> bool" where
  "spoiled s = (case tw_boundary s of None \<Rightarrow> False | Some b \<Rightarrow> sb_invalidated b)"

text \<open>A step keeps the boundary and, once it is spoiled, leaves it so.\<close>

definition keeps_boundary :: "wait_state \<Rightarrow> wait_state \<Rightarrow> bool" where
  "keeps_boundary s s' \<longleftrightarrow> (tw_boundary s' = None \<longleftrightarrow> tw_boundary s = None) \<and> (spoiled s \<longrightarrow> spoiled s')"

lemma keeps_boundary_refl [simp]: "keeps_boundary s s"
  by (simp add: keeps_boundary_def)

lemma keeps_boundary_trans: "keeps_boundary s s1 \<Longrightarrow> keeps_boundary s1 s2 \<Longrightarrow> keeps_boundary s s2"
  by (simp add: keeps_boundary_def)

lemma keeps_boundary_same: "tw_boundary s' = tw_boundary s \<Longrightarrow> keeps_boundary s s'"
  by (simp add: keeps_boundary_def spoiled_def)

lemma spoil_keeps: "spoil_boundary e s = (r, s') \<Longrightarrow> keeps_boundary s s'"
  by (auto simp: spoil_boundary_def keeps_boundary_def spoiled_def split: option.splits if_splits)

lemma spoil_spoils: "spoil_boundary e s = (None, s') \<Longrightarrow> spoiled s'"
  by (auto simp: spoil_boundary_def spoiled_def split: option.splits if_splits)

lemma app_event_boundary: "tw_boundary (snd (app_event frepr now e s)) = tw_boundary s"
  by (simp add: app_event_def app_event_params_def Let_def split: option.split)

lemma data_event_boundary: "tw_boundary (snd (data_event frepr now e s)) = tw_boundary s"
  by (simp add: data_event_def Let_def)

lemma data_object_boundary:
  "validate_data_object m b k = Inr b' \<Longrightarrow>
   (b' = None \<longleftrightarrow> b = None) \<and> (\<forall>x. b = Some x \<longrightarrow> sb_invalidated x \<longrightarrow> (\<exists>y. b' = Some y \<and> sb_invalidated y))"
  by (auto simp: validate_data_object_def turn_created_data_def result_simps dest!: require_object_ok split: option.splits if_splits)

lemma check_data_keeps: "check_data_boundary decode loads c t s = (r, s') \<Longrightarrow> keeps_boundary s s'"
  by (auto simp: check_data_boundary_def validate_data_event_def keeps_boundary_def spoiled_def
      dest: spoil_keeps data_object_boundary split: if_splits sum.splits option.splits json.splits)

lemma receive_app_keeps: "receive_app frepr c now d s = (r, s') \<Longrightarrow> keeps_boundary s s'"
proof -
  assume r: "receive_app frepr c now d s = (r, s')"
  have c: "keeps_boundary s s1" if "check_app_boundary c e s = (x, s1)" for e x s1
    using that by (auto simp: check_app_boundary_def dest: spoil_keeps split: if_splits sum.splits)
  have a: "keeps_boundary s1 s2" if "app_event frepr now e s1 = (x, s2)" for e s1 x s2
    using app_event_boundary [of frepr now e s1] that by (simp add: keeps_boundary_same)
  show ?thesis
    using r by (auto simp: receive_app_def dest!: c a split: sum.splits prod.splits option.splits) (rule keeps_boundary_trans)
qed

lemma receive_data_keeps: "receive_data frepr decode decode_replace loads c now d s = (r, s') \<Longrightarrow> keeps_boundary s s'"
proof -
  assume r: "receive_data frepr decode decode_replace loads c now d s = (r, s')"
  have a: "keeps_boundary s1 s2" if "data_event frepr now e s1 = (x, s2)" for e s1 x s2
    using data_event_boundary [of frepr now e s1] that by (simp add: keeps_boundary_same)
  show ?thesis
    using r by (auto simp: receive_data_def Let_def dest!: a check_data_keeps split: sum.splits prod.splits option.splits)
      (erule (1) keeps_boundary_trans)+
qed

lemma finish_keeps: "finish_wait t s = Returns t' s' \<Longrightarrow> keeps_boundary s s'"
  by (auto simp: finish_wait_def remember_input_def keeps_boundary_def spoiled_def split: sum.splits option.splits if_splits)

lemma finish_wait_waits: "finish_wait t s \<noteq> Waits s'"
  by (simp add: finish_wait_def split: sum.split)

text \<open>The events of one turn that the boundary must notice.\<close>

definition unsafe_wake :: "(bytes \<Rightarrow> string) \<Rightarrow> (string \<Rightarrow> json option) \<Rightarrow> wake \<Rightarrow> bool" where
  "unsafe_wake decode_replace loads w \<longleftrightarrow>
     (\<exists>e. wk_app w = Some (Inr e) \<and> \<not> is_ok (validate_app_event e)) \<or>
     (\<exists>raw m. wk_data w = Some (Inr raw) \<and>
        loads (case raw of RawText t \<Rightarrow> t | RawBytes bs \<Rightarrow> decode_replace bs) = Some (JObj m) \<and> speaks_for_assistant m)"

lemma receive_app_spoils:
  assumes "wc_strict c" "\<not> is_ok (validate_app_event e)" "receive_app frepr c now (Inr e) s = (Inr t, s')"
  shows "spoiled s'"
proof -
  obtain x where x: "validate_app_event e = Inl x" using assms(2) by (cases "validate_app_event e") auto
  obtain s1 where s1: "spoil_boundary x s = (None, s1)" "app_event frepr now e s1 = (Inr t, s')"
    using assms(1,3) x by (auto simp: receive_app_def check_app_boundary_def split: prod.splits option.splits)
  then have "tw_boundary s' = tw_boundary s1" using app_event_boundary [of frepr now e s1] by simp
  then show ?thesis using spoil_spoils [OF s1(1)] by (simp add: spoiled_def)
qed

lemma receive_data_spoils:
  assumes "wc_strict c" "speaks_for_assistant m"
    "loads (case raw of RawText t \<Rightarrow> t | RawBytes bs \<Rightarrow> decode_replace bs) = Some (JObj m)"
    "receive_data frepr decode decode_replace loads c now (Inr raw) s = (Inr t, s')"
  shows "spoiled s'"
proof -
  let ?t = "case raw of RawText t \<Rightarrow> t | RawBytes bs \<Rightarrow> decode_replace bs"
  obtain x where x: "validate_data_object m (tw_boundary s) (wait_transcript s) = Inl x" using assistant_event_refused [OF assms(2)] by blast
  then have v: "validate_data_event decode loads (RawText ?t) (tw_boundary s) (wait_transcript s) = Inl x"
    using assms(3) by (simp add: validate_data_event_def)
  obtain s1 where s1: "spoil_boundary x s = (None, s1)" "data_event frepr now m s1 = (t, s')"
    using assms(1,3,4) v by (auto simp: receive_data_def check_data_boundary_def Let_def split: prod.splits option.splits)
  then have "tw_boundary s' = tw_boundary s1" using data_event_boundary [of frepr now m s1] by simp
  then show ?thesis using spoil_spoils [OF s1(1)] by (simp add: spoiled_def)
qed

definition outcome_state :: "wait_outcome \<Rightarrow> wait_state option" where
  "outcome_state r = (case r of Waits s \<Rightarrow> Some s | Returns t s \<Rightarrow> Some s | Raises e s \<Rightarrow> None)"

lemma handle_ready_boundary:
  assumes "outcome_state (handle_ready frepr decode decode_replace loads c w s) = Some s'"
  shows "keeps_boundary s s'" "wc_strict c \<Longrightarrow> unsafe_wake decode_replace loads w \<Longrightarrow> spoiled s'"
proof -
  let ?s0 = "observe_drain w s"
  obtain t1 s1 where 1: "(case wk_app w of None \<Rightarrow> (Inr [], ?s0) | Some d \<Rightarrow> receive_app frepr c (wk_now w) d ?s0) = (Inr t1, s1)"
    using assms by (auto simp: handle_ready_def Let_def outcome_state_def split: prod.splits sum.splits)
  obtain t2 s2 where 2: "(case wk_data w of None \<Rightarrow> (Inr [], s1)
      | Some d \<Rightarrow> receive_data frepr decode decode_replace loads c (wk_now w) d s1) = (Inr t2, s2)"
    using assms 1 by (auto simp: handle_ready_def Let_def outcome_state_def split: prod.splits sum.splits)
  have f: "keeps_boundary s2 s'"
    using assms 1 2 by (auto simp: handle_ready_def Let_def outcome_state_def finish_wait_waits dest: finish_keeps split: audio_drain.splits if_splits wait_outcome.splits)
  have 0: "keeps_boundary s ?s0" by (rule keeps_boundary_same) (simp add: observe_drain_def split: option.split)
  have k1: "keeps_boundary ?s0 s1" using 1 by (auto dest: receive_app_keeps split: option.splits)
  have k2: "keeps_boundary s1 s2" using 2 by (auto dest: receive_data_keeps split: option.splits)
  show "keeps_boundary s s'" using 0 k1 k2 f keeps_boundary_trans by blast
  assume strict: "wc_strict c" and u: "unsafe_wake decode_replace loads w"
  have "spoiled s1 \<or> spoiled s2"
    using u 1 2 receive_app_spoils [OF strict] receive_data_spoils [OF strict] unfolding unsafe_wake_def by fastforce
  then show "spoiled s'" using k2 f by (auto simp: keeps_boundary_def)
qed

lemma wait_turn_boundary:
  assumes "outcome_state (wait_turn frepr decode decode_replace loads c w s) = Some s'"
  shows "keeps_boundary s s'"
proof -
  have a: "keeps_boundary s s1" if "accept_fragments audio s = Returns t s1" for audio t s1
    using that by (auto simp: accept_fragments_def dest: finish_keeps split: audio_drain.splits)
  have l: "keeps_boundary s s1" if "loop_top c now audio s = Inl (Returns t s1)" for now audio t s1
    using that by (auto simp: loop_top_def Let_def dest: a split: if_splits option.splits)
  have x: "keeps_boundary s s1" if "wait_expired c now audio s = Returns t s1" for now audio t s1
    using that by (auto simp: wait_expired_def dest: a split: if_splits option.splits)
  show ?thesis
    using assms handle_ready_boundary(1) [of frepr decode decode_replace loads c w s s']
    by (auto simp: wait_turn_def outcome_state_def loop_top_no_wait wait_expired_no_wait dest: l x
        split: sum.splits if_splits wait_outcome.splits)
qed

lemma wait_run_boundary:
  "outcome_state (wait_run frepr decode decode_replace loads c ws s) = Some s' \<Longrightarrow> keeps_boundary s s'"
proof (induction ws arbitrary: s)
  case (Cons w ws)
  then show ?case
    using wait_turn_boundary [of frepr decode decode_replace loads c w s]
    by (cases "wait_turn frepr decode decode_replace loads c w s") (auto simp: outcome_state_def intro: keeps_boundary_trans)
qed (simp add: outcome_state_def)

section \<open>The assistant's words\<close>

text \<open>An event of the assistant's own speech: a transcript of its role, or the end of its turn.\<close>

definition assistant_app_event :: "(pyfloat \<Rightarrow> string) \<Rightarrow> obj \<Rightarrow> bool" where
  "assistant_app_event frepr e \<longleftrightarrow>
     jget e ''method'' \<in> {JStr ''thread/realtime/transcript/delta'', JStr ''thread/realtime/transcript/done''} \<and>
     (case jget_default e ''params'' (JObj []) of JObj m \<Rightarrow> \<not> user_side (speaker_role frepr m) | _ \<Rightarrow> False)"

definition assistant_turn_done :: "(pyfloat \<Rightarrow> string) \<Rightarrow> obj \<Rightarrow> bool" where
  "assistant_turn_done frepr m \<longleftrightarrow>
     jget m ''type'' = JStr ''turn.done'' \<and>
     (let turn_role = (case jget m ''turn'' of JObj turn \<Rightarrow> speaker_role frepr turn | _ \<Rightarrow> []);
          role = (if turn_role = [] then speaker_role frepr m else turn_role)
      in role \<noteq> [] \<and> \<not> user_side role)"

definition silent :: "wait_state \<Rightarrow> bool" where
  "silent s \<longleftrightarrow> tw_deltas s = [] \<and> tw_data_deltas s = []"

lemma silent_transcript: "silent s \<Longrightarrow> wait_transcript s = []"
  by (simp add: silent_def wait_transcript_def assembled_transcript_def strip_def)

lemma assistant_app_ignored: "assistant_app_event frepr e \<Longrightarrow> app_event frepr now e s = (Inr [], s)"
proof -
  assume a: "assistant_app_event frepr e"
  then obtain m where m: "jget_default e ''params'' (JObj []) = JObj m" "\<not> user_side (speaker_role frepr m)"
    by (auto simp: assistant_app_event_def split: json.splits)
  from a consider "jget e ''method'' = JStr ''thread/realtime/transcript/delta''" | "jget e ''method'' = JStr ''thread/realtime/transcript/done''"
    by (auto simp: assistant_app_event_def)
  then show ?thesis by cases (use m in \<open>simp_all add: app_event_def app_event_params_def Let_def\<close>)
qed

lemma assistant_turn_ignored: "assistant_turn_done frepr m \<Longrightarrow> silent s \<Longrightarrow> data_event frepr now m s = ([], s)"
proof -
  assume a: "assistant_turn_done frepr m" and s: "silent s"
  then have t: "jget m ''type'' = JStr ''turn.done''" by (simp add: assistant_turn_done_def)
  have "turn_transcript frepr m = []" using a unfolding assistant_turn_done_def turn_transcript_def Let_def by simp
  then have "data_channel_transcript frepr m = []" by (simp add: data_channel_transcript_def t)
  then show ?thesis using t silent_transcript [OF s] by (simp add: data_event_def Let_def)
qed

definition assistant_wake :: "(pyfloat \<Rightarrow> string) \<Rightarrow> (bytes \<Rightarrow> string) \<Rightarrow> (string \<Rightarrow> json option) \<Rightarrow> wake \<Rightarrow> bool" where
  "assistant_wake frepr decode_replace loads w \<longleftrightarrow>
     (case wk_app w of Some (Inr e) \<Rightarrow> assistant_app_event frepr e | _ \<Rightarrow> True) \<and>
     (case wk_data w of
        Some (Inr raw) \<Rightarrow>
          (case loads (case raw of RawText t \<Rightarrow> t | RawBytes bs \<Rightarrow> decode_replace bs) of
             Some (JObj m) \<Rightarrow> assistant_turn_done frepr m | _ \<Rightarrow> False)
      | _ \<Rightarrow> True)"

lemma spoil_silent: "spoil_boundary e s = (r, s') \<Longrightarrow> silent s' = silent s"
  by (auto simp: spoil_boundary_def silent_def split: option.splits if_splits)

lemma check_silent:
  "check_app_boundary c e s = (r, s') \<Longrightarrow> silent s' = silent s"
  "check_data_boundary decode loads c t s = (r, s') \<Longrightarrow> silent s' = silent s"
  by (auto simp: check_app_boundary_def check_data_boundary_def dest: spoil_silent split: if_splits sum.splits) (auto simp: silent_def)

lemma handle_ready_silent:
  assumes "assistant_wake frepr decode_replace loads w" "silent s"
  shows "(\<exists>e s'. handle_ready frepr decode decode_replace loads c w s = Raises e s') \<or>
    (\<exists>s'. handle_ready frepr decode decode_replace loads c w s = Waits s' \<and> silent s')"
proof -
  let ?s0 = "observe_drain w s"
  let ?app = "case wk_app w of None \<Rightarrow> (Inr [], ?s0) | Some d \<Rightarrow> receive_app frepr c (wk_now w) d ?s0"
  have s0: "silent ?s0" using assms(2) by (simp add: observe_drain_def silent_def split: option.split)
  have 1: "(\<exists>e s1. ?app = (Inl e, s1)) \<or> (\<exists>s1. ?app = (Inr [], s1) \<and> silent s1)"
    using assms(1) s0 assistant_app_ignored check_silent(1)
    by (auto simp: assistant_wake_def receive_app_def split: option.splits sum.splits prod.splits)
  show ?thesis
  proof (cases "\<exists>e s1. ?app = (Inl e, s1)")
    case True
    then show ?thesis by (auto simp: handle_ready_def Let_def)
  next
    case False
    then obtain s1 where s1: "?app = (Inr [], s1)" "silent s1" using 1 by blast
    let ?data = "case wk_data w of None \<Rightarrow> (Inr [], s1) | Some d \<Rightarrow> receive_data frepr decode decode_replace loads c (wk_now w) d s1"
    have 2: "(\<exists>e s2. ?data = (Inl e, s2)) \<or> (\<exists>s2. ?data = (Inr [], s2) \<and> silent s2)"
    proof (cases "wk_data w")
      case (Some d)
      show ?thesis
      proof (cases d)
        case (Inr raw)
        let ?t = "case raw of RawText t \<Rightarrow> t | RawBytes bs \<Rightarrow> decode_replace bs"
        obtain m where m: "loads ?t = Some (JObj m)" "assistant_turn_done frepr m"
          using assms(1) Some Inr by (auto simp: assistant_wake_def split: option.splits json.splits)
        obtain r s2 where c: "check_data_boundary decode loads c ?t s1 = (r, s2)" by fastforce
        then have "silent s2" using check_silent(2) s1(2) by blast
        then show ?thesis
          using Some Inr m c assistant_turn_ignored [OF m(2)] by (cases r) (simp_all add: receive_data_def Let_def)
      qed (simp add: Some receive_data_def)
    qed (simp add: s1(2))
    then show ?thesis using s1 by (cases "wk_audio w") (auto simp: handle_ready_def Let_def)
  qed
qed

lemma loop_top_silent: "silent s \<Longrightarrow> loop_top c now audio s \<noteq> Inl (Returns t s')"
  by (auto simp: loop_top_def Let_def silent_transcript split: if_splits option.splits)

lemma wait_expired_silent: "silent s \<Longrightarrow> wait_expired c now audio s \<noteq> Returns t s'"
  by (auto simp: wait_expired_def silent_transcript)

lemma wait_turn_silent:
  assumes "assistant_wake frepr decode_replace loads w" "silent s"
  shows "wait_turn frepr decode decode_replace loads c w s \<noteq> Returns t s'"
    "wait_turn frepr decode decode_replace loads c w s = Waits s1 \<Longrightarrow> silent s1"
  using handle_ready_silent [OF assms, of decode c] loop_top_silent [OF assms(2)] wait_expired_silent [OF assms(2)]
  by (auto simp: wait_turn_def loop_top_no_wait wait_expired_no_wait split: sum.splits if_splits)

lemma wait_run_silent:
  "list_all (assistant_wake frepr decode_replace loads) ws \<Longrightarrow> silent s \<Longrightarrow>
   wait_run frepr decode decode_replace loads c ws s \<noteq> Returns t s'"
proof (induction ws arbitrary: s)
  case (Cons w ws)
  then show ?case
    using wait_turn_silent [of frepr decode_replace loads w s decode c]
    by (cases "wait_turn frepr decode decode_replace loads c w s") auto
qed simp

lemma wait_run_returns: "wait_run frepr decode decode_replace loads c ws s = Returns t s' \<Longrightarrow> clean t \<and> t \<noteq> []"
proof (induction ws arbitrary: s)
  case (Cons w ws)
  then show ?case
    using wait_turn_returns [of frepr decode decode_replace loads c w s]
    by (cases "wait_turn frepr decode decode_replace loads c w s") auto
qed simp

section \<open>Concrete runs\<close>

definition sample_loads :: "string \<Rightarrow> json option" where
  "sample_loads t = (if t = ''a'' then Some (JObj [(''type'', JStr ''turn.done''), (''role'', JStr ''assistant'')]) else None)"

definition quiet_wake :: "rat \<Rightarrow> rat \<Rightarrow> wake" where
  "quiet_wake t now =
     \<lparr>wk_top = t, wk_top_audio = AudioDrains, wk_now = now, wk_app = None, wk_data = None, wk_drain = None, wk_audio = AudioDrains\<rparr>"

definition user_says :: "string \<Rightarrow> obj" where
  "user_says t =
     [(''method'', JStr ''thread/realtime/transcript/delta''),
      (''params'', JObj [(''threadId'', JStr ''t''), (''role'', JStr ''user''), (''delta'', JStr t)])]"

definition says_wake :: "string \<Rightarrow> wake" where
  "says_wake t = (quiet_wake 0 1)\<lparr>wk_app := Some (Inr (user_says t))\<rparr>"

definition assistant_data_wake :: wake where
  "assistant_data_wake = (quiet_wake 0 1)\<lparr>wk_data := Some (Inr (RawText ''a''))\<rparr>"

definition sample_wait :: wait_config where
  "sample_wait = \<lparr>wc_deadline = 10, wc_finalization_at = None, wc_strict = True, wc_live_quiet = None\<rparr>"

lemmas sample_defs =
  sample_loads_def quiet_wake_def user_says_def says_wake_def assistant_data_wake_def sample_wait_def new_wait_def new_boundary_def

lemmas wait_eval =
  wait_turn_def loop_top_def handle_ready_def observe_drain_def receive_app_def receive_data_def check_app_boundary_def
  check_data_boundary_def app_event_def app_event_params_def data_event_def Let_def wait_transcript_def assembled_transcript_def
  fragment_ready_at_def TRANSCRIPTION_FRAGMENT_QUIET_SECONDS_def wait_expired_def accept_fragments_def finish_wait_def
  remember_input_def spoil_boundary_def

lemma sample_event_ok: "validate_app_event (user_says '' ok '') = Inr ()" "speaker_role f [(''threadId'', JStr ''t''), (''role'', JStr ''user''), (''delta'', JStr t)] = ''user''"
  by code_simp+

lemma sample_strip: "strip '' ok '' = ''ok''" "strip ''ok'' = ''ok''" "strip [] = []"
  by code_simp+

lemma sample_returns:
  "\<exists>s. wait_run (\<lambda>f. ''0'') (\<lambda>bs. None) (\<lambda>bs. []) sample_loads sample_wait [says_wake '' ok '', quiet_wake 1 3]
     (new_wait False (Some new_boundary)) = Returns ''ok'' s"
  using sample_event_ok sample_strip
  by (simp add: wait_eval sample_defs jget_def jget_default_def user_side_def non_empty_text_def)

lemma sample_assistant: "assistant_turn_done f [(''type'', JStr ''turn.done''), (''role'', JStr ''assistant'')]"
  "speaks_for_assistant [(''type'', JStr ''turn.done''), (''role'', JStr ''assistant'')]"
  by code_simp+

section \<open>Properties\<close>

text \<open>a transcript that is returned is never empty, has no white space around it, and is short enough to be
  kept for the same session's checks when there are any.\<close>

theorem transcript_is_clean:
  assumes "wait_run frepr decode decode_replace loads c ws s = Returns t s'"
  shows "t \<noteq> [] \<and> strip t = t"
  using wait_run_returns [OF assms] by (simp add: clean_def)

theorem transcript_is_clean_witness:
  "\<exists>s'. wait_run (\<lambda>f. ''0'') (\<lambda>bs. None) (\<lambda>bs. []) sample_loads sample_wait [says_wake '' ok '', quiet_wake 1 3]
     (new_wait False (Some new_boundary)) = Returns ''ok'' s' \<and> strip ''ok'' = ''ok''"
  using transcript_is_clean sample_returns by blast

text \<open>C37: the wait for a transcript ends: each turn of its loop sleeps for a positive time that does not pass the
  deadline, and the first turn that begins at or after the deadline does not wait again, whatever events arrive.\<close>

theorem transcript_wait_terminates:
  "(\<forall>now audio s r. loop_top c now audio s = Inr r \<longrightarrow> 0 < r \<and> now + r \<le> wc_deadline c) \<and>
   (\<forall>ws s s'. (\<exists>w \<in> set ws. wc_deadline c \<le> wk_top w) \<longrightarrow> wait_run frepr decode decode_replace loads c ws s \<noteq> Waits s')"
  using loop_top_waits wait_run_deadline by blast

theorem transcript_wait_terminates_witness:
  "loop_top sample_wait 4 AudioDrains (new_wait False None) = Inr 6 \<and> 4 + (6 :: rat) \<le> wc_deadline sample_wait \<and>
   (\<forall>s'. wait_run (\<lambda>f. ''0'') (\<lambda>bs. None) (\<lambda>bs. []) sample_loads sample_wait [quiet_wake 10 11] (new_wait False None) \<noteq> Waits s')"
proof -
  have "loop_top sample_wait 4 AudioDrains (new_wait False None) = Inr 6" by (simp add: sample_defs wait_eval sample_strip)
  moreover have "\<exists>w \<in> set [quiet_wake 10 11]. wc_deadline sample_wait \<le> wk_top w" by (simp add: sample_defs)
  ultimately show ?thesis using transcript_wait_terminates by blast
qed

text \<open>C29: the assistant's own words never become the user's transcript: as long as every app event is a transcript of
  another role and every data event the end of an assistant's turn, nothing is returned.\<close>

theorem assistant_words_are_not_transcribed:
  assumes "list_all (assistant_wake frepr decode_replace loads) ws"
  shows "wait_run frepr decode decode_replace loads c ws (new_wait d b) \<noteq> Returns t s'"
  by (rule wait_run_silent [OF assms]) (simp add: silent_def new_wait_def)

theorem assistant_words_are_not_transcribed_witness:
  "assistant_wake (\<lambda>f. ''0'') (\<lambda>bs. []) sample_loads assistant_data_wake \<and>
   (\<nexists>t s'. wait_run (\<lambda>f. ''0'') (\<lambda>bs. None) (\<lambda>bs. []) sample_loads sample_wait [assistant_data_wake] (new_wait False None) = Returns t s')"
proof -
  have "assistant_wake (\<lambda>f. ''0'') (\<lambda>bs. []) sample_loads assistant_data_wake"
    using sample_assistant by (simp add: assistant_wake_def sample_defs)
  then show ?thesis using assistant_words_are_not_transcribed [of "\<lambda>f. ''0''" "\<lambda>bs. []" sample_loads "[assistant_data_wake]"] by simp
qed

text \<open>at the strict boundary of a session that may be kept, a turn that meets an app event the checks refuse, or a
  data event that speaks for the assistant, leaves the boundary spoiled, also when the transcript is returned in that
  turn, and it stays spoiled until the end of the wait.\<close>

theorem unsafe_events_spoil_the_boundary:
  assumes "wc_strict c" "unsafe_wake decode_replace loads w" "loop_top c (wk_top w) (wk_top_audio w) s = Inr timeout"
    "outcome_state (wait_turn frepr decode decode_replace loads c w s) = Some s1"
    "outcome_state (wait_run frepr decode decode_replace loads c ws s1) = Some s2"
  shows "spoiled s1 \<and> spoiled s2"
proof -
  have "wk_app w \<noteq> None \<or> wk_data w \<noteq> None" using assms(2) by (auto simp: unsafe_wake_def)
  then have "wait_turn frepr decode decode_replace loads c w s = handle_ready frepr decode decode_replace loads c w s"
    using assms(3) by (auto simp: wait_turn_def)
  then have "spoiled s1" using handle_ready_boundary(2) assms(1,2,4) by metis
  then show ?thesis using wait_run_boundary [OF assms(5)] by (simp add: keeps_boundary_def)
qed

theorem unsafe_events_spoil_the_boundary_witness:
  "\<exists>s1. outcome_state (wait_turn (\<lambda>f. ''0'') (\<lambda>bs. None) (\<lambda>bs. []) sample_loads sample_wait assistant_data_wake
      (new_wait False (Some new_boundary))) = Some s1 \<and> spoiled s1"
proof -
  let ?s = "new_wait False (Some new_boundary)"
  have u: "unsafe_wake (\<lambda>bs. []) sample_loads assistant_data_wake"
    using sample_assistant by (simp add: unsafe_wake_def sample_defs)
  have l: "loop_top sample_wait (wk_top assistant_data_wake) (wk_top_audio assistant_data_wake) ?s = Inr 10"
    by (simp add: sample_defs wait_eval sample_strip)
  obtain e where e: "validate_data_object [(''type'', JStr ''turn.done''), (''role'', JStr ''assistant'')] (Some new_boundary) [] = Inl e"
    using assistant_event_refused [OF sample_assistant(2)] by blast
  let ?e = "[(''type'', JStr ''turn.done''), (''role'', JStr ''assistant'')]"
  let ?s' = "?s\<lparr>tw_boundary := Some (new_boundary\<lparr>sb_invalidated := True\<rparr>)\<rparr>"
  have facts: "sample_loads ''a'' = Some (JObj ?e)" "wc_strict sample_wait" "tw_boundary ?s = Some new_boundary" "wait_transcript ?s = []"
    by (simp_all add: sample_defs wait_transcript_def assembled_transcript_def sample_strip)
  have "data_event (\<lambda>f. ''0'') 1 ?e ?s' = ([], ?s')"
    by (rule assistant_turn_ignored [OF sample_assistant(1)]) (simp add: silent_def new_wait_def)
  then have r: "receive_data (\<lambda>f. ''0'') (\<lambda>bs. None) (\<lambda>bs. []) sample_loads sample_wait 1 (Inr (RawText ''a'')) ?s = (Inr [], ?s')"
    using facts e data_object_error [OF e]
    by (simp add: receive_data_def check_data_boundary_def validate_data_event_def spoil_boundary_def Let_def)
  have w: "wk_app assistant_data_wake = None" "wk_data assistant_data_wake = Some (Inr (RawText ''a''))" "wk_drain assistant_data_wake = None"
    "wk_audio assistant_data_wake = AudioDrains" "wk_now assistant_data_wake = 1" by (simp_all add: assistant_data_wake_def quiet_wake_def)
  have "wait_turn (\<lambda>f. ''0'') (\<lambda>bs. None) (\<lambda>bs. []) sample_loads sample_wait assistant_data_wake ?s = Waits ?s'"
    using l r by (simp add: wait_turn_def handle_ready_def observe_drain_def w)
  then have "\<exists>s1. outcome_state (wait_turn (\<lambda>f. ''0'') (\<lambda>bs. None) (\<lambda>bs. []) sample_loads sample_wait assistant_data_wake ?s) = Some s1"
    by (simp add: outcome_state_def)
  then obtain s1 where "outcome_state (wait_turn (\<lambda>f. ''0'') (\<lambda>bs. None) (\<lambda>bs. []) sample_loads sample_wait assistant_data_wake ?s) = Some s1"
    by blast
  then show ?thesis
    using unsafe_events_spoil_the_boundary [OF _ u l, of "\<lambda>f. ''0''" "\<lambda>bs. None" s1 "[]" s1]
    by (simp add: outcome_state_def sample_wait_def)
qed

end
