(* ===== verification/Tool_Provider.thy ===== *)
theory Tool_Provider
  imports Tool_Registration Utf8
begin

text \<open>
  The Home Assistant end of the tool socket, \<^verbatim>\<open>custom_components/codex_voice/realtime_tools.py\<close> and
  \<^verbatim>\<open>llm_tools.py\<close>: the choice of the authority, the registration it prepares, one connection of
  \<^verbatim>\<open>RealtimeToolBroker\<close> as the record \<open>conn\<close>, cut at the suspension points of its receive loop and of the
  tasks that run the tools, and the loop that reconnects. Home Assistant's JSON functions, its LLM API and
  its templates are parameters. \<open>cn_executed\<close> and \<open>cn_wire\<close> record which tools were called and which
  messages were written.
\<close>

section \<open>Bounds\<close>

definition REALTIME_TOOL_PROTOCOL_VERSION :: int where "REALTIME_TOOL_PROTOCOL_VERSION = 1"
definition MAX_REALTIME_TOOL_MESSAGE_BYTES :: nat where "MAX_REALTIME_TOOL_MESSAGE_BYTES = 256 * 1024"
definition MAX_REALTIME_TOOL_REGISTRATION_BYTES :: nat where
  "MAX_REALTIME_TOOL_REGISTRATION_BYTES = 256 * 1024"
definition MAX_REALTIME_TOOL_SCHEMA_BYTES :: nat where "MAX_REALTIME_TOOL_SCHEMA_BYTES = 64 * 1024"
definition MAX_REALTIME_TOOL_RESULT_BYTES :: nat where "MAX_REALTIME_TOOL_RESULT_BYTES = 64 * 1024"
definition MAX_REALTIME_TOOL_ARGUMENT_BYTES :: nat where "MAX_REALTIME_TOOL_ARGUMENT_BYTES = 64 * 1024"
definition MAX_REALTIME_TOOLS :: nat where "MAX_REALTIME_TOOLS = 128"
definition PV_MAX_AUTHORITY_ID_CHARS :: nat where "PV_MAX_AUTHORITY_ID_CHARS = 256"
definition PV_MAX_GENERATION_CHARS :: nat where "PV_MAX_GENERATION_CHARS = 256"
definition PV_MAX_CALL_ID_CHARS :: nat where "PV_MAX_CALL_ID_CHARS = 256"
definition PV_MAX_TOOL_NAME_CHARS :: nat where "PV_MAX_TOOL_NAME_CHARS = 256"
definition PV_MAX_TOOL_DESCRIPTION_CHARS :: nat where "PV_MAX_TOOL_DESCRIPTION_CHARS = 8 * 1024"
definition PV_MAX_INSTRUCTIONS_CHARS :: nat where "PV_MAX_INSTRUCTIONS_CHARS = 64 * 1024"
definition PV_MAX_PENDING_TOOL_CALLS :: nat where "PV_MAX_PENDING_TOOL_CALLS = 16"
definition MAX_CALLS_PER_GENERATION :: nat where "MAX_CALLS_PER_GENERATION = 1024"

lemmas provider_bounds =
  REALTIME_TOOL_PROTOCOL_VERSION_def MAX_REALTIME_TOOL_MESSAGE_BYTES_def
  MAX_REALTIME_TOOL_REGISTRATION_BYTES_def MAX_REALTIME_TOOL_SCHEMA_BYTES_def
  MAX_REALTIME_TOOL_RESULT_BYTES_def MAX_REALTIME_TOOL_ARGUMENT_BYTES_def MAX_REALTIME_TOOLS_def
  PV_MAX_AUTHORITY_ID_CHARS_def PV_MAX_GENERATION_CHARS_def PV_MAX_CALL_ID_CHARS_def
  PV_MAX_TOOL_NAME_CHARS_def PV_MAX_TOOL_DESCRIPTION_CHARS_def PV_MAX_INSTRUCTIONS_CHARS_def
  PV_MAX_PENDING_TOOL_CALLS_def MAX_CALLS_PER_GENERATION_def

definition DEFAULT_REALTIME_LANGUAGE :: string where "DEFAULT_REALTIME_LANGUAGE = ''es-MX''"

definition SUPPORTED_LANGUAGES :: "string list" where
  "SUPPORTED_LANGUAGES =
     [''af-ZA'', ''ar-SA'', ''az-AZ'', ''be-BY'', ''bg-BG'', ''bs-BA'', ''ca-ES'', ''cs-CZ'', ''cy-GB'',
      ''da-DK'', ''de-DE'', ''el-GR'', ''en-GB'', ''en-US'', ''es-ES'', ''es-MX'', ''et-EE'', ''fa-IR'',
      ''fi-FI'', ''fil-PH'', ''fr-FR'', ''gl-ES'', ''he-IL'', ''hi-IN'', ''hr-HR'', ''hu-HU'', ''hy-AM'',
      ''id-ID'', ''is-IS'', ''it-IT'', ''ja-JP'', ''kk-KZ'', ''kn-IN'', ''ko-KR'', ''lt-LT'', ''lv-LV'',
      ''mi-NZ'', ''mk-MK'', ''mr-IN'', ''ms-MY'', ''ne-NP'', ''nl-NL'', ''no-NO'', ''pl-PL'', ''pt-BR'',
      ''pt-PT'', ''ro-RO'', ''ru-RU'', ''sk-SK'', ''sl-SI'', ''sr-RS'', ''sv-SE'', ''sw-KE'', ''ta-IN'',
      ''th-TH'', ''tr-TR'', ''uk-UA'', ''ur-PK'', ''vi-VN'', ''zh-CN'']"

section \<open>Validators\<close>

text \<open>
  \<^verbatim>\<open>homeassistant.helpers.json.json_dumps_sorted\<close>, \<^verbatim>\<open>homeassistant.util.json.json_loads\<close> and
  \<^verbatim>\<open>float.__repr__\<close>.
\<close>

record ha_json =
  dump_sorted :: "json \<Rightarrow> string result"
  ha_loads :: "string \<Rightarrow> json option"
  float_repr :: "pyfloat \<Rightarrow> string"

text \<open>\<open>len(text.encode())\<close>.\<close>

definition encoded_size :: "string \<Rightarrow> nat" where
  "encoded_size s = length (utf8_encode (map ord_of s))"

definition bounded_string :: "json \<Rightarrow> string \<Rightarrow> nat \<Rightarrow> bool \<Rightarrow> string result" where
  "bounded_string v field limit allow_empty =
     (case text_of v of
        None \<Rightarrow> Inl (RealtimeToolBrokerProtocolError (field @ '' must be non-empty text''))
      | Some s \<Rightarrow>
          if (\<not> allow_empty \<and> s = []) \<or> limit < length s \<or> has_control_character s
          then Inl (RealtimeToolBrokerProtocolError (field @ '' must be non-empty text''))
          else Inr s)"

definition bounded_tool_name :: "json \<Rightarrow> string result" where
  "bounded_tool_name v =
     bind_result (bounded_string v ''tool name'' PV_MAX_TOOL_NAME_CHARS False) (\<lambda>name.
     if \<not> valid_tool_name name then Inl (RealtimeToolBrokerProtocolError ''tool name is invalid'')
     else Inr name)"

definition type_or_value_error :: "py_error \<Rightarrow> bool" where
  "type_or_value_error e = (case e of TypeError _ \<Rightarrow> True | ValueError _ \<Rightarrow> True | _ \<Rightarrow> False)"

definition strict_size :: "ha_json \<Rightarrow> json \<Rightarrow> nat result" where
  "strict_size J v =
     bind_result (dump_sorted J v) (\<lambda>encoded.
     case ha_loads J encoded of
       None \<Rightarrow> Inl (ValueError ''unexpected content after document'')
     | Some normalized \<Rightarrow> bind_result (dumps_strict (float_repr J) normalized) (\<lambda>compact. Inr (length compact)))"

definition serialized_size :: "ha_json \<Rightarrow> json \<Rightarrow> nat result" where
  "serialized_size J v =
     (case strict_size J v of
        Inl e \<Rightarrow>
          Inl (if type_or_value_error e
               then RealtimeToolBrokerProtocolError ''Value contains unsupported JSON data'' else e)
      | Inr n \<Rightarrow> Inr n)"

definition tool_error :: "string \<Rightarrow> string \<Rightarrow> obj" where
  "tool_error code message = [(''error'', JStr code), (''error_text'', JStr message)]"

definition validate_tool_result :: "ha_json \<Rightarrow> json \<Rightarrow> obj result" where
  "validate_tool_result J r =
     (case obj_of r of
        None \<Rightarrow> Inl (HomeAssistantError ''Home Assistant tool returned a non-object'')
      | Some result \<Rightarrow>
          (case serialized_size J r of
             Inl (RealtimeToolBrokerProtocolError _) \<Rightarrow>
               Inl (HomeAssistantError ''Home Assistant tool result is not JSON'')
           | Inl e \<Rightarrow> Inl e
           | Inr n \<Rightarrow>
               if MAX_REALTIME_TOOL_RESULT_BYTES < n
               then Inl (HomeAssistantError ''Home Assistant tool result is too large'')
               else Inr result))"

section \<open>The authority and its registration\<close>

record subentry =
  se_id :: string
  se_type :: string
  se_data :: obj

definition is_authority :: "subentry \<Rightarrow> bool" where
  "is_authority s \<longleftrightarrow>
     se_type s = ''conversation'' \<and> jget (se_data s) ''realtime_authority'' = JBool True"

definition select_realtime_authority :: "subentry list \<Rightarrow> subentry option" where
  "select_realtime_authority subentries =
     (case filter is_authority subentries of [a] \<Rightarrow> Some a | _ \<Rightarrow> None)"

text \<open>
  What the program reads of an \<^verbatim>\<open>llm.APIInstance\<close>; \<open>'p\<close> is the type of a tool's parameter schema, \<open>'s\<close>
  that of a schema serializer.
\<close>

record 'p llm_tool =
  lt_name :: string
  lt_description :: "string option"
  lt_parameters :: 'p

record ('p, 's) api_instance =
  ai_tools :: "'p llm_tool list"
  ai_prompt :: string
  ai_custom_serializer :: "'s option"

text \<open>Home Assistant's side of the preparation: \<^verbatim>\<open>llm.async_get_api\<close>, \<^verbatim>\<open>voluptuous_openapi.convert\<close>,
  \<^verbatim>\<open>llm.selector_serializer\<close>, \<^verbatim>\<open>Template.async_render\<close> and the two prompts of \<^verbatim>\<open>llm\<close>.\<close>

record ('p, 's) ha_llm =
  get_api :: "string + string list \<Rightarrow> string \<Rightarrow> ('p, 's) api_instance result"
  convert_schema :: "'s \<Rightarrow> 'p \<Rightarrow> json result"
  selector_serializer :: 's
  render_template :: "string \<Rightarrow> string result"
  default_instructions :: string
  date_time_prompt :: string

definition serialize_llm_tools :: "('p, 's) ha_llm \<Rightarrow> ('p, 's) api_instance \<Rightarrow> obj list result" where
  "serialize_llm_tools H api =
     collect_results (map (\<lambda>t.
       bind_result (convert_schema H
           (case ai_custom_serializer api of None \<Rightarrow> selector_serializer H | Some s \<Rightarrow> s)
           (lt_parameters t)) (\<lambda>parameters.
       Inr [(''name'', JStr (lt_name t)),
            (''description'', JStr (case lt_description t of None \<Rightarrow> [] | Some d \<Rightarrow> d)),
            (''parameters'', parameters)])) (ai_tools api))"

text \<open>The body of the loop over the serialized tools, with the names seen so far.\<close>

definition check_tool_schema :: "ha_json \<Rightarrow> string list \<Rightarrow> obj \<Rightarrow> string result" where
  "check_tool_schema J names schema =
     bind_result (bounded_tool_name (jget schema ''name'')) (\<lambda>name.
     bind_result (raise_if (name \<in> set names)
       (RealtimeToolBrokerError (''Realtime LLM API exposes duplicate tool name '' @ quoted name))) (\<lambda>_.
     bind_result (bounded_string (jget_default schema ''description'' (JStr []))
       (''description for '' @ name) PV_MAX_TOOL_DESCRIPTION_CHARS True) (\<lambda>_.
     bind_result (raise_if (obj_of (jget schema ''parameters'') = None)
       (RealtimeToolBrokerError (''Schema for realtime tool '' @ quoted name @ '' must be an object''))) (\<lambda>_.
     bind_result (serialized_size J (jget schema ''parameters'')) (\<lambda>n.
     bind_result (raise_if (MAX_REALTIME_TOOL_SCHEMA_BYTES < n)
       (RealtimeToolBrokerError (''Schema for realtime tool '' @ quoted name @ '' exceeds its size limit''))) (\<lambda>_.
     Inr name))))))"

fun check_tool_schemas :: "ha_json \<Rightarrow> obj list \<Rightarrow> string list \<Rightarrow> string list result" where
  "check_tool_schemas J [] names = Inr names"
| "check_tool_schemas J (schema # schemas) names =
     bind_result (check_tool_schema J names schema) (\<lambda>name.
     check_tool_schemas J schemas (names @ [name]))"

definition normalized_api_ids :: "json \<Rightarrow> (string + string list) result" where
  "normalized_api_ids api_ids =
     (if \<not> truthy api_ids
      then Inl (RealtimeToolBrokerError
        ''The realtime authority has no Home Assistant LLM API configured'')
      else case api_ids of
        JStr s \<Rightarrow> bind_result (bounded_string api_ids ''llm_hass_api'' PV_MAX_TOOL_NAME_CHARS False)
                    (\<lambda>api_id. Inr (Inl api_id))
      | JArr ids \<Rightarrow>
          if length ids \<le> MAX_REALTIME_TOOLS \<and> list_all (\<lambda>i. non_empty_text i \<noteq> None) ids
          then bind_result (collect_results
                 (map (\<lambda>i. bounded_string i ''llm_hass_api'' PV_MAX_TOOL_NAME_CHARS False) ids))
                 (\<lambda>ids'. Inr (Inr ids'))
          else Inl (RealtimeToolBrokerError
            ''The realtime authority has an invalid Home Assistant LLM API selection'')
      | _ \<Rightarrow> Inl (RealtimeToolBrokerError
            ''The realtime authority has an invalid Home Assistant LLM API selection''))"

definition ends_with :: "string \<Rightarrow> string \<Rightarrow> bool" where
  "ends_with s suffix \<longleftrightarrow> length suffix \<le> length s \<and> drop (length s - length suffix) s = suffix"

definition render_instructions ::
    "('p, 's) ha_llm \<Rightarrow> obj \<Rightarrow> ('p, 's) api_instance \<Rightarrow> string \<Rightarrow> string result" where
  "render_instructions H data api language =
     (let configured = jget data ''prompt'';
          prompt = (if truthy configured then configured else JStr (default_instructions H))
      in case text_of prompt of
           None \<Rightarrow> Inl (RealtimeToolBrokerError ''Realtime authority prompt must be text'')
         | Some text \<Rightarrow>
             bind_result (render_template H text) (\<lambda>rendered.
             bind_result
               (if list_ex (\<lambda>t. ends_with (lt_name t) ''GetDateTime'') (ai_tools api) then Inr []
                else bind_result (render_template H (date_time_prompt H)) (\<lambda>d. Inr [d])) (\<lambda>date_time.
             Inr (join_with [CHR 0x0A] (filter (\<lambda>part. part \<noteq> [])
               ([rendered, ai_prompt api] @ date_time
                @ [''Respond using language and locale '' @ language @ ''.'']))))))"

record registration_snapshot =
  rs_serialized :: string
  rs_tool_names :: "string list"

definition registration_message :: "string \<Rightarrow> string \<Rightarrow> string \<Rightarrow> obj list \<Rightarrow> obj" where
  "registration_message authority_id language instructions tools =
     [(''type'', JStr ''register''), (''protocol_version'', JInt REALTIME_TOOL_PROTOCOL_VERSION),
      (''authority_id'', JStr authority_id), (''language'', JStr language),
      (''instructions'', JStr instructions), (''tools'', JArr (map JObj tools))]"

definition supported_language :: "json \<Rightarrow> string result" where
  "supported_language v =
     (case text_of v of
        None \<Rightarrow> Inl (RealtimeToolBrokerError ''Unsupported realtime authority language'')
      | Some language \<Rightarrow>
          if language \<in> set SUPPORTED_LANGUAGES then Inr language
          else Inl (RealtimeToolBrokerError ''Unsupported realtime authority language''))"

definition prepare_registration ::
    "ha_json \<Rightarrow> ('p, 's) ha_llm \<Rightarrow> subentry \<Rightarrow> registration_snapshot result" where
  "prepare_registration J H authority =
     bind_result (bounded_string (JStr (se_id authority)) ''authority_id'' PV_MAX_AUTHORITY_ID_CHARS False)
       (\<lambda>authority_id.
     bind_result (supported_language
       (jget_default (se_data authority) ''realtime_language'' (JStr DEFAULT_REALTIME_LANGUAGE))) (\<lambda>language.
     bind_result (normalized_api_ids (jget (se_data authority) ''llm_hass_api'')) (\<lambda>api_ids.
     bind_result (get_api H api_ids language) (\<lambda>api.
     bind_result (serialize_llm_tools H api) (\<lambda>tools.
     bind_result (raise_if (MAX_REALTIME_TOOLS < length tools)
       (RealtimeToolBrokerError ''Realtime LLM API exposes too many tools'')) (\<lambda>_.
     bind_result (check_tool_schemas J tools []) (\<lambda>tool_names.
     bind_result (raise_if (set tool_names \<noteq> set (map lt_name (ai_tools api)))
       (RealtimeToolBrokerError ''Serialized realtime tools do not match the captured LLM API'')) (\<lambda>_.
     bind_result (render_instructions H (se_data authority) api language) (\<lambda>instructions.
     bind_result (bounded_string (JStr instructions) ''instructions'' PV_MAX_INSTRUCTIONS_CHARS False) (\<lambda>_.
     bind_result (dump_sorted J (JObj (registration_message authority_id language instructions tools)))
       (\<lambda>serialized.
     bind_result (raise_if (MAX_REALTIME_TOOL_REGISTRATION_BYTES < encoded_size serialized)
       (RealtimeToolBrokerError ''Realtime tool registration exceeds its size limit'')) (\<lambda>_.
     Inr \<lparr>rs_serialized = serialized, rs_tool_names = tool_names\<rparr>))))))))))))"

section \<open>One connection\<close>

text \<open>
  A message on its way to the bridge, under the send lock. A \<^verbatim>\<open>tool_result\<close> keeps what it was made of
  beside its text.
\<close>

datatype outgoing =
    Plain string
  | ToolResult string string bool obj string

datatype send_phase = AwaitsLock outgoing | Writes outgoing

text \<open>Where a task of a tool call is suspended; \<open>Finished\<close> tasks wait for their done callback.\<close>

datatype call_phase =
    Executes string string string obj
  | Sends send_phase
  | Closes
  | Finished

datatype main_phase =
    MainSends send_phase
  | Receives
  | Draining "bool result"
  | TornDown "bool result"

datatype sender = MainLoop | CallTask nat

record conn =
  cn_main :: main_phase
  cn_generation :: "string option"
  cn_seen :: "string set"
  cn_pending :: "(nat \<times> call_phase) list"
  cn_next_task :: nat
  cn_registered :: bool
  cn_connected :: bool
  cn_reauth_started :: bool
  cn_closed :: bool
  cn_lock :: "sender option"
  cn_executed :: "(string \<times> string \<times> obj) list"
  cn_wire :: "outgoing list"

definition new_conn :: "registration_snapshot \<Rightarrow> bool \<Rightarrow> conn" where
  "new_conn sn reauth_started =
     \<lparr>cn_main = MainSends (AwaitsLock (Plain (rs_serialized sn))), cn_generation = None, cn_seen = {},
      cn_pending = [], cn_next_task = 0, cn_registered = False, cn_connected = False,
      cn_reauth_started = reauth_started, cn_closed = False, cn_lock = None, cn_executed = [], cn_wire = []\<rparr>"

text \<open>The \<^verbatim>\<open>finally\<close> block: the calls are cancelled and awaited.\<close>

definition leave_loop :: "bool result \<Rightarrow> conn \<Rightarrow> conn" where
  "leave_loop r c = c\<lparr>cn_main := Draining r, cn_connected := False\<rparr>"

definition protocol_failure :: "string \<Rightarrow> conn \<Rightarrow> conn" where
  "protocol_failure text = leave_loop (Inl (RealtimeToolBrokerProtocolError text))"

subsection \<open>Tool calls\<close>

text \<open>
  \<^verbatim>\<open>_async_handle_tool_call_safely\<close>: a transport or broker error closes the socket, any other exception
  ends the task.
\<close>

definition closes_generation :: "py_error \<Rightarrow> bool" where
  "closes_generation e =
     (case e of ClientError _ \<Rightarrow> True | RealtimeToolBrokerError _ \<Rightarrow> True
      | RealtimeToolBrokerProtocolError _ \<Rightarrow> True | _ \<Rightarrow> False)"

definition task_raises :: "py_error \<Rightarrow> call_phase" where
  "task_raises e = (if closes_generation e then Closes else Finished)"

definition result_message :: "string \<Rightarrow> string \<Rightarrow> bool \<Rightarrow> obj \<Rightarrow> obj" where
  "result_message generation call_id success result =
     [(''type'', JStr ''tool_result''), (''generation'', JStr generation), (''call_id'', JStr call_id),
      (''success'', JBool success), (''result'', JObj result)]"

definition send_tool_result :: "ha_json \<Rightarrow> string \<Rightarrow> string \<Rightarrow> bool \<Rightarrow> obj \<Rightarrow> call_phase" where
  "send_tool_result J generation call_id success result =
     (case dump_sorted J (JObj (result_message generation call_id success result)) of
        Inl e \<Rightarrow> task_raises e
      | Inr message \<Rightarrow>
          if MAX_REALTIME_TOOL_MESSAGE_BYTES < encoded_size message
          then task_raises (RealtimeToolBrokerProtocolError ''Realtime tool result event exceeds its size limit'')
          else Sends (AwaitsLock (ToolResult generation call_id success result message)))"

text \<open>
  \<^verbatim>\<open>_async_handle_tool_call\<close> up to its first suspension: after the generation and the call id, the
  checks that lead to the call of the tool.
\<close>

definition admit_tool_call ::
    "ha_json \<Rightarrow> registration_snapshot \<Rightarrow> string \<Rightarrow> string \<Rightarrow> obj \<Rightarrow> bool \<Rightarrow> call_phase" where
  "admit_tool_call J sn generation call_id event socket_closed =
     (case bounded_tool_name (jget event ''name'') of
        Inl e \<Rightarrow> task_raises e
      | Inr name \<Rightarrow>
          (case obj_of (jget event ''arguments'') of
             None \<Rightarrow> send_tool_result J generation call_id False
               (tool_error ''invalid_arguments'' ''Tool arguments must be an object'')
           | Some arguments \<Rightarrow>
               (case serialized_size J (JObj arguments) of
                  Inl e \<Rightarrow> task_raises e
                | Inr n \<Rightarrow>
                    if MAX_REALTIME_TOOL_ARGUMENT_BYTES < n
                    then send_tool_result J generation call_id False
                      (tool_error ''invalid_arguments'' ''Tool arguments exceed the size limit'')
                    else if name \<notin> set (rs_tool_names sn) \<or> socket_closed
                    then send_tool_result J generation call_id False
                      (tool_error ''tool_not_available'' ''Tool is not available'')
                    else Executes generation call_id name arguments)))"

definition started_call :: "call_phase \<Rightarrow> (string \<times> string \<times> obj) list" where
  "started_call p =
     (case p of Executes generation call_id name arguments \<Rightarrow> [(call_id, name, arguments)] | _ \<Rightarrow> [])"

definition handle_tool_call ::
    "ha_json \<Rightarrow> registration_snapshot \<Rightarrow> string \<Rightarrow> obj \<Rightarrow> conn \<Rightarrow> call_phase \<times> conn" where
  "handle_tool_call J sn generation event c =
     (case bounded_string (jget event ''generation'') ''generation'' PV_MAX_GENERATION_CHARS False of
        Inl e \<Rightarrow> (task_raises e, c)
      | Inr event_generation \<Rightarrow>
          if event_generation \<noteq> generation then (Finished, c)
          else
            (case bounded_string (jget event ''call_id'') ''call_id'' PV_MAX_CALL_ID_CHARS False of
               Inl e \<Rightarrow> (task_raises e, c)
             | Inr call_id \<Rightarrow>
                 if call_id \<in> cn_seen c then (Finished, c)
                 else
                   let p = admit_tool_call J sn generation call_id event (cn_closed c)
                   in (p, c\<lparr>cn_seen := insert call_id (cn_seen c),
                            cn_executed := cn_executed c @ started_call p\<rparr>)))"

text \<open>How the awaited tool ends, and the rest of \<^verbatim>\<open>_async_handle_tool_call\<close>.\<close>

datatype tool_ending = Returned json | Raised py_error | DeadlineExpired

definition timeout_result :: obj where
  "timeout_result =
     [(''error'', JStr ''tool_timeout''),
      (''error_text'', JStr ''Home Assistant tool call timed out; outcome is unknown; do not retry''),
      (''do_not_retry'', JBool True)]"

definition judge_result :: "ha_json \<Rightarrow> tool_ending \<Rightarrow> obj result" where
  "judge_result J ending =
     (case ending of
        Returned v \<Rightarrow> validate_tool_result J v
      | Raised e \<Rightarrow> Inl e
      | DeadlineExpired \<Rightarrow> Inl (TimeoutError []))"

definition after_tool ::
    "ha_json \<Rightarrow> string \<Rightarrow> string \<Rightarrow> tool_ending \<Rightarrow> bool \<Rightarrow> call_phase" where
  "after_tool J generation call_id ending socket_closed =
     (case judge_result J ending of
        Inl CancelledError \<Rightarrow> Finished
      | Inl (TimeoutError _) \<Rightarrow>
          if socket_closed then Finished else send_tool_result J generation call_id False timeout_result
      | Inl _ \<Rightarrow>
          if socket_closed then Finished
          else send_tool_result J generation call_id False
            (tool_error ''tool_failed'' ''Home Assistant tool call failed'')
      | Inr result \<Rightarrow>
          if socket_closed then Finished else send_tool_result J generation call_id True result)"

subsection \<open>The receive loop\<close>

datatype ws_message = TextMessage string | ErrorMessage | CloseMessage | OtherMessage

definition tool_call_event :: "ha_json \<Rightarrow> registration_snapshot \<Rightarrow> obj \<Rightarrow> conn \<Rightarrow> conn" where
  "tool_call_event J sn event c =
     (case cn_generation c of
        None \<Rightarrow> protocol_failure ''Bridge sent a tool call before registration'' c
      | Some generation \<Rightarrow>
          if PV_MAX_PENDING_TOOL_CALLS \<le> length (cn_pending c)
          then protocol_failure ''Bridge exceeded the pending tool-call limit'' c
          else if MAX_CALLS_PER_GENERATION \<le> card (cn_seen c)
          then protocol_failure ''Bridge exceeded the generation tool-call limit'' c
          else let (p, c') = handle_tool_call J sn generation event c
               in c'\<lparr>cn_pending := cn_pending c' @ [(cn_next_task c', p)],
                     cn_next_task := cn_next_task c' + 1\<rparr>)"

definition registered_event :: "obj \<Rightarrow> conn \<Rightarrow> conn" where
  "registered_event event c =
     (if cn_generation c \<noteq> None
      then protocol_failure ''Bridge registered the realtime tool broker twice'' c
      else if \<not> equals_int (jget event ''protocol_version'') REALTIME_TOOL_PROTOCOL_VERSION
      then protocol_failure ''Bridge selected an unsupported realtime tool protocol'' c
      else case bounded_string (jget event ''generation'') ''generation'' PV_MAX_GENERATION_CHARS False of
             Inl e \<Rightarrow> leave_loop (Inl e) c
           | Inr generation \<Rightarrow>
               c\<lparr>cn_generation := Some generation, cn_registered := True, cn_connected := True,
                 cn_reauth_started := False\<rparr>)"

definition receive_event :: "ha_json \<Rightarrow> registration_snapshot \<Rightarrow> obj \<Rightarrow> conn \<Rightarrow> conn" where
  "receive_event J sn event c =
     (let kind = jget event ''type'' in
      if kind = JStr ''ping''
      then (case dump_sorted J (JObj [(''type'', JStr ''pong'')]) of
              Inl e \<Rightarrow> leave_loop (Inl e) c
            | Inr message \<Rightarrow> c\<lparr>cn_main := MainSends (AwaitsLock (Plain message))\<rparr>)
      else if kind = JStr ''pong'' then c
      else if kind = JStr ''registered'' then registered_event event c
      else if kind = JStr ''tool_call'' then tool_call_event J sn event c
      else if kind = JStr ''error''
      then protocol_failure ''Bridge rejected the realtime tool registration'' c
      else protocol_failure ''Unknown realtime tool event type'' c)"

definition receive_message :: "ha_json \<Rightarrow> registration_snapshot \<Rightarrow> ws_message \<Rightarrow> conn \<Rightarrow> conn" where
  "receive_message J sn message c =
     (case message of
        ErrorMessage \<Rightarrow> leave_loop (Inl (RealtimeToolBrokerError ''Realtime tool WebSocket failed'')) c
      | CloseMessage \<Rightarrow> leave_loop (Inr (cn_registered c)) (c\<lparr>cn_closed := True\<rparr>)
      | OtherMessage \<Rightarrow> protocol_failure ''Realtime tool protocol only accepts text events'' c
      | TextMessage text \<Rightarrow>
          if MAX_REALTIME_TOOL_MESSAGE_BYTES < encoded_size text
          then protocol_failure ''Realtime tool event exceeds its size limit'' c
          else (case ha_loads J text of
                  Some (JObj event) \<Rightarrow> receive_event J sn event c
                | _ \<Rightarrow> protocol_failure ''Realtime tool event is not a JSON object'' c))"

subsection \<open>Sending\<close>

text \<open>
  \<^verbatim>\<open>_async_send_text\<close>: the lock is granted to a waiting sender, which writes unless the socket is closed;
  the write ends, raises, or the deadline of the whole passes.
\<close>

datatype send_ending = Written | WriteFails py_error | SendTimesOut

definition phase_of :: "sender \<Rightarrow> conn \<Rightarrow> send_phase option" where
  "phase_of w c =
     (case w of
        MainLoop \<Rightarrow> (case cn_main c of MainSends p \<Rightarrow> Some p | _ \<Rightarrow> None)
      | CallTask t \<Rightarrow> (case map_of (cn_pending c) t of Some (Sends p) \<Rightarrow> Some p | _ \<Rightarrow> None))"

definition with_phase :: "nat \<Rightarrow> call_phase \<Rightarrow> (nat \<times> call_phase) list \<Rightarrow> (nat \<times> call_phase) list" where
  "with_phase t p tasks = map (\<lambda>(k, q). (k, if k = t then p else q)) tasks"

definition set_call :: "nat \<Rightarrow> call_phase \<Rightarrow> conn \<Rightarrow> conn" where
  "set_call t p c = c\<lparr>cn_pending := with_phase t p (cn_pending c)\<rparr>"

definition set_sending :: "sender \<Rightarrow> send_phase \<Rightarrow> conn \<Rightarrow> conn" where
  "set_sending w p c =
     (case w of MainLoop \<Rightarrow> c\<lparr>cn_main := MainSends p\<rparr> | CallTask t \<Rightarrow> set_call t (Sends p) c)"

definition sender_raises :: "sender \<Rightarrow> py_error \<Rightarrow> conn \<Rightarrow> conn" where
  "sender_raises w e c =
     (case w of MainLoop \<Rightarrow> leave_loop (Inl e) c | CallTask t \<Rightarrow> set_call t (task_raises e) c)"

definition sender_done :: "sender \<Rightarrow> conn \<Rightarrow> conn" where
  "sender_done w c =
     (case w of MainLoop \<Rightarrow> c\<lparr>cn_main := Receives\<rparr> | CallTask t \<Rightarrow> set_call t Finished c)"

definition send_granted :: "sender \<Rightarrow> conn \<Rightarrow> conn" where
  "send_granted w c =
     (case phase_of w c of
        Some (AwaitsLock m) \<Rightarrow>
          if cn_lock c \<noteq> None then c
          else if cn_closed c
          then sender_raises w (RealtimeToolBrokerError ''Realtime Home Assistant tool broker disconnected'') c
          else (set_sending w (Writes m) c)\<lparr>cn_lock := Some w, cn_wire := cn_wire c @ [m]\<rparr>
      | _ \<Rightarrow> c)"

definition send_timed_out :: py_error where
  "send_timed_out = RealtimeToolBrokerError ''Realtime Home Assistant tool broker send timed out''"

definition send_ends :: "sender \<Rightarrow> send_ending \<Rightarrow> conn \<Rightarrow> conn" where
  "send_ends w ending c =
     (case phase_of w c of
        Some (Writes m) \<Rightarrow>
          (let c' = c\<lparr>cn_lock := None\<rparr> in
           case ending of
             Written \<Rightarrow> sender_done w c'
           | WriteFails e \<Rightarrow> sender_raises w e c'
           | SendTimesOut \<Rightarrow> sender_raises w send_timed_out c')
      | Some (AwaitsLock m) \<Rightarrow> (if ending = SendTimesOut then sender_raises w send_timed_out c else c)
      | None \<Rightarrow> c)"

subsection \<open>Interleavings\<close>

datatype conn_event =
    Delivers ws_message
  | RegistrationDeadline
  | ToolEnds nat tool_ending
  | Granted sender
  | SendEnds sender send_ending
  | ClosesSocket nat
  | SocketDies
  | CallDone nat
  | Cancels nat
  | CancelsLoop
  | Drained

text \<open>A task that is cancelled where it is suspended gives up the lock it may hold.\<close>

definition release_lock :: "sender \<Rightarrow> conn \<Rightarrow> conn" where
  "release_lock w c = (if cn_lock c = Some w then c\<lparr>cn_lock := None\<rparr> else c)"

definition conn_step :: "ha_json \<Rightarrow> registration_snapshot \<Rightarrow> conn_event \<Rightarrow> conn \<Rightarrow> conn" where
  "conn_step J sn ev c =
     (case ev of
        Delivers m \<Rightarrow> if cn_main c = Receives then receive_message J sn m c else c
      | RegistrationDeadline \<Rightarrow>
          if cn_main c = Receives \<and> cn_generation c = None then leave_loop (Inl (TimeoutError [])) c else c
      | ToolEnds t ending \<Rightarrow>
          (case map_of (cn_pending c) t of
             Some (Executes generation call_id name arguments) \<Rightarrow>
               set_call t (after_tool J generation call_id ending (cn_closed c)) c
           | _ \<Rightarrow> c)
      | Granted w \<Rightarrow> send_granted w c
      | SendEnds w ending \<Rightarrow> send_ends w ending c
      | ClosesSocket t \<Rightarrow>
          if map_of (cn_pending c) t = Some Closes then (set_call t Finished c)\<lparr>cn_closed := True\<rparr> else c
      | SocketDies \<Rightarrow> c\<lparr>cn_closed := True\<rparr>
      | CallDone t \<Rightarrow>
          if map_of (cn_pending c) t = Some Finished then c\<lparr>cn_pending := dict_pop (cn_pending c) t\<rparr> else c
      | Cancels t \<Rightarrow>
          (case cn_main c of
             Draining r \<Rightarrow> release_lock (CallTask t) (set_call t Finished c)
           | _ \<Rightarrow> c)
      | CancelsLoop \<Rightarrow>
          (case cn_main c of
             Receives \<Rightarrow> leave_loop (Inl CancelledError) c
           | MainSends p \<Rightarrow> release_lock MainLoop (leave_loop (Inl CancelledError) c)
           | _ \<Rightarrow> c)
      | Drained \<Rightarrow>
          (case cn_main c of
             Draining r \<Rightarrow> if cn_pending c = [] then c\<lparr>cn_main := TornDown r, cn_closed := True\<rparr> else c
           | _ \<Rightarrow> c))"

definition run_conn :: "ha_json \<Rightarrow> registration_snapshot \<Rightarrow> conn_event list \<Rightarrow> conn \<Rightarrow> conn" where
  "run_conn J sn evs c = fold (conn_step J sn) evs c"

section \<open>Reconnecting\<close>

record tool_run =
  rn_stopped :: bool
  rn_ended :: bool
  rn_delay :: rat
  rn_connected :: bool
  rn_reauth_started :: bool
  rn_reauths :: nat
  rn_waits :: "rat list"

definition new_run :: "rat \<Rightarrow> tool_run" where
  "new_run initial_delay =
     \<lparr>rn_stopped = False, rn_ended = False, rn_delay = initial_delay, rn_connected = False,
      rn_reauth_started = False, rn_reauths = 0, rn_waits = []\<rparr>"

definition request_reauth :: "py_error \<Rightarrow> tool_run \<Rightarrow> tool_run" where
  "request_reauth e s =
     (case e of
        WSServerHandshakeError status \<Rightarrow>
          if status \<in> {401, 403} \<and> \<not> rn_reauth_started s
          then s\<lparr>rn_reauth_started := True, rn_reauths := rn_reauths s + 1\<rparr> else s
      | _ \<Rightarrow> s)"

text \<open>
  One turn of \<^verbatim>\<open>_async_run\<close> after the attempt ended with \<open>outcome\<close>, up to the wait it starts; \<open>reauth\<close> is
  the flag as the connection left it.
\<close>

definition attempt_ends :: "rat \<Rightarrow> rat \<Rightarrow> bool result \<Rightarrow> bool \<Rightarrow> tool_run \<Rightarrow> tool_run" where
  "attempt_ends initial_delay max_delay outcome reauth s =
     (let s1 = s\<lparr>rn_reauth_started := reauth\<rparr>;
          s2 = (case outcome of Inl e \<Rightarrow> request_reauth e s1 | Inr _ \<Rightarrow> s1)\<lparr>rn_connected := False\<rparr>
      in if outcome = Inl CancelledError \<or> rn_stopped s2 then s2\<lparr>rn_ended := True\<rparr>
         else let delay = (if outcome = Inr True then initial_delay else rn_delay s2)
              in s2\<lparr>rn_waits := rn_waits s2 @ [delay],
                    rn_delay := min (max (delay * 2) initial_delay) max_delay\<rparr>)"

text \<open>The loop over the outcomes of its attempts; it stops at the first turn that ends it.\<close>

fun run_attempts :: "rat \<Rightarrow> rat \<Rightarrow> (bool result \<times> bool) list \<Rightarrow> tool_run \<Rightarrow> tool_run" where
  "run_attempts initial_delay max_delay [] s = s"
| "run_attempts initial_delay max_delay ((outcome, reauth) # rest) s =
     (if rn_ended s \<or> rn_stopped s then s
      else run_attempts initial_delay max_delay rest
             (attempt_ends initial_delay max_delay outcome reauth s))"

definition stop_run :: "tool_run \<Rightarrow> tool_run" where
  "stop_run s = s\<lparr>rn_stopped := True\<rparr>"


section \<open>The broker object\<close>

definition new_tool_broker :: "rat \<Rightarrow> rat \<Rightarrow> rat \<Rightarrow> rat \<Rightarrow> tool_run result" where
  "new_tool_broker initial_delay registration_timeout tool_call_timeout send_timeout =
     (if registration_timeout \<le> 0 then Inl (ValueError ''registration_timeout must be positive'')
      else if tool_call_timeout \<le> 0 then Inl (ValueError ''tool_call_timeout must be positive'')
      else if send_timeout \<le> 0 then Inl (ValueError ''send_timeout must be positive'')
      else Inr (new_run initial_delay))"

text \<open>The brokers kept in \<^verbatim>\<open>hass.data\<close>, by config entry; the key is absent while there are none.\<close>

definition start_realtime_tool_broker ::
    "string \<Rightarrow> subentry list \<Rightarrow> 'b \<Rightarrow> (string \<times> 'b) list option \<Rightarrow> 'b option \<times> (string \<times> 'b) list option" where
  "start_realtime_tool_broker entry_id subentries tool_broker brokers =
     (case select_realtime_authority subentries of
        None \<Rightarrow> (None, brokers)
      | Some authority \<Rightarrow>
          (Some tool_broker,
           Some (dict_set (case brokers of None \<Rightarrow> [] | Some m \<Rightarrow> m) entry_id tool_broker)))"

definition unload_broker :: "string \<Rightarrow> (string \<times> 'b) list option \<Rightarrow> (string \<times> 'b) list option" where
  "unload_broker entry_id brokers =
     (case brokers of
        None \<Rightarrow> None
      | Some m \<Rightarrow> (let m' = dict_pop m entry_id in if m' = [] then None else Some m'))"

lemma unload_started:
  "snd (start_realtime_tool_broker e subs b None) = Some m \<Longrightarrow> unload_broker e (Some m) = None"
  by (auto simp: start_realtime_tool_broker_def unload_broker_def dict_pop_def split: option.splits)

end
