(* ===== verification/Event_System.thy ===== *)
theory Event_System
  imports Main
begin

text \<open>
  Contracts of components whose interleavings are sequences of events applied to a state: an invariant
  every event keeps, a log that only grows, and states in which part of the state is settled for good.
  Each component instantiates them with its own step function.
\<close>

locale event_system =
  fixes step :: "'e \<Rightarrow> 's \<Rightarrow> 's"
    and good :: "'s \<Rightarrow> bool"
  assumes step_good: "good s \<Longrightarrow> good (step e s)"
begin

lemma run_good: "good s \<Longrightarrow> good (fold step es s)"
  by (induction es arbitrary: s) (auto simp: step_good)

end

text \<open>A log is extended, never rewritten.\<close>

locale logging_system = event_system +
  fixes entries :: "'s \<Rightarrow> 'l list"
  assumes step_entries: "good s \<Longrightarrow> \<exists>new. entries (step e s) = entries s @ new"
begin

lemma run_entries: "good s \<Longrightarrow> \<exists>new. entries (fold step es s) = entries s @ new"
proof (induction es arbitrary: s)
  case (Cons e es)
  obtain new where new: "entries (step e s) = entries s @ new" using step_entries [OF Cons.prems] by blast
  obtain more_new where "entries (fold step es (step e s)) = entries (step e s) @ more_new"
    using Cons.IH [OF step_good [OF Cons.prems]] by blast
  with new show ?case by simp
qed simp

lemma run_keeps_entry: "good s \<Longrightarrow> x \<in> set (entries s) \<Longrightarrow> x \<in> set (entries (fold step es s))"
  using run_entries [of s es] by auto

end

text \<open>Once a state is settled, no event changes what is seen of it.\<close>

locale settling_system = event_system +
  fixes settled :: "'s \<Rightarrow> bool"
    and seen :: "'s \<Rightarrow> 'v"
  assumes step_settled: "good s \<Longrightarrow> settled s \<Longrightarrow> settled (step e s)"
    and step_seen: "good s \<Longrightarrow> settled s \<Longrightarrow> seen (step e s) = seen s"
begin

lemma run_settled:
  "good s \<Longrightarrow> settled s \<Longrightarrow> settled (fold step es s) \<and> seen (fold step es s) = seen s"
proof (induction es arbitrary: s)
  case (Cons e es)
  then show ?case
    using Cons.IH [of "step e s"] step_good [of s e] step_settled [of s e] step_seen [of s e] by simp
qed simp

lemma seen_after: "good s \<Longrightarrow> settled s \<Longrightarrow> seen (fold step es s) = seen s"
  using run_settled by blast

end

end
