(* ===== verification/Tool_Provider_Safety.thy ===== *)
theory Tool_Provider_Safety
  imports Tool_Provider Event_System
begin

text \<open>
  What one connection of the Home Assistant tool provider keeps over every interleaving of its events:
  each call id runs at most one tool and is answered at most once, only tools of the registration run,
  the tables stay bounded, and once the loop is left no tool starts.
\<close>

section \<open>The invariant\<close>

text \<open>The call id a task still owes an answer, and the one a written message answers.\<close>

fun owes :: "string \<Rightarrow> call_phase \<Rightarrow> nat" where
  "owes k (Executes generation call_id name arguments) = (if call_id = k then 1 else 0)"
| "owes k (Sends (AwaitsLock (ToolResult generation call_id success result message))) =
     (if call_id = k then 1 else 0)"
| "owes k _ = 0"

fun answers :: "string \<Rightarrow> outgoing \<Rightarrow> bool" where
  "answers k (ToolResult generation call_id success result message) = (call_id = k)"
| "answers k (Plain message) = False"

definition owed :: "string \<Rightarrow> (nat \<times> call_phase) list \<Rightarrow> nat" where
  "owed k tasks = sum_list (map (\<lambda>p. owes k (snd p)) tasks)"

definition answered :: "string \<Rightarrow> conn \<Rightarrow> nat" where
  "answered k c = length (filter (answers k) (cn_wire c))"

text \<open>What a message and the phase of a task are made of.\<close>

definition outgoing_ok :: "ha_json \<Rightarrow> conn \<Rightarrow> outgoing \<Rightarrow> bool" where
  "outgoing_ok J c m =
     (case m of
        Plain _ \<Rightarrow> True
      | ToolResult generation call_id success result message \<Rightarrow>
          cn_generation c = Some generation \<and> call_id \<in> cn_seen c
          \<and> dump_sorted J (JObj (result_message generation call_id success result)) = Inr message
          \<and> encoded_size message \<le> MAX_REALTIME_TOOL_MESSAGE_BYTES
          \<and> (success \<longrightarrow> call_id \<in> fst ` set (cn_executed c)))"

definition phase_ok :: "ha_json \<Rightarrow> conn \<Rightarrow> call_phase \<Rightarrow> bool" where
  "phase_ok J c p =
     (case p of
        Executes generation call_id name arguments \<Rightarrow>
          cn_generation c = Some generation \<and> call_id \<in> cn_seen c
          \<and> (call_id, name, arguments) \<in> set (cn_executed c)
      | Sends (AwaitsLock m) \<Rightarrow> outgoing_ok J c m
      | Sends (Writes m) \<Rightarrow> outgoing_ok J c m
      | _ \<Rightarrow> True)"

definition authorized :: "ha_json \<Rightarrow> registration_snapshot \<Rightarrow> string \<times> string \<times> obj \<Rightarrow> bool" where
  "authorized J sn x =
     (case x of (call_id, name, arguments) \<Rightarrow>
        name \<in> set (rs_tool_names sn) \<and> valid_tool_name name
        \<and> (\<exists>n. serialized_size J (JObj arguments) = Inr n \<and> n \<le> MAX_REALTIME_TOOL_ARGUMENT_BYTES))"

definition conn_inv :: "ha_json \<Rightarrow> registration_snapshot \<Rightarrow> conn \<Rightarrow> bool" where
  "conn_inv J sn c \<longleftrightarrow>
     finite (cn_seen c) \<and> card (cn_seen c) \<le> MAX_CALLS_PER_GENERATION
     \<and> distinct (map fst (cn_executed c)) \<and> fst ` set (cn_executed c) \<subseteq> cn_seen c
     \<and> list_all (authorized J sn) (cn_executed c)
     \<and> distinct (map fst (cn_pending c)) \<and> (\<forall>t \<in> fst ` set (cn_pending c). t < cn_next_task c)
     \<and> length (cn_pending c) \<le> PV_MAX_PENDING_TOOL_CALLS
     \<and> (cn_generation c = None \<longrightarrow> cn_seen c = {} \<and> cn_pending c = [])
     \<and> (\<forall>k. answered k c + owed k (cn_pending c) \<le> (if k \<in> cn_seen c then 1 else 0))
     \<and> (\<forall>p \<in> set (cn_pending c). phase_ok J c (snd p))
     \<and> (\<forall>m \<in> set (cn_wire c). outgoing_ok J c m)"

named_theorems conn_simps "projections of the connection's operations"

lemma owed_simps [simp]: "owed k [] = 0" "owed k (p # ps) = owes k (snd p) + owed k ps"
  "owed k (ps @ qs) = owed k ps + owed k qs"
  by (simp_all add: owed_def)

text \<open>Replacing the phase of one task.\<close>

lemma with_phase_simps [simp]:
  "with_phase t p [] = []"
  "with_phase t p ((k, q) # ps) = (k, if k = t then p else q) # with_phase t p ps"
  by (simp_all add: with_phase_def)

lemma with_phase_keys [simp]: "map fst (with_phase t p ps) = map fst ps"
  by (induction ps) auto

lemma with_phase_fst [simp]: "fst ` set (with_phase t p ps) = fst ` set ps"
  using arg_cong [OF with_phase_keys [of t p ps], of set] by (simp only: set_map)

lemma with_phase_length [simp]: "length (with_phase t p ps) = length ps"
  by (simp add: with_phase_def)

lemma with_phase_absent: "t \<notin> fst ` set ps \<Longrightarrow> with_phase t p ps = ps"
  by (induction ps) auto

lemma with_phase_member: "x \<in> set (with_phase t p ps) \<Longrightarrow> x \<in> set ps \<or> snd x = p"
  by (induction ps) (auto split: if_splits)

lemma with_phase_lookup [simp]:
  "map_of (with_phase t p ps) k = (if k = t then map_option (\<lambda>_. p) (map_of ps k) else map_of ps k)"
  by (induction ps) auto

lemma owed_with_phase:
  "distinct (map fst ps) \<Longrightarrow> map_of ps t = Some q \<Longrightarrow>
   owed k (with_phase t p ps) + owes k q = owed k ps + owes k p"
proof (induction ps)
  case (Cons a ps)
  obtain i r where a: "a = (i, r)" by (cases a)
  show ?case
  proof (cases "i = t")
    case True
    with Cons.prems a have "with_phase t p ps = ps" by (intro with_phase_absent) auto
    with True a Cons.prems show ?thesis by simp
  next
    case False
    with a Cons show ?thesis by simp
  qed
qed simp

lemma owed_dict_pop: "owed k (dict_pop ps t) \<le> owed k ps"
  by (induction ps) (auto simp: dict_pop_def)

lemma set_call_simps [conn_simps, simp]:
  "cn_main (set_call t p c) = cn_main c" "cn_generation (set_call t p c) = cn_generation c"
  "cn_seen (set_call t p c) = cn_seen c" "cn_pending (set_call t p c) = with_phase t p (cn_pending c)"
  "cn_next_task (set_call t p c) = cn_next_task c" "cn_closed (set_call t p c) = cn_closed c"
  "cn_lock (set_call t p c) = cn_lock c" "cn_executed (set_call t p c) = cn_executed c"
  "cn_wire (set_call t p c) = cn_wire c"
  by (simp_all add: set_call_def)

lemma leave_loop_simps [conn_simps, simp]:
  "cn_main (leave_loop r c) = Draining r" "cn_generation (leave_loop r c) = cn_generation c"
  "cn_seen (leave_loop r c) = cn_seen c" "cn_pending (leave_loop r c) = cn_pending c"
  "cn_next_task (leave_loop r c) = cn_next_task c" "cn_closed (leave_loop r c) = cn_closed c"
  "cn_lock (leave_loop r c) = cn_lock c" "cn_executed (leave_loop r c) = cn_executed c"
  "cn_wire (leave_loop r c) = cn_wire c"
  by (simp_all add: leave_loop_def)

text \<open>The invariant reads only these parts.\<close>

lemma outgoing_ok_cong:
  "cn_generation c' = cn_generation c \<Longrightarrow> cn_seen c' = cn_seen c \<Longrightarrow> cn_executed c' = cn_executed c \<Longrightarrow>
   outgoing_ok J c' m = outgoing_ok J c m"
  by (cases m) (simp_all add: outgoing_ok_def)

lemma phase_ok_cong:
  "cn_generation c' = cn_generation c \<Longrightarrow> cn_seen c' = cn_seen c \<Longrightarrow> cn_executed c' = cn_executed c \<Longrightarrow>
   phase_ok J c' p = phase_ok J c p"
  by (cases p) (simp_all add: phase_ok_def outgoing_ok_cong [of c' c] split: send_phase.splits)

lemma conn_inv_cong:
  assumes "conn_inv J sn c"
    and "cn_generation c' = cn_generation c" "cn_seen c' = cn_seen c" "cn_executed c' = cn_executed c"
    and "cn_pending c' = cn_pending c" "cn_next_task c' = cn_next_task c" "cn_wire c' = cn_wire c"
  shows "conn_inv J sn c'"
  using assms(1) outgoing_ok_cong [OF assms(2-4)] phase_ok_cong [OF assms(2-4)]
  unfolding conn_inv_def answered_def assms(2-) by simp

lemma set_call_inv:
  assumes inv: "conn_inv J sn c" and q: "map_of (cn_pending c) t = Some q"
    and le: "\<And>k. owes k p \<le> owes k q" and ok: "phase_ok J c p"
  shows "conn_inv J sn (set_call t p c)"
proof -
  have d: "distinct (map fst (cn_pending c))" using inv by (simp add: conn_inv_def)
  have "answered k c + owed k (with_phase t p (cn_pending c)) \<le> (if k \<in> cn_seen c then 1 else 0)" for k
  proof -
    have "answered k c + owed k (cn_pending c) \<le> (if k \<in> cn_seen c then 1 else 0)"
      using inv by (simp add: conn_inv_def)
    with owed_with_phase [OF d q, of k p] le [of k] show ?thesis by linarith
  qed
  moreover have "\<forall>x \<in> set (with_phase t p (cn_pending c)). phase_ok J c (snd x)"
    using inv ok by (auto simp: conn_inv_def dest: with_phase_member)
  ultimately show ?thesis
    using inv phase_ok_cong [of "set_call t p c" c] outgoing_ok_cong [of "set_call t p c" c]
    by (simp add: conn_inv_def answered_def)
qed

lemma leave_loop_inv: "conn_inv J sn c \<Longrightarrow> conn_inv J sn (leave_loop r c)"
  by (erule conn_inv_cong) simp_all

lemma protocol_failure_inv: "conn_inv J sn c \<Longrightarrow> conn_inv J sn (protocol_failure e c)"
  by (simp add: protocol_failure_def leave_loop_inv)

section \<open>Phases of a call\<close>

lemma owes_task_raises [simp]: "owes k (task_raises e) = 0"
  by (simp add: task_raises_def)

lemma phase_ok_task_raises [simp]: "phase_ok J c (task_raises e)"
  by (simp add: task_raises_def phase_ok_def)

lemma owes_send_result: "owes k (send_tool_result J g call_id s r) \<le> (if call_id = k then 1 else 0)"
  by (auto simp: send_tool_result_def split: sum.splits)

lemma phase_ok_simps [simp]:
  "phase_ok J c Finished" "phase_ok J c Closes"
  "phase_ok J c (Sends (AwaitsLock m)) = outgoing_ok J c m"
  "phase_ok J c (Sends (Writes m)) = outgoing_ok J c m"
  "phase_ok J c (Executes g k n a) \<longleftrightarrow>
     cn_generation c = Some g \<and> k \<in> cn_seen c \<and> (k, n, a) \<in> set (cn_executed c)"
  by (simp_all add: phase_ok_def)

lemma phase_ok_send_result:
  assumes "cn_generation c = Some g" "call_id \<in> cn_seen c" "s \<Longrightarrow> call_id \<in> fst ` set (cn_executed c)"
  shows "phase_ok J c (send_tool_result J g call_id s r)"
  using assms by (auto simp: send_tool_result_def outgoing_ok_def split: sum.splits)

lemma after_tool_cases:
  "after_tool J g k e b = Finished \<or> (\<exists>r. after_tool J g k e b = send_tool_result J g k False r)
   \<or> (\<exists>r. after_tool J g k e b = send_tool_result J g k True r)"
proof (cases "judge_result J e")
  case (Inl x)
  then show ?thesis by (cases x) (auto simp: after_tool_def)
qed (auto simp: after_tool_def)

lemma owes_after_tool: "owes k (after_tool J g call_id e b) \<le> (if call_id = k then 1 else 0)"
  using after_tool_cases [of J g call_id e b] owes_send_result by (metis owes.simps(6) zero_le)

lemma phase_ok_after_tool:
  assumes "cn_generation c = Some g" "call_id \<in> cn_seen c" "call_id \<in> fst ` set (cn_executed c)"
  shows "phase_ok J c (after_tool J g call_id e b)"
  using after_tool_cases [of J g call_id e b] phase_ok_send_result assms by (metis phase_ok_simps(1))


lemma admit_cases:
  obtains e where "admit_tool_call J sn g k ev b = task_raises e"
  | r where "admit_tool_call J sn g k ev b = send_tool_result J g k False r"
  | name arguments where "admit_tool_call J sn g k ev b = Executes g k name arguments"
      "authorized J sn (k, name, arguments)" "jget ev ''arguments'' = JObj arguments"
      "jget ev ''name'' = JStr name" "\<not> b"
proof (cases "bounded_tool_name (jget ev ''name'')")
  case (Inl e)
  then show thesis using that(1) by (simp add: admit_tool_call_def)
next
  case name: (Inr name)
  then have v: "valid_tool_name name" "jget ev ''name'' = JStr name"
    by (auto simp: bounded_tool_name_def bounded_string_def result_simps split: option.splits if_splits)
  show thesis
  proof (cases "obj_of (jget ev ''arguments'')")
    case None
    with name show thesis using that(2) by (simp add: admit_tool_call_def)
  next
    case args: (Some arguments)
    show thesis
    proof (cases "serialized_size J (JObj arguments)")
      case (Inl e)
      with name args show thesis using that(1) by (simp add: admit_tool_call_def)
    next
      case (Inr n)
      note here = name args Inr v
      show thesis
      proof (cases "MAX_REALTIME_TOOL_ARGUMENT_BYTES < n \<or> name \<notin> set (rs_tool_names sn) \<or> b")
        case True
        then show thesis using here that(2) by (cases "MAX_REALTIME_TOOL_ARGUMENT_BYTES < n") (simp_all add: admit_tool_call_def)
      next
        case False
        then have "admit_tool_call J sn g k ev b = Executes g k name arguments"
          using here by (simp add: admit_tool_call_def)
        then show thesis by (rule that(3)) (use False here in \<open>auto simp: authorized_def\<close>)
      qed
    qed
  qed
qed

lemma owes_admit: "owes i (admit_tool_call J sn g k ev b) \<le> (if k = i then 1 else 0)"
  by (rule admit_cases [of J sn g k ev b]) (simp_all add: owes_send_result)

lemma started_call_simps [simp]:
  "started_call (task_raises e) = []" "started_call (send_tool_result J g k s r) = []"
  "started_call (Executes g k n a) = [(k, n, a)]"
  by (auto simp: started_call_def task_raises_def send_tool_result_def split: sum.splits)

text \<open>What a task was promised survives the admission of another call.\<close>

lemma outgoing_ok_mono:
  "outgoing_ok J c m \<Longrightarrow> cn_generation c' = cn_generation c \<Longrightarrow> cn_seen c \<subseteq> cn_seen c' \<Longrightarrow>
   set (cn_executed c) \<subseteq> set (cn_executed c') \<Longrightarrow> outgoing_ok J c' m"
  by (cases m) (auto simp: outgoing_ok_def)

lemma phase_ok_mono:
  assumes "phase_ok J c p" "cn_generation c' = cn_generation c" "cn_seen c \<subseteq> cn_seen c'"
    and "set (cn_executed c) \<subseteq> set (cn_executed c')"
  shows "phase_ok J c' p"
proof (cases p)
  case (Sends q)
  with assms(1) outgoing_ok_mono [OF _ assms(2-4)] show ?thesis by (cases q) auto
qed (use assms in auto)

definition add_task :: "call_phase \<Rightarrow> conn \<Rightarrow> conn" where
  "add_task p c = c\<lparr>cn_pending := cn_pending c @ [(cn_next_task c, p)], cn_next_task := cn_next_task c + 1\<rparr>"

lemma add_task_simps [simp]:
  "cn_main (add_task p c) = cn_main c" "cn_generation (add_task p c) = cn_generation c"
  "cn_seen (add_task p c) = cn_seen c" "cn_executed (add_task p c) = cn_executed c"
  "cn_wire (add_task p c) = cn_wire c" "cn_lock (add_task p c) = cn_lock c"
  "cn_pending (add_task p c) = cn_pending c @ [(cn_next_task c, p)]"
  "cn_next_task (add_task p c) = cn_next_task c + 1" "cn_closed (add_task p c) = cn_closed c"
  by (simp_all add: add_task_def)

lemma add_task_inv:
  assumes inv: "conn_inv J sn c" and n: "length (cn_pending c) < PV_MAX_PENDING_TOOL_CALLS"
    and g: "cn_generation c \<noteq> None" and ok: "phase_ok J c p" and free: "\<And>k. owes k p = 0"
  shows "conn_inv J sn (add_task p c)"
  using inv n g ok free phase_ok_cong [of "add_task p c" c] outgoing_ok_cong [of "add_task p c" c]
  by (auto simp: conn_inv_def answered_def less_Suc_eq)

text \<open>The admission of a call id not seen before.\<close>

definition admit_id :: "string \<Rightarrow> (string \<times> string \<times> obj) list \<Rightarrow> conn \<Rightarrow> conn" where
  "admit_id k started c = c\<lparr>cn_seen := insert k (cn_seen c), cn_executed := cn_executed c @ started\<rparr>"

lemma admit_id_simps [simp]:
  "cn_main (admit_id k x c) = cn_main c" "cn_generation (admit_id k x c) = cn_generation c"
  "cn_seen (admit_id k x c) = insert k (cn_seen c)" "cn_executed (admit_id k x c) = cn_executed c @ x"
  "cn_wire (admit_id k x c) = cn_wire c" "cn_lock (admit_id k x c) = cn_lock c"
  "cn_pending (admit_id k x c) = cn_pending c" "cn_next_task (admit_id k x c) = cn_next_task c"
  "cn_closed (admit_id k x c) = cn_closed c"
  by (simp_all add: admit_id_def)

lemma admit_call_inv:
  assumes inv: "conn_inv J sn c" and fresh: "k \<notin> cn_seen c" and g: "cn_generation c = Some g"
    and n: "length (cn_pending c) < PV_MAX_PENDING_TOOL_CALLS" "card (cn_seen c) < MAX_CALLS_PER_GENERATION"
    and p: "\<And>i. owes i p \<le> (if k = i then 1 else 0)"
    and st: "started_call p = [] \<or> (\<exists>name args. started_call p = [(k, name, args)] \<and> authorized J sn (k, name, args))"
    and ok: "phase_ok J (admit_id k (started_call p) c) p"
  shows "conn_inv J sn (add_task p (admit_id k (started_call p) c))"
proof -
  define c1 where "c1 = admit_id k (started_call p) c"
  define c' where "c' = add_task p c1"
  have fields: "cn_generation c' = cn_generation c" "cn_seen c' = insert k (cn_seen c)"
    "cn_executed c' = cn_executed c @ started_call p" "cn_wire c' = cn_wire c"
    "cn_pending c' = cn_pending c @ [(cn_next_task c, p)]" "cn_next_task c' = cn_next_task c + 1"
    by (simp_all add: c'_def c1_def)
  have mono: "cn_seen c \<subseteq> cn_seen c'" "set (cn_executed c) \<subseteq> set (cn_executed c')" by (auto simp: fields)
  have tasks: "phase_ok J c' q" if "phase_ok J c q" for q
    by (rule phase_ok_mono [OF that fields(1) mono])
  have wire: "outgoing_ok J c' m" if "outgoing_ok J c m" for m
    by (rule outgoing_ok_mono [OF that fields(1) mono])
  have "phase_ok J c' p" using ok phase_ok_cong [of c' c1 J p] by (simp add: c'_def c1_def)
  moreover have "answered i c' + owed i (cn_pending c') \<le> (if i \<in> cn_seen c' then 1 else 0)" for i
  proof -
    have "answered i c + owed i (cn_pending c) \<le> (if i \<in> cn_seen c then 1 else 0)"
      using inv by (simp add: conn_inv_def)
    with p [of i] fresh show ?thesis
      by (auto simp: fields answered_def split: if_splits)
  qed
  moreover have "distinct (map fst (cn_executed c'))" "fst ` set (cn_executed c') \<subseteq> cn_seen c'"
    "list_all (authorized J sn) (cn_executed c')"
    using inv st fresh by (auto simp: conn_inv_def fields)
  moreover have "finite (cn_seen c')" "card (cn_seen c') \<le> MAX_CALLS_PER_GENERATION"
    using inv n fresh by (auto simp: conn_inv_def fields)
  moreover have "distinct (map fst (cn_pending c'))" "\<forall>t \<in> fst ` set (cn_pending c'). t < cn_next_task c'"
    "length (cn_pending c') \<le> PV_MAX_PENDING_TOOL_CALLS" "cn_generation c' \<noteq> None"
    using inv n g by (auto simp: conn_inv_def fields less_Suc_eq)
  moreover have "\<forall>q \<in> set (cn_pending c'). phase_ok J c' (snd q)" "\<forall>m \<in> set (cn_wire c'). outgoing_ok J c' m"
    using inv \<open>phase_ok J c' p\<close> by (auto simp: conn_inv_def fields(4,5) intro: tasks wire)
  ultimately have "conn_inv J sn c'" unfolding conn_inv_def by blast
  then show ?thesis by (simp add: c'_def c1_def)
qed

lemma handle_tool_call_cases:
  obtains p where "handle_tool_call J sn g ev c = (p, c)" "p = Finished \<or> p = Closes"
  | k p where "handle_tool_call J sn g ev c = (p, admit_id k (started_call p) c)"
      "k \<notin> cn_seen c" "p = admit_tool_call J sn g k ev (cn_closed c)"
      "jget ev ''generation'' = JStr g" "jget ev ''call_id'' = JStr k"
proof (cases "bounded_string (jget ev ''generation'') ''generation'' PV_MAX_GENERATION_CHARS False")
  case (Inl e)
  then show thesis using that(1) by (simp add: handle_tool_call_def task_raises_def split: if_splits)
next
  case g: (Inr g')
  then have ev_g: "jget ev ''generation'' = JStr g'" by (auto simp: bounded_string_def split: option.splits if_splits)
  show thesis
  proof (cases "g' = g")
    case False
    with g show thesis using that(1) by (simp add: handle_tool_call_def)
  next
    case True
    show thesis
    proof (cases "bounded_string (jget ev ''call_id'') ''call_id'' PV_MAX_CALL_ID_CHARS False")
      case (Inl e)
      with g True show thesis using that(1) by (simp add: handle_tool_call_def task_raises_def split: if_splits)
    next
      case k: (Inr k)
      then have "jget ev ''call_id'' = JStr k" by (auto simp: bounded_string_def split: option.splits if_splits)
      with g k True ev_g show thesis using that
        by (cases "k \<in> cn_seen c") (auto simp: handle_tool_call_def admit_id_def Let_def)
    qed
  qed
qed

lemma tool_call_event_inv:
  assumes inv: "conn_inv J sn c"
  shows "conn_inv J sn (tool_call_event J sn ev c)"
proof (cases "cn_generation c")
  case (Some g)
  show ?thesis
  proof (cases "PV_MAX_PENDING_TOOL_CALLS \<le> length (cn_pending c) \<or> MAX_CALLS_PER_GENERATION \<le> card (cn_seen c)")
    case True
    with Some inv show ?thesis by (auto simp: tool_call_event_def protocol_failure_inv)
  next
    case False
    then have n: "length (cn_pending c) < PV_MAX_PENDING_TOOL_CALLS" "card (cn_seen c) < MAX_CALLS_PER_GENERATION" by auto
    have step: "tool_call_event J sn ev c = (case handle_tool_call J sn g ev c of (p, c') \<Rightarrow> add_task p c')"
      using Some False by (simp add: tool_call_event_def add_task_def)
    show ?thesis
    proof (rule handle_tool_call_cases [of J sn g ev c])
      fix p assume "handle_tool_call J sn g ev c = (p, c)" "p = Finished \<or> p = Closes"
      with add_task_inv [OF inv n(1)] Some show ?thesis by (auto simp: step)
    next
      fix k p assume h: "handle_tool_call J sn g ev c = (p, admit_id k (started_call p) c)"
        "k \<notin> cn_seen c" "p = admit_tool_call J sn g k ev (cn_closed c)"
      have "conn_inv J sn (add_task p (admit_id k (started_call p) c))"
      proof (rule admit_call_inv [OF inv h(2) Some n])
        show "\<And>i. owes i p \<le> (if k = i then 1 else 0)" by (simp add: h(3) owes_admit)
        show "started_call p = [] \<or> (\<exists>name args. started_call p = [(k, name, args)] \<and> authorized J sn (k, name, args))"
          by (rule admit_cases [of J sn g k ev "cn_closed c"]) (auto simp: h(3))
        show "phase_ok J (admit_id k (started_call p) c) p"
          by (rule admit_cases [of J sn g k ev "cn_closed c"]) (auto simp: h(3) Some intro!: phase_ok_send_result)
      qed
      with h(1) show ?thesis by (simp add: step)
    qed
  qed
qed (use inv in \<open>simp add: tool_call_event_def protocol_failure_inv\<close>)

section \<open>The receive loop and the senders\<close>

lemma main_inv: "conn_inv J sn c \<Longrightarrow> conn_inv J sn (c\<lparr>cn_main := m\<rparr>)"
  by (erule conn_inv_cong) simp_all

lemma registered_event_inv:
  assumes inv: "conn_inv J sn c"
  shows "conn_inv J sn (registered_event ev c)"
proof (cases "cn_generation c = None \<and> equals_int (jget ev ''protocol_version'') REALTIME_TOOL_PROTOCOL_VERSION")
  case True
  have empty: "cn_seen c = {}" "cn_pending c = []" "cn_executed c = []" using inv True by (auto simp: conn_inv_def)
  have wire: "\<forall>m \<in> set (cn_wire c). case m of Plain _ \<Rightarrow> True | _ \<Rightarrow> False"
    using inv True by (force simp: conn_inv_def outgoing_ok_def split: outgoing.splits)
  have "conn_inv J sn (c\<lparr>cn_generation := Some g, cn_registered := True, cn_connected := True,
      cn_reauth_started := False\<rparr>)" for g
    using inv empty wire by (auto simp: conn_inv_def answered_def outgoing_ok_def split: outgoing.splits)
  with True inv show ?thesis by (auto simp: registered_event_def leave_loop_inv split: sum.splits)
qed (use inv in \<open>auto simp: registered_event_def protocol_failure_inv\<close>)

lemma receive_message_inv:
  assumes inv: "conn_inv J sn c"
  shows "conn_inv J sn (receive_message J sn m c)"
proof -
  have "conn_inv J sn (receive_event J sn ev c)" for ev
    using inv by (auto simp: receive_event_def Let_def protocol_failure_inv leave_loop_inv registered_event_inv
        tool_call_event_inv main_inv split: sum.splits)
  moreover have "conn_inv J sn (leave_loop r (c\<lparr>cn_closed := b\<rparr>))" for r b
    by (rule conn_inv_cong [OF inv]) simp_all
  ultimately show ?thesis using inv
    by (auto simp: receive_message_def protocol_failure_inv leave_loop_inv split: ws_message.splits option.splits json.splits)
qed

lemma lock_inv: "conn_inv J sn c \<Longrightarrow> conn_inv J sn (c\<lparr>cn_lock := l\<rparr>)"
  by (erule conn_inv_cong) simp_all

lemma sender_raises_inv:
  assumes inv: "conn_inv J sn c"
  shows "conn_inv J sn (sender_raises w e c)"
proof (cases w)
  case (CallTask t)
  show ?thesis
  proof (cases "map_of (cn_pending c) t")
    case None
    then have "with_phase t p (cn_pending c) = cn_pending c" for p
      by (intro with_phase_absent) (simp add: map_of_eq_None_iff)
    then show ?thesis using CallTask inv by (simp add: sender_raises_def set_call_def)
  next
    case (Some q)
    from set_call_inv [OF inv this, of "task_raises e"] CallTask show ?thesis by (simp add: sender_raises_def)
  qed
qed (use inv in \<open>simp add: sender_raises_def leave_loop_inv\<close>)


lemma sender_done_inv:
  assumes inv: "conn_inv J sn c"
  shows "conn_inv J sn (sender_done w c)"
proof (cases w)
  case (CallTask t)
  show ?thesis
  proof (cases "map_of (cn_pending c) t")
    case None
    then have "with_phase t p (cn_pending c) = cn_pending c" for p
      by (intro with_phase_absent) (simp add: map_of_eq_None_iff)
    then show ?thesis using CallTask inv by (simp add: sender_done_def set_call_def)
  next
    case (Some q)
    from set_call_inv [OF inv this, of Finished] CallTask show ?thesis by (simp add: sender_done_def)
  qed
qed (use inv in \<open>simp add: sender_done_def main_inv\<close>)

lemma phase_of_task:
  "phase_of (CallTask t) c = Some p \<longleftrightarrow> map_of (cn_pending c) t = Some (Sends p)"
  by (auto simp: phase_of_def split: option.splits call_phase.splits)

lemma task_phase_ok:
  "conn_inv J sn c \<Longrightarrow> map_of (cn_pending c) t = Some p \<Longrightarrow> phase_ok J c p"
  by (force simp: conn_inv_def dest: map_of_SomeD)

text \<open>Writing a message moves the answer from the task to the wire.\<close>

lemma wire_plain_inv:
  assumes "conn_inv J sn c" "\<And>k. \<not> answers k m" "outgoing_ok J c m"
  shows "conn_inv J sn (c\<lparr>cn_main := x, cn_lock := l, cn_wire := cn_wire c @ [m]\<rparr>)"
  using assms phase_ok_cong [of "c\<lparr>cn_main := x, cn_lock := l, cn_wire := cn_wire c @ [m]\<rparr>" c]
    outgoing_ok_cong [of "c\<lparr>cn_main := x, cn_lock := l, cn_wire := cn_wire c @ [m]\<rparr>" c]
  by (simp add: conn_inv_def answered_def)

lemma wire_task_inv:
  assumes inv: "conn_inv J sn c" and t: "map_of (cn_pending c) t = Some (Sends (AwaitsLock m))"
  shows "conn_inv J sn ((set_call t (Sends (Writes m)) c)\<lparr>cn_lock := l, cn_wire := cn_wire c @ [m]\<rparr>)"
proof -
  let ?c' = "(set_call t (Sends (Writes m)) c)\<lparr>cn_lock := l, cn_wire := cn_wire c @ [m]\<rparr>"
  have d: "distinct (map fst (cn_pending c))" using inv by (simp add: conn_inv_def)
  have ok: "outgoing_ok J c m" using task_phase_ok [OF inv t] by simp
  have move: "owes k (Sends (AwaitsLock m)) = (if answers k m then 1 else 0)" for k by (cases m) auto
  have "answered k ?c' + owed k (cn_pending ?c') \<le> (if k \<in> cn_seen ?c' then 1 else 0)" for k
  proof -
    have "answered k c + owed k (cn_pending c) \<le> (if k \<in> cn_seen c then 1 else 0)"
      using inv by (simp add: conn_inv_def)
    moreover have "answered k ?c' = answered k c + (if answers k m then 1 else 0)" by (simp add: answered_def)
    moreover have "owed k (cn_pending ?c') + (if answers k m then 1 else 0) = owed k (cn_pending c)"
      using owed_with_phase [OF d t, of k "Sends (Writes m)"] move [of k] by simp
    ultimately show ?thesis by simp
  qed
  moreover have "\<forall>x \<in> set (cn_pending ?c'). phase_ok J c (snd x)"
    using inv ok by (auto simp: conn_inv_def dest: with_phase_member)
  moreover have "\<forall>x \<in> set (cn_wire ?c'). outgoing_ok J c x" using inv ok by (auto simp: conn_inv_def)
  ultimately show ?thesis
    using inv phase_ok_cong [of ?c' c] outgoing_ok_cong [of ?c' c] by (simp add: conn_inv_def)
qed

text \<open>The loop itself only sends the registration and keepalives.\<close>

definition main_plain :: "conn \<Rightarrow> bool" where
  "main_plain c \<longleftrightarrow>
     (case cn_main c of MainSends (AwaitsLock (ToolResult g k s r m)) \<Rightarrow> False
      | MainSends (Writes (ToolResult g k s r m)) \<Rightarrow> False | _ \<Rightarrow> True)"

definition provider_inv :: "ha_json \<Rightarrow> registration_snapshot \<Rightarrow> conn \<Rightarrow> bool" where
  "provider_inv J sn c \<longleftrightarrow> conn_inv J sn c \<and> main_plain c"

lemma send_granted_inv:
  assumes "provider_inv J sn c"
  shows "conn_inv J sn (send_granted w c)"
proof (cases "\<exists>m. phase_of w c = Some (AwaitsLock m) \<and> cn_lock c = None \<and> \<not> cn_closed c")
  case True
  then obtain m where m: "phase_of w c = Some (AwaitsLock m)" "cn_lock c = None" "\<not> cn_closed c" by blast
  have inv: "conn_inv J sn c" and plain: "main_plain c" using assms by (simp_all add: provider_inv_def)
  show ?thesis
  proof (cases w)
    case MainLoop
    with m(1) have "cn_main c = MainSends (AwaitsLock m)" by (auto simp: phase_of_def split: main_phase.splits)
    with plain obtain s where "m = Plain s" by (cases m) (auto simp: main_plain_def)
    with wire_plain_inv [OF inv, of "Plain s" "Some w" "MainSends (Writes m)"] MainLoop m show ?thesis
      by (simp add: send_granted_def set_sending_def outgoing_ok_def)
  next
    case (CallTask t)
    with m(1) have "map_of (cn_pending c) t = Some (Sends (AwaitsLock m))" by (simp add: phase_of_task)
    from wire_task_inv [OF inv this, of "Some w"] CallTask m show ?thesis
      by (simp add: send_granted_def set_sending_def)
  qed
next
  case False
  with assms show ?thesis
    by (auto simp: send_granted_def provider_inv_def sender_raises_inv split: option.splits send_phase.splits)
qed

lemma send_ends_inv: "conn_inv J sn c \<Longrightarrow> conn_inv J sn (send_ends w e c)"
  by (auto simp: send_ends_def Let_def sender_done_inv sender_raises_inv lock_inv
      split: option.splits send_phase.splits send_ending.splits)

lemma pop_inv:
  assumes inv: "conn_inv J sn c"
  shows "conn_inv J sn (c\<lparr>cn_pending := dict_pop (cn_pending c) t\<rparr>)"
proof -
  let ?c' = "c\<lparr>cn_pending := dict_pop (cn_pending c) t\<rparr>"
  have "answered k ?c' + owed k (cn_pending ?c') \<le> (if k \<in> cn_seen ?c' then 1 else 0)" for k
  proof -
    have "answered k c + owed k (cn_pending c) \<le> (if k \<in> cn_seen c then 1 else 0)"
      using inv by (simp add: conn_inv_def)
    with owed_dict_pop [of k "cn_pending c" t] show ?thesis by (simp add: answered_def)
  qed
  moreover have "length (cn_pending ?c') \<le> PV_MAX_PENDING_TOOL_CALLS"
    using inv length_dict_pop_le [of "cn_pending c" t] by (simp add: conn_inv_def)
  ultimately show ?thesis
    using inv phase_ok_cong [of ?c' c] outgoing_ok_cong [of ?c' c]
    by (simp add: conn_inv_def distinct_dict_pop set_dict_pop)
      (auto simp: dict_pop_def)
qed

lemma release_lock_inv: "conn_inv J sn c \<Longrightarrow> conn_inv J sn (release_lock w c)"
  by (simp add: release_lock_def lock_inv)

lemma set_finished_inv: "conn_inv J sn c \<Longrightarrow> conn_inv J sn (set_call t Finished c)"
  using sender_done_inv [of J sn c "CallTask t"] by (simp add: sender_done_def)

lemma tool_ends_inv:
  assumes inv: "conn_inv J sn c" and t: "map_of (cn_pending c) t = Some (Executes g k name args)"
  shows "conn_inv J sn (set_call t (after_tool J g k e b) c)"
proof (rule set_call_inv [OF inv t])
  from task_phase_ok [OF inv t] have "cn_generation c = Some g" "k \<in> cn_seen c" "(k, name, args) \<in> set (cn_executed c)"
    by simp_all
  then show "phase_ok J c (after_tool J g k e b)" by (force intro: phase_ok_after_tool)
qed (use owes_after_tool in simp)

lemma conn_inv_step:
  assumes "provider_inv J sn c"
  shows "conn_inv J sn (conn_step J sn ev c)"
proof -
  have inv: "conn_inv J sn c" using assms by (simp add: provider_inv_def)
  have closed: "conn_inv J sn c' \<Longrightarrow> conn_inv J sn (c'\<lparr>cn_closed := b\<rparr>)" for c' b by (erule conn_inv_cong) simp_all
  have torn: "conn_inv J sn (c\<lparr>cn_main := m, cn_closed := b\<rparr>)" for m b by (rule conn_inv_cong [OF inv]) simp_all
  show ?thesis
  proof (cases ev)
    case (ToolEnds t e)
    then show ?thesis using inv tool_ends_inv [OF inv]
      by (auto simp: conn_step_def split: option.splits call_phase.splits)
  qed (use inv send_granted_inv [OF assms] in \<open>auto simp: conn_step_def receive_message_inv leave_loop_inv send_ends_inv
      closed torn set_finished_inv pop_inv release_lock_inv split: main_phase.splits\<close>)
qed

text \<open>What a step may do to the phase of the loop.\<close>

lemma receive_main:
  assumes "cn_main c = Receives"
  shows "cn_main (receive_message J sn m c) = Receives
    \<or> (\<exists>r. cn_main (receive_message J sn m c) = Draining r)
    \<or> (\<exists>s. cn_main (receive_message J sn m c) = MainSends (AwaitsLock (Plain s)))"
proof -
  have call: "cn_main (snd (handle_tool_call J sn g ev c)) = cn_main c" for g ev
    by (rule handle_tool_call_cases [of J sn g ev c]) auto
  have "cn_main (tool_call_event J sn ev c) = Receives \<or> (\<exists>r. cn_main (tool_call_event J sn ev c) = Draining r)" for ev
    using assms by (auto simp: tool_call_event_def protocol_failure_def split: option.splits prod.splits)
      (metis call snd_conv)
  moreover have "cn_main (registered_event ev c) = Receives \<or> (\<exists>r. cn_main (registered_event ev c) = Draining r)" for ev
    using assms by (auto simp: registered_event_def protocol_failure_def split: sum.splits)
  ultimately show ?thesis using assms
    by (auto simp: receive_message_def receive_event_def Let_def protocol_failure_def
        split: ws_message.splits option.splits json.splits sum.splits)
qed


lemma set_sending_main: "cn_main (set_sending w p c) = (case w of MainLoop \<Rightarrow> MainSends p | CallTask t \<Rightarrow> cn_main c)"
  by (cases w) (simp_all add: set_sending_def)

lemma sender_done_main: "cn_main (sender_done w c) = (case w of MainLoop \<Rightarrow> Receives | CallTask t \<Rightarrow> cn_main c)"
  by (cases w) (simp_all add: sender_done_def)

lemma sender_raises_main:
  "cn_main (sender_raises w e c) = (case w of MainLoop \<Rightarrow> Draining (Inl e) | CallTask t \<Rightarrow> cn_main c)"
  by (cases w) (simp_all add: sender_raises_def)

lemma release_lock_simps [simp]:
  "cn_main (release_lock w c) = cn_main c" "cn_generation (release_lock w c) = cn_generation c"
  "cn_seen (release_lock w c) = cn_seen c" "cn_pending (release_lock w c) = cn_pending c"
  "cn_executed (release_lock w c) = cn_executed c" "cn_wire (release_lock w c) = cn_wire c"
  "cn_lock (release_lock w c) = (if cn_lock c = Some w then None else cn_lock c)"
  by (simp_all add: release_lock_def)

lemma send_ends_main:
  "phase_of w c \<noteq> None \<Longrightarrow> send_ends w e c = c \<or> cn_main (send_ends w e c) = cn_main c
   \<or> cn_main (send_ends w e c) = Receives \<or> (\<exists>r. cn_main (send_ends w e c) = Draining r)"
  by (auto simp: send_ends_def Let_def sender_done_main sender_raises_main
      split: option.splits send_phase.splits send_ending.splits sender.splits)

lemma main_plain_step:
  assumes "main_plain c"
  shows "main_plain (conn_step J sn ev c)"
proof -
  have same: "cn_main c' = cn_main c \<Longrightarrow> main_plain c'" for c' using assms by (simp add: main_plain_def)
  have over: "cn_main c' = Receives \<or> (\<exists>r. cn_main c' = Draining r) \<or> (\<exists>s. cn_main c' = MainSends (AwaitsLock (Plain s)))
      \<or> (\<exists>r. cn_main c' = TornDown r) \<Longrightarrow> main_plain c'" for c' by (auto simp: main_plain_def)
  show ?thesis
  proof (cases ev)
    case (Delivers m)
    then show ?thesis using assms receive_main [of c J sn m] by (auto simp: conn_step_def intro: over)
  next
    case (Granted w)
    have "main_plain (send_granted w c)"
    proof (cases "\<exists>m. w = MainLoop \<and> cn_main c = MainSends (AwaitsLock m)")
      case True
      then obtain m where m: "w = MainLoop" "cn_main c = MainSends (AwaitsLock m)" by blast
      with assms obtain s where s: "m = Plain s" by (cases m) (auto simp: main_plain_def)
      show ?thesis unfolding main_plain_def using m s
        by (simp add: send_granted_def phase_of_def set_sending_def sender_raises_def)
    next
      case False
      then have "cn_main (send_granted w c) = cn_main c"
        by (cases w) (auto simp: send_granted_def phase_of_def set_sending_main sender_raises_main
            split: option.splits send_phase.splits main_phase.splits)
      then show ?thesis by (rule same)
    qed
    with Granted show ?thesis by (simp add: conn_step_def)
  next
    case (SendEnds w e)
    have "main_plain (send_ends w e c)"
    proof (cases "phase_of w c")
      case None
      then show ?thesis using assms by (simp add: send_ends_def)
    next
      case (Some p)
      with send_ends_main [of w c e] assms same over show ?thesis by auto
    qed
    with SendEnds show ?thesis by (simp add: conn_step_def)
  qed (use assms in \<open>auto simp: conn_step_def intro: same over split: option.splits call_phase.splits main_phase.splits\<close>)
qed

lemma provider_inv_step: "provider_inv J sn c \<Longrightarrow> provider_inv J sn (conn_step J sn ev c)"
  using conn_inv_step main_plain_step unfolding provider_inv_def by blast

lemma provider_inv_new: "provider_inv J sn (new_conn sn reauth)"
  by (simp add: provider_inv_def conn_inv_def new_conn_def main_plain_def answered_def provider_bounds)

section \<open>Logs and the end of the connection\<close>

lemma receive_logs:
  "\<exists>new. cn_executed (receive_message J sn m c) = cn_executed c @ new"
  "cn_wire (receive_message J sn m c) = cn_wire c"
proof -
  have call: "\<exists>new. cn_executed (snd (handle_tool_call J sn g ev c)) = cn_executed c @ new"
    "cn_wire (snd (handle_tool_call J sn g ev c)) = cn_wire c" for g ev
    by (rule handle_tool_call_cases [of J sn g ev c]; auto)+
  have ev: "\<exists>new. cn_executed (tool_call_event J sn ev c) = cn_executed c @ new"
    "cn_wire (tool_call_event J sn ev c) = cn_wire c" for ev
    using call by (auto simp: tool_call_event_def protocol_failure_def case_prod_beta split: option.splits)
  have reg: "cn_executed (registered_event ev c) = cn_executed c" "cn_wire (registered_event ev c) = cn_wire c" for ev
    by (auto simp: registered_event_def protocol_failure_def split: sum.splits)
  show "\<exists>new. cn_executed (receive_message J sn m c) = cn_executed c @ new"
    using ev(1) reg(1) by (auto simp: receive_message_def receive_event_def Let_def protocol_failure_def
        split: ws_message.splits option.splits json.splits sum.splits)
  show "cn_wire (receive_message J sn m c) = cn_wire c"
    using ev(2) reg(2) by (auto simp: receive_message_def receive_event_def Let_def protocol_failure_def
        split: ws_message.splits option.splits json.splits sum.splits)
qed

lemma sender_ops_executed:
  "cn_executed (sender_raises w e c) = cn_executed c" "cn_executed (sender_done w c) = cn_executed c"
  "cn_executed (set_sending w p c) = cn_executed c" "cn_wire (sender_raises w e c) = cn_wire c"
  "cn_wire (sender_done w c) = cn_wire c" "cn_wire (set_sending w p c) = cn_wire c"
  by (cases w; simp add: sender_raises_def sender_done_def set_sending_def)+

lemma send_ends_logs:
  "cn_executed (send_ends w e c) = cn_executed c" "cn_wire (send_ends w e c) = cn_wire c"
  by (auto simp: send_ends_def Let_def sender_ops_executed split: option.splits send_phase.splits send_ending.splits)

lemma send_granted_executed: "cn_executed (send_granted w c) = cn_executed c"
  by (auto simp: send_granted_def sender_ops_executed split: option.splits send_phase.splits)

lemma executed_step: "\<exists>new. cn_executed (conn_step J sn ev c) = cn_executed c @ new"
  using receive_logs(1)
  by (cases ev) (auto simp: conn_step_def send_ends_logs send_granted_executed
      split: option.splits call_phase.splits main_phase.splits)

text \<open>The loop has been left.\<close>

definition left_loop :: "conn \<Rightarrow> bool" where
  "left_loop c = (case cn_main c of Draining _ \<Rightarrow> True | TornDown _ \<Rightarrow> True | _ \<Rightarrow> False)"

definition torn_down :: "conn \<Rightarrow> bool" where
  "torn_down c = (case cn_main c of TornDown _ \<Rightarrow> cn_pending c = [] | _ \<Rightarrow> False)"

lemma send_granted_left: "left_loop c \<Longrightarrow> cn_main (send_granted w c) = cn_main c"
  by (cases w) (auto simp: left_loop_def send_granted_def phase_of_def set_sending_main sender_raises_main
      split: option.splits send_phase.splits main_phase.splits)

lemma send_ends_left: "left_loop c \<Longrightarrow> cn_main (send_ends w e c) = cn_main c"
  by (cases w) (auto simp: left_loop_def send_ends_def Let_def phase_of_def sender_done_main sender_raises_main
      split: option.splits send_phase.splits main_phase.splits send_ending.splits)

lemma left_loop_step:
  assumes "left_loop c"
  shows "left_loop (conn_step J sn ev c)" "cn_executed (conn_step J sn ev c) = cn_executed c"
proof -
  show "left_loop (conn_step J sn ev c)"
    using assms send_granted_left [OF assms] send_ends_left [OF assms]
    by (cases ev) (auto simp: conn_step_def left_loop_def split: option.splits call_phase.splits main_phase.splits)
  show "cn_executed (conn_step J sn ev c) = cn_executed c"
    using assms by (cases ev) (auto simp: conn_step_def left_loop_def send_ends_logs send_granted_executed
      split: option.splits call_phase.splits main_phase.splits)
qed

lemma torn_down_step:
  assumes "torn_down c"
  shows "torn_down (conn_step J sn ev c)" "cn_wire (conn_step J sn ev c) = cn_wire c"
    "cn_pending (conn_step J sn ev c) = []"
proof -
  obtain r where c: "cn_main c = TornDown r" "cn_pending c = []"
    using assms by (auto simp: torn_down_def split: main_phase.splits)
  have p: "phase_of w c = None" for w using c by (cases w) (auto simp: phase_of_def)
  have "send_granted w c = c" "send_ends w e c = c" for w e using p by (simp_all add: send_granted_def send_ends_def)
  then show "torn_down (conn_step J sn ev c)" "cn_wire (conn_step J sn ev c) = cn_wire c"
    "cn_pending (conn_step J sn ev c) = []"
    using c by (cases ev; simp add: conn_step_def torn_down_def)+
qed

interpretation provider: event_system "conn_step J sn" "provider_inv J sn" for J sn
  by unfold_locales (rule provider_inv_step)

interpretation provider_log: logging_system "conn_step J sn" "provider_inv J sn" cn_executed for J sn
  by unfold_locales (rule executed_step)

interpretation provider_left: settling_system "conn_step J sn" "provider_inv J sn" left_loop cn_executed for J sn
  by unfold_locales (simp_all add: left_loop_step)

interpretation provider_down: settling_system "conn_step J sn" "provider_inv J sn" torn_down cn_wire for J sn
  by unfold_locales (simp_all add: torn_down_step)


section \<open>The send lock\<close>

definition writing :: "sender \<Rightarrow> conn \<Rightarrow> bool" where
  "writing w c = (case phase_of w c of Some (Writes m) \<Rightarrow> True | _ \<Rightarrow> False)"

definition lock_ok :: "conn \<Rightarrow> bool" where
  "lock_ok c \<longleftrightarrow> (\<forall>w. writing w c \<longleftrightarrow> cn_lock c = Some w)"

lemma writing_cong:
  "cn_main c' = cn_main c \<Longrightarrow> cn_pending c' = cn_pending c \<Longrightarrow> writing w c' = writing w c"
  by (cases w) (simp_all add: writing_def phase_of_def)

lemma lock_ok_cong:
  "lock_ok c \<Longrightarrow> cn_lock c' = cn_lock c \<Longrightarrow> (\<And>w. writing w c' = writing w c) \<Longrightarrow> lock_ok c'"
  by (simp add: lock_ok_def)

lemma writing_main: "writing MainLoop c \<longleftrightarrow> (\<exists>m. cn_main c = MainSends (Writes m))"
  by (auto simp: writing_def phase_of_def split: main_phase.splits send_phase.splits option.splits)

lemma writing_task: "writing (CallTask t) c \<longleftrightarrow> (\<exists>m. map_of (cn_pending c) t = Some (Sends (Writes m)))"
  by (auto simp: writing_def phase_of_def split: call_phase.splits send_phase.splits option.splits)
    (metis send_phase.exhaust)

lemma writing_eqI:
  assumes "(\<exists>m. cn_main c' = MainSends (Writes m)) \<longleftrightarrow> (\<exists>m. cn_main c = MainSends (Writes m))"
    and "\<And>t. (\<exists>m. map_of (cn_pending c') t = Some (Sends (Writes m))) \<longleftrightarrow>
      (\<exists>m. map_of (cn_pending c) t = Some (Sends (Writes m)))"
  shows "writing w c' = writing w c"
  using assms by (cases w) (auto simp: writing_main writing_task)

lemma lock_ok_leave: "lock_ok c \<Longrightarrow> cn_main c = Receives \<Longrightarrow> lock_ok (leave_loop r c)"
  by (erule lock_ok_cong) (auto intro!: writing_eqI)

lemma no_write_new [simp]:
  "task_raises e \<noteq> Sends (Writes m)" "send_tool_result J g k s r \<noteq> Sends (Writes m)"
  "admit_tool_call J sn g k ev b \<noteq> Sends (Writes m)" "after_tool J g k x b \<noteq> Sends (Writes m)"
proof -
  show 1: "task_raises e \<noteq> Sends (Writes m)" for e by (simp add: task_raises_def)
  show 2: "send_tool_result J g k s r \<noteq> Sends (Writes m)" for s r
    by (auto simp: send_tool_result_def 1 split: sum.splits)
  show "admit_tool_call J sn g k ev b \<noteq> Sends (Writes m)"
    by (rule admit_cases [of J sn g k ev b]) (simp_all add: 1 2)
  show "after_tool J g k x b \<noteq> Sends (Writes m)"
    using after_tool_cases [of J g k x b] 2 by auto
qed

lemma lock_ok_receive:
  assumes "lock_ok c" "cn_main c = Receives"
  shows "lock_ok (receive_message J sn m c)"
proof -
  have add: "lock_ok (add_task p c')" if "lock_ok c'" "\<And>m. p \<noteq> Sends (Writes m)" for p c'
    by (rule lock_ok_cong [OF that(1)])
      (use that(2) in \<open>auto intro!: writing_eqI simp: map_add_def split: option.splits if_splits\<close>)
  have leave: "lock_ok (leave_loop r c)" for r by (rule lock_ok_leave [OF assms])
  have closed: "lock_ok (leave_loop r (c\<lparr>cn_closed := b\<rparr>))" for r b
    by (rule lock_ok_leave) (use assms in \<open>auto simp: lock_ok_def writing_cong [of "c\<lparr>cn_closed := b\<rparr>" c]\<close>)
  have "lock_ok (tool_call_event J sn ev c)" for ev
  proof (cases "cn_generation c")
    case (Some g)
    have "lock_ok (add_task (fst (handle_tool_call J sn g ev c)) (snd (handle_tool_call J sn g ev c)))"
    proof (rule handle_tool_call_cases [of J sn g ev c])
      fix k p assume "handle_tool_call J sn g ev c = (p, admit_id k (started_call p) c)"
        "p = admit_tool_call J sn g k ev (cn_closed c)"
      moreover have "lock_ok (admit_id k x c)" for x
        by (rule lock_ok_cong [OF assms(1)]) (auto intro!: writing_eqI)
      ultimately show ?thesis by (auto intro!: add)
    qed (auto intro!: add assms)
    with Some leave show ?thesis
      by (simp add: tool_call_event_def protocol_failure_def add_task_def case_prod_beta)
  qed (simp add: tool_call_event_def protocol_failure_def leave)
  moreover have "lock_ok (registered_event ev c)" for ev
  proof -
    have "lock_ok (c\<lparr>cn_generation := g, cn_registered := a, cn_connected := b, cn_reauth_started := d\<rparr>)" for g a b d
      by (rule lock_ok_cong [OF assms(1)]) (auto intro!: writing_eqI)
    then show ?thesis using leave by (simp add: registered_event_def protocol_failure_def split: sum.splits)
  qed
  moreover have "lock_ok (c\<lparr>cn_main := MainSends (AwaitsLock x)\<rparr>)" for x
    by (rule lock_ok_cong [OF assms(1)]) (use assms(2) in \<open>auto intro!: writing_eqI\<close>)
  ultimately show ?thesis using leave closed assms
    by (auto simp: receive_message_def receive_event_def Let_def protocol_failure_def
        split: ws_message.splits option.splits json.splits sum.splits)
qed

text \<open>A sender that stops sending: it gave up the lock, or never held it.\<close>

definition silenced :: "sender \<Rightarrow> conn \<Rightarrow> conn \<Rightarrow> bool" where
  "silenced w c c' \<longleftrightarrow> \<not> writing w c' \<and> (\<forall>v. v \<noteq> w \<longrightarrow> writing v c' = writing v c)"

lemma lock_ok_silenced:
  "lock_ok c \<Longrightarrow> silenced w c c' \<Longrightarrow> cn_lock c' = (if cn_lock c = Some w then None else cn_lock c) \<Longrightarrow> lock_ok c'"
  unfolding lock_ok_def silenced_def by (metis option.distinct(1) option.inject)

lemma silenced_call: "(\<And>m. p \<noteq> Sends (Writes m)) \<Longrightarrow> silenced (CallTask t) c (set_call t p c)"
proof -
  assume p: "\<And>m. p \<noteq> Sends (Writes m)"
  have "writing v (set_call t p c) = writing v c" if "v \<noteq> CallTask t" for v
    using that by (cases v) (auto simp: writing_main writing_task)
  with p show ?thesis by (auto simp: silenced_def writing_task)
qed

lemma silenced_main:
  "(\<And>m. cn_main c' \<noteq> MainSends (Writes m)) \<Longrightarrow> cn_pending c' = cn_pending c \<Longrightarrow> silenced MainLoop c c'"
  unfolding silenced_def
proof (intro conjI allI impI)
  assume m: "\<And>m. cn_main c' \<noteq> MainSends (Writes m)" and p: "cn_pending c' = cn_pending c"
  show "\<not> writing MainLoop c'" using m by (simp add: writing_main)
  show "writing v c' = writing v c" if "v \<noteq> MainLoop" for v using that p by (cases v) (simp_all add: writing_task)
qed

lemma silenced_cong: "silenced w c c1 \<Longrightarrow> cn_main c' = cn_main c1 \<Longrightarrow> cn_pending c' = cn_pending c1 \<Longrightarrow> silenced w c c'"
  unfolding silenced_def using writing_cong [of c' c1] by simp

lemma sender_stops: "silenced w c (sender_raises w e c)" "silenced w c (sender_done w c)"
  by (cases w; auto simp: sender_raises_def sender_done_def intro: silenced_call silenced_main)+

lemma lock_of_sender [simp]:
  "cn_lock (sender_raises w e c) = cn_lock c" "cn_lock (sender_done w c) = cn_lock c"
  "cn_lock (set_sending w p c) = cn_lock c"
  by (cases w; simp add: sender_raises_def sender_done_def set_sending_def)+


lemma lock_ok_granted:
  assumes "lock_ok c"
  shows "lock_ok (send_granted w c)"
proof (cases "\<exists>m. phase_of w c = Some (AwaitsLock m) \<and> cn_lock c = None")
  case True
  then obtain m where m: "phase_of w c = Some (AwaitsLock m)" "cn_lock c = None" by blast
  show ?thesis
  proof (cases "cn_closed c")
    case True
    with m lock_ok_silenced [OF assms sender_stops(1)] show ?thesis by (simp add: send_granted_def)
  next
    case False
    let ?c' = "(set_sending w (Writes m) c)\<lparr>cn_lock := Some w, cn_wire := cn_wire c @ [m]\<rparr>"
    have none: "\<not> writing v c" for v using assms m(2) by (simp add: lock_ok_def)
    have task: "map_of (cn_pending c) t \<noteq> None" if "w = CallTask t" for t using m(1) that by (simp add: phase_of_task)
    have "writing v ?c' \<longleftrightarrow> v = w" for v
      using none [of v] task
      by (cases w; cases v) (auto simp: writing_main writing_task set_sending_def)
    with m False show ?thesis by (auto simp: send_granted_def lock_ok_def)
  qed
next
  case False
  with assms show ?thesis by (auto simp: send_granted_def split: option.splits send_phase.splits)
qed

lemma lock_ok_ends:
  assumes "lock_ok c"
  shows "lock_ok (send_ends w e c)"
proof (cases "phase_of w c")
  case (Some q)
  have stop: "silenced w c (sender_raises w x (c\<lparr>cn_lock := l\<rparr>))" "silenced w c (sender_done w (c\<lparr>cn_lock := l\<rparr>))" for x l
    by (rule silenced_cong [OF sender_stops(1)]; cases w; simp add: sender_raises_def set_call_def leave_loop_def)
      (rule silenced_cong [OF sender_stops(2)]; cases w; simp add: sender_done_def set_call_def)
  show ?thesis
  proof (cases q)
    case (AwaitsLock m)
    have "\<not> writing w c" using Some AwaitsLock by (simp add: writing_def)
    then have "cn_lock c \<noteq> Some w" using assms by (simp add: lock_ok_def)
    with Some AwaitsLock assms lock_ok_silenced [OF assms sender_stops(1)] show ?thesis by (simp add: send_ends_def)
  next
    case (Writes m)
    have "writing w c" using Some Writes by (simp add: writing_def)
    then have "cn_lock c = Some w" using assms by (simp add: lock_ok_def)
    with Some Writes lock_ok_silenced [OF assms stop(1)] lock_ok_silenced [OF assms stop(2)] show ?thesis
      by (simp add: send_ends_def Let_def split: send_ending.splits)
  qed
qed (use assms in \<open>simp add: send_ends_def\<close>)

lemma lock_ok_set_call:
  assumes "lock_ok c" "map_of (cn_pending c) t = Some q" "\<And>m. q \<noteq> Sends (Writes m)" "\<And>m. p \<noteq> Sends (Writes m)"
  shows "lock_ok (set_call t p c)"
proof (rule lock_ok_silenced [OF assms(1) silenced_call [OF assms(4)]])
  have "\<not> writing (CallTask t) c" using assms(2,3) by (simp add: writing_task)
  then show "cn_lock (set_call t p c) = (if cn_lock c = Some (CallTask t) then None else cn_lock c)"
    using assms(1) by (simp add: lock_ok_def)
qed

lemma lock_ok_step:
  assumes "lock_ok c"
  shows "lock_ok (conn_step J sn ev c)"
proof -
  have frame: "lock_ok c'" if "cn_lock c' = cn_lock c" "cn_main c' = cn_main c" "cn_pending c' = cn_pending c" for c'
    by (rule lock_ok_cong [OF assms that(1)]) (rule writing_cong [OF that(2,3)])
  have closed: "lock_ok (c'\<lparr>cn_closed := b\<rparr>)" if "lock_ok c'" for c' b
    by (rule lock_ok_cong [OF that]) (simp_all add: writing_cong [of "c'\<lparr>cn_closed := b\<rparr>" c'])
  show ?thesis
  proof (cases ev)
    case (CallDone t)
    have "lock_ok (c\<lparr>cn_pending := dict_pop (cn_pending c) t\<rparr>)" if "map_of (cn_pending c) t = Some Finished"
      by (rule lock_ok_cong [OF assms]) (use that in \<open>auto intro!: writing_eqI split: if_splits\<close>)
    with CallDone assms show ?thesis by (simp add: conn_step_def)
  next
    case (Cancels t)
    have "lock_ok (release_lock (CallTask t) (set_call t Finished c))"
      by (rule lock_ok_silenced [OF assms silenced_cong [OF silenced_call [of Finished t c]]]) auto
    with Cancels assms show ?thesis by (simp add: conn_step_def split: main_phase.splits)
  next
    case CancelsLoop
    have "lock_ok (release_lock MainLoop (leave_loop r c))" for r
      by (rule lock_ok_silenced [OF assms silenced_main]) simp_all
    with CancelsLoop assms lock_ok_leave [OF assms] show ?thesis by (simp add: conn_step_def split: main_phase.splits)
  next
    case Drained
    have "lock_ok (c\<lparr>cn_main := TornDown r, cn_closed := True\<rparr>)" if "cn_main c = Draining r'" for r r'
      by (rule lock_ok_cong [OF assms]) (use that in \<open>auto intro!: writing_eqI\<close>)
    with Drained assms show ?thesis by (auto simp: conn_step_def split: main_phase.splits)
  next
    case (ToolEnds t e)
    then show ?thesis using assms lock_ok_set_call [OF assms]
      by (auto simp: conn_step_def split: option.splits call_phase.splits)
  next
    case (ClosesSocket t)
    then show ?thesis using assms lock_ok_set_call [OF assms] closed by (auto simp: conn_step_def)
  qed (use assms in \<open>auto simp: conn_step_def lock_ok_receive lock_ok_leave lock_ok_granted lock_ok_ends intro: frame\<close>)
qed

lemma lock_ok_new: "lock_ok (new_conn sn reauth)"
  by (auto simp: lock_ok_def writing_def phase_of_def new_conn_def split: sender.splits)

interpretation provider_lock: event_system "conn_step J sn" lock_ok for J sn
  by unfold_locales (rule lock_ok_step)


lemma provider_run_good: "provider_inv J sn (run_conn J sn evs (new_conn sn reauth))"
  unfolding run_conn_def by (rule provider.run_good [OF provider_inv_new])

lemma provider_run_inv: "conn_inv J sn (run_conn J sn evs (new_conn sn reauth))"
  using provider_run_good by (simp add: provider_inv_def)

lemma conn_inv_success:
  assumes "conn_inv J sn c" "ToolResult g k True r m \<in> set (cn_wire c)"
  shows "k \<in> fst ` set (cn_executed c)"
proof -
  have "outgoing_ok J c (ToolResult g k True r m)" using assms unfolding conn_inv_def by blast
  then show ?thesis by (simp add: outgoing_ok_def)
qed

lemma provider_run_lock: "lock_ok (run_conn J sn evs (new_conn sn reauth))"
  unfolding run_conn_def by (rule provider_lock.run_good [OF lock_ok_new])

section \<open>A concrete connection\<close>

text \<open>Home Assistant's JSON functions on the few texts of the example.\<close>

definition sample_call :: obj where
  "sample_call =
     [(''type'', JStr ''tool_call''), (''generation'', JStr ''g1''), (''call_id'', JStr ''c1''),
      (''name'', JStr ''HassTurnOn''), (''arguments'', JObj [])]"

definition sample_json :: ha_json where
  "sample_json =
     \<lparr>dump_sorted = (\<lambda>v. if v = JObj [] then Inr ''{}'' else Inr ''result''),
      ha_loads = (\<lambda>t. if t = ''{}'' then Some (JObj [])
        else if t = ''registered''
        then Some (JObj [(''type'', JStr ''registered''), (''protocol_version'', JInt 1), (''generation'', JStr ''g1'')])
        else if t = ''call'' then Some (JObj sample_call) else None),
      float_repr = (\<lambda>_. [])\<rparr>"

definition sample_tools :: registration_snapshot where
  "sample_tools = \<lparr>rs_serialized = ''register'', rs_tool_names = [''HassTurnOn'']\<rparr>"

definition sample_connects :: "conn_event list" where
  "sample_connects =
     [Granted MainLoop, SendEnds MainLoop Written, Delivers (TextMessage ''registered''),
      Delivers (TextMessage ''call'')]"

definition sample_answers :: "conn_event list" where
  "sample_answers =
     [ToolEnds 0 (Returned (JObj [])), Granted (CallTask 0), SendEnds (CallTask 0) Written,
      Delivers (TextMessage ''call'')]"

lemma encoded_ascii: "list_all (\<lambda>c. ord_of c < 128) s \<Longrightarrow> encoded_size s = length s"
  by (induction s) (auto simp: encoded_size_def utf8_encode_def utf8_units_def)

lemma sample_sizes:
  "encoded_size ''registered'' = 10" "encoded_size ''call'' = 4" "encoded_size ''result'' = 6"
  by (simp_all add: encoded_ascii ord_of_def)

text \<open>The states of the example, one event after the other.\<close>

definition sample_conn ::
    "main_phase \<Rightarrow> string option \<Rightarrow> string set \<Rightarrow> (nat \<times> call_phase) list \<Rightarrow> sender option \<Rightarrow>
     (string \<times> string \<times> obj) list \<Rightarrow> outgoing list \<Rightarrow> conn" where
  "sample_conn main generation seen tasks lock executed wire =
     \<lparr>cn_main = main, cn_generation = generation, cn_seen = seen, cn_pending = tasks,
      cn_next_task = length tasks, cn_registered = (generation \<noteq> None), cn_connected = (generation \<noteq> None),
      cn_reauth_started = False, cn_closed = False, cn_lock = lock, cn_executed = executed, cn_wire = wire\<rparr>"

lemma sample_conn_sel:
  "cn_main (sample_conn m g s ts l e w) = m" "cn_generation (sample_conn m g s ts l e w) = g"
  "cn_seen (sample_conn m g s ts l e w) = s" "cn_pending (sample_conn m g s ts l e w) = ts"
  "cn_executed (sample_conn m g s ts l e w) = e" "cn_wire (sample_conn m g s ts l e w) = w"
  "cn_next_task (sample_conn m g s ts l e w) = length ts" "cn_closed (sample_conn m g s ts l e w) = False"
  by (simp_all add: sample_conn_def)

lemmas sample_send_eval =
  sample_conn_def conn_step_def send_granted_def phase_of_def set_sending_def send_ends_def sender_done_def
  set_call_def with_phase_def Let_def

lemma sample_steps:
  "new_conn sample_tools False = sample_conn (MainSends (AwaitsLock (Plain ''register''))) None {} [] None [] []"
  "conn_step sample_json sample_tools (Granted MainLoop)
     (sample_conn (MainSends (AwaitsLock (Plain m))) None {} [] None [] []) =
     sample_conn (MainSends (Writes (Plain m))) None {} [] (Some MainLoop) [] [Plain m]"
  "conn_step sample_json sample_tools (SendEnds MainLoop Written)
     (sample_conn (MainSends (Writes (Plain m))) None {} [] (Some MainLoop) [] w) =
     sample_conn Receives None {} [] None [] w"
  "conn_step sample_json sample_tools (Granted (CallTask 0))
     (sample_conn Receives g s [(0, Sends (AwaitsLock r))] None e w) =
     sample_conn Receives g s [(0, Sends (Writes r))] (Some (CallTask 0)) e (w @ [r])"
  "conn_step sample_json sample_tools (SendEnds (CallTask 0) Written)
     (sample_conn Receives g s [(0, Sends (Writes r))] (Some (CallTask 0)) e w) =
     sample_conn Receives g s [(0, Finished)] None e w"
  by (simp_all add: sample_send_eval new_conn_def sample_tools_def)

lemma sample_text:
  "bounded_string (JStr ''g1'') f 256 b = Inr ''g1''" "bounded_string (JStr ''c1'') f 256 b = Inr ''c1''"
  "bounded_tool_name (JStr ''HassTurnOn'') = Inr ''HassTurnOn''"
  "serialized_size sample_json (JObj []) = Inr 2"
  by (simp_all add: bounded_string_def bounded_tool_name_def has_control_character_def ord_of_def
      valid_tool_name_def tool_name_char_def char_classes serialized_size_def strict_size_def dumps_strict_def
      sample_json_def provider_bounds)

lemma sample_registers:
  "conn_step sample_json sample_tools (Delivers (TextMessage ''registered'')) (sample_conn Receives None {} [] None [] w) =
     sample_conn Receives (Some ''g1'') {} [] None [] w"
  by (simp add: conn_step_def receive_message_def sample_sizes provider_bounds receive_event_def
      registered_event_def sample_text sample_conn_def)
    (simp add: sample_json_def receive_event_def registered_event_def sample_text provider_bounds)

lemma sample_admits:
  "admit_tool_call sample_json sample_tools ''g1'' ''c1'' sample_call False = Executes ''g1'' ''c1'' ''HassTurnOn'' []"
  by (simp add: admit_tool_call_def sample_call_def sample_text provider_bounds) (simp add: sample_tools_def)

lemma sample_handles:
  "handle_tool_call sample_json sample_tools ''g1'' sample_call (sample_conn Receives g {} [] None [] w) =
     (Executes ''g1'' ''c1'' ''HassTurnOn'' [],
      (sample_conn Receives g {} [] None [] w)\<lparr>cn_seen := {''c1''}, cn_executed := [(''c1'', ''HassTurnOn'', [])]\<rparr>)"
  "handle_tool_call sample_json sample_tools ''g1'' sample_call (sample_conn Receives g {''c1''} ts None e w) =
     (Finished, sample_conn Receives g {''c1''} ts None e w)"
proof -
  have f: "jget sample_call ''generation'' = JStr ''g1''" "jget sample_call ''call_id'' = JStr ''c1''"
    by (simp_all add: sample_call_def)
  show "handle_tool_call sample_json sample_tools ''g1'' sample_call (sample_conn Receives g {} [] None [] w) =
     (Executes ''g1'' ''c1'' ''HassTurnOn'' [],
      (sample_conn Receives g {} [] None [] w)\<lparr>cn_seen := {''c1''}, cn_executed := [(''c1'', ''HassTurnOn'', [])]\<rparr>)"
    by (simp add: handle_tool_call_def f sample_text provider_bounds sample_conn_def sample_admits started_call_def)
  show "handle_tool_call sample_json sample_tools ''g1'' sample_call (sample_conn Receives g {''c1''} ts None e w) =
     (Finished, sample_conn Receives g {''c1''} ts None e w)"
    by (simp add: handle_tool_call_def f sample_text provider_bounds sample_conn_def)
qed

lemma sample_delivers:
  "cn_main c = Receives \<Longrightarrow> conn_step sample_json sample_tools (Delivers (TextMessage ''call'')) c =
     tool_call_event sample_json sample_tools sample_call c"
  by (simp add: conn_step_def receive_message_def sample_sizes provider_bounds)
    (simp add: sample_json_def sample_call_def receive_event_def)

lemma sample_calls:
  "conn_step sample_json sample_tools (Delivers (TextMessage ''call'')) (sample_conn Receives (Some ''g1'') {} [] None [] w) =
     sample_conn Receives (Some ''g1'') {''c1''} [(0, Executes ''g1'' ''c1'' ''HassTurnOn'' [])] None
       [(''c1'', ''HassTurnOn'', [])] w"
  "conn_step sample_json sample_tools (Delivers (TextMessage ''call''))
     (sample_conn Receives (Some ''g1'') {''c1''} [(0, Finished)] None e w) =
     sample_conn Receives (Some ''g1'') {''c1''} [(0, Finished), (1, Finished)] None e w"
proof -
  show "conn_step sample_json sample_tools (Delivers (TextMessage ''call'')) (sample_conn Receives (Some ''g1'') {} [] None [] w) =
     sample_conn Receives (Some ''g1'') {''c1''} [(0, Executes ''g1'' ''c1'' ''HassTurnOn'' [])] None
       [(''c1'', ''HassTurnOn'', [])] w"
    by (simp add: sample_delivers sample_conn_sel tool_call_event_def sample_handles provider_bounds)
      (simp add: sample_conn_def)
  show "conn_step sample_json sample_tools (Delivers (TextMessage ''call''))
     (sample_conn Receives (Some ''g1'') {''c1''} [(0, Finished)] None e w) =
     sample_conn Receives (Some ''g1'') {''c1''} [(0, Finished), (1, Finished)] None e w"
    by (simp add: sample_delivers sample_conn_sel tool_call_event_def sample_handles provider_bounds)
      (simp add: sample_conn_def)
qed

lemma sample_tool_returns:
  "conn_step sample_json sample_tools (ToolEnds 0 (Returned (JObj [])))
     (sample_conn Receives g s [(0, Executes ''g1'' ''c1'' n a)] None e w) =
     sample_conn Receives g s [(0, Sends (AwaitsLock (ToolResult ''g1'' ''c1'' True [] ''result'')))] None e w"
proof -
  have "after_tool sample_json ''g1'' ''c1'' (Returned (JObj [])) False =
      Sends (AwaitsLock (ToolResult ''g1'' ''c1'' True [] ''result''))"
    by (simp add: after_tool_def judge_result_def validate_tool_result_def sample_text provider_bounds
        send_tool_result_def result_message_def sample_sizes)
      (simp add: sample_json_def sample_sizes provider_bounds)
  then show ?thesis by (simp add: sample_send_eval)
qed

lemma sample_connected:
  "run_conn sample_json sample_tools sample_connects (new_conn sample_tools False) =
     sample_conn Receives (Some ''g1'') {''c1''} [(0, Executes ''g1'' ''c1'' ''HassTurnOn'' [])] None
       [(''c1'', ''HassTurnOn'', [])] [Plain ''register'']"
  by (simp add: run_conn_def sample_connects_def sample_steps sample_registers sample_calls)

lemma sample_answered:
  "cn_wire (run_conn sample_json sample_tools (sample_connects @ sample_answers) (new_conn sample_tools False)) =
     [Plain ''register'', ToolResult ''g1'' ''c1'' True [] ''result'']"
proof -
  have "run_conn sample_json sample_tools (sample_connects @ sample_answers) (new_conn sample_tools False) =
      run_conn sample_json sample_tools sample_answers
        (run_conn sample_json sample_tools sample_connects (new_conn sample_tools False))"
    by (simp add: run_conn_def)
  then show ?thesis unfolding sample_connected
    by (simp add: run_conn_def sample_answers_def sample_steps sample_calls sample_tool_returns sample_conn_sel)
qed

section \<open>Properties\<close>

text \<open>C4: whatever the bridge sends and however the tasks interleave, a connection of the provider runs at most
  one tool for a call id, only tools it registered and with arguments within the bound, sends at most one
  result for a call id, and reports success only for a call it ran.\<close>

theorem provider_runs_each_call_once:
  "let c = run_conn J sn evs (new_conn sn reauth) in
     distinct (map fst (cn_executed c)) \<and> list_all (authorized J sn) (cn_executed c)
     \<and> (\<forall>k. answered k c \<le> 1)
     \<and> (\<forall>g k r m. ToolResult g k True r m \<in> set (cn_wire c) \<longrightarrow> k \<in> fst ` set (cn_executed c))"
proof -
  define c where "c = run_conn J sn evs (new_conn sn reauth)"
  have inv: "conn_inv J sn c" unfolding c_def by (rule provider_run_inv)
  have "answered k c \<le> 1" for k
  proof -
    have "answered k c + owed k (cn_pending c) \<le> (if k \<in> cn_seen c then 1 else 0)"
      using inv by (simp add: conn_inv_def)
    then show ?thesis by (cases "k \<in> cn_seen c") simp_all
  qed
  moreover have "k \<in> fst ` set (cn_executed c)" if "ToolResult g k True r m \<in> set (cn_wire c)" for g k r m
    using conn_inv_success [OF inv that] .
  moreover have "distinct (map fst (cn_executed c)) \<and> list_all (authorized J sn) (cn_executed c)"
    using inv by (simp add: conn_inv_def)
  ultimately show ?thesis unfolding Let_def c_def [symmetric] by blast
qed

theorem provider_runs_each_call_once_witness:
  "ToolResult ''g1'' ''c1'' True [] ''result''
     \<in> set (cn_wire (run_conn sample_json sample_tools (sample_connects @ sample_answers) (new_conn sample_tools False)))
   \<and> ''c1'' \<in> fst ` set (cn_executed
       (run_conn sample_json sample_tools (sample_connects @ sample_answers) (new_conn sample_tools False)))"
proof -
  have "ToolResult ''g1'' ''c1'' True [] ''result''
     \<in> set (cn_wire (run_conn sample_json sample_tools (sample_connects @ sample_answers) (new_conn sample_tools False)))"
    by (simp add: sample_answered)
  then show ?thesis
    using provider_runs_each_call_once [of sample_json sample_tools "sample_connects @ sample_answers" False]
    unfolding Let_def by blast
qed

text \<open>C23: the provider's tables are bounded and its writes exclusive in every state of a connection: at most 16
  calls are pending, at most 1024 tools run per generation, every tool result written fits the message bound,
  and the send lock is held by exactly the sender that is writing.\<close>

theorem provider_stays_bounded:
  "let c = run_conn J sn evs (new_conn sn reauth) in
     length (cn_pending c) \<le> 16 \<and> length (cn_executed c) \<le> 1024
     \<and> list_all (\<lambda>m. case m of ToolResult g k s r t \<Rightarrow> encoded_size t \<le> 262144 | Plain t \<Rightarrow> True) (cn_wire c)
     \<and> (\<forall>w. writing w c \<longleftrightarrow> cn_lock c = Some w)"
proof -
  define c where "c = run_conn J sn evs (new_conn sn reauth)"
  have inv: "conn_inv J sn c" and lock: "lock_ok c"
    unfolding c_def by (rule provider_run_inv, rule provider_run_lock)
  have "length (cn_executed c) = card (fst ` set (cn_executed c))"
    using inv distinct_card [of "map fst (cn_executed c)"] by (simp add: conn_inv_def)
  also have "\<dots> \<le> card (cn_seen c)" using inv by (intro card_mono) (auto simp: conn_inv_def)
  also have "\<dots> \<le> 1024" using inv by (simp add: conn_inv_def MAX_CALLS_PER_GENERATION_def)
  finally have "length (cn_executed c) \<le> 1024" .
  moreover have "list_all (\<lambda>m. case m of ToolResult g k s r t \<Rightarrow> encoded_size t \<le> 262144 | Plain t \<Rightarrow> True) (cn_wire c)"
  proof (unfold list_all_iff, rule ballI)
    fix m assume "m \<in> set (cn_wire c)"
    then have "outgoing_ok J c m" using inv by (simp add: conn_inv_def)
    then show "case m of ToolResult g k s r t \<Rightarrow> encoded_size t \<le> 262144 | Plain t \<Rightarrow> True"
      by (simp add: outgoing_ok_def MAX_REALTIME_TOOL_MESSAGE_BYTES_def split: outgoing.splits)
  qed
  ultimately show ?thesis
    using inv lock by (simp add: conn_inv_def PV_MAX_PENDING_TOOL_CALLS_def lock_ok_def Let_def flip: c_def)
qed

text \<open>once the receive loop has ended, for whatever reason, no event starts another tool; once the
  connection is torn down nothing more is written.\<close>

theorem disconnect_authorizes_nothing:
  assumes "left_loop (run_conn J sn evs (new_conn sn reauth))"
  shows "cn_executed (run_conn J sn (evs @ evs') (new_conn sn reauth)) = cn_executed (run_conn J sn evs (new_conn sn reauth))
    \<and> (torn_down (run_conn J sn evs (new_conn sn reauth)) \<longrightarrow>
        cn_wire (run_conn J sn (evs @ evs') (new_conn sn reauth)) = cn_wire (run_conn J sn evs (new_conn sn reauth)))"
  using provider_left.seen_after [OF provider_run_good assms]
    provider_down.seen_after [OF provider_run_good]
  by (simp add: run_conn_def)

theorem disconnect_authorizes_nothing_witness:
  "cn_executed (run_conn sample_json sample_tools
     ((sample_connects @ [Delivers CloseMessage]) @ sample_answers) (new_conn sample_tools False)) =
     [(''c1'', ''HassTurnOn'', [])]"
proof -
  have c: "cn_main (run_conn sample_json sample_tools (sample_connects @ [Delivers CloseMessage]) (new_conn sample_tools False))
      = Draining (Inr True)"
    "cn_executed (run_conn sample_json sample_tools (sample_connects @ [Delivers CloseMessage]) (new_conn sample_tools False))
      = [(''c1'', ''HassTurnOn'', [])]"
    using sample_connected by (simp_all add: run_conn_def conn_step_def receive_message_def sample_conn_def)
  then have "left_loop (run_conn sample_json sample_tools (sample_connects @ [Delivers CloseMessage]) (new_conn sample_tools False))"
    by (simp add: left_loop_def)
  from disconnect_authorizes_nothing [OF this, of sample_answers] c(2) show ?thesis by simp
qed


section \<open>Reconnecting\<close>

text \<open>An outcome after which the loop tries again without having registered.\<close>

definition unregistered_end :: "bool result \<times> bool \<Rightarrow> bool" where
  "unregistered_end a \<longleftrightarrow> fst a \<noteq> Inr True \<and> fst a \<noteq> Inl CancelledError"

definition backoff :: "rat \<Rightarrow> rat \<Rightarrow> nat \<Rightarrow> rat" where
  "backoff initial_delay max_delay n = min (initial_delay * 2 ^ n) max_delay"

lemma backoff_next:
  "0 < d0 \<Longrightarrow> d0 \<le> dmax \<Longrightarrow> min (max (backoff d0 dmax n * 2) d0) dmax = backoff d0 dmax (Suc n)"
proof -
  assume d: "0 < d0" "d0 \<le> dmax"
  have "d0 \<le> d0 * 2 ^ n" using d by simp
  then have b: "d0 \<le> backoff d0 dmax n" using d by (simp add: backoff_def)
  then have "max (backoff d0 dmax n * 2) d0 = backoff d0 dmax n * 2" using d by simp
  with d show ?thesis by (auto simp: backoff_def min_def)
qed

lemma request_reauth_simps [simp]:
  "rn_stopped (request_reauth e s) = rn_stopped s" "rn_delay (request_reauth e s) = rn_delay s"
  "rn_waits (request_reauth e s) = rn_waits s" "rn_ended (request_reauth e s) = rn_ended s"
  by (cases e; simp add: request_reauth_def)+

lemma attempt_continues:
  assumes "unregistered_end (outcome, reauth)" "\<not> rn_stopped s"
  shows "rn_waits (attempt_ends d0 dmax outcome reauth s) = rn_waits s @ [rn_delay s]"
    "rn_delay (attempt_ends d0 dmax outcome reauth s) = min (max (rn_delay s * 2) d0) dmax"
    "rn_ended (attempt_ends d0 dmax outcome reauth s) = rn_ended s"
    "\<not> rn_stopped (attempt_ends d0 dmax outcome reauth s)"
  using assms by (auto simp: attempt_ends_def unregistered_end_def Let_def split: sum.splits)

lemma attempts_back_off:
  assumes "list_all unregistered_end outs" "0 < d0" "d0 \<le> dmax"
    and "\<not> rn_stopped s" "\<not> rn_ended s" "rn_delay s = backoff d0 dmax k"
  shows "rn_waits (run_attempts d0 dmax outs s) =
      rn_waits s @ map (backoff d0 dmax) [k..<k + length outs]"
  using assms
proof (induction outs arbitrary: s k)
  case (Cons a outs)
  obtain outcome reauth where a: "a = (outcome, reauth)" by (cases a)
  let ?s' = "attempt_ends d0 dmax outcome reauth s"
  have u: "unregistered_end (outcome, reauth)" using Cons.prems(1) a by simp
  note step = attempt_continues [OF u Cons.prems(4), of d0 dmax]
  have "rn_delay ?s' = backoff d0 dmax (Suc k)"
    unfolding step(2) Cons.prems(6) by (rule backoff_next [OF Cons.prems(2,3)])
  with Cons.IH [of ?s' "Suc k"] Cons.prems step have
    "rn_waits (run_attempts d0 dmax outs ?s') = rn_waits ?s' @ map (backoff d0 dmax) [Suc k..<Suc k + length outs]"
    by simp
  with Cons.prems(4,5,6) step(1) show ?case by (simp add: a upt_conv_Cons del: upt_Suc)
qed simp

lemma run_attempts_append:
  "run_attempts d0 dmax (xs @ ys) s = run_attempts d0 dmax ys (run_attempts d0 dmax xs s)"
proof (induction xs arbitrary: s)
  case (Cons a xs)
  obtain outcome reauth where a: "a = (outcome, reauth)" by (cases a)
  have ended: "rn_ended s \<or> rn_stopped s \<Longrightarrow> run_attempts d0 dmax zs s = s" for zs by (cases zs) auto
  show ?case using Cons.IH ended by (simp add: a)
qed simp

lemma run_attempts_stopped: "rn_stopped (run_attempts d0 dmax outs s) = rn_stopped s"
proof (induction outs arbitrary: s)
  case (Cons a outs)
  obtain outcome reauth where a: "a = (outcome, reauth)" by (cases a)
  have "rn_stopped (attempt_ends d0 dmax outcome reauth s) = rn_stopped s"
    by (auto simp: attempt_ends_def Let_def split: sum.splits)
  with Cons.IH show ?case by (simp add: a)
qed simp

text \<open>C38: reconnection backs off exponentially and forgets the past when the bridge closes a registered
  connection: after it the waits are the initial delay doubled once per failed attempt and never above the maximum.\<close>

theorem reconnects_back_off:
  assumes "0 < d0" "d0 \<le> dmax" "list_all unregistered_end outs"
    and "\<not> rn_ended (run_attempts d0 dmax before (new_run d0))"
  shows "rn_waits (run_attempts d0 dmax (before @ (Inr True, reauth) # outs) (new_run d0)) =
    rn_waits (run_attempts d0 dmax before (new_run d0)) @ map (\<lambda>n. min (d0 * 2 ^ n) dmax) [0..<Suc (length outs)]"
proof -
  define s where "s = run_attempts d0 dmax before (new_run d0)"
  let ?s' = "attempt_ends d0 dmax (Inr True) reauth s"
  have live: "\<not> rn_stopped s" "\<not> rn_ended s"
    using assms(4) run_attempts_stopped [of d0 dmax before "new_run d0"] by (simp_all add: s_def new_run_def)
  have b0: "backoff d0 dmax 0 = d0" using assms(2) by (simp add: backoff_def)
  have s': "rn_waits ?s' = rn_waits s @ [d0]" "rn_delay ?s' = backoff d0 dmax 1" "\<not> rn_stopped ?s'" "\<not> rn_ended ?s'"
    using live backoff_next [OF assms(1,2), of 0] by (simp_all add: attempt_ends_def Let_def b0)
  have "rn_waits (run_attempts d0 dmax outs ?s') = rn_waits ?s' @ map (backoff d0 dmax) [1..<1 + length outs]"
    by (rule attempts_back_off [OF assms(3,1,2) s'(3,4,2)])
  moreover have "run_attempts d0 dmax (before @ (Inr True, reauth) # outs) (new_run d0) = run_attempts d0 dmax outs ?s'"
    using live by (simp add: run_attempts_append flip: s_def)
  moreover have "map (backoff d0 dmax) [0..<Suc (length outs)] = d0 # map (backoff d0 dmax) [1..<1 + length outs]"
    by (simp add: upt_conv_Cons b0 del: upt_Suc)
  ultimately have "rn_waits (run_attempts d0 dmax (before @ (Inr True, reauth) # outs) (new_run d0)) =
      rn_waits s @ map (backoff d0 dmax) [0..<Suc (length outs)]" by (simp add: s'(1))
  then show ?thesis by (simp add: s_def backoff_def [abs_def])
qed

theorem reconnects_back_off_witness:
  "rn_waits (run_attempts 1 60 ([(Inr False, False)] @ (Inr True, False) #
     replicate 7 (Inl (ClientError ''refused''), False)) (new_run 1)) = [1, 1, 2, 4, 8, 16, 32, 60, 60]"
proof -
  have b: "rn_waits (run_attempts 1 60 [(Inr False, False)] (new_run 1)) = [1]"
    "\<not> rn_ended (run_attempts 1 60 [(Inr False, False)] (new_run 1))"
    by (simp_all add: attempt_ends_def new_run_def)
  have "list_all unregistered_end (replicate 7 (Inl (ClientError ''refused''), False))"
    by (simp add: unregistered_end_def list_all_iff)
  from reconnects_back_off [OF _ _ this b(2), of False] b(1) show ?thesis
    by (simp add: upt_rec)
qed

end
