(* ===== verification/Json_Transport.thy ===== *)
theory Json_Transport
  imports Json
begin

text \<open>
  JSON between two programs: what a serializer writes, a parser reads back as the value in the form
  \<open>deliver\<close>. Strings, integers, booleans and null stay what they are; arrays and objects change in
  their members only, and an object may have its keys in another order.
\<close>

definition delivers :: "(json \<Rightarrow> string result) \<Rightarrow> (string \<Rightarrow> json option) \<Rightarrow> (json \<Rightarrow> json) \<Rightarrow> bool" where
  "delivers dump loads deliver \<longleftrightarrow>
     (\<forall>v t. dump v = Inr t \<longrightarrow> loads t = Some (deliver v))
     \<and> deliver JNull = JNull \<and> (\<forall>s. deliver (JStr s) = JStr s) \<and> (\<forall>i. deliver (JInt i) = JInt i)
     \<and> (\<forall>b. deliver (JBool b) = JBool b) \<and> (\<forall>vs. deliver (JArr vs) = JArr (map deliver vs))
     \<and> (\<forall>m. \<exists>m'. deliver (JObj m) = JObj m' \<and> (\<forall>k. map_of m' k = map_option deliver (map_of m k)))"

lemma delivers_text: "delivers dump loads deliver \<Longrightarrow> dump v = Inr t \<Longrightarrow> loads t = Some (deliver v)"
  unfolding delivers_def by blast

lemma delivers_scalars:
  assumes "delivers dump loads deliver"
  shows "deliver JNull = JNull" "deliver (JStr s) = JStr s" "deliver (JInt i) = JInt i" "deliver (JBool b) = JBool b"
    "deliver (JArr vs) = JArr (map deliver vs)"
  using assms unfolding delivers_def by blast+

lemma delivers_object:
  assumes "delivers dump loads deliver"
  obtains m' where "deliver (JObj m) = JObj m'" "\<And>k. map_of m' k = map_option deliver (map_of m k)"
  using assms unfolding delivers_def by metis

lemma delivers_identity:
  "(\<And>v t. dump v = Inr t \<Longrightarrow> loads t = Some v) \<Longrightarrow> delivers dump loads (\<lambda>v. v)"
  by (simp add: delivers_def option.map_ident)

text \<open>A field of the delivered object, when the object has it.\<close>

lemma delivered_field:
  assumes "\<And>k. map_of m' k = map_option deliver (map_of m k)" "map_of m k = Some v"
  shows "jget m' k = deliver v" "jget_default m' k d = deliver v"
  using assms by (simp_all add: jget_def jget_default_def)

lemma jget_text_field: "jget m k = JStr s \<Longrightarrow> map_of m k = Some (JStr s)"
  by (simp add: jget_def split: option.splits)

lemma jget_obj_field: "jget m k = JObj s \<Longrightarrow> map_of m k = Some (JObj s)"
  by (simp add: jget_def split: option.splits)

end
