(* ===== verification/Tool_Loop.thy ===== *)
theory Tool_Loop
  imports Tool_Provider_Safety Tool_Broker Json_Transport
begin

text \<open>
  The two ends of the tool socket composed: what Home Assistant's provider registers is what the bridge's
  broker accepts, and a tool call of the bridge comes back as the result of one tool.
\<close>

section \<open>JSON between the two programs\<close>

text \<open>
  Documented behaviour of the JSON functions at the two ends: a text that \<^verbatim>\<open>json_dumps_sorted\<close> made reads
  back, on both sides, as the value in the form \<open>deliver\<close> that orjson gives it.
\<close>

definition json_delivers :: "ha_json \<Rightarrow> (string \<Rightarrow> json option) \<Rightarrow> (json \<Rightarrow> json) \<Rightarrow> bool" where
  "json_delivers J bridge_loads deliver \<longleftrightarrow>
     delivers (dump_sorted J) (ha_loads J) deliver \<and> delivers (dump_sorted J) bridge_loads deliver"

lemma json_delivers_end: "json_delivers J bl deliver \<Longrightarrow> delivers (dump_sorted J) bl deliver"
  by (simp add: json_delivers_def)

lemma json_delivers_text:
  "json_delivers J bl deliver \<Longrightarrow> dump_sorted J v = Inr t \<Longrightarrow> ha_loads J t = Some (deliver v)"
  "json_delivers J bl deliver \<Longrightarrow> dump_sorted J v = Inr t \<Longrightarrow> bl t = Some (deliver v)"
  using delivers_text unfolding json_delivers_def by blast+

lemmas json_delivers_scalars = delivers_scalars [OF json_delivers_end]
lemmas json_delivers_object = delivers_object [OF json_delivers_end]

section \<open>The registration\<close>

lemma supported_canonical:
  "list_all (\<lambda>l. canonical_language l = Inr l \<and> length l \<le> 35 \<and> l \<noteq> [] \<and> \<not> has_control_character l) SUPPORTED_LANGUAGES"
  by code_simp

lemma serialized_size_delivered:
  assumes "json_delivers J bl deliver" "serialized_size J v = Inr n"
  shows "finite_json (deliver v)" "length (dumps (float_repr J) (deliver v)) = n"
proof -
  obtain t where t: "dump_sorted J v = Inr t"
    using assms(2) by (auto simp: serialized_size_def strict_size_def result_simps split: sum.splits)
  with assms show "finite_json (deliver v)" "length (dumps (float_repr J) (deliver v)) = n"
    by (auto simp: serialized_size_def strict_size_def json_delivers_text(1) [OF assms(1) t] dumps_strict_def
        split: sum.splits if_splits)
qed

lemma bounded_tool_name_ok:
  "bounded_tool_name v = Inr s \<Longrightarrow> v = JStr s \<and> valid_tool_name s \<and> length s \<le> 256"
  by (auto simp: bounded_tool_name_def bounded_string_def result_simps provider_bounds split: option.splits if_splits)

text \<open>A tool schema the provider accepts is a tool the bridge accepts.\<close>

lemma checked_tool_accepted:
  assumes d: "json_delivers J bl deliver" and c: "check_tool_schema J names schema = Inr name"
    and desc: "jget_default schema ''description'' (JStr []) = JStr words" "map_of schema ''description'' \<noteq> None"
  shows "\<exists>t. validated_tool (float_repr J) (set names) (deliver (JObj schema)) = Inr t \<and> tool_name t = name"
proof -
  obtain n where name: "bounded_tool_name (jget schema ''name'') = Inr name" "name \<notin> set names"
    and words: "bounded_string (JStr words) (''description for '' @ name) PV_MAX_TOOL_DESCRIPTION_CHARS True = Inr words"
    and par: "obj_of (jget schema ''parameters'') \<noteq> None"
    and size: "serialized_size J (jget schema ''parameters'') = Inr n" "n \<le> MAX_REALTIME_TOOL_SCHEMA_BYTES"
    using c desc(1) by (auto simp: check_tool_schema_def result_simps bounded_string_def split: if_splits)
  obtain p where p: "jget schema ''parameters'' = JObj p" using par by (auto simp: not_None_eq)
  obtain s' where s': "deliver (JObj schema) = JObj s'" "\<And>k. map_of s' k = map_option deliver (map_of schema k)"
    using json_delivers_object [OF d] by blast
  obtain p' where p': "deliver (JObj p) = JObj p'" using json_delivers_object [OF d] by blast
  have fields: "jget s' ''name'' = JStr name" "jget_default s' ''description'' (JStr []) = JStr words"
    "jget_default s' ''parameters'' x = JObj p'" for x
  proof -
    have "map_of schema ''name'' = Some (JStr name)"
      using bounded_tool_name_ok [OF name(1)] jget_text_field by blast
    then show "jget s' ''name'' = JStr name" using delivered_field(1) [OF s'(2)] json_delivers_scalars(2) [OF d] by metis
    have "map_of schema ''description'' = Some (JStr words)"
      using desc by (auto simp: jget_default_def split: option.splits)
    then show "jget_default s' ''description'' (JStr []) = JStr words"
      using delivered_field(2) [OF s'(2)] json_delivers_scalars(2) [OF d] by metis
    show "jget_default s' ''parameters'' x = JObj p'"
      using delivered_field(2) [OF s'(2) jget_obj_field [OF p]] p' by simp
  qed
  have "bounded_json (float_repr J) (JObj p') MAX_TOOL_SCHEMA_BYTES ''tool schema'' = Inr ()"
    using serialized_size_delivered [OF d size(1)] size(2) unfolding p p'
    by (simp add: result_simps MAX_TOOL_SCHEMA_BYTES_def provider_bounds)
  moreover have "valid_tool_name name" "length name \<le> 256" using bounded_tool_name_ok [OF name(1)] by auto
  moreover have "length words \<le> 8192"
    using words by (auto simp: bounded_string_def provider_bounds split: if_splits)
  ultimately show ?thesis using name(2) s'(1) fields
    by (simp add: validated_tool_def Let_def tool_bounds)
qed

lemma checked_tools_accepted:
  assumes "json_delivers J bl deliver"
  shows "check_tool_schemas J schemas names = Inr names' \<Longrightarrow>
    list_all (\<lambda>s. \<exists>words. map_of s ''description'' = Some (JStr words)) schemas \<Longrightarrow>
    \<exists>tools'. validated_tools (float_repr J) (map (\<lambda>s. deliver (JObj s)) schemas) tools (set names) = Inr (tools', set names')"
proof (induction schemas arbitrary: names tools)
  case (Cons schema schemas)
  from Cons.prems(1) obtain name where name: "check_tool_schema J names schema = Inr name"
    and rest: "check_tool_schemas J schemas (names @ [name]) = Inr names'"
    by (auto simp: result_simps)
  from Cons.prems(2) obtain words where "map_of schema ''description'' = Some (JStr words)" by auto
  then obtain t where t: "validated_tool (float_repr J) (set names) (deliver (JObj schema)) = Inr t" "tool_name t = name"
    using checked_tool_accepted [OF assms name] by (auto simp: jget_default_def)
  from Cons.IH [OF rest] Cons.prems(2) obtain tools' where
    "validated_tools (float_repr J) (map (\<lambda>s. deliver (JObj s)) schemas) (tools @ [t]) (set (names @ [name])) = Inr (tools', set names')"
    by auto
  with t show ?case by simp
qed simp

lemma serialized_tools_described:
  fixes api :: "('p, 's) api_instance"
  assumes "serialize_llm_tools H api = Inr tools"
  shows "list_all (\<lambda>s. \<exists>d. map_of s ''description'' = Some (JStr d)) tools"
  unfolding list_all_iff
proof
  define f where "f = (\<lambda>t :: 'p llm_tool. bind_result (convert_schema H
      (case ai_custom_serializer api of None \<Rightarrow> selector_serializer H | Some s \<Rightarrow> s) (lt_parameters t)) (\<lambda>parameters.
    Inr [(''name'', JStr (lt_name t)), (''description'', JStr (case lt_description t of None \<Rightarrow> [] | Some d \<Rightarrow> d)),
         (''parameters'', parameters)]))"
  fix s assume "s \<in> set tools"
  moreover have "map f (ai_tools api) = map Inr tools"
    using assms by (simp add: serialize_llm_tools_def collect_results_iff f_def)
  ultimately have "Inr s \<in> f ` set (ai_tools api)" by (metis image_eqI set_map)
  then obtain t where "f t = Inr s" by force
  then show "\<exists>d. map_of s ''description'' = Some (JStr d)" by (auto simp: f_def result_simps)
qed


lemma bounded_string_ok:
  "bounded_string v f n e = Inr s \<longleftrightarrow> v = JStr s \<and> wf_text s n \<and> (s = [] \<longrightarrow> e)"
  by (auto simp: bounded_string_def wf_text_def split: option.splits)

text \<open>The fields of the delivered registration.\<close>

lemma delivered_registration:
  assumes d: "json_delivers J bl deliver"
    and m: "\<And>k. map_of m k = map_option deliver (map_of (registration_message a l i tools) k)"
  shows "jget m ''type'' = JStr ''register''" "jget m ''protocol_version'' = JInt 1" "jget m ''authority_id'' = JStr a"
    "jget m ''language'' = JStr l" "jget_default m ''instructions'' x = JStr i"
    "jget m ''tools'' = JArr (map (\<lambda>s. deliver (JObj s)) tools)"
  by (simp_all add: jget_def jget_default_def m registration_message_def json_delivers_scalars [OF d] comp_def
      REALTIME_TOOL_PROTOCOL_VERSION_def)

text \<open>C11: the registration that Home Assistant prepares is one the bridge accepts: parsed by the bridge, it passes
  every check of the broker's validation, and the snapshot the broker makes of it declares exactly the tools the
  provider will run, under the same authority and a supported language.\<close>

theorem registration_is_accepted:
  assumes "json_delivers J bridge_loads deliver"
    and "prepare_registration J H authority = Inr rs"
  shows "\<exists>m sn. bridge_loads (rs_serialized rs) = Some (JObj m)
    \<and> validated_registration (float_repr J) m = Inr sn
    \<and> sn_tool_names sn = set (rs_tool_names rs) \<and> sn_authority_id sn = se_id authority
    \<and> sn_language sn \<in> set SUPPORTED_LANGUAGES"
proof -
  obtain language api tools words where
    authority: "bounded_string (JStr (se_id authority)) ''authority_id'' 256 False = Inr (se_id authority)"
    and language: "language \<in> set SUPPORTED_LANGUAGES"
    and tools: "serialize_llm_tools H api = Inr tools" "length tools \<le> 128"
      "check_tool_schemas J tools [] = Inr (rs_tool_names rs)"
    and words: "bounded_string (JStr words) ''instructions'' 65536 False = Inr words"
    and serialized: "dump_sorted J (JObj (registration_message (se_id authority) language words tools)) = Inr (rs_serialized rs)"
    using assms(2)
    by (auto simp: prepare_registration_def result_simps supported_language_def bounded_string_ok provider_bounds
        split: option.splits if_splits)
  obtain m where m: "deliver (JObj (registration_message (se_id authority) language words tools)) = JObj m"
      "\<And>k. map_of m k = map_option deliver (map_of (registration_message (se_id authority) language words tools) k)"
    using json_delivers_object [OF assms(1)] by blast
  note fields = delivered_registration [OF assms(1) m(2)]
  obtain tools' where tools': "validated_tools (float_repr J) (map (\<lambda>s. deliver (JObj s)) tools) [] {} =
      Inr (tools', set (rs_tool_names rs))"
    using checked_tools_accepted [OF assms(1) tools(3) serialized_tools_described [OF tools(1)], of "[]"] by auto
  have tag: "canonical_language language = Inr language" "wf_text language 35" "language \<noteq> []"
    using supported_canonical language by (auto simp: list_all_iff wf_text_def)
  have "bounded_text (JStr (se_id authority)) 256 ''authority_id'' False = Inr (se_id authority)"
    "bounded_text (JStr words) 65536 ''instructions'' True = Inr words"
    "bounded_text (JStr language) 35 ''language'' False = Inr language"
    using authority words tag by (simp_all add: bounded_text_ok bounded_string_ok)
  then have "validated_registration (float_repr J) m =
      Inr \<lparr>sn_generation = [], sn_authority_id = se_id authority, sn_language = language, sn_instructions = words,
           sn_tools = tools', sn_tool_names = set (rs_tool_names rs)\<rparr>"
    using tools' tag tools(2)
    by (simp add: validated_registration_def fields tool_bounds TOOL_BROKER_PROTOCOL_VERSION_def)
  moreover have "bridge_loads (rs_serialized rs) = Some (JObj m)"
    using json_delivers_text(2) [OF assms(1) serialized] m(1) by simp
  ultimately show ?thesis using language by auto
qed


text \<open>A concrete authority, with one tool.\<close>

definition sample_authority :: subentry where
  "sample_authority =
     \<lparr>se_id = ''a1'', se_type = ''conversation'',
      se_data = [(''realtime_authority'', JBool True), (''llm_hass_api'', JStr ''assist'')]\<rparr>"

definition sample_api :: "(json, unit) api_instance" where
  "sample_api =
     \<lparr>ai_tools = [\<lparr>lt_name = ''HassTurnOn'', lt_description = None, lt_parameters = JObj []\<rparr>],
      ai_prompt = [], ai_custom_serializer = None\<rparr>"

definition sample_llm :: "(json, unit) ha_llm" where
  "sample_llm =
     \<lparr>get_api = (\<lambda>ids language. Inr sample_api), convert_schema = (\<lambda>s p. Inr p), selector_serializer = (),
      render_template = (\<lambda>t. Inr t), default_instructions = ''Help.'', date_time_prompt = ''Now.''\<rparr>"

definition sample_words :: string where
  "sample_words =
     ''Help.'' @ [CHR 0x0A] @ ''Now.'' @ [CHR 0x0A] @ ''Respond using language and locale es-MX.''"

definition sample_tool_schema :: obj where
  "sample_tool_schema = [(''name'', JStr ''HassTurnOn''), (''description'', JStr []), (''parameters'', JObj [])]"

definition sample_wire_json :: ha_json where
  "sample_wire_json =
     \<lparr>dump_sorted = (\<lambda>v. if v = JObj [] then Inr ''{}''
        else if v = JObj (registration_message ''a1'' ''es-MX'' sample_words [sample_tool_schema]) then Inr ''registration''
        else if v = JObj (result_message ''g1'' ''c1'' True []) then Inr ''result''
        else Inl (TypeError ''not in the example'')),
      ha_loads = (\<lambda>t. if t = ''{}'' then Some (JObj [])
        else if t = ''registration''
        then Some (JObj (registration_message ''a1'' ''es-MX'' sample_words [sample_tool_schema]))
        else if t = ''result'' then Some (JObj (result_message ''g1'' ''c1'' True []))
        else if t = ''call'' then Some (JObj (call_message ''g1'' ''c1'' ''HassTurnOn'' [])) else None),
      float_repr = (\<lambda>_. [])\<rparr>"

lemma sample_delivers_json: "json_delivers sample_wire_json (ha_loads sample_wire_json) (\<lambda>v. v)"
  unfolding json_delivers_def
  by (intro conjI delivers_identity) (auto simp: sample_wire_json_def split: if_splits)

lemma sample_prepares:
  "prepare_registration sample_wire_json sample_llm sample_authority =
     Inr \<lparr>rs_serialized = ''registration'', rs_tool_names = [''HassTurnOn'']\<rparr>"
proof -
  have tool: "bounded_tool_name (JStr ''HassTurnOn'') = Inr ''HassTurnOn''" by (rule sample_text(3))
  have txts: "bounded_string (JStr ''a1'') f 256 b = Inr ''a1''" "bounded_string (JStr ''assist'') f 256 b = Inr ''assist''"
    "bounded_string (JStr sample_words) f 65536 b = Inr sample_words" "bounded_string (JStr []) f n True = Inr []" for f n b
    by (simp_all add: bounded_string_def has_control_character_def ord_of_def sample_words_def)
  have size: "serialized_size sample_wire_json (JObj []) = Inr 2"
    by (simp add: serialized_size_def strict_size_def sample_wire_json_def dumps_strict_def)
  have tools: "serialize_llm_tools sample_llm sample_api = Inr [sample_tool_schema]"
    by (simp add: serialize_llm_tools_def sample_llm_def sample_api_def sample_tool_schema_def)
  have checked: "check_tool_schema sample_wire_json [] sample_tool_schema = Inr ''HassTurnOn''"
    by (simp add: check_tool_schema_def sample_tool_schema_def tool txts size provider_bounds jget_default_def)
  have words: "render_instructions sample_llm (se_data sample_authority) sample_api ''es-MX'' = Inr sample_words"
    by (simp add: render_instructions_def sample_llm_def sample_api_def sample_authority_def ends_with_def sample_words_def Let_def)
  have dumped: "dump_sorted sample_wire_json
      (JObj (registration_message ''a1'' ''es-MX'' sample_words [sample_tool_schema])) = Inr ''registration''"
    by (simp add: sample_wire_json_def registration_message_def)
  have language: "supported_language (jget_default (se_data sample_authority) ''realtime_language'' (JStr DEFAULT_REALTIME_LANGUAGE)) = Inr ''es-MX''"
    by (simp add: sample_authority_def jget_default_def DEFAULT_REALTIME_LANGUAGE_def supported_language_def SUPPORTED_LANGUAGES_def)
  have api: "normalized_api_ids (jget (se_data sample_authority) ''llm_hass_api'') = Inr (Inl ''assist'')"
    "get_api sample_llm x l = Inr sample_api" "lt_name ` set (ai_tools sample_api) = {''HassTurnOn''}" for x l
    by (simp_all add: sample_authority_def normalized_api_ids_def txts provider_bounds sample_llm_def sample_api_def)
  have "encoded_size ''registration'' = 12" "se_id sample_authority = ''a1''"
    by (simp_all add: encoded_ascii ord_of_def sample_authority_def)
  then show ?thesis
    by (simp add: prepare_registration_def language api tools checked words dumped txts provider_bounds)
qed

theorem registration_is_accepted_witness:
  "\<exists>m sn. ha_loads sample_wire_json ''registration'' = Some (JObj m)
    \<and> validated_registration (float_repr sample_wire_json) m = Inr sn
    \<and> sn_tool_names sn = {''HassTurnOn''} \<and> sn_authority_id sn = ''a1''"
  using registration_is_accepted [OF sample_delivers_json sample_prepares] by (auto simp: sample_authority_def)

section \<open>A tool call\<close>

lemma with_phase_last: "t \<notin> fst ` set ps \<Longrightarrow> with_phase t p (ps @ [(t, q)]) = ps @ [(t, p)]"
  using with_phase_absent [of t ps p] by (simp add: with_phase_def)

lemma map_of_last: "t \<notin> fst ` set ps \<Longrightarrow> map_of (ps @ [(t, q)]) t = Some q"
  using map_of_eq_None_iff [of ps t] by (simp add: map_add_def)

text \<open>What the provider may count on when a call arrives.\<close>

definition ready_for_call :: "ha_json \<Rightarrow> registration_snapshot \<Rightarrow> string \<Rightarrow> string \<Rightarrow> conn \<Rightarrow> bool" where
  "ready_for_call J rs gen k c \<longleftrightarrow>
     provider_inv J rs c \<and> cn_main c = Receives \<and> cn_generation c = Some gen \<and> k \<notin> cn_seen c
     \<and> length (cn_pending c) < 16 \<and> card (cn_seen c) < 1024 \<and> \<not> cn_closed c \<and> cn_lock c = None
     \<and> wf_text gen 256 \<and> gen \<noteq> [] \<and> wf_text k 256 \<and> k \<noteq> []"

definition call_trip :: "string \<Rightarrow> nat \<Rightarrow> obj \<Rightarrow> conn_event list" where
  "call_trip text t r =
     [Delivers (TextMessage text), ToolEnds t (Returned (JObj r)), Granted (CallTask t), SendEnds (CallTask t) Written]"

lemma provider_admits:
  assumes "ready_for_call J rs gen k c" "name \<in> set (rs_tool_names rs)" "valid_tool_name name"
    and "serialized_size J (JObj args) = Inr n" "n \<le> 65536"
  shows "tool_call_event J rs (call_message gen k name args) c =
    add_task (Executes gen k name args) (admit_id k [(k, name, args)] c)"
proof -
  have len: "length name \<le> 256 \<and> \<not> has_control_character name \<and> name \<noteq> []"
  proof -
    have plain: "tool_name_char x \<Longrightarrow> \<not> (ord_of x < 32 \<and> ord_of x \<noteq> 10 \<and> ord_of x \<noteq> 9)" for x
      by (auto simp: tool_name_char_def char_classes ord_of_def)
    have first: "is_alpha_ascii x \<or> x = CHR ''_'' \<Longrightarrow> tool_name_char x" for x
      by (auto simp: tool_name_char_def is_alnum_ascii_def)
    from assms(3) have "list_all tool_name_char name" "length name \<le> 256" "name \<noteq> []"
      using first by (auto simp: valid_tool_name_def split: list.splits)
    with plain show ?thesis by (auto simp: has_control_character_def list_all_iff list_ex_iff)
  qed
  have f: "jget (call_message gen k name args) ''generation'' = JStr gen"
    "jget (call_message gen k name args) ''call_id'' = JStr k" "jget (call_message gen k name args) ''name'' = JStr name"
    "jget (call_message gen k name args) ''arguments'' = JObj args" by (simp_all add: call_message_def)
  have b: "bounded_string (JStr gen) x 256 False = Inr gen" "bounded_string (JStr k) x 256 False = Inr k"
    "bounded_tool_name (JStr name) = Inr name" for x
    using assms(1,3) len by (simp_all add: ready_for_call_def bounded_string_ok bounded_tool_name_def wf_text_def provider_bounds)
      (simp add: bounded_string_def provider_bounds)
  have admit: "admit_tool_call J rs gen k (call_message gen k name args) False = Executes gen k name args"
    using assms(2,4,5) by (simp add: admit_tool_call_def f b provider_bounds)
  show ?thesis
    using assms(1) by (simp add: tool_call_event_def ready_for_call_def handle_tool_call_def f b admit provider_bounds
        add_task_def admit_id_def Let_def)
qed

lemma provider_answers:
  assumes ready: "ready_for_call J rs gen k c" and name: "name \<in> set (rs_tool_names rs)" "valid_tool_name name"
    and args: "serialized_size J (JObj args) = Inr n" "n \<le> 65536"
    and arrives: "ha_loads J call_text = Some (JObj (call_message gen k name args))" "encoded_size call_text \<le> 262144"
    and result: "validate_tool_result J (JObj r) = Inr r"
    and answer: "dump_sorted J (JObj (result_message gen k True r)) = Inr answer_text" "encoded_size answer_text \<le> 262144"
  shows "cn_executed (run_conn J rs (call_trip call_text (cn_next_task c) r) c) = cn_executed c @ [(k, name, args)]"
    "cn_wire (run_conn J rs (call_trip call_text (cn_next_task c) r) c) =
       cn_wire c @ [ToolResult gen k True r answer_text]"
proof -
  define t where "t = cn_next_task c"
  define R where "R = ToolResult gen k True r answer_text"
  define c1 where "c1 = add_task (Executes gen k name args) (admit_id k [(k, name, args)] c)"
  have c: "cn_main c = Receives" "\<not> cn_closed c" "cn_lock c = None" "t \<notin> fst ` set (cn_pending c)"
    using ready by (auto simp: ready_for_call_def provider_inv_def conn_inv_def t_def)
  have c1: "cn_pending c1 = cn_pending c @ [(t, Executes gen k name args)]" "cn_main c1 = Receives"
    "cn_executed c1 = cn_executed c @ [(k, name, args)]" "cn_wire c1 = cn_wire c" "cn_lock c1 = None" "\<not> cn_closed c1"
    using c by (simp_all add: c1_def t_def)
  have "conn_step J rs (Delivers (TextMessage call_text)) c = c1"
    using arrives provider_admits [OF ready name args] c(1) unfolding c1_def
    by (simp add: conn_step_def receive_message_def provider_bounds receive_event_def call_message_def)
  moreover have "after_tool J gen k (Returned (JObj r)) False = Sends (AwaitsLock R)"
    using result answer by (simp add: after_tool_def judge_result_def send_tool_result_def R_def provider_bounds)
  then have "conn_step J rs (ToolEnds t (Returned (JObj r))) c1 = set_call t (Sends (AwaitsLock R)) c1"
    using c1 map_of_last [OF c(4)] by (simp add: conn_step_def)
  moreover have "conn_step J rs (Granted (CallTask t)) (set_call t (Sends (AwaitsLock R)) c1) =
      (set_call t (Sends (Writes R)) (set_call t (Sends (AwaitsLock R)) c1))\<lparr>cn_lock := Some (CallTask t), cn_wire := cn_wire c @ [R]\<rparr>"
    using c1 map_of_last [OF c(4)] with_phase_last [OF c(4)]
    by (simp add: conn_step_def send_granted_def phase_of_def set_sending_def)
  moreover have "conn_step J rs (SendEnds (CallTask t) Written)
      ((set_call t (Sends (Writes R)) (set_call t (Sends (AwaitsLock R)) c1))\<lparr>cn_lock := Some (CallTask t), cn_wire := cn_wire c @ [R]\<rparr>) =
    (set_call t Finished ((set_call t (Sends (Writes R)) (set_call t (Sends (AwaitsLock R)) c1))\<lparr>cn_lock := None, cn_wire := cn_wire c @ [R]\<rparr>))"
    using c1 map_of_last [OF c(4)] with_phase_last [OF c(4)]
    by (simp add: conn_step_def send_ends_def phase_of_def sender_done_def set_call_def)
  ultimately have "run_conn J rs (call_trip call_text t r) c =
    set_call t Finished ((set_call t (Sends (Writes R)) (set_call t (Sends (AwaitsLock R)) c1))\<lparr>cn_lock := None, cn_wire := cn_wire c @ [R]\<rparr>)"
    by (simp add: run_conn_def call_trip_def)
  then show "cn_executed (run_conn J rs (call_trip call_text (cn_next_task c) r) c) = cn_executed c @ [(k, name, args)]"
    "cn_wire (run_conn J rs (call_trip call_text (cn_next_task c) r) c) = cn_wire c @ [ToolResult gen k True r answer_text]"
    using c1 by (simp_all add: R_def flip: t_def)
qed


text \<open>The broker's side: a call it started and wrote, and the result that answers it.\<close>

lemma broker_started:
  assumes "call_start frepr k sn name args st = (Inr (), st1)"
  obtains c ws where "current st1 = Some c" "sn_generation c = sn_generation sn" "websocket st1 = Some ws"
    "map_of (pending st1) k = Some \<lparr>pc_generation = sn_generation sn, pc_future = next_future st\<rparr>"
    "futures st1 (next_future st) = Pending" "name \<in> sn_tool_names sn"
    "map_of (frames st1) k = Some \<lparr>cf_generation = sn_generation sn, cf_future = next_future st, cf_websocket = ws,
      cf_message = call_message (sn_generation sn) k name args\<rparr>"
  using assms
  by (auto simp: call_start_def authority_current_def connected_socket_def Let_def
      split: if_splits option.splits sum.splits)

lemma broker_resolves:
  assumes start: "call_start frepr k sn name args st = (Inr (), st1)"
    and answer: "jget m ''type'' = JStr ''tool_result''" "jget m ''generation'' = JStr (sn_generation sn)"
      "jget m ''call_id'' = JStr k" "jget m ''success'' = JBool True" "jget m ''result'' = v"
    and bound: "finite_json v" "length (dumps frepr v) \<le> 65536" and k: "k \<noteq> []"
  shows "\<exists>ws st3. last (outbox (snd (call_write True k st1))) = (ws, call_message (sn_generation sn) k name args)
    \<and> handle_message frepr ok ws m (snd (call_write True k st1)) = (Inr (), st3)
    \<and> fst (call_finish k Awaited duration st3) = Inr (True, v)"
proof -
  obtain c ws where st1: "current st1 = Some c" "sn_generation c = sn_generation sn" "websocket st1 = Some ws"
    "map_of (pending st1) k = Some \<lparr>pc_generation = sn_generation sn, pc_future = next_future st\<rparr>"
    "futures st1 (next_future st) = Pending"
    "map_of (frames st1) k = Some \<lparr>cf_generation = sn_generation sn, cf_future = next_future st, cf_websocket = ws,
      cf_message = call_message (sn_generation sn) k name args\<rparr>"
    by (rule broker_started [OF start]) blast
  define st2 where "st2 = snd (call_write True k st1)"
  have st2: "current st2 = Some c" "websocket st2 = Some ws" "pending st2 = pending st1" "futures st2 = futures st1"
    "frames st2 = frames st1" "outbox st2 = outbox st1 @ [(ws, call_message (sn_generation sn) k name args)]"
    using st1 by (simp_all add: st2_def call_write_def send_json_def)
  have cor: "result_correlation st2 m = Some (sn_generation sn, k, True)"
    using st2(1) st1(2) answer(2-4) k by (simp add: result_correlation_def)
  have "bounded_json frepr v MAX_TOOL_RESULT_BYTES ''tool result'' = Inr ()"
    using bound by (simp add: result_simps MAX_TOOL_RESULT_BYTES_def)
  then have "handle_message frepr ok ws m st2 = (Inr (), st2\<lparr>pending := dict_pop (pending st2) k,
      futures := (futures st2)(next_future st := Resolved True v)\<rparr>)"
    using st2 st1 answer(1,5) cor by (simp add: handle_message_def handle_tool_result_def Let_def)
  moreover have "fst (call_finish k Awaited duration (st2\<lparr>pending := dict_pop (pending st2) k,
      futures := (futures st2)(next_future st := Resolved True v)\<rparr>)) = Inr (True, v)"
    using st2 st1 by (simp add: call_finish_def call_settle_def Let_def)
  ultimately show ?thesis using st2(6) by (auto simp flip: st2_def)
qed

lemma delivered_result:
  assumes d: "json_delivers J bl deliver"
    and m: "\<And>k. map_of m k = map_option deliver (map_of (result_message g i b r) k)"
  shows "jget m ''type'' = JStr ''tool_result''" "jget m ''generation'' = JStr g" "jget m ''call_id'' = JStr i"
    "jget m ''success'' = JBool b" "jget m ''result'' = deliver (JObj r)"
  by (simp_all add: jget_def m result_message_def json_delivers_scalars [OF d])

text \<open>C3: a tool call makes the whole trip: a call the broker starts and writes to a ready provider runs the named
  tool there once with the arguments of the call, and the object the tool returned comes back, in the form JSON
  delivers it, as the outcome of the broker's call.\<close>

theorem tool_call_round_trip:
  assumes d: "json_delivers J bridge_loads deliver"
    and broker: "call_start (float_repr J) k sn name args st = (Inr (), st1)"
      "wf_snapshot (float_repr J) sn" "sn_tool_names sn = set (rs_tool_names rs)"
    and ready: "ready_for_call J rs (sn_generation sn) k c"
    and arrives: "ha_loads J call_text = Some (JObj (call_message (sn_generation sn) k name args))"
      "encoded_size call_text \<le> 262144" "serialized_size J (JObj args) = Inr n" "n \<le> 65536"
    and result: "validate_tool_result J (JObj r) = Inr r"
      "dump_sorted J (JObj (result_message (sn_generation sn) k True r)) = Inr answer_text"
      "encoded_size answer_text \<le> 262144"
  shows "\<exists>ws m st3. last (outbox (snd (call_write True k st1))) = (ws, call_message (sn_generation sn) k name args)
    \<and> cn_executed (run_conn J rs (call_trip call_text (cn_next_task c) r) c) = cn_executed c @ [(k, name, args)]
    \<and> cn_wire (run_conn J rs (call_trip call_text (cn_next_task c) r) c) =
        cn_wire c @ [ToolResult (sn_generation sn) k True r answer_text]
    \<and> bridge_loads answer_text = Some (JObj m)
    \<and> handle_message (float_repr J) ok ws m (snd (call_write True k st1)) = (Inr (), st3)
    \<and> fst (call_finish k Awaited duration st3) = Inr (True, deliver (JObj r))"
proof -
  have names: "name \<in> set (rs_tool_names rs)" using broker_started [OF broker(1)] broker(3) by metis
  have "valid_tool_name name"
    using broker(2,3) names by (auto simp: wf_snapshot_def wf_tools_def wf_tool_def list_all_iff)
  note trip = provider_answers [OF ready names this arrives(3,4,1,2) result]
  obtain m where m: "deliver (JObj (result_message (sn_generation sn) k True r)) = JObj m"
    "\<And>i. map_of m i = map_option deliver (map_of (result_message (sn_generation sn) k True r) i)"
    using json_delivers_object [OF d] by blast
  have txts: "bridge_loads answer_text = Some (JObj m)" using json_delivers_text(2) [OF d result(2)] m(1) by simp
  obtain b where "serialized_size J (JObj r) = Inr b" "b \<le> 65536"
    using result(1) by (auto simp: validate_tool_result_def provider_bounds split: sum.splits py_error.splits if_splits)
  with serialized_size_delivered [OF d] have bound: "finite_json (deliver (JObj r))"
    "length (dumps (float_repr J) (deliver (JObj r))) \<le> 65536" by auto
  have "k \<noteq> []" using ready by (simp add: ready_for_call_def)
  from broker_resolves [OF broker(1) delivered_result [OF d m(2)] bound this] txts trip show ?thesis by blast
qed


text \<open>The example's broker, registered, and its provider, ready.\<close>

definition sample_authority_snapshot :: snapshot where
  "sample_authority_snapshot = sample_snapshot\<lparr>sn_generation := ''g1''\<rparr>"

definition sample_broker :: broker where
  "sample_broker = initial_broker\<lparr>websocket := Some 0, current := Some sample_authority_snapshot\<rparr>"

definition sample_provider :: conn where
  "sample_provider = sample_conn Receives (Some ''g1'') {} [] None [] [Plain ''registration'']"

definition sample_registered :: registration_snapshot where
  "sample_registered = \<lparr>rs_serialized = ''registration'', rs_tool_names = [''HassTurnOn'']\<rparr>"

lemma sample_ready: "ready_for_call sample_wire_json sample_registered ''g1'' ''c1'' sample_provider"
  by (simp add: ready_for_call_def provider_inv_def conn_inv_def main_plain_def sample_provider_def sample_conn_sel
      answered_def outgoing_ok_def provider_bounds wf_text_def has_control_character_def ord_of_def)
    (simp add: sample_conn_def)

theorem tool_call_round_trip_witness:
  "cn_executed (run_conn sample_wire_json sample_registered (call_trip ''call'' 0 []) sample_provider)
     = [(''c1'', ''HassTurnOn'', [])]
   \<and> (\<exists>m st3. handle_message (\<lambda>_. []) True 0 m
        (snd (call_write True ''c1'' (snd (call_start (\<lambda>_. []) ''c1'' sample_authority_snapshot ''HassTurnOn'' [] sample_broker))))
        = (Inr (), st3) \<and> fst (call_finish ''c1'' Awaited 7 st3) = Inr (True, JObj []))"
proof -
  let ?J = sample_wire_json
  have J: "float_repr ?J = (\<lambda>_. [])" by (simp add: sample_wire_json_def)
  have size: "serialized_size ?J (JObj []) = Inr 2"
    by (simp add: serialized_size_def strict_size_def sample_wire_json_def dumps_strict_def)
  have gen: "sn_generation sample_authority_snapshot = ''g1''"
    and names: "sn_tool_names sample_authority_snapshot = {''HassTurnOn''}"
    by (simp_all add: sample_authority_snapshot_def sample_snapshot_def)
  define st1 where "st1 = snd (call_start (\<lambda>_. []) ''c1'' sample_authority_snapshot ''HassTurnOn'' [] sample_broker)"
  have "bounded_json (\<lambda>_. []) (JObj []) MAX_TOOL_ARGUMENT_BYTES ''tool arguments'' = Inr ()"
    by (simp add: bounded_json_def dumps_strict_def MAX_TOOL_ARGUMENT_BYTES_def)
  then have start: "call_start (\<lambda>_. []) ''c1'' sample_authority_snapshot ''HassTurnOn'' [] sample_broker = (Inr (), st1)"
    unfolding st1_def
    by (simp add: call_start_def authority_current_def connected_socket_def sample_broker_def names
        initial_broker_def MAX_PENDING_TOOL_CALLS_def Let_def)
  have wf: "wf_snapshot (\<lambda>_. []) sample_authority_snapshot"
    using validated_registration_ok [OF sample_registration_ok]
    by (simp add: wf_snapshot_def sample_authority_snapshot_def)
  have trip: "ha_loads ?J ''call'' = Some (JObj (call_message ''g1'' ''c1'' ''HassTurnOn'' []))"
    "dump_sorted ?J (JObj (result_message ''g1'' ''c1'' True [])) = Inr ''result''"
    "encoded_size ''call'' \<le> 262144" "encoded_size ''result'' \<le> 262144"
    "validate_tool_result ?J (JObj []) = Inr []"
    by (simp_all add: sample_wire_json_def sample_sizes result_message_def registration_message_def)
      (simp add: validate_tool_result_def size [unfolded sample_wire_json_def] provider_bounds)
  have start': "call_start (float_repr ?J) ''c1'' sample_authority_snapshot ''HassTurnOn'' [] sample_broker = (Inr (), st1)"
    "wf_snapshot (float_repr ?J) sample_authority_snapshot"
    "sn_tool_names sample_authority_snapshot = set (rs_tool_names sample_registered)"
    using start wf names by (simp_all add: J sample_registered_def)
  have "cn_next_task sample_provider = 0" "cn_executed sample_provider = []"
    by (simp_all add: sample_provider_def sample_conn_def)
  moreover have "fst (last (outbox (snd (call_write True ''c1'' st1)))) = 0"
    unfolding st1_def by (simp add: call_start_def authority_current_def connected_socket_def sample_broker_def names
        initial_broker_def MAX_PENDING_TOOL_CALLS_def Let_def bounded_json_def dumps_strict_def
        MAX_TOOL_ARGUMENT_BYTES_def call_write_def send_json_def)
  ultimately show ?thesis
    using tool_call_round_trip [OF sample_delivers_json start' , unfolded gen, OF sample_ready trip(1,3) size _ trip(5,2,4), of True 7]
    unfolding J st1_def [symmetric] by auto blast
qed

end
