(* ===== verification/Bridge_Client.thy ===== *)
theory Bridge_Client
  imports Audio Turn_Events
begin

text \<open>
  Home Assistant's client of the bridge, \<^verbatim>\<open>BridgeClient\<close> in \<^verbatim>\<open>custom_components/codex_voice/api.py\<close>. Each
  coroutine owns its connection and runs alone, so it is a function of what it receives: the WebSocket
  messages or body chunks, how each of its sends ends, and how its handlers end. \<^verbatim>\<open>json.loads\<close>, Home
  Assistant's \<^verbatim>\<open>JSON_DUMP\<close>, base64 and \<^verbatim>\<open>int(text)\<close> are parameters. \<open>BridgeBusyError\<close> stands for the class of
  that name of this module.
\<close>

section \<open>Constants\<close>

definition MAX_AUDIO_BYTES :: nat where "MAX_AUDIO_BYTES = 16 * 1024 * 1024"
definition MAX_SYNTHESIZED_AUDIO_BYTES :: nat where "MAX_SYNTHESIZED_AUDIO_BYTES = 50 * 1024 * 1024"
definition MAX_TOOL_CALLS :: nat where "MAX_TOOL_CALLS = 10"
definition AUDIO_STREAM_CHUNK_BYTES :: nat where "AUDIO_STREAM_CHUNK_BYTES = 64 * 1024"
definition JSON_CONTENT_TYPES :: "string list" where
  "JSON_CONTENT_TYPES = [''application/json'', ''text/json'']"
definition WAV_CONTENT_TYPES :: "string list" where
  "WAV_CONTENT_TYPES = [''audio/wav'', ''audio/wave'', ''audio/x-wav'']"
definition DEFAULT_SYNTHESIS_SAMPLE_RATE :: int where "DEFAULT_SYNTHESIS_SAMPLE_RATE = 24000"
definition DEFAULT_SYNTHESIS_CHANNELS :: int where "DEFAULT_SYNTHESIS_CHANNELS = 1"
definition DEFAULT_SYNTHESIS_SAMPLE_WIDTH :: int where "DEFAULT_SYNTHESIS_SAMPLE_WIDTH = 2"
definition SUPPORTED_SYNTHESIS_SAMPLE_RATES :: "int set" where
  "SUPPORTED_SYNTHESIS_SAMPLE_RATES = {16000, 24000}"

lemmas client_bounds =
  MAX_AUDIO_BYTES_def MAX_SYNTHESIZED_AUDIO_BYTES_def MAX_TOOL_CALLS_def AUDIO_STREAM_CHUNK_BYTES_def
  DEFAULT_SYNTHESIS_SAMPLE_RATE_def DEFAULT_SYNTHESIS_CHANNELS_def DEFAULT_SYNTHESIS_SAMPLE_WIDTH_def
  SUPPORTED_SYNTHESIS_SAMPLE_RATES_def

text \<open>\<open>{**m, **m'}\<close>.\<close>

definition merge_dict :: "obj \<Rightarrow> obj \<Rightarrow> obj" where
  "merge_dict m m' = fold (\<lambda>(k, v) d. dict_set d k v) m' m"

definition normalize_bridge_url :: "string \<Rightarrow> string" where
  "normalize_bridge_url url = rev (dropWhile (\<lambda>c. c = CHR ''/'') (rev (strip url)))"

section \<open>Errors\<close>

text \<open>The subclasses of this module's \<^verbatim>\<open>BridgeError\<close>, and the translation at the end of each request.\<close>

definition is_bridge_error :: "py_error \<Rightarrow> bool" where
  "is_bridge_error e =
     (case e of
        BridgeAuthenticationError _ \<Rightarrow> True | BridgeConnectionError _ \<Rightarrow> True | BridgeProtocolError _ \<Rightarrow> True
      | BridgeBusyError _ \<Rightarrow> True | BridgeQuotaError _ \<Rightarrow> True | BridgeStreamingUnsupported _ \<Rightarrow> True
      | _ \<Rightarrow> False)"

definition translate_error :: "string \<Rightarrow> string \<Rightarrow> py_error \<Rightarrow> py_error" where
  "translate_error timed_out failed e =
     (case e of
        TimeoutError _ \<Rightarrow> BridgeConnectionError timed_out
      | ClientError _ \<Rightarrow> BridgeConnectionError failed
      | _ \<Rightarrow> e)"

definition raise_for_status :: "int \<Rightarrow> unit result" where
  "raise_for_status status =
     (if status < 400 then Inr ()
      else if status \<in> {401, 403} then Inl (BridgeAuthenticationError ''The bridge access token was rejected'')
      else if status = 409 then Inl (BridgeBusyError ''The bridge is busy'')
      else if status = 429 then Inl (BridgeQuotaError ''The subscription quota is exhausted'')
      else if 500 \<le> status then Inl (BridgeConnectionError (''The bridge returned HTTP '' @ int_text status))
      else Inl (BridgeProtocolError (''The bridge returned HTTP '' @ int_text status)))"

definition handshake_error :: "int \<Rightarrow> py_error" where
  "handshake_error status =
     (if status \<in> {404, 405, 426}
      then BridgeStreamingUnsupported ''The bridge does not support streaming transcription''
      else if status \<in> {401, 403} then BridgeAuthenticationError ''The bridge access token was rejected''
      else if status = 409 then BridgeBusyError ''The bridge is busy''
      else if status = 429 then BridgeQuotaError ''The subscription quota is exhausted''
      else if 500 \<le> status then BridgeConnectionError (''The bridge returned HTTP '' @ int_text status)
      else BridgeProtocolError (''The bridge returned HTTP '' @ int_text status))"

definition event_error :: "obj \<Rightarrow> py_error" where
  "event_error event =
     (let code = jget event ''code'';
          message = jget_default event ''message'' (jget event ''error'');
          detail = (case text_of message of None \<Rightarrow> ''The bridge reported an error'' | Some s \<Rightarrow> s)
      in if code \<in> {JStr ''invalid_auth'', JStr ''authentication_required''} then BridgeAuthenticationError detail
         else if code \<in> {JStr ''quota_exhausted'', JStr ''rate_limited''} then BridgeQuotaError detail
         else if code \<in> {JStr ''busy'', JStr ''operation_in_progress''} then BridgeBusyError detail
         else BridgeProtocolError detail)"

section \<open>Events\<close>

text \<open>
  \<^verbatim>\<open>json.loads\<close> of a text: the value, a \<^verbatim>\<open>JSONDecodeError\<close>, or another exception (a plain
  \<^verbatim>\<open>ValueError\<close> for an integer of more than 4300 digits, a \<^verbatim>\<open>RecursionError\<close> for deep nesting).
\<close>

datatype parsed = Parsed json | NotJson | ParseFails py_error

record client_env =
  ce_parse :: "string \<Rightarrow> parsed"
  ce_dump :: "json \<Rightarrow> string result"
  ce_send :: "nat \<Rightarrow> unit result"
  ce_repr :: "pyfloat \<Rightarrow> string"

definition decode_event :: "client_env \<Rightarrow> string \<Rightarrow> obj result" where
  "decode_event E raw =
     (case ce_parse E raw of
        NotJson \<Rightarrow> Inl (BridgeProtocolError ''The bridge sent invalid WebSocket JSON'')
      | ParseFails (TypeError _) \<Rightarrow> Inl (BridgeProtocolError ''The bridge sent invalid WebSocket JSON'')
      | ParseFails e \<Rightarrow> Inl e
      | Parsed v \<Rightarrow>
          (case obj_of v of
             None \<Rightarrow> Inl (BridgeProtocolError ''The bridge WebSocket event must be an object'')
           | Some event \<Rightarrow> Inr event))"

definition serialize_conversation_message :: "client_env \<Rightarrow> obj \<Rightarrow> string result" where
  "serialize_conversation_message E payload =
     (case ce_dump E (JObj payload) of
        Inl (TypeError _) \<Rightarrow> Inl (BridgeProtocolError ''Conversation payload contains unsupported JSON values'')
      | Inl (ValueError _) \<Rightarrow> Inl (BridgeProtocolError ''Conversation payload contains unsupported JSON values'')
      | r \<Rightarrow> r)"

record bridge_tool_call =
  bt_call_id :: string
  bt_name :: string
  bt_arguments :: obj
  bt_request_id :: json

definition tool_arguments :: "client_env \<Rightarrow> obj \<Rightarrow> json result" where
  "tool_arguments E event =
     (case jget_default event ''arguments'' (jget_default event ''args'' (JObj [])) of
        JStr s \<Rightarrow>
          (case ce_parse E s of
             NotJson \<Rightarrow> Inl (BridgeProtocolError ''Tool arguments are invalid JSON'')
           | ParseFails e \<Rightarrow> Inl e
           | Parsed v \<Rightarrow> Inr v)
      | v \<Rightarrow> Inr v)"

definition valid_request_id :: "json \<Rightarrow> bool" where
  "valid_request_id v = (case v of JNull \<Rightarrow> True | JInt _ \<Rightarrow> True | JBool _ \<Rightarrow> True | JStr _ \<Rightarrow> True | _ \<Rightarrow> False)"

definition decode_tool_call :: "client_env \<Rightarrow> obj \<Rightarrow> bridge_tool_call result" where
  "decode_tool_call E event =
     bind_result (tool_arguments E event) (\<lambda>arguments.
     (case non_empty_text (jget_default event ''id'' (jget event ''call_id'')) of
        None \<Rightarrow> Inl (BridgeProtocolError ''Tool call is missing an id'')
      | Some call_id \<Rightarrow>
          (case non_empty_text (jget_default event ''name'' (jget event ''tool_name'')) of
             None \<Rightarrow> Inl (BridgeProtocolError ''Tool call is missing a name'')
           | Some name \<Rightarrow>
               (case obj_of arguments of
                  None \<Rightarrow> Inl (BridgeProtocolError ''Tool arguments must be an object'')
                | Some args \<Rightarrow>
                    if \<not> valid_request_id (jget event ''request_id'')
                    then Inl (BridgeProtocolError ''Tool call request id is invalid'')
                    else Inr \<lparr>bt_call_id = call_id, bt_name = name, bt_arguments = args,
                              bt_request_id = jget event ''request_id''\<rparr>))))"

section \<open>Conversation turns\<close>

text \<open>
  What the loop of \<^verbatim>\<open>async_converse\<close> receives; \<open>Fails\<close> is an exception raised by the wait, a \<^verbatim>\<open>ClientError\<close> or
  the \<^verbatim>\<open>TimeoutError\<close> of the request's deadline. A closing frame ends the iteration.
\<close>

datatype client_frame = TextFrame string | ErrorFrame | CloseFrame | BinaryFrame bytes | OtherFrame | Fails py_error

record talk =
  tk_sent :: "string list"
  tk_deltas :: "string list"
  tk_tools :: "bridge_tool_call list"
  tk_received_delta :: bool

definition new_talk :: talk where
  "new_talk = \<lparr>tk_sent = [], tk_deltas = [], tk_tools = [], tk_received_delta = False\<rparr>"

text \<open>The handlers the caller passes in.\<close>

record handlers =
  on_delta :: "string \<Rightarrow> unit result"
  on_tool :: "bridge_tool_call \<Rightarrow> obj result"

definition client_send :: "client_env \<Rightarrow> obj \<Rightarrow> talk \<Rightarrow> unit result \<times> talk" where
  "client_send E message s =
     (case serialize_conversation_message E message of
        Inl e \<Rightarrow> (Inl e, s)
      | Inr t \<Rightarrow>
          (case ce_send E (length (tk_sent s)) of
             Inl e \<Rightarrow> (Inl e, s)
           | Inr _ \<Rightarrow> (Inr (), s\<lparr>tk_sent := tk_sent s @ [t]\<rparr>)))"

definition hand_delta :: "handlers \<Rightarrow> string \<Rightarrow> talk \<Rightarrow> unit result \<times> talk" where
  "hand_delta H delta s = (on_delta H delta, s\<lparr>tk_deltas := tk_deltas s @ [delta]\<rparr>)"

definition client_tool_result :: "bridge_tool_call \<Rightarrow> obj \<Rightarrow> obj" where
  "client_tool_result call result =
     [(''type'', JStr ''tool_result''), (''request_id'', bt_request_id call), (''call_id'', JStr (bt_call_id call)),
      (''result'', JObj result), (''success'', JBool (\<not> has_key result ''error''))]"

text \<open>What an event does: the loop goes on (\<open>None\<close>), or the coroutine returns or raises.\<close>

definition delta_event :: "handlers \<Rightarrow> obj \<Rightarrow> talk \<Rightarrow> obj result option \<times> talk" where
  "delta_event H event s =
     (case text_of (jget_default event ''delta'' (jget_default event ''content'' (JStr []))) of
        None \<Rightarrow> (Some (Inl (BridgeProtocolError ''Conversation delta must be text'')), s)
      | Some delta \<Rightarrow>
          if delta = [] then (None, s)
          else (case hand_delta H delta (s\<lparr>tk_received_delta := True\<rparr>) of
                  (Inl e, s') \<Rightarrow> (Some (Inl e), s')
                | (Inr _, s') \<Rightarrow> (None, s')))"

definition tool_event :: "client_env \<Rightarrow> handlers \<Rightarrow> obj \<Rightarrow> talk \<Rightarrow> obj result option \<times> talk" where
  "tool_event E H event s =
     (if MAX_TOOL_CALLS < length (tk_tools s) + 1
      then (Some (Inl (BridgeProtocolError ''Conversation exceeded the tool-call limit'')), s)
      else case decode_tool_call E event of
        Inl e \<Rightarrow> (Some (Inl e), s)
      | Inr call \<Rightarrow>
          (let s1 = s\<lparr>tk_tools := tk_tools s @ [call]\<rparr> in
           case on_tool H call of
             Inl e \<Rightarrow> (Some (Inl e), s1)
           | Inr result \<Rightarrow>
               (case client_send E (client_tool_result call result) s1 of
                  (Inl e, s2) \<Rightarrow> (Some (Inl e), s2)
                | (Inr _, s2) \<Rightarrow> (None, s2))))"

definition done_event :: "handlers \<Rightarrow> obj \<Rightarrow> talk \<Rightarrow> obj result option \<times> talk" where
  "done_event H event s =
     (case jget_default event ''text'' (jget event ''content'') of
        JStr final_text \<Rightarrow>
          if tk_received_delta s \<or> final_text = [] then (Some (Inr event), s)
          else (case hand_delta H final_text s of
                  (Inl e, s') \<Rightarrow> (Some (Inl e), s')
                | (Inr _, s') \<Rightarrow> (Some (Inr event), s'))
      | _ \<Rightarrow> (Some (Inr event), s))"

definition ignored_events :: "string list" where
  "ignored_events = [''started'', ''start'', ''item'', ''event'', ''pong'']"

definition unknown_event :: "client_env \<Rightarrow> json \<Rightarrow> py_error" where
  "unknown_event E kind = BridgeProtocolError (''Unknown conversation event: '' @ py_repr (ce_repr E) kind)"

definition conversation_event :: "client_env \<Rightarrow> handlers \<Rightarrow> obj \<Rightarrow> talk \<Rightarrow> obj result option \<times> talk" where
  "conversation_event E H event s =
     (let kind = jget event ''type'' in
      if kind = JStr ''delta'' then delta_event H event s
      else if kind = JStr ''tool_call'' then tool_event E H event s
      else if kind = JStr ''done'' then done_event H event s
      else if kind = JStr ''error'' then (Some (Inl (event_error event)), s)
      else case text_of kind of
        None \<Rightarrow> (Some (Inl (unknown_event E kind)), s)
      | Some k \<Rightarrow>
          if k \<in> set ignored_events then (None, s)
          else (Some (Inl (unknown_event E kind)), s))"

definition conversation_frame :: "client_env \<Rightarrow> handlers \<Rightarrow> client_frame \<Rightarrow> talk \<Rightarrow> obj result option \<times> talk" where
  "conversation_frame E H frame s =
     (case frame of
        ErrorFrame \<Rightarrow> (Some (Inl (BridgeConnectionError ''The Codex bridge WebSocket failed'')), s)
      | CloseFrame \<Rightarrow>
          (Some (Inl (BridgeConnectionError ''The conversation connection closed unexpectedly'')), s)
      | Fails e \<Rightarrow> (Some (Inl e), s)
      | TextFrame raw \<Rightarrow>
          (case decode_event E raw of
             Inl e \<Rightarrow> (Some (Inl e), s)
           | Inr event \<Rightarrow> conversation_event E H event s)
      | _ \<Rightarrow> (None, s))"

text \<open>The loop over the frames received so far; \<open>None\<close> while the coroutine still waits for the next one.\<close>

fun conversation_loop ::
    "client_env \<Rightarrow> handlers \<Rightarrow> client_frame list \<Rightarrow> talk \<Rightarrow> obj result option \<times> talk" where
  "conversation_loop E H [] s = (None, s)"
| "conversation_loop E H (frame # frames) s =
     (case conversation_frame E H frame s of
        (None, s') \<Rightarrow> conversation_loop E H frames s'
      | (Some r, s') \<Rightarrow> (Some r, s'))"

definition conversation_error :: "py_error \<Rightarrow> py_error" where
  "conversation_error =
     translate_error ''The conversation request timed out'' ''The conversation connection failed''"

definition converse ::
    "client_env \<Rightarrow> handlers \<Rightarrow> obj \<Rightarrow> client_frame list \<Rightarrow> obj result option \<times> talk" where
  "converse E H start frames =
     (case serialize_conversation_message E (merge_dict [(''type'', JStr ''start'')] start) of
        Inl e \<Rightarrow> (Some (Inl e), new_talk)
      | Inr t \<Rightarrow>
          (case ce_send E 0 of
             Inl e \<Rightarrow> (Some (Inl (conversation_error e)), new_talk)
           | Inr _ \<Rightarrow>
               (case conversation_loop E H frames (new_talk\<lparr>tk_sent := [t]\<rparr>) of
                  (Some (Inl e), s) \<Rightarrow> (Some (Inl (conversation_error e)), s)
                | r \<Rightarrow> r)))"


section \<open>Transcription\<close>

text \<open>\<open>OSError\<close> stands for its subclass \<^verbatim>\<open>ConnectionError\<close>.\<close>

definition transcription_error :: "py_error \<Rightarrow> py_error" where
  "transcription_error e =
     (case translate_error ''Speech transcription timed out'' ''Speech transcription failed'' e of
        OSError _ \<Rightarrow> BridgeConnectionError ''Speech transcription failed''
      | e' \<Rightarrow> e')"

definition positive_int_field :: "obj \<Rightarrow> string \<Rightarrow> int result" where
  "positive_int_field m key =
     (case strict_int_of (jget m key) of
        None \<Rightarrow> Inl (BridgeProtocolError (''Transcription '' @ key @ '' must be a positive integer''))
      | Some v \<Rightarrow>
          if v \<le> 0 then Inl (BridgeProtocolError (''Transcription '' @ key @ '' must be a positive integer''))
          else Inr v)"

definition transcription_start :: "obj \<Rightarrow> string option \<Rightarrow> obj result" where
  "transcription_start metadata prompt =
     bind_result (positive_int_field metadata ''sample_rate'') (\<lambda>sample_rate.
     bind_result (positive_int_field metadata ''bit_rate'') (\<lambda>bit_rate.
     bind_result (positive_int_field metadata ''channels'') (\<lambda>channels.
     (case non_empty_text (jget metadata ''language'') of
        None \<Rightarrow> Inl (BridgeProtocolError ''Transcription language must be text'')
      | Some language \<Rightarrow>
          Inr ([(''type'', JStr ''start''), (''protocol_version'', JInt 1), (''format'', JStr ''pcm''),
                (''codec'', JStr ''pcm''), (''sample_rate'', JInt sample_rate), (''bit_rate'', JInt bit_rate),
                (''channels'', JInt channels), (''language'', JStr language)]
               @ (case prompt of None \<Rightarrow> [] | Some t \<Rightarrow> if t = [] then [] else [(''prompt'', JStr t)]))))))"

text \<open>The private v1 opt-in of a speech handoff: the voice and language of a request made for this client.\<close>

definition add_handoff_request :: "(string \<times> string) option \<Rightarrow> obj \<Rightarrow> obj" where
  "add_handoff_request request payload =
     (case request of
        None \<Rightarrow> payload
      | Some (voice, language) \<Rightarrow>
          dict_set payload ''speech_session_handoff''
            (JObj [(''version'', JInt 1), (''voice'', JStr voice), (''language'', JStr language)]))"

definition validate_transcription_started :: "obj \<Rightarrow> unit result" where
  "validate_transcription_started event =
     (if jget event ''type'' \<noteq> JStr ''started''
      then Inl (BridgeProtocolError ''Transcription stream did not begin with a started event'')
      else if strict_int_of (jget event ''protocol_version'') \<noteq> Some 1
      then Inl (BridgeProtocolError ''Transcription stream used an incompatible protocol version'')
      else Inr ())"

definition decode_transcription_result :: "obj \<Rightarrow> string result" where
  "decode_transcription_result event =
     (if jget event ''type'' \<noteq> JStr ''result''
      then Inl (BridgeProtocolError ''Transcription stream did not return a result event'')
      else case text_of (jget event ''text'') of
        None \<Rightarrow> Inl (BridgeProtocolError ''Transcription result did not contain text'')
      | Some words \<Rightarrow>
          if has_key event ''language'' \<and> text_of (jget event ''language'') = None
          then Inl (BridgeProtocolError ''Transcription result language must be text'')
          else Inr words)"

text \<open>\<^verbatim>\<open>_receive_transcription_event\<close>: the event and the frames after it; \<open>None\<close> while it waits.\<close>

fun receive_transcription_event :: "client_env \<Rightarrow> client_frame list \<Rightarrow> obj result option \<times> client_frame list" where
  "receive_transcription_event E [] = (None, [])"
| "receive_transcription_event E (TextFrame raw # frames) =
     (Some (bind_result (decode_event E raw) (\<lambda>event.
        if jget event ''type'' = JStr ''error'' then Inl (event_error event) else Inr event)), frames)"
| "receive_transcription_event E (ErrorFrame # frames) =
     (Some (Inl (BridgeConnectionError ''The transcription WebSocket connection failed'')), frames)"
| "receive_transcription_event E (CloseFrame # frames) =
     (Some (Inl (BridgeConnectionError ''The transcription WebSocket closed unexpectedly'')), frames)"
| "receive_transcription_event E (BinaryFrame data # frames) =
     (Some (Inl (BridgeProtocolError ''The transcription WebSocket returned unexpected binary data'')), frames)"
| "receive_transcription_event E (Fails e # frames) = (Some (Inl e), frames)"
| "receive_transcription_event E (OtherFrame # frames) = receive_transcription_event E frames"

text \<open>What the caller's audio stream gives: chunks of bytes, or an exception.\<close>

datatype audio_input = Chunk bytes | NotBytes | StreamRaises py_error

text \<open>The frames one chunk is cut into.\<close>

fun cut_frames :: "nat \<Rightarrow> bytes \<Rightarrow> bytes list" where
  "cut_frames n data = (if n = 0 \<or> data = [] then [] else take n data # cut_frames n (drop n data))"

declare cut_frames.simps [simp del]

fun send_frames :: "(nat \<Rightarrow> unit result) \<Rightarrow> bytes list \<Rightarrow> bytes list \<Rightarrow> unit result \<times> bytes list" where
  "send_frames send [] sent = (Inr (), sent)"
| "send_frames send (frame # frames) sent =
     (case send (length sent) of
        Inl e \<Rightarrow> (Inl e, sent)
      | Inr _ \<Rightarrow> send_frames send frames (sent @ [frame]))"

record upload =
  up_total :: nat
  up_pending :: bytes
  up_frames :: "bytes list"

definition upload_chunk :: "(nat \<Rightarrow> unit result) \<Rightarrow> bytes \<Rightarrow> upload \<Rightarrow> unit result \<times> upload" where
  "upload_chunk send chunk u =
     (if chunk = [] then (Inr (), u)
      else
        let u1 = u\<lparr>up_total := up_total u + length chunk\<rparr>
        in if MAX_AUDIO_BYTES < up_total u1
           then (Inl (BridgeProtocolError ''Audio input exceeds the 16 MiB limit''), u1)
           else
             let chunk' = up_pending u1 @ chunk;
                 complete_bytes = length chunk' - length chunk' mod 2
             in (case send_frames send (cut_frames AUDIO_STREAM_CHUNK_BYTES (take complete_bytes chunk')) (up_frames u1) of
                   (Inl e, sent) \<Rightarrow> (Inl e, u1\<lparr>up_frames := sent\<rparr>)
                 | (Inr _, sent) \<Rightarrow>
                     (Inr (), u1\<lparr>up_frames := sent, up_pending := drop complete_bytes chunk'\<rparr>)))"

fun upload_audio :: "(nat \<Rightarrow> unit result) \<Rightarrow> audio_input list \<Rightarrow> upload \<Rightarrow> unit result \<times> upload" where
  "upload_audio send [] u =
     (if up_pending u \<noteq> []
      then (Inl (BridgeProtocolError ''Transcription audio contained incomplete PCM16 data''), u)
      else (Inr (), u))"
| "upload_audio send (NotBytes # rest) u =
     (Inl (BridgeProtocolError ''Transcription audio chunks must be bytes''), u)"
| "upload_audio send (StreamRaises e # rest) u = (Inl e, u)"
| "upload_audio send (Chunk chunk # rest) u =
     (case upload_chunk send chunk u of
        (Inl e, u') \<Rightarrow> (Inl e, u')
      | (Inr _, u') \<Rightarrow> upload_audio send rest u')"

definition new_upload :: upload where
  "new_upload = \<lparr>up_total = 0, up_pending = [], up_frames = []\<rparr>"

text \<open>
  \<^verbatim>\<open>async_transcribe_stream\<close> after its start message was sent: \<open>frames\<close> are what the bridge sends, \<open>audio\<close>
  what the caller streams once the acknowledgement was accepted, \<open>finish\<close> how the send of the end message
  ends. The result is the final event and its text.
\<close>

definition transcribe_stream ::
    "client_env \<Rightarrow> client_frame list \<Rightarrow> audio_input list \<Rightarrow> unit result \<Rightarrow> (obj \<times> string) result option \<times> upload" where
  "transcribe_stream E frames audio finish =
     (let failed = (\<lambda>e. Some (Inl (transcription_error e))) in
      case receive_transcription_event E frames of
        (None, _) \<Rightarrow> (None, new_upload)
      | (Some (Inl e), _) \<Rightarrow> (failed e, new_upload)
      | (Some (Inr started), frames1) \<Rightarrow>
          (case validate_transcription_started started of
             Inl e \<Rightarrow> (failed e, new_upload)
           | Inr _ \<Rightarrow>
               (case upload_audio (ce_send E) audio new_upload of
                  (Inl e, u) \<Rightarrow> (failed e, u)
                | (Inr _, u) \<Rightarrow>
                    (case finish of
                       Inl e \<Rightarrow> (failed e, u)
                     | Inr _ \<Rightarrow>
                         (case receive_transcription_event E frames1 of
                            (None, _) \<Rightarrow> (None, u)
                          | (Some (Inl e), _) \<Rightarrow> (failed e, u)
                          | (Some (Inr event), _) \<Rightarrow>
                              (case decode_transcription_result event of
                                 Inl e \<Rightarrow> (failed e, u)
                               | Inr words \<Rightarrow> (Some (Inr (event, words)), u)))))))"

section \<open>Synthesis\<close>

definition client_wav_header :: "int \<Rightarrow> int \<Rightarrow> int \<Rightarrow> bytes" where
  "client_wav_header sample_rate channels sample_width =
     (let block_align = channels * sample_width in
      ascii_bytes ''RIFF'' @ le_bytes 4 4294967295 @ ascii_bytes ''WAVE'' @ ascii_bytes ''fmt '' @ le_bytes 4 16 @
      le_bytes 2 1 @ le_bytes 2 (nat channels) @ le_bytes 4 (nat sample_rate) @
      le_bytes 4 (nat (sample_rate * block_align)) @ le_bytes 2 (nat block_align) @ le_bytes 2 (nat (sample_width * 8)) @
      ascii_bytes ''data'' @ le_bytes 4 4294967295)"

definition STREAMING_WAV_HEADER :: bytes where
  "STREAMING_WAV_HEADER =
     client_wav_header DEFAULT_SYNTHESIS_SAMPLE_RATE DEFAULT_SYNTHESIS_CHANNELS DEFAULT_SYNTHESIS_SAMPLE_WIDTH"

definition optional_int :: "(string \<Rightarrow> int option) \<Rightarrow> string \<Rightarrow> json \<Rightarrow> int option result" where
  "optional_int int_of key v =
     (case v of
        JNull \<Rightarrow> Inr None
      | JInt i \<Rightarrow> Inr (Some i)
      | JStr s \<Rightarrow>
          (case int_of s of
             None \<Rightarrow> Inl (BridgeProtocolError (''Synthesis '' @ key @ '' must be an integer''))
           | Some i \<Rightarrow> Inr (Some i))
      | _ \<Rightarrow> Inl (BridgeProtocolError (''Synthesis '' @ key @ '' must be an integer'')))"

definition validate_synthesis_audio_preferences ::
    "(string \<Rightarrow> int option) \<Rightarrow> json \<Rightarrow> json \<Rightarrow> json \<Rightarrow> (int option \<times> int option \<times> int option) result" where
  "validate_synthesis_audio_preferences int_of sample_rate channels sample_width =
     bind_result (optional_int int_of ''sample_rate'' sample_rate) (\<lambda>rate.
     bind_result (optional_int int_of ''channels'' channels) (\<lambda>chans.
     bind_result (optional_int int_of ''sample_width'' sample_width) (\<lambda>width.
     if rate \<noteq> None \<and> the rate \<notin> SUPPORTED_SYNTHESIS_SAMPLE_RATES
     then Inl (BridgeProtocolError ''Synthesis sample_rate must be 16000 or 24000'')
     else if chans \<noteq> None \<and> the chans \<noteq> 1 then Inl (BridgeProtocolError ''Synthesis channels must be 1'')
     else if width \<noteq> None \<and> the width \<noteq> 2 then Inl (BridgeProtocolError ''Synthesis sample_width must be 2'')
     else Inr (rate, chans, width))))"

definition optional_text_field :: "string \<Rightarrow> string option \<Rightarrow> obj" where
  "optional_text_field key v = (case v of None \<Rightarrow> [] | Some t \<Rightarrow> if t = [] then [] else [(key, JStr t)])"

definition optional_int_field :: "string \<Rightarrow> int option \<Rightarrow> obj" where
  "optional_int_field key v = (case v of None \<Rightarrow> [] | Some i \<Rightarrow> [(key, JInt i)])"

definition synthesis_payload ::
    "string \<Rightarrow> string \<Rightarrow> string \<Rightarrow> string option \<Rightarrow> string option \<Rightarrow> int option \<times> int option \<times> int option \<Rightarrow> obj" where
  "synthesis_payload words language voice instructions token preferences =
     (case preferences of (rate, chans, width) \<Rightarrow>
        [(''text'', JStr words), (''language'', JStr language), (''voice'', JStr voice), (''format'', JStr ''wav'')]
        @ optional_text_field ''instructions'' instructions
        @ optional_text_field ''speech_session_handoff_token'' token
        @ optional_int_field ''sample_rate'' rate @ optional_int_field ''channels'' chans
        @ optional_int_field ''sample_width'' width)"

text \<open>\<open>value or default\<close>: zero is false, too.\<close>

definition or_default :: "int option \<Rightarrow> int \<Rightarrow> int" where
  "or_default v d = (case v of None \<Rightarrow> d | Some i \<Rightarrow> if i = 0 then d else i)"

text \<open>An HTTP response: its status, type, announced length, JSON body and body chunks with how they end.\<close>

record response =
  rp_status :: int
  rp_content_type :: string
  rp_content_length :: "nat option"
  rp_json :: parsed
  rp_chunks :: "bytes list"
  rp_body_end :: "unit result"

definition too_much_audio :: py_error where
  "too_much_audio = BridgeProtocolError ''Synthesized audio exceeds the 50 MiB limit''"

definition invalid_wav_stream :: py_error where
  "invalid_wav_stream = BridgeProtocolError ''Synthesis stream was not a valid WAV file''"

definition validate_streaming_wav_header :: "bytes \<Rightarrow> bytes list \<Rightarrow> unit result" where
  "validate_streaming_wav_header audio expected_headers =
     (if length audio < length STREAMING_WAV_HEADER + 2 then Inl invalid_wav_stream
      else if \<not> list_ex (\<lambda>h. take (length h) audio = h) expected_headers then Inl invalid_wav_stream
      else Inr ())"

record wav_stream =
  ws_total :: nat
  ws_header :: bytes
  ws_validated :: bool
  ws_yielded :: "bytes list"

definition wav_chunk :: "bytes list \<Rightarrow> nat \<Rightarrow> bytes \<Rightarrow> wav_stream \<Rightarrow> unit result \<times> wav_stream" where
  "wav_chunk headers preamble_bytes chunk w =
     (if chunk = [] then (Inr (), w)
      else
        let w1 = w\<lparr>ws_total := ws_total w + length chunk\<rparr>
        in if MAX_SYNTHESIZED_AUDIO_BYTES < ws_total w1 then (Inl too_much_audio, w1)
           else if ws_validated w1 then (Inr (), w1\<lparr>ws_yielded := ws_yielded w1 @ [chunk]\<rparr>)
           else
             let w2 = w1\<lparr>ws_header := ws_header w1 @ chunk\<rparr>
             in if length (ws_header w2) < preamble_bytes then (Inr (), w2)
                else (case validate_streaming_wav_header (ws_header w2) headers of
                        Inl e \<Rightarrow> (Inl e, w2)
                      | Inr _ \<Rightarrow>
                          (Inr (), w2\<lparr>ws_validated := True, ws_yielded := ws_yielded w2 @ [ws_header w2]\<rparr>)))"

fun wav_chunks :: "bytes list \<Rightarrow> nat \<Rightarrow> bytes list \<Rightarrow> wav_stream \<Rightarrow> unit result \<times> wav_stream" where
  "wav_chunks headers preamble_bytes [] w = (Inr (), w)"
| "wav_chunks headers preamble_bytes (chunk # chunks) w =
     (case wav_chunk headers preamble_bytes chunk w of
        (Inl e, w') \<Rightarrow> (Inl e, w')
      | (Inr _, w') \<Rightarrow> wav_chunks headers preamble_bytes chunks w')"

definition new_wav_stream :: wav_stream where
  "new_wav_stream = \<lparr>ws_total = 0, ws_header = [], ws_validated = False, ws_yielded = []\<rparr>"

definition synthesis_error :: "py_error \<Rightarrow> py_error" where
  "synthesis_error = translate_error ''Speech synthesis failed'' ''Speech synthesis failed''"

definition acceptable_headers :: "bytes \<Rightarrow> bytes list" where
  "acceptable_headers expected =
     (if expected = STREAMING_WAV_HEADER then [expected] else [expected, STREAMING_WAV_HEADER])"

definition wav_stream_end :: "bytes list \<Rightarrow> nat \<Rightarrow> nat \<Rightarrow> wav_stream \<Rightarrow> unit result" where
  "wav_stream_end headers header_bytes frame_bytes w =
     bind_result (if ws_validated w then Inr () else validate_streaming_wav_header (ws_header w) headers) (\<lambda>_.
     raise_if ((int (ws_total w) - int header_bytes) mod int frame_bytes \<noteq> 0)
       (BridgeProtocolError ''Synthesis stream contained an incomplete audio frame''))"

text \<open>\<^verbatim>\<open>async_synthesize_stream\<close> on a response: what it yielded, and how it ended.\<close>

definition stream_response :: "int option \<times> int option \<times> int option \<Rightarrow> response \<Rightarrow> unit result \<times> bytes list" where
  "stream_response preferences r =
     (case preferences of (rate, chans, width) \<Rightarrow>
      let rate' = or_default rate DEFAULT_SYNTHESIS_SAMPLE_RATE;
          chans' = or_default chans DEFAULT_SYNTHESIS_CHANNELS;
          width' = or_default width DEFAULT_SYNTHESIS_SAMPLE_WIDTH;
          expected = client_wav_header rate' chans' width';
          headers = acceptable_headers expected;
          frame_bytes = nat (chans' * width');
          preamble_bytes = length expected + frame_bytes
      in case raise_for_status (rp_status r) of
           Inl e \<Rightarrow> (Inl e, [])
         | Inr _ \<Rightarrow>
             if lower (rp_content_type r) \<notin> set WAV_CONTENT_TYPES
             then (Inl (BridgeProtocolError (''Synthesis stream returned unsupported content type ''
                     @ repr_text (lower (rp_content_type r)))), [])
             else if rp_content_length r \<noteq> None \<and> MAX_SYNTHESIZED_AUDIO_BYTES < the (rp_content_length r)
             then (Inl too_much_audio, [])
             else
               (case wav_chunks headers preamble_bytes (rp_chunks r) new_wav_stream of
                  (Inl e, w) \<Rightarrow> (Inl e, ws_yielded w)
                | (Inr _, w) \<Rightarrow>
                    (case bind_result (rp_body_end r)
                            (\<lambda>_. wav_stream_end headers (length expected) frame_bytes w) of
                       Inl e \<Rightarrow> (Inl (synthesis_error e), ws_yielded w)
                     | Inr _ \<Rightarrow> (Inr (), ws_yielded w))))"

subsection \<open>One response\<close>

record bridge_audio =
  ba_data :: bytes
  ba_format :: string
  ba_sample_rate :: int
  ba_channels :: int
  ba_sample_width :: int

definition validate_wav_header :: "bytes \<Rightarrow> unit result" where
  "validate_wav_header audio =
     raise_if (length audio < 12 \<or> take 4 audio \<noteq> ascii_bytes ''RIFF''
         \<or> take 4 (drop 8 audio) \<noteq> ascii_bytes ''WAVE'')
       (BridgeProtocolError ''Synthesis response was not a valid WAV file'')"

definition validate_audio_size :: "bytes \<Rightarrow> unit result" where
  "validate_audio_size audio = raise_if (MAX_SYNTHESIZED_AUDIO_BYTES < length audio) too_much_audio"

definition positive_int :: "obj \<Rightarrow> string \<Rightarrow> int \<Rightarrow> int result" where
  "positive_int payload key d =
     (case strict_int_of (jget_default payload key (JInt d)) of
        None \<Rightarrow> Inl (BridgeProtocolError (''Synthesis '' @ key @ '' must be a positive integer''))
      | Some v \<Rightarrow>
          if v \<le> 0 then Inl (BridgeProtocolError (''Synthesis '' @ key @ '' must be a positive integer''))
          else Inr v)"

definition decode_audio_json :: "(string \<Rightarrow> bytes option) \<Rightarrow> obj \<Rightarrow> bridge_audio result" where
  "decode_audio_json b64decode payload =
     (case text_of (jget payload ''audio'') of
        None \<Rightarrow> Inl (BridgeProtocolError ''Synthesis response did not contain audio'')
      | Some encoded_audio \<Rightarrow>
          (case b64decode encoded_audio of
             None \<Rightarrow> Inl (BridgeProtocolError ''Synthesis audio was not valid base64'')
           | Some audio \<Rightarrow>
               bind_result (validate_audio_size audio) (\<lambda>_.
               (case text_of (jget_default payload ''format'' (JStr ''pcm'')) of
                  None \<Rightarrow> Inl (BridgeProtocolError ''Synthesis audio format must be text'')
                | Some audio_format \<Rightarrow>
                    bind_result (if lower audio_format \<in> {''wav'', ''wave''} then validate_wav_header audio
                                 else Inr ()) (\<lambda>_.
                    bind_result (positive_int payload ''sample_rate'' 24000) (\<lambda>rate.
                    bind_result (positive_int payload ''channels'' 1) (\<lambda>chans.
                    bind_result (positive_int payload ''sample_width'' 2) (\<lambda>width.
                    Inr \<lparr>ba_data = audio, ba_format = lower audio_format, ba_sample_rate = rate,
                         ba_channels = chans, ba_sample_width = width\<rparr>))))))))"

definition read_json :: "response \<Rightarrow> obj result" where
  "read_json r =
     (case rp_json r of
        NotJson \<Rightarrow> Inl (BridgeProtocolError ''The bridge returned invalid JSON'')
      | ParseFails (ValueError _) \<Rightarrow> Inl (BridgeProtocolError ''The bridge returned invalid JSON'')
      | ParseFails e \<Rightarrow> Inl e
      | Parsed v \<Rightarrow>
          (case obj_of v of
             None \<Rightarrow> Inl (BridgeProtocolError ''The bridge JSON response must be an object'')
           | Some m \<Rightarrow> Inr m))"

fun read_bounded_audio :: "bytes list \<Rightarrow> bytes \<Rightarrow> bytes result" where
  "read_bounded_audio [] audio = Inr audio"
| "read_bounded_audio (chunk # chunks) audio =
     (if MAX_SYNTHESIZED_AUDIO_BYTES < length (audio @ chunk) then Inl too_much_audio
      else read_bounded_audio chunks (audio @ chunk))"

definition synthesize_response :: "(string \<Rightarrow> bytes option) \<Rightarrow> response \<Rightarrow> bridge_audio result" where
  "synthesize_response b64decode r =
     bind_result (raise_for_status (rp_status r)) (\<lambda>_.
     let content_type = lower (rp_content_type r) in
     if content_type \<in> set JSON_CONTENT_TYPES
     then bind_result (read_json r) (decode_audio_json b64decode)
     else if content_type \<notin> set WAV_CONTENT_TYPES
     then Inl (BridgeProtocolError (''Synthesis returned unsupported content type '' @ repr_text content_type))
     else bind_result (read_bounded_audio (rp_chunks r) []) (\<lambda>audio.
       bind_result (case rp_body_end r of Inl e \<Rightarrow> Inl (synthesis_error e) | Inr u \<Rightarrow> Inr u) (\<lambda>_.
       bind_result (validate_wav_header audio) (\<lambda>_.
       Inr \<lparr>ba_data = audio, ba_format = ''wav'', ba_sample_rate = 24000, ba_channels = 1, ba_sample_width = 2\<rparr>))))"

subsection \<open>Health and one-shot transcription\<close>

definition health_response :: "response \<Rightarrow> obj result" where
  "health_response r =
     bind_result (raise_for_status (rp_status r)) (\<lambda>_.
     bind_result (read_json r) (\<lambda>payload.
     if jget payload ''status'' \<in> {JNull, JStr ''ok'', JStr ''ready''} then Inr payload
     else Inl (BridgeConnectionError ''The Codex bridge is not ready'')))"

definition transcribe_payload ::
    "(bytes \<Rightarrow> string) \<Rightarrow> bytes \<Rightarrow> obj \<Rightarrow> string option \<Rightarrow> (string \<times> string) option \<Rightarrow> obj result" where
  "transcribe_payload b64encode audio metadata prompt request =
     (if MAX_AUDIO_BYTES < length audio
      then Inl (BridgeProtocolError ''Audio input exceeds the 16 MiB limit'')
      else Inr (add_handoff_request request
        (fold (\<lambda>(k, v) m. dict_set m k v) (optional_text_field ''prompt'' prompt)
          (merge_dict [(''audio'', JStr (b64encode audio)), (''encoding'', JStr ''base64''), (''format'', JStr ''pcm'')]
            metadata))))"

definition post_json_response :: "response \<Rightarrow> obj result" where
  "post_json_response r = bind_result (raise_for_status (rp_status r)) (\<lambda>_. read_json r)"

definition transcribe_response :: "response \<Rightarrow> string result" where
  "transcribe_response r =
     bind_result (post_json_response r) (\<lambda>payload.
     (case text_of (jget_default payload ''text'' (jget payload ''transcript'')) of
        None \<Rightarrow> Inl (BridgeProtocolError ''Transcription response did not contain text'')
      | Some words \<Rightarrow> Inr words))"

end
