(* ===== verification/Bridge_Client_Safety.thy ===== *)
theory Bridge_Client_Safety
  imports Bridge_Client Json_Transport
begin

text \<open>
  Laws of the bridge's client: the audio it uploads is the audio it was given, the WAV stream it passes on is
  the one the bridge writes, a tool call of the bridge is answered once with what its tool returned, and only
  the module's own errors leave a conversation.
\<close>

section \<open>Uploading audio\<close>

lemma concat_cut_frames: "0 < n \<Longrightarrow> concat (cut_frames n data) = data"
  by (induction n data rule: cut_frames.induct) (simp add: cut_frames.simps)

definition good_frame :: "bytes \<Rightarrow> bool" where
  "good_frame f \<longleftrightarrow> f \<noteq> [] \<and> even (length f) \<and> length f \<le> AUDIO_STREAM_CHUNK_BYTES"

lemma cut_frames_good:
  "even n \<Longrightarrow> 0 < n \<Longrightarrow> even (length data) \<Longrightarrow>
   list_all (\<lambda>f. f \<noteq> [] \<and> even (length f) \<and> length f \<le> n) (cut_frames n data)"
proof (induction n data rule: cut_frames.induct)
  case (1 n data)
  show ?case
  proof (cases "data = []")
    case True
    then show ?thesis by (simp add: cut_frames.simps)
  next
    case False
    have "even (length (take n data))" using 1(2,4) by (simp add: min_def)
    moreover have "even (length (drop n data))" using 1(2,4) by (cases "n \<le> length data") auto
    ultimately show ?thesis using 1 False by (simp add: cut_frames.simps)
  qed
qed

lemma send_frames_result:
  "send_frames send frames sent = (r, sent') \<Longrightarrow>
   (\<exists>k \<le> length frames. sent' = sent @ take k frames \<and> (is_ok r \<longrightarrow> k = length frames))"
proof (induction frames arbitrary: sent)
  case (Cons f frames)
  show ?case
  proof (cases "send (length sent)")
    case (Inl e)
    with Cons.prems have "r = Inl e" "sent' = sent" by auto
    then show ?thesis by (intro exI [of _ 0]) simp
  next
    case (Inr u)
    with Cons.prems have "send_frames send frames (sent @ [f]) = (r, sent')" by simp
    from Cons.IH [OF this] obtain k where "k \<le> length frames" "sent' = (sent @ [f]) @ take k frames"
      "is_ok r \<longrightarrow> k = length frames" by blast
    then show ?thesis by (intro exI [of _ "Suc k"]) auto
  qed
qed simp

lemma send_frames_all: "(\<And>n. is_ok (send n)) \<Longrightarrow> send_frames send frames sent = (Inr (), sent @ frames)"
  by (induction frames arbitrary: sent) (auto simp: is_ok_iff split: sum.splits)

text \<open>What has been streamed in so far, and what became of it.\<close>

definition upload_inv :: "bytes \<Rightarrow> upload \<Rightarrow> bool" where
  "upload_inv streamed u \<longleftrightarrow>
     concat (up_frames u) @ up_pending u = streamed \<and> up_total u = length streamed \<and> length (up_pending u) \<le> 1
     \<and> up_total u \<le> MAX_AUDIO_BYTES \<and> list_all good_frame (up_frames u)"

lemma upload_inv_new: "upload_inv [] new_upload"
  by (simp add: upload_inv_def new_upload_def)

lemma good_frames_even: "list_all good_frame fs \<Longrightarrow> even (length (concat fs))"
  by (induction fs) (auto simp: good_frame_def)

lemma upload_inv_parity: "upload_inv streamed u \<Longrightarrow> up_pending u = [] \<longleftrightarrow> even (length streamed)"
proof -
  assume inv: "upload_inv streamed u"
  then have s: "length streamed = length (concat (up_frames u)) + length (up_pending u)" "length (up_pending u) \<le> 1"
    by (auto simp: upload_inv_def simp flip: length_append)
  have "even (length (concat (up_frames u)))" using inv good_frames_even by (simp add: upload_inv_def)
  with s show ?thesis by (cases "up_pending u") auto
qed

text \<open>The frames sent are a part of what was streamed, whether the upload failed or not.\<close>

definition upload_sent :: "bytes \<Rightarrow> upload \<Rightarrow> bool" where
  "upload_sent streamed u \<longleftrightarrow> (\<exists>rest. streamed = concat (up_frames u) @ rest) \<and> list_all good_frame (up_frames u)"

lemma upload_inv_sent: "upload_inv streamed u \<Longrightarrow> upload_sent (streamed @ more_bytes) u"
  by (auto simp: upload_inv_def upload_sent_def)

lemma upload_sent_append: "upload_sent streamed u \<Longrightarrow> upload_sent (streamed @ more_bytes) u"
  unfolding upload_sent_def by auto

lemma upload_chunk_result:
  assumes inv: "upload_inv streamed u" and step: "upload_chunk send chunk u = (r, u')"
  shows "upload_sent (streamed @ chunk) u' \<and> (is_ok r \<longrightarrow> upload_inv (streamed @ chunk) u')
    \<and> ((\<forall>n. is_ok (send n)) \<longrightarrow> \<not> is_ok r \<longrightarrow> MAX_AUDIO_BYTES < length (streamed @ chunk))"
proof (cases "chunk = []")
  case True
  with inv step show ?thesis using upload_inv_sent [OF inv, of "[]"] by (auto simp: upload_chunk_def)
next
  case False
  have total: "up_total u = length streamed" using inv by (simp add: upload_inv_def)
  show ?thesis
  proof (cases "MAX_AUDIO_BYTES < up_total u + length chunk")
    case True
    with False step have "r = Inl (BridgeProtocolError ''Audio input exceeds the 16 MiB limit'')"
      "u' = u\<lparr>up_total := up_total u + length chunk\<rparr>" by (simp_all add: upload_chunk_def)
    with True total upload_inv_sent [OF inv, of chunk] show ?thesis by (auto simp: upload_sent_def)
  next
    case small: False
    define audio where "audio = up_pending u @ chunk"
    define m where "m = length audio - length audio mod 2"
    have m: "m \<le> length audio" "even m" "length audio - m \<le> 1" by (auto simp: m_def)
    let ?frames = "cut_frames AUDIO_STREAM_CHUNK_BYTES (take m audio)"
    have cut: "concat ?frames = take m audio" by (rule concat_cut_frames) (simp add: AUDIO_STREAM_CHUNK_BYTES_def)
    have "length (take m audio) = m" unfolding length_take using m(1) by (rule min_absorb2)
    with m(2) have "even (length (take m audio))" by (simp only:)
    then have good: "list_all good_frame ?frames"
      unfolding good_frame_def [abs_def] by (intro cut_frames_good) (simp_all add: AUDIO_STREAM_CHUNK_BYTES_def)
    have split: "streamed @ chunk = concat (up_frames u) @ take m audio @ drop m audio"
      unfolding append_take_drop_id using inv by (auto simp: upload_inv_def audio_def)
    have len: "length (concat (up_frames u)) + length audio = length streamed + length chunk"
      using split unfolding append_take_drop_id by (metis length_append)
    obtain q sent where q: "send_frames send ?frames (up_frames u) = (q, sent)" by (cases "send_frames send ?frames (up_frames u)")
    from send_frames_result [OF q] obtain k where k: "sent = up_frames u @ take k ?frames"
      "is_ok q \<longrightarrow> k = length ?frames" by blast
    have part: "take m audio = concat (take k ?frames) @ concat (drop k ?frames)"
      using cut by (simp flip: concat_append)
    have whole: "audio = concat (take k ?frames) @ concat (drop k ?frames) @ drop m audio"
    proof -
      have "audio = take m audio @ drop m audio" by simp
      also have "\<dots> = (concat (take k ?frames) @ concat (drop k ?frames)) @ drop m audio"
        by (rule arg_cong [where f = "\<lambda>x. x @ drop m audio", OF part])
      finally show ?thesis by simp
    qed
    have sent_good: "list_all good_frame sent"
      using inv good k(1) by (auto simp: upload_inv_def list_all_iff dest: in_set_takeD)
    show ?thesis
    proof (cases q)
      case (Inl e)
      then have "r = Inl e" "up_frames u' = sent"
        using False small step q by (auto simp: upload_chunk_def Let_def m_def simp flip: audio_def)
      moreover have "\<not> (\<forall>n. is_ok (send n))" using q Inl send_frames_all [of send ?frames "up_frames u"] by auto
      ultimately show ?thesis using split whole sent_good k(1) unfolding upload_sent_def by auto
    next
      case (Inr x)
      with k have sent: "sent = up_frames u @ ?frames" by simp
      have u': "r = Inr ()" "up_frames u' = sent" "up_pending u' = drop m audio" "up_total u' = up_total u + length chunk"
        using False small step q Inr by (auto simp: upload_chunk_def Let_def m_def simp flip: audio_def)
      have "upload_inv (streamed @ chunk) u'"
        using u' sent split len cut total small m sent_good by (auto simp: upload_inv_def)
      with u'(1) upload_inv_sent [OF this, of "[]"] show ?thesis by simp
    qed
  qed
qed

lemma upload_audio_result:
  assumes "upload_inv streamed u" "upload_audio send (map Chunk chunks) u = (r, u')"
  shows "upload_sent (streamed @ concat chunks) u'
    \<and> (is_ok r \<longrightarrow> upload_inv (streamed @ concat chunks) u' \<and> even (length (streamed @ concat chunks)))
    \<and> ((\<forall>n. is_ok (send n)) \<longrightarrow> \<not> is_ok r \<longrightarrow>
         MAX_AUDIO_BYTES < length (streamed @ concat chunks) \<or> odd (length (streamed @ concat chunks)))"
  using assms
proof (induction chunks arbitrary: streamed u)
  case Nil
  then show ?case using upload_inv_parity [OF Nil(1)] upload_inv_sent [OF Nil(1), of "[]"]
    by (auto split: if_splits)
next
  case (Cons chunk chunks)
  obtain q v where q: "upload_chunk send chunk u = (q, v)" by (cases "upload_chunk send chunk u")
  note step = upload_chunk_result [OF Cons.prems(1) q]
  show ?case
  proof (cases q)
    case (Inl e)
    with q Cons.prems(2) have "r = Inl e" "u' = v" by auto
    with step Inl upload_sent_append [of "streamed @ chunk" v "concat chunks"] show ?thesis by auto
  next
    case (Inr x)
    with q Cons.prems(2) have rest: "upload_audio send (map Chunk chunks) v = (r, u')" by simp
    from step Inr have "upload_inv (streamed @ chunk) v" by simp
    from Cons.IH [OF this rest] show ?thesis by simp
  qed
qed

text \<open>C28: The bridge is sent exactly the audio the caller streamed. However the caller cuts its PCM into
  chunks, single bytes included, the binary frames are nonempty, hold whole samples and at most 64 KiB, and
  concatenate to a prefix of the audio, to all of it when the upload succeeds; and as long as the connection
  takes what it is sent, the upload succeeds exactly when the audio is whole samples and at most 16 MiB.\<close>
theorem upload_delivers_audio:
  assumes "upload_audio send (map Chunk chunks) new_upload = (r, u)"
  shows "list_all good_frame (up_frames u) \<and> (\<exists>rest. concat chunks = concat (up_frames u) @ rest)
    \<and> (is_ok r \<longrightarrow> concat (up_frames u) = concat chunks)
    \<and> ((\<forall>n. is_ok (send n)) \<longrightarrow>
         is_ok r = (even (length (concat chunks)) \<and> length (concat chunks) \<le> 16777216))"
proof -
  note result = upload_audio_result [OF upload_inv_new assms]
  have "concat (up_frames u) = concat chunks" if "is_ok r"
  proof -
    have inv: "upload_inv (concat chunks) u" "even (length (concat chunks))" using result that by simp_all
    with upload_inv_parity [OF inv(1)] have "up_pending u = []" by simp
    with inv(1) show ?thesis by (simp add: upload_inv_def)
  qed
  moreover have "length (concat chunks) \<le> 16777216" if "is_ok r"
    using result that by (simp add: upload_inv_def MAX_AUDIO_BYTES_def)
  ultimately show ?thesis using result by (auto simp: upload_sent_def MAX_AUDIO_BYTES_def)
qed

theorem upload_delivers_audio_witness:
  "\<exists>u. upload_audio (\<lambda>_. Inr ()) (map Chunk [[1], [2, 3], [], [4]]) new_upload = (Inr (), u)
     \<and> concat (up_frames u) = [1, 2, 3, 4]"
proof -
  let ?chunks = "[[1], [2, 3], [], [4]] :: bytes list"
  obtain r u where run: "upload_audio (\<lambda>_. Inr ()) (map Chunk ?chunks) new_upload = (r, u)"
    by (cases "upload_audio (\<lambda>_. Inr ()) (map Chunk ?chunks) new_upload")
  with upload_delivers_audio [OF run] show ?thesis by (auto simp: is_ok_iff)
qed

section \<open>The WAV stream\<close>

lemma length_client_header [simp]: "length (client_wav_header rate chans width) = 44"
  by (simp add: client_wav_header_def Let_def)

lemma length_default_header [simp]: "length STREAMING_WAV_HEADER = 44"
  by (simp add: STREAMING_WAV_HEADER_def)

text \<open>The header the bridge writes is the one the client expects for the same rate.\<close>

lemma bridge_header_expected:
  "streaming_wav_header rate 1 = Inr h \<Longrightarrow> client_wav_header rate 1 2 = h"
  by (simp add: streaming_wav_header_def client_wav_header_def PCM_SAMPLE_WIDTH_def Let_def split: if_splits)

definition starts_with_header :: "bytes list \<Rightarrow> bytes \<Rightarrow> bool" where
  "starts_with_header headers audio \<longleftrightarrow> list_ex (\<lambda>h. take (length h) audio = h) headers"

text \<open>What was received so far, and what of it has been passed on.\<close>

definition wav_inv :: "bytes list \<Rightarrow> bytes \<Rightarrow> wav_stream \<Rightarrow> bool" where
  "wav_inv headers received w \<longleftrightarrow>
     ws_total w = length received \<and> ws_total w \<le> MAX_SYNTHESIZED_AUDIO_BYTES
     \<and> (if ws_validated w
         then concat (ws_yielded w) = received \<and> 46 \<le> length received \<and> starts_with_header headers received
         else ws_yielded w = [] \<and> ws_header w = received \<and> length received < 46)"

lemma take_append_shorter: "n \<le> length xs \<Longrightarrow> take n (xs @ ys) = take n xs"
  by simp

lemma starts_with_header_append:
  "starts_with_header headers audio \<Longrightarrow> list_all (\<lambda>h. length h \<le> length audio) headers \<Longrightarrow>
   starts_with_header headers (audio @ more_bytes)"
  by (auto simp: starts_with_header_def list_ex_iff list_all_iff)

lemma starts_with_header_shorter:
  "starts_with_header headers (audio @ more_bytes) \<Longrightarrow> list_all (\<lambda>h. length h \<le> length audio) headers \<Longrightarrow>
   starts_with_header headers audio"
  by (auto simp: starts_with_header_def list_ex_iff list_all_iff)

lemma wav_chunk_result:
  assumes inv: "wav_inv headers received w" and h: "list_all (\<lambda>h. length h = 44) headers"
    and step: "wav_chunk headers 46 chunk w = (r, w')"
  shows "(is_ok r \<longrightarrow> wav_inv headers (received @ chunk) w')
    \<and> (ws_yielded w' \<noteq> [] \<longrightarrow> starts_with_header headers (received @ chunk)
         \<and> (\<exists>rest. received @ chunk = concat (ws_yielded w') @ rest))
    \<and> (\<not> is_ok r \<longrightarrow> MAX_SYNTHESIZED_AUDIO_BYTES < length (received @ chunk)
         \<or> \<not> starts_with_header headers (received @ chunk))"
proof -
  have more_header: "starts_with_header headers (received @ chunk)"
    if "starts_with_header headers received" "46 \<le> length received"
    by (rule starts_with_header_append [OF that(1)]) (use h that(2) in \<open>auto simp: list_all_iff\<close>)
  show ?thesis
  proof (cases "chunk = [] \<or> MAX_SYNTHESIZED_AUDIO_BYTES < ws_total w + length chunk \<or> ws_validated w")
    case True
    with inv step more_header show ?thesis
      by (auto simp: wav_chunk_def wav_inv_def Let_def split: if_splits)
  next
    case False
    define audio where "audio = received @ chunk"
    have w: "ws_yielded w = []" "ws_header w @ chunk = audio" "ws_total w + length chunk = length audio"
      using inv False by (auto simp: wav_inv_def audio_def)
    show ?thesis
    proof (cases "length audio < 46")
      case True
      with inv step False w show ?thesis
        by (auto simp: wav_chunk_def wav_inv_def Let_def simp flip: audio_def split: if_splits)
    next
      case long: False
      show ?thesis
      proof (cases "starts_with_header headers audio")
        case True
        with long have v: "validate_streaming_wav_header audio headers = Inr ()"
          by (simp add: validate_streaming_wav_header_def starts_with_header_def)
        have "r = Inr ()" "w' = w\<lparr>ws_total := length audio, ws_header := audio, ws_validated := True, ws_yielded := [audio]\<rparr>"
          using step False w long by (simp_all add: wav_chunk_def Let_def v)
        with long inv False w True show ?thesis by (simp add: wav_inv_def flip: audio_def)
      next
        case bad: False
        with long have v: "validate_streaming_wav_header audio headers = Inl invalid_wav_stream"
          by (simp add: validate_streaming_wav_header_def starts_with_header_def)
        have "r = Inl invalid_wav_stream" "ws_yielded w' = []"
          using step False w long by (auto simp: wav_chunk_def Let_def v)
        with bad show ?thesis by (simp flip: audio_def)
      qed
    qed
  qed
qed

lemma wav_chunks_result:
  assumes "wav_inv headers received w" "list_all (\<lambda>h. length h = 44) headers"
    and "wav_chunks headers 46 chunks w = (r, w')"
  shows "(is_ok r \<longrightarrow> wav_inv headers (received @ concat chunks) w')
    \<and> (ws_yielded w' \<noteq> [] \<longrightarrow> starts_with_header headers (received @ concat chunks)
         \<and> (\<exists>rest. received @ concat chunks = concat (ws_yielded w') @ rest))
    \<and> (\<not> is_ok r \<longrightarrow> MAX_SYNTHESIZED_AUDIO_BYTES < length (received @ concat chunks)
         \<or> \<not> starts_with_header headers (received @ concat chunks))"
  using assms(1,3)
proof (induction chunks arbitrary: received w)
  case Nil
  then show ?case by (auto simp: wav_inv_def split: if_splits)
next
  case (Cons chunk chunks)
  obtain q v where q: "wav_chunk headers 46 chunk w = (q, v)" by (cases "wav_chunk headers 46 chunk w")
  note step = wav_chunk_result [OF Cons.prems(1) assms(2) q]
  have shorter: "\<not> starts_with_header headers ((received @ chunk) @ concat chunks)"
    if "\<not> starts_with_header headers (received @ chunk)" "46 \<le> length (received @ chunk)"
  proof
    assume "starts_with_header headers ((received @ chunk) @ concat chunks)"
    moreover have "list_all (\<lambda>h. length h \<le> length (received @ chunk)) headers"
      using assms(2) that(2) by (auto simp: list_all_iff)
    ultimately show False using that(1) starts_with_header_shorter by blast
  qed
  show ?case
  proof (cases q)
    case (Inr x)
    with q Cons.prems(2) have rest: "wav_chunks headers 46 chunks v = (r, w')" by simp
    from step Inr have "wav_inv headers (received @ chunk) v" by simp
    from Cons.IH [OF this rest] show ?thesis by simp
  next
    case (Inl e)
    with q Cons.prems(2) have "r = Inl e" "w' = v" by auto
    moreover have "46 \<le> length (received @ chunk)" if "\<not> MAX_SYNTHESIZED_AUDIO_BYTES < length (received @ chunk)"
      using q Inl that Cons.prems(1) by (auto simp: wav_chunk_def wav_inv_def Let_def split: if_splits sum.splits)
    moreover have "ws_yielded v \<noteq> [] \<longrightarrow> starts_with_header headers ((received @ chunk) @ concat chunks)
         \<and> (\<exists>rest. (received @ chunk) @ concat chunks = concat (ws_yielded v) @ rest)"
    proof
      assume y: "ws_yielded v \<noteq> []"
      with step have s: "starts_with_header headers (received @ chunk)"
        "\<exists>rest. received @ chunk = concat (ws_yielded v) @ rest" by auto
      have "46 \<le> length (received @ chunk)"
        using y q Inl Cons.prems(1) by (auto simp: wav_chunk_def wav_inv_def Let_def split: if_splits sum.splits)
      then have "starts_with_header headers ((received @ chunk) @ concat chunks)"
        by (intro starts_with_header_append [OF s(1)]) (use assms(2) in \<open>auto simp: list_all_iff\<close>)
      moreover obtain rest where "(received @ chunk) @ concat chunks = concat (ws_yielded v) @ rest @ concat chunks"
        using s(2) by auto
      ultimately show "starts_with_header headers ((received @ chunk) @ concat chunks)
         \<and> (\<exists>rest. (received @ chunk) @ concat chunks = concat (ws_yielded v) @ rest)" by blast
    qed
    ultimately show ?thesis using step Inl shorter by auto
  qed
qed


lemma validated_preferences:
  assumes "validate_synthesis_audio_preferences int_of a b c = Inr (rate, chans, width)"
  shows "or_default rate 24000 \<in> {16000, 24000}" "or_default chans 1 = 1" "or_default width 2 = 2"
  using assms
  by (auto simp: validate_synthesis_audio_preferences_def result_simps SUPPORTED_SYNTHESIS_SAMPLE_RATES_def or_default_def
      split: if_splits option.splits)

lemma wav_inv_new: "wav_inv headers [] new_wav_stream"
  by (simp add: wav_inv_def new_wav_stream_def)

text \<open>The stream of a response whose audio is served as it should be, cut into chunks anyhow.\<close>

lemma stream_response_ok:
  assumes "or_default chans 1 = 1" "or_default width 2 = 2" "status_ok = rp_status r" "status_ok < 400"
    and "lower (rp_content_type r) \<in> set WAV_CONTENT_TYPES"
    and "\<not> (rp_content_length r \<noteq> None \<and> MAX_SYNTHESIZED_AUDIO_BYTES < the (rp_content_length r))"
    and "rp_body_end r = Inr ()" "length (concat (rp_chunks r)) \<le> MAX_SYNTHESIZED_AUDIO_BYTES"
    and "46 \<le> length (concat (rp_chunks r))" "even (length (concat (rp_chunks r)))"
    and "starts_with_header (acceptable_headers (client_wav_header (or_default rate 24000) 1 2)) (concat (rp_chunks r))"
  shows "\<exists>yields. stream_response (rate, chans, width) r = (Inr (), yields) \<and> concat yields = concat (rp_chunks r)"
proof -
  define headers where "headers = acceptable_headers (client_wav_header (or_default rate 24000) 1 2)"
  have lens: "list_all (\<lambda>h. length h = 44) headers" by (simp add: headers_def acceptable_headers_def)
  obtain q w where q: "wav_chunks headers 46 (rp_chunks r) new_wav_stream = (q, w)"
    by (cases "wav_chunks headers 46 (rp_chunks r) new_wav_stream")
  note step = wav_chunks_result [OF wav_inv_new lens q]
  have "is_ok q" using step assms(8,11) by (auto simp: headers_def)
  then have q_ok: "q = Inr ()" by (auto simp: is_ok_iff)
  have "wav_inv headers (concat (rp_chunks r)) w" using step \<open>is_ok q\<close> by simp
  then have w: "ws_validated w" "concat (ws_yielded w) = concat (rp_chunks r)" "ws_total w = length (concat (rp_chunks r))"
    using assms(9) by (auto simp: wav_inv_def split: if_splits)
  have "(int (length (concat (rp_chunks r))) - 44) mod 2 = 0" using assms(10) by presburger
  then have "wav_stream_end headers 44 2 w = Inr ()" using w by (simp add: wav_stream_end_def)
  moreover have "raise_for_status (rp_status r) = Inr ()" using assms(3,4) by (simp add: raise_for_status_def)
  ultimately have "stream_response (rate, chans, width) r = (Inr (), ws_yielded w)"
    using assms(1,2,5-7) q q_ok
    by (simp add: stream_response_def Let_def DEFAULT_SYNTHESIS_SAMPLE_RATE_def DEFAULT_SYNTHESIS_CHANNELS_def
        DEFAULT_SYNTHESIS_SAMPLE_WIDTH_def flip: headers_def)
  with w(2) show ?thesis by blast
qed

lemma wav_type: "lower ''audio/wav'' \<in> set WAV_CONTENT_TYPES"
  by code_simp

lemma bridge_header: "q \<in> {16000, 24000} \<Longrightarrow> streaming_wav_header q 1 = Inr (client_wav_header q 1 2)"
  by (auto simp: streaming_wav_header_def client_wav_header_def PCM_SAMPLE_WIDTH_def Let_def)

lemma acceptable_header:
  assumes "q \<in> {16000, 24000}" "starts_with_header (acceptable_headers (client_wav_header q 1 2)) audio"
  shows "\<exists>q' \<in> {q, 24000}. streaming_wav_header q' 1 = Inr (take 44 audio)"
proof -
  from assms(2) have "take 44 audio = client_wav_header q 1 2 \<or> take 44 audio = client_wav_header 24000 1 2"
    by (auto simp: starts_with_header_def acceptable_headers_def STREAMING_WAV_HEADER_def client_bounds split: if_splits)
  with assms(1) bridge_header show ?thesis by auto
qed

lemma stream_response_chunks:
  assumes "or_default chans 1 = 1" "or_default width 2 = 2"
    and run: "stream_response (rate, chans, width) resp = (r, yields)"
    and q: "wav_chunks (acceptable_headers (client_wav_header (or_default rate 24000) 1 2)) 46 (rp_chunks resp)
      new_wav_stream = (q, w)"
    and "\<not> (yields = [] \<and> \<not> is_ok r)"
  shows "yields = ws_yielded w \<and> (is_ok r \<longrightarrow>
    is_ok q \<and> is_ok (wav_stream_end (acceptable_headers (client_wav_header (or_default rate 24000) 1 2)) 44 2 w))"
proof -
  let ?headers = "acceptable_headers (client_wav_header (or_default rate 24000) 1 2)"
  note stream = stream_response_def Let_def DEFAULT_SYNTHESIS_SAMPLE_RATE_def DEFAULT_SYNTHESIS_CHANNELS_def
    DEFAULT_SYNTHESIS_SAMPLE_WIDTH_def
  have status: "raise_for_status (rp_status resp) = Inr ()"
  proof (cases "raise_for_status (rp_status resp)")
    case (Inl e)
    with run have "r = Inl e" "yields = []" unfolding stream_response_def by (simp_all add: Let_def)
    with assms(5) show ?thesis by simp
  qed simp
  have kind: "lower (rp_content_type resp) \<in> set WAV_CONTENT_TYPES"
    using run assms(5) status by (auto simp: stream split: if_splits)
  have len: "\<not> (rp_content_length resp \<noteq> None \<and> MAX_SYNTHESIZED_AUDIO_BYTES < the (rp_content_length resp))"
  proof
    assume big: "rp_content_length resp \<noteq> None \<and> MAX_SYNTHESIZED_AUDIO_BYTES < the (rp_content_length resp)"
    then have "(r, yields) = (Inl too_much_audio, [])"
      using run status kind unfolding stream_response_def by (simp add: Let_def)
    with assms(5) show False by simp
  qed
  show ?thesis
  proof (cases q)
    case (Inl e)
    with run status kind len q assms(1,2) have "r = Inl e" "yields = ws_yielded w"
      by (auto simp: stream)
    then show ?thesis by simp
  next
    case (Inr x)
    let ?finish = "bind_result (rp_body_end resp) (\<lambda>_. wav_stream_end ?headers 44 2 w)"
    have "(r, yields) = (case ?finish of Inl e \<Rightarrow> (Inl (synthesis_error e), ws_yielded w) | Inr _ \<Rightarrow> (Inr (), ws_yielded w))"
      using Inr run status kind len q assms(1,2) by (auto simp: stream)
    with Inr show ?thesis by (cases ?finish; cases "rp_body_end resp") auto
  qed
qed

text \<open>What a response passes on is a part of what it received, under a header the client asked for.\<close>

text \<open>The first piece passed on holds the header and at least one sample.\<close>

definition whole_preamble :: "wav_stream \<Rightarrow> bool" where
  "whole_preamble w \<longleftrightarrow>
     (ws_yielded w \<noteq> [] \<longrightarrow> 46 \<le> length (hd (ws_yielded w))) \<and> (ws_validated w \<longrightarrow> ws_yielded w \<noteq> [])"

lemma wav_chunks_preamble:
  "whole_preamble w \<Longrightarrow> wav_chunks headers 46 chunks w = (r, w') \<Longrightarrow> whole_preamble w'"
proof (induction chunks arbitrary: w)
  case (Cons chunk chunks)
  obtain q v where v: "wav_chunk headers 46 chunk w = (q, v)" by (cases "wav_chunk headers 46 chunk w")
  then have "whole_preamble v"
    using Cons.prems(1)
    by (cases "ws_yielded w") (auto simp: wav_chunk_def whole_preamble_def Let_def split: if_splits sum.splits)
  then show ?case using Cons v by (auto split: sum.splits)
qed simp

lemma stream_response_yields:
  assumes prefs: "or_default rate 24000 \<in> {16000, 24000}" "or_default chans 1 = 1" "or_default width 2 = 2"
    and run: "stream_response (rate, chans, width) resp = (r, yields)"
  shows "(\<exists>rest. concat (rp_chunks resp) = concat yields @ rest)
    \<and> (yields \<noteq> [] \<longrightarrow> 46 \<le> length (hd yields) \<and>
         (\<exists>q \<in> {or_default rate 24000, 24000}. streaming_wav_header q 1 = Inr (take 44 (hd yields))))
    \<and> (is_ok r \<longrightarrow> concat yields = concat (rp_chunks resp))"
proof (cases "yields = [] \<and> \<not> is_ok r")
  case True
  then show ?thesis by simp
next
  case False
  define headers where "headers = acceptable_headers (client_wav_header (or_default rate 24000) 1 2)"
  have lens: "list_all (\<lambda>h. length h = 44) headers" by (simp add: headers_def acceptable_headers_def)
  obtain q w where q: "wav_chunks headers 46 (rp_chunks resp) new_wav_stream = (q, w)"
    by (cases "wav_chunks headers 46 (rp_chunks resp) new_wav_stream")
  note step = wav_chunks_result [OF wav_inv_new lens q]
  have "yields = ws_yielded w \<and> (is_ok r \<longrightarrow> is_ok q \<and> is_ok (wav_stream_end headers 44 2 w))"
    unfolding headers_def by (rule stream_response_chunks [OF prefs(2,3) run _ False]) (use q in \<open>simp add: headers_def\<close>)
  then have y: "yields = ws_yielded w" and ok: "is_ok r \<Longrightarrow> is_ok q \<and> is_ok (wav_stream_end headers 44 2 w)"
    by simp_all
  have "concat yields = concat (rp_chunks resp)" if "is_ok r"
  proof -
    have inv: "wav_inv headers (concat (rp_chunks resp)) w" using step ok [OF that] by simp
    have "ws_validated w"
    proof (rule ccontr)
      assume n: "\<not> ws_validated w"
      with inv have "length (ws_header w) < 46" by (simp add: wav_inv_def)
      with n ok [OF that] show False
        by (simp add: wav_stream_end_def validate_streaming_wav_header_def result_simps)
    qed
    with inv y show ?thesis by (auto simp: wav_inv_def)
  qed
  moreover have prefix: "\<exists>rest. concat (rp_chunks resp) = concat yields @ rest"
    using step y by (cases "yields = []") auto
  moreover have long: "46 \<le> length (hd yields)" if "yields \<noteq> []"
    using wav_chunks_preamble [OF _ q] y that by (simp add: whole_preamble_def new_wav_stream_def)
  moreover have "\<exists>q \<in> {or_default rate 24000, 24000}. streaming_wav_header q 1 = Inr (take 44 (hd yields))"
    if "yields \<noteq> []"
  proof -
    have "take 44 (concat (rp_chunks resp)) = take 44 (hd yields)"
      using prefix long [OF that] that by (cases yields) auto
    moreover have "\<exists>q \<in> {or_default rate 24000, 24000}. streaming_wav_header q 1 = Inr (take 44 (concat (rp_chunks resp)))"
      using acceptable_header [OF prefs(1)] step y that by (simp add: headers_def)
    ultimately show ?thesis by simp
  qed
  ultimately show ?thesis by blast
qed

text \<open>C26: Speech reaches Home Assistant as the bridge wrote it. The streamed response passes on nothing
  but a prefix of the body, and nothing at all before 46 bytes of it are there, whose first 44 are the header the
  bridge writes for the requested or the default rate: they are all in the first piece it passes on; when it ends well the caller had every byte. And a body the bridge
  writes - its header, then whole samples, at most 50 MiB - is passed on however the network cuts it.\<close>
theorem synthesis_stream_passes_bridge_audio:
  assumes prefs: "validate_synthesis_audio_preferences int_of a b c = Inr (rate, chans, width)"
    and run: "stream_response (rate, chans, width) resp = (r, yields)"
  shows "(\<exists>rest. concat (rp_chunks resp) = concat yields @ rest)
    \<and> (yields \<noteq> [] \<longrightarrow> 46 \<le> length (hd yields) \<and>
         (\<exists>q \<in> {or_default rate 24000, 24000}. streaming_wav_header q 1 = Inr (take 44 (hd yields))))
    \<and> (is_ok r \<longrightarrow> concat yields = concat (rp_chunks resp))
    \<and> (\<forall>h pcm. streaming_wav_header (or_default rate 24000) 1 = Inr h \<and> concat (rp_chunks resp) = h @ pcm
         \<and> pcm \<noteq> [] \<and> even (length pcm) \<and> length pcm \<le> 52428756 \<and> rp_status resp = 200
         \<and> rp_content_type resp = ''audio/wav'' \<and> rp_content_length resp = None \<and> rp_body_end resp = Inr ()
         \<longrightarrow> is_ok r)"
proof -
  note p = validated_preferences [OF prefs]
  have "is_ok r" if served: "streaming_wav_header (or_default rate 24000) 1 = Inr h" "concat (rp_chunks resp) = h @ pcm"
    "pcm \<noteq> []" "even (length pcm)" "length pcm \<le> 52428756" "rp_status resp = 200"
    "rp_content_type resp = ''audio/wav''" "rp_content_length resp = None" "rp_body_end resp = Inr ()" for h pcm
  proof -
    have h: "client_wav_header (or_default rate 24000) 1 2 = h" by (rule bridge_header_expected [OF served(1)])
    then have len: "length h = 44" by (metis length_client_header)
    have "2 \<le> length pcm" using served(3,4) by (cases pcm rule: remdups_adj.cases) auto
    moreover have "starts_with_header (acceptable_headers (client_wav_header (or_default rate 24000) 1 2)) (h @ pcm)"
      by (simp add: starts_with_header_def acceptable_headers_def h)
    ultimately have "\<exists>ys. stream_response (rate, chans, width) resp = (Inr (), ys) \<and> concat ys = concat (rp_chunks resp)"
      using served len
      by (intro stream_response_ok [OF p(2,3) refl]) (auto simp: client_bounds wav_type)
    with run show ?thesis by auto
  qed
  then show ?thesis using stream_response_yields [OF p run] by blast
qed

theorem synthesis_stream_passes_bridge_audio_witness:
  "\<exists>h. streaming_wav_header 16000 1 = Inr h
    \<and> (\<exists>yields. stream_response (Some 16000, None, None)
         \<lparr>rp_status = 200, rp_content_type = ''audio/wav'', rp_content_length = None, rp_json = NotJson,
           rp_chunks = [take 7 h, drop 7 h @ [1], [2]], rp_body_end = Inr ()\<rparr> = (Inr (), yields)
         \<and> concat yields = h @ [1, 2])"
proof -
  let ?h = "client_wav_header 16000 1 2"
  let ?resp = "\<lparr>rp_status = 200, rp_content_type = ''audio/wav'', rp_content_length = None, rp_json = NotJson,
           rp_chunks = [take 7 ?h, drop 7 ?h @ [1], [2]], rp_body_end = Inr ()\<rparr>"
  have prefs: "validate_synthesis_audio_preferences (\<lambda>_. None) (JInt 16000) JNull JNull = Inr (Some 16000, None, None)"
    by (simp add: validate_synthesis_audio_preferences_def optional_int_def client_bounds)
  have h: "streaming_wav_header 16000 1 = Inr ?h" by (rule bridge_header) simp
  obtain r yields where run: "stream_response (Some 16000, None, None) ?resp = (r, yields)"
    by (cases "stream_response (Some 16000, None, None) ?resp")
  have body: "concat (rp_chunks ?resp) = ?h @ [1, 2]" by (simp flip: append_assoc)
  note result = synthesis_stream_passes_bridge_audio [OF prefs run]
  have "is_ok r"
    by (rule result [THEN conjunct2, THEN conjunct2, THEN conjunct2, rule_format, of ?h "[1, 2]"])
      (use h body in \<open>simp add: or_default_def\<close>)
  moreover from this have "concat yields = ?h @ [1, 2]" using result unfolding body by blast
  ultimately show ?thesis using h run by (auto simp: is_ok_iff)
qed

section \<open>Conversations\<close>

definition known_failure :: "py_error \<Rightarrow> bool" where
  "known_failure e \<longleftrightarrow> is_bridge_error e \<or> (case e of ClientError _ \<Rightarrow> True | TimeoutError _ \<Rightarrow> True | _ \<Rightarrow> False)"

definition type_or_value :: "py_error \<Rightarrow> bool" where
  "type_or_value e \<longleftrightarrow> (case e of TypeError _ \<Rightarrow> True | ValueError _ \<Rightarrow> True | _ \<Rightarrow> False)"

text \<open>An environment in which only the errors the code names occur.\<close>

definition tame_env :: "client_env \<Rightarrow> handlers \<Rightarrow> bool" where
  "tame_env E H \<longleftrightarrow>
     (\<forall>v e. ce_dump E v = Inl e \<longrightarrow> type_or_value e) \<and> (\<forall>n e. ce_send E n = Inl e \<longrightarrow> known_failure e)
     \<and> (\<forall>d e. on_delta H d = Inl e \<longrightarrow> known_failure e) \<and> (\<forall>c e. on_tool H c = Inl e \<longrightarrow> known_failure e)"

text \<open>The values of the texts that parse.\<close>

definition ce_loads :: "client_env \<Rightarrow> string \<Rightarrow> json option" where
  "ce_loads E t = (case ce_parse E t of Parsed v \<Rightarrow> Some v | _ \<Rightarrow> None)"

lemma ce_loads_iff: "ce_loads E t = Some v \<longleftrightarrow> ce_parse E t = Parsed v"
  by (auto simp: ce_loads_def split: parsed.split)

text \<open>A text of the bridge makes \<^verbatim>\<open>json.loads\<close> raise \<open>e\<close>: the frame itself, or the arguments of its tool call.\<close>

definition unparsable :: "client_env \<Rightarrow> py_error \<Rightarrow> client_frame \<Rightarrow> bool" where
  "unparsable E e frame \<longleftrightarrow>
     (\<exists>raw. frame = TextFrame raw
        \<and> (ce_parse E raw = ParseFails e
           \<or> (\<exists>event t. ce_parse E raw = Parsed (JObj event)
                \<and> jget_default event ''arguments'' (jget_default event ''args'' (JObj [])) = JStr t
                \<and> ce_parse E t = ParseFails e)))"

lemma bridge_errors [simp]:
  "is_bridge_error (BridgeAuthenticationError m)" "is_bridge_error (BridgeConnectionError m)"
  "is_bridge_error (BridgeProtocolError m)" "is_bridge_error (BridgeBusyError m)" "is_bridge_error (BridgeQuotaError m)"
  "is_bridge_error (BridgeStreamingUnsupported m)"
  by (simp_all add: is_bridge_error_def)

lemma bridge_error_known: "is_bridge_error e \<Longrightarrow> known_failure e"
  by (simp add: known_failure_def)

lemma event_error_bridge: "is_bridge_error (event_error event)"
  by (simp add: event_error_def Let_def)

lemma translate_known: "known_failure e \<Longrightarrow> is_bridge_error (translate_error a b e)"
  by (cases e) (simp_all add: known_failure_def translate_error_def is_bridge_error_def)

lemma obj_of_Some: "obj_of v = Some m \<longleftrightarrow> v = JObj m"
  by (cases v) auto

lemma decode_event_known:
  "decode_event E raw = Inl e \<Longrightarrow> known_failure e \<or> unparsable E e (TextFrame raw)"
  by (auto simp: decode_event_def unparsable_def intro!: bridge_error_known
      split: parsed.splits option.splits py_error.splits)

lemma decode_event_parsed: "decode_event E raw = Inr event \<Longrightarrow> ce_parse E raw = Parsed (JObj event)"
  by (auto simp: decode_event_def obj_of_Some split: parsed.splits option.splits py_error.splits)

lemma decode_tool_call_known:
  assumes "decode_tool_call E event = Inl e" "ce_parse E raw = Parsed (JObj event)"
  shows "known_failure e \<or> unparsable E e (TextFrame raw)"
proof (cases "tool_arguments E event")
  case (Inl e')
  then have "is_bridge_error e' \<or> unparsable E e' (TextFrame raw)"
    using assms(2) by (auto simp: tool_arguments_def unparsable_def split: json.splits parsed.splits)
  with Inl assms(1) show ?thesis by (auto simp: decode_tool_call_def intro: bridge_error_known)
next
  case (Inr v)
  with assms(1) show ?thesis
    by (auto simp: decode_tool_call_def intro!: bridge_error_known split: option.splits if_splits)
qed

lemma serialize_known:
  assumes "tame_env E H" "serialize_conversation_message E m = Inl e"
  shows "is_bridge_error e"
proof (cases "ce_dump E (JObj m)")
  case (Inl e')
  with assms(1) have "type_or_value e'" by (auto simp: tame_env_def)
  with Inl assms(2) show ?thesis
    by (cases e') (auto simp: serialize_conversation_message_def type_or_value_def)
qed (use assms(2) in \<open>simp add: serialize_conversation_message_def\<close>)

lemma client_send_known: "tame_env E H \<Longrightarrow> client_send E m s = (Inl e, s') \<Longrightarrow> known_failure e"
  by (auto simp: client_send_def tame_env_def intro: bridge_error_known dest: serialize_known [rotated]
      split: sum.splits)

lemma hand_delta_known: "tame_env E H \<Longrightarrow> hand_delta H d s = (Inl e, s') \<Longrightarrow> known_failure e"
  by (auto simp: hand_delta_def tame_env_def)

lemma tool_event_known:
  assumes "tame_env E H" "tool_event E H event s = (Some (Inl e), s')" "ce_parse E raw = Parsed (JObj event)"
  shows "known_failure e \<or> unparsable E e (TextFrame raw)"
proof (cases "MAX_TOOL_CALLS < length (tk_tools s) + 1")
  case True
  with assms show ?thesis by (auto simp: tool_event_def intro: bridge_error_known)
next
  case few: False
  show ?thesis
  proof (cases "decode_tool_call E event")
    case (Inl e')
    with few assms have "e = e'" by (simp add: tool_event_def)
    with Inl decode_tool_call_known [OF _ assms(3)] show ?thesis by simp
  next
    case (Inr call)
    show ?thesis
    proof (cases "on_tool H call")
      case (Inl e')
      with few assms Inr show ?thesis by (simp add: tool_event_def tame_env_def Let_def)
    next
      case ok: (Inr result)
      let ?send = "client_send E (client_tool_result call result) (s\<lparr>tk_tools := tk_tools s @ [call]\<rparr>)"
      obtain r s2 where send: "?send = (r, s2)" by (cases ?send)
      with few assms Inr ok have "r = Inl e" by (cases r) (simp_all add: tool_event_def Let_def)
      with send client_send_known [OF assms(1)] show ?thesis by simp
    qed
  qed
qed

lemma delta_event_known:
  "tame_env E H \<Longrightarrow> delta_event H event s = (Some (Inl e), s') \<Longrightarrow> known_failure e"
  by (auto simp: delta_event_def intro: bridge_error_known dest!: hand_delta_known
      split: option.splits if_splits prod.splits sum.splits)

lemma done_event_known:
  "tame_env E H \<Longrightarrow> done_event H event s = (Some (Inl e), s') \<Longrightarrow> known_failure e"
  by (auto simp: done_event_def dest!: hand_delta_known split: json.splits if_splits prod.splits sum.splits)

lemma conversation_event_known:
  assumes "tame_env E H" "conversation_event E H event s = (Some (Inl e), s')" "ce_parse E raw = Parsed (JObj event)"
  shows "known_failure e \<or> unparsable E e (TextFrame raw)"
proof -
  have "delta_event H event s = (Some (Inl e), s') \<or> tool_event E H event s = (Some (Inl e), s')
      \<or> done_event H event s = (Some (Inl e), s') \<or> e = event_error event
      \<or> (\<exists>kind. e = unknown_event E kind)"
    using assms(2) by (auto simp: conversation_event_def Let_def split: if_splits option.splits)
  moreover have "known_failure (unknown_event E kind)" for kind
    by (simp add: unknown_event_def bridge_error_known)
  ultimately show ?thesis
    using delta_event_known [OF assms(1)] tool_event_known [OF assms(1) _ assms(3)] done_event_known [OF assms(1)]
      event_error_bridge bridge_error_known by blast
qed

lemma conversation_frame_known:
  assumes "tame_env E H" "\<And>e. frame = Fails e \<Longrightarrow> known_failure e" "conversation_frame E H frame s = (Some (Inl e), s')"
  shows "known_failure e \<or> unparsable E e frame"
proof (cases frame)
  case (TextFrame raw)
  show ?thesis
  proof (cases "decode_event E raw")
    case (Inl e')
    with TextFrame assms decode_event_known [OF Inl] show ?thesis by (simp add: conversation_frame_def)
  next
    case (Inr event)
    with TextFrame assms have "conversation_event E H event s = (Some (Inl e), s')" by (simp add: conversation_frame_def)
    from conversation_event_known [OF assms(1) this decode_event_parsed [OF Inr]] show ?thesis by (simp add: TextFrame)
  qed
qed (use assms bridge_error_known in \<open>auto simp: conversation_frame_def\<close>)

lemma conversation_loop_known:
  "tame_env E H \<Longrightarrow> list_all (\<lambda>frame. \<forall>e. frame = Fails e \<longrightarrow> known_failure e) frames \<Longrightarrow>
   conversation_loop E H frames s = (Some (Inl e), s') \<Longrightarrow> known_failure e \<or> list_ex (unparsable E e) frames"
proof (induction frames arbitrary: s)
  case (Cons frame frames)
  obtain r s1 where r: "conversation_frame E H frame s = (r, s1)" by (cases "conversation_frame E H frame s")
  show ?case
  proof (cases r)
    case None
    with r Cons show ?thesis by auto
  next
    case (Some x)
    with r Cons.prems have "conversation_frame E H frame s = (Some (Inl e), s')" by simp
    then have "known_failure e \<or> unparsable E e frame"
      by (rule conversation_frame_known [OF Cons.prems(1), rotated]) (use Cons.prems(2) in auto)
    then show ?thesis by auto
  qed
qed simp

lemma conversation_error_cases: "conversation_error e = e \<or> is_bridge_error (conversation_error e)"
  by (cases e) (simp_all add: conversation_error_def translate_error_def)

text \<open>C35: Only the module's own errors leave a conversation, and the ones \<^verbatim>\<open>json.loads\<close> raises beside its
  \<^verbatim>\<open>JSONDecodeError\<close>. Whatever the bridge sends - malformed JSON, an unknown event, an error event, a tool call
  without name or arguments, too many of them - and however the connection fails, the error \<^verbatim>\<open>async_converse\<close>
  raises is a \<^verbatim>\<open>BridgeError\<close>, or it is the very exception, other than a \<^verbatim>\<open>JSONDecodeError\<close>, with which the
  parser failed on a frame of the bridge or on the arguments text of a tool call in one; as long as the serializer,
  the socket and the caller's handlers raise only the errors the code names.\<close>
theorem only_bridge_errors_leave_a_conversation:
  assumes "tame_env E H" "list_all (\<lambda>frame. \<forall>e. frame = Fails e \<longrightarrow> known_failure e) frames"
    and "converse E H start frames = (Some (Inl e), s)"
  shows "is_bridge_error e
    \<or> (\<exists>raw. TextFrame raw \<in> set frames
         \<and> (ce_parse E raw = ParseFails e
            \<or> (\<exists>event t. ce_parse E raw = Parsed (JObj event)
                 \<and> jget_default event ''arguments'' (jget_default event ''args'' (JObj [])) = JStr t
                 \<and> ce_parse E t = ParseFails e)))"
proof (cases "serialize_conversation_message E (merge_dict [(''type'', JStr ''start'')] start)")
  case (Inl e')
  with assms serialize_known [OF assms(1) Inl] show ?thesis by (simp add: converse_def)
next
  case sent: (Inr t)
  show ?thesis
  proof (cases "ce_send E 0")
    case (Inl e')
    then have "known_failure e'" using assms(1) by (simp add: tame_env_def)
    with Inl sent assms(3) show ?thesis by (auto simp: converse_def conversation_error_def translate_known)
  next
    case (Inr u)
    obtain r s1 where r: "conversation_loop E H frames (new_talk\<lparr>tk_sent := [t]\<rparr>) = (r, s1)"
      by (cases "conversation_loop E H frames (new_talk\<lparr>tk_sent := [t]\<rparr>)")
    obtain e' where e': "r = Some (Inl e')" "e = conversation_error e'"
      using Inr sent r assms(3) by (auto simp: converse_def split: option.splits sum.splits)
    then have "known_failure e' \<or> list_ex (unparsable E e') frames"
      using conversation_loop_known [OF assms(1,2)] r by simp
    then have "is_bridge_error e \<or> list_ex (unparsable E e) frames"
      using conversation_error_cases [of e'] translate_known e'(2) by (auto simp: conversation_error_def)
    then show ?thesis by (auto simp: list_ex_iff unparsable_def)
  qed
qed

text \<open>Such an exception does leave: a frame with an integer of too many digits ends a conversation with a plain
  \<^verbatim>\<open>ValueError\<close>, which no handler of \<^verbatim>\<open>BridgeError\<close> sees.\<close>
lemma huge_integer_leaves_a_conversation:
  assumes "ce_parse E raw = ParseFails (ValueError why)" "ce_dump E (JObj (merge_dict [(''type'', JStr ''start'')] start)) = Inr t"
    and "ce_send E 0 = Inr ()"
  shows "fst (converse E H start (TextFrame raw # frames)) = Some (Inl (ValueError why))"
    and "\<not> is_bridge_error (ValueError why)"
  using assms
  by (simp_all add: converse_def serialize_conversation_message_def conversation_frame_def decode_event_def
      conversation_error_def translate_error_def is_bridge_error_def)

text \<open>A bridge that drops the connection in the middle of a turn.\<close>

definition sample_client_env :: client_env where
  "sample_client_env =
     \<lparr>ce_parse = (\<lambda>t. if t = ''d'' then Parsed (JObj [(''type'', JStr ''delta''), (''delta'', JStr ''Hola'')])
        else if t = ''9'' then ParseFails (ValueError ''Exceeds the limit'') else NotJson),
      ce_dump = (\<lambda>_. Inr ''m''), ce_send = (\<lambda>_. Inr ()), ce_repr = (\<lambda>_. [])\<rparr>"

definition sample_handlers :: handlers where
  "sample_handlers = \<lparr>on_delta = (\<lambda>_. Inr ()), on_tool = (\<lambda>_. Inr [(''ok'', JBool True)])\<rparr>"

theorem only_bridge_errors_leave_a_conversation_witness:
  "\<exists>e s. converse sample_client_env sample_handlers [] [TextFrame ''d'', Fails (ClientError ''reset'')] = (Some (Inl e), s)
     \<and> is_bridge_error e \<and> tk_deltas s = [''Hola'']"
proof -
  let ?frames = "[TextFrame ''d'', Fails (ClientError ''reset'')]"
  have run: "converse sample_client_env sample_handlers [] ?frames =
      (Some (Inl (BridgeConnectionError ''The conversation connection failed'')),
       \<lparr>tk_sent = [''m''], tk_deltas = [''Hola''], tk_tools = [], tk_received_delta = True\<rparr>)"
    by (simp add: converse_def sample_client_env_def sample_handlers_def serialize_conversation_message_def merge_dict_def
        conversation_frame_def decode_event_def conversation_event_def delta_event_def hand_delta_def new_talk_def
        conversation_error_def translate_error_def jget_def jget_default_def)
  have tame: "tame_env sample_client_env sample_handlers" "known_failure (ClientError ''reset'')"
    by (auto simp: tame_env_def sample_client_env_def sample_handlers_def known_failure_def)
  have "is_bridge_error (BridgeConnectionError ''The conversation connection failed'')"
    using only_bridge_errors_leave_a_conversation [OF tame(1) _ run] tame(2)
    by (auto simp: sample_client_env_def)
  with run show ?thesis by auto
qed

section \<open>Tool calls\<close>

text \<open>The text \<open>t\<close> answers \<open>call\<close> with what its tool returned.\<close>

definition answers :: "client_env \<Rightarrow> handlers \<Rightarrow> bridge_tool_call \<Rightarrow> string \<Rightarrow> bool" where
  "answers E H call t \<longleftrightarrow>
     (\<exists>result. on_tool H call = Inr result \<and> ce_dump E (JObj (client_tool_result call result)) = Inr t)"

definition all_answered :: "client_env \<Rightarrow> handlers \<Rightarrow> talk \<Rightarrow> bool" where
  "all_answered E H s \<longleftrightarrow>
     (\<exists>t ts. tk_sent s = t # ts \<and> list_all2 (answers E H) (tk_tools s) ts) \<and> length (tk_tools s) \<le> MAX_TOOL_CALLS"

text \<open>All calls were answered but the last one.\<close>

definition last_unanswered :: "client_env \<Rightarrow> handlers \<Rightarrow> talk \<Rightarrow> bool" where
  "last_unanswered E H s \<longleftrightarrow>
     (\<exists>calls call t ts. tk_tools s = calls @ [call] \<and> tk_sent s = t # ts \<and> list_all2 (answers E H) calls ts)
     \<and> length (tk_tools s) \<le> MAX_TOOL_CALLS"

definition talk_outcome :: "client_env \<Rightarrow> handlers \<Rightarrow> obj result option \<times> talk \<Rightarrow> bool" where
  "talk_outcome E H p \<longleftrightarrow>
     all_answered E H (snd p) \<or> (\<exists>e. fst p = Some (Inl e)) \<and> last_unanswered E H (snd p)"

lemma all_answered_cong:
  "tk_tools s' = tk_tools s \<Longrightarrow> tk_sent s' = tk_sent s \<Longrightarrow> all_answered E H s' \<longleftrightarrow> all_answered E H s"
  by (simp add: all_answered_def)

lemma serialize_ok: "serialize_conversation_message E m = Inr t \<longleftrightarrow> ce_dump E (JObj m) = Inr t"
  by (auto simp: serialize_conversation_message_def split: sum.splits py_error.splits)

lemma client_send_cases:
  "client_send E m s = (Inr (), s') \<Longrightarrow> \<exists>t. ce_dump E (JObj m) = Inr t \<and> s' = s\<lparr>tk_sent := tk_sent s @ [t]\<rparr>"
  "client_send E m s = (Inl e, s') \<Longrightarrow> s' = s"
  by (auto simp: client_send_def serialize_ok split: sum.splits)

lemma tool_event_outcome:
  assumes inv: "all_answered E H s"
  shows "talk_outcome E H (tool_event E H event s)"
proof (cases "MAX_TOOL_CALLS < length (tk_tools s) + 1")
  case True
  with inv show ?thesis by (simp add: tool_event_def talk_outcome_def)
next
  case few: False
  show ?thesis
  proof (cases "decode_tool_call E event")
    case (Inl e)
    with few inv show ?thesis by (simp add: tool_event_def talk_outcome_def)
  next
    case (Inr call)
    let ?s1 = "s\<lparr>tk_tools := tk_tools s @ [call]\<rparr>"
    have one: "last_unanswered E H ?s1" using inv few by (auto simp: last_unanswered_def all_answered_def)
    show ?thesis
    proof (cases "on_tool H call")
      case (Inl e)
      with few Inr one show ?thesis by (simp add: tool_event_def talk_outcome_def Let_def)
    next
      case ok: (Inr result)
      obtain r s2 where send: "client_send E (client_tool_result call result) ?s1 = (r, s2)"
        by (cases "client_send E (client_tool_result call result) ?s1")
      show ?thesis
      proof (cases r)
        case (Inl e)
        with send client_send_cases(2) have "s2 = ?s1" by blast
        with few Inr ok send Inl one show ?thesis by (simp add: tool_event_def talk_outcome_def Let_def)
      next
        case sent: (Inr u)
        then obtain t where t: "ce_dump E (JObj (client_tool_result call result)) = Inr t"
          "s2 = ?s1\<lparr>tk_sent := tk_sent s @ [t]\<rparr>"
          using client_send_cases(1) [of E "client_tool_result call result" ?s1 s2] send by auto
        have "answers E H call t" using ok t(1) by (simp add: answers_def)
        with inv few t(2) have "all_answered E H s2"
          by (auto simp: all_answered_def intro: list_all2_appendI)
        with few Inr ok send sent show ?thesis by (simp add: tool_event_def talk_outcome_def Let_def)
      qed
    qed
  qed
qed

lemma delta_event_keeps:
  "tk_tools (snd (delta_event H event s)) = tk_tools s" "tk_sent (snd (delta_event H event s)) = tk_sent s"
  "tk_tools (snd (done_event H event s)) = tk_tools s" "tk_sent (snd (done_event H event s)) = tk_sent s"
  by (auto simp: delta_event_def done_event_def hand_delta_def split: option.split json.split sum.split)

lemma conversation_event_outcome:
  assumes "all_answered E H s"
  shows "talk_outcome E H (conversation_event E H event s)"
proof -
  have "talk_outcome E H (delta_event H event s)" "talk_outcome E H (done_event H event s)"
    using assms delta_event_keeps [of H event s]
      all_answered_cong [of "snd (delta_event H event s)" s] all_answered_cong [of "snd (done_event H event s)" s]
    by (simp_all add: talk_outcome_def)
  then show ?thesis
    using tool_event_outcome [OF assms] assms
    by (auto simp: conversation_event_def Let_def talk_outcome_def split: option.splits)
qed

lemma conversation_frame_outcome:
  assumes "all_answered E H s"
  shows "talk_outcome E H (conversation_frame E H frame s)"
proof (cases frame)
  case (TextFrame raw)
  with conversation_event_outcome [OF assms] show ?thesis
    by (cases "decode_event E raw") (simp_all add: conversation_frame_def talk_outcome_def assms)
qed (use assms in \<open>simp_all add: conversation_frame_def talk_outcome_def\<close>)

lemma conversation_loop_outcome:
  "all_answered E H s \<Longrightarrow> talk_outcome E H (conversation_loop E H frames s)"
proof (induction frames arbitrary: s)
  case (Cons frame frames)
  obtain r s1 where r: "conversation_frame E H frame s = (r, s1)" by (cases "conversation_frame E H frame s")
  with conversation_frame_outcome [OF Cons.prems, of frame] have out: "talk_outcome E H (r, s1)" by simp
  show ?case
  proof (cases r)
    case None
    with out have "all_answered E H s1" by (simp add: talk_outcome_def)
    with r None Cons.IH show ?thesis by simp
  next
    case (Some x)
    with r out show ?thesis by simp
  qed
qed (simp add: talk_outcome_def)

text \<open>C22: Every tool call of a turn is answered, once and in order. When a conversation still runs or has
  ended well, the messages sent are the start message and then, for each call handed to the tool handler, the
  one result that the handler returned for it; a conversation that fails has left at most its last call
  unanswered; and no turn hands on more than ten calls.\<close>
theorem conversation_answers_tool_calls:
  assumes "converse E H start frames = (r, s)" "tk_sent s \<noteq> []"
  shows "length (tk_tools s) \<le> 10
    \<and> (\<exists>n. n \<le> length (tk_tools s) \<and> length (tk_tools s) \<le> n + 1
        \<and> list_all2 (answers E H) (take n (tk_tools s)) (tl (tk_sent s))
        \<and> ((\<forall>e. r \<noteq> Some (Inl e)) \<longrightarrow> n = length (tk_tools s)))"
proof -
  obtain t where start: "serialize_conversation_message E (merge_dict [(''type'', JStr ''start'')] start) = Inr t"
    using assms by (cases "serialize_conversation_message E (merge_dict [(''type'', JStr ''start'')] start)")
      (auto simp: converse_def new_talk_def)
  have sent: "ce_send E 0 = Inr ()"
    using assms start by (cases "ce_send E 0") (auto simp: converse_def new_talk_def)
  let ?s0 = "new_talk\<lparr>tk_sent := [t]\<rparr>"
  obtain q s' where q: "conversation_loop E H frames ?s0 = (q, s')" by (cases "conversation_loop E H frames ?s0")
  have "all_answered E H ?s0" by (simp add: all_answered_def new_talk_def)
  with conversation_loop_outcome q have out: "talk_outcome E H (q, s')" by metis
  have s: "s' = s" "(\<exists>e. q = Some (Inl e)) \<longleftrightarrow> (\<exists>e. r = Some (Inl e))"
    using assms(1) start sent q by (auto simp: converse_def split: option.splits sum.splits)
  show ?thesis
  proof (cases "all_answered E H s")
    case True
    then show ?thesis by (intro conjI exI [of _ "length (tk_tools s)"]) (auto simp: all_answered_def MAX_TOOL_CALLS_def)
  next
    case False
    with out s have fails: "\<exists>e. r = Some (Inl e)" and l: "last_unanswered E H s" by (auto simp: talk_outcome_def)
    from l obtain calls call u us where c: "tk_tools s = calls @ [call]" "tk_sent s = u # us" "list_all2 (answers E H) calls us"
      by (auto simp: last_unanswered_def)
    with l fails show ?thesis
      by (intro conjI exI [of _ "length calls"]) (auto simp: last_unanswered_def MAX_TOOL_CALLS_def)
  qed
qed

definition sample_calling_env :: client_env where
  "sample_calling_env =
     sample_client_env\<lparr>ce_parse := (\<lambda>_. Parsed (JObj [(''type'', JStr ''tool_call''), (''request_id'', JInt 4),
       (''call_id'', JStr ''c''), (''name'', JStr ''HassTurnOn''), (''arguments'', JObj [])]))\<rparr>"

theorem conversation_answers_tool_calls_witness:
  "\<exists>s. converse sample_calling_env sample_handlers [] [TextFrame ''c''] = (None, s) \<and> length (tk_tools s) = 1
     \<and> list_all2 (answers sample_calling_env sample_handlers) (tk_tools s) (tl (tk_sent s))"
proof -
  let ?call = "\<lparr>bt_call_id = ''c'', bt_name = ''HassTurnOn'', bt_arguments = [], bt_request_id = JInt 4\<rparr>"
  let ?s = "\<lparr>tk_sent = [''m'', ''m''], tk_deltas = [], tk_tools = [?call], tk_received_delta = False\<rparr>"
  have run: "converse sample_calling_env sample_handlers [] [TextFrame ''c''] = (None, ?s)"
    by (simp add: converse_def sample_calling_env_def sample_client_env_def sample_handlers_def
        serialize_conversation_message_def merge_dict_def conversation_frame_def decode_event_def conversation_event_def
        tool_event_def decode_tool_call_def tool_arguments_def non_empty_text_def valid_request_id_def client_send_def
        new_talk_def jget_def jget_default_def MAX_TOOL_CALLS_def)
  from conversation_answers_tool_calls [OF run] obtain n where
    "n = length (tk_tools ?s)" "list_all2 (answers sample_calling_env sample_handlers) (take n (tk_tools ?s)) (tl (tk_sent ?s))"
    by auto
  with run show ?thesis by auto
qed

subsection \<open>A tool call of the app server, there and back\<close>

lemma tool_call_event_fields:
  assumes "map_of params ''callId'' = Some (JStr call_id)" "jget params ''tool'' = JStr name"
    and "map_of params ''arguments'' = Some (JObj args)"
  shows "map_of (tool_call_message frepr event params) ''call_id'' = Some (JStr call_id)"
    "map_of (tool_call_message frepr event params) ''name'' = Some (JStr name)"
    "map_of (tool_call_message frepr event params) ''arguments'' = Some (JObj args)"
    "map_of (tool_call_message frepr event params) ''request_id'' = Some (jget event ''id'')"
    "map_of (tool_call_message frepr event params) ''type'' = Some (JStr ''tool_call'')"
    "map_of (tool_call_message frepr event params) ''id'' = None" "map_of (tool_call_message frepr event params) ''tool_name'' = None"
  using assms by (simp_all add: tool_call_message_def jget_default_def)

lemma absent_field: "map_of m k = None \<Longrightarrow> jget_default m k d = d"
  by (simp add: jget_default_def)

lemma call_reaches_client:
  assumes d: "delivers bridge_dump (ce_loads E) to_client"
    and fields: "map_of params ''callId'' = Some (JStr call_id)" "jget params ''tool'' = JStr name"
      "map_of params ''arguments'' = Some (JObj args)" "call_id \<noteq> []" "name \<noteq> []"
    and id: "jget event ''id'' = JInt i \<or> jget event ''id'' = JStr i'"
    and raw: "bridge_dump (JObj (tool_call_message frepr event params)) = Inr raw"
    and args': "to_client (JObj args) = JObj args'"
  shows "\<exists>m. decode_event E raw = Inr m \<and> jget m ''type'' = JStr ''tool_call''
    \<and> decode_tool_call E m =
        Inr \<lparr>bt_call_id = call_id, bt_name = name, bt_arguments = args', bt_request_id = jget event ''id''\<rparr>"
proof -
  obtain m where m: "to_client (JObj (tool_call_message frepr event params)) = JObj m"
    "\<And>k. map_of m k = map_option to_client (map_of (tool_call_message frepr event params) k)"
    using delivers_object [OF d] by blast
  have loads: "ce_parse E raw = Parsed (JObj m)" using delivers_text [OF d raw] m(1) by (simp add: ce_loads_iff)
  note f = tool_call_event_fields [OF fields(1-3), of frepr event]
  note sc = delivers_scalars [OF d]
  have request: "to_client (jget event ''id'') = jget event ''id''" using id sc(2,3) by auto
  have g: "jget_default m ''arguments'' x = JObj args'" "jget m ''call_id'' = JStr call_id" "jget m ''name'' = JStr name"
    "jget_default m ''name'' x = JStr name" "jget m ''request_id'' = jget event ''id''" "jget m ''type'' = JStr ''tool_call''"
    "jget_default m ''id'' x = x" for x
    using f request args' sc(2) by (simp_all add: jget_def jget_default_def m(2))
  have valid: "valid_request_id (jget event ''id'')" using id by (auto simp: valid_request_id_def)
  have "decode_tool_call E m =
      Inr \<lparr>bt_call_id = call_id, bt_name = name, bt_arguments = args', bt_request_id = jget event ''id''\<rparr>"
    using fields(4,5) valid by (simp add: decode_tool_call_def tool_arguments_def g non_empty_text_def)
  with loads g(6) show ?thesis by (simp add: decode_event_def)
qed

lemma result_reaches_bridge:
  assumes d: "delivers (ce_dump E) bridge_loads to_bridge"
    and t: "ce_dump E (JObj (client_tool_result call result)) = Inr t"
    and request: "bt_request_id call = JInt i \<or> bt_request_id call = JStr i'"
    and open_call: "map_of tools (bt_call_id call) = Some (bt_request_id call)"
  shows "\<exists>reply. bridge_loads t = Some (JObj reply) \<and> tool_result_response frepr reply tools =
    Inr (bt_call_id call, bt_request_id call,
      [(''contentItems'', JArr [JObj [(''type'', JStr ''inputText''),
          (''text'', JStr (dumps frepr (to_bridge (JObj result))))]]),
       (''success'', JBool (\<not> has_key result ''error''))])"
proof -
  obtain reply where m: "to_bridge (JObj (client_tool_result call result)) = JObj reply"
    "\<And>k. map_of reply k = map_option to_bridge (map_of (client_tool_result call result) k)"
    using delivers_object [OF d] by blast
  obtain result' where r: "to_bridge (JObj result) = JObj result'" using delivers_object [OF d] by blast
  note sc = delivers_scalars [OF d]
  have id: "to_bridge (bt_request_id call) = bt_request_id call" using request sc(2,3) by auto
  have g: "jget_default reply ''call_id'' x = JStr (bt_call_id call)" "jget reply ''request_id'' = bt_request_id call"
    "jget reply ''content_items'' = JNull" "jget_default reply ''result'' x = JObj result'"
    "jget_default reply ''success'' x = JBool (\<not> has_key result ''error'')" for x
    using id r sc(2,4) by (simp_all add: jget_def jget_default_def m(2) client_tool_result_def)
  have "request_matches (bt_request_id call) (bt_request_id call)" using request by (auto simp: request_matches_def)
  moreover have "jget tools (bt_call_id call) = bt_request_id call" using open_call by (simp add: jget_def)
  ultimately have "tool_result_response frepr reply tools = Inr (bt_call_id call, bt_request_id call,
      [(''contentItems'', JArr [JObj [(''type'', JStr ''inputText''), (''text'', JStr (dumps frepr (JObj result')))]]),
       (''success'', JBool (\<not> has_key result ''error''))])"
    using request by (auto simp: tool_result_response_def g result_text_def)
  with delivers_text [OF d t] m(1) r show ?thesis by simp
qed

text \<open>C5: A tool call of the app server comes back as the answer of the Home Assistant tool it names. The
  bridge forwards the server's call over the conversation socket, the client hands it to the tool handler
  with its name and arguments and sends one result, and the bridge accepts that result for the server's request:
  the content is what the tool returned, and the call succeeded unless the result holds an error.\<close>
theorem conversation_tool_round_trip:
  assumes "delivers bridge_dump (ce_loads E) to_client" "delivers (ce_dump E) bridge_loads to_bridge"
    and "jget event ''method'' = JStr ''item/tool/call''" "has_key event ''id''"
      "jget event ''id'' = JInt i \<or> jget event ''id'' = JStr i'"
    and "map_of params ''callId'' = Some (JStr call_id)" "jget params ''tool'' = JStr name"
      "map_of params ''arguments'' = Some (JObj args)" "call_id \<noteq> []" "name \<noteq> []" "to_client (JObj args) = JObj args'"
    and "bridge_dump (JObj (tool_call_message frepr event params)) = Inr raw"
    and "call = \<lparr>bt_call_id = call_id, bt_name = name, bt_arguments = args', bt_request_id = jget event ''id''\<rparr>"
    and "length (tk_tools s) < 10" "on_tool H call = Inr result"
    and "ce_dump E (JObj (client_tool_result call result)) = Inr t" "ce_send E (length (tk_sent s)) = Inr ()"
    and "bridge' = handle_active_turn_event frepr event params turn bridge"
  shows "te_sent bridge' = te_sent bridge @ [tool_call_message frepr event params]
    \<and> conversation_frame E H (TextFrame raw) s = (None, s\<lparr>tk_tools := tk_tools s @ [call], tk_sent := tk_sent s @ [t]\<rparr>)
    \<and> (\<exists>reply. bridge_loads t = Some (JObj reply) \<and> tool_result_response frepr reply (te_tools bridge') =
        Inr (call_id, jget event ''id'',
          [(''contentItems'', JArr [JObj [(''type'', JStr ''inputText''),
              (''text'', JStr (dumps frepr (to_bridge (JObj result))))]]),
           (''success'', JBool (\<not> has_key result ''error''))]))"
proof -
  have call_id: "jget_default params ''callId'' x = JStr call_id" for x using assms(6) by (simp add: jget_default_def)
  have bridge: "te_sent bridge' = te_sent bridge @ [tool_call_message frepr event params]"
    "map_of (te_tools bridge') call_id = Some (jget event ''id'')"
    using assms(3,4,18) by (simp_all add: handle_active_turn_event_def send_event_def Let_def call_id)
  obtain m where m: "decode_event E raw = Inr m" "jget m ''type'' = JStr ''tool_call''" "decode_tool_call E m = Inr call"
    using call_reaches_client [OF assms(1) assms(6-10) assms(5) assms(12,11)] assms(13) by blast
  have "conversation_frame E H (TextFrame raw) s = (None, s\<lparr>tk_tools := tk_tools s @ [call], tk_sent := tk_sent s @ [t]\<rparr>)"
    using m assms(14,15,17) assms(16) [folded serialize_ok]
    by (simp add: conversation_frame_def conversation_event_def tool_event_def client_send_def
        MAX_TOOL_CALLS_def Let_def)
  moreover have "\<exists>reply. bridge_loads t = Some (JObj reply) \<and> tool_result_response frepr reply (te_tools bridge') =
        Inr (call_id, jget event ''id'',
          [(''contentItems'', JArr [JObj [(''type'', JStr ''inputText''),
              (''text'', JStr (dumps frepr (to_bridge (JObj result))))]]),
           (''success'', JBool (\<not> has_key result ''error''))])"
    using result_reaches_bridge [OF assms(2,16), of i i' "te_tools bridge'" frepr] assms(5,13) bridge(2) by simp
  ultimately show ?thesis using bridge(1) by blast
qed

text \<open>One call over a pair of serializers that know just the two messages of the trip.\<close>

definition sample_call_event :: obj where
  "sample_call_event = [(''method'', JStr ''item/tool/call''), (''id'', JInt 4)]"

definition sample_call_params :: obj where
  "sample_call_params =
     [(''callId'', JStr ''c''), (''tool'', JStr ''HassTurnOn''), (''arguments'', JObj [(''name'', JStr ''lamp'')])]"

definition sample_bridge_call :: bridge_tool_call where
  "sample_bridge_call =
     \<lparr>bt_call_id = ''c'', bt_name = ''HassTurnOn'', bt_arguments = [(''name'', JStr ''lamp'')], bt_request_id = JInt 4\<rparr>"

definition sample_dump :: "json \<Rightarrow> string result" where
  "sample_dump v =
     (if v = JObj (tool_call_message (\<lambda>_. []) sample_call_event sample_call_params) then Inr ''1''
      else if v = JObj (client_tool_result sample_bridge_call [(''ok'', JBool True)]) then Inr ''2''
      else Inl (TypeError []))"

definition sample_loads :: "string \<Rightarrow> json option" where
  "sample_loads t =
     (if t = ''1'' then Some (JObj (tool_call_message (\<lambda>_. []) sample_call_event sample_call_params))
      else if t = ''2'' then Some (JObj (client_tool_result sample_bridge_call [(''ok'', JBool True)]))
      else None)"

definition sample_trip_env :: client_env where
  "sample_trip_env = \<lparr>ce_parse = (\<lambda>t. case sample_loads t of Some v \<Rightarrow> Parsed v | None \<Rightarrow> NotJson), ce_dump = sample_dump, ce_send = (\<lambda>_. Inr ()), ce_repr = (\<lambda>_. [])\<rparr>"

lemma sample_pair_delivers: "delivers sample_dump sample_loads (\<lambda>v. v)"
  by (rule delivers_identity) (auto simp: sample_dump_def sample_loads_def split: if_splits)

lemma sample_trip_loads: "ce_loads sample_trip_env = sample_loads"
  by (rule ext) (simp add: ce_loads_def sample_trip_env_def split: option.split)

lemma sample_dumps:
  "sample_dump (JObj (tool_call_message (\<lambda>_. []) sample_call_event sample_call_params)) = Inr ''1''"
  "sample_dump (JObj (client_tool_result sample_bridge_call [(''ok'', JBool True)])) = Inr ''2''"
  by (simp_all add: sample_dump_def client_tool_result_def tool_call_message_def)

theorem conversation_tool_round_trip_witness:
  "conversation_frame sample_trip_env sample_handlers (TextFrame ''1'') new_talk =
     (None, new_talk\<lparr>tk_tools := [sample_bridge_call], tk_sent := [''2'']\<rparr>)
   \<and> (\<exists>reply. sample_loads ''2'' = Some (JObj reply)
       \<and> is_ok (tool_result_response (\<lambda>_. []) reply (te_tools
           (handle_active_turn_event (\<lambda>_. []) sample_call_event sample_call_params ''1'' new_turn_events))))"
proof -
  have "te_sent (handle_active_turn_event (\<lambda>_. []) sample_call_event sample_call_params ''1'' new_turn_events) =
      te_sent new_turn_events @ [tool_call_message (\<lambda>_. []) sample_call_event sample_call_params]
    \<and> conversation_frame sample_trip_env sample_handlers (TextFrame ''1'') new_talk =
       (None, new_talk\<lparr>tk_tools := tk_tools new_talk @ [sample_bridge_call], tk_sent := tk_sent new_talk @ [''2'']\<rparr>)
    \<and> (\<exists>reply. sample_loads ''2'' = Some (JObj reply) \<and> tool_result_response (\<lambda>_. []) reply (te_tools
         (handle_active_turn_event (\<lambda>_. []) sample_call_event sample_call_params ''1'' new_turn_events)) =
        Inr (''c'', jget sample_call_event ''id'',
          [(''contentItems'', JArr [JObj [(''type'', JStr ''inputText''),
              (''text'', JStr (dumps (\<lambda>_. []) (JObj [(''ok'', JBool True)])))]]),
           (''success'', JBool (\<not> has_key [(''ok'', JBool True)] ''error''))]))"
    by (rule conversation_tool_round_trip [where bridge_dump = sample_dump and to_client = "\<lambda>v. v" and to_bridge = "\<lambda>v. v"
          and i = 4 and i' = "[]" and name = "''HassTurnOn''" and args = "[(''name'', JStr ''lamp'')]"
          and args' = "[(''name'', JStr ''lamp'')]" and call = sample_bridge_call and turn = "''1''" and bridge = new_turn_events])
      (simp_all add: sample_trip_loads sample_pair_delivers,
       simp_all add: sample_trip_env_def sample_pair_delivers sample_dumps sample_handlers_def,
       simp_all add: sample_call_event_def sample_call_params_def sample_bridge_call_def new_talk_def has_key_def jget_def)
  then show ?thesis by (auto simp: new_talk_def)
qed

end
