(* ===== verification/Handoff_Tickets.thy ===== *)
theory Handoff_Tickets
  imports Json Py_Text Event_System "HOL-Library.Multiset"
begin

text \<open>
  The one-shot tickets with which \<^verbatim>\<open>custom_components/codex_voice/api.py\<close> lets a synthesis reuse the session of
  the transcription before it. Preparations and tickets are objects shared by copied contexts, so they live in
  two stores and are named by their place in them; a context holds the values of the three context variables.
  Every function here runs without an \<^verbatim>\<open>await\<close>. A client and a chat session are their object identities, and
  \<open>hf_releases\<close> lists the release requests scheduled, each one task.
\<close>

section \<open>Languages\<close>

text \<open>
  \<open>str.isalpha\<close> and \<open>str.upper\<close> for the code points 0 to 255. The capitals of the micro sign and of y with
  diaeresis lie outside this range; both are left as they are.
\<close>

definition is_alpha_latin :: "char \<Rightarrow> bool" where
  "is_alpha_latin c \<longleftrightarrow>
     is_alpha_ascii c \<or> ord_of c \<in> {170, 181, 186} \<or> in_span 192 255 c \<and> ord_of c \<notin> {215, 247}"

definition upper_latin :: "char \<Rightarrow> string" where
  "upper_latin c =
     (if is_lower_ascii c \<or> in_span 224 254 c \<and> ord_of c \<noteq> 247 then [char_of (ord_of c - 32)]
      else if ord_of c = 223 then ''SS'' else [c])"

definition normal_part :: "string \<Rightarrow> string" where
  "normal_part part = (if length part = 2 \<and> list_all is_alpha_latin part then concat (map upper_latin part) else part)"

definition normalize_speech_language :: "string \<Rightarrow> string" where
  "normalize_speech_language language =
     (case split_on (CHR ''-'') (map (\<lambda>c. if c = CHR ''_'' then CHR ''-'' else c) (strip language)) of
        [] \<Rightarrow> []
      | primary # parts \<Rightarrow>
          if list_ex (\<lambda>part. part = []) (primary # parts) then []
          else join_with ''-'' (lower primary # map normal_part parts))"

section \<open>State\<close>

definition SPEECH_SESSION_HANDOFF_OPTION :: string where
  "SPEECH_SESSION_HANDOFF_OPTION = ''_codex_voice_pipeline_handoff''"

definition SPEECH_SESSION_HANDOFF_OPTION_VALUE :: int where "SPEECH_SESSION_HANDOFF_OPTION_VALUE = 1"

definition SPEECH_SESSION_HANDOFF_VERSION :: int where "SPEECH_SESSION_HANDOFF_VERSION = 1"

record preparation =
  pp_client :: nat
  pp_session :: nat
  pp_voice :: string
  pp_consumed :: bool

record handoff_request =
  hq_client :: nat
  hq_session :: nat
  hq_preparation :: nat
  hq_voice :: string
  hq_language :: string

record ticket =
  ht_client :: nat
  ht_session :: nat
  ht_preparation :: nat
  ht_token :: string
  ht_voice :: string
  ht_language :: string
  ht_expires_at :: rat
  ht_used :: bool
  ht_timer :: bool

record task_context =
  cx_session :: "nat option"
  cx_preparation :: "nat option"
  cx_pending :: "nat option"

datatype release_phase = ReleaseRuns | ReleaseCancelling | ReleaseDone

record handoffs =
  hf_now :: rat
  hf_preparations :: "preparation list"
  hf_tickets :: "ticket list"
  hf_contexts :: "task_context list"
  hf_releases :: "(nat \<times> string) list"
  hf_release_phases :: "release_phase list"

definition new_handoffs :: handoffs where
  "new_handoffs =
     \<lparr>hf_now = 0, hf_preparations = [], hf_tickets = [],
      hf_contexts = [\<lparr>cx_session = None, cx_preparation = None, cx_pending = None\<rparr>], hf_releases = [],
      hf_release_phases = []\<rparr>"

definition set_pending :: "nat \<Rightarrow> nat option \<Rightarrow> handoffs \<Rightarrow> handoffs" where
  "set_pending c p h = h\<lparr>hf_contexts := (hf_contexts h)[c := (hf_contexts h ! c)\<lparr>cx_pending := p\<rparr>]\<rparr>"

definition set_preparation :: "nat \<Rightarrow> nat \<Rightarrow> handoffs \<Rightarrow> handoffs" where
  "set_preparation c p h = h\<lparr>hf_contexts := (hf_contexts h)[c := (hf_contexts h ! c)\<lparr>cx_preparation := Some p\<rparr>]\<rparr>"

text \<open>The ticket is consumed or revoked, and its timer cancelled.\<close>

definition use_ticket :: "nat \<Rightarrow> handoffs \<Rightarrow> handoffs" where
  "use_ticket p h = h\<lparr>hf_tickets := (hf_tickets h)[p := (hf_tickets h ! p)\<lparr>ht_used := True, ht_timer := False\<rparr>]\<rparr>"

definition schedule_release :: "nat \<Rightarrow> string \<Rightarrow> handoffs \<Rightarrow> handoffs" where
  "schedule_release client token h = 
     h\<lparr>hf_releases := hf_releases h @ [(client, token)], hf_release_phases := hf_release_phases h @ [ReleaseRuns]\<rparr>"

text \<open>A release task ends, and a client whose entry unloads cancels its tasks that still run.\<close>

definition release_done :: "nat \<Rightarrow> handoffs \<Rightarrow> handoffs" where
  "release_done i h = h\<lparr>hf_release_phases := (hf_release_phases h)[i := ReleaseDone]\<rparr>"

definition cancel_handoff_release_tasks :: "nat \<Rightarrow> handoffs \<Rightarrow> handoffs" where
  "cancel_handoff_release_tasks client h =
     h\<lparr>hf_release_phases := map (\<lambda>((k, token), phase). if k = client \<and> phase \<noteq> ReleaseDone then ReleaseCancelling else phase)
         (zip (hf_releases h) (hf_release_phases h))\<rparr>"

section \<open>Operations\<close>

definition prepare_handoff :: "nat \<Rightarrow> string \<Rightarrow> nat \<Rightarrow> handoffs \<Rightarrow> bool \<times> handoffs" where
  "prepare_handoff client voice c h =
     (case cx_session (hf_contexts h ! c) of
        None \<Rightarrow> (False, h)
      | Some session \<Rightarrow>
          let prepared = (True, set_preparation c (length (hf_preparations h))
                (h\<lparr>hf_preparations := hf_preparations h @
                     [\<lparr>pp_client = client, pp_session = session, pp_voice = voice, pp_consumed = False\<rparr>]\<rparr>))
          in case cx_preparation (hf_contexts h ! c) of
               None \<Rightarrow> prepared
             | Some p \<Rightarrow>
                 let preparation = hf_preparations h ! p in
                 if pp_session preparation = session
                 then (pp_client preparation = client \<and> pp_voice preparation = voice \<and> \<not> pp_consumed preparation, h)
                 else if \<not> pp_consumed preparation then (False, h)
                 else prepared)"

definition revoke_pending :: "nat \<Rightarrow> handoffs \<Rightarrow> handoffs" where
  "revoke_pending c h =
     (let h1 = set_pending c None h in
      case cx_pending (hf_contexts h ! c) of
        None \<Rightarrow> h1
      | Some p \<Rightarrow>
          let pending = hf_tickets h ! p in
          if ht_used pending then h1
          else schedule_release (ht_client pending) (ht_token pending) (use_ticket p h1))"

definition begin_handoff :: "nat \<Rightarrow> string \<Rightarrow> nat \<Rightarrow> handoffs \<Rightarrow> handoff_request option \<times> handoffs" where
  "begin_handoff client language c h =
     (let h1 = revoke_pending c h in
      case (cx_session (hf_contexts h1 ! c), cx_preparation (hf_contexts h1 ! c)) of
        (Some session, Some p) \<Rightarrow>
          let preparation = hf_preparations h1 ! p;
              normalized = normalize_speech_language language
          in if pp_consumed preparation \<or> pp_client preparation \<noteq> client \<or> pp_session preparation \<noteq> session
                \<or> normalized = []
             then (None, h1)
             else (Some \<lparr>hq_client = client, hq_session = session, hq_preparation = p,
                         hq_voice = pp_voice preparation, hq_language = normalized\<rparr>,
                   h1\<lparr>hf_preparations := (hf_preparations h1)[p := preparation\<lparr>pp_consumed := True\<rparr>]\<rparr>)
      | _ \<Rightarrow> (None, h1))"

definition claim_handoff ::
    "nat \<Rightarrow> string \<Rightarrow> json \<Rightarrow> json \<Rightarrow> obj \<Rightarrow> nat \<Rightarrow> handoffs \<Rightarrow> (string option \<times> obj) \<times> handoffs" where
  "claim_handoff client language voice instructions options c h =
     (let marker = jget options SPEECH_SESSION_HANDOFF_OPTION;
          options' = dict_pop options SPEECH_SESSION_HANDOFF_OPTION;
          ctx = hf_contexts h ! c
      in if \<not> equals_int marker SPEECH_SESSION_HANDOFF_OPTION_VALUE then ((None, options'), h)
         else case cx_pending ctx of
           None \<Rightarrow> ((None, options'), h)
         | Some p \<Rightarrow>
             let pending = hf_tickets h ! p in
             if ht_used pending then ((None, options'), set_pending c None h)
             else if ht_client pending \<noteq> client \<or> Some (ht_session pending) \<noteq> cx_session ctx
                \<or> Some (ht_preparation pending) \<noteq> cx_preparation ctx
             then ((None, options'), h)
             else if ht_expires_at pending \<le> hf_now h then ((None, options'), revoke_pending c h)
             else if JStr (ht_voice pending) \<noteq> voice \<or> ht_language pending \<noteq> normalize_speech_language language
                \<or> truthy instructions
             then ((None, options'), revoke_pending c h)
             else ((Some (ht_token pending), options'), set_pending c None (use_ticket p h)))"

record handoff_metadata =
  hm_token :: string
  hm_expires_in_ms :: int
  hm_voice :: string
  hm_language :: string

definition handoff_metadata_of :: "obj \<Rightarrow> handoff_metadata option" where
  "handoff_metadata_of payload =
     (case obj_of (jget payload ''speech_session_handoff'') of
        None \<Rightarrow> None
      | Some m \<Rightarrow>
          (case (strict_int_of (jget m ''version''), non_empty_text (jget m ''token''),
              strict_int_of (jget m ''expires_in_ms''), non_empty_text (jget m ''voice''),
              non_empty_text (jget m ''language'')) of
             (Some version, Some token, Some expires_in_ms, Some voice, Some language) \<Rightarrow>
               if version \<noteq> SPEECH_SESSION_HANDOFF_VERSION \<or> 4096 < length token \<or> expires_in_ms \<le> 0 then None
               else Some \<lparr>hm_token = token, hm_expires_in_ms = expires_in_ms, hm_voice = voice, hm_language = language\<rparr>
           | _ \<Rightarrow> None))"

definition store_pending :: "obj \<Rightarrow> handoff_request \<Rightarrow> nat \<Rightarrow> handoffs \<Rightarrow> handoffs" where
  "store_pending payload request c h =
     (case handoff_metadata_of payload of
        None \<Rightarrow> h
      | Some m \<Rightarrow>
          let normalized = normalize_speech_language (hm_language m);
              ctx = hf_contexts h ! c
          in if cx_session ctx \<noteq> Some (hq_session request)
                \<or> cx_preparation ctx \<noteq> Some (hq_preparation request)
                \<or> \<not> pp_consumed (hf_preparations h ! hq_preparation request)
                \<or> hm_voice m \<noteq> hq_voice request \<or> normalized \<noteq> hq_language request
             then schedule_release (hq_client request) (hm_token m) h
             else
               let h1 = revoke_pending c h;
                   pending = \<lparr>ht_client = hq_client request, ht_session = hq_session request,
                     ht_preparation = hq_preparation request, ht_token = hm_token m, ht_voice = hm_voice m,
                     ht_language = normalized,
                     ht_expires_at = hf_now h + of_int (hm_expires_in_ms m) / 1000, ht_used = False, ht_timer = True\<rparr>
               in set_pending c (Some (length (hf_tickets h1))) (h1\<lparr>hf_tickets := hf_tickets h1 @ [pending]\<rparr>))"

text \<open>\<^verbatim>\<open>_store_speech_session_handoff\<close> of a client: only for a request it made itself.\<close>

definition store_handoff :: "nat \<Rightarrow> obj \<Rightarrow> handoff_request option \<Rightarrow> nat \<Rightarrow> handoffs \<Rightarrow> handoffs" where
  "store_handoff client payload request c h =
     (case request of
        None \<Rightarrow> h
      | Some request' \<Rightarrow> if hq_client request' \<noteq> client then h else store_pending payload request' c h)"

definition expire_handoff :: "nat \<Rightarrow> handoffs \<Rightarrow> handoffs" where
  "expire_handoff p h =
     (let pending = hf_tickets h ! p;
          h1 = h\<lparr>hf_tickets := (hf_tickets h)[p := pending\<lparr>ht_timer := False\<rparr>]\<rparr>
      in if ht_used pending then h1
         else schedule_release (ht_client pending) (ht_token pending)
           (h1\<lparr>hf_tickets := (hf_tickets h1)[p := (hf_tickets h1 ! p)\<lparr>ht_used := True\<rparr>]\<rparr>))"

section \<open>Runs\<close>

text \<open>
  Any interleaving of the operations in any contexts. Home Assistant copies contexts and sets the chat session;
  the event loop calls a timer that is armed and due. A store uses the request that the \<open>k\<close>-th successful
  begin returned. The run keeps a history: those requests, the tokens claims returned, each with its client,
  the tokens of valid results, and for each of these the request whose transcription it was the result of.
\<close>

datatype handoff_event =
    CopyContext nat | EnterSession nat "nat option" | TimePasses rat
  | Prepare nat nat string | Begin nat nat string
  | Store nat nat obj nat | Claim nat nat string json json obj | Revoke nat | TimerFires nat
  | ReleaseEnds nat | UnloadClient nat

record handoff_run =
  hr_state :: handoffs
  hr_requests :: "handoff_request list"
  hr_claims :: "(nat \<times> string) list"
  hr_offered :: "(nat \<times> string) list"
  hr_results :: "(handoff_request \<times> string) list"

definition new_handoff_run :: handoff_run where
  "new_handoff_run = \<lparr>hr_state = new_handoffs, hr_requests = [], hr_claims = [], hr_offered = [], hr_results = []\<rparr>"

definition live_context :: "nat \<Rightarrow> handoff_run \<Rightarrow> bool" where
  "live_context c r \<longleftrightarrow> c < length (hf_contexts (hr_state r))"

definition offer_of :: "nat \<Rightarrow> handoff_request \<Rightarrow> obj \<Rightarrow> (nat \<times> string) list" where
  "offer_of client request payload =
     (case handoff_metadata_of payload of
        None \<Rightarrow> []
      | Some m \<Rightarrow> if hq_client request \<noteq> client then [] else [(client, hm_token m)])"

definition result_of :: "nat \<Rightarrow> handoff_request \<Rightarrow> obj \<Rightarrow> (handoff_request \<times> string) list" where
  "result_of client request payload = map (\<lambda>(_, token). (request, token)) (offer_of client request payload)"

fun handoff_step :: "handoff_event \<Rightarrow> handoff_run \<Rightarrow> handoff_run" where
  "handoff_step (CopyContext c) r =
     (let h = hr_state r in
      if live_context c r then r\<lparr>hr_state := h\<lparr>hf_contexts := hf_contexts h @ [hf_contexts h ! c]\<rparr>\<rparr> else r)"
| "handoff_step (EnterSession c session) r =
     (let h = hr_state r in
      if live_context c r
      then r\<lparr>hr_state := h\<lparr>hf_contexts := (hf_contexts h)[c := (hf_contexts h ! c)\<lparr>cx_session := session\<rparr>]\<rparr>\<rparr> else r)"
| "handoff_step (TimePasses d) r =
     (let h = hr_state r in if 0 \<le> d then r\<lparr>hr_state := h\<lparr>hf_now := hf_now h + d\<rparr>\<rparr> else r)"
| "handoff_step (Prepare c client voice) r =
     (if live_context c r then r\<lparr>hr_state := snd (prepare_handoff client voice c (hr_state r))\<rparr> else r)"
| "handoff_step (Begin c client language) r =
     (if live_context c r
      then (case begin_handoff client language c (hr_state r) of
              (None, h) \<Rightarrow> r\<lparr>hr_state := h\<rparr>
            | (Some request, h) \<Rightarrow> r\<lparr>hr_state := h, hr_requests := hr_requests r @ [request]\<rparr>)
      else r)"
| "handoff_step (Store c client payload k) r =
     (if live_context c r \<and> k < length (hr_requests r)
      then r\<lparr>hr_state := store_handoff client payload (Some (hr_requests r ! k)) c (hr_state r),
             hr_offered := hr_offered r @ offer_of client (hr_requests r ! k) payload,
             hr_results := hr_results r @ result_of client (hr_requests r ! k) payload\<rparr>
      else r)"
| "handoff_step (Claim c client language voice instructions options) r =
     (if live_context c r
      then (case claim_handoff client language voice instructions options c (hr_state r) of
              ((None, _), h) \<Rightarrow> r\<lparr>hr_state := h\<rparr>
            | ((Some token, _), h) \<Rightarrow> r\<lparr>hr_state := h, hr_claims := hr_claims r @ [(client, token)]\<rparr>)
      else r)"
| "handoff_step (Revoke c) r =
     (if live_context c r then r\<lparr>hr_state := revoke_pending c (hr_state r)\<rparr> else r)"
| "handoff_step (TimerFires p) r =
     (let h = hr_state r in
      if p < length (hf_tickets h) \<and> ht_timer (hf_tickets h ! p) \<and> ht_expires_at (hf_tickets h ! p) \<le> hf_now h
      then r\<lparr>hr_state := expire_handoff p h\<rparr> else r)"
| "handoff_step (ReleaseEnds i) r = r\<lparr>hr_state := release_done i (hr_state r)\<rparr>"
| "handoff_step (UnloadClient client) r = r\<lparr>hr_state := cancel_handoff_release_tasks client (hr_state r)\<rparr>"

end
