(* ===== verification/Handoff_Safety.thy ===== *)
theory Handoff_Safety
  imports Handoff_Tickets
begin

text \<open>
  Laws of the speech handoff: every ticket the bridge offers is used up exactly once, whatever the contexts
  that share it do, and a claim gets a ticket only for the client, chat session, voice and language of the
  preparation and the transcription it came from.
\<close>

section \<open>What became of the tickets\<close>

definition ticket_id :: "ticket \<Rightarrow> nat \<times> string" where
  "ticket_id t = (ht_client t, ht_token t)"

definition live_tickets :: "handoffs \<Rightarrow> (nat \<times> string) multiset" where
  "live_tickets h = mset (map ticket_id (filter (\<lambda>t. \<not> ht_used t) (hf_tickets h)))"

text \<open>The tickets that were released or may still be used.\<close>

definition balance :: "handoffs \<Rightarrow> (nat \<times> string) multiset" where
  "balance h = mset (hf_releases h) + live_tickets h"

text \<open>What of a ticket never changes.\<close>

definition ticket_terms :: "ticket \<Rightarrow> nat \<times> nat \<times> nat \<times> string \<times> string \<times> string \<times> rat" where
  "ticket_terms t =
     (ht_client t, ht_session t, ht_preparation t, ht_token t, ht_voice t, ht_language t, ht_expires_at t)"

definition handoffs_wf :: "handoffs \<Rightarrow> bool" where
  "handoffs_wf h \<longleftrightarrow>
     list_all (\<lambda>t. ht_timer t \<longleftrightarrow> \<not> ht_used t) (hf_tickets h)
     \<and> list_all (\<lambda>x. (\<forall>p. cx_pending x = Some p \<longrightarrow> p < length (hf_tickets h))
          \<and> (\<forall>p. cx_preparation x = Some p \<longrightarrow> p < length (hf_preparations h))) (hf_contexts h)"

lemma mset_filter_update:
  "p < length xs \<Longrightarrow> P (xs ! p) \<Longrightarrow> \<not> P y \<Longrightarrow>
   mset (filter P xs) = add_mset (xs ! p) (mset (filter P (xs[p := y])))"
proof (induction xs arbitrary: p)
  case (Cons x xs)
  then show ?case by (cases p) auto
qed simp

lemma list_all_update: "list_all P xs \<Longrightarrow> P y \<Longrightarrow> list_all P (xs[i := y])"
  using set_update_subset_insert [of xs i y] by (auto simp: list_all_iff)

lemma map_update_same: "f y = f (xs ! i) \<Longrightarrow> map f (xs[i := y]) = map f xs"
  by (cases "i < length xs") (metis list_update_id map_update, simp add: list_update_beyond)

lemma live_use_ticket:
  assumes "p < length (hf_tickets h)" "\<not> ht_used (hf_tickets h ! p)"
  shows "live_tickets h = add_mset (ticket_id (hf_tickets h ! p)) (live_tickets (use_ticket p h))"
proof -
  have "mset (filter (\<lambda>t. \<not> ht_used t) (hf_tickets h)) =
      add_mset (hf_tickets h ! p) (mset (filter (\<lambda>t. \<not> ht_used t) (hf_tickets (use_ticket p h))))"
    using mset_filter_update [OF assms(1), of "\<lambda>t. \<not> ht_used t"] assms(2)
    by (simp add: use_ticket_def del: mset_filter)
  then show ?thesis by (simp add: live_tickets_def)
qed

lemma live_other [simp]:
  "live_tickets (set_pending c q h) = live_tickets h" "live_tickets (set_preparation c p h) = live_tickets h"
  "live_tickets (schedule_release k t h) = live_tickets h"
  by (simp_all add: live_tickets_def set_pending_def set_preparation_def schedule_release_def)

lemma releases_other [simp]:
  "hf_releases (set_pending c q h) = hf_releases h" "hf_releases (set_preparation c p h) = hf_releases h"
  "hf_releases (use_ticket p h) = hf_releases h" "hf_releases (schedule_release k t h) = hf_releases h @ [(k, t)]"
  by (simp_all add: set_pending_def set_preparation_def use_ticket_def schedule_release_def)

lemma balance_other [simp]:
  "balance (set_pending c q h) = balance h" "balance (set_preparation c p h) = balance h"
  "balance (schedule_release k t h) = add_mset (k, t) (balance h)"
  by (simp_all add: balance_def)

lemma balance_use_ticket:
  "p < length (hf_tickets h) \<Longrightarrow> \<not> ht_used (hf_tickets h ! p) \<Longrightarrow>
   balance h = add_mset (ticket_id (hf_tickets h ! p)) (balance (use_ticket p h))"
  by (simp add: balance_def live_use_ticket)

lemma fields_other [simp]:
  "hf_tickets (set_pending c q h) = hf_tickets h" "hf_tickets (schedule_release k t h) = hf_tickets h"
  "hf_preparations (set_pending c q h) = hf_preparations h" "hf_preparations (use_ticket p h) = hf_preparations h"
  "hf_preparations (schedule_release k t h) = hf_preparations h" "hf_now (set_pending c q h) = hf_now h"
  "hf_now (use_ticket p h) = hf_now h" "hf_now (schedule_release k t h) = hf_now h"
  "length (hf_contexts (set_pending c q h)) = length (hf_contexts h)"
  "hf_contexts (use_ticket p h) = hf_contexts h" "hf_contexts (schedule_release k t h) = hf_contexts h"
  "length (hf_tickets (use_ticket p h)) = length (hf_tickets h)"
  by (simp_all add: set_pending_def schedule_release_def use_ticket_def)

lemma terms_use_ticket [simp]:
  "map ticket_terms (hf_tickets (use_ticket p h)) = map ticket_terms (hf_tickets h)"
  by (simp add: use_ticket_def ticket_terms_def map_update_same)

lemma wf_set_pending:
  "handoffs_wf h \<Longrightarrow> (\<And>p. q = Some p \<Longrightarrow> p < length (hf_tickets h)) \<Longrightarrow> handoffs_wf (set_pending c q h)"
  by (cases "c < length (hf_contexts h)")
    (auto simp: handoffs_wf_def set_pending_def intro!: list_all_update simp: list_all_length nth_list_update split: if_splits)

lemma wf_set_none [simp]: "handoffs_wf h \<Longrightarrow> handoffs_wf (set_pending c None h)"
  by (rule wf_set_pending) simp_all

lemma wf_use_ticket: "handoffs_wf h \<Longrightarrow> handoffs_wf (use_ticket p h)"
  by (auto simp: handoffs_wf_def use_ticket_def intro!: list_all_update)

lemma wf_schedule [simp]: "handoffs_wf (schedule_release k t h) \<longleftrightarrow> handoffs_wf h"
  by (simp add: handoffs_wf_def schedule_release_def)

lemma wf_pending:
  "handoffs_wf h \<Longrightarrow> c < length (hf_contexts h) \<Longrightarrow> cx_pending (hf_contexts h ! c) = Some p \<Longrightarrow> p < length (hf_tickets h)"
  "handoffs_wf h \<Longrightarrow> c < length (hf_contexts h) \<Longrightarrow> cx_preparation (hf_contexts h ! c) = Some p \<Longrightarrow>
     p < length (hf_preparations h)"
  by (auto simp: handoffs_wf_def list_all_length)

section \<open>The operations\<close>

text \<open>What an operation leaves alone that neither prepares, begins nor stores.\<close>

definition only_tickets :: "handoffs \<Rightarrow> handoffs \<Rightarrow> bool" where
  "only_tickets h h' \<longleftrightarrow>
     map ticket_terms (hf_tickets h') = map ticket_terms (hf_tickets h) \<and> hf_preparations h' = hf_preparations h
     \<and> hf_now h' = hf_now h \<and> length (hf_contexts h') = length (hf_contexts h)"

lemma only_tickets_refl [simp]: "only_tickets h h"
  by (simp add: only_tickets_def)

lemma only_tickets_set_pending: "only_tickets h (set_pending c p h)"
  by (simp add: only_tickets_def)

lemma only_tickets_used: "only_tickets h (set_pending c q (use_ticket p h))"
  by (simp add: only_tickets_def)

lemma revoke_pending_result:
  assumes "handoffs_wf h" "c < length (hf_contexts h)"
  shows "handoffs_wf (revoke_pending c h) \<and> only_tickets h (revoke_pending c h) \<and> balance (revoke_pending c h) = balance h"
proof (cases "cx_pending (hf_contexts h ! c)")
  case None
  with assms show ?thesis by (simp add: revoke_pending_def only_tickets_set_pending)
next
  case (Some p)
  let ?h = "set_pending c None h"
  have p: "p < length (hf_tickets h)" using wf_pending(1) [OF assms Some] .
  have wf: "handoffs_wf ?h" using assms(1) by (rule wf_set_pending) simp
  show ?thesis
  proof (cases "ht_used (hf_tickets h ! p)")
    case True
    with Some wf show ?thesis by (simp add: revoke_pending_def Let_def only_tickets_set_pending)
  next
    case False
    then have "balance h = add_mset (ticket_id (hf_tickets h ! p)) (balance (use_ticket p ?h))"
      using balance_use_ticket [of p ?h] p by simp
    with Some False wf show ?thesis
      by (simp add: revoke_pending_def Let_def wf_use_ticket ticket_id_def only_tickets_def)
  qed
qed

lemma prepare_result:
  assumes "handoffs_wf h" "c < length (hf_contexts h)" "prepare_handoff client voice c h = (b, h')"
  shows "handoffs_wf h' \<and> balance h' = balance h \<and> hf_tickets h' = hf_tickets h
    \<and> (\<exists>new. hf_preparations h' = hf_preparations h @ new)"
proof -
  let ?new = "\<lparr>pp_client = client, pp_session = the (cx_session (hf_contexts h ! c)), pp_voice = voice, pp_consumed = False\<rparr>"
  let ?h = "set_preparation c (length (hf_preparations h)) (h\<lparr>hf_preparations := hf_preparations h @ [?new]\<rparr>)"
  have "h' = h \<or> h' = ?h"
    using assms(3) by (auto simp: prepare_handoff_def Let_def split: option.splits if_splits)
  moreover have "handoffs_wf ?h"
    using assms(1,2) by (auto simp: handoffs_wf_def set_preparation_def less_Suc_eq list_all_length nth_list_update)
  moreover have "balance ?h = balance h" by (simp add: balance_def live_tickets_def set_preparation_def)
  ultimately show ?thesis using assms(1) by (auto simp: set_preparation_def)
qed

lemma begin_result:
  assumes "handoffs_wf h" "c < length (hf_contexts h)" "begin_handoff client language c h = (request, h')"
  shows "handoffs_wf h' \<and> balance h' = balance h \<and> map ticket_terms (hf_tickets h') = map ticket_terms (hf_tickets h)
    \<and> (case request of
         None \<Rightarrow> hf_preparations h' = hf_preparations h
       | Some q \<Rightarrow>
           let p = hq_preparation q in
           p < length (hf_preparations h) \<and> \<not> pp_consumed (hf_preparations h ! p)
           \<and> hf_preparations h' = (hf_preparations h)[p := (hf_preparations h ! p)\<lparr>pp_consumed := True\<rparr>]
           \<and> hq_client q = pp_client (hf_preparations h ! p) \<and> hq_session q = pp_session (hf_preparations h ! p)
           \<and> hq_voice q = pp_voice (hf_preparations h ! p))"
proof -
  let ?h = "revoke_pending c h"
  have h: "handoffs_wf ?h" "only_tickets h ?h" "balance ?h = balance h" using revoke_pending_result [OF assms(1,2)] by auto
  then have c: "c < length (hf_contexts ?h)" "hf_preparations ?h = hf_preparations h"
    using assms(2) by (simp_all add: only_tickets_def)
  show ?thesis
  proof (cases request)
    case None
    with assms(3) have "h' = ?h" by (auto simp: begin_handoff_def Let_def split: option.splits if_splits)
    with h None show ?thesis by (simp add: only_tickets_def)
  next
    case (Some q)
    then obtain p where p: "cx_preparation (hf_contexts ?h ! c) = Some p" "\<not> pp_consumed (hf_preparations h ! p)"
      and q: "hq_preparation q = p" "hq_client q = pp_client (hf_preparations h ! p)"
        "hq_session q = pp_session (hf_preparations h ! p)" "hq_voice q = pp_voice (hf_preparations h ! p)"
      and h': "h' = ?h\<lparr>hf_preparations := (hf_preparations h)[p := (hf_preparations h ! p)\<lparr>pp_consumed := True\<rparr>]\<rparr>"
      using assms(3) c(2) by (auto simp: begin_handoff_def Let_def split: option.splits if_splits)
    have "p < length (hf_preparations h)" using wf_pending(2) [OF h(1) c(1) p(1)] c(2) by simp
    moreover have "handoffs_wf h'" using h(1) c(2) by (auto simp: h' handoffs_wf_def)
    moreover have "balance h' = balance h" using h(3) by (simp add: h' balance_def live_tickets_def)
    moreover have "hf_tickets h' = hf_tickets ?h" by (simp add: h')
    ultimately show ?thesis using Some p(2) q h(2) by (simp add: h' only_tickets_def)
  qed
qed

text \<open>A claim returns the token of the context's own ticket, or it may revoke it.\<close>

definition claimable :: "nat \<Rightarrow> string \<Rightarrow> json \<Rightarrow> json \<Rightarrow> nat \<Rightarrow> handoffs \<Rightarrow> nat \<Rightarrow> bool" where
  "claimable client language voice instructions c h p \<longleftrightarrow>
     cx_pending (hf_contexts h ! c) = Some p \<and> p < length (hf_tickets h)
     \<and> (let t = hf_tickets h ! p in
        \<not> ht_used t \<and> ht_client t = client \<and> cx_session (hf_contexts h ! c) = Some (ht_session t)
        \<and> cx_preparation (hf_contexts h ! c) = Some (ht_preparation t) \<and> hf_now h < ht_expires_at t
        \<and> voice = JStr (ht_voice t) \<and> normalize_speech_language language = ht_language t \<and> \<not> truthy instructions)"

lemma claim_result:
  assumes "handoffs_wf h" "c < length (hf_contexts h)"
    and "claim_handoff client language voice instructions options c h = ((r, options'), h')"
  shows "handoffs_wf h' \<and> only_tickets h h'
    \<and> (case r of
         None \<Rightarrow> balance h' = balance h
       | Some token \<Rightarrow> balance h = add_mset (client, token) (balance h')
           \<and> (\<exists>p. claimable client language voice instructions c h p \<and> token = ht_token (hf_tickets h ! p)
               \<and> h' = set_pending c None (use_ticket p h)))"
proof (cases r)
  case None
  with assms(3) have "h' = h \<or> h' = set_pending c None h \<or> h' = revoke_pending c h"
    by (auto simp: claim_handoff_def Let_def split: option.splits if_splits)
  with None show ?thesis
    using assms(1) revoke_pending_result [OF assms(1,2)] wf_set_pending [OF assms(1), of None c] only_tickets_set_pending
    by auto
next
  case (Some token)
  then obtain p where pending: "cx_pending (hf_contexts h ! c) = Some p"
    using assms(3) by (auto simp: claim_handoff_def Let_def split: option.splits if_splits)
  have p: "p < length (hf_tickets h)" using wf_pending(1) [OF assms(1,2) pending] .
  have t: "claimable client language voice instructions c h p" "token = ht_token (hf_tickets h ! p)"
    "h' = set_pending c None (use_ticket p h)"
    using assms(3) Some pending p
    by (auto simp: claim_handoff_def claimable_def Let_def split: if_splits)
  then have "ticket_id (hf_tickets h ! p) = (client, token)" "\<not> ht_used (hf_tickets h ! p)"
    by (auto simp: claimable_def ticket_id_def Let_def)
  then have "balance h = add_mset (client, token) (balance h')" using balance_use_ticket [OF p] by (simp add: t(3))
  moreover have "handoffs_wf h'" unfolding t(3) by (rule wf_set_pending [OF wf_use_ticket [OF assms(1)]]) simp
  ultimately show ?thesis using Some t only_tickets_used by auto
qed

text \<open>A stored result becomes the context's ticket, or is released at once.\<close>

definition fits_request :: "handoff_request \<times> string \<Rightarrow> ticket \<Rightarrow> bool" where
  "fits_request = (\<lambda>(q, token) t.
     ht_token t = token \<and> ht_client t = hq_client q \<and> ht_session t = hq_session q \<and> ht_preparation t = hq_preparation q
     \<and> ht_voice t = hq_voice q \<and> ht_language t = hq_language q)"

lemma store_result:
  assumes "handoffs_wf h" "c < length (hf_contexts h)"
  shows "handoffs_wf (store_handoff client payload (Some q) c h)
    \<and> balance (store_handoff client payload (Some q) c h) = balance h + mset (offer_of client q payload)
    \<and> hf_preparations (store_handoff client payload (Some q) c h) = hf_preparations h
    \<and> (\<exists>ts. map ticket_terms (hf_tickets (store_handoff client payload (Some q) c h)) =
          map ticket_terms (hf_tickets h) @ map ticket_terms ts
          \<and> list_all (\<lambda>t. \<exists>x \<in> set (result_of client q payload). fits_request x t) ts)"
proof (cases "hq_client q = client")
  case False
  then show ?thesis using assms by (auto simp: store_handoff_def offer_of_def split: option.split)
next
  case client: True
  show ?thesis
  proof (cases "handoff_metadata_of payload")
    case None
    with client assms show ?thesis by (simp add: store_handoff_def store_pending_def offer_of_def)
  next
    case (Some m)
    note unfold = store_handoff_def store_pending_def offer_of_def Let_def client Some
    let ?ctx = "hf_contexts h ! c"
    show ?thesis
    proof (cases "cx_session ?ctx \<noteq> Some (hq_session q) \<or> cx_preparation ?ctx \<noteq> Some (hq_preparation q)
        \<or> \<not> pp_consumed (hf_preparations h ! hq_preparation q)
        \<or> hm_voice m \<noteq> hq_voice q \<or> normalize_speech_language (hm_language m) \<noteq> hq_language q")
      case True
      then have "store_handoff client payload (Some q) c h = schedule_release client (hm_token m) h"
        by (auto simp: unfold)
      with client assms show ?thesis by (auto simp: offer_of_def Some)
    next
      case False
      let ?h = "revoke_pending c h"
      define t where "t = \<lparr>ht_client = client, ht_session = hq_session q, ht_preparation = hq_preparation q,
        ht_token = hm_token m, ht_voice = hm_voice m, ht_language = normalize_speech_language (hm_language m),
        ht_expires_at = hf_now h + of_int (hm_expires_in_ms m) / 1000, ht_used = False, ht_timer = True\<rparr>"
      define h1 where "h1 = ?h\<lparr>hf_tickets := hf_tickets ?h @ [t]\<rparr>"
      have store: "store_handoff client payload (Some q) c h = set_pending c (Some (length (hf_tickets ?h))) h1"
        using False by (simp add: unfold t_def h1_def)
      have h: "handoffs_wf ?h" "only_tickets h ?h" "balance ?h = balance h"
        using revoke_pending_result [OF assms] by auto
      have "handoffs_wf h1" using h(1) by (auto simp: h1_def t_def handoffs_wf_def list_all_iff less_Suc_eq)
      then have "handoffs_wf (set_pending c (Some (length (hf_tickets ?h))) h1)"
        by (rule wf_set_pending) (simp add: h1_def)
      moreover have "balance h1 = balance h + {#(client, hm_token m)#}"
        using h(3) by (simp add: h1_def t_def balance_def live_tickets_def ticket_id_def)
      moreover have "\<exists>x \<in> set (result_of client q payload). fits_request x t"
        using False client by (simp add: fits_request_def t_def result_of_def offer_of_def Some)
      moreover have "hf_tickets h1 = hf_tickets ?h @ [t]" "hf_preparations h1 = hf_preparations ?h" by (simp_all add: h1_def)
      ultimately show ?thesis
        unfolding store using h(2) client by (intro conjI exI [of _ "[t]"]) (auto simp: only_tickets_def offer_of_def Some)
    qed
  qed
qed

lemma expire_result:
  assumes "handoffs_wf h" "p < length (hf_tickets h)"
  shows "handoffs_wf (expire_handoff p h) \<and> only_tickets h (expire_handoff p h) \<and> balance (expire_handoff p h) = balance h"
proof (cases "ht_used (hf_tickets h ! p)")
  case True
  with assms have "\<not> ht_timer (hf_tickets h ! p)" by (auto simp: handoffs_wf_def list_all_length)
  then have "(hf_tickets h ! p)\<lparr>ht_timer := False\<rparr> = hf_tickets h ! p" by (cases "hf_tickets h ! p") simp
  with True assms have "expire_handoff p h = h" by (simp add: expire_handoff_def Let_def)
  with assms show ?thesis by simp
next
  case False
  with assms(2) have "expire_handoff p h =
      schedule_release (ht_client (hf_tickets h ! p)) (ht_token (hf_tickets h ! p)) (use_ticket p h)"
    by (cases "hf_tickets h ! p") (simp add: expire_handoff_def use_ticket_def Let_def)
  with assms False balance_use_ticket [OF assms(2) False] show ?thesis
    by (simp add: wf_use_ticket ticket_id_def only_tickets_def)
qed

section \<open>Runs\<close>

text \<open>The preparation a request consumed.\<close>

definition from_preparation :: "preparation list \<Rightarrow> handoff_request \<Rightarrow> bool" where
  "from_preparation ps q \<longleftrightarrow>
     hq_preparation q < length ps \<and> (let p = ps ! hq_preparation q in
       pp_consumed p \<and> pp_client p = hq_client q \<and> pp_session p = hq_session q \<and> pp_voice p = hq_voice q)"

definition known_terms :: "(handoff_request \<times> string) list \<Rightarrow> nat \<times> nat \<times> nat \<times> string \<times> string \<times> string \<times> rat \<Rightarrow> bool" where
  "known_terms qs = (\<lambda>(client, session, preparation, token, voice, language, expires).
     \<exists>q. (q, token) \<in> set qs \<and> client = hq_client q \<and> session = hq_session q \<and> preparation = hq_preparation q
       \<and> voice = hq_voice q \<and> language = hq_language q)"

definition handoff_inv :: "handoff_run \<Rightarrow> bool" where
  "handoff_inv r \<longleftrightarrow>
     handoffs_wf (hr_state r) \<and> mset (hr_claims r) + balance (hr_state r) = mset (hr_offered r)
     \<and> list_all (known_terms (hr_results r)) (map ticket_terms (hf_tickets (hr_state r)))
     \<and> fst ` set (hr_results r) \<subseteq> set (hr_requests r)
     \<and> list_all (from_preparation (hf_preparations (hr_state r))) (hr_requests r)
     \<and> distinct (map hq_preparation (hr_requests r))"

lemma handoff_inv_new: "handoff_inv new_handoff_run"
  by (simp add: handoff_inv_def new_handoff_run_def new_handoffs_def handoffs_wf_def balance_def live_tickets_def)

lemma inv_only_tickets:
  assumes "handoff_inv r" "handoffs_wf h" "only_tickets (hr_state r) h" "mset c + balance h = mset (hr_offered r)"
  shows "handoff_inv (r\<lparr>hr_state := h, hr_claims := c\<rparr>)"
  using assms by (simp add: handoff_inv_def only_tickets_def)

lemma inv_kept_tickets:
  assumes "handoff_inv r" "handoffs_wf h" "only_tickets (hr_state r) h" "balance h = balance (hr_state r)"
  shows "handoff_inv (r\<lparr>hr_state := h\<rparr>)"
  using assms by (simp add: handoff_inv_def only_tickets_def)

lemma known_terms_append: "known_terms qs t \<Longrightarrow> known_terms (qs @ qs') t"
  by (auto simp: known_terms_def)

lemma fits_known:
  "list_all (\<lambda>t. \<exists>x \<in> set qs. fits_request x t) ts \<Longrightarrow> list_all (known_terms qs) (map ticket_terms ts)"
  by (fastforce simp: list_all_iff known_terms_def ticket_terms_def fits_request_def)

lemma known_terms_more: "known_terms qs t \<Longrightarrow> known_terms (qs' @ qs) t"
  by (auto simp: known_terms_def)

lemma result_of_requests: "fst ` set (result_of client q payload) \<subseteq> {q}"
  by (auto simp: result_of_def)

lemma wf_copy:
  "handoffs_wf h \<Longrightarrow> c < length (hf_contexts h) \<Longrightarrow> handoffs_wf (h\<lparr>hf_contexts := hf_contexts h @ [hf_contexts h ! c]\<rparr>)"
  "handoffs_wf h \<Longrightarrow> c < length (hf_contexts h) \<Longrightarrow>
   handoffs_wf (h\<lparr>hf_contexts := (hf_contexts h)[c := (hf_contexts h ! c)\<lparr>cx_session := s\<rparr>]\<rparr>)"
  by (auto simp: handoffs_wf_def list_all_length nth_append nth_list_update split: if_splits)

lemma begin_keeps:
  assumes "handoff_inv r" "live_context c r"
  shows "handoff_inv (handoff_step (Begin c client language) r)"
proof -
  obtain request h where b: "begin_handoff client language c (hr_state r) = (request, h)"
    by (cases "begin_handoff client language c (hr_state r)")
  have inv: "handoffs_wf (hr_state r)" "c < length (hf_contexts (hr_state r))"
    using assms by (simp_all add: handoff_inv_def live_context_def)
  note result = begin_result [OF inv b]
  show ?thesis
  proof (cases request)
    case None
    with result assms b show ?thesis by (simp add: handoff_inv_def)
  next
    case (Some q)
    let ?ps = "hf_preparations (hr_state r)"
    have q: "hq_preparation q < length ?ps" "\<not> pp_consumed (?ps ! hq_preparation q)"
      "hf_preparations h = ?ps[hq_preparation q := (?ps ! hq_preparation q)\<lparr>pp_consumed := True\<rparr>]"
      "hq_client q = pp_client (?ps ! hq_preparation q)" "hq_session q = pp_session (?ps ! hq_preparation q)"
      "hq_voice q = pp_voice (?ps ! hq_preparation q)"
      using result Some by (simp_all add: Let_def)
    have old: "list_all (from_preparation ?ps) (hr_requests r)" using assms(1) by (simp add: handoff_inv_def)
    then have fresh: "hq_preparation q \<notin> set (map hq_preparation (hr_requests r))"
      using q(2) by (auto simp: list_all_iff from_preparation_def Let_def)
    have "list_all (from_preparation (hf_preparations h)) (hr_requests r)"
      unfolding list_all_iff
    proof
      fix x assume x: "x \<in> set (hr_requests r)"
      with fresh have "hq_preparation q \<noteq> hq_preparation x" by auto
      moreover have "from_preparation ?ps x" using old x by (simp add: list_all_iff)
      ultimately show "from_preparation (hf_preparations h) x"
        unfolding from_preparation_def q(3) by (simp add: Let_def)
    qed
    moreover have "from_preparation (hf_preparations h) q"
      using q by (simp add: from_preparation_def)
    moreover have "list_all (known_terms (hr_results r)) (map ticket_terms (hf_tickets h))"
      using assms(1) result by (auto simp: handoff_inv_def list_all_iff)
    moreover have "fst ` set (hr_results r) \<subseteq> set (hr_requests r @ [q])" using assms(1) by (auto simp: handoff_inv_def)
    ultimately show ?thesis using assms b Some result fresh by (simp add: handoff_inv_def)
  qed
qed

lemma handoff_step_keeps: "handoff_inv r \<Longrightarrow> handoff_inv (handoff_step e r)"
proof (cases e)
  case (CopyContext c)
  assume "handoff_inv r"
  with CopyContext wf_copy(1) [of "hr_state r" c] show ?thesis
    by (simp add: handoff_inv_def live_context_def balance_def live_tickets_def Let_def)
next
  case (EnterSession c s)
  assume "handoff_inv r"
  with EnterSession wf_copy(2) [of "hr_state r" c s] show ?thesis
    by (simp add: handoff_inv_def live_context_def balance_def live_tickets_def Let_def)
next
  case (TimePasses d)
  assume "handoff_inv r"
  with TimePasses show ?thesis
    by (simp add: handoff_inv_def handoffs_wf_def balance_def live_tickets_def Let_def)
next
  case (Prepare c client voice)
  assume inv: "handoff_inv r"
  show ?thesis
  proof (cases "live_context c r")
    case True
    obtain b h where p: "prepare_handoff client voice c (hr_state r) = (b, h)"
      by (cases "prepare_handoff client voice c (hr_state r)")
    have result: "handoffs_wf h \<and> balance h = balance (hr_state r) \<and> hf_tickets h = hf_tickets (hr_state r)
        \<and> (\<exists>new. hf_preparations h = hf_preparations (hr_state r) @ new)"
      using inv True by (intro prepare_result [OF _ _ p]) (simp_all add: handoff_inv_def live_context_def)
    then have "list_all (from_preparation (hf_preparations h)) (hr_requests r)"
      using inv by (auto simp: handoff_inv_def list_all_iff from_preparation_def nth_append Let_def)
    with inv True p result Prepare show ?thesis by (simp add: handoff_inv_def)
  qed (use inv Prepare in simp)
next
  case (Begin c client language)
  assume "handoff_inv r"
  with Begin begin_keeps show ?thesis by (cases "live_context c r") simp_all
next
  case (Store c client payload k)
  assume inv: "handoff_inv r"
  show ?thesis
  proof (cases "live_context c r \<and> k < length (hr_requests r)")
    case True
    let ?q = "hr_requests r ! k"
    have result: "handoffs_wf (store_handoff client payload (Some ?q) c (hr_state r))"
      "balance (store_handoff client payload (Some ?q) c (hr_state r)) =
        balance (hr_state r) + mset (offer_of client ?q payload)"
      "hf_preparations (store_handoff client payload (Some ?q) c (hr_state r)) = hf_preparations (hr_state r)"
      "\<exists>ts. map ticket_terms (hf_tickets (store_handoff client payload (Some ?q) c (hr_state r))) =
          map ticket_terms (hf_tickets (hr_state r)) @ map ticket_terms ts
          \<and> list_all (\<lambda>t. \<exists>x \<in> set (result_of client ?q payload). fits_request x t) ts"
      using store_result [of "hr_state r" c client payload ?q] inv True
      by (simp_all add: handoff_inv_def live_context_def)
    obtain ts where ts: "map ticket_terms (hf_tickets (store_handoff client payload (Some ?q) c (hr_state r))) =
          map ticket_terms (hf_tickets (hr_state r)) @ map ticket_terms ts"
      "list_all (\<lambda>t. \<exists>x \<in> set (result_of client ?q payload). fits_request x t) ts" using result(4) by blast
    have "list_all (known_terms (hr_results r @ result_of client ?q payload)) (map ticket_terms (hf_tickets (hr_state r)))"
      using inv known_terms_append by (auto simp: handoff_inv_def list_all_iff)
    moreover have "list_all (known_terms (hr_results r @ result_of client ?q payload)) (map ticket_terms ts)"
      using fits_known [OF ts(2)] known_terms_more by (auto simp: list_all_iff)
    ultimately have "list_all (known_terms (hr_results r @ result_of client ?q payload))
        (map ticket_terms (hf_tickets (store_handoff client payload (Some ?q) c (hr_state r))))"
      unfolding ts(1) by simp
    moreover have "fst ` set (hr_results r @ result_of client ?q payload) \<subseteq> set (hr_requests r)"
      using inv True result_of_requests [of client ?q payload] by (auto simp: handoff_inv_def)
    ultimately show ?thesis using inv True result(1-3) Store by (simp add: handoff_inv_def add.assoc [symmetric])
  qed (use inv Store in auto)
next
  case (Claim c client language voice instructions options)
  assume inv: "handoff_inv r"
  show ?thesis
  proof (cases "live_context c r")
    case True
    obtain t options' h where claim: "claim_handoff client language voice instructions options c (hr_state r) = ((t, options'), h)"
      by (cases "claim_handoff client language voice instructions options c (hr_state r)"; cases "fst (claim_handoff client language voice instructions options c (hr_state r))") auto
    have wf: "handoffs_wf (hr_state r)" "c < length (hf_contexts (hr_state r))"
      using inv True by (simp_all add: handoff_inv_def live_context_def)
    note result = claim_result [OF wf claim]
    show ?thesis
    proof (cases t)
      case None
      with result inv True claim Claim inv_kept_tickets [of r h] show ?thesis by simp
    next
      case (Some token)
      have "mset (hr_claims r @ [(client, token)]) + balance h = mset (hr_offered r)"
        using result Some inv by (simp add: handoff_inv_def)
      with result inv True claim Claim Some inv_only_tickets [of r h "hr_claims r @ [(client, token)]"] show ?thesis by simp
    qed
  qed (use inv Claim in simp)
next
  case (Revoke c)
  assume inv: "handoff_inv r"
  with Revoke revoke_pending_result [of "hr_state r" c] inv_kept_tickets [of r "revoke_pending c (hr_state r)"]
  show ?thesis by (auto simp: handoff_inv_def live_context_def)
next
  case (TimerFires p)
  assume inv: "handoff_inv r"
  with TimerFires expire_result [of "hr_state r" p] inv_kept_tickets [of r "expire_handoff p (hr_state r)"]
  show ?thesis by (auto simp: handoff_inv_def Let_def)
next
  case (ReleaseEnds i)
  assume "handoff_inv r"
  with ReleaseEnds show ?thesis
    by (simp add: handoff_inv_def handoffs_wf_def balance_def live_tickets_def release_done_def)
next
  case (UnloadClient client)
  assume "handoff_inv r"
  with UnloadClient show ?thesis
    by (simp add: handoff_inv_def handoffs_wf_def balance_def live_tickets_def cancel_handoff_release_tasks_def)
qed

interpretation handoff: event_system handoff_step handoff_inv
  by unfold_locales (rule handoff_step_keeps)

lemma run_inv: "handoff_inv (fold handoff_step es new_handoff_run)"
  by (rule handoff.run_good [OF handoff_inv_new])


text \<open>C16: A synthesis gets the session of the transcription it follows, and no other. The token a claim returns
  is the one of the ticket pending in the claiming context, which is unused and has not expired; that token came
  with a valid result of a transcription that this client began, in the chat session and with the preparation of
  the claiming context, for the voice that preparation names and in the language that is claimed; and the
  synthesis gives no instructions of its own. Each preparation is consumed by at most one transcription.\<close>
theorem claims_match_preparations:
  assumes "r = fold handoff_step es new_handoff_run" "c < length (hf_contexts (hr_state r))"
    and "claim_handoff client language voice instructions options c (hr_state r) = ((Some token, options'), h')"
  shows "(\<exists>p t q. cx_pending (hf_contexts (hr_state r) ! c) = Some p \<and> p < length (hf_tickets (hr_state r))
      \<and> t = hf_tickets (hr_state r) ! p \<and> ht_token t = token \<and> \<not> ht_used t \<and> hf_now (hr_state r) < ht_expires_at t
      \<and> (q, token) \<in> set (hr_results r) \<and> q \<in> set (hr_requests r)
      \<and> ht_client t = hq_client q \<and> ht_session t = hq_session q \<and> ht_preparation t = hq_preparation q
      \<and> (let prep = hf_preparations (hr_state r) ! hq_preparation q in
         hq_client q = client \<and> pp_client prep = client \<and> voice = JStr (pp_voice prep) \<and> pp_consumed prep
         \<and> cx_session (hf_contexts (hr_state r) ! c) = Some (pp_session prep)
         \<and> cx_preparation (hf_contexts (hr_state r) ! c) = Some (hq_preparation q)
         \<and> normalize_speech_language language = hq_language q))
    \<and> (client, token) \<in> set (hr_offered r) \<and> \<not> truthy instructions \<and> distinct (map hq_preparation (hr_requests r))"
proof -
  have inv: "handoff_inv r" using run_inv by (simp add: assms(1))
  then have "handoffs_wf (hr_state r)" by (simp add: handoff_inv_def)
  from claim_result [OF this assms(2,3)] obtain p where
    b: "balance (hr_state r) = add_mset (client, token) (balance h')"
    and p: "claimable client language voice instructions c (hr_state r) p" "token = ht_token (hf_tickets (hr_state r) ! p)"
    by auto
  let ?t = "hf_tickets (hr_state r) ! p"
  have t: "cx_pending (hf_contexts (hr_state r) ! c) = Some p" "p < length (hf_tickets (hr_state r))" "\<not> ht_used ?t"
    "hf_now (hr_state r) < ht_expires_at ?t" "ht_client ?t = client"
    "cx_session (hf_contexts (hr_state r) ! c) = Some (ht_session ?t)" "voice = JStr (ht_voice ?t)"
    "cx_preparation (hf_contexts (hr_state r) ! c) = Some (ht_preparation ?t)"
    "normalize_speech_language language = ht_language ?t" "\<not> truthy instructions"
    using p(1) by (simp_all add: claimable_def Let_def)
  have "mset (hr_offered r) = mset (hr_claims r) + balance (hr_state r)" using inv by (simp add: handoff_inv_def)
  then have "(client, token) \<in># mset (hr_offered r)" by (simp add: b)
  then have offered: "(client, token) \<in> set (hr_offered r)" by simp
  have "known_terms (hr_results r) (ticket_terms ?t)" using inv t(2) by (simp add: handoff_inv_def list_all_length)
  then obtain q where q: "(q, token) \<in> set (hr_results r)" "ht_client ?t = hq_client q" "ht_session ?t = hq_session q"
    "ht_preparation ?t = hq_preparation q" "ht_voice ?t = hq_voice q" "ht_language ?t = hq_language q"
    by (auto simp: known_terms_def ticket_terms_def p(2))
  have asked: "q \<in> set (hr_requests r)" using inv q(1) by (force simp: handoff_inv_def)
  then have prep: "from_preparation (hf_preparations (hr_state r)) q" using inv by (simp add: handoff_inv_def list_all_iff)
  have distinct: "distinct (map hq_preparation (hr_requests r))" using inv by (simp add: handoff_inv_def)
  have "let prep = hf_preparations (hr_state r) ! hq_preparation q in
         hq_client q = client \<and> pp_client prep = client \<and> voice = JStr (pp_voice prep) \<and> pp_consumed prep
         \<and> cx_session (hf_contexts (hr_state r) ! c) = Some (pp_session prep)
         \<and> cx_preparation (hf_contexts (hr_state r) ! c) = Some (hq_preparation q)
         \<and> normalize_speech_language language = hq_language q"
    using q t prep by (simp add: from_preparation_def Let_def)
  with t(1-4,10) q(1-4) p(2) asked offered distinct show ?thesis by blast
qed

text \<open>A pipeline run: preparation, transcription, its ticket, and the synthesis in a copied context.\<close>

definition sample_handoff_payload :: obj where
  "sample_handoff_payload = [(''speech_session_handoff'', JObj [(''version'', JInt 1), (''token'', JStr ''t''),
     (''expires_in_ms'', JInt 1000), (''voice'', JStr ''cove''), (''language'', JStr ''es-MX'')])]"

definition sample_handoff_events :: "handoff_event list" where
  "sample_handoff_events =
     [EnterSession 0 (Some 7), Prepare 0 1 ''cove'', Begin 0 1 ''es_mx'', Store 0 1 sample_handoff_payload 0, CopyContext 0]"

lemma sample_language: "normalize_speech_language ''es_mx'' = ''es-MX''" "normalize_speech_language ''es-MX'' = ''es-MX''"
  by code_simp+

lemma sample_handoff_run:
  "fold handoff_step sample_handoff_events new_handoff_run =
     \<lparr>hr_state = \<lparr>hf_now = 0,
        hf_preparations = [\<lparr>pp_client = 1, pp_session = 7, pp_voice = ''cove'', pp_consumed = True\<rparr>],
        hf_tickets = [\<lparr>ht_client = 1, ht_session = 7, ht_preparation = 0, ht_token = ''t'', ht_voice = ''cove'',
          ht_language = ''es-MX'', ht_expires_at = 1, ht_used = False, ht_timer = True\<rparr>],
        hf_contexts = [\<lparr>cx_session = Some 7, cx_preparation = Some 0, cx_pending = Some 0\<rparr>,
          \<lparr>cx_session = Some 7, cx_preparation = Some 0, cx_pending = Some 0\<rparr>], hf_releases = [], hf_release_phases = []\<rparr>,
      hr_requests = [\<lparr>hq_client = 1, hq_session = 7, hq_preparation = 0, hq_voice = ''cove'', hq_language = ''es-MX''\<rparr>],
      hr_claims = [], hr_offered = [(1, ''t'')],
      hr_results = [(\<lparr>hq_client = 1, hq_session = 7, hq_preparation = 0, hq_voice = ''cove'', hq_language = ''es-MX''\<rparr>, ''t'')]\<rparr>"
  by (simp add: sample_handoff_events_def new_handoff_run_def new_handoffs_def live_context_def prepare_handoff_def
      set_preparation_def begin_handoff_def revoke_pending_def set_pending_def sample_language store_handoff_def
      store_pending_def handoff_metadata_of_def sample_handoff_payload_def jget_def non_empty_text_def offer_of_def result_of_def
      SPEECH_SESSION_HANDOFF_VERSION_def Let_def)

theorem claims_match_preparations_witness:
  "\<exists>options' h'. claim_handoff 1 ''es-MX'' (JStr ''cove'') JNull [(SPEECH_SESSION_HANDOFF_OPTION, JInt 1)] 1
      (hr_state (fold handoff_step sample_handoff_events new_handoff_run)) = ((Some ''t'', options'), h')
    \<and> (1, ''t'') \<in> set (hr_offered (fold handoff_step sample_handoff_events new_handoff_run))"
proof -
  define r where "r = fold handoff_step sample_handoff_events new_handoff_run"
  obtain options' h' where claim:
    "claim_handoff 1 ''es-MX'' (JStr ''cove'') JNull [(SPEECH_SESSION_HANDOFF_OPTION, JInt 1)] 1 (hr_state r) =
      ((Some ''t'', options'), h')"
    by (simp add: r_def sample_handoff_run claim_handoff_def jget_def sample_language SPEECH_SESSION_HANDOFF_OPTION_VALUE_def
        Let_def)
  moreover have "1 < length (hf_contexts (hr_state r))" by (simp add: r_def sample_handoff_run)
  ultimately show ?thesis using claims_match_preparations [OF r_def] unfolding r_def by blast
qed

end
