(* ===== verification/Speech_Leases.thy ===== *)
theory Speech_Leases
  imports Json
begin

text \<open>
  The single speech channel of \<^verbatim>\<open>BridgeState\<close> in \<^verbatim>\<open>bridge/service.py\<close>: the lease of a transcription or a
  synthesis, the session a transcription retains and offers, and the cleanup of retained sessions. Leases,
  retained sessions and offers are objects named by numbers. No critical section of \<^verbatim>\<open>_speech_state_lock\<close> awaits,
  so the lock is free whenever a coroutine runs, and every function here is one stretch between two awaits.
\<close>

section \<open>State\<close>

definition SPEECH_SESSION_HANDOFF_TTL_SECONDS :: rat where "SPEECH_SESSION_HANDOFF_TTL_SECONDS = 30"
definition SPEECH_SESSION_CLEANUP_ADMISSION_TIMEOUT_SECONDS :: rat where
  "SPEECH_SESSION_CLEANUP_ADMISSION_TIMEOUT_SECONDS = 5"
definition BRIDGE_HANDOFF_VERSION :: int where "BRIDGE_HANDOFF_VERSION = 1"

text \<open>
  A retained session: the lease whose transcription made it, and whether that transcription has handed it to an
  offer. Its cleanup task has not started, runs, or has ended well or with an error.
\<close>

datatype close_phase = Unclosed | Closing | Closed "unit result"

record retained =
  rs_lease :: nat
  rs_voice :: string
  rs_language :: "string option"
  rs_invalidated :: bool
  rs_promoted :: bool
  rs_close :: close_phase

datatype watch_phase = Watching | WatchStopping | WatchOver

record speech_offer =
  of_digest :: bytes
  of_resource :: nat
  of_voice :: string
  of_language :: "string option"
  of_expires :: rat
  of_watch :: watch_phase

record lease_request =
  lr_token :: json
  lr_voice :: "string option"
  lr_language :: "string option"
  lr_instructions :: bool
  lr_deadline :: rat

text \<open>
  Where the coroutine of a lease stands: waiting for the cleanups that ran, for the watchdog of the offer it took
  (with the session it retains, if any), for the cleanup of the session it dropped, for the quiet boundary;
  its body runs, or publishes an offer while another one is cleaned up; it closes its session; it is over.
\<close>

datatype lease_phase =
    LeaseWaits "nat set"
  | LeaseStopsWatch nat "nat option"
  | LeaseAwaits nat
  | LeaseSettles nat
  | LeaseHeld "nat option"
  | LeaseReplaces "nat option" nat speech_offer
  | LeaseCloses nat "unit result"
  | LeaseOver "unit result"

record speech =
  sp_now :: rat
  sp_owner :: "nat option"
  sp_active :: bool
  sp_offer :: "nat option"
  sp_cleanups :: "nat set"
  sp_resources :: "nat \<Rightarrow> retained option"
  sp_offers :: "nat \<Rightarrow> speech_offer option"
  sp_requests :: "nat \<Rightarrow> lease_request option"
  sp_phases :: "nat \<Rightarrow> lease_phase option"
  sp_handed :: "nat list"

definition new_speech :: speech where
  "new_speech =
     \<lparr>sp_now = 0, sp_owner = None, sp_active = False, sp_offer = None, sp_cleanups = {},
      sp_resources = (\<lambda>_. None), sp_offers = (\<lambda>_. None), sp_requests = (\<lambda>_. None), sp_phases = (\<lambda>_. None),
      sp_handed = []\<rparr>"

section \<open>Cleanups\<close>

definition refresh_active :: "speech \<Rightarrow> speech" where
  "refresh_active s = s\<lparr>sp_active := sp_owner s \<noteq> None \<or> sp_cleanups s \<noteq> {}\<rparr>"

definition change_resource :: "nat \<Rightarrow> (retained \<Rightarrow> retained) \<Rightarrow> speech \<Rightarrow> speech" where
  "change_resource r f s = s\<lparr>sp_resources := (sp_resources s)(r := map_option f (sp_resources s r))\<rparr>"

definition start_close :: "nat \<Rightarrow> speech \<Rightarrow> speech" where
  "start_close r = change_resource r (\<lambda>x. if rs_close x = Unclosed then x\<lparr>rs_close := Closing\<rparr> else x)"

definition track_cleanup :: "nat \<Rightarrow> speech \<Rightarrow> speech" where
  "track_cleanup r s = (let s1 = start_close r s in refresh_active (s1\<lparr>sp_cleanups := insert r (sp_cleanups s1)\<rparr>))"

definition cleanup_finished :: "nat \<Rightarrow> speech \<Rightarrow> speech" where
  "cleanup_finished r s = refresh_active (s\<lparr>sp_cleanups := sp_cleanups s - {r}\<rparr>)"

definition invalidate :: "nat \<Rightarrow> speech \<Rightarrow> speech" where
  "invalidate r = change_resource r (\<lambda>x. x\<lparr>rs_invalidated := True\<rparr>)"

section \<open>Offers\<close>

definition set_watch :: "nat \<Rightarrow> watch_phase \<Rightarrow> speech \<Rightarrow> speech" where
  "set_watch o' w s = s\<lparr>sp_offers := (sp_offers s)(o' := map_option (\<lambda>x. x\<lparr>of_watch := w\<rparr>) (sp_offers s o'))\<rparr>"

text \<open>The cancellation of a watchdog that has not ended; the caller then waits for its end.\<close>

definition cancel_offer_watchdog :: "nat \<Rightarrow> speech \<Rightarrow> speech" where
  "cancel_offer_watchdog o' s =
     (case sp_offers s o' of
        None \<Rightarrow> s
      | Some x \<Rightarrow> if of_watch x = Watching then set_watch o' WatchStopping s else s)"

definition drop_offer :: "nat \<Rightarrow> speech_offer \<Rightarrow> speech \<Rightarrow> speech" where
  "drop_offer o' offer s = track_cleanup (of_resource offer) (s\<lparr>sp_offer := None\<rparr>)"

definition token_text :: "json \<Rightarrow> string" where
  "token_text token = (case text_of token of None \<Rightarrow> [] | Some t \<Rightarrow> t)"

definition release_speech_session_offer :: "(string \<Rightarrow> bytes) \<Rightarrow> json \<Rightarrow> speech \<Rightarrow> speech" where
  "release_speech_session_offer digest token s =
     (case sp_offer s of
        None \<Rightarrow> s
      | Some o' \<Rightarrow>
          (case sp_offers s o' of
             None \<Rightarrow> s
           | Some offer \<Rightarrow>
               if of_digest offer \<noteq> digest (token_text token) \<and> sp_now s < of_expires offer then s
               else cancel_offer_watchdog o' (drop_offer o' offer s)))"

definition close_speech_session_offer :: "speech \<Rightarrow> speech" where
  "close_speech_session_offer s =
     (case sp_offer s of
        None \<Rightarrow> s
      | Some o' \<Rightarrow>
          (case sp_offers s o' of None \<Rightarrow> s | Some offer \<Rightarrow> cancel_offer_watchdog o' (drop_offer o' offer s)))"

text \<open>The watchdog ends by its deadline or because the session was invalidated.\<close>

definition watch_fires :: "nat \<Rightarrow> speech \<Rightarrow> speech" where
  "watch_fires o' s =
     (case sp_offers s o' of
        None \<Rightarrow> s
      | Some offer \<Rightarrow>
          let s1 = set_watch o' WatchOver (invalidate (of_resource offer) s) in
          if sp_offer s1 \<noteq> Some o' then s1 else drop_offer o' offer s1)"

section \<open>Leases\<close>

definition require_speech_session_available :: "speech \<Rightarrow> unit result" where
  "require_speech_session_available s =
     raise_if (sp_owner s \<noteq> None) (BridgeBusyError ''another speech session is already active'')"

definition set_phase :: "nat \<Rightarrow> lease_phase \<Rightarrow> speech \<Rightarrow> speech" where
  "set_phase l p s = s\<lparr>sp_phases := (sp_phases s)(l := Some p)\<rparr>"

text \<open>The body of the lease starts, with a retained session or without.\<close>

definition hold :: "nat \<Rightarrow> nat option \<Rightarrow> speech \<Rightarrow> speech" where
  "hold l ret s =
     set_phase l (LeaseHeld ret) (s\<lparr>sp_handed := sp_handed s @ (case ret of None \<Rightarrow> [] | Some r \<Rightarrow> [r])\<rparr>)"

definition release_owner :: "nat \<Rightarrow> unit result \<Rightarrow> speech \<Rightarrow> speech" where
  "release_owner l r s =
     set_phase l (LeaseOver r)
       (refresh_active (s\<lparr>sp_owner := (if sp_owner s = Some l then None else sp_owner s)\<rparr>))"

text \<open>The \<^verbatim>\<open>finally\<close> of the lease.\<close>

definition leave_lease :: "nat \<Rightarrow> nat option \<Rightarrow> unit result \<Rightarrow> speech \<Rightarrow> speech" where
  "leave_lease l ret result s =
     (case ret of
        None \<Rightarrow> release_owner l result s
      | Some r \<Rightarrow> set_phase l (LeaseCloses r result) (track_cleanup r s))"

definition compatible_offer :: "(string \<Rightarrow> bytes) \<Rightarrow> lease_request \<Rightarrow> speech_offer \<Rightarrow> speech \<Rightarrow> bool" where
  "compatible_offer digest req offer s \<longleftrightarrow>
     of_digest offer = digest (token_text (lr_token req)) \<and> sp_now s < of_expires offer
     \<and> (\<exists>x. sp_resources s (of_resource offer) = Some x \<and> \<not> rs_invalidated x)
     \<and> lr_voice req = Some (of_voice offer) \<and> lr_language req = of_language offer \<and> \<not> lr_instructions req"

definition acquire :: "(string \<Rightarrow> bytes) \<Rightarrow> nat \<Rightarrow> lease_request \<Rightarrow> speech \<Rightarrow> speech" where
  "acquire digest l req s =
     (let s1 = refresh_active (s\<lparr>sp_owner := Some l\<rparr>) in
      case sp_offer s1 of
        None \<Rightarrow> hold l None s1
      | Some o' \<Rightarrow>
          (let s2 = s1\<lparr>sp_offer := None\<rparr> in
           case sp_offers s2 o' of
             None \<Rightarrow> hold l None s2
           | Some offer \<Rightarrow>
               if compatible_offer digest req offer s2
               then set_phase l (LeaseStopsWatch o' (Some (of_resource offer))) (cancel_offer_watchdog o' s2)
               else set_phase l (LeaseStopsWatch o' None) (cancel_offer_watchdog o' (track_cleanup (of_resource offer) s2))))"

text \<open>One round of the admission loop.\<close>

definition admit :: "(string \<Rightarrow> bytes) \<Rightarrow> nat \<Rightarrow> lease_request \<Rightarrow> speech \<Rightarrow> speech" where
  "admit digest l req s =
     (if sp_owner s \<noteq> None
      then set_phase l (LeaseOver (Inl (BridgeBusyError ''another speech session is already active''))) s
      else if sp_cleanups s \<noteq> {}
      then if lr_deadline req \<le> sp_now s
           then set_phase l (LeaseOver (Inl (BridgeBusyError ''speech session cleanup is still active''))) s
           else set_phase l (LeaseWaits (sp_cleanups s)) s
      else acquire digest l req s)"

definition wait_times_out :: "nat \<Rightarrow> speech \<Rightarrow> speech" where
  "wait_times_out l = set_phase l (LeaseOver (Inl (BridgeBusyError ''speech session cleanup is still active'')))"

text \<open>The watchdog of the offer has ended: the offer is looked at once more.\<close>

definition after_watch :: "nat \<Rightarrow> nat \<Rightarrow> nat option \<Rightarrow> speech \<Rightarrow> speech" where
  "after_watch l o' ret s =
     (case (ret, sp_offers s o') of
        (Some r, Some offer) \<Rightarrow>
          if (\<exists>x. sp_resources s r = Some x \<and> rs_invalidated x) \<or> of_expires offer \<le> sp_now s
          then set_phase l (LeaseAwaits r) (track_cleanup r s)
          else set_phase l (LeaseSettles r) s
      | (None, Some offer) \<Rightarrow> set_phase l (LeaseAwaits (of_resource offer)) s
      | _ \<Rightarrow> s)"

definition after_settling :: "nat \<Rightarrow> nat \<Rightarrow> bool \<Rightarrow> speech \<Rightarrow> speech" where
  "after_settling l r quiet s =
     (if quiet then hold l (Some r) s else set_phase l (LeaseAwaits r) (track_cleanup r (invalidate r s)))"

definition cleanup_awaited :: "nat \<Rightarrow> unit result \<Rightarrow> speech \<Rightarrow> speech" where
  "cleanup_awaited l result s =
     (case result of Inr _ \<Rightarrow> hold l None s | Inl e \<Rightarrow> leave_lease l None (Inl e) s)"

section \<open>The body of a lease\<close>

text \<open>A transcription ends and keeps its session.\<close>

definition retain_session :: "nat \<Rightarrow> nat \<Rightarrow> string \<Rightarrow> string option \<Rightarrow> speech \<Rightarrow> speech" where
  "retain_session l r voice language s =
     s\<lparr>sp_resources := (sp_resources s)(r := Some \<lparr>rs_lease = l, rs_voice = voice, rs_language = language,
         rs_invalidated = False, rs_promoted = False, rs_close = Unclosed\<rparr>)\<rparr>"

definition publish :: "nat \<Rightarrow> nat option \<Rightarrow> nat \<Rightarrow> speech_offer \<Rightarrow> speech \<Rightarrow> speech" where
  "publish l ret o' offer s =
     set_phase l (LeaseHeld ret)
       (change_resource (of_resource offer) (\<lambda>x. x\<lparr>rs_promoted := True\<rparr>)
         (s\<lparr>sp_offer := Some o', sp_offers := (sp_offers s)(o' := Some offer)\<rparr>))"

text \<open>
  \<^verbatim>\<open>offer_speech_session\<close> up to its first wait: without an earlier offer it publishes at once, otherwise that
  offer is dropped and cleaned up first.
\<close>

definition new_offer :: "(string \<Rightarrow> bytes) \<Rightarrow> string \<Rightarrow> nat \<Rightarrow> retained \<Rightarrow> speech \<Rightarrow> speech_offer" where
  "new_offer digest token r x s =
     \<lparr>of_digest = digest token, of_resource = r, of_voice = rs_voice x, of_language = rs_language x,
      of_expires = sp_now s + SPEECH_SESSION_HANDOFF_TTL_SECONDS, of_watch = Watching\<rparr>"

definition offer_speech_session ::
    "(string \<Rightarrow> bytes) \<Rightarrow> nat \<Rightarrow> nat option \<Rightarrow> nat \<Rightarrow> string \<Rightarrow> nat \<Rightarrow> retained \<Rightarrow> speech \<Rightarrow> speech" where
  "offer_speech_session digest l ret o' token r x s =
     (let offer = new_offer digest token r x s in
      case sp_offer s of
        None \<Rightarrow> publish l ret o' offer s
      | Some replaced \<Rightarrow>
          (case sp_offers s replaced of
             None \<Rightarrow> publish l ret o' offer (s\<lparr>sp_offer := None\<rparr>)
           | Some old \<Rightarrow> set_phase l (LeaseReplaces ret replaced offer) (cancel_offer_watchdog replaced (drop_offer replaced old s))))"

definition offer_response :: "string \<Rightarrow> retained \<Rightarrow> obj" where
  "offer_response token x =
     [(''version'', JInt BRIDGE_HANDOFF_VERSION), (''token'', JStr token),
      (''expires_in_ms'', JInt (round (SPEECH_SESSION_HANDOFF_TTL_SECONDS * 1000))), (''voice'', JStr (rs_voice x)),
      (''language'', case rs_language x of None \<Rightarrow> JNull | Some t \<Rightarrow> JStr t)]"

text \<open>The replaced offer was cleaned up; when that failed, the transcription ends with its error.\<close>

definition after_replaced :: "nat \<Rightarrow> nat option \<Rightarrow> nat \<Rightarrow> speech_offer \<Rightarrow> unit result \<Rightarrow> speech \<Rightarrow> speech" where
  "after_replaced l ret o' offer result s =
     (case result of Inr _ \<Rightarrow> publish l ret o' offer s | Inl e \<Rightarrow> set_phase l (LeaseHeld ret) s)"

text \<open>
  The body ends, or raises: a transcription closes the session it kept but did not offer, then the lease closes
  the session it was given.
\<close>

definition close_unoffered :: "nat \<Rightarrow> speech \<Rightarrow> speech" where
  "close_unoffered r s =
     (case sp_resources s r of None \<Rightarrow> s | Some x \<Rightarrow> if rs_promoted x then s else track_cleanup r s)"

definition end_body :: "nat \<Rightarrow> nat option \<Rightarrow> nat list \<Rightarrow> unit result \<Rightarrow> speech \<Rightarrow> speech" where
  "end_body l ret kept result s = leave_lease l ret result (fold close_unoffered kept s)"

text \<open>Cancellation at the wait the lease is at.\<close>

definition cancel_lease :: "nat \<Rightarrow> nat list \<Rightarrow> speech \<Rightarrow> speech" where
  "cancel_lease l kept s =
     (case sp_phases s l of
        Some (LeaseWaits _) \<Rightarrow> set_phase l (LeaseOver (Inl CancelledError)) s
      | Some (LeaseStopsWatch o' ret) \<Rightarrow> leave_lease l ret (Inl CancelledError) s
      | Some (LeaseAwaits r) \<Rightarrow> leave_lease l None (Inl CancelledError) s
      | Some (LeaseSettles r) \<Rightarrow> leave_lease l (Some r) (Inl CancelledError) s
      | Some (LeaseHeld ret) \<Rightarrow> end_body l ret kept (Inl CancelledError) s
      | Some (LeaseReplaces ret o' offer) \<Rightarrow> end_body l ret kept (Inl CancelledError) s
      | Some (LeaseCloses r result) \<Rightarrow> release_owner l (Inl CancelledError) s
      | _ \<Rightarrow> s)"

section \<open>Runs\<close>

text \<open>
  Any interleaving of requests, their waits and cancellations, watchdogs, cleanups and time. The sessions a body
  kept (\<open>kept\<close>) are those made under its lease.
\<close>

datatype speech_event =
    Passes rat
  | AskLease nat lease_request
  | LeaseRetries nat
  | LeaseTimesOut nat
  | WatchStopped nat
  | LeaseSeesWatch nat
  | LeaseSettled nat bool
  | LeaseSeesCleanup nat
  | KeepSession nat nat string "string option"
  | OfferSession nat nat string nat
  | OfferResumes nat nat
  | CloseRetained nat
  | BodyEnds nat "nat list" "unit result"
  | LeaseCancelled nat "nat list"
  | WatchFires nat
  | ReleaseToken json
  | CloseOffer
  | CleanupEnds nat "unit result"
  | CleanupCallback nat

definition cleaned :: "speech \<Rightarrow> nat \<Rightarrow> unit result option" where
  "cleaned s r =
     (case sp_resources s r of None \<Rightarrow> None | Some x \<Rightarrow> (case rs_close x of Closed result \<Rightarrow> Some result | _ \<Rightarrow> None))"

definition watch_over :: "speech \<Rightarrow> nat \<Rightarrow> bool" where
  "watch_over s o' \<longleftrightarrow> (case sp_offers s o' of None \<Rightarrow> False | Some offer \<Rightarrow> of_watch offer = WatchOver)"

definition all_kept :: "speech \<Rightarrow> nat \<Rightarrow> nat list \<Rightarrow> bool" where
  "all_kept s l kept \<longleftrightarrow> (\<forall>r x. sp_resources s r = Some x \<and> rs_lease x = l \<longrightarrow> r \<in> set kept)
     \<and> (\<forall>r \<in> set kept. \<exists>x. sp_resources s r = Some x \<and> rs_lease x = l)"

inductive speech_step :: "(string \<Rightarrow> bytes) \<Rightarrow> speech \<Rightarrow> speech_event \<Rightarrow> speech \<Rightarrow> bool" for digest where
  passes: "0 \<le> d \<Longrightarrow> speech_step digest s (Passes d) (s\<lparr>sp_now := sp_now s + d\<rparr>)"
| asks: "sp_phases s l = None \<Longrightarrow>
    lr_deadline req = sp_now s + SPEECH_SESSION_CLEANUP_ADMISSION_TIMEOUT_SECONDS \<Longrightarrow>
    speech_step digest s (AskLease l req) (admit digest l req (s\<lparr>sp_requests := (sp_requests s)(l := Some req)\<rparr>))"
| retries: "sp_phases s l = Some (LeaseWaits rs) \<Longrightarrow> \<forall>r \<in> rs. cleaned s r \<noteq> None \<Longrightarrow> sp_requests s l = Some req \<Longrightarrow>
    speech_step digest s (LeaseRetries l) (admit digest l req s)"
| times_out: "sp_phases s l = Some (LeaseWaits rs) \<Longrightarrow> sp_requests s l = Some req \<Longrightarrow> lr_deadline req \<le> sp_now s \<Longrightarrow>
    speech_step digest s (LeaseTimesOut l) (wait_times_out l s)"
| watch_stops: "sp_offers s o' = Some offer \<Longrightarrow> of_watch offer = WatchStopping \<Longrightarrow>
    speech_step digest s (WatchStopped o') (set_watch o' WatchOver s)"
| sees_watch: "sp_phases s l = Some (LeaseStopsWatch o' ret) \<Longrightarrow> watch_over s o' \<Longrightarrow>
    speech_step digest s (LeaseSeesWatch l) (after_watch l o' ret s)"
| settles: "sp_phases s l = Some (LeaseSettles r) \<Longrightarrow> speech_step digest s (LeaseSettled l quiet) (after_settling l r quiet s)"
| sees_cleanup: "sp_phases s l = Some (LeaseAwaits r) \<Longrightarrow> cleaned s r = Some result \<Longrightarrow>
    speech_step digest s (LeaseSeesCleanup l) (cleanup_awaited l result s)"
| keeps: "sp_phases s l = Some (LeaseHeld ret) \<Longrightarrow> sp_resources s r = None \<Longrightarrow>
    speech_step digest s (KeepSession l r voice language) (retain_session l r voice language s)"
| offers: "sp_phases s l = Some (LeaseHeld ret) \<Longrightarrow> sp_resources s r = Some x \<Longrightarrow> rs_lease x = l \<Longrightarrow>
    rs_close x = Unclosed \<Longrightarrow> \<not> rs_promoted x \<Longrightarrow> sp_offers s o' = None \<Longrightarrow>
    speech_step digest s (OfferSession l o' token r) (offer_speech_session digest l ret o' token r x s)"
| resumes: "sp_phases s l = Some (LeaseReplaces ret replaced offer) \<Longrightarrow> watch_over s replaced \<Longrightarrow>
    sp_offers s replaced = Some old \<Longrightarrow> cleaned s (of_resource old) = Some result \<Longrightarrow> sp_offers s o' = None \<Longrightarrow>
    speech_step digest s (OfferResumes l o') (after_replaced l ret o' offer result s)"
| closes_retained: "sp_phases s l = Some (LeaseHeld (Some r)) \<Longrightarrow>
    speech_step digest s (CloseRetained l) (track_cleanup r s)"
| ends: "sp_phases s l = Some (LeaseHeld ret) \<Longrightarrow> all_kept s l kept \<Longrightarrow>
    speech_step digest s (BodyEnds l kept result) (end_body l ret kept result s)"
| cancelled: "all_kept s l kept \<Longrightarrow> speech_step digest s (LeaseCancelled l kept) (cancel_lease l kept s)"
| closed: "sp_phases s l = Some (LeaseCloses r body) \<Longrightarrow> cleaned s r = Some result \<Longrightarrow>
    speech_step digest s (LeaseSeesCleanup l) (release_owner l (if is_ok result then body else result) s)"
| watchdog: "sp_offers s o' = Some offer \<Longrightarrow> of_watch offer = Watching \<Longrightarrow>
    speech_step digest s (WatchFires o') (watch_fires o' s)"
| releases: "speech_step digest s (ReleaseToken token) (release_speech_session_offer digest token s)"
| closes_offer: "speech_step digest s CloseOffer (close_speech_session_offer s)"
| cleanup_ends: "sp_resources s r = Some x \<Longrightarrow> rs_close x = Closing \<Longrightarrow>
    speech_step digest s (CleanupEnds r result) (change_resource r (\<lambda>x. x\<lparr>rs_close := Closed result\<rparr>) s)"
| callback: "r \<in> sp_cleanups s \<Longrightarrow> cleaned s r \<noteq> None \<Longrightarrow>
    speech_step digest s (CleanupCallback r) (cleanup_finished r s)"

inductive_cases speech_step_cases: "speech_step digest s e s'"

inductive speech_reachable :: "(string \<Rightarrow> bytes) \<Rightarrow> speech \<Rightarrow> bool" for digest where
  start: "speech_reachable digest new_speech"
| step: "speech_reachable digest s \<Longrightarrow> speech_step digest s e s' \<Longrightarrow> speech_reachable digest s'"

end
