(* ===== verification/Speech_Safety.thy ===== *)
theory Speech_Safety
  imports Speech_Leases
begin

text \<open>
  Laws of the speech channel: one lease at a time holds it, no lease's body runs while a session of an earlier
  one is still open, and a retained session is handed on at most once, to a request that fits its offer, or
  cleaned up.
\<close>

section \<open>Views\<close>

definition unclosed :: "speech \<Rightarrow> nat \<Rightarrow> bool" where
  "unclosed s r \<longleftrightarrow> (\<exists>y. sp_resources s r = Some y \<and> rs_close y = Unclosed)"

definition open_session :: "speech \<Rightarrow> nat \<Rightarrow> bool" where
  "open_session s r \<longleftrightarrow> (\<exists>y. sp_resources s r = Some y \<and> (\<forall>result. rs_close y \<noteq> Closed result))"

definition promoted :: "speech \<Rightarrow> nat \<Rightarrow> bool" where
  "promoted s r \<longleftrightarrow> (\<exists>y. sp_resources s r = Some y \<and> rs_promoted y)"

definition made_by :: "speech \<Rightarrow> nat \<Rightarrow> nat \<Rightarrow> bool" where
  "made_by s l r \<longleftrightarrow> (\<exists>y. sp_resources s r = Some y \<and> rs_lease y = l)"

definition offered :: "speech \<Rightarrow> nat \<Rightarrow> bool" where
  "offered s r \<longleftrightarrow> (\<exists>o' offer. sp_offer s = Some o' \<and> sp_offers s o' = Some offer \<and> of_resource offer = r)"

text \<open>The phases in which a lease owns the channel, in which no offer is current, and in which its body runs.\<close>

fun holds_channel :: "lease_phase \<Rightarrow> bool" where
  "holds_channel (LeaseWaits _) = False"
| "holds_channel (LeaseOver _) = False"
| "holds_channel _ = True"

fun no_offer :: "lease_phase \<Rightarrow> bool" where
  "no_offer (LeaseHeld _) = False"
| "no_offer (LeaseCloses _ _) = False"
| "no_offer _ = True"

fun in_body :: "lease_phase \<Rightarrow> bool" where
  "in_body (LeaseHeld _) = True"
| "in_body (LeaseReplaces _ _ _) = True"
| "in_body _ = False"

text \<open>The session a lease was given.\<close>

fun given :: "lease_phase \<Rightarrow> nat option" where
  "given (LeaseStopsWatch _ ret) = ret"
| "given (LeaseSettles r) = Some r"
| "given (LeaseHeld ret) = ret"
| "given (LeaseReplaces ret _ _) = ret"
| "given _ = None"

text \<open>The sessions of earlier leases that may still be open in a phase.\<close>

fun earlier_open :: "speech \<Rightarrow> lease_phase \<Rightarrow> nat set" where
  "earlier_open s (LeaseStopsWatch o' _) = {r. \<exists>offer. sp_offers s o' = Some offer \<and> of_resource offer = r}"
| "earlier_open s (LeaseAwaits r) = {r}"
| "earlier_open s (LeaseCloses r _) = {r}"
| "earlier_open s p = {r. given p = Some r}"

fun phase_fits :: "speech \<Rightarrow> nat \<Rightarrow> lease_phase \<Rightarrow> bool" where
  "phase_fits s l (LeaseStopsWatch o' ret) \<longleftrightarrow>
     (\<exists>offer. sp_offers s o' = Some offer \<and> of_watch offer \<noteq> Watching
       \<and> (case ret of None \<Rightarrow> \<not> unclosed s (of_resource offer)
          | Some r \<Rightarrow> r = of_resource offer \<and> unclosed s r \<and> promoted s r))"
| "phase_fits s l (LeaseAwaits r) \<longleftrightarrow> \<not> unclosed s r"
| "phase_fits s l (LeaseSettles r) \<longleftrightarrow> unclosed s r \<and> promoted s r"
| "phase_fits s l (LeaseReplaces ret o' offer) \<longleftrightarrow>
     unclosed s (of_resource offer) \<and> made_by s l (of_resource offer) \<and> \<not> promoted s (of_resource offer)
     \<and> of_watch offer = Watching"
| "phase_fits s l (LeaseCloses r _) \<longleftrightarrow> \<not> unclosed s r"
| "phase_fits s l _ \<longleftrightarrow> True"

section \<open>Invariant\<close>

text \<open>The state seen by the lease \<open>x\<close> that owns the channel, with its phase, if there is one.\<close>

definition cleanups_ok :: "speech \<Rightarrow> bool" where
  "cleanups_ok s \<longleftrightarrow>
     (\<forall>r y. sp_resources s r = Some y \<and> rs_close y = Closing \<longrightarrow> r \<in> sp_cleanups s)
     \<and> (\<forall>r \<in> sp_cleanups s. \<not> unclosed s r \<and> (\<exists>l. made_by s l r))"

definition offer_ok :: "speech \<Rightarrow> (nat \<times> lease_phase) option \<Rightarrow> bool" where
  "offer_ok s x \<longleftrightarrow>
     (\<forall>o'. sp_offer s = Some o' \<longrightarrow>
        (\<exists>offer. sp_offers s o' = Some offer \<and> of_watch offer = Watching \<and> unclosed s (of_resource offer)
          \<and> promoted s (of_resource offer) \<and> (\<forall>l p. x = Some (l, p) \<longrightarrow> made_by s l (of_resource offer)))
        \<and> (\<forall>l p. x = Some (l, p) \<longrightarrow> \<not> no_offer p))"

definition custody_ok :: "speech \<Rightarrow> (nat \<times> lease_phase) option \<Rightarrow> bool" where
  "custody_ok s x \<longleftrightarrow>
     (\<forall>r. unclosed s r \<longrightarrow> offered s r
        \<or> (\<exists>l p. x = Some (l, p) \<and> (given p = Some r \<or> in_body p \<and> made_by s l r \<and> \<not> promoted s r)))"

definition owner_ok :: "speech \<Rightarrow> (nat \<times> lease_phase) option \<Rightarrow> bool" where
  "owner_ok s x \<longleftrightarrow>
     (\<forall>l p. x = Some (l, p) \<longrightarrow>
        phase_fits s l p \<and> (\<forall>r. given p = Some r \<longrightarrow> promoted s r \<and> \<not> made_by s l r) \<and> (\<forall>r. open_session s r \<longrightarrow> r \<in> earlier_open s p \<or> made_by s l r))"

definition handed_ok :: "speech \<Rightarrow> (nat \<times> lease_phase) option \<Rightarrow> bool" where
  "handed_ok s x \<longleftrightarrow> distinct (sp_handed s)
     \<and> (\<forall>r \<in> set (sp_handed s). promoted s r
          \<and> (unclosed s r \<longrightarrow> (\<exists>l p. x = Some (l, p) \<and> in_body p \<and> given p = Some r)))"

definition core :: "speech \<Rightarrow> (nat \<times> lease_phase) option \<Rightarrow> bool" where
  "core s x \<longleftrightarrow> cleanups_ok s \<and> offer_ok s x \<and> custody_ok s x \<and> owner_ok s x \<and> handed_ok s x"

definition owned_by :: "speech \<Rightarrow> (nat \<times> lease_phase) option \<Rightarrow> bool" where
  "owned_by s x \<longleftrightarrow>
     sp_owner s = map_option fst x \<and> (\<forall>l p. sp_phases s l = Some p \<and> holds_channel p \<longleftrightarrow> x = Some (l, p))"

text \<open>Only a lease whose body has run made sessions.\<close>

fun had_body :: "lease_phase \<Rightarrow> bool" where
  "had_body (LeaseHeld _) = True"
| "had_body (LeaseReplaces _ _ _) = True"
| "had_body (LeaseCloses _ _) = True"
| "had_body (LeaseOver _) = True"
| "had_body _ = False"

definition births_ok :: "speech \<Rightarrow> bool" where
  "births_ok s \<longleftrightarrow> (\<forall>l r. made_by s l r \<longrightarrow> (\<exists>p. sp_phases s l = Some p \<and> had_body p))"

definition speech_inv :: "speech \<Rightarrow> bool" where
  "speech_inv s \<longleftrightarrow>
     (\<exists>x. core s x \<and> owned_by s x) \<and> births_ok s \<and> (sp_active s \<longleftrightarrow> sp_owner s \<noteq> None \<or> sp_cleanups s \<noteq> {})"

lemmas views = unclosed_def open_session_def promoted_def made_by_def offered_def
lemmas core_defs = cleanups_ok_def offer_ok_def custody_ok_def owner_ok_def handed_ok_def

lemma speech_inv_new: "speech_inv new_speech"
  unfolding speech_inv_def core_def
  by (rule conjI, rule exI [of _ None]) (simp_all add: new_speech_def core_defs views owned_by_def births_ok_def)

lemma cleanups_ok_views:
  "cleanups_ok s \<longleftrightarrow>
     (\<forall>r. open_session s r \<and> \<not> unclosed s r \<longrightarrow> r \<in> sp_cleanups s)
     \<and> (\<forall>r \<in> sp_cleanups s. \<not> unclosed s r \<and> (\<exists>l. made_by s l r))"
proof -
  have "(\<exists>y. sp_resources s r = Some y \<and> rs_close y = Closing) \<longleftrightarrow> open_session s r \<and> \<not> unclosed s r" for r
  proof (cases "sp_resources s r")
    case (Some y)
    then show ?thesis by (cases "rs_close y") (auto simp: views)
  qed (simp add: views)
  then show ?thesis unfolding cleanups_ok_def by metis
qed

text \<open>The core depends on the phases and the owner through \<open>x\<close> alone.\<close>

definition same_core :: "speech \<Rightarrow> speech \<Rightarrow> bool" where
  "same_core s s' \<longleftrightarrow>
     sp_cleanups s' = sp_cleanups s \<and> sp_resources s' = sp_resources s \<and> sp_offer s' = sp_offer s
     \<and> sp_offers s' = sp_offers s \<and> sp_handed s' = sp_handed s"

lemma same_core_views:
  assumes "same_core s s'"
  shows "unclosed s' = unclosed s" "open_session s' = open_session s" "promoted s' = promoted s"
    "made_by s' = made_by s" "offered s' = offered s"
  using assms by (auto simp: fun_eq_iff views same_core_def)

lemma same_core_phases:
  assumes "same_core s s'"
  shows "earlier_open s' p = earlier_open s p" "phase_fits s' l p = phase_fits s l p"
  using assms same_core_views [OF assms]
  by (cases p; simp add: same_core_def split: option.split)+

lemma core_cong: "same_core s s' \<Longrightarrow> core s' x = core s x"
  using same_core_views [of s s'] same_core_phases [of s s'] by (simp add: core_def core_defs same_core_def)

lemma core_other [simp]:
  "core (set_phase l p s) x = core s x" "core (refresh_active s) x = core s x"
  "core (s\<lparr>sp_owner := w\<rparr>) x = core s x" "core (s\<lparr>sp_now := n\<rparr>) x = core s x" "core (s\<lparr>sp_requests := q\<rparr>) x = core s x"
  by (rule core_cong, simp add: same_core_def set_phase_def refresh_active_def)+

lemma speech_fields_other [simp]:
  "sp_owner (set_phase l p s) = sp_owner s" "sp_phases (set_phase l p s) = (sp_phases s)(l := Some p)"
  "sp_cleanups (set_phase l p s) = sp_cleanups s" "sp_active (set_phase l p s) = sp_active s"
  "sp_owner (refresh_active s) = sp_owner s" "sp_phases (refresh_active s) = sp_phases s"
  "sp_cleanups (refresh_active s) = sp_cleanups s"
  "sp_active (refresh_active s) \<longleftrightarrow> sp_owner s \<noteq> None \<or> sp_cleanups s \<noteq> {}"
  by (simp_all add: set_phase_def refresh_active_def)

lemma views_other [simp]:
  "unclosed (set_phase l p s) = unclosed s" "promoted (set_phase l p s) = promoted s" "made_by (set_phase l p s) = made_by s"
  "offered (set_phase l p s) = offered s" "open_session (set_phase l p s) = open_session s"
  "made_by (refresh_active s) = made_by s" "made_by (s\<lparr>sp_owner := w\<rparr>) = made_by s"
  by (rule same_core_views, simp add: same_core_def set_phase_def refresh_active_def)+

section \<open>Cleanups\<close>

definition closing_of :: "retained \<Rightarrow> retained" where
  "closing_of y = (if rs_close y = Unclosed then y\<lparr>rs_close := Closing\<rparr> else y)"

lemma track_fields [simp]:
  "sp_owner (track_cleanup r s) = sp_owner s" "sp_phases (track_cleanup r s) = sp_phases s"
  "sp_cleanups (track_cleanup r s) = insert r (sp_cleanups s)" "sp_active (track_cleanup r s)"
  "sp_offer (track_cleanup r s) = sp_offer s" "sp_offers (track_cleanup r s) = sp_offers s"
  "sp_handed (track_cleanup r s) = sp_handed s"
  "sp_resources (track_cleanup r s) = (sp_resources s)(r := map_option closing_of (sp_resources s r))"
  "sp_now (track_cleanup r s) = sp_now s"
  by (simp_all add: track_cleanup_def start_close_def change_resource_def refresh_active_def closing_of_def [abs_def] Let_def)

lemma track_views [simp]:
  "unclosed (track_cleanup r s) q \<longleftrightarrow> unclosed s q \<and> q \<noteq> r"
  "open_session (track_cleanup r s) q \<longleftrightarrow> open_session s q"
  "promoted (track_cleanup r s) q \<longleftrightarrow> promoted s q" "made_by (track_cleanup r s) l q \<longleftrightarrow> made_by s l q"
  "offered (track_cleanup r s) q \<longleftrightarrow> offered s q"
  by (cases "q = r"; cases "sp_resources s r"; auto simp: views closing_of_def)+

lemma track_earlier [simp]: "earlier_open (track_cleanup r s) p = earlier_open s p"
  by (cases p) simp_all

text \<open>A phase whose session must not be closed by another.\<close>

fun needs_session :: "lease_phase \<Rightarrow> nat option" where
  "needs_session (LeaseStopsWatch _ ret) = ret"
| "needs_session (LeaseSettles r) = Some r"
| "needs_session (LeaseReplaces _ _ offer) = Some (of_resource offer)"
| "needs_session _ = None"

lemma track_fits: "phase_fits s l p \<Longrightarrow> needs_session p \<noteq> Some r \<Longrightarrow> phase_fits (track_cleanup r s) l p"
  by (cases p) (auto split: option.splits)

lemma cleanups_track: "cleanups_ok s \<Longrightarrow> made_by s l r \<Longrightarrow> cleanups_ok (track_cleanup r s)"
  by (auto simp: cleanups_ok_views)

lemma promoted_made: "promoted s r \<Longrightarrow> \<exists>l. made_by s l r" and unclosed_made: "unclosed s r \<Longrightarrow> \<exists>l. made_by s l r"
  by (auto simp: views)

lemma core_track:
  assumes "core s x" "made_by s k r" "\<not> offered s r" "\<And>l p. x = Some (l, p) \<Longrightarrow> needs_session p \<noteq> Some r"
  shows "core (track_cleanup r s) x"
  using assms track_fits [of s _ _ r] cleanups_track [of s k r]
  by (auto simp: core_def offer_ok_def custody_ok_def owner_ok_def handed_ok_def offered_def)

section \<open>Moves of the core\<close>

lemma core_no_offer:
  assumes "core s (Some (l, p))" "no_offer p"
  shows "sp_offer s = None" "\<not> offered s r"
  using assms by (cases "sp_offer s"; auto simp: core_def offer_ok_def offered_def)+

text \<open>A lease gives up the session it was given, or moves on.\<close>

lemma core_drop_given:
  assumes "core s (Some (l, p))" "given p = Some r" "\<not> in_body p" "earlier_open s p \<subseteq> {r}"
    "no_offer p"
  shows "core (track_cleanup r s) (Some (l, LeaseAwaits r))"
  using assms core_no_offer [OF assms(1,5)] promoted_made [of s r] cleanups_track [of s _ r]
  by (auto simp: core_def offer_ok_def custody_ok_def owner_ok_def handed_ok_def)

lemma core_settle:
  assumes "core s (Some (l, LeaseStopsWatch o' (Some r)))"
  shows "core s (Some (l, LeaseSettles r))"
  using assms by (auto simp: core_def offer_ok_def custody_ok_def owner_ok_def handed_ok_def)

lemma core_await:
  assumes "core s (Some (l, LeaseStopsWatch o' None))" "sp_offers s o' = Some offer"
  shows "core s (Some (l, LeaseAwaits (of_resource offer)))"
  using assms by (auto simp: core_def offer_ok_def custody_ok_def owner_ok_def handed_ok_def)

lemma hand_views [simp]:
  "unclosed (s\<lparr>sp_handed := h\<rparr>) = unclosed s" "open_session (s\<lparr>sp_handed := h\<rparr>) = open_session s"
  "promoted (s\<lparr>sp_handed := h\<rparr>) = promoted s" "made_by (s\<lparr>sp_handed := h\<rparr>) = made_by s"
  "offered (s\<lparr>sp_handed := h\<rparr>) = offered s"
  by (auto simp: fun_eq_iff views)

lemma core_hand:
  assumes "core s (Some (l, LeaseSettles r))"
  shows "core (s\<lparr>sp_handed := sp_handed s @ [r]\<rparr>) (Some (l, LeaseHeld (Some r)))"
  using assms core_no_offer [OF assms]
  by (auto simp: core_def offer_ok_def custody_ok_def owner_ok_def handed_ok_def cleanups_ok_def)

lemma core_hold_none:
  assumes "core s (Some (l, LeaseAwaits r))" "cleaned s r \<noteq> None"
  shows "core s (Some (l, LeaseHeld None))"
proof -
  have "\<not> open_session s r" using assms(2) by (auto simp: cleaned_def open_session_def split: option.splits close_phase.splits)
  with assms(1) core_no_offer [OF assms(1)] show ?thesis
    by (auto simp: core_def offer_ok_def custody_ok_def owner_ok_def handed_ok_def)
qed

text \<open>The lease is left.\<close>

definition kept_all_closed :: "speech \<Rightarrow> nat \<Rightarrow> bool" where
  "kept_all_closed s l \<longleftrightarrow> (\<forall>r. made_by s l r \<and> unclosed s r \<longrightarrow> promoted s r)"

lemma core_leave_none:
  assumes "core s (Some (l, p))" "given p = None" "in_body p \<Longrightarrow> kept_all_closed s l"
  shows "core s None"
  using assms
  by (auto simp: core_def offer_ok_def custody_ok_def owner_ok_def handed_ok_def kept_all_closed_def)

lemma given_needs: "in_body p \<Longrightarrow> given p = Some r \<Longrightarrow> phase_fits s l p \<Longrightarrow> \<not> made_by s l r \<Longrightarrow> needs_session p \<noteq> Some r"
  by (cases p) auto

lemma core_leave_given:
  assumes "core s (Some (l, p))" "given p = Some r" "in_body p \<Longrightarrow> kept_all_closed s l" "earlier_open s p \<subseteq> {r}"
  shows "core (track_cleanup r s) (Some (l, LeaseCloses r result))"
proof -
  have "\<not> offered s r" using assms(1,2) by (auto simp: core_def offer_ok_def owner_ok_def offered_def)
  then show ?thesis
    using assms promoted_made [of s r] cleanups_track [of s _ r]
    by (auto simp: core_def offer_ok_def custody_ok_def owner_ok_def handed_ok_def kept_all_closed_def offered_def)
qed

lemma core_closed:
  assumes "core s (Some (l, LeaseCloses r result))"
  shows "core s None"
  using assms by (auto simp: core_def offer_ok_def custody_ok_def owner_ok_def handed_ok_def)

lemma core_give_up_offer:
  "core s (Some (l, LeaseReplaces ret o' offer)) \<Longrightarrow> core s (Some (l, LeaseHeld ret))"
  by (auto simp: core_def offer_ok_def custody_ok_def owner_ok_def handed_ok_def)

section \<open>Offers\<close>

lemma set_watch_fields [simp]:
  "sp_owner (set_watch o' w s) = sp_owner s" "sp_phases (set_watch o' w s) = sp_phases s"
  "sp_cleanups (set_watch o' w s) = sp_cleanups s" "sp_active (set_watch o' w s) = sp_active s"
  "sp_offer (set_watch o' w s) = sp_offer s" "sp_handed (set_watch o' w s) = sp_handed s"
  "sp_resources (set_watch o' w s) = sp_resources s" "sp_now (set_watch o' w s) = sp_now s"
  "sp_offers (set_watch o' w s) = (sp_offers s)(o' := map_option (\<lambda>x. x\<lparr>of_watch := w\<rparr>) (sp_offers s o'))"
  by (simp_all add: set_watch_def)

lemma set_watch_views [simp]:
  "unclosed (set_watch o' w s) = unclosed s" "open_session (set_watch o' w s) = open_session s"
  "promoted (set_watch o' w s) = promoted s" "made_by (set_watch o' w s) = made_by s"
  by (auto simp: fun_eq_iff views)

lemma set_watch_offered: "sp_offer s \<noteq> Some o' \<Longrightarrow> offered (set_watch o' w s) r \<longleftrightarrow> offered s r"
  by (auto simp: offered_def)

lemma set_watch_earlier [simp]: "earlier_open (set_watch o' w s) p = earlier_open s p"
  by (cases p) auto

lemma set_watch_fits: "w \<noteq> Watching \<Longrightarrow> phase_fits s l p \<Longrightarrow> phase_fits (set_watch o' w s) l p"
  by (cases p) (auto split: option.splits)

lemma core_set_watch:
  assumes "core s x" "sp_offer s \<noteq> Some o'" "w \<noteq> Watching"
  shows "core (set_watch o' w s) x"
  using assms set_watch_fits [OF assms(3)] set_watch_offered [OF assms(2)]
  by (auto simp: core_def cleanups_ok_def offer_ok_def custody_ok_def owner_ok_def handed_ok_def)

lemma cancel_watchdog_cases:
  "cancel_offer_watchdog o' s = s \<or> cancel_offer_watchdog o' s = set_watch o' WatchStopping s"
  by (simp add: cancel_offer_watchdog_def split: option.split)

lemma core_cancel_watchdog: "core s x \<Longrightarrow> sp_offer s \<noteq> Some o' \<Longrightarrow> core (cancel_offer_watchdog o' s) x"
  using cancel_watchdog_cases [of o' s] core_set_watch [of s x o' WatchStopping] by auto

lemma invalidate_fields [simp]:
  "sp_owner (invalidate r s) = sp_owner s" "sp_phases (invalidate r s) = sp_phases s"
  "sp_cleanups (invalidate r s) = sp_cleanups s" "sp_active (invalidate r s) = sp_active s"
  "sp_offer (invalidate r s) = sp_offer s" "sp_offers (invalidate r s) = sp_offers s"
  "sp_handed (invalidate r s) = sp_handed s" "sp_now (invalidate r s) = sp_now s"
  by (simp_all add: invalidate_def change_resource_def)

lemma invalidate_views [simp]:
  "unclosed (invalidate r s) = unclosed s" "open_session (invalidate r s) = open_session s"
  "promoted (invalidate r s) = promoted s" "made_by (invalidate r s) = made_by s" "offered (invalidate r s) = offered s"
  by (intro ext; rename_tac q; case_tac "q = r"; case_tac "sp_resources s r"; auto simp: views invalidate_def change_resource_def)+

lemma invalidate_phases [simp]:
  "earlier_open (invalidate r s) p = earlier_open s p" "phase_fits (invalidate r s) l p = phase_fits s l p"
  by (cases p; simp split: option.split)+

lemma core_invalidate [simp]: "core (invalidate r s) x \<longleftrightarrow> core s x"
proof -
  have "cleanups_ok (invalidate r s) \<longleftrightarrow> cleanups_ok s"
    by (simp add: cleanups_ok_views)
  then show ?thesis by (simp add: core_def offer_ok_def custody_ok_def owner_ok_def handed_ok_def)
qed

lemma drop_fields [simp]:
  "sp_owner (drop_offer o' offer s) = sp_owner s" "sp_phases (drop_offer o' offer s) = sp_phases s"
  "sp_active (drop_offer o' offer s)" "sp_offer (drop_offer o' offer s) = None"
  "sp_offers (drop_offer o' offer s) = sp_offers s"
  by (simp_all add: drop_offer_def)

lemma unoffer_views [simp]:
  "unclosed (s\<lparr>sp_offer := q\<rparr>) = unclosed s" "open_session (s\<lparr>sp_offer := q\<rparr>) = open_session s"
  "promoted (s\<lparr>sp_offer := q\<rparr>) = promoted s" "made_by (s\<lparr>sp_offer := q\<rparr>) = made_by s"
  "\<not> offered (s\<lparr>sp_offer := None\<rparr>) r"
  by (auto simp: fun_eq_iff views)

lemma drop_views:
  "unclosed (drop_offer o' offer s) q \<longleftrightarrow> unclosed s q \<and> q \<noteq> of_resource offer"
  "open_session (drop_offer o' offer s) q \<longleftrightarrow> open_session s q" "promoted (drop_offer o' offer s) q \<longleftrightarrow> promoted s q"
  "made_by (drop_offer o' offer s) l q \<longleftrightarrow> made_by s l q" "\<not> offered (drop_offer o' offer s) q"
  by (simp_all add: drop_offer_def)

lemma unoffer_phases [simp]:
  "earlier_open (s\<lparr>sp_offer := q\<rparr>) p = earlier_open s p" "phase_fits (s\<lparr>sp_offer := q\<rparr>) l p = phase_fits s l p"
  by (cases p; simp split: option.split)+

lemma core_drop_offer:
  assumes "core s x" "sp_offer s = Some o'" "sp_offers s o' = Some offer"
  shows "core (drop_offer o' offer s) x"
proof -
  have c: "cleanups_ok (s\<lparr>sp_offer := None\<rparr>)" using assms(1) by (auto simp: core_def cleanups_ok_def)
  have needs: "needs_session p \<noteq> Some r" if "x = Some (l, p)" for l p r
  proof -
    have "\<not> no_offer p" using assms(1,2) that by (auto simp: core_def offer_ok_def)
    then show ?thesis by (cases p) auto
  qed
  have off: "offered s r \<longleftrightarrow> r = of_resource offer" for r using assms(2,3) by (auto simp: offered_def)
  have fits: "phase_fits (drop_offer o' offer s) l p" if "x = Some (l, p)" for l p
  proof -
    have "phase_fits (s\<lparr>sp_offer := None\<rparr>) l p" using assms(1) that by (simp add: core_def owner_ok_def)
    then show ?thesis unfolding drop_offer_def using needs [OF that] by (rule track_fits)
  qed
  have "earlier_open (drop_offer o' offer s) p = earlier_open s p" for p by (simp add: drop_offer_def)
  moreover have "cleanups_ok (drop_offer o' offer s)"
  proof -
    have "unclosed s (of_resource offer)" using assms by (auto simp: core_def offer_ok_def)
    then obtain l where "made_by (s\<lparr>sp_offer := None\<rparr>) l (of_resource offer)" using unclosed_made by fastforce
    then show ?thesis unfolding drop_offer_def by (rule cleanups_track [OF c])
  qed
  moreover have "sp_handed (drop_offer o' offer s) = sp_handed s" by (simp add: drop_offer_def)
  ultimately show ?thesis
    using assms(1) fits
    by (auto simp: core_def offer_ok_def custody_ok_def owner_ok_def handed_ok_def drop_views off)
qed

section \<open>Admission\<close>

lemma nobody_open:
  assumes "core s None" "sp_cleanups s = {}" "open_session s r"
  shows "unclosed s r \<and> offered s r"
  using assms by (auto simp: core_def cleanups_ok_views custody_ok_def)

lemma core_acquire_free:
  assumes "core s None" "sp_cleanups s = {}" "sp_offer s = None"
  shows "core s (Some (l, LeaseHeld None))"
proof -
  have "\<not> open_session s r" for r using nobody_open [OF assms(1,2), of r] assms(3) by (auto simp: offered_def)
  moreover have "\<not> unclosed s r" for r using assms(1,3) by (auto simp: core_def custody_ok_def offered_def)
  ultimately show ?thesis
    using assms(1,3) by (simp add: core_def offer_ok_def custody_ok_def owner_ok_def handed_ok_def)
qed

lemma unoffer_fields [simp]:
  "sp_cleanups (s\<lparr>sp_offer := q\<rparr>) = sp_cleanups s" "sp_handed (s\<lparr>sp_offer := q\<rparr>) = sp_handed s"
  "sp_offers (s\<lparr>sp_offer := q\<rparr>) = sp_offers s"
  by simp_all

text \<open>Only the session of the current offer is open when a lease takes it.\<close>

lemma taken_offer:
  assumes "core s None" "sp_cleanups s = {}" "sp_offer s = Some o'" "sp_offers s o' = Some offer"
  shows "of_watch offer = Watching" "unclosed s (of_resource offer)" "promoted s (of_resource offer)"
    "open_session s r \<Longrightarrow> r = of_resource offer" "unclosed s r \<Longrightarrow> r = of_resource offer"
    "r \<in> set (sp_handed s) \<Longrightarrow> promoted s r \<and> \<not> unclosed s r" "distinct (sp_handed s)"
  using assms nobody_open [OF assms(1,2), of r]
  by (auto simp: core_def offer_ok_def custody_ok_def handed_ok_def offered_def)

lemma core_take_offer:
  assumes "core s None" "sp_cleanups s = {}" "sp_offer s = Some o'" "sp_offers s o' = Some offer"
    and "\<And>r. \<not> made_by s l r"
  shows "core (cancel_offer_watchdog o' (s\<lparr>sp_offer := None\<rparr>)) (Some (l, LeaseStopsWatch o' (Some (of_resource offer))))"
proof -
  let ?s = "set_watch o' WatchStopping (s\<lparr>sp_offer := None\<rparr>)"
  note taken = taken_offer [OF assms(1-4)]
  have "cancel_offer_watchdog o' (s\<lparr>sp_offer := None\<rparr>) = ?s" using assms(4) taken(1) by (simp add: cancel_offer_watchdog_def)
  moreover have "cleanups_ok ?s"
  proof -
    have "open_session s r \<longrightarrow> unclosed s r" for r using taken(2,4) by auto
    then show ?thesis using assms(2) by (simp add: cleanups_ok_views)
  qed
  moreover have "handed_ok ?s (Some (l, LeaseStopsWatch o' (Some (of_resource offer))))"
    using taken(6,7) by (simp add: handed_ok_def)
  moreover have "custody_ok ?s (Some (l, LeaseStopsWatch o' (Some (of_resource offer))))"
    using taken(5) by (simp add: custody_ok_def)
  ultimately show ?thesis
    using assms(4,5) taken(2,3,4) by (simp add: core_def offer_ok_def owner_ok_def)
qed

lemma core_take_unfit:
  assumes "core s None" "sp_cleanups s = {}" "sp_offer s = Some o'" "sp_offers s o' = Some offer"
    and "\<And>r. \<not> made_by s l r"
  shows "core (cancel_offer_watchdog o' (track_cleanup (of_resource offer) (s\<lparr>sp_offer := None\<rparr>)))
    (Some (l, LeaseStopsWatch o' None))"
proof -
  let ?s = "set_watch o' WatchStopping (track_cleanup (of_resource offer) (s\<lparr>sp_offer := None\<rparr>))"
  note taken = taken_offer [OF assms(1-4)]
  have "cancel_offer_watchdog o' (track_cleanup (of_resource offer) (s\<lparr>sp_offer := None\<rparr>)) = ?s"
    using assms(4) taken(1) by (simp add: cancel_offer_watchdog_def)
  moreover have "cleanups_ok ?s" using assms(2) taken(4) unclosed_made [OF taken(2)] by (auto simp: cleanups_ok_views)
  moreover have "handed_ok ?s (Some (l, LeaseStopsWatch o' None))" using taken(6,7) by (simp add: handed_ok_def)
  moreover have "custody_ok ?s (Some (l, LeaseStopsWatch o' None))" using taken(5) by (auto simp: custody_ok_def)
  ultimately show ?thesis
    using assms(4) taken(4) by (simp add: core_def offer_ok_def owner_ok_def)
qed

section \<open>Bodies\<close>

lemma retain_views:
  assumes "sp_resources s r = None"
  shows "unclosed (retain_session l r v g s) q \<longleftrightarrow> unclosed s q \<or> q = r"
    "open_session (retain_session l r v g s) q \<longleftrightarrow> open_session s q \<or> q = r"
    "promoted (retain_session l r v g s) q \<longleftrightarrow> promoted s q"
    "made_by (retain_session l r v g s) k q \<longleftrightarrow> made_by s k q \<or> q = r \<and> k = l"
    "offered (retain_session l r v g s) q \<longleftrightarrow> offered s q" "\<not> unclosed s r" "\<not> promoted s r" "\<not> made_by s k r"
  using assms by (auto simp: views retain_session_def)

lemma retain_fields [simp]:
  "sp_owner (retain_session l r v g s) = sp_owner s" "sp_phases (retain_session l r v g s) = sp_phases s"
  "sp_cleanups (retain_session l r v g s) = sp_cleanups s" "sp_active (retain_session l r v g s) = sp_active s"
  "sp_offer (retain_session l r v g s) = sp_offer s" "sp_handed (retain_session l r v g s) = sp_handed s"
  "sp_offers (retain_session l r v g s) = sp_offers s"
  by (simp_all add: retain_session_def)

lemma core_retain:
  assumes "core s (Some (l, LeaseHeld ret))" "sp_resources s r = None"
  shows "core (retain_session l r v g s) (Some (l, LeaseHeld ret))"
  using assms(1) retain_views [OF assms(2)]
  by (auto simp: core_def cleanups_ok_views offer_ok_def custody_ok_def owner_ok_def handed_ok_def)

lemma publish_views:
  assumes "sp_resources s r = Some x" "of_resource offer = r"
  shows "unclosed (publish l ret o' offer s) q \<longleftrightarrow> unclosed s q"
    "open_session (publish l ret o' offer s) q \<longleftrightarrow> open_session s q"
    "promoted (publish l ret o' offer s) q \<longleftrightarrow> promoted s q \<or> q = r"
    "made_by (publish l ret o' offer s) k q \<longleftrightarrow> made_by s k q"
    "offered (publish l ret o' offer s) q \<longleftrightarrow> q = r"
    "sp_offer (publish l ret o' offer s) = Some o'" "sp_offers (publish l ret o' offer s) o' = Some offer"
    "sp_cleanups (publish l ret o' offer s) = sp_cleanups s" "sp_handed (publish l ret o' offer s) = sp_handed s"
    "sp_owner (publish l ret o' offer s) = sp_owner s" "sp_active (publish l ret o' offer s) = sp_active s"
    "sp_phases (publish l ret o' offer s) = (sp_phases s)(l := Some (LeaseHeld ret))"
  using assms by (auto simp: views publish_def set_phase_def change_resource_def)

lemma core_publish:
  assumes "core s (Some (l, p))" "in_body p" "given p = ret" "sp_offer s = None"
    and "unclosed s (of_resource offer)" "made_by s l (of_resource offer)" "of_watch offer = Watching"
  shows "core (publish l ret o' offer s) (Some (l, LeaseHeld ret))"
proof -
  obtain x where x: "sp_resources s (of_resource offer) = Some x" using assms(5) by (auto simp: unclosed_def)
  have open_ones: "r \<in> earlier_open s p \<longleftrightarrow> ret = Some r" for r using assms(2,3) by (cases p) auto
  have "\<not> offered s r" for r using assms(4) by (simp add: offered_def)
  then show ?thesis
    using assms open_ones publish_views [OF x refl, of l ret o']
    by (auto simp: core_def cleanups_ok_views offer_ok_def custody_ok_def owner_ok_def handed_ok_def)
qed

lemma close_unoffered_cases:
  "close_unoffered r s = s \<or> (\<not> promoted s r \<and> (\<exists>k. made_by s k r) \<and> close_unoffered r s = track_cleanup r s)"
  by (auto simp: close_unoffered_def promoted_def made_by_def split: option.split)

lemma core_close_unoffered:
  assumes "core s (Some (l, LeaseHeld ret))"
  shows "core (close_unoffered r s) (Some (l, LeaseHeld ret))"
proof -
  have "\<not> offered s r" if "\<not> promoted s r" using assms that by (auto simp: core_def offer_ok_def offered_def)
  then show ?thesis using close_unoffered_cases [of r s] core_track [OF assms, of _ r] assms by auto
qed

lemma close_unoffered_views:
  "made_by (close_unoffered r s) k q \<longleftrightarrow> made_by s k q" "promoted (close_unoffered r s) q \<longleftrightarrow> promoted s q"
  "unclosed (close_unoffered r s) q \<longleftrightarrow> unclosed s q \<and> (q = r \<longrightarrow> promoted s r)"
  "sp_owner (close_unoffered r s) = sp_owner s" "sp_phases (close_unoffered r s) = sp_phases s"
  by (auto simp: close_unoffered_def promoted_def unclosed_def made_by_def closing_of_def split: option.splits)

lemma close_all:
  "made_by (fold close_unoffered kept s) k q \<longleftrightarrow> made_by s k q"
  "promoted (fold close_unoffered kept s) q \<longleftrightarrow> promoted s q"
  "unclosed (fold close_unoffered kept s) q \<longleftrightarrow> unclosed s q \<and> (q \<in> set kept \<longrightarrow> promoted s q)"
  "sp_owner (fold close_unoffered kept s) = sp_owner s" "sp_phases (fold close_unoffered kept s) = sp_phases s"
  by (induction kept arbitrary: s) (auto simp: close_unoffered_views)

lemma core_close_all: "core s (Some (l, LeaseHeld ret)) \<Longrightarrow> core (fold close_unoffered kept s) (Some (l, LeaseHeld ret))"
  by (induction kept arbitrary: s) (auto simp: core_close_unoffered)

lemma active_close_all:
  "(sp_active s \<longleftrightarrow> sp_owner s \<noteq> None \<or> sp_cleanups s \<noteq> {}) \<Longrightarrow>
   (sp_active (fold close_unoffered kept s) \<longleftrightarrow>
      sp_owner (fold close_unoffered kept s) \<noteq> None \<or> sp_cleanups (fold close_unoffered kept s) \<noteq> {})"
proof (induction kept arbitrary: s)
  case (Cons r kept)
  have "sp_active (close_unoffered r s) \<longleftrightarrow> sp_owner (close_unoffered r s) \<noteq> None \<or> sp_cleanups (close_unoffered r s) \<noteq> {}"
    using close_unoffered_cases [of r s] Cons.prems by auto
  then show ?case using Cons.IH by simp
qed simp

lemma kept_closed: "all_kept s l kept \<Longrightarrow> kept_all_closed (fold close_unoffered kept s) l"
  unfolding kept_all_closed_def close_all by (auto simp: all_kept_def made_by_def)

section \<open>Ends of cleanups\<close>

lemma ended_views:
  assumes "sp_resources s r = Some x" "rs_close x = Closing"
    "s' = change_resource r (\<lambda>x. x\<lparr>rs_close := Closed result\<rparr>) s"
  shows "unclosed s' q \<longleftrightarrow> unclosed s q" "open_session s' q \<longleftrightarrow> open_session s q \<and> q \<noteq> r"
    "promoted s' q \<longleftrightarrow> promoted s q" "made_by s' k q \<longleftrightarrow> made_by s k q" "offered s' q \<longleftrightarrow> offered s q"
    "sp_offer s' = sp_offer s" "sp_offers s' = sp_offers s" "sp_cleanups s' = sp_cleanups s" "sp_handed s' = sp_handed s"
    "sp_owner s' = sp_owner s" "sp_phases s' = sp_phases s" "sp_active s' = sp_active s"
  using assms by (auto simp: views change_resource_def)

lemma ended_phases:
  assumes "sp_resources s r = Some x" "rs_close x = Closing"
    "s' = change_resource r (\<lambda>x. x\<lparr>rs_close := Closed result\<rparr>) s"
  shows "earlier_open s' p = earlier_open s p" "phase_fits s' l p = phase_fits s l p"
  using ended_views [OF assms] by (cases p; simp split: option.split)+

lemma core_ended:
  assumes "core s x" "sp_resources s r = Some y" "rs_close y = Closing"
  shows "core (change_resource r (\<lambda>x. x\<lparr>rs_close := Closed result\<rparr>) s) x"
  using assms(1) ended_views [OF assms(2,3) refl, of result] ended_phases [OF assms(2,3) refl, of result]
  by (auto simp: core_def cleanups_ok_views offer_ok_def custody_ok_def owner_ok_def handed_ok_def)

lemma core_callback:
  assumes "core s x" "cleaned s r \<noteq> None"
  shows "core (s\<lparr>sp_cleanups := sp_cleanups s - {r}\<rparr>) x"
proof -
  let ?s = "s\<lparr>sp_cleanups := sp_cleanups s - {r}\<rparr>"
  have v: "unclosed ?s = unclosed s" "open_session ?s = open_session s" "promoted ?s = promoted s"
    "made_by ?s = made_by s" "offered ?s = offered s"
    by (auto simp: fun_eq_iff views)
  have "earlier_open ?s p = earlier_open s p" "phase_fits ?s l p = phase_fits s l p" for l p
    by (cases p; simp add: v split: option.split)+
  moreover have "\<not> open_session s r"
    using assms(2) by (auto simp: cleaned_def open_session_def split: option.splits close_phase.splits)
  ultimately show ?thesis
    using assms(1) by (auto simp: core_def cleanups_ok_views offer_ok_def custody_ok_def owner_ok_def handed_ok_def v)
qed

section \<open>Steps\<close>

lemma owned_move:
  "owned_by s (Some (l, p)) \<Longrightarrow> holds_channel p' \<Longrightarrow> owned_by (set_phase l p' s) (Some (l, p'))"
  by (auto simp: owned_by_def)

lemma owned_idle:
  assumes "owned_by s x" "\<And>q. sp_phases s l = Some q \<Longrightarrow> \<not> holds_channel q" "\<not> holds_channel p'"
  shows "owned_by (set_phase l p' s) x"
proof -
  have "x \<noteq> Some (l, p)" for p
  proof
    assume "x = Some (l, p)"
    with assms(1) have "sp_phases s l = Some p" "holds_channel p" unfolding owned_by_def by blast+
    with assms(2) show False by simp
  qed
  with assms show ?thesis unfolding owned_by_def by auto
qed

lemma owned_release: "owned_by s (Some (l, p)) \<Longrightarrow> owned_by (release_owner l result s) None"
  by (auto simp: owned_by_def release_owner_def)

lemma owned_take:
  "owned_by s None \<Longrightarrow> holds_channel p' \<Longrightarrow> sp_owner s' = Some l \<Longrightarrow> sp_phases s' = (sp_phases s)(l := Some p') \<Longrightarrow>
   owned_by s' (Some (l, p'))"
  by (auto simp: owned_by_def)

lemma owned_same: "sp_owner s' = sp_owner s \<Longrightarrow> sp_phases s' = sp_phases s \<Longrightarrow> owned_by s' x \<longleftrightarrow> owned_by s x"
  by (simp add: owned_by_def)

text \<open>What a phase says of the owner.\<close>

lemma owner_phase:
  "owned_by s x \<Longrightarrow> sp_phases s l = Some p \<Longrightarrow> holds_channel p \<Longrightarrow> x = Some (l, p)"
  by (auto simp: owned_by_def)

definition active_ok :: "speech \<Rightarrow> bool" where
  "active_ok s \<longleftrightarrow> (sp_active s \<longleftrightarrow> sp_owner s \<noteq> None \<or> sp_cleanups s \<noteq> {})"

lemma speech_invI: "core s x \<Longrightarrow> owned_by s x \<Longrightarrow> births_ok s \<Longrightarrow> active_ok s \<Longrightarrow> speech_inv s"
  by (auto simp: speech_inv_def active_ok_def)

lemma speech_invE:
  assumes "speech_inv s"
  obtains x where "core s x" "owned_by s x" "births_ok s" "active_ok s"
  using assms by (auto simp: speech_inv_def active_ok_def)

lemma births_same:
  "births_ok s \<Longrightarrow> made_by s' = made_by s \<Longrightarrow> sp_phases s' = sp_phases s \<Longrightarrow> births_ok s'"
  by (simp add: births_ok_def)

lemma births_phase:
  "births_ok s \<Longrightarrow> made_by s' = made_by s \<Longrightarrow> sp_phases s' = (sp_phases s)(l := Some p') \<Longrightarrow>
   had_body p' \<or> (\<forall>p. sp_phases s l = Some p \<longrightarrow> \<not> had_body p) \<Longrightarrow> births_ok s'"
  by (auto simp: births_ok_def)

lemma active_same:
  "active_ok s \<Longrightarrow> sp_active s' = sp_active s \<Longrightarrow> sp_owner s' = sp_owner s \<Longrightarrow> sp_cleanups s' = sp_cleanups s \<Longrightarrow> active_ok s'"
  by (simp add: active_ok_def)

lemma active_on: "sp_active s' \<Longrightarrow> sp_owner s' \<noteq> None \<or> sp_cleanups s' \<noteq> {} \<Longrightarrow> active_ok s'"
  by (simp add: active_ok_def)

lemma leave_step:
  assumes x: "core s (Some (l, p))" "owned_by s (Some (l, p))" and b: "births_ok s" "active_ok s"
    and ret: "given p = ret" and kept: "in_body p \<Longrightarrow> kept_all_closed s l"
    and early: "\<And>r. ret = Some r \<Longrightarrow> earlier_open s p \<subseteq> {r}"
  shows "speech_inv (leave_lease l ret result s)"
proof (cases ret)
  case None
  have "core (release_owner l result s) None"
    using core_leave_none [OF x(1)] ret None kept by (simp add: release_owner_def)
  moreover have "births_ok (release_owner l result s)"
    by (rule births_phase [OF b(1), of _ l "LeaseOver result"])
      (simp_all add: release_owner_def)
  moreover have "active_ok (release_owner l result s)" by (simp add: active_ok_def release_owner_def)
  ultimately show ?thesis using owned_release [OF x(2)] None by (auto simp: leave_lease_def intro: speech_invI)
next
  case (Some r)
  let ?s = "set_phase l (LeaseCloses r result) (track_cleanup r s)"
  have "core ?s (Some (l, LeaseCloses r result))"
    using core_leave_given [OF x(1)] ret Some kept early by simp
  moreover have "owned_by ?s (Some (l, LeaseCloses r result))"
    using owned_move [of "track_cleanup r s" l p] x(2) by (simp add: owned_same [of "track_cleanup r s" s])
  moreover have "births_ok ?s"
    by (rule births_phase [OF b(1), of _ l "LeaseCloses r result"]) (auto simp: fun_eq_iff)
  moreover have "active_ok ?s" by (simp add: active_ok_def)
  ultimately show ?thesis using Some by (auto simp: leave_lease_def intro: speech_invI)
qed

lemma end_body_step:
  assumes "core s (Some (l, LeaseHeld ret))" "owned_by s (Some (l, p))" "given p = ret" "in_body p"
    "births_ok s" "active_ok s" "all_kept s l kept"
  shows "speech_inv (end_body l ret kept result s)"
proof -
  let ?s = "set_phase l (LeaseHeld ret) (fold close_unoffered kept s)"
  have s: "leave_lease l ret result ?s = end_body l ret kept result s"
    by (cases ret) (simp_all add: leave_lease_def end_body_def release_owner_def set_phase_def refresh_active_def
        track_cleanup_def start_close_def change_resource_def Let_def)
  have "speech_inv (leave_lease l ret result ?s)"
  proof (rule leave_step [where p = "LeaseHeld ret"])
    show "core ?s (Some (l, LeaseHeld ret))" using core_close_all [OF assms(1)] by simp
    have "owned_by (fold close_unoffered kept s) (Some (l, p))"
      using assms(2) by (simp add: owned_by_def close_all)
    then show "owned_by ?s (Some (l, LeaseHeld ret))" by (rule owned_move) simp
    show "births_ok ?s"
      by (rule births_phase [OF assms(5), of _ l "LeaseHeld ret"]) (simp_all add: fun_eq_iff close_all)
    have "active_ok (fold close_unoffered kept s)"
      using active_close_all assms(6) unfolding active_ok_def by blast
    then show "active_ok ?s" by (rule active_same) simp_all
    show "kept_all_closed ?s l" using kept_closed [OF assms(7)] by (simp add: kept_all_closed_def)
  qed auto
  then show ?thesis unfolding s .
qed

text \<open>A lease that moves on from a phase in which it owns the channel.\<close>

lemma move_step:
  assumes "owned_by s (Some (l, p))" "births_ok s" "active_ok s'"
    and "core s' (Some (l, p'))" "holds_channel p'" "had_body p' \<or> \<not> had_body p"
    and "sp_owner s' = sp_owner s" "sp_phases s' = sp_phases s" "made_by s' = made_by s"
  shows "speech_inv (set_phase l p' s')"
proof (rule speech_invI)
  show "core (set_phase l p' s') (Some (l, p'))" using assms(4) by simp
  have "owned_by s' (Some (l, p))" using assms(1) unfolding owned_same [OF assms(7,8)] .
  then show "owned_by (set_phase l p' s') (Some (l, p'))" using assms(5) by (rule owned_move)
  have "sp_phases s l = Some p" using assms(1) by (auto simp: owned_by_def)
  with assms(6) have "had_body p' \<or> (\<forall>p. sp_phases s l = Some p \<longrightarrow> \<not> had_body p)" by simp
  then show "births_ok (set_phase l p' s')"
    by (rule births_phase [OF assms(2), rotated 2]) (simp_all add: assms(8,9))
  show "active_ok (set_phase l p' s')" using assms(3) by (simp add: active_ok_def)
qed

lemma active_tracked: "active_ok (track_cleanup r s)"
  by (simp add: active_ok_def)

lemma acquire_step:
  assumes inv: "core s None" "owned_by s None" "births_ok s" "sp_cleanups s = {}"
    and l: "\<And>p. sp_phases s l = Some p \<Longrightarrow> \<not> had_body p"
  shows "speech_inv (acquire digest l req s)"
proof -
  define s1 where "s1 = refresh_active (s\<lparr>sp_owner := Some l\<rparr>)"
  have s1: "core s1 None" "sp_owner s1 = Some l" "sp_phases s1 = sp_phases s" "sp_cleanups s1 = {}" "made_by s1 = made_by s"
    "sp_active s1"
    using inv(1,4) by (simp_all add: s1_def)
  have no_births: "\<not> made_by s1 l r" for r using inv(3) l by (auto simp: births_ok_def s1(5))
  have finish: "speech_inv (set_phase l p' s2)"
    if "core s2 (Some (l, p'))" "holds_channel p'" "sp_owner s2 = Some l" "sp_phases s2 = sp_phases s"
      "made_by s2 = made_by s" "sp_active s2" for p' s2
  proof (rule speech_invI)
    show "core (set_phase l p' s2) (Some (l, p'))" using that(1) by simp
    show "owned_by (set_phase l p' s2) (Some (l, p'))" by (rule owned_take [OF inv(2) that(2)]) (use that in simp_all)
    have "had_body p' \<or> (\<forall>p. sp_phases s l = Some p \<longrightarrow> \<not> had_body p)" using l by simp
    then show "births_ok (set_phase l p' s2)"
      by (rule births_phase [OF inv(3), rotated 2]) (simp_all add: that(4,5))
    show "active_ok (set_phase l p' s2)" using that(3,6) by (simp add: active_ok_def)
  qed
  have hold: "hold l None s1 = set_phase l (LeaseHeld None) s1" by (simp add: hold_def)
  show ?thesis
  proof (cases "sp_offer s1")
    case None
    have "core s1 (Some (l, LeaseHeld None))" by (rule core_acquire_free [OF s1(1,4) None])
    then have "speech_inv (set_phase l (LeaseHeld None) s1)" by (rule finish) (simp_all add: s1)
    then show ?thesis using None hold by (simp add: acquire_def Let_def flip: s1_def)
  next
    case (Some o')
    then obtain offer where offer: "sp_offers s1 o' = Some offer" using s1(1) by (auto simp: core_def offer_ok_def)
    let ?fit = "cancel_offer_watchdog o' (s1\<lparr>sp_offer := None\<rparr>)"
    let ?unfit = "cancel_offer_watchdog o' (track_cleanup (of_resource offer) (s1\<lparr>sp_offer := None\<rparr>))"
    have "speech_inv (set_phase l (LeaseStopsWatch o' (Some (of_resource offer))) ?fit)"
      by (rule finish [OF core_take_offer [OF s1(1,4) Some offer no_births]])
        (use s1 cancel_watchdog_cases [of o' "s1\<lparr>sp_offer := None\<rparr>"] in \<open>auto\<close>)
    moreover have "speech_inv (set_phase l (LeaseStopsWatch o' None) ?unfit)"
      by (rule finish [OF core_take_unfit [OF s1(1,4) Some offer no_births]])
        (use s1 cancel_watchdog_cases [of o' "track_cleanup (of_resource offer) (s1\<lparr>sp_offer := None\<rparr>)"]
          in \<open>auto simp: fun_eq_iff\<close>)
    ultimately show ?thesis using Some offer by (simp add: acquire_def Let_def flip: s1_def)
  qed
qed

lemma admit_step:
  assumes inv: "core s x" "owned_by s x" "births_ok s" "active_ok s"
    and l: "\<And>p. sp_phases s l = Some p \<Longrightarrow> \<not> had_body p \<and> \<not> holds_channel p"
  shows "speech_inv (admit digest l req s)"
proof -
  have stay: "speech_inv (set_phase l p' s)" if "\<not> holds_channel p'" for p'
  proof (rule speech_invI)
    show "core (set_phase l p' s) x" using inv(1) by simp
    show "owned_by (set_phase l p' s) x" by (rule owned_idle [OF inv(2)]) (use l that in auto)
    have "had_body p' \<or> (\<forall>p. sp_phases s l = Some p \<longrightarrow> \<not> had_body p)" using l by simp
    then show "births_ok (set_phase l p' s)" by (rule births_phase [OF inv(3), rotated 2]) simp_all
    show "active_ok (set_phase l p' s)" by (rule active_same [OF inv(4)]) simp_all
  qed
  show ?thesis
  proof (cases "sp_owner s = None \<and> sp_cleanups s = {}")
    case True
    then have "x = None" using inv(2) by (simp add: owned_by_def)
    then have "speech_inv (acquire digest l req s)" using inv True l by (intro acquire_step) auto
    with True show ?thesis by (simp add: admit_def)
  next
    case False
    then show ?thesis using stay by (auto simp: admit_def)
  qed
qed

text \<open>Steps that change neither the owner nor the phases.\<close>

lemma same_step:
  assumes "owned_by s x" "births_ok s" "core s' x" "active_ok s'"
    and "sp_owner s' = sp_owner s" "sp_phases s' = sp_phases s" "made_by s' = made_by s"
  shows "speech_inv s'"
proof (rule speech_invI)
  show "owned_by s' x" using assms(1) unfolding owned_same [OF assms(5,6)] .
  show "births_ok s'" using assms(2) births_same [OF _ assms(7,6)] by blast
qed (use assms in auto)

lemma offer_stored: "core s x \<Longrightarrow> sp_offer s = Some o' \<Longrightarrow> \<exists>offer. sp_offers s o' = Some offer"
  by (auto simp: core_def offer_ok_def)

lemma drop_step:
  assumes "core s x" "owned_by s x" "births_ok s" "sp_offer s = Some o'" "sp_offers s o' = Some offer"
  shows "speech_inv (cancel_offer_watchdog o' (drop_offer o' offer s))"
proof (rule same_step [OF assms(2,3)])
  show "core (cancel_offer_watchdog o' (drop_offer o' offer s)) x"
    by (rule core_cancel_watchdog [OF core_drop_offer [OF assms(1,4,5)]]) simp
qed (use cancel_watchdog_cases [of o' "drop_offer o' offer s"] in
    \<open>auto simp: active_ok_def fun_eq_iff drop_views drop_offer_def\<close>)

lemma watch_step:
  assumes "core s x" "owned_by s x" "births_ok s" "active_ok s" "sp_offers s o' = Some offer"
  shows "speech_inv (watch_fires o' s)"
proof -
  define s1 where "s1 = invalidate (of_resource offer) s"
  have s1: "core s1 x" "sp_owner s1 = sp_owner s" "sp_phases s1 = sp_phases s" "made_by s1 = made_by s"
    "sp_offer s1 = sp_offer s" "sp_offers s1 = sp_offers s" "sp_active s1 = sp_active s" "sp_cleanups s1 = sp_cleanups s"
    using assms(1) by (simp_all add: s1_def)
  show ?thesis
  proof (cases "sp_offer s = Some o'")
    case False
    then have "watch_fires o' s = set_watch o' WatchOver s1"
      using assms(5) by (simp add: watch_fires_def Let_def s1(5) flip: s1_def)
    moreover have "core (set_watch o' WatchOver s1) x" by (rule core_set_watch [OF s1(1)]) (use False s1(5) in simp_all)
    moreover have "active_ok (set_watch o' WatchOver s1)" by (rule active_same [OF assms(4)]) (simp_all add: s1)
    ultimately show ?thesis by (intro same_step [OF assms(2,3)]) (simp_all add: s1)
  next
    case True
    let ?d = "drop_offer o' offer s1"
    have "watch_fires o' s = drop_offer o' offer (set_watch o' WatchOver s1)"
      using assms(5) True by (simp add: watch_fires_def Let_def s1(5) flip: s1_def)
    also have "\<dots> = set_watch o' WatchOver ?d"
      by (simp add: drop_offer_def set_watch_def track_cleanup_def start_close_def change_resource_def refresh_active_def Let_def)
    finally have w: "watch_fires o' s = set_watch o' WatchOver ?d" .
    have "core ?d x" by (rule core_drop_offer [OF s1(1)]) (use assms(5) True s1 in simp_all)
    then have "core (set_watch o' WatchOver ?d) x" by (rule core_set_watch) simp_all
    moreover have "active_ok (set_watch o' WatchOver ?d)" by (simp add: active_ok_def drop_offer_def)
    ultimately show ?thesis unfolding w
      by (intro same_step [OF assms(2,3)]) (simp_all add: s1 fun_eq_iff drop_views)
  qed
qed

lemma cancel_step:
  assumes inv: "core s x" "owned_by s x" "births_ok s" "active_ok s" and kept: "all_kept s l kept"
  shows "speech_inv (cancel_lease l kept s)"
proof (cases "sp_phases s l")
  case None
  then show ?thesis using inv by (auto simp: cancel_lease_def intro: speech_invI)
next
  case (Some p)
  have own: "core s (Some (l, p))" "owned_by s (Some (l, p))" if "holds_channel p"
    using owner_phase [OF inv(2) Some that] inv(1,2) by simp_all
  show ?thesis
  proof (cases p)
    case (LeaseWaits rs)
    have "speech_inv (set_phase l (LeaseOver (Inl CancelledError)) s)"
    proof (rule speech_invI)
      show "core (set_phase l (LeaseOver (Inl CancelledError)) s) x" using inv(1) by simp
      show "owned_by (set_phase l (LeaseOver (Inl CancelledError)) s) x"
        by (rule owned_idle [OF inv(2)]) (use Some LeaseWaits in auto)
      show "births_ok (set_phase l (LeaseOver (Inl CancelledError)) s)"
        by (rule births_phase [OF inv(3), of _ l "LeaseOver (Inl CancelledError)"]) simp_all
      show "active_ok (set_phase l (LeaseOver (Inl CancelledError)) s)" by (rule active_same [OF inv(4)]) simp_all
    qed
    with Some LeaseWaits show ?thesis by (simp add: cancel_lease_def)
  next
    case (LeaseStopsWatch o' ret)
    with own have c: "core s (Some (l, p))" "owned_by s (Some (l, p))" by simp_all
    have "speech_inv (leave_lease l ret (Inl CancelledError) s)"
      by (rule leave_step [OF c inv(3,4)]) (use LeaseStopsWatch c(1) in \<open>auto simp: core_def owner_ok_def\<close>)
    with Some LeaseStopsWatch show ?thesis by (simp add: cancel_lease_def)
  next
    case (LeaseAwaits r)
    with own have c: "core s (Some (l, p))" "owned_by s (Some (l, p))" by simp_all
    have "speech_inv (leave_lease l None (Inl CancelledError) s)"
      by (rule leave_step [OF c inv(3,4)]) (use LeaseAwaits in auto)
    with Some LeaseAwaits show ?thesis by (simp add: cancel_lease_def)
  next
    case (LeaseSettles r)
    with own have c: "core s (Some (l, p))" "owned_by s (Some (l, p))" by simp_all
    have "speech_inv (leave_lease l (Some r) (Inl CancelledError) s)"
      by (rule leave_step [OF c inv(3,4)]) (use LeaseSettles in auto)
    with Some LeaseSettles show ?thesis by (simp add: cancel_lease_def)
  next
    case (LeaseHeld ret)
    with own have c: "core s (Some (l, LeaseHeld ret))" "owned_by s (Some (l, p))" by simp_all
    have "speech_inv (end_body l ret kept (Inl CancelledError) s)"
      by (rule end_body_step [OF c _ _ inv(3,4) kept]) (use LeaseHeld in simp_all)
    with Some LeaseHeld show ?thesis by (simp add: cancel_lease_def)
  next
    case (LeaseReplaces ret o' offer)
    with own have c: "core s (Some (l, LeaseReplaces ret o' offer))" "owned_by s (Some (l, p))" by simp_all
    have "speech_inv (end_body l ret kept (Inl CancelledError) s)"
      by (rule end_body_step [OF core_give_up_offer [OF c(1)] c(2) _ _ inv(3,4) kept]) (use LeaseReplaces in simp_all)
    with Some LeaseReplaces show ?thesis by (simp add: cancel_lease_def)
  next
    case (LeaseCloses r result)
    with own have c: "core s (Some (l, LeaseCloses r result))" "owned_by s (Some (l, LeaseCloses r result))" by simp_all
    have "speech_inv (leave_lease l None (Inl CancelledError) s)"
      by (rule leave_step [OF c inv(3,4)]) simp_all
    with Some LeaseCloses show ?thesis by (simp add: cancel_lease_def leave_lease_def)
  next
    case (LeaseOver result)
    with Some inv show ?thesis by (auto simp: cancel_lease_def intro: speech_invI)
  qed
qed

lemma published_step:
  assumes c: "core s (Some (l, p))" "owned_by s (Some (l, p))" and b: "births_ok s" "active_ok s"
    and p: "in_body p" "given p = ret" "sp_offer s = None"
    and fits: "unclosed s (of_resource offer)" "made_by s l (of_resource offer)" "of_watch offer = Watching"
  shows "speech_inv (publish l ret o' offer s)"
proof (rule speech_invI)
  obtain y where "sp_resources s (of_resource offer) = Some y" using fits(1) by (auto simp: unclosed_def)
  note v = publish_views [OF this refl, of l ret o']
  show "core (publish l ret o' offer s) (Some (l, LeaseHeld ret))" by (rule core_publish [OF c(1) p fits])
  show "owned_by (publish l ret o' offer s) (Some (l, LeaseHeld ret))" using c(2) v by (auto simp: owned_by_def)
  show "births_ok (publish l ret o' offer s)"
    by (rule births_phase [OF b(1), of _ l "LeaseHeld ret"]) (simp_all add: v fun_eq_iff)
  show "active_ok (publish l ret o' offer s)" by (rule active_same [OF b(2)]) (simp_all add: v)
qed

lemma replaced_step:
  assumes c: "core s (Some (l, LeaseHeld ret))" "owned_by s (Some (l, LeaseHeld ret))" and b: "births_ok s"
    and old: "sp_offer s = Some replaced" "sp_offers s replaced = Some old"
    and r: "unclosed s r" "made_by s l r" "\<not> promoted s r"
    and offer: "of_resource offer = r" "of_watch offer = Watching"
  shows "speech_inv (set_phase l (LeaseReplaces ret replaced offer) (cancel_offer_watchdog replaced (drop_offer replaced old s)))"
proof -
  let ?d = "cancel_offer_watchdog replaced (drop_offer replaced old s)"
  note d_cases = cancel_watchdog_cases [of replaced "drop_offer replaced old s"]
  have "\<not> offered s r" using c(1) r(3) by (auto simp: core_def offer_ok_def offered_def)
  then have "of_resource old \<noteq> r" using old by (auto simp: offered_def)
  then have d: "unclosed ?d r" "made_by ?d l r" "\<not> promoted ?d r" "sp_offer ?d = None"
    using d_cases r by (auto simp: drop_views)
  have "core ?d (Some (l, LeaseHeld ret))"
    by (rule core_cancel_watchdog [OF core_drop_offer [OF c(1) old]]) simp
  then have "core ?d (Some (l, LeaseReplaces ret replaced offer))"
    using d offer by (auto simp: core_def offer_ok_def custody_ok_def owner_ok_def handed_ok_def)
  moreover have "active_ok ?d" using d_cases by (auto simp: active_ok_def drop_offer_def)
  moreover have "sp_owner ?d = sp_owner s" "sp_phases ?d = sp_phases s" "made_by ?d = made_by s"
    using d_cases by (auto simp: fun_eq_iff drop_views)
  ultimately show ?thesis by (intro move_step [OF c(2) b]) simp_all
qed

lemma sees_watch_step:
  assumes c: "core s (Some (l, LeaseStopsWatch o' ret))" "owned_by s (Some (l, LeaseStopsWatch o' ret))"
    and b: "births_ok s" "active_ok s" and "watch_over s o'"
  shows "speech_inv (after_watch l o' ret s)"
proof -
  obtain offer where offer: "sp_offers s o' = Some offer" using assms(5) by (auto simp: watch_over_def split: option.splits)
  show ?thesis
  proof (cases ret)
    case None
    have "speech_inv (set_phase l (LeaseAwaits (of_resource offer)) s)"
      by (rule move_step [OF c(2) b core_await]) (use c(1) None offer in simp_all)
    then show ?thesis using None offer by (simp add: after_watch_def)
  next
    case (Some r)
    have "r = of_resource offer" using c(1) offer Some by (auto simp: core_def owner_ok_def)
    then have "speech_inv (set_phase l (LeaseAwaits r) (track_cleanup r s))"
      by (intro move_step [OF c(2) b(1) active_tracked core_drop_given [OF c(1)]])
        (use Some offer in \<open>auto simp: fun_eq_iff\<close>)
    moreover have "speech_inv (set_phase l (LeaseSettles r) s)"
      by (rule move_step [OF c(2) b core_settle]) (use c(1) Some in simp_all)
    ultimately show ?thesis using Some offer by (simp add: after_watch_def)
  qed
qed

lemma settled_step:
  assumes c: "core s (Some (l, LeaseSettles r))" "owned_by s (Some (l, LeaseSettles r))" and b: "births_ok s" "active_ok s"
  shows "speech_inv (after_settling l r quiet s)"
proof -
  let ?hand = "s\<lparr>sp_handed := sp_handed s @ [r]\<rparr>"
  have "speech_inv (set_phase l (LeaseHeld (Some r)) ?hand)"
    by (rule move_step [OF c(2) b(1) active_same [OF b(2)] core_hand]) (use c(1) in simp_all)
  moreover have "speech_inv (set_phase l (LeaseAwaits r) (track_cleanup r (invalidate r s)))"
    by (rule move_step [OF c(2) b(1) active_tracked core_drop_given [where p = "LeaseSettles r"]])
      (use c(1) in \<open>auto simp: fun_eq_iff\<close>)
  ultimately show ?thesis by (simp add: after_settling_def hold_def)
qed

lemma awaited_step:
  assumes c: "core s (Some (l, LeaseAwaits r))" "owned_by s (Some (l, LeaseAwaits r))" and b: "births_ok s" "active_ok s"
    and "cleaned s r = Some result"
  shows "speech_inv (cleanup_awaited l result s)"
proof (cases result)
  case (Inl e)
  have "speech_inv (leave_lease l None (Inl e) s)" by (rule leave_step [OF c b]) simp_all
  with Inl show ?thesis by (simp add: cleanup_awaited_def)
next
  case (Inr u)
  have "speech_inv (set_phase l (LeaseHeld None) s)"
    by (rule move_step [OF c(2) b core_hold_none [OF c(1)]]) (simp_all add: assms(5))
  with Inr show ?thesis by (simp add: cleanup_awaited_def hold_def)
qed

lemma closes_retained_step:
  assumes c: "core s (Some (l, LeaseHeld (Some r)))" "owned_by s (Some (l, LeaseHeld (Some r)))" and b: "births_ok s"
  shows "speech_inv (track_cleanup r s)"
proof -
  from c(1) have p: "promoted s r" "\<not> made_by s l r" by (simp_all add: core_def owner_ok_def)
  then have "\<not> offered s r" using c(1) by (auto simp: core_def offer_ok_def offered_def)
  moreover obtain k where "made_by s k r" using promoted_made p(1) by blast
  ultimately have "core (track_cleanup r s) (Some (l, LeaseHeld (Some r)))" using c(1) by (intro core_track) auto
  moreover have "owned_by (track_cleanup r s) (Some (l, LeaseHeld (Some r)))" using c(2) by (simp add: owned_by_def)
  moreover have "births_ok (track_cleanup r s)" by (rule births_same [OF b]) (simp_all add: fun_eq_iff)
  ultimately show ?thesis using active_tracked by (intro speech_invI)
qed

lemma holding_phases:
  "holds_channel (LeaseStopsWatch o' ret)" "holds_channel (LeaseAwaits r)" "holds_channel (LeaseSettles r)"
  "holds_channel (LeaseHeld ret)" "holds_channel (LeaseReplaces ret o' offer)" "holds_channel (LeaseCloses r result)"
  by simp_all

lemma speech_step_keeps:
  assumes "speech_step digest s e s'" "speech_inv s"
  shows "speech_inv s'"
proof -
  obtain x where inv: "core s x" "owned_by s x" "births_ok s" "active_ok s" using speech_invE [OF assms(2)] .
  have own: "core s (Some (l, p))" "owned_by s (Some (l, p))" if "sp_phases s l = Some p" "holds_channel p" for l p
    using owner_phase [OF inv(2) that] inv(1,2) by simp_all
  note same = same_step [OF inv(2,3)]
  from assms(1) show ?thesis
  proof cases
    case (passes d)
    have "active_ok s'" by (rule active_same [OF inv(4)]) (simp_all add: passes)
    then show ?thesis by (intro same) (use inv(1) in \<open>simp_all add: passes fun_eq_iff made_by_def\<close>)
  next
    case (asks l req)
    let ?s = "s\<lparr>sp_requests := (sp_requests s)(l := Some req)\<rparr>"
    have "births_ok ?s" by (rule births_same [OF inv(3)]) (simp_all add: fun_eq_iff made_by_def)
    moreover have "active_ok ?s" by (rule active_same [OF inv(4)]) simp_all
    moreover have "owned_by ?s x" using inv(2) by (simp add: owned_by_def)
    ultimately show ?thesis unfolding asks(2) using inv(1) asks(3) by (intro admit_step) auto
  next
    case (retries l rs req)
    show ?thesis unfolding retries(2) by (rule admit_step [OF inv]) (use retries(3) in auto)
  next
    case (times_out l rs req)
    let ?over = "LeaseOver (Inl (BridgeBusyError ''speech session cleanup is still active''))"
    have "owned_by (set_phase l ?over s) x" by (rule owned_idle [OF inv(2)]) (use times_out(3) in auto)
    moreover have "births_ok (set_phase l ?over s)" by (rule births_phase [OF inv(3), of _ l ?over]) simp_all
    moreover have "active_ok (set_phase l ?over s)" by (rule active_same [OF inv(4)]) simp_all
    ultimately show ?thesis unfolding times_out(2) wait_times_out_def using inv(1) by (auto intro: speech_invI)
  next
    case (watch_stops o' offer)
    have "sp_offer s \<noteq> Some o'" using inv(1) watch_stops(3,4) by (auto simp: core_def offer_ok_def)
    then have "core s' x" unfolding watch_stops(2) by (intro core_set_watch inv(1)) simp_all
    moreover have "active_ok s'" by (rule active_same [OF inv(4)]) (simp_all add: watch_stops)
    ultimately show ?thesis by (intro same) (simp_all add: watch_stops)
  next
    case (sees_watch l o' ret)
    show ?thesis unfolding sees_watch(2)
      by (rule sees_watch_step [OF own [OF sees_watch(3) holding_phases(1)] inv(3,4) sees_watch(4)])
  next
    case (settles l r quiet)
    show ?thesis unfolding settles(2) by (rule settled_step [OF own [OF settles(3) holding_phases(3)] inv(3,4)])
  next
    case (sees_cleanup l r result)
    show ?thesis unfolding sees_cleanup(2)
      by (rule awaited_step [OF own [OF sees_cleanup(3) holding_phases(2)] inv(3,4) sees_cleanup(4)])
  next
    case (keeps l ret r voice language)
    note c = own [OF keeps(3) holding_phases(4)]
    have "core s' (Some (l, LeaseHeld ret))" unfolding keeps(2) by (rule core_retain) (use c(1) keeps(4) in simp_all)
    moreover have "owned_by s' (Some (l, LeaseHeld ret))" using c(2) by (simp add: keeps(2) owned_by_def)
    moreover have "births_ok s'" using inv(3) keeps(3) by (auto simp: births_ok_def keeps(2) retain_views [OF keeps(4)])
    moreover have "active_ok s'" by (rule active_same [OF inv(4)]) (simp_all add: keeps(2))
    ultimately show ?thesis by (rule speech_invI)
  next
    case (offers l ret r y o' token)
    note c = own [OF offers(3) holding_phases(4)]
    define offer where "offer = new_offer digest token r y s"
    have offer: "of_resource offer = r" "of_watch offer = Watching" by (simp_all add: offer_def new_offer_def)
    have r: "unclosed s r" "made_by s l r" "\<not> promoted s r" using offers(4-7) by (auto simp: views)
    show ?thesis
    proof (cases "sp_offer s")
      case None
      have "speech_inv (publish l ret o' offer s)"
        by (rule published_step [OF c inv(3,4)]) (use None offer r in simp_all)
      then show ?thesis unfolding offers(2) using None by (simp add: offer_speech_session_def Let_def flip: offer_def)
    next
      case (Some replaced)
      then obtain old where old: "sp_offers s replaced = Some old" using offer_stored [OF inv(1)] by blast
      show ?thesis unfolding offers(2)
        using replaced_step [OF c inv(3) Some old r offer] Some old
        by (simp add: offer_speech_session_def Let_def flip: offer_def)
    qed
  next
    case (resumes l ret replaced offer old result o')
    note c = own [OF resumes(3) holding_phases(5)]
    show ?thesis
    proof (cases result)
      case (Inl e)
      have "speech_inv (set_phase l (LeaseHeld ret) s)"
        by (rule move_step [OF c(2) inv(3,4) core_give_up_offer [OF c(1)]]) simp_all
      with Inl show ?thesis unfolding resumes(2) by (simp add: after_replaced_def)
    next
      case (Inr u)
      have "speech_inv (publish l ret o' offer s)"
        by (rule published_step [OF c inv(3,4)]) (use c(1) core_no_offer [OF c(1)] in \<open>auto simp: core_def owner_ok_def\<close>)
      with Inr show ?thesis unfolding resumes(2) by (simp add: after_replaced_def)
    qed
  next
    case (closes_retained l r)
    show ?thesis unfolding closes_retained(2)
      by (rule closes_retained_step [OF own [OF closes_retained(3) holding_phases(4)] inv(3)])
  next
    case (ends l ret kept result)
    note c = own [OF ends(3) holding_phases(4)]
    show ?thesis unfolding ends(2) by (rule end_body_step [OF _ c(2) _ _ inv(3,4) ends(4)]) (use c(1) in simp_all)
  next
    case (cancelled l kept)
    show ?thesis unfolding cancelled(2) by (rule cancel_step [OF inv cancelled(3)])
  next
    case (closed l r body result)
    note c = own [OF closed(3) holding_phases(6)]
    have "speech_inv (leave_lease l None (if is_ok result then body else result) s)"
      by (rule leave_step [OF c inv(3,4)]) simp_all
    then show ?thesis unfolding closed(2) by (simp add: leave_lease_def)
  next
    case (watchdog o' offer)
    show ?thesis unfolding watchdog(2) by (rule watch_step [OF inv watchdog(3)])
  next
    case (releases token)
    then show ?thesis
      using assms(2) drop_step [OF inv(1-3)] by (auto simp: release_speech_session_offer_def split: option.split)
  next
    case closes_offer
    then show ?thesis
      using assms(2) drop_step [OF inv(1-3)] by (auto simp: close_speech_session_offer_def split: option.split)
  next
    case (cleanup_ends r y result)
    note v = ended_views [OF cleanup_ends(3,4) refl, of result]
    have "core s' x" unfolding cleanup_ends(2) by (rule core_ended [OF inv(1) cleanup_ends(3,4)])
    moreover have "active_ok s'" by (rule active_same [OF inv(4)]) (simp_all add: cleanup_ends(2) v)
    ultimately show ?thesis by (intro same) (simp_all add: cleanup_ends(2) v fun_eq_iff)
  next
    case (callback r)
    have "core s' x" unfolding callback(2) cleanup_finished_def using core_callback [OF inv(1) callback(4)] by simp
    moreover have "active_ok s'" by (simp add: active_ok_def callback(2) cleanup_finished_def)
    ultimately show ?thesis by (intro same) (simp_all add: callback(2) cleanup_finished_def fun_eq_iff made_by_def)
  qed
qed

lemma speech_reachable_inv: "speech_reachable digest s \<Longrightarrow> speech_inv s"
  by (induction rule: speech_reachable.induct) (auto intro: speech_inv_new speech_step_keeps)

section \<open>Laws\<close>

text \<open>C17: One realtime speech session at a time. In every reachable state, whatever requests, cancellations,
  watchdogs and cleanups interleave, at most one lease owns the channel; and while the body of a lease runs, every
  session retained by any earlier lease has been cleaned up, except the one this lease was given. The busy flag
  shows exactly whether the channel is owned or a cleanup runs.\<close>
theorem speech_channel_is_exclusive:
  assumes "speech_reachable digest s"
  shows "(\<forall>l p. sp_phases s l = Some p \<and> holds_channel p \<longrightarrow> sp_owner s = Some l)
    \<and> (\<forall>l ret r x. sp_phases s l = Some (LeaseHeld ret) \<and> sp_resources s r = Some x \<and> rs_lease x \<noteq> l \<and> ret \<noteq> Some r
         \<longrightarrow> (\<exists>result. rs_close x = Closed result))
    \<and> (sp_active s \<longleftrightarrow> sp_owner s \<noteq> None \<or> sp_cleanups s \<noteq> {})"
proof -
  obtain x where inv: "core s x" "owned_by s x" "active_ok s"
    using speech_reachable_inv [OF assms] by (rule speech_invE)
  have "\<exists>result. rs_close y = Closed result"
    if "sp_phases s l = Some (LeaseHeld ret)" "sp_resources s r = Some y" "rs_lease y \<noteq> l" "ret \<noteq> Some r" for l ret r y
  proof -
    have "x = Some (l, LeaseHeld ret)" using owner_phase [OF inv(2) that(1)] by simp
    then have "\<not> open_session s r" using inv(1) that(2-4) by (auto simp: core_def owner_ok_def made_by_def)
    then show ?thesis using that(2) by (auto simp: open_session_def)
  qed
  moreover have "sp_owner s = Some l" if "sp_phases s l = Some p" "holds_channel p" for l p
    using owner_phase [OF inv(2) that] inv(2) by (simp add: owned_by_def)
  ultimately show ?thesis using inv(3) unfolding active_ok_def by blast
qed

text \<open>Retained sessions are neither shared nor lost. In every reachable state no session was handed to two
  leases, and a session whose cleanup has not started is in somebody's hands: it is the session of the
  current offer, whose watchdog runs until the offer expires, or the one given to the lease that owns the channel,
  or one that this lease's own transcription keeps and has not offered yet.\<close>
theorem retained_sessions_are_owned:
  assumes "speech_reachable digest s"
  shows "distinct (sp_handed s)
    \<and> (\<forall>r x. sp_resources s r = Some x \<and> rs_close x = Unclosed \<longrightarrow>
         (\<exists>o' offer. sp_offer s = Some o' \<and> sp_offers s o' = Some offer \<and> of_resource offer = r \<and> of_watch offer = Watching)
         \<or> (\<exists>l p. sp_owner s = Some l \<and> sp_phases s l = Some p
              \<and> (given p = Some r \<or> in_body p \<and> rs_lease x = l \<and> \<not> rs_promoted x)))"
proof -
  obtain x where inv: "core s x" "owned_by s x"
    using speech_reachable_inv [OF assms] by (rule speech_invE)
  have owner: "sp_owner s = Some l \<and> sp_phases s l = Some p" if "x = Some (l, p)" for l p
    using inv(2) that by (auto simp: owned_by_def)
  have "(\<exists>o' offer. sp_offer s = Some o' \<and> sp_offers s o' = Some offer \<and> of_resource offer = r \<and> of_watch offer = Watching)
         \<or> (\<exists>l p. sp_owner s = Some l \<and> sp_phases s l = Some p
              \<and> (given p = Some r \<or> in_body p \<and> rs_lease y = l \<and> \<not> rs_promoted y))"
    if "sp_resources s r = Some y" "rs_close y = Unclosed" for r y
  proof -
    have "unclosed s r" using that by (simp add: unclosed_def)
    then have "offered s r \<or> (\<exists>l p. x = Some (l, p) \<and> (given p = Some r \<or> in_body p \<and> made_by s l r \<and> \<not> promoted s r))"
      using inv(1) by (simp add: core_def custody_ok_def)
    then show ?thesis
    proof
      assume "offered s r"
      then show ?thesis using inv(1) by (auto simp: core_def offer_ok_def offered_def)
    next
      assume "\<exists>l p. x = Some (l, p) \<and> (given p = Some r \<or> in_body p \<and> made_by s l r \<and> \<not> promoted s r)"
      then show ?thesis using owner that(1) by (auto simp: made_by_def promoted_def)
    qed
  qed
  then show ?thesis using inv(1) by (simp add: core_def handed_ok_def)
qed

text \<open>A transcription keeps and offers its session, and the synthesis after it is given that session.\<close>

definition sample_digest :: "string \<Rightarrow> bytes" where
  "sample_digest t = (if t = ''t'' then [1] else [])"

definition sample_asking :: lease_request where
  "sample_asking = \<lparr>lr_token = JNull, lr_voice = None, lr_language = None, lr_instructions = False, lr_deadline = 5\<rparr>"

definition sample_claiming :: lease_request where
  "sample_claiming =
     \<lparr>lr_token = JStr ''t'', lr_voice = Some ''cove'', lr_language = None, lr_instructions = False, lr_deadline = 5\<rparr>"

definition sample_retained :: retained where
  "sample_retained = \<lparr>rs_lease = 0, rs_voice = ''cove'', rs_language = None, rs_invalidated = False,
     rs_promoted = True, rs_close = Unclosed\<rparr>"

definition sample_speech_offer :: "watch_phase \<Rightarrow> speech_offer" where
  "sample_speech_offer w = \<lparr>of_digest = [1], of_resource = 7, of_voice = ''cove'', of_language = None, of_expires = 30,
     of_watch = w\<rparr>"

definition sample_kept :: speech where
  "sample_kept = new_speech\<lparr>sp_owner := Some 0, sp_active := True, sp_requests := [0 \<mapsto> sample_asking],
     sp_phases := [0 \<mapsto> LeaseHeld None], sp_resources := [7 \<mapsto> sample_retained\<lparr>rs_promoted := False\<rparr>]\<rparr>"

definition sample_free :: speech where
  "sample_free = new_speech\<lparr>sp_offer := Some 9, sp_requests := [0 \<mapsto> sample_asking],
     sp_phases := [0 \<mapsto> LeaseOver (Inr ())], sp_resources := [7 \<mapsto> sample_retained],
     sp_offers := [9 \<mapsto> sample_speech_offer Watching]\<rparr>"

definition sample_given :: "lease_phase \<Rightarrow> watch_phase \<Rightarrow> nat list \<Rightarrow> speech" where
  "sample_given p w handed = new_speech\<lparr>sp_owner := Some 1, sp_active := True,
     sp_requests := [0 \<mapsto> sample_asking, 1 \<mapsto> sample_claiming], sp_phases := [0 \<mapsto> LeaseOver (Inr ()), 1 \<mapsto> p],
     sp_resources := [7 \<mapsto> sample_retained], sp_offers := [9 \<mapsto> sample_speech_offer w], sp_handed := handed\<rparr>"

lemma sample_kept_reachable: "speech_reachable sample_digest sample_kept"
proof -
  have "speech_step sample_digest new_speech (AskLease 0 sample_asking)
      (admit sample_digest 0 sample_asking (new_speech\<lparr>sp_requests := (sp_requests new_speech)(0 := Some sample_asking)\<rparr>))"
    by (rule speech_step.asks) (simp_all add: new_speech_def sample_asking_def SPEECH_SESSION_CLEANUP_ADMISSION_TIMEOUT_SECONDS_def)
  then have "speech_reachable sample_digest (sample_kept\<lparr>sp_resources := \<lambda>_. None\<rparr>)"
    using speech_reachable.step [OF speech_reachable.start]
    by (simp add: admit_def acquire_def hold_def set_phase_def refresh_active_def new_speech_def sample_kept_def)
  moreover have "speech_step sample_digest (sample_kept\<lparr>sp_resources := \<lambda>_. None\<rparr>) (KeepSession 0 7 ''cove'' None)
      (retain_session 0 7 ''cove'' None (sample_kept\<lparr>sp_resources := \<lambda>_. None\<rparr>))"
    by (rule speech_step.keeps [where ret = None]) (simp_all add: sample_kept_def)
  ultimately show ?thesis
    using speech_reachable.step by (simp add: retain_session_def sample_kept_def sample_retained_def)
qed

lemma sample_free_reachable: "speech_reachable sample_digest sample_free"
proof -
  let ?held = "sample_free\<lparr>sp_owner := Some 0, sp_active := True, sp_phases := [0 \<mapsto> LeaseHeld None]\<rparr>"
  have "speech_step sample_digest sample_kept (OfferSession 0 9 ''t'' 7)
      (offer_speech_session sample_digest 0 None 9 ''t'' 7 (sample_retained\<lparr>rs_promoted := False\<rparr>) sample_kept)"
    by (rule speech_step.offers) (simp_all add: sample_kept_def sample_retained_def new_speech_def)
  also have "offer_speech_session sample_digest 0 None 9 ''t'' 7 (sample_retained\<lparr>rs_promoted := False\<rparr>) sample_kept = ?held"
    by (simp add: offer_speech_session_def new_offer_def publish_def set_phase_def change_resource_def sample_kept_def
        sample_free_def sample_retained_def sample_speech_offer_def sample_digest_def new_speech_def
        SPEECH_SESSION_HANDOFF_TTL_SECONDS_def Let_def)
  finally have held: "speech_reachable sample_digest ?held" by (rule speech_reachable.step [OF sample_kept_reachable])
  have "speech_step sample_digest ?held (BodyEnds 0 [7] (Inr ())) (end_body 0 None [7] (Inr ()) ?held)"
    by (rule speech_step.ends) (simp_all add: all_kept_def sample_free_def sample_retained_def)
  also have "end_body 0 None [7] (Inr ()) ?held = sample_free"
    by (simp add: end_body_def close_unoffered_def leave_lease_def release_owner_def set_phase_def refresh_active_def
        sample_free_def sample_retained_def new_speech_def)
  finally show ?thesis by (rule speech_reachable.step [OF held])
qed

lemma sample_given_reachable: "speech_reachable sample_digest (sample_given (LeaseHeld (Some 7)) WatchOver [7])"
proof -
  let ?asked = "sample_free\<lparr>sp_requests := (sp_requests sample_free)(1 := Some sample_claiming)\<rparr>"
  have "speech_step sample_digest sample_free (AskLease 1 sample_claiming) (admit sample_digest 1 sample_claiming ?asked)"
    by (rule speech_step.asks)
      (simp_all add: sample_free_def sample_claiming_def new_speech_def SPEECH_SESSION_CLEANUP_ADMISSION_TIMEOUT_SECONDS_def)
  also have "admit sample_digest 1 sample_claiming ?asked = sample_given (LeaseStopsWatch 9 (Some 7)) WatchStopping []"
    by (simp add: admit_def acquire_def compatible_offer_def cancel_offer_watchdog_def set_watch_def set_phase_def refresh_active_def
        sample_free_def sample_given_def sample_claiming_def sample_retained_def sample_speech_offer_def sample_digest_def
        token_text_def new_speech_def fun_upd_twist Let_def)
  finally have asked: "speech_reachable sample_digest (sample_given (LeaseStopsWatch 9 (Some 7)) WatchStopping [])"
    by (rule speech_reachable.step [OF sample_free_reachable])
  have "speech_step sample_digest (sample_given (LeaseStopsWatch 9 (Some 7)) WatchStopping []) (WatchStopped 9)
      (set_watch 9 WatchOver (sample_given (LeaseStopsWatch 9 (Some 7)) WatchStopping []))"
    by (rule speech_step.watch_stops [where offer = "sample_speech_offer WatchStopping"]) (simp_all add: sample_given_def sample_speech_offer_def)
  also have "set_watch 9 WatchOver (sample_given (LeaseStopsWatch 9 (Some 7)) WatchStopping []) =
      sample_given (LeaseStopsWatch 9 (Some 7)) WatchOver []"
    by (simp add: set_watch_def sample_given_def sample_speech_offer_def)
  finally have stopped: "speech_reachable sample_digest (sample_given (LeaseStopsWatch 9 (Some 7)) WatchOver [])"
    by (rule speech_reachable.step [OF asked])
  have "speech_step sample_digest (sample_given (LeaseStopsWatch 9 (Some 7)) WatchOver []) (LeaseSeesWatch 1)
      (after_watch 1 9 (Some 7) (sample_given (LeaseStopsWatch 9 (Some 7)) WatchOver []))"
    by (rule speech_step.sees_watch) (simp_all add: sample_given_def watch_over_def sample_speech_offer_def)
  also have "after_watch 1 9 (Some 7) (sample_given (LeaseStopsWatch 9 (Some 7)) WatchOver []) =
      sample_given (LeaseSettles 7) WatchOver []"
    by (simp add: after_watch_def set_phase_def sample_given_def sample_speech_offer_def sample_retained_def new_speech_def)
  finally have settles: "speech_reachable sample_digest (sample_given (LeaseSettles 7) WatchOver [])"
    by (rule speech_reachable.step [OF stopped])
  have "speech_step sample_digest (sample_given (LeaseSettles 7) WatchOver []) (LeaseSettled 1 True)
      (after_settling 1 7 True (sample_given (LeaseSettles 7) WatchOver []))"
    by (rule speech_step.settles) (simp add: sample_given_def)
  also have "after_settling 1 7 True (sample_given (LeaseSettles 7) WatchOver []) = sample_given (LeaseHeld (Some 7)) WatchOver [7]"
    by (simp add: after_settling_def hold_def set_phase_def sample_given_def)
  finally show ?thesis by (rule speech_reachable.step [OF settles])
qed

theorem speech_channel_is_exclusive_witness:
  "sp_phases (sample_given (LeaseHeld (Some 7)) WatchOver [7]) 1 = Some (LeaseHeld (Some 7))
   \<and> sp_owner (sample_given (LeaseHeld (Some 7)) WatchOver [7]) = Some 1"
proof -
  let ?s = "sample_given (LeaseHeld (Some 7)) WatchOver [7]"
  have "sp_phases ?s 1 = Some (LeaseHeld (Some 7))" by (simp add: sample_given_def)
  with speech_channel_is_exclusive [OF sample_given_reachable] show ?thesis by fastforce
qed

theorem retained_sessions_are_owned_witness:
  "distinct (sp_handed (sample_given (LeaseHeld (Some 7)) WatchOver [7]))
   \<and> (\<exists>o' offer. sp_offer sample_free = Some o' \<and> sp_offers sample_free o' = Some offer \<and> of_resource offer = 7)"
proof -
  have "sp_resources sample_free 7 = Some sample_retained" "rs_close sample_retained = Unclosed" "sp_owner sample_free = None"
    by (simp_all add: sample_free_def sample_retained_def new_speech_def)
  with retained_sessions_are_owned [OF sample_free_reachable]
  have "\<exists>o' offer. sp_offer sample_free = Some o' \<and> sp_offers sample_free o' = Some offer \<and> of_resource offer = 7" by fastforce
  moreover have "distinct (sp_handed (sample_given (LeaseHeld (Some 7)) WatchOver [7]))"
    using retained_sessions_are_owned [OF sample_given_reachable] by blast
  ultimately show ?thesis by blast
qed

end
