(* ===== verification/Handoff_Round_Trip.thy ===== *)
theory Handoff_Round_Trip
  imports Handoff_Safety Speech_Leases Bridge_Client Json_Transport
begin

text \<open>
  The two ends of the speech handoff composed: the request of Home Assistant's client is one the bridge
  accepts, the ticket the bridge offers for it is one the client stores, and the synthesis that claims the ticket
  is given the retained session. \<^verbatim>\<open>SPEECH_SESSION_HANDOFF_ENABLED\<close> is off in this version of the bridge, so no
  transcription retains a session yet.
\<close>

section \<open>The bridge's checks\<close>

definition SPEECH_SESSION_HANDOFF_ENABLED :: bool where "SPEECH_SESSION_HANDOFF_ENABLED = False"

definition normalize_speech_handoff_language :: "json \<Rightarrow> string option" where
  "normalize_speech_handoff_language v =
     (case text_of v of
        None \<Rightarrow> None
      | Some s \<Rightarrow>
          (case split_on (CHR ''-'') (map (\<lambda>c. if c = CHR ''_'' then CHR ''-'' else c) (strip s)) of
             [] \<Rightarrow> None
           | primary # parts \<Rightarrow>
               if primary = [] \<or> list_ex (\<lambda>part. part = []) (primary # parts) then None
               else Some (join_with ''-'' (lower primary # map normal_part parts))))"

definition validate_speech_session_handoff ::
    "(string \<Rightarrow> py_error) \<Rightarrow> json \<Rightarrow> (string option \<times> string option) result" where
  "validate_speech_session_handoff error_type v =
     (if v = JNull then Inr (None, None)
      else case obj_of v of
        None \<Rightarrow> Inl (error_type ''speech_session_handoff must be an object'')
      | Some m \<Rightarrow>
          if strict_int_of (jget m ''version'') \<noteq> Some BRIDGE_HANDOFF_VERSION
          then Inl (error_type (''version must be '' @ int_text BRIDGE_HANDOFF_VERSION))
          else (case text_of (jget m ''voice'') of
                  None \<Rightarrow> Inl (error_type ''speech_session_handoff voice must be a non-empty string'')
                | Some voice_text \<Rightarrow>
                    if strip voice_text = []
                    then Inl (error_type ''speech_session_handoff voice must be a non-empty string'')
                    else if 64 < length (lower (strip voice_text))
                    then Inl (error_type ''speech_session_handoff voice is too long'')
                    else (case normalize_speech_handoff_language (jget m ''language'') of
                            None \<Rightarrow> Inl (error_type ''speech_session_handoff language must be a non-empty language tag'')
                          | Some language \<Rightarrow> Inr (Some (lower (strip voice_text)), Some language))))"

definition require_stream_integer :: "obj \<Rightarrow> string \<Rightarrow> int \<Rightarrow> unit result" where
  "require_stream_integer message key expected =
     raise_if (strict_int_of (jget message key) \<noteq> Some expected) (ProtocolError (key @ '' must be '' @ int_text expected))"

text \<open>The start message of a transcription stream; the stream's own error is a kind of \<^verbatim>\<open>ProtocolError\<close>.\<close>

record stream_start =
  ss_payload :: obj
  ss_sample_rate :: int
  ss_language :: "string option"
  ss_prompt :: "string option"
  ss_handoff_voice :: "string option"

definition stream_text_field :: "obj \<Rightarrow> string \<Rightarrow> string option result" where
  "stream_text_field message key =
     (if has_key message key \<and> \<not> is_text (jget message key) then Inl (ProtocolError (key @ '' must be a string''))
      else Inr (text_of (jget message key)))"

definition validate_transcription_stream_start :: "obj \<Rightarrow> stream_start result" where
  "validate_transcription_stream_start message =
     (if jget message ''type'' \<noteq> JStr ''start''
      then Inl (ProtocolError (''first transcription message must have type '' @ repr_text ''start''))
      else bind_result (require_stream_integer message ''protocol_version'' 1) (\<lambda>_.
      if jget message ''format'' \<noteq> JStr ''pcm'' then Inl (ProtocolError (''format must be '' @ repr_text ''pcm''))
      else if jget message ''codec'' \<noteq> JStr ''pcm'' then Inl (ProtocolError (''codec must be '' @ repr_text ''pcm''))
      else (case strict_int_of (jget message ''sample_rate'') of
              None \<Rightarrow> Inl (ProtocolError ''sample_rate must be 16000 or 48000'')
            | Some sample_rate \<Rightarrow>
                if sample_rate \<notin> {16000, 48000} then Inl (ProtocolError ''sample_rate must be 16000 or 48000'')
                else
                  bind_result (require_stream_integer message ''bit_rate'' 16) (\<lambda>_.
                  bind_result (require_stream_integer message ''channels'' 1) (\<lambda>_.
                  bind_result (stream_text_field message ''language'') (\<lambda>language.
                  bind_result (stream_text_field message ''prompt'') (\<lambda>prompt.
                  bind_result (validate_speech_session_handoff ProtocolError (jget message ''speech_session_handoff''))
                    (\<lambda>(handoff_voice, handoff_language).
                  if handoff_voice \<noteq> None
                     \<and> handoff_language \<noteq> normalize_speech_handoff_language (case language of None \<Rightarrow> JNull | Some t \<Rightarrow> JStr t)
                  then Inl (ProtocolError ''speech_session_handoff language must match transcription language'')
                  else Inr \<lparr>ss_payload = optional_text_field ''language'' language @ optional_text_field ''prompt'' prompt,
                            ss_sample_rate = sample_rate, ss_language = language, ss_prompt = prompt,
                            ss_handoff_voice = handoff_voice\<rparr>))))))))"

definition stream_retained_voice :: "bool \<Rightarrow> stream_start \<Rightarrow> string option" where
  "stream_retained_voice v3 start = (if SPEECH_SESSION_HANDOFF_ENABLED \<and> v3 then ss_handoff_voice start else None)"

definition stream_retained_language :: "stream_start \<Rightarrow> string option" where
  "stream_retained_language start =
     normalize_speech_handoff_language (case ss_language start of None \<Rightarrow> JNull | Some t \<Rightarrow> JStr t)"

text \<open>The lease a synthesis asks for; its deadline is the model's.\<close>

definition synthesis_lease_request :: "obj \<Rightarrow> rat \<Rightarrow> lease_request" where
  "synthesis_lease_request payload deadline =
     \<lparr>lr_token = jget payload ''speech_session_handoff_token'',
      lr_voice = map_option lower (non_empty_text (jget payload ''voice'')),
      lr_language = normalize_speech_handoff_language (jget payload ''language''),
      lr_instructions = non_empty_text (jget payload ''instructions'') \<noteq> None,
      lr_deadline = deadline\<rparr>"

section \<open>Languages\<close>

definition no_separator :: "string \<Rightarrow> bool" where
  "no_separator w \<longleftrightarrow> w \<noteq> [] \<and> CHR ''-'' \<notin> set w \<and> CHR ''_'' \<notin> set w"

lemma split_parts: "w \<in> set (split_on c s) \<Longrightarrow> c \<notin> set w \<and> set w \<subseteq> set s"
proof (induction s arbitrary: w)
  case (Cons a s)
  then show ?case by (cases "split_on c s") (fastforce split: if_splits)+
qed simp

lemma char_is: "d = CHR ''-'' \<longleftrightarrow> ord_of d = 45" "d = CHR ''_'' \<longleftrightarrow> ord_of d = 95"
proof -
  have "(of_char d = (of_char (CHR ''-'') :: nat)) = (d = CHR ''-'')" "(of_char d = (of_char (CHR ''_'') :: nat)) = (d = CHR ''_'')"
    by (simp_all only: of_char_eq_iff)
  then show "d = CHR ''-'' \<longleftrightarrow> ord_of d = 45" "d = CHR ''_'' \<longleftrightarrow> ord_of d = 95" by (simp_all add: ord_of_def)
qed

lemma lower_char_plain:
  "lower_char c = CHR ''-'' \<longleftrightarrow> c = CHR ''-''" "lower_char c = CHR ''_'' \<longleftrightarrow> c = CHR ''_''"
  "is_space (lower_char c) \<longleftrightarrow> is_space c"
  by (auto simp: char_is lower_char_def is_space_def char_classes ord_of_char_of)

lemma upper_latin_plain:
  "is_alpha_latin c \<Longrightarrow> d \<in> set (upper_latin c) \<Longrightarrow> d \<noteq> CHR ''-'' \<and> d \<noteq> CHR ''_'' \<and> \<not> is_space d"
  by (auto simp: char_is is_alpha_latin_def upper_latin_def is_space_def char_classes ord_of_char_of split: if_splits)
    (simp_all add: ord_of_def)

lemma upper_latin_nonempty [simp]: "upper_latin c \<noteq> []"
  by (simp add: upper_latin_def)

lemma upper_latin_again: "upper_latin c = [d] \<Longrightarrow> upper_latin d = [d]"
  by (auto simp: upper_latin_def char_classes ord_of_char_of split: if_splits)

lemma normal_part_cases:
  obtains "normal_part w = w"
  | a b where "w = [a, b]" "is_alpha_latin a" "is_alpha_latin b" "normal_part w = upper_latin a @ upper_latin b"
proof (cases "length w = 2 \<and> list_all is_alpha_latin w")
  case True
  then obtain a b where "w = [a, b]" by (auto simp: length_Suc_conv numeral_2_eq_2)
  with True show ?thesis using that(2) by (simp add: normal_part_def)
next
  case False
  then show ?thesis using that(1) by (auto simp: normal_part_def)
qed

lemma normal_part_idem: "normal_part (normal_part w) = normal_part w"
proof (cases rule: normal_part_cases [of w])
  case (2 a b)
  show ?thesis
  proof (cases "length (upper_latin a @ upper_latin b) = 2")
    case True
    then have "length (upper_latin a) = 1" "length (upper_latin b) = 1"
      using upper_latin_nonempty [of a] upper_latin_nonempty [of b] by (cases "upper_latin a"; cases "upper_latin b"; force)+
    then obtain d e where "upper_latin a = [d]" "upper_latin b = [e]" by (auto simp: length_Suc_conv)
    with 2 show ?thesis by (simp add: normal_part_def upper_latin_again)
  next
    case False
    then show ?thesis unfolding 2(4) by (auto simp: normal_part_def)
  qed
qed simp

lemma normal_part_plain: "no_separator w \<Longrightarrow> no_separator (normal_part w)"
  by (cases rule: normal_part_cases [of w]) (auto simp: no_separator_def dest: upper_latin_plain)

lemma normal_part_last: "w \<noteq> [] \<Longrightarrow> \<not> is_space (last w) \<Longrightarrow> \<not> is_space (last (normal_part w))"
proof (cases rule: normal_part_cases [of w])
  case (2 a b)
  then have "last (normal_part w) \<in> set (upper_latin b)" by simp
  then show ?thesis using 2(3) upper_latin_plain by blast
qed simp

lemma lower_plain: "no_separator w \<Longrightarrow> no_separator (lower w)"
  by (auto simp: no_separator_def lower_def image_iff lower_char_plain lower_char_plain(1,2) [THEN arg_cong [where f = Not]]
      dest: sym [THEN lower_char_plain(1) [THEN iffD1]] sym [THEN lower_char_plain(2) [THEN iffD1]])

lemma lower_lower: "lower (lower s) = lower s"
  by (simp add: lower_def)

text \<open>A normal tag: its parts are not empty, have no separator, and no space at the ends.\<close>

definition plain_tag :: "string list \<Rightarrow> bool" where
  "plain_tag ws \<longleftrightarrow> ws \<noteq> [] \<and> list_all no_separator ws \<and> \<not> is_space (hd (hd ws)) \<and> \<not> is_space (last (last ws))"

lemma join_ends:
  assumes "ws \<noteq> []" "list_all no_separator ws"
  shows "join_with ''-'' ws \<noteq> []" "hd (join_with ''-'' ws) = hd (hd ws)" "last (join_with ''-'' ws) = last (last ws)"
proof -
  have "join_with ''-'' ws \<noteq> [] \<and> last (join_with ''-'' ws) = last (last ws)" using assms
  proof (induction ws)
    case (Cons w ws)
    then show ?case by (cases "ws = []") (auto simp: join_with_Cons no_separator_def)
  qed simp
  then show "join_with ''-'' ws \<noteq> []" "last (join_with ''-'' ws) = last (last ws)" by simp_all
  show "hd (join_with ''-'' ws) = hd (hd ws)"
    using assms by (cases ws; cases "tl ws") (auto simp: join_with_Cons no_separator_def)
qed

lemma join_no_low: "list_all no_separator ws \<Longrightarrow> CHR ''_'' \<notin> set (join_with ''-'' ws)"
proof (induction ws)
  case (Cons w ws)
  then show ?case by (cases "ws = []") (auto simp: join_with_Cons no_separator_def)
qed simp

lemma plain_tag_read:
  assumes "plain_tag ws"
  shows "split_on (CHR ''-'') (map (\<lambda>c. if c = CHR ''_'' then CHR ''-'' else c) (strip (join_with ''-'' ws))) = ws"
proof -
  have w: "ws \<noteq> []" "list_all no_separator ws" using assms by (simp_all add: plain_tag_def)
  have "strip (join_with ''-'' ws) = join_with ''-'' ws"
    using assms by (intro strip_trimmed) (simp_all add: plain_tag_def join_ends)
  moreover have "map (\<lambda>c. if c = CHR ''_'' then CHR ''-'' else c) (join_with ''-'' ws) = join_with ''-'' ws"
    using join_no_low [OF w(2)] by (intro map_idI) auto
  ultimately show ?thesis using w split_join [of ws "CHR ''-''"] by (auto simp: list_all_iff no_separator_def)
qed

lemma normal_tag:
  assumes "split_on (CHR ''-'') (map (\<lambda>c. if c = CHR ''_'' then CHR ''-'' else c) (strip s)) = primary # parts"
    and "\<not> list_ex (\<lambda>part. part = []) (primary # parts)"
  shows "plain_tag (lower primary # map normal_part parts)"
proof -
  let ?swap = "\<lambda>c. if c = CHR ''_'' then CHR ''-'' else c"
  have parts: "no_separator w" if "w \<in> set (primary # parts)" for w
    using split_parts [of w "CHR ''-''" "map ?swap (strip s)"] assms that
    by (auto simp: no_separator_def list_ex_iff)
  then have plain: "list_all no_separator (primary # parts)" by (simp add: list_all_iff)
  have join: "join_with ''-'' (primary # parts) = map ?swap (strip s)"
    using join_split_on [of "CHR ''-''" "map ?swap (strip s)"] assms(1) by simp
  have ne: "strip s \<noteq> []" using join_ends(1) [OF _ plain] join by force
  have space: "is_space (?swap c) \<longleftrightarrow> is_space c" for c by (simp add: is_space_def char_classes ord_of_def)
  have "\<not> is_space (hd (map ?swap (strip s)))" "\<not> is_space (last (map ?swap (strip s)))"
    using strip_ends [OF ne] ne by (simp_all add: hd_map last_map space del: if_split)
  then have ends: "\<not> is_space (hd primary)" "\<not> is_space (last (last (primary # parts)))"
    using join_ends(2,3) [OF _ plain] join by (simp_all del: join_with.simps)
  have "\<not> is_space (last (last (lower primary # map normal_part parts)))"
  proof (cases "parts = []")
    case True
    then show ?thesis using ends(2) parts [of primary] by (simp add: lower_def last_map lower_char_plain no_separator_def)
  next
    case False
    then have "\<not> is_space (last (normal_part (last parts)))"
      using ends(2) parts [of "last parts"] by (intro normal_part_last) (simp_all add: no_separator_def)
    with False show ?thesis by (simp add: last_map)
  qed
  moreover have "\<not> is_space (hd (lower primary))"
    using ends(1) parts [of primary] by (simp add: lower_def hd_map lower_char_plain no_separator_def)
  moreover have "list_all no_separator (lower primary # map normal_part parts)"
    using plain by (simp add: list_all_iff lower_plain normal_part_plain)
  ultimately show ?thesis by (simp add: plain_tag_def)
qed

lemma normal_tag_again:
  assumes "plain_tag (lower primary # map normal_part parts)"
  shows "normalize_speech_language (join_with ''-'' (lower primary # map normal_part parts)) =
      join_with ''-'' (lower primary # map normal_part parts)"
    "normalize_speech_handoff_language (JStr (join_with ''-'' (lower primary # map normal_part parts))) =
      Some (join_with ''-'' (lower primary # map normal_part parts))"
proof -
  have "\<not> list_ex (\<lambda>part. part = []) (lower primary # map normal_part parts)"
    using assms by (auto simp: plain_tag_def list_all_iff list_ex_iff no_separator_def)
  then show "normalize_speech_language (join_with ''-'' (lower primary # map normal_part parts)) =
      join_with ''-'' (lower primary # map normal_part parts)"
    "normalize_speech_handoff_language (JStr (join_with ''-'' (lower primary # map normal_part parts))) =
      Some (join_with ''-'' (lower primary # map normal_part parts))"
    unfolding normalize_speech_language_def normalize_speech_handoff_language_def plain_tag_read [OF assms]
    by (simp_all del: join_with.simps add: plain_tag_read [OF assms] lower_lower normal_part_idem comp_def)
qed

text \<open>Both programs normalize a language alike, and a normal language is its own normal form.\<close>

lemma bridge_normal_language:
  "normalize_speech_handoff_language (JStr s) =
     (if normalize_speech_language s = [] then None else Some (normalize_speech_language s))"
proof (cases "split_on (CHR ''-'') (map (\<lambda>c. if c = CHR ''_'' then CHR ''-'' else c) (strip s))")
  case (Cons primary parts)
  show ?thesis
  proof (cases "list_ex (\<lambda>part. part = []) (primary # parts)")
    case True
    with Cons show ?thesis by (auto simp: normalize_speech_handoff_language_def normalize_speech_language_def)
  next
    case False
    from normal_tag [OF Cons False] have "join_with ''-'' (lower primary # map normal_part parts) \<noteq> []"
      by (intro join_ends(1)) (simp_all add: plain_tag_def)
    with Cons False show ?thesis
      by (simp add: normalize_speech_handoff_language_def normalize_speech_language_def del: join_with.simps)
  qed
qed simp

lemma normal_language_idem: "normalize_speech_language (normalize_speech_language s) = normalize_speech_language s"
proof (cases "normalize_speech_language s = []")
  case True
  then show ?thesis by (simp add: normalize_speech_language_def strip_def)
next
  case False
  then obtain primary parts where
    "split_on (CHR ''-'') (map (\<lambda>c. if c = CHR ''_'' then CHR ''-'' else c) (strip s)) = primary # parts"
    "\<not> list_ex (\<lambda>part. part = []) (primary # parts)"
    by (auto simp: normalize_speech_language_def split: list.splits if_splits)
  from normal_tag_again(1) [OF normal_tag [OF this]] this show ?thesis
    by (simp add: normalize_speech_language_def del: join_with.simps)
qed

section \<open>The handoff from end to end\<close>

lemma normal_language_read:
  assumes "normalize_speech_language language = tag" "tag \<noteq> []"
  shows "normalize_speech_handoff_language (JStr language) = Some tag" "normalize_speech_handoff_language (JStr tag) = Some tag"
    "normalize_speech_language tag = tag"
  using assms normal_language_idem [of language] by (simp_all add: bridge_normal_language)

lemma begun_request:
  assumes "begin_handoff client language c h = (Some q, h1)"
  shows "hq_client q = client" "hq_language q = normalize_speech_language language" "hq_language q \<noteq> []"
    "c < length (hf_contexts h) \<Longrightarrow> cx_session (hf_contexts h1 ! c) = Some (hq_session q)
       \<and> cx_preparation (hf_contexts h1 ! c) = Some (hq_preparation q) \<and> cx_pending (hf_contexts h1 ! c) = None"
  using assms
  by (auto simp: begin_handoff_def revoke_pending_def set_pending_def schedule_release_def use_ticket_def Let_def
      split: option.splits if_splits)

lemma delivered_message:
  assumes "delivers dump loads deliver" "dump (JObj m) = Inr t" "loads t = Some (JObj m')"
  shows "map_of m' k = map_option deliver (map_of m k)"
proof -
  obtain m'' where "deliver (JObj m) = JObj m''" "\<And>k. map_of m'' k = map_option deliver (map_of m k)"
    using delivers_object [OF assms(1)] by metis
  moreover have "deliver (JObj m) = JObj m'" using delivers_text [OF assms(1,2)] assms(3) by simp
  ultimately show ?thesis by simp
qed

lemma delivered_request:
  assumes d: "delivers dump loads deliver"
    and voice: "lower (strip v) = v" "v \<noteq> []" "length v \<le> 64"
    and tag: "normalize_speech_language tag = tag" "tag \<noteq> []"
  shows "validate_speech_session_handoff error_type
      (deliver (JObj [(''version'', JInt 1), (''voice'', JStr v), (''language'', JStr tag)])) = Inr (Some v, Some tag)"
proof -
  let ?m = "[(''version'', JInt 1), (''voice'', JStr v), (''language'', JStr tag)]"
  obtain m' where m': "deliver (JObj ?m) = JObj m'" "\<And>k. map_of m' k = map_option deliver (map_of ?m k)"
    using delivers_object [OF d] by blast
  have "jget m' ''version'' = JInt 1" "jget m' ''voice'' = JStr v" "jget m' ''language'' = JStr tag"
    using delivers_scalars [OF d] by (simp_all add: jget_def m'(2))
  moreover have "strip v \<noteq> []" using voice(1,2) by (auto simp: lower_def)
  moreover have "length (strip v) \<le> 64" using voice(1,3) length_lower [of "strip v"] by simp
  ultimately show ?thesis
    unfolding validate_speech_session_handoff_def m'(1)
    using voice tag by (simp add: BRIDGE_HANDOFF_VERSION_def bridge_normal_language)
qed

lemma delivered_start:
  assumes d: "delivers dump loads deliver"
    and voice: "lower (strip v) = v" "v \<noteq> []" "length v \<le> 64"
    and start: "transcription_start metadata prompt = Inr message" "jget metadata ''language'' = JStr language"
      "jget metadata ''sample_rate'' = JInt rate" "rate \<in> {16000, 48000}" "jget metadata ''bit_rate'' = JInt 16"
      "jget metadata ''channels'' = JInt 1"
    and tag: "normalize_speech_language language = tag" "tag \<noteq> []"
    and sent: "dump (JObj (add_handoff_request (Some (v, tag)) message)) = Inr t" "loads t = Some (JObj m)"
  shows "\<exists>s. validate_transcription_stream_start m = Inr s \<and> ss_handoff_voice s = Some v
    \<and> stream_retained_language s = Some tag \<and> ss_language s = Some language \<and> ss_sample_rate s = rate"
proof -
  have language: "language \<noteq> []"
    using start(1,2) by (auto simp: transcription_start_def non_empty_text_def bind_result_def split: sum.splits if_splits)
  have message: "message = [(''type'', JStr ''start''), (''protocol_version'', JInt 1), (''format'', JStr ''pcm''),
        (''codec'', JStr ''pcm''), (''sample_rate'', JInt rate), (''bit_rate'', JInt 16), (''channels'', JInt 1),
        (''language'', JStr language)] @ optional_text_field ''prompt'' prompt"
    using start language
    by (auto simp: transcription_start_def positive_int_field_def non_empty_text_def bind_result_def optional_text_field_def
        split: option.splits)
  note fields = delivered_message [OF d sent] delivers_scalars [OF d]
  have plain: "jget m ''type'' = JStr ''start''" "jget m ''protocol_version'' = JInt 1" "jget m ''format'' = JStr ''pcm''"
    "jget m ''codec'' = JStr ''pcm''" "jget m ''sample_rate'' = JInt rate" "jget m ''bit_rate'' = JInt 16"
    "jget m ''channels'' = JInt 1" "jget m ''language'' = JStr language" "has_key m ''language''"
    by (simp_all add: jget_def has_key_def fields add_handoff_request_def message)
  have handoff: "jget m ''speech_session_handoff'' =
      deliver (JObj [(''version'', JInt 1), (''voice'', JStr v), (''language'', JStr tag)])"
    by (simp add: jget_def fields(1) add_handoff_request_def)
  have "jget m ''prompt'' = JNull \<and> \<not> has_key m ''prompt'' \<or> (\<exists>w. jget m ''prompt'' = JStr w)"
    by (cases prompt) (auto simp: jget_def has_key_def fields add_handoff_request_def message optional_text_field_def)
  then have prompt: "stream_text_field m ''prompt'' = Inr (text_of (jget m ''prompt''))"
    by (auto simp: stream_text_field_def)
  have "normalize_speech_language tag = tag" by (rule normal_language_read [OF tag])
  from delivered_request [OF d voice this tag(2)]
  have "validate_speech_session_handoff ProtocolError (jget m ''speech_session_handoff'') = Inr (Some v, Some tag)"
    by (simp add: handoff)
  then show ?thesis
    using start(4) normal_language_read(1) [OF tag] prompt
    by (simp add: validate_transcription_stream_start_def require_stream_integer_def raise_if_def bind_result_def plain
        stream_text_field_def [of m "''language''"] stream_retained_language_def)
qed

lemma delivered_offer:
  assumes d: "delivers dump loads deliver"
    and x: "rs_voice x = v" "v \<noteq> []" "rs_language x = Some tag" "tag \<noteq> []" and token: "token \<noteq> []" "length token \<le> 4096"
    and reply: "jget reply ''speech_session_handoff'' = JObj (offer_response token x)"
    and sent: "dump (JObj reply) = Inr t" "loads t = Some (JObj answer)"
  shows "handoff_metadata_of answer = Some \<lparr>hm_token = token, hm_expires_in_ms = 30000, hm_voice = v, hm_language = tag\<rparr>"
proof -
  obtain m' where m': "deliver (JObj (offer_response token x)) = JObj m'"
    "\<And>k. map_of m' k = map_option deliver (map_of (offer_response token x) k)"
    using delivers_object [OF d] by blast
  have "jget answer ''speech_session_handoff'' = JObj m'"
    using jget_obj_field [OF reply] delivered_message [OF d sent] m'(1) by (simp add: jget_def)
  moreover have "round (SPEECH_SESSION_HANDOFF_TTL_SECONDS * 1000) = 30000"
    by (simp add: SPEECH_SESSION_HANDOFF_TTL_SECONDS_def)
  then have "jget m' ''version'' = JInt 1" "jget m' ''token'' = JStr token" "jget m' ''expires_in_ms'' = JInt 30000"
    "jget m' ''voice'' = JStr v" "jget m' ''language'' = JStr tag"
    using x delivers_scalars [OF d]
    by (simp_all add: jget_def m'(2) offer_response_def BRIDGE_HANDOFF_VERSION_def)
  ultimately show ?thesis
    using x token by (simp add: handoff_metadata_of_def non_empty_text_def SPEECH_SESSION_HANDOFF_VERSION_def)
qed

lemma stored_then_claimed:
  assumes begun: "begin_handoff client language c h = (Some q, h1)" "c < length (hf_contexts h)"
    and kept: "c < length (hf_contexts h2)" "hf_contexts h2 ! c = hf_contexts h1 ! c"
      "pp_consumed (hf_preparations h2 ! hq_preparation q)"
    and answer: "handoff_metadata_of answer =
        Some \<lparr>hm_token = token, hm_expires_in_ms = 30000, hm_voice = hq_voice q, hm_language = hq_language q\<rparr>"
    and soon: "0 \<le> d" "d < 30" and tag: "normalize_speech_language language' = hq_language q"
    and marker: "equals_int (jget options SPEECH_SESSION_HANDOFF_OPTION) SPEECH_SESSION_HANDOFF_OPTION_VALUE"
  shows "fst (claim_handoff client language' (JStr (hq_voice q)) JNull options c
      ((store_handoff client answer (Some q) c h2)\<lparr>hf_now := hf_now h2 + d\<rparr>)) =
    (Some token, dict_pop options SPEECH_SESSION_HANDOFF_OPTION)"
proof -
  note q = begun_request(1-3) [OF begun(1)] begun_request(4) [OF begun]
  have "normalize_speech_language (hq_language q) = hq_language q" by (rule normal_language_read(3) [OF q(2) [symmetric] q(3)])
  then show ?thesis
    using q kept soon marker tag
    by (simp add: store_handoff_def store_pending_def answer revoke_pending_def set_pending_def claim_handoff_def
        use_ticket_def Let_def)
qed

lemma delivered_claim:
  assumes d: "delivers dump loads deliver"
    and q: "lower v = v" "v \<noteq> []" "normalize_speech_language language' = tag" "tag \<noteq> []" "token \<noteq> []"
    and sent: "dump (JObj (synthesis_payload words language' v None (Some token) preferences)) = Inr t"
      "loads t = Some (JObj p)"
    and x: "rs_voice x = v" "rs_language x = Some tag"
    and now: "sp_now s' < sp_now s + SPEECH_SESSION_HANDOFF_TTL_SECONDS" "sp_resources s' r = Some x'" "\<not> rs_invalidated x'"
  shows "compatible_offer digest (synthesis_lease_request p deadline) (new_offer digest token r x s) s'"
proof -
  obtain a b e where pref: "preferences = (a, b, e)" by (cases preferences)
  note fields = delivered_message [OF d sent] delivers_scalars [OF d]
  have "jget p ''speech_session_handoff_token'' = JStr token" "jget p ''voice'' = JStr v" "jget p ''language'' = JStr language'"
    "jget p ''instructions'' = JNull"
    using q(5) by (auto simp: jget_def fields synthesis_payload_def pref optional_text_field_def optional_int_field_def
        split: option.splits)
  then show ?thesis
    using q x now normal_language_read(1) [OF q(3,4)]
    by (simp add: compatible_offer_def new_offer_def synthesis_lease_request_def non_empty_text_def token_text_def)
qed

text \<open>C6: The two programs hand a session over. For a pipeline that prepared a handoff, the bridge accepts the
  start message with which Home Assistant's client opens the transcription, and reads in it the voice and language
  the client asked for; if the transcription then retains a session for them and answers with its offer, the client
  stores a ticket that the pipeline's synthesis can claim for the next thirty seconds; and the lease the
  bridge is asked for with the claimed token is compatible with that offer until it expires or is invalidated.\<close>
theorem handoff_round_trip:
  assumes d: "delivers dump bridge_loads to_bridge" "delivers bridge_dump loads to_client"
    and begun: "begin_handoff client language c h = (Some q, h1)" "c < length (hf_contexts h)"
    and voice: "lower (strip (hq_voice q)) = hq_voice q" "hq_voice q \<noteq> []" "length (hq_voice q) \<le> 64"
    and start: "transcription_start metadata prompt = Inr message" "jget metadata ''language'' = JStr language"
      "jget metadata ''sample_rate'' = JInt rate" "rate \<in> {16000, 48000}" "jget metadata ''bit_rate'' = JInt 16"
      "jget metadata ''channels'' = JInt 1"
    and sent: "dump (JObj (add_handoff_request (Some (hq_voice q, hq_language q)) message)) = Inr t1"
      "bridge_loads t1 = Some (JObj m)"
    and offered: "rs_voice x = hq_voice q" "rs_language x = Some (hq_language q)" "token \<noteq> []" "length token \<le> 4096"
      "jget reply ''speech_session_handoff'' = JObj (offer_response token x)"
    and answered: "bridge_dump (JObj reply) = Inr t2" "loads t2 = Some (JObj answer)"
    and kept: "c < length (hf_contexts h2)" "hf_contexts h2 ! c = hf_contexts h1 ! c"
      "pp_consumed (hf_preparations h2 ! hq_preparation q)"
    and soon: "0 \<le> d" "d < 30" and tag: "normalize_speech_language language' = hq_language q"
    and marker: "equals_int (jget options SPEECH_SESSION_HANDOFF_OPTION) SPEECH_SESSION_HANDOFF_OPTION_VALUE"
    and spoken: "dump (JObj (synthesis_payload words language' (hq_voice q) None (Some token) preferences)) = Inr t3"
      "bridge_loads t3 = Some (JObj p)"
    and now: "sp_now s' < sp_now s + SPEECH_SESSION_HANDOFF_TTL_SECONDS" "sp_resources s' r = Some x'" "\<not> rs_invalidated x'"
  shows "(\<exists>st. validate_transcription_stream_start m = Inr st \<and> ss_handoff_voice st = Some (hq_voice q)
        \<and> stream_retained_language st = Some (hq_language q) \<and> ss_language st = Some language \<and> ss_sample_rate st = rate)
    \<and> fst (claim_handoff client language' (JStr (hq_voice q)) JNull options c
        ((store_handoff client answer (Some q) c h2)\<lparr>hf_now := hf_now h2 + d\<rparr>)) =
      (Some token, dict_pop options SPEECH_SESSION_HANDOFF_OPTION)
    \<and> compatible_offer digest (synthesis_lease_request p deadline) (new_offer digest token r x s) s'"
proof -
  note q = begun_request(2) [OF begun(1), symmetric] begun_request(3) [OF begun(1)]
  have lower: "lower (hq_voice q) = hq_voice q" using lower_lower [of "strip (hq_voice q)"] voice(1) by simp
  note metadata = delivered_offer [OF d(2) offered(1) voice(2) offered(2) q(2) offered(3-5) answered]
  show ?thesis
    using delivered_start [OF d(1) voice start q sent] stored_then_claimed [OF begun kept metadata soon tag marker]
      delivered_claim [OF d(1) lower voice(2) tag q(2) offered(3) spoken offered(1,2) now]
    by blast
qed

text \<open>A pipeline whose transcription speaks Mexican Spanish, with a serializer that writes its three messages.\<close>

definition sample_prepared :: handoffs where
  "sample_prepared = new_handoffs
     \<lparr>hf_preparations := [\<lparr>pp_client = 1, pp_session = 7, pp_voice = ''cove'', pp_consumed = False\<rparr>],
      hf_contexts := [\<lparr>cx_session = Some 7, cx_preparation = Some 0, cx_pending = None\<rparr>]\<rparr>"

definition sample_begun :: handoffs where
  "sample_begun = new_handoffs
     \<lparr>hf_preparations := [\<lparr>pp_client = 1, pp_session = 7, pp_voice = ''cove'', pp_consumed = True\<rparr>],
      hf_contexts := [\<lparr>cx_session = Some 7, cx_preparation = Some 0, cx_pending = None\<rparr>]\<rparr>"

definition sample_question :: handoff_request where
  "sample_question = \<lparr>hq_client = 1, hq_session = 7, hq_preparation = 0, hq_voice = ''cove'', hq_language = ''es-MX''\<rparr>"

lemma sample_begins: "begin_handoff 1 ''es_mx'' 0 sample_prepared = (Some sample_question, sample_begun)"
  by (simp add: begin_handoff_def sample_prepared_def sample_begun_def sample_question_def new_handoffs_def revoke_pending_def
      set_pending_def sample_language Let_def)

definition sample_speech_metadata :: obj where
  "sample_speech_metadata =
     [(''sample_rate'', JInt 16000), (''bit_rate'', JInt 16), (''channels'', JInt 1), (''language'', JStr ''es_mx'')]"

definition sample_start_message :: obj where
  "sample_start_message =
     [(''type'', JStr ''start''), (''protocol_version'', JInt 1), (''format'', JStr ''pcm''), (''codec'', JStr ''pcm''),
      (''sample_rate'', JInt 16000), (''bit_rate'', JInt 16), (''channels'', JInt 1), (''language'', JStr ''es_mx'')]"

definition sample_spanish :: retained where
  "sample_spanish = \<lparr>rs_lease = 0, rs_voice = ''cove'', rs_language = Some ''es-MX'', rs_invalidated = False,
     rs_promoted = True, rs_close = Unclosed\<rparr>"

definition sample_handoff_reply :: obj where
  "sample_handoff_reply = [(''type'', JStr ''result''), (''text'', JStr ''hola''),
     (''speech_session_handoff'', JObj (offer_response ''ticket'' sample_spanish))]"

definition sample_texts :: "(string \<times> json) list" where
  "sample_texts =
     [(''1'', JObj (add_handoff_request (Some (''cove'', ''es-MX'')) sample_start_message)), (''2'', JObj sample_handoff_reply),
      (''3'', JObj (synthesis_payload ''hola'' ''es-MX'' ''cove'' None (Some ''ticket'') (None, None, None)))]"

definition sample_text_dump :: "json \<Rightarrow> string result" where
  "sample_text_dump v =
     (case find (\<lambda>(t, v'). v' = v) sample_texts of None \<Rightarrow> Inl (TypeError []) | Some (t, v') \<Rightarrow> Inr t)"

lemma sample_texts_deliver: "delivers sample_text_dump (map_of sample_texts) (\<lambda>v. v)"
  by (rule delivers_identity) (auto simp: sample_text_dump_def sample_texts_def split: if_splits)

lemma sample_text_dumps:
  "sample_text_dump (JObj (add_handoff_request (Some (''cove'', ''es-MX'')) sample_start_message)) = Inr ''1''"
  "sample_text_dump (JObj sample_handoff_reply) = Inr ''2''"
  "sample_text_dump (JObj (synthesis_payload ''hola'' ''es-MX'' ''cove'' None (Some ''ticket'') (None, None, None))) = Inr ''3''"
  by (simp_all add: sample_text_dump_def sample_texts_def sample_handoff_reply_def sample_start_message_def add_handoff_request_def
      synthesis_payload_def optional_text_field_def)

lemma sample_starts: "transcription_start sample_speech_metadata None = Inr sample_start_message"
  by (simp add: transcription_start_def positive_int_field_def sample_speech_metadata_def sample_start_message_def
      jget_def non_empty_text_def bind_result_def)

lemma sample_plain_voice: "lower (strip ''cove'') = ''cove''"
  by code_simp

theorem handoff_round_trip_witness:
  "(\<exists>st. validate_transcription_stream_start (add_handoff_request (Some (''cove'', ''es-MX'')) sample_start_message) = Inr st
      \<and> ss_handoff_voice st = Some ''cove'' \<and> stream_retained_language st = Some ''es-MX'' \<and> ss_language st = Some ''es_mx''
      \<and> ss_sample_rate st = 16000)
   \<and> fst (claim_handoff 1 ''es-MX'' (JStr ''cove'') JNull [(SPEECH_SESSION_HANDOFF_OPTION, JInt 1)] 0
       ((store_handoff 1 sample_handoff_reply (Some sample_question) 0 sample_begun)\<lparr>hf_now := hf_now sample_begun + 2\<rparr>)) =
     (Some ''ticket'', dict_pop [(SPEECH_SESSION_HANDOFF_OPTION, JInt 1)] SPEECH_SESSION_HANDOFF_OPTION)
   \<and> compatible_offer (map (\<lambda>c. of_nat (ord_of c)))
       (synthesis_lease_request (synthesis_payload ''hola'' ''es-MX'' ''cove'' None (Some ''ticket'') (None, None, None)) 5)
       (new_offer (map (\<lambda>c. of_nat (ord_of c))) ''ticket'' 7 sample_spanish new_speech)
       (new_speech\<lparr>sp_now := 3, sp_resources := [7 \<mapsto> sample_spanish]\<rparr>)"
proof -
  have q: "hq_voice sample_question = ''cove''" "hq_language sample_question = ''es-MX''"
    by (simp_all add: sample_question_def)
  note steps = handoff_round_trip [where q = sample_question and x' = sample_spanish, unfolded q]
  show ?thesis
    by (rule steps [OF sample_texts_deliver sample_texts_deliver sample_begins _ _ _ _ sample_starts _ _ _ _ _
          sample_text_dumps(1) _ _ _ _ _ _ sample_text_dumps(2) _ _ _ _ _ _ _ _ sample_text_dumps(3)])
      (simp_all add: sample_prepared_def sample_begun_def sample_question_def new_handoffs_def sample_language sample_plain_voice
        sample_speech_metadata_def jget_def sample_spanish_def sample_texts_def sample_handoff_reply_def new_speech_def
        SPEECH_SESSION_HANDOFF_TTL_SECONDS_def SPEECH_SESSION_HANDOFF_OPTION_VALUE_def)
qed

end
