(* ===== verification/Spec2Isabelle.thy ===== *)
theory Spec2Isabelle
  imports Tool_Broker Audio WebSocket_Upgrade Device_Config Session_Run Aec Rpc_Safety Conversation_Safety Calibration_Streams Provider_Tools_Safety Managed_Answers Output_Gate_Safety Transcript_Safety Tool_Loop Bridge_Client_Safety Handoff_Safety Speech_Safety Handoff_Round_Trip
begin

text \<open>
  A verification library for the voice bridge between Home Assistant, a Codex app-server and realtime voice
  devices. The program has three parts. The bridge, \<^verbatim>\<open>src/bridge/\<close>, is an asyncio service: it owns one
  app-server process, serves conversations, transcription and synthesis to Home Assistant, and gives a voice
  device a realtime session in which the provider may call Home Assistant tools. The device client,
  \<^verbatim>\<open>src/device/thirdreality/realtime_client/\<close>, captures and plays audio over its own WebSocket. The Home
  Assistant component, \<^verbatim>\<open>src/custom_components/codex_voice/\<close>, is a client of the bridge's services and, on a
  second WebSocket, the provider of the Home Assistant tools.

  \<^bold>\<open>Theories and files.\<close>
  \<^item> Shared vocabulary. Prelude: Python results with exceptions (\<open>py_error + 'a\<close>), text, bytes, PCM16. Json:
    the values of \<^verbatim>\<open>json.loads\<close> and dictionaries as association lists in insertion order. Py_Text, Utf8,
    Float64: the parts of the standard library the code leans on. Bounded_Log and Bounded_Fifo: locales for
    the bounded logs and queues, interpreted by the broker, the JSON-RPC client, the microphone queue and the
    subscribers. Event_System: locales for components that are a step function over events (an invariant every
    event keeps, logs that only grow, states in which a part is settled), interpreted by the tool provider and
    the speech handoff. Json_Transport: what JSON text keeps of a value between two programs.
  \<^item> \<^verbatim>\<open>bridge/realtime_wire.py\<close>. Wire: what a start message negotiates, and provider events with their content
    removed.
  \<^item> \<^verbatim>\<open>bridge/tool_broker.py\<close>. Tool_Registration validates; Tool_Broker is the class \<^verbatim>\<open>HomeAssistantToolBroker\<close>
    as the record \<open>broker\<close>, each coroutine cut at its suspension points and interleaved by \<open>broker_step\<close>.
  \<^item> \<^verbatim>\<open>bridge/audio.py\<close>. Audio: the resampler and the WAV header.
  \<^item> \<^verbatim>\<open>bridge/app_server.py\<close>. App_Server is \<^verbatim>\<open>CodexAppServer\<close> with \<open>rpc_step\<close>; Rpc_Safety its invariant.
  \<^item> \<^verbatim>\<open>bridge/service.py\<close>, conversations. Conversation_Payload: the parameters sent to the app-server.
    Conversations: the cache of \<^verbatim>\<open>BridgeState\<close> and the turns of its sockets; Conversation_Safety its invariant.
    Turn_Events: which event reaches which turn of \<^verbatim>\<open>_run_conversation_socket\<close>.
  \<^item> \<^verbatim>\<open>bridge/service.py\<close>, audio levels. Calibration: the level functions and the classes
    \<^verbatim>\<open>_StreamingTranscriptionCalibrator\<close> and \<^verbatim>\<open>_StreamingTranscriptionNormalizer\<close>; Calibration_Streams their laws.
  \<^item> \<^verbatim>\<open>bridge/service.py\<close>, transcription. Transcripts: what events say the user said, and the checks of a session
    that may be kept for synthesis; Transcript_Wait: the loop of \<^verbatim>\<open>_wait_for_user_transcript\<close>; Transcript_Safety
    its laws.
  \<^item> \<^verbatim>\<open>bridge/service.py\<close>, realtime sessions (\<^verbatim>\<open>_run_realtime_socket\<close>). Provider_Tools: the tool calls of the
    provider; Provider_Tools_Safety their invariant. Managed_Turns: sessions whose answers the bridge's own
    executor gives; Managed_Safety and Managed_Answers their invariants. Output_Gate: which audio the device
    hears; Output_Gate_Safety its laws.
  \<^item> \<^verbatim>\<open>realtime_client/\<close>. WebSocket and WebSocket_Upgrade: \<^verbatim>\<open>websocket.py\<close>. Device_Config: \<^verbatim>\<open>config.py\<close>.
    Session_Parts, Session, Aec: \<^verbatim>\<open>session.py\<close>; Session_Invariant, Session_Phases and Session_Run prove its
    invariant over every interleaving of the network thread with the other threads.
  \<^item> \<^verbatim>\<open>custom_components/codex_voice/\<close>, tools (\<^verbatim>\<open>realtime_tools.py\<close>, \<^verbatim>\<open>llm_tools.py\<close>). Tool_Provider: the
    authority, its registration, one connection with its receive loop, tool tasks and sends as \<open>conn_step\<close>, and
    the loop that reconnects; Tool_Provider_Safety its invariants; Tool_Loop composes it with the bridge's broker.
  \<^item> \<^verbatim>\<open>custom_components/codex_voice/api.py\<close>. Bridge_Client: the coroutines of \<^verbatim>\<open>BridgeClient\<close>, each a function of
    what it receives; Bridge_Client_Safety its laws and its composition with Turn_Events and Audio.
    Handoff_Tickets: the tickets of the speech handoff as \<open>handoff_step\<close>; Handoff_Safety their laws.
  \<^item> \<^verbatim>\<open>bridge/service.py\<close>, the speech channel. Speech_Leases: the leases, offers, watchdogs and cleanups of
    \<^verbatim>\<open>BridgeState\<close> as the relation \<open>speech_step\<close>; Speech_Safety its invariant. Handoff_Round_Trip: the bridge's
    checks of a handoff request, and the handoff between the two programs. The bridge keeps no session for a handoff
    while its switch \<^verbatim>\<open>SPEECH_SESSION_HANDOFF_ENABLED\<close> is off, as it is in this version; the leases are in use.

  \<^bold>\<open>How the parts fit.\<close> A device's start message is built by Device_Config, travels through WebSocket and is
  negotiated by Wire (\<open>start_message_negotiates\<close>). A provider's tool call is admitted by Provider_Tools, which asks
  the broker; the broker writes to the tool socket that Tool_Registration validated and returns one outcome,
  and Provider_Tools answers the provider once. At the other end of that socket Tool_Provider runs the call:
  what it registers passes Tool_Registration (\<open>registration_is_accepted\<close>) and what its tool returns resolves the
  broker's call (\<open>tool_call_round_trip\<close>). A tool call of a conversation goes from Turn_Events over the
  conversation socket to Bridge_Client and back (\<open>conversation_tool_round_trip\<close>), and the WAV stream whose header
  Audio writes is the one Bridge_Client passes on (\<open>synthesis_stream_passes_bridge_audio\<close>). The request, the ticket
  and the claim of a speech handoff fit at both ends (\<open>handoff_round_trip\<close>). A turn of a conversation runs on a thread of the cache in
  Conversations; its events reach it through the subscribers of App_Server and the routing of Turn_Events.

  \<^bold>\<open>Conventions.\<close> A class or the captured variables of a coroutine are a record, in the order of the source; an
  exception is \<open>Inl\<close>. Between two suspension points a coroutine runs alone, so such a stretch is one function,
  and a run is any sequence of them; for the device's thread a step is one phase of its loop, where the pop of a microphone packet and its send are two
  phases, since the other threads run between them. What other
  coroutines wait for (locks, futures) is a guard of the step. A character is a code point up to 255, except
  in Utf8 and the WebSocket text messages. A float is the rational it denotes, rounded to 53 bits after each
  operation; times are exact. Loops with no structural bound are \<open>partial_function (option)\<close>, and the theorems
  about them say that they return; no fuel is used.

  \<^bold>\<open>Parameters\<close> are \<^verbatim>\<open>json.loads\<close>, the float formatter, \<^verbatim>\<open>wave.open\<close>, \<^verbatim>\<open>urlsplit\<close>, \<^verbatim>\<open>ipaddress\<close>, SHA-1 and
  SHA-256, masks and nonces, sockets, files, \<^verbatim>\<open>pactl\<close>, clocks and child processes, the identifiers the
  app-server gives out, of which only freshness is assumed, and of Home Assistant its JSON functions, the LLM API,
  schema conversion, templates, base64 and aiohttp's messages and responses. Where two programs exchange JSON the
  only assumption is \<open>delivers\<close>: a text that one serializer made parses to the value with its scalars kept and its
  objects keyed as before. A text that does not parse is a \<^verbatim>\<open>JSONDecodeError\<close>; only Bridge_Client tells the other
  exceptions of \<^verbatim>\<open>json.loads\<close> apart (\<open>parsed\<close>).

  \<^bold>\<open>Not modelled.\<close> The HTTP handlers, the transcription and synthesis attempts and the readers of the realtime
  socket of \<^verbatim>\<open>bridge/service.py\<close>; \<^verbatim>\<open>realtime.py\<close>; \<^verbatim>\<open>webrtc.py\<close> (calls of aiortc); configuration and process start; the
  entities and flows of the Home Assistant component, which are calls of the modelled client inside Home
  Assistant's framework; the scripts, deployment and latency patches, which act on systems outside the repository.
  Log messages are left out everywhere.
\<close>

end
